(* ===== verification/Prelude.thy ===== *)
theory Prelude
  imports Main "HOL-Library.Word"
begin

text \<open>
  Shared vocabulary of the development: Go's machine integers as words, byte strings,
  results of fallible calls, readers that consume a byte string, and the \<open>codec\<close>
  interface that every wire structure is shown to satisfy.
\<close>

unbundle bit_operations_syntax

section \<open>Machine integers and bytes\<close>

type_synonym byte = "8 word"
type_synonym u16 = "16 word"
type_synonym u32 = "32 word"
type_synonym u64 = "64 word"
type_synonym i32 = "32 word"
type_synonym i64 = "64 word"
type_synonym bytes = "byte list"

named_theorems codec_simps \<open>equations that evaluate a reader on the image of its writer\<close>
named_theorems codec_ok \<open>well-formedness facts of wire structures\<close>

text \<open>Go string literals as the byte strings they denote.\<close>

definition bytes_of_string :: "string \<Rightarrow> bytes" where
  "bytes_of_string s = map (\<lambda>c. of_nat (of_char c)) s"

definition string_of_bytes :: "bytes \<Rightarrow> string" where
  "string_of_bytes bs = map (\<lambda>b. char_of (unat b)) bs"

lemma string_of_bytes_of_string [simp]: "string_of_bytes (bytes_of_string s) = s"
proof -
  have "char_of (unat (of_nat (of_char c) :: byte)) = c" for c :: char
    by (simp add: unat_of_nat)
  then show ?thesis
    by (simp add: string_of_bytes_def bytes_of_string_def comp_def)
qed

lemma bytes_of_string_of_bytes [simp]: "bytes_of_string (string_of_bytes bs) = bs"
proof -
  have "unat b < 256" for b :: byte
    using unsigned_less [of b] by simp
  then have "(of_nat (of_char (char_of (unat b) :: char)) :: byte) = b" for b :: byte
    by simp
  then show ?thesis
    by (simp add: string_of_bytes_def bytes_of_string_def comp_def)
qed

lemma length_bytes_of_string [simp]: "length (bytes_of_string s) = length s"
  by (simp add: bytes_of_string_def)

lemma bytes_of_string_eq_Nil [simp]: "bytes_of_string s = [] \<longleftrightarrow> s = []"
  by (simp add: bytes_of_string_def)

lemma length_string_of_bytes [simp]: "length (string_of_bytes b) = length b"
  by (simp add: string_of_bytes_def)

section \<open>Decimal and hexadecimal text\<close>

text \<open>\<open>strconv.FormatInt\<close> / \<open>%d\<close> on a non-negative value.\<close>

definition digit_char :: "nat \<Rightarrow> char" where
  "digit_char d = char_of (48 + d)"

fun dec_string :: "nat \<Rightarrow> string" where
  "dec_string n = (if n < 10 then [digit_char n] else dec_string (n div 10) @ [digit_char (n mod 10)])"

declare dec_string.simps [simp del]

definition is_digit :: "char \<Rightarrow> bool" where
  "is_digit c \<longleftrightarrow> 48 \<le> (of_char c :: nat) \<and> (of_char c :: nat) \<le> 57"

definition digit_val :: "char \<Rightarrow> nat" where
  "digit_val c = of_char c - 48"

text \<open>The value of a digit string, read left to right as \<open>strconv.ParseInt\<close> does.\<close>

definition dec_value :: "string \<Rightarrow> nat" where
  "dec_value s = foldl (\<lambda>n c. 10 * n + digit_val c) 0 s"

lemma is_digit_digit_char [simp]: "d < 10 \<Longrightarrow> is_digit (digit_char d)"
  by (simp add: is_digit_def digit_char_def)

lemma digit_val_digit_char [simp]: "d < 10 \<Longrightarrow> digit_val (digit_char d) = d"
  by (simp add: digit_val_def digit_char_def)

lemma dec_value_append_digit [simp]: "dec_value (s @ [c]) = 10 * dec_value s + digit_val c"
  by (simp add: dec_value_def)

lemma dec_value_dec_string [simp]: "dec_value (dec_string n) = n"
proof (induction n rule: dec_string.induct)
  case (1 n)
  show ?case
  proof (cases "n < 10")
    case True
    then show ?thesis by (subst dec_string.simps) (simp add: dec_value_def)
  next
    case False
    with 1 show ?thesis by (subst dec_string.simps) simp
  qed
qed

lemma dec_string_digits: "c \<in> set (dec_string n) \<Longrightarrow> is_digit c"
proof (induction n rule: dec_string.induct)
  case (1 n)
  show ?case
  proof (cases "n < 10")
    case True
    with 1(2) show ?thesis by (simp add: dec_string.simps [of n])
  next
    case False
    with 1 show ?thesis by (auto simp: dec_string.simps [of n])
  qed
qed

lemma dec_string_nonempty [simp]: "dec_string n \<noteq> []"
  by (subst dec_string.simps) simp

lemma dec_string_inj: "dec_string m = dec_string n \<Longrightarrow> m = n"
  by (metis dec_value_dec_string)

text \<open>\<open>hex.EncodeToString\<close>: two lower-case digits per byte, high nibble first.\<close>

definition hex_digit :: "nat \<Rightarrow> char" where
  "hex_digit d = (if d < 10 then char_of (48 + d) else char_of (87 + d))"

definition hex_val :: "char \<Rightarrow> nat option" where
  "hex_val c =
     (let n = of_char c :: nat in
      if 48 \<le> n \<and> n \<le> 57 then Some (n - 48)
      else if 97 \<le> n \<and> n \<le> 102 then Some (n - 87)
      else if 65 \<le> n \<and> n \<le> 70 then Some (n - 55)
      else None)"

fun hex_encode :: "bytes \<Rightarrow> string" where
  "hex_encode [] = []"
| "hex_encode (b # bs) = hex_digit (unat b div 16) # hex_digit (unat b mod 16) # hex_encode bs"

text \<open>\<open>hex.DecodeString\<close>: fails on an odd length and on a character that is no digit.\<close>

fun hex_decode :: "string \<Rightarrow> bytes option" where
  "hex_decode [] = Some []"
| "hex_decode [c] = None"
| "hex_decode (c # d # cs) =
     (case hex_val c of None \<Rightarrow> None | Some h \<Rightarrow>
      (case hex_val d of None \<Rightarrow> None | Some l \<Rightarrow>
       (case hex_decode cs of None \<Rightarrow> None | Some bs \<Rightarrow> Some (of_nat (16 * h + l) # bs))))"

lemma hex_val_hex_digit [simp]: "d < 16 \<Longrightarrow> hex_val (hex_digit d) = Some d"
  by (auto simp: hex_val_def hex_digit_def Let_def)

lemma byte_unat_lt [simp]: "unat (b :: byte) < 256"
  using unsigned_less [of b] by simp

lemma hex_decode_encode [simp]: "hex_decode (hex_encode bs) = Some bs"
proof (induction bs)
  case (Cons b bs)
  have "unat b div 16 < 16"
    using byte_unat_lt [of b] by (simp add: less_mult_imp_div_less)
  then show ?case using Cons by simp
qed simp

lemma hex_encode_inj: "hex_encode a = hex_encode b \<Longrightarrow> a = b"
  by (metis hex_decode_encode option.inject)

lemma length_hex_encode [simp]: "length (hex_encode bs) = 2 * length bs"
  by (induction bs) auto

text \<open>Encoded bytes are hex digits only.\<close>

lemma hex_encode_chars: "hex_val c = None \<Longrightarrow> c \<notin> set (hex_encode bs)"
proof (induction bs)
  case (Cons b bs)
  have h: "hex_digit d \<noteq> c" if "d < 16" for d
    using hex_val_hex_digit [OF that] Cons.prems by auto
  have "unat b div 16 < 16"
    using byte_unat_lt [of b] by (simp add: less_mult_imp_div_less)
  then show ?case using Cons h [of "unat b div 16"] h [of "unat b mod 16"] by auto
qed simp

lemma hex_encode_no_colon: "CHR '':'' \<notin> set (hex_encode bs)"
  by (rule hex_encode_chars) (simp add: hex_val_def)

lemma hex_encode_no_underscore: "CHR ''_'' \<notin> set (hex_encode bs)"
  by (rule hex_encode_chars) (simp add: hex_val_def)

lemma split_at_separator:
  assumes "c \<notin> set a" "c \<notin> set a'" "a @ c # b = a' @ c # b'"
  shows "a = a' \<and> b = b'"
  using assms
proof (induction a arbitrary: a')
  case Nil
  then show ?case by (cases a') auto
next
  case (Cons x a)
  then show ?case by (cases a') auto
qed

section \<open>Bytes of a word\<close>

text \<open>The \<open>n\<close> low bytes of a word, least (\<open>le\<close>) or most (\<open>be\<close>) significant first.\<close>

definition le_bytes :: "nat \<Rightarrow> 'a::len word \<Rightarrow> bytes" where
  "le_bytes n w = map (\<lambda>i. ucast (drop_bit (8 * i) w)) [0..<n]"

definition be_bytes :: "nat \<Rightarrow> 'a::len word \<Rightarrow> bytes" where
  "be_bytes n w = rev (le_bytes n w)"

fun le_word :: "bytes \<Rightarrow> 'a::len word" where
  "le_word [] = 0"
| "le_word (b # bs) = ucast b OR push_bit 8 (le_word bs)"

definition be_word :: "bytes \<Rightarrow> 'a::len word" where
  "be_word bs = le_word (rev bs)"

lemma length_le_bytes [simp]: "length (le_bytes n w) = n"
  by (simp add: le_bytes_def)

lemma length_be_bytes [simp]: "length (be_bytes n w) = n"
  by (simp add: be_bytes_def)

lemma le_bytes_0 [simp]: "le_bytes 0 w = []"
  by (simp add: le_bytes_def)

lemma le_bytes_Suc: "le_bytes (Suc n) w = ucast w # le_bytes n (drop_bit 8 w)"
  by (simp add: le_bytes_def upt_conv_Cons map_Suc_upt [symmetric] comp_def add.commute del: upt_Suc)

lemma le_word_le_bytes: "le_word (le_bytes n w) = take_bit (8 * n) (w :: 'a::len word)"
proof (induction n arbitrary: w)
  case (Suc n)
  have "(ucast (ucast w :: byte) :: 'a word) OR push_bit 8 (take_bit (8 * n) (drop_bit 8 w)) =
    take_bit (8 * Suc n) w"
    by (rule bit_word_eqI)
      (auto simp: bit_or_iff bit_push_bit_iff bit_take_bit_iff bit_drop_bit_eq bit_ucast_iff)
  with Suc show ?case by (simp add: le_bytes_Suc)
qed simp

lemma le_word_le_bytes_full [simp]:
  "LENGTH('a) \<le> 8 * n \<Longrightarrow> le_word (le_bytes n w) = (w :: 'a::len word)"
  by (simp add: le_word_le_bytes) (rule bit_word_eqI, simp add: bit_take_bit_iff)

lemma be_word_be_bytes [simp]:
  "LENGTH('a) \<le> 8 * n \<Longrightarrow> be_word (be_bytes n w) = (w :: 'a::len word)"
  by (simp add: be_word_def be_bytes_def)

section \<open>Results and readers\<close>

text \<open>
  A fallible Go call returns \<open>Inl\<close> of its error or \<open>Inr\<close> of its values. A reader
  consumes a prefix of its input and returns the rest with the value; on an error the rest
  is not observed by any caller.
\<close>

type_synonym ('e, 'a) reader = "bytes \<Rightarrow> 'e + 'a \<times> bytes"

definition ret :: "'a \<Rightarrow> ('e, 'a) reader" where
  "ret x bs = Inr (x, bs)"

definition failr :: "'e \<Rightarrow> ('e, 'a) reader" where
  "failr e bs = Inl e"

definition rbind :: "('e, 'a) reader \<Rightarrow> ('a \<Rightarrow> ('e, 'b) reader) \<Rightarrow> ('e, 'b) reader" where
  "rbind p f bs = (case p bs of Inl e \<Rightarrow> Inl e | Inr (x, bs') \<Rightarrow> f x bs')"

text \<open>A loop that fills a slice of \<open>n\<close> elements, stopping at the first error.\<close>

fun read_n :: "('e, 'a) reader \<Rightarrow> nat \<Rightarrow> ('e, 'a list) reader" where
  "read_n p 0 = ret []"
| "read_n p (Suc n) = rbind p (\<lambda>x. rbind (read_n p n) (\<lambda>xs. ret (x # xs)))"

lemma ret_apply [simp]: "ret x bs = Inr (x, bs)"
  by (simp add: ret_def)

lemma failr_apply [simp]: "failr e bs = Inl e"
  by (simp add: failr_def)

lemma rbind_Inr: "p bs = Inr (x, bs') \<Longrightarrow> rbind p f bs = f x bs'"
  by (simp add: rbind_def)

lemma rbind_Inl: "p bs = Inl e \<Longrightarrow> rbind p f bs = Inl e"
  by (simp add: rbind_def)

lemma rbind_ret [simp]: "rbind (ret x) f = f x"
  by (simp add: rbind_def fun_eq_iff)

lemma rbind_assoc: "rbind (rbind p f) g = rbind p (\<lambda>x. rbind (f x) g)"
  by (auto simp: rbind_def fun_eq_iff split: sum.splits)

lemma rbind_eq_Inr:
  "rbind p f bs = Inr (y, r) \<longleftrightarrow> (\<exists>x bs'. p bs = Inr (x, bs') \<and> f x bs' = Inr (y, r))"
  by (auto simp: rbind_def split: sum.splits prod.splits)

text \<open>
  The interface of a wire structure: \<open>dec\<close> inverts \<open>enc\<close> on the values that satisfy
  \<open>ok\<close> and leaves what follows unread; whatever \<open>dec\<close> accepts satisfies \<open>ok\<close>,
  and the bytes left over are a suffix of the input.
\<close>

locale codec =
  fixes enc :: "'a \<Rightarrow> bytes"
    and dec :: "('e, 'a) reader"
    and ok :: "'a \<Rightarrow> bool"
  assumes dec_enc: "ok x \<Longrightarrow> dec (enc x @ r) = Inr (x, r)"
    and dec_ok: "dec bs = Inr (x, r) \<Longrightarrow> ok x"
    and dec_suffix: "dec bs = Inr (x, r) \<Longrightarrow> \<exists>p. bs = p @ r"
begin

lemma bind_enc [simp]: "ok x \<Longrightarrow> rbind dec f (enc x @ r) = f x r"
  by (simp add: rbind_def dec_enc)

lemma enc_inj:
  assumes "ok x" "ok y" "enc x @ r = enc y @ s"
  shows "x = y \<and> r = s"
  using dec_enc [OF assms(1), of r] dec_enc [OF assms(2), of s] unfolding assms(3) by simp

lemma read_n_enc:
  "list_all ok xs \<Longrightarrow> read_n dec (length xs) (concat (map enc xs) @ r) = Inr (xs, r)"
  by (induction xs) (simp_all add: rbind_def dec_enc)

lemma bind_read_n_enc:
  "list_all ok xs \<Longrightarrow> n = length xs \<Longrightarrow> rbind (read_n dec n) f (concat (map enc xs) @ r) = f xs r"
  by (simp add: rbind_def read_n_enc)

lemma read_n_sound:
  "read_n dec n bs = Inr (xs, r) \<Longrightarrow> length xs = n \<and> list_all ok xs \<and> (\<exists>p. bs = p @ r)"
proof (induction n arbitrary: bs xs)
  case 0
  then show ?case by simp
next
  case (Suc n)
  then obtain x bs' ys where
    x: "dec bs = Inr (x, bs')" and ys: "read_n dec n bs' = Inr (ys, r)" and "xs = x # ys"
    by (auto simp: rbind_eq_Inr)
  from Suc.IH [OF ys] dec_ok [OF x] dec_suffix [OF x] \<open>xs = x # ys\<close> show ?case
    by force
qed

lemma reencode_stable:
  assumes "dec bs = Inr (x, r)"
  shows "dec (enc x @ s) = Inr (x, s)"
  by (rule dec_enc) (rule dec_ok [OF assms])

end

end
