(* ===== verification/Sha256.thy ===== *)
theory Sha256
  imports Prelude
begin

text \<open>
  SHA-256 (\<open>crypto/sha256\<close> of Go's standard library), written out over 32-bit words so
  that every hash of the model is a value that can be computed, and the double hash and the
  32-byte hash type of \<^verbatim>\<open>internal/chainhash/hash.go\<close>.
\<close>

section \<open>The compression function\<close>

text \<open>
  The round constants (cube roots of the first 64 primes) and the initial state (square roots
  of the first eight), in decimal.
\<close>

definition sha_K :: "u32 list" where
  "sha_K =
    [1116352408, 1899447441, 3049323471, 3921009573, 961987163, 1508970993,
     2453635748, 2870763221, 3624381080, 310598401, 607225278, 1426881987,
     1925078388, 2162078206, 2614888103, 3248222580, 3835390401, 4022224774,
     264347078, 604807628, 770255983, 1249150122, 1555081692, 1996064986,
     2554220882, 2821834349, 2952996808, 3210313671, 3336571891, 3584528711,
     113926993, 338241895, 666307205, 773529912, 1294757372, 1396182291,
     1695183700, 1986661051, 2177026350, 2456956037, 2730485921, 2820302411,
     3259730800, 3345764771, 3516065817, 3600352804, 4094571909, 275423344,
     430227734, 506948616, 659060556, 883997877, 958139571, 1322822218,
     1537002063, 1747873779, 1955562222, 2024104815, 2227730452, 2361852424,
     2428436474, 2756734187, 3204031479, 3329325298]"

definition sha_H0 :: "u32 list" where
  "sha_H0 = [1779033703, 3144134277, 1013904242, 2773480762, 1359893119, 2600822924, 528734635, 1541459225]"

definition rotr :: "nat \<Rightarrow> u32 \<Rightarrow> u32" where
  "rotr n x = drop_bit n x OR push_bit (32 - n) x"

definition sha_s0 :: "u32 \<Rightarrow> u32" where
  "sha_s0 x = rotr 7 x XOR rotr 18 x XOR drop_bit 3 x"

definition sha_s1 :: "u32 \<Rightarrow> u32" where
  "sha_s1 x = rotr 17 x XOR rotr 19 x XOR drop_bit 10 x"

definition sha_S0 :: "u32 \<Rightarrow> u32" where
  "sha_S0 x = rotr 2 x XOR rotr 13 x XOR rotr 22 x"

definition sha_S1 :: "u32 \<Rightarrow> u32" where
  "sha_S1 x = rotr 6 x XOR rotr 11 x XOR rotr 25 x"

text \<open>The message schedule, newest word first.\<close>

fun sha_extend :: "nat \<Rightarrow> u32 list \<Rightarrow> u32 list" where
  "sha_extend 0 ws = ws"
| "sha_extend (Suc n) ws =
     sha_extend n ((sha_s1 (ws ! 1) + ws ! 6 + sha_s0 (ws ! 14) + ws ! 15) # ws)"

fun sha_round :: "u32 list \<Rightarrow> u32 \<times> u32 \<Rightarrow> u32 list" where
  "sha_round [a, b, c, d, e, f, g, h] (k, w) =
     (let t1 = h + sha_S1 e + ((e AND f) XOR (NOT e AND g)) + k + w;
          t2 = sha_S0 a + ((a AND b) XOR (a AND c) XOR (b AND c))
      in [t1 + t2, a, b, c, d + t1, e, f, g])"
| "sha_round st _ = st"

fun sha_words :: "bytes \<Rightarrow> u32 list" where
  "sha_words (a # b # c # d # r) =
     (push_bit 24 (ucast a) OR push_bit 16 (ucast b) OR push_bit 8 (ucast c) OR ucast d) # sha_words r"
| "sha_words _ = []"

definition sha_block :: "u32 list \<Rightarrow> bytes \<Rightarrow> u32 list" where
  "sha_block st blk =
     map2 (+) st (foldl sha_round st (zip sha_K (rev (sha_extend 48 (rev (sha_words blk))))))"

fun sha_blocks :: "nat \<Rightarrow> u32 list \<Rightarrow> bytes \<Rightarrow> u32 list" where
  "sha_blocks 0 st bs = st"
| "sha_blocks (Suc n) st bs = sha_blocks n (sha_block st (take 64 bs)) (drop 64 bs)"

definition sha_pad :: "bytes \<Rightarrow> bytes" where
  "sha_pad bs =
     bs @ [0x80] @ replicate ((119 - length bs mod 64) mod 64) 0 @ be_bytes 8 (of_nat (8 * length bs) :: u64)"

definition sha256 :: "bytes \<Rightarrow> bytes" where
  "sha256 bs =
     (let p = sha_pad bs
      in concat (map (be_bytes 4) (sha_blocks (length p div 64) sha_H0 p)))"

lemma length_sha_round [simp]: "length (sha_round st kw) = length st"
  by (induction st kw rule: sha_round.induct) (simp_all add: Let_def)

lemma length_sha_rounds: "length (foldl sha_round st kws) = length st"
  by (induction kws arbitrary: st) simp_all

lemma length_sha_block [simp]: "length (sha_block st blk) = length st"
  by (simp add: sha_block_def length_sha_rounds)

lemma length_sha_blocks [simp]: "length (sha_blocks n st bs) = length st"
  by (induction n arbitrary: st bs) simp_all

lemma length_concat_fixed: "(\<And>x. length (f x) = k) \<Longrightarrow> length (concat (map f xs)) = k * length xs"
  by (induction xs) auto

lemma length_sha256 [simp]: "length (sha256 bs) = 32"
  by (simp add: sha256_def Let_def length_concat_fixed sha_H0_def)

section \<open>Hashes (internal/chainhash/hash.go)\<close>

text \<open>\<open>type Hash [32]byte\<close>: a byte list whose length is 32.\<close>

type_synonym hash = bytes

definition HashSize :: nat where
  "HashSize = 32"

definition hash_ok :: "hash \<Rightarrow> bool" where
  "hash_ok h \<longleftrightarrow> length h = HashSize"

definition zero_hash :: hash where
  "zero_hash = replicate HashSize 0"

definition DoubleHashB :: "bytes \<Rightarrow> hash" where
  "DoubleHashB b = (let first = sha256 b; second = sha256 first in second)"

datatype hash_error = InvalidHashLength | BadHex

text \<open>An optional \<open>0x\<close>, then 64 hex digits; the bytes are stored in reverse order.\<close>

definition hash_FromString :: "string \<Rightarrow> hash_error + hash" where
  "hash_FromString s =
     (let s = (if 2 \<le> length s \<and> take 2 s = ''0x'' then drop 2 s else s)
      in if length s \<noteq> HashSize * 2 then Inl InvalidHashLength
         else (case hex_decode s of None \<Rightarrow> Inl BadHex | Some decoded \<Rightarrow> Inr (rev decoded)))"

definition hash_String :: "hash \<Rightarrow> string" where
  "hash_String h = hex_encode (rev h)"

definition hash_IsZero :: "hash \<Rightarrow> bool" where
  "hash_IsZero h \<longleftrightarrow> h = zero_hash"

lemma hash_ok_DoubleHashB [simp, codec_ok]: "hash_ok (DoubleHashB b)"
  by (simp add: hash_ok_def DoubleHashB_def HashSize_def Let_def)

lemma hash_String_inj: "hash_String a = hash_String b \<Longrightarrow> a = b"
  by (auto simp: hash_String_def dest: hex_encode_inj)

lemma hash_String_inj_iff [simp]: "hash_String a = hash_String b \<longleftrightarrow> a = b"
  by (auto dest: hash_String_inj)

lemma length_hash_String [simp]: "length (hash_String h) = 2 * length h"
  by (simp add: hash_String_def)

lemma hash_String_no_colon: "CHR '':'' \<notin> set (hash_String h)"
  by (simp add: hash_String_def hex_encode_no_colon)

lemma hash_String_no_0x: "take 2 (hash_String h) \<noteq> ''0x''"
proof
  assume a: "take 2 (hash_String h) = ''0x''"
  have h: "hex_digit d \<noteq> CHR ''x''" if "d < 16" for d
  proof
    assume "hex_digit d = CHR ''x''"
    then have "hex_val (CHR ''x'') = Some d" using hex_val_hex_digit [OF that] by simp
    then show False by (simp add: hex_val_def)
  qed
  show False
  proof (cases "rev h")
    case Nil
    then show ?thesis using a by (simp add: hash_String_def)
  next
    case (Cons b bs)
    then show ?thesis using a h [of "unat b mod 16"] by (simp add: hash_String_def)
  qed
qed

lemma hash_FromString_String: "hash_ok h \<Longrightarrow> hash_FromString (hash_String h) = Inr h"
proof -
  assume ok: "hash_ok h"
  have "(if 2 \<le> length (hash_String h) \<and> take 2 (hash_String h) = ''0x'' then drop 2 (hash_String h)
    else hash_String h) = hash_String h"
    using hash_String_no_0x by simp
  then show ?thesis
    using ok unfolding hash_FromString_def Let_def
    by (simp only: length_hash_String hash_ok_def HashSize_def) (simp add: hash_String_def)
qed

lemma hex_decode_length: "hex_decode s = Some bs \<Longrightarrow> length s = 2 * length bs"
  by (induction s arbitrary: bs rule: hex_decode.induct) (auto split: option.splits)

lemma hash_FromString_ok: "hash_FromString s = Inr h \<Longrightarrow> hash_ok h"
  by (auto simp: hash_FromString_def Let_def hash_ok_def
      dest!: hex_decode_length split: if_splits option.splits)

end
