(* ===== verification/WireBase.thy ===== *)
theory WireBase
  imports Sha256
begin

text \<open>
  The primitives of \<^verbatim>\<open>internal/wire\<close>: \<open>io.ReadFull\<close> and \<open>encoding/binary\<close> on a byte
  reader, and the variable-length integers and byte strings of
  \<^verbatim>\<open>internal/wire/varint.go\<close>. Each primitive is shown to satisfy the \<open>codec\<close>
  interface; the structures of the other wire theories are built from these interpretations.
\<close>

datatype wire_error =
    IoEOF
  | IoUnexpectedEOF
  | ErrExceedsMax string u64 u64
  | ErrBadMessageMagic
  | ErrBadMessageChecksum
  | ErrHeaderTxCount u64
  | ErrCommandTooLong
  | ErrInvalidIP

type_synonym 'a wreader = "(wire_error, 'a) reader"

section \<open>io.ReadFull and encoding/binary\<close>

text \<open>
  \<open>io.ReadFull\<close> of \<open>n\<close> bytes: nothing to read at the end of the input is
  \<open>io.EOF\<close>, a partial read is \<open>io.ErrUnexpectedEOF\<close>; reading no bytes succeeds.
\<close>

definition read_full :: "nat \<Rightarrow> bytes wreader" where
  "read_full n bs =
     (if n \<le> length bs then Inr (take n bs, drop n bs)
      else if bs = [] then Inl IoEOF else Inl IoUnexpectedEOF)"

definition read_u8 :: "byte wreader" where
  "read_u8 = rbind (read_full 1) (\<lambda>b. ret (hd b))"

definition read_le :: "nat \<Rightarrow> 'a::len word wreader" where
  "read_le n = rbind (read_full n) (\<lambda>b. ret (le_word b))"

definition read_be :: "nat \<Rightarrow> 'a::len word wreader" where
  "read_be n = rbind (read_full n) (\<lambda>b. ret (be_word b))"

abbreviation read_u16 :: "u16 wreader" where "read_u16 \<equiv> read_le 2"
abbreviation read_u32 :: "u32 wreader" where "read_u32 \<equiv> read_le 4"
abbreviation read_u64 :: "u64 wreader" where "read_u64 \<equiv> read_le 8"

lemma read_full_append [simp]: "length p = n \<Longrightarrow> read_full n (p @ r) = Inr (p, r)"
  by (simp add: read_full_def)

lemma read_full_Inr: "read_full n bs = Inr (x, r) \<longleftrightarrow> bs = x @ r \<and> length x = n"
  by (auto simp: read_full_def)

lemma rbind_read_full [simp]: "length p = n \<Longrightarrow> rbind (read_full n) f (p @ r) = f p r"
  by (simp add: rbind_def)

lemma read_full_eof: "n \<noteq> 0 \<Longrightarrow> read_full n [] = Inl IoEOF"
  by (simp add: read_full_def)

lemma read_full_short: "bs \<noteq> [] \<Longrightarrow> length bs < n \<Longrightarrow> read_full n bs = Inl IoUnexpectedEOF"
  by (simp add: read_full_def)

interpretation raw: codec "\<lambda>p. p" "read_full n" "\<lambda>p. length p = n" for n
  by unfold_locales (auto simp: read_full_Inr)

interpretation u8: codec "\<lambda>b. [b]" read_u8 "\<lambda>_. True"
proof unfold_locales
  fix b r show "read_u8 ([b] @ r) = Inr (b, r)"
    by (simp add: read_u8_def rbind_def read_full_def)
qed (auto simp: read_u8_def rbind_eq_Inr read_full_Inr)

lemma u8_bind [simp]: "rbind read_u8 f (b # bs) = f b bs"
  by (rule u8.bind_enc [where x = b and f = f and r = bs, simplified])

lemma codec_read_le:
  assumes "LENGTH('a::len) \<le> 8 * n"
  shows "codec (le_bytes n) (read_le n :: 'a word wreader) (\<lambda>_. True)"
  using assms by unfold_locales (auto simp: read_le_def rbind_eq_Inr read_full_Inr)

lemma codec_read_be:
  assumes "LENGTH('a::len) \<le> 8 * n"
  shows "codec (be_bytes n) (read_be n :: 'a word wreader) (\<lambda>_. True)"
  using assms by unfold_locales (auto simp: read_be_def rbind_eq_Inr read_full_Inr)

interpretation le16: codec "le_bytes 2" read_u16 "\<lambda>_. True"
  by (rule codec_read_le) simp

interpretation le32: codec "le_bytes 4" read_u32 "\<lambda>_. True"
  by (rule codec_read_le) simp

interpretation le64: codec "le_bytes 8" read_u64 "\<lambda>_. True"
  by (rule codec_read_le) simp

interpretation be16: codec "be_bytes 2" "read_be 2 :: u16 wreader" "\<lambda>_. True"
  by (rule codec_read_be) simp

interpretation hash: codec "\<lambda>h. h" "read_full 32" hash_ok
  by unfold_locales (auto simp: read_full_Inr hash_ok_def HashSize_def)

section \<open>Variable-length integers (varint.go)\<close>

definition ReadVarInt :: "u64 wreader" where
  "ReadVarInt =
     rbind read_u8 (\<lambda>prefix.
       if prefix = 0xff then read_u64
       else if prefix = 0xfe then rbind read_u32 (\<lambda>v. ret (ucast v))
       else if prefix = 0xfd then rbind read_u16 (\<lambda>v. ret (ucast v))
       else ret (ucast prefix))"

definition WriteVarInt :: "u64 \<Rightarrow> bytes" where
  "WriteVarInt val =
     (if val < 0xfd then [ucast val]
      else if val \<le> 0xffff then 0xfd # le_bytes 2 (ucast val :: u16)
      else if val \<le> 0xffffffff then 0xfe # le_bytes 4 (ucast val :: u32)
      else 0xff # le_bytes 8 val)"

lemma ucast_ucast_bound:
  fixes v :: u64
  assumes "unat v < 2 ^ LENGTH('b::len)"
  shows "(ucast (ucast v :: 'b word) :: u64) = v"
proof -
  have "unat v < 2 ^ LENGTH(64)" using unsigned_less [of v] by simp
  with assms show ?thesis
    by (simp add: word_unat_eq_iff unsigned_ucast_eq unsigned_take_bit_eq take_bit_nat_eq_self)
qed

interpretation varint: codec WriteVarInt ReadVarInt "\<lambda>_. True"
proof unfold_locales
  fix v :: u64 and r
  have "ReadVarInt (WriteVarInt v @ r) = Inr (v, r)"
  proof -
    have "(ucast (ucast v :: byte) :: u64) = v" if "v < 0xfd"
      using that by (intro ucast_ucast_bound) (simp add: word_less_nat_alt)
    moreover have "(ucast v :: byte) \<noteq> 0xff \<and> (ucast v :: byte) \<noteq> 0xfe \<and> (ucast v :: byte) \<noteq> 0xfd"
      if "v < 0xfd" using that calculation by (auto simp: word_less_nat_alt)
    moreover have "(ucast (ucast v :: u16) :: u64) = v" if "v \<le> 0xffff"
      using that by (intro ucast_ucast_bound) (simp add: word_le_nat_alt)
    moreover have "(ucast (ucast v :: u32) :: u64) = v" if "v \<le> 0xffffffff"
      using that by (intro ucast_ucast_bound) (simp add: word_le_nat_alt)
    moreover have "rbind read_u8 f (b # s) = f b s" for f :: "byte \<Rightarrow> u64 wreader" and b s
      by simp
    ultimately show ?thesis
      by (simp add: WriteVarInt_def ReadVarInt_def le64.dec_enc)
  qed
  then show "ReadVarInt (WriteVarInt v @ r) = Inr (v, r)" .
next
  fix bs x r
  assume "ReadVarInt bs = Inr (x, r)"
  then show "\<exists>p. bs = p @ r"
    by (auto simp: ReadVarInt_def rbind_eq_Inr split: if_splits
        dest!: u8.dec_suffix le16.dec_suffix le32.dec_suffix le64.dec_suffix)
qed simp

definition ReadVarBytes :: "u64 \<Rightarrow> string \<Rightarrow> bytes wreader" where
  "ReadVarBytes mx fieldName =
     rbind ReadVarInt (\<lambda>n.
       if n > mx then failr (ErrExceedsMax fieldName n mx)
       else read_full (unat n))"

definition WriteVarBytes :: "bytes \<Rightarrow> bytes" where
  "WriteVarBytes b = WriteVarInt (of_nat (length b)) @ b"

lemma unat_of_nat_le:
  assumes "n \<le> unat (m :: 'a::len word)"
  shows "unat (of_nat n :: 'a word) = n" "(of_nat n :: 'a word) \<le> m"
proof -
  have "n < 2 ^ LENGTH('a)" using assms unsigned_less [of m] by (meson le_less_trans)
  then show "unat (of_nat n :: 'a word) = n" by (simp add: unat_of_nat take_bit_nat_eq_self)
  then show "(of_nat n :: 'a word) \<le> m" using assms by (simp add: word_le_nat_alt)
qed

lemma codec_varbytes:
  "codec WriteVarBytes (ReadVarBytes mx f) (\<lambda>b. length b \<le> unat mx)"
proof
  fix x r assume "length (x :: bytes) \<le> unat mx"
  then show "ReadVarBytes mx f (WriteVarBytes x @ r) = Inr (x, r)"
    using unat_of_nat_le [of "length x" mx]
    by (simp add: ReadVarBytes_def WriteVarBytes_def not_less)
next
  fix bs x r assume "ReadVarBytes mx f bs = Inr (x, r)"
  then show "length x \<le> unat mx"
    by (auto simp: ReadVarBytes_def rbind_eq_Inr read_full_Inr word_le_nat_alt not_less
        split: if_splits)
next
  fix bs x r assume "ReadVarBytes mx f bs = Inr (x, r)"
  then show "\<exists>p. bs = p @ r"
    by (auto simp: ReadVarBytes_def rbind_eq_Inr read_full_Inr split: if_splits
        dest!: varint.dec_suffix)
qed

section \<open>Counted sequences\<close>

text \<open>
  Every list on the wire is a count, checked against the message's limit, and that many
  elements; the shape is shared by \<open>ReadTx\<close>, \<open>ReadBlock\<close>, \<open>ReadInvPayload\<close> and
  the others, and so is its proof.
\<close>

definition read_counted :: "u64 \<Rightarrow> string \<Rightarrow> 'a wreader \<Rightarrow> 'a list wreader" where
  "read_counted mx f p =
     rbind ReadVarInt (\<lambda>n. if n > mx then failr (ErrExceedsMax f n mx) else read_n p (unat n))"

definition write_counted :: "('a \<Rightarrow> bytes) \<Rightarrow> 'a list \<Rightarrow> bytes" where
  "write_counted enc xs = WriteVarInt (of_nat (length xs)) @ concat (map enc xs)"

lemma codec_counted:
  assumes "codec enc dec ok"
  shows "codec (write_counted enc) (read_counted mx f dec)
    (\<lambda>xs. length xs \<le> unat mx \<and> list_all ok xs)"
proof
  fix xs r assume a: "length xs \<le> unat mx \<and> list_all ok xs"
  then have "read_n dec (length xs) (concat (map enc xs) @ r) = Inr (xs, r)"
    using codec.read_n_enc [OF assms] by blast
  then show "read_counted mx f dec (write_counted enc xs @ r) = Inr (xs, r)"
    using a unat_of_nat_le [of "length xs" mx]
    by (simp add: read_counted_def write_counted_def not_less)
next
  fix bs xs r assume "read_counted mx f dec bs = Inr (xs, r)"
  then obtain n bs' where n: "n \<le> mx" "read_n dec (unat n) bs' = Inr (xs, r)"
    and v: "ReadVarInt bs = Inr (n, bs')"
    by (auto simp: read_counted_def rbind_eq_Inr not_less split: if_splits)
  note s = codec.read_n_sound [OF assms n(2)]
  show "length xs \<le> unat mx \<and> list_all ok xs" using s n(1) by (simp add: word_le_nat_alt)
  show "\<exists>p. bs = p @ r" using s varint.dec_suffix [OF v] by auto
qed

lemma read_counted_limit:
  "ReadVarInt bs = Inr (n, r) \<Longrightarrow> n > mx \<Longrightarrow> read_counted mx f p bs = Inl (ErrExceedsMax f n mx)"
  by (simp add: read_counted_def rbind_def)

text \<open>The writer never uses more bytes than another encoding the reader accepts.\<close>

lemma length_WriteVarInt:
  "length (WriteVarInt v) =
     (if v < 0xfd then 1 else if v \<le> 0xffff then 3 else if v \<le> 0xffffffff then 5 else 9)"
  by (simp add: WriteVarInt_def)

lemma read_le_length: "read_le n bs = Inr (x, r) \<Longrightarrow> length bs = n + length r"
  by (auto simp: read_le_def rbind_eq_Inr read_full_Inr)

lemma read_u8_length: "read_u8 bs = Inr (x, r) \<Longrightarrow> length bs = Suc (length r)"
  by (auto simp: read_u8_def rbind_eq_Inr read_full_Inr)

lemma unat_ucast_u64:
  "unat (ucast (b :: byte) :: u64) = unat b" "unat (ucast (h :: u16) :: u64) = unat h"
  "unat (ucast (w :: u32) :: u64) = unat w"
proof -
  have "unat b < 2 ^ 64" by (rule less_trans [OF byte_unat_lt]) simp
  moreover have "unat h < 2 ^ 64" "unat w < 2 ^ 64"
    using unsigned_less [of h, where 'a = nat] unsigned_less [of w, where 'a = nat] by simp_all
  ultimately show "unat (ucast b :: u64) = unat b" "unat (ucast h :: u64) = unat h"
    "unat (ucast w :: u64) = unat w"
    by (simp_all add: unsigned_ucast_eq take_bit_nat_eq_self)
qed

lemma ucast_u64_bounds:
  "(ucast (b :: byte) :: u64) \<le> 0xff" "(ucast (h :: u16) :: u64) \<le> 0xffff"
  "(ucast (w :: u32) :: u64) \<le> 0xffffffff"
  using byte_unat_lt [of b] unsigned_less [of h, where 'a = nat] unsigned_less [of w, where 'a = nat]
  by (simp_all add: word_le_nat_alt unat_ucast_u64 del: byte_unat_lt)

lemma WriteVarInt_shortest:
  assumes "ReadVarInt bs = Inr (v, r)"
  shows "length (WriteVarInt v) \<le> length bs - length r"
proof -
  from assms obtain p bs' where p: "read_u8 bs = Inr (p, bs')" and
    rest: "(if p = 0xff then read_u64
       else if p = 0xfe then rbind read_u32 (\<lambda>v. ret (ucast v))
       else if p = 0xfd then rbind read_u16 (\<lambda>v. ret (ucast v))
       else ret (ucast p)) bs' = Inr (v, r)"
    by (auto simp: ReadVarInt_def rbind_eq_Inr)
  note len = read_u8_length [OF p]
  consider "p = 0xff" | "p = 0xfe" | "p = 0xfd" | "p \<noteq> 0xff" "p \<noteq> 0xfe" "p \<noteq> 0xfd" by blast
  then show ?thesis
  proof cases
    case 1
    with rest len show ?thesis by (auto dest!: read_le_length simp: length_WriteVarInt)
  next
    case 2
    with rest obtain w where "read_u32 bs' = Inr (w, r)" "v = ucast w"
      by (auto simp: rbind_eq_Inr)
    with len ucast_u64_bounds(3) [of w] show ?thesis
      by (auto dest!: read_le_length simp: length_WriteVarInt)
  next
    case 3
    with rest obtain w where "read_u16 bs' = Inr (w, r)" "v = ucast w"
      by (auto simp: rbind_eq_Inr)
    with len ucast_u64_bounds(2) [of w] show ?thesis
      by (auto dest!: read_le_length simp: length_WriteVarInt)
  next
    case 4
    then have "unat p \<noteq> 255" "unat p \<noteq> 254" "unat p \<noteq> 253"
      by (auto simp: word_unat_eq_iff)
    then have "unat p < 253" using byte_unat_lt [of p] by linarith
    then have "(ucast p :: u64) < 0xfd" by (simp add: word_less_nat_alt unat_ucast_u64)
    with 4 rest len show ?thesis by (simp add: length_WriteVarInt)
  qed
qed

end
