(* ===== verification/WireTx.thy ===== *)
theory WireTx
  imports WireBase
begin

text \<open>
  Transactions and blocks on the wire: \<^verbatim>\<open>internal/wire/tx.go\<close> and
  \<^verbatim>\<open>internal/wire/block.go\<close>. A writer to a \<open>bytes.Buffer\<close> never fails, so a
  \<open>Serialize\<close> method is the byte string it appends; a reader stops at its first error.
\<close>

section \<open>Transactions (tx.go)\<close>

definition MaxTxInPerMessage :: u64 where "MaxTxInPerMessage = 100000"
definition MaxTxOutPerMessage :: u64 where "MaxTxOutPerMessage = 100000"
definition MaxScriptSize :: u64 where "MaxScriptSize = 10000"

record OutPoint =
  op_Hash :: hash
  op_Index :: u32

record TxIn =
  PreviousOutPoint :: OutPoint
  SignatureScript :: bytes
  Sequence :: u32

record TxOut =
  out_Value :: i64
  out_PkScript :: bytes

record MsgTx =
  tx_Version :: i32
  tx_TxIn :: "TxIn list"
  tx_TxOut :: "TxOut list"
  tx_LockTime :: u32

definition write_TxIn :: "TxIn \<Rightarrow> bytes" where
  "write_TxIn i =
     op_Hash (PreviousOutPoint i) @ le_bytes 4 (op_Index (PreviousOutPoint i)) @
     WriteVarBytes (SignatureScript i) @ le_bytes 4 (Sequence i)"

definition write_TxOut :: "TxOut \<Rightarrow> bytes" where
  "write_TxOut o' = le_bytes 8 (out_Value o') @ WriteVarBytes (out_PkScript o')"

definition tx_Serialize :: "MsgTx \<Rightarrow> bytes" where
  "tx_Serialize tx =
     le_bytes 4 (tx_Version tx) @ write_counted write_TxIn (tx_TxIn tx) @
     write_counted write_TxOut (tx_TxOut tx) @ le_bytes 4 (tx_LockTime tx)"

definition read_TxIn :: "TxIn wreader" where
  "read_TxIn =
     rbind (read_full 32) (\<lambda>h.
     rbind read_u32 (\<lambda>i.
     rbind (ReadVarBytes MaxScriptSize ''signature script'') (\<lambda>sig.
     rbind read_u32 (\<lambda>s.
       ret \<lparr>PreviousOutPoint = \<lparr>op_Hash = h, op_Index = i\<rparr>, SignatureScript = sig, Sequence = s\<rparr>))))"

definition read_TxOut :: "TxOut wreader" where
  "read_TxOut =
     rbind read_u64 (\<lambda>v.
     rbind (ReadVarBytes MaxScriptSize ''public key script'') (\<lambda>pk.
       ret \<lparr>out_Value = v, out_PkScript = pk\<rparr>))"

definition ReadTx :: "MsgTx wreader" where
  "ReadTx =
     rbind read_u32 (\<lambda>v.
     rbind (read_counted MaxTxInPerMessage ''tx input count'' read_TxIn) (\<lambda>ins.
     rbind (read_counted MaxTxOutPerMessage ''tx output count'' read_TxOut) (\<lambda>outs.
     rbind read_u32 (\<lambda>l.
       ret \<lparr>tx_Version = v, tx_TxIn = ins, tx_TxOut = outs, tx_LockTime = l\<rparr>))))"

definition TxHash :: "MsgTx \<Rightarrow> hash" where
  "TxHash tx = DoubleHashB (tx_Serialize tx)"

text \<open>What the readers guarantee and the round trip needs: array sizes and the limits.\<close>

definition TxIn_ok :: "TxIn \<Rightarrow> bool" where
  "TxIn_ok i \<longleftrightarrow> hash_ok (op_Hash (PreviousOutPoint i)) \<and> length (SignatureScript i) \<le> unat MaxScriptSize"

definition TxOut_ok :: "TxOut \<Rightarrow> bool" where
  "TxOut_ok o' \<longleftrightarrow> length (out_PkScript o') \<le> unat MaxScriptSize"

definition MsgTx_ok :: "MsgTx \<Rightarrow> bool" where
  "MsgTx_ok tx \<longleftrightarrow>
     length (tx_TxIn tx) \<le> unat MaxTxInPerMessage \<and> list_all TxIn_ok (tx_TxIn tx) \<and>
     length (tx_TxOut tx) \<le> unat MaxTxOutPerMessage \<and> list_all TxOut_ok (tx_TxOut tx)"

interpretation sigbytes: codec WriteVarBytes "ReadVarBytes MaxScriptSize f"
  "\<lambda>b. length b \<le> unat MaxScriptSize" for f
  by (rule codec_varbytes)

interpretation txin: codec write_TxIn read_TxIn TxIn_ok
proof
  fix x r assume "TxIn_ok x"
  then show "read_TxIn (write_TxIn x @ r) = Inr (x, r)"
    by (simp add: TxIn_ok_def read_TxIn_def write_TxIn_def)
next
  fix bs x r assume a: "read_TxIn bs = Inr (x, r)"
  then show "TxIn_ok x"
    by (auto simp: TxIn_ok_def read_TxIn_def rbind_eq_Inr dest: hash.dec_ok sigbytes.dec_ok)
  from a show "\<exists>p. bs = p @ r"
    by (auto simp: read_TxIn_def rbind_eq_Inr
        dest!: hash.dec_suffix le32.dec_suffix sigbytes.dec_suffix)
qed

interpretation txout: codec write_TxOut read_TxOut TxOut_ok
proof
  fix x r assume "TxOut_ok x"
  then show "read_TxOut (write_TxOut x @ r) = Inr (x, r)"
    by (simp add: TxOut_ok_def read_TxOut_def write_TxOut_def)
next
  fix bs x r assume a: "read_TxOut bs = Inr (x, r)"
  then show "TxOut_ok x"
    by (auto simp: TxOut_ok_def read_TxOut_def rbind_eq_Inr dest: sigbytes.dec_ok)
  from a show "\<exists>p. bs = p @ r"
    by (auto simp: read_TxOut_def rbind_eq_Inr dest!: le64.dec_suffix sigbytes.dec_suffix)
qed

interpretation txins: codec "write_counted write_TxIn" "read_counted mx f read_TxIn"
  "\<lambda>xs. length xs \<le> unat mx \<and> list_all TxIn_ok xs" for mx f
  by (rule codec_counted) (rule txin.codec_axioms)

interpretation txouts: codec "write_counted write_TxOut" "read_counted mx f read_TxOut"
  "\<lambda>xs. length xs \<le> unat mx \<and> list_all TxOut_ok xs" for mx f
  by (rule codec_counted) (rule txout.codec_axioms)

interpretation tx: codec tx_Serialize ReadTx MsgTx_ok
proof
  fix x r assume "MsgTx_ok x"
  then show "ReadTx (tx_Serialize x @ r) = Inr (x, r)"
    by (simp add: MsgTx_ok_def ReadTx_def tx_Serialize_def)
next
  fix bs x r assume a: "ReadTx bs = Inr (x, r)"
  then show "MsgTx_ok x"
    by (auto simp: MsgTx_ok_def ReadTx_def rbind_eq_Inr dest!: txins.dec_ok txouts.dec_ok)
  from a show "\<exists>p. bs = p @ r"
    by (auto simp: ReadTx_def rbind_eq_Inr
        dest!: le32.dec_suffix txins.dec_suffix txouts.dec_suffix)
qed

section \<open>Blocks (block.go)\<close>

definition MaxBlockTransactions :: u64 where "MaxBlockTransactions = 1000000"

record BlockHeader =
  hd_Version :: i32
  hd_PrevBlock :: hash
  hd_MerkleRoot :: hash
  hd_Timestamp :: u32
  hd_Bits :: u32
  hd_Nonce :: u32

record MsgBlock =
  bk_Header :: BlockHeader
  bk_Transactions :: "MsgTx list"

definition header_Serialize :: "BlockHeader \<Rightarrow> bytes" where
  "header_Serialize h =
     le_bytes 4 (hd_Version h) @ hd_PrevBlock h @ hd_MerkleRoot h @
     le_bytes 4 (hd_Timestamp h) @ le_bytes 4 (hd_Bits h) @ le_bytes 4 (hd_Nonce h)"

definition ReadBlockHeader :: "BlockHeader wreader" where
  "ReadBlockHeader =
     rbind read_u32 (\<lambda>v.
     rbind (read_full 32) (\<lambda>p.
     rbind (read_full 32) (\<lambda>m.
     rbind read_u32 (\<lambda>t.
     rbind read_u32 (\<lambda>b.
     rbind read_u32 (\<lambda>n.
       ret \<lparr>hd_Version = v, hd_PrevBlock = p, hd_MerkleRoot = m,
            hd_Timestamp = t, hd_Bits = b, hd_Nonce = n\<rparr>))))))"

definition header_Hash :: "BlockHeader \<Rightarrow> hash" where
  "header_Hash h = DoubleHashB (header_Serialize h)"

definition block_Serialize :: "MsgBlock \<Rightarrow> bytes" where
  "block_Serialize b = header_Serialize (bk_Header b) @ write_counted tx_Serialize (bk_Transactions b)"

definition ReadBlock :: "MsgBlock wreader" where
  "ReadBlock =
     rbind ReadBlockHeader (\<lambda>h.
     rbind (read_counted MaxBlockTransactions ''block tx count'' ReadTx) (\<lambda>txs.
       ret \<lparr>bk_Header = h, bk_Transactions = txs\<rparr>))"

definition BlockHeader_ok :: "BlockHeader \<Rightarrow> bool" where
  "BlockHeader_ok h \<longleftrightarrow> hash_ok (hd_PrevBlock h) \<and> hash_ok (hd_MerkleRoot h)"

definition MsgBlock_ok :: "MsgBlock \<Rightarrow> bool" where
  "MsgBlock_ok b \<longleftrightarrow> BlockHeader_ok (bk_Header b) \<and>
     length (bk_Transactions b) \<le> unat MaxBlockTransactions \<and> list_all MsgTx_ok (bk_Transactions b)"

interpretation header: codec header_Serialize ReadBlockHeader BlockHeader_ok
proof
  fix x r assume "BlockHeader_ok x"
  then show "ReadBlockHeader (header_Serialize x @ r) = Inr (x, r)"
    by (simp add: BlockHeader_ok_def ReadBlockHeader_def header_Serialize_def)
next
  fix bs x r assume a: "ReadBlockHeader bs = Inr (x, r)"
  then show "BlockHeader_ok x"
    by (auto simp: BlockHeader_ok_def ReadBlockHeader_def rbind_eq_Inr dest!: hash.dec_ok)
  from a show "\<exists>p. bs = p @ r"
    by (auto simp: ReadBlockHeader_def rbind_eq_Inr dest!: hash.dec_suffix le32.dec_suffix)
qed

interpretation txs: codec "write_counted tx_Serialize" "read_counted mx f ReadTx"
  "\<lambda>xs. length xs \<le> unat mx \<and> list_all MsgTx_ok xs" for mx f
  by (rule codec_counted) (rule tx.codec_axioms)

interpretation block: codec block_Serialize ReadBlock MsgBlock_ok
proof
  fix x r assume "MsgBlock_ok x"
  then show "ReadBlock (block_Serialize x @ r) = Inr (x, r)"
    by (simp add: MsgBlock_ok_def ReadBlock_def block_Serialize_def)
next
  fix bs x r assume a: "ReadBlock bs = Inr (x, r)"
  then show "MsgBlock_ok x"
    by (auto simp: MsgBlock_ok_def ReadBlock_def rbind_eq_Inr dest!: header.dec_ok txs.dec_ok)
  from a show "\<exists>p. bs = p @ r"
    by (auto simp: ReadBlock_def rbind_eq_Inr dest!: header.dec_suffix txs.dec_suffix)
qed

lemma length_header_Serialize: "BlockHeader_ok h \<Longrightarrow> length (header_Serialize h) = 80"
  by (simp add: header_Serialize_def BlockHeader_ok_def hash_ok_def HashSize_def)

section \<open>The Merkle root\<close>

fun merkle_pairs :: "hash list \<Rightarrow> hash list" where
  "merkle_pairs (a # b # hs) = DoubleHashB (a @ b) # merkle_pairs hs"
| "merkle_pairs _ = []"

definition merkle_level :: "hash list \<Rightarrow> hash list" where
  "merkle_level hs = merkle_pairs (if length hs mod 2 = 1 then hs @ [last hs] else hs)"

lemma length_merkle_pairs: "length (merkle_pairs hs) = length hs div 2"
  by (induction hs rule: merkle_pairs.induct) auto

lemma length_merkle_level: "length (merkle_level hs) = (length hs + 1) div 2"
proof (cases "odd (length hs)")
  case True
  then show ?thesis by (simp add: merkle_level_def length_merkle_pairs odd_iff_mod_2_eq_one)
next
  case False
  then show ?thesis by (auto simp: merkle_level_def length_merkle_pairs odd_iff_mod_2_eq_one)
qed

function merkle_loop :: "hash list \<Rightarrow> hash list" where
  "merkle_loop hs = (if length hs > 1 then merkle_loop (merkle_level hs) else hs)"
  by pat_completeness auto
termination
  by (relation "measure length") (auto simp: length_merkle_level)

declare merkle_loop.simps [simp del]

definition BuildMerkleRoot :: "MsgBlock \<Rightarrow> hash" where
  "BuildMerkleRoot b =
     (if bk_Transactions b = [] then zero_hash
      else hd (merkle_loop (map TxHash (bk_Transactions b))))"

end
