(* ===== verification/WireMsgs.thy ===== *)
theory WireMsgs
  imports WireTx
begin

text \<open>
  The message envelope (\<^verbatim>\<open>internal/wire/message.go\<close>) and the payloads of
  \<^verbatim>\<open>internal/wire/inventory.go\<close>, \<^verbatim>\<open>internal/wire/addr.go\<close> and
  \<^verbatim>\<open>internal/wire/reject.go\<close>.
\<close>

section \<open>The envelope (message.go)\<close>

definition MaxMessagePayload :: u32 where "MaxMessagePayload = 32 * 1024 * 1024"

record Message =
  msg_Command :: string
  msg_Payload :: bytes

text \<open>\<open>strings.TrimRight(s, "\x00")\<close>\<close>

definition trim_nul :: "bytes \<Rightarrow> bytes" where
  "trim_nul bs = rev (dropWhile (\<lambda>b. b = 0) (rev bs))"

definition ReadMessage :: "bytes \<Rightarrow> Message wreader" where
  "ReadMessage magic =
     rbind (read_full 24) (\<lambda>header.
       if take 4 header \<noteq> magic then failr ErrBadMessageMagic
       else
         let command = string_of_bytes (trim_nul (take 12 (drop 4 header)));
             payloadLen = (le_word (take 4 (drop 16 header)) :: u32)
         in if payloadLen > MaxMessagePayload
            then failr (ErrExceedsMax ''message payload'' (ucast payloadLen) (ucast MaxMessagePayload))
            else rbind (read_full (unat payloadLen)) (\<lambda>payload.
              if take 4 (drop 20 header) \<noteq> take 4 (DoubleHashB payload)
              then failr ErrBadMessageChecksum
              else ret \<lparr>msg_Command = command, msg_Payload = payload\<rparr>))"

text \<open>
  The header array is zero-initialised and \<open>copy\<close> leaves the rest of the command field zero.
\<close>

definition WriteMessage :: "bytes \<Rightarrow> string \<Rightarrow> bytes \<Rightarrow> wire_error + bytes" where
  "WriteMessage magic command payload =
     (if length command > 12 then Inl ErrCommandTooLong
      else if length payload > unat MaxMessagePayload
      then Inl (ErrExceedsMax ''message payload'' (of_nat (length payload)) (ucast MaxMessagePayload))
      else Inr (magic @ (bytes_of_string command @ replicate (12 - length command) 0) @
                le_bytes 4 (of_nat (length payload) :: u32) @ take 4 (DoubleHashB payload) @ payload))"

lemma trim_nul_pad:
  assumes "bs = [] \<or> last bs \<noteq> 0"
  shows "trim_nul (bs @ replicate n 0) = bs"
proof -
  have "dropWhile (\<lambda>b. b = 0) (rev bs) = rev bs"
    using assms by (cases bs rule: rev_cases) auto
  then show ?thesis by (simp add: trim_nul_def dropWhile_append)
qed

lemma last_bytes_of_string:
  "s \<noteq> [] \<Longrightarrow> last s \<noteq> CHR 0x00 \<Longrightarrow> last (bytes_of_string s) \<noteq> 0"
proof
  assume "s \<noteq> []" "last s \<noteq> CHR 0x00" "last (bytes_of_string s) = 0"
  then have "(of_nat (of_char (last s)) :: byte) = 0"
    by (simp add: bytes_of_string_def last_map)
  then have "(of_char (last s) :: nat) mod 256 = 0"
    by (simp add: word_unat_eq_iff unat_of_nat take_bit_eq_mod)
  then have "(of_char (last s) :: nat) = of_char (CHR 0x00)" by simp
  then show False using \<open>last s \<noteq> CHR 0x00\<close> of_char_eq_iff by blast
qed

lemma message_layout:
  assumes "length magic = 4" "length cmd = 12" "length len = 4" "length chk = 4"
  shows "length (magic @ cmd @ len @ chk) = 24"
    and "take 4 (magic @ cmd @ len @ chk) = magic"
    and "take 12 (drop 4 (magic @ cmd @ len @ chk)) = cmd"
    and "take 4 (drop 16 (magic @ cmd @ len @ chk)) = len"
    and "take 4 (drop 20 (magic @ cmd @ len @ chk)) = chk"
  using assms by simp_all

lemma unat_MaxMessagePayload: "unat MaxMessagePayload = 33554432"
  by (simp add: MaxMessagePayload_def)

lemma ReadMessage_WriteMessage:
  assumes magic: "length magic = 4" and cmd: "command = [] \<or> last command \<noteq> CHR 0x00"
    and w: "WriteMessage magic command payload = Inr out"
  shows "ReadMessage magic (out @ r) = Inr (\<lparr>msg_Command = command, msg_Payload = payload\<rparr>, r)"
proof -
  define c where "c = bytes_of_string command @ replicate (12 - length command) 0"
  define l where "l = le_bytes 4 (of_nat (length payload) :: u32)"
  define s where "s = take 4 (DoubleHashB payload)"
  have lens: "length c = 12" "length l = 4" "length s = 4"
    and plen: "length payload \<le> unat MaxMessagePayload"
    and out: "out = (magic @ c @ l @ s) @ payload"
    using w hash_ok_DoubleHashB [of payload]
    by (auto simp: WriteMessage_def c_def l_def s_def hash_ok_def HashSize_def split: if_splits)
  have "string_of_bytes (trim_nul c) = command"
    unfolding c_def using cmd last_bytes_of_string [of command]
    by (subst trim_nul_pad) auto
  moreover have "(le_word l :: u32) = of_nat (length payload)" by (simp add: l_def)
  ultimately show ?thesis
    using message_layout [OF magic lens] lens plen unat_of_nat_le [OF plen]
    unfolding out ReadMessage_def
    by (subst append_assoc) (simp add: rbind_read_full [where n = 24] Let_def not_less s_def
        del: append_assoc length_append)
qed

text \<open>An accepted message has the expected magic, a bounded payload and a matching checksum.\<close>

lemma ReadMessage_sound:
  assumes "ReadMessage magic bs = Inr (m, r)"
  shows "take 4 bs = magic \<and> length (msg_Payload m) \<le> unat MaxMessagePayload \<and>
    length (msg_Command m) \<le> 12 \<and>
    (\<exists>h. length h = 24 \<and> bs = h @ msg_Payload m @ r \<and>
       take 4 (drop 20 h) = take 4 (DoubleHashB (msg_Payload m)))"
proof -
  have trim: "length (trim_nul b) \<le> length b" for b
    by (simp add: trim_nul_def) (metis length_dropWhile_le length_rev)
  from assms show ?thesis
    using trim [of "take 12 (drop 4 (take 24 bs))"]
    by (auto simp: ReadMessage_def rbind_eq_Inr read_full_Inr Let_def word_le_nat_alt not_less
        split: if_splits)
qed

section \<open>Inventory, locators and headers (inventory.go)\<close>

definition MaxInvPerMessage :: u64 where "MaxInvPerMessage = 50000"
definition MaxBlockLocatorHashes :: u64 where "MaxBlockLocatorHashes = 500"
definition MaxHeadersPerMessage :: u64 where "MaxHeadersPerMessage = 2000"

record InvVect =
  inv_Type :: u32
  inv_Hash :: hash

definition write_InvVect :: "InvVect \<Rightarrow> bytes" where
  "write_InvVect v = le_bytes 4 (inv_Type v) @ inv_Hash v"

definition read_InvVect :: "InvVect wreader" where
  "read_InvVect =
     rbind read_u32 (\<lambda>t. rbind (read_full 32) (\<lambda>h. ret \<lparr>inv_Type = t, inv_Hash = h\<rparr>))"

definition InvPayload :: "InvVect list \<Rightarrow> wire_error + bytes" where
  "InvPayload invs =
     (if length invs > unat MaxInvPerMessage
      then Inl (ErrExceedsMax ''inventory count'' (of_nat (length invs)) MaxInvPerMessage)
      else Inr (write_counted write_InvVect invs))"

definition ReadInvPayload :: "InvVect list wreader" where
  "ReadInvPayload = read_counted MaxInvPerMessage ''inventory count'' read_InvVect"

definition InvVect_ok :: "InvVect \<Rightarrow> bool" where
  "InvVect_ok v \<longleftrightarrow> hash_ok (inv_Hash v)"

interpretation inv: codec write_InvVect read_InvVect InvVect_ok
proof
  fix bs x r assume a: "read_InvVect bs = Inr (x, r)"
  then show "InvVect_ok x"
    by (auto simp: InvVect_ok_def read_InvVect_def rbind_eq_Inr dest: hash.dec_ok)
  from a show "\<exists>p. bs = p @ r"
    by (auto simp: read_InvVect_def rbind_eq_Inr dest!: hash.dec_suffix le32.dec_suffix)
qed (simp add: InvVect_ok_def read_InvVect_def write_InvVect_def)

interpretation invs: codec "write_counted write_InvVect" ReadInvPayload
  "\<lambda>xs. length xs \<le> unat MaxInvPerMessage \<and> list_all InvVect_ok xs"
  unfolding ReadInvPayload_def by (rule codec_counted) (rule inv.codec_axioms)

record GetBlocks =
  gb_Version :: i32
  gb_Locator :: "hash list"
  gb_Stop :: hash

definition GetBlocks_Bytes :: "GetBlocks \<Rightarrow> wire_error + bytes" where
  "GetBlocks_Bytes g =
     (if length (gb_Locator g) > unat MaxBlockLocatorHashes
      then Inl (ErrExceedsMax ''locator count'' (of_nat (length (gb_Locator g))) MaxBlockLocatorHashes)
      else Inr (le_bytes 4 (gb_Version g) @ write_counted (\<lambda>h. h) (gb_Locator g) @ gb_Stop g))"

definition ReadGetBlocks :: "GetBlocks wreader" where
  "ReadGetBlocks =
     rbind read_u32 (\<lambda>v.
     rbind (read_counted MaxBlockLocatorHashes ''locator count'' (read_full 32)) (\<lambda>l.
     rbind (read_full 32) (\<lambda>s.
       ret \<lparr>gb_Version = v, gb_Locator = l, gb_Stop = s\<rparr>)))"

definition GetBlocks_ok :: "GetBlocks \<Rightarrow> bool" where
  "GetBlocks_ok g \<longleftrightarrow> list_all hash_ok (gb_Locator g) \<and> hash_ok (gb_Stop g)"

interpretation hashes: codec "write_counted (\<lambda>h. h)" "read_counted mx f (read_full 32)"
  "\<lambda>xs. length xs \<le> unat mx \<and> list_all hash_ok xs" for mx f
  by (rule codec_counted) (rule hash.codec_axioms)

lemma ReadGetBlocks_Bytes:
  "GetBlocks_ok g \<Longrightarrow> GetBlocks_Bytes g = Inr out \<Longrightarrow> ReadGetBlocks (out @ r) = Inr (g, r)"
  by (auto simp: GetBlocks_ok_def GetBlocks_Bytes_def ReadGetBlocks_def not_less split: if_splits)

text \<open>One item of a \<open>headers\<close> message: the header and a transaction count of zero.\<close>

definition write_header_item :: "BlockHeader \<Rightarrow> bytes" where
  "write_header_item h = header_Serialize h @ WriteVarInt 0"

definition read_header_item :: "BlockHeader wreader" where
  "read_header_item =
     rbind ReadBlockHeader (\<lambda>h.
     rbind ReadVarInt (\<lambda>txCount. if txCount \<noteq> 0 then failr (ErrHeaderTxCount txCount) else ret h))"

definition HeadersPayload :: "BlockHeader list \<Rightarrow> wire_error + bytes" where
  "HeadersPayload hs =
     (if length hs > unat MaxHeadersPerMessage
      then Inl (ErrExceedsMax ''header count'' (of_nat (length hs)) MaxHeadersPerMessage)
      else Inr (write_counted write_header_item hs))"

definition ReadHeadersPayload :: "BlockHeader list wreader" where
  "ReadHeadersPayload = read_counted MaxHeadersPerMessage ''header count'' read_header_item"

interpretation header_item: codec write_header_item read_header_item BlockHeader_ok
proof
  fix bs x r assume a: "read_header_item bs = Inr (x, r)"
  then show "BlockHeader_ok x"
    by (auto simp: read_header_item_def rbind_eq_Inr dest: header.dec_ok split: if_splits)
  from a show "\<exists>p. bs = p @ r"
    by (auto simp: read_header_item_def rbind_eq_Inr split: if_splits
        dest!: header.dec_suffix varint.dec_suffix)
qed (simp add: read_header_item_def write_header_item_def)

interpretation headers: codec "write_counted write_header_item" ReadHeadersPayload
  "\<lambda>xs. length xs \<le> unat MaxHeadersPerMessage \<and> list_all BlockHeader_ok xs"
  unfolding ReadHeadersPayload_def by (rule codec_counted) (rule header_item.codec_axioms)

section \<open>Peer addresses (addr.go)\<close>

definition MaxAddrPerMessage :: u64 where "MaxAddrPerMessage = 1000"

text \<open>\<open>net.IP\<close> is a byte slice of any length.\<close>

record NetAddress =
  na_Timestamp :: u32
  na_Services :: u64
  na_IP :: bytes
  na_Port :: u16

text \<open>\<open>net.IP.To16\<close>: an IPv4 address becomes its IPv4-mapped IPv6 form.\<close>

definition To16 :: "bytes \<Rightarrow> bytes option" where
  "To16 ip =
     (if length ip = 4 then Some (replicate 10 0 @ [0xff, 0xff] @ ip)
      else if length ip = 16 then Some ip else None)"

definition write_NetAddress :: "NetAddress \<Rightarrow> wire_error + bytes" where
  "write_NetAddress a =
     (case To16 (na_IP a) of None \<Rightarrow> Inl ErrInvalidIP | Some ip \<Rightarrow>
        Inr (le_bytes 4 (na_Timestamp a) @ le_bytes 8 (na_Services a) @ ip @ be_bytes 2 (na_Port a)))"

fun write_NetAddresses :: "NetAddress list \<Rightarrow> wire_error + bytes" where
  "write_NetAddresses [] = Inr []"
| "write_NetAddresses (a # as) =
     (case write_NetAddress a of Inl e \<Rightarrow> Inl e | Inr b \<Rightarrow>
        (case write_NetAddresses as of Inl e \<Rightarrow> Inl e | Inr bs \<Rightarrow> Inr (b @ bs)))"

definition AddrPayload :: "NetAddress list \<Rightarrow> wire_error + bytes" where
  "AddrPayload addrs =
     (if length addrs > unat MaxAddrPerMessage
      then Inl (ErrExceedsMax ''address count'' (of_nat (length addrs)) MaxAddrPerMessage)
      else (case write_NetAddresses addrs of Inl e \<Rightarrow> Inl e
            | Inr bs \<Rightarrow> Inr (WriteVarInt (of_nat (length addrs)) @ bs)))"

definition read_NetAddress :: "NetAddress wreader" where
  "read_NetAddress =
     rbind read_u32 (\<lambda>t.
     rbind read_u64 (\<lambda>s.
     rbind (read_full 16) (\<lambda>ip.
     rbind (read_be 2) (\<lambda>p.
       ret \<lparr>na_Timestamp = t, na_Services = s, na_IP = ip, na_Port = p\<rparr>))))"

definition ReadAddrPayload :: "NetAddress list wreader" where
  "ReadAddrPayload = read_counted MaxAddrPerMessage ''address count'' read_NetAddress"

text \<open>What comes back: every address in its 16-byte form.\<close>

definition canon_addr :: "NetAddress \<Rightarrow> NetAddress" where
  "canon_addr a = (case To16 (na_IP a) of None \<Rightarrow> a | Some ip \<Rightarrow> a\<lparr>na_IP := ip\<rparr>)"

lemma To16_length: "To16 ip = Some ip' \<Longrightarrow> length ip' = 16"
  by (auto simp: To16_def split: if_splits)

lemma read_NetAddress_write:
  assumes "write_NetAddress a = Inr b"
  shows "read_NetAddress (b @ r) = Inr (canon_addr a, r)"
  using assms
  by (auto simp: write_NetAddress_def read_NetAddress_def canon_addr_def To16_length
      split: option.splits)

lemma read_n_NetAddress_write:
  "write_NetAddresses as = Inr bs \<Longrightarrow>
     read_n read_NetAddress (length as) (bs @ r) = Inr (map canon_addr as, r)"
  by (induction as arbitrary: bs)
    (auto simp: rbind_def read_NetAddress_write split: sum.splits)

lemma ReadAddrPayload_AddrPayload:
  assumes "AddrPayload addrs = Inr out"
  shows "ReadAddrPayload (out @ r) = Inr (map canon_addr addrs, r)"
proof -
  have l: "length addrs \<le> unat MaxAddrPerMessage"
    using assms by (auto simp: AddrPayload_def split: if_splits)
  from assms obtain bs where "write_NetAddresses addrs = Inr bs"
    and out: "out = WriteVarInt (of_nat (length addrs)) @ bs"
    by (auto simp: AddrPayload_def split: if_splits sum.splits)
  with unat_of_nat_le [OF l] show ?thesis
    by (simp add: ReadAddrPayload_def read_counted_def read_n_NetAddress_write not_less)
qed

section \<open>Rejects (reject.go)\<close>

record Reject =
  rj_Cmd :: string
  rj_Code :: byte
  rj_Reason :: string
  rj_Hash :: hash

definition NewReject :: "string \<Rightarrow> byte \<Rightarrow> string \<Rightarrow> Reject" where
  "NewReject cmd code reason =
     \<lparr>rj_Cmd = cmd, rj_Code = code, rj_Reason = reason, rj_Hash = zero_hash\<rparr>"

text \<open>The two length bytes are \<open>byte(len(s))\<close>: lengths wrap at 256.\<close>

definition Reject_Bytes :: "Reject \<Rightarrow> bytes" where
  "Reject_Bytes r =
     (let hasHash = list_ex (\<lambda>b. b \<noteq> 0) (rj_Hash r)
      in [of_nat (length (rj_Cmd r))] @ bytes_of_string (rj_Cmd r) @ [rj_Code r] @
         [of_nat (length (rj_Reason r))] @ bytes_of_string (rj_Reason r) @
         (if hasHash then rj_Hash r else []))"

text \<open>The trailing hash is read if 32 bytes are there, and the rest is consumed if not.\<close>

definition read_opt_hash :: "hash wreader" where
  "read_opt_hash bs = (case read_full 32 bs of Inr (h, r) \<Rightarrow> Inr (h, r) | Inl _ \<Rightarrow> Inr (zero_hash, []))"

definition ReadReject :: "Reject wreader" where
  "ReadReject =
     rbind read_u8 (\<lambda>cmdLen.
     rbind (read_full (unat cmdLen)) (\<lambda>cmd.
     rbind read_u8 (\<lambda>code.
     rbind read_u8 (\<lambda>reasonLen.
     rbind (read_full (unat reasonLen)) (\<lambda>reason.
     rbind read_opt_hash (\<lambda>h.
       ret \<lparr>rj_Cmd = string_of_bytes cmd, rj_Code = code, rj_Reason = string_of_bytes reason,
            rj_Hash = h\<rparr>))))))"

definition Reject_ok :: "Reject \<Rightarrow> bool" where
  "Reject_ok r \<longleftrightarrow> length (rj_Cmd r) < 256 \<and> length (rj_Reason r) < 256 \<and> hash_ok (rj_Hash r)"

lemma no_nonzero_is_zero_hash: "hash_ok h \<Longrightarrow> \<not> list_ex (\<lambda>b. b \<noteq> 0) h \<Longrightarrow> h = zero_hash"
  by (auto simp: hash_ok_def zero_hash_def list_ex_iff intro!: replicate_eqI)

lemma unat_of_nat_byte: "n < 256 \<Longrightarrow> unat (of_nat n :: byte) = n"
  by (simp add: unat_of_nat take_bit_nat_eq_self)

lemma ReadReject_Bytes:
  assumes "Reject_ok r"
  shows "ReadReject (Reject_Bytes r) = Inr (r, [])"
proof -
  define h where "h = (if list_ex (\<lambda>b. b \<noteq> 0) (rj_Hash r) then rj_Hash r else [])"
  have hash: "rbind read_opt_hash f h = f (rj_Hash r) []" for f :: "hash \<Rightarrow> Reject wreader"
    using assms no_nonzero_is_zero_hash [of "rj_Hash r"]
    by (auto simp: h_def rbind_def read_opt_hash_def read_full_def Reject_ok_def hash_ok_def
        HashSize_def)
  show ?thesis
    using assms unfolding Reject_Bytes_def Let_def h_def [symmetric] ReadReject_def
    by (simp add: Reject_ok_def unat_of_nat_byte hash)
qed

end
