(* ===== verification/WireCompact.thy ===== *)
theory WireCompact
  imports WireTx
begin

text \<open>
  Compact blocks (\<^verbatim>\<open>internal/wire/cmpctblock.go\<close>): the four messages, with the
  differential index encoding, and the keyed hash behind the short transaction ids.
\<close>

section \<open>Messages\<close>

definition ShortIDSize :: nat where "ShortIDSize = 6"
definition maxCmpctShortIDs :: u64 where "maxCmpctShortIDs = 100000"
definition maxCmpctTxs :: u64 where "maxCmpctTxs = 100000"
definition maxBlockTxnIndexes :: u64 where "maxBlockTxnIndexes = 100000"

record PrefilledTransaction =
  pt_Index :: u64
  pt_Tx :: MsgTx

record MsgCmpctBlock =
  cb_Header :: BlockHeader
  cb_Nonce :: u64
  cb_ShortIDs :: "bytes list"
  cb_PrefilledTxs :: "PrefilledTransaction list"

text \<open>The loop over the prefilled transactions; \<open>diff\<close> is a \<open>uint64\<close> subtraction.\<close>

fun write_prefilled :: "u64 \<Rightarrow> PrefilledTransaction list \<Rightarrow> bytes" where
  "write_prefilled prevIndex [] = []"
| "write_prefilled prevIndex (pt # pts) =
     WriteVarInt (pt_Index pt - prevIndex) @ tx_Serialize (pt_Tx pt) @
     write_prefilled (pt_Index pt) pts"

fun read_prefilled :: "nat \<Rightarrow> u64 \<Rightarrow> PrefilledTransaction list wreader" where
  "read_prefilled 0 prevIndex = ret []"
| "read_prefilled (Suc n) prevIndex =
     rbind ReadVarInt (\<lambda>diff.
     rbind ReadTx (\<lambda>tx.
     rbind (read_prefilled n (prevIndex + diff)) (\<lambda>pts.
       ret (\<lparr>pt_Index = prevIndex + diff, pt_Tx = tx\<rparr> # pts))))"

definition CmpctBlock_Serialize :: "MsgCmpctBlock \<Rightarrow> bytes" where
  "CmpctBlock_Serialize m =
     header_Serialize (cb_Header m) @ le_bytes 8 (cb_Nonce m) @
     write_counted (\<lambda>sid. sid) (cb_ShortIDs m) @
     WriteVarInt (of_nat (length (cb_PrefilledTxs m))) @ write_prefilled 0 (cb_PrefilledTxs m)"

definition CmpctBlock_Deserialize :: "MsgCmpctBlock wreader" where
  "CmpctBlock_Deserialize =
     rbind ReadBlockHeader (\<lambda>h.
     rbind read_u64 (\<lambda>nonce.
     rbind (read_counted maxCmpctShortIDs ''cmpctblock short id count'' (read_full ShortIDSize)) (\<lambda>sids.
     rbind ReadVarInt (\<lambda>txCount.
       if txCount > maxCmpctTxs
       then failr (ErrExceedsMax ''cmpctblock prefilled tx count'' txCount maxCmpctTxs)
       else rbind (read_prefilled (unat txCount) 0) (\<lambda>pts.
         ret \<lparr>cb_Header = h, cb_Nonce = nonce, cb_ShortIDs = sids, cb_PrefilledTxs = pts\<rparr>)))))"

definition CmpctBlock_ok :: "MsgCmpctBlock \<Rightarrow> bool" where
  "CmpctBlock_ok m \<longleftrightarrow>
     BlockHeader_ok (cb_Header m) \<and>
     length (cb_ShortIDs m) \<le> unat maxCmpctShortIDs \<and>
     list_all (\<lambda>s. length s = ShortIDSize) (cb_ShortIDs m) \<and>
     length (cb_PrefilledTxs m) \<le> unat maxCmpctTxs \<and>
     list_all (\<lambda>pt. MsgTx_ok (pt_Tx pt)) (cb_PrefilledTxs m)"

lemma read_prefilled_write:
  "list_all (\<lambda>pt. MsgTx_ok (pt_Tx pt)) pts \<Longrightarrow>
     read_prefilled (length pts) prev (write_prefilled prev pts @ r) = Inr (pts, r)"
  by (induction pts arbitrary: prev) (simp_all add: rbind_def varint.dec_enc tx.dec_enc)

lemma bind_read_prefilled:
  "list_all (\<lambda>pt. MsgTx_ok (pt_Tx pt)) pts \<Longrightarrow>
     rbind (read_prefilled (length pts) prev) f (write_prefilled prev pts @ r) = f pts r"
  by (simp add: rbind_def read_prefilled_write)

lemma read_prefilled_sound:
  "read_prefilled n prev bs = Inr (pts, r) \<Longrightarrow>
     length pts = n \<and> list_all (\<lambda>pt. MsgTx_ok (pt_Tx pt)) pts \<and> (\<exists>p. bs = p @ r)"
proof (induction n arbitrary: prev bs pts)
  case 0
  then show ?case by simp
next
  case (Suc n)
  then obtain d b1 t b2 qs where d: "ReadVarInt bs = Inr (d, b1)" and t: "ReadTx b1 = Inr (t, b2)"
    and q: "read_prefilled n (prev + d) b2 = Inr (qs, r)"
    and "pts = \<lparr>pt_Index = prev + d, pt_Tx = t\<rparr> # qs"
    by (auto simp: rbind_eq_Inr)
  with Suc.IH [OF q] tx.dec_ok [OF t] tx.dec_suffix [OF t] varint.dec_suffix [OF d]
  show ?case by force
qed

interpretation shortids: codec "write_counted (\<lambda>sid. sid)" "read_counted mx f (read_full ShortIDSize)"
  "\<lambda>xs. length xs \<le> unat mx \<and> list_all (\<lambda>s. length s = ShortIDSize) xs" for mx f
  by (rule codec_counted) (rule raw.codec_axioms)

interpretation cmpctblock: codec CmpctBlock_Serialize CmpctBlock_Deserialize CmpctBlock_ok
proof
  fix x r assume ok: "CmpctBlock_ok x"
  then have l: "length (cb_PrefilledTxs x) \<le> unat maxCmpctTxs" by (simp add: CmpctBlock_ok_def)
  from ok unat_of_nat_le [OF l] show "CmpctBlock_Deserialize (CmpctBlock_Serialize x @ r) = Inr (x, r)"
    by (simp add: CmpctBlock_ok_def CmpctBlock_Deserialize_def CmpctBlock_Serialize_def
        bind_read_prefilled not_less)
next
  fix bs x r assume a: "CmpctBlock_Deserialize bs = Inr (x, r)"
  then show "CmpctBlock_ok x"
    by (auto simp: CmpctBlock_ok_def CmpctBlock_Deserialize_def rbind_eq_Inr not_less word_le_nat_alt
        split: if_splits dest!: header.dec_ok shortids.dec_ok read_prefilled_sound)
  from a show "\<exists>p. bs = p @ r"
    by (auto simp: CmpctBlock_Deserialize_def rbind_eq_Inr split: if_splits
        dest!: header.dec_suffix le64.dec_suffix shortids.dec_suffix varint.dec_suffix
          read_prefilled_sound)
qed

record MsgGetBlockTxn =
  gt_BlockHash :: hash
  gt_Indexes :: "u64 list"

definition GetBlockTxn_Serialize :: "MsgGetBlockTxn \<Rightarrow> bytes" where
  "GetBlockTxn_Serialize m = gt_BlockHash m @ write_counted WriteVarInt (gt_Indexes m)"

definition GetBlockTxn_Deserialize :: "MsgGetBlockTxn wreader" where
  "GetBlockTxn_Deserialize =
     rbind (read_full 32) (\<lambda>h.
     rbind (read_counted maxBlockTxnIndexes ''getblocktxn index count'' ReadVarInt) (\<lambda>ix.
       ret \<lparr>gt_BlockHash = h, gt_Indexes = ix\<rparr>))"

interpretation indexes: codec "write_counted WriteVarInt" "read_counted mx f ReadVarInt"
  "\<lambda>xs. length xs \<le> unat mx \<and> list_all (\<lambda>_. True) xs" for mx f
  by (rule codec_counted) (rule varint.codec_axioms)

interpretation getblocktxn: codec GetBlockTxn_Serialize GetBlockTxn_Deserialize
  "\<lambda>m. hash_ok (gt_BlockHash m) \<and> length (gt_Indexes m) \<le> unat maxBlockTxnIndexes"
proof
  fix bs x r assume a: "GetBlockTxn_Deserialize bs = Inr (x, r)"
  then show "hash_ok (gt_BlockHash x) \<and> length (gt_Indexes x) \<le> unat maxBlockTxnIndexes"
    by (auto simp: GetBlockTxn_Deserialize_def rbind_eq_Inr dest!: hash.dec_ok indexes.dec_ok)
  from a show "\<exists>p. bs = p @ r"
    by (auto simp: GetBlockTxn_Deserialize_def rbind_eq_Inr
        dest!: hash.dec_suffix indexes.dec_suffix)
qed (simp add: GetBlockTxn_Deserialize_def GetBlockTxn_Serialize_def list_all_iff)

record MsgBlockTxn =
  bt_BlockHash :: hash
  bt_Transactions :: "MsgTx list"

definition BlockTxn_Serialize :: "MsgBlockTxn \<Rightarrow> bytes" where
  "BlockTxn_Serialize m = bt_BlockHash m @ write_counted tx_Serialize (bt_Transactions m)"

definition BlockTxn_Deserialize :: "MsgBlockTxn wreader" where
  "BlockTxn_Deserialize =
     rbind (read_full 32) (\<lambda>h.
     rbind (read_counted maxCmpctTxs ''blocktxn tx count'' ReadTx) (\<lambda>txs.
       ret \<lparr>bt_BlockHash = h, bt_Transactions = txs\<rparr>))"

interpretation blocktxn: codec BlockTxn_Serialize BlockTxn_Deserialize
  "\<lambda>m. hash_ok (bt_BlockHash m) \<and> length (bt_Transactions m) \<le> unat maxCmpctTxs \<and>
     list_all MsgTx_ok (bt_Transactions m)"
proof
  fix bs x r assume a: "BlockTxn_Deserialize bs = Inr (x, r)"
  then show "hash_ok (bt_BlockHash x) \<and> length (bt_Transactions x) \<le> unat maxCmpctTxs \<and>
     list_all MsgTx_ok (bt_Transactions x)"
    by (auto simp: BlockTxn_Deserialize_def rbind_eq_Inr dest!: hash.dec_ok txs.dec_ok)
  from a show "\<exists>p. bs = p @ r"
    by (auto simp: BlockTxn_Deserialize_def rbind_eq_Inr dest!: hash.dec_suffix txs.dec_suffix)
qed (simp add: BlockTxn_Deserialize_def BlockTxn_Serialize_def)

record MsgSendCmpct =
  sc_Announce :: bool
  sc_Version :: u64

definition SendCmpct_Serialize :: "MsgSendCmpct \<Rightarrow> bytes" where
  "SendCmpct_Serialize m = [if sc_Announce m then 0 OR 1 else 0] @ le_bytes 8 (sc_Version m)"

definition SendCmpct_Deserialize :: "MsgSendCmpct wreader" where
  "SendCmpct_Deserialize =
     rbind read_u8 (\<lambda>flags.
     rbind read_u64 (\<lambda>v. ret \<lparr>sc_Announce = (flags AND 1 \<noteq> 0), sc_Version = v\<rparr>))"

interpretation sendcmpct: codec SendCmpct_Serialize SendCmpct_Deserialize "\<lambda>_. True"
proof
  fix x r show "SendCmpct_Deserialize (SendCmpct_Serialize x @ r) = Inr (x, r)"
    by (cases "sc_Announce x") (simp_all add: SendCmpct_Deserialize_def SendCmpct_Serialize_def)
next
  fix bs x r assume "SendCmpct_Deserialize bs = Inr (x, r)"
  then show "\<exists>p. bs = p @ r"
    by (auto simp: SendCmpct_Deserialize_def rbind_eq_Inr dest!: u8.dec_suffix le64.dec_suffix)
qed simp

section \<open>Short transaction ids\<close>

definition rotl64 :: "u64 \<Rightarrow> nat \<Rightarrow> u64" where
  "rotl64 x b = push_bit b x OR drop_bit (64 - b) x"

type_synonym sipstate = "u64 \<times> u64 \<times> u64 \<times> u64"

text \<open>The round body, which the code repeats in its three loops.\<close>

definition sip_round :: "sipstate \<Rightarrow> sipstate" where
  "sip_round st = (case st of (v0, v1, v2, v3) \<Rightarrow>
     let v0 = v0 + v1; v1 = rotl64 v1 13; v1 = v1 XOR v0; v0 = rotl64 v0 32;
         v2 = v2 + v3; v3 = rotl64 v3 16; v3 = v3 XOR v2;
         v0 = v0 + v3; v3 = rotl64 v3 21; v3 = v3 XOR v0;
         v2 = v2 + v1; v1 = rotl64 v1 17; v1 = v1 XOR v2; v2 = rotl64 v2 32
     in (v0, v1, v2, v3))"

definition sip_init :: "bytes \<Rightarrow> sipstate" where
  "sip_init key =
     (let k0 = le_word (take 8 key); k1 = le_word (take 8 (drop 8 key))
      in (k0 XOR 0x736f6d6570736575, k1 XOR 0x646f72616e646f6d,
          k0 XOR 0x6c7967656e657261, k1 XOR 0x7465646279746573))"

definition sip_block :: "sipstate \<Rightarrow> u64 \<Rightarrow> sipstate" where
  "sip_block st m = (case st of (v0, v1, v2, v3) \<Rightarrow>
     (case (sip_round ^^ 2) (v0, v1, v2, v3 XOR m) of (v0, v1, v2, v3) \<Rightarrow> (v0 XOR m, v1, v2, v3)))"

text \<open>The loop over the whole 8-byte blocks.\<close>

fun sip_blocks :: "nat \<Rightarrow> sipstate \<Rightarrow> bytes \<Rightarrow> sipstate" where
  "sip_blocks 0 st data = st"
| "sip_blocks (Suc n) st data = sip_blocks n (sip_block st (le_word (take 8 data))) (drop 8 data)"

text \<open>The last block: the tail, zero padded, with the length modulo 256 as its top byte.\<close>

definition sip_last :: "bytes \<Rightarrow> u64" where
  "sip_last data =
     (let tail = drop (length data div 8 * 8) data
      in le_word (take 7 (tail @ replicate 7 0) @ [of_nat (length data mod 256)]))"

definition siphash24 :: "bytes \<Rightarrow> bytes \<Rightarrow> u64" where
  "siphash24 key data =
     (case sip_blocks (length data div 8) (sip_init key) data of (v0, v1, v2, v3) \<Rightarrow>
      (case (sip_round ^^ 2) (v0, v1, v2, v3 XOR sip_last data) of (v0, v1, v2, v3) \<Rightarrow>
       (case (sip_round ^^ 4) (v0 XOR 0xff, v1, v2 XOR 0xff, v3) of (v0, v1, v2, v3) \<Rightarrow>
         v0 XOR v1 XOR v2 XOR v3)))"

definition ShortID :: "bytes \<Rightarrow> hash \<Rightarrow> bytes" where
  "ShortID key txid =
     (let s = siphash24 key txid in map (\<lambda>i. ucast (drop_bit (8 * i) s)) [0..<ShortIDSize])"

text \<open>
  SipHash-2-4 as published: the last block is absorbed like every other one (it is also
  XORed into \<open>v0\<close>), and the finalisation constant goes into \<open>v2\<close> only.
\<close>

definition sip24_spec :: "bytes \<Rightarrow> bytes \<Rightarrow> u64" where
  "sip24_spec key data =
     (case sip_block (sip_blocks (length data div 8) (sip_init key) data) (sip_last data) of
        (v0, v1, v2, v3) \<Rightarrow>
      (case (sip_round ^^ 4) (v0, v1, v2 XOR 0xff, v3) of (v0, v1, v2, v3) \<Rightarrow>
         v0 XOR v1 XOR v2 XOR v3))"

lemma length_ShortID [simp]: "length (ShortID key txid) = ShortIDSize"
  by (simp add: ShortID_def Let_def)

text \<open>
  The published test vector with key \<open>00 .. 0f\<close> and the empty message, round by round:
  the two common rounds, the four final rounds of the code, the four of the specification.
\<close>

lemma sip_vector_init:
  "sip_init (map of_nat [0..<16]) =
     (0x7469686173716475, 0x6b617f6d656e6665, 0x6b7f62616d677361, 0x7b6b696e727e6c7b)"
  by (simp add: sip_init_def upt_rec)

lemma replicate_7: "replicate 7 x = [x, x, x, x, x, x, x]"
  by (simp add: numeral_eq_Suc)

lemma sip_last_Nil: "sip_last [] = 0"
  by (simp add: sip_last_def replicate_7)

lemma funpow_2_4: "(f ^^ 2) x = f (f x)" "(f ^^ 4) x = f (f (f (f x)))"
  by (simp_all add: eval_nat_numeral)

lemma sip_vector_common:
  "sip_round (0x7469686173716475, 0x6b617f6d656e6665, 0x6b7f62616d677361, 0x7b6b696e727e6c7b) =
     (0x6864848c93698c85, 0x41d43f143c94a7dc, 0xf3f94792d7121732, 0x5e52f75805987c12)"
  "sip_round (0x6864848c93698c85, 0x41d43f143c94a7dc, 0xf3f94792d7121732, 0x5e52f75805987c12) =
     (0x75126fd44af190b6, 0x84235164f06142b, 0x37b04f9f8026831d, 0x1b4678cde8253231)"
  by (simp_all add: sip_round_def rotl64_def)

lemma sip_vector_code:
  "sip_round (0x75126fd44af19049, 0x84235164f06142b, 0x37b04f9f802683e2, 0x1b4678cde8253231) =
     (0xc432c4bcd7cf523f, 0x54f9839249460c63, 0xc3be7b8f8eed3577, 0xcd398be97d6a155b)"
  "sip_round (0xc432c4bcd7cf523f, 0x54f9839249460c63, 0xc3be7b8f8eed3577, 0xcd398be97d6a155b) =
     (0x3c26d8b53238d03a, 0xb899c9d2848a2db3, 0xecf07f0fba5608e0, 0x7e45f925cf5bb215)"
  "sip_round (0x3c26d8b53238d03a, 0xb899c9d2848a2db3, 0xecf07f0fba5608e0, 0x7e45f925cf5bb215) =
     (0x48d6b55c30656737, 0xdd1c8ca568dbde06, 0x7d2645f339316a4c, 0xa511c1c4a6772541)"
  "sip_round (0x48d6b55c30656737, 0xdd1c8ca568dbde06, 0x7d2645f339316a4c, 0xa511c1c4a6772541) =
     (0x7d3de6fe20dc6c9d, 0x8aa33d1ff1746e4, 0xc22a2e2bd69ff6d2, 0x4522bbdb73401309)"
  by (simp_all add: sip_round_def rotl64_def)

lemma sip_vector_spec:
  "sip_round (0x75126fd44af190b6, 0x84235164f06142b, 0x37b04f9f802683e2, 0x1b4678cde8253231) =
     (0xc432c529d7cf523f, 0x54f98392486c0c10, 0xc3be7bfc8eed3577, 0xcd398a7c7d6a155b)"
  "sip_round (0xc432c529d7cf523f, 0x54f98392486c0c10, 0xc3be7bfc8eed3577, 0xcd398a7c7d6a155b) =
     (0x3abfd9623238d0a7, 0xb9354b5807b0cd1e, 0xae109fa2ba56082a, 0x58dcf8f2cf5b8028)"
  "sip_round (0x3abfd9623238d0a7, 0xb9354b5807b0cd1e, 0xae109fa2ba56082a, 0x58dcf8f2cf5b8028) =
     (0x3808f593fd8ef548, 0x2913fc753c3d6609, 0xa9fbd335618bbce1, 0xc1c9c6a9ec5136a2)"
  "sip_round (0x3808f593fd8ef548, 0x2913fc753c3d6609, 0xa9fbd335618bbce1, 0xc1c9c6a9ec5136a2) =
     (0xe738d0dfdc9b2453, 0x214ac5771e0c4cd2, 0xe2ea71f68a57ef6d, 0x56f7bf1995ce89dd)"
  by (simp_all add: sip_round_def rotl64_def)

lemmas sip_vector = sip_vector_init sip_last_Nil funpow_2_4 sip_vector_common sip_vector_code sip_vector_spec

lemma sip24_spec_vector: "sip24_spec (map of_nat [0..<16]) [] = 0x726fdb47dd0e0e31"
  by (simp add: sip24_spec_def sip_vector sip_block_def)

lemma siphash24_vector: "siphash24 (map of_nat [0..<16]) [] = 0xf29f40df7a14cfa2"
  by (simp add: siphash24_def sip_vector)

end
