(* ===== verification/WireProperties.thy ===== *)
theory WireProperties
  imports WireMsgs WireCompact
begin

text \<open>
  What the wire layer guarantees: canonical and unambiguous encodings, checked message
  framing, and two places where the encoding is weaker than intended.
\<close>

section \<open>Concrete values\<close>

definition sample_in :: TxIn where
  "sample_in = \<lparr>PreviousOutPoint = \<lparr>op_Hash = zero_hash, op_Index = 7\<rparr>, SignatureScript = [1, 2],
     Sequence = 0xfffffffe\<rparr>"

definition sample_out :: TxOut where
  "sample_out = \<lparr>out_Value = 5000000000, out_PkScript = [0x51]\<rparr>"

definition sample_tx :: MsgTx where
  "sample_tx = \<lparr>tx_Version = 1, tx_TxIn = [sample_in], tx_TxOut = [sample_out], tx_LockTime = 9\<rparr>"

definition sample_header :: BlockHeader where
  "sample_header = \<lparr>hd_Version = 1, hd_PrevBlock = zero_hash, hd_MerkleRoot = zero_hash,
     hd_Timestamp = 1700000000, hd_Bits = 0x207fffff, hd_Nonce = 5\<rparr>"

definition sample_block :: MsgBlock where
  "sample_block = \<lparr>bk_Header = sample_header, bk_Transactions = [sample_tx]\<rparr>"

lemmas sample_defs = sample_in_def sample_out_def sample_tx_def sample_header_def sample_block_def

lemma sample_ok [codec_ok]:
  "hash_ok zero_hash" "MsgTx_ok sample_tx" "BlockHeader_ok sample_header" "MsgBlock_ok sample_block"
  by (simp_all add: sample_defs hash_ok_def zero_hash_def HashSize_def MsgTx_ok_def TxIn_ok_def
      TxOut_ok_def BlockHeader_ok_def MsgBlock_ok_def MaxTxInPerMessage_def
      MaxTxOutPerMessage_def MaxScriptSize_def MaxBlockTransactions_def)

section \<open>Properties\<close>

text \<open>
  C40. \<open>ReadBlock\<close> inverts \<open>MsgBlock.Serialize\<close> on every block within the wire limits,
  leaves the bytes that follow unread, and whatever it accepts is within the limits and is
  read back unchanged after being written again.
\<close>

theorem block_roundtrip:
  assumes "MsgBlock_ok b" "ReadBlock bs = Inr (b', r')"
  shows "ReadBlock (block_Serialize b @ r) = Inr (b, r) \<and> MsgBlock_ok b' \<and>
    ReadBlock (block_Serialize b' @ r) = Inr (b', r) \<and> (\<exists>p. bs = p @ r')"
  using assms block.dec_enc block.dec_ok block.dec_suffix by blast

theorem block_roundtrip_witness:
  "ReadBlock (block_Serialize sample_block @ [1]) = Inr (sample_block, [1]) \<and> MsgBlock_ok sample_block"
  using block_roundtrip [OF sample_ok(4) block.dec_enc [OF sample_ok(4), of "[]"], of "[1]"]
  by simp

text \<open>
  The transaction encoding that the transaction id hashes is unambiguous: two
  well-formed transactions with the same bytes are equal, and no encoding is a proper prefix
  of another.
\<close>

theorem tx_encoding_prefix_free:
  assumes "MsgTx_ok a" "MsgTx_ok b" "tx_Serialize a @ r = tx_Serialize b @ s"
  shows "a = b \<and> r = s"
  using tx.enc_inj [OF assms] .

theorem tx_encoding_prefix_free_witness:
  "sample_tx = sample_tx \<and> [] = ([] :: bytes)"
  using tx_encoding_prefix_free [OF sample_ok(2) sample_ok(2), of "[]" "[]"] by simp

text \<open>
  \<open>ReadVarInt\<close> inverts \<open>WriteVarInt\<close>, and the writer's form is the shortest one the
  reader accepts for the value.
\<close>

theorem varint_canonical:
  assumes "ReadVarInt bs = Inr (v, s)"
  shows "ReadVarInt (WriteVarInt v @ r) = Inr (v, r) \<and>
    length (WriteVarInt v) \<le> length bs - length s"
  using varint.dec_enc [of v r] WriteVarInt_shortest [OF assms] by blast

theorem varint_canonical_witness:
  "ReadVarInt (WriteVarInt 7 @ [9]) = Inr (7, [9]) \<and> length (WriteVarInt 7) \<le> 3"
proof -
  have "ReadVarInt [0xfd, 7, 0] = Inr (7, [])"
    by (simp add: ReadVarInt_def read_u8_def read_le_def read_full_def rbind_def)
  from varint_canonical [OF this, of "[9]"] show ?thesis by simp
qed

text \<open>
  A message written by \<open>WriteMessage\<close> is read back with its command and payload, for
  every command that does not end in a NUL.
\<close>

theorem message_roundtrip:
  assumes "length magic = 4" "command = [] \<or> last command \<noteq> CHR 0x00"
    and "WriteMessage magic command payload = Inr out"
  shows "ReadMessage magic (out @ r) = Inr (\<lparr>msg_Command = command, msg_Payload = payload\<rparr>, r)"
  by (rule ReadMessage_WriteMessage [OF assms])

theorem message_roundtrip_witness:
  "\<exists>out. WriteMessage [1, 2, 3, 4] ''ping'' [5, 6] = Inr out \<and>
     ReadMessage [1, 2, 3, 4] (out @ [9]) = Inr (\<lparr>msg_Command = ''ping'', msg_Payload = [5, 6]\<rparr>, [9])"
proof -
  obtain out where out: "WriteMessage [1, 2, 3, 4] ''ping'' [5, 6] = Inr out"
    by (simp add: WriteMessage_def MaxMessagePayload_def)
  from message_roundtrip [OF _ _ out, of "[9]"] out show ?thesis by auto
qed

text \<open>
  Whatever \<open>ReadMessage\<close> accepts starts with the network's magic, declares at most 32
  MiB of payload, has a command of at most 12 bytes, and carries the first four bytes of the
  payload's double SHA-256 in its header.
\<close>

theorem message_checked:
  assumes "ReadMessage magic bs = Inr (m, r)"
  shows "take 4 bs = magic \<and> length (msg_Payload m) \<le> 32 * 1024 * 1024 \<and>
    length (msg_Command m) \<le> 12 \<and>
    (\<exists>h. length h = 24 \<and> bs = h @ msg_Payload m @ r \<and>
       take 4 (drop 20 h) = take 4 (DoubleHashB (msg_Payload m)))"
  using ReadMessage_sound [OF assms] by (simp add: unat_MaxMessagePayload)

theorem message_checked_witness:
  "\<exists>out. ReadMessage [1, 2, 3, 4] out = Inr (\<lparr>msg_Command = ''ping'', msg_Payload = [5, 6]\<rparr>, []) \<and>
     take 4 out = [1, 2, 3, 4]"
proof -
  obtain out where out: "WriteMessage [1, 2, 3, 4] ''ping'' [5, 6] = Inr out"
    by (simp add: WriteMessage_def MaxMessagePayload_def)
  then have rd: "ReadMessage [1, 2, 3, 4] out = Inr (\<lparr>msg_Command = ''ping'', msg_Payload = [5, 6]\<rparr>, [])"
    using ReadMessage_WriteMessage [of "[1, 2, 3, 4]" "''ping''" "[5, 6]" out "[]"] by simp
  with message_checked [OF rd] show ?thesis by blast
qed

text \<open>
  The list payloads of the relay protocol (inventories, locators, headers, addresses)
  are read back from what their writers accept; addresses come back in 16-byte form.
\<close>

theorem list_payload_roundtrips:
  assumes "InvPayload ivs = Inr b1" "list_all InvVect_ok ivs"
    and "HeadersPayload hds = Inr b2" "list_all BlockHeader_ok hds"
    and "AddrPayload addrs = Inr b3"
  shows "ReadInvPayload (b1 @ r) = Inr (ivs, r) \<and> ReadHeadersPayload (b2 @ r) = Inr (hds, r) \<and>
    ReadAddrPayload (b3 @ r) = Inr (map canon_addr addrs, r)"
proof -
  have 1: "b1 = write_counted write_InvVect ivs" "length ivs \<le> unat MaxInvPerMessage"
    using assms(1) by (auto simp: InvPayload_def write_counted_def not_less split: if_splits)
  have 2: "b2 = write_counted write_header_item hds" "length hds \<le> unat MaxHeadersPerMessage"
    using assms(3) by (auto simp: HeadersPayload_def write_counted_def not_less split: if_splits)
  show ?thesis
    using invs.dec_enc [of ivs r] headers.dec_enc [of hds r] ReadAddrPayload_AddrPayload [OF assms(5)]
      assms(2,4) 1 2 by simp
qed

theorem list_payload_roundtrips_witness:
  "\<exists>b1 b2 b3. ReadInvPayload (b1 @ []) = Inr ([\<lparr>inv_Type = 1, inv_Hash = zero_hash\<rparr>], []) \<and>
     ReadHeadersPayload (b2 @ []) = Inr ([sample_header], []) \<and>
     ReadAddrPayload (b3 @ []) = Inr ([], [])"
proof -
  obtain b1 where 1: "InvPayload [\<lparr>inv_Type = 1, inv_Hash = zero_hash\<rparr>] = Inr b1"
    by (simp add: InvPayload_def MaxInvPerMessage_def)
  obtain b2 where 2: "HeadersPayload [sample_header] = Inr b2"
    by (simp add: HeadersPayload_def MaxHeadersPerMessage_def)
  obtain b3 where 3: "AddrPayload [] = Inr b3"
    by (simp add: AddrPayload_def MaxAddrPerMessage_def)
  have "list_all InvVect_ok [\<lparr>inv_Type = 1, inv_Hash = zero_hash\<rparr>]"
    by (simp add: InvVect_ok_def sample_ok)
  from list_payload_roundtrips [OF 1 this 2 _ 3, of "[]"] show ?thesis
    by (auto simp: sample_ok)
qed

text \<open>
  Compact blocks and the messages around them (getblocktxn, blocktxn, sendcmpct) are
  read back from their own encoding.
\<close>

theorem compact_roundtrips:
  assumes "CmpctBlock_ok m" "hash_ok (gt_BlockHash g)" "length (gt_Indexes g) \<le> unat maxBlockTxnIndexes"
  shows "CmpctBlock_Deserialize (CmpctBlock_Serialize m @ r) = Inr (m, r) \<and>
    GetBlockTxn_Deserialize (GetBlockTxn_Serialize g @ r) = Inr (g, r) \<and>
    SendCmpct_Deserialize (SendCmpct_Serialize s @ r) = Inr (s, r)"
  using cmpctblock.dec_enc [OF assms(1), of r] getblocktxn.dec_enc [of g r] assms(2,3)
    sendcmpct.dec_enc [of s r] by simp

theorem compact_roundtrips_witness:
  "CmpctBlock_Deserialize (CmpctBlock_Serialize \<lparr>cb_Header = sample_header, cb_Nonce = 3,
       cb_ShortIDs = [[1, 2, 3, 4, 5, 6]], cb_PrefilledTxs = [\<lparr>pt_Index = 0, pt_Tx = sample_tx\<rparr>]\<rparr> @ []) =
     Inr (\<lparr>cb_Header = sample_header, cb_Nonce = 3, cb_ShortIDs = [[1, 2, 3, 4, 5, 6]],
       cb_PrefilledTxs = [\<lparr>pt_Index = 0, pt_Tx = sample_tx\<rparr>]\<rparr>, [])"
  using compact_roundtrips [of "\<lparr>cb_Header = sample_header, cb_Nonce = 3,
      cb_ShortIDs = [[1, 2, 3, 4, 5, 6]], cb_PrefilledTxs = [\<lparr>pt_Index = 0, pt_Tx = sample_tx\<rparr>]\<rparr>"
      "\<lparr>gt_BlockHash = zero_hash, gt_Indexes = [1, 2]\<rparr>" "[]"] sample_ok
  by (simp add: CmpctBlock_ok_def maxCmpctShortIDs_def maxCmpctTxs_def ShortIDSize_def
      maxBlockTxnIndexes_def)

text \<open>
  Known weakness: a block with an odd number (at least three) of transactions has the
  same Merkle root as the block with its last transaction repeated, so the root alone does
  not identify the transaction list.
\<close>

theorem merkle_root_duplication:
  assumes "odd (length (bk_Transactions b))" "1 < length (bk_Transactions b)"
  shows "BuildMerkleRoot (b\<lparr>bk_Transactions := bk_Transactions b @ [last (bk_Transactions b)]\<rparr>) =
    BuildMerkleRoot b"
proof -
  let ?hs = "map TxHash (bk_Transactions b)"
  have ne: "bk_Transactions b \<noteq> []" using assms(2) by auto
  have "merkle_level (?hs @ [last ?hs]) = merkle_level ?hs"
    using assms by (simp add: merkle_level_def odd_iff_mod_2_eq_one)
  then have "merkle_loop (?hs @ [last ?hs]) = merkle_loop ?hs"
    using assms(2) ne
    by (simp add: merkle_loop.simps [of ?hs] merkle_loop.simps [of "?hs @ [last ?hs]"])
  with ne show ?thesis by (simp add: BuildMerkleRoot_def last_map)
qed

theorem merkle_root_duplication_witness:
  "BuildMerkleRoot (sample_block\<lparr>bk_Transactions := [sample_tx, sample_tx, sample_tx, sample_tx]\<rparr>) =
     BuildMerkleRoot (sample_block\<lparr>bk_Transactions := [sample_tx, sample_tx, sample_tx]\<rparr>)"
  using merkle_root_duplication
    [of "sample_block\<lparr>bk_Transactions := [sample_tx, sample_tx, sample_tx]\<rparr>"] by simp

text \<open>
  The short-id hash is not SipHash-2-4: on the reference key and the empty message it
  differs from the published test vector.
\<close>

theorem siphash24_not_reference:
  "siphash24 (map of_nat [0..<16]) [] \<noteq> sip24_spec (map of_nat [0..<16]) [] \<and>
   sip24_spec (map of_nat [0..<16]) [] = 0x726fdb47dd0e0e31"
  by (simp only: siphash24_vector sip24_spec_vector) simp

text \<open>
  Reject messages round trip as long as command and reason are shorter than 256 bytes
  (the length fields are one byte).
\<close>

theorem reject_roundtrip:
  assumes "length (rj_Cmd m) < 256" "length (rj_Reason m) < 256" "hash_ok (rj_Hash m)"
  shows "ReadReject (Reject_Bytes m) = Inr (m, [])"
  by (rule ReadReject_Bytes) (simp add: Reject_ok_def assms)

theorem reject_roundtrip_witness:
  "ReadReject (Reject_Bytes (NewReject ''block'' 16 ''bad'')) = Inr (NewReject ''block'' 16 ''bad'', [])"
  using reject_roundtrip [of "NewReject ''block'' 16 ''bad''"] sample_ok(1)
  by (simp add: NewReject_def)

end
