(* ===== verification/ChainCfg.thy ===== *)
theory ChainCfg
  imports Prelude
begin

text \<open>
  Monetary constants and the block subsidy (\<^verbatim>\<open>internal/chaincfg/params.go\<close>), with the
  arithmetic of \<open>int64\<close> amounts that the validation code relies on.
\<close>

definition Coin :: i64 where "Coin = 100000000"
definition MaxMoney :: i64 where "MaxMoney = 21000000 * Coin"
definition CoinbaseMaturity :: i32 where "CoinbaseMaturity = 100"
definition TargetSpacingSeconds :: int where "TargetSpacingSeconds = 600"
definition MaxFutureDriftSeconds :: u32 where "MaxFutureDriftSeconds = 7200"
definition Subsidy :: i64 where "Subsidy = 50 * Coin"
definition HalvingInterval :: int where "HalvingInterval = 210000"

definition BlockSubsidy :: "i32 \<Rightarrow> i64" where
  "BlockSubsidy height =
     (if height <s 0 then 0
      else let halvings = nat (sint height div HalvingInterval)
           in if halvings \<ge> 64 then 0 else signed_drop_bit halvings Subsidy)"

definition MoneyRange :: "i64 \<Rightarrow> bool" where
  "MoneyRange v \<longleftrightarrow> 0 \<le>s v \<and> v \<le>s MaxMoney"

lemma sint_MaxMoney [simp]: "sint MaxMoney = 2100000000000000"
  by (simp add: MaxMoney_def Coin_def)

lemma sint_Subsidy [simp]: "sint Subsidy = 5000000000"
  by (simp add: Subsidy_def Coin_def)

lemma sint_Coin [simp]: "sint Coin = 100000000"
  by (simp add: Coin_def)

lemma MoneyRange_sint: "MoneyRange v \<longleftrightarrow> 0 \<le> sint v \<and> sint v \<le> 2100000000000000"
  by (simp add: MoneyRange_def word_sle_eq)

lemma sint_of_int_i64:
  "- (2 ^ 63) \<le> x \<Longrightarrow> x < 2 ^ 63 \<Longrightarrow> sint (of_int x :: i64) = x"
  by (simp add: signed_of_int signed_take_bit_int_eq_self)

text \<open>
  \<open>int64\<close> addition is exact on amounts in range; checking the range after every addition,
  as the code does, therefore keeps a running sum exact.
\<close>

lemma sint_add_money:
  "MoneyRange a \<Longrightarrow> MoneyRange b \<Longrightarrow> sint (a + b) = sint a + sint b"
  using sint_of_int_i64 [of "sint a + sint b"] by (simp add: MoneyRange_sint)

lemma sint_sub_money:
  "MoneyRange a \<Longrightarrow> MoneyRange b \<Longrightarrow> sint (a - b) = sint a - sint b"
  using sint_of_int_i64 [of "sint a - sint b"] by (simp add: MoneyRange_sint)

lemma MoneyRange_0 [simp]: "MoneyRange 0"
  by (simp add: MoneyRange_sint)

lemma BlockSubsidy_sint:
  assumes "0 \<le> sint height"
  shows "sint (BlockSubsidy height) = 5000000000 div 2 ^ nat (sint height div 210000)"
proof (cases "nat (sint height div 210000) \<ge> 64")
  case True
  then have "(2::int) ^ 64 \<le> 2 ^ nat (sint height div 210000)"
    by (intro power_increasing) simp_all
  then have "(5000000000::int) div 2 ^ nat (sint height div 210000) = 0"
    by (intro div_pos_pos_trivial) simp_all
  with assms True show ?thesis
    by (simp add: BlockSubsidy_def HalvingInterval_def word_sless_alt)
next
  case False
  with assms show ?thesis
    by (simp add: BlockSubsidy_def HalvingInterval_def word_sless_alt sint_signed_drop_bit_eq
        drop_bit_eq_div Let_def)
qed

lemma BlockSubsidy_range: "0 \<le> sint (BlockSubsidy h) \<and> sint (BlockSubsidy h) \<le> 5000000000"
proof (cases "0 \<le> sint h")
  case True
  have "(5000000000::int) div 2 ^ k \<le> 5000000000" for k
    using zdiv_mono2 [of 5000000000 1 "2 ^ k"] by simp
  with True show ?thesis by (simp add: BlockSubsidy_sint pos_imp_zdiv_nonneg_iff)
next
  case False
  then show ?thesis by (simp add: BlockSubsidy_def word_sless_alt)
qed

lemma BlockSubsidy_money: "MoneyRange (BlockSubsidy h)"
  using BlockSubsidy_range [of h] by (simp add: MoneyRange_sint)

text \<open>The halving series: every level's total is at most what is left of twice the subsidy.\<close>

lemma halving_series: "(\<Sum>k<K. S div 2 ^ k) + 2 * (S div 2 ^ K) \<le> 2 * (S::nat)"
proof (induction K)
  case (Suc K)
  have "2 * (S div 2 ^ Suc K) \<le> S div 2 ^ K"
    by (simp add: div_mult2_eq power_Suc2 del: power_Suc)
  with Suc show ?case by simp
qed simp

lemma sum_blocks_of_interval:
  fixes f :: "nat \<Rightarrow> nat"
  assumes "0 < H"
  shows "(\<Sum>h<H * K. f (h div H)) = H * (\<Sum>k<K. f k)"
proof (induction K)
  case (Suc K)
  have "(\<Sum>h<H * Suc K. f (h div H)) = (\<Sum>h<H * K. f (h div H)) + (\<Sum>h=H * K..<H * K + H. f (h div H))"
    by (simp add: sum.atLeastLessThan_concat lessThan_atLeast0 add.commute)
  also have "(\<Sum>h=H * K..<H * K + H. f (h div H)) = (\<Sum>h=H * K..<H * K + H. f K)"
  proof (rule sum.cong [OF refl])
    fix h assume "h \<in> {H * K..<H * K + H}"
    then have "h div H = K" by (intro div_nat_eqI) (auto simp: algebra_simps)
    then show "f (h div H) = f K" by simp
  qed
  finally show ?case using Suc by (simp add: algebra_simps)
qed simp

lemma halving_total: "(\<Sum>h<n. S div 2 ^ (h div H)) \<le> H * (2 * (S::nat))" if "0 < H"
proof -
  have "(\<Sum>h<n. S div 2 ^ (h div H)) \<le> (\<Sum>h<H * n. S div 2 ^ (h div H))"
    using that by (intro sum_mono2) auto
  also have "\<dots> = H * (\<Sum>k<n. S div 2 ^ k)"
    using that by (rule sum_blocks_of_interval)
  also have "\<dots> \<le> H * (2 * S)"
    using halving_series [of S n] by (intro mult_le_mono2) linarith
  finally show ?thesis .
qed

text \<open>The subsidies of all blocks up to any height.\<close>

lemma subsidy_total:
  assumes "n \<le> 2 ^ 31"
  shows "(\<Sum>h<n. sint (BlockSubsidy (of_nat h))) \<le> sint MaxMoney"
proof -
  have "sint (BlockSubsidy (of_nat h)) = int (5000000000 div 2 ^ (h div 210000))" if "h < n" for h
  proof -
    have h: "sint (of_nat h :: i32) = int h"
      using that assms by (simp add: signed_of_nat signed_take_bit_int_eq_self)
    then show ?thesis
      by (subst BlockSubsidy_sint) (simp_all add: zdiv_int nat_div_distrib)
  qed
  then have "(\<Sum>h<n. sint (BlockSubsidy (of_nat h))) =
      (\<Sum>h<n. int (5000000000 div 2 ^ (h div 210000)))"
    by (intro sum.cong) auto
  also have "\<dots> = int (\<Sum>h<n. 5000000000 div 2 ^ (h div 210000))" by simp
  also have "\<dots> \<le> int (210000 * (2 * 5000000000))"
    using halving_total [where H = 210000 and S = 5000000000 and n = n] by (simp only: of_nat_le_iff)
  finally show ?thesis by simp
qed

end
