(* ===== verification/Consensus.thy ===== *)
theory Consensus
  imports ChainCfg Sha256 "HOL-Library.Signed_Division"
begin

text \<open>
  Difficulty and work (\<^verbatim>\<open>internal/consensus/target.go\<close>): the compact encoding of
  targets, the DarkGravityWave v3 retarget, the work of a block and the proof-of-work check.
  \<open>big.Int\<close> is \<open>int\<close>; its \<open>Div\<close> is Euclidean, which for positive divisors is HOL's \<open>div\<close>.
  The time spans of the retarget are \<open>int64\<close> and wrap.
\<close>

datatype consensus_error = ErrTargetTooHigh | ErrHighHash

definition PowLimit :: int where
  "PowLimit = (2 ^ 256 - 1) div 2"

definition DGWv3PastBlocks :: nat where
  "DGWv3PastBlocks = 24"

record BlockWindowEntry =
  we_Height :: i32
  we_Time :: u32
  we_Bits :: u32

section \<open>The compact encoding\<close>

definition CompactToBig :: "u32 \<Rightarrow> int" where
  "CompactToBig compact =
     (let size = unat (drop_bit 24 compact);
          w = uint (compact AND 0x007fffff);
          result = (if size \<le> 3 then w div 2 ^ (8 * (3 - size)) else w * 2 ^ (8 * (size - 3)))
      in if compact AND 0x00800000 \<noteq> 0 then - result else result)"

text \<open>\<open>len(n.Bytes())\<close>\<close>

fun byte_len :: "nat \<Rightarrow> nat" where
  "byte_len n = (if n = 0 then 0 else Suc (byte_len (n div 256)))"

declare byte_len.simps [simp del]

definition BigToCompact :: "int \<Rightarrow> u32" where
  "BigToCompact n0 =
     (if n0 = 0 then 0
      else
        let negative = n0 < 0;
            n = nat \<bar>n0\<bar>;
            size = byte_len n;
            compact = (if size \<le> 3 then of_nat (n * 2 ^ (8 * (3 - size)))
                       else of_nat (n div 2 ^ (8 * (size - 3)))) :: u32;
            grow = compact AND 0x00800000 \<noteq> 0;
            size = (if grow then size + 1 else size);
            compact = (if grow then drop_bit 8 compact else compact);
            compact = compact OR push_bit 24 (of_nat size)
        in if negative \<and> compact AND 0x007fffff \<noteq> 0 then compact OR 0x00800000 else compact)"

section \<open>DarkGravityWave v3\<close>

text \<open>The target of one window entry, with non-positive or too easy ones replaced.\<close>

definition dgw_target :: "int \<Rightarrow> BlockWindowEntry \<Rightarrow> int" where
  "dgw_target powLimit e =
     (let target = CompactToBig (we_Bits e)
      in if target \<le> 0 \<or> target > powLimit then powLimit else target)"

text \<open>
  The averaging loop from \<open>count\<close> on, \<open>prev\<close> being the average of the entries before.
\<close>

fun dgw_average :: "int \<Rightarrow> nat \<Rightarrow> int \<Rightarrow> BlockWindowEntry list \<Rightarrow> int" where
  "dgw_average powLimit count prev [] = prev"
| "dgw_average powLimit count prev (e # es) =
     (let target = dgw_target powLimit e;
          avg = (if count = 1 then target else prev + (target - prev) div int count)
      in dgw_average powLimit (count + 1) avg es)"

text \<open>
  The time span the targets are scaled by, an \<open>int64\<close> throughout: the third is rounded towards
  zero and the triple wraps.
\<close>

definition clamp_timespan :: "i64 \<Rightarrow> int \<Rightarrow> int" where
  "clamp_timespan targetTimespan actual =
     (let third = sint targetTimespan sdiv 3;
          triple = sint (targetTimespan * 3);
          a = (if actual < third then third else actual)
      in if a > triple then triple else a)"

text \<open>\<open>big.Int.Div\<close>: Euclidean, and a division by zero panics (the value \<open>None\<close>).\<close>

definition big_Div :: "int \<Rightarrow> int \<Rightarrow> int option" where
  "big_Div a b = (if b = 0 then None else Some (if b > 0 then a div b else - (a div - b)))"

definition dgw_next :: "BlockWindowEntry list \<Rightarrow> i64 \<Rightarrow> int \<Rightarrow> int option" where
  "dgw_next recent targetSpacingSeconds powLimit =
     (let avg = dgw_average powLimit 1 0 (take DGWv3PastBlocks recent);
          actual = uint (we_Time (recent ! 0)) - uint (we_Time (recent ! (DGWv3PastBlocks - 1)));
          targetTimespan = of_nat DGWv3PastBlocks * targetSpacingSeconds
      in map_option (\<lambda>next. if next > powLimit then powLimit else next)
           (big_Div (avg * clamp_timespan targetTimespan actual) (sint targetTimespan)))"

definition DarkGravityWaveV3 :: "BlockWindowEntry list \<Rightarrow> i64 \<Rightarrow> int \<Rightarrow> u32 \<Rightarrow> u32 option" where
  "DarkGravityWaveV3 recent targetSpacingSeconds powLimit powLimitBits =
     (if length recent < DGWv3PastBlocks \<or> targetSpacingSeconds \<le>s 0 then Some powLimitBits
      else map_option BigToCompact (dgw_next recent targetSpacingSeconds powLimit))"

section \<open>Work and the proof-of-work check\<close>

text \<open>\<open>SetBytes\<close>: a big-endian unsigned number.\<close>

definition big_SetBytes :: "bytes \<Rightarrow> int" where
  "big_SetBytes bs = foldl (\<lambda>n b. 256 * n + uint b) 0 bs"

definition HashToBig :: "hash \<Rightarrow> int" where
  "HashToBig h = big_SetBytes (rev h)"

definition WorkForBits :: "u32 \<Rightarrow> int" where
  "WorkForBits bits =
     (let target = CompactToBig bits
      in if target \<le> 0 \<or> target > PowLimit then 0 else 2 ^ 256 div (target + 1))"

definition CheckProofOfWork :: "hash \<Rightarrow> u32 \<Rightarrow> consensus_error + unit" where
  "CheckProofOfWork h bits =
     (let target = CompactToBig bits
      in if target \<le> 0 \<or> target > PowLimit then Inl ErrTargetTooHigh
         else if HashToBig h > target then Inl ErrHighHash else Inr ())"

section \<open>Lemmas on the encoding\<close>

lemma byte_len_bounds:
  "0 < n \<Longrightarrow> 0 < byte_len n \<and> 256 ^ (byte_len n - 1) \<le> n \<and> n < 256 ^ byte_len n"
proof (induction n rule: byte_len.induct)
  case (1 n)
  show ?case
  proof (cases "n div 256 = 0")
    case True
    then have "n < 256" by (simp add: div_eq_0_iff)
    with 1 True show ?thesis by (simp add: byte_len.simps [of n] byte_len.simps [of 0])
  next
    case False
    define k where "k = byte_len (n div 256)"
    have ih: "0 < k" "256 ^ (k - 1) \<le> n div 256" "n div 256 < 256 ^ k"
      using 1 False unfolding k_def by auto
    have "256 * 256 ^ (k - 1) \<le> 256 * (n div 256)" using ih(2) by simp
    also have "\<dots> \<le> n" by simp
    finally have "256 ^ k \<le> n" using ih(1) by (cases k) auto
    moreover have "n < 256 * 256 ^ k" using ih(3) by (simp add: div_less_iff_less_mult mult.commute)
    moreover have "byte_len n = Suc k" using 1(2) by (simp add: byte_len.simps [of n] k_def)
    ultimately show ?thesis by simp
  qed
qed

lemma word_and_bit23: "(w :: u32) AND 0x00800000 \<noteq> 0 \<longleftrightarrow> bit w 23"
proof -
  have "(0x00800000 :: u32) = push_bit 23 1" by simp
  then show ?thesis
    by (metis (no_types, lifting) and_exp_eq_0_iff_not_bit push_bit_eq_mult mult_1)
qed

lemma bit_of_bounded:
  assumes "unat (w :: u32) < 2 ^ n" "n \<le> i"
  shows "\<not> bit w i"
proof -
  have "take_bit n w = w" using assms(1) by (simp add: take_bit_word_eq_self word_unat_eq_iff unsigned_take_bit_eq take_bit_nat_eq_self)
  then show ?thesis using assms(2) by (metis bit_take_bit_iff leD)
qed

lemma bit23_iff:
  assumes "unat (w :: u32) < 2 ^ 24"
  shows "bit w 23 \<longleftrightarrow> 2 ^ 23 \<le> unat w"
proof
  assume "bit w 23"
  then show "2 ^ 23 \<le> unat w" using bit_of_bounded [of w 23 23] by force
next
  assume le: "2 ^ 23 \<le> unat w"
  show "bit w 23"
  proof (rule ccontr)
    assume n: "\<not> bit w 23"
    have "take_bit 23 w = w"
    proof (rule bit_word_eqI)
      fix i show "bit (take_bit 23 w) i \<longleftrightarrow> bit w i"
        using n bit_of_bounded [OF assms, of i] by (cases "i < 23"; cases "i = 23") (auto simp: bit_take_bit_iff)
    qed
    then have "unat w = take_bit 23 (unat w)" by (metis unsigned_take_bit_eq)
    then have "unat w < 2 ^ 23" by (metis take_bit_nat_less_exp)
    with le show False by simp
  qed
qed

text \<open>A positive mantissa below \<open>2 ^ 23\<close> and a size byte, packed and unpacked.\<close>

lemma compact_fields:
  fixes m :: u32
  assumes m: "unat m < 2 ^ 23" and s: "s < 256"
  defines "c \<equiv> m OR push_bit 24 (of_nat s)"
  shows "drop_bit 24 c = of_nat s" "c AND 0x007fffff = m" "\<not> bit c 23"
proof -
  have s8: "unat (of_nat s :: u32) < 2 ^ 8"
    using s by (simp add: unat_of_nat take_bit_nat_eq_self)
  have mb: "bit m i \<Longrightarrow> i < 23" and sb: "bit (of_nat s :: u32) i \<Longrightarrow> i < 8" for i
    using bit_of_bounded [OF m, of i] bit_of_bounded [OF s8, of i] not_le by blast+
  show "drop_bit 24 c = of_nat s"
    by (rule bit_word_eqI)
      (auto simp: c_def bit_drop_bit_eq bit_or_iff bit_push_bit_iff dest: mb sb)
  have "c AND mask 23 = m"
    by (rule bit_word_eqI)
      (auto simp: c_def bit_and_iff bit_mask_iff bit_or_iff bit_push_bit_iff dest: mb)
  then show "c AND 0x007fffff = m" by (simp add: mask_eq_exp_minus_1)
  show "\<not> bit c 23"
    by (auto simp: c_def bit_or_iff bit_push_bit_iff dest: mb)
qed

lemma CompactToBig_packed:
  assumes "unat (m :: u32) < 2 ^ 23" "s < 256"
  shows "CompactToBig (m OR push_bit 24 (of_nat s)) =
    (if s \<le> 3 then uint m div 2 ^ (8 * (3 - s)) else uint m * 2 ^ (8 * (s - 3)))"
  using compact_fields [OF assms] assms(2)
  by (simp add: CompactToBig_def Let_def word_and_bit23 unat_of_nat take_bit_nat_eq_self)

text \<open>
  The number of low bytes \<open>BigToCompact\<close> drops, and the value it stores: the argument
  rounded down to a multiple of that power of 256.
\<close>

definition compact_mant :: "nat \<Rightarrow> nat" where
  "compact_mant n =
     (if byte_len n \<le> 3 then n * 2 ^ (8 * (3 - byte_len n)) else n div 2 ^ (8 * (byte_len n - 3)))"

definition compact_drop :: "nat \<Rightarrow> nat" where
  "compact_drop n = (if 2 ^ 23 \<le> compact_mant n then byte_len n - 2 else byte_len n - 3)"

lemma pow256: "(256::nat) ^ k = 2 ^ (8 * k)"
  by (simp add: power_mult)

lemma compact_mant_less: "0 < n \<Longrightarrow> compact_mant n < 2 ^ 24"
proof -
  assume "0 < n"
  then have b: "n < 2 ^ (8 * byte_len n)" using byte_len_bounds [of n] by (simp add: pow256)
  show ?thesis
  proof (cases "byte_len n \<le> 3")
    case True
    have "n * 2 ^ (8 * (3 - byte_len n)) < 2 ^ (8 * byte_len n) * 2 ^ (8 * (3 - byte_len n))"
      using b by simp
    also have "\<dots> = (2::nat) ^ (8 * byte_len n + 8 * (3 - byte_len n))" by (simp only: power_add)
    also have "8 * byte_len n + 8 * (3 - byte_len n) = 24" using True by simp
    finally show ?thesis using True by (simp add: compact_mant_def)
  next
    case False
    then have "8 * byte_len n = 24 + 8 * (byte_len n - 3)" by simp
    then have "n < 2 ^ 24 * 2 ^ (8 * (byte_len n - 3))" using b by (metis power_add)
    then show ?thesis using False by (simp add: compact_mant_def div_less_iff_less_mult)
  qed
qed

lemma BigToCompact_packed:
  assumes n: "0 < n"
  shows "BigToCompact (int n) =
    (if 2 ^ 23 \<le> compact_mant n
     then of_nat (compact_mant n div 2 ^ 8) OR push_bit 24 (of_nat (byte_len n + 1))
     else of_nat (compact_mant n) OR push_bit 24 (of_nat (byte_len n)))"
proof -
  have u: "unat (of_nat (compact_mant n) :: u32) = compact_mant n"
    using compact_mant_less [OF n] by (simp add: unat_of_nat take_bit_nat_eq_self)
  have g: "bit (of_nat (compact_mant n) :: u32) 23 \<longleftrightarrow> 2 ^ 23 \<le> compact_mant n"
    using bit23_iff [of "of_nat (compact_mant n)"] compact_mant_less [OF n] u by simp
  have "unat (drop_bit 8 (of_nat (compact_mant n) :: u32)) = compact_mant n div 2 ^ 8"
    by (simp only: unat_drop_bit_eq u) (simp only: drop_bit_eq_div)
  moreover have "unat (of_nat (compact_mant n div 2 ^ 8) :: u32) = compact_mant n div 2 ^ 8"
    using compact_mant_less [OF n] by (simp add: unat_of_nat take_bit_nat_eq_self)
  ultimately have d: "drop_bit 8 (of_nat (compact_mant n) :: u32) = of_nat (compact_mant n div 2 ^ 8)"
    by (simp only: word_unat_eq_iff)
  have c: "(if byte_len n \<le> 3 then of_nat (n * 2 ^ (8 * (3 - byte_len n)))
      else of_nat (n div 2 ^ (8 * (byte_len n - 3)))) = (of_nat (compact_mant n) :: u32)"
    by (simp add: compact_mant_def)
  show ?thesis
    using n unfolding BigToCompact_def Let_def nat_int abs_of_nat c word_and_bit23 g d
    by simp
qed

lemma unat_mant:
  "m < 2 ^ 23 \<Longrightarrow> unat (of_nat m :: u32) = m \<and> uint (of_nat m :: u32) = int m"
  by (simp add: unat_of_nat take_bit_nat_eq_self uint_word_of_int_eq unsigned_of_nat)

lemma CompactToBig_BigToCompact_nat:
  assumes n: "0 < n" and small: "byte_len n < 255"
  shows "CompactToBig (BigToCompact (int n)) = int (n div 256 ^ compact_drop n * 256 ^ compact_drop n)"
proof (cases "2 ^ 23 \<le> compact_mant n")
  case True
  let ?m = "compact_mant n div 2 ^ 8"
  have m: "?m < 2 ^ 23" using compact_mant_less [OF n] by (simp add: div_less_iff_less_mult)
  have val: "CompactToBig (BigToCompact (int n)) =
    (if byte_len n + 1 \<le> 3 then int ?m div 2 ^ (8 * (3 - (byte_len n + 1)))
     else int ?m * 2 ^ (8 * (byte_len n + 1 - 3)))"
    using CompactToBig_packed [of "of_nat ?m" "byte_len n + 1"] unat_mant [OF m] m small True
    by (simp add: BigToCompact_packed [OF n])
  then show ?thesis
  proof (cases "byte_len n \<le> 2")
    case True
    then have "byte_len n = 1 \<or> byte_len n = 2"
      using byte_len_bounds [OF n] by linarith
    with val \<open>2 ^ 23 \<le> compact_mant n\<close> show ?thesis
      by (auto simp: compact_drop_def compact_mant_def zdiv_int)
  next
    case False
    then have "byte_len n = byte_len n - 3 + 3" by simp
    then obtain k where k: "byte_len n = k + 3" by blast
    have "compact_mant n = n div 2 ^ (8 * k)" by (auto simp: compact_mant_def k)
    then have "?m = n div 2 ^ (8 * k + 8)" by (simp only: div_mult2_eq power_add)
    moreover have "compact_drop n = k + 1"
      using \<open>2 ^ 23 \<le> compact_mant n\<close> k by (simp add: compact_drop_def)
    moreover have "(256::nat) ^ (k + 1) = 2 ^ (8 * k + 8)"
      by (simp only: pow256 distrib_left mult_1_right)
    moreover have "8 * (byte_len n + 1 - 3) = 8 * k + 8" using k by simp
    ultimately show ?thesis using val k by (simp del: power_Suc)
  qed
next
  case False
  then have m: "compact_mant n < 2 ^ 23" by simp
  have "CompactToBig (BigToCompact (int n)) =
    (if byte_len n \<le> 3 then int (compact_mant n) div 2 ^ (8 * (3 - byte_len n))
     else int (compact_mant n) * 2 ^ (8 * (byte_len n - 3)))"
    using CompactToBig_packed [of "of_nat (compact_mant n)" "byte_len n"] unat_mant [OF m] m small False
    by (simp add: BigToCompact_packed [OF n])
  then show ?thesis using False
    by (auto simp: compact_drop_def compact_mant_def pow256)
qed

lemma compact_drop_small:
  assumes n: "0 < n"
  shows "compact_drop n = 0 \<or> 2 ^ 15 * 256 ^ compact_drop n \<le> n"
proof (cases "compact_drop n = 0")
  case False
  have lo: "2 ^ (8 * (byte_len n - 1)) \<le> n" using byte_len_bounds [OF n] by (simp add: pow256)
  show ?thesis
  proof (cases "2 ^ 23 \<le> compact_mant n")
    case True
    with False have k: "3 \<le> byte_len n" by (simp add: compact_drop_def)
    then have "compact_mant n = n div 2 ^ (8 * (byte_len n - 3))" by (auto simp: compact_mant_def)
    with True have "2 ^ 23 * 2 ^ (8 * (byte_len n - 3)) \<le> n"
      by (metis div_le_mono div_mult_self_is_m div_times_less_eq_dividend le_trans mult_le_mono1 zero_less_numeral)
    moreover have "(2::nat) ^ 15 * 2 ^ (8 * (byte_len n - 2)) = 2 ^ 23 * 2 ^ (8 * (byte_len n - 3))"
      using k by (simp only: power_add [symmetric]) (rule arg_cong [where f = "\<lambda>x. 2 ^ x"], arith)
    ultimately show ?thesis using True by (simp add: compact_drop_def pow256)
  next
    case c: False
    with False have k: "4 \<le> byte_len n" by (simp add: compact_drop_def)
    have "(2::nat) ^ 15 * 2 ^ (8 * (byte_len n - 3)) \<le> 2 ^ (8 * (byte_len n - 1))"
      unfolding power_add [symmetric] using k by (intro power_increasing) simp_all
    with lo c show ?thesis by (simp add: compact_drop_def pow256)
  qed
qed simp

text \<open>Rounding a non-negative target through the compact form loses less than one part in \<open>2 ^ 15\<close>.\<close>

lemma compact_round_down:
  assumes "0 \<le> n" "n < 2 ^ 256"
  shows "CompactToBig (BigToCompact n) \<le> n \<and> (n - CompactToBig (BigToCompact n)) * 2 ^ 15 \<le> n \<and>
    (0 < n \<longrightarrow> 0 < CompactToBig (BigToCompact n))"
proof (cases "n = 0")
  case True
  then show ?thesis by (simp add: BigToCompact_def CompactToBig_def)
next
  case False
  define m where "m = nat n"
  have m: "0 < m" "n = int m" using False assms by (auto simp: m_def)
  have "2 ^ (8 * (byte_len m - 1)) \<le> m" using byte_len_bounds [OF m(1)] by (simp add: pow256)
  moreover have "m < 2 ^ 256" using assms by (simp add: m_def nat_less_iff)
  ultimately have "(2::nat) ^ (8 * (byte_len m - 1)) < 2 ^ 256" by (rule le_less_trans)
  then have "8 * (byte_len m - 1) < 256" by (rule power_less_imp_less_exp [rotated]) simp
  then have bl: "byte_len m < 255" by simp
  define e where "e = (256::nat) ^ compact_drop m"
  have e: "0 < e" "e = 1 \<or> 2 ^ 15 * e \<le> m"
    using compact_drop_small [OF m(1)] by (auto simp: e_def)
  have c: "CompactToBig (BigToCompact (int m)) = int (m div e * e)"
    using CompactToBig_BigToCompact_nat [OF m(1) bl] by (simp add: e_def)
  have le: "m div e * e \<le> m" by simp
  have err: "(m - m div e * e) * 2 ^ 15 \<le> m"
  proof -
    have "m - m div e * e = m mod e" by (simp add: minus_div_mult_eq_mod)
    moreover have "m mod e * 2 ^ 15 \<le> e * 2 ^ 15" using e(1) by (simp add: less_imp_le)
    ultimately show ?thesis using e(2) by (auto simp: mult.commute intro: order_trans)
  qed
  have "e \<le> m" using e(2) m(1) by auto
  then have "0 < m div e * e" using e(1) by (simp add: div_greater_zero_iff)
  moreover have "(int m - int (m div e * e)) * 2 ^ 15 \<le> int m"
  proof -
    have "int ((m - m div e * e) * 2 ^ 15) \<le> int m" using err by (simp only: of_nat_le_iff)
    then show ?thesis using le by (simp only: of_nat_mult of_nat_diff) simp
  qed
  moreover have "int (m div e * e) \<le> int m" using le by (simp only: of_nat_le_iff)
  ultimately show ?thesis unfolding m(2) c by (simp del: of_nat_mult)
qed

section \<open>Lemmas on the retarget\<close>

lemma PowLimit_value: "PowLimit = 2 ^ 255 - 1"
  by (simp add: PowLimit_def)

lemma dgw_target_bounds: "0 < powLimit \<Longrightarrow> 0 < dgw_target powLimit e \<and> dgw_target powLimit e \<le> powLimit"
  by (simp add: dgw_target_def Let_def)

lemma mean_step:
  fixes p t :: int
  assumes "0 < c" "lo \<le> p" "p \<le> hi" "lo \<le> t" "t \<le> hi"
  shows "lo \<le> p + (t - p) div c \<and> p + (t - p) div c \<le> hi"
proof (cases "p \<le> t")
  case True
  then have "0 \<le> (t - p) div c" "(t - p) div c \<le> t - p"
    using assms(1) zdiv_mono2 [of "t - p" 1 c] by (simp_all add: pos_imp_zdiv_nonneg_iff)
  with assms show ?thesis by linarith
next
  case False
  have "(t - p) div c \<le> 0" using False assms(1) by (simp add: div_nonpos_pos_le0)
  moreover have "t - p \<le> (t - p) div c"
    using False assms(1) zdiv_mono2_neg [of "t - p" 1 c] by simp
  ultimately show ?thesis using assms False by linarith
qed

lemma dgw_average_bounds:
  assumes "\<forall>e\<in>set es. lo \<le> dgw_target L e \<and> dgw_target L e \<le> hi"
    and "0 < c" "c = 1 \<Longrightarrow> es \<noteq> []" "c \<noteq> 1 \<Longrightarrow> lo \<le> p \<and> p \<le> hi"
  shows "lo \<le> dgw_average L c p es \<and> dgw_average L c p es \<le> hi"
  using assms
proof (induction es arbitrary: c p)
  case (Cons e es)
  define avg where "avg = (if c = 1 then dgw_target L e else p + (dgw_target L e - p) div int c)"
  have "lo \<le> avg \<and> avg \<le> hi"
    using Cons.prems mean_step [of "int c" lo p hi "dgw_target L e"] by (simp add: avg_def)
  then show ?case using Cons.IH [of "c + 1" avg] Cons.prems by (simp add: Let_def avg_def)
qed auto

text \<open>Spacings whose time spans do not wrap.\<close>

lemma sint_small_mult:
  assumes "0 \<le> sint (x :: i64)" "int k * sint x < 2 ^ 63"
  shows "sint (of_nat k * x) = int k * sint x"
proof -
  have "of_nat k * x = (of_int (int k * sint x) :: i64)" by simp
  moreover have "0 \<le> int k * sint x" using assms(1) by simp
  ultimately show ?thesis using assms(2) sint_of_int_i64 [of "int k * sint x"] by simp
qed

lemma timespan_value:
  assumes "0 < sint spacing" "72 * sint spacing < 2 ^ 63"
  shows "sint (of_nat DGWv3PastBlocks * spacing :: i64) = 24 * sint spacing"
    and "sint (of_nat DGWv3PastBlocks * spacing * 3 :: i64) = 72 * sint spacing"
proof -
  show "sint (of_nat DGWv3PastBlocks * spacing :: i64) = 24 * sint spacing"
    using sint_small_mult [of spacing 24] assms by (simp add: DGWv3PastBlocks_def)
  have "of_nat DGWv3PastBlocks * spacing * 3 = of_nat 72 * spacing" by (simp add: DGWv3PastBlocks_def)
  then show "sint (of_nat DGWv3PastBlocks * spacing * 3 :: i64) = 72 * sint spacing"
    using sint_small_mult [of spacing 72] assms by simp
qed

lemma clamp_timespan_bounds:
  assumes "sint T = N" "sint (T * 3) = 3 * N" "0 \<le> N"
  shows "N div 3 \<le> clamp_timespan T a \<and> clamp_timespan T a \<le> N * 3"
proof -
  have "sint T sdiv 3 = N div 3" using assms(1,3) by (simp add: signed_divide_int_def sgn_if)
  then show ?thesis using assms by (auto simp: clamp_timespan_def Let_def)
qed

text \<open>
  The retarget of a full window: never above the limit, and within a factor of three of the
  window's targets on either side.
\<close>

lemma dgw_next_bounds:
  assumes len: "DGWv3PastBlocks \<le> length recent" and T: "0 < sint T" "72 * sint T < 2 ^ 63" and lo: "0 \<le> lo" and L: "hi \<le> L"
    and win: "\<forall>e\<in>set (take DGWv3PastBlocks recent). lo \<le> dgw_target L e \<and> dgw_target L e \<le> hi"
  obtains n where "dgw_next recent T L = Some n" "lo div 3 \<le> n" "n \<le> L" "n \<le> hi * 3"
proof -
  define avg where "avg = dgw_average L 1 0 (take DGWv3PastBlocks recent)"
  define N where "N = 24 * sint T"
  have N: "0 < N" "N div 3 * 3 = N" using T by (simp_all add: N_def)
  have span: "sint (of_nat DGWv3PastBlocks * T :: i64) = N" "sint (of_nat DGWv3PastBlocks * T * 3 :: i64) = 3 * N"
    using timespan_value [OF T] by (simp_all add: N_def)
  define c where "c = clamp_timespan (of_nat DGWv3PastBlocks * T) (uint (we_Time (recent ! 0)) - uint (we_Time (recent ! (DGWv3PastBlocks - 1))))"
  have c: "N div 3 \<le> c" "c \<le> N * 3" using clamp_timespan_bounds [OF span] N(1) by (simp_all add: c_def)
  have "take DGWv3PastBlocks recent \<noteq> []" using len by (auto simp: DGWv3PastBlocks_def)
  then have a: "lo \<le> avg" "avg \<le> hi"
    using dgw_average_bounds [OF win, of 1 0] by (simp_all add: avg_def)
  have "lo * (N div 3) \<le> avg * c" using a(1) c(1) lo N by (intro mult_mono) auto
  then have "lo * (N div 3) div N \<le> avg * c div N" using N(1) by (intro zdiv_mono1)
  moreover have "lo * (N div 3) div N = lo div 3"
  proof -
    have "lo * (N div 3) div N = (N div 3 * lo) div (N div 3 * 3)" using N(2) by (simp add: mult.commute)
    also have "\<dots> = lo div 3" using N by (intro div_mult_mult1) auto
    finally show ?thesis .
  qed
  moreover have "avg * c \<le> hi * (N * 3)" using a c lo N by (intro mult_mono) (auto intro: order_trans)
  then have "avg * c div N \<le> hi * (N * 3) div N" using N(1) by (intro zdiv_mono1)
  moreover have "hi * (N * 3) div N = hi * 3" using N(1) by simp
  moreover have "lo div 3 \<le> L" using a lo L zdiv_mono2 [of lo 1 3] by simp
  moreover have n: "dgw_next recent T L = Some (if avg * c div N > L then L else avg * c div N)"
    using N(1) by (simp add: dgw_next_def Let_def avg_def c_def span big_Div_def)
  moreover have "L \<le> hi * 3 \<or> avg * c div N \<le> L" using calculation by linarith
  ultimately show thesis using that by auto
qed

text \<open>Where they wrap, the division can be one by zero: the function panics.\<close>

lemma retarget_panics: "DGWv3PastBlocks \<le> length recent \<Longrightarrow> DarkGravityWaveV3 recent (2 ^ 61) L bits = None"
  by (simp add: DarkGravityWaveV3_def dgw_next_def Let_def big_Div_def DGWv3PastBlocks_def word_sle_eq)

section \<open>Lemmas on work\<close>

lemma WorkForBits_pos:
  assumes "0 < CompactToBig bits" "CompactToBig bits \<le> PowLimit"
  shows "2 \<le> WorkForBits bits"
proof -
  have "(2::int) ^ 256 div 2 ^ 255 \<le> 2 ^ 256 div (CompactToBig bits + 1)"
    using assms by (intro zdiv_mono2) (simp_all add: PowLimit_value)
  then show ?thesis using assms by (simp add: WorkForBits_def Let_def)
qed

lemma WorkForBits_nonneg: "0 \<le> WorkForBits bits"
  by (simp add: WorkForBits_def Let_def pos_imp_zdiv_nonneg_iff)

lemma WorkForBits_antimono:
  assumes "0 < CompactToBig a" "CompactToBig a \<le> CompactToBig b"
  shows "WorkForBits b \<le> WorkForBits a"
proof (cases "CompactToBig b \<le> PowLimit")
  case True
  have "(2::int) ^ 256 div (CompactToBig b + 1) \<le> 2 ^ 256 div (CompactToBig a + 1)"
    using assms by (intro zdiv_mono2) simp_all
  with assms True show ?thesis by (simp add: WorkForBits_def Let_def)
next
  case False
  then show ?thesis using WorkForBits_nonneg [of a] by (simp add: WorkForBits_def Let_def)
qed

lemma CheckProofOfWork_iff:
  "CheckProofOfWork h bits = Inr () \<longleftrightarrow>
     0 < CompactToBig bits \<and> CompactToBig bits \<le> PowLimit \<and> HashToBig h \<le> CompactToBig bits"
  by (auto simp: CheckProofOfWork_def Let_def)

lemma CheckProofOfWork_work: "CheckProofOfWork h bits = Inr () \<Longrightarrow> 2 \<le> WorkForBits bits"
  by (simp add: CheckProofOfWork_iff WorkForBits_pos)

lemma big_SetBytes_append: "big_SetBytes (bs @ [b]) = 256 * big_SetBytes bs + uint b"
  by (simp add: big_SetBytes_def)

lemma big_SetBytes_bounds: "0 \<le> big_SetBytes bs \<and> big_SetBytes bs < 256 ^ length bs"
proof (induction bs rule: rev_induct)
  case (snoc b bs)
  have "uint b < 256" using unsigned_less [of b, where 'a = int] by simp
  with snoc show ?case by (simp add: big_SetBytes_append)
qed (simp add: big_SetBytes_def)

lemma HashToBig_bounds: "hash_ok h \<Longrightarrow> 0 \<le> HashToBig h \<and> HashToBig h < 2 ^ 256"
  using big_SetBytes_bounds [of "rev h"]
  by (simp add: HashToBig_def hash_ok_def HashSize_def)

end
