(* ===== verification/Amount.thy ===== *)
theory Amount
  imports ChainCfg
begin

text \<open>
  Amounts as text (\<^verbatim>\<open>internal/amount/amount.go\<close>): the strict decimal parser, the
  base-unit parser and the fixed 8-decimal formatter. Strings are ASCII; the white space
  \<open>strings.TrimSpace\<close> removes is the ASCII one.
\<close>

datatype amount_error =
    EmptyAmount | NotPositive | NotPlainDecimal | BadDecimal | TooManyDecimals
  | NotDigits | BadWhole | BadFraction | AmountOutOfRange | BadBaseUnits | BadInt

section \<open>The string functions used\<close>

definition is_space :: "char \<Rightarrow> bool" where
  "is_space c \<longleftrightarrow> c = CHR 0x20 \<or> (9 \<le> (of_char c :: nat) \<and> (of_char c :: nat) \<le> 13)"

definition TrimSpace :: "string \<Rightarrow> string" where
  "TrimSpace s = rev (dropWhile is_space (rev (dropWhile is_space s)))"

definition HasPrefix :: "string \<Rightarrow> string \<Rightarrow> bool" where
  "HasPrefix s p \<longleftrightarrow> take (length p) s = p"

definition TrimPrefix :: "string \<Rightarrow> string \<Rightarrow> string" where
  "TrimPrefix s p = (if HasPrefix s p then drop (length p) s else s)"

definition ContainsAny :: "string \<Rightarrow> string \<Rightarrow> bool" where
  "ContainsAny s cs \<longleftrightarrow> list_ex (\<lambda>c. c \<in> set cs) s"

text \<open>\<open>strings.Split\<close> on one character: always at least one part.\<close>

fun split_char :: "char \<Rightarrow> string \<Rightarrow> string list" where
  "split_char d [] = [[]]"
| "split_char d (c # cs) =
     (if c = d then [] # split_char d cs
      else (case split_char d cs of [] \<Rightarrow> [[c]] | p # ps \<Rightarrow> (c # p) # ps))"

text \<open>\<open>strconv.ParseInt(s, 10, 64)\<close>: an optional sign, then digits, in range.\<close>

definition ParseInt64 :: "string \<Rightarrow> i64 option" where
  "ParseInt64 s =
     (let neg = HasPrefix s ''-'';
          ds = (if HasPrefix s ''-'' \<or> HasPrefix s ''+'' then tl s else s)
      in if ds = [] \<or> \<not> list_all is_digit ds then None
         else if \<not> neg \<and> dec_value ds \<ge> 2 ^ 63 then None
         else if neg \<and> dec_value ds > 2 ^ 63 then None
         else Some (if neg then - of_nat (dec_value ds) else of_nat (dec_value ds)))"

section \<open>ParseLBTC and ParseBaseUnits\<close>

definition ParseLBTC :: "string \<Rightarrow> amount_error + i64" where
  "ParseLBTC s0 =
     (let s = TrimSpace s0 in
      if s = [] then Inl EmptyAmount
      else
        let s = (if HasPrefix s ''+'' then TrimPrefix s ''+'' else s) in
        if HasPrefix s ''-'' then Inl NotPositive
        else if ContainsAny s ''eE,'' then Inl NotPlainDecimal
        else
          let parts = split_char (CHR ''.'') s in
          if length parts > 2 then Inl BadDecimal
          else
            let wholePart = parts ! 0;
                fracPart = (if length parts = 2 then parts ! 1 else []);
                wholePart = (if wholePart = [] then ''0'' else wholePart);
                fracPart = (if fracPart = [] \<and> length parts = 2 then ''0'' else fracPart)
            in if length fracPart > 8 then Inl TooManyDecimals
               else if \<not> list_all is_digit (wholePart @ fracPart) then Inl NotDigits
               else (case ParseInt64 wholePart of None \<Rightarrow> Inl BadWhole
                 | Some whole \<Rightarrow>
                   (case ParseInt64 (fracPart @ replicate (8 - length fracPart) (CHR ''0'')) of
                      None \<Rightarrow> Inl BadFraction
                    | Some frac \<Rightarrow>
                      if sint whole > sint MaxMoney div sint Coin then Inl AmountOutOfRange
                      else let val = whole * Coin + frac in
                        if val \<le>s 0 then Inl NotPositive
                        else if \<not> MoneyRange val then Inl AmountOutOfRange
                        else Inr val)))"

definition ParseBaseUnits :: "string \<Rightarrow> amount_error + i64" where
  "ParseBaseUnits s0 =
     (let s = TrimSpace s0 in
      if s = [] \<or> HasPrefix s ''-'' \<or> ContainsAny s ''.eE,+'' then Inl BadBaseUnits
      else (case ParseInt64 s of None \<Rightarrow> Inl BadInt
        | Some v \<Rightarrow> if v \<le>s 0 \<or> \<not> MoneyRange v then Inl AmountOutOfRange else Inr v))"

section \<open>FormatLBTC\<close>

definition fmt_d :: "int \<Rightarrow> string" where
  "fmt_d x = (if x < 0 then CHR ''-'' # dec_string (nat (- x)) else dec_string (nat x))"

text \<open>\<open>%08d\<close>: zero padding to eight characters, after the sign.\<close>

definition fmt_08d :: "int \<Rightarrow> string" where
  "fmt_08d x =
     (let ds = dec_string (nat \<bar>x\<bar>); w = (if x < 0 then 7 else 8)
      in (if x < 0 then ''-'' else []) @ replicate (w - length ds) (CHR ''0'') @ ds)"

text \<open>Go's division truncates towards zero.\<close>

definition quot :: "int \<Rightarrow> int \<Rightarrow> int" where
  "quot a b = sgn a * sgn b * (\<bar>a\<bar> div \<bar>b\<bar>)"

definition remn :: "int \<Rightarrow> int \<Rightarrow> int" where
  "remn a b = a - quot a b * b"

definition FormatLBTC :: "i64 \<Rightarrow> string" where
  "FormatLBTC v0 =
     (let sign = (if v0 <s 0 then ''-'' else []);
          v = (if v0 <s 0 then - v0 else v0);
          whole = quot (sint v) (sint Coin);
          frac = remn (sint v) (sint Coin)
      in sign @ fmt_d whole @ ''.'' @ fmt_08d frac)"

definition FormatWithTicker :: "i64 \<Rightarrow> string" where
  "FormatWithTicker v = FormatLBTC v @ '' LBTC''"

section \<open>Lemmas\<close>

lemma digit_not_special:
  "is_digit c \<Longrightarrow> \<not> is_space c \<and> c \<noteq> CHR ''.'' \<and> c \<noteq> CHR ''e'' \<and> c \<noteq> CHR ''E'' \<and> c \<noteq> CHR '','' \<and>
     c \<noteq> CHR ''+'' \<and> c \<noteq> CHR ''-''"
  by (auto simp: is_digit_def is_space_def)

lemma dec_value_snoc_zeros: "dec_value (s @ replicate n (CHR ''0'')) = 10 ^ n * dec_value s"
proof (induction n)
  case (Suc n)
  have "replicate (Suc n) (CHR ''0'') = replicate n (CHR ''0'') @ [CHR ''0'']"
    by (simp add: replicate_append_same)
  moreover have "digit_val (CHR ''0'') = 0" by (simp add: digit_val_def)
  ultimately show ?case using Suc
    by (simp del: replicate_Suc append_assoc add: append_assoc [symmetric])
qed simp

lemma dec_value_foldl:
  "foldl (\<lambda>n c. 10 * n + digit_val c) a s = a * 10 ^ length s + dec_value s"
proof (induction s arbitrary: a)
  case (Cons c s)
  from Cons [of "10 * a + digit_val c"] Cons [of "digit_val c"] show ?case
    by (simp add: dec_value_def algebra_simps)
qed (simp add: dec_value_def)

lemma dec_value_append: "dec_value (s @ t) = dec_value s * 10 ^ length t + dec_value t"
  using dec_value_foldl [of "dec_value s" t] by (simp add: dec_value_def)

lemma dec_value_zeros [simp]: "dec_value (replicate n (CHR ''0'')) = 0"
  using dec_value_snoc_zeros [of "[]" n] by (simp add: dec_value_def)

lemma digit_val_less: "is_digit c \<Longrightarrow> digit_val c < 10"
  unfolding is_digit_def digit_val_def by linarith

lemma dec_value_bound: "list_all is_digit s \<Longrightarrow> dec_value s < 10 ^ length s"
proof (induction s rule: rev_induct)
  case (snoc c s)
  then have "digit_val c < 10" by (simp add: digit_val_less)
  with snoc show ?case by simp
qed (simp add: dec_value_def)

lemma length_dec_string: "n < 10 ^ k \<Longrightarrow> 0 < k \<Longrightarrow> length (dec_string n) \<le> k"
proof (induction k arbitrary: n)
  case (Suc k)
  show ?case
  proof (cases "n < 10")
    case True
    then show ?thesis by (simp add: dec_string.simps [of n])
  next
    case False
    then have "0 < k" using Suc.prems by (cases k) auto
    moreover have "n div 10 < 10 ^ k" using Suc.prems by (simp add: less_mult_imp_div_less mult.commute)
    ultimately have "length (dec_string (n div 10)) \<le> k" by (intro Suc.IH)
    with False show ?thesis by (simp add: dec_string.simps [of n])
  qed
qed simp

lemma split_char_none: "d \<notin> set s \<Longrightarrow> split_char d s = [s]"
  by (induction s) auto

lemma split_char_once: "d \<notin> set a \<Longrightarrow> d \<notin> set b \<Longrightarrow> split_char d (a @ d # b) = [a, b]"
  by (induction a) (auto simp: split_char_none)

lemma TrimSpace_id: "s \<noteq> [] \<Longrightarrow> \<not> is_space (hd s) \<Longrightarrow> \<not> is_space (last s) \<Longrightarrow> TrimSpace s = s"
proof -
  assume "s \<noteq> []" "\<not> is_space (hd s)" "\<not> is_space (last s)"
  then have "dropWhile is_space s = s" by (cases s) simp_all
  moreover have "dropWhile is_space (rev s) = rev s"
    using \<open>\<not> is_space (last s)\<close> \<open>s \<noteq> []\<close> by (cases s rule: rev_cases) simp_all
  ultimately show ?thesis by (simp add: TrimSpace_def)
qed

lemma HasPrefix_single: "HasPrefix s [c] \<longleftrightarrow> s \<noteq> [] \<and> hd s = c"
  by (cases s) (auto simp: HasPrefix_def)

lemma ParseInt64_digits:
  assumes "s \<noteq> []" "list_all is_digit s" "dec_value s < 2 ^ 63"
  shows "ParseInt64 s = Some (of_nat (dec_value s))"
proof -
  from assms obtain c cs where "s = c # cs" "is_digit c" by (cases s) auto
  then have "\<not> HasPrefix s ''-''" "\<not> HasPrefix s ''+''"
    using digit_not_special [of c] by (auto simp: HasPrefix_single)
  with assms show ?thesis by (auto simp: ParseInt64_def Let_def)
qed

lemma ParseInt64_digits_Some:
  assumes "list_all is_digit s" "ParseInt64 s = Some v"
  shows "dec_value s < 2 ^ 63 \<and> sint v = int (dec_value s) \<and> s \<noteq> []"
proof -
  from assms(2) have "s \<noteq> []" by (auto simp: ParseInt64_def Let_def HasPrefix_def)
  then obtain c cs where "s = c # cs" by (cases s) auto
  with assms(1) have "\<not> HasPrefix s ''-''" "\<not> HasPrefix s ''+''"
    using digit_not_special [of c] by (auto simp: HasPrefix_single)
  with assms \<open>s \<noteq> []\<close> show ?thesis
    using sint_of_int_i64 [of "int (dec_value s)"]
    by (auto simp: ParseInt64_def Let_def not_le split: if_splits)
qed


section \<open>What ParseLBTC accepts\<close>

text \<open>The text \<open>t\<close> is a whole part \<open>w\<close>, optionally followed by a dot and decimals \<open>f\<close>.\<close>

definition amount_parts :: "string \<Rightarrow> string \<Rightarrow> string \<Rightarrow> bool" where
  "amount_parts t w f \<longleftrightarrow> (t = w \<and> f = []) \<or> t = w @ CHR ''.'' # f"

definition amount_value :: "string \<Rightarrow> string \<Rightarrow> nat" where
  "amount_value w f = dec_value w * 10 ^ 8 + dec_value f * 10 ^ (8 - length f)"

lemma split_char_shape:
  "length (split_char d s) > 0 \<and>
   (length (split_char d s) = 1 \<longrightarrow> split_char d s = [s] \<and> d \<notin> set s) \<and>
   (length (split_char d s) = 2 \<longrightarrow> s = split_char d s ! 0 @ d # split_char d s ! 1)"
proof (induction s)
  case (Cons c s)
  then show ?case
    by (cases "split_char d s"; cases "tl (split_char d s)") (auto simp: numeral_2_eq_2)
qed simp

lemma digits_no_dot: "list_all is_digit w \<Longrightarrow> CHR ''.'' \<notin> set w"
  by (auto simp: list_all_iff dest: digit_not_special)

lemma parts_no_special:
  assumes "amount_parts t w f" "list_all is_digit w" "list_all is_digit f"
  shows "\<not> ContainsAny t ''eE,''" "\<not> HasPrefix t ''-''"
proof -
  have c: "is_digit c \<or> c = CHR ''.''" if "c \<in> set t" for c
    using assms that by (auto simp: amount_parts_def list_all_iff)
  then show "\<not> ContainsAny t ''eE,''"
    by (force simp: ContainsAny_def list_ex_iff dest: digit_not_special)
  show "\<not> HasPrefix t ''-''"
  proof
    assume "HasPrefix t ''-''"
    then have "t \<noteq> []" "hd t = CHR ''-''" by (auto simp: HasPrefix_single)
    with c [of "hd t"] hd_in_set [of t] have "is_digit (CHR ''-'')" by simp
    then show False by (simp add: is_digit_def)
  qed
qed

lemma ParseInt64_frac:
  assumes "list_all is_digit f" "length f \<le> 8"
  shows "ParseInt64 (f @ replicate (8 - length f) (CHR ''0'')) =
    Some (of_nat (dec_value f * 10 ^ (8 - length f)))"
    and "dec_value f * 10 ^ (8 - length f) < 10 ^ 8"
proof -
  let ?s = "f @ replicate (8 - length f) (CHR ''0'')"
  have d: "list_all is_digit ?s" using assms by (auto simp: list_all_iff is_digit_def)
  have v: "dec_value ?s = dec_value f * 10 ^ (8 - length f)" by (simp add: dec_value_append)
  have "dec_value ?s < 10 ^ length ?s" by (rule dec_value_bound [OF d])
  then show b: "dec_value f * 10 ^ (8 - length f) < 10 ^ 8"
    using assms(2) unfolding v by simp
  have "?s \<noteq> []" using assms(2) by (cases f) auto
  then show "ParseInt64 ?s = Some (of_nat (dec_value f * 10 ^ (8 - length f)))"
    using ParseInt64_digits [OF _ d] b v by simp
qed

lemma sint_amount:
  assumes "w \<le> 21000000" "f < 10 ^ 8"
  shows "sint (of_nat w * Coin + of_nat f :: i64) = int (w * 10 ^ 8 + f)"
proof -
  have "of_nat w * Coin + of_nat f = (of_int (int (w * 10 ^ 8 + f)) :: i64)"
    by (simp add: Coin_def)
  then show ?thesis using assms sint_of_int_i64 [of "int (w * 10 ^ 8 + f)"] by simp
qed

text \<open>
  On a text of the right shape the parser's answer is a comparison of the exact value with
  the limits; on every other text it is an error.
\<close>

lemma ParseLBTC_shaped:
  assumes t: "TrimPrefix (TrimSpace s) ''+'' = t" and ne: "TrimSpace s \<noteq> []"
    and p: "amount_parts t w f" and d: "list_all is_digit w" "list_all is_digit f"
    and l: "length f \<le> 8"
  shows "ParseLBTC s =
    (if dec_value w \<ge> 2 ^ 63 then Inl BadWhole
     else if dec_value w > 21000000 then Inl AmountOutOfRange
     else if amount_value w f = 0 then Inl NotPositive
     else if amount_value w f > 2100000000000000 then Inl AmountOutOfRange
     else Inr (of_nat (dec_value w) * Coin + of_nat (dec_value f * 10 ^ (8 - length f))))"
proof -
  define w' where "w' = (if w = [] then ''0'' else w)"
  define f' where "f' = (if f = [] \<and> t \<noteq> w then ''0'' else f)"
  have wd: "list_all is_digit w'" "dec_value w' = dec_value w" "w' \<noteq> []"
    using d by (auto simp: w'_def dec_value_def is_digit_def digit_val_def)
  have fd: "list_all is_digit f'" "length f' \<le> 8"
    and fv: "dec_value f' * 10 ^ (8 - length f') = dec_value f * 10 ^ (8 - length f)"
    using d l by (auto simp: f'_def dec_value_def is_digit_def digit_val_def)
  have parts: "split_char (CHR ''.'') t = (if t = w then [w] else [w, f]) \<and> (t = w \<longrightarrow> f = [])"
    using p d digits_no_dot by (auto simp: amount_parts_def split_char_none split_char_once)
  have s1: "(if HasPrefix (TrimSpace s) ''+'' then TrimPrefix (TrimSpace s) ''+'' else TrimSpace s) = t"
    using t by (auto simp: TrimPrefix_def)
  note frac = ParseInt64_frac [OF fd]
  have whole: "ParseInt64 w' = (if dec_value w < 2 ^ 63 then Some (of_nat (dec_value w)) else None)"
    using ParseInt64_digits [OF wd(3,1)] ParseInt64_digits_Some [OF wd(1)] wd(2)
    by (cases "ParseInt64 w'") auto
  have sw: "dec_value w < 2 ^ 63 \<Longrightarrow> sint (of_nat (dec_value w) :: i64) = int (dec_value w)"
    using sint_of_int_i64 [of "int (dec_value w)"] by simp
  have sv: "sint (of_nat (dec_value w) * Coin + of_nat (dec_value f * 10 ^ (8 - length f)) :: i64)
      = int (amount_value w f)" if "dec_value w \<le> 21000000"
    using sint_amount [OF that frac(2)] by (simp add: amount_value_def fv)
  let ?ps = "split_char (CHR ''.'') t"
  have wp: "(if ?ps ! 0 = [] then ''0'' else ?ps ! 0) = w'"
    and fp: "(if (if length ?ps = 2 then ?ps ! 1 else []) = [] \<and> length ?ps = 2 then ''0''
      else if length ?ps = 2 then ?ps ! 1 else []) = f'"
    and lp: "\<not> length ?ps > 2"
    using parts by (auto simp: w'_def f'_def)
  have "ParseLBTC s = (case ParseInt64 w' of None \<Rightarrow> Inl BadWhole
      | Some whole \<Rightarrow> (case ParseInt64 (f' @ replicate (8 - length f') (CHR ''0'')) of
          None \<Rightarrow> Inl BadFraction
        | Some frac \<Rightarrow> if sint whole > sint MaxMoney div sint Coin then Inl AmountOutOfRange
            else let val = whole * Coin + frac in
              if val \<le>s 0 then Inl NotPositive
              else if \<not> MoneyRange val then Inl AmountOutOfRange else Inr val))"
    unfolding ParseLBTC_def Let_def s1 wp fp
    using ne lp parts_no_special [OF p d] wd(1) fd by simp
  then show ?thesis
    using sw sv unfolding whole frac(1) fv
    by (auto simp: Let_def word_sle_eq MoneyRange_sint)
qed

lemma ParseLBTC_accepts:
  assumes "ParseLBTC s = Inr v"
  shows "TrimSpace s \<noteq> [] \<and> (\<exists>w f. amount_parts (TrimPrefix (TrimSpace s) ''+'') w f \<and>
    list_all is_digit w \<and> list_all is_digit f \<and> length f \<le> 8)"
proof -
  define t where "t = TrimPrefix (TrimSpace s) ''+''"
  have s1: "(if HasPrefix (TrimSpace s) ''+'' then TrimPrefix (TrimSpace s) ''+'' else TrimSpace s) = t"
    by (auto simp: TrimPrefix_def t_def)
  define ps where "ps = split_char (CHR ''.'') t"
  have ne: "TrimSpace s \<noteq> []" and l: "\<not> length ps > 2"
    using assms unfolding ParseLBTC_def Let_def s1 ps_def by (auto split: if_splits)
  define w where "w = ps ! 0"
  define f where "f = (if length ps = 2 then ps ! 1 else [])"
  have "list_all is_digit w \<and> list_all is_digit f \<and> length f \<le> 8"
    using assms unfolding ParseLBTC_def Let_def s1 ps_def [symmetric] w_def f_def
    by (auto split: if_splits)
  moreover have "amount_parts t w f"
  proof -
    have "length ps = 1 \<or> length ps = 2"
      using split_char_shape [of "CHR ''.''" t] l unfolding ps_def by linarith
    then show ?thesis
      using split_char_shape [of "CHR ''.''" t]
      by (auto simp: amount_parts_def w_def f_def ps_def)
  qed
  ultimately show ?thesis using ne unfolding t_def by blast
qed

lemma TrimSpace_digits_dot:
  assumes "amount_parts t w f" "list_all is_digit w" "list_all is_digit f" "w \<noteq> []" "f \<noteq> []"
  shows "TrimPrefix (TrimSpace t) ''+'' = t \<and> TrimSpace t \<noteq> []"
proof -
  have t: "t = w @ CHR ''.'' # f" using assms(1,5) by (auto simp: amount_parts_def)
  have "is_digit (hd t)" "is_digit (last t)"
    using assms(2-5) by (auto simp: t list_all_iff)
  then have "TrimSpace t = t" "\<not> HasPrefix t ''+''"
    using digit_not_special TrimSpace_id [of t] by (auto simp: t HasPrefix_single)
  then show ?thesis by (simp add: t TrimPrefix_def)
qed

lemma FormatLBTC_parts:
  assumes "0 \<le> sint v"
  shows "FormatLBTC v = dec_string (nat (sint v div 10 ^ 8)) @ CHR ''.'' # fmt_08d (sint v mod 10 ^ 8)"
  using assms
  by (simp add: FormatLBTC_def Let_def word_sless_alt fmt_d_def quot_def remn_def
      pos_imp_zdiv_neg_iff sgn_if minus_div_mult_eq_mod)

lemma fmt_08d_digits:
  assumes "0 \<le> x" "x < 10 ^ 8"
  shows "list_all is_digit (fmt_08d x)" "length (fmt_08d x) = 8" "dec_value (fmt_08d x) = nat x"
proof -
  have n: "nat x < 10 ^ 8" using assms by simp
  have f: "fmt_08d x = replicate (8 - length (dec_string (nat x))) (CHR ''0'') @ dec_string (nat x)"
    using assms by (simp add: fmt_08d_def Let_def)
  show "list_all is_digit (fmt_08d x)"
    unfolding f by (auto simp: list_all_iff dest: dec_string_digits) (simp add: is_digit_def)
  show "length (fmt_08d x) = 8" using length_dec_string [OF n] unfolding f by simp
  show "dec_value (fmt_08d x) = nat x" unfolding f by (simp add: dec_value_append)
qed

lemma ParseLBTC_FormatLBTC_aux:
  assumes "0 < sint v" "sint v \<le> 2100000000000000"
  shows "ParseLBTC (FormatLBTC v) = Inr v"
proof -
  define w where "w = dec_string (nat (sint v div 10 ^ 8))"
  define f where "f = fmt_08d (sint v mod 10 ^ 8)"
  note fm = fmt_08d_digits [of "sint v mod 10 ^ 8", folded f_def, simplified]
  have wd: "list_all is_digit w" by (auto simp: w_def list_all_iff dest: dec_string_digits)
  have p: "amount_parts (FormatLBTC v) w f"
    using assms by (simp add: amount_parts_def FormatLBTC_parts w_def f_def)
  have dv: "dec_value w = nat (sint v div 10 ^ 8)" by (simp add: w_def)
  have le: "dec_value w \<le> 21000000" using assms by (simp add: dv)
  have "f \<noteq> []" using fm(2) by auto
  moreover have "w \<noteq> []" by (simp add: w_def)
  ultimately have t: "TrimPrefix (TrimSpace (FormatLBTC v)) ''+'' = FormatLBTC v"
    "TrimSpace (FormatLBTC v) \<noteq> []"
    using TrimSpace_digits_dot [OF p wd fm(1)] by auto
  have av: "amount_value w f = nat (sint v)"
  proof -
    have "int (amount_value w f) = sint v div 10 ^ 8 * 10 ^ 8 + sint v mod 10 ^ 8"
      using assms fm by (simp add: amount_value_def dv)
    then have "int (amount_value w f) = sint v" by (simp only: div_mult_mod_eq)
    then show ?thesis by linarith
  qed
  have "(of_nat (dec_value w) * Coin + of_nat (dec_value f * 10 ^ (8 - length f)) :: i64) = of_int (sint v)"
  proof -
    have "(of_nat (dec_value w) * Coin + of_nat (dec_value f * 10 ^ (8 - length f)) :: i64) =
      of_int (int (amount_value w f))"
      by (simp add: Coin_def amount_value_def)
    then show ?thesis using av assms by simp
  qed
  then show ?thesis
    using ParseLBTC_shaped [OF t p wd fm(1)] fm(2) le av assms by simp
qed

end
