(* ===== verification/Address.thy ===== *)
theory Address
  imports Sha256 Amount
begin

text \<open>
  Base58Check (\<^verbatim>\<open>internal/address/base58.go\<close>) and the hybrid post-quantum addresses
  built on it (\<^verbatim>\<open>internal/address/quantum.go\<close>).
\<close>

datatype address_error = ErrBadBase58Char | ErrBadChecksum | ErrBadQuantumPrefix | ErrBadPayloadSize

section \<open>Base 58\<close>

definition alphabet :: string where
  "alphabet = ''123456789ABCDEFGHJKLMNPQRSTUVWXYZabcdefghijkmnopqrstuvwxyz''"

definition alphabetIndex :: "char \<Rightarrow> nat option" where
  "alphabetIndex = map_of (zip alphabet [0..<length alphabet])"

text \<open>\<open>SetBytes\<close> and \<open>Bytes\<close> of a non-negative \<open>big.Int\<close>: big-endian, no leading zero.\<close>

definition set_bytes :: "bytes \<Rightarrow> nat" where
  "set_bytes bs = foldl (\<lambda>n b. 256 * n + unat b) 0 bs"

fun get_bytes :: "nat \<Rightarrow> bytes" where
  "get_bytes n = (if n = 0 then [] else get_bytes (n div 256) @ [of_nat (n mod 256)])"

declare get_bytes.simps [simp del]

text \<open>The \<open>DivMod\<close> loop: the digits it appends, least significant first.\<close>

fun base58_digits :: "nat \<Rightarrow> string" where
  "base58_digits x = (if x > 0 then alphabet ! (x mod 58) # base58_digits (x div 58) else [])"

declare base58_digits.simps [simp del]

definition encodeBase58 :: "bytes \<Rightarrow> string" where
  "encodeBase58 data =
     rev (base58_digits (set_bytes data) @
          map (\<lambda>_. alphabet ! 0) (takeWhile (\<lambda>b. b = 0) data))"

fun base58_value :: "nat \<Rightarrow> string \<Rightarrow> nat option" where
  "base58_value x [] = Some x"
| "base58_value x (c # cs) =
     (case alphabetIndex c of None \<Rightarrow> None | Some v \<Rightarrow> base58_value (x * 58 + v) cs)"

definition decodeBase58 :: "string \<Rightarrow> address_error + bytes" where
  "decodeBase58 s =
     (case base58_value 0 s of None \<Rightarrow> Inl ErrBadBase58Char
      | Some x \<Rightarrow> Inr (replicate (length (takeWhile (\<lambda>c. c = alphabet ! 0) s)) 0 @ get_bytes x))"

section \<open>Base58Check\<close>

definition checksum :: "bytes \<Rightarrow> bytes" where
  "checksum data = take 4 (sha256 (sha256 data))"

definition EncodeBase58Check :: "byte \<Rightarrow> bytes \<Rightarrow> string" where
  "EncodeBase58Check version payload =
     encodeBase58 ((version # payload) @ checksum (version # payload))"

definition DecodeBase58Check :: "string \<Rightarrow> address_error + byte \<times> bytes" where
  "DecodeBase58Check s =
     (case decodeBase58 s of Inl e \<Rightarrow> Inl e
      | Inr data \<Rightarrow>
        if length data < 5 then Inl ErrBadChecksum
        else let body = take (length data - 4) data; got = drop (length data - 4) data
             in if got \<noteq> checksum body then Inl ErrBadChecksum
                else Inr (hd body, tl body))"

section \<open>Hybrid addresses\<close>

definition HybridPrefix :: string where "HybridPrefix = ''lhyb1''"
definition HybridVersion :: byte where "HybridVersion = 0x51"
definition AddrHashSize :: nat where "AddrHashSize = 20"

definition hybridHash :: "bytes \<Rightarrow> bytes \<Rightarrow> bytes" where
  "hybridHash classicalPub pqPub =
     take AddrHashSize (sha256 (bytes_of_string ''LegacyCoin hybrid ML-DSA-65 address v1'' @
       classicalPub @ pqPub))"

definition encodeQuantumAddress :: "string \<Rightarrow> byte \<Rightarrow> bytes \<Rightarrow> string" where
  "encodeQuantumAddress prefix version payload = prefix @ EncodeBase58Check version payload"

definition NewHybridAddress :: "bytes \<Rightarrow> bytes \<Rightarrow> string" where
  "NewHybridAddress classicalPub pqPub =
     encodeQuantumAddress HybridPrefix HybridVersion (hybridHash classicalPub pqPub)"

definition decodeQuantumAddress :: "string \<Rightarrow> string \<Rightarrow> address_error + byte \<times> bytes" where
  "decodeQuantumAddress addr prefix =
     (if \<not> HasPrefix addr prefix then Inl ErrBadQuantumPrefix
      else (case DecodeBase58Check (TrimPrefix addr prefix) of Inl e \<Rightarrow> Inl e
        | Inr (version, payload) \<Rightarrow>
          if length payload \<noteq> AddrHashSize then Inl ErrBadPayloadSize else Inr (version, payload)))"

definition DecodeHybridAddress :: "string \<Rightarrow> address_error + bytes" where
  "DecodeHybridAddress addr =
     (case decodeQuantumAddress addr HybridPrefix of Inl e \<Rightarrow> Inl e
      | Inr (version, payload) \<Rightarrow>
        if version \<noteq> HybridVersion then Inl ErrBadQuantumPrefix else Inr payload)"

section \<open>Lemmas\<close>

lemma length_alphabet [simp]: "length alphabet = 58"
  by (simp add: alphabet_def)

lemma distinct_alphabet: "distinct alphabet"
  by (simp add: alphabet_def)

lemma alphabetIndex_nth [simp]: "i < 58 \<Longrightarrow> alphabetIndex (alphabet ! i) = Some i"
  using distinct_alphabet by (simp add: alphabetIndex_def map_of_zip_nth)

lemma alphabet_nth_eq: "i < 58 \<Longrightarrow> j < 58 \<Longrightarrow> alphabet ! i = alphabet ! j \<longleftrightarrow> i = j"
  using distinct_alphabet by (simp add: nth_eq_iff_index_eq)

lemma base58_value_append:
  "base58_value x (s @ t) = Option.bind (base58_value x s) (\<lambda>y. base58_value y t)"
  by (induction s arbitrary: x) (auto split: option.splits)

lemma base58_value_digits: "base58_value 0 (rev (base58_digits x)) = Some x"
proof (induction x rule: base58_digits.induct)
  case (1 x)
  then show ?case
    by (cases "x = 0") (simp_all add: base58_digits.simps [of x] base58_digits.simps [of 0] base58_value_append)
qed

lemma base58_value_ones: "base58_value 0 (replicate n (alphabet ! 0) @ s) = base58_value 0 s"
  by (induction n) simp_all

lemma base58_digits_last: "x > 0 \<Longrightarrow> last (base58_digits x) \<noteq> alphabet ! 0 \<and> base58_digits x \<noteq> []"
proof (induction x rule: base58_digits.induct)
  case (1 x)
  show ?case
  proof (cases "x div 58 = 0")
    case True
    then have "x < 58" by (simp add: div_eq_0_iff)
    with 1 True show ?thesis
      by (simp add: base58_digits.simps [of x] base58_digits.simps [of 0] alphabet_nth_eq)
  next
    case False
    with 1 show ?thesis by (simp add: base58_digits.simps [of x])
  qed
qed

lemma takeWhile_ones:
  "takeWhile (\<lambda>c. c = alphabet ! 0) (replicate n (alphabet ! 0) @ rev (base58_digits x)) =
     replicate n (alphabet ! 0)"
proof (cases "x = 0")
  case True
  then show ?thesis by (simp add: base58_digits.simps [of 0] takeWhile_eq_all_conv)
next
  case False
  then have "takeWhile (\<lambda>c. c = alphabet ! 0) (rev (base58_digits x)) = []"
    using base58_digits_last [of x]
    by (cases "base58_digits x" rule: rev_cases) auto
  then show ?thesis by (simp add: takeWhile_append)
qed

lemma set_bytes_snoc [simp]: "set_bytes (bs @ [b]) = 256 * set_bytes bs + unat b"
  by (simp add: set_bytes_def)

lemma set_bytes_zeros: "set_bytes (replicate n 0 @ bs) = set_bytes bs"
  by (induction n) (simp_all add: set_bytes_def)

lemma set_bytes_pos: "bs \<noteq> [] \<Longrightarrow> hd bs \<noteq> 0 \<Longrightarrow> 0 < set_bytes bs"
proof (induction bs rule: rev_induct)
  case (snoc b bs)
  show ?case
  proof (cases "bs = []")
    case True
    with snoc show ?thesis by (simp add: set_bytes_def word_unat_eq_iff)
  next
    case False
    with snoc show ?thesis by simp
  qed
qed simp

lemma get_set_bytes: "bs = [] \<or> hd bs \<noteq> 0 \<Longrightarrow> get_bytes (set_bytes bs) = bs"
proof (induction bs rule: rev_induct)
  case Nil
  then show ?case by (simp add: set_bytes_def get_bytes.simps [of 0])
next
  case (snoc b bs)
  have "0 < set_bytes (bs @ [b])" using snoc.prems by (intro set_bytes_pos) auto
  moreover have "set_bytes (bs @ [b]) div 256 = set_bytes bs" "set_bytes (bs @ [b]) mod 256 = unat b"
    by simp_all
  moreover have "get_bytes (set_bytes bs) = bs"
    using snoc by (cases bs) auto
  ultimately show ?case by (simp add: get_bytes.simps [of "set_bytes (bs @ [b])"] del: set_bytes_snoc)
qed

lemma decode_encode_Base58: "decodeBase58 (encodeBase58 data) = Inr data"
proof -
  define z where "z = length (takeWhile (\<lambda>b. b = 0) data)"
  define body where "body = dropWhile (\<lambda>b. b = 0) data"
  have zs: "takeWhile (\<lambda>b. b = 0) data = replicate z 0"
    unfolding z_def by (rule replicate_eqI [symmetric, THEN sym]) (auto dest: set_takeWhileD)
  have d: "data = replicate z 0 @ body"
    unfolding body_def zs [symmetric] by simp
  have b: "body = [] \<or> hd body \<noteq> 0"
    unfolding body_def using hd_dropWhile [of "\<lambda>b. b = 0" data] by auto
  have e: "encodeBase58 data = replicate z (alphabet ! 0) @ rev (base58_digits (set_bytes body))"
    unfolding encodeBase58_def zs by (subst d) (simp add: set_bytes_zeros map_replicate_const)
  show ?thesis
    unfolding e decodeBase58_def base58_value_ones base58_value_digits takeWhile_ones
    by (simp add: get_set_bytes [OF b] d [symmetric])
qed

lemma length_checksum [simp]: "length (checksum data) = 4"
  by (simp add: checksum_def)

lemma DecodeBase58Check_Encode:
  "DecodeBase58Check (EncodeBase58Check version payload) = Inr (version, payload)"
  by (simp add: DecodeBase58Check_def EncodeBase58Check_def decode_encode_Base58 Let_def
      del: append_Cons)

lemma length_hybridHash [simp]: "length (hybridHash a b) = AddrHashSize"
  by (simp add: hybridHash_def AddrHashSize_def)

lemma HasPrefix_append [simp]: "HasPrefix (p @ s) p" "TrimPrefix (p @ s) p = s"
  by (simp_all add: HasPrefix_def TrimPrefix_def)

end
