(* ===== verification/ConsensusProperties.thy ===== *)
theory ConsensusProperties
  imports Consensus Amount Address
begin

text \<open>
  Properties of the pure consensus arithmetic (subsidy, difficulty, work), of the amount
  parser and of the address encodings.
\<close>

text \<open>
  C37. The supply cap: whatever the height, the sum of all subsidies up to it is at most
  \<open>MaxMoney\<close>, the 21 million coins of the amount checks.
\<close>

theorem supply_cap:
  assumes "n \<le> 2 ^ 31"
  shows "(\<Sum>h<n. sint (BlockSubsidy (of_nat h))) \<le> sint MaxMoney"
  by (rule subsidy_total [OF assms])

theorem supply_cap_witness: "(\<Sum>h<3. sint (BlockSubsidy (of_nat h))) \<le> 2100000000000000"
  using supply_cap [of 3] by simp

text \<open>
  \<open>ParseLBTC\<close> accepts exactly the plain decimals with at most eight decimals whose
  value is positive and at most 21 million coins, and its result is the exact value in base
  units.
\<close>

theorem ParseLBTC_iff:
  "ParseLBTC s = Inr v \<longleftrightarrow>
     TrimSpace s \<noteq> [] \<and>
     (\<exists>w f. amount_parts (TrimPrefix (TrimSpace s) ''+'') w f \<and>
        list_all is_digit w \<and> list_all is_digit f \<and> length f \<le> 8 \<and>
        0 < amount_value w f \<and> amount_value w f \<le> 2100000000000000 \<and>
        sint v = int (amount_value w f))"
  (is "?l \<longleftrightarrow> ?r")
proof -
  have key: "ParseLBTC s = Inr v \<longleftrightarrow> 0 < amount_value w f \<and> amount_value w f \<le> 2100000000000000 \<and>
      sint v = int (amount_value w f)"
    if p: "amount_parts (TrimPrefix (TrimSpace s) ''+'') w f" and d: "list_all is_digit w"
      "list_all is_digit f" and l: "length f \<le> 8" and ne: "TrimSpace s \<noteq> []" for w f
  proof (cases "dec_value w \<le> 21000000")
    case True
    have "dec_value f * 10 ^ (8 - length f) < 10 ^ 8"
    proof -
      have "dec_value f * 10 ^ (8 - length f) < 10 ^ length f * 10 ^ (8 - length f)"
        using dec_value_bound [OF d(2)] by simp
      then show ?thesis using l by (simp add: power_add [symmetric])
    qed
    note X = sint_amount [OF True this, folded amount_value_def]
    then have "(of_nat (dec_value w) * Coin + of_nat (dec_value f * 10 ^ (8 - length f)) = v) =
        (sint v = int (amount_value w f))"
      by (metis signed_word_eqI)
    with ParseLBTC_shaped [OF refl ne p d l] True show ?thesis by auto
  next
    case False
    then have "2100000000000000 < amount_value w f" by (simp add: amount_value_def)
    then show ?thesis using ParseLBTC_shaped [OF refl ne p d l] False by auto
  qed
  show ?thesis
  proof
    assume l: ?l
    from ParseLBTC_accepts [OF l] obtain w f where ne: "TrimSpace s \<noteq> []"
      and h: "amount_parts (TrimPrefix (TrimSpace s) ''+'') w f" "list_all is_digit w"
        "list_all is_digit f" "length f \<le> 8" by blast
    from key [OF h ne] l ne h show ?r by blast
  next
    assume ?r
    then show ?l using key by blast
  qed
qed

text \<open>C36. \<open>FormatLBTC\<close> writes every amount in the money range so that \<open>ParseLBTC\<close> reads it back.\<close>

theorem ParseLBTC_FormatLBTC:
  assumes "MoneyRange v" "v \<noteq> 0"
  shows "ParseLBTC (FormatLBTC v) = Inr v"
proof (rule ParseLBTC_FormatLBTC_aux)
  have "sint v \<noteq> 0" using assms(2) by (metis signed_0 signed_word_eqI)
  with assms(1) show "0 < sint v" "sint v \<le> 2100000000000000" by (auto simp: MoneyRange_sint)
qed

theorem ParseLBTC_FormatLBTC_witness: "ParseLBTC (FormatLBTC 123456789) = Inr 123456789"
  by (rule ParseLBTC_FormatLBTC) (simp_all add: MoneyRange_sint)

text \<open>
  The compact form of a target loses less than one part in \<open>2 ^ 15\<close>, never rounds up and
  never turns a positive target into zero.
\<close>

theorem compact_rounding:
  assumes "0 \<le> n" "n < 2 ^ 256"
  shows "CompactToBig (BigToCompact n) \<le> n \<and> (n - CompactToBig (BigToCompact n)) * 2 ^ 15 \<le> n \<and>
    (0 < n \<longrightarrow> 0 < CompactToBig (BigToCompact n))"
  by (rule compact_round_down [OF assms])

theorem compact_rounding_witness:
  "CompactToBig (BigToCompact 16777217) \<le> 16777217 \<and> 0 < CompactToBig (BigToCompact 16777217)"
  using compact_rounding [of 16777217] by simp

text \<open>
  C39. Dark Gravity Wave: with a full window whose targets lie between \<open>lo \<ge> 3\<close> and \<open>hi\<close> and a
  positive spacing for which 72 times the spacing is an \<open>int64\<close>, so that the time spans do
  not wrap, the next target is positive, at most the proof-of-work limit and within a factor
  of three of the window, up to the rounding of the compact form. (Larger spacings wrap; at
  \<open>2 ^ 61\<close> the code divides by zero. The node calls the function with 600 only.)
\<close>

theorem retarget_bounds:
  assumes "DGWv3PastBlocks \<le> length recent" "0 < sint spacing" "72 * sint spacing < 2 ^ 63" "3 \<le> lo" "hi \<le> PowLimit"
    and "\<forall>e\<in>set (take DGWv3PastBlocks recent). lo \<le> dgw_target PowLimit e \<and> dgw_target PowLimit e \<le> hi"
  shows "\<exists>b. DarkGravityWaveV3 recent spacing PowLimit bits = Some b \<and>
    0 < CompactToBig b \<and> CompactToBig b \<le> PowLimit \<and> CompactToBig b \<le> hi * 3 \<and>
    (lo div 3) * (2 ^ 15 - 1) \<le> CompactToBig b * 2 ^ 15"
proof -
  have "0 \<le> lo" using assms(4) by simp
  from dgw_next_bounds [OF assms(1-3) this assms(5,6)] obtain n where
    e: "dgw_next recent spacing PowLimit = Some n" and n: "lo div 3 \<le> n" "n \<le> PowLimit" "n \<le> hi * 3" .
  then have pos: "0 < n" using assms(4) by linarith
  moreover have "n < 2 ^ 256" using n(2) by (simp add: PowLimit_value)
  ultimately have c: "CompactToBig (BigToCompact n) \<le> n"
    "(n - CompactToBig (BigToCompact n)) * 2 ^ 15 \<le> n" "0 < CompactToBig (BigToCompact n)"
    using compact_round_down [of n] by auto
  have "(lo div 3) * (2 ^ 15 - 1) \<le> n * (2 ^ 15 - 1)" using n(1) by simp
  also have "\<dots> \<le> CompactToBig (BigToCompact n) * 2 ^ 15" using c(2) by (simp add: algebra_simps)
  finally show ?thesis
    using c n assms(1,2) e by (simp add: DarkGravityWaveV3_def word_sle_eq)
qed

definition sample_window :: "BlockWindowEntry list" where
  "sample_window = replicate DGWv3PastBlocks \<lparr>we_Height = 0, we_Time = 0, we_Bits = 0x1d00ffff\<rparr>"

theorem retarget_bounds_witness:
  "\<exists>b. DarkGravityWaveV3 sample_window 600 PowLimit 0x1d00ffff = Some b \<and> 0 < CompactToBig b"
proof -
  let ?e = "\<lparr>we_Height = 0, we_Time = 0, we_Bits = 0x1d00ffff\<rparr>"
  have t: "dgw_target PowLimit ?e = 0xffff * 2 ^ 208"
    by (simp add: dgw_target_def CompactToBig_def PowLimit_value Let_def)
  have "(0xffff * 2 ^ 208 :: int) \<le> PowLimit" by (simp add: PowLimit_value)
  from retarget_bounds [of sample_window 600 "0xffff * 2 ^ 208" "0xffff * 2 ^ 208" "0x1d00ffff", OF _ _ _ _ this]
  show ?thesis using t by (auto simp: sample_window_def)
qed

text \<open>
  A hash that passes the proof-of-work check is at most a positive target within the
  limit, so every accepted block adds at least two units of work, and a smaller target never
  counts for less work.
\<close>

theorem accepted_work:
  assumes "CheckProofOfWork h bits = Inr ()"
  shows "0 < CompactToBig bits \<and> CompactToBig bits \<le> PowLimit \<and> HashToBig h \<le> CompactToBig bits \<and>
    2 \<le> WorkForBits bits \<and>
    (\<forall>b. CompactToBig bits \<le> CompactToBig b \<longrightarrow> WorkForBits b \<le> WorkForBits bits)"
  using assms CheckProofOfWork_work [OF assms] WorkForBits_antimono [of bits]
  by (auto simp: CheckProofOfWork_iff)

theorem accepted_work_witness: "2 \<le> WorkForBits 0x207fffff"
proof -
  have "big_SetBytes (replicate n 0) = 0" for n
    by (induction n) (simp_all add: big_SetBytes_def)
  then have "CheckProofOfWork zero_hash 0x207fffff = Inr ()"
    by (simp add: CheckProofOfWork_iff CompactToBig_def PowLimit_value HashToBig_def zero_hash_def Let_def)
  from accepted_work [OF this] show ?thesis by simp
qed

text \<open>
  Addresses round trip: Base58Check for every version and payload, and the hybrid
  address of two public keys decodes to their 20-byte hash.
\<close>

theorem address_roundtrip:
  "DecodeBase58Check (EncodeBase58Check version payload) = Inr (version, payload) \<and>
   DecodeHybridAddress (NewHybridAddress classicalPub pqPub) = Inr (hybridHash classicalPub pqPub)"
  by (simp add: DecodeBase58Check_Encode DecodeHybridAddress_def NewHybridAddress_def
      decodeQuantumAddress_def encodeQuantumAddress_def)

end
