(* ===== verification/ScriptTemplates.thy ===== *)
theory ScriptTemplates
  imports WireTx Address
begin

text \<open>
  Script constants, the output templates and their recognisers, push encoding and sigop
  counting (the first part of \<^verbatim>\<open>internal/script/script.go\<close>), and the hybrid keys of
  \<^verbatim>\<open>internal/pqc/hybrid.go\<close> that one template uses.

  RIPEMD-160, secp256k1 ECDSA and ML-DSA-65 are third-party packages: a record of the
  functions the code calls is a parameter of every definition that reaches them. A parsed
  key or signature is an opaque value, represented by bytes.
\<close>

record crypto =
  cr_ripemd160 :: "bytes \<Rightarrow> bytes"
  cr_ParsePubKey :: "bytes \<Rightarrow> bytes option"
  cr_ParseDERSignature :: "bytes \<Rightarrow> bytes option"
  cr_SerializeSignature :: "bytes \<Rightarrow> bytes"
  cr_ECDSAVerify :: "bytes \<Rightarrow> bytes \<Rightarrow> bytes \<Rightarrow> bool"
  cr_MLDSAUnmarshal :: "bytes \<Rightarrow> bytes option"
  cr_MLDSAVerify :: "bytes \<Rightarrow> bytes \<Rightarrow> bytes \<Rightarrow> bytes \<Rightarrow> bool"
  cr_MLDSASignatureSize :: nat
  cr_MLDSAPublicKeySize :: nat

section \<open>Constants\<close>

definition OP_0 :: byte where "OP_0 = 0x00"
definition OP_PUSHDATA1 :: byte where "OP_PUSHDATA1 = 0x4c"
definition OP_PUSHDATA2 :: byte where "OP_PUSHDATA2 = 0x4d"
definition OP_DATA_20 :: byte where "OP_DATA_20 = 0x14"
definition OP_IF :: byte where "OP_IF = 0x63"
definition OP_NOTIF :: byte where "OP_NOTIF = 0x64"
definition OP_ELSE :: byte where "OP_ELSE = 0x67"
definition OP_ENDIF :: byte where "OP_ENDIF = 0x68"
definition OP_DUP :: byte where "OP_DUP = 0x76"
definition OP_HASH160 :: byte where "OP_HASH160 = 0xa9"
definition OP_EQUAL :: byte where "OP_EQUAL = 0x87"
definition OP_EQUALVERIFY :: byte where "OP_EQUALVERIFY = 0x88"
definition OP_CHECKSIG :: byte where "OP_CHECKSIG = 0xac"
definition OP_CHECKMULTISIG :: byte where "OP_CHECKMULTISIG = 0xae"
definition OP_1 :: byte where "OP_1 = 0x51"
definition OP_16 :: byte where "OP_16 = 0x60"
definition SigHashAll :: byte where "SigHashAll = 0x01"
definition MaxTxSigOps :: int where "MaxTxSigOps = 4000"
definition MaxBlockSigOps :: int where "MaxBlockSigOps = 20000"

lemmas op_defs = OP_0_def OP_PUSHDATA1_def OP_PUSHDATA2_def OP_DATA_20_def OP_IF_def OP_NOTIF_def
  OP_ELSE_def OP_ENDIF_def OP_DUP_def OP_HASH160_def OP_EQUAL_def OP_EQUALVERIFY_def
  OP_CHECKSIG_def OP_CHECKMULTISIG_def OP_1_def OP_16_def

datatype script_error =
    ErrUnsupportedScript | ErrBadSignatureScript | ErrBadSignature | ErrPubKeyHashMismatch
  | ErrMalformedScript | ErrScriptEval
  | ErrHashLength nat | ErrParsePubKey | ErrParseDER | ErrBadSecpPublicKey | ErrBadMLDSAPublicKey
  | ErrHybridAddress address_error

definition Hash160 :: "crypto \<Rightarrow> bytes \<Rightarrow> bytes" where
  "Hash160 C b = cr_ripemd160 C (sha256 b)"

section \<open>Hybrid keys (pqc/hybrid.go)\<close>

definition MLDSAContext :: bytes where
  "MLDSAContext = bytes_of_string ''LegacyCoin/PQC/ML-DSA-65/v1''"

definition hybridDigest :: "bytes \<Rightarrow> bytes" where
  "hybridDigest message = sha256 (bytes_of_string ''LegacyCoin hybrid secp256k1 digest v1'' @ message)"

text \<open>A parsed hybrid public key: the two parsed components.\<close>

definition HybridPublicKeyFromBytes :: "crypto \<Rightarrow> bytes \<Rightarrow> bytes \<Rightarrow> script_error + bytes \<times> bytes" where
  "HybridPublicKeyFromBytes C secpCompressed mldsa =
     (case cr_ParsePubKey C secpCompressed of None \<Rightarrow> Inl ErrBadSecpPublicKey
      | Some secp \<Rightarrow>
        (case cr_MLDSAUnmarshal C mldsa of None \<Rightarrow> Inl ErrBadMLDSAPublicKey
         | Some pq \<Rightarrow> Inr (secp, pq)))"

definition HybridVerify :: "crypto \<Rightarrow> bytes \<times> bytes \<Rightarrow> bytes \<Rightarrow> bytes \<Rightarrow> bytes \<Rightarrow> bool" where
  "HybridVerify C key message sigDER sigPQ =
     (if length sigPQ \<noteq> cr_MLDSASignatureSize C then False
      else (case cr_ParseDERSignature C sigDER of None \<Rightarrow> False
        | Some ecdsaSig \<Rightarrow>
          if \<not> cr_ECDSAVerify C ecdsaSig (hybridDigest message) (fst key) then False
          else cr_MLDSAVerify C (snd key) message MLDSAContext sigPQ))"

section \<open>Output templates\<close>

definition PayToPubKeyHashScript :: "bytes \<Rightarrow> script_error + bytes" where
  "PayToPubKeyHashScript h =
     (if length h \<noteq> 20 then Inl (ErrHashLength (length h))
      else Inr ([OP_DUP, OP_HASH160, OP_DATA_20] @ h @ [OP_EQUALVERIFY, OP_CHECKSIG]))"

definition IsPayToPubKeyHash :: "bytes \<Rightarrow> bool" where
  "IsPayToPubKeyHash pk \<longleftrightarrow>
     length pk = 25 \<and> pk ! 0 = OP_DUP \<and> pk ! 1 = OP_HASH160 \<and> pk ! 2 = OP_DATA_20 \<and>
     pk ! 23 = OP_EQUALVERIFY \<and> pk ! 24 = OP_CHECKSIG"

definition PayToHybridPubKeyHashScript :: "bytes \<Rightarrow> script_error + bytes" where
  "PayToHybridPubKeyHashScript h =
     (if length h \<noteq> 20 then Inl (ErrHashLength (length h))
      else Inr ([OP_0, OP_HASH160, OP_DATA_20] @ h @ [OP_EQUALVERIFY, OP_CHECKSIG]))"

definition IsPayToHybridPubKeyHash :: "bytes \<Rightarrow> bool" where
  "IsPayToHybridPubKeyHash pk \<longleftrightarrow>
     length pk = 25 \<and> pk ! 0 = OP_0 \<and> pk ! 1 = OP_HASH160 \<and> pk ! 2 = OP_DATA_20 \<and>
     pk ! 23 = OP_EQUALVERIFY \<and> pk ! 24 = OP_CHECKSIG"

definition PayToScriptHashScript :: "bytes \<Rightarrow> script_error + bytes" where
  "PayToScriptHashScript h =
     (if length h \<noteq> 20 then Inl (ErrHashLength (length h))
      else Inr ([OP_HASH160, OP_DATA_20] @ h @ [OP_EQUAL]))"

definition IsPayToScriptHash :: "bytes \<Rightarrow> bool" where
  "IsPayToScriptHash pk \<longleftrightarrow>
     length pk = 23 \<and> pk ! 0 = OP_HASH160 \<and> pk ! 1 = OP_DATA_20 \<and> pk ! 22 = OP_EQUAL"

definition IsPayToPubKey :: "bytes \<Rightarrow> bool" where
  "IsPayToPubKey pk =
     (if length pk \<noteq> 35 \<and> length pk \<noteq> 67 then False
      else let keyLen = unat (pk ! 0)
           in (keyLen = 33 \<or> keyLen = 65) \<and> length pk = keyLen + 2 \<and> pk ! (length pk - 1) = OP_CHECKSIG)"

definition decodeSmallInt :: "byte \<Rightarrow> nat option" where
  "decodeSmallInt op = (if op < OP_1 \<or> op > OP_16 then None else Some (unat (op - OP_1 + 1)))"

text \<open>
  The key loop of \<open>parseMultiSigScript\<close>, on what is left of the script from position
  \<open>i\<close>: the condition \<open>i < len - 2\<close> is that more than two bytes are left; \<open>None\<close> is
  the early return, otherwise the keys and the rest.
\<close>

function multisig_keys :: "bytes \<Rightarrow> (bytes list \<times> bytes) option" where
  "multisig_keys rest =
     (if length rest > 2
      then let l = unat (hd rest) in
        if l \<noteq> 33 \<and> l \<noteq> 65 then Some ([], rest)
        else if l + 2 > length (tl rest) then None
        else (case multisig_keys (drop l (tl rest)) of None \<Rightarrow> None
              | Some (ks, r) \<Rightarrow> Some (take l (tl rest) # ks, r))
      else Some ([], rest))"
  by pat_completeness auto
termination
  by (relation "measure length") auto

declare multisig_keys.simps [simp del]

definition parseMultiSigScript :: "bytes \<Rightarrow> (nat \<times> bytes list) option" where
  "parseMultiSigScript pk =
     (if length pk < 3 then None
      else (case decodeSmallInt (pk ! 0) of None \<Rightarrow> None
        | Some m \<Rightarrow>
          if m < 1 then None
          else (case multisig_keys (drop 1 pk) of None \<Rightarrow> None
            | Some (pubKeys, rest) \<Rightarrow>
              (case decodeSmallInt (hd rest) of None \<Rightarrow> None
               | Some n \<Rightarrow>
                 if n < 1 \<or> n > 16 then None
                 else if tl rest = [] \<or> hd (tl rest) \<noteq> OP_CHECKMULTISIG \<or> length (tl rest) \<noteq> 1 then None
                 else if length pubKeys \<noteq> n \<or> m > n then None
                 else Some (m, pubKeys)))))"

definition IsPayToMultiSig :: "bytes \<Rightarrow> bool" where
  "IsPayToMultiSig pk \<longleftrightarrow> parseMultiSigScript pk \<noteq> None"

definition MultiSigPubKeys :: "bytes \<Rightarrow> bytes list option" where
  "MultiSigPubKeys pk = map_option snd (parseMultiSigScript pk)"

definition MultiSigParams :: "bytes \<Rightarrow> (nat \<times> nat) option" where
  "MultiSigParams pk = map_option (\<lambda>(m, ks). (m, length ks)) (parseMultiSigScript pk)"

section \<open>Push data\<close>

definition writePushData :: "bytes \<Rightarrow> script_error + bytes" where
  "writePushData data =
     (if length data > unat MaxScriptSize then Inl ErrUnsupportedScript
      else if length data \<le> 75 then Inr (of_nat (length data) # data)
      else if length data \<le> 255 then Inr (OP_PUSHDATA1 # of_nat (length data) # data)
      else if length data \<le> 65535
      then Inr (OP_PUSHDATA2 # of_nat (length data) # of_nat (length data div 256) # data)
      else Inl ErrUnsupportedScript)"

text \<open>Every failure to read is \<open>ErrBadSignatureScript\<close>.\<close>

definition read_or_bad :: "nat \<Rightarrow> (script_error, bytes) reader" where
  "read_or_bad n bs =
     (if n \<le> length bs then Inr (take n bs, drop n bs) else Inl ErrBadSignatureScript)"

definition read_byte_or_bad :: "(script_error, byte) reader" where
  "read_byte_or_bad = rbind (read_or_bad 1) (\<lambda>b. ret (hd b))"

definition readPushData :: "(script_error, bytes) reader" where
  "readPushData =
     rbind read_byte_or_bad (\<lambda>op.
       if op = OP_0 then ret []
       else
         rbind (if 1 \<le> op \<and> op \<le> 75 then ret (unat op)
                else if op = OP_PUSHDATA1 then rbind read_byte_or_bad (\<lambda>n. ret (unat n))
                else if op = OP_PUSHDATA2
                then rbind read_byte_or_bad (\<lambda>lo. rbind read_byte_or_bad (\<lambda>hi. ret (unat lo + 256 * unat hi)))
                else failr ErrBadSignatureScript) (\<lambda>size.
           if size > unat MaxScriptSize then failr ErrBadSignatureScript else read_or_bad size))"

text \<open>
  \<open>parsePushes\<close>: read pushes until the script is empty. Every read consumes at least the
  opcode (\<open>readPushData_shorter\<close> below), so the inner test always holds; it is there for
  the termination proof, and \<open>parsePushes_eq\<close> is the loop without it.
\<close>

function parsePushes :: "bytes \<Rightarrow> script_error + bytes list" where
  "parsePushes bs =
     (if bs = [] then Inr []
      else (case readPushData bs of Inl e \<Rightarrow> Inl e
        | Inr (d, r) \<Rightarrow>
          (if length r < length bs
           then (case parsePushes r of Inl e \<Rightarrow> Inl e | Inr ds \<Rightarrow> Inr (d # ds))
           else Inr [])))"
  by pat_completeness auto
termination
  by (relation "measure length") auto

declare parsePushes.simps [simp del]

fun encodePushes :: "bytes list \<Rightarrow> script_error + bytes" where
  "encodePushes [] = Inr []"
| "encodePushes (p # ps) =
     (case writePushData p of Inl e \<Rightarrow> Inl e
      | Inr b \<Rightarrow> (case encodePushes ps of Inl e \<Rightarrow> Inl e | Inr bs \<Rightarrow> Inr (b @ bs)))"

definition parseP2PKHScriptSig :: "bytes \<Rightarrow> script_error + bytes \<times> bytes" where
  "parseP2PKHScriptSig sigScript =
     (case readPushData sigScript of Inl e \<Rightarrow> Inl e
      | Inr (sig, r) \<Rightarrow>
        (case readPushData r of Inl e \<Rightarrow> Inl e
         | Inr (pubKey, r') \<Rightarrow> if r' \<noteq> [] then Inl ErrBadSignatureScript else Inr (sig, pubKey)))"

definition parseP2PKScriptSig :: "bytes \<Rightarrow> script_error + bytes" where
  "parseP2PKScriptSig sigScript =
     (case readPushData sigScript of Inl e \<Rightarrow> Inl e
      | Inr (sig, r) \<Rightarrow> if r \<noteq> [] then Inl ErrBadSignatureScript else Inr sig)"

definition mk_SignatureScript :: "bytes \<Rightarrow> bytes \<Rightarrow> script_error + bytes" where
  "mk_SignatureScript sigDER pubKeyCompressed = encodePushes [sigDER @ [SigHashAll], pubKeyCompressed]"

definition HybridSignatureScript :: "bytes \<Rightarrow> bytes \<Rightarrow> bytes \<Rightarrow> bytes \<Rightarrow> script_error + bytes" where
  "HybridSignatureScript ecdsaDER mldsaSig secpPub mldsaPub =
     encodePushes [ecdsaDER @ [SigHashAll], mldsaSig, secpPub, mldsaPub]"

section \<open>Signature operations\<close>

fun CountSigOps :: "bytes \<Rightarrow> int" where
  "CountSigOps [] = 0"
| "CountSigOps (op # ops) =
     (if op = OP_CHECKSIG then 1 else if op = OP_CHECKMULTISIG then 20 else 0) + CountSigOps ops"

definition SigOpsForSpend :: "crypto \<Rightarrow> bytes \<Rightarrow> bytes \<Rightarrow> script_error + int" where
  "SigOpsForSpend C sigScript prevPkScript =
     (if \<not> IsPayToScriptHash prevPkScript then Inr (CountSigOps prevPkScript)
      else (case parsePushes sigScript of Inl _ \<Rightarrow> Inl ErrBadSignatureScript
        | Inr pushes \<Rightarrow>
          if length pushes < 1 then Inl ErrBadSignatureScript
          else let redeem = last pushes in
            if Hash160 C redeem \<noteq> take 20 (drop 2 prevPkScript) then Inl ErrBadSignature
            else Inr (CountSigOps prevPkScript + CountSigOps redeem)))"

section \<open>Lemmas on pushes\<close>

lemma read_or_bad_append [simp]: "length p = n \<Longrightarrow> read_or_bad n (p @ r) = Inr (p, r)"
  by (simp add: read_or_bad_def)

lemma read_or_bad_Inr: "read_or_bad n bs = Inr (x, r) \<longleftrightarrow> bs = x @ r \<and> length x = n"
  by (auto simp: read_or_bad_def)

lemma read_byte_or_bad_Cons [simp]: "rbind read_byte_or_bad f (b # bs) = f b bs"
  by (simp add: read_byte_or_bad_def rbind_def read_or_bad_def)

lemma read_byte_or_bad_Inr: "read_byte_or_bad bs = Inr (b, r) \<longleftrightarrow> bs = b # r"
  by (cases bs) (auto simp: read_byte_or_bad_def rbind_def read_or_bad_def)

lemma readPushData_shorter: "readPushData bs = Inr (d, r) \<Longrightarrow> length r < length bs"
  by (auto simp: readPushData_def rbind_eq_Inr read_byte_or_bad_Inr read_or_bad_Inr
      split: if_splits)

lemma parsePushes_eq:
  "parsePushes bs =
     (if bs = [] then Inr []
      else (case readPushData bs of Inl e \<Rightarrow> Inl e
        | Inr (d, r) \<Rightarrow> (case parsePushes r of Inl e \<Rightarrow> Inl e | Inr ds \<Rightarrow> Inr (d # ds))))"
  by (subst parsePushes.simps) (auto dest: readPushData_shorter split: sum.splits prod.splits)

lemma parsePushes_Nil [simp]: "parsePushes [] = Inr []"
  by (simp add: parsePushes.simps)

definition push_ok :: "bytes \<Rightarrow> bool" where
  "push_ok d \<longleftrightarrow> length d \<le> unat MaxScriptSize"

definition push_bytes :: "bytes \<Rightarrow> bytes" where
  "push_bytes d = (case writePushData d of Inr b \<Rightarrow> b | Inl _ \<Rightarrow> [])"

lemma unat_MaxScriptSize: "unat MaxScriptSize = 10000"
  by (simp add: MaxScriptSize_def)

lemma writePushData_ok: "push_ok d \<Longrightarrow> writePushData d = Inr (push_bytes d)"
  by (simp add: push_ok_def push_bytes_def writePushData_def unat_MaxScriptSize)

lemma unat_push_len:
  "n < 256 \<Longrightarrow> unat (of_nat n :: byte) = n"
  "n < 65536 \<Longrightarrow> unat (of_nat n :: byte) + 256 * unat (of_nat (n div 256) :: byte) = n"
  by (simp_all add: unat_of_nat take_bit_nat_eq_self take_bit_eq_mod)

lemma push_len_byte:
  assumes "n \<le> 75" "0 < n"
  shows "(1 :: byte) \<le> of_nat n \<and> (of_nat n :: byte) \<le> 75 \<and> (of_nat n :: byte) \<noteq> 0 \<and>
    unat (of_nat n :: byte) = n"
  using assms unat_push_len(1) [of n] by (auto simp: word_le_nat_alt word_unat_eq_iff)

interpretation push: codec push_bytes readPushData push_ok
proof
  fix d r assume ok: "push_ok d"
  let ?n = "length d"
  consider "?n = 0" | "0 < ?n" "?n \<le> 75" | "75 < ?n" "?n \<le> 255" | "255 < ?n" by linarith
  then show "readPushData (push_bytes d @ r) = Inr (d, r)"
  proof cases
    case 1
    then show ?thesis
      by (simp add: push_bytes_def writePushData_def readPushData_def op_defs unat_MaxScriptSize rbind_assoc)
  next
    case 2
    then show ?thesis using push_len_byte [OF 2(2,1)]
      by (simp add: push_bytes_def writePushData_def readPushData_def op_defs unat_MaxScriptSize rbind_assoc)
  next
    case 3
    then show ?thesis using ok unat_push_len(1) [of ?n]
      by (simp add: push_bytes_def writePushData_def readPushData_def op_defs unat_MaxScriptSize rbind_assoc
          push_ok_def)
  next
    case 4
    then show ?thesis using ok unat_push_len(2) [of ?n]
      by (simp add: push_bytes_def writePushData_def readPushData_def op_defs unat_MaxScriptSize rbind_assoc
          push_ok_def)
  qed
next
  fix bs d r assume a: "readPushData bs = Inr (d, r)"
  then show "push_ok d"
    by (auto simp: readPushData_def rbind_eq_Inr read_or_bad_Inr push_ok_def split: if_splits)
  from a show "\<exists>p. bs = p @ r"
    by (auto simp: readPushData_def rbind_eq_Inr read_byte_or_bad_Inr read_or_bad_Inr
        split: if_splits)
qed

lemma push_bytes_nonempty: "push_ok d \<Longrightarrow> push_bytes d \<noteq> []"
  by (simp add: push_ok_def push_bytes_def writePushData_def unat_MaxScriptSize)

lemma encodePushes_ok: "list_all push_ok ds \<Longrightarrow> encodePushes ds = Inr (concat (map push_bytes ds))"
  by (induction ds) (simp_all add: writePushData_ok)

lemma encodePushes_Inr: "encodePushes ds = Inr b \<Longrightarrow> list_all push_ok ds"
  by (induction ds arbitrary: b) (auto simp: writePushData_def push_ok_def split: sum.splits if_splits)

lemma parsePushes_concat: "list_all push_ok ds \<Longrightarrow> parsePushes (concat (map push_bytes ds)) = Inr ds"
proof (induction ds)
  case (Cons d ds)
  then show ?case
    using push_bytes_nonempty [of d]
    by (subst parsePushes_eq) (simp add: push.dec_enc)
qed simp

lemma parsePushes_encodePushes: "encodePushes ds = Inr b \<Longrightarrow> parsePushes b = Inr ds"
  using encodePushes_Inr encodePushes_ok parsePushes_concat by (metis sum.inject(2))

lemma parsePushes_ok: "parsePushes bs = Inr ds \<Longrightarrow> list_all push_ok ds"
proof (induction bs arbitrary: ds rule: measure_induct_rule [where f = length])
  case (less bs)
  show ?case
  proof (cases "bs = []")
    case False
    with less.prems obtain d r ds' where "readPushData bs = Inr (d, r)" "parsePushes r = Inr ds'" "ds = d # ds'"
      by (subst (asm) parsePushes_eq) (auto split: sum.splits)
    with less.IH [of r] show ?thesis using readPushData_shorter push.dec_ok by auto
  qed (use less.prems in simp)
qed

section \<open>Lemmas on templates\<close>

lemma nth_append_prefix: "length a = n \<Longrightarrow> (a @ b) ! n = b ! 0"
  by (simp add: nth_append)

text \<open>The recognisers accept exactly the builders' images.\<close>

lemma IsPayToPubKeyHash_iff:
  "IsPayToPubKeyHash pk \<longleftrightarrow> (\<exists>h. PayToPubKeyHashScript h = Inr pk)"
proof
  assume a: "IsPayToPubKeyHash pk"
  have "pk = [pk ! 0, pk ! 1, pk ! 2] @ take 20 (drop 3 pk) @ [pk ! 23, pk ! 24]"
    by (rule nth_equalityI) (use a in \<open>auto simp: IsPayToPubKeyHash_def nth_append nth_Cons' less_Suc_eq numeral_eq_Suc\<close>)
  with a have "PayToPubKeyHashScript (take 20 (drop 3 pk)) = Inr pk"
    by (simp add: PayToPubKeyHashScript_def IsPayToPubKeyHash_def)
  then show "\<exists>h. PayToPubKeyHashScript h = Inr pk" ..
next
  assume "\<exists>h. PayToPubKeyHashScript h = Inr pk"
  then show "IsPayToPubKeyHash pk"
    by (auto simp: PayToPubKeyHashScript_def IsPayToPubKeyHash_def nth_append split: if_splits)
qed

lemma PayToPubKeyHashScript_hash:
  "PayToPubKeyHashScript h = Inr pk \<Longrightarrow> take 20 (drop 3 pk) = h"
  by (auto simp: PayToPubKeyHashScript_def split: if_splits)

text \<open>No script matches two templates: the order of the cases in \<open>VerifyInput\<close> is immaterial.\<close>

lemma multisig_first_byte: "parseMultiSigScript pk = Some x \<Longrightarrow> OP_1 \<le> pk ! 0 \<and> pk ! 0 \<le> OP_16"
  by (auto simp: parseMultiSigScript_def decodeSmallInt_def not_less split: if_splits option.splits)

lemma pubkey_first_byte: "IsPayToPubKey pk \<Longrightarrow> pk ! 0 = 33 \<or> pk ! 0 = 65"
  by (auto simp: IsPayToPubKey_def Let_def word_unat_eq_iff split: if_splits)

lemma templates_disjoint:
  "\<not> (IsPayToHybridPubKeyHash pk \<and> IsPayToPubKeyHash pk)"
  "\<not> (IsPayToHybridPubKeyHash pk \<and> IsPayToPubKey pk)"
  "\<not> (IsPayToHybridPubKeyHash pk \<and> IsPayToMultiSig pk)"
  "\<not> (IsPayToHybridPubKeyHash pk \<and> IsPayToScriptHash pk)"
  "\<not> (IsPayToPubKeyHash pk \<and> IsPayToPubKey pk)"
  "\<not> (IsPayToPubKeyHash pk \<and> IsPayToMultiSig pk)"
  "\<not> (IsPayToPubKeyHash pk \<and> IsPayToScriptHash pk)"
  "\<not> (IsPayToPubKey pk \<and> IsPayToMultiSig pk)"
  "\<not> (IsPayToPubKey pk \<and> IsPayToScriptHash pk)"
  "\<not> (IsPayToMultiSig pk \<and> IsPayToScriptHash pk)"
  using multisig_first_byte [of pk] pubkey_first_byte [of pk]
  by (auto simp: IsPayToHybridPubKeyHash_def IsPayToPubKeyHash_def IsPayToScriptHash_def
      IsPayToMultiSig_def op_defs IsPayToPubKey_def)

text \<open>A parsed multi-signature script: \<open>m\<close> of \<open>n\<close>, with \<open>n\<close> keys of a legal length.\<close>

lemma multisig_keys_lengths:
  "multisig_keys bs = Some (ks, r) \<Longrightarrow> \<forall>k\<in>set ks. length k = 33 \<or> length k = 65"
proof (induction bs arbitrary: ks r rule: measure_induct_rule [where f = length])
  case (less bs)
  show ?case
  proof (cases "length bs > 2 \<and> (unat (hd bs) = 33 \<or> unat (hd bs) = 65)")
    case True
    let ?l = "unat (hd bs)"
    from True less.prems obtain ks' where k: "multisig_keys (drop ?l (tl bs)) = Some (ks', r)"
      and e: "ks = take ?l (tl bs) # ks'" and l: "?l + 2 \<le> length (tl bs)"
      by (subst (asm) multisig_keys.simps) (auto simp: Let_def not_less split: if_splits option.splits)
    have "\<forall>k\<in>set ks'. length k = 33 \<or> length k = 65"
      using True by (intro less.IH [OF _ k]) auto
    with True l show ?thesis unfolding e by (auto simp: min_def)
  next
    case False
    with less.prems show ?thesis
      by (subst (asm) multisig_keys.simps) (auto simp: Let_def split: if_splits)
  qed
qed

lemma parseMultiSigScript_bounds:
  assumes "parseMultiSigScript pk = Some (m, ks)"
  shows "1 \<le> m \<and> m \<le> length ks \<and> length ks \<le> 16 \<and> (\<forall>k\<in>set ks. length k = 33 \<or> length k = 65)"
  using assms
  by (auto simp: parseMultiSigScript_def split: if_splits option.splits dest!: multisig_keys_lengths)

end
