(* ===== verification/ScriptEval.thy ===== *)
theory ScriptEval
  imports ScriptTemplates
begin

text \<open>
  The script interpreter of \<^verbatim>\<open>internal/script/script.go\<close>: the structure check and the
  evaluation loop with its signature hooks. The program counter is the part of the program
  not yet read; the stack and the condition stack are lists with their top first.
\<close>

section \<open>Pushes inside a program\<close>

text \<open>
  \<open>Some (data, rest)\<close> after a push opcode with \<open>n\<close> bytes of data, \<open>None\<close> where the
  code returns \<open>ErrMalformedScript\<close>. The opcode has been read.
\<close>

definition push_fixed :: "nat \<Rightarrow> bytes \<Rightarrow> (bytes \<times> bytes) option" where
  "push_fixed n rest = (if n > length rest then None else Some (take n rest, drop n rest))"

definition push_data1 :: "bytes \<Rightarrow> (bytes \<times> bytes) option" where
  "push_data1 rest = (if rest = [] then None else push_fixed (unat (hd rest)) (tl rest))"

definition push_data2 :: "bytes \<Rightarrow> (bytes \<times> bytes) option" where
  "push_data2 rest =
     (if length rest < 2 then None
      else push_fixed (unat (rest ! 0) + 256 * unat (rest ! 1)) (drop 2 rest))"

definition push_op :: "byte \<Rightarrow> bool" where
  "push_op op \<longleftrightarrow> (1 \<le> op \<and> op \<le> 75) \<or> op = OP_PUSHDATA1 \<or> op = OP_PUSHDATA2"

definition small_int_op :: "byte \<Rightarrow> bool" where
  "small_int_op op \<longleftrightarrow> OP_1 \<le> op \<and> op \<le> OP_16"

definition push_read :: "byte \<Rightarrow> bytes \<Rightarrow> (bytes \<times> bytes) option" where
  "push_read op rest =
     (if 1 \<le> op \<and> op \<le> 75 then push_fixed (unat op) rest
      else if op = OP_PUSHDATA1 then push_data1 rest else push_data2 rest)"

lemma push_fixed_shorter: "push_fixed n rest = Some (d, r) \<Longrightarrow> length r \<le> length rest"
  by (auto simp: push_fixed_def split: if_splits)

lemma push_read_shorter: "push_read op rest = Some (d, r) \<Longrightarrow> length r \<le> length rest"
  by (auto simp: push_read_def push_data1_def push_data2_def split: if_splits
      dest!: push_fixed_shorter)

section \<open>ValidateScriptStructure\<close>

function validate_loop :: "nat \<Rightarrow> bytes \<Rightarrow> script_error + unit" where
  "validate_loop depth prog =
     (case prog of [] \<Rightarrow> if depth \<noteq> 0 then Inl ErrMalformedScript else Inr ()
      | op # rest \<Rightarrow>
        if op = OP_0 then validate_loop depth rest
        else if push_op op then
          (case push_read op rest of None \<Rightarrow> Inl ErrMalformedScript
           | Some (d, r) \<Rightarrow> validate_loop depth r)
        else if op = OP_IF \<or> op = OP_NOTIF then validate_loop (depth + 1) rest
        else if op = OP_ELSE then
          (if depth = 0 then Inl ErrMalformedScript else validate_loop depth rest)
        else if op = OP_ENDIF then
          (if depth = 0 then Inl ErrMalformedScript else validate_loop (depth - 1) rest)
        else validate_loop depth rest)"
  by pat_completeness auto
termination
  by (relation "measure (\<lambda>(d, p). length p)") (auto dest: push_read_shorter)

declare validate_loop.simps [simp del]

definition ValidateScriptStructure :: "bytes \<Rightarrow> script_error + unit" where
  "ValidateScriptStructure prog = validate_loop 0 prog"

section \<open>Evaluation\<close>

definition isTruthy :: "bytes \<Rightarrow> bool" where
  "isTruthy v \<longleftrightarrow> list_ex (\<lambda>b. b \<noteq> 0) v"

definition decodeStackSmallInt :: "bytes \<Rightarrow> nat option" where
  "decodeStackSmallInt v =
     (if length v = 0 then Some 0
      else if length v \<noteq> 1 then None
      else if v ! 0 > 16 then None
      else Some (unat (v ! 0)))"

definition bool_item :: "bool \<Rightarrow> bytes" where
  "bool_item b = (if b then [1] else [])"

type_synonym stack = "bytes list"

text \<open>
  \<open>OP_CHECKMULTISIG\<close>: the key count, the keys, the signature count, the signatures and
  one dummy item are popped; the \<open>n\<close> keys come off the stack last one first.
\<close>

definition eval_checkmultisig ::
    "(bytes list \<Rightarrow> bytes list \<Rightarrow> bool) option \<Rightarrow> stack \<Rightarrow> script_error + stack" where
  "eval_checkmultisig verifyCheckMultiSig stack =
     (case stack of [] \<Rightarrow> Inl ErrScriptEval
      | item # stack \<Rightarrow>
        (case decodeStackSmallInt item of None \<Rightarrow> Inl ErrScriptEval
         | Some n \<Rightarrow>
           if length stack < n + 1 then Inl ErrScriptEval
           else
             let pubKeys = rev (take n stack); stack = drop n stack in
             (case decodeStackSmallInt (hd stack) of None \<Rightarrow> Inl ErrScriptEval
              | Some m \<Rightarrow>
                let stack = tl stack in
                if m > n \<or> length stack < m + 1 then Inl ErrScriptEval
                else
                  let sigs = rev (take m stack); stack = tl (drop m stack);
                      pass = (case verifyCheckMultiSig of None \<Rightarrow> False | Some f \<Rightarrow> f sigs pubKeys)
                  in Inr (bool_item pass # stack))))"

text \<open>The opcodes of the inner \<open>switch\<close>, executed when every condition holds.\<close>

definition eval_op ::
    "crypto \<Rightarrow> (bytes \<Rightarrow> bytes \<Rightarrow> bool) option \<Rightarrow> (bytes list \<Rightarrow> bytes list \<Rightarrow> bool) option \<Rightarrow>
     byte \<Rightarrow> stack \<Rightarrow> script_error + stack" where
  "eval_op C verifyCheckSig verifyCheckMultiSig op stack =
     (if op = OP_DUP then
        (case stack of [] \<Rightarrow> Inl ErrScriptEval | a # st \<Rightarrow> Inr (a # a # st))
      else if op = OP_HASH160 then
        (case stack of [] \<Rightarrow> Inl ErrScriptEval | a # st \<Rightarrow> Inr (Hash160 C a # st))
      else if op = OP_EQUAL then
        (case stack of b # a # st \<Rightarrow> Inr (bool_item (a = b) # st) | _ \<Rightarrow> Inl ErrScriptEval)
      else if op = OP_EQUALVERIFY then
        (case stack of b # a # st \<Rightarrow> if a \<noteq> b then Inl ErrScriptEval else Inr st | _ \<Rightarrow> Inl ErrScriptEval)
      else if op = OP_CHECKSIG then
        (case stack of
           pubKey # sigWithHashType # st \<Rightarrow>
             let ok = (case verifyCheckSig of None \<Rightarrow> False | Some f \<Rightarrow> f sigWithHashType pubKey)
             in Inr (bool_item ok # st)
         | _ \<Rightarrow> Inl ErrScriptEval)
      else if op = OP_CHECKMULTISIG then eval_checkmultisig verifyCheckMultiSig stack
      else Inl ErrUnsupportedScript)"

text \<open>
  The loop. \<open>conds\<close> has the innermost condition first; a program step is active when all of
  them hold, and \<open>OP_ELSE\<close> flips the innermost one when the enclosing ones hold.
\<close>

function eval_loop ::
    "crypto \<Rightarrow> (bytes \<Rightarrow> bytes \<Rightarrow> bool) option \<Rightarrow> (bytes list \<Rightarrow> bytes list \<Rightarrow> bool) option \<Rightarrow>
     bytes \<Rightarrow> stack \<Rightarrow> bool list \<Rightarrow> script_error + stack" where
  "eval_loop C vs vm prog stack conds =
     (case prog of [] \<Rightarrow> Inr stack
      | op # rest \<Rightarrow>
        let active = list_all (\<lambda>c. c) conds in
        if op = OP_0 then eval_loop C vs vm rest (if active then [] # stack else stack) conds
        else if small_int_op op then
          eval_loop C vs vm rest (if active then [op - OP_1 + 1] # stack else stack) conds
        else if push_op op then
          (case push_read op rest of None \<Rightarrow> Inl ErrMalformedScript
           | Some (d, r) \<Rightarrow> eval_loop C vs vm r (if active then d # stack else stack) conds)
        else if op = OP_IF \<or> op = OP_NOTIF then
          (if active then
             (case stack of [] \<Rightarrow> Inl ErrScriptEval
              | item # st \<Rightarrow>
                eval_loop C vs vm rest st
                  ((if op = OP_NOTIF then \<not> isTruthy item else isTruthy item) # conds))
           else eval_loop C vs vm rest stack (False # conds))
        else if op = OP_ELSE then
          (case conds of [] \<Rightarrow> Inl ErrMalformedScript
           | c # cs \<Rightarrow> eval_loop C vs vm rest stack ((if list_all (\<lambda>c. c) cs then \<not> c else c) # cs))
        else if op = OP_ENDIF then
          (case conds of [] \<Rightarrow> Inl ErrMalformedScript
           | c # cs \<Rightarrow> eval_loop C vs vm rest stack cs)
        else if \<not> active then eval_loop C vs vm rest stack conds
        else (case eval_op C vs vm op stack of Inl e \<Rightarrow> Inl e
          | Inr st \<Rightarrow> eval_loop C vs vm rest st conds))"
  by pat_completeness auto
termination
  by (relation "measure (\<lambda>(C, vs, vm, p, s, c). length p)") (auto dest: push_read_shorter)

declare eval_loop.simps [simp del]

text \<open>Stacks at the interface have their top last.\<close>

definition EvalPushScriptWithHooks ::
    "crypto \<Rightarrow> bytes \<Rightarrow> stack \<Rightarrow> (bytes \<Rightarrow> bytes \<Rightarrow> bool) option \<Rightarrow>
     (bytes list \<Rightarrow> bytes list \<Rightarrow> bool) option \<Rightarrow> script_error + stack" where
  "EvalPushScriptWithHooks C prog initialStack vs vm =
     (case ValidateScriptStructure prog of Inl e \<Rightarrow> Inl e
      | Inr _ \<Rightarrow>
        (case eval_loop C vs vm prog (rev initialStack) [] of Inl e \<Rightarrow> Inl e
         | Inr st \<Rightarrow> Inr (rev st)))"

definition EvalPushScript :: "crypto \<Rightarrow> bytes \<Rightarrow> stack \<Rightarrow> script_error + stack" where
  "EvalPushScript C prog initialStack = EvalPushScriptWithHooks C prog initialStack None None"

definition EvalPushScriptWithCheckSig ::
    "crypto \<Rightarrow> bytes \<Rightarrow> stack \<Rightarrow> (bytes \<Rightarrow> bytes \<Rightarrow> bool) \<Rightarrow> script_error + stack" where
  "EvalPushScriptWithCheckSig C prog initialStack vs =
     EvalPushScriptWithHooks C prog initialStack (Some vs) None"

section \<open>Lemmas\<close>

lemma eval_op_no_malformed: "eval_op C vs vm op stack \<noteq> Inl ErrMalformedScript"
  by (auto simp: eval_op_def eval_checkmultisig_def Let_def split: list.splits option.splits)

lemma small_push_disjoint: "small_int_op op \<Longrightarrow> \<not> push_op op \<and> op \<noteq> OP_0 \<and>
    op \<noteq> OP_IF \<and> op \<noteq> OP_NOTIF \<and> op \<noteq> OP_ELSE \<and> op \<noteq> OP_ENDIF"
  by (auto simp: small_int_op_def push_op_def op_defs word_le_nat_alt)

text \<open>
  The structure check is complete for the loop: its depth is the height of the condition
  stack, so a program that passed it never makes the loop report a malformed script.
\<close>

lemma eval_loop_structured:
  "validate_loop (length conds) prog = Inr () \<Longrightarrow>
     eval_loop C vs vm prog stack conds \<noteq> Inl ErrMalformedScript"
proof (induction prog arbitrary: stack conds rule: measure_induct_rule [where f = length])
  case (less prog)
  show ?case
  proof (cases prog)
    case Nil
    then show ?thesis by (simp add: eval_loop.simps [of C vs vm "[]"])
  next
    case (Cons op rest)
    note v = less.prems [unfolded Cons validate_loop.simps [of _ "op # rest"], simplified]
    note e = eval_loop.simps [of C vs vm "op # rest" stack conds, simplified]
    have ih: "validate_loop (length cs) rest = Inr () \<Longrightarrow>
      eval_loop C vs vm rest st cs \<noteq> Inl ErrMalformedScript" for st cs
      by (rule less.IH) (simp_all add: Cons)
    have ihp: "push_read op rest = Some (d, r) \<Longrightarrow> validate_loop (length cs) r = Inr () \<Longrightarrow>
      eval_loop C vs vm r st cs \<noteq> Inl ErrMalformedScript" for d r st cs
      by (rule less.IH) (auto simp: Cons dest: push_read_shorter)
    have ihn: "validate_loop n rest = Inr () \<Longrightarrow> n = length cs \<Longrightarrow>
      eval_loop C vs vm rest st cs \<noteq> Inl ErrMalformedScript" for n st cs
      using ih by simp
    consider "op = OP_0" | "small_int_op op" | "op \<noteq> OP_0" "push_op op"
      | "op = OP_IF \<or> op = OP_NOTIF" | "op = OP_ELSE" | "op = OP_ENDIF"
      | "op \<noteq> OP_0" "\<not> small_int_op op" "\<not> push_op op" "op \<noteq> OP_IF" "op \<noteq> OP_NOTIF"
        "op \<noteq> OP_ELSE" "op \<noteq> OP_ENDIF" by blast
    then show ?thesis
    proof cases
      case 1
      then show ?thesis using v ih unfolding Cons e by (simp add: Let_def)
    next
      case 2
      then show ?thesis using v small_push_disjoint [of op] ih by (simp add: Cons e Let_def)
    next
      case 3
      then have "\<not> small_int_op op" using small_push_disjoint [of op] by blast
      with 3 show ?thesis using v ihp by (auto simp: Cons e Let_def split: option.splits)
    next
      case 4
      then have "op \<noteq> OP_0 \<and> \<not> push_op op \<and> \<not> small_int_op op"
        by (auto simp: op_defs push_op_def small_int_op_def)
      with 4 v ihn [of "Suc (length conds)"] show ?thesis
        unfolding Cons e by (auto simp: Let_def split: list.splits)
    next
      case 5
      then have "op \<noteq> OP_0 \<and> \<not> push_op op \<and> \<not> small_int_op op \<and> op \<noteq> OP_IF \<and> op \<noteq> OP_NOTIF"
        by (auto simp: op_defs push_op_def small_int_op_def)
      with 5 v ihn [of "length conds"] show ?thesis
        unfolding Cons e by (auto simp: Let_def split: list.splits if_splits)
    next
      case 6
      then have "op \<noteq> OP_0 \<and> \<not> push_op op \<and> \<not> small_int_op op \<and> op \<noteq> OP_IF \<and>
        op \<noteq> OP_NOTIF \<and> op \<noteq> OP_ELSE"
        by (auto simp: op_defs push_op_def small_int_op_def)
      with 6 v ihn [of "length conds - 1"] show ?thesis
        unfolding Cons e by (auto simp: Let_def split: list.splits if_splits)
    next
      case 7
      then show ?thesis using v ih eval_op_no_malformed
        by (auto simp: Cons e Let_def split: sum.splits)
    qed
  qed
qed

text \<open>Single steps, for evaluating the templates.\<close>

definition plain_op :: "byte \<Rightarrow> bool" where
  "plain_op op \<longleftrightarrow> op \<noteq> OP_0 \<and> \<not> small_int_op op \<and> \<not> push_op op \<and> op \<noteq> OP_IF \<and>
     op \<noteq> OP_NOTIF \<and> op \<noteq> OP_ELSE \<and> op \<noteq> OP_ENDIF"

lemma plain_ops [simp]: "plain_op OP_DUP" "plain_op OP_HASH160" "plain_op OP_EQUAL"
  "plain_op OP_EQUALVERIFY" "plain_op OP_CHECKSIG" "plain_op OP_CHECKMULTISIG"
  by (simp_all add: plain_op_def push_op_def small_int_op_def op_defs)

lemma eval_step_plain:
  "plain_op op \<Longrightarrow> list_all (\<lambda>c. c) conds \<Longrightarrow> eval_loop C vs vm (op # rest) stack conds =
     (case eval_op C vs vm op stack of Inl e \<Rightarrow> Inl e | Inr st \<Rightarrow> eval_loop C vs vm rest st conds)"
  by (subst eval_loop.simps) (simp add: plain_op_def Let_def)

lemma validate_step_plain: "plain_op op \<Longrightarrow> validate_loop n (op # rest) = validate_loop n rest"
  by (subst validate_loop.simps) (simp add: plain_op_def)

lemma eval_step_push:
  assumes "length d = unat op" "1 \<le> op" "op \<le> 75"
  shows "eval_loop C vs vm (op # d @ rest) stack conds =
     eval_loop C vs vm rest (if list_all (\<lambda>c. c) conds then d # stack else stack) conds"
proof -
  have "push_op op" "op \<noteq> OP_0" using assms by (auto simp: push_op_def op_defs)
  moreover have "\<not> small_int_op op" using \<open>push_op op\<close> small_push_disjoint by blast
  moreover have "push_read op (d @ rest) = Some (d, rest)"
    using assms by (simp add: push_read_def push_fixed_def)
  ultimately show ?thesis by (subst eval_loop.simps) (simp add: Let_def)
qed

lemma validate_step_push:
  assumes "length d = unat op" "1 \<le> op" "op \<le> 75"
  shows "validate_loop n (op # d @ rest) = validate_loop n rest"
proof -
  have "push_op op" "op \<noteq> OP_0" using assms by (auto simp: push_op_def op_defs)
  moreover have "push_read op (d @ rest) = Some (d, rest)"
    using assms by (simp add: push_read_def push_fixed_def)
  ultimately show ?thesis by (subst validate_loop.simps) simp
qed

lemma eval_loop_Nil [simp]: "eval_loop C vs vm [] stack conds = Inr stack"
  by (subst eval_loop.simps) simp

lemma validate_loop_Nil [simp]: "validate_loop 0 [] = Inr ()"
  by (subst validate_loop.simps) simp

lemma eval_op_simps:
  "eval_op C vs vm OP_DUP (a # st) = Inr (a # a # st)"
  "eval_op C vs vm OP_HASH160 (a # st) = Inr (Hash160 C a # st)"
  "eval_op C vs vm OP_EQUALVERIFY (b # a # st) = (if a \<noteq> b then Inl ErrScriptEval else Inr st)"
  "eval_op C vs vm OP_CHECKSIG (pub # sig # st) =
     Inr (bool_item (case vs of None \<Rightarrow> False | Some f \<Rightarrow> f sig pub) # st)"
  by (simp_all add: eval_op_def op_defs)

text \<open>The P2PKH template, evaluated on a signature and a key.\<close>

lemma eval_p2pkh:
  assumes "PayToPubKeyHashScript h = Inr pk"
  shows "EvalPushScriptWithHooks C pk [sig, pub] vs vm =
    (if Hash160 C pub = h
     then Inr [bool_item (case vs of None \<Rightarrow> False | Some f \<Rightarrow> f sig pub)]
     else Inl ErrScriptEval)"
proof -
  have l: "length h = unat OP_DATA_20" "1 \<le> OP_DATA_20" "OP_DATA_20 \<le> 75"
    and pk: "pk = OP_DUP # OP_HASH160 # OP_DATA_20 # h @ [OP_EQUALVERIFY, OP_CHECKSIG]"
    using assms by (auto simp: PayToPubKeyHashScript_def OP_DATA_20_def split: if_splits)
  have "ValidateScriptStructure pk = Inr ()"
    unfolding ValidateScriptStructure_def pk
    by (simp add: validate_step_plain validate_step_push [OF l])
  then show ?thesis
    unfolding EvalPushScriptWithHooks_def pk
    by (simp add: eval_step_plain eval_step_push [OF l] eval_op_simps)
qed

end
