(* ===== verification/ScriptVerify.thy ===== *)
theory ScriptVerify
  imports ScriptEval "HOL-Library.Sublist"
begin

text \<open>
  Input verification (\<^verbatim>\<open>internal/script/script.go\<close>): the signature hash, the five
  template verifiers and \<open>VerifyInput\<close>.
\<close>

section \<open>The signature hash\<close>

text \<open>The input loop of \<open>SignatureHash\<close>: only input \<open>idx\<close> carries a script.\<close>

fun sighash_inputs :: "int \<Rightarrow> int \<Rightarrow> bytes \<Rightarrow> TxIn list \<Rightarrow> bytes" where
  "sighash_inputs i idx pk [] = []"
| "sighash_inputs i idx pk (inp # ins) =
     op_Hash (PreviousOutPoint inp) @ le_bytes 4 (op_Index (PreviousOutPoint inp)) @
     WriteVarBytes (if i = idx then pk else []) @ le_bytes 4 (Sequence inp) @
     sighash_inputs (i + 1) idx pk ins"

definition sighash_preimage :: "MsgTx \<Rightarrow> int \<Rightarrow> bytes \<Rightarrow> byte \<Rightarrow> bytes" where
  "sighash_preimage tx inputIndex prevPkScript hashType =
     le_bytes 4 (tx_Version tx) @ WriteVarInt (of_nat (length (tx_TxIn tx))) @
     sighash_inputs 0 inputIndex prevPkScript (tx_TxIn tx) @
     write_counted write_TxOut (tx_TxOut tx) @ le_bytes 4 (tx_LockTime tx) @
     le_bytes 4 (ucast hashType :: u32)"

definition SignatureHash :: "MsgTx \<Rightarrow> int \<Rightarrow> bytes \<Rightarrow> byte \<Rightarrow> script_error + hash" where
  "SignatureHash tx inputIndex prevPkScript hashType =
     (if inputIndex < 0 \<or> inputIndex \<ge> int (length (tx_TxIn tx)) then Inl ErrBadSignatureScript
      else Inr (DoubleHashB (sighash_preimage tx inputIndex prevPkScript hashType)))"

section \<open>Template verifiers\<close>

definition verifyHybridP2PKH :: "crypto \<Rightarrow> MsgTx \<Rightarrow> int \<Rightarrow> bytes \<Rightarrow> script_error + unit" where
  "verifyHybridP2PKH C tx inputIndex prevPkScript =
     (if inputIndex < 0 \<or> inputIndex \<ge> int (length (tx_TxIn tx)) then Inl ErrBadSignatureScript
      else
        (case parsePushes (SignatureScript (tx_TxIn tx ! nat inputIndex)) of
           Inl _ \<Rightarrow> Inl ErrBadSignatureScript
         | Inr pushes \<Rightarrow>
           if length pushes \<noteq> 4 then Inl ErrBadSignatureScript
           else
             let ecdsaWithHashType = pushes ! 0; pqSig = pushes ! 1;
                 secpPub = pushes ! 2; pqPub = pushes ! 3
             in if length ecdsaWithHashType < 2 \<or> last ecdsaWithHashType \<noteq> SigHashAll
                then Inl ErrBadSignature
                else
                  (case DecodeHybridAddress (NewHybridAddress secpPub pqPub) of
                     Inl e \<Rightarrow> Inl (ErrHybridAddress e)
                   | Inr hash20 \<Rightarrow>
                     if hash20 \<noteq> take 20 (drop 3 prevPkScript) then Inl ErrPubKeyHashMismatch
                     else
                       (case SignatureHash tx inputIndex prevPkScript SigHashAll of Inl e \<Rightarrow> Inl e
                        | Inr h \<Rightarrow>
                          (case HybridPublicKeyFromBytes C secpPub pqPub of Inl e \<Rightarrow> Inl e
                           | Inr pub \<Rightarrow>
                             if \<not> HybridVerify C pub h (butlast ecdsaWithHashType) pqSig
                             then Inl ErrBadSignature else Inr ())))))"

text \<open>
  The common tail of the P2PKH and P2PK verifiers: parse the key and the DER signature,
  hash, and check.
\<close>

definition check_ecdsa ::
    "crypto \<Rightarrow> MsgTx \<Rightarrow> int \<Rightarrow> bytes \<Rightarrow> bytes \<Rightarrow> bytes \<Rightarrow> script_error + unit" where
  "check_ecdsa C tx inputIndex prevPkScript sig pubKeyBytes =
     (case cr_ParsePubKey C pubKeyBytes of None \<Rightarrow> Inl ErrParsePubKey
      | Some pubKey \<Rightarrow>
        (case cr_ParseDERSignature C (butlast sig) of None \<Rightarrow> Inl ErrParseDER
         | Some parsedSig \<Rightarrow>
           (case SignatureHash tx inputIndex prevPkScript SigHashAll of Inl e \<Rightarrow> Inl e
            | Inr h \<Rightarrow> if \<not> cr_ECDSAVerify C parsedSig h pubKey then Inl ErrBadSignature else Inr ())))"

definition verifyP2PKH :: "crypto \<Rightarrow> MsgTx \<Rightarrow> int \<Rightarrow> bytes \<Rightarrow> script_error + unit" where
  "verifyP2PKH C tx inputIndex prevPkScript =
     (if inputIndex < 0 \<or> inputIndex \<ge> int (length (tx_TxIn tx)) then Inl ErrBadSignatureScript
      else
        (case parseP2PKHScriptSig (SignatureScript (tx_TxIn tx ! nat inputIndex)) of Inl e \<Rightarrow> Inl e
         | Inr (sig, pubKeyBytes) \<Rightarrow>
           if length sig < 2 \<or> last sig \<noteq> SigHashAll then Inl ErrBadSignature
           else if Hash160 C pubKeyBytes \<noteq> take 20 (drop 3 prevPkScript) then Inl ErrPubKeyHashMismatch
           else check_ecdsa C tx inputIndex prevPkScript sig pubKeyBytes))"

definition verifyP2PK :: "crypto \<Rightarrow> MsgTx \<Rightarrow> int \<Rightarrow> bytes \<Rightarrow> script_error + unit" where
  "verifyP2PK C tx inputIndex prevPkScript =
     (if inputIndex < 0 \<or> inputIndex \<ge> int (length (tx_TxIn tx)) then Inl ErrBadSignatureScript
      else
        (case parseP2PKScriptSig (SignatureScript (tx_TxIn tx ! nat inputIndex)) of Inl e \<Rightarrow> Inl e
         | Inr sig \<Rightarrow>
           if length sig < 2 \<or> last sig \<noteq> SigHashAll then Inl ErrBadSignature
           else check_ecdsa C tx inputIndex prevPkScript sig
                  (take (unat (prevPkScript ! 0)) (drop 1 prevPkScript))))"

text \<open>
  The matching loop: one key pointer that only moves forward; keys that do not parse are
  skipped, a signature that does not parse is an error.
\<close>

fun match_key :: "crypto \<Rightarrow> bytes \<Rightarrow> bytes \<Rightarrow> bytes list \<Rightarrow> bytes list option" where
  "match_key C h sig [] = None"
| "match_key C h sig (k # ks) =
     (case cr_ParsePubKey C k of None \<Rightarrow> match_key C h sig ks
      | Some pub \<Rightarrow> if cr_ECDSAVerify C sig h pub then Some ks else match_key C h sig ks)"

fun match_sigs :: "crypto \<Rightarrow> bytes \<Rightarrow> bytes list \<Rightarrow> bytes list \<Rightarrow> script_error + unit" where
  "match_sigs C h [] ks = Inr ()"
| "match_sigs C h (der # ders) ks =
     (case cr_ParseDERSignature C der of None \<Rightarrow> Inl ErrParseDER
      | Some sig \<Rightarrow>
        (case match_key C h sig ks of None \<Rightarrow> Inl ErrBadSignature
         | Some ks' \<Rightarrow> match_sigs C h ders ks'))"

definition verifyMultiSig :: "crypto \<Rightarrow> MsgTx \<Rightarrow> int \<Rightarrow> bytes \<Rightarrow> script_error + unit" where
  "verifyMultiSig C tx inputIndex prevPkScript =
     (if inputIndex < 0 \<or> inputIndex \<ge> int (length (tx_TxIn tx)) then Inl ErrBadSignatureScript
      else
        (case parseMultiSigScript prevPkScript of None \<Rightarrow> Inl ErrUnsupportedScript
         | Some (m, pubKeys) \<Rightarrow>
           if m < 1 \<or> length pubKeys < m then Inl ErrUnsupportedScript
           else
             (case parsePushes (SignatureScript (tx_TxIn tx ! nat inputIndex)) of
                Inl _ \<Rightarrow> Inl ErrBadSignatureScript
              | Inr pushes \<Rightarrow>
                if length pushes < 1 then Inl ErrBadSignatureScript
                else
                  let sigItems = (if hd pushes = [] then tl pushes else pushes) in
                  if length sigItems < m \<or> length sigItems > length pubKeys then Inl ErrBadSignature
                  else if list_ex (\<lambda>s. length s < 2 \<or> last s \<noteq> SigHashAll) sigItems
                  then Inl ErrBadSignature
                  else
                    (case SignatureHash tx inputIndex prevPkScript SigHashAll of Inl e \<Rightarrow> Inl e
                     | Inr h \<Rightarrow> match_sigs C h (map butlast sigItems) pubKeys))))"

text \<open>The copy of the transaction whose input \<open>inputIndex\<close> has another signature script.\<close>

definition with_sig_script :: "MsgTx \<Rightarrow> int \<Rightarrow> bytes \<Rightarrow> MsgTx" where
  "with_sig_script tx inputIndex sigScript =
     tx\<lparr>tx_TxIn := (tx_TxIn tx)[nat inputIndex :=
          (tx_TxIn tx ! nat inputIndex)\<lparr>SignatureScript := sigScript\<rparr>]\<rparr>"

definition verifyP2SH :: "crypto \<Rightarrow> MsgTx \<Rightarrow> int \<Rightarrow> bytes \<Rightarrow> script_error + unit" where
  "verifyP2SH C tx inputIndex prevPkScript =
     (if inputIndex < 0 \<or> inputIndex \<ge> int (length (tx_TxIn tx)) then Inl ErrBadSignatureScript
      else
        (case parsePushes (SignatureScript (tx_TxIn tx ! nat inputIndex)) of
           Inl _ \<Rightarrow> Inl ErrBadSignatureScript
         | Inr pushes \<Rightarrow>
           if length pushes < 1 then Inl ErrBadSignatureScript
           else
             let redeem = last pushes in
             if Hash160 C redeem \<noteq> take 20 (drop 2 prevPkScript) then Inl ErrBadSignature
             else
               (case encodePushes (butlast pushes) of Inl e \<Rightarrow> Inl e
                | Inr sigScript \<Rightarrow>
                  let tmp = with_sig_script tx inputIndex sigScript in
                  if IsPayToPubKeyHash redeem then verifyP2PKH C tmp inputIndex redeem
                  else if IsPayToPubKey redeem then verifyP2PK C tmp inputIndex redeem
                  else if IsPayToMultiSig redeem then verifyMultiSig C tmp inputIndex redeem
                  else Inl ErrUnsupportedScript)))"

definition VerifyInput :: "crypto \<Rightarrow> MsgTx \<Rightarrow> int \<Rightarrow> bytes \<Rightarrow> script_error + unit" where
  "VerifyInput C tx inputIndex prevPkScript =
     (if IsPayToHybridPubKeyHash prevPkScript then verifyHybridP2PKH C tx inputIndex prevPkScript
      else if IsPayToPubKeyHash prevPkScript then verifyP2PKH C tx inputIndex prevPkScript
      else if IsPayToPubKey prevPkScript then verifyP2PK C tx inputIndex prevPkScript
      else if IsPayToMultiSig prevPkScript then verifyMultiSig C tx inputIndex prevPkScript
      else if IsPayToScriptHash prevPkScript then verifyP2SH C tx inputIndex prevPkScript
      else Inl ErrUnsupportedScript)"

section \<open>Lemmas on the signature hash\<close>

text \<open>
  The preimage is the serialisation of the transaction whose scripts are cleared but for the
  signed input's, which holds the previous output's script, followed by the hash type.
\<close>

definition signing_inputs :: "int \<Rightarrow> int \<Rightarrow> bytes \<Rightarrow> TxIn list \<Rightarrow> TxIn list" where
  "signing_inputs i idx pk ins =
     map (\<lambda>(k, inp). inp\<lparr>SignatureScript := (if k = idx then pk else [])\<rparr>)
       (zip (map (\<lambda>n. i + int n) [0..<length ins]) ins)"

definition signing_tx :: "MsgTx \<Rightarrow> int \<Rightarrow> bytes \<Rightarrow> MsgTx" where
  "signing_tx tx idx pk = tx\<lparr>tx_TxIn := signing_inputs 0 idx pk (tx_TxIn tx)\<rparr>"

lemma signing_inputs_Cons:
  "signing_inputs i idx pk (inp # ins) =
     inp\<lparr>SignatureScript := (if i = idx then pk else [])\<rparr> # signing_inputs (i + 1) idx pk ins"
proof -
  have "map (\<lambda>n. i + int n) [0..<Suc (length ins)] = i # map (\<lambda>n. (i + 1) + int n) [0..<length ins]"
    by (simp add: upt_conv_Cons map_Suc_upt [symmetric] comp_def algebra_simps del: upt_Suc)
  then show ?thesis unfolding signing_inputs_def by simp
qed

lemma signing_inputs_Nil [simp]: "signing_inputs i idx pk [] = []"
  by (simp add: signing_inputs_def)

lemma length_signing_inputs [simp]: "length (signing_inputs i idx pk ins) = length ins"
  by (simp add: signing_inputs_def)

lemma signing_inputs_fields:
  "map PreviousOutPoint (signing_inputs i idx pk ins) = map PreviousOutPoint ins"
  "map Sequence (signing_inputs i idx pk ins) = map Sequence ins"
  by (induction ins arbitrary: i) (simp_all add: signing_inputs_Cons)

lemma signing_inputs_script:
  "k < length ins \<Longrightarrow> SignatureScript (signing_inputs 0 idx pk ins ! k) = (if int k = idx then pk else [])"
  by (simp add: signing_inputs_def)

text \<open>The input that is signed is the one that carries a script.\<close>

lemma signing_inputs_inj:
  assumes "signing_inputs 0 idx pk ins = signing_inputs 0 idx' pk' ins'"
    and "0 \<le> idx" "idx < int (length ins)" "0 \<le> idx'" "idx' < int (length ins')"
  shows "pk = pk' \<and> (pk \<noteq> [] \<longrightarrow> idx = idx')"
proof -
  have len: "length ins = length ins'" using arg_cong [where f = length, OF assms(1)] by simp
  have "(if int k = idx then pk else []) = (if int k = idx' then pk' else [])" if "k < length ins" for k
    using that len signing_inputs_script [of k ins idx pk] signing_inputs_script [of k ins' idx' pk'] assms(1) by simp
  from this [of "nat idx"] this [of "nat idx'"] show ?thesis using assms(2-5) len by (auto split: if_splits)
qed

lemma sighash_inputs_eq:
  "sighash_inputs i idx pk ins = concat (map write_TxIn (signing_inputs i idx pk ins))"
  by (induction ins arbitrary: i) (simp_all add: signing_inputs_Cons write_TxIn_def)

lemma sighash_preimage_eq:
  "sighash_preimage tx idx pk ht = tx_Serialize (signing_tx tx idx pk) @ le_bytes 4 (ucast ht :: u32)"
  by (simp add: sighash_preimage_def tx_Serialize_def signing_tx_def write_counted_def
      sighash_inputs_eq)

lemma signing_inputs_scripts:
  "map (\<lambda>x. (PreviousOutPoint x, Sequence x)) ins = map (\<lambda>x. (PreviousOutPoint x, Sequence x)) ins' \<Longrightarrow>
     signing_inputs i idx pk ins = signing_inputs i idx pk ins'"
proof (induction ins arbitrary: ins' i)
  case (Cons x ins)
  then obtain y ys where "ins' = y # ys" by (cases ins') auto
  with Cons show ?case by (auto simp: signing_inputs_Cons intro: TxIn.equality)
qed simp

text \<open>Signature scripts are not signed.\<close>

lemma SignatureHash_with_sig_script:
  "SignatureHash (with_sig_script tx idx s) idx' pk ht = SignatureHash tx idx' pk ht"
proof -
  have "map (\<lambda>x. (PreviousOutPoint x, Sequence x))
      ((tx_TxIn tx)[nat idx := (tx_TxIn tx ! nat idx)\<lparr>SignatureScript := s\<rparr>]) =
    map (\<lambda>x. (PreviousOutPoint x, Sequence x)) (tx_TxIn tx)"
    by (cases "nat idx < length (tx_TxIn tx)")
      (simp_all add: map_update list_update_same_conv list_update_beyond)
  then have "signing_inputs 0 idx' pk ((tx_TxIn tx)[nat idx := (tx_TxIn tx ! nat idx)\<lparr>SignatureScript := s\<rparr>]) =
    signing_inputs 0 idx' pk (tx_TxIn tx)"
    by (rule signing_inputs_scripts)
  then show ?thesis
    by (simp add: SignatureHash_def sighash_preimage_eq signing_tx_def with_sig_script_def)
qed

lemma signing_inputs_ok:
  "list_all (\<lambda>x. hash_ok (op_Hash (PreviousOutPoint x))) ins \<Longrightarrow> length pk \<le> unat MaxScriptSize \<Longrightarrow>
     list_all TxIn_ok (signing_inputs i idx pk ins)"
  by (induction ins arbitrary: i) (auto simp: signing_inputs_Cons TxIn_ok_def)

lemma signing_tx_ok:
  "MsgTx_ok tx \<Longrightarrow> length pk \<le> unat MaxScriptSize \<Longrightarrow> MsgTx_ok (signing_tx tx idx pk)"
proof -
  assume tx: "MsgTx_ok tx" and pk: "length pk \<le> unat MaxScriptSize"
  then have "list_all (\<lambda>x. hash_ok (op_Hash (PreviousOutPoint x))) (tx_TxIn tx)"
    by (auto simp: MsgTx_ok_def TxIn_ok_def list_all_iff)
  from signing_inputs_ok [OF this pk] tx show ?thesis
    by (simp add: MsgTx_ok_def signing_tx_def)
qed

text \<open>Equal preimages of well-formed transactions are preimages of the same signing transaction.\<close>

lemma sighash_preimage_inj:
  assumes "MsgTx_ok tx" "MsgTx_ok tx'" "length pk \<le> unat MaxScriptSize" "length pk' \<le> unat MaxScriptSize"
    and "sighash_preimage tx idx pk ht = sighash_preimage tx' idx' pk' ht'"
  shows "signing_tx tx idx pk = signing_tx tx' idx' pk' \<and> ht = ht'"
proof -
  from assms(5) have "tx_Serialize (signing_tx tx idx pk) @ le_bytes 4 (ucast ht :: u32) =
    tx_Serialize (signing_tx tx' idx' pk') @ le_bytes 4 (ucast ht' :: u32)"
    by (simp only: sighash_preimage_eq)
  from tx.enc_inj [OF signing_tx_ok [OF assms(1,3)] signing_tx_ok [OF assms(2,4)] this]
  have s: "signing_tx tx idx pk = signing_tx tx' idx' pk'"
    and b: "le_bytes 4 (ucast ht :: u32) = le_bytes 4 (ucast ht' :: u32)" by auto
  have full: "le_word (le_bytes 4 x) = x" for x :: u32 by (rule le_word_le_bytes_full) simp
  have "(ucast ht :: u32) = ucast ht'"
    using arg_cong [where f = "le_word :: bytes \<Rightarrow> u32", OF b] unfolding full .
  then have "(ucast (ucast ht :: u32) :: byte) = ucast (ucast ht' :: u32)" by simp
  then have "ht = ht'" by (simp add: ucast_up_ucast_id is_up)
  with s show ?thesis by simp
qed

section \<open>Lemmas on the verifiers\<close>

text \<open>A DER signature and a key of a multisig script that belong together.\<close>

definition sig_for_key :: "crypto \<Rightarrow> bytes \<Rightarrow> bytes \<Rightarrow> bytes \<Rightarrow> bool" where
  "sig_for_key C h der k \<longleftrightarrow>
     (case (cr_ParseDERSignature C der, cr_ParsePubKey C k) of
        (Some sig, Some pub) \<Rightarrow> cr_ECDSAVerify C sig h pub
      | _ \<Rightarrow> False)"

lemma match_key_cases:
  assumes "cr_ParseDERSignature C der = Some sig"
  shows "(match_key C h sig ks = None \<and> (\<forall>ds. \<not> list_emb (sig_for_key C h) (der # ds) ks)) \<or>
    (\<exists>ks'. match_key C h sig ks = Some ks' \<and>
       (\<forall>ds. list_emb (sig_for_key C h) (der # ds) ks = list_emb (sig_for_key C h) ds ks'))"
proof (induction ks)
  case (Cons k ks)
  show ?case
  proof (cases "sig_for_key C h der k")
    case True
    then show ?thesis using assms by (auto simp: sig_for_key_def split: option.splits)
  next
    case False
    then have "match_key C h sig (k # ks) = match_key C h sig ks"
      using assms by (simp add: sig_for_key_def split: option.splits)
    moreover have "list_emb (sig_for_key C h) (der # ds) (k # ks) =
      list_emb (sig_for_key C h) (der # ds) ks" for ds
      using False by simp
    ultimately show ?thesis using Cons.IH by simp
  qed
qed simp

text \<open>
  The one-pass matching finds an assignment of the signatures to keys in the script's key
  order whenever there is one.
\<close>

lemma match_sigs_iff:
  "match_sigs C h ders ks = Inr () \<longleftrightarrow> list_emb (sig_for_key C h) ders ks"
proof (induction ders arbitrary: ks)
  case (Cons der ders)
  show ?case
  proof (cases "cr_ParseDERSignature C der")
    case None
    then have "\<not> list_emb (sig_for_key C h) (der # ders) ks"
      by (auto simp: sig_for_key_def dest: list_emb_ConsD)
    with None show ?thesis by simp
  next
    case (Some sig)
    from match_key_cases [OF Some, of h ks] show ?thesis
      using Some Cons.IH by (auto simp del: list_emb_Cons_iff1 list_emb_Cons_iff2)
  qed
qed simp

lemma check_ecdsa_iff:
  assumes "0 \<le> idx" "idx < int (length (tx_TxIn tx))"
  shows "check_ecdsa C tx idx pk sig pub = Inr () \<longleftrightarrow>
    sig_for_key C (DoubleHashB (sighash_preimage tx idx pk SigHashAll)) (butlast sig) pub"
  using assms
  by (auto simp: check_ecdsa_def sig_for_key_def SignatureHash_def split: option.splits)

text \<open>The hook \<open>OP_CHECKSIG\<close> runs with when the interpreter plays the P2PKH template.\<close>

definition checksig_hook :: "crypto \<Rightarrow> MsgTx \<Rightarrow> int \<Rightarrow> bytes \<Rightarrow> bytes \<Rightarrow> bytes \<Rightarrow> bool" where
  "checksig_hook C tx idx pk sig pub \<longleftrightarrow>
     2 \<le> length sig \<and> last sig = SigHashAll \<and>
     sig_for_key C (DoubleHashB (sighash_preimage tx idx pk SigHashAll)) (butlast sig) pub"

lemma parsePushes_step:
  "readPushData bs = Inr (d, r) \<Longrightarrow> parsePushes r = Inr ds \<Longrightarrow> parsePushes bs = Inr (d # ds)"
  by (subst parsePushes_eq) (auto dest: readPushData_shorter)

lemma parseP2PKHScriptSig_pushes:
  "parseP2PKHScriptSig s = Inr (sig, pub) \<Longrightarrow> parsePushes s = Inr [sig, pub]"
  by (auto simp: parseP2PKHScriptSig_def split: sum.splits if_splits
      intro!: parsePushes_step)

lemma PayToPubKeyHashScript_of_template:
  assumes "IsPayToPubKeyHash pk"
  shows "PayToPubKeyHashScript (take 20 (drop 3 pk)) = Inr pk"
  using assms unfolding IsPayToPubKeyHash_iff by (auto simp: PayToPubKeyHashScript_def split: if_splits)

lemma verifyP2PKH_iff_eval:
  assumes pk: "IsPayToPubKeyHash pk" and idx: "0 \<le> idx" "idx < int (length (tx_TxIn tx))"
    and s: "parseP2PKHScriptSig (SignatureScript (tx_TxIn tx ! nat idx)) = Inr (sig, pub)"
  shows "verifyP2PKH C tx idx pk = Inr () \<longleftrightarrow>
    EvalPushScriptWithCheckSig C pk [sig, pub] (checksig_hook C tx idx pk) = Inr [[1]]"
  unfolding EvalPushScriptWithCheckSig_def eval_p2pkh [OF PayToPubKeyHashScript_of_template [OF pk]]
  using idx s
  by (auto simp: verifyP2PKH_def check_ecdsa_iff checksig_hook_def bool_item_def)

end
