(* ===== verification/ScriptProperties.thy ===== *)
theory ScriptProperties
  imports ScriptVerify
begin

text \<open>Properties of the script templates, the interpreter and the input verifiers.\<close>

section \<open>A concrete instance of the third-party functions\<close>

text \<open>
  The witnesses instantiate the cryptographic parameter: every key and signature parses to
  itself, and a signature is valid when it equals the key.
\<close>

definition sample_crypto :: crypto where
  "sample_crypto = \<lparr>cr_ripemd160 = (\<lambda>b. replicate 20 7), cr_ParsePubKey = Some,
     cr_ParseDERSignature = Some, cr_SerializeSignature = (\<lambda>s. s),
     cr_ECDSAVerify = (\<lambda>sig h k. sig = k), cr_MLDSAUnmarshal = Some,
     cr_MLDSAVerify = (\<lambda>k c m s. s = k), cr_MLDSASignatureSize = 3309,
     cr_MLDSAPublicKeySize = 1952\<rparr>"

definition spend_tx :: "bytes \<Rightarrow> MsgTx" where
  "spend_tx sigScript = \<lparr>tx_Version = 1,
     tx_TxIn = [\<lparr>PreviousOutPoint = \<lparr>op_Hash = zero_hash, op_Index = 0\<rparr>,
                 SignatureScript = sigScript, Sequence = 0xffffffff\<rparr>],
     tx_TxOut = [\<lparr>out_Value = 1, out_PkScript = [OP_1]\<rparr>], tx_LockTime = 0\<rparr>"

lemma spend_tx_ok: "length s \<le> 10000 \<Longrightarrow> MsgTx_ok (spend_tx s)"
  by (simp add: spend_tx_def MsgTx_ok_def TxIn_ok_def TxOut_ok_def hash_ok_def zero_hash_def
      HashSize_def MaxTxInPerMessage_def MaxTxOutPerMessage_def MaxScriptSize_def)

section \<open>Properties\<close>

text \<open>
  The data pushes of a signature script round trip: whatever \<open>encodePushes\<close> produces is
  parsed back to the same items, and every item the parser returns is within the size limit,
  so it can be encoded again.
\<close>

theorem pushes_roundtrip:
  assumes "encodePushes ds = Inr b" "parsePushes bs = Inr es"
  shows "parsePushes b = Inr ds \<and> (\<exists>b'. encodePushes es = Inr b' \<and> parsePushes b' = Inr es)"
  using parsePushes_encodePushes [OF assms(1)] encodePushes_ok [OF parsePushes_ok [OF assms(2)]]
    parsePushes_encodePushes by blast

theorem pushes_roundtrip_witness:
  "\<exists>b. encodePushes [[], [1, 2]] = Inr b \<and> parsePushes b = Inr [[], [1, 2]]"
proof -
  obtain b where b: "encodePushes [[], [1, 2]] = Inr b"
    by (simp add: writePushData_def MaxScriptSize_def)
  have "parsePushes [] = Inr []" by simp
  from pushes_roundtrip [OF b this] b show ?thesis by blast
qed

text \<open>
  The five output templates are mutually exclusive, so the order of the cases in
  \<open>VerifyInput\<close> does not matter, and the P2PKH recogniser accepts exactly the scripts that
  \<open>PayToPubKeyHashScript\<close> builds.
\<close>

theorem templates_exclusive:
  "length (filter (\<lambda>is. is pk) [IsPayToHybridPubKeyHash, IsPayToPubKeyHash, IsPayToPubKey,
     IsPayToMultiSig, IsPayToScriptHash]) \<le> 1 \<and>
   (IsPayToPubKeyHash pk \<longleftrightarrow> (\<exists>h. PayToPubKeyHashScript h = Inr pk))"
  using templates_disjoint [of pk] IsPayToPubKeyHash_iff [of pk] by auto

text \<open>
  \<open>ValidateScriptStructure\<close> is complete for the interpreter: a program that passes it
  never makes the evaluation loop report a malformed script, whatever the stack, the hooks
  and the branches taken.
\<close>

theorem structure_check_complete:
  assumes "ValidateScriptStructure prog = Inr ()"
  shows "EvalPushScriptWithHooks C prog stack vs vm \<noteq> Inl ErrMalformedScript"
  using eval_loop_structured [of "[]" prog C vs vm "rev stack"] assms
  by (auto simp: EvalPushScriptWithHooks_def ValidateScriptStructure_def split: sum.splits)

theorem structure_check_complete_witness:
  "EvalPushScriptWithHooks sample_crypto [OP_DUP, OP_EQUAL] [[1]] None None \<noteq> Inl ErrMalformedScript"
  by (rule structure_check_complete)
    (simp add: ValidateScriptStructure_def validate_step_plain)

text \<open>
  C36. The direct P2PKH verifier and the interpreter agree: for an input whose script pushes
  a signature and a key, \<open>verifyP2PKH\<close> succeeds exactly when evaluating the output script on
  these two items, with the signature check as the \<open>OP_CHECKSIG\<close> hook, leaves true.
\<close>

theorem P2PKH_verifier_interpreter:
  assumes "IsPayToPubKeyHash pk" "0 \<le> idx" "idx < int (length (tx_TxIn tx))"
    and "parseP2PKHScriptSig (SignatureScript (tx_TxIn tx ! nat idx)) = Inr (sig, pub)"
  shows "VerifyInput C tx idx pk = Inr () \<longleftrightarrow>
    EvalPushScriptWithCheckSig C pk [sig, pub] (checksig_hook C tx idx pk) = Inr [[1]]"
  using verifyP2PKH_iff_eval [OF assms] templates_disjoint(1) [of pk] assms(1)
  by (simp add: VerifyInput_def)

theorem P2PKH_verifier_interpreter_witness:
  "\<exists>pk. PayToPubKeyHashScript (replicate 20 7) = Inr pk \<and>
     VerifyInput sample_crypto (spend_tx [2, 5, 1, 1, 5]) 0 pk = Inr ()"
proof -
  obtain pk where pk: "PayToPubKeyHashScript (replicate 20 7) = Inr pk"
    by (simp add: PayToPubKeyHashScript_def)
  then have t: "IsPayToPubKeyHash pk" using IsPayToPubKeyHash_iff by blast
  have parse: "parseP2PKHScriptSig (SignatureScript (tx_TxIn (spend_tx [2, 5, 1, 1, 5]) ! nat 0)) =
      Inr ([5, 1], [5])"
    by (simp add: spend_tx_def parseP2PKHScriptSig_def readPushData_def rbind_def read_byte_or_bad_def
        read_or_bad_def op_defs MaxScriptSize_def)
  have "EvalPushScriptWithCheckSig sample_crypto pk [[5, 1], [5]]
      (checksig_hook sample_crypto (spend_tx [2, 5, 1, 1, 5]) 0 pk) = Inr [[1]]"
    unfolding EvalPushScriptWithCheckSig_def eval_p2pkh [OF pk]
    by (simp add: Hash160_def sample_crypto_def checksig_hook_def SigHashAll_def sig_for_key_def bool_item_def)
  with P2PKH_verifier_interpreter [OF t _ _ parse, of sample_crypto] pk show ?thesis
    by (simp add: spend_tx_def)
qed

text \<open>
  C38. The signature hash is the double hash of its preimage; it does not depend on any signature
  script (signatures can be added in any order), and everything else is committed to: for
  well-formed transactions and inputs that exist, equal preimages come from the same version,
  outpoints, sequences, outputs, lock time and hash type, from the same script of the spent
  output, and, unless that script is empty, from the same input.
\<close>

theorem signature_hash_commitment:
  assumes "MsgTx_ok tx" "MsgTx_ok tx'"
    and "length pk \<le> unat MaxScriptSize" "length pk' \<le> unat MaxScriptSize"
    and "0 \<le> idx" "idx < int (length (tx_TxIn tx))" "0 \<le> idx'" "idx' < int (length (tx_TxIn tx'))"
    and "sighash_preimage tx idx pk ht = sighash_preimage tx' idx' pk' ht'"
  shows "SignatureHash tx idx pk ht = Inr (DoubleHashB (sighash_preimage tx idx pk ht)) \<and>
    SignatureHash (with_sig_script tx i s) idx pk ht = SignatureHash tx idx pk ht \<and>
    pk = pk' \<and> (pk \<noteq> [] \<longrightarrow> idx = idx') \<and>
    tx_Version tx = tx_Version tx' \<and> tx_TxOut tx = tx_TxOut tx' \<and>
    tx_LockTime tx = tx_LockTime tx' \<and> ht = ht' \<and>
    map PreviousOutPoint (tx_TxIn tx) = map PreviousOutPoint (tx_TxIn tx') \<and>
    map Sequence (tx_TxIn tx) = map Sequence (tx_TxIn tx')"
proof -
  note inj = sighash_preimage_inj [OF assms(1-4,9)]
  then have ins: "signing_inputs 0 idx pk (tx_TxIn tx) = signing_inputs 0 idx' pk' (tx_TxIn tx')"
    and eqs: "tx_Version tx = tx_Version tx'" "tx_TxOut tx = tx_TxOut tx'"
      "tx_LockTime tx = tx_LockTime tx'" "ht = ht'"
    by (auto simp: signing_tx_def dest: arg_cong [where f = tx_TxIn] arg_cong [where f = tx_Version]
        arg_cong [where f = tx_TxOut] arg_cong [where f = tx_LockTime])
  then have "map PreviousOutPoint (signing_inputs 0 idx pk (tx_TxIn tx)) =
      map PreviousOutPoint (signing_inputs 0 idx' pk' (tx_TxIn tx'))"
    "map Sequence (signing_inputs 0 idx pk (tx_TxIn tx)) =
      map Sequence (signing_inputs 0 idx' pk' (tx_TxIn tx'))" by simp_all
  moreover have "SignatureHash tx idx pk ht = Inr (DoubleHashB (sighash_preimage tx idx pk ht))"
    using assms(5,6) by (simp add: SignatureHash_def)
  ultimately show ?thesis
    using eqs signing_inputs_inj [OF ins assms(5-8)]
    by (simp add: SignatureHash_with_sig_script signing_inputs_fields)
qed

theorem signature_hash_commitment_witness:
  "SignatureHash (with_sig_script (spend_tx [1]) 0 [2, 3]) 0 [OP_1] 1 =
     SignatureHash (spend_tx [1]) 0 [OP_1] 1 \<and>
   sighash_preimage (spend_tx [1]) 0 [1] 1 \<noteq> sighash_preimage (spend_tx [7]) 0 [2] 1"
proof -
  have one: "0 < int (length (tx_TxIn (spend_tx s)))" for s by (simp add: spend_tx_def)
  have ok: "MsgTx_ok (spend_tx [b])" for b by (rule spend_tx_ok) simp
  have "SignatureHash (with_sig_script (spend_tx [1]) 0 [2, 3]) 0 [OP_1] 1 = SignatureHash (spend_tx [1]) 0 [OP_1] 1"
    using signature_hash_commitment [of "spend_tx [1]" "spend_tx [1]" "[OP_1]" "[OP_1]" 0 0 1 1 0 "[2, 3]"] ok one
    by (simp add: MaxScriptSize_def)
  moreover have "sighash_preimage (spend_tx [1]) 0 [1] 1 \<noteq> sighash_preimage (spend_tx [7]) 0 [2] 1"
    using signature_hash_commitment [of "spend_tx [1]" "spend_tx [7]" "[1]" "[2]" 0 0 1 1] ok one
    by (auto simp: MaxScriptSize_def)
  ultimately show ?thesis by blast
qed

text \<open>
  The one-pass signature matching of multi-signature outputs is exact: it succeeds if and
  only if the signatures can be assigned to distinct keys in the script's key order.
\<close>

theorem multisig_matching:
  "match_sigs C h sigs keys = Inr () \<longleftrightarrow>
     list_emb (\<lambda>der k. \<exists>sig pub. cr_ParseDERSignature C der = Some sig \<and>
       cr_ParsePubKey C k = Some pub \<and> cr_ECDSAVerify C sig h pub) sigs keys"
proof -
  have "(\<lambda>der k. \<exists>sig pub. cr_ParseDERSignature C der = Some sig \<and>
      cr_ParsePubKey C k = Some pub \<and> cr_ECDSAVerify C sig h pub) = sig_for_key C h"
    by (auto simp: fun_eq_iff sig_for_key_def split: option.splits)
  then show ?thesis by (simp only: match_sigs_iff)
qed

end
