(* ===== verification/ChainTypes.thy ===== *)
theory ChainTypes
  imports WireTx ChainCfg Consensus Amount "HOL-Library.Finite_Map" "HOL-Library.List_Lexorder"
    "HOL-Library.Char_ord"
begin

text \<open>
  The data that the chain and its store exchange (the types at the top of
  \<^verbatim>\<open>internal/blockchain/blockchain.go\<close>), outpoint keys, the coinbase test, finality
  and the textual chain work. Go maps are finite maps.
\<close>

section \<open>Records\<close>

record BlockIndex =
  ix_Height :: i32
  ix_Hash :: string
  ix_Time :: u32
  ix_Bits :: u32
  ix_Nonce :: u32
  ix_Parent :: string
  ix_ChainWork :: string

record UTXOEntry =
  ut_Key :: string
  ut_TxID :: string
  ut_Vout :: u32
  ut_Value :: i64
  ut_PkScript :: string
  ut_Height :: i32
  ut_Coinbase :: bool

record UndoData =
  un_AddedKeys :: "string list"
  un_Spent :: "UTXOEntry list"

record UTXOStats =
  st_Count :: int
  st_Total :: i64

record TxIndexRecord =
  tr_TxID :: string
  tr_BlockHash :: string
  tr_BlockHeight :: i32
  tr_TxPosition :: nat

record AddressUTXO =
  au_Address :: string
  au_TxID :: string
  au_Vout :: u32
  au_Value :: i64
  au_Height :: i32
  au_Coinbase :: bool
  au_PkScriptHex :: string

record AddressHistory = AddressUTXO +
  ah_Spent :: bool
  ah_SpendTxID :: string
  ah_SpendHeight :: i32

section \<open>Outpoint keys\<close>

definition OutPointKey :: "string \<Rightarrow> u32 \<Rightarrow> string" where
  "OutPointKey txid vout = txid @ CHR '':'' # dec_string (unat vout)"

lemma dec_string_no_colon: "CHR '':'' \<notin> set (dec_string n)"
  using dec_string_digits [of "CHR '':''" n] by (auto simp: is_digit_def)

lemma append_colon_inj:
  assumes "a @ c # x = b @ c # y" "c \<notin> set a" "c \<notin> set b"
  shows "a = b \<and> x = y"
  using assms
proof (induction a arbitrary: b)
  case Nil
  then show ?case by (cases b) auto
next
  case (Cons d a)
  then show ?case by (cases b) auto
qed

text \<open>Transaction ids hold no colon, so a key determines its outpoint.\<close>

lemma OutPointKey_inj:
  assumes "OutPointKey a i = OutPointKey b j" "CHR '':'' \<notin> set a" "CHR '':'' \<notin> set b"
  shows "a = b \<and> i = j"
proof -
  from append_colon_inj [OF assms(1) [unfolded OutPointKey_def] assms(2,3)]
  have "a = b" "dec_string (unat i) = dec_string (unat j)" by auto
  then show ?thesis by (metis dec_value_dec_string word_unat_eq_iff)
qed

definition op_key :: "OutPoint \<Rightarrow> string" where
  "op_key p = OutPointKey (hash_String (op_Hash p)) (op_Index p)"

lemma op_key_inj: "op_key p = op_key q \<longleftrightarrow> p = q"
  using OutPointKey_inj [of "hash_String (op_Hash p)" "op_Index p" "hash_String (op_Hash q)" "op_Index q"]
  by (auto simp: op_key_def hash_String_no_colon)

text \<open>The entries a transaction's outputs become.\<close>

definition createdOutputs :: "i32 \<Rightarrow> bool \<Rightarrow> MsgTx \<Rightarrow> UTXOEntry list" where
  "createdOutputs height coinbase tx =
     map (\<lambda>(vout, out). \<lparr>ut_Key = OutPointKey (hash_String (TxHash tx)) (of_nat vout),
            ut_TxID = hash_String (TxHash tx), ut_Vout = of_nat vout, ut_Value = out_Value out,
            ut_PkScript = hex_encode (out_PkScript out), ut_Height = height,
            ut_Coinbase = coinbase\<rparr>)
       (zip [0..<length (tx_TxOut tx)] (tx_TxOut tx))"

section \<open>Transactions in a block\<close>

definition isCoinbase :: "MsgTx \<Rightarrow> bool" where
  "isCoinbase tx \<longleftrightarrow>
     length (tx_TxIn tx) = 1 \<and> hash_IsZero (op_Hash (PreviousOutPoint (tx_TxIn tx ! 0))) \<and>
     op_Index (PreviousOutPoint (tx_TxIn tx ! 0)) = 0xffffffff"

definition lockTimeThreshold :: u32 where "lockTimeThreshold = 500000000"

definition IsFinalizedTx :: "MsgTx \<Rightarrow> i32 \<Rightarrow> u32 \<Rightarrow> bool" where
  "IsFinalizedTx tx height blockTime =
     (if tx_LockTime tx = 0 then True
      else
        let threshold = (if height <s 0 then 0 else height);
            threshold = (if tx_LockTime tx \<ge> lockTimeThreshold then blockTime else threshold)
        in if tx_LockTime tx < threshold then True
           else list_all (\<lambda>inp. Sequence inp = 0xffffffff) (tx_TxIn tx))"

section \<open>Chain work as text\<close>

text \<open>
  \<open>Text(10)\<close> of a non-negative number, and \<open>parseChainwork\<close>: the base-10 case accepts an
  optional sign and digits, the prefixed case hexadecimal digits with single underscores
  between them, as \<open>big.Int.SetString\<close> does.
\<close>

definition work_Text :: "int \<Rightarrow> string" where
  "work_Text n = (if n < 0 then CHR ''-'' # dec_string (nat (- n)) else dec_string (nat n))"

definition hex_val :: "char \<Rightarrow> nat option" where
  "hex_val c =
     (if is_digit c then Some (digit_val c)
      else if 97 \<le> (of_char c :: nat) \<and> (of_char c :: nat) \<le> 102 then Some (of_char c - 87)
      else if 65 \<le> (of_char c :: nat) \<and> (of_char c :: nat) \<le> 70 then Some (of_char c - 55)
      else None)"

text \<open>The flag says that an underscore may come next.\<close>

fun hex_big :: "nat \<Rightarrow> bool \<Rightarrow> string \<Rightarrow> nat option" where
  "hex_big n sep [] = (if sep then Some n else None)"
| "hex_big n sep (c # cs) =
     (if c = CHR ''_'' then (if sep \<and> cs \<noteq> [] \<and> hd cs \<noteq> CHR ''_'' then hex_big n False cs else None)
      else (case hex_val c of None \<Rightarrow> None | Some d \<Rightarrow> hex_big (16 * n + d) True cs))"

definition hex_SetString :: "string \<Rightarrow> nat option" where
  "hex_SetString s = (if s = [] then None else if hd s = CHR ''_'' then hex_big 0 True s else hex_big 0 False s)"

definition dec_SetString :: "string \<Rightarrow> int option" where
  "dec_SetString s =
     (let neg = (s \<noteq> [] \<and> hd s = CHR ''-'');
          ds = (if s \<noteq> [] \<and> (hd s = CHR ''-'' \<or> hd s = CHR ''+'') then tl s else s)
      in if ds = [] \<or> \<not> list_all is_digit ds then None
         else Some (if neg then - int (dec_value ds) else int (dec_value ds)))"

definition parseChainwork :: "string \<Rightarrow> int option" where
  "parseChainwork v =
     (let v = TrimSpace v in
      if v = [] then None
      else
        (case (if HasPrefix v ''0x'' \<or> HasPrefix v ''0X''
               then map_option int (hex_SetString (drop 2 v)) else dec_SetString v) of
           None \<Rightarrow> None
         | Some out \<Rightarrow> if out < 0 then None else Some out))"

lemma parseChainwork_Text [simp]:
  assumes "0 \<le> n"
  shows "parseChainwork (work_Text n) = Some n"
proof -
  let ?s = "dec_string (nat n)"
  have d: "list_all is_digit ?s" by (auto simp: list_all_iff dest: dec_string_digits)
  then have hd: "is_digit (hd ?s)" and la: "is_digit (last ?s)"
    by (auto simp: list_all_iff)
  have "\<not> is_space (hd ?s)" "\<not> is_space (last ?s)"
    using hd la by (auto simp: is_space_def is_digit_def)
  then have t: "TrimSpace ?s = ?s" by (simp add: TrimSpace_id)
  have "hd ?s \<noteq> CHR ''-''" "hd ?s \<noteq> CHR ''+''"
    using hd by (auto simp: is_digit_def)
  then have "dec_SetString ?s = Some n" using d assms by (simp add: dec_SetString_def)
  moreover have "\<not> HasPrefix ?s ''0x''" "\<not> HasPrefix ?s ''0X''"
  proof -
    have "CHR ''x'' \<notin> set ?s" "CHR ''X'' \<notin> set ?s" using d by (auto simp: list_all_iff is_digit_def)
    then show "\<not> HasPrefix ?s ''0x''" "\<not> HasPrefix ?s ''0X''"
      using in_set_takeD [of "CHR ''x''" 2 ?s] in_set_takeD [of "CHR ''X''" 2 ?s]
      by (auto simp: HasPrefix_def numeral_2_eq_2)
  qed
  ultimately show ?thesis using t assms by (simp add: parseChainwork_def work_Text_def)
qed

section \<open>Submaps\<close>

lemma fmsubset_iff: "m \<subseteq>\<^sub>f n \<longleftrightarrow> (\<forall>k e. fmlookup m k = Some e \<longrightarrow> fmlookup n k = Some e)"
  by (simp add: fmsubset_alt_def fmpred_iff)

lemma fmsubset_dom: "m \<subseteq>\<^sub>f n \<Longrightarrow> k |\<in>| fmdom m \<Longrightarrow> k |\<in>| fmdom n"
  unfolding fmsubset_iff by (metis fmlookup_dom_iff)

lemma fmsubset_refl [simp]: "m \<subseteq>\<^sub>f m"
  by (simp add: fmsubset_iff)

lemma fmsubset_trans: "m \<subseteq>\<^sub>f n \<Longrightarrow> n \<subseteq>\<^sub>f k \<Longrightarrow> m \<subseteq>\<^sub>f k"
  by (simp add: fmsubset_iff)

lemma fcard_drop: "hash |\<in>| fmdom m \<Longrightarrow> fcard (fmdom (fmdrop hash m)) + 1 = fcard (fmdom m)"
  using card_Suc_Diff1 [of "fset (fmdom m)" hash] by (simp add: fcard.rep_eq)

lemma fcard_drop_le: "fcard (fmdom (fmdrop k m)) \<le> fcard (fmdom m)"
  unfolding fcard.rep_eq by (rule card_mono) auto

end
