(* ===== verification/Storage.thy ===== *)
theory Storage
  imports ChainTypes ScriptTemplates "HOL-Library.Product_Lexorder"
begin

text \<open>
  The file store (\<^verbatim>\<open>internal/storage/filestore.go\<close>). Every file is one JSON value or one
  encoded block that is replaced atomically, so a directory is a finite map from file names
  to decoded contents and a store is one record of directories. A change of one file is a
  step; an operation that changes files is the list of its steps in the order of the code, and
  an interrupted operation has executed a prefix of them.
\<close>

section \<open>Contents\<close>

datatype store_error =
    ErrNotExist | ErrBadBlockFile wire_error | ErrNilPrevTip | ErrInvalidJournal | ErrUnknownJournal
  | ErrDiverges

datatype journalOp = journalConnect | journalDisconnect | journalOther

record storeJournal =
  jr_Op :: journalOp
  jr_Index :: BlockIndex
  jr_PrevTip :: "BlockIndex option"
  jr_Adds :: "UTXOEntry list"
  jr_Spends :: "string list"
  jr_SpentEntries :: "UTXOEntry list"
  jr_Undo :: "UndoData option"

record FileStore =
  fs_txIndexEnabled :: bool
  fs_addressIndexEnabled :: bool
  fs_tip :: "BlockIndex option"
  fs_journal :: "storeJournal option"
  fs_blocks :: "(string, bytes) fmap"
  fs_hashIndex :: "(string, BlockIndex) fmap"
  fs_heightIndex :: "(i32, BlockIndex) fmap"
  fs_utxo :: "(string, UTXOEntry) fmap"
  fs_undo :: "(string, UndoData) fmap"
  fs_txIndex :: "(string, TxIndexRecord) fmap"
  fs_addrTxIDs :: "(string, string list) fmap"
  fs_addrUTXO :: "(string \<times> string, AddressUTXO) fmap"
  fs_addrHistory :: "(string \<times> string, AddressHistory) fmap"

definition NewFileStore :: FileStore where
  "NewFileStore =
     \<lparr>fs_txIndexEnabled = False, fs_addressIndexEnabled = False, fs_tip = None, fs_journal = None,
      fs_blocks = fmempty, fs_hashIndex = fmempty, fs_heightIndex = fmempty, fs_utxo = fmempty,
      fs_undo = fmempty, fs_txIndex = fmempty, fs_addrTxIDs = fmempty, fs_addrUTXO = fmempty,
      fs_addrHistory = fmempty\<rparr>"

definition SetIndexOptions :: "bool \<Rightarrow> bool \<Rightarrow> FileStore \<Rightarrow> FileStore" where
  "SetIndexOptions txIndex addressIndex s =
     s\<lparr>fs_txIndexEnabled := txIndex, fs_addressIndexEnabled := addressIndex\<rparr>"

section \<open>File names\<close>

definition ReplaceChar :: "char \<Rightarrow> char \<Rightarrow> string \<Rightarrow> string" where
  "ReplaceChar a b s = map (\<lambda>c. if c = a then b else c) s"

definition ToLower :: "string \<Rightarrow> string" where
  "ToLower s = map (\<lambda>c. if 65 \<le> (of_char c :: nat) \<and> (of_char c :: nat) \<le> 90
                        then char_of ((of_char c :: nat) + 32) else c) s"

definition utxoFile :: "string \<Rightarrow> string" where
  "utxoFile key = ReplaceChar (CHR '':'') (CHR ''_'') key"

definition txIndexFile :: "string \<Rightarrow> string" where
  "txIndexFile txid = ToLower (TrimSpace txid)"

definition addressKey :: "string \<Rightarrow> string" where
  "addressKey address =
     map (\<lambda>c. if c = CHR '':'' \<or> c = CHR ''/'' \<or> c = CHR 0x5C \<or> c = CHR '' '' then CHR ''_'' else c)
       (ToLower (TrimSpace address))"

definition addressOutFile :: "string \<Rightarrow> string \<Rightarrow> string \<times> string" where
  "addressOutFile address key =
     (addressKey address, ReplaceChar (CHR '':'') (CHR ''_'') (ToLower (TrimSpace key)))"

section \<open>Steps\<close>

type_synonym step = "FileStore \<Rightarrow> FileStore"

definition SaveTip :: "BlockIndex \<Rightarrow> step" where
  "SaveTip tip s = s\<lparr>fs_tip := Some tip\<rparr>"

definition writeJournal :: "storeJournal \<Rightarrow> step" where
  "writeJournal j s = s\<lparr>fs_journal := Some j\<rparr>"

definition clearJournal :: step where
  "clearJournal s = s\<lparr>fs_journal := None\<rparr>"

definition writeBlockFile :: "string \<Rightarrow> bytes \<Rightarrow> step" where
  "writeBlockFile hash b s = s\<lparr>fs_blocks := fmupd hash b (fs_blocks s)\<rparr>"

definition writeHashIndex :: "string \<Rightarrow> BlockIndex \<Rightarrow> step" where
  "writeHashIndex hash idx s = s\<lparr>fs_hashIndex := fmupd hash idx (fs_hashIndex s)\<rparr>"

definition writeHeightIndex :: "i32 \<Rightarrow> BlockIndex \<Rightarrow> step" where
  "writeHeightIndex height idx s = s\<lparr>fs_heightIndex := fmupd height idx (fs_heightIndex s)\<rparr>"

definition writeUndo :: "string \<Rightarrow> UndoData \<Rightarrow> step" where
  "writeUndo hash undo s = s\<lparr>fs_undo := fmupd hash undo (fs_undo s)\<rparr>"

definition writeUTXO :: "UTXOEntry \<Rightarrow> step" where
  "writeUTXO entry s = s\<lparr>fs_utxo := fmupd (utxoFile (ut_Key entry)) entry (fs_utxo s)\<rparr>"

definition removeUTXO :: "string \<Rightarrow> step" where
  "removeUTXO key s = s\<lparr>fs_utxo := fmdrop (utxoFile key) (fs_utxo s)\<rparr>"

definition removeBlockFile :: "string \<Rightarrow> step" where
  "removeBlockFile hash s = s\<lparr>fs_blocks := fmdrop hash (fs_blocks s)\<rparr>"

definition removeHashIndex :: "string \<Rightarrow> step" where
  "removeHashIndex hash s = s\<lparr>fs_hashIndex := fmdrop hash (fs_hashIndex s)\<rparr>"

definition removeHeightIndex :: "i32 \<Rightarrow> step" where
  "removeHeightIndex height s = s\<lparr>fs_heightIndex := fmdrop height (fs_heightIndex s)\<rparr>"

definition removeUndo :: "string \<Rightarrow> step" where
  "removeUndo hash s = s\<lparr>fs_undo := fmdrop hash (fs_undo s)\<rparr>"

definition exec :: "step list \<Rightarrow> FileStore \<Rightarrow> FileStore" where
  "exec steps s = fold (\<lambda>f. f) steps s"

lemmas step_defs = SaveTip_def writeJournal_def clearJournal_def writeBlockFile_def
  writeHashIndex_def writeHeightIndex_def writeUndo_def writeUTXO_def removeUTXO_def
  removeBlockFile_def removeHashIndex_def removeHeightIndex_def removeUndo_def

section \<open>The transaction index\<close>

fun indexBlockTransactions_from :: "nat \<Rightarrow> BlockIndex \<Rightarrow> MsgTx list \<Rightarrow> step list" where
  "indexBlockTransactions_from txPos idx [] = []"
| "indexBlockTransactions_from txPos idx (tx # txs) =
     (let txid = hash_String (TxHash tx);
          rec = \<lparr>tr_TxID = txid, tr_BlockHash = ix_Hash idx, tr_BlockHeight = ix_Height idx,
                 tr_TxPosition = txPos\<rparr>
      in (\<lambda>s. s\<lparr>fs_txIndex := fmupd (txIndexFile txid) rec (fs_txIndex s)\<rparr>) #
         indexBlockTransactions_from (txPos + 1) idx txs)"

definition indexBlockTransactions :: "MsgBlock \<Rightarrow> BlockIndex \<Rightarrow> step list" where
  "indexBlockTransactions block idx = indexBlockTransactions_from 0 idx (bk_Transactions block)"

definition LookupTxIndex :: "string \<Rightarrow> FileStore \<Rightarrow> store_error + TxIndexRecord" where
  "LookupTxIndex txid s =
     (if \<not> fs_txIndexEnabled s then Inl ErrNotExist
      else (case fmlookup (fs_txIndex s) (txIndexFile txid) of None \<Rightarrow> Inl ErrNotExist
        | Some rec \<Rightarrow> Inr rec))"

section \<open>The address index\<close>

definition PublicKeyHashVersion :: byte where "PublicKeyHashVersion = 48"

definition decodeOutputAddressFromScript :: "bytes \<Rightarrow> string" where
  "decodeOutputAddressFromScript pkScript =
     (if IsPayToPubKeyHash pkScript \<and> length pkScript \<ge> 23
      then EncodeBase58Check PublicKeyHashVersion (take 20 (drop 3 pkScript))
      else if IsPayToHybridPubKeyHash pkScript \<and> length pkScript \<ge> 23
      then HybridPrefix @ EncodeBase58Check HybridVersion (take 20 (drop 3 pkScript))
      else [])"

definition readAddressTxIDs :: "string \<Rightarrow> FileStore \<Rightarrow> string list" where
  "readAddressTxIDs address s =
     (case fmlookup (fs_addrTxIDs s) (addressKey address) of None \<Rightarrow> [] | Some l \<Rightarrow> l)"

definition writeAddressTxIDs :: "string \<Rightarrow> string list \<Rightarrow> step" where
  "writeAddressTxIDs address txids s =
     (let out = sort (remdups (filter (\<lambda>t. t \<noteq> []) (map (\<lambda>t. ToLower (TrimSpace t)) txids)))
      in s\<lparr>fs_addrTxIDs := fmupd (addressKey address) out (fs_addrTxIDs s)\<rparr>)"

definition addAddressTxID :: "string \<Rightarrow> string \<Rightarrow> step" where
  "addAddressTxID address txid s = writeAddressTxIDs address (readAddressTxIDs address s @ [txid]) s"

definition writeAddressUTXO :: "AddressUTXO \<Rightarrow> step" where
  "writeAddressUTXO rec s =
     s\<lparr>fs_addrUTXO := fmupd (addressOutFile (au_Address rec) (OutPointKey (au_TxID rec) (au_Vout rec)))
                           rec (fs_addrUTXO s)\<rparr>"

definition removeAddressUTXO :: "string \<Rightarrow> string \<Rightarrow> u32 \<Rightarrow> step" where
  "removeAddressUTXO address txid vout s =
     s\<lparr>fs_addrUTXO := fmdrop (addressOutFile address (OutPointKey txid vout)) (fs_addrUTXO s)\<rparr>"

definition writeAddressHistory :: "AddressHistory \<Rightarrow> step" where
  "writeAddressHistory rec s =
     s\<lparr>fs_addrHistory := fmupd (addressOutFile (au_Address rec) (OutPointKey (au_TxID rec) (au_Vout rec)))
                              rec (fs_addrHistory s)\<rparr>"

definition markAddressOutputSpent :: "string \<Rightarrow> string \<Rightarrow> u32 \<Rightarrow> string \<Rightarrow> i32 \<Rightarrow> step" where
  "markAddressOutputSpent address txid vout spendTxID spendHeight s =
     (case fmlookup (fs_addrHistory s) (addressOutFile address (OutPointKey txid vout)) of
        None \<Rightarrow> s
      | Some rec \<Rightarrow>
        writeAddressHistory (rec\<lparr>ah_Spent := True, ah_SpendTxID := ToLower (TrimSpace spendTxID),
                                 ah_SpendHeight := spendHeight\<rparr>) s)"

definition ix_isCoinbase :: "MsgTx \<Rightarrow> bool" where
  "ix_isCoinbase tx \<longleftrightarrow>
     (case tx_TxIn tx of [] \<Rightarrow> False
      | inp # _ \<Rightarrow> op_Hash (PreviousOutPoint inp) = zero_hash \<and>
                  op_Index (PreviousOutPoint inp) = 0xffffffff)"

text \<open>\<open>spentByOutpoint\<close>: the spending transaction of each outpoint, later inputs first.\<close>

definition spentByOutpoint :: "MsgBlock \<Rightarrow> string \<Rightarrow> string" where
  "spentByOutpoint block key =
     (case map_of (rev (concat (map (\<lambda>tx. if ix_isCoinbase tx then []
             else map (\<lambda>inp. (op_key (PreviousOutPoint inp), hash_String (TxHash tx))) (tx_TxIn tx))
           (bk_Transactions block)))) key of
        None \<Rightarrow> [] | Some txid \<Rightarrow> txid)"

definition entryAddress :: "UTXOEntry \<Rightarrow> string" where
  "entryAddress e =
     (case hex_decode (ut_PkScript e) of None \<Rightarrow> [] | Some raw \<Rightarrow> decodeOutputAddressFromScript raw)"

definition index_spent :: "MsgBlock \<Rightarrow> BlockIndex \<Rightarrow> UTXOEntry \<Rightarrow> step list" where
  "index_spent block idx sp =
     (let addr = entryAddress sp in
      if addr = [] then []
      else
        let spendTxID = spentByOutpoint block (OutPointKey (ut_TxID sp) (ut_Vout sp)) in
        removeAddressUTXO addr (ut_TxID sp) (ut_Vout sp) #
        (if spendTxID \<noteq> [] then [addAddressTxID addr spendTxID] else []) @
        [markAddressOutputSpent addr (ut_TxID sp) (ut_Vout sp) spendTxID (ix_Height idx)])"

definition addressRecord :: "string \<Rightarrow> UTXOEntry \<Rightarrow> AddressUTXO" where
  "addressRecord addr add =
     \<lparr>au_Address = addr, au_TxID = ut_TxID add, au_Vout = ut_Vout add, au_Value = ut_Value add,
      au_Height = ut_Height add, au_Coinbase = ut_Coinbase add, au_PkScriptHex = ut_PkScript add\<rparr>"

definition index_added :: "UTXOEntry \<Rightarrow> step list" where
  "index_added add =
     (let addr = entryAddress add in
      if addr = [] then []
      else
        [addAddressTxID addr (ut_TxID add),
         writeAddressUTXO (addressRecord addr add),
         writeAddressHistory (AddressUTXO.extend (addressRecord addr add)
           (AddressHistory.fields False [] 0))])"

definition index_output :: "MsgTx \<Rightarrow> TxOut \<Rightarrow> step list" where
  "index_output tx out =
     (let addr = decodeOutputAddressFromScript (out_PkScript out) in
      if addr = [] then [] else [addAddressTxID addr (hash_String (TxHash tx))])"

definition indexAddressConnect ::
    "MsgBlock \<Rightarrow> BlockIndex \<Rightarrow> UTXOEntry list \<Rightarrow> UTXOEntry list \<Rightarrow> step list" where
  "indexAddressConnect block idx adds spent =
     concat (map (index_spent block idx) spent) @ concat (map index_added adds) @
     concat (map (\<lambda>tx. concat (map (index_output tx) (tx_TxOut tx))) (bk_Transactions block))"

definition AddressTxIDs :: "string \<Rightarrow> FileStore \<Rightarrow> store_error + string list" where
  "AddressTxIDs address s =
     (if \<not> fs_addressIndexEnabled s then Inl ErrNotExist else Inr (readAddressTxIDs address s))"

definition dirList :: "string \<Rightarrow> (string \<times> string, 'a) fmap \<Rightarrow> 'a list" where
  "dirList dir m =
     map (\<lambda>k. the (fmlookup m k)) (filter (\<lambda>k. fst k = dir) (sorted_list_of_fset (fmdom m)))"

definition AddressUTXOs :: "string \<Rightarrow> FileStore \<Rightarrow> store_error + AddressUTXO list" where
  "AddressUTXOs address s =
     (if \<not> fs_addressIndexEnabled s then Inl ErrNotExist
      else Inr (sort_key (\<lambda>u. (sint (au_Height u), au_TxID u, au_Vout u))
                  (dirList (addressKey address) (fs_addrUTXO s))))"

definition AddressBalance :: "string \<Rightarrow> FileStore \<Rightarrow> store_error + i64 \<times> i64" where
  "AddressBalance address s =
     (case AddressUTXOs address s of Inl e \<Rightarrow> Inl e
      | Inr utxos \<Rightarrow> let total = sum_list (map au_Value utxos) in Inr (total, total))"

definition AddressHistoryOf :: "string \<Rightarrow> FileStore \<Rightarrow> store_error + AddressHistory list" where
  "AddressHistoryOf address s =
     (if \<not> fs_addressIndexEnabled s then Inl ErrNotExist
      else Inr (sort_key (\<lambda>u. (sint (au_Height u), au_TxID u, au_Vout u))
                  (dirList (addressKey address) (fs_addrHistory s))))"

section \<open>Reading\<close>

definition LoadBlock :: "string \<Rightarrow> FileStore \<Rightarrow> store_error + MsgBlock \<times> BlockIndex" where
  "LoadBlock hash s =
     (case fmlookup (fs_hashIndex s) hash of None \<Rightarrow> Inl ErrNotExist
      | Some idx \<Rightarrow>
        (case fmlookup (fs_blocks s) hash of None \<Rightarrow> Inl ErrNotExist
         | Some blockBytes \<Rightarrow>
           (case ReadBlock blockBytes of Inl e \<Rightarrow> Inl (ErrBadBlockFile e)
            | Inr (block, _) \<Rightarrow> Inr (block, idx))))"

definition LoadUTXO :: "string \<Rightarrow> FileStore \<Rightarrow> store_error + UTXOEntry" where
  "LoadUTXO key s =
     (case fmlookup (fs_utxo s) (utxoFile key) of None \<Rightarrow> Inl ErrNotExist | Some e \<Rightarrow> Inr e)"

definition LoadUndo :: "string \<Rightarrow> FileStore \<Rightarrow> store_error + UndoData" where
  "LoadUndo hash s =
     (case fmlookup (fs_undo s) hash of None \<Rightarrow> Inl ErrNotExist | Some u \<Rightarrow> Inr u)"

definition ListUTXO :: "FileStore \<Rightarrow> UTXOEntry list" where
  "ListUTXO s = map (\<lambda>k. the (fmlookup (fs_utxo s) k)) (sorted_list_of_fset (fmdom (fs_utxo s)))"

definition UTXOStats_of :: "FileStore \<Rightarrow> UTXOStats" where
  "UTXOStats_of s =
     \<lparr>st_Count = int (length (ListUTXO s)), st_Total = sum_list (map ut_Value (ListUTXO s))\<rparr>"

text \<open>
  The walk back from the tip that recreates height index files. Block files and hash indexes
  do not change on the way, so a walk that visits more blocks than there are hash index
  files repeats one and never ends: running out of fuel is the value \<open>ErrDiverges\<close>.
\<close>

fun repair_walk :: "nat \<Rightarrow> i32 \<Rightarrow> string \<Rightarrow> FileStore \<Rightarrow> (store_error + BlockIndex) \<times> FileStore" where
  "repair_walk 0 height curHash s = (Inl ErrDiverges, s)"
| "repair_walk (Suc n) height curHash s =
     (case LoadBlock curHash s of Inl e \<Rightarrow> (Inl e, s)
      | Inr (block, idx) \<Rightarrow>
        let s = writeHeightIndex (ix_Height idx) idx s in
        if ix_Height idx = height then (Inr idx, s)
        else if ix_Height idx = 0 then (Inl ErrNotExist, s)
        else repair_walk n height (hash_String (hd_PrevBlock (bk_Header block))) s)"

definition repairHeightIndexFromTip :: "i32 \<Rightarrow> FileStore \<Rightarrow> (store_error + BlockIndex) \<times> FileStore" where
  "repairHeightIndexFromTip height s =
     (if height <s 0 then (Inl ErrNotExist, s)
      else (case fs_tip s of None \<Rightarrow> (Inl ErrNotExist, s)
        | Some tip \<Rightarrow>
          if ix_Height tip <s height \<or> ix_Hash tip = [] then (Inl ErrNotExist, s)
          else repair_walk (fcard (fmdom (fs_hashIndex s)) + 1)
                 height (ix_Hash tip) s))"

definition LoadIndexByHeight :: "i32 \<Rightarrow> FileStore \<Rightarrow> (store_error + BlockIndex) \<times> FileStore" where
  "LoadIndexByHeight height s =
     (case fmlookup (fs_heightIndex s) height of
        Some idx \<Rightarrow> (Inr idx, s)
      | None \<Rightarrow> repairHeightIndexFromTip height s)"

section \<open>Connecting and disconnecting\<close>

definition undoOf :: "UTXOEntry list \<Rightarrow> UTXOEntry list \<Rightarrow> UndoData" where
  "undoOf adds spentEntries = \<lparr>un_AddedKeys = map ut_Key adds, un_Spent = spentEntries\<rparr>"

definition connectJournal ::
    "BlockIndex \<Rightarrow> UTXOEntry list \<Rightarrow> string list \<Rightarrow> UTXOEntry list \<Rightarrow> storeJournal" where
  "connectJournal idx adds spends spentEntries =
     \<lparr>jr_Op = journalConnect, jr_Index = idx, jr_PrevTip = None, jr_Adds = adds,
      jr_Spends = spends, jr_SpentEntries = spentEntries, jr_Undo = None\<rparr>"

text \<open>The steps between writing and clearing the journal, up to the tip.\<close>

definition SaveBlock_body ::
    "bool \<Rightarrow> bool \<Rightarrow> MsgBlock \<Rightarrow> BlockIndex \<Rightarrow> UTXOEntry list \<Rightarrow> string list \<Rightarrow> UTXOEntry list \<Rightarrow> step list" where
  "SaveBlock_body txIndex addressIndex block idx adds spends spentEntries =
     [writeBlockFile (ix_Hash idx) (block_Serialize block),
      writeHashIndex (ix_Hash idx) idx,
      writeHeightIndex (ix_Height idx) idx] @
     map removeUTXO spends @ map writeUTXO adds @
     [writeUndo (ix_Hash idx) (undoOf adds spentEntries)] @
     (if txIndex then indexBlockTransactions block idx else []) @
     (if addressIndex then indexAddressConnect block idx adds spentEntries else [])"

definition SaveBlock_steps ::
    "bool \<Rightarrow> bool \<Rightarrow> MsgBlock \<Rightarrow> BlockIndex \<Rightarrow> UTXOEntry list \<Rightarrow> string list \<Rightarrow> UTXOEntry list \<Rightarrow> step list" where
  "SaveBlock_steps txIndex addressIndex block idx adds spends spentEntries =
     [writeJournal (connectJournal idx adds spends spentEntries)] @
     SaveBlock_body txIndex addressIndex block idx adds spends spentEntries @
     [SaveTip idx, clearJournal]"

definition SaveBlock ::
    "MsgBlock \<Rightarrow> BlockIndex \<Rightarrow> UTXOEntry list \<Rightarrow> string list \<Rightarrow> UTXOEntry list \<Rightarrow> FileStore \<Rightarrow> FileStore" where
  "SaveBlock block idx adds spends spentEntries s =
     exec (SaveBlock_steps (fs_txIndexEnabled s) (fs_addressIndexEnabled s)
             block idx adds spends spentEntries) s"

text \<open>Rebuilding the optional indexes, one height at a time.\<close>

definition rebuiltAdds :: "BlockIndex \<Rightarrow> MsgTx \<Rightarrow> UTXOEntry list" where
  "rebuiltAdds idx tx = createdOutputs (ix_Height idx) (ix_isCoinbase tx) tx"

definition rebuildOptional_steps :: "MsgBlock \<Rightarrow> BlockIndex \<Rightarrow> FileStore \<Rightarrow> step list" where
  "rebuildOptional_steps block idx s =
     (if fs_txIndexEnabled s then indexBlockTransactions block idx else []) @
     (if fs_addressIndexEnabled s then
        indexAddressConnect block idx (concat (map (rebuiltAdds idx) (bk_Transactions block)))
          (case LoadUndo (ix_Hash idx) s of Inl _ \<Rightarrow> [] | Inr undo \<Rightarrow> un_Spent undo)
      else [])"

text \<open>
  The loop over the heights \<open>0..tip\<close>, for a body that gets the block and its index and may
  change the store.
\<close>

fun forHeights ::
    "(MsgBlock \<Rightarrow> BlockIndex \<Rightarrow> FileStore \<Rightarrow> FileStore) \<Rightarrow> i32 list \<Rightarrow> FileStore \<Rightarrow>
     (store_error + unit) \<times> FileStore" where
  "forHeights body [] s = (Inr (), s)"
| "forHeights body (h # hs) s =
     (case LoadIndexByHeight h s of (Inl e, s) \<Rightarrow> (Inl e, s)
      | (Inr idx, s) \<Rightarrow>
        (case LoadBlock (ix_Hash idx) s of Inl e \<Rightarrow> (Inl e, s)
         | Inr (block, _) \<Rightarrow> forHeights body hs (body block idx s)))"

definition heightsTo :: "i32 \<Rightarrow> i32 list" where
  "heightsTo height = map of_nat [0..<nat (sint height + 1)]"

definition activeTip :: "FileStore \<Rightarrow> BlockIndex option" where
  "activeTip s =
     (case fs_tip s of None \<Rightarrow> None
      | Some tip \<Rightarrow> if ix_Hash tip = [] \<or> ix_Height tip <s 0 then None else Some tip)"

definition rebuildOptionalIndexesFromActiveTip :: "FileStore \<Rightarrow> (store_error + unit) \<times> FileStore" where
  "rebuildOptionalIndexesFromActiveTip s =
     (if \<not> fs_txIndexEnabled s \<and> \<not> fs_addressIndexEnabled s then (Inr (), s)
      else (case activeTip s of None \<Rightarrow> (Inr (), s)
        | Some tip \<Rightarrow>
          let s = (if fs_txIndexEnabled s then s\<lparr>fs_txIndex := fmempty\<rparr> else s);
              s = (if fs_addressIndexEnabled s
                   then s\<lparr>fs_addrTxIDs := fmempty, fs_addrUTXO := fmempty, fs_addrHistory := fmempty\<rparr>
                   else s)
          in forHeights (\<lambda>block idx s. exec (rebuildOptional_steps block idx s) s)
               (heightsTo (ix_Height tip)) s))"

text \<open>The steps of \<open>applyDisconnect\<close> up to the tip.\<close>

definition applyDisconnect_steps :: "BlockIndex \<Rightarrow> UndoData \<Rightarrow> step list" where
  "applyDisconnect_steps prevTip undo =
     map removeUTXO (un_AddedKeys undo) @ map writeUTXO (un_Spent undo) @
     [removeHeightIndex (ix_Height prevTip + 1), SaveTip prevTip]"

definition dropTxIndex :: "MsgBlock \<Rightarrow> FileStore \<Rightarrow> FileStore" where
  "dropTxIndex block s =
     s\<lparr>fs_txIndex := fold (\<lambda>tx m. fmdrop (txIndexFile (hash_String (TxHash tx))) m)
                      (bk_Transactions block) (fs_txIndex s)\<rparr>"

definition applyDisconnect ::
    "string \<Rightarrow> BlockIndex \<Rightarrow> UndoData \<Rightarrow> FileStore \<Rightarrow> (store_error + unit) \<times> FileStore" where
  "applyDisconnect hash prevTip undo s0 =
     (let s = exec (applyDisconnect_steps prevTip undo) s0 in
      if fs_txIndexEnabled s \<or> fs_addressIndexEnabled s then
        rebuildOptionalIndexesFromActiveTip
          (case LoadBlock hash s0 of Inl _ \<Rightarrow> s
           | Inr (block, _) \<Rightarrow> if fs_txIndexEnabled s then dropTxIndex block s else s)
      else (Inr (), s))"

definition disconnectJournal :: "string \<Rightarrow> BlockIndex \<Rightarrow> UndoData \<Rightarrow> storeJournal" where
  "disconnectJournal hash prevTip undo =
     \<lparr>jr_Op = journalDisconnect,
      jr_Index = \<lparr>ix_Height = ix_Height prevTip + 1, ix_Hash = hash, ix_Time = 0, ix_Bits = 0,
                  ix_Nonce = 0, ix_Parent = [], ix_ChainWork = []\<rparr>,
      jr_PrevTip = Some prevTip, jr_Adds = [], jr_Spends = [], jr_SpentEntries = [],
      jr_Undo = Some undo\<rparr>"

definition DisconnectBlock ::
    "string \<Rightarrow> BlockIndex option \<Rightarrow> UndoData \<Rightarrow> FileStore \<Rightarrow> (store_error + unit) \<times> FileStore" where
  "DisconnectBlock hash prev undo s =
     (case prev of None \<Rightarrow> (Inl ErrNilPrevTip, s)
      | Some prevTip \<Rightarrow>
        (case applyDisconnect hash prevTip undo (writeJournal (disconnectJournal hash prevTip undo) s) of
           (Inl e, s) \<Rightarrow> (Inl e, s)
         | (Inr _, s) \<Rightarrow> (Inr (), clearJournal s)))"

section \<open>Recovery\<close>

definition rollbackConnect_steps :: "storeJournal \<Rightarrow> FileStore \<Rightarrow> step list" where
  "rollbackConnect_steps j s =
     (case fs_tip s of
        Some tip \<Rightarrow> if ix_Hash tip = ix_Hash (jr_Index j) then [] else
          map (\<lambda>e. removeUTXO (ut_Key e)) (jr_Adds j) @ map writeUTXO (jr_SpentEntries j) @
          [removeBlockFile (ix_Hash (jr_Index j)), removeHashIndex (ix_Hash (jr_Index j)),
           removeHeightIndex (ix_Height (jr_Index j)), removeUndo (ix_Hash (jr_Index j))]
      | None \<Rightarrow>
          map (\<lambda>e. removeUTXO (ut_Key e)) (jr_Adds j) @ map writeUTXO (jr_SpentEntries j) @
          [removeBlockFile (ix_Hash (jr_Index j)), removeHashIndex (ix_Hash (jr_Index j)),
           removeHeightIndex (ix_Height (jr_Index j)), removeUndo (ix_Hash (jr_Index j))]) @
     [clearJournal]"

definition recoverJournal :: "FileStore \<Rightarrow> (store_error + unit) \<times> FileStore" where
  "recoverJournal s =
     (case fs_journal s of None \<Rightarrow> (Inr (), s)
      | Some j \<Rightarrow>
        (case jr_Op j of
           journalConnect \<Rightarrow> (Inr (), exec (rollbackConnect_steps j s) s)
         | journalDisconnect \<Rightarrow>
           (case (jr_PrevTip j, jr_Undo j) of
              (Some prevTip, Some undo) \<Rightarrow>
                (case applyDisconnect (ix_Hash (jr_Index j)) prevTip undo s of
                   (Inl e, s) \<Rightarrow> (Inl e, s)
                 | (Inr _, s) \<Rightarrow> (Inr (), clearJournal s))
            | _ \<Rightarrow> (Inl ErrInvalidJournal, s))
         | journalOther \<Rightarrow> (Inl ErrUnknownJournal, s)))"

definition LoadTip :: "FileStore \<Rightarrow> (store_error + BlockIndex option) \<times> FileStore" where
  "LoadTip s =
     (case recoverJournal s of (Inl e, s) \<Rightarrow> (Inl e, s) | (Inr _, s) \<Rightarrow> (Inr (fs_tip s), s))"

section \<open>Index repair\<close>

definition RepairHeightIndex :: "FileStore \<Rightarrow> (store_error + unit) \<times> FileStore" where
  "RepairHeightIndex s =
     (case fs_tip s of None \<Rightarrow> (Inr (), s)
      | Some tip \<Rightarrow>
        if ix_Hash tip = [] then (Inr (), s)
        else (case repairHeightIndexFromTip 0 s of
                (Inl e, s) \<Rightarrow> (if e = ErrNotExist then Inr () else Inl e, s)
              | (Inr _, s) \<Rightarrow> (Inr (), s)))"

fun rebuildHash_heights :: "i32 list \<Rightarrow> FileStore \<Rightarrow> (store_error + unit) \<times> FileStore" where
  "rebuildHash_heights [] s = (Inr (), s)"
| "rebuildHash_heights (h # hs) s =
     (case LoadIndexByHeight h s of (Inl e, s) \<Rightarrow> (Inl e, s)
      | (Inr idx, s) \<Rightarrow> rebuildHash_heights hs (writeHashIndex (ix_Hash idx) idx s))"

definition rebuildHashIndexFromActiveTip :: "FileStore \<Rightarrow> (store_error + unit) \<times> FileStore" where
  "rebuildHashIndexFromActiveTip s =
     (case activeTip s of None \<Rightarrow> (Inr (), s)
      | Some tip \<Rightarrow> rebuildHash_heights (heightsTo (ix_Height tip)) s)"

text \<open>
  One transaction of the UTXO rebuild: its inputs leave the pending set or the directory, its
  outputs enter the pending set.
\<close>

type_synonym pending = "(string, UTXOEntry) fmap"

fun rebuild_inputs :: "TxIn list \<Rightarrow> pending \<times> FileStore \<Rightarrow> pending \<times> FileStore" where
  "rebuild_inputs [] ps = ps"
| "rebuild_inputs (inp # ins) (pending, s) =
     (let key = op_key (PreviousOutPoint inp) in
      if key |\<in>| fmdom pending then rebuild_inputs ins (fmdrop key pending, s)
      else rebuild_inputs ins (pending, removeUTXO key s))"

definition putEntries :: "UTXOEntry list \<Rightarrow> pending \<Rightarrow> pending" where
  "putEntries es m = fold (\<lambda>e m. fmupd (ut_Key e) e m) es m"

fun rebuild_txs :: "i32 \<Rightarrow> nat \<Rightarrow> MsgTx list \<Rightarrow> pending \<times> FileStore \<Rightarrow> pending \<times> FileStore" where
  "rebuild_txs height txIndex [] ps = ps"
| "rebuild_txs height txIndex (tx # txs) ps =
     (let (pending, s) = rebuild_inputs (tx_TxIn tx) ps in
      rebuild_txs height (txIndex + 1) txs
        (putEntries (createdOutputs height (txIndex = 0) tx) pending, s))"

text \<open>
  The pending entries are written in the iteration order of a Go map; every entry has its
  own file, so the order is immaterial and the order of the keys is taken.
\<close>

definition pendingEntries :: "pending \<Rightarrow> UTXOEntry list" where
  "pendingEntries m = map (\<lambda>k. the (fmlookup m k)) (sorted_list_of_fset (fmdom m))"

definition rebuildUTXO_block :: "MsgBlock \<Rightarrow> BlockIndex \<Rightarrow> FileStore \<Rightarrow> FileStore" where
  "rebuildUTXO_block block idx s =
     (let (pending, s) = rebuild_txs (ix_Height idx) 0 (bk_Transactions block) (fmempty, s)
      in exec (map writeUTXO (pendingEntries pending)) s)"

definition rebuildUTXOFromActiveTip :: "FileStore \<Rightarrow> (store_error + unit) \<times> FileStore" where
  "rebuildUTXOFromActiveTip s =
     (case activeTip s of None \<Rightarrow> (Inr (), s)
      | Some tip \<Rightarrow>
        forHeights rebuildUTXO_block (heightsTo (ix_Height tip)) (s\<lparr>fs_utxo := fmempty\<rparr>))"

definition RepairIndexes :: "FileStore \<Rightarrow> (store_error + unit) \<times> FileStore" where
  "RepairIndexes s =
     (case RepairHeightIndex s of (Inl e, s) \<Rightarrow> (Inl e, s)
      | (Inr _, s) \<Rightarrow>
        (case rebuildHashIndexFromActiveTip s of (Inl e, s) \<Rightarrow> (Inl e, s)
         | (Inr _, s) \<Rightarrow>
           (case rebuildUTXOFromActiveTip s of (Inl e, s) \<Rightarrow> (Inl e, s)
            | (Inr _, s) \<Rightarrow> rebuildOptionalIndexesFromActiveTip s)))"

end
