(* ===== verification/BlockValidation.thy ===== *)
theory BlockValidation
  imports ScriptVerify Storage
begin

text \<open>
  The contextual block checks of \<^verbatim>\<open>internal/blockchain/blockchain.go\<close>:
  \<open>validateBlockTransactions\<close> with its loops over transactions, outputs and inputs. The UTXO
  set is seen through \<open>LoadUTXO\<close> only, so it is a lookup function here.
\<close>

datatype chain_error =
    ErrNoTransactions | ErrBadMerkleRoot | ErrBadPrevBlock | ErrBadGenesisHash | ErrGenesisPending
  | ErrBadCoinbase | ErrMissingTxOut string | ErrDuplicateSpend string | ErrBadTxValue
  | ErrBadBits u32 u32 | ErrImmatureCoinbase string | ErrBadCoinbaseValue | ErrNonFinalTx
  | ErrDuplicateTxID | ErrBadBlockSize | ErrTimeTooOld | ErrTimeTooNew | ErrTooManySigOps
  | ErrNoInputs | ErrBadHexScript | ErrScript script_error | ErrStore store_error
  | ErrPow consensus_error | ErrHasher | ErrHashText hash_error | ErrDisconnectHeight
  | ErrPrevIndexMismatch | ErrForkPoint | ErrRestore | ErrTipNotInitialized
  | ErrHeadersNotConnected | ErrHeadersNotLinked nat | ErrHeaderBits nat | ErrHeaderTimeOld nat
  | ErrHeaderTimeNew nat | ErrHeaderPow nat consensus_error

definition maxBlockSerializedSize :: nat where "maxBlockSerializedSize = 1000000"
definition minCoinbaseScriptLen :: nat where "minCoinbaseScriptLen = 2"
definition maxCoinbaseScriptLen :: nat where "maxCoinbaseScriptLen = 100"

section \<open>The loops\<close>

text \<open>The variables of the transaction loop; \<open>seenSpends\<close> and \<open>seenTxIDs\<close> are sets in the code.\<close>

record blockState =
  bs_pending :: "(string, UTXOEntry) fmap"
  bs_order :: "string list"
  bs_spends :: "string list"
  bs_spent :: "UTXOEntry list"
  bs_seenSpends :: "string list"
  bs_seenTx :: "string list"
  bs_coinbaseOut :: i64
  bs_fees :: i64
  bs_sigOps :: int

definition initialBlockState :: blockState where
  "initialBlockState = \<lparr>bs_pending = fmempty, bs_order = [], bs_spends = [], bs_spent = [],
     bs_seenSpends = [], bs_seenTx = [], bs_coinbaseOut = 0, bs_fees = 0, bs_sigOps = 0\<rparr>"

text \<open>The running total of the outputs, checked after every addition.\<close>

fun check_outputs :: "i64 \<Rightarrow> TxOut list \<Rightarrow> chain_error + i64" where
  "check_outputs totalOut [] = Inr totalOut"
| "check_outputs totalOut (out # outs) =
     (if \<not> MoneyRange (out_Value out) then Inl ErrBadTxValue
      else if \<not> MoneyRange (totalOut + out_Value out) then Inl ErrBadTxValue
      else check_outputs (totalOut + out_Value out) outs)"

definition outputSigOps :: "MsgTx \<Rightarrow> int" where
  "outputSigOps tx = sum_list (map (\<lambda>out. CountSigOps (out_PkScript out)) (tx_TxOut tx))"

fun check_inputs ::
    "crypto \<Rightarrow> (string \<Rightarrow> UTXOEntry option) \<Rightarrow> MsgTx \<Rightarrow> i32 \<Rightarrow> int \<Rightarrow> TxIn list \<Rightarrow> i64 \<Rightarrow> int \<Rightarrow>
     blockState \<Rightarrow> chain_error + i64 \<times> int \<times> blockState" where
  "check_inputs C utxo tx height inputIndex [] totalIn txSigOps st = Inr (totalIn, txSigOps, st)"
| "check_inputs C utxo tx height inputIndex (inp # ins) totalIn txSigOps st =
     (let key = op_key (PreviousOutPoint inp) in
      if key \<in> set (bs_seenSpends st) then Inl (ErrDuplicateSpend key)
      else
        let fromSameBlock = key |\<in>| fmdom (bs_pending st) in
        (case (if fromSameBlock then fmlookup (bs_pending st) key else utxo key) of
           None \<Rightarrow> Inl (ErrMissingTxOut key)
         | Some prev \<Rightarrow>
           if ut_Coinbase prev \<and> height - ut_Height prev <s CoinbaseMaturity
           then Inl (ErrImmatureCoinbase key)
           else
             (case hex_decode (ut_PkScript prev) of None \<Rightarrow> Inl ErrBadHexScript
              | Some prevScript \<Rightarrow>
                (case SigOpsForSpend C (SignatureScript inp) prevScript of Inl e \<Rightarrow> Inl (ErrScript e)
                 | Inr sigOps \<Rightarrow>
                   (case VerifyInput C tx inputIndex prevScript of Inl e \<Rightarrow> Inl (ErrScript e)
                    | Inr _ \<Rightarrow>
                      let totalIn = totalIn + ut_Value prev in
                      if \<not> MoneyRange totalIn then Inl ErrBadTxValue
                      else
                        let st = st\<lparr>bs_seenSpends := key # bs_seenSpends st,
                                    bs_sigOps := bs_sigOps st + sigOps\<rparr>;
                            st = (if fromSameBlock then st\<lparr>bs_pending := fmdrop key (bs_pending st)\<rparr>
                                  else st\<lparr>bs_spends := bs_spends st @ [key],
                                          bs_spent := bs_spent st @ [prev]\<rparr>)
                        in check_inputs C utxo tx height (inputIndex + 1) ins totalIn
                             (txSigOps + sigOps) st)))))"

fun add_created :: "UTXOEntry list \<Rightarrow> blockState \<Rightarrow> chain_error + blockState" where
  "add_created [] st = Inr st"
| "add_created (e # es) st =
     (if ut_Key e |\<in>| fmdom (bs_pending st) then Inl ErrDuplicateTxID
      else add_created es (st\<lparr>bs_pending := fmupd (ut_Key e) e (bs_pending st),
                              bs_order := bs_order st @ [ut_Key e]\<rparr>))"

definition tooManySigOps :: "int \<Rightarrow> blockState \<Rightarrow> bool" where
  "tooManySigOps txSigOps st \<longleftrightarrow> txSigOps > MaxTxSigOps \<or> bs_sigOps st > MaxBlockSigOps"

definition check_tx ::
    "crypto \<Rightarrow> (string \<Rightarrow> UTXOEntry option) \<Rightarrow> i32 \<Rightarrow> u32 \<Rightarrow> nat \<Rightarrow> MsgTx \<Rightarrow> blockState \<Rightarrow>
     chain_error + blockState" where
  "check_tx C utxo height blockTime txIndex tx st =
     (if txIndex > 0 \<and> isCoinbase tx then Inl ErrBadCoinbase
      else if txIndex > 0 \<and> tx_TxIn tx = [] then Inl ErrNoInputs
      else if \<not> IsFinalizedTx tx height blockTime then Inl ErrNonFinalTx
      else
        let txID = hash_String (TxHash tx) in
        if txID \<in> set (bs_seenTx st) then Inl ErrDuplicateTxID
        else
          (case check_outputs 0 (tx_TxOut tx) of Inl e \<Rightarrow> Inl e
           | Inr totalOut \<Rightarrow>
             let created = createdOutputs height (txIndex = 0) tx;
                 outOps = outputSigOps tx;
                 st = st\<lparr>bs_seenTx := txID # bs_seenTx st, bs_sigOps := bs_sigOps st + outOps\<rparr>
             in if txIndex = 0 then
                  let st = st\<lparr>bs_coinbaseOut := totalOut\<rparr> in
                  if tooManySigOps outOps st then Inl ErrTooManySigOps else add_created created st
                else
                  (case check_inputs C utxo tx height 0 (tx_TxIn tx) 0 outOps st of Inl e \<Rightarrow> Inl e
                   | Inr (totalIn, txSigOps, st) \<Rightarrow>
                     if tooManySigOps txSigOps st then Inl ErrTooManySigOps
                     else if totalIn <s totalOut then Inl ErrBadTxValue
                     else
                       let totalFees = bs_fees st + (totalIn - totalOut) in
                       if \<not> MoneyRange totalFees then Inl ErrBadTxValue
                       else add_created created (st\<lparr>bs_fees := totalFees\<rparr>))))"

fun check_txs ::
    "crypto \<Rightarrow> (string \<Rightarrow> UTXOEntry option) \<Rightarrow> i32 \<Rightarrow> u32 \<Rightarrow> nat \<Rightarrow> MsgTx list \<Rightarrow> blockState \<Rightarrow>
     chain_error + blockState" where
  "check_txs C utxo height blockTime txIndex [] st = Inr st"
| "check_txs C utxo height blockTime txIndex (tx # txs) st =
     (case check_tx C utxo height blockTime txIndex tx st of Inl e \<Rightarrow> Inl e
      | Inr st \<Rightarrow> check_txs C utxo height blockTime (txIndex + 1) txs st)"

definition pendingInOrder :: "blockState \<Rightarrow> UTXOEntry list" where
  "pendingInOrder st = List.map_filter (fmlookup (bs_pending st)) (bs_order st)"

definition validateBlockTransactions ::
    "crypto \<Rightarrow> (string \<Rightarrow> UTXOEntry option) \<Rightarrow> MsgBlock \<Rightarrow> i32 \<Rightarrow>
     chain_error + UTXOEntry list \<times> string list \<times> UTXOEntry list" where
  "validateBlockTransactions C utxo block height =
     (case bk_Transactions block of [] \<Rightarrow> Inl ErrNoTransactions
      | coinbase # _ \<Rightarrow>
        if \<not> isCoinbase coinbase then Inl ErrBadCoinbase
        else if length (block_Serialize block) > maxBlockSerializedSize then Inl ErrBadBlockSize
        else
          let coinbaseSigLen = length (SignatureScript (tx_TxIn coinbase ! 0)) in
          if coinbaseSigLen < minCoinbaseScriptLen \<or> coinbaseSigLen > maxCoinbaseScriptLen
          then Inl ErrBadCoinbase
          else
            (case check_txs C utxo height (hd_Timestamp (bk_Header block)) 0 (bk_Transactions block)
                    initialBlockState of
               Inl e \<Rightarrow> Inl e
             | Inr st \<Rightarrow>
               let maxCoinbase = BlockSubsidy height + bs_fees st in
               if maxCoinbase <s bs_coinbaseOut st \<or> \<not> MoneyRange (bs_coinbaseOut st)
               then Inl ErrBadCoinbaseValue
               else Inr (pendingInOrder st, bs_spends st, bs_spent st)))"

section \<open>Exactness of the checked sums\<close>

lemma sint_add_checked:
  assumes "MoneyRange a" "MoneyRange (a + b)"
  shows "sint (a + b) = sint a + sint (b :: i64)"
proof -
  have b: "- (2 ^ 63) \<le> sint b" "sint b < 2 ^ 63"
    using sint_greater_eq [of b] sint_less [of b] by simp_all
  have a: "0 \<le> sint a" "sint a \<le> 2100000000000000" using assms(1) by (simp_all add: MoneyRange_sint)
  show ?thesis
  proof (cases "sint a + sint b < 2 ^ 63")
    case True
    with a b show ?thesis using sint_of_int_i64 [of "sint a + sint b"] by simp
  next
    case False
    have "a + b = of_int (sint a + sint b - 2 ^ 64)" by simp
    then have "sint (a + b) = sint a + sint b - 2 ^ 64"
      using sint_of_int_i64 [of "sint a + sint b - 2 ^ 64"] a b False by (simp only:) simp
    then have "sint (a + b) < 0" using a b by simp
    with assms(2) show ?thesis by (simp add: MoneyRange_sint)
  qed
qed

lemma check_outputs_total:
  assumes "check_outputs t outs = Inr t'" "MoneyRange t"
  shows "MoneyRange t' \<and> sint t' = sint t + (\<Sum>out\<leftarrow>outs. sint (out_Value out)) \<and>
    (\<forall>out\<in>set outs. MoneyRange (out_Value out))"
  using assms
proof (induction outs arbitrary: t)
  case (Cons out outs)
  then have "MoneyRange (out_Value out)" "MoneyRange (t + out_Value out)"
    "check_outputs (t + out_Value out) outs = Inr t'"
    by (auto split: if_splits)
  with Cons.IH [of "t + out_Value out"] sint_add_checked [OF Cons.prems(2), of "out_Value out"]
  show ?case by simp
qed simp

end
