(* ===== verification/Genesis.thy ===== *)
theory Genesis
  imports WireTx ChainCfg
begin

text \<open>
  The genesis block (\<^verbatim>\<open>internal/genesis/genesis.go\<close>, \<open>NewBlock\<close>) and the chain parameters
  it and the chain read (\<^verbatim>\<open>internal/chaincfg/params.go\<close>).
\<close>

record Params =
  pa_GenesisTimestamp :: string
  pa_GenesisTime :: u32
  pa_GenesisBits :: u32
  pa_PostGenesisBits :: u32
  pa_GenesisNonce :: u32
  pa_GenesisHash :: string

definition genesisPubKeyHex :: string where
  "genesisPubKeyHex = ''5F1DF16B2B704C8A578D0BBAF74D385CDE12C11EE50455F3C438EF4C3FBCF649B6DE611FEAE06279A60939E028A8D65C10B73071A6F16719274855FEB0FD8A6704''"

definition genesisTx :: "Params \<Rightarrow> bytes \<Rightarrow> MsgTx" where
  "genesisTx params pubKey =
     \<lparr>tx_Version = 1,
      tx_TxIn = [\<lparr>PreviousOutPoint = \<lparr>op_Hash = zero_hash, op_Index = 0xffffffff\<rparr>,
                  SignatureScript = [0x04, 0xff, 0xff, 0x00, 0x1d, 0x01, 0x04,
                      of_nat (length (pa_GenesisTimestamp params))] @
                    bytes_of_string (pa_GenesisTimestamp params),
                  Sequence = 0xffffffff\<rparr>],
      tx_TxOut = [\<lparr>out_Value = Subsidy, out_PkScript = [of_nat (length pubKey)] @ pubKey @ [0xac]\<rparr>],
      tx_LockTime = 0\<rparr>"

definition NewBlock :: "Params \<Rightarrow> MsgBlock option" where
  "NewBlock params =
     (case hex_decode genesisPubKeyHex of None \<Rightarrow> None
      | Some pubKey \<Rightarrow>
        let block = \<lparr>bk_Header = \<lparr>hd_Version = 1, hd_PrevBlock = zero_hash, hd_MerkleRoot = zero_hash,
                        hd_Timestamp = pa_GenesisTime params, hd_Bits = pa_GenesisBits params,
                        hd_Nonce = pa_GenesisNonce params\<rparr>,
                      bk_Transactions = [genesisTx params pubKey]\<rparr>
        in Some (block\<lparr>bk_Header := (bk_Header block)\<lparr>hd_MerkleRoot := BuildMerkleRoot block\<rparr>\<rparr>))"

end
