(* ===== verification/StateError.thy ===== *)
theory StateError
  imports Main
begin

text \<open>
  Operations of a component with state: a call returns an error or a value together with the
  new state, and a sequence of calls stops at the first error with the state it left.
\<close>

type_synonym ('s, 'e, 'a) op = "'s \<Rightarrow> ('e + 'a) \<times> 's"

definition sret :: "'a \<Rightarrow> ('s, 'e, 'a) op" where
  "sret x s = (Inr x, s)"

definition sfail :: "'e \<Rightarrow> ('s, 'e, 'a) op" where
  "sfail e s = (Inl e, s)"

definition sbind :: "('s, 'e, 'a) op \<Rightarrow> ('a \<Rightarrow> ('s, 'e, 'b) op) \<Rightarrow> ('s, 'e, 'b) op" where
  "sbind m f s = (case m s of (Inl e, s') \<Rightarrow> (Inl e, s') | (Inr x, s') \<Rightarrow> f x s')"

definition slift :: "'e + 'a \<Rightarrow> ('s, 'e, 'a) op" where
  "slift r s = (r, s)"

definition sget :: "('s \<Rightarrow> 'a) \<Rightarrow> ('s, 'e, 'a) op" where
  "sget f s = (Inr (f s), s)"

definition smodify :: "('s \<Rightarrow> 's) \<Rightarrow> ('s, 'e, unit) op" where
  "smodify f s = (Inr (), f s)"

definition scheck :: "bool \<Rightarrow> 'e \<Rightarrow> ('s, 'e, unit) op" where
  "scheck b e = (if b then sret () else sfail e)"

lemmas op_simps = sret_def sfail_def slift_def sget_def smodify_def scheck_def

lemma sbind_Inr: "sbind m f s = (Inr y, s') \<longleftrightarrow> (\<exists>x s1. m s = (Inr x, s1) \<and> f x s1 = (Inr y, s'))"
  by (auto simp: sbind_def split: prod.splits sum.splits)

lemma scheck_Inr [simp]: "scheck b e s = (Inr u, s') \<longleftrightarrow> b \<and> s' = s"
  by (auto simp: scheck_def sret_def sfail_def)

lemma sret_Inr [simp]: "sret x s = (Inr y, s') \<longleftrightarrow> y = x \<and> s' = s"
  by (auto simp: sret_def)

lemma sfail_Inr [simp]: "sfail e s \<noteq> (Inr y, s')"
  by (simp add: sfail_def)

lemma slift_Inr [simp]: "slift r s = (Inr y, s') \<longleftrightarrow> r = Inr y \<and> s' = s"
  by (auto simp: slift_def)

lemma sget_Inr [simp]: "sget f s = (Inr y, s') \<longleftrightarrow> y = f s \<and> s' = s"
  by (auto simp: sget_def)

lemma smodify_Inr [simp]: "smodify f s = (Inr y, s') \<longleftrightarrow> s' = f s"
  by (auto simp: smodify_def)

section \<open>Frames and invariants\<close>

text \<open>
  \<open>keeps R m\<close>: whatever the call answers, the states before and after are related. For a
  reflexive and transitive \<open>R\<close> (a frame, or an implication of invariants) the property
  composes along \<open>sbind\<close>.
\<close>

definition keeps :: "('s \<Rightarrow> 's \<Rightarrow> bool) \<Rightarrow> ('s, 'e, 'a) op \<Rightarrow> bool" where
  "keeps R m \<longleftrightarrow> (\<forall>s. R s (snd (m s)))"

lemma keepsI: "(\<And>s r s'. m s = (r, s') \<Longrightarrow> R s s') \<Longrightarrow> keeps R m"
  by (auto simp: keeps_def) (metis prod.collapse)

lemma keepsD: "keeps R m \<Longrightarrow> m s = (r, s') \<Longrightarrow> R s s'"
  by (auto simp: keeps_def) (metis snd_conv)

locale frame =
  fixes R :: "'s \<Rightarrow> 's \<Rightarrow> bool"
  assumes refl: "R s s"
    and trans: "R s t \<Longrightarrow> R t u \<Longrightarrow> R s u"
begin

lemma keeps_pure [intro, simp]:
  "keeps R (sret x)" "keeps R (sfail e)" "keeps R (slift r)" "keeps R (sget f)" "keeps R (scheck b e)"
  by (auto simp: keeps_def op_simps refl)

lemma keeps_modify: "(\<And>s. R s (f s)) \<Longrightarrow> keeps R (smodify f)"
  by (simp add: keeps_def smodify_def)

lemma keeps_bind [intro]: "keeps R m \<Longrightarrow> (\<And>x. keeps R (f x)) \<Longrightarrow> keeps R (sbind m f)"
  by (auto simp: keeps_def sbind_def split: prod.splits sum.splits) (metis snd_conv trans)+

lemma keeps_if [intro]: "keeps R m \<Longrightarrow> keeps R m' \<Longrightarrow> keeps R (if b then m else m')"
  by simp

lemma keeps_option [intro]: "keeps R m \<Longrightarrow> (\<And>x. keeps R (f x)) \<Longrightarrow> keeps R (case a of None \<Rightarrow> m | Some x \<Rightarrow> f x)"
  by (simp split: option.split)

end

text \<open>An invariant gives the frame that says it is not lost.\<close>

definition preserves :: "('s \<Rightarrow> bool) \<Rightarrow> 's \<Rightarrow> 's \<Rightarrow> bool" where
  "preserves P s t \<longleftrightarrow> (P s \<longrightarrow> P t)"

definition unchanged :: "('s \<Rightarrow> 'a) \<Rightarrow> 's \<Rightarrow> 's \<Rightarrow> bool" where
  "unchanged f s t \<longleftrightarrow> f t = f s"

interpretation preserves: frame "preserves P" for P
  by unfold_locales (auto simp: preserves_def)

interpretation unchanged: frame "unchanged f" for f
  by unfold_locales (auto simp: unchanged_def)

end
