(* ===== verification/Chain.thy ===== *)
theory Chain
  imports BlockValidation Genesis StateError
begin

text \<open>
  The chain (\<^verbatim>\<open>internal/blockchain/blockchain.go\<close>): its state, chain work, median time and
  difficulty lookups, validation, connection and disconnection of blocks, the orphan pool and
  side branches. The lock makes every operation atomic, so an operation is a function on the
  state; the proof-of-work hash, the third-party cryptography and the parameters are an
  environment, and the clock reading is an argument.
\<close>

section \<open>State\<close>

record chainEnv =
  en_crypto :: crypto
  en_HashHeader :: "BlockHeader \<Rightarrow> hash option"
  en_params :: Params

record sideBlockNode =
  sn_hash :: string
  sn_parent :: string
  sn_height :: i32
  sn_block :: MsgBlock
  sn_chainwork :: "int option"

record Chain =
  ch_store :: FileStore
  ch_tip :: "BlockIndex option"
  ch_orphanByHash :: "(string, MsgBlock) fmap"
  ch_orphanByPrev :: "(string, string list) fmap"
  ch_orphanParent :: "(string, string) fmap"
  ch_orphanOrder :: "string list"
  ch_sideBlocks :: "(string, sideBlockNode) fmap"
  ch_work :: "(string, int) fmap"
  ch_parent :: "(string, string) fmap"

type_synonym 'a chainOp = "(Chain, chain_error, 'a) op"

definition MaxOrphanBlocks :: nat where "MaxOrphanBlocks = 128"

definition onStore :: "(FileStore \<Rightarrow> (store_error + 'a) \<times> FileStore) \<Rightarrow> 'a chainOp" where
  "onStore g c =
     (let (r, s) = g (ch_store c)
      in ((case r of Inl e \<Rightarrow> Inl (ErrStore e) | Inr x \<Rightarrow> Inr x), c\<lparr>ch_store := s\<rparr>))"

definition readStore :: "(FileStore \<Rightarrow> store_error + 'a) \<Rightarrow> 'a chainOp" where
  "readStore g = onStore (\<lambda>s. (g s, s))"

definition hashHeader :: "chainEnv \<Rightarrow> BlockHeader \<Rightarrow> chain_error + hash" where
  "hashHeader E h = (case en_HashHeader E h of None \<Rightarrow> Inl ErrHasher | Some x \<Rightarrow> Inr x)"

definition HasBlock :: "string \<Rightarrow> Chain \<Rightarrow> bool" where
  "HasBlock hash c \<longleftrightarrow> (\<exists>x. LoadBlock hash (ch_store c) = Inr x)"

lemma HasBlock_code [code]:
  "HasBlock hash c = (case LoadBlock hash (ch_store c) of Inl _ \<Rightarrow> False | Inr _ \<Rightarrow> True)"
  by (auto simp: HasBlock_def split: sum.splits)

section \<open>Chain work\<close>

definition noteWork :: "string \<Rightarrow> int \<Rightarrow> string \<Rightarrow> Chain \<Rightarrow> Chain" where
  "noteWork hash work parent c =
     c\<lparr>ch_work := fmupd hash work (ch_work c), ch_parent := fmupd hash parent (ch_parent c)\<rparr>"

text \<open>
  The recursion over parents follows side blocks and stored blocks; with more steps than
  there are of these it is in a cycle, on which the code does not return.
\<close>

fun chainwork_rec :: "nat \<Rightarrow> string \<Rightarrow> int chainOp" where
  "chainwork_rec 0 hash c = (Inl (ErrStore ErrDiverges), c)"
| "chainwork_rec (Suc n) hash c =
     (if hash = [] then (Inr 0, c)
      else (case fmlookup (ch_work c) hash of Some work \<Rightarrow> (Inr work, c)
        | None \<Rightarrow>
          (case fmlookup (ch_sideBlocks c) hash of
             Some side \<Rightarrow>
               (case sn_chainwork side of
                  Some work \<Rightarrow> (Inr work, noteWork hash work (sn_parent side) c)
                | None \<Rightarrow>
                  (case chainwork_rec n (sn_parent side) c of (Inl e, c) \<Rightarrow> (Inl e, c)
                   | (Inr parentWork, c) \<Rightarrow>
                     let total = parentWork + WorkForBits (hd_Bits (bk_Header (sn_block side)))
                     in (Inr total, noteWork hash total (sn_parent side)
                           (c\<lparr>ch_sideBlocks := fmupd hash (side\<lparr>sn_chainwork := Some total\<rparr>) (ch_sideBlocks c)\<rparr>))))
           | None \<Rightarrow>
             (case LoadBlock hash (ch_store c) of Inl e \<Rightarrow> (Inl (ErrStore e), c)
              | Inr (block, idx) \<Rightarrow>
                let parent = (if ix_Parent idx = [] \<and> 0 <s ix_Height idx
                              then hash_String (hd_PrevBlock (bk_Header block)) else ix_Parent idx);
                    (r, c) = chainwork_rec n parent c
                in (case (case r of Inl e \<Rightarrow> if e = ErrStore ErrNotExist then Inr 0 else Inl e
                          | Inr w \<Rightarrow> Inr w) of
                      Inl e \<Rightarrow> (Inl e, c)
                    | Inr parentWork \<Rightarrow>
                      let total = parentWork + WorkForBits (ix_Bits idx)
                      in (Inr total, noteWork hash total parent c))))))"

definition chainworkForHash :: "string \<Rightarrow> int chainOp" where
  "chainworkForHash hash c =
     chainwork_rec (fcard (fmdom (ch_sideBlocks c)) + fcard (fmdom (fs_hashIndex (ch_store c))) + 1) hash c"

definition computeChildChainwork :: "string \<Rightarrow> u32 \<Rightarrow> int chainOp" where
  "computeChildChainwork parentHash bits =
     sbind (chainworkForHash parentHash) (\<lambda>w. sret (w + WorkForBits bits))"

definition buildSideNode :: "string \<Rightarrow> string \<Rightarrow> i32 \<Rightarrow> MsgBlock \<Rightarrow> sideBlockNode chainOp" where
  "buildSideNode hash parent height block =
     sbind (computeChildChainwork parent (hd_Bits (bk_Header block))) (\<lambda>work.
       sret \<lparr>sn_hash = hash, sn_parent = parent, sn_height = height, sn_block = block,
             sn_chainwork = Some work\<rparr>)"

section \<open>Median time and difficulty\<close>

fun mtp_times :: "nat \<Rightarrow> string \<Rightarrow> FileStore \<Rightarrow> store_error + u32 list" where
  "mtp_times 0 cur s = Inr []"
| "mtp_times (Suc n) cur s =
     (if cur = [] then Inr []
      else (case LoadBlock cur s of Inl e \<Rightarrow> Inl e
        | Inr (block, idx) \<Rightarrow>
          if ix_Height idx \<le>s 0 then Inr [ix_Time idx]
          else (case mtp_times n (hash_String (hd_PrevBlock (bk_Header block))) s of Inl e \<Rightarrow> Inl e
            | Inr ts \<Rightarrow> Inr (ix_Time idx # ts))))"

definition median :: "u32 list \<Rightarrow> u32" where
  "median ts = (if ts = [] then 0 else sort ts ! (length ts div 2))"

definition medianTimePast :: "string \<Rightarrow> FileStore \<Rightarrow> store_error + u32" where
  "medianTimePast startHash s =
     (if startHash = [] then Inr 0
      else (case mtp_times 11 startHash s of Inl e \<Rightarrow> Inl e | Inr ts \<Rightarrow> Inr (median ts)))"

fun recent_walk :: "nat \<Rightarrow> i32 \<Rightarrow> FileStore \<Rightarrow> (store_error + BlockWindowEntry list) \<times> FileStore" where
  "recent_walk 0 height s = (Inr [], s)"
| "recent_walk (Suc n) height s =
     (if height <s 0 then (Inr [], s)
      else (case LoadIndexByHeight height s of (Inl e, s) \<Rightarrow> (Inl e, s)
        | (Inr idx, s) \<Rightarrow>
          (case recent_walk n (height - 1) s of (Inl e, s) \<Rightarrow> (Inl e, s)
           | (Inr es, s) \<Rightarrow>
             (Inr (\<lparr>we_Height = ix_Height idx, we_Time = ix_Time idx, we_Bits = ix_Bits idx\<rparr> # es), s))))"

definition recentEntries :: "i32 \<Rightarrow> nat \<Rightarrow> FileStore \<Rightarrow> (store_error + BlockWindowEntry list) \<times> FileStore" where
  "recentEntries startHeight limit s =
     (if limit = 0 \<or> startHeight <s 0 then (Inr [], s) else recent_walk limit startHeight s)"

text \<open>The retarget, which does not panic for the spacing it is called with (\<open>retarget_returns\<close>).\<close>

definition requiredBitsFromRecent :: "BlockWindowEntry list \<Rightarrow> u32 \<Rightarrow> u32 \<Rightarrow> u32" where
  "requiredBitsFromRecent recent genesisBits postGenesisBits0 =
     (if recent = [] then genesisBits
      else
        let postGenesisBits = (if postGenesisBits0 = 0 then genesisBits else postGenesisBits0)
        in if length recent < DGWv3PastBlocks then postGenesisBits
           else the (DarkGravityWaveV3 (take DGWv3PastBlocks recent) (of_int TargetSpacingSeconds) PowLimit postGenesisBits))"

lemma retarget_returns: "DarkGravityWaveV3 recent (of_int TargetSpacingSeconds) L bits \<noteq> None"
  by (simp add: DarkGravityWaveV3_def dgw_next_def Let_def big_Div_def TargetSpacingSeconds_def DGWv3PastBlocks_def)

definition prependRecentEntry :: "BlockWindowEntry list \<Rightarrow> BlockWindowEntry \<Rightarrow> nat \<Rightarrow> BlockWindowEntry list" where
  "prependRecentEntry recent entry limit = take limit (entry # recent)"

definition medianTimeFromRecent :: "BlockWindowEntry list \<Rightarrow> u32" where
  "medianTimeFromRecent recent = median (map we_Time (take 11 recent))"

definition nextRequiredBits :: "chainEnv \<Rightarrow> u32 chainOp" where
  "nextRequiredBits E c =
     (case ch_tip c of None \<Rightarrow> (Inr (pa_GenesisBits (en_params E)), c)
      | Some tip \<Rightarrow>
        sbind (onStore (recentEntries (ix_Height tip) DGWv3PastBlocks)) (\<lambda>recent.
          sret (requiredBitsFromRecent recent (pa_GenesisBits (en_params E)) (pa_PostGenesisBits (en_params E)))) c)"

section \<open>Validating and connecting a block on the tip\<close>

definition maxFutureTime :: "u32 \<Rightarrow> u32" where
  "maxFutureTime now = now + MaxFutureDriftSeconds"

text \<open>The checks against the current tip.\<close>

definition checkTip :: "MsgBlock \<Rightarrow> unit chainOp" where
  "checkTip block c =
     (case ch_tip c of None \<Rightarrow> sret () c
      | Some tip \<Rightarrow>
        (if ix_Hash tip = [] then sfail ErrGenesisPending
         else (case hash_FromString (ix_Hash tip) of Inl e \<Rightarrow> sfail (ErrHashText e)
           | Inr prev \<Rightarrow>
             if hd_PrevBlock (bk_Header block) \<noteq> prev then sfail ErrBadPrevBlock
             else sbind (readStore (medianTimePast (ix_Hash tip))) (\<lambda>mtp.
               scheck (\<not> hd_Timestamp (bk_Header block) \<le> mtp) ErrTimeTooOld))) c)"

definition checkPow :: "hash \<Rightarrow> u32 \<Rightarrow> unit chainOp" where
  "checkPow hash bits = slift (case CheckProofOfWork hash bits of Inl e \<Rightarrow> Inl (ErrPow e) | Inr u \<Rightarrow> Inr u)"

definition childHeight :: "Chain \<Rightarrow> i32" where
  "childHeight c = (case ch_tip c of None \<Rightarrow> 0 | Some tip \<Rightarrow> ix_Height tip + 1)"

definition tipHash :: "Chain \<Rightarrow> string" where
  "tipHash c = (case ch_tip c of None \<Rightarrow> [] | Some tip \<Rightarrow> ix_Hash tip)"

definition indexOf :: "MsgBlock \<Rightarrow> i32 \<Rightarrow> hash \<Rightarrow> string \<Rightarrow> int \<Rightarrow> BlockIndex" where
  "indexOf block height hash parent chainwork =
     \<lparr>ix_Height = height, ix_Hash = hash_String hash, ix_Time = hd_Timestamp (bk_Header block),
      ix_Bits = hd_Bits (bk_Header block), ix_Nonce = hd_Nonce (bk_Header block),
      ix_Parent = parent, ix_ChainWork = work_Text chainwork\<rparr>"

definition storedUTXO :: "FileStore \<Rightarrow> string \<Rightarrow> UTXOEntry option" where
  "storedUTXO s key = (case LoadUTXO key s of Inl _ \<Rightarrow> None | Inr e \<Rightarrow> Some e)"

definition checkTransactions ::
    "chainEnv \<Rightarrow> MsgBlock \<Rightarrow> i32 \<Rightarrow> (UTXOEntry list \<times> string list \<times> UTXOEntry list) chainOp" where
  "checkTransactions E block height c =
     (validateBlockTransactions (en_crypto E) (storedUTXO (ch_store c)) block height, c)"

definition validateActiveBlock ::
    "chainEnv \<Rightarrow> u32 \<Rightarrow> MsgBlock \<Rightarrow>
     (BlockIndex \<times> int \<times> UTXOEntry list \<times> string list \<times> UTXOEntry list) chainOp" where
  "validateActiveBlock E now block =
     sbind (scheck (bk_Transactions block \<noteq> []) ErrNoTransactions) (\<lambda>_.
     sbind (scheck (BuildMerkleRoot block = hd_MerkleRoot (bk_Header block)) ErrBadMerkleRoot) (\<lambda>_.
     sbind (checkTip block) (\<lambda>_.
     sbind (scheck (\<not> hd_Timestamp (bk_Header block) > maxFutureTime now) ErrTimeTooNew) (\<lambda>_.
     sbind (nextRequiredBits E) (\<lambda>expectedBits.
     sbind (scheck (hd_Bits (bk_Header block) = expectedBits)
              (ErrBadBits (hd_Bits (bk_Header block)) expectedBits)) (\<lambda>_.
     sbind (slift (hashHeader E (bk_Header block))) (\<lambda>hash.
     sbind (checkPow hash (hd_Bits (bk_Header block))) (\<lambda>_.
     sbind (sget childHeight) (\<lambda>height.
     sbind (sget tipHash) (\<lambda>parentHash.
     sbind (computeChildChainwork parentHash (hd_Bits (bk_Header block))) (\<lambda>chainwork.
     sbind (checkTransactions E block height) (\<lambda>(adds, spendKeys, spentEntries).
       sret (indexOf block height hash parentHash chainwork, chainwork, adds, spendKeys, spentEntries)
     ))))))))))))"

definition commitBlock ::
    "MsgBlock \<Rightarrow> BlockIndex \<Rightarrow> int \<Rightarrow> UTXOEntry list \<Rightarrow> string list \<Rightarrow> UTXOEntry list \<Rightarrow> Chain \<Rightarrow> Chain" where
  "commitBlock block idx chainwork adds spendKeys spentEntries c =
     (noteWork (ix_Hash idx) chainwork (ix_Parent idx)
        (c\<lparr>ch_store := SaveBlock block idx adds spendKeys spentEntries (ch_store c)\<rparr>))\<lparr>ch_tip := Some idx\<rparr>"

definition connectBlock :: "chainEnv \<Rightarrow> u32 \<Rightarrow> MsgBlock \<Rightarrow> unit chainOp" where
  "connectBlock E now block =
     sbind (validateActiveBlock E now block) (\<lambda>(idx, chainwork, adds, spendKeys, spentEntries).
       smodify (commitBlock block idx chainwork adds spendKeys spentEntries))"

definition EnsureGenesis :: "chainEnv \<Rightarrow> unit chainOp" where
  "EnsureGenesis E c =
     (case ch_tip c of Some _ \<Rightarrow> sret () c
      | None \<Rightarrow>
        (case NewBlock (en_params E) of None \<Rightarrow> sfail ErrBadHexScript c
         | Some block \<Rightarrow>
           sbind (slift (hashHeader E (bk_Header block))) (\<lambda>hash.
             if pa_GenesisHash (en_params E) = [] then
               smodify (\<lambda>c. c\<lparr>ch_tip := Some \<lparr>ix_Height = -1, ix_Hash = [],
                  ix_Time = hd_Timestamp (bk_Header block), ix_Bits = hd_Bits (bk_Header block),
                  ix_Nonce = hd_Nonce (bk_Header block), ix_Parent = [], ix_ChainWork = []\<rparr>\<rparr>)
             else
               sbind (scheck (hash_String hash = pa_GenesisHash (en_params E)) ErrBadGenesisHash) (\<lambda>_.
               sbind (checkPow hash (hd_Bits (bk_Header block))) (\<lambda>_.
               sbind (checkTransactions E block 0) (\<lambda>(adds, spendKeys, spentEntries).
                 smodify (commitBlock block (indexOf block 0 hash [] (WorkForBits (hd_Bits (bk_Header block))))
                   (WorkForBits (hd_Bits (bk_Header block))) adds spendKeys spentEntries))))) c))"

section \<open>Disconnecting\<close>

definition disconnectTip :: "unit chainOp" where
  "disconnectTip c =
     (case ch_tip c of None \<Rightarrow> (Inl ErrDisconnectHeight, c)
      | Some idx \<Rightarrow>
        if ix_Hash idx = [] \<or> ix_Height idx \<le>s 0 then (Inl ErrDisconnectHeight, c)
        else
          sbind (readStore (LoadBlock (ix_Hash idx))) (\<lambda>(block, _).
          sbind (readStore (LoadUndo (ix_Hash idx))) (\<lambda>undo.
          sbind (onStore (LoadIndexByHeight (ix_Height idx - 1))) (\<lambda>prevIdx.
          sbind (scheck (ix_Hash prevIdx = hash_String (hd_PrevBlock (bk_Header block))) ErrPrevIndexMismatch) (\<lambda>_.
          sbind (onStore (DisconnectBlock (ix_Hash idx) (Some prevIdx) undo)) (\<lambda>_.
            smodify (\<lambda>c. c\<lparr>ch_tip := Some prevIdx, ch_work := fmdrop (ix_Hash idx) (ch_work c),
                          ch_parent := fmdrop (ix_Hash idx) (ch_parent c)\<rparr>)))))) c)"

fun disconnectN :: "nat \<Rightarrow> unit chainOp" where
  "disconnectN 0 = sret ()"
| "disconnectN (Suc n) = sbind disconnectTip (\<lambda>_. disconnectN n)"

text \<open>\<open>reconnectBlocks\<close> walks its slice from the end.\<close>

fun connectAll :: "chainEnv \<Rightarrow> u32 \<Rightarrow> MsgBlock list \<Rightarrow> unit chainOp" where
  "connectAll E now [] = sret ()"
| "connectAll E now (b # bs) = sbind (connectBlock E now b) (\<lambda>_. connectAll E now bs)"

definition reconnectBlocks :: "chainEnv \<Rightarrow> u32 \<Rightarrow> MsgBlock list \<Rightarrow> unit chainOp" where
  "reconnectBlocks E now disconnected = connectAll E now (rev disconnected)"

end
