(* ===== verification/ChainForks.thy ===== *)
theory ChainForks
  imports Chain
begin

text \<open>
  The rest of \<^verbatim>\<open>internal/blockchain/blockchain.go\<close>: the orphan pool, side branches and
  their activation, block processing, header batches, start-up and the queries.
\<close>

section \<open>The orphan pool\<close>

definition removeOrphan :: "string \<Rightarrow> Chain \<Rightarrow> Chain" where
  "removeOrphan hash c =
     (if hash |\<notin>| fmdom (ch_orphanByHash c) then c
      else
        let parent = (case fmlookup (ch_orphanParent c) hash of None \<Rightarrow> [] | Some p \<Rightarrow> p);
            children = remove1 hash
              (case fmlookup (ch_orphanByPrev c) parent of None \<Rightarrow> [] | Some hs \<Rightarrow> hs)
        in c\<lparr>ch_orphanByHash := fmdrop hash (ch_orphanByHash c),
             ch_orphanParent := fmdrop hash (ch_orphanParent c),
             ch_orphanByPrev :=
               (if parent = [] then ch_orphanByPrev c
                else if children = [] then fmdrop parent (ch_orphanByPrev c)
                else fmupd parent children (ch_orphanByPrev c)),
             ch_orphanOrder := remove1 hash (ch_orphanOrder c)\<rparr>)"

definition addOrphan :: "string \<Rightarrow> string \<Rightarrow> MsgBlock \<Rightarrow> Chain \<Rightarrow> Chain" where
  "addOrphan hash parent block c0 =
     (if hash |\<in>| fmdom (ch_orphanByHash c0) then c0
      else
        let c = (if length (ch_orphanOrder c0) \<ge> MaxOrphanBlocks
                 then removeOrphan (ch_orphanOrder c0 ! 0) c0 else c0)
        in c\<lparr>ch_orphanByHash := fmupd hash block (ch_orphanByHash c),
             ch_orphanByPrev := fmupd parent
               ((case fmlookup (ch_orphanByPrev c) parent of None \<Rightarrow> [] | Some hs \<Rightarrow> hs) @ [hash])
               (ch_orphanByPrev c),
             ch_orphanParent := fmupd hash parent (ch_orphanParent c),
             ch_orphanOrder := ch_orphanOrder c @ [hash]\<rparr>)"

text \<open>
  \<open>removeOrphanLocked\<close> deletes from the slice of the map in place, so the slice that
  \<open>acceptOrphanChildrenLocked\<close> iterates over shifts under the loop when it is the same slice:
  the elements behind the removed one move up and the last position keeps its old content.
\<close>

definition shiftAlias :: "string \<Rightarrow> nat \<Rightarrow> string list \<Rightarrow> string list" where
  "shiftAlias hash m arr =
     (if m > 0 \<and> hash \<in> set (take m arr)
      then remove1 hash (take m arr) @ [arr ! (m - 1)] @ drop m arr else arr)"

definition aliasAfterRemove :: "string \<Rightarrow> string \<Rightarrow> Chain \<Rightarrow> string list \<Rightarrow> string list" where
  "aliasAfterRemove cur hash c arr =
     (if hash |\<in>| fmdom (ch_orphanByHash c) \<and> cur \<noteq> [] \<and> fmlookup (ch_orphanParent c) hash = Some cur
      then (case fmlookup (ch_orphanByPrev c) cur of None \<Rightarrow> arr
            | Some hs \<Rightarrow> shiftAlias hash (length hs) arr)
      else arr)"

text \<open>
  One pass over the children of \<open>cur\<close>, from position \<open>i\<close> of the slice on; the hashes of the
  connected children are returned, to be queued.
\<close>

fun accept_children ::
    "chainEnv \<Rightarrow> u32 \<Rightarrow> string \<Rightarrow> nat \<Rightarrow> string list \<Rightarrow> nat \<Rightarrow> Chain \<Rightarrow> string list \<times> Chain" where
  "accept_children E now cur 0 arr i c = ([], c)"
| "accept_children E now cur (Suc k) arr i c =
     (let orphanHash = arr ! i in
      case fmlookup (ch_orphanByHash c) orphanHash of
        None \<Rightarrow> accept_children E now cur k arr (i + 1) c
      | Some orphanBlock \<Rightarrow>
        if ch_tip c = None \<or> tipHash c \<noteq> hash_String (hd_PrevBlock (bk_Header orphanBlock))
        then accept_children E now cur k arr (i + 1) c
        else
          (case connectBlock E now orphanBlock c of
             (Inl _, c) \<Rightarrow> accept_children E now cur k arr (i + 1) c
           | (Inr _, c) \<Rightarrow>
             let arr' = aliasAfterRemove cur orphanHash c arr;
                 c = removeOrphan orphanHash c;
                 c = c\<lparr>ch_sideBlocks := fmdrop orphanHash (ch_sideBlocks c)\<rparr>;
                 (hs, c) = accept_children E now cur k arr' (i + 1) c
             in (orphanHash # hs, c)))"

text \<open>
  The queue. Every queued hash but the first is an orphan that was connected and removed, so
  one more round than there are orphans is enough (\<open>accept_queue_fuel\<close>).
\<close>

fun accept_queue :: "nat \<Rightarrow> chainEnv \<Rightarrow> u32 \<Rightarrow> string list \<Rightarrow> Chain \<Rightarrow> Chain" where
  "accept_queue fuel E now [] c = c"
| "accept_queue 0 E now (cur # queue) c = c"
| "accept_queue (Suc n) E now (cur # queue) c =
     (let children = (case fmlookup (ch_orphanByPrev c) cur of None \<Rightarrow> [] | Some hs \<Rightarrow> hs);
          (hs, c) = accept_children E now cur (length children) children 0 c
      in accept_queue n E now (queue @ hs)
           (c\<lparr>ch_orphanByPrev := fmdrop cur (ch_orphanByPrev c)\<rparr>))"

definition acceptOrphanChildren :: "chainEnv \<Rightarrow> u32 \<Rightarrow> string \<Rightarrow> Chain \<Rightarrow> Chain" where
  "acceptOrphanChildren E now parentHash c =
     accept_queue (fcard (fmdom (ch_orphanByHash c)) + 1) E now [parentHash] c"

section \<open>Heights and side branches\<close>

definition indexedHeight :: "string \<Rightarrow> Chain \<Rightarrow> i32 option" where
  "indexedHeight hash c =
     (case LoadBlock hash (ch_store c) of Inl _ \<Rightarrow> None | Inr (_, idx) \<Rightarrow> Some (ix_Height idx))"

definition activeHeight :: "string \<Rightarrow> Chain \<Rightarrow> i32 option \<times> Chain" where
  "activeHeight hash c =
     (case LoadBlock hash (ch_store c) of Inl _ \<Rightarrow> (None, c)
      | Inr (_, idx) \<Rightarrow>
        (case LoadIndexByHeight (ix_Height idx) (ch_store c) of
           (Inl _, s) \<Rightarrow> (None, c\<lparr>ch_store := s\<rparr>)
         | (Inr activeIdx, s) \<Rightarrow>
           (if ix_Hash activeIdx \<noteq> hash then None else Some (ix_Height idx), c\<lparr>ch_store := s\<rparr>)))"

definition pruneSideBlocks :: "Chain \<Rightarrow> Chain" where
  "pruneSideBlocks c =
     (case ch_tip c of None \<Rightarrow> c
      | Some tip \<Rightarrow>
        let minHeight = ix_Height tip - 288
        in c\<lparr>ch_sideBlocks :=
               fmfilter (\<lambda>h. \<not> (case fmlookup (ch_sideBlocks c) h of None \<Rightarrow> False
                              | Some node \<Rightarrow> sn_height node <s minHeight)) (ch_sideBlocks c)\<rparr>)"

text \<open>
  The path from a side block back to the active chain, newest first, with the fork point; \<open>None\<close> when
  it leads to an unknown block. More steps than there are side blocks is a cycle.
\<close>

datatype forkPath = NoPath | Diverging | Path "sideBlockNode list" string i32

fun side_path :: "nat \<Rightarrow> sideBlockNode \<Rightarrow> Chain \<Rightarrow> forkPath \<times> Chain" where
  "side_path 0 cur c = (Diverging, c)"
| "side_path (Suc n) cur c =
     (case activeHeight (sn_parent cur) c of
        (Some h, c) \<Rightarrow> (Path [cur] (sn_parent cur) h, c)
      | (None, c) \<Rightarrow>
        (case fmlookup (ch_sideBlocks c) (sn_parent cur) of None \<Rightarrow> (NoPath, c)
         | Some parentNode \<Rightarrow>
           (case side_path n parentNode c of
              (Path nodes forkHash forkHeight, c) \<Rightarrow> (Path (cur # nodes) forkHash forkHeight, c)
            | (r, c) \<Rightarrow> (r, c))))"

text \<open>
  Disconnecting down to the fork: the removed blocks, newest first, or the error, on which
  the caller restores. On an indexed chain every round lowers the tip by one, so the height
  difference bounds the rounds; a tip that is still above the fork then is one the loop never gets
  below.
\<close>

fun disconnect_to :: "nat \<Rightarrow> i32 \<Rightarrow> MsgBlock list \<Rightarrow> Chain \<Rightarrow> (chain_error \<times> bool) option \<times> MsgBlock list \<times> Chain" where
  "disconnect_to 0 forkHeight removed c =
     (if (case ch_tip c of None \<Rightarrow> False | Some tip \<Rightarrow> forkHeight <s ix_Height tip)
      then (Some (ErrStore ErrDiverges, False), removed, c) else (None, removed, c))"
| "disconnect_to (Suc n) forkHeight removed c =
     (case ch_tip c of None \<Rightarrow> (None, removed, c)
      | Some tip \<Rightarrow>
        if \<not> forkHeight <s ix_Height tip then (None, removed, c)
        else
          (case LoadBlock (ix_Hash tip) (ch_store c) of Inl e \<Rightarrow> (Some (ErrStore e, False), removed, c)
           | Inr (block, _) \<Rightarrow>
             (case disconnectTip c of (Inl e, c) \<Rightarrow> (Some (e, True), removed, c)
              | (Inr _, c) \<Rightarrow> disconnect_to n forkHeight (removed @ [block]) c)))"

text \<open>
  Connecting the branch, oldest node first: the error with the number of blocks connected
  before it.
\<close>

fun connect_branch :: "chainEnv \<Rightarrow> u32 \<Rightarrow> nat \<Rightarrow> sideBlockNode list \<Rightarrow> Chain \<Rightarrow> (chain_error \<times> nat) option \<times> Chain" where
  "connect_branch E now k [] c = (None, c)"
| "connect_branch E now k (node # nodes) c =
     (case connectBlock E now (sn_block node) c of (Inl e, c) \<Rightarrow> (Some (e, k), c)
      | (Inr _, c) \<Rightarrow>
        connect_branch E now (k + 1) nodes (acceptOrphanChildren E now (sn_hash node) c))"

definition dropNodes :: "sideBlockNode list \<Rightarrow> Chain \<Rightarrow> Chain" where
  "dropNodes nodes c = c\<lparr>ch_sideBlocks := fold (\<lambda>n. fmdrop (sn_hash n)) nodes (ch_sideBlocks c)\<rparr>"

text \<open>The branch from the fork on: attach, and on an error roll back what was attached.\<close>

definition attachBranch ::
    "chainEnv \<Rightarrow> u32 \<Rightarrow> sideBlockNode list \<Rightarrow> MsgBlock list \<Rightarrow> unit chainOp" where
  "attachBranch E now attachRev removed c =
     (case connect_branch E now 0 (rev attachRev) c of
        (None, c) \<Rightarrow> (Inr (), pruneSideBlocks (dropNodes attachRev c))
      | (Some (e, k), c) \<Rightarrow>
        (case disconnectN k c of (Inl _, c) \<Rightarrow> (Inl ErrRestore, c)
         | (Inr _, c) \<Rightarrow>
           (case reconnectBlocks E now removed c of (Inl _, c) \<Rightarrow> (Inl ErrRestore, c)
            | (Inr _, c) \<Rightarrow> (Inl e, c))))"

definition reorganize ::
    "chainEnv \<Rightarrow> u32 \<Rightarrow> sideBlockNode list \<Rightarrow> string \<Rightarrow> i32 \<Rightarrow> unit chainOp" where
  "reorganize E now attachRev forkHash forkHeight c =
     (if tipHash c = forkHash then attachBranch E now attachRev [] c
      else
        (case disconnect_to (nat (case ch_tip c of None \<Rightarrow> 0 | Some tip \<Rightarrow> sint (ix_Height tip) - sint forkHeight))
                forkHeight [] c of
           (Some (e, True), removed, c) \<Rightarrow>
             (case reconnectBlocks E now removed c of (Inl _, c) \<Rightarrow> (Inl ErrRestore, c)
              | (Inr _, c) \<Rightarrow> (Inl e, c))
         | (Some (e, False), removed, c) \<Rightarrow> (Inl e, c)
         | (None, removed, c) \<Rightarrow>
           if ch_tip c = None \<or> tipHash c \<noteq> forkHash then
             (case reconnectBlocks E now removed c of (Inl _, c) \<Rightarrow> (Inl ErrRestore, c)
              | (Inr _, c) \<Rightarrow> (Inl ErrForkPoint, c))
           else attachBranch E now attachRev removed c))"

definition tryActivateSideChain :: "chainEnv \<Rightarrow> u32 \<Rightarrow> string \<Rightarrow> unit chainOp" where
  "tryActivateSideChain E now sideTipHash c =
     (case (fmlookup (ch_sideBlocks c) sideTipHash, ch_tip c) of
        (Some node, Some tip) \<Rightarrow>
          sbind (chainworkForHash (ix_Hash tip)) (\<lambda>activeWork c.
            if (case sn_chainwork node of None \<Rightarrow> True | Some w \<Rightarrow> w \<le> activeWork) then sret () c
            else
              (case side_path (fcard (fmdom (ch_sideBlocks c)) + 1) node c of
                 (NoPath, c) \<Rightarrow> sret () c
               | (Diverging, c) \<Rightarrow> sfail (ErrStore ErrDiverges) c
               | (Path attachRev forkHash forkHeight, c) \<Rightarrow>
                 reorganize E now attachRev forkHash forkHeight c)) c
      | _ \<Rightarrow> sret () c)"

section \<open>Processing a block\<close>

datatype blockStatus =
    StatusNone | StatusConnected | StatusDuplicate | StatusSideChain | StatusOrphan
  | StatusRejected | StatusProposal

record blockResult =
  br_Hash :: string
  br_PrevHash :: string
  br_CalculatedHeight :: i32
  br_ParentKnown :: bool
  br_ParentActive :: bool
  br_ExtendsActiveTip :: bool
  br_Duplicate :: bool
  br_SideChain :: bool
  br_Orphan :: bool
  br_Connected :: bool
  br_BestChanged :: bool
  br_OldBestHeight :: i32
  br_OldBestHash :: string
  br_NewBestHeight :: i32
  br_NewBestHash :: string
  br_Status :: blockStatus

definition initialResult :: "Chain \<Rightarrow> blockResult" where
  "initialResult c =
     (let (height, hash) = (case ch_tip c of None \<Rightarrow> (-1, []) | Some tip \<Rightarrow> (ix_Height tip, ix_Hash tip))
      in \<lparr>br_Hash = [], br_PrevHash = [], br_CalculatedHeight = -1, br_ParentKnown = False,
          br_ParentActive = False, br_ExtendsActiveTip = False, br_Duplicate = False,
          br_SideChain = False, br_Orphan = False, br_Connected = False, br_BestChanged = False,
          br_OldBestHeight = height, br_OldBestHash = hash, br_NewBestHeight = height,
          br_NewBestHash = hash, br_Status = StatusNone\<rparr>)"

definition finishResult :: "Chain \<Rightarrow> blockResult \<Rightarrow> blockResult" where
  "finishResult c r =
     (let r = (case ch_tip c of None \<Rightarrow> r
               | Some tip \<Rightarrow> r\<lparr>br_NewBestHeight := ix_Height tip, br_NewBestHash := ix_Hash tip\<rparr>)
      in r\<lparr>br_BestChanged := (br_OldBestHeight r \<noteq> br_NewBestHeight r \<or>
                              br_OldBestHash r \<noteq> br_NewBestHash r)\<rparr>)"

text \<open>The three side-chain cases differ in how the parent's height was found.\<close>

definition storeSideBlock ::
    "chainEnv \<Rightarrow> u32 \<Rightarrow> bool \<Rightarrow> MsgBlock \<Rightarrow> string \<Rightarrow> string \<Rightarrow> i32 \<Rightarrow> blockResult \<Rightarrow> Chain \<Rightarrow>
     (chain_error option \<times> blockResult) \<times> Chain" where
  "storeSideBlock E now mutate block hashStr parent parentHeight result0 c =
     (let result = result0\<lparr>br_ParentKnown := True, br_SideChain := True,
                           br_CalculatedHeight := parentHeight + 1\<rparr>
      in if \<not> mutate then ((None, (finishResult c result)\<lparr>br_Status := StatusSideChain\<rparr>), c)
         else
           (case buildSideNode hashStr parent (parentHeight + 1) block c of
              (Inl e, c) \<Rightarrow> ((Some e, result), c)
            | (Inr sideNode, c) \<Rightarrow>
              let c = c\<lparr>ch_sideBlocks := fmupd hashStr sideNode (ch_sideBlocks c)\<rparr> in
              (case tryActivateSideChain E now hashStr c of (Inl e, c) \<Rightarrow> ((Some e, result), c)
               | (Inr _, c) \<Rightarrow>
                 let result = finishResult c result in
                 if br_BestChanged result \<and> br_NewBestHash result = hashStr then
                   ((None, result\<lparr>br_Connected := True, br_Status := StatusConnected\<rparr>),
                    acceptOrphanChildren E now hashStr c)
                 else ((None, result\<lparr>br_Status := StatusSideChain\<rparr>), c))))"

definition duplicateResult :: "string \<Rightarrow> blockResult \<Rightarrow> Chain \<Rightarrow> blockResult \<times> Chain" where
  "duplicateResult hashStr result0 c =
     (let result = result0\<lparr>br_Duplicate := True, br_Status := StatusDuplicate\<rparr> in
      case activeHeight hashStr c of
        (Some h, c) \<Rightarrow>
          (result\<lparr>br_CalculatedHeight := h, br_ParentKnown := True, br_ParentActive := True\<rparr>, c)
      | (None, c) \<Rightarrow>
          ((case indexedHeight hashStr c of None \<Rightarrow> result
            | Some h \<Rightarrow> result\<lparr>br_CalculatedHeight := h, br_ParentKnown := True\<rparr>), c))"

definition blockProcessPreview ::
    "chainEnv \<Rightarrow> u32 \<Rightarrow> bool \<Rightarrow> MsgBlock \<Rightarrow> Chain \<Rightarrow> (chain_error option \<times> blockResult) \<times> Chain" where
  "blockProcessPreview E now mutate block c =
     (case hashHeader E (bk_Header block) of Inl e \<Rightarrow> ((Some e, initialResult c), c)
      | Inr hash \<Rightarrow>
        let hashStr = hash_String hash;
            parent = hash_String (hd_PrevBlock (bk_Header block));
            result = (initialResult c)\<lparr>br_Hash := hashStr, br_PrevHash := parent\<rparr>
        in if HasBlock hashStr c then
             (let (r, c) = duplicateResult hashStr result c in ((None, r), c))
           else if hashStr |\<in>| fmdom (ch_orphanByHash c) then
             ((None, result\<lparr>br_Duplicate := True, br_Orphan := True, br_Status := StatusDuplicate\<rparr>), c)
           else
             (case ch_tip c of
                None \<Rightarrow> ((None, result\<lparr>br_CalculatedHeight := 0\<rparr>), c)
              | Some tip \<Rightarrow>
                if ix_Hash tip = [] then ((None, result\<lparr>br_CalculatedHeight := 0\<rparr>), c)
                else if parent = ix_Hash tip then
                  ((None, result\<lparr>br_ParentKnown := True, br_ParentActive := True,
                                 br_ExtendsActiveTip := True, br_CalculatedHeight := ix_Height tip + 1\<rparr>), c)
                else
                  (case activeHeight parent c of
                     (Some h, c) \<Rightarrow>
                       storeSideBlock E now mutate block hashStr parent h (result\<lparr>br_ParentActive := True\<rparr>) c
                   | (None, c) \<Rightarrow>
                     (case indexedHeight parent c of
                        Some h \<Rightarrow> storeSideBlock E now mutate block hashStr parent h result c
                      | None \<Rightarrow>
                        (case fmlookup (ch_sideBlocks c) parent of
                           Some parentNode \<Rightarrow>
                             storeSideBlock E now mutate block hashStr parent (sn_height parentNode) result c
                         | None \<Rightarrow>
                           let result = result\<lparr>br_Orphan := True, br_Status := StatusOrphan\<rparr>;
                               c = (if mutate then addOrphan hashStr parent block c else c)
                           in ((None, finishResult c result), c))))))"

definition ProcessBlockWithResult ::
    "chainEnv \<Rightarrow> u32 \<Rightarrow> MsgBlock \<Rightarrow> Chain \<Rightarrow> (chain_error option \<times> blockResult) \<times> Chain" where
  "ProcessBlockWithResult E now block c =
     (case blockProcessPreview E now True block c of
        ((Some e, result), c) \<Rightarrow> ((Some e, result), c)
      | ((None, result), c) \<Rightarrow>
        if br_Status result \<noteq> StatusNone then ((None, result), c)
        else
          (case connectBlock E now block c of
             (Inl e, c) \<Rightarrow> ((Some e, result\<lparr>br_Status := StatusRejected\<rparr>), c)
           | (Inr _, c) \<Rightarrow>
             let c = pruneSideBlocks (acceptOrphanChildren E now (br_Hash result) c)
             in ((None, finishResult c (result\<lparr>br_Connected := True, br_Status := StatusConnected\<rparr>)), c)))"

definition ValidateBlockProposal ::
    "chainEnv \<Rightarrow> u32 \<Rightarrow> MsgBlock \<Rightarrow> Chain \<Rightarrow> (chain_error option \<times> blockResult) \<times> Chain" where
  "ValidateBlockProposal E now block c =
     (case blockProcessPreview E now False block c of
        ((Some e, result), c) \<Rightarrow> ((Some e, result), c)
      | ((None, result), c) \<Rightarrow>
        if br_Status result \<noteq> StatusNone then ((None, result), c)
        else
          (case validateActiveBlock E now block c of
             (Inl e, c) \<Rightarrow> ((Some e, result\<lparr>br_Status := StatusRejected\<rparr>), c)
           | (Inr (idx, _), c) \<Rightarrow>
             ((None, result\<lparr>br_CalculatedHeight := ix_Height idx, br_Status := StatusProposal\<rparr>), c)))"

section \<open>Header batches\<close>

fun validate_headers ::
    "chainEnv \<Rightarrow> u32 \<Rightarrow> nat \<Rightarrow> hash \<Rightarrow> i32 \<Rightarrow> BlockWindowEntry list \<Rightarrow> BlockHeader list \<Rightarrow>
     chain_error + hash list" where
  "validate_headers E now i prevHash nextHeight recent [] = Inr []"
| "validate_headers E now i prevHash nextHeight recent (header # headers) =
     (if hd_PrevBlock header \<noteq> prevHash then Inl (ErrHeadersNotLinked i)
      else if hd_Bits header \<noteq>
        requiredBitsFromRecent recent (pa_GenesisBits (en_params E)) (pa_PostGenesisBits (en_params E))
      then Inl (ErrHeaderBits i)
      else if hd_Timestamp header \<le> medianTimeFromRecent recent then Inl (ErrHeaderTimeOld i)
      else if hd_Timestamp header > maxFutureTime now then Inl (ErrHeaderTimeNew i)
      else
        (case hashHeader E header of Inl e \<Rightarrow> Inl e
         | Inr hash \<Rightarrow>
           (case CheckProofOfWork hash (hd_Bits header) of Inl e \<Rightarrow> Inl (ErrHeaderPow i e)
            | Inr _ \<Rightarrow>
              (case validate_headers E now (i + 1) hash (nextHeight + 1)
                      (prependRecentEntry recent
                         \<lparr>we_Height = nextHeight, we_Time = hd_Timestamp header, we_Bits = hd_Bits header\<rparr>
                         DGWv3PastBlocks) headers of
                 Inl e \<Rightarrow> Inl e
               | Inr hashes \<Rightarrow> Inr (hash # hashes)))))"

text \<open>
  The lock is released while the headers are hashed and the tip is compared afterwards; the
  whole call is taken as one operation, in which the tip does not change.
\<close>

definition ValidateHeaderSequence :: "chainEnv \<Rightarrow> u32 \<Rightarrow> BlockHeader list \<Rightarrow> hash list chainOp" where
  "ValidateHeaderSequence E now headers c =
     (case headers of [] \<Rightarrow> sret [] c
      | header # _ \<Rightarrow>
        (case ch_tip c of None \<Rightarrow> sfail ErrTipNotInitialized c
         | Some tip \<Rightarrow>
           (if ix_Hash tip = [] then sfail ErrTipNotInitialized
            else
              sbind (onStore (recentEntries (ix_Height tip) DGWv3PastBlocks)) (\<lambda>recent.
              sbind (slift (case hash_FromString (ix_Hash tip) of Inl e \<Rightarrow> Inl (ErrHashText e)
                            | Inr h \<Rightarrow> Inr h)) (\<lambda>prevHash.
              sbind (scheck (hd_PrevBlock header = prevHash) ErrHeadersNotConnected) (\<lambda>_.
                slift (validate_headers E now 0 prevHash (ix_Height tip + 1) recent headers))))) c))"

section \<open>Start-up\<close>

fun rebuild_work :: "i32 list \<Rightarrow> int \<Rightarrow> Chain \<Rightarrow> (chain_error + unit) \<times> Chain" where
  "rebuild_work [] running c = (Inr (), c)"
| "rebuild_work (h # hs) running c =
     (case LoadIndexByHeight h (ch_store c) of
        (Inl _, s) \<Rightarrow> rebuild_work hs running (c\<lparr>ch_store := s\<rparr>)
      | (Inr idx, s) \<Rightarrow>
        let c = c\<lparr>ch_store := s\<rparr> in
        (case (if ix_Parent idx = [] \<and> 0 <s ix_Height idx
               then (case LoadBlock (ix_Hash idx) s of Inl e \<Rightarrow> Inl (ErrStore e)
                     | Inr (block, _) \<Rightarrow> Inr (hash_String (hd_PrevBlock (bk_Header block))))
               else Inr (ix_Parent idx)) of
           Inl e \<Rightarrow> (Inl e, c)
         | Inr parent \<Rightarrow>
           let cw = (case parseChainwork (ix_ChainWork idx) of Some w \<Rightarrow> w
                     | None \<Rightarrow> running + WorkForBits (ix_Bits idx))
           in rebuild_work hs cw (noteWork (ix_Hash idx) cw parent c)))"

definition rebuildActiveChainwork :: "unit chainOp" where
  "rebuildActiveChainwork c0 =
     (let c = c0\<lparr>ch_work := fmempty, ch_parent := fmempty\<rparr> in
      case ch_tip c of None \<Rightarrow> (Inr (), c)
      | Some tip \<Rightarrow>
        if ix_Hash tip = [] \<or> ix_Height tip <s 0 then (Inr (), c)
        else
          (case rebuild_work (heightsTo (ix_Height tip)) 0 c of (Inl e, c) \<Rightarrow> (Inl e, c)
           | (Inr _, c) \<Rightarrow>
             if ix_Hash tip |\<in>| fmdom (ch_work c) then (Inr (), c)
             else
               (case chainworkForHash (ix_Hash tip) c of (Inl e, c) \<Rightarrow> (Inl e, c)
                | (Inr work, c) \<Rightarrow> (Inr (), c\<lparr>ch_work := fmupd (ix_Hash tip) work (ch_work c)\<rparr>))))"

definition emptyChain :: "FileStore \<Rightarrow> Chain" where
  "emptyChain s =
     \<lparr>ch_store = s, ch_tip = None, ch_orphanByHash = fmempty, ch_orphanByPrev = fmempty,
      ch_orphanParent = fmempty, ch_orphanOrder = [], ch_sideBlocks = fmempty,
      ch_work = fmempty, ch_parent = fmempty\<rparr>"

text \<open>\<open>New\<close>: open the store, recovering its journal, and rebuild the chain work.\<close>

definition New :: "FileStore \<Rightarrow> chain_error + Chain" where
  "New s0 =
     (case LoadTip s0 of (Inl e, s) \<Rightarrow> Inl (ErrStore e)
      | (Inr tip, s) \<Rightarrow>
        (case rebuildActiveChainwork ((emptyChain s)\<lparr>ch_tip := tip\<rparr>) of (Inl e, _) \<Rightarrow> Inl e
         | (Inr _, c) \<Rightarrow> Inr c))"

section \<open>Queries\<close>

definition TipChainwork :: "Chain \<Rightarrow> string" where
  "TipChainwork c =
     (case ch_tip c of None \<Rightarrow> ''0''
      | Some tip \<Rightarrow>
        if ix_Hash tip = [] then ''0''
        else (case fmlookup (ch_work c) (ix_Hash tip) of Some w \<Rightarrow> work_Text w | None \<Rightarrow> []))"

definition OrphanCount :: "Chain \<Rightarrow> nat" where
  "OrphanCount c = fcard (fmdom (ch_orphanByHash c))"

definition Locator :: "Chain \<Rightarrow> hash list" where
  "Locator c =
     (case ch_tip c of None \<Rightarrow> []
      | Some tip \<Rightarrow>
        if ix_Hash tip = [] then []
        else (case hash_FromString (ix_Hash tip) of Inl _ \<Rightarrow> [] | Inr h \<Rightarrow> [h]))"

definition LegacyHeaderHash :: "BlockHeader \<Rightarrow> hash" where
  "LegacyHeaderHash header = DoubleHashB (header_Serialize header)"

definition LookupTransactionByIndex ::
    "string \<Rightarrow> Chain \<Rightarrow> store_error + MsgTx \<times> BlockIndex \<times> nat" where
  "LookupTransactionByIndex txid c =
     (case LookupTxIndex txid (ch_store c) of Inl e \<Rightarrow> Inl e
      | Inr rec \<Rightarrow>
        (case LoadBlock (tr_BlockHash rec) (ch_store c) of Inl e \<Rightarrow> Inl e
         | Inr (block, idx) \<Rightarrow>
           if tr_TxPosition rec \<ge> length (bk_Transactions block) then Inl ErrNotExist
           else Inr (bk_Transactions block ! tr_TxPosition rec, idx, tr_TxPosition rec)))"

text \<open>\<open>HeadersAfter\<close>: the height of the first known locator hash, then headers by height.\<close>

fun locatorHeight :: "hash list \<Rightarrow> FileStore \<Rightarrow> i32 option" where
  "locatorHeight [] s = None"
| "locatorHeight (h # hs) s =
     (case LoadBlock (hash_String h) s of Inl _ \<Rightarrow> locatorHeight hs s
      | Inr (_, idx) \<Rightarrow> Some (ix_Height idx))"

fun headers_walk ::
    "chainEnv \<Rightarrow> hash \<Rightarrow> i32 \<Rightarrow> nat \<Rightarrow> i32 \<Rightarrow> FileStore \<Rightarrow> (chain_error + BlockHeader list) \<times> FileStore" where
  "headers_walk E stop tipHeight 0 height s = (Inr [], s)"
| "headers_walk E stop tipHeight (Suc n) height s =
     (if tipHeight <s height then (Inr [], s)
      else (case LoadIndexByHeight height s of (Inl e, s) \<Rightarrow> (Inl (ErrStore e), s)
        | (Inr idx, s) \<Rightarrow>
          (case LoadBlock (ix_Hash idx) s of Inl e \<Rightarrow> (Inl (ErrStore e), s)
           | Inr (block, _) \<Rightarrow>
             (case hashHeader E (bk_Header block) of Inl e \<Rightarrow> (Inl e, s)
              | Inr hash \<Rightarrow>
                if \<not> hash_IsZero stop \<and> hash = stop then (Inr [bk_Header block], s)
                else (case headers_walk E stop tipHeight n (height + 1) s of (Inl e, s) \<Rightarrow> (Inl e, s)
                  | (Inr hs, s) \<Rightarrow> (Inr (bk_Header block # hs), s))))))"

definition HeadersAfter ::
    "chainEnv \<Rightarrow> hash list \<Rightarrow> hash \<Rightarrow> int \<Rightarrow> Chain \<Rightarrow> (chain_error + BlockHeader list) \<times> Chain" where
  "HeadersAfter E loc stop limit c =
     (if limit \<le> 0 then (Inr [], c)
      else (case ch_tip c of None \<Rightarrow> (Inr [], c)
        | Some tip \<Rightarrow>
          if ix_Hash tip = [] then (Inr [], c)
          else
            (case (if loc = [] then Some (-1) else locatorHeight loc (ch_store c)) of
               None \<Rightarrow> (Inr [], c)
             | Some startHeight \<Rightarrow>
               let (r, s) = headers_walk E stop (ix_Height tip) (min (nat limit) 2000) (startHeight + 1) (ch_store c)
               in (r, c\<lparr>ch_store := s\<rparr>))))"

end
