(* ===== verification/BlockAccounting.thy ===== *)
theory BlockAccounting
  imports BlockValidation
begin

text \<open>
  The bookkeeping invariant of the transaction loop: where the pending outputs, the spent
  entries and the fees come from, and that their values balance.
\<close>

section \<open>Values of finite maps of entries\<close>

definition entry_value :: "UTXOEntry \<Rightarrow> int" where
  "entry_value e = sint (ut_Value e)"

definition map_total :: "(string, UTXOEntry) fmap \<Rightarrow> int" where
  "map_total m = (\<Sum>k\<in>fset (fmdom m). entry_value (the (fmlookup m k)))"

definition list_total :: "UTXOEntry list \<Rightarrow> int" where
  "list_total es = (\<Sum>e\<leftarrow>es. entry_value e)"

lemma list_total_simps [simp]:
  "list_total [] = 0" "list_total (e # es) = entry_value e + list_total es"
  "list_total (es @ fs) = list_total es + list_total fs"
  by (simp_all add: list_total_def)

lemma map_total_empty [simp]: "map_total fmempty = 0"
  by (simp add: map_total_def)

lemma map_total_drop:
  assumes "fmlookup m k = Some e"
  shows "map_total (fmdrop k m) = map_total m - entry_value e"
proof -
  have k: "k \<in> fset (fmdom m)" using assms by (auto intro: fmdomI)
  have "map_total m = entry_value e + (\<Sum>x\<in>fset (fmdom m) - {k}. entry_value (the (fmlookup m x)))"
    using sum.remove [OF _ k, of "\<lambda>x. entry_value (the (fmlookup m x))"] assms by (simp add: map_total_def)
  also have "(\<Sum>x\<in>fset (fmdom m) - {k}. entry_value (the (fmlookup m x))) = map_total (fmdrop k m)"
    unfolding map_total_def by (intro sum.cong) (auto simp: fmlookup_drop)
  finally show ?thesis by simp
qed

lemma map_total_upd:
  assumes "k |\<notin>| fmdom m"
  shows "map_total (fmupd k e m) = map_total m + entry_value e"
proof -
  have "map_total (fmupd k e m) = entry_value e + (\<Sum>x\<in>fset (fmdom m). entry_value (the (fmlookup (fmupd k e m) x)))"
    using assms by (simp add: map_total_def)
  also have "(\<Sum>x\<in>fset (fmdom m). entry_value (the (fmlookup (fmupd k e m) x))) = map_total m"
    unfolding map_total_def using assms by (intro sum.cong) auto
  finally show ?thesis by simp
qed

text \<open>A list of keys without repetition that covers a map enumerates its entries.\<close>

lemma map_filter_total:
  assumes "distinct ks" "fset (fmdom m) \<subseteq> set ks"
  shows "list_total (List.map_filter (fmlookup m) ks) = map_total m"
proof -
  have "list_total (List.map_filter (fmlookup m) ks) =
      (\<Sum>k\<leftarrow>ks. case fmlookup m k of None \<Rightarrow> 0 | Some e \<Rightarrow> entry_value e)"
    by (induction ks) (auto simp: List.map_filter_def split: option.splits)
  also have "\<dots> = (\<Sum>k\<in>set ks. case fmlookup m k of None \<Rightarrow> 0 | Some e \<Rightarrow> entry_value e)"
    using assms(1) by (simp add: sum_list_distinct_conv_sum_set)
  also have "\<dots> = (\<Sum>k\<in>fset (fmdom m). case fmlookup m k of None \<Rightarrow> 0 | Some e \<Rightarrow> entry_value e)"
    using assms(2) by (intro sum.mono_neutral_right) (auto split: option.splits intro: fmdomI)
  also have "\<dots> = map_total m"
    unfolding map_total_def by (intro sum.cong) (auto split: option.splits dest: fmdom_notI)
  finally show ?thesis .
qed

lemma map_filter_keys:
  assumes "distinct ks" "\<And>k e. fmlookup m k = Some e \<Longrightarrow> ut_Key e = k"
  shows "distinct (map ut_Key (List.map_filter (fmlookup m) ks))" (is "distinct ?l")
    and "e \<in> set (List.map_filter (fmlookup m) ks) \<longleftrightarrow> ut_Key e \<in> set ks \<and> fmlookup m (ut_Key e) = Some e"
proof -
  have "map ut_Key (List.map_filter (fmlookup m) ks) = filter (\<lambda>k. fmlookup m k \<noteq> None) ks" for ks
  proof (induction ks)
    case (Cons k ks)
    then show ?case using assms(2) [of k] by (cases "fmlookup m k") (simp_all add: List.map_filter_def)
  qed (simp add: List.map_filter_def)
  then show "distinct ?l" using assms(1) by simp
  show "e \<in> set (List.map_filter (fmlookup m) ks) \<longleftrightarrow> ut_Key e \<in> set ks \<and> fmlookup m (ut_Key e) = Some e"
  proof
    assume "e \<in> set (List.map_filter (fmlookup m) ks)"
    then obtain k where "k \<in> set ks" "fmlookup m k = Some e" by (auto simp: List.map_filter_def)
    with assms(2) [of k e] show "ut_Key e \<in> set ks \<and> fmlookup m (ut_Key e) = Some e" by simp
  next
    assume "ut_Key e \<in> set ks \<and> fmlookup m (ut_Key e) = Some e"
    then show "e \<in> set (List.map_filter (fmlookup m) ks)"
      by (simp add: List.map_filter_def rev_image_eqI [where x = "ut_Key e"])
  qed
qed

section \<open>The invariant\<close>

definition bs_inv :: "(string \<Rightarrow> UTXOEntry option) \<Rightarrow> blockState \<Rightarrow> bool" where
  "bs_inv utxo st \<longleftrightarrow>
     distinct (bs_order st) \<and> fset (fmdom (bs_pending st)) \<subseteq> set (bs_order st) \<and>
     (\<forall>k e. fmlookup (bs_pending st) k = Some e \<longrightarrow> ut_Key e = k) \<and>
     list_all2 (\<lambda>k e. utxo k = Some e) (bs_spends st) (bs_spent st) \<and>
     distinct (bs_seenSpends st) \<and> distinct (bs_spends st) \<and>
     set (bs_spends st) \<subseteq> set (bs_seenSpends st) \<and>
     (\<forall>t\<in>set (bs_seenTx st). \<exists>h. t = hash_String h) \<and>
     (\<forall>k\<in>set (bs_order st). \<exists>t\<in>set (bs_seenTx st). \<exists>v. k = OutPointKey t v) \<and>
     MoneyRange (bs_fees st)"

text \<open>What the block adds to the UTXO set so far, less what it takes from it.\<close>

definition balance :: "blockState \<Rightarrow> int" where
  "balance st = map_total (bs_pending st) - list_total (bs_spent st) + sint (bs_fees st)"

lemma bs_inv_initial: "bs_inv utxo initialBlockState"
  by (simp add: bs_inv_def initialBlockState_def)

lemma bs_inv_seenTx:
  "bs_inv utxo st \<Longrightarrow> bs_inv utxo (st\<lparr>bs_seenTx := hash_String h # bs_seenTx st,
     bs_sigOps := n\<rparr>)"
  by (fastforce simp: bs_inv_def)

text \<open>One accepted input.\<close>

definition input_ok ::
    "crypto \<Rightarrow> (string \<Rightarrow> UTXOEntry option) \<Rightarrow> MsgTx \<Rightarrow> i32 \<Rightarrow> int \<Rightarrow> TxIn \<Rightarrow> blockState \<Rightarrow> UTXOEntry \<Rightarrow> bool" where
  "input_ok C utxo tx height i inp st prev \<longleftrightarrow>
     op_key (PreviousOutPoint inp) \<notin> set (bs_seenSpends st) \<and>
     (if op_key (PreviousOutPoint inp) |\<in>| fmdom (bs_pending st)
      then fmlookup (bs_pending st) (op_key (PreviousOutPoint inp)) = Some prev
      else utxo (op_key (PreviousOutPoint inp)) = Some prev) \<and>
     (ut_Coinbase prev \<longrightarrow> CoinbaseMaturity \<le>s height - ut_Height prev) \<and>
     (\<exists>pk. hex_decode (ut_PkScript prev) = Some pk \<and> VerifyInput C tx i pk = Inr ())"

definition input_step :: "TxIn \<Rightarrow> int \<Rightarrow> blockState \<Rightarrow> UTXOEntry \<Rightarrow> blockState" where
  "input_step inp sigOps st prev =
     (let key = op_key (PreviousOutPoint inp);
          st' = st\<lparr>bs_seenSpends := key # bs_seenSpends st, bs_sigOps := bs_sigOps st + sigOps\<rparr>
      in if key |\<in>| fmdom (bs_pending st) then st'\<lparr>bs_pending := fmdrop key (bs_pending st)\<rparr>
         else st'\<lparr>bs_spends := bs_spends st @ [key], bs_spent := bs_spent st @ [prev]\<rparr>)"

lemma check_inputs_Cons:
  assumes "check_inputs C utxo tx height i (inp # ins) t ops st = Inr (t', ops', st')"
  shows "\<exists>prev sigOps. input_ok C utxo tx height i inp st prev \<and> 0 \<le> sigOps \<and>
    MoneyRange (t + ut_Value prev) \<and>
    check_inputs C utxo tx height (i + 1) ins (t + ut_Value prev) (ops + sigOps)
      (input_step inp sigOps st prev) = Inr (t', ops', st')"
proof -
  have nn: "0 \<le> CountSigOps b" for b by (induction b rule: CountSigOps.induct) auto
  have "0 \<le> n" if "SigOpsForSpend C s p = Inr n" for s p n
    using that nn by (auto simp: SigOpsForSpend_def Let_def split: if_splits sum.splits intro!: add_nonneg_nonneg)
  with assms show ?thesis
    by (auto simp: Let_def input_ok_def input_step_def word_sle_eq word_sless_alt not_less
        split: if_splits option.splits sum.splits)
qed

lemma input_step_inv:
  assumes inv: "bs_inv utxo st" and ok: "input_ok C utxo tx height i inp st prev"
  shows "bs_inv utxo (input_step inp sigOps st prev) \<and>
    map_total (bs_pending (input_step inp sigOps st prev)) - list_total (bs_spent (input_step inp sigOps st prev)) =
      map_total (bs_pending st) - list_total (bs_spent st) - entry_value prev"
proof (cases "op_key (PreviousOutPoint inp) |\<in>| fmdom (bs_pending st)")
  case True
  with ok have "fmlookup (bs_pending st) (op_key (PreviousOutPoint inp)) = Some prev" by (simp add: input_ok_def)
  with True inv ok show ?thesis
    by (auto simp: input_step_def Let_def map_total_drop bs_inv_def input_ok_def fmlookup_drop split: if_splits)
next
  case False
  with inv ok show ?thesis
    by (auto simp: input_step_def Let_def bs_inv_def input_ok_def intro!: list_all2_appendI)
qed

lemma input_step_simps [simp]:
  "bs_order (input_step inp n st prev) = bs_order st" "bs_seenTx (input_step inp n st prev) = bs_seenTx st"
  "bs_coinbaseOut (input_step inp n st prev) = bs_coinbaseOut st" "bs_fees (input_step inp n st prev) = bs_fees st"
  by (simp_all add: input_step_def Let_def)

lemma check_inputs_inv:
  assumes "check_inputs C utxo tx height i ins t ops st = Inr (t', ops', st')"
    and "bs_inv utxo st" "MoneyRange t"
  shows "bs_inv utxo st' \<and> MoneyRange t' \<and>
    sint t' - sint t = (map_total (bs_pending st) - list_total (bs_spent st)) -
      (map_total (bs_pending st') - list_total (bs_spent st')) \<and>
    bs_order st' = bs_order st \<and> bs_seenTx st' = bs_seenTx st \<and>
    bs_coinbaseOut st' = bs_coinbaseOut st \<and> bs_fees st' = bs_fees st"
  using assms
proof (induction ins arbitrary: i t ops st)
  case (Cons inp ins)
  from check_inputs_Cons [OF Cons.prems(1)] obtain prev sigOps where
    ok: "input_ok C utxo tx height i inp st prev" and m: "MoneyRange (t + ut_Value prev)"
    and r: "check_inputs C utxo tx height (i + 1) ins (t + ut_Value prev) (ops + sigOps)
      (input_step inp sigOps st prev) = Inr (t', ops', st')" by blast
  note s = input_step_inv [OF Cons.prems(2) ok, of sigOps]
  from Cons.IH [OF r conjunct1 [OF s] m] s sint_add_checked [OF Cons.prems(3) m] show ?case
    by (simp add: entry_value_def)
qed simp

lemma add_created_inv:
  assumes "add_created es st = Inr st'" "bs_inv utxo st"
    and "\<forall>e\<in>set es. \<exists>t\<in>set (bs_seenTx st). \<exists>v. ut_Key e = OutPointKey t v"
    and "\<forall>e\<in>set es. ut_Key e \<notin> set (bs_order st) \<or> ut_Key e |\<in>| fmdom (bs_pending st)"
  shows "bs_inv utxo st' \<and> map_total (bs_pending st') = map_total (bs_pending st) + list_total es \<and>
    bs_spent st' = bs_spent st \<and> bs_spends st' = bs_spends st \<and> bs_fees st' = bs_fees st \<and>
    bs_coinbaseOut st' = bs_coinbaseOut st \<and> bs_seenTx st' = bs_seenTx st \<and>
    bs_seenSpends st' = bs_seenSpends st \<and> bs_sigOps st' = bs_sigOps st"
  using assms
proof (induction es arbitrary: st)
  case (Cons e es)
  define st1 where "st1 = st\<lparr>bs_pending := fmupd (ut_Key e) e (bs_pending st),
    bs_order := bs_order st @ [ut_Key e]\<rparr>"
  from Cons.prems(1) have n: "ut_Key e |\<notin>| fmdom (bs_pending st)" and r: "add_created es st1 = Inr st'"
    by (auto simp: st1_def split: if_splits)
  have "bs_inv utxo st1"
    using Cons.prems(2,3,4) n by (auto simp: bs_inv_def st1_def)
  moreover have "\<forall>e\<in>set es. ut_Key e \<notin> set (bs_order st1) \<or> ut_Key e |\<in>| fmdom (bs_pending st1)"
    using Cons.prems(4) by (auto simp: st1_def)
  moreover have "\<forall>e\<in>set es. \<exists>t\<in>set (bs_seenTx st1). \<exists>v. ut_Key e = OutPointKey t v"
    using Cons.prems(3) by (simp add: st1_def)
  ultimately show ?case using Cons.IH [OF r] n by (simp add: map_total_upd) (simp add: st1_def map_total_upd)
qed simp

section \<open>Transactions\<close>

lemma list_total_created:
  "list_total (createdOutputs height cb tx) = (\<Sum>out\<leftarrow>tx_TxOut tx. sint (out_Value out))"
proof -
  have "map entry_value (createdOutputs height cb tx) = map (\<lambda>out. sint (out_Value out)) (tx_TxOut tx)"
    unfolding createdOutputs_def
    by (rule nth_equalityI) (simp_all add: entry_value_def split: prod.splits)
  then show ?thesis by (simp only: list_total_def)
qed

lemma created_keys:
  "e \<in> set (createdOutputs height cb tx) \<Longrightarrow> \<exists>v. ut_Key e = OutPointKey (hash_String (TxHash tx)) v"
  by (auto simp: createdOutputs_def)

lemma created_key_fresh:
  assumes "bs_inv utxo st" "hash_String (TxHash tx) \<notin> set (bs_seenTx st)"
    and "e \<in> set (createdOutputs height cb tx)"
  shows "ut_Key e \<notin> set (bs_order st)"
proof
  assume "ut_Key e \<in> set (bs_order st)"
  with assms(1) obtain t v where t: "t \<in> set (bs_seenTx st)" "ut_Key e = OutPointKey t v"
    and h: "\<exists>h. t = hash_String h" by (auto simp: bs_inv_def)
  from created_keys [OF assms(3)] obtain w where "ut_Key e = OutPointKey (hash_String (TxHash tx)) w" ..
  with t h have "t = hash_String (TxHash tx)"
    using OutPointKey_inj [of t v "hash_String (TxHash tx)" w] by (auto simp: hash_String_no_colon)
  with t assms(2) show False by simp
qed

text \<open>The successful path of \<open>check_tx\<close>, step by step.\<close>

lemma check_tx_steps:
  assumes "check_tx C utxo height bt n tx st = Inr st'"
  obtains totalOut st1 where
    "(n = 0 \<or> \<not> isCoinbase tx) \<and> (n = 0 \<or> tx_TxIn tx \<noteq> []) \<and> IsFinalizedTx tx height bt"
    "hash_String (TxHash tx) \<notin> set (bs_seenTx st)"
    "check_outputs 0 (tx_TxOut tx) = Inr totalOut"
    "st1 = st\<lparr>bs_seenTx := hash_String (TxHash tx) # bs_seenTx st, bs_sigOps := bs_sigOps st + outputSigOps tx\<rparr>"
    "n = 0 \<Longrightarrow> add_created (createdOutputs height True tx) (st1\<lparr>bs_coinbaseOut := totalOut\<rparr>) = Inr st' \<and>
       bs_sigOps st1 \<le> MaxBlockSigOps"
    "n \<noteq> 0 \<Longrightarrow> \<exists>totalIn ops st2.
       check_inputs C utxo tx height 0 (tx_TxIn tx) 0 (outputSigOps tx) st1 = Inr (totalIn, ops, st2) \<and>
       \<not> tooManySigOps ops st2 \<and> totalOut \<le>s totalIn \<and>
       MoneyRange (bs_fees st2 + (totalIn - totalOut)) \<and>
       add_created (createdOutputs height False tx) (st2\<lparr>bs_fees := bs_fees st2 + (totalIn - totalOut)\<rparr>) = Inr st'"
  using assms
  by (auto simp: check_tx_def Let_def tooManySigOps_def word_sle_eq word_sless_alt not_less
      split: if_splits sum.splits)

lemma check_tx_inv:
  assumes "check_tx C utxo height bt n tx st = Inr st'" "bs_inv utxo st"
  shows "bs_inv utxo st' \<and>
    (if n = 0 then balance st' = balance st + sint (bs_coinbaseOut st')
     else balance st' = balance st \<and> bs_coinbaseOut st' = bs_coinbaseOut st)"
  using assms(1)
proof (rule check_tx_steps)
  fix totalOut st1
  let ?id = "hash_String (TxHash tx)"
  assume new: "?id \<notin> set (bs_seenTx st)" and out: "check_outputs 0 (tx_TxOut tx) = Inr totalOut"
    and st1: "st1 = st\<lparr>bs_seenTx := ?id # bs_seenTx st, bs_sigOps := bs_sigOps st + outputSigOps tx\<rparr>"
    and zero: "n = 0 \<Longrightarrow> add_created (createdOutputs height True tx) (st1\<lparr>bs_coinbaseOut := totalOut\<rparr>) = Inr st' \<and>
       bs_sigOps st1 \<le> MaxBlockSigOps"
    and more: "n \<noteq> 0 \<Longrightarrow> \<exists>totalIn ops st2.
       check_inputs C utxo tx height 0 (tx_TxIn tx) 0 (outputSigOps tx) st1 = Inr (totalIn, ops, st2) \<and>
       \<not> tooManySigOps ops st2 \<and> totalOut \<le>s totalIn \<and>
       MoneyRange (bs_fees st2 + (totalIn - totalOut)) \<and>
       add_created (createdOutputs height False tx) (st2\<lparr>bs_fees := bs_fees st2 + (totalIn - totalOut)\<rparr>) = Inr st'"
  note o = check_outputs_total [OF out MoneyRange_0]
  have inv1: "bs_inv utxo st1" unfolding st1 by (rule bs_inv_seenTx [OF assms(2)])
  have created: "\<forall>e\<in>set (createdOutputs height cb tx). \<exists>t\<in>set (bs_seenTx u). \<exists>v. ut_Key e = OutPointKey t v"
    "\<forall>e\<in>set (createdOutputs height cb tx). ut_Key e \<notin> set (bs_order u) \<or> ut_Key e |\<in>| fmdom (bs_pending u)"
    if "bs_seenTx u = ?id # bs_seenTx st" "bs_order u = bs_order st" for u :: blockState and cb
    using that created_keys created_key_fresh [OF assms(2) new] by fastforce+
  show ?thesis
  proof (cases "n = 0")
    case True
    let ?u = "st1\<lparr>bs_coinbaseOut := totalOut\<rparr>"
    have "bs_inv utxo ?u" using inv1 by (simp add: bs_inv_def)
    from add_created_inv [OF conjunct1 [OF zero [OF True]] this] created [of ?u True] o True show ?thesis
      by (simp add: balance_def list_total_created) (simp add: st1)
  next
    case False
    from more [OF this] obtain totalIn ops st2 where
      ins: "check_inputs C utxo tx height 0 (tx_TxIn tx) 0 (outputSigOps tx) st1 = Inr (totalIn, ops, st2)"
      and fee: "MoneyRange (bs_fees st2 + (totalIn - totalOut))"
      and add: "add_created (createdOutputs height False tx)
        (st2\<lparr>bs_fees := bs_fees st2 + (totalIn - totalOut)\<rparr>) = Inr st'" by blast
    note i = check_inputs_inv [OF ins inv1 MoneyRange_0]
    let ?u = "st2\<lparr>bs_fees := bs_fees st2 + (totalIn - totalOut)\<rparr>"
    have f: "sint (bs_fees st2 + (totalIn - totalOut)) = sint (bs_fees st2) + (sint totalIn - sint totalOut)"
      using sint_add_checked [OF _ fee] sint_sub_money [of totalIn totalOut] i o
      unfolding bs_inv_def by metis
    have "bs_inv utxo ?u" using conjunct1 [OF i] fee unfolding bs_inv_def by simp
    from add_created_inv [OF add this] created [of ?u False] i o f False show ?thesis
      by (simp add: balance_def list_total_created st1)
  qed
qed

lemma check_txs_inv:
  assumes "check_txs C utxo height bt n txs st = Inr st'" "bs_inv utxo st" "0 < n"
  shows "bs_inv utxo st' \<and> balance st' = balance st \<and> bs_coinbaseOut st' = bs_coinbaseOut st"
  using assms
proof (induction txs arbitrary: n st)
  case (Cons tx txs)
  then obtain st1 where s: "check_tx C utxo height bt n tx st = Inr st1"
    and r: "check_txs C utxo height bt (n + 1) txs st1 = Inr st'"
    by (auto split: sum.splits)
  from check_tx_inv [OF s Cons.prems(2)] Cons.prems(3) Cons.IH [OF r] show ?case by simp
qed simp

section \<open>The whole block\<close>

lemma validate_steps:
  assumes "validateBlockTransactions C utxo block height = Inr (adds, spends, spent)"
  obtains coinbase txs st where
    "bk_Transactions block = coinbase # txs" "isCoinbase coinbase"
    "length (block_Serialize block) \<le> 1000000"
    "check_txs C utxo height (hd_Timestamp (bk_Header block)) 0 (coinbase # txs) initialBlockState = Inr st"
    "bs_coinbaseOut st \<le>s BlockSubsidy height + bs_fees st" "MoneyRange (bs_coinbaseOut st)"
    "adds = pendingInOrder st" "spends = bs_spends st" "spent = bs_spent st"
  using assms
  by (auto simp: validateBlockTransactions_def Let_def word_sle_eq word_sless_alt not_less
      maxBlockSerializedSize_def split: list.splits if_splits sum.splits)

lemma validate_inv:
  assumes "check_txs C utxo height bt 0 (coinbase # txs) initialBlockState = Inr st"
  shows "bs_inv utxo st \<and> balance st = sint (bs_coinbaseOut st)"
proof -
  from assms obtain st1 where s: "check_tx C utxo height bt 0 coinbase initialBlockState = Inr st1"
    and r: "check_txs C utxo height bt 1 txs st1 = Inr st"
    by (auto split: sum.splits)
  have "balance initialBlockState = 0" by (simp add: balance_def initialBlockState_def)
  with check_tx_inv [OF s bs_inv_initial] check_txs_inv [OF r] show ?thesis by simp
qed

text \<open>
  What a validated block does to the UTXO set: it removes stored entries, each once, adds
  entries under new keys, each once, and adds at most the subsidy to the total value.
\<close>

lemma validate_effect:
  assumes "validateBlockTransactions C utxo block height = Inr (adds, spends, spent)"
  shows "list_all2 (\<lambda>k e. utxo k = Some e) spends spent" "distinct spends" "distinct (map ut_Key adds)"
    "list_total adds \<le> list_total spent + sint (BlockSubsidy height)"
proof -
  from assms obtain coinbase txs st where
    txs: "check_txs C utxo height (hd_Timestamp (bk_Header block)) 0 (coinbase # txs) initialBlockState = Inr st"
    and cb: "bs_coinbaseOut st \<le>s BlockSubsidy height + bs_fees st"
    and eqs: "adds = pendingInOrder st" "spends = bs_spends st" "spent = bs_spent st"
    by (rule validate_steps)
  note inv = validate_inv [OF txs]
  then show "list_all2 (\<lambda>k e. utxo k = Some e) spends spent" "distinct spends"
    by (simp_all add: eqs bs_inv_def)
  have order: "distinct (bs_order st)" "fset (fmdom (bs_pending st)) \<subseteq> set (bs_order st)"
    and keys: "\<And>k e. fmlookup (bs_pending st) k = Some e \<Longrightarrow> ut_Key e = k"
    and fees: "MoneyRange (bs_fees st)"
    using inv by (auto simp: bs_inv_def)
  show "distinct (map ut_Key adds)"
    unfolding eqs pendingInOrder_def using map_filter_keys(1) [OF order(1) keys] .
  have "list_total adds = map_total (bs_pending st)"
    unfolding eqs pendingInOrder_def by (rule map_filter_total [OF order])
  moreover have "sint (BlockSubsidy height + bs_fees st) = sint (BlockSubsidy height) + sint (bs_fees st)"
    by (rule sint_add_money [OF BlockSubsidy_money fees])
  ultimately show "list_total adds \<le> list_total spent + sint (BlockSubsidy height)"
    using inv cb by (simp add: balance_def eqs word_sle_eq)
qed

text \<open>A stored entry is filed under its own key.\<close>

lemma validate_spent_keys:
  assumes "validateBlockTransactions C utxo block height = Inr (adds, spends, spent)"
    and "\<And>k e. utxo k = Some e \<Longrightarrow> ut_Key e = k"
  shows "map ut_Key spent = spends" "\<forall>e\<in>set spent. utxo (ut_Key e) = Some e"
proof -
  note l = validate_effect(1) [OF assms(1)]
  then show "map ut_Key spent = spends"
    using assms(2) by (induction rule: list_all2_induct) auto
  from l show "\<forall>e\<in>set spent. utxo (ut_Key e) = Some e"
  proof (induction rule: list_all2_induct)
    case (Cons k ks e es)
    then show ?case using assms(2) [of k e] by auto
  qed simp
qed

section \<open>Every input is checked\<close>

definition in_key :: "TxIn \<Rightarrow> string" where
  "in_key inp = op_key (PreviousOutPoint inp)"

text \<open>An input that spends an available entry with a valid signature script.\<close>

definition spends_ok ::
    "crypto \<Rightarrow> UTXOEntry set \<Rightarrow> (string \<Rightarrow> UTXOEntry option) \<Rightarrow> i32 \<Rightarrow> MsgTx \<Rightarrow> nat \<Rightarrow> bool" where
  "spends_ok C created utxo height tx j \<longleftrightarrow>
     (\<exists>prev pk. (utxo (in_key (tx_TxIn tx ! j)) = Some prev \<or>
                 (prev \<in> created \<and> ut_Key prev = in_key (tx_TxIn tx ! j))) \<and>
        (ut_Coinbase prev \<longrightarrow> CoinbaseMaturity \<le>s height - ut_Height prev) \<and>
        hex_decode (ut_PkScript prev) = Some pk \<and> VerifyInput C tx (int j) pk = Inr ())"

definition pending_from :: "UTXOEntry set \<Rightarrow> blockState \<Rightarrow> bool" where
  "pending_from created st \<longleftrightarrow> (\<forall>k e. fmlookup (bs_pending st) k = Some e \<longrightarrow> e \<in> created \<and> ut_Key e = k)"

lemma check_inputs_spends:
  assumes "check_inputs C utxo tx height (int i) (drop i (tx_TxIn tx)) t ops st = Inr (t', ops', st')"
    and "pending_from created st"
  shows "pending_from created st' \<and> (\<forall>j\<in>{i..<length (tx_TxIn tx)}. spends_ok C created utxo height tx j) \<and>
    bs_seenSpends st' = rev (map in_key (drop i (tx_TxIn tx))) @ bs_seenSpends st \<and>
    distinct (map in_key (drop i (tx_TxIn tx))) \<and>
    set (map in_key (drop i (tx_TxIn tx))) \<inter> set (bs_seenSpends st) = {}"
  using assms
proof (induction "length (tx_TxIn tx) - i" arbitrary: i t ops st)
  case 0
  then show ?case by auto
next
  case (Suc n)
  then have i: "i < length (tx_TxIn tx)" by simp
  let ?inp = "tx_TxIn tx ! i"
  have d: "drop i (tx_TxIn tx) = ?inp # drop (Suc i) (tx_TxIn tx)" using i by (simp add: Cons_nth_drop_Suc)
  from check_inputs_Cons [OF Suc.prems(1) [unfolded d]] obtain prev sigOps where
    ok: "input_ok C utxo tx height (int i) ?inp st prev"
    and r: "check_inputs C utxo tx height (int (Suc i)) (drop (Suc i) (tx_TxIn tx)) (t + ut_Value prev)
      (ops + sigOps) (input_step ?inp sigOps st prev) = Inr (t', ops', st')" by (auto simp: add.commute)
  have "spends_ok C created utxo height tx i"
    using ok Suc.prems(2) by (auto simp: spends_ok_def input_ok_def in_key_def pending_from_def split: if_splits)
  moreover have "pending_from created (input_step ?inp sigOps st prev)"
    using Suc.prems(2) by (auto simp: pending_from_def input_step_def Let_def fmlookup_drop split: if_splits)
  moreover have "bs_seenSpends (input_step ?inp sigOps st prev) = in_key ?inp # bs_seenSpends st"
    by (simp add: input_step_def Let_def in_key_def)
  moreover have "in_key ?inp \<notin> set (bs_seenSpends st)" using ok by (simp add: input_ok_def in_key_def)
  moreover have "{i..<length (tx_TxIn tx)} = insert i {Suc i..<length (tx_TxIn tx)}" using i by auto
  ultimately show ?case
    using Suc.hyps(1) [OF _ r] Suc.hyps(2) unfolding d by auto
qed

lemma add_created_pending:
  assumes "add_created es st = Inr st'" "pending_from created st"
  shows "pending_from (created \<union> set es) st' \<and> bs_seenSpends st' = bs_seenSpends st"
  using assms
proof (induction es arbitrary: st created)
  case (Cons e es)
  let ?st = "st\<lparr>bs_pending := fmupd (ut_Key e) e (bs_pending st), bs_order := bs_order st @ [ut_Key e]\<rparr>"
  from Cons.prems have "add_created es ?st = Inr st'" "pending_from (insert e created) ?st"
    by (auto simp: pending_from_def split: if_splits)
  from Cons.IH [OF this] show ?case by simp
qed simp

definition created_in :: "i32 \<Rightarrow> MsgTx list \<Rightarrow> UTXOEntry set" where
  "created_in height txs = (\<Union>tx\<in>set txs. \<Union>cb. set (createdOutputs height cb tx))"

lemma spends_ok_mono: "spends_ok C A utxo height tx j \<Longrightarrow> A \<subseteq> B \<Longrightarrow> spends_ok C B utxo height tx j"
  unfolding spends_ok_def by blast

lemma check_tx_spends:
  assumes "check_tx C utxo height bt n tx st = Inr st'" "pending_from (created_in height before) st"
  shows "pending_from (created_in height (before @ [tx])) st' \<and>
    (n = 0 \<longrightarrow> bs_seenSpends st' = bs_seenSpends st) \<and>
    (n \<noteq> 0 \<longrightarrow> (\<forall>j<length (tx_TxIn tx). spends_ok C (created_in height before) utxo height tx j) \<and>
       bs_seenSpends st' = rev (map in_key (tx_TxIn tx)) @ bs_seenSpends st \<and>
       distinct (map in_key (tx_TxIn tx)) \<and> set (map in_key (tx_TxIn tx)) \<inter> set (bs_seenSpends st) = {})"
  using assms(1)
proof (rule check_tx_steps)
  fix totalOut st1
  assume st1: "st1 = st\<lparr>bs_seenTx := hash_String (TxHash tx) # bs_seenTx st, bs_sigOps := bs_sigOps st + outputSigOps tx\<rparr>"
    and zero: "n = 0 \<Longrightarrow> add_created (createdOutputs height True tx) (st1\<lparr>bs_coinbaseOut := totalOut\<rparr>) = Inr st' \<and>
       bs_sigOps st1 \<le> MaxBlockSigOps"
    and more: "n \<noteq> 0 \<Longrightarrow> \<exists>totalIn ops st2.
       check_inputs C utxo tx height 0 (tx_TxIn tx) 0 (outputSigOps tx) st1 = Inr (totalIn, ops, st2) \<and>
       \<not> tooManySigOps ops st2 \<and> totalOut \<le>s totalIn \<and>
       MoneyRange (bs_fees st2 + (totalIn - totalOut)) \<and>
       add_created (createdOutputs height False tx) (st2\<lparr>bs_fees := bs_fees st2 + (totalIn - totalOut)\<rparr>) = Inr st'"
  have mono: "pending_from A u \<Longrightarrow> A \<subseteq> B \<Longrightarrow> pending_from B u" for A B u
    unfolding pending_from_def by blast
  have sub: "created_in height before \<union> set (createdOutputs height cb tx) \<subseteq> created_in height (before @ [tx])" for cb
    by (auto simp: created_in_def)
  have p1: "pending_from (created_in height before) (st1\<lparr>bs_coinbaseOut := v\<rparr>)"
    "pending_from (created_in height before) st1" for v
    using assms(2) by (simp_all add: pending_from_def st1)
  show ?thesis
  proof (cases "n = 0")
    case True
    from add_created_pending [OF conjunct1 [OF zero [OF True]] p1(1)] True sub mono show ?thesis
      by (auto simp: st1)
  next
    case False
    from more [OF this] obtain totalIn ops st2 where
      ins: "check_inputs C utxo tx height (int 0) (drop 0 (tx_TxIn tx)) 0 (outputSigOps tx) st1 = Inr (totalIn, ops, st2)"
      and add: "add_created (createdOutputs height False tx)
        (st2\<lparr>bs_fees := bs_fees st2 + (totalIn - totalOut)\<rparr>) = Inr st'" by auto
    note i = check_inputs_spends [OF ins p1(2)]
    have "pending_from (created_in height before) (st2\<lparr>bs_fees := bs_fees st2 + (totalIn - totalOut)\<rparr>)"
      using i by (simp add: pending_from_def)
    from add_created_pending [OF add this] i False sub mono show ?thesis by (auto simp: st1)
  qed
qed

lemma check_txs_spends:
  assumes "check_txs C utxo height bt n txs st = Inr st'" "pending_from (created_in height before) st" "0 < n"
  shows "(\<forall>tx\<in>set txs. \<forall>j<length (tx_TxIn tx). spends_ok C (created_in height (before @ txs)) utxo height tx j) \<and>
    distinct (concat (map (\<lambda>tx. map in_key (tx_TxIn tx)) txs)) \<and>
    set (concat (map (\<lambda>tx. map in_key (tx_TxIn tx)) txs)) \<inter> set (bs_seenSpends st) = {}"
  using assms
proof (induction txs arbitrary: n st before)
  case (Cons tx txs)
  then obtain st1 where s: "check_tx C utxo height bt n tx st = Inr st1"
    and r: "check_txs C utxo height bt (n + 1) txs st1 = Inr st'"
    by (auto split: sum.splits)
  note c = check_tx_spends [OF s Cons.prems(2)]
  note ih = Cons.IH [OF r conjunct1 [OF c]]
  have "created_in height before \<subseteq> created_in height (before @ tx # txs)" by (auto simp: created_in_def)
  then have "\<forall>j<length (tx_TxIn tx). spends_ok C (created_in height (before @ tx # txs)) utxo height tx j"
    using c Cons.prems(3) spends_ok_mono by blast
  moreover define A where "A = map in_key (tx_TxIn tx)"
  moreover define B where "B = concat (map (\<lambda>tx. map in_key (tx_TxIn tx)) txs)"
  moreover have "distinct (A @ B) \<and> set (A @ B) \<inter> set (bs_seenSpends st) = {}"
  proof -
    have seen: "bs_seenSpends st1 = rev A @ bs_seenSpends st" and A: "distinct A"
      "set A \<inter> set (bs_seenSpends st) = {}"
      using c Cons.prems(3) by (simp_all add: A_def)
    have "distinct B" "set B \<inter> set (bs_seenSpends st1) = {}" using ih by (simp_all add: B_def)
    with seen A show ?thesis by auto
  qed
  ultimately show ?case using ih by simp
qed simp

lemma validate_spends:
  assumes "validateBlockTransactions C utxo block height = Inr (adds, spends, spent)"
  shows "\<forall>tx\<in>set (tl (bk_Transactions block)). \<forall>j<length (tx_TxIn tx).
      spends_ok C (created_in height (bk_Transactions block)) utxo height tx j"
    and "distinct (concat (map (\<lambda>tx. map in_key (tx_TxIn tx)) (tl (bk_Transactions block))))"
proof -
  from assms obtain coinbase txs st where b: "bk_Transactions block = coinbase # txs"
    and txs: "check_txs C utxo height (hd_Timestamp (bk_Header block)) 0 (coinbase # txs) initialBlockState = Inr st"
    by (rule validate_steps)
  from txs obtain st1 where s: "check_tx C utxo height (hd_Timestamp (bk_Header block)) 0 coinbase initialBlockState = Inr st1"
    and r: "check_txs C utxo height (hd_Timestamp (bk_Header block)) 1 txs st1 = Inr st"
    by (auto split: sum.splits)
  have "pending_from (created_in height []) initialBlockState"
    by (simp add: pending_from_def initialBlockState_def)
  from check_txs_spends [OF r conjunct1 [OF check_tx_spends [OF s this]]]
  show "\<forall>tx\<in>set (tl (bk_Transactions block)). \<forall>j<length (tx_TxIn tx).
      spends_ok C (created_in height (bk_Transactions block)) utxo height tx j"
    "distinct (concat (map (\<lambda>tx. map in_key (tx_TxIn tx)) (tl (bk_Transactions block))))"
    by (simp_all add: b)
qed

section \<open>The entries a block adds\<close>

text \<open>
  An entry as validation creates it: an amount in range, under the key of its outpoint, at the
  block's height.
\<close>

definition entry_ok :: "UTXOEntry \<Rightarrow> bool" where
  "entry_ok e \<longleftrightarrow> MoneyRange (ut_Value e) \<and> ut_Key e \<in> range op_key"

lemma entry_ok_value: "entry_ok e \<Longrightarrow> 0 \<le> entry_value e"
  by (simp add: entry_ok_def entry_value_def MoneyRange_sint)

lemma created_ok:
  assumes "e \<in> set (createdOutputs height cb tx)" "check_outputs 0 (tx_TxOut tx) = Inr t"
  shows "entry_ok e"
proof -
  from assms(1) obtain i out where e: "out \<in> set (tx_TxOut tx)" "ut_Value e = out_Value out"
    "ut_Key e = OutPointKey (hash_String (TxHash tx)) (of_nat i)"
    by (auto simp: createdOutputs_def dest: set_zip_rightD)
  have "ut_Key e = op_key \<lparr>op_Hash = TxHash tx, op_Index = of_nat i\<rparr>" by (simp add: e op_key_def)
  moreover have "MoneyRange (ut_Value e)" using check_outputs_total [OF assms(2)] e by simp
  ultimately show ?thesis by (simp add: entry_ok_def)
qed

text \<open>The transactions so far, the spends and the pending entries are all well formed.\<close>

definition bs_ok :: "blockState \<Rightarrow> bool" where
  "bs_ok st \<longleftrightarrow> (\<forall>e\<in>fmran' (bs_pending st). entry_ok e) \<and> set (bs_spends st) \<subseteq> range op_key"

lemma fmran'_upd: "e \<in> fmran' (fmupd k v m) \<Longrightarrow> e = v \<or> e \<in> fmran' m"
  by (auto simp: fmran'_def split: if_splits)

lemma fmran'_drop: "e \<in> fmran' (fmdrop k m) \<Longrightarrow> e \<in> fmran' m"
  by (auto simp: fmran'_def split: if_splits)

lemma bs_ok_initial: "bs_ok initialBlockState"
  by (auto simp: bs_ok_def initialBlockState_def fmran'_def)

lemma bs_ok_add_created:
  "add_created es st = Inr st' \<Longrightarrow> bs_ok st \<Longrightarrow> \<forall>e\<in>set es. entry_ok e \<Longrightarrow> bs_ok st'"
proof (induction es arbitrary: st)
  case (Cons e es)
  let ?st = "st\<lparr>bs_pending := fmupd (ut_Key e) e (bs_pending st), bs_order := bs_order st @ [ut_Key e]\<rparr>"
  from Cons.prems have "add_created es ?st = Inr st'" "bs_ok ?st"
    by (auto simp: bs_ok_def dest: fmran'_upd split: if_splits)
  with Cons.prems(3) show ?case using Cons.IH by simp
qed simp

lemma bs_ok_inputs:
  "check_inputs C utxo tx height i ins t ops st = Inr (t', ops', st') \<Longrightarrow> bs_ok st \<Longrightarrow> bs_ok st'"
proof (induction ins arbitrary: i t ops st)
  case (Cons inp ins)
  from check_inputs_Cons [OF Cons.prems(1)] obtain prev sigOps where
    r: "check_inputs C utxo tx height (i + 1) ins (t + ut_Value prev) (ops + sigOps)
      (input_step inp sigOps st prev) = Inr (t', ops', st')" by blast
  have "bs_ok (input_step inp sigOps st prev)"
    using Cons.prems(2) by (auto simp: bs_ok_def input_step_def Let_def dest: fmran'_drop)
  from Cons.IH [OF r this] show ?case .
qed simp

lemma bs_ok_tx:
  assumes "check_tx C utxo height bt n tx st = Inr st'" "bs_ok st"
  shows "bs_ok st'"
  using assms(1)
proof (rule check_tx_steps)
  fix totalOut st1
  assume outs: "check_outputs 0 (tx_TxOut tx) = Inr totalOut"
    and st1: "st1 = st\<lparr>bs_seenTx := hash_String (TxHash tx) # bs_seenTx st, bs_sigOps := bs_sigOps st + outputSigOps tx\<rparr>"
    and zero: "n = 0 \<Longrightarrow> add_created (createdOutputs height True tx) (st1\<lparr>bs_coinbaseOut := totalOut\<rparr>) = Inr st' \<and>
       bs_sigOps st1 \<le> MaxBlockSigOps"
    and more: "n \<noteq> 0 \<Longrightarrow> \<exists>totalIn ops st2.
       check_inputs C utxo tx height 0 (tx_TxIn tx) 0 (outputSigOps tx) st1 = Inr (totalIn, ops, st2) \<and>
       \<not> tooManySigOps ops st2 \<and> totalOut \<le>s totalIn \<and>
       MoneyRange (bs_fees st2 + (totalIn - totalOut)) \<and>
       add_created (createdOutputs height False tx) (st2\<lparr>bs_fees := bs_fees st2 + (totalIn - totalOut)\<rparr>) = Inr st'"
  have ok: "bs_ok st1" "\<And>v. bs_ok (st1\<lparr>bs_coinbaseOut := v\<rparr>)"
    using assms(2) by (simp_all add: bs_ok_def st1)
  show ?thesis
  proof (cases "n = 0")
    case True
    with zero show ?thesis using bs_ok_add_created ok(2) created_ok [OF _ outs] by blast
  next
    case False
    from more [OF this] obtain totalIn ops st2 where
      ins: "check_inputs C utxo tx height 0 (tx_TxIn tx) 0 (outputSigOps tx) st1 = Inr (totalIn, ops, st2)"
      and add: "add_created (createdOutputs height False tx)
        (st2\<lparr>bs_fees := bs_fees st2 + (totalIn - totalOut)\<rparr>) = Inr st'" by blast
    have "bs_ok (st2\<lparr>bs_fees := bs_fees st2 + (totalIn - totalOut)\<rparr>)"
      using bs_ok_inputs [OF ins ok(1)] by (simp add: bs_ok_def)
    from bs_ok_add_created [OF add this] created_ok [OF _ outs] show ?thesis by blast
  qed
qed

lemma bs_ok_txs: "check_txs C utxo height bt n txs st = Inr st' \<Longrightarrow> bs_ok st \<Longrightarrow> bs_ok st'"
  by (induction txs arbitrary: n st) (auto split: sum.splits dest: bs_ok_tx)

lemma validate_entries:
  assumes "validateBlockTransactions C utxo block height = Inr (adds, spends, spent)"
  shows "\<forall>e\<in>set adds. entry_ok e" "set spends \<subseteq> range op_key"
proof -
  from assms obtain coinbase txs st where
    txs: "check_txs C utxo height (hd_Timestamp (bk_Header block)) 0 (coinbase # txs) initialBlockState = Inr st"
    and eqs: "adds = pendingInOrder st" "spends = bs_spends st" by (rule validate_steps)
  have ok: "bs_ok st" by (rule bs_ok_txs [OF txs bs_ok_initial])
  then show "set spends \<subseteq> range op_key" by (simp add: bs_ok_def eqs)
  have "set adds \<subseteq> fmran' (bs_pending st)"
    by (auto simp: eqs pendingInOrder_def List.map_filter_def intro: fmran'I split: option.splits)
  with ok show "\<forall>e\<in>set adds. entry_ok e" by (auto simp: bs_ok_def)
qed

end
