(* ===== verification/StorageCrash.thy ===== *)
theory StorageCrash
  imports Storage
begin

text \<open>
  Interrupted operations of the file store: the journal brings every interrupted connect back
  to the old or the new chain state, and every interrupted disconnect to the new one.
\<close>

section \<open>Executing steps\<close>

lemma exec_Nil [simp]: "exec [] s = s"
  by (simp add: exec_def)

lemma exec_Cons [simp]: "exec (f # fs) s = exec fs (f s)"
  by (simp add: exec_def)

lemma exec_append [simp]: "exec (fs @ gs) s = exec gs (exec fs s)"
  by (simp add: exec_def)

text \<open>A predicate kept by every step of a list is kept by every prefix of it.\<close>

lemma exec_invariant:
  assumes "P s" "\<And>f t. f \<in> set fs \<Longrightarrow> P t \<Longrightarrow> P (f t)"
  shows "P (exec fs s)"
  using assms by (induction fs arbitrary: s) auto

lemma exec_prefix_invariant:
  assumes "P s" "\<And>f t. f \<in> set fs \<Longrightarrow> P t \<Longrightarrow> P (f t)"
  shows "P (exec (take n fs) s)"
  by (rule exec_invariant [where P = P]) (use assms in \<open>auto dest: in_set_takeD\<close>)

section \<open>Steps on the UTXO directory\<close>

lemma utxo_removes:
  "exec (map removeUTXO ks) s = s\<lparr>fs_utxo := fold (\<lambda>k. fmdrop (utxoFile k)) ks (fs_utxo s)\<rparr>"
  by (induction ks arbitrary: s) (simp_all add: removeUTXO_def)

lemma utxo_writes:
  "exec (map writeUTXO es) s = s\<lparr>fs_utxo := fold (\<lambda>e. fmupd (utxoFile (ut_Key e)) e) es (fs_utxo s)\<rparr>"
  by (induction es arbitrary: s) (simp_all add: writeUTXO_def)

lemma lookup_drops:
  "fmlookup (fold (\<lambda>k. fmdrop (utxoFile k)) ks m) f = (if f \<in> utxoFile ` set ks then None else fmlookup m f)"
  by (induction ks arbitrary: m) auto

lemma lookup_writes_other:
  "f \<notin> (utxoFile \<circ> ut_Key) ` set es \<Longrightarrow>
     fmlookup (fold (\<lambda>e. fmupd (utxoFile (ut_Key e)) e) es m) f = fmlookup m f"
  by (induction es arbitrary: m) auto

lemma lookup_writes_same:
  assumes "f \<in> (utxoFile \<circ> ut_Key) ` set es"
  shows "\<exists>e\<in>set es. utxoFile (ut_Key e) = f \<and>
    fmlookup (fold (\<lambda>e. fmupd (utxoFile (ut_Key e)) e) es m) f = Some e"
  using assms
proof (induction es arbitrary: m)
  case (Cons e es)
  show ?case
  proof (cases "f \<in> (utxoFile \<circ> ut_Key) ` set es")
    case True
    with Cons.IH show ?thesis by auto
  next
    case False
    with Cons.prems show ?thesis by (auto simp: lookup_writes_other)
  qed
qed simp

text \<open>The result of writing entries over two maps agrees on the files written.\<close>

lemma lookup_writes_indep:
  "f \<in> (utxoFile \<circ> ut_Key) ` set es \<Longrightarrow>
     fmlookup (fold (\<lambda>e. fmupd (utxoFile (ut_Key e)) e) es m) f =
     fmlookup (fold (\<lambda>e. fmupd (utxoFile (ut_Key e)) e) es m') f"
proof (induction es arbitrary: m m')
  case (Cons e es)
  show ?case
  proof (cases "f \<in> (utxoFile \<circ> ut_Key) ` set es")
    case True
    with Cons.IH show ?thesis by simp
  next
    case False
    with Cons.prems show ?thesis by (simp add: lookup_writes_other)
  qed
qed simp

section \<open>The chain state of a store\<close>

text \<open>Everything but the optional indexes.\<close>

definition chainstate :: "FileStore \<Rightarrow> FileStore" where
  "chainstate s = s\<lparr>fs_txIndex := fmempty, fs_addrTxIDs := fmempty, fs_addrUTXO := fmempty,
     fs_addrHistory := fmempty\<rparr>"

definition forgetBlock :: "string \<Rightarrow> i32 \<Rightarrow> FileStore \<Rightarrow> FileStore" where
  "forgetBlock hash height s =
     s\<lparr>fs_blocks := fmdrop hash (fs_blocks s), fs_hashIndex := fmdrop hash (fs_hashIndex s),
       fs_heightIndex := fmdrop height (fs_heightIndex s), fs_undo := fmdrop hash (fs_undo s)\<rparr>"

text \<open>
  \<open>t\<close> differs from \<open>s\<close> at most in the optional indexes, in the files \<open>F\<close> of the UTXO
  directory, and in the files of block \<open>hash\<close> at \<open>height\<close>.
\<close>

definition near :: "string \<Rightarrow> i32 \<Rightarrow> string set \<Rightarrow> FileStore \<Rightarrow> FileStore \<Rightarrow> bool" where
  "near hash height F s t \<longleftrightarrow>
     fs_tip t = fs_tip s \<and> fs_journal t = fs_journal s \<and>
     fs_txIndexEnabled t = fs_txIndexEnabled s \<and> fs_addressIndexEnabled t = fs_addressIndexEnabled s \<and>
     (\<forall>f. f \<notin> F \<longrightarrow> fmlookup (fs_utxo t) f = fmlookup (fs_utxo s) f) \<and>
     (\<forall>k. k \<noteq> hash \<longrightarrow> fmlookup (fs_blocks t) k = fmlookup (fs_blocks s) k \<and>
        fmlookup (fs_hashIndex t) k = fmlookup (fs_hashIndex s) k \<and>
        fmlookup (fs_undo t) k = fmlookup (fs_undo s) k) \<and>
     (\<forall>k. k \<noteq> height \<longrightarrow> fmlookup (fs_heightIndex t) k = fmlookup (fs_heightIndex s) k)"

lemma near_refl [simp]: "near hash height F s s"
  by (simp add: near_def)

text \<open>The steps of the optional indexes leave the chain state alone.\<close>

definition keeps_chainstate :: "step \<Rightarrow> bool" where
  "keeps_chainstate f \<longleftrightarrow> (\<forall>s. chainstate (f s) = chainstate s)"

lemma near_chainstate:
  assumes "chainstate t' = chainstate t" "near hash height F s t"
  shows "near hash height F s t'"
proof -
  have "fs_tip (chainstate t') = fs_tip (chainstate t)" "fs_journal (chainstate t') = fs_journal (chainstate t)"
    "fs_txIndexEnabled (chainstate t') = fs_txIndexEnabled (chainstate t)"
    "fs_addressIndexEnabled (chainstate t') = fs_addressIndexEnabled (chainstate t)"
    "fs_utxo (chainstate t') = fs_utxo (chainstate t)" "fs_blocks (chainstate t') = fs_blocks (chainstate t)"
    "fs_hashIndex (chainstate t') = fs_hashIndex (chainstate t)" "fs_undo (chainstate t') = fs_undo (chainstate t)"
    "fs_heightIndex (chainstate t') = fs_heightIndex (chainstate t)"
    using assms(1) by simp_all
  then show ?thesis using assms(2) by (simp add: chainstate_def near_def)
qed

lemma keeps_indexBlockTransactions_from:
  "f \<in> set (indexBlockTransactions_from n idx txs) \<Longrightarrow> keeps_chainstate f"
  by (induction txs arbitrary: n) (auto simp: Let_def keeps_chainstate_def chainstate_def)

lemma keeps_address_steps:
  "keeps_chainstate (addAddressTxID a t)" "keeps_chainstate (writeAddressUTXO u)"
  "keeps_chainstate (removeAddressUTXO a t v)" "keeps_chainstate (writeAddressHistory h)"
  "keeps_chainstate (markAddressOutputSpent a t v st sh)"
  by (auto simp: keeps_chainstate_def chainstate_def addAddressTxID_def writeAddressTxIDs_def
      writeAddressUTXO_def removeAddressUTXO_def writeAddressHistory_def markAddressOutputSpent_def
      Let_def split: option.splits)

lemma keeps_index_steps:
  "f \<in> set (indexBlockTransactions block idx) \<Longrightarrow> keeps_chainstate f"
  "f \<in> set (indexAddressConnect block idx adds spent) \<Longrightarrow> keeps_chainstate f"
  by (auto simp: indexBlockTransactions_def indexAddressConnect_def index_spent_def index_added_def
      index_output_def Let_def keeps_address_steps split: if_splits
      dest: keeps_indexBlockTransactions_from)

lemma keeps_near: "keeps_chainstate f \<Longrightarrow> near hash height F s t \<Longrightarrow> near hash height F s (f t)"
  by (rule near_chainstate) (auto simp: keeps_chainstate_def)

text \<open>Every step of a connect between journal and tip, and every step of its rollback, is local.\<close>

lemma near_local_steps:
  assumes "near hash height F s t"
  shows "near hash height F s (writeBlockFile hash b t)" "near hash height F s (writeHashIndex hash i t)"
    "near hash height F s (writeHeightIndex height i t)" "near hash height F s (writeUndo hash u t)"
    "near hash height F s (removeBlockFile hash t)" "near hash height F s (removeHashIndex hash t)"
    "near hash height F s (removeHeightIndex height t)" "near hash height F s (removeUndo hash t)"
    "utxoFile k \<in> F \<Longrightarrow> near hash height F s (removeUTXO k t)"
    "utxoFile (ut_Key e) \<in> F \<Longrightarrow> near hash height F s (writeUTXO e t)"
  using assms by (auto simp: near_def step_defs)

definition touched :: "UTXOEntry list \<Rightarrow> string list \<Rightarrow> UTXOEntry list \<Rightarrow> string set" where
  "touched adds spends spentEntries =
     (utxoFile \<circ> ut_Key) ` set adds \<union> utxoFile ` set spends \<union> (utxoFile \<circ> ut_Key) ` set spentEntries"

lemma near_SaveBlock_body:
  assumes "f \<in> set (SaveBlock_body ti ai block idx adds spends spentEntries)"
    and "near (ix_Hash idx) (ix_Height idx) (touched adds spends spentEntries) s t"
  shows "near (ix_Hash idx) (ix_Height idx) (touched adds spends spentEntries) s (f t)"
proof -
  consider "f = writeBlockFile (ix_Hash idx) (block_Serialize block)" | "f = writeHashIndex (ix_Hash idx) idx"
    | "f = writeHeightIndex (ix_Height idx) idx" | k where "k \<in> set spends" "f = removeUTXO k"
    | e where "e \<in> set adds" "f = writeUTXO e" | "f = writeUndo (ix_Hash idx) (undoOf adds spentEntries)"
    | "keeps_chainstate f"
    using assms(1) keeps_index_steps by (auto simp: SaveBlock_body_def split: if_splits)
  then show ?thesis
    using near_local_steps [OF assms(2)] keeps_near [OF _ assms(2)]
    by cases (auto simp: touched_def)
qed

section \<open>Recovery of a connect\<close>

text \<open>
  What the chain hands to \<open>SaveBlock\<close>: the spent entries are those of the spent keys as
  stored, the added outputs are not stored yet, and the block is not the tip.
\<close>

definition save_pre :: "BlockIndex \<Rightarrow> UTXOEntry list \<Rightarrow> string list \<Rightarrow> UTXOEntry list \<Rightarrow> FileStore \<Rightarrow> bool" where
  "save_pre idx adds spends spentEntries s \<longleftrightarrow>
     (\<forall>e\<in>set spentEntries. fmlookup (fs_utxo s) (utxoFile (ut_Key e)) = Some e) \<and>
     (\<forall>e\<in>set adds. fmlookup (fs_utxo s) (utxoFile (ut_Key e)) = None) \<and>
     map ut_Key spentEntries = spends \<and>
     (\<forall>tip. fs_tip s = Some tip \<longrightarrow> ix_Hash tip \<noteq> ix_Hash idx)"

lemma restore_utxo:
  assumes pre: "save_pre idx adds spends spentEntries s"
    and out: "\<forall>f. f \<notin> touched adds spends spentEntries \<longrightarrow> fmlookup m f = fmlookup (fs_utxo s) f"
  shows "fold (\<lambda>e. fmupd (utxoFile (ut_Key e)) e) spentEntries
      (fold (\<lambda>k. fmdrop (utxoFile k)) (map ut_Key adds) m) = fs_utxo s" (is "?l = _")
proof (rule fmap_ext)
  fix f
  have T: "touched adds spends spentEntries =
      (utxoFile \<circ> ut_Key) ` set spentEntries \<union> (utxoFile \<circ> ut_Key) ` set adds"
    using pre by (auto simp: touched_def save_pre_def image_image)
  consider "f \<in> (utxoFile \<circ> ut_Key) ` set spentEntries"
    | "f \<notin> (utxoFile \<circ> ut_Key) ` set spentEntries" "f \<in> (utxoFile \<circ> ut_Key) ` set adds"
    | "f \<notin> touched adds spends spentEntries"
    unfolding T by blast
  then show "fmlookup ?l f = fmlookup (fs_utxo s) f"
  proof cases
    case 1
    from lookup_writes_same [OF 1] pre show ?thesis by (fastforce simp: save_pre_def)
  next
    case 2
    with pre show ?thesis by (auto simp: lookup_writes_other lookup_drops save_pre_def image_image)
  next
    case 3
    then show ?thesis
      using out by (auto simp: lookup_writes_other lookup_drops touched_def image_image)
  qed
qed

lemma rollback_result:
  fixes s :: FileStore
  assumes pre: "save_pre idx adds spends spentEntries s"
    and j: "j = connectJournal idx adds spends spentEntries"
    and t: "near (ix_Hash idx) (ix_Height idx) (touched adds spends spentEntries) s t"
  shows "chainstate (exec (rollbackConnect_steps j t) t) =
    chainstate ((forgetBlock (ix_Hash idx) (ix_Height idx) s)\<lparr>fs_journal := None\<rparr>)"
proof -
  have tip: "fs_tip t = fs_tip s" using t by (simp add: near_def)
  have steps: "rollbackConnect_steps j t =
      map removeUTXO (map ut_Key adds) @ map writeUTXO spentEntries @
      [removeBlockFile (ix_Hash idx), removeHashIndex (ix_Hash idx), removeHeightIndex (ix_Height idx),
       removeUndo (ix_Hash idx), clearJournal]"
    using pre by (auto simp: rollbackConnect_steps_def tip j connectJournal_def save_pre_def comp_def
        split: option.splits)
  have utxo: "fold (\<lambda>e. fmupd (utxoFile (ut_Key e)) e) spentEntries
      (fold (\<lambda>k. fmdrop (utxoFile k)) (map ut_Key adds) (fs_utxo t)) = fs_utxo s"
    using restore_utxo [OF pre] t by (simp add: near_def)
  have files: "fmdrop (ix_Hash idx) (fs_blocks t) = fmdrop (ix_Hash idx) (fs_blocks s)"
    "fmdrop (ix_Hash idx) (fs_hashIndex t) = fmdrop (ix_Hash idx) (fs_hashIndex s)"
    "fmdrop (ix_Hash idx) (fs_undo t) = fmdrop (ix_Hash idx) (fs_undo s)"
    "fmdrop (ix_Height idx) (fs_heightIndex t) = fmdrop (ix_Height idx) (fs_heightIndex s)"
    using t by (auto simp: near_def fmlookup_drop intro!: fmap_ext)
  show ?thesis
    unfolding steps exec_append utxo_removes utxo_writes
    using t by (simp add: step_defs chainstate_def forgetBlock_def utxo files near_def)
qed

lemma near_rollback:
  assumes "f \<in> set (butlast (rollbackConnect_steps j t'))" "j = connectJournal idx adds spends spentEntries"
    and "near (ix_Hash idx) (ix_Height idx) (touched adds spends spentEntries) s t"
  shows "near (ix_Hash idx) (ix_Height idx) (touched adds spends spentEntries) s (f t)"
proof -
  from assms(1,2) consider e where "e \<in> set adds" "f = removeUTXO (ut_Key e)"
    | e where "e \<in> set spentEntries" "f = writeUTXO e" | "f = removeBlockFile (ix_Hash idx)"
    | "f = removeHashIndex (ix_Hash idx)" | "f = removeHeightIndex (ix_Height idx)"
    | "f = removeUndo (ix_Hash idx)"
    by (auto simp: rollbackConnect_steps_def connectJournal_def butlast_append split: option.splits if_splits)
  then show ?thesis
    using near_local_steps [OF assms(3)] by cases (auto simp: touched_def)
qed

text \<open>
  The states a store can be in when a connect was interrupted, and when the recovery of an
  interrupted connect was interrupted in turn, any number of times.
\<close>

inductive interrupted ::
    "MsgBlock \<Rightarrow> BlockIndex \<Rightarrow> UTXOEntry list \<Rightarrow> string list \<Rightarrow> UTXOEntry list \<Rightarrow> FileStore \<Rightarrow> FileStore \<Rightarrow> bool"
  for block idx adds spends spentEntries s where
  connect: "interrupted block idx adds spends spentEntries s
     (exec (take n (SaveBlock_steps (fs_txIndexEnabled s) (fs_addressIndexEnabled s)
        block idx adds spends spentEntries)) s)"
| recovery: "interrupted block idx adds spends spentEntries s t \<Longrightarrow> fs_journal t = Some j \<Longrightarrow>
     jr_Op j = journalConnect \<Longrightarrow>
     interrupted block idx adds spends spentEntries s (exec (take n (rollbackConnect_steps j t)) t)"

text \<open>The three kinds of states: not begun or rolled back, in between, and committed.\<close>

definition settled :: "MsgBlock \<Rightarrow> BlockIndex \<Rightarrow> UTXOEntry list \<Rightarrow> string list \<Rightarrow> UTXOEntry list \<Rightarrow>
    FileStore \<Rightarrow> FileStore \<Rightarrow> bool" where
  "settled block idx adds spends spentEntries s t \<longleftrightarrow>
     fs_journal t = None \<and>
     (t = s \<or>
      chainstate t = chainstate ((forgetBlock (ix_Hash idx) (ix_Height idx) s)\<lparr>fs_journal := None\<rparr>) \<or>
      t = SaveBlock block idx adds spends spentEntries s)"

lemma take_body_cases:
  assumes "k = length body"
  shows "take n (a # body @ [b, c]) = [] \<or> (\<exists>m. take n (a # body @ [b, c]) = a # take m body) \<or>
    take n (a # body @ [b, c]) = a # body @ [b] \<or> take n (a # body @ [b, c]) = a # body @ [b, c]"
proof (cases n)
  case (Suc m)
  consider "m \<le> length body" | "m = Suc (length body)" | "m \<ge> Suc (Suc (length body))" by linarith
  then show ?thesis by cases (auto simp: Suc)
qed simp

definition half_done :: "MsgBlock \<Rightarrow> BlockIndex \<Rightarrow> UTXOEntry list \<Rightarrow> string list \<Rightarrow> UTXOEntry list \<Rightarrow>
    FileStore \<Rightarrow> FileStore \<Rightarrow> bool" where
  "half_done block idx adds spends spentEntries s t \<longleftrightarrow>
     (let j = connectJournal idx adds spends spentEntries in
      near (ix_Hash idx) (ix_Height idx) (touched adds spends spentEntries) (writeJournal j s) t \<or>
      t = SaveTip idx (exec (SaveBlock_body (fs_txIndexEnabled s) (fs_addressIndexEnabled s)
            block idx adds spends spentEntries) (writeJournal j s)))"

lemma SaveBlock_alt:
  "SaveBlock block idx adds spends spentEntries s =
     clearJournal (SaveTip idx (exec (SaveBlock_body (fs_txIndexEnabled s) (fs_addressIndexEnabled s)
       block idx adds spends spentEntries) (writeJournal (connectJournal idx adds spends spentEntries) s)))"
  by (simp add: SaveBlock_def SaveBlock_steps_def)

lemma near_body:
  "near (ix_Hash idx) (ix_Height idx) (touched adds spends spentEntries) s
     (exec (take n (SaveBlock_body ti ai block idx adds spends spentEntries)) s)"
  by (rule exec_prefix_invariant
      [where P = "near (ix_Hash idx) (ix_Height idx) (touched adds spends spentEntries) s"])
    (auto intro: near_SaveBlock_body)

lemma half_done_journal:
  assumes "half_done block idx adds spends spentEntries s t"
  shows "fs_journal t = Some (connectJournal idx adds spends spentEntries)"
proof -
  let ?j = "connectJournal idx adds spends spentEntries"
  from assms consider
      "near (ix_Hash idx) (ix_Height idx) (touched adds spends spentEntries) (writeJournal ?j s) t"
    | "t = SaveTip idx (exec (SaveBlock_body (fs_txIndexEnabled s) (fs_addressIndexEnabled s)
            block idx adds spends spentEntries) (writeJournal ?j s))"
    by (auto simp: half_done_def Let_def)
  then show ?thesis
  proof cases
    case 1
    then show ?thesis by (simp add: near_def writeJournal_def)
  next
    case 2
    have "near (ix_Hash idx) (ix_Height idx) (touched adds spends spentEntries) (writeJournal ?j s)
        (exec (SaveBlock_body (fs_txIndexEnabled s) (fs_addressIndexEnabled s)
            block idx adds spends spentEntries) (writeJournal ?j s))"
      using near_body [where n = "length (SaveBlock_body (fs_txIndexEnabled s) (fs_addressIndexEnabled s)
            block idx adds spends spentEntries)"] by (metis take_all order_refl)
    with 2 show ?thesis by (simp add: near_def SaveTip_def writeJournal_def)
  qed
qed

text \<open>Recovering an unsettled state, completely or up to any step.\<close>

lemma half_done_recovery:
  assumes pre: "save_pre idx adds spends spentEntries s"
    and h: "half_done block idx adds spends spentEntries s t"
  shows "settled block idx adds spends spentEntries s
      (exec (rollbackConnect_steps (connectJournal idx adds spends spentEntries) t) t) \<and>
    (settled block idx adds spends spentEntries s
       (exec (take n (rollbackConnect_steps (connectJournal idx adds spends spentEntries) t)) t) \<or>
     half_done block idx adds spends spentEntries s
       (exec (take n (rollbackConnect_steps (connectJournal idx adds spends spentEntries) t)) t))"
proof -
  define j where "j = connectJournal idx adds spends spentEntries"
  define steps where "steps = rollbackConnect_steps j t"
  have last: "steps = butlast steps @ [clearJournal]"
    by (simp add: steps_def rollbackConnect_steps_def butlast_append)
  have J: "fs_journal (exec steps t) = None"
    by (subst last) (simp add: clearJournal_def)
  from h consider (mid) "near (ix_Hash idx) (ix_Height idx) (touched adds spends spentEntries) (writeJournal j s) t"
    | (fin) "t = SaveTip idx (exec (SaveBlock_body (fs_txIndexEnabled s) (fs_addressIndexEnabled s)
            block idx adds spends spentEntries) (writeJournal j s))"
    by (auto simp: half_done_def Let_def j_def)
  then have "settled block idx adds spends spentEntries s (exec steps t) \<and>
    (n < length steps \<longrightarrow> half_done block idx adds spends spentEntries s (exec (take n steps) t))"
  proof cases
    case mid
    have "save_pre idx adds spends spentEntries (writeJournal j s)"
      using pre by (simp add: save_pre_def writeJournal_def)
    from rollback_result [OF this j_def mid] have
      "chainstate (exec steps t) = chainstate ((forgetBlock (ix_Hash idx) (ix_Height idx) s)\<lparr>fs_journal := None\<rparr>)"
      by (simp add: steps_def forgetBlock_def writeJournal_def chainstate_def)
    moreover have "n < length steps \<Longrightarrow> take n steps = take n (butlast steps)"
      by (subst last) simp
    moreover have "near (ix_Hash idx) (ix_Height idx) (touched adds spends spentEntries) (writeJournal j s)
        (exec (take n (butlast steps)) t)"
      by (rule exec_prefix_invariant [where P = "near (ix_Hash idx) (ix_Height idx)
            (touched adds spends spentEntries) (writeJournal j s)"])
        (use mid near_rollback [of _ j t] in \<open>auto simp: steps_def j_def\<close>)
    ultimately show ?thesis
      using J by (simp add: settled_def half_done_def Let_def j_def [symmetric])
  next
    case fin
    have "steps = [clearJournal]"
      by (simp add: steps_def rollbackConnect_steps_def fin SaveTip_def j_def connectJournal_def)
    then show ?thesis
      using fin h by (simp add: settled_def SaveBlock_alt j_def [symmetric]) (simp add: clearJournal_def)
  qed
  then show ?thesis
    by (cases "n < length steps") (simp_all add: steps_def j_def)
qed

lemma interrupted_classified:
  assumes pre: "save_pre idx adds spends spentEntries s" and j0: "fs_journal s = None"
    and "interrupted block idx adds spends spentEntries s t"
  shows "settled block idx adds spends spentEntries s t \<or> half_done block idx adds spends spentEntries s t"
  using assms(3)
proof induction
  case (connect n)
  define body where "body = SaveBlock_body (fs_txIndexEnabled s) (fs_addressIndexEnabled s)
    block idx adds spends spentEntries"
  define j where "j = connectJournal idx adds spends spentEntries"
  define f where "f = take n (writeJournal j # body @ [SaveTip idx, clearJournal])"
  from take_body_cases [OF refl, of n "writeJournal j" body "SaveTip idx" clearJournal]
  consider "f = []" | m where "f = writeJournal j # take m body" | "f = writeJournal j # body @ [SaveTip idx]"
    | "f = writeJournal j # body @ [SaveTip idx, clearJournal]" unfolding f_def by blast
  then have "settled block idx adds spends spentEntries s (exec f s) \<or>
    half_done block idx adds spends spentEntries s (exec f s)"
  proof cases
    case 1
    then show ?thesis using j0 by (simp add: settled_def)
  next
    case (2 m)
    then show ?thesis using near_body by (simp add: half_done_def j_def body_def)
  next
    case 3
    then show ?thesis by (simp add: half_done_def j_def body_def)
  next
    case 4
    then have "exec f s = SaveBlock block idx adds spends spentEntries s"
      by (simp add: SaveBlock_alt j_def body_def)
    moreover have "fs_journal (SaveBlock block idx adds spends spentEntries s) = None"
      by (simp add: SaveBlock_alt clearJournal_def)
    ultimately show ?thesis by (simp add: settled_def)
  qed
  then show ?case by (simp add: SaveBlock_steps_def f_def j_def body_def)
next
  case (recovery t j n)
  from recovery.IH show ?case
  proof
    assume "settled block idx adds spends spentEntries s t"
    then show ?thesis using recovery.hyps by (simp add: settled_def)
  next
    assume h: "half_done block idx adds spends spentEntries s t"
    then have "j = connectJournal idx adds spends spentEntries"
      using half_done_journal recovery.hyps by simp
    then show ?thesis using half_done_recovery [OF pre h] by blast
  qed
qed

lemma interrupted_recovers:
  assumes "save_pre idx adds spends spentEntries s" "fs_journal s = None"
    and "interrupted block idx adds spends spentEntries s t"
  shows "fst (recoverJournal t) = Inr () \<and>
    settled block idx adds spends spentEntries s (snd (recoverJournal t))"
  using interrupted_classified [OF assms]
proof
  assume "settled block idx adds spends spentEntries s t"
  then show ?thesis by (auto simp: settled_def recoverJournal_def)
next
  assume h: "half_done block idx adds spends spentEntries s t"
  then show ?thesis
    using half_done_recovery [OF assms(1) h] half_done_journal [OF h]
    by (simp add: recoverJournal_def connectJournal_def)
qed

section \<open>The UTXO set across connect and disconnect\<close>

definition connectUTXO :: "UTXOEntry list \<Rightarrow> string list \<Rightarrow> (string, UTXOEntry) fmap \<Rightarrow> (string, UTXOEntry) fmap" where
  "connectUTXO adds spends m =
     fold (\<lambda>e. fmupd (utxoFile (ut_Key e)) e) adds (fold (\<lambda>k. fmdrop (utxoFile k)) spends m)"

definition disconnectUTXO :: "UndoData \<Rightarrow> (string, UTXOEntry) fmap \<Rightarrow> (string, UTXOEntry) fmap" where
  "disconnectUTXO undo m =
     fold (\<lambda>e. fmupd (utxoFile (ut_Key e)) e) (un_Spent undo)
       (fold (\<lambda>k. fmdrop (utxoFile k)) (un_AddedKeys undo) m)"

lemma disconnect_connectUTXO:
  assumes "save_pre idx adds spends spentEntries s"
  shows "disconnectUTXO (undoOf adds spentEntries) (connectUTXO adds spends (fs_utxo s)) = fs_utxo s"
  unfolding disconnectUTXO_def undoOf_def UndoData.simps
  by (rule restore_utxo [OF assms])
    (auto simp: connectUTXO_def lookup_writes_other lookup_drops touched_def)

lemma exec_keeps:
  assumes "\<forall>f\<in>set fs. keeps_chainstate f"
  shows "chainstate (exec fs s) = chainstate s"
  using assms by (induction fs arbitrary: s) (simp_all add: keeps_chainstate_def)

lemma chainstate_index_steps [simp]:
  "chainstate (exec (indexBlockTransactions block idx) s) = chainstate s"
  "chainstate (exec (indexAddressConnect block idx adds spent) s) = chainstate s"
  using keeps_index_steps by (auto intro!: exec_keeps)

lemma chainstate_fields:
  assumes "chainstate t = chainstate s"
  shows "fs_tip t = fs_tip s" "fs_journal t = fs_journal s" "fs_utxo t = fs_utxo s"
    "fs_blocks t = fs_blocks s" "fs_hashIndex t = fs_hashIndex s"
    "fs_heightIndex t = fs_heightIndex s" "fs_undo t = fs_undo s"
    "fs_txIndexEnabled t = fs_txIndexEnabled s" "fs_addressIndexEnabled t = fs_addressIndexEnabled s"
  using arg_cong [where f = fs_tip, OF assms] arg_cong [where f = fs_journal, OF assms]
    arg_cong [where f = fs_utxo, OF assms] arg_cong [where f = fs_blocks, OF assms]
    arg_cong [where f = fs_hashIndex, OF assms] arg_cong [where f = fs_heightIndex, OF assms]
    arg_cong [where f = fs_undo, OF assms] arg_cong [where f = fs_txIndexEnabled, OF assms]
    arg_cong [where f = fs_addressIndexEnabled, OF assms]
  by (simp_all add: chainstate_def)

text \<open>What a completed connect does to the chain state.\<close>

lemma SaveBlock_fields:
  "fs_tip (SaveBlock block idx adds spends spentEntries s) = Some idx"
  "fs_journal (SaveBlock block idx adds spends spentEntries s) = None"
  "fs_utxo (SaveBlock block idx adds spends spentEntries s) = connectUTXO adds spends (fs_utxo s)"
  "fs_blocks (SaveBlock block idx adds spends spentEntries s) =
     fmupd (ix_Hash idx) (block_Serialize block) (fs_blocks s)"
  "fs_hashIndex (SaveBlock block idx adds spends spentEntries s) = fmupd (ix_Hash idx) idx (fs_hashIndex s)"
  "fs_heightIndex (SaveBlock block idx adds spends spentEntries s) = fmupd (ix_Height idx) idx (fs_heightIndex s)"
  "fs_undo (SaveBlock block idx adds spends spentEntries s) =
     fmupd (ix_Hash idx) (undoOf adds spentEntries) (fs_undo s)"
  "fs_txIndexEnabled (SaveBlock block idx adds spends spentEntries s) = fs_txIndexEnabled s"
  "fs_addressIndexEnabled (SaveBlock block idx adds spends spentEntries s) = fs_addressIndexEnabled s"
proof -
  define s1 where "s1 = writeUndo (ix_Hash idx) (undoOf adds spentEntries)
    (exec (map writeUTXO adds) (exec (map removeUTXO spends)
      (writeHeightIndex (ix_Height idx) idx (writeHashIndex (ix_Hash idx) idx
        (writeBlockFile (ix_Hash idx) (block_Serialize block)
          (writeJournal (connectJournal idx adds spends spentEntries) s))))))"
  define s2 where "s2 = exec (if fs_txIndexEnabled s then indexBlockTransactions block idx else []) s1"
  define s3 where "s3 = exec (if fs_addressIndexEnabled s then indexAddressConnect block idx adds spentEntries else []) s2"
  have e: "SaveBlock block idx adds spends spentEntries s = clearJournal (SaveTip idx s3)"
    by (simp add: SaveBlock_def SaveBlock_steps_def SaveBlock_body_def s1_def s2_def s3_def)
  have "chainstate s3 = chainstate s1" by (simp add: s2_def s3_def)
  note f = chainstate_fields [OF this]
  show "fs_tip (SaveBlock block idx adds spends spentEntries s) = Some idx"
    "fs_journal (SaveBlock block idx adds spends spentEntries s) = None"
    "fs_utxo (SaveBlock block idx adds spends spentEntries s) = connectUTXO adds spends (fs_utxo s)"
    "fs_blocks (SaveBlock block idx adds spends spentEntries s) =
       fmupd (ix_Hash idx) (block_Serialize block) (fs_blocks s)"
    "fs_hashIndex (SaveBlock block idx adds spends spentEntries s) = fmupd (ix_Hash idx) idx (fs_hashIndex s)"
    "fs_heightIndex (SaveBlock block idx adds spends spentEntries s) = fmupd (ix_Height idx) idx (fs_heightIndex s)"
    "fs_undo (SaveBlock block idx adds spends spentEntries s) =
       fmupd (ix_Hash idx) (undoOf adds spentEntries) (fs_undo s)"
    "fs_txIndexEnabled (SaveBlock block idx adds spends spentEntries s) = fs_txIndexEnabled s"
    "fs_addressIndexEnabled (SaveBlock block idx adds spends spentEntries s) = fs_addressIndexEnabled s"
    unfolding e using f
    by (simp_all add: SaveTip_def clearJournal_def s1_def utxo_removes utxo_writes connectUTXO_def
        writeUndo_def writeHeightIndex_def writeHashIndex_def writeBlockFile_def writeJournal_def)
qed

text \<open>Index lookups change at most the height index; rebuilding, also the optional indexes.\<close>

definition same_but_indexes :: "FileStore \<Rightarrow> FileStore \<Rightarrow> bool" where
  "same_but_indexes s t \<longleftrightarrow>
     (chainstate t)\<lparr>fs_heightIndex := fmempty\<rparr> = (chainstate s)\<lparr>fs_heightIndex := fmempty\<rparr>"

lemma same_but_indexes_refl [simp]: "same_but_indexes s s"
  by (simp add: same_but_indexes_def)

lemma same_but_indexes_trans: "same_but_indexes s t \<Longrightarrow> same_but_indexes t u \<Longrightarrow> same_but_indexes s u"
  by (simp add: same_but_indexes_def)

lemma repair_walk_frame:
  "repair_walk n height h s = (r, t) \<Longrightarrow> \<exists>m. t = s\<lparr>fs_heightIndex := m\<rparr>"
proof (induction n arbitrary: h s)
  case 0
  then show ?case by (intro exI [of _ "fs_heightIndex s"]) simp
next
  case (Suc n)
  have self: "\<exists>m. s = s\<lparr>fs_heightIndex := m\<rparr>" by (intro exI [of _ "fs_heightIndex s"]) simp
  show ?case
  proof (cases "LoadBlock h s")
    case (Inl e)
    with Suc.prems self show ?thesis by simp
  next
    case (Inr bi)
    obtain block idx where bi: "bi = (block, idx)" by (cases bi)
    from Suc.prems Inr bi Suc.IH [of "hash_String (hd_PrevBlock (bk_Header block))"
        "writeHeightIndex (ix_Height idx) idx s"] show ?thesis
      by (auto simp: Let_def writeHeightIndex_def split: if_splits)
  qed
qed

lemma LoadIndexByHeight_frame:
  assumes "LoadIndexByHeight height s = (r, t)"
  shows "\<exists>m. t = s\<lparr>fs_heightIndex := m\<rparr>"
proof -
  have self: "\<exists>m. s = s\<lparr>fs_heightIndex := m\<rparr>" by (intro exI [of _ "fs_heightIndex s"]) simp
  show ?thesis
    using assms self repair_walk_frame
    by (auto simp: LoadIndexByHeight_def repairHeightIndexFromTip_def simp del: repair_walk.simps
        split: option.splits if_splits)
qed

lemma same_but_indexes_LoadIndex:
  "LoadIndexByHeight height s = (r, t) \<Longrightarrow> same_but_indexes s t"
  using LoadIndexByHeight_frame by (fastforce simp: same_but_indexes_def chainstate_def)

lemma same_but_indexes_chainstate: "chainstate t = chainstate s \<Longrightarrow> same_but_indexes s t"
  by (simp add: same_but_indexes_def)

lemma same_but_indexes_fields:
  assumes "same_but_indexes s t"
  shows "fs_tip t = fs_tip s" "fs_journal t = fs_journal s" "fs_utxo t = fs_utxo s"
    "fs_blocks t = fs_blocks s" "fs_hashIndex t = fs_hashIndex s" "fs_undo t = fs_undo s"
    "fs_txIndexEnabled t = fs_txIndexEnabled s" "fs_addressIndexEnabled t = fs_addressIndexEnabled s"
  using arg_cong [where f = fs_tip, OF assms [unfolded same_but_indexes_def]]
    arg_cong [where f = fs_journal, OF assms [unfolded same_but_indexes_def]]
    arg_cong [where f = fs_utxo, OF assms [unfolded same_but_indexes_def]]
    arg_cong [where f = fs_blocks, OF assms [unfolded same_but_indexes_def]]
    arg_cong [where f = fs_hashIndex, OF assms [unfolded same_but_indexes_def]]
    arg_cong [where f = fs_undo, OF assms [unfolded same_but_indexes_def]]
    arg_cong [where f = fs_txIndexEnabled, OF assms [unfolded same_but_indexes_def]]
    arg_cong [where f = fs_addressIndexEnabled, OF assms [unfolded same_but_indexes_def]]
  by (simp_all add: chainstate_def)

lemma forHeights_frame:
  assumes "\<And>block idx s. same_but_indexes s (body block idx s)"
    and "forHeights body hs s = (r, t)"
  shows "same_but_indexes s t"
  using assms(2)
proof (induction hs arbitrary: s)
  case (Cons h hs)
  obtain r1 s1 where l: "LoadIndexByHeight h s = (r1, s1)" by (cases "LoadIndexByHeight h s")
  note f = same_but_indexes_LoadIndex [OF l]
  have step: "same_but_indexes s t" if "forHeights body hs (body block idx s1) = (r, t)" for block idx
    using same_but_indexes_trans [OF f same_but_indexes_trans [OF assms(1) Cons.IH [OF that]]] .
  from Cons.prems l f step show ?case by (auto split: sum.splits)
qed simp

lemma rebuildOptional_frame:
  assumes "rebuildOptionalIndexesFromActiveTip s = (r, t)"
  shows "same_but_indexes s t"
proof -
  have body: "same_but_indexes u (exec (rebuildOptional_steps block idx u) u)" for block idx u
    by (rule same_but_indexes_chainstate) (simp add: rebuildOptional_steps_def)
  have w: "same_but_indexes s (s\<lparr>fs_txIndex := fmempty\<rparr>)"
    "same_but_indexes s (s\<lparr>fs_addrTxIDs := fmempty, fs_addrUTXO := fmempty, fs_addrHistory := fmempty\<rparr>)"
    "same_but_indexes s (s\<lparr>fs_txIndex := fmempty, fs_addrTxIDs := fmempty, fs_addrUTXO := fmempty,
       fs_addrHistory := fmempty\<rparr>)"
    by (auto intro!: same_but_indexes_chainstate simp: chainstate_def)
  have step: "same_but_indexes s t" if "same_but_indexes s u"
      "forHeights (\<lambda>block idx s. exec (rebuildOptional_steps block idx s) s) hs u = (r, t)" for u hs
    using same_but_indexes_trans [OF that(1) forHeights_frame [OF body that(2)]] .
  show ?thesis
    using assms step [OF w(1)] step [OF w(2)] step [OF w(3)]
    by (auto simp: rebuildOptionalIndexesFromActiveTip_def Let_def split: if_splits option.splits)
qed

lemma applyDisconnect_steps_fields:
  "fs_tip (exec (applyDisconnect_steps prevTip undo) s) = Some prevTip"
  "fs_journal (exec (applyDisconnect_steps prevTip undo) s) = fs_journal s"
  "fs_utxo (exec (applyDisconnect_steps prevTip undo) s) = disconnectUTXO undo (fs_utxo s)"
  "fs_blocks (exec (applyDisconnect_steps prevTip undo) s) = fs_blocks s"
  "fs_hashIndex (exec (applyDisconnect_steps prevTip undo) s) = fs_hashIndex s"
  "fs_heightIndex (exec (applyDisconnect_steps prevTip undo) s) =
     fmdrop (ix_Height prevTip + 1) (fs_heightIndex s)"
  "fs_undo (exec (applyDisconnect_steps prevTip undo) s) = fs_undo s"
  by (simp_all add: applyDisconnect_steps_def utxo_removes utxo_writes disconnectUTXO_def
      removeHeightIndex_def SaveTip_def)

lemma applyDisconnect_frame:
  assumes "applyDisconnect hash prevTip undo s = (r, t)"
  shows "same_but_indexes (exec (applyDisconnect_steps prevTip undo) s) t"
proof -
  let ?s = "exec (applyDisconnect_steps prevTip undo) s"
  have d: "same_but_indexes u (dropTxIndex block u)" for block u
    by (rule same_but_indexes_chainstate) (simp add: chainstate_def dropTxIndex_def)
  have "t = ?s \<or> (\<exists>u. same_but_indexes ?s u \<and> rebuildOptionalIndexesFromActiveTip u = (r, t))"
    using assms d same_but_indexes_refl [of ?s]
    by (fastforce simp: applyDisconnect_def Let_def split: if_splits sum.splits)
  then show ?thesis
    using rebuildOptional_frame same_but_indexes_trans by fastforce
qed

lemma DisconnectBlock_fields:
  assumes "DisconnectBlock hash (Some prevTip) undo s = (Inr (), t)"
  shows "fs_tip t = Some prevTip" "fs_journal t = None" "fs_utxo t = disconnectUTXO undo (fs_utxo s)"
    "fs_blocks t = fs_blocks s" "fs_hashIndex t = fs_hashIndex s" "fs_undo t = fs_undo s"
proof -
  from assms obtain u where u: "applyDisconnect hash prevTip undo
      (writeJournal (disconnectJournal hash prevTip undo) s) = (Inr (), u)" and t: "t = clearJournal u"
    by (auto simp: DisconnectBlock_def split: prod.splits sum.splits)
  note f = same_but_indexes_fields [OF applyDisconnect_frame [OF u]]
  show "fs_tip t = Some prevTip" "fs_journal t = None" "fs_utxo t = disconnectUTXO undo (fs_utxo s)"
    "fs_blocks t = fs_blocks s" "fs_hashIndex t = fs_hashIndex s" "fs_undo t = fs_undo s"
    using f by (simp_all add: t clearJournal_def applyDisconnect_steps_fields writeJournal_def)
qed

section \<open>Recovery of a disconnect\<close>

text \<open>The disconnect steps may be repeated from any state they went through.\<close>

lemma applyDisconnect_steps_redo:
  "exec (applyDisconnect_steps prevTip undo) (exec (take n (applyDisconnect_steps prevTip undo)) s) =
     exec (applyDisconnect_steps prevTip undo) s"
proof -
  define F where "F = utxoFile ` set (un_AddedKeys undo) \<union> (utxoFile \<circ> ut_Key) ` set (un_Spent undo)"
  define P where "P t \<longleftrightarrow>
      t\<lparr>fs_utxo := fs_utxo s, fs_heightIndex := fs_heightIndex s, fs_tip := fs_tip s\<rparr> = s \<and>
      (\<forall>f. f \<notin> F \<longrightarrow> fmlookup (fs_utxo t) f = fmlookup (fs_utxo s) f) \<and>
      fmdrop (ix_Height prevTip + 1) (fs_heightIndex t) = fmdrop (ix_Height prevTip + 1) (fs_heightIndex s)"
    for t
  define t where "t = exec (take n (applyDisconnect_steps prevTip undo)) s"
  have "P t"
    unfolding t_def
  proof (rule exec_prefix_invariant [where P = P])
    show "P s" by (simp add: P_def)
    fix f t assume "f \<in> set (applyDisconnect_steps prevTip undo)" "P t"
    then show "P (f t)"
      by (auto simp: P_def applyDisconnect_steps_def F_def removeUTXO_def writeUTXO_def
          removeHeightIndex_def SaveTip_def)
  qed
  then have t: "t\<lparr>fs_utxo := fs_utxo s, fs_heightIndex := fs_heightIndex s, fs_tip := fs_tip s\<rparr> = s"
    and u: "\<forall>f. f \<notin> F \<longrightarrow> fmlookup (fs_utxo t) f = fmlookup (fs_utxo s) f"
    and hi: "fmdrop (ix_Height prevTip + 1) (fs_heightIndex t) = fmdrop (ix_Height prevTip + 1) (fs_heightIndex s)"
    by (auto simp: P_def)
  have "disconnectUTXO undo (fs_utxo t) = disconnectUTXO undo (fs_utxo s)"
  proof (rule fmap_ext)
    fix f
    show "fmlookup (disconnectUTXO undo (fs_utxo t)) f = fmlookup (disconnectUTXO undo (fs_utxo s)) f"
    proof (cases "f \<in> (utxoFile \<circ> ut_Key) ` set (un_Spent undo)")
      case True
      then show ?thesis unfolding disconnectUTXO_def by (rule lookup_writes_indep)
    next
      case False
      then show ?thesis using u by (auto simp: disconnectUTXO_def lookup_writes_other lookup_drops F_def)
    qed
  qed
  then show ?thesis
    using arg_cong [where f = "\<lambda>s. s\<lparr>fs_utxo := disconnectUTXO undo (fs_utxo t),
        fs_heightIndex := fmdrop (ix_Height prevTip + 1) (fs_heightIndex t), fs_tip := Some prevTip\<rparr>", OF t] hi
    unfolding t_def [symmetric]
    by (simp add: applyDisconnect_steps_def utxo_removes utxo_writes disconnectUTXO_def
        removeHeightIndex_def SaveTip_def)
qed

lemma LoadBlock_cong:
  "fs_blocks t = fs_blocks s \<Longrightarrow> fs_hashIndex t = fs_hashIndex s \<Longrightarrow> LoadBlock hash t = LoadBlock hash s"
  by (simp add: LoadBlock_def cong: option.case_cong)

lemma applyDisconnect_redo:
  "applyDisconnect hash prevTip undo (exec (take n (applyDisconnect_steps prevTip undo)) s) =
     applyDisconnect hash prevTip undo s"
proof -
  let ?t = "exec (take n (applyDisconnect_steps prevTip undo)) s"
  have "fs_blocks ?t = fs_blocks s \<and> fs_hashIndex ?t = fs_hashIndex s"
    by (rule exec_prefix_invariant [where P = "\<lambda>t. fs_blocks t = fs_blocks s \<and> fs_hashIndex t = fs_hashIndex s"])
      (auto simp: applyDisconnect_steps_def step_defs)
  then have l: "LoadBlock hash ?t = LoadBlock hash s" by (intro LoadBlock_cong) auto
  show ?thesis unfolding applyDisconnect_def applyDisconnect_steps_redo l ..
qed

lemma disconnect_recovers:
  assumes t: "t = exec (take n (applyDisconnect_steps prevTip undo))
    (writeJournal (disconnectJournal hash prevTip undo) s)"
  shows "recoverJournal t = DisconnectBlock hash (Some prevTip) undo s"
proof -
  let ?j = "disconnectJournal hash prevTip undo"
  have "fs_journal t = Some ?j"
    unfolding t
    by (rule exec_prefix_invariant [where P = "\<lambda>t. fs_journal t = Some ?j"])
      (auto simp: writeJournal_def applyDisconnect_steps_def removeUTXO_def writeUTXO_def
        removeHeightIndex_def SaveTip_def)
  moreover have "applyDisconnect hash prevTip undo t = applyDisconnect hash prevTip undo (writeJournal ?j s)"
    unfolding t by (rule applyDisconnect_redo)
  ultimately show ?thesis
    by (simp add: recoverJournal_def DisconnectBlock_def) (simp add: disconnectJournal_def)
qed

section \<open>The height index repair ends\<close>

text \<open>Stored heights decrease from a block to its parent, as long as both are stored.\<close>

definition heights_decrease :: "FileStore \<Rightarrow> bool" where
  "heights_decrease s \<longleftrightarrow>
     (\<forall>h b i b' i'. LoadBlock h s = Inr (b, i) \<longrightarrow> ix_Height i \<noteq> 0 \<longrightarrow>
        LoadBlock (hash_String (hd_PrevBlock (bk_Header b))) s = Inr (b', i') \<longrightarrow>
        sint (ix_Height i') < sint (ix_Height i))"

definition blocks_upto :: "FileStore \<Rightarrow> i32 \<Rightarrow> string set" where
  "blocks_upto s height =
     {k. \<exists>i. fmlookup (fs_hashIndex s) k = Some i \<and> sint (ix_Height i) \<le> sint height}"

lemma LoadBlock_index: "LoadBlock h s = Inr (b, i) \<Longrightarrow> fmlookup (fs_hashIndex s) h = Some i"
  by (auto simp: LoadBlock_def split: option.splits sum.splits)

lemma finite_blocks_upto [simp]: "finite (blocks_upto s height)"
  by (rule finite_subset [of _ "fset (fmdom (fs_hashIndex s))"]) (auto simp: blocks_upto_def intro: fmdomI)

lemma card_blocks_upto: "card (blocks_upto s height) \<le> fcard (fmdom (fs_hashIndex s))"
  unfolding fcard.rep_eq
  by (rule card_mono) (auto simp: blocks_upto_def intro: fmdomI)

lemma repair_walk_returns:
  assumes "heights_decrease s" "0 < n"
    and "\<And>b i. LoadBlock cur s = Inr (b, i) \<Longrightarrow> card (blocks_upto s (ix_Height i)) < n"
  shows "fst (repair_walk n height cur s) \<noteq> Inl ErrDiverges"
  using assms
proof (induction n arbitrary: cur s)
  case (Suc n)
  show ?case
  proof (cases "LoadBlock cur s")
    case (Inl e)
    then show ?thesis by (auto simp: LoadBlock_def split: option.splits sum.splits)
  next
    case (Inr bi)
    obtain block idx where b: "LoadBlock cur s = Inr (block, idx)" using Inr by (cases bi) auto
    define s' where "s' = writeHeightIndex (ix_Height idx) idx s"
    have lb: "LoadBlock h s' = LoadBlock h s" for h
      by (rule LoadBlock_cong) (simp_all add: s'_def writeHeightIndex_def)
    have upto: "blocks_upto s' = blocks_upto s"
      by (simp add: blocks_upto_def fun_eq_iff s'_def writeHeightIndex_def)
    have cur: "cur \<in> blocks_upto s (ix_Height idx)" using LoadBlock_index [OF b] by (auto simp: blocks_upto_def)
    then have n: "0 < card (blocks_upto s (ix_Height idx))" by (auto simp: card_gt_0_iff)
    with Suc.prems(3) [OF b] have "0 < n" by simp
    let ?next = "hash_String (hd_PrevBlock (bk_Header block))"
    have "fst (repair_walk n height ?next s') \<noteq> Inl ErrDiverges" if z: "ix_Height idx \<noteq> 0"
    proof (rule Suc.IH)
      show "heights_decrease s'" using Suc.prems(1) by (simp add: heights_decrease_def lb)
      show "0 < n" by fact
      fix b' i' assume l: "LoadBlock ?next s' = Inr (b', i')"
      with Suc.prems(1) b z have less: "sint (ix_Height i') < sint (ix_Height idx)"
        by (auto simp: heights_decrease_def lb)
      then have "blocks_upto s (ix_Height i') \<subseteq> blocks_upto s (ix_Height idx)"
        "cur \<notin> blocks_upto s (ix_Height i')"
        using LoadBlock_index [OF b] by (auto simp: blocks_upto_def)
      with cur have "blocks_upto s (ix_Height i') \<subset> blocks_upto s (ix_Height idx)" by blast
      then have "card (blocks_upto s (ix_Height i')) < card (blocks_upto s (ix_Height idx))"
        by (rule psubset_card_mono [rotated]) simp
      then show "card (blocks_upto s' (ix_Height i')) < n"
        using Suc.prems(3) [OF b] by (simp add: upto)
    qed
    then show ?thesis by (simp add: b Let_def s'_def [symmetric])
  qed
qed simp

lemma LoadIndexByHeight_returns:
  assumes "heights_decrease s"
  shows "fst (LoadIndexByHeight height s) \<noteq> Inl ErrDiverges"
proof -
  have "fst (repair_walk (fcard (fmdom (fs_hashIndex s)) + 1) height cur s) \<noteq> Inl ErrDiverges" for cur
    by (rule repair_walk_returns) (use assms card_blocks_upto [of s] in \<open>auto simp: less_Suc_eq_le\<close>)
  then show ?thesis
    by (auto simp: LoadIndexByHeight_def repairHeightIndexFromTip_def simp del: repair_walk.simps
        split: option.splits)
qed

end
