(* ===== verification/ChainSteps.thy ===== *)
theory ChainSteps
  imports ChainForks BlockAccounting StorageCrash
begin

text \<open>
  Block processing as a sequence of steps: every operation of the chain is made of
  connections on the tip, disconnections of the tip and bookkeeping that moves neither the
  tip nor the UTXO set.
\<close>

section \<open>Bookkeeping\<close>

text \<open>Every height index file holds a block of that height.\<close>

definition index_ok :: "FileStore \<Rightarrow> bool" where
  "index_ok s \<longleftrightarrow> (\<forall>h i. fmlookup (fs_heightIndex s) h = Some i \<longrightarrow> ix_Height i = h)"

definition same_store :: "FileStore \<Rightarrow> FileStore \<Rightarrow> bool" where
  "same_store s t \<longleftrightarrow> same_but_indexes s t \<and> (index_ok s \<longrightarrow> index_ok t)"

lemma same_store_refl [simp]: "same_store s s"
  by (simp add: same_store_def)

lemma same_store_trans: "same_store s t \<Longrightarrow> same_store t u \<Longrightarrow> same_store s u"
  by (auto simp: same_store_def intro: same_but_indexes_trans)

lemma index_ok_write:
  "index_ok s \<Longrightarrow> ix_Height idx = h \<Longrightarrow> index_ok (writeHeightIndex h idx s)"
  by (auto simp: index_ok_def writeHeightIndex_def)

lemma repair_walk_index_ok:
  "repair_walk n height h s = (r, t) \<Longrightarrow> index_ok s \<Longrightarrow>
     index_ok t \<and> (\<forall>idx. r = Inr idx \<longrightarrow> ix_Height idx = height)"
proof (induction n arbitrary: h s)
  case (Suc n)
  show ?case
  proof (cases "LoadBlock h s")
    case (Inl e)
    with Suc.prems show ?thesis by auto
  next
    case (Inr bi)
    obtain block idx where bi: "bi = (block, idx)" by (cases bi)
    from Suc.prems Inr bi index_ok_write Suc.IH [of "hash_String (hd_PrevBlock (bk_Header block))"
        "writeHeightIndex (ix_Height idx) idx s"] show ?thesis
      by (auto simp: Let_def split: if_splits)
  qed
qed auto

lemma LoadIndexByHeight_ok:
  assumes "LoadIndexByHeight height s = (r, t)" "index_ok s"
  shows "index_ok t \<and> (\<forall>idx. r = Inr idx \<longrightarrow> ix_Height idx = height)"
proof (cases "fmlookup (fs_heightIndex s) height")
  case None
  then show ?thesis
    using assms repair_walk_index_ok
    by (auto simp: LoadIndexByHeight_def repairHeightIndexFromTip_def
        simp del: repair_walk.simps split: option.splits if_splits)
next
  case (Some idx)
  then show ?thesis using assms by (auto simp: LoadIndexByHeight_def index_ok_def)
qed

lemma same_store_LoadIndex: "LoadIndexByHeight height s = (r, t) \<Longrightarrow> same_store s t"
  using LoadIndexByHeight_ok same_but_indexes_LoadIndex by (auto simp: same_store_def)

definition sameChain :: "Chain \<Rightarrow> Chain \<Rightarrow> bool" where
  "sameChain c c' \<longleftrightarrow> ch_tip c' = ch_tip c \<and> same_store (ch_store c) (ch_store c')"

definition samePools :: "Chain \<Rightarrow> Chain \<Rightarrow> bool" where
  "samePools c c' \<longleftrightarrow> ch_orphanByHash c' = ch_orphanByHash c \<and> ch_orphanByPrev c' = ch_orphanByPrev c \<and>
     ch_orphanParent c' = ch_orphanParent c \<and> ch_orphanOrder c' = ch_orphanOrder c \<and>
     fmmap sn_block (ch_sideBlocks c') = fmmap sn_block (ch_sideBlocks c)"

definition quiet :: "Chain \<Rightarrow> Chain \<Rightarrow> bool" where
  "quiet c c' \<longleftrightarrow> sameChain c c' \<and> samePools c c'"

interpretation same_chain: frame sameChain
  by unfold_locales (auto simp: sameChain_def intro: same_store_trans)

interpretation quiet: frame quiet
  by unfold_locales (auto simp: quiet_def samePools_def intro: same_chain.refl same_chain.trans)

lemma keeps_onStore:
  assumes "\<And>s r t. g s = (r, t) \<Longrightarrow> same_store s t"
  shows "keeps quiet (onStore g)"
proof (rule keepsI)
  fix c r c' assume "onStore g c = (r, c')"
  then obtain q t where "g (ch_store c) = (q, t)" "c' = c\<lparr>ch_store := t\<rparr>"
    by (auto simp: onStore_def Let_def split: prod.splits)
  then show "quiet c c'" using assms by (auto simp: quiet_def sameChain_def samePools_def)
qed

lemma keeps_readStore [intro, simp]: "keeps quiet (readStore g)"
  unfolding readStore_def by (rule keeps_onStore) auto

lemma recent_walk_frame: "recent_walk n height s = (r, t) \<Longrightarrow> same_store s t"
proof (induction n arbitrary: height s r t)
  case (Suc n)
  obtain q u where l: "LoadIndexByHeight height s = (q, u)" by (cases "LoadIndexByHeight height s")
  obtain q' v where w: "recent_walk n (height - 1) u = (q', v)" by (cases "recent_walk n (height - 1) u")
  note a = same_store_LoadIndex [OF l]
  from Suc.prems l w a same_store_trans [OF a Suc.IH [OF w]] show ?case
    by (auto split: if_splits sum.splits)
qed simp

lemma keeps_recentEntries [intro, simp]: "keeps quiet (onStore (recentEntries height n))"
  by (rule keeps_onStore) (auto simp: recentEntries_def split: if_splits dest: recent_walk_frame)

lemma keeps_LoadIndex [intro, simp]: "keeps quiet (onStore (LoadIndexByHeight height))"
  by (rule keeps_onStore) (rule same_store_LoadIndex)

lemma quiet_noteWork [simp]: "quiet c (noteWork hash work parent c') \<longleftrightarrow> quiet c c'"
  by (simp add: quiet_def sameChain_def samePools_def noteWork_def)

lemma fmupd_same: "fmlookup m k = Some v \<Longrightarrow> fmupd k v m = m"
  by (rule fmap_ext) auto

lemma fmmap_upd_same:
  "fmlookup m k = Some v \<Longrightarrow> f v' = f v \<Longrightarrow> fmmap f (fmupd k v' m) = fmmap f m"
  by (rule fmap_ext) auto

lemma quiet_side:
  assumes "quiet c c'" "fmlookup (ch_sideBlocks c) hash = Some node" "sn_block node' = sn_block node"
  shows "quiet c (c'\<lparr>ch_sideBlocks := fmupd hash node' (ch_sideBlocks c')\<rparr>)"
proof -
  have b: "fmmap sn_block (ch_sideBlocks c') = fmmap sn_block (ch_sideBlocks c)"
    using assms(1) by (simp add: quiet_def samePools_def)
  from arg_cong [where f = "\<lambda>m. fmlookup m hash", OF b] assms(2)
  obtain v where "fmlookup (ch_sideBlocks c') hash = Some v" "sn_block v = sn_block node" by auto
  then have "fmmap sn_block (fmupd hash node' (ch_sideBlocks c')) = fmmap sn_block (ch_sideBlocks c')"
    using assms(3) by (intro fmmap_upd_same [where v = v]) simp_all
  with assms(1) b show ?thesis by (simp add: quiet_def sameChain_def samePools_def)
qed

lemma chainwork_rec_quiet: "chainwork_rec n hash c = (r, c') \<Longrightarrow> quiet c c'"
proof (induction n arbitrary: hash c r c')
  case (Suc n)
  show ?case
  proof (cases "hash = [] \<or> hash |\<in>| fmdom (ch_work c)")
    case True
    with Suc.prems show ?thesis by (auto simp: quiet.refl split: option.splits if_splits)
  next
    case False
    then have f: "hash \<noteq> []" "fmlookup (ch_work c) hash = None" by (auto intro: fmdom_notD)
    show ?thesis
    proof (cases "fmlookup (ch_sideBlocks c) hash")
      case None
      show ?thesis
      proof (cases "LoadBlock hash (ch_store c)")
        case (Inl e)
        with Suc.prems f None show ?thesis by (auto simp: quiet.refl)
      next
        case (Inr bi)
        obtain block idx where bi: "bi = (block, idx)" by (cases bi)
        define parent where "parent = (if ix_Parent idx = [] \<and> 0 <s ix_Height idx
          then hash_String (hd_PrevBlock (bk_Header block)) else ix_Parent idx)"
        obtain q d where q: "chainwork_rec n parent c = (q, d)" by (cases "chainwork_rec n parent c")
        have "quiet c d" by (rule Suc.IH [OF q])
        with Suc.prems f None Inr bi q show ?thesis
          by (auto simp: Let_def parent_def [symmetric] split: sum.splits if_splits)
      qed
    next
      case (Some side)
      note dom = Some
      show ?thesis
      proof (cases "sn_chainwork side")
        case None
        obtain q d where q: "chainwork_rec n (sn_parent side) c = (q, d)" by (cases "chainwork_rec n (sn_parent side) c")
        have "quiet c d" by (rule Suc.IH [OF q])
        with Suc.prems f Some None q dom show ?thesis
          by (auto simp: Let_def quiet_side [OF _ dom] split: sum.splits)
      next
        case (Some w)
        with Suc.prems f \<open>fmlookup (ch_sideBlocks c) hash = Some side\<close> show ?thesis
          by (auto simp: quiet.refl)
      qed
    qed
  qed
qed (auto simp: quiet.refl)

lemma chainwork_rec_store: "chainwork_rec n hash c = (r, d) \<Longrightarrow> ch_store d = ch_store c"
proof (induction n arbitrary: hash c r d)
  case (Suc n)
  show ?case
  proof (cases "fmlookup (ch_sideBlocks c) hash")
    case None
    with Suc show ?thesis
      by (auto simp: noteWork_def Let_def split: if_splits option.splits sum.splits prod.splits)
  next
    case (Some side)
    then show ?thesis
      using Suc by (auto simp: noteWork_def Let_def split: if_splits option.splits sum.splits prod.splits)
  qed
qed simp

lemma keeps_chainworkForHash [intro, simp]: "keeps quiet (chainworkForHash hash)"
  by (rule keepsI) (auto simp: chainworkForHash_def simp del: chainwork_rec.simps dest: chainwork_rec_quiet)

lemma keeps_computeChildChainwork [intro, simp]: "keeps quiet (computeChildChainwork hash bits)"
  unfolding computeChildChainwork_def by (rule quiet.keeps_bind) auto

lemma keeps_buildSideNode [intro, simp]: "keeps quiet (buildSideNode hash parent height block)"
  unfolding buildSideNode_def by (rule quiet.keeps_bind) auto

lemma keeps_case_tip:
  "(keeps R m) \<Longrightarrow> (\<And>tip. keeps R (f tip)) \<Longrightarrow>
     keeps R (\<lambda>c. (case ch_tip c of None \<Rightarrow> m | Some tip \<Rightarrow> f tip) c)"
  by (auto simp: keeps_def split: option.splits)

lemma keeps_checkTip [intro, simp]: "keeps quiet (checkTip block)"
proof (rule keepsI)
  fix c r c' assume a: "checkTip block c = (r, c')"
  define m :: "BlockIndex \<Rightarrow> unit chainOp" where "m tip = (if ix_Hash tip = [] then sfail ErrGenesisPending
         else (case hash_FromString (ix_Hash tip) of Inl e \<Rightarrow> sfail (ErrHashText e)
           | Inr prev \<Rightarrow>
             if hd_PrevBlock (bk_Header block) \<noteq> prev then sfail ErrBadPrevBlock
             else sbind (readStore (medianTimePast (ix_Hash tip))) (\<lambda>mtp.
               scheck (\<not> hd_Timestamp (bk_Header block) \<le> mtp) ErrTimeTooOld)))" for tip
  have "keeps quiet (m tip)" for tip
    unfolding m_def by (auto split: sum.splits intro!: quiet.keeps_bind)
  with a show "quiet c c'"
    by (auto simp: checkTip_def m_def [symmetric] sret_def quiet.refl split: option.splits dest: keepsD)
qed

lemma keeps_nextRequiredBits [intro, simp]: "keeps quiet (nextRequiredBits E)"
proof (rule keepsI)
  fix c r c' assume a: "nextRequiredBits E c = (r, c')"
  define m :: "BlockIndex \<Rightarrow> u32 chainOp" where "m tip = sbind (onStore (recentEntries (ix_Height tip) DGWv3PastBlocks)) (\<lambda>recent.
          sret (requiredBitsFromRecent recent (pa_GenesisBits (en_params E)) (pa_PostGenesisBits (en_params E))))" for tip
  have "keeps quiet (m tip)" for tip unfolding m_def by (rule quiet.keeps_bind) auto
  with a show "quiet c c'"
    by (auto simp: nextRequiredBits_def m_def [symmetric] quiet.refl split: option.splits dest: keepsD)
qed

lemma keeps_checkPow [intro, simp]: "keeps quiet (checkPow hash bits)"
  by (simp add: checkPow_def)

lemma keeps_checkTransactions [intro, simp]: "keeps quiet (checkTransactions E block height)"
  by (auto simp: keeps_def checkTransactions_def quiet.refl)

lemma keeps_validateActiveBlock [intro, simp]: "keeps quiet (validateActiveBlock E now block)"
  unfolding validateActiveBlock_def
  by (intro quiet.keeps_bind quiet.keeps_pure keeps_checkTip keeps_nextRequiredBits keeps_checkPow
      keeps_computeChildChainwork keeps_checkTransactions)
    (auto split: prod.splits)

section \<open>A block that connects\<close>

lemma readStore_Inr: "readStore g c = (Inr x, c') \<longleftrightarrow> g (ch_store c) = Inr x \<and> c' = c"
  by (auto simp: readStore_def onStore_def split: sum.splits)

lemma readStore_state: "readStore g c = (r, c') \<Longrightarrow> c' = c"
  by (auto simp: readStore_def onStore_def)

text \<open>The checks against the tip, and what they find.\<close>

definition extendsTip :: "MsgBlock \<Rightarrow> Chain \<Rightarrow> bool" where
  "extendsTip block c \<longleftrightarrow>
     (\<forall>tip. ch_tip c = Some tip \<longrightarrow> ix_Hash tip \<noteq> [] \<and>
        hash_FromString (ix_Hash tip) = Inr (hd_PrevBlock (bk_Header block)) \<and>
        (\<exists>mtp. medianTimePast (ix_Hash tip) (ch_store c) = Inr mtp \<and> mtp < hd_Timestamp (bk_Header block)))"

lemma checkTip_Inr:
  assumes "checkTip block c = (Inr u, c')"
  shows "c' = c \<and> extendsTip block c"
proof (cases "ch_tip c")
  case None
  with assms show ?thesis by (simp add: checkTip_def extendsTip_def)
next
  case (Some tip)
  have c: "(if ix_Hash tip = [] then sfail ErrGenesisPending
         else (case hash_FromString (ix_Hash tip) of Inl e \<Rightarrow> sfail (ErrHashText e)
           | Inr prev \<Rightarrow>
             if hd_PrevBlock (bk_Header block) \<noteq> prev then sfail ErrBadPrevBlock
             else sbind (readStore (medianTimePast (ix_Hash tip))) (\<lambda>mtp.
               scheck (\<not> hd_Timestamp (bk_Header block) \<le> mtp) ErrTimeTooOld))) c = (Inr u, c')"
    using assms unfolding checkTip_def Some by simp
  then show ?thesis
    by (auto simp: extendsTip_def Some sbind_Inr readStore_Inr not_le split: if_splits sum.splits)
qed

text \<open>
  A block that validates on the tip passed every check, and validating it changed only index
  files and the chain work.
\<close>

lemma validateActiveBlock_Inr:
  assumes "validateActiveBlock E now block c = (Inr (idx, work, adds, spends, spent), d)"
  shows "quiet c d \<and> bk_Transactions block \<noteq> [] \<and>
    BuildMerkleRoot block = hd_MerkleRoot (bk_Header block) \<and> extendsTip block c \<and>
    hd_Timestamp (bk_Header block) \<le> maxFutureTime now \<and>
    fst (nextRequiredBits E c) = Inr (hd_Bits (bk_Header block)) \<and>
    (\<exists>hash. en_HashHeader E (bk_Header block) = Some hash \<and>
       CheckProofOfWork hash (hd_Bits (bk_Header block)) = Inr () \<and>
       idx = indexOf block (childHeight c) hash (tipHash c) work) \<and>
    validateBlockTransactions (en_crypto E) (storedUTXO (ch_store c)) block (childHeight c) =
      Inr (adds, spends, spent)"
proof -
  have q: "quiet c d" by (rule keepsD [OF keeps_validateActiveBlock assms])
  from assms obtain c1 c2 c3 hash where s:
    "bk_Transactions block \<noteq> []" "BuildMerkleRoot block = hd_MerkleRoot (bk_Header block)"
    "checkTip block c = (Inr (), c1)" "hd_Timestamp (bk_Header block) \<le> maxFutureTime now"
    "nextRequiredBits E c1 = (Inr (hd_Bits (bk_Header block)), c2)"
    "hashHeader E (bk_Header block) = Inr hash"
    "checkPow hash (hd_Bits (bk_Header block)) c2 = (Inr (), c2)"
    "computeChildChainwork (tipHash c2) (hd_Bits (bk_Header block)) c2 = (Inr work, c3)"
    "checkTransactions E block (childHeight c2) c3 = (Inr (adds, spends, spent), d)"
    "idx = indexOf block (childHeight c2) hash (tipHash c2) work"
    unfolding validateActiveBlock_def
    by (auto simp: sbind_Inr not_less checkPow_def split: prod.splits)
  have c1: "c1 = c" and e: "extendsTip block c" using checkTip_Inr [OF s(3)] by auto
  have q2: "quiet c c2" using keepsD [OF keeps_nextRequiredBits s(5)] by (simp add: c1)
  have q3: "quiet c c3" using keepsD [OF keeps_computeChildChainwork s(8)] q2 by (rule quiet.trans [rotated])
  have t: "ch_tip c2 = ch_tip c" using q2 by (simp add: quiet_def sameChain_def)
  have "fs_utxo (ch_store c3) = fs_utxo (ch_store c)"
    using q3 same_but_indexes_fields(3) by (auto simp: quiet_def sameChain_def same_store_def)
  then have u: "storedUTXO (ch_store c3) = storedUTXO (ch_store c)"
    by (simp add: storedUTXO_def LoadUTXO_def fun_eq_iff)
  show ?thesis
    using q s e t
    by (auto simp: c1 u checkTransactions_def childHeight_def tipHash_def hashHeader_def checkPow_def
        split: option.splits sum.splits)
qed

lemma connectBlock_Inr:
  assumes "connectBlock E now block c = (Inr u, c')"
  obtains idx work adds spends spent d where
    "validateActiveBlock E now block c = (Inr (idx, work, adds, spends, spent), d)"
    "c' = commitBlock block idx work adds spends spent d"
  using assms by (auto simp: connectBlock_def sbind_Inr split: prod.splits)

lemma connectBlock_Inl:
  assumes "connectBlock E now block c = (Inl e, c')"
  shows "quiet c c'"
proof -
  from assms have "validateActiveBlock E now block c = (Inl e, c')"
    by (auto simp: connectBlock_def sbind_def smodify_def split: prod.splits sum.splits)
  then show ?thesis by (rule keepsD [OF keeps_validateActiveBlock])
qed

end
