(* ===== verification/ChainInvariant.thy ===== *)
theory ChainInvariant
  imports ChainSteps
begin

text \<open>
  Invariants of the chain. Block processing is made of connections on the tip, disconnections
  of the tip, changes of the pools and lookups; an invariant that these keep is kept by every
  operation of the chain.
\<close>

definition pools_in :: "MsgBlock set \<Rightarrow> Chain \<Rightarrow> bool" where
  "pools_in S c \<longleftrightarrow> fmran' (ch_orphanByHash c) \<subseteq> S \<and> fmran' (fmmap sn_block (ch_sideBlocks c)) \<subseteq> S"

lemma fmran'_alt: "fmran' m = {x. \<exists>k. fmlookup m k = Some x}"
  by (auto intro: fmran'I elim: fmran'E)

lemma pools_in_iff:
  "pools_in S c \<longleftrightarrow> (\<forall>h b. fmlookup (ch_orphanByHash c) h = Some b \<longrightarrow> b \<in> S) \<and>
     (\<forall>h n. fmlookup (ch_sideBlocks c) h = Some n \<longrightarrow> sn_block n \<in> S)"
  unfolding pools_in_def fmran'_alt
  by (auto simp: subset_iff image_iff) blast+

lemma removeOrphan_simps [simp]:
  "ch_store (removeOrphan hash c) = ch_store c" "ch_tip (removeOrphan hash c) = ch_tip c"
  "ch_sideBlocks (removeOrphan hash c) = ch_sideBlocks c"
  "ch_orphanByHash (removeOrphan hash c) = fmdrop hash (ch_orphanByHash c)"
proof -
  have "fmdrop hash (ch_orphanByHash c) = ch_orphanByHash c" if "hash |\<notin>| fmdom (ch_orphanByHash c)"
    using that by (intro fmap_ext) (auto intro: fmdom_notD)
  then show "ch_orphanByHash (removeOrphan hash c) = fmdrop hash (ch_orphanByHash c)"
    by (simp add: removeOrphan_def Let_def)
qed (simp_all add: removeOrphan_def Let_def)

lemma fold_drop_lookup:
  "fmlookup (fold (\<lambda>n. fmdrop (f n)) ns m) h = Some x \<Longrightarrow> fmlookup m h = Some x"
  by (induction ns arbitrary: m) (fastforce split: if_splits)+

lemma quiet_activeHeight: "activeHeight hash c = (r, d) \<Longrightarrow> quiet c d"
  using same_store_LoadIndex
  by (fastforce simp: activeHeight_def quiet_def sameChain_def samePools_def
      split: sum.splits prod.splits if_splits)

section \<open>Queries\<close>

lemma keeps_headerSequence: "keeps quiet (ValidateHeaderSequence E now headers)"
proof (rule keepsI)
  fix c r d assume a: "ValidateHeaderSequence E now headers c = (r, d)"
  define m :: "BlockHeader list \<Rightarrow> BlockHeader \<Rightarrow> BlockIndex \<Rightarrow> hash list chainOp" where
    "m headers header tip = sbind (onStore (recentEntries (ix_Height tip) DGWv3PastBlocks)) (\<lambda>recent.
              sbind (slift (case hash_FromString (ix_Hash tip) of Inl e \<Rightarrow> Inl (ErrHashText e)
                            | Inr h \<Rightarrow> Inr h)) (\<lambda>prevHash.
              sbind (scheck (hd_PrevBlock header = prevHash) ErrHeadersNotConnected) (\<lambda>_.
                slift (validate_headers E now 0 prevHash (ix_Height tip + 1) recent headers))))"
    for headers header tip
  have "keeps quiet (m headers header tip)" for headers header tip
    unfolding m_def by (intro quiet.keeps_bind quiet.keeps_pure keeps_recentEntries)
  with a show "quiet c d"
    by (auto simp: ValidateHeaderSequence_def m_def [symmetric] sret_def sfail_def quiet.refl
        simp del: validate_headers.simps split: list.splits option.splits if_splits dest: keepsD)
qed

lemma headers_walk_frame: "headers_walk E stop th n h s = (r, t) \<Longrightarrow> same_store s t"
proof (induction n arbitrary: h s r t)
  case (Suc n)
  obtain q u where l: "LoadIndexByHeight h s = (q, u)" by (cases "LoadIndexByHeight h s")
  obtain q' v where w: "headers_walk E stop th n (h + 1) u = (q', v)" by (cases "headers_walk E stop th n (h + 1) u")
  note a = same_store_LoadIndex [OF l]
  from Suc.prems l w a same_store_trans [OF a Suc.IH [OF w]] show ?case
    by (auto split: if_splits sum.splits)
qed simp

lemma quiet_HeadersAfter: "HeadersAfter E loc stop limit c = (r, d) \<Longrightarrow> quiet c d"
  using headers_walk_frame
  by (fastforce simp: HeadersAfter_def quiet.refl quiet_def sameChain_def samePools_def
      split: if_splits option.splits prod.splits)

lemma rebuild_work_frame:
  "rebuild_work hs w c = (r, d) \<Longrightarrow> ch_tip d = ch_tip c \<and> same_store (ch_store c) (ch_store d) \<and> samePools c d"
proof (induction hs arbitrary: w c)
  case (Cons h hs)
  obtain q s where l: "LoadIndexByHeight h (ch_store c) = (q, s)" by (cases "LoadIndexByHeight h (ch_store c)")
  note a = same_store_LoadIndex [OF l]
  show ?case
  proof (cases q)
    case (Inl e)
    with Cons.prems l a Cons.IH [of w "c\<lparr>ch_store := s\<rparr>"] show ?thesis
      by (auto simp: samePools_def intro: same_store_trans)
  next
    case (Inr idx)
    define p where "p = (if ix_Parent idx = [] \<and> 0 <s ix_Height idx
               then (case LoadBlock (ix_Hash idx) s of Inl e \<Rightarrow> Inl (ErrStore e)
                     | Inr (block, _) \<Rightarrow> Inr (hash_String (hd_PrevBlock (bk_Header block))))
               else Inr (ix_Parent idx))"
    define cw where "cw = (case parseChainwork (ix_ChainWork idx) of Some w \<Rightarrow> w
      | None \<Rightarrow> w + WorkForBits (ix_Bits idx))"
    have eq: "(case p of Inl e \<Rightarrow> (Inl e, c\<lparr>ch_store := s\<rparr>)
        | Inr parent \<Rightarrow> rebuild_work hs cw (noteWork (ix_Hash idx) cw parent (c\<lparr>ch_store := s\<rparr>))) = (r, d)"
      using Cons.prems l Inr unfolding rebuild_work.simps p_def cw_def by (simp only: prod.case sum.case Let_def)
    show ?thesis
    proof (cases p)
      case (Inl e)
      with eq a show ?thesis by (auto simp: samePools_def)
    next
      case (Inr parent)
      with eq have "rebuild_work hs cw (noteWork (ix_Hash idx) cw parent (c\<lparr>ch_store := s\<rparr>)) = (r, d)" by simp
      from Cons.IH [OF this] a show ?thesis
        by (auto simp: noteWork_def samePools_def intro: same_store_trans)
    qed
  qed
qed (simp add: samePools_def)

lemma rebuildActive_quiet:
  assumes "rebuildActiveChainwork c = (r, d)"
  shows "quiet c d"
proof -
  let ?c = "c\<lparr>ch_work := fmempty, ch_parent := fmempty\<rparr>"
  have e: "quiet c ?c" by (simp add: quiet_def sameChain_def samePools_def)
  show ?thesis
  proof (cases "ch_tip c = None \<or> (\<exists>tip. ch_tip c = Some tip \<and> (ix_Hash tip = [] \<or> ix_Height tip <s 0))")
    case True
    with assms e show ?thesis by (auto simp: rebuildActiveChainwork_def Let_def)
  next
    case False
    then obtain tip where t: "ch_tip c = Some tip" "ix_Hash tip \<noteq> []" "\<not> ix_Height tip <s 0" by auto
    obtain q c1 where w: "rebuild_work (heightsTo (ix_Height tip)) 0 ?c = (q, c1)"
      by (cases "rebuild_work (heightsTo (ix_Height tip)) 0 ?c")
    have c1: "quiet c c1"
      using rebuild_work_frame [OF w] e quiet.trans [OF e] by (auto simp: quiet_def sameChain_def)
    obtain q2 c2 where w2: "chainworkForHash (ix_Hash tip) c1 = (q2, c2)" by (cases "chainworkForHash (ix_Hash tip) c1")
    have c2: "quiet c c2" by (rule quiet.trans [OF c1 keepsD [OF keeps_chainworkForHash w2]])
    then have c3: "quiet c (c2\<lparr>ch_work := m\<rparr>)" for m by (simp add: quiet_def sameChain_def samePools_def)
    from assms t w w2 c1 c2 c3 show ?thesis
      by (auto simp: rebuildActiveChainwork_def Let_def split: sum.splits if_splits)
  qed
qed

section \<open>What an invariant has to withstand\<close>

text \<open>
  \<open>S\<close> is a set the blocks in the pools and on the active chain come from (all blocks, when
  the invariant does not depend on it).
\<close>

locale chain_invariant =
  fixes E :: chainEnv and S :: "MsgBlock set" and I :: "Chain \<Rightarrow> bool"
  assumes quiet: "I c \<Longrightarrow> quiet c d \<Longrightarrow> I d"
    and connect: "I c \<Longrightarrow> block \<in> S \<Longrightarrow> connectBlock E now block c = (r, d) \<Longrightarrow> I d"
    and disconnect: "I c \<Longrightarrow> disconnectTip c = (r, d) \<Longrightarrow> I d"
    and pools: "I c \<Longrightarrow> pools_in S c"
    and loaded: "I c \<Longrightarrow> ch_tip c = Some tip \<Longrightarrow> LoadBlock (ix_Hash tip) (ch_store c) = Inr (b, i) \<Longrightarrow> b \<in> S"
    and remove: "I c \<Longrightarrow> I (removeOrphan hash c)"
    and add: "I c \<Longrightarrow> block \<in> S \<Longrightarrow> I (addOrphan hash parent block c)"
    and forget: "I c \<Longrightarrow> I (c\<lparr>ch_orphanByPrev := fmdrop cur (ch_orphanByPrev c)\<rparr>)"
    and side: "I c \<Longrightarrow> pools_in S (c\<lparr>ch_sideBlocks := m\<rparr>) \<Longrightarrow> I (c\<lparr>ch_sideBlocks := m\<rparr>)"
begin

lemma inv_keeps: "keeps quiet m \<Longrightarrow> m c = (r, d) \<Longrightarrow> I c \<Longrightarrow> I d"
  using quiet keepsD by metis

lemma drop_side: "I c \<Longrightarrow> I (c\<lparr>ch_sideBlocks := fmdrop h (ch_sideBlocks c)\<rparr>)"
  by (rule side) (use pools in \<open>auto simp: pools_in_iff split: if_splits\<close>)

lemma put_side: "I c \<Longrightarrow> sn_block n \<in> S \<Longrightarrow> I (c\<lparr>ch_sideBlocks := fmupd h n (ch_sideBlocks c)\<rparr>)"
  by (rule side) (use pools in \<open>auto simp: pools_in_iff split: if_splits\<close>)

lemma prune: "I c \<Longrightarrow> I (pruneSideBlocks c)"
  unfolding pruneSideBlocks_def Let_def
  by (auto split: option.split intro!: side) (use pools in \<open>auto simp: pools_in_iff split: if_splits\<close>)

lemma dropNodes: "I c \<Longrightarrow> I (dropNodes nodes c)"
  unfolding dropNodes_def
  by (rule side) (use pools in \<open>auto simp: pools_in_iff dest!: fold_drop_lookup\<close>)

subsection \<open>Orphans\<close>

lemma inv_children:
  "accept_children E now cur k arr i c = (hs, c') \<Longrightarrow> I c \<Longrightarrow> I c'"
proof (induction k arbitrary: arr i c hs c')
  case (Suc k)
  show ?case
  proof (cases "fmlookup (ch_orphanByHash c) (arr ! i)")
    case None
    with Suc show ?thesis by simp
  next
    case (Some block)
    have b: "block \<in> S" using Some pools [OF Suc.prems(2)] by (auto simp: pools_in_iff)
    show ?thesis
    proof (cases "ch_tip c = None \<or> tipHash c \<noteq> hash_String (hd_PrevBlock (bk_Header block))")
      case True
      with Suc Some show ?thesis by simp
    next
      case False
      obtain r d where conn: "connectBlock E now block c = (r, d)" by (cases "connectBlock E now block c")
      have d: "I d" by (rule connect [OF Suc.prems(2) b conn])
      show ?thesis
      proof (cases r)
        case (Inl e)
        with Suc.prems Some False conn Suc.IH [OF _ d] show ?thesis by simp
      next
        case (Inr x)
        let ?d = "(removeOrphan (arr ! i) d)\<lparr>ch_sideBlocks := fmdrop (arr ! i) (ch_sideBlocks d)\<rparr>"
        have "I ?d" using drop_side [OF remove [OF d], of "arr ! i"] by simp
        with Suc.prems Some False conn Inr Suc.IH [OF _ this] show ?thesis
          by (auto simp: Let_def split: prod.splits)
      qed
    qed
  qed
qed simp

lemma inv_queue: "I c \<Longrightarrow> I (accept_queue n E now q c)"
proof (induction n arbitrary: q c)
  case 0
  then show ?case by (cases q) simp_all
next
  case (Suc n)
  show ?case
  proof (cases q)
    case (Cons cur queue)
    define children where "children = (case fmlookup (ch_orphanByPrev c) cur of None \<Rightarrow> [] | Some hs \<Rightarrow> hs)"
    obtain hs d where d: "accept_children E now cur (length children) children 0 c = (hs, d)"
      by (cases "accept_children E now cur (length children) children 0 c")
    have "I (d\<lparr>ch_orphanByPrev := fmdrop cur (ch_orphanByPrev d)\<rparr>)"
      by (intro forget inv_children [OF d] Suc.prems)
    with Suc.IH d Cons show ?thesis by (simp add: children_def [symmetric])
  qed (use Suc.prems in simp)
qed

lemma inv_acceptOrphans: "I c \<Longrightarrow> I (acceptOrphanChildren E now hash c)"
  by (simp add: acceptOrphanChildren_def inv_queue del: accept_queue.simps)

subsection \<open>Reorganisation\<close>

lemma inv_path:
  "side_path n cur c = (r, d) \<Longrightarrow> I c \<Longrightarrow> sn_block cur \<in> S \<Longrightarrow>
     I d \<and> (\<forall>nodes h fh. r = Path nodes h fh \<longrightarrow> sn_block ` set nodes \<subseteq> S)"
proof (induction n arbitrary: cur c r d)
  case (Suc n)
  obtain a c1 where a: "activeHeight (sn_parent cur) c = (a, c1)" by (cases "activeHeight (sn_parent cur) c")
  have c1: "I c1" by (rule quiet [OF Suc.prems(2) quiet_activeHeight [OF a]])
  show ?case
  proof (cases a)
    case (Some h)
    with Suc.prems a c1 show ?thesis by auto
  next
    case None
    show ?thesis
    proof (cases "fmlookup (ch_sideBlocks c1) (sn_parent cur)")
      case None
      with Suc.prems a c1 \<open>a = None\<close> show ?thesis by simp
    next
      case (Some p)
      have p: "sn_block p \<in> S" using Some pools [OF c1] by (auto simp: pools_in_iff)
      obtain q e where e: "side_path n p c1 = (q, e)" by (cases "side_path n p c1")
      from Suc.IH [OF e c1 p] Suc.prems a \<open>a = None\<close> Some e show ?thesis
        by (auto simp: image_subset_iff split: forkPath.splits)
    qed
  qed
qed simp

lemma inv_disconnect_to:
  "disconnect_to n fh removed c = (r, removed', d) \<Longrightarrow> I c \<Longrightarrow> set removed \<subseteq> S \<Longrightarrow>
     I d \<and> set removed' \<subseteq> S"
proof (induction n arbitrary: removed c)
  case 0
  then show ?case by (auto split: if_splits)
next
  case (Suc n)
  show ?case
  proof (cases "ch_tip c")
    case None
    with Suc.prems show ?thesis by simp
  next
    case (Some tip)
    show ?thesis
    proof (cases "fh <s ix_Height tip")
      case False
      with Suc.prems Some show ?thesis by simp
    next
      case True
      obtain q e where e: "disconnectTip c = (q, e)" by (cases "disconnectTip c")
      have i: "I e" by (rule disconnect [OF Suc.prems(2) e])
      show ?thesis
      proof (cases "LoadBlock (ix_Hash tip) (ch_store c)")
        case (Inl err)
        with Suc.prems Some True show ?thesis by auto
      next
        case (Inr bi)
        obtain b j where b: "bi = (b, j)" by (cases bi)
        have "set (removed @ [b]) \<subseteq> S" using loaded [OF Suc.prems(2) Some] Inr b Suc.prems(3) by simp
        with Suc.IH [OF _ i] Suc.prems Some True Inr b e i show ?thesis by (cases q) auto
      qed
    qed
  qed
qed

lemma inv_branch:
  "connect_branch E now k nodes c = (r, d) \<Longrightarrow> I c \<Longrightarrow>
     sn_block ` set nodes \<subseteq> S \<Longrightarrow> I d"
proof (induction nodes arbitrary: k c)
  case (Cons node nodes)
  obtain q e where e: "connectBlock E now (sn_block node) c = (q, e)" by (cases "connectBlock E now (sn_block node) c")
  have s: "I e" by (rule connect [OF Cons.prems(2) _ e]) (use Cons.prems(3) in simp)
  from Cons.IH [OF _ inv_acceptOrphans [OF s]] Cons.prems e s show ?case
    by (auto split: sum.splits)
qed simp

lemma inv_disconnectN: "disconnectN n c = (r, d) \<Longrightarrow> I c \<Longrightarrow> I d"
  by (induction n arbitrary: c)
    (auto simp: sbind_def sret_def split: prod.splits sum.splits dest: disconnect)

lemma inv_connectAll:
  "connectAll E now bs c = (r, d) \<Longrightarrow> I c \<Longrightarrow> set bs \<subseteq> S \<Longrightarrow> I d"
  by (induction bs arbitrary: c)
    (auto simp: sbind_def sret_def split: prod.splits sum.splits dest: connect)

lemma inv_reconnect:
  "reconnectBlocks E now bs c = (r, d) \<Longrightarrow> I c \<Longrightarrow> set bs \<subseteq> S \<Longrightarrow> I d"
  using inv_connectAll [of now "rev bs"] by (simp add: reconnectBlocks_def)

lemma inv_attach:
  assumes "attachBranch E now nodes removed c = (r, d)" "I c" 
    "sn_block ` set nodes \<subseteq> S" "set removed \<subseteq> S"
  shows "I d"
proof -
  obtain q e where e: "connect_branch E now 0 (rev nodes) c = (q, e)" by (cases "connect_branch E now 0 (rev nodes) c")
  have s: "I e" by (rule inv_branch [OF e assms(2)]) (use assms(3) in simp)
  show ?thesis
  proof (cases q)
    case None
    with assms(1) e prune [OF dropNodes [OF s]] show ?thesis by (auto simp: attachBranch_def)
  next
    case (Some ek)
    obtain err k where ek: "ek = (err, k)" by (cases ek)
    obtain q1 e1 where e1: "disconnectN k e = (q1, e1)" by (cases "disconnectN k e")
    have s1: "I e1" by (rule inv_disconnectN [OF e1 s])
    obtain q2 e2 where e2: "reconnectBlocks E now removed e1 = (q2, e2)" by (cases "reconnectBlocks E now removed e1")
    have s2: "I e2" by (rule inv_reconnect [OF e2 s1 assms(4)])
    from assms(1) e e1 e2 s1 s2 Some ek show ?thesis by (auto simp: attachBranch_def split: sum.splits)
  qed
qed

lemma inv_reorganize:
  assumes "reorganize E now nodes forkHash forkHeight c = (r, d)" "I c" 
    "sn_block ` set nodes \<subseteq> S"
  shows "I d"
proof (cases "tipHash c = forkHash")
  case True
  with assms show ?thesis using inv_attach [of now nodes "[]"] by (simp add: reorganize_def)
next
  case False
  define n where "n = nat (case ch_tip c of None \<Rightarrow> 0 | Some tip \<Rightarrow> sint (ix_Height tip) - sint forkHeight)"
  obtain q removed e where e: "disconnect_to n forkHeight [] c = (q, removed, e)"
    by (metis prod_cases3)
  have s: "I e" "set removed \<subseteq> S" using inv_disconnect_to [OF e assms(2)] by auto
  obtain q1 e1 where e1: "reconnectBlocks E now removed e = (q1, e1)" by (cases "reconnectBlocks E now removed e")
  have s1: "I e1" by (rule inv_reconnect [OF e1 s])
  note att = inv_attach [OF _ s(1) assms(3) s(2)]
  from assms(1) False e e1 s s1 show ?thesis
    by (auto simp: reorganize_def n_def [symmetric] simp del: disconnect_to.simps
        split: option.splits sum.splits if_splits bool.splits intro: att)
qed

lemma inv_activate:
  assumes "tryActivateSideChain E now hash c = (r, d)" "I c" 
  shows "I d"
proof (cases "fmlookup (ch_sideBlocks c) hash = None \<or> ch_tip c = None")
  case True
  with assms(1,2) show ?thesis by (auto simp: tryActivateSideChain_def sret_def split: option.splits)
next
  case False
  then obtain node tip where n: "fmlookup (ch_sideBlocks c) hash = Some node" and t: "ch_tip c = Some tip"
    by auto
  have nS: "sn_block node \<in> S" using n pools [OF assms(2)] by (auto simp: pools_in_iff)
  obtain w c1 where w: "chainworkForHash (ix_Hash tip) c = (w, c1)" by (cases "chainworkForHash (ix_Hash tip) c")
  have c1: "I c1" by (rule inv_keeps [OF keeps_chainworkForHash w assms(2)])
  obtain p c2 where p: "side_path (fcard (fmdom (ch_sideBlocks c1)) + 1) node c1 = (p, c2)"
    by (cases "side_path (fcard (fmdom (ch_sideBlocks c1)) + 1) node c1")
  note c2 = inv_path [OF p c1 nS]
  from assms(1) n t w p c1 c2 show ?thesis
    by (auto simp: tryActivateSideChain_def sbind_def op_simps simp del: side_path.simps
        split: sum.splits if_splits forkPath.splits intro: inv_reorganize)
qed

subsection \<open>Processing\<close>

lemma inv_storeSide:
  assumes "storeSideBlock E now mutate block hash parent height res c = (r, d)" "I c" 
    "block \<in> S"
  shows "I d"
proof (cases mutate)
  case True
  obtain n c1 where n: "buildSideNode hash parent (height + 1) block c = (n, c1)"
    by (cases "buildSideNode hash parent (height + 1) block c")
  have c1: "I c1" by (rule inv_keeps [OF keeps_buildSideNode n assms(2)])
  show ?thesis
  proof (cases n)
    case (Inl e)
    with assms(1) True n c1 show ?thesis by (auto simp: storeSideBlock_def Let_def)
  next
    case (Inr node)
    have "sn_block node = block" using n Inr by (auto simp: buildSideNode_def sbind_Inr)
    then have c2: "I (c1\<lparr>ch_sideBlocks := fmupd hash node (ch_sideBlocks c1)\<rparr>)"
      using put_side [OF c1] assms(3) by simp
    obtain q c3 where q: "tryActivateSideChain E now hash
        (c1\<lparr>ch_sideBlocks := fmupd hash node (ch_sideBlocks c1)\<rparr>) = (q, c3)"
      by (cases "tryActivateSideChain E now hash (c1\<lparr>ch_sideBlocks := fmupd hash node (ch_sideBlocks c1)\<rparr>)")
    have c3: "I c3" by (rule inv_activate [OF q c2])
    from assms(1) True n Inr q c3 inv_acceptOrphans [OF c3] show ?thesis
      by (auto simp: storeSideBlock_def Let_def split: sum.splits if_splits)
  qed
qed (use assms in \<open>simp add: storeSideBlock_def Let_def\<close>)

lemma inv_preview:
  assumes "blockProcessPreview E now mutate block c = (r, d)" "I c" "block \<in> S"
  shows "I d"
proof (cases "hashHeader E (bk_Header block)")
  case (Inl e)
  with assms show ?thesis by (simp add: blockProcessPreview_def)
next
  case (Inr hash)
  define parent where "parent = hash_String (hd_PrevBlock (bk_Header block))"
  obtain a1 c1 where a1: "activeHeight (hash_String hash) c = (a1, c1)" by (cases "activeHeight (hash_String hash) c")
  have c1: "I c1" by (rule quiet [OF assms(2) quiet_activeHeight [OF a1]])
  obtain a2 c2 where a2: "activeHeight parent c = (a2, c2)" by (cases "activeHeight parent c")
  have c2: "I c2" by (rule quiet [OF assms(2) quiet_activeHeight [OF a2]])
  note side = inv_storeSide [OF _ c2 assms(3)] and orphan = add [OF c2 assms(3)]
  have dup: "snd (duplicateResult (hash_String hash) res c) = c1" for res
    using a1 by (simp add: duplicateResult_def Let_def split: option.splits)
  show ?thesis
  proof (cases "HasBlock (hash_String hash) c")
    case True
    with assms(1) Inr c1 dup show ?thesis
      by (auto simp: blockProcessPreview_def Let_def split: prod.splits) (metis snd_conv)
  next
    case False
    with assms(1,2) Inr a2 side orphan c2 show ?thesis
      by (auto simp: blockProcessPreview_def Let_def parent_def [symmetric] split: option.splits if_splits)
  qed
qed

lemma inv_process:
  assumes "ProcessBlockWithResult E now block c = (r, d)" "I c" "block \<in> S"
  shows "I d"
proof -
  obtain e res c1 where p: "blockProcessPreview E now True block c = ((e, res), c1)"
    by (metis prod.exhaust)
  have c1: "I c1" by (rule inv_preview [OF p assms(2,3)])
  obtain q c2 where q: "connectBlock E now block c1 = (q, c2)" by (cases "connectBlock E now block c1")
  have c2: "I c2" by (rule connect [OF c1 assms(3) q])
  from assms(1) p q c1 c2 prune [OF inv_acceptOrphans [OF c2]] show ?thesis
    by (auto simp: ProcessBlockWithResult_def Let_def split: option.splits if_splits sum.splits)
qed


lemma inv_proposal:
  assumes "ValidateBlockProposal E now block c = (r, d)" "I c" "block \<in> S"
  shows "I d"
proof -
  obtain e res c1 where p: "blockProcessPreview E now False block c = ((e, res), c1)"
    by (metis prod.exhaust)
  have c1: "I c1" by (rule inv_preview [OF p assms(2,3)])
  obtain q c2 where q: "validateActiveBlock E now block c1 = (q, c2)" by (cases "validateActiveBlock E now block c1")
  have "I c2" by (rule inv_keeps [OF keeps_validateActiveBlock q c1])
  with assms(1) p q c1 show ?thesis
    by (auto simp: ValidateBlockProposal_def split: option.splits if_splits sum.splits)
qed

end

end
