(* ===== verification/Ledger.thy ===== *)
theory Ledger
  imports ChainInvariant
begin

text \<open>
  The ledger invariant: the stored active chain with its undo data, rewound block by block,
  never holds more than the subsidies up to that height. It is kept by connecting and
  disconnecting blocks and by everything that is made of them.
\<close>

section \<open>UTXO maps\<close>

definition utxo_ok :: "(string, UTXOEntry) fmap \<Rightarrow> bool" where
  "utxo_ok m \<longleftrightarrow> (\<forall>f e. fmlookup m f = Some e \<longrightarrow> entry_ok e \<and> utxoFile (ut_Key e) = f)"

lemma utxo_ok_empty [simp]: "utxo_ok fmempty"
  by (simp add: utxo_ok_def)

text \<open>Outpoint keys hold no underscore, so replacing the colon loses nothing.\<close>

lemma op_key_no_underscore: "CHR ''_'' \<notin> set (op_key p)"
proof -
  have "CHR ''_'' \<notin> set (dec_string n)" for n
    using dec_string_digits [of "CHR ''_''" n] by (auto simp: is_digit_def)
  moreover have "CHR ''_'' \<notin> set (hash_String h)" for h
    by (simp add: hash_String_def hex_encode_no_underscore)
  ultimately show ?thesis by (simp add: op_key_def OutPointKey_def)
qed

lemma ReplaceChar_inj:
  assumes "ReplaceChar a b s = ReplaceChar a b t" "b \<notin> set s" "b \<notin> set t"
  shows "s = t"
  using assms
proof (induction s arbitrary: t)
  case (Cons c s)
  then show ?case by (cases t) (auto simp: ReplaceChar_def split: if_splits)
qed (simp add: ReplaceChar_def)

lemma utxoFile_inj: "utxoFile (op_key p) = utxoFile (op_key q) \<longleftrightarrow> p = q"
  using ReplaceChar_inj op_key_no_underscore op_key_inj unfolding utxoFile_def by metis

lemma utxo_ok_key:
  assumes "utxo_ok m" "fmlookup m (utxoFile k) = Some e" "k \<in> range op_key"
  shows "ut_Key e = k"
proof -
  from assms(1,2) have "utxoFile (ut_Key e) = utxoFile k" "ut_Key e \<in> range op_key"
    by (auto simp: utxo_ok_def entry_ok_def)
  with assms(3) show ?thesis by (auto simp: utxoFile_inj)
qed

lemma utxo_ok_drop: "utxo_ok m \<Longrightarrow> utxo_ok (fmdrop f m)"
  by (auto simp: utxo_ok_def split: if_splits)

lemma utxo_ok_upd: "utxo_ok m \<Longrightarrow> entry_ok e \<Longrightarrow> utxo_ok (fmupd (utxoFile (ut_Key e)) e m)"
  by (auto simp: utxo_ok_def)

lemma utxo_ok_drops: "utxo_ok m \<Longrightarrow> utxo_ok (fold (\<lambda>k. fmdrop (utxoFile k)) ks m)"
  by (induction ks arbitrary: m) (auto intro: utxo_ok_drop)

lemma utxo_ok_writes:
  "utxo_ok m \<Longrightarrow> \<forall>e\<in>set es. entry_ok e \<Longrightarrow> utxo_ok (fold (\<lambda>e. fmupd (utxoFile (ut_Key e)) e) es m)"
  by (induction es arbitrary: m) (auto intro: utxo_ok_upd)

lemma utxo_ok_connect: "utxo_ok m \<Longrightarrow> \<forall>e\<in>set adds. entry_ok e \<Longrightarrow> utxo_ok (connectUTXO adds spends m)"
  by (simp add: connectUTXO_def utxo_ok_drops utxo_ok_writes)

lemma utxo_ok_disconnect: "utxo_ok m \<Longrightarrow> \<forall>e\<in>set (un_Spent u). entry_ok e \<Longrightarrow> utxo_ok (disconnectUTXO u m)"
  by (simp add: disconnectUTXO_def utxo_ok_drops utxo_ok_writes)

text \<open>Totals.\<close>

lemma utxo_ok_value: "utxo_ok m \<Longrightarrow> fmlookup m f = Some e \<Longrightarrow> 0 \<le> entry_value e"
  by (auto simp: utxo_ok_def intro: entry_ok_value)

lemma map_total_mono:
  assumes "m \<subseteq>\<^sub>f n" "utxo_ok n"
  shows "map_total m \<le> map_total n"
proof -
  have sub: "fset (fmdom m) \<subseteq> fset (fmdom n)"
    using assms(1) fmlookup_dom_iff by (fastforce simp: fmsubset_iff)
  have "map_total m = (\<Sum>k\<in>fset (fmdom m). entry_value (the (fmlookup n k)))"
    unfolding map_total_def using assms(1)
    by (intro sum.cong) (auto simp: fmsubset_iff fmlookup_dom_iff)
  also have "\<dots> \<le> map_total n"
    unfolding map_total_def using sub assms(2)
    by (intro sum_mono2) (auto simp: fmlookup_dom_iff intro: utxo_ok_value)
  finally show ?thesis .
qed

lemma map_total_write:
  assumes "utxo_ok m"
  shows "map_total (fmupd f e m) \<le> map_total m + entry_value e"
proof (cases "fmlookup m f")
  case None
  then show ?thesis using map_total_upd [of f m e] by (simp add: fmlookup_dom_iff)
next
  case (Some e')
  have "fmupd f e m = fmupd f e (fmdrop f m)" by (rule fmap_ext) auto
  then have "map_total (fmupd f e m) = map_total (fmdrop f m) + entry_value e"
    using map_total_upd [of f "fmdrop f m" e] by simp
  also have "map_total (fmdrop f m) = map_total m - entry_value e'"
    using map_total_drop [OF Some] by simp
  finally show ?thesis using assms Some entry_ok_value by (auto simp: utxo_ok_def)
qed

lemma map_total_writes:
  assumes "utxo_ok m" "\<forall>e\<in>set es. entry_ok e"
  shows "map_total (fold (\<lambda>e. fmupd (utxoFile (ut_Key e)) e) es m) \<le> map_total m + list_total es"
  using assms
proof (induction es arbitrary: m)
  case (Cons e es)
  have "map_total (fold (\<lambda>e. fmupd (utxoFile (ut_Key e)) e) es (fmupd (utxoFile (ut_Key e)) e m)) \<le>
      map_total (fmupd (utxoFile (ut_Key e)) e m) + list_total es"
    using Cons by (intro Cons.IH) (auto intro: utxo_ok_upd)
  with map_total_write [OF Cons.prems(1), of "utxoFile (ut_Key e)" e] show ?case by simp
qed simp

lemma map_total_drops:
  assumes "list_all2 (\<lambda>k e. fmlookup m (utxoFile k) = Some e) ks es" "distinct (map utxoFile ks)"
  shows "map_total (fold (\<lambda>k. fmdrop (utxoFile k)) ks m) = map_total m - list_total es"
  using assms
proof (induction ks arbitrary: es m)
  case (Cons k ks)
  from Cons.prems(1) obtain e es' where es: "es = e # es'" and e: "fmlookup m (utxoFile k) = Some e"
    and r: "list_all2 (\<lambda>k e. fmlookup m (utxoFile k) = Some e) ks es'" by (auto simp: list_all2_Cons1)
  have "utxoFile x \<noteq> utxoFile k" if "x \<in> set ks" for x
    using Cons.prems(2) imageI [OF that, of utxoFile] by (intro notI) simp
  then have "list_all2 (\<lambda>x e. fmlookup (fmdrop (utxoFile k) m) (utxoFile x) = Some e) ks es'"
    by (intro list.rel_mono_strong [OF r]) simp
  with Cons.IH [of "fmdrop (utxoFile k) m" es'] Cons.prems(2) map_total_drop [OF e]
  show ?case by (simp add: es)
qed simp

text \<open>What a disconnect undoes.\<close>

lemma disconnect_connect_sub:
  assumes spent: "\<forall>e\<in>set spent. fmlookup m (utxoFile (ut_Key e)) = Some e" "map ut_Key spent = spends"
  shows "disconnectUTXO (undoOf adds spent) (connectUTXO adds spends m) \<subseteq>\<^sub>f m"
  unfolding fmsubset_iff
proof (intro allI impI)
  fix f e assume l: "fmlookup (disconnectUTXO (undoOf adds spent) (connectUTXO adds spends m)) f = Some e"
  consider "f \<in> (utxoFile \<circ> ut_Key) ` set spent"
    | "f \<notin> (utxoFile \<circ> ut_Key) ` set spent" "f \<in> (utxoFile \<circ> ut_Key) ` set adds"
    | "f \<notin> (utxoFile \<circ> ut_Key) ` set spent" "f \<notin> (utxoFile \<circ> ut_Key) ` set adds" by blast
  then show "fmlookup m f = Some e"
  proof cases
    case 1
    then obtain e' where "e' \<in> set spent" "utxoFile (ut_Key e') = f"
      "fmlookup (disconnectUTXO (undoOf adds spent) (connectUTXO adds spends m)) f = Some e'"
      using lookup_writes_same [OF 1] unfolding disconnectUTXO_def undoOf_def by fastforce
    with spent(1) l show ?thesis by auto
  next
    case 2
    with l show ?thesis
      by (auto simp: disconnectUTXO_def undoOf_def lookup_writes_other lookup_drops image_image)
  next
    case 3
    with l spent(2) show ?thesis
      by (auto simp: disconnectUTXO_def connectUTXO_def undoOf_def lookup_writes_other lookup_drops image_image
          split: if_splits)
  qed
qed

lemma disconnect_mono: "m \<subseteq>\<^sub>f n \<Longrightarrow> disconnectUTXO u m \<subseteq>\<^sub>f disconnectUTXO u n"
proof -
  have d: "fold (\<lambda>k. fmdrop (utxoFile k)) ks m \<subseteq>\<^sub>f fold (\<lambda>k. fmdrop (utxoFile k)) ks n" if "m \<subseteq>\<^sub>f n" for ks m n
    using that by (induction ks arbitrary: m n) (auto simp: fmsubset_drop_mono)
  have u: "m \<subseteq>\<^sub>f n \<Longrightarrow> fmupd k v m \<subseteq>\<^sub>f fmupd k v n" for k v m n
    by (auto simp: fmsubset_iff)
  have w: "fold (\<lambda>e. fmupd (utxoFile (ut_Key e)) e) es m \<subseteq>\<^sub>f fold (\<lambda>e. fmupd (utxoFile (ut_Key e)) e) es n"
    if "m \<subseteq>\<^sub>f n" for es m n
    using that by (induction es arbitrary: m n) (auto intro: u)
  assume "m \<subseteq>\<^sub>f n"
  then show ?thesis unfolding disconnectUTXO_def by (intro w d)
qed

section \<open>The stored chain\<close>

definition issuable :: "nat \<Rightarrow> int" where
  "issuable n = (\<Sum>h<n. sint (BlockSubsidy (of_nat h)))"

text \<open>
  The blocks the node may meet: well-formed on the wire, and without a collision of header
  hashes. A fixed set of them keeps the assumption satisfiable.
\<close>

definition blocks_ok :: "chainEnv \<Rightarrow> MsgBlock set \<Rightarrow> bool" where
  "blocks_ok E S \<longleftrightarrow>
     (\<forall>b\<in>S. MsgBlock_ok b \<and> en_HashHeader E (bk_Header b) \<noteq> Some zero_hash) \<and>
     (\<forall>b\<in>S. \<forall>b'\<in>S. en_HashHeader E (bk_Header b) = en_HashHeader E (bk_Header b') \<longrightarrow>
        bk_Header b = bk_Header b')"

text \<open>
  A chain is the list of its blocks with their hashes and undo data, newest first. \<open>linked\<close>:
  the blocks are stored, link by their header hashes down to a block without a parent, and
  the UTXO map, rewound along them, is within the supply at every height.
\<close>

type_synonym link = "string \<times> MsgBlock \<times> UndoData"

definition stored_link :: "chainEnv \<Rightarrow> MsgBlock set \<Rightarrow> FileStore \<Rightarrow> link \<Rightarrow> bool" where
  "stored_link E S s l \<longleftrightarrow>
     (case l of (h, b, u) \<Rightarrow>
        b \<in> S \<and> (\<exists>x. en_HashHeader E (bk_Header b) = Some x \<and> hash_String x = h) \<and>
        (\<exists>i. LoadBlock h s = Inr (b, i)) \<and> LoadUndo h s = Inr u \<and> (\<forall>e\<in>set (un_Spent u). entry_ok e))"

definition parentOf :: "link list \<Rightarrow> string" where
  "parentOf ls = (case ls of [] \<Rightarrow> hash_String zero_hash | (h, _) # _ \<Rightarrow> h)"

fun linked :: "chainEnv \<Rightarrow> MsgBlock set \<Rightarrow> FileStore \<Rightarrow> link list \<Rightarrow> (string, UTXOEntry) fmap \<Rightarrow> bool" where
  "linked E S s [] m = (map_total m \<le> issuable 0)"
| "linked E S s ((h, b, u) # ls) m =
     (stored_link E S s (h, b, u) \<and> hash_String (hd_PrevBlock (bk_Header b)) = parentOf ls \<and>
      map_total m \<le> issuable (Suc (length ls)) \<and> linked E S s ls (disconnectUTXO u m))"

definition tip_ok :: "link list \<Rightarrow> BlockIndex option \<Rightarrow> bool" where
  "tip_ok ls tip \<longleftrightarrow>
     (case ls of [] \<Rightarrow> tip = None
      | (h, _) # rest \<Rightarrow> \<exists>i. tip = Some i \<and> ix_Hash i = h \<and> ix_Height i = of_nat (length rest))"

text \<open>The store part of the invariant, for the optional indexes switched off.\<close>

definition store_ledger :: "chainEnv \<Rightarrow> MsgBlock set \<Rightarrow> link list \<Rightarrow> FileStore \<Rightarrow> bool" where
  "store_ledger E S ls s \<longleftrightarrow>
     \<not> fs_txIndexEnabled s \<and> \<not> fs_addressIndexEnabled s \<and> fs_journal s = None \<and> index_ok s \<and>
     utxo_ok (fs_utxo s) \<and> linked E S s ls (fs_utxo s) \<and> distinct (map fst ls) \<and> tip_ok ls (fs_tip s)"

definition ledger :: "chainEnv \<Rightarrow> MsgBlock set \<Rightarrow> link list \<Rightarrow> Chain \<Rightarrow> bool" where
  "ledger E S ls c \<longleftrightarrow> store_ledger E S ls (ch_store c) \<and> ch_tip c = fs_tip (ch_store c) \<and> pools_in S c"

text \<open>\<open>linked\<close> looks at the store only under the hashes of the chain, and is monotone in the map.\<close>

lemma LoadBlock_at:
  "fmlookup (fs_blocks t) h = fmlookup (fs_blocks s) h \<Longrightarrow>
     fmlookup (fs_hashIndex t) h = fmlookup (fs_hashIndex s) h \<Longrightarrow> LoadBlock h t = LoadBlock h s"
  by (simp add: LoadBlock_def cong: option.case_cong)

lemma stored_link_cong:
  assumes "fmlookup (fs_blocks t) (fst l) = fmlookup (fs_blocks s) (fst l)"
    "fmlookup (fs_hashIndex t) (fst l) = fmlookup (fs_hashIndex s) (fst l)"
    "fmlookup (fs_undo t) (fst l) = fmlookup (fs_undo s) (fst l)"
  shows "stored_link E S t l = stored_link E S s l"
  using LoadBlock_at [OF assms(1,2)] assms(3)
  by (cases l) (simp add: stored_link_def LoadUndo_def)

lemma linked_cong:
  assumes "linked E S s ls m"
    "\<And>h. h \<in> fst ` set ls \<Longrightarrow> fmlookup (fs_blocks t) h = fmlookup (fs_blocks s) h \<and>
       fmlookup (fs_hashIndex t) h = fmlookup (fs_hashIndex s) h \<and>
       fmlookup (fs_undo t) h = fmlookup (fs_undo s) h"
  shows "linked E S t ls m"
  using assms
proof (induction ls arbitrary: m)
  case (Cons l ls)
  obtain h b u where l: "l = (h, b, u)" by (cases l)
  have "stored_link E S t l = stored_link E S s l"
    by (rule stored_link_cong) (use Cons.prems(2) [of "fst l"] in auto)
  with Cons show ?case by (simp add: l)
qed simp

lemma linked_sub:
  "linked E S s ls m \<Longrightarrow> m' \<subseteq>\<^sub>f m \<Longrightarrow> utxo_ok m \<Longrightarrow> linked E S s ls m'"
proof (induction ls arbitrary: m m')
  case Nil
  then show ?case using map_total_mono [OF Nil(2,3)] by simp
next
  case (Cons l ls)
  obtain h b u where l: "l = (h, b, u)" by (cases l)
  have "utxo_ok (disconnectUTXO u m)"
    using Cons.prems by (intro utxo_ok_disconnect) (auto simp: l stored_link_def)
  then have "linked E S s ls (disconnectUTXO u m')"
    using Cons.prems(1) by (intro Cons.IH [OF _ disconnect_mono [OF Cons.prems(2)]]) (simp_all add: l)
  with Cons.prems(1) map_total_mono [OF Cons.prems(2,3)] show ?case by (simp add: l)
qed

lemma linked_total: "linked E S s ls m \<Longrightarrow> map_total m \<le> issuable (length ls)"
  by (cases ls) auto

text \<open>Index lookups and chain work lookups keep the invariant.\<close>

lemma same_store_ledger:
  assumes "store_ledger E S ls s" "same_store s t"
  shows "store_ledger E S ls t"
proof -
  note f = same_but_indexes_fields [of s t]
  have "linked E S t ls (fs_utxo s)" if "linked E S s ls (fs_utxo s)" "same_but_indexes s t"
    by (rule linked_cong [OF that(1)]) (simp add: f [OF that(2)])
  then show ?thesis using assms f by (auto simp: store_ledger_def same_store_def)
qed

lemma quiet_ledger:
  assumes "ledger E S ls c" "quiet c d"
  shows "ledger E S ls d"
proof -
  have "fs_tip (ch_store d) = fs_tip (ch_store c)"
    using assms(2) same_but_indexes_fields(1) by (auto simp: quiet_def sameChain_def same_store_def)
  with assms same_store_ledger show ?thesis
    by (auto simp: ledger_def quiet_def sameChain_def samePools_def pools_in_def)
qed

section \<open>Connecting\<close>

lemma linked_in:
  "linked E S s (pre @ (h, b, u) # post) m \<Longrightarrow>
     stored_link E S s (h, b, u) \<and> hash_String (hd_PrevBlock (bk_Header b)) = parentOf post"
  by (induction pre arbitrary: m) auto

text \<open>A block that extends the chain is not one of its blocks.\<close>

lemma linked_fresh:
  assumes "linked E S s ls m" "distinct (map fst ls)" "blocks_ok E S" "block \<in> S"
    "en_HashHeader E (bk_Header block) = Some x" "hash_String (hd_PrevBlock (bk_Header block)) = parentOf ls"
  shows "hash_String x \<notin> fst ` set ls"
proof
  assume "hash_String x \<in> fst ` set ls"
  then obtain b u where "(hash_String x, b, u) \<in> set ls" by auto
  then obtain pre post where ls: "ls = pre @ (hash_String x, b, u) # post" by (meson split_list)
  note l = linked_in [OF assms(1) [unfolded ls]]
  then have "b \<in> S" "en_HashHeader E (bk_Header b) = Some x" by (auto simp: stored_link_def)
  then have "bk_Header b = bk_Header block" using assms(3,4,5) by (simp add: blocks_ok_def)
  then have p: "parentOf post = parentOf ls" using l assms(6) by simp
  obtain h b' u' rest where ls': "ls = (h, b', u') # rest" by (cases ls) (auto simp: ls)
  show False
  proof (cases post)
    case Nil
    have "stored_link E S s (h, b', u')" using assms(1) by (simp add: ls')
    then obtain y where "b' \<in> S" "en_HashHeader E (bk_Header b') = Some y" "h = hash_String y"
      by (auto simp: stored_link_def)
    moreover have "h = hash_String zero_hash" using p by (simp add: Nil ls' parentOf_def)
    ultimately show False using assms(3) by (auto simp: blocks_ok_def)
  next
    case (Cons q qs)
    have "fst q = h" using p by (simp add: Cons ls' parentOf_def split: prod.splits)
    moreover have "fst q \<in> set (map fst (tl ls))" unfolding ls Cons by (cases pre) auto
    ultimately show False using assms(2) by (simp add: ls')
  qed
qed

lemma validated_spent:
  assumes "validateBlockTransactions C (storedUTXO s) block height = Inr (adds, spends, spent)"
    "utxo_ok (fs_utxo s)"
  shows "\<forall>e\<in>set spent. fmlookup (fs_utxo s) (utxoFile (ut_Key e)) = Some e" "map ut_Key spent = spends"
    "list_all2 (\<lambda>k e. fmlookup (fs_utxo s) (utxoFile k) = Some e) spends spent"
    "distinct (map utxoFile spends)" "\<forall>e\<in>set spent. entry_ok e"
proof -
  note keys = validate_entries(2) [OF assms(1)]
  have l: "list_all2 (\<lambda>k e. fmlookup (fs_utxo s) (utxoFile k) = Some e) spends spent"
    by (rule list.rel_mono_strong [OF validate_effect(1) [OF assms(1)]])
      (auto simp: storedUTXO_def LoadUTXO_def split: sum.splits option.splits)
  then show "list_all2 (\<lambda>k e. fmlookup (fs_utxo s) (utxoFile k) = Some e) spends spent" .
  have "list_all2 (\<lambda>k e. ut_Key e = k \<and> fmlookup (fs_utxo s) (utxoFile (ut_Key e)) = Some e \<and> entry_ok e) spends spent"
    by (rule list.rel_mono_strong [OF l])
      (use keys utxo_ok_key [OF assms(2)] assms(2) in \<open>auto simp: utxo_ok_def subset_iff\<close>)
  then show "\<forall>e\<in>set spent. fmlookup (fs_utxo s) (utxoFile (ut_Key e)) = Some e"
    "map ut_Key spent = spends" "\<forall>e\<in>set spent. entry_ok e"
    by (induction rule: list_all2_induct) auto
  show "distinct (map utxoFile spends)"
    unfolding distinct_map
  proof (intro conjI validate_effect(2) [OF assms(1)] inj_onI)
    fix a b assume "a \<in> set spends" "b \<in> set spends" "utxoFile a = utxoFile b"
    with keys obtain p q where "a = op_key p" "b = op_key q" "utxoFile (op_key p) = utxoFile (op_key q)" by blast
    then show "a = b" by (simp add: utxoFile_inj)
  qed
qed

lemma save_ledger:
  assumes s: "store_ledger E S ls s" and ok: "blocks_ok E S" "block \<in> S"
    and hash: "en_HashHeader E (bk_Header block) = Some x"
    and prev: "hash_String (hd_PrevBlock (bk_Header block)) = parentOf ls"
    and idx: "ix_Hash idx = hash_String x" "ix_Height idx = of_nat (length ls)"
    and v: "validateBlockTransactions C (storedUTXO s) block (of_nat (length ls)) = Inr (adds, spends, spent)"
  shows "store_ledger E S ((hash_String x, block, undoOf adds spent) # ls)
    (SaveBlock block idx adds spends spent s)"
proof -
  let ?t = "SaveBlock block idx adds spends spent s"
  let ?u = "undoOf adds spent"
  note f = SaveBlock_fields [of block idx adds spends spent s]
  have u: "utxo_ok (fs_utxo s)" and l: "linked E S s ls (fs_utxo s)" and d: "distinct (map fst ls)"
    using s by (simp_all add: store_ledger_def)
  note sp = validated_spent [OF v u]
  have fresh: "hash_String x \<notin> fst ` set ls" by (rule linked_fresh [OF l d ok hash prev])
  have adds: "\<forall>e\<in>set adds. entry_ok e" by (rule validate_entries(1) [OF v])
  have "map_total (fs_utxo ?t) \<le> map_total (fs_utxo s) - list_total spent + list_total adds"
    using map_total_writes [OF utxo_ok_drops [OF u] adds, of spends] map_total_drops [OF sp(3,4)]
    by (simp add: f connectUTXO_def)
  also have "\<dots> \<le> issuable (Suc (length ls))"
    using validate_effect(4) [OF v] linked_total [OF l] by (simp add: issuable_def)
  finally have total: "map_total (fs_utxo ?t) \<le> issuable (Suc (length ls))" .
  have "LoadBlock (hash_String x) ?t = Inr (block, idx)"
    using ok idx block.dec_enc [of block "[]"] by (simp add: LoadBlock_def f blocks_ok_def)
  then have link: "stored_link E S ?t (hash_String x, block, ?u)"
    using ok hash sp(5) idx by (simp add: stored_link_def LoadUndo_def f undoOf_def)
  have "linked E S s ls (disconnectUTXO ?u (fs_utxo ?t))"
    unfolding f by (rule linked_sub [OF l disconnect_connect_sub [OF sp(1,2)] u])
  then have "linked E S ?t ls (disconnectUTXO ?u (fs_utxo ?t))"
    by (rule linked_cong) (use fresh idx in \<open>auto simp: f\<close>)
  moreover have "index_ok ?t" using s idx by (auto simp: store_ledger_def index_ok_def f)
  ultimately show ?thesis
    using s link prev total d fresh idx utxo_ok_connect [OF u adds, of spends]
    by (simp add: store_ledger_def tip_ok_def f image_iff)
qed

text \<open>A tip hash that parses is the text of the hash it parses to.\<close>

lemma hash_FromString_String_Inr: "hash_FromString (hash_String y) = Inr p \<Longrightarrow> p = y"
proof -
  assume a: "hash_FromString (hash_String y) = Inr p"
  have e: "(if 2 \<le> length (hash_String y) \<and> take 2 (hash_String y) = ''0x'' then drop 2 (hash_String y)
    else hash_String y) = hash_String y"
    using hash_String_no_0x by simp
  have "hash_ok y"
    using a unfolding hash_FromString_def Let_def e by (simp add: hash_ok_def split: if_splits)
  with a show "p = y" using hash_FromString_String by simp
qed

lemma validated_context:
  assumes c: "ledger E S ls c" "ls \<noteq> []"
    and va: "validateActiveBlock E now block c = (Inr (idx, work, adds, spends, spent), d)"
  obtains hash where "ledger E S ls d" "en_HashHeader E (bk_Header block) = Some hash"
    "hash_String (hd_PrevBlock (bk_Header block)) = parentOf ls"
    "ix_Hash idx = hash_String hash" "ix_Height idx = of_nat (length ls)"
    "validateBlockTransactions (en_crypto E) (storedUTXO (ch_store d)) block (of_nat (length ls)) =
      Inr (adds, spends, spent)"
proof -
  from validateActiveBlock_Inr [OF va] obtain hash where q: "quiet c d" and ext: "extendsTip block c"
    and hash: "en_HashHeader E (bk_Header block) = Some hash"
    and idx: "idx = indexOf block (childHeight c) hash (tipHash c) work"
    and v: "validateBlockTransactions (en_crypto E) (storedUTXO (ch_store c)) block (childHeight c) =
      Inr (adds, spends, spent)" by blast
  obtain h b u rest where ls: "ls = (h, b, u) # rest" using c(2) by (cases ls) auto
  obtain tip where tip: "ch_tip c = Some tip" "ix_Hash tip = h" "ix_Height tip = of_nat (length rest)"
    using c(1) by (auto simp: ledger_def store_ledger_def tip_ok_def ls)
  have height: "childHeight c = of_nat (length ls)" by (simp add: childHeight_def tip ls)
  obtain y where y: "h = hash_String y"
    using c(1) by (auto simp: ledger_def store_ledger_def ls stored_link_def)
  have "hash_FromString (hash_String y) = Inr (hd_PrevBlock (bk_Header block))"
    using ext tip y by (auto simp: extendsTip_def)
  then have prev: "hash_String (hd_PrevBlock (bk_Header block)) = parentOf ls"
    using hash_FromString_String_Inr y by (simp add: ls parentOf_def)
  have "storedUTXO (ch_store d) = storedUTXO (ch_store c)"
    using q same_but_indexes_fields(3)
    by (auto simp: quiet_def sameChain_def same_store_def storedUTXO_def LoadUTXO_def fun_eq_iff)
  then have "validateBlockTransactions (en_crypto E) (storedUTXO (ch_store d)) block (of_nat (length ls)) =
      Inr (adds, spends, spent)" using v height by simp
  from that [OF quiet_ledger [OF c(1) q] hash prev _ _ this] show ?thesis
    by (simp add: idx indexOf_def height)
qed

lemma connect_ledger:
  assumes c: "ledger E S ls c" "ls \<noteq> []" and ok: "blocks_ok E S" "block \<in> S"
    and conn: "connectBlock E now block c = (Inr r, c')"
  shows "\<exists>hash u. en_HashHeader E (bk_Header block) = Some hash \<and>
    ledger E S ((hash_String hash, block, u) # ls) c'"
proof -
  obtain idx work adds spends spent d where
    va: "validateActiveBlock E now block c = (Inr (idx, work, adds, spends, spent), d)"
    and c': "c' = commitBlock block idx work adds spends spent d"
    using connectBlock_Inr [OF conn] .
  obtain hash where v: "ledger E S ls d" "en_HashHeader E (bk_Header block) = Some hash"
    "hash_String (hd_PrevBlock (bk_Header block)) = parentOf ls"
    "ix_Hash idx = hash_String hash" "ix_Height idx = of_nat (length ls)"
    "validateBlockTransactions (en_crypto E) (storedUTXO (ch_store d)) block (of_nat (length ls)) =
      Inr (adds, spends, spent)" using validated_context [OF c va] .
  have "store_ledger E S ((hash_String hash, block, undoOf adds spent) # ls)
      (SaveBlock block idx adds spends spent (ch_store d))"
    by (rule save_ledger [OF _ ok v(2-6)]) (use v(1) in \<open>simp add: ledger_def\<close>)
  then have "ledger E S ((hash_String hash, block, undoOf adds spent) # ls) c'"
    using v(1) by (simp add: ledger_def c' commitBlock_def noteWork_def SaveBlock_fields pools_in_def)
  with v(2) show ?thesis by blast
qed

section \<open>Disconnecting\<close>

lemma DisconnectBlock_plain:
  assumes "\<not> fs_txIndexEnabled s" "\<not> fs_addressIndexEnabled s"
  shows "DisconnectBlock hash (Some p) u s =
    (Inr (), s\<lparr>fs_utxo := disconnectUTXO u (fs_utxo s), fs_tip := Some p, fs_journal := None,
       fs_heightIndex := fmdrop (ix_Height p + 1) (fs_heightIndex s)\<rparr>)"
  using assms
  by (simp add: DisconnectBlock_def applyDisconnect_def applyDisconnect_steps_def utxo_removes utxo_writes
      disconnectUTXO_def step_defs)

lemma disconnect_store_ledger:
  assumes s: "store_ledger E S ((h, b, u) # ls) s" and ls: "ls \<noteq> []"
    and p: "ix_Hash p = parentOf ls" "ix_Height p = of_nat (length ls) - 1"
    and d: "DisconnectBlock h (Some p) u s = (r, t)"
  shows "r = Inr () \<and> store_ledger E S ls t \<and> fs_tip t = Some p"
proof -
  from s have off: "\<not> fs_txIndexEnabled s" "\<not> fs_addressIndexEnabled s" by (simp_all add: store_ledger_def)
  from d have r: "r = Inr ()" and t: "t = s\<lparr>fs_utxo := disconnectUTXO u (fs_utxo s), fs_tip := Some p,
      fs_journal := None, fs_heightIndex := fmdrop (ix_Height p + 1) (fs_heightIndex s)\<rparr>"
    unfolding DisconnectBlock_plain [OF off] by auto
  have "linked E S s ls (disconnectUTXO u (fs_utxo s))" using s by (simp add: store_ledger_def)
  then have "linked E S t ls (disconnectUTXO u (fs_utxo s))" by (rule linked_cong) (simp add: t)
  then have "linked E S t ls (fs_utxo t)" by (simp add: t)
  moreover have "utxo_ok (fs_utxo t)"
    using s by (auto simp: t store_ledger_def stored_link_def intro!: utxo_ok_disconnect)
  moreover have "tip_ok ls (Some p)" using p ls by (auto simp: tip_ok_def parentOf_def split: list.splits)
  moreover have "index_ok t" using s by (auto simp: t store_ledger_def index_ok_def split: if_splits)
  ultimately show ?thesis using s by (simp add: r store_ledger_def) (simp add: t)
qed

lemma disconnect_ledger:
  assumes c: "ledger E S ls c" and d: "disconnectTip c = (r, c')"
  shows "case r of Inl _ \<Rightarrow> ledger E S ls c' | Inr _ \<Rightarrow> tl ls \<noteq> [] \<and> ledger E S (tl ls) c'"
proof (cases "ch_tip c = None \<or> tipHash c = [] \<or> (\<exists>tip. ch_tip c = Some tip \<and> ix_Height tip \<le>s 0)")
  case True
  then show ?thesis using c d by (auto simp: disconnectTip_def tipHash_def split: option.splits)
next
  case False
  then obtain tip where tip: "ch_tip c = Some tip" "ix_Hash tip \<noteq> []" "\<not> ix_Height tip \<le>s 0"
    by (auto simp: tipHash_def)
  then obtain h b u rest where ls: "ls = (h, b, u) # rest" and t: "ix_Hash tip = h" "ix_Height tip = of_nat (length rest)"
    using c by (auto simp: ledger_def store_ledger_def tip_ok_def split: list.splits)
  have rest: "rest \<noteq> []" using tip(3) t by auto
  obtain i where b: "LoadBlock h (ch_store c) = Inr (b, i)" and u: "LoadUndo h (ch_store c) = Inr u"
    and prev: "hash_String (hd_PrevBlock (bk_Header b)) = parentOf rest"
    using c by (auto simp: ledger_def store_ledger_def ls stored_link_def)
  obtain q s where l: "LoadIndexByHeight (of_nat (length rest) - 1) (ch_store c) = (q, s)"
    by (cases "LoadIndexByHeight (of_nat (length rest) - 1) (ch_store c)")
  have s: "store_ledger E S ls s"
    using c same_store_ledger same_store_LoadIndex [OF l] by (auto simp: ledger_def)
  have tips: "fs_tip s = ch_tip c"
    using c same_but_indexes_fields(1) [OF same_but_indexes_LoadIndex [OF l]] by (simp add: ledger_def)
  have cs: "ledger E S ls (c\<lparr>ch_store := s\<rparr>)"
    using c s tips by (simp add: ledger_def pools_in_def)
  show ?thesis
  proof (cases q)
    case (Inl e)
    then show ?thesis using d tip t b u l cs
      by (auto simp: disconnectTip_def sbind_def readStore_def onStore_def)
  next
    case (Inr p)
    have height: "ix_Height p = of_nat (length rest) - 1"
      using LoadIndexByHeight_ok [OF l] c Inr by (auto simp: ledger_def store_ledger_def)
    show ?thesis
    proof (cases "ix_Hash p = parentOf rest")
      case False
      then show ?thesis using d tip t b u l cs Inr prev
        by (auto simp: disconnectTip_def sbind_def readStore_def onStore_def op_simps)
    next
      case True
      obtain w s' where dis: "DisconnectBlock h (Some p) u s = (w, s')" by (cases "DisconnectBlock h (Some p) u s")
      note ds = disconnect_store_ledger [OF s [unfolded ls] rest True height dis]
      show ?thesis using d tip t b u l Inr prev True dis ds rest c
        by (auto simp: disconnectTip_def sbind_def readStore_def onStore_def op_simps ledger_def pools_in_def ls)
    qed
  qed
qed

section \<open>The UTXO statistics\<close>

lemma list_total_ListUTXO: "list_total (ListUTXO s) = map_total (fs_utxo s)"
proof -
  have "list_total (ListUTXO s) =
      (\<Sum>k\<leftarrow>sorted_list_of_fset (fmdom (fs_utxo s)). entry_value (the (fmlookup (fs_utxo s) k)))"
    by (simp add: list_total_def ListUTXO_def comp_def)
  also have "\<dots> = map_total (fs_utxo s)"
    by (simp add: map_total_def sum_list_distinct_conv_sum_set sorted_list_of_fset_def)
  finally show ?thesis .
qed

text \<open>The 64-bit sum of a UTXO set within the money range does not wrap.\<close>

lemma UTXOStats_total:
  assumes "utxo_ok (fs_utxo s)" "map_total (fs_utxo s) \<le> sint MaxMoney"
  shows "sint (st_Total (UTXOStats_of s)) = map_total (fs_utxo s)"
proof -
  have w: "sum_list (map ut_Value es) = of_int (list_total es)" for es
    by (induction es) (simp_all add: entry_value_def)
  have "0 \<le> map_total (fs_utxo s)"
    unfolding map_total_def using utxo_ok_value [OF assms(1)]
    by (intro sum_nonneg) (auto simp: fmlookup_dom_iff)
  with assms(2) show ?thesis
    by (simp add: UTXOStats_of_def w list_total_ListUTXO sint_of_int_i64)
qed

end
