(* ===== verification/LedgerOps.thy ===== *)
theory LedgerOps
  imports Ledger
begin

text \<open>
  Every operation of the chain keeps the ledger invariant: processing a block with everything
  it sets off (orphans, side branches, reorganisations and their roll-backs) is made of
  connections, disconnections and bookkeeping.
\<close>

definition sound :: "chainEnv \<Rightarrow> MsgBlock set \<Rightarrow> Chain \<Rightarrow> bool" where
  "sound E S c \<longleftrightarrow> (\<exists>ls. ls \<noteq> [] \<and> ledger E S ls c)"

lemma sound_pools: "sound E S c \<Longrightarrow> pools_in S c"
  by (auto simp: sound_def ledger_def)

lemma sound_quiet: "sound E S c \<Longrightarrow> quiet c d \<Longrightarrow> sound E S d"
  unfolding sound_def using quiet_ledger by blast

lemma sound_keeps: "keeps quiet m \<Longrightarrow> m c = (r, d) \<Longrightarrow> sound E S c \<Longrightarrow> sound E S d"
  using sound_quiet keepsD by metis

lemma sound_connect:
  assumes "sound E S c" "blocks_ok E S" "block \<in> S" "connectBlock E now block c = (r, c')"
  shows "sound E S c'"
proof (cases r)
  case (Inl e)
  show ?thesis by (rule sound_quiet [OF assms(1) connectBlock_Inl [OF assms(4) [unfolded Inl]]])
next
  case (Inr x)
  from assms(1) obtain ls where "ls \<noteq> []" "ledger E S ls c" by (auto simp: sound_def)
  from connect_ledger [OF this(2,1) assms(2,3) assms(4) [unfolded Inr]] show ?thesis
    by (auto simp: sound_def)
qed

lemma sound_disconnect:
  assumes "sound E S c" "disconnectTip c = (r, c')"
  shows "sound E S c'"
proof -
  from assms(1) obtain ls where "ls \<noteq> []" "ledger E S ls c" by (auto simp: sound_def)
  from disconnect_ledger [OF this(2) assms(2)] this show ?thesis
    by (cases r) (auto simp: sound_def)
qed

text \<open>Changes of the pools alone.\<close>

lemma sound_pools_update:
  assumes "sound E S c" "ch_store c' = ch_store c" "ch_tip c' = ch_tip c"
    "pools_in S c \<Longrightarrow> pools_in S c'"
  shows "sound E S c'"
  using assms sound_pools [OF assms(1)] by (auto simp: sound_def ledger_def)

text \<open>So the ledger is an invariant of the whole chain.\<close>

interpretation ledger: chain_invariant E S "\<lambda>c. blocks_ok E S \<and> sound E S c" for E S
proof (unfold_locales, goal_cases)
  case (1 c d)
  then show ?case using sound_quiet by blast
next
  case (2 c block now r d)
  then show ?case using sound_connect by blast
next
  case (3 c r d)
  then show ?case using sound_disconnect by blast
next
  case (4 c)
  then show ?case using sound_pools by blast
next
  case (5 c tip b i)
  then obtain ls where ls: "ls \<noteq> []" "ledger E S ls c" by (auto simp: sound_def)
  then obtain h b' u rest where "ls = (h, b', u) # rest" by (cases ls) auto
  with ls 5 show ?case by (auto simp: ledger_def store_ledger_def tip_ok_def stored_link_def)
next
  case (6 c hash)
  then show ?case by (auto elim!: sound_pools_update simp: pools_in_iff split: if_splits)
next
  case (7 c block hash parent)
  then show ?case
    by (auto elim!: sound_pools_update simp: pools_in_iff addOrphan_def Let_def split: if_splits)
next
  case (8 c cur)
  then show ?case by (auto elim!: sound_pools_update simp: pools_in_iff)
next
  case (9 c m)
  then show ?case by (auto elim!: sound_pools_update)
qed

section \<open>Start\<close>

lemma ledger_start: "ledger E S [] (emptyChain NewFileStore)"
  by (auto simp: ledger_def store_ledger_def emptyChain_def NewFileStore_def index_ok_def tip_ok_def
      pools_in_iff issuable_def)

lemma sound_genesis:
  assumes "ledger E S [] c" "blocks_ok E S" "pa_GenesisHash (en_params E) \<noteq> []"
    "\<forall>b. NewBlock (en_params E) = Some b \<longrightarrow> b \<in> S" "EnsureGenesis E c = (Inr u, d)"
  shows "sound E S d"
proof -
  have tip: "ch_tip c = None" using assms(1) by (simp add: ledger_def store_ledger_def tip_ok_def)
  with assms(3,5) obtain block hash adds spends spent where
    b: "NewBlock (en_params E) = Some block" and h: "hashHeader E (bk_Header block) = Inr hash"
    and v: "validateBlockTransactions (en_crypto E) (storedUTXO (ch_store c)) block 0 = Inr (adds, spends, spent)"
    and d: "d = commitBlock block (indexOf block 0 hash [] (WorkForBits (hd_Bits (bk_Header block))))
      (WorkForBits (hd_Bits (bk_Header block))) adds spends spent c"
    by (auto simp: EnsureGenesis_def sbind_Inr checkPow_def checkTransactions_def split: option.splits if_splits prod.splits)
  have "hd_PrevBlock (bk_Header block) = zero_hash"
    using b by (auto simp: NewBlock_def Let_def split: option.splits)
  then have prev: "hash_String (hd_PrevBlock (bk_Header block)) = parentOf []" by (simp add: parentOf_def)
  have hash: "en_HashHeader E (bk_Header block) = Some hash" using h by (auto simp: hashHeader_def split: option.splits)
  have "store_ledger E S ((hash_String hash, block, undoOf adds spent) # [])
      (SaveBlock block (indexOf block 0 hash [] (WorkForBits (hd_Bits (bk_Header block)))) adds spends spent (ch_store c))"
    by (rule save_ledger [OF _ assms(2) _ hash prev]) (use assms b v in \<open>simp_all add: ledger_def indexOf_def\<close>)
  then have "ledger E S [(hash_String hash, block, undoOf adds spent)] d"
    using assms(1) by (simp add: ledger_def d commitBlock_def noteWork_def SaveBlock_fields pools_in_def)
  then show ?thesis by (auto simp: sound_def)
qed

section \<open>Queries and restart\<close>

lemma New_ledger:
  assumes "New t = Inr d" "recoverJournal t = (Inr (), s)" "store_ledger E S ls s"
  shows "ledger E S ls d"
proof -
  let ?c = "(emptyChain s)\<lparr>ch_tip := fs_tip s\<rparr>"
  from assms(1,2) have "rebuildActiveChainwork ?c = (Inr (), d)"
    by (auto simp: New_def LoadTip_def split: sum.splits prod.splits)
  moreover have "ledger E S ls ?c"
    using assms(3) by (simp add: ledger_def emptyChain_def pools_in_iff)
  ultimately show ?thesis using quiet_ledger rebuildActive_quiet by blast
qed

lemma forget_ledger:
  assumes "store_ledger E S ls s" "hash \<notin> fst ` set ls"
  shows "store_ledger E S ls ((forgetBlock hash height s)\<lparr>fs_journal := None\<rparr>)"
proof -
  have "linked E S s ls (fs_utxo s)" using assms(1) by (simp add: store_ledger_def)
  then have "linked E S ((forgetBlock hash height s)\<lparr>fs_journal := None\<rparr>) ls (fs_utxo s)"
    by (rule linked_cong) (use assms(2) in \<open>auto simp: forgetBlock_def\<close>)
  with assms(1) show ?thesis by (auto simp: store_ledger_def forgetBlock_def index_ok_def)
qed

lemma chainstate_ledger:
  assumes "store_ledger E S ls s" "chainstate t = chainstate s"
  shows "store_ledger E S ls t"
proof (rule same_store_ledger [OF assms(1)])
  show "same_store s t"
    using same_but_indexes_chainstate [OF assms(2)] chainstate_fields(6) [OF assms(2)]
    by (simp add: same_store_def index_ok_def)
qed

text \<open>A crash while a block is written, and the recovery at the next start.\<close>

lemma crash_ledger:
  assumes c: "ledger E S ls c" "ls \<noteq> []" and ok: "blocks_ok E S" "block \<in> S"
    and va: "validateActiveBlock E now block c = (Inr (idx, work, adds, spends, spent), d)"
    and pre: "save_pre idx adds spends spent (ch_store d)"
    and int: "interrupted block idx adds spends spent (ch_store d) t" and new: "New t = Inr e"
  shows "\<exists>ls'. ledger E S ls' e \<and> (ls' = ls \<or> tl ls' = ls)"
proof -
  obtain hash where v: "ledger E S ls d" "en_HashHeader E (bk_Header block) = Some hash"
    "hash_String (hd_PrevBlock (bk_Header block)) = parentOf ls"
    "ix_Hash idx = hash_String hash" "ix_Height idx = of_nat (length ls)"
    "validateBlockTransactions (en_crypto E) (storedUTXO (ch_store d)) block (of_nat (length ls)) =
      Inr (adds, spends, spent)" using validated_context [OF c va] .
  have s: "store_ledger E S ls (ch_store d)" using v(1) by (simp add: ledger_def)
  have j: "fs_journal (ch_store d) = None" using s by (simp add: store_ledger_def)
  obtain s' where r: "recoverJournal t = (Inr (), s')" and st: "settled block idx adds spends spent (ch_store d) s'"
    using interrupted_recovers [OF pre j int] by (cases "recoverJournal t") auto
  have fresh: "ix_Hash idx \<notin> fst ` set ls"
    using linked_fresh [OF _ _ ok v(2,3)] s by (auto simp: store_ledger_def v(4))
  have "\<exists>ls'. store_ledger E S ls' s' \<and> (ls' = ls \<or> tl ls' = ls)"
    using st s chainstate_ledger [OF forget_ledger [OF s fresh]] save_ledger [OF s ok v(2-6)]
    unfolding settled_def by (metis list.sel(3))
  then show ?thesis using New_ledger [OF new r] by blast
qed

section \<open>Reachable states\<close>

text \<open>
  What can happen to a node, in any order: blocks from \<open>S\<close> arrive at any clock reading, are
  proposed or announced, peers ask for headers, the operator disconnects the tip, the node is
  restarted, also after a crash in the middle of storing a block.
\<close>

inductive reachable :: "chainEnv \<Rightarrow> MsgBlock set \<Rightarrow> Chain \<Rightarrow> bool" for E S where
  genesis: "EnsureGenesis E (emptyChain NewFileStore) = (Inr (), c) \<Longrightarrow> reachable E S c"
| process: "reachable E S c \<Longrightarrow> block \<in> S \<Longrightarrow> ProcessBlockWithResult E now block c = (r, d) \<Longrightarrow> reachable E S d"
| proposal: "reachable E S c \<Longrightarrow> block \<in> S \<Longrightarrow> ValidateBlockProposal E now block c = (r, d) \<Longrightarrow> reachable E S d"
| headers: "reachable E S c \<Longrightarrow> ValidateHeaderSequence E now hs c = (r2, d) \<Longrightarrow> reachable E S d"
| serve: "reachable E S c \<Longrightarrow> HeadersAfter E loc stop limit c = (r3, d) \<Longrightarrow> reachable E S d"
| disconnect: "reachable E S c \<Longrightarrow> disconnectTip c = (r4, d) \<Longrightarrow> reachable E S d"
| restart: "reachable E S c \<Longrightarrow> New (ch_store c) = Inr d \<Longrightarrow> reachable E S d"
| crash: "reachable E S c \<Longrightarrow> block \<in> S \<Longrightarrow>
    validateActiveBlock E now block c = (Inr (idx, work, adds, spends, spent), d) \<Longrightarrow>
    save_pre idx adds spends spent (ch_store d) \<Longrightarrow>
    interrupted block idx adds spends spent (ch_store d) t \<Longrightarrow> New t = Inr e \<Longrightarrow> reachable E S e"

text \<open>What the set of blocks has to satisfy.\<close>

definition env_ok :: "chainEnv \<Rightarrow> MsgBlock set \<Rightarrow> bool" where
  "env_ok E S \<longleftrightarrow> blocks_ok E S \<and> pa_GenesisHash (en_params E) \<noteq> [] \<and>
     (\<forall>b. NewBlock (en_params E) = Some b \<longrightarrow> b \<in> S)"

lemma reachable_sound: "reachable E S c \<Longrightarrow> env_ok E S \<Longrightarrow> sound E S c"
proof (induction rule: reachable.induct)
  case (genesis c)
  then show ?case using sound_genesis [OF ledger_start] by (auto simp: env_ok_def)
next
  case (process c block now r d)
  then show ?case using ledger.inv_process [OF process.hyps(3)] by (auto simp: env_ok_def)
next
  case (proposal c block now r d)
  then show ?case using ledger.inv_proposal [OF proposal.hyps(3)] by (auto simp: env_ok_def)
next
  case (headers c now hs r2 d)
  then show ?case using sound_keeps [OF keeps_headerSequence headers.hyps(2)] by simp
next
  case (serve c loc stop limit r3 d)
  then show ?case using sound_quiet quiet_HeadersAfter by blast
next
  case (disconnect c r4 d)
  then show ?case using sound_disconnect by blast
next
  case (restart c d)
  then obtain ls where ls: "ls \<noteq> []" "ledger E S ls c" by (auto simp: sound_def)
  then have "recoverJournal (ch_store c) = (Inr (), ch_store c)"
    by (simp add: ledger_def store_ledger_def recoverJournal_def)
  from New_ledger [OF restart.hyps(2) this, of E S ls] ls show ?case by (auto simp: sound_def ledger_def)
next
  case (crash c block now idx work adds spends spent d t e)
  then obtain ls where ls: "ls \<noteq> []" "ledger E S ls c" by (auto simp: sound_def)
  from crash_ledger [OF ls(2,1) _ crash.hyps(2-6)] crash.prems obtain ls' where
    l: "ledger E S ls' e" "ls' = ls \<or> tl ls' = ls" by (auto simp: env_ok_def)
  then have "ls' \<noteq> []" using ls(1) by auto
  with l show ?case by (auto simp: sound_def)
qed

text \<open>The chain is no longer than the set of blocks.\<close>

lemma linked_all: "linked E S s ls m \<Longrightarrow> \<forall>l\<in>set ls. stored_link E S s l"
  by (induction ls arbitrary: m) auto

lemma ledger_length:
  assumes "ledger E S ls c" "finite S"
  shows "length ls \<le> card S"
proof -
  have l: "\<forall>l\<in>set ls. stored_link E S (ch_store c) l" and d: "distinct (map fst ls)"
    using assms(1) linked_all by (auto simp: ledger_def store_ledger_def)
  have "fst ` set ls \<subseteq> (\<lambda>b. hash_String (the (en_HashHeader E (bk_Header b)))) ` S"
    using l by (force simp: stored_link_def)
  then have "card (fst ` set ls) \<le> card S" using assms(2) by (rule surj_card_le [rotated])
  moreover have "length ls = card (fst ` set ls)" using distinct_card [OF d] by simp
  ultimately show ?thesis by simp
qed

lemma supply_bound: "n \<le> 2 ^ 31 \<Longrightarrow> issuable n \<le> sint MaxMoney"
  unfolding issuable_def by (rule subsidy_total)

text \<open>The unspent total of a reachable state.\<close>

lemma reachable_supply:
  assumes "reachable E S c" "env_ok E S" "finite S" "card S \<le> 2 ^ 31"
  shows "\<exists>tip n. ch_tip c = Some tip \<and> ix_Height tip = of_nat n \<and> n < 2 ^ 31 \<and>
    sint (st_Total (UTXOStats_of (ch_store c))) \<le> (\<Sum>h\<le>n. sint (BlockSubsidy (of_nat h))) \<and>
    sint (st_Total (UTXOStats_of (ch_store c))) \<le> sint MaxMoney"
proof -
  obtain ls where ls: "ls \<noteq> []" "ledger E S ls c"
    using reachable_sound [OF assms(1,2)] by (auto simp: sound_def)
  have len: "length ls \<le> 2 ^ 31" using ledger_length [OF ls(2) assms(3)] assms(4) by linarith
  have total: "map_total (fs_utxo (ch_store c)) \<le> issuable (length ls)"
    and ok: "utxo_ok (fs_utxo (ch_store c))"
    using ls(2) linked_total by (auto simp: ledger_def store_ledger_def)
  have cap: "map_total (fs_utxo (ch_store c)) \<le> sint MaxMoney" using total supply_bound [OF len] by linarith
  obtain h b u rest where l: "ls = (h, b, u) # rest" using ls(1) by (cases ls) auto
  obtain tip where "ch_tip c = Some tip" "ix_Height tip = of_nat (length rest)"
    using ls(2) by (auto simp: ledger_def store_ledger_def tip_ok_def l)
  then show ?thesis
    using total cap len UTXOStats_total [OF ok cap]
    by (intro exI [of _ tip] exI [of _ "length rest"]) (simp add: issuable_def l lessThan_Suc_atMost)
qed

end
