(* ===== verification/OrphanPool.thy ===== *)
theory OrphanPool
  imports LedgerOps
begin

text \<open>
  The orphan pool: its four maps agree and hold at most \<open>MaxOrphanBlocks\<close> blocks, and the
  loop that connects waiting orphans ends.
\<close>

definition pool_ok :: "Chain \<Rightarrow> bool" where
  "pool_ok c \<longleftrightarrow>
     distinct (ch_orphanOrder c) \<and> length (ch_orphanOrder c) \<le> MaxOrphanBlocks \<and>
     set (ch_orphanOrder c) = fset (fmdom (ch_orphanByHash c)) \<and>
     fmdom (ch_orphanParent c) = fmdom (ch_orphanByHash c) \<and>
     (\<forall>p hs. p \<noteq> [] \<longrightarrow> fmlookup (ch_orphanByPrev c) p = Some hs \<longrightarrow>
        distinct hs \<and> (\<forall>h\<in>set hs. fmlookup (ch_orphanParent c) h = Some p))"

lemma pool_ok_cong:
  "samePools c d \<Longrightarrow> pool_ok d = pool_ok c"
  by (simp add: samePools_def pool_ok_def)

lemma samePools_refl [simp]: "samePools c c"
  by (simp add: samePools_def)

lemma samePools_trans: "samePools c d \<Longrightarrow> samePools d e \<Longrightarrow> samePools c e"
  by (simp add: samePools_def)

text \<open>Connecting and disconnecting do not touch the pools.\<close>

lemma connect_samePools: "connectBlock E now block c = (r, d) \<Longrightarrow> samePools c d"
proof (cases r)
  case (Inl e)
  assume "connectBlock E now block c = (r, d)"
  then show ?thesis using connectBlock_Inl Inl by (auto simp: quiet_def)
next
  case (Inr x)
  assume a: "connectBlock E now block c = (r, d)"
  obtain idx work adds spends spent e where
    "validateActiveBlock E now block c = (Inr (idx, work, adds, spends, spent), e)"
    "d = commitBlock block idx work adds spends spent e"
    using connectBlock_Inr [OF a [unfolded Inr]] .
  then show ?thesis
    using keepsD [OF keeps_validateActiveBlock]
    by (fastforce simp: commitBlock_def noteWork_def quiet_def samePools_def)
qed

lemma keeps_samePools:
  "keeps samePools (readStore g)" "keeps samePools (onStore f)" "keeps samePools (scheck b e)"
  by (auto simp: keeps_def readStore_def onStore_def Let_def samePools_def op_simps split: prod.splits)

interpretation same_pools: frame samePools
  by unfold_locales (auto intro: samePools_trans)

lemma disconnect_samePools: "disconnectTip c = (r, d) \<Longrightarrow> samePools c d"
proof -
  assume a: "disconnectTip c = (r, d)"
  define m :: "BlockIndex \<Rightarrow> unit chainOp" where "m idx =
          sbind (readStore (LoadBlock (ix_Hash idx))) (\<lambda>(block, _).
          sbind (readStore (LoadUndo (ix_Hash idx))) (\<lambda>undo.
          sbind (onStore (LoadIndexByHeight (ix_Height idx - 1))) (\<lambda>prevIdx.
          sbind (scheck (ix_Hash prevIdx = hash_String (hd_PrevBlock (bk_Header block))) ErrPrevIndexMismatch) (\<lambda>_.
          sbind (onStore (DisconnectBlock (ix_Hash idx) (Some prevIdx) undo)) (\<lambda>_.
            smodify (\<lambda>c. c\<lparr>ch_tip := Some prevIdx, ch_work := fmdrop (ix_Hash idx) (ch_work c),
                          ch_parent := fmdrop (ix_Hash idx) (ch_parent c)\<rparr>))))))" for idx
  have "keeps samePools (m idx)" for idx
    unfolding m_def
    by (intro same_pools.keeps_bind keeps_samePools same_pools.keeps_modify)
      (auto split: prod.splits intro!: same_pools.keeps_bind keeps_samePools same_pools.keeps_modify
        simp: samePools_def)
  with a show "samePools c d"
    by (auto simp: disconnectTip_def m_def [symmetric] split: option.splits if_splits dest: keepsD)
qed

section \<open>Adding and removing\<close>

lemma pool_ok_remove:
  assumes "pool_ok c"
  shows "pool_ok (removeOrphan hash c)"
proof (cases "hash |\<in>| fmdom (ch_orphanByHash c)")
  case True
  then have "hash |\<in>| fmdom (ch_orphanParent c)" using assms by (simp add: pool_ok_def)
  then obtain p where p: "fmlookup (ch_orphanParent c) hash = Some p" by (auto simp: fmlookup_dom_iff)
  have o: "length (remove1 hash (ch_orphanOrder c)) \<le> MaxOrphanBlocks"
    using assms length_remove1 [of hash "ch_orphanOrder c"] by (auto simp: pool_ok_def)
  have s: "set (remove1 hash (ch_orphanOrder c)) = fset (fmdom (ch_orphanByHash c)) - {hash}"
    "distinct (remove1 hash (ch_orphanOrder c))"
    using assms by (auto simp: pool_ok_def)
  have prev: "distinct hs \<and> (\<forall>h\<in>set hs. fmlookup (fmdrop hash (ch_orphanParent c)) h = Some q)"
    if "q \<noteq> []" "fmlookup (ch_orphanByPrev (removeOrphan hash c)) q = Some hs" for q hs
    using that assms True p
    by (auto simp: removeOrphan_def Let_def pool_ok_def split: if_splits option.splits)
  show ?thesis
    unfolding pool_ok_def
    using True assms o s prev by (auto simp: removeOrphan_def Let_def pool_ok_def)
qed (use assms in \<open>simp add: removeOrphan_def\<close>)

lemma pool_ok_add:
  assumes "pool_ok c"
  shows "pool_ok (addOrphan hash parent block c)"
proof (cases "hash |\<in>| fmdom (ch_orphanByHash c)")
  case False
  define d where "d = (if length (ch_orphanOrder c) \<ge> MaxOrphanBlocks
    then removeOrphan (ch_orphanOrder c ! 0) c else c)"
  have d: "pool_ok d" using assms pool_ok_remove by (simp add: d_def)
  have room: "length (ch_orphanOrder d) < MaxOrphanBlocks"
  proof (cases "length (ch_orphanOrder c) \<ge> MaxOrphanBlocks")
    case True
    then have ne: "ch_orphanOrder c \<noteq> []" by (auto simp: MaxOrphanBlocks_def)
    then have "ch_orphanOrder c ! 0 \<in> set (ch_orphanOrder c)" by simp
    then have "ch_orphanOrder c ! 0 |\<in>| fmdom (ch_orphanByHash c)" using assms by (simp add: pool_ok_def)
    then have "ch_orphanOrder d = remove1 (ch_orphanOrder c ! 0) (ch_orphanOrder c)"
      using True by (simp add: d_def removeOrphan_def Let_def)
    then show ?thesis using assms ne by (cases "ch_orphanOrder c") (auto simp: pool_ok_def)
  qed (simp add: d_def)
  have fresh: "hash |\<notin>| fmdom (ch_orphanByHash d)" using False by (simp add: d_def)
  have fresh': "fmlookup (ch_orphanParent d) hash = None"
    using fresh d by (metis fmdom_notD pool_ok_def)
  have old: "hash \<notin> set hs" if "p \<noteq> []" "fmlookup (ch_orphanByPrev d) p = Some hs" for p hs
    using that d fresh' by (auto simp: pool_ok_def)
  have eq: "addOrphan hash parent block c =
      d\<lparr>ch_orphanByHash := fmupd hash block (ch_orphanByHash d),
         ch_orphanByPrev := fmupd parent
           ((case fmlookup (ch_orphanByPrev d) parent of None \<Rightarrow> [] | Some hs \<Rightarrow> hs) @ [hash]) (ch_orphanByPrev d),
         ch_orphanParent := fmupd hash parent (ch_orphanParent d),
         ch_orphanOrder := ch_orphanOrder d @ [hash]\<rparr>"
    using False by (simp add: addOrphan_def d_def Let_def)
  have prev: "distinct hs \<and> (\<forall>h\<in>set hs. fmlookup (fmupd hash parent (ch_orphanParent d)) h = Some p)"
    if "p \<noteq> []" "fmlookup (fmupd parent
           ((case fmlookup (ch_orphanByPrev d) parent of None \<Rightarrow> [] | Some hs \<Rightarrow> hs) @ [hash]) (ch_orphanByPrev d)) p = Some hs"
    for p hs
  proof (cases "p = parent")
    case True
    with that old [of p] d show ?thesis by (auto simp: pool_ok_def split: option.splits)
  next
    case False
    with that(2) have l: "fmlookup (ch_orphanByPrev d) p = Some hs" by simp
    from d that(1) l have "distinct hs" "\<forall>h\<in>set hs. fmlookup (ch_orphanParent d) h = Some p"
      by (auto simp: pool_ok_def)
    with old [OF that(1) l] show ?thesis by auto
  qed
  have "hash \<notin> set (ch_orphanOrder d)" using d fresh by (simp add: pool_ok_def)
  then show ?thesis
    unfolding eq pool_ok_def using d room prev by (auto simp: pool_ok_def)
qed (use assms in \<open>simp add: addOrphan_def\<close>)

interpretation orphan_pool: chain_invariant E UNIV pool_ok for E
proof (unfold_locales, goal_cases)
  case (1 c d)
  then show ?case using pool_ok_cong by (auto simp: quiet_def)
next
  case (2 c block now r d)
  then show ?case using pool_ok_cong connect_samePools by blast
next
  case (3 c r d)
  then show ?case using pool_ok_cong disconnect_samePools by blast
next
  case (4 c)
  then show ?case by (simp add: pools_in_def)
next
  case (6 c hash)
  then show ?case by (rule pool_ok_remove)
next
  case (7 c block hash parent)
  then show ?case by (intro pool_ok_add)
next
  case (8 c cur)
  then show ?case by (auto simp: pool_ok_def split: if_splits)
next
  case (9 c m)
  then show ?case by (simp add: pool_ok_def)
qed simp

lemma pool_ok_empty [simp]: "pool_ok (emptyChain s)"
  by (simp add: pool_ok_def emptyChain_def)

lemma samePools_New: "New s = Inr d \<Longrightarrow> pool_ok d"
proof -
  assume "New s = Inr d"
  then obtain tip t where "rebuildActiveChainwork ((emptyChain t)\<lparr>ch_tip := tip\<rparr>) = (Inr (), d)"
    by (auto simp: New_def split: sum.splits prod.splits)
  then have "samePools ((emptyChain t)\<lparr>ch_tip := tip\<rparr>) d" using rebuildActive_quiet by (auto simp: quiet_def)
  from pool_ok_cong [OF this] show ?thesis using pool_ok_empty by (simp add: pool_ok_def)
qed

lemma samePools_genesis: "EnsureGenesis E c = (r, d) \<Longrightarrow> samePools c d"
  by (auto simp: EnsureGenesis_def sbind_def op_simps checkPow_def checkTransactions_def commitBlock_def
      noteWork_def samePools_def split: option.splits if_splits sum.splits prod.splits)

lemma reachable_pool: "reachable E S c \<Longrightarrow> pool_ok c"
proof (induction rule: reachable.induct)
  case (genesis c)
  then show ?case using pool_ok_cong [OF samePools_genesis] by fastforce
next
  case (process c block now r d)
  then show ?case using orphan_pool.inv_process by blast
next
  case (proposal c block now r d)
  then show ?case using orphan_pool.inv_proposal by blast
next
  case (headers c now hs r2 d)
  then show ?case using orphan_pool.inv_keeps [OF keeps_headerSequence] by blast
next
  case (serve c loc stop limit r3 d)
  then show ?case using orphan_pool.quiet quiet_HeadersAfter by blast
next
  case (disconnect c r4 d)
  then show ?case using orphan_pool.disconnect by blast
next
  case (restart c d)
  then show ?case using samePools_New by blast
next
  case (crash c block now idx work adds spends spent d t e)
  then show ?case using samePools_New by blast
qed

section \<open>Connecting waiting orphans ends\<close>

text \<open>Every queued child has left the pool.\<close>

lemma accept_children_count:
  "accept_children E now cur k arr i c = (hs, d) \<Longrightarrow>
     fcard (fmdom (ch_orphanByHash d)) + length hs = fcard (fmdom (ch_orphanByHash c))"
proof (induction k arbitrary: arr i c hs d)
  case (Suc k)
  show ?case
  proof (cases "fmlookup (ch_orphanByHash c) (arr ! i)")
    case None
    with Suc show ?thesis by simp
  next
    case (Some block)
    show ?thesis
    proof (cases "ch_tip c = None \<or> tipHash c \<noteq> hash_String (hd_PrevBlock (bk_Header block))")
      case True
      with Suc Some show ?thesis by simp
    next
      case False
      obtain r e where conn: "connectBlock E now block c = (r, e)" by (cases "connectBlock E now block c")
      have same: "ch_orphanByHash e = ch_orphanByHash c"
        using connect_samePools [OF conn] by (simp add: samePools_def)
      show ?thesis
      proof (cases r)
        case (Inl err)
        with Suc.prems Some False conn same Suc.IH show ?thesis by simp
      next
        case (Inr x)
        have "arr ! i |\<in>| fmdom (ch_orphanByHash c)" using Some by (rule fmdomI)
        from fcard_drop [OF this] Suc.prems Some False conn Inr same show ?thesis
          by (auto simp: Let_def split: prod.splits dest!: Suc.IH)
      qed
    qed
  qed
qed simp

lemma accept_queue_fuel:
  "fcard (fmdom (ch_orphanByHash c)) + length queue \<le> n \<Longrightarrow> n \<le> m \<Longrightarrow>
     accept_queue m E now queue c = accept_queue n E now queue c"
proof (induction n arbitrary: m queue c)
  case 0
  then show ?case by simp
next
  case (Suc n)
  show ?case
  proof (cases queue)
    case (Cons cur rest)
    obtain m' where m: "m = Suc m'" "n \<le> m'" using Suc.prems(2) by (cases m) auto
    define children where "children = (case fmlookup (ch_orphanByPrev c) cur of None \<Rightarrow> [] | Some hs \<Rightarrow> hs)"
    obtain hs d where d: "accept_children E now cur (length children) children 0 c = (hs, d)"
      by (cases "accept_children E now cur (length children) children 0 c")
    have "fcard (fmdom (ch_orphanByHash (d\<lparr>ch_orphanByPrev := fmdrop cur (ch_orphanByPrev d)\<rparr>))) +
        length (rest @ hs) \<le> n"
      using Suc.prems(1) accept_children_count [OF d] by (simp add: Cons)
    from Suc.IH [OF this m(2)] d show ?thesis by (simp add: Cons m(1) children_def [symmetric])
  qed simp
qed

lemma reachable_orphan_count: "reachable E S c \<Longrightarrow> OrphanCount c \<le> 128"
  using reachable_pool [of E S c] distinct_card [of "ch_orphanOrder c"]
  by (simp add: pool_ok_def OrphanCount_def fcard.rep_eq MaxOrphanBlocks_def)

end
