(* ===== verification/RoundTrip.thy ===== *)
theory RoundTrip
  imports OrphanPool
begin

text \<open>
  Connecting and undoing: a block whose outputs are new to the UTXO set can be disconnected
  again, and the recovery of an interrupted connect, for a block that validated, finds the
  journal it needs.
\<close>

section \<open>New outputs\<close>

definition fresh_outputs :: "MsgBlock \<Rightarrow> FileStore \<Rightarrow> bool" where
  "fresh_outputs block s \<longleftrightarrow>
     (\<forall>tx\<in>set (bk_Transactions block). \<forall>v. storedUTXO s (OutPointKey (hash_String (TxHash tx)) v) = None)"

lemma storedUTXO_at: "storedUTXO s k = fmlookup (fs_utxo s) (utxoFile k)"
  by (simp add: storedUTXO_def LoadUTXO_def split: option.splits)

lemma check_inputs_pending:
  "check_inputs C utxo tx height i ins t ops st = Inr (t', ops', st') \<Longrightarrow>
     pending_from A st \<Longrightarrow> pending_from A st'"
proof (induction ins arbitrary: i t ops st)
  case (Cons inp ins)
  from check_inputs_Cons [OF Cons.prems(1)] obtain prev sigOps where
    r: "check_inputs C utxo tx height (i + 1) ins (t + ut_Value prev) (ops + sigOps)
      (input_step inp sigOps st prev) = Inr (t', ops', st')" by blast
  have "pending_from A (input_step inp sigOps st prev)"
    using Cons.prems(2) by (auto simp: pending_from_def input_step_def Let_def)
  from Cons.IH [OF r this] show ?case .
qed simp

lemma check_txs_pending:
  "check_txs C utxo height bt n txs st = Inr st' \<Longrightarrow> pending_from (created_in height before) st \<Longrightarrow>
     pending_from (created_in height (before @ txs)) st'"
proof (induction txs arbitrary: n st before)
  case (Cons tx txs)
  then obtain st1 where s: "check_tx C utxo height bt n tx st = Inr st1"
    and r: "check_txs C utxo height bt (n + 1) txs st1 = Inr st'"
    by (auto split: sum.splits)
  from Cons.IH [OF r conjunct1 [OF check_tx_spends [OF s Cons.prems(2)]]] show ?case by simp
qed simp

text \<open>A validated block adds only entries for its own transactions' outputs.\<close>

lemma validate_adds:
  assumes "validateBlockTransactions C utxo block height = Inr (adds, spends, spent)"
  shows "set adds \<subseteq> created_in height (bk_Transactions block)"
proof -
  from assms obtain coinbase txs st where b: "bk_Transactions block = coinbase # txs"
    and txs: "check_txs C utxo height (hd_Timestamp (bk_Header block)) 0 (coinbase # txs) initialBlockState = Inr st"
    and adds: "adds = pendingInOrder st" by (rule validate_steps)
  have "pending_from (created_in height []) initialBlockState"
    by (simp add: pending_from_def initialBlockState_def)
  from check_txs_pending [OF txs this] show ?thesis
    by (auto simp: b adds pendingInOrder_def List.map_filter_def pending_from_def split: option.splits)
qed

lemma validate_adds_fresh:
  assumes "validateBlockTransactions C utxo block height = Inr (adds, spends, spent)" "fresh_outputs block s"
    "e \<in> set adds"
  shows "fmlookup (fs_utxo s) (utxoFile (ut_Key e)) = None"
proof -
  obtain tx cb where "tx \<in> set (bk_Transactions block)" "e \<in> set (createdOutputs height cb tx)"
    using validate_adds [OF assms(1)] assms(3) by (auto simp: created_in_def)
  with created_keys assms(2) show ?thesis by (fastforce simp: fresh_outputs_def storedUTXO_at)
qed

text \<open>So the chain hands \<open>SaveBlock\<close> what the journal's recovery relies on.\<close>

lemma validated_save_pre:
  assumes c: "ledger E S ls c" "ls \<noteq> []" and ok: "blocks_ok E S" "block \<in> S"
    and va: "validateActiveBlock E now block c = (Inr (idx, work, adds, spends, spent), d)"
    and fresh: "fresh_outputs block (ch_store c)"
  shows "save_pre idx adds spends spent (ch_store d) \<and> fs_journal (ch_store d) = None"
proof -
  obtain hash where v: "ledger E S ls d" "en_HashHeader E (bk_Header block) = Some hash"
    "hash_String (hd_PrevBlock (bk_Header block)) = parentOf ls" "ix_Hash idx = hash_String hash"
    "validateBlockTransactions (en_crypto E) (storedUTXO (ch_store d)) block (of_nat (length ls)) =
      Inr (adds, spends, spent)" using validated_context [OF c va] .
  have q: "quiet c d" by (rule keepsD [OF keeps_validateActiveBlock va])
  then have utxo: "fs_utxo (ch_store d) = fs_utxo (ch_store c)"
    using same_but_indexes_fields(3) by (auto simp: quiet_def sameChain_def same_store_def)
  then have "fresh_outputs block (ch_store d)" using fresh by (simp add: fresh_outputs_def storedUTXO_at)
  note adds = validate_adds_fresh [OF v(5) this]
  have s: "store_ledger E S ls (ch_store d)" using v(1) by (simp add: ledger_def)
  then have uok: "utxo_ok (fs_utxo (ch_store d))" and l: "linked E S (ch_store d) ls (fs_utxo (ch_store d))"
    and dis: "distinct (map fst ls)" and j: "fs_journal (ch_store d) = None"
    by (simp_all add: store_ledger_def)
  note spent = validated_spent [OF v(5) uok]
  have "ix_Hash idx \<notin> fst ` set ls" using linked_fresh [OF l dis ok v(2,3)] by (simp add: v(4))
  then have "\<forall>tip. fs_tip (ch_store d) = Some tip \<longrightarrow> ix_Hash tip \<noteq> ix_Hash idx"
    using s by (fastforce simp: store_ledger_def tip_ok_def split: list.splits)
  then show ?thesis using spent(1,2) adds j by (simp add: save_pre_def)
qed

section \<open>Connect, then disconnect\<close>

lemma connect_disconnect:
  assumes c: "ledger E S ls c" "ls \<noteq> []" and ok: "blocks_ok E S" "block \<in> S"
    and conn: "connectBlock E now block c = (Inr u, d)" and fresh: "fresh_outputs block (ch_store c)"
    and tip: "ch_tip c = Some tip" "0 <s ix_Height tip + 1"
    and wide: "en_HashHeader E (bk_Header block) = Some x" "hash_ok x"
    and indexed: "fmlookup (fs_heightIndex (ch_store d)) (ix_Height tip) = Some tip"
  shows "\<exists>e. disconnectTip d = (Inr (), e) \<and> ch_tip e = ch_tip c \<and> fs_tip (ch_store e) = fs_tip (ch_store c) \<and>
    fs_utxo (ch_store e) = fs_utxo (ch_store c) \<and> samePools c e"
proof -
  obtain idx work adds spends spent d0 where
    va: "validateActiveBlock E now block c = (Inr (idx, work, adds, spends, spent), d0)"
    and d: "d = commitBlock block idx work adds spends spent d0"
    using connectBlock_Inr [OF conn] .
  obtain hash where v: "ledger E S ls d0" "en_HashHeader E (bk_Header block) = Some hash"
    "hash_String (hd_PrevBlock (bk_Header block)) = parentOf ls"
    "ix_Hash idx = hash_String hash" "ix_Height idx = of_nat (length ls)"
    using validated_context [OF c va] .
  have q: "quiet c d0" by (rule keepsD [OF keeps_validateActiveBlock va])
  have utxo: "fs_utxo (ch_store d0) = fs_utxo (ch_store c)" and tips: "fs_tip (ch_store c) = ch_tip c"
    using q same_but_indexes_fields(3) c(1) by (auto simp: quiet_def sameChain_def same_store_def ledger_def)
  note pre = conjunct1 [OF validated_save_pre [OF c ok va fresh]]
  obtain h b u rest where ls: "ls = (h, b, u) # rest" using c(2) by (cases ls) auto
  have t: "ix_Hash tip = parentOf ls" "ix_Height idx = ix_Height tip + 1"
    using c(1) tip(1) v(5) by (auto simp: ls parentOf_def ledger_def store_ledger_def tip_ok_def)
  have off: "\<not> fs_txIndexEnabled (ch_store d)" "\<not> fs_addressIndexEnabled (ch_store d)"
    using v(1) by (simp_all add: d commitBlock_def noteWork_def SaveBlock_fields ledger_def store_ledger_def)
  have lb: "LoadBlock (ix_Hash idx) (ch_store d) = Inr (block, idx)"
    using ok block.dec_enc [of block "[]"] 
    by (auto simp: d commitBlock_def noteWork_def SaveBlock_fields LoadBlock_def blocks_ok_def)
  have lu: "LoadUndo (ix_Hash idx) (ch_store d) = Inr (undoOf adds spent)"
    by (simp add: d commitBlock_def noteWork_def SaveBlock_fields LoadUndo_def)
  have li: "LoadIndexByHeight (ix_Height idx - 1) (ch_store d) = (Inr tip, ch_store d)"
    using indexed t(2) by (simp add: LoadIndexByHeight_def)
  have dt: "ch_tip d = Some idx" by (simp add: d commitBlock_def noteWork_def)
  have ne: "ix_Hash idx \<noteq> []"
    using v(2,4) wide length_hash_String [of x] by (auto simp: hash_ok_def HashSize_def simp del: length_hash_String)
  obtain e where e: "disconnectTip d = (Inr (), e)"
    and es: "ch_tip e = Some tip" "fs_tip (ch_store e) = Some tip"
      "fs_utxo (ch_store e) = disconnectUTXO (undoOf adds spent) (fs_utxo (ch_store d))"
    using dt v(3) t tip(2) lb lu li ne
    by (auto simp: disconnectTip_def sbind_def readStore_def onStore_def op_simps DisconnectBlock_plain [OF off]
        word_sless_alt word_sle_eq)
  have "fs_utxo (ch_store e) = fs_utxo (ch_store c)"
    using disconnect_connectUTXO [OF pre] es(3)
    by (simp add: d commitBlock_def noteWork_def SaveBlock_fields utxo)
  moreover have "samePools c e"
    using samePools_trans connect_samePools [OF conn] disconnect_samePools [OF e] by blast
  ultimately show ?thesis using e es tip(1) tips by auto
qed

end
