(* ===== verification/Reorg.thy ===== *)
theory Reorg
  imports RoundTrip
begin

text \<open>
  Reorganisations on the list of hashes of the active chain: what \<open>reorganize\<close> leaves behind
  when it succeeds and when it fails, and when a side branch is not activated.
\<close>

definition hashText :: "chainEnv \<Rightarrow> MsgBlock \<Rightarrow> string" where
  "hashText E b = hash_String (the (en_HashHeader E (bk_Header b)))"

text \<open>The state a reorganisation works on: a chain with these hashes, and no orphans waiting.\<close>

definition calm :: "chainEnv \<Rightarrow> MsgBlock set \<Rightarrow> link list \<Rightarrow> Chain \<Rightarrow> bool" where
  "calm E S ls c \<longleftrightarrow> ledger E S ls c \<and> ls \<noteq> [] \<and> ch_orphanByHash c = fmempty"

lemma calm_link: "calm E S ((h, b, u) # ls) c \<Longrightarrow> hashText E b = h"
  by (auto simp: calm_def ledger_def store_ledger_def stored_link_def hashText_def)

lemma calm_links: "calm E S ls c \<Longrightarrow> map (hashText E \<circ> fst \<circ> snd) ls = map fst ls"
  using linked_all [of E S "ch_store c" ls]
  by (fastforce simp: calm_def ledger_def store_ledger_def stored_link_def hashText_def)

lemma accept_children_calm:
  "ch_orphanByHash c = fmempty \<Longrightarrow> accept_children E now cur k arr i c = ([], c)"
  by (induction k arbitrary: i) (simp_all add: Let_def)

lemma acceptOrphans_calm:
  assumes "calm E S ls c"
  shows "calm E S ls (acceptOrphanChildren E now hash c)"
proof -
  have e: "ch_orphanByHash c = fmempty" using assms by (simp add: calm_def)
  have "acceptOrphanChildren E now hash c = c\<lparr>ch_orphanByPrev := fmdrop hash (ch_orphanByPrev c)\<rparr>"
    by (simp add: acceptOrphanChildren_def e accept_children_calm Let_def)
  then show ?thesis using assms by (simp add: calm_def ledger_def pools_in_iff)
qed

text \<open>One connection pushes, or changes nothing.\<close>

lemma calm_connect:
  assumes c: "calm E S ls c" and ok: "blocks_ok E S" "block \<in> S"
    and conn: "connectBlock E now block c = (r, d)"
  shows "case r of Inl _ \<Rightarrow> calm E S ls d | Inr _ \<Rightarrow> \<exists>u. calm E S ((hashText E block, block, u) # ls) d"
proof (cases r)
  case (Inl e)
  with conn have "quiet c d" using connectBlock_Inl by simp
  with c quiet_ledger Inl show ?thesis by (auto simp: calm_def quiet_def samePools_def)
next
  case (Inr x)
  have "ledger E S ls c" "ls \<noteq> []" using c by (simp_all add: calm_def)
  from connect_ledger [OF this ok conn [unfolded Inr]] obtain hash u where
    "en_HashHeader E (bk_Header block) = Some hash" "ledger E S ((hash_String hash, block, u) # ls) d" by blast
  moreover have "samePools c d" by (rule connect_samePools [OF conn])
  ultimately show ?thesis using c Inr by (auto simp: calm_def hashText_def samePools_def)
qed

lemma calm_disconnect:
  assumes c: "calm E S ls c" and dis: "disconnectTip c = (r, d)"
  shows "case r of Inl _ \<Rightarrow> calm E S ls d | Inr _ \<Rightarrow> calm E S (tl ls) d"
  using disconnect_ledger [OF _ dis, of E S ls] disconnect_samePools [OF dis] c
  by (cases r) (auto simp: calm_def samePools_def)

section \<open>The parts of a reorganisation\<close>

lemma calm_disconnectN:
  "calm E S (pre @ ls) c \<Longrightarrow> disconnectN (length pre) c = (Inr u, d) \<Longrightarrow> calm E S ls d"
proof (induction pre arbitrary: c)
  case (Cons p pre)
  then obtain c1 where "disconnectTip c = (Inr (), c1)" and r: "disconnectN (length pre) c1 = (Inr u, d)"
    by (auto simp: sbind_Inr)
  from calm_disconnect [OF Cons.prems(1) this(1)] have "calm E S (pre @ ls) c1" by simp
  from Cons.IH [OF this r] show ?case .
qed simp

lemma calm_connectAll:
  "calm E S ls c \<Longrightarrow> blocks_ok E S \<Longrightarrow> set bs \<subseteq> S \<Longrightarrow> connectAll E now bs c = (Inr u, d) \<Longrightarrow>
     \<exists>ls'. calm E S ls' d \<and> map fst ls' = rev (map (hashText E) bs) @ map fst ls"
proof (induction bs arbitrary: c ls)
  case (Cons b bs)
  then obtain c1 where conn: "connectBlock E now b c = (Inr (), c1)" and r: "connectAll E now bs c1 = (Inr u, d)"
    by (auto simp: sbind_Inr)
  from calm_connect [OF Cons.prems(1,2) _ conn] Cons.prems(3) obtain v where
    "calm E S ((hashText E b, b, v) # ls) c1" by auto
  from Cons.IH [OF this Cons.prems(2) _ r] Cons.prems(3) show ?case by simp
qed auto

lemma calm_branch:
  "calm E S ls c \<Longrightarrow> blocks_ok E S \<Longrightarrow> sn_block ` set nodes \<subseteq> S \<Longrightarrow>
     connect_branch E now k nodes c = (r, d) \<Longrightarrow>
     \<exists>pre. calm E S (pre @ ls) d \<and>
       (case r of None \<Rightarrow> map fst pre = rev (map (hashText E \<circ> sn_block) nodes)
        | Some (e, m) \<Rightarrow> length pre + k = m)"
proof (induction nodes arbitrary: c ls k)
  case Nil
  then show ?case by (intro exI [of _ "[]"]) auto
next
  case (Cons n nodes)
  obtain q c1 where conn: "connectBlock E now (sn_block n) c = (q, c1)"
    by (cases "connectBlock E now (sn_block n) c")
  note step = calm_connect [OF Cons.prems(1,2) _ conn]
  show ?case
  proof (cases q)
    case (Inl e)
    with Cons.prems conn step show ?thesis by (intro exI [of _ "[]"]) auto
  next
    case (Inr x)
    with step Cons.prems(3) obtain v where
      c1: "calm E S ((hashText E (sn_block n), sn_block n, v) # ls) c1" by auto
    let ?l = "(hashText E (sn_block n), sn_block n, v)"
    have "connect_branch E now (k + 1) nodes (acceptOrphanChildren E now (sn_hash n) c1) = (r, d)"
      using Cons.prems(4) conn Inr by simp
    from Cons.IH [OF acceptOrphans_calm [OF c1] Cons.prems(2) _ this] Cons.prems(3) obtain pre where
      p: "calm E S (pre @ ?l # ls) d"
        "case r of None \<Rightarrow> map fst pre = rev (map (hashText E \<circ> sn_block) nodes)
         | Some (e, m) \<Rightarrow> length pre + (k + 1) = m" by auto
    from p(2) have "case r of None \<Rightarrow> map fst (pre @ [?l]) = rev (map (hashText E \<circ> sn_block) (n # nodes))
        | Some (e, m) \<Rightarrow> length (pre @ [?l]) + k = m"
      by (cases r) auto
    with p(1) show ?thesis by (intro exI [of _ "pre @ [?l]"]) simp
  qed
qed

text \<open>Disconnecting towards the fork takes blocks off the chain and remembers them.\<close>

lemma calm_height:
  assumes "calm E S ls c" "length ls \<le> 2 ^ 31"
  obtains tip b i where "ch_tip c = Some tip" "sint (ix_Height tip) = int (length ls) - 1"
    "LoadBlock (ix_Hash tip) (ch_store c) = Inr (b, i)" "b = fst (snd (hd ls))" "tipHash c = fst (hd ls)"
proof -
  from assms(1) obtain h b u rest where ls: "ls = (h, b, u) # rest" by (cases ls) (auto simp: calm_def)
  with assms obtain tip i where t: "ch_tip c = Some tip" "ix_Hash tip = h" "ix_Height tip = of_nat (length rest)"
    "LoadBlock h (ch_store c) = Inr (b, i)"
    by (auto simp: calm_def ledger_def store_ledger_def tip_ok_def stored_link_def)
  have "sint (of_nat (length rest) :: i32) = int (length rest)"
    using assms(2) by (simp add: ls signed_of_nat signed_take_bit_int_eq_self)
  with that t show ?thesis by (simp add: ls tipHash_def)
qed

lemma calm_tipHash:
  assumes "calm E S ls c" "length ls \<le> 2 ^ 31"
  shows "tipHash c = hd (map fst ls)" "map fst ls \<noteq> []"
proof -
  obtain tip b i where "ch_tip c = Some tip" "sint (ix_Height tip) = int (length ls) - 1"
    "LoadBlock (ix_Hash tip) (ch_store c) = Inr (b, i)" "b = fst (snd (hd ls))" "tipHash c = fst (hd ls)"
    by (rule calm_height [OF assms])
  then show "tipHash c = hd (map fst ls)" "map fst ls \<noteq> []" using assms(1) by (auto simp: calm_def hd_map)
qed

lemma calm_disconnect_to:
  "calm E S ls c \<Longrightarrow> length ls \<le> 2 ^ 31 \<Longrightarrow> int (length ls) - 1 - sint forkHeight \<le> int n \<Longrightarrow>
     disconnect_to n forkHeight removed c = (r, removed', d) \<Longrightarrow>
     \<exists>k. calm E S (drop k ls) d \<and> removed' = removed @ map (fst \<circ> snd) (take k ls) \<and>
       (\<forall>e b. r = Some (e, b) \<longrightarrow> b)"
proof (induction n arbitrary: ls c removed)
  case 0
  obtain tip b i where "ch_tip c = Some tip" "sint (ix_Height tip) = int (length ls) - 1"
    by (rule calm_height [OF 0(1,2)])
  with 0 show ?case by (intro exI [of _ 0]) (auto simp: word_sless_alt split: if_splits)
next
  case (Suc n)
  obtain tip b i where t: "ch_tip c = Some tip" "sint (ix_Height tip) = int (length ls) - 1"
    "LoadBlock (ix_Hash tip) (ch_store c) = Inr (b, i)" "b = fst (snd (hd ls))"
    by (rule calm_height [OF Suc.prems(1,2)])
  show ?case
  proof (cases "forkHeight <s ix_Height tip")
    case False
    with Suc.prems t show ?thesis by (intro exI [of _ 0]) auto
  next
    case True
    obtain q c1 where q: "disconnectTip c = (q, c1)" by (cases "disconnectTip c")
    note dis = calm_disconnect [OF Suc.prems(1) q]
    show ?thesis
    proof (cases q)
      case (Inl e)
      with Suc.prems t True q dis show ?thesis by (intro exI [of _ 0]) auto
    next
      case (Inr x)
      then have c1: "calm E S (tl ls) c1" using dis by simp
      have r: "disconnect_to n forkHeight (removed @ [b]) c1 = (r, removed', d)"
        using Suc.prems(4) t True q Inr by simp
      obtain l rest where ls: "ls = l # rest" using Suc.prems(1) by (cases ls) (auto simp: calm_def)
      from Suc.IH [OF c1 _ _ r] Suc.prems(2,3) obtain k where
        "calm E S (drop k rest) d" "removed' = removed @ b # map (fst \<circ> snd) (take k rest)"
        "\<forall>e b. r = Some (e, b) \<longrightarrow> b" by (auto simp: ls)
      then show ?thesis using t(4) by (intro exI [of _ "Suc k"]) (simp add: ls)
    qed
  qed
qed

section \<open>The whole reorganisation\<close>

lemma calm_reconnect:
  assumes ls: "calm E S ls c0" and c: "calm E S (drop k ls) c" and ok: "blocks_ok E S"
    and r: "reconnectBlocks E now (map (fst \<circ> snd) (take k ls)) c = (Inr u, d)"
  shows "\<exists>ls'. calm E S ls' d \<and> map fst ls' = map fst ls"
proof -
  have "\<forall>l\<in>set ls. fst (snd l) \<in> S"
    using ls linked_all [of E S "ch_store c0" ls]
    by (fastforce simp: calm_def ledger_def store_ledger_def stored_link_def)
  then have "set (rev (map (fst \<circ> snd) (take k ls))) \<subseteq> S" by (auto dest: in_set_takeD)
  from calm_connectAll [OF c ok this r [unfolded reconnectBlocks_def]] obtain ls' where
    "calm E S ls' d" and l: "map fst ls' = take k (map (hashText E \<circ> fst \<circ> snd) ls) @ drop k (map fst ls)"
    by (auto simp: rev_map take_map drop_map comp_assoc)
  moreover have "map fst ls' = map fst ls" unfolding l calm_links [OF ls] by simp
  ultimately show ?thesis by blast
qed

lemma calm_attach:
  assumes ls: "calm E S ls c0" and c: "calm E S (drop k ls) c" and ok: "blocks_ok E S" "sn_block ` set nodes \<subseteq> S"
    and r: "attachBranch E now nodes (map (fst \<circ> snd) (take k ls)) c = (r, d)"
  shows "case r of
      Inr _ \<Rightarrow> \<exists>ls'. ledger E S ls' d \<and> map fst ls' = map (hashText E \<circ> sn_block) nodes @ drop k (map fst ls)
    | Inl e \<Rightarrow> e = ErrRestore \<or> (\<exists>ls'. ledger E S ls' d \<and> map fst ls' = map fst ls)"
proof -
  obtain q c1 where q: "connect_branch E now 0 (rev nodes) c = (q, c1)"
    by (cases "connect_branch E now 0 (rev nodes) c")
  from calm_branch [OF c ok(1) _ q] ok(2) obtain pre where p: "calm E S (pre @ drop k ls) c1"
    "case q of None \<Rightarrow> map fst pre = rev (map (hashText E \<circ> sn_block) (rev nodes))
     | Some (e, m) \<Rightarrow> length pre + 0 = m" by auto
  show ?thesis
  proof (cases q)
    case None
    then have d: "r = Inr ()" "d = pruneSideBlocks (dropNodes nodes c1)" using r q by (simp_all add: attachBranch_def)
    have "blocks_ok E S \<and> sound E S c1" using p(1) ok unfolding calm_def sound_def by blast
    then have "blocks_ok E S \<and> sound E S d"
      using ledger.prune ledger.dropNodes unfolding d(2) by blast
    then have "pools_in S d" using sound_pools by blast
    moreover have "ch_store d = ch_store c1" "ch_tip d = ch_tip c1"
      by (simp_all add: d(2) pruneSideBlocks_def dropNodes_def Let_def split: option.splits)
    ultimately have "ledger E S (pre @ drop k ls) d" using p(1) by (simp add: calm_def ledger_def)
    moreover have "map fst (pre @ drop k ls) = map (hashText E \<circ> sn_block) nodes @ drop k (map fst ls)"
      using p(2) by (simp add: None rev_map drop_map)
    ultimately show ?thesis unfolding d(1) by auto
  next
    case (Some em)
    then obtain e where em: "q = Some (e, length pre)" using p(2) by (cases em) auto
    obtain x c2 where x: "disconnectN (length pre) c1 = (x, c2)" by (cases "disconnectN (length pre) c1")
    obtain y c3 where y: "reconnectBlocks E now (map (fst \<circ> snd) (take k ls)) c2 = (y, c3)"
      by (cases "reconnectBlocks E now (map (fst \<circ> snd) (take k ls)) c2")
    have res: "(r, d) = (case x of Inl _ \<Rightarrow> (Inl ErrRestore, c2) | Inr _ \<Rightarrow>
        (case y of Inl _ \<Rightarrow> (Inl ErrRestore, c3) | Inr _ \<Rightarrow> (Inl e, c3)))"
      using r q em x y by (simp add: attachBranch_def split: sum.splits)
    show ?thesis
    proof (cases "\<exists>u v. x = Inr u \<and> y = Inr v")
      case True
      then obtain u v where xy: "x = Inr u" "y = Inr v" by blast
      have "calm E S (drop k ls) c2" by (rule calm_disconnectN [OF p(1) x [unfolded xy]])
      from calm_reconnect [OF ls this ok(1) y [unfolded xy]] res xy show ?thesis by (auto simp: calm_def)
    next
      case False
      with res show ?thesis by (cases x; cases y) auto
    qed
  qed
qed

lemma calm_reorganize:
  assumes c: "calm E S ls c" "length ls \<le> 2 ^ 31" and ok: "blocks_ok E S" "sn_block ` set nodes \<subseteq> S"
    and r: "reorganize E now nodes forkHash forkHeight c = (r, d)"
  shows "case r of
      Inr _ \<Rightarrow> \<exists>ls' k. ledger E S ls' d \<and> map fst ls' = map (hashText E \<circ> sn_block) nodes @ drop k (map fst ls) \<and>
        drop k (map fst ls) \<noteq> [] \<and> hd (drop k (map fst ls)) = forkHash
    | Inl e \<Rightarrow> e = ErrRestore \<or> (\<exists>ls'. ledger E S ls' d \<and> map fst ls' = map fst ls)"
proof (cases "tipHash c = forkHash")
  case True
  have h: "tipHash c = hd (map fst ls)" "ls \<noteq> []"
    using calm_tipHash [OF c] by auto
  have "attachBranch E now nodes (map (fst \<circ> snd) (take 0 ls)) c = (r, d)"
    using r True by (simp add: reorganize_def)
  from calm_attach [OF c(1) _ ok this] c(1) True h show ?thesis
    by (cases r) (auto intro!: exI [of _ 0])
next
  case other: False
  obtain tip where tip: "ch_tip c = Some tip" "sint (ix_Height tip) = int (length ls) - 1"
    using calm_height [OF c] by blast
  let ?n = "nat (sint (ix_Height tip) - sint forkHeight)"
  obtain q removed c1 where q: "disconnect_to ?n forkHeight [] c = (q, removed, c1)"
    by (cases "disconnect_to ?n forkHeight [] c") auto
  have "int (length ls) - 1 - sint forkHeight \<le> int ?n" using tip by simp
  from calm_disconnect_to [OF c this q] obtain k where k: "calm E S (drop k ls) c1"
    "removed = map (fst \<circ> snd) (take k ls)" "\<forall>e b. q = Some (e, b) \<longrightarrow> b" by auto
  have "length (drop k ls) \<le> 2 ^ 31" using c(2) by simp
  from calm_tipHash [OF k(1) this]
  have h: "tipHash c1 = hd (drop k (map fst ls))" "drop k (map fst ls) \<noteq> []" by (simp_all add: drop_map)
  note restores = calm_reconnect [OF c(1) k(1) ok(1)]
  show ?thesis
  proof (cases q)
    case None
    show ?thesis
    proof (cases "ch_tip c1 = None \<or> tipHash c1 \<noteq> forkHash")
      case True
      then have "(r, d) = (case reconnectBlocks E now (map (fst \<circ> snd) (take k ls)) c1 of
          (Inl _, c) \<Rightarrow> (Inl ErrRestore, c) | (Inr _, c) \<Rightarrow> (Inl ErrForkPoint, c))"
        using r other tip q None k(2) by (simp add: reorganize_def)
      then show ?thesis using restores by (fastforce simp: calm_def split: prod.splits sum.splits)
    next
      case False
      then have "attachBranch E now nodes (map (fst \<circ> snd) (take k ls)) c1 = (r, d)"
        using r other tip q None k(2) by (auto simp: reorganize_def)
      from calm_attach [OF c(1) k(1) ok this] False h show ?thesis by (cases r) auto
    qed
  next
    case (Some eb)
    with k(3) obtain e where "q = Some (e, True)" by (cases eb) auto
    then have "(r, d) = (case reconnectBlocks E now (map (fst \<circ> snd) (take k ls)) c1 of
        (Inl _, c) \<Rightarrow> (Inl ErrRestore, c) | (Inr _, c) \<Rightarrow> (Inl e, c))"
      using r other tip q k(2) by (simp add: reorganize_def)
    then show ?thesis using restores by (fastforce simp: calm_def split: prod.splits sum.splits)
  qed
qed

section \<open>When a side branch is not activated\<close>

lemma side_path_quiet: "side_path n cur c = (r, d) \<Longrightarrow> quiet c d"
proof (induction n arbitrary: cur c r d)
  case (Suc n)
  obtain q c1 where a: "activeHeight (sn_parent cur) c = (q, c1)" by (cases "activeHeight (sn_parent cur) c")
  note q1 = quiet_activeHeight [OF a]
  show ?case
  proof (cases q)
    case None
    show ?thesis
    proof (cases "fmlookup (ch_sideBlocks c1) (sn_parent cur)")
      case None
      with Suc.prems a \<open>q = None\<close> q1 show ?thesis by simp
    next
      case (Some p)
      obtain x c2 where x: "side_path n p c1 = (x, c2)" by (cases "side_path n p c1")
      from quiet.trans [OF q1 Suc.IH [OF x]] Suc.prems a \<open>q = None\<close> Some x show ?thesis
        by (auto split: forkPath.splits)
    qed
  next
    case (Some h)
    with Suc.prems a q1 show ?thesis by simp
  qed
qed (auto simp: quiet.refl)

text \<open>The chain changes only for a side branch with more work than the active chain.\<close>

lemma activate_only_more_work:
  assumes "tryActivateSideChain E now h c = (r, d)" "\<not> quiet c d"
  shows "\<exists>node tip w active. fmlookup (ch_sideBlocks c) h = Some node \<and> ch_tip c = Some tip \<and>
    sn_chainwork node = Some w \<and> fst (chainworkForHash (ix_Hash tip) c) = Inr active \<and> active < w"
proof (cases "fmlookup (ch_sideBlocks c) h")
  case None
  with assms show ?thesis by (auto simp: tryActivateSideChain_def sret_def quiet.refl)
next
  case (Some node)
  show ?thesis
  proof (cases "ch_tip c")
    case None
    with assms Some show ?thesis by (auto simp: tryActivateSideChain_def sret_def quiet.refl)
  next
    case (Some tip)
    obtain q c1 where q: "chainworkForHash (ix_Hash tip) c = (q, c1)"
      by (cases "chainworkForHash (ix_Hash tip) c")
    have q1: "quiet c c1" by (rule keepsD [OF keeps_chainworkForHash q])
    show ?thesis
    proof (cases q)
      case (Inl e)
      with assms Some \<open>fmlookup _ h = Some node\<close> q q1 show ?thesis
        by (simp add: tryActivateSideChain_def sbind_def)
    next
      case (Inr active)
      show ?thesis
      proof (cases "sn_chainwork node")
        case None
        with assms Some \<open>fmlookup _ h = Some node\<close> q q1 Inr show ?thesis
          by (simp add: tryActivateSideChain_def sbind_def sret_def)
      next
        case w: (Some w)
        with assms Some \<open>fmlookup _ h = Some node\<close> q q1 Inr show ?thesis
          by (cases "w \<le> active") (auto simp: tryActivateSideChain_def sbind_def sret_def)
      qed
    qed
  qed
qed

text \<open>
  A branch that leaves the active chain at a block which was active once, and is stored but
  no side block, is not activated whatever its work: the path to the fork stops there.
\<close>

lemma stored_branch_stays:
  assumes node: "fmlookup (ch_sideBlocks c) h = Some node"
    and parent: "sn_parent node |\<notin>| fmdom (ch_sideBlocks c)"
    and inactive: "fst (activeHeight (sn_parent node) c) = None"
    and act: "tryActivateSideChain E now h c = (r, d)"
  shows "quiet c d"
proof (rule ccontr)
  assume "\<not> quiet c d"
  from activate_only_more_work [OF act this] node obtain tip w active where
    t: "ch_tip c = Some tip" "sn_chainwork node = Some w" "active < w"
    "fst (chainworkForHash (ix_Hash tip) c) = Inr active" by auto
  obtain c1 where c1: "chainworkForHash (ix_Hash tip) c = (Inr active, c1)"
    using t(4) by (cases "chainworkForHash (ix_Hash tip) c") auto
  have q1: "quiet c c1" by (rule keepsD [OF keeps_chainworkForHash c1])
  have "ch_store c1 = ch_store c"
    using c1 chainwork_rec_store by (auto simp: chainworkForHash_def simp del: chainwork_rec.simps)
  then have "fst (activeHeight (sn_parent node) c1) = None"
    using inactive by (auto simp: activeHeight_def split: sum.splits prod.splits)
  then obtain c2 where c2: "activeHeight (sn_parent node) c1 = (None, c2)"
    by (cases "activeHeight (sn_parent node) c1") auto
  have q2: "quiet c c2" using quiet.trans [OF q1 quiet_activeHeight [OF c2]] .
  then have "fmmap sn_block (ch_sideBlocks c2) = fmmap sn_block (ch_sideBlocks c)"
    by (simp add: quiet_def samePools_def)
  then have "fmdom (ch_sideBlocks c2) = fmdom (ch_sideBlocks c)" by (metis fmdom_map)
  then have "fmlookup (ch_sideBlocks c2) (sn_parent node) = None" using parent by (simp add: fmdom_notD)
  then have "d = c2" using act node t c1 c2 by (simp add: tryActivateSideChain_def sbind_def sret_def)
  with q2 \<open>\<not> quiet c d\<close> show False by simp
qed

end
