(* ===== verification/SampleChain.thy ===== *)
theory SampleChain
  imports Reorg
begin

text \<open>
  A concrete node for the witnesses: a header hash that reads the nonce, parameters with the
  easiest target, the genesis block of these parameters and one block on top of it.
\<close>

definition sample_crypto0 :: crypto where
  "sample_crypto0 = \<lparr>cr_ripemd160 = (\<lambda>b. replicate 20 7), cr_ParsePubKey = Some,
     cr_ParseDERSignature = Some, cr_SerializeSignature = (\<lambda>s. s),
     cr_ECDSAVerify = (\<lambda>sig h k. sig = k), cr_MLDSAUnmarshal = Some,
     cr_MLDSAVerify = (\<lambda>k c m s. s = k), cr_MLDSASignatureSize = 3309,
     cr_MLDSAPublicKeySize = 1952\<rparr>"

definition nonce_hash :: "u32 \<Rightarrow> hash" where
  "nonce_hash n = ucast n # replicate 31 0"

definition params0 :: Params where
  "params0 = \<lparr>pa_GenesisTimestamp = ''t'', pa_GenesisTime = 1000, pa_GenesisBits = 0x207fffff,
     pa_PostGenesisBits = 0x207fffff, pa_GenesisNonce = 1, pa_GenesisHash = hash_String (nonce_hash 1)\<rparr>"

definition env0 :: chainEnv where
  "env0 = \<lparr>en_crypto = sample_crypto0, en_HashHeader = (\<lambda>h. Some (nonce_hash (hd_Nonce h))), en_params = params0\<rparr>"

definition block0 :: MsgBlock where
  "block0 = the (NewBlock params0)"

definition coinbase1 :: MsgTx where
  "coinbase1 = \<lparr>tx_Version = 1,
     tx_TxIn = [\<lparr>PreviousOutPoint = \<lparr>op_Hash = zero_hash, op_Index = 0xffffffff\<rparr>,
                 SignatureScript = [1, 2], Sequence = 0xffffffff\<rparr>],
     tx_TxOut = [\<lparr>out_Value = 5000000000, out_PkScript = [0x51]\<rparr>], tx_LockTime = 0\<rparr>"

definition header1 :: BlockHeader where
  "header1 = \<lparr>hd_Version = 1, hd_PrevBlock = nonce_hash 1, hd_MerkleRoot = TxHash coinbase1,
     hd_Timestamp = 2000, hd_Bits = 0x207fffff, hd_Nonce = 2\<rparr>"

definition block1 :: MsgBlock where
  "block1 = \<lparr>bk_Header = header1, bk_Transactions = [coinbase1]\<rparr>"

lemma merkle_single [simp]: "BuildMerkleRoot \<lparr>bk_Header = h, bk_Transactions = [tx]\<rparr> = TxHash tx"
  by (simp add: BuildMerkleRoot_def merkle_loop.simps)

lemma TxHash_ok [simp]: "hash_ok (TxHash tx)"
  by (simp add: TxHash_def)

lemma genesis_pubkey: "map_option length (hex_decode genesisPubKeyHex) = Some 65"
  by code_simp

definition pubkey0 :: bytes where "pubkey0 = the (hex_decode genesisPubKeyHex)"

lemma pubkey0: "hex_decode genesisPubKeyHex = Some pubkey0" "length pubkey0 = 65"
  using genesis_pubkey by (auto simp: pubkey0_def)

definition coinbase0 :: MsgTx where "coinbase0 = genesisTx params0 pubkey0"

lemma block0_eq:
  "NewBlock params0 = Some block0"
  "block0 = \<lparr>bk_Header = \<lparr>hd_Version = 1, hd_PrevBlock = zero_hash, hd_MerkleRoot = TxHash coinbase0,
     hd_Timestamp = 1000, hd_Bits = 0x207fffff, hd_Nonce = 1\<rparr>, bk_Transactions = [coinbase0]\<rparr>"
  by (simp_all add: block0_def NewBlock_def pubkey0 coinbase0_def params0_def)

lemma coinbase_ok [simp]: "MsgTx_ok coinbase0" "MsgTx_ok coinbase1"
  by (simp_all add: coinbase0_def coinbase1_def genesisTx_def params0_def pubkey0 MsgTx_ok_def TxIn_ok_def
      TxOut_ok_def hash_ok_def zero_hash_def HashSize_def MaxTxInPerMessage_def MaxTxOutPerMessage_def
      MaxScriptSize_def bytes_of_string_def)

lemma nonce_hash_ok [simp]: "hash_ok (nonce_hash n)"
  by (simp add: nonce_hash_def hash_ok_def HashSize_def)

lemma zero_hash_ok: "hash_ok zero_hash"
  by (simp add: hash_ok_def zero_hash_def HashSize_def)

lemma sample_blocks_ok [simp]: "MsgBlock_ok block0" "MsgBlock_ok block1"
  by (simp_all add: block0_eq(2) block1_def header1_def MsgBlock_ok_def BlockHeader_ok_def
      MaxBlockTransactions_def zero_hash_ok)

lemma foldl_zeros: "foldl (\<lambda>n b. 256 * n + uint b) 0 (replicate k 0) = (0::int)" for b :: byte
  by (induction k) simp_all

lemma sample_pow: "CheckProofOfWork (nonce_hash n) 0x207fffff = Inr ()" if "n \<in> {1, 2}"
proof -
  have "HashToBig (nonce_hash n) \<le> 2"
    using that by (auto simp: HashToBig_def nonce_hash_def big_SetBytes_def foldl_zeros)
  moreover have "CompactToBig 0x207fffff = 0x7fffff * 2 ^ 232" by (simp add: CompactToBig_def)
  ultimately show ?thesis by (simp add: CheckProofOfWork_def PowLimit_def)
qed

text \<open>A block with nothing but a one-output coinbase validates.\<close>

lemma validate_coinbase_only:
  assumes "isCoinbase cb" "2 \<le> length (SignatureScript (tx_TxIn cb ! 0))"
    "length (SignatureScript (tx_TxIn cb ! 0)) \<le> 100"
    "tx_TxOut cb = [out]" "MoneyRange (out_Value out)" "out_Value out \<le>s BlockSubsidy height"
    "IsFinalizedTx cb height (hd_Timestamp h)" "CountSigOps (out_PkScript out) \<le> 1"
    "length (block_Serialize \<lparr>bk_Header = h, bk_Transactions = [cb]\<rparr>) \<le> 1000000"
  shows "validateBlockTransactions C utxo \<lparr>bk_Header = h, bk_Transactions = [cb]\<rparr> height =
    Inr (createdOutputs height True cb, [], [])"
proof -
  obtain e where e: "createdOutputs height True cb = [e]" by (simp add: createdOutputs_def assms(4))
  show ?thesis
    using assms
    by (simp add: validateBlockTransactions_def check_tx_def e initialBlockState_def Let_def
        tooManySigOps_def outputSigOps_def maxBlockSerializedSize_def minCoinbaseScriptLen_def
        maxCoinbaseScriptLen_def MaxTxSigOps_def MaxBlockSigOps_def pendingInOrder_def
        List.map_filter_def word_sless_alt word_sle_eq not_less)
qed

lemma sample_tx_size: "length (tx_Serialize coinbase0) \<le> 300" "length (tx_Serialize coinbase1) \<le> 300"
  by (simp_all add: coinbase0_def coinbase1_def genesisTx_def params0_def pubkey0 tx_Serialize_def
      write_counted_def write_TxIn_def write_TxOut_def WriteVarBytes_def WriteVarInt_def zero_hash_def
      bytes_of_string_def HashSize_def)

lemma sample_block_size:
  assumes "length (tx_Serialize tx) \<le> 300" "hash_ok (hd_PrevBlock h)" "hash_ok (hd_MerkleRoot h)"
  shows "length (block_Serialize \<lparr>bk_Header = h, bk_Transactions = [tx]\<rparr>) \<le> 1000000"
  using assms by (simp add: block_Serialize_def header_Serialize_def write_counted_def WriteVarInt_def
      hash_ok_def HashSize_def)

lemma sample_validates:
  "validateBlockTransactions C utxo block0 0 = Inr (createdOutputs 0 True coinbase0, [], [])"
  "validateBlockTransactions C utxo block1 1 = Inr (createdOutputs 1 True coinbase1, [], [])"
proof -
  have "CountSigOps (bs @ cs) = CountSigOps bs + CountSigOps cs" for bs cs
    by (induction bs) simp_all
  moreover have "map_option CountSigOps (hex_decode genesisPubKeyHex) = Some 0" by code_simp
  ultimately have sig: "CountSigOps (65 # pubkey0 @ [0xac]) \<le> 1"
    by (simp add: pubkey0 OP_CHECKSIG_def OP_CHECKMULTISIG_def)
  let ?out = "\<lparr>out_Value = Subsidy, out_PkScript = 65 # pubkey0 @ [0xac]\<rparr>"
  show "validateBlockTransactions C utxo block0 0 = Inr (createdOutputs 0 True coinbase0, [], [])"
    unfolding block0_eq(2)
    by (intro validate_coinbase_only [where out = ?out] sample_block_size sample_tx_size)
      (use sig in \<open>simp_all add: coinbase0_def genesisTx_def params0_def isCoinbase_def bytes_of_string_def pubkey0
        MoneyRange_sint BlockSubsidy_sint word_sle_eq IsFinalizedTx_def zero_hash_ok hash_IsZero_def
        del: CountSigOps.simps\<close>)
  show "validateBlockTransactions C utxo block1 1 = Inr (createdOutputs 1 True coinbase1, [], [])"
    unfolding block1_def
    by (intro validate_coinbase_only [where out = "\<lparr>out_Value = 5000000000, out_PkScript = [0x51]\<rparr>"]
        sample_block_size sample_tx_size)
      (simp_all add: coinbase1_def header1_def isCoinbase_def MoneyRange_sint BlockSubsidy_sint word_sle_eq
        IsFinalizedTx_def hash_IsZero_def OP_CHECKSIG_def OP_CHECKMULTISIG_def)
qed

section \<open>A chain of one block\<close>

text \<open>The state after storing a first block: the genesis block, or one that creates no output.\<close>

definition first_ok :: "MsgBlock \<Rightarrow> bool" where
  "first_ok g \<longleftrightarrow> MsgBlock_ok g \<and> hd_Nonce (bk_Header g) = 1 \<and> hd_Bits (bk_Header g) = 0x207fffff \<and>
     hd_Timestamp (bk_Header g) = 1000 \<and> hd_PrevBlock (bk_Header g) = zero_hash"

definition work0 :: int where "work0 = WorkForBits 0x207fffff"

definition index0 :: "MsgBlock \<Rightarrow> BlockIndex" where
  "index0 g = indexOf g 0 (nonce_hash 1) [] work0"

definition firstChain :: "MsgBlock \<Rightarrow> UTXOEntry list \<Rightarrow> Chain" where
  "firstChain g adds = commitBlock g (index0 g) work0 adds [] [] (emptyChain NewFileStore)"

definition chain0 :: Chain where
  "chain0 = firstChain block0 (createdOutputs 0 True coinbase0)"

definition coinbaseE :: MsgTx where
  "coinbaseE = coinbase1\<lparr>tx_TxOut := []\<rparr>"

definition blockE :: MsgBlock where
  "blockE = \<lparr>bk_Header = header1\<lparr>hd_PrevBlock := zero_hash, hd_MerkleRoot := TxHash coinbaseE,
     hd_Timestamp := 1000, hd_Nonce := 1\<rparr>, bk_Transactions = [coinbaseE]\<rparr>"

definition chainE :: Chain where
  "chainE = firstChain blockE []"

lemma nonce_hash_text [simp]: "hash_String (nonce_hash n) \<noteq> []"
  using length_hash_String [of "nonce_hash n"] by (auto simp: nonce_hash_def simp del: length_hash_String)

lemma sample_env [simp]:
  "en_params env0 = params0" "en_crypto env0 = sample_crypto0"
  "hashHeader env0 h = Inr (nonce_hash (hd_Nonce h))" "en_HashHeader env0 h = Some (nonce_hash (hd_Nonce h))"
  "pa_GenesisHash params0 = hash_String (nonce_hash 1)" "pa_GenesisBits params0 = 0x207fffff"
  "pa_PostGenesisBits params0 = 0x207fffff"
  by (simp_all add: env0_def params0_def hashHeader_def)

lemma sample_headers [simp]:
  "bk_Header block1 = header1" "bk_Transactions block1 = [coinbase1]"
  "hd_Nonce header1 = 2" "hd_Bits header1 = 0x207fffff" "hd_Timestamp header1 = 2000"
  "hd_PrevBlock header1 = nonce_hash 1" "hd_MerkleRoot header1 = TxHash coinbase1"
  by (simp_all add: block1_def header1_def)

lemma first_blocks_ok [simp]: "first_ok block0" "first_ok blockE"
proof -
  show "first_ok block0" by (simp add: first_ok_def) (simp add: block0_eq(2))
  have "MsgTx_ok coinbaseE" by (simp add: coinbaseE_def coinbase1_def MsgTx_ok_def TxIn_ok_def
      hash_ok_def zero_hash_def HashSize_def MaxTxInPerMessage_def MaxScriptSize_def)
  then show "first_ok blockE"
    by (simp add: first_ok_def blockE_def header1_def MsgBlock_ok_def BlockHeader_ok_def
        MaxBlockTransactions_def zero_hash_ok)
qed

lemma nonce_hash_inj [simp]: "nonce_hash a = nonce_hash b \<longleftrightarrow> (ucast a :: byte) = ucast b"
  by (simp add: nonce_hash_def)

lemma genesis_starts: "EnsureGenesis env0 (emptyChain NewFileStore) = (Inr (), chain0)"
proof -
  have "ch_tip (emptyChain NewFileStore) = None" by (simp add: emptyChain_def)
  moreover have "hd_Nonce (bk_Header block0) = 1" "hd_Bits (bk_Header block0) = 0x207fffff"
    using first_blocks_ok(1) by (simp_all add: first_ok_def)
  ultimately show ?thesis
    using sample_pow [of 1] block0_eq(1)
    by (simp add: EnsureGenesis_def sbind_def op_simps checkPow_def checkTransactions_def sample_validates
        chain0_def firstChain_def index0_def work0_def)
qed

lemma firstChain_simps [simp]:
  assumes "first_ok g"
  shows "ch_tip (firstChain g adds) = Some (index0 g)" "ix_Hash (index0 g) = hash_String (nonce_hash 1)"
  "ix_Height (index0 g) = 0" "ix_Bits (index0 g) = 0x207fffff" "ix_Time (index0 g) = 1000" "ix_Parent (index0 g) = []"
  "fmlookup (ch_work (firstChain g adds)) (hash_String (nonce_hash 1)) = Some work0"
  "fmlookup (fs_heightIndex (ch_store (firstChain g adds))) 0 = Some (index0 g)"
  "\<not> fs_txIndexEnabled (ch_store (firstChain g adds))"
  "\<not> fs_addressIndexEnabled (ch_store (firstChain g adds))"
  "fs_journal (ch_store (firstChain g adds)) = None"
  "fs_tip (ch_store (firstChain g adds)) = Some (index0 g)"
  "LoadBlock (hash_String (nonce_hash 1)) (ch_store (firstChain g adds)) = Inr (g, index0 g)"
  using assms block.dec_enc [of g "[]"]
  by (simp_all add: firstChain_def index0_def indexOf_def commitBlock_def noteWork_def SaveBlock_fields
      emptyChain_def NewFileStore_def LoadBlock_def first_ok_def)

lemma sample_tips [simp]:
  "ch_tip chain0 = Some (index0 block0)" "fs_tip (ch_store chain0) = Some (index0 block0)"
  "ch_tip chainE = Some (index0 blockE)" "fs_tip (ch_store chainE) = Some (index0 blockE)"
  by (simp_all add: chain0_def chainE_def)

section \<open>One block on top\<close>

definition index1 :: BlockIndex where
  "index1 = indexOf block1 1 (nonce_hash 2) (hash_String (nonce_hash 1)) (work0 + work0)"

definition secondChain :: "Chain \<Rightarrow> Chain" where
  "secondChain c = commitBlock block1 index1 (work0 + work0) (createdOutputs 1 True coinbase1) [] [] c"

text \<open>The states that validation cannot tell from the one with just the first block.\<close>

definition onFirst :: "MsgBlock \<Rightarrow> UTXOEntry list \<Rightarrow> Chain \<Rightarrow> bool" where
  "onFirst g adds c \<longleftrightarrow> ch_tip c = ch_tip (firstChain g adds) \<and> ch_store c = ch_store (firstChain g adds) \<and>
     ch_work c = ch_work (firstChain g adds)"

lemma onFirst_refl [simp]: "onFirst g adds (firstChain g adds)"
  by (simp add: onFirst_def)

lemma block1_validates:
  assumes g: "first_ok g" and c: "onFirst g adds c"
  shows "validateActiveBlock env0 2000 block1 c =
     (Inr (index1, work0 + work0, createdOutputs 1 True coinbase1, [], []), c)"
proof -
  let ?c = c
  have eq: "ch_tip c = ch_tip (firstChain g adds)" "ch_store c = ch_store (firstChain g adds)"
    "ch_work c = ch_work (firstChain g adds)" using c by (simp_all add: onFirst_def)
  have "c\<lparr>ch_store := ch_store c\<rparr> = c" by simp
  then have same: "c\<lparr>ch_store := ch_store (firstChain g adds)\<rparr> = c" by (simp only: eq)
  note [simp] = eq same
  have mtp: "medianTimePast (hash_String (nonce_hash 1)) (ch_store (firstChain g adds)) = Inr 1000"
    using g by (simp add: medianTimePast_def eval_nat_numeral median_def)
  have tip: "checkTip block1 ?c = (Inr (), ?c)"
    using g by (simp add: checkTip_def hash_FromString_String sbind_def readStore_def onStore_def mtp op_simps)
  have bits: "nextRequiredBits env0 ?c = (Inr 0x207fffff, ?c)"
    using g by (simp add: nextRequiredBits_def sbind_def onStore_def recentEntries_def DGWv3PastBlocks_def
        eval_nat_numeral LoadIndexByHeight_def requiredBitsFromRecent_def op_simps)
  have work: "computeChildChainwork (hash_String (nonce_hash 1)) 0x207fffff ?c = (Inr (work0 + work0), ?c)"
    using g by (simp add: computeChildChainwork_def chainworkForHash_def sbind_def op_simps work0_def [symmetric])
  have root: "BuildMerkleRoot block1 = TxHash coinbase1" by (simp add: block1_def)
  show ?thesis
    using sample_pow [of 2] g
    by (simp add: validateActiveBlock_def sbind_def op_simps tip bits work checkPow_def root childHeight_def
        tipHash_def checkTransactions_def sample_validates index1_def maxFutureTime_def MaxFutureDriftSeconds_def)
qed

lemma block1_connects:
  assumes "first_ok g" "onFirst g adds c"
  shows "connectBlock env0 2000 block1 c = (Inr (), secondChain c)"
  by (simp add: connectBlock_def sbind_def block1_validates [OF assms] smodify_def secondChain_def)

lemmas block1_on_genesis = block1_connects [OF first_blocks_ok(1) onFirst_refl,
  of "createdOutputs 0 True coinbase0", folded chain0_def]

lemma sample_hashes: "nonce_hash 1 \<noteq> zero_hash" "nonce_hash 2 \<noteq> zero_hash"
proof -
  have "zero_hash = nonce_hash 0"
    using replicate_Suc [of 31 "0 :: byte"] by (simp add: nonce_hash_def zero_hash_def HashSize_def)
  moreover have "nonce_hash 1 \<noteq> nonce_hash 0" "nonce_hash 2 \<noteq> nonce_hash 0" by simp_all
  ultimately show "nonce_hash 1 \<noteq> zero_hash" "nonce_hash 2 \<noteq> zero_hash" by metis+
qed

lemma sample_blocks: "first_ok g \<Longrightarrow> blocks_ok env0 {g, block1}"
  using sample_hashes by (auto simp: blocks_ok_def first_ok_def)

lemma sample_env_ok: "env_ok env0 {block0, block1}"
  using block0_eq(1) sample_blocks [OF first_blocks_ok(1)] by (simp add: env_ok_def)

lemma sample_reachable: "reachable env0 {block0, block1} chain0"
  using reachable.genesis [OF genesis_starts] .

lemma firstChain_ledger:
  assumes "first_ok g" "validateBlockTransactions sample_crypto0 (\<lambda>_. None) g 0 = Inr (adds, [], [])"
  shows "ledger env0 {g, block1} [(hash_String (nonce_hash 1), g, undoOf adds [])] (firstChain g adds)"
proof -
  have utxo: "storedUTXO NewFileStore = (\<lambda>_. None)"
    by (simp add: storedUTXO_def LoadUTXO_def NewFileStore_def fun_eq_iff)
  have s: "store_ledger env0 {g, block1} [] NewFileStore"
    using ledger_start by (simp add: ledger_def emptyChain_def)
  have "store_ledger env0 {g, block1} ((hash_String (nonce_hash 1), g, undoOf adds []) # [])
      (SaveBlock g (index0 g) adds [] [] NewFileStore)"
    by (rule save_ledger [OF s sample_blocks [OF assms(1)]])
      (use assms in \<open>simp_all add: utxo parentOf_def\<close>, simp add: first_ok_def, simp add: first_ok_def)
  then show ?thesis
    by (simp add: ledger_def firstChain_def commitBlock_def noteWork_def SaveBlock_fields pools_in_def emptyChain_def
        fmran'_alt)
qed

lemma blockE_validates: "validateBlockTransactions C utxo blockE 0 = Inr ([], [], [])"
proof -
  have size: "length (tx_Serialize coinbaseE) \<le> 300"
    by (simp add: coinbaseE_def coinbase1_def tx_Serialize_def write_counted_def write_TxIn_def
        WriteVarBytes_def WriteVarInt_def zero_hash_def HashSize_def)
  have cb: "isCoinbase coinbaseE" "length (SignatureScript (tx_TxIn coinbaseE ! 0)) = 2" "tx_TxOut coinbaseE = []"
    "IsFinalizedTx coinbaseE 0 1000"
    by (simp_all add: coinbaseE_def coinbase1_def isCoinbase_def hash_IsZero_def IsFinalizedTx_def)
  have "length (block_Serialize blockE) \<le> 1000000"
    unfolding blockE_def by (intro sample_block_size size) (simp_all add: zero_hash_ok)
  with cb show ?thesis
    by (simp add: blockE_def validateBlockTransactions_def check_tx_def createdOutputs_def initialBlockState_def
        Let_def tooManySigOps_def outputSigOps_def maxBlockSerializedSize_def minCoinbaseScriptLen_def
        maxCoinbaseScriptLen_def MaxTxSigOps_def MaxBlockSigOps_def pendingInOrder_def BlockSubsidy_sint
        List.map_filter_def word_sless_alt word_sle_eq not_less)
qed

lemma sample_ledger: "ledger env0 {block0, block1}
    [(hash_String (nonce_hash 1), block0, undoOf (createdOutputs 0 True coinbase0) [])] chain0"
  unfolding chain0_def by (rule firstChain_ledger [OF first_blocks_ok(1) sample_validates(1)])

lemma sample_no_orphans [simp]: "ch_orphanByHash chain0 = fmempty"
  by (simp add: chain0_def firstChain_def commitBlock_def noteWork_def emptyChain_def)

text \<open>The same for the first block without outputs, where every output is new.\<close>

lemma chainE_ledger:
  "ledger env0 {blockE, block1} [(hash_String (nonce_hash 1), blockE, undoOf [] [])] chainE"
  "blocks_ok env0 {blockE, block1}"
  "connectBlock env0 2000 block1 chainE = (Inr (), secondChain chainE)"
  "fresh_outputs block1 (ch_store chainE)"
  "validateActiveBlock env0 2000 block1 chainE =
     (Inr (index1, work0 + work0, createdOutputs 1 True coinbase1, [], []), chainE)"
  "fs_utxo (ch_store chainE) = fmempty" "hash_ok (nonce_hash 2)"
  "fmlookup (fs_heightIndex (ch_store (secondChain chainE))) 0 = Some (index0 blockE)"
  "\<not> fs_txIndexEnabled (ch_store chainE)" "\<not> fs_addressIndexEnabled (ch_store chainE)"
  "ix_Height (index0 blockE) = 0"
proof -
  show utxo: "fs_utxo (ch_store chainE) = fmempty"
    by (simp add: chainE_def firstChain_def commitBlock_def noteWork_def SaveBlock_fields connectUTXO_def
        emptyChain_def NewFileStore_def)
  then show "fresh_outputs block1 (ch_store chainE)" by (simp add: fresh_outputs_def storedUTXO_at)
  show "fmlookup (fs_heightIndex (ch_store (secondChain chainE))) 0 = Some (index0 blockE)"
    by (simp add: secondChain_def commitBlock_def noteWork_def SaveBlock_fields index1_def indexOf_def chainE_def)
qed (simp_all add: chainE_def firstChain_ledger blockE_validates sample_blocks
    block1_connects [OF _ onFirst_refl] block1_validates [OF _ onFirst_refl])

section \<open>A side branch of one block\<close>

definition node1 :: sideBlockNode where
  "node1 = \<lparr>sn_hash = hash_String (nonce_hash 2), sn_parent = hash_String (nonce_hash 1), sn_height = 1,
     sn_block = block1, sn_chainwork = Some (work0 + work0)\<rparr>"

text \<open>The chain with this block known as a side block.\<close>

definition sideChain0 :: Chain where
  "sideChain0 = chain0\<lparr>ch_sideBlocks := fmupd (hash_String (nonce_hash 2)) node1 (ch_sideBlocks chain0)\<rparr>"

lemma sample_reorganize:
  "\<exists>d. reorganize env0 2000 [node1] (hash_String (nonce_hash 1)) 0 chain0 = (Inr (), d)"
  by (simp add: reorganize_def tipHash_def attachBranch_def node1_def block1_on_genesis)

lemma sample_activates:
  "\<exists>r d. tryActivateSideChain env0 2000 (hash_String (nonce_hash 2)) sideChain0 = (r, d) \<and> \<not> quiet sideChain0 d"
proof -
  have work: "0 < work0" by code_simp
  have on: "onFirst block0 (createdOutputs 0 True coinbase0) sideChain0"
    by (simp add: onFirst_def sideChain0_def chain0_def)
  have f: "fmlookup (ch_sideBlocks sideChain0) (hash_String (nonce_hash 2)) = Some node1"
    "ch_tip sideChain0 = Some (index0 block0)" "sn_chainwork node1 = Some (work0 + work0)"
    "sn_parent node1 = hash_String (nonce_hash 1)" "ix_Hash (index0 block0) = hash_String (nonce_hash 1)"
    "sn_block node1 = block1"
    by (simp_all add: sideChain0_def) (simp_all add: node1_def)
  have c: "chainworkForHash (hash_String (nonce_hash 1)) sideChain0 = (Inr work0, sideChain0)"
    by (simp add: chainworkForHash_def sideChain0_def chain0_def)
  have a: "activeHeight (hash_String (nonce_hash 1)) sideChain0 = (Some 0, sideChain0)"
    by (simp add: activeHeight_def LoadIndexByHeight_def sideChain0_def chain0_def)
  have "tryActivateSideChain env0 2000 (hash_String (nonce_hash 2)) sideChain0 =
      reorganize env0 2000 [node1] (hash_String (nonce_hash 1)) 0 sideChain0"
    using c a work f by (simp add: tryActivateSideChain_def sbind_def)
  moreover have "ch_tip (pruneSideBlocks e) = ch_tip e" "ch_tip (dropNodes ns e) = ch_tip e" for e ns
    by (simp_all add: pruneSideBlocks_def dropNodes_def Let_def split: option.splits)
  moreover have "ch_orphanByHash (secondChain sideChain0) = fmempty" "ch_tip (secondChain sideChain0) = Some index1"
    by (simp_all add: secondChain_def commitBlock_def noteWork_def sideChain0_def)
  then have "ch_tip (acceptOrphanChildren env0 2000 h (secondChain sideChain0)) = Some index1" for h
    by (simp add: acceptOrphanChildren_def accept_children_calm)
  ultimately obtain d where d: "tryActivateSideChain env0 2000 (hash_String (nonce_hash 2)) sideChain0 = (Inr (), d)"
    "ch_tip d = Some index1"
    using block1_connects [OF first_blocks_ok(1) on] f
    by (simp add: reorganize_def tipHash_def attachBranch_def)
  moreover have "ch_tip sideChain0 \<noteq> Some index1" by (simp add: sideChain0_def index1_def indexOf_def index0_def)
  ultimately show ?thesis by (auto simp: quiet_def sameChain_def)
qed

lemma sample_heights: "heights_decrease (ch_store chain0)"
  by (auto simp: heights_decrease_def LoadBlock_def chain0_def firstChain_def commitBlock_def noteWork_def
      SaveBlock_fields emptyChain_def NewFileStore_def index0_def indexOf_def split: option.splits sum.splits if_splits)

section \<open>A block that was active once\<close>

text \<open>The chain after \<open>block1\<close> was connected and disconnected, with a side block on top of it.\<close>

definition node2 :: sideBlockNode where
  "node2 = \<lparr>sn_hash = hash_String (nonce_hash 3), sn_parent = hash_String (nonce_hash 2), sn_height = 2,
     sn_block = block1, sn_chainwork = Some (work0 + work0 + work0)\<rparr>"

definition onceActive :: Chain where
  "onceActive = (snd (disconnectTip (secondChain chainE)))
     \<lparr>ch_sideBlocks := fmupd (hash_String (nonce_hash 3)) node2 fmempty\<rparr>"

lemma disconnect_second:
  "\<exists>e. disconnectTip (secondChain chainE) = (Inr (), e) \<and> ch_tip e = Some (index0 blockE) \<and>
     fs_tip (ch_store e) = Some (index0 blockE) \<and>
     fmlookup (fs_heightIndex (ch_store e)) 1 = None \<and>
     fmlookup (fs_blocks (ch_store e)) (hash_String (nonce_hash 2)) = Some (block_Serialize block1) \<and>
     fmlookup (fs_hashIndex (ch_store e)) (hash_String (nonce_hash 2)) = Some index1"
proof -
  have off: "\<not> fs_txIndexEnabled (ch_store (secondChain chainE))" "\<not> fs_addressIndexEnabled (ch_store (secondChain chainE))"
    using chainE_ledger(9,10) by (simp_all add: secondChain_def commitBlock_def noteWork_def SaveBlock_fields)
  have s: "ch_tip (secondChain chainE) = Some index1"
    "LoadBlock (hash_String (nonce_hash 2)) (ch_store (secondChain chainE)) = Inr (block1, index1)"
    "LoadUndo (hash_String (nonce_hash 2)) (ch_store (secondChain chainE)) = Inr (undoOf (createdOutputs 1 True coinbase1) [])"
    "ix_Hash index1 = hash_String (nonce_hash 2)" "ix_Height index1 = 1"
    using block.dec_enc [of block1 "[]"]
    by (simp_all add: secondChain_def commitBlock_def noteWork_def SaveBlock_fields LoadBlock_def LoadUndo_def
        index1_def indexOf_def)
  have l: "LoadIndexByHeight 0 (ch_store (secondChain chainE)) = (Inr (index0 blockE), ch_store (secondChain chainE))"
    using chainE_ledger(8) by (simp add: LoadIndexByHeight_def)
  show ?thesis
    using s l chainE_ledger(11)
    by (simp add: disconnectTip_def sbind_def readStore_def onStore_def op_simps DisconnectBlock_plain [OF off]
        word_sle_eq) (simp add: secondChain_def commitBlock_def noteWork_def SaveBlock_fields)
qed

lemma onceActive_facts:
  "fmlookup (ch_sideBlocks onceActive) (hash_String (nonce_hash 3)) = Some node2"
  "sn_parent node2 |\<notin>| fmdom (ch_sideBlocks onceActive)" "ch_tip onceActive = Some (index0 blockE)"
  "fst (activeHeight (sn_parent node2) onceActive) = None"
proof -
  obtain e where e: "disconnectTip (secondChain chainE) = (Inr (), e)" "ch_tip e = Some (index0 blockE)"
    "fs_tip (ch_store e) = Some (index0 blockE)" "fmlookup (fs_heightIndex (ch_store e)) 1 = None"
    "fmlookup (fs_blocks (ch_store e)) (hash_String (nonce_hash 2)) = Some (block_Serialize block1)"
    "fmlookup (fs_hashIndex (ch_store e)) (hash_String (nonce_hash 2)) = Some index1"
    using disconnect_second by blast
  have neq: "hash_String (nonce_hash 2) \<noteq> hash_String (nonce_hash 3)"
  proof
    assume a: "hash_String (nonce_hash 2) = hash_String (nonce_hash 3)"
    have "nonce_hash 3 = nonce_hash 2"
      by (rule hash_FromString_String_Inr) (use a hash_FromString_String [of "nonce_hash 3"] in simp)
    then show False by simp
  qed
  show "fmlookup (ch_sideBlocks onceActive) (hash_String (nonce_hash 3)) = Some node2"
    "sn_parent node2 |\<notin>| fmdom (ch_sideBlocks onceActive)" "ch_tip onceActive = Some (index0 blockE)"
    using e neq by (simp_all add: onceActive_def node2_def)
  show "fst (activeHeight (sn_parent node2) onceActive) = None"
    using e block.dec_enc [of block1 "[]"] chainE_ledger(11)
    by (simp add: activeHeight_def onceActive_def node2_def LoadBlock_def LoadIndexByHeight_def
        repairHeightIndexFromTip_def index1_def indexOf_def word_sless_alt)
qed

end
