(* ===== verification/ChainProperties.thy ===== *)
theory ChainProperties
  imports SampleChain Reorg
begin

text \<open>Properties of the chain, its ledger, the orphan pool and side branches.\<close>

section \<open>The ledger\<close>

text \<open>
  C1. No inflation. In every state a node can reach, by any sequence of blocks, proposals,
  header batches, disconnections, restarts and crashes while a block is stored, the total of
  the UTXO set that \<open>UTXOStats\<close> reports is at most the sum of the subsidies up to the tip's
  height, and at most \<open>MaxMoney\<close>.
\<close>

theorem ledger_supply:
  assumes "reachable E S c" "env_ok E S" "finite S" "card S \<le> 2 ^ 31"
  shows "\<exists>tip n. ch_tip c = Some tip \<and> ix_Height tip = of_nat n \<and> n < 2 ^ 31 \<and>
    sint (st_Total (UTXOStats_of (ch_store c))) \<le> (\<Sum>h\<le>n. sint (BlockSubsidy (of_nat h))) \<and>
    sint (st_Total (UTXOStats_of (ch_store c))) \<le> sint MaxMoney"
  by (rule reachable_supply [OF assms])

theorem ledger_supply_witness:
  "sint (st_Total (UTXOStats_of (ch_store chain0))) \<le> 5000000000"
proof -
  have "card {block0, block1} \<le> 2 ^ 31" using card_insert_le_m1 [of 2 "{block1}" block0] by simp
  from ledger_supply [OF sample_reachable sample_env_ok _ this] obtain n where
    n: "0 = (of_nat n :: i32)" "n < 2 ^ 31"
    "sint (st_Total (UTXOStats_of (ch_store chain0))) \<le> (\<Sum>h\<le>n. sint (BlockSubsidy (of_nat h)))" by auto
  have "n = 0" using n(1,2) dvd_imp_le [of "2 ^ 32" n] by (auto simp: word_of_nat_eq_0_iff eq_commute [of 0])
  with n(3) show ?thesis by (simp add: BlockSubsidy_sint)
qed

text \<open>
  C2. The chain is a stack of blocks. In a state whose active chain is \<open>ls\<close> (every block
  stored with its undo data, linked by header hashes, the UTXO set rewinding along it within
  the supply, disk and memory agreeing on the tip), connecting a block pushes it,
  disconnecting pops, and an operation that fails leaves the chain as it was.
\<close>

theorem chain_refines_stack:
  assumes "ledger E S ls c" "ls \<noteq> []" "blocks_ok E S" "block \<in> S"
  shows "(case connectBlock E now block c of
      (Inr _, d) \<Rightarrow> \<exists>hash u. en_HashHeader E (bk_Header block) = Some hash \<and>
        ledger E S ((hash_String hash, block, u) # ls) d
    | (Inl _, d) \<Rightarrow> ledger E S ls d) \<and>
    (case disconnectTip c of
      (Inr _, d) \<Rightarrow> tl ls \<noteq> [] \<and> ledger E S (tl ls) d
    | (Inl _, d) \<Rightarrow> ledger E S ls d)"
  (is "?connect \<and> ?disconnect")
proof
  show ?connect
    using connect_ledger [OF assms] quiet_ledger [OF assms(1)] connectBlock_Inl
    by (auto split: prod.splits sum.splits)
  show ?disconnect
    using disconnect_ledger [OF assms(1)] by (auto split: prod.splits sum.splits)
qed

theorem chain_refines_stack_witness:
  "\<exists>l u. ledger env0 {block0, block1} [(hash_String (nonce_hash 2), block1, u), l] (secondChain chain0)"
proof -
  obtain l where l: "ledger env0 {block0, block1} [l] chain0"
    using firstChain_ledger [OF first_blocks_ok(1) sample_validates(1)] by (auto simp: chain0_def)
  have "blocks_ok env0 {block0, block1}" using sample_env_ok by (simp add: env_ok_def)
  from chain_refines_stack [OF l _ this, of block1 2000] show ?thesis
    by (intro exI [of _ l]) (auto simp: block1_on_genesis)
qed

text \<open>
  C3. A block connects only if it passes every check: transactions, Merkle root, parent and
  median time of the tip, future time, required bits, proof of work; then it becomes the tip
  in memory and on disk, is stored under its hash, and the UTXO set changes by the validated
  spends and additions.
\<close>

theorem block_acceptance:
  assumes "connectBlock E now block c = (Inr u, d)"
  shows "bk_Transactions block \<noteq> [] \<and> BuildMerkleRoot block = hd_MerkleRoot (bk_Header block) \<and>
    extendsTip block c \<and> hd_Timestamp (bk_Header block) \<le> now + MaxFutureDriftSeconds \<and>
    fst (nextRequiredBits E c) = Inr (hd_Bits (bk_Header block)) \<and>
    (\<exists>hash work adds spends spent.
       en_HashHeader E (bk_Header block) = Some hash \<and>
       CheckProofOfWork hash (hd_Bits (bk_Header block)) = Inr () \<and>
       validateBlockTransactions (en_crypto E) (storedUTXO (ch_store c)) block (childHeight c) =
         Inr (adds, spends, spent) \<and>
       ch_tip d = Some (indexOf block (childHeight c) hash (tipHash c) work) \<and> fs_tip (ch_store d) = ch_tip d \<and>
       fmlookup (fs_blocks (ch_store d)) (hash_String hash) = Some (block_Serialize block) \<and>
       fmlookup (ch_work d) (hash_String hash) = Some work \<and>
       fs_utxo (ch_store d) = connectUTXO adds spends (fs_utxo (ch_store c)))"
proof -
  obtain idx work adds spends spent e where
    v: "validateActiveBlock E now block c = (Inr (idx, work, adds, spends, spent), e)"
    and d: "d = commitBlock block idx work adds spends spent e" using connectBlock_Inr [OF assms] .
  note i = validateActiveBlock_Inr [OF v]
  then have "fs_utxo (ch_store e) = fs_utxo (ch_store c)"
    using same_but_indexes_fields(3) by (auto simp: quiet_def sameChain_def same_store_def)
  with i show ?thesis
    by (auto simp: d commitBlock_def noteWork_def SaveBlock_fields maxFutureTime_def indexOf_def)
qed

theorem block_acceptance_witness:
  "extendsTip block1 chain0 \<and> fst (nextRequiredBits env0 chain0) = Inr 0x207fffff \<and>
   fmlookup (fs_blocks (ch_store (secondChain chain0))) (hash_String (nonce_hash 2)) = Some (block_Serialize block1)"
  using block_acceptance [OF block1_on_genesis] by auto

text \<open>
  C4. Every spend of a connected block is authorised: each input of each transaction but the
  coinbase spends an entry that is unspent on the active chain or created in the block, is
  mature when it is a coinbase output, and whose script the input's signature script
  satisfies; no outpoint is spent twice in the block.
\<close>

theorem spends_authorised:
  assumes "connectBlock E now block c = (Inr u, d)"
  shows "(\<forall>tx\<in>set (tl (bk_Transactions block)). \<forall>j<length (tx_TxIn tx). \<exists>prev pk.
      (storedUTXO (ch_store c) (op_key (PreviousOutPoint (tx_TxIn tx ! j))) = Some prev \<or>
        (\<exists>tx'\<in>set (bk_Transactions block). \<exists>cb. prev \<in> set (createdOutputs (childHeight c) cb tx')) \<and>
        ut_Key prev = op_key (PreviousOutPoint (tx_TxIn tx ! j))) \<and>
      (ut_Coinbase prev \<longrightarrow> CoinbaseMaturity \<le>s childHeight c - ut_Height prev) \<and>
      hex_decode (ut_PkScript prev) = Some pk \<and> VerifyInput (en_crypto E) tx (int j) pk = Inr ()) \<and>
    distinct (concat (map (\<lambda>tx. map (\<lambda>inp. op_key (PreviousOutPoint inp)) (tx_TxIn tx)) (tl (bk_Transactions block))))"
proof -
  obtain adds spends spent where
    "validateBlockTransactions (en_crypto E) (storedUTXO (ch_store c)) block (childHeight c) = Inr (adds, spends, spent)"
    using connectBlock_Inr [OF assms] validateActiveBlock_Inr by metis
  from validate_spends [OF this] show ?thesis
    by (auto simp: spends_ok_def created_in_def in_key_def comp_def cong: map_cong)
qed

theorem spends_authorised_witness:
  "distinct (concat (map (\<lambda>tx. map (\<lambda>inp. op_key (PreviousOutPoint inp)) (tx_TxIn tx)) (tl (bk_Transactions block1))))"
  using conjunct2 [OF spends_authorised [OF block1_on_genesis]] .

text \<open>
  C34. A block that is rejected, by whatever check, leaves the node as it was: tip, UTXO set,
  stored blocks, hash index, undo data, journal, orphans and side blocks.
\<close>

theorem reject_leaves_chain:
  assumes "connectBlock E now block c = (Inl e, d)"
  shows "ch_tip d = ch_tip c \<and> fs_tip (ch_store d) = fs_tip (ch_store c) \<and>
    fs_utxo (ch_store d) = fs_utxo (ch_store c) \<and> fs_blocks (ch_store d) = fs_blocks (ch_store c) \<and>
    fs_hashIndex (ch_store d) = fs_hashIndex (ch_store c) \<and> fs_undo (ch_store d) = fs_undo (ch_store c) \<and>
    fs_journal (ch_store d) = fs_journal (ch_store c) \<and>
    ch_orphanByHash d = ch_orphanByHash c \<and> ch_orphanOrder d = ch_orphanOrder c \<and>
    fmmap sn_block (ch_sideBlocks d) = fmmap sn_block (ch_sideBlocks c)"
  using connectBlock_Inl [OF assms] same_but_indexes_fields
  by (auto simp: quiet_def sameChain_def same_store_def samePools_def)

theorem reject_leaves_chain_witness:
  "ch_tip (snd (connectBlock env0 2000 (block1\<lparr>bk_Transactions := []\<rparr>) chain0)) = Some (index0 block0)"
  using reject_leaves_chain [of env0 2000 "block1\<lparr>bk_Transactions := []\<rparr>" chain0 ErrNoTransactions chain0]
  by (simp add: connectBlock_def validateActiveBlock_def sbind_def op_simps)

section \<open>Undoing a block\<close>

text \<open>
  C33. Disconnecting undoes connecting: after a block whose outputs are new to the UTXO set was
  connected, and while the height index has its parent, \<open>disconnectTip\<close> succeeds and tip, stored
  tip, UTXO set and pools are those before.
\<close>

theorem connect_then_disconnect:
  assumes "ledger E S ls c" "ls \<noteq> []" "blocks_ok E S" "block \<in> S"
    "connectBlock E now block c = (Inr u, d)" "fresh_outputs block (ch_store c)"
    "ch_tip c = Some tip" "0 <s ix_Height tip + 1"
    "en_HashHeader E (bk_Header block) = Some x" "hash_ok x"
    "fmlookup (fs_heightIndex (ch_store d)) (ix_Height tip) = Some tip"
  shows "\<exists>e. disconnectTip d = (Inr (), e) \<and> ch_tip e = ch_tip c \<and> fs_tip (ch_store e) = fs_tip (ch_store c) \<and>
    fs_utxo (ch_store e) = fs_utxo (ch_store c) \<and> samePools c e"
  using connect_disconnect [OF assms] .

theorem connect_then_disconnect_witness:
  "\<exists>e. disconnectTip (secondChain chainE) = (Inr (), e) \<and> ch_tip e = Some (index0 blockE) \<and>
     fs_utxo (ch_store e) = fmempty"
  using connect_then_disconnect [OF chainE_ledger(1) _ chainE_ledger(2) _ chainE_ledger(3,4), of "index0 blockE" "nonce_hash 2"]
  by (auto simp: chainE_ledger word_sless_alt)



text \<open>
  A disconnect that was interrupted after its journal was written, at any step up to the new
  tip, is completed at the next start: recovery returns what the uninterrupted disconnect
  returns, in the same state, whatever the optional indexes.
\<close>

theorem interrupted_disconnect_completes:
  "recoverJournal (exec (take n (applyDisconnect_steps prevTip undo))
     (writeJournal (disconnectJournal hash prevTip undo) s)) = DisconnectBlock hash (Some prevTip) undo s"
  by (rule disconnect_recovers) (rule refl)

section \<open>Side branches and orphans\<close>

text \<open>
  C32. Reorganisations are atomic. On a chain with block hashes \<open>ls\<close> and no orphans waiting,
  \<open>reorganize\<close> either succeeds, and then the chain is the side branch on top of the fork
  block, or fails, and then it has restored the chain it started from, block by block,
  unless it reports that restoring failed.
\<close>

theorem reorganize_atomic:
  assumes "ledger E S ls c" "ls \<noteq> []" "ch_orphanByHash c = fmempty" "length ls \<le> 2 ^ 31"
    "blocks_ok E S" "sn_block ` set attachRev \<subseteq> S"
    "reorganize E now attachRev forkHash forkHeight c = (r, d)"
  shows "case r of
      Inr _ \<Rightarrow> \<exists>ls' k. ledger E S ls' d \<and>
        map fst ls' = map (hashText E \<circ> sn_block) attachRev @ drop k (map fst ls) \<and>
        drop k (map fst ls) \<noteq> [] \<and> hd (drop k (map fst ls)) = forkHash
    | Inl e \<Rightarrow> e = ErrRestore \<or> (\<exists>ls'. ledger E S ls' d \<and> map fst ls' = map fst ls)"
  by (rule calm_reorganize [OF _ assms(4-7)]) (use assms in \<open>simp add: calm_def\<close>)

theorem reorganize_atomic_witness:
  "\<exists>ls d. reorganize env0 2000 [node1] (hash_String (nonce_hash 1)) 0 chain0 = (Inr (), d) \<and>
     ledger env0 {block0, block1} ls d \<and>
     map fst ls = [hash_String (nonce_hash 2), hash_String (nonce_hash 1)]"
proof -
  obtain d where d: "reorganize env0 2000 [node1] (hash_String (nonce_hash 1)) 0 chain0 = (Inr (), d)"
    using sample_reorganize by blast
  from reorganize_atomic [OF sample_ledger _ _ _ _ _ d] obtain ls k where
    "ledger env0 {block0, block1} ls d"
    "map fst ls = hash_String (nonce_hash 2) # drop k [hash_String (nonce_hash 1)]"
    "drop k [hash_String (nonce_hash 1)] \<noteq> []"
    using sample_blocks [OF first_blocks_ok(1)] sample_reorganize
    by (auto simp: node1_def hashText_def)
  moreover from this(3) have "k = 0" by (cases k) auto
  ultimately show ?thesis using d by auto
qed

text \<open>
  C35. Only more work moves the chain: if \<open>tryActivateSideChain\<close> changes anything but caches,
  then the side block is known, and its chain work is known and larger than that of the tip.
\<close>

theorem activation_needs_more_work:
  assumes "tryActivateSideChain E now h c = (r, d)" "\<not> quiet c d"
  shows "\<exists>node tip w active. fmlookup (ch_sideBlocks c) h = Some node \<and> ch_tip c = Some tip \<and>
    sn_chainwork node = Some w \<and> fst (chainworkForHash (ix_Hash tip) c) = Inr active \<and> active < w"
  by (rule activate_only_more_work [OF assms])

theorem activation_needs_more_work_witness:
  "\<exists>active. fst (chainworkForHash (hash_String (nonce_hash 1)) sideChain0) = Inr active \<and> active < work0 + work0"
proof -
  obtain r d where d: "tryActivateSideChain env0 2000 (hash_String (nonce_hash 2)) sideChain0 = (r, d)" "\<not> quiet sideChain0 d"
    using sample_activates by blast
  from activation_needs_more_work [OF d] show ?thesis by (auto simp: sideChain0_def node1_def)
qed

text \<open>
  The path to the fork leads through side blocks only: a side branch that starts at a block
  which is stored but no longer active, and is not a side block, is not activated, whatever
  its chain work.
\<close>

theorem stored_branch_ignored:
  assumes "fmlookup (ch_sideBlocks c) h = Some node" "sn_parent node |\<notin>| fmdom (ch_sideBlocks c)"
    "fst (activeHeight (sn_parent node) c) = None" "tryActivateSideChain E now h c = (r, d)"
  shows "quiet c d \<and> ch_tip d = ch_tip c"
  using stored_branch_stays [OF assms] by (simp add: quiet_def sameChain_def)

theorem stored_branch_ignored_witness:
  "ch_tip (snd (tryActivateSideChain env0 2000 (hash_String (nonce_hash 3)) onceActive)) = Some (index0 blockE)"
  using stored_branch_ignored [OF onceActive_facts(1,2,4), of env0 2000] onceActive_facts(3)
  by (cases "tryActivateSideChain env0 2000 (hash_String (nonce_hash 3)) onceActive") simp

text \<open>
  The orphan pool is bounded and consistent in every reachable state: at most 128 blocks
  wait, the order list names each exactly once, and every waiting block has a recorded parent.
\<close>

theorem orphan_pool_bounded:
  assumes "reachable E S c"
  shows "OrphanCount c \<le> 128 \<and> distinct (ch_orphanOrder c) \<and>
    set (ch_orphanOrder c) = fset (fmdom (ch_orphanByHash c)) \<and>
    fmdom (ch_orphanParent c) = fmdom (ch_orphanByHash c)"
proof -
  have p: "pool_ok c" by (rule reachable_pool [OF assms])
  then have "OrphanCount c = length (ch_orphanOrder c)"
    by (simp add: OrphanCount_def pool_ok_def fcard.rep_eq distinct_card flip: distinct_card)
  with p show ?thesis by (simp add: pool_ok_def MaxOrphanBlocks_def)
qed

theorem orphan_pool_bounded_witness: "OrphanCount chain0 \<le> 128"
  using orphan_pool_bounded [OF sample_reachable] by simp

text \<open>
  Connecting waiting orphans ends: the loop needs no more rounds than there are orphans,
  plus one; any further allowance changes nothing.
\<close>

theorem orphan_loop_ends:
  "accept_queue (fcard (fmdom (ch_orphanByHash c)) + 1 + k) E now [parentHash] c =
     acceptOrphanChildren E now parentHash c"
  unfolding acceptOrphanChildren_def by (rule accept_queue_fuel) simp_all

text \<open>
  Looking up a height ends: with stored heights that decrease from block to parent, the walk
  that repairs the height index from the tip returns an index or an error.
\<close>

theorem height_lookup_ends:
  assumes "heights_decrease s"
  shows "fst (LoadIndexByHeight height s) \<noteq> Inl ErrDiverges"
  by (rule LoadIndexByHeight_returns [OF assms])

theorem height_lookup_ends_witness:
  "fst (LoadIndexByHeight 5 (ch_store chain0)) \<noteq> Inl ErrDiverges"
  by (rule height_lookup_ends [OF sample_heights])

end
