(* ===== verification/MempoolPolicy.thy ===== *)
theory MempoolPolicy
  imports ScriptVerify ChainTypes "HOL-Library.Signed_Division"
begin

text \<open>
  The relay policy of \<^verbatim>\<open>internal/mempool/mempool.go\<close>: its own reader of pushes, the
  signature and key encodings it requires, standard outputs, fees and replacement.
  Sizes are Go's \<open>int\<close>, fees \<open>int64\<close> words.
\<close>

datatype mempool_error =
    MpNoInputsOrOutputs | MpCoinbase | MpConfirmed string | MpBadOutputValue | MpBadOutputSum
  | MpNonFinal | MpDuplicateInput | MpTaken string | MpImmature | MpBadHex | MpScript script_error
  | MpSigOps | MpBadInputSum | MpInputsLess
  | MpBadPush | MpBadSignatureScript | MpBadDER | MpHighS | MpUncompressed | MpBadP2SH
  | MpMalformedRedeem | MpP2SHArgs | MpP2SHRedeem | MpPushTooLarge | MpBadMultiSig | MpMultiSigTemplate
  | MpKeyEncoding | MpMofN | MpBadHybrid
  | MpTxSize int | MpSigScriptSize nat | MpMalformedPkScript | MpDust i64 | MpNonStandard
  | MpFee | MpFull | MpAlready | MpReplacement | MpAncestors nat | MpOrphan | MpDiverges

section \<open>Constants\<close>

definition rbfEnabled :: bool where "rbfEnabled = False"
definition DefaultMaxTransactions :: int where "DefaultMaxTransactions = 50000"
definition MinRelayFeePerKB :: i64 where "MinRelayFeePerKB = 1000"
definition IncrementalRelayFeeKB :: i64 where "IncrementalRelayFeeKB = 1000"
definition DefaultMaxOrphans :: int where "DefaultMaxOrphans = 100"
definition MaxAncestorDepth :: nat where "MaxAncestorDepth = 25"
definition MaxStandardTxSize :: int where "MaxStandardTxSize = 100000"
definition MaxStandardSigScript :: nat where "MaxStandardSigScript = 6000"
definition DustThreshold :: i64 where "DustThreshold = 546"

section \<open>Reading pushes\<close>

text \<open>
  \<open>bytes.Reader.Read\<close> reports the end of the input also for an empty slice: an empty push
  at the very end of a script is an error here.
\<close>

definition read_byte_mp :: "(mempool_error, byte) reader" where
  "read_byte_mp bs = (case bs of [] \<Rightarrow> Inl MpBadPush | b # r \<Rightarrow> Inr (b, r))"

definition readScriptPushData :: "(mempool_error, bytes) reader" where
  "readScriptPushData =
     rbind read_byte_mp (\<lambda>op.
     rbind (if op = OP_0 then ret 0
            else if 1 \<le> op \<and> op \<le> 75 then ret (unat op)
            else if op = OP_PUSHDATA1 then rbind read_byte_mp (\<lambda>n. ret (unat n))
            else if op = OP_PUSHDATA2
            then rbind read_byte_mp (\<lambda>lo. rbind read_byte_mp (\<lambda>hi. ret (unat lo + 256 * unat hi)))
            else failr MpBadPush) (\<lambda>size bs.
       if size > unat MaxScriptSize \<or> size > length bs then Inl MpBadPush
       else if bs = [] then Inl MpBadPush
       else Inr (take size bs, drop size bs)))"

text \<open>Every push takes at least its opcode; the inner test is there for the termination proof.\<close>

function parsePushOnlyScript :: "bytes \<Rightarrow> mempool_error + bytes list" where
  "parsePushOnlyScript bs =
     (if bs = [] then Inr []
      else (case readScriptPushData bs of Inl e \<Rightarrow> Inl e
        | Inr (d, r) \<Rightarrow>
          (if length r < length bs
           then (case parsePushOnlyScript r of Inl e \<Rightarrow> Inl e | Inr ds \<Rightarrow> Inr (d # ds))
           else Inr [])))"
  by pat_completeness auto
termination
  by (relation "measure length") auto

declare parsePushOnlyScript.simps [simp del]

definition encodePushData :: "bytes \<Rightarrow> mempool_error + bytes" where
  "encodePushData data =
     (if length data > unat MaxScriptSize then Inl MpPushTooLarge
      else if length data \<le> 75 then Inr (of_nat (length data) # data)
      else if length data \<le> 255 then Inr (OP_PUSHDATA1 # of_nat (length data) # data)
      else Inr (OP_PUSHDATA2 # of_nat (length data) # of_nat (length data div 256) # data))"

section \<open>Signatures and keys\<close>

definition hasLowSSignatureBytes :: "crypto \<Rightarrow> bytes \<Rightarrow> mempool_error + bool" where
  "hasLowSSignatureBytes C sigWithHashType =
     (if length sigWithHashType < 2 then Inl MpBadSignatureScript
      else (case cr_ParseDERSignature C (butlast sigWithHashType) of None \<Rightarrow> Inl MpBadDER
        | Some parsed \<Rightarrow> Inr (cr_SerializeSignature C parsed = butlast sigWithHashType)))"

definition hasLowSSignature :: "crypto \<Rightarrow> bytes \<Rightarrow> mempool_error + bool" where
  "hasLowSSignature C sigScript =
     (case readScriptPushData sigScript of Inl _ \<Rightarrow> Inl MpBadSignatureScript
      | Inr (sig, _) \<Rightarrow> if sig = [] then Inl MpBadSignatureScript else hasLowSSignatureBytes C sig)"

text \<open>The check that every caller makes of the answer.\<close>

definition requireLowS :: "mempool_error + bool \<Rightarrow> mempool_error + unit" where
  "requireLowS r = (case r of Inl e \<Rightarrow> Inl e | Inr lowS \<Rightarrow> if \<not> lowS then Inl MpHighS else Inr ())"

definition isCompressedP2PKHPubKey :: "bytes \<Rightarrow> mempool_error + bool" where
  "isCompressedP2PKHPubKey sigScript =
     (case readScriptPushData sigScript of Inl _ \<Rightarrow> Inl MpBadSignatureScript
      | Inr (sig, r) \<Rightarrow>
        if sig = [] then Inl MpBadSignatureScript
        else (case readScriptPushData r of Inl _ \<Rightarrow> Inl MpBadSignatureScript
          | Inr (pub, r') \<Rightarrow>
            if r' \<noteq> [] then Inl MpBadSignatureScript
            else if length pub \<noteq> 33 then Inr False
            else Inr (pub ! 0 = 0x02 \<or> pub ! 0 = 0x03)))"

definition requireCompressed :: "mempool_error + bool \<Rightarrow> mempool_error + unit" where
  "requireCompressed r = (case r of Inl e \<Rightarrow> Inl e | Inr ok \<Rightarrow> if \<not> ok then Inl MpUncompressed else Inr ())"

fun checkAllLowS :: "crypto \<Rightarrow> bytes list \<Rightarrow> mempool_error + unit" where
  "checkAllLowS C [] = Inr ()"
| "checkAllLowS C (a # args) =
     (case requireLowS (hasLowSSignatureBytes C a) of Inl e \<Rightarrow> Inl e | Inr _ \<Rightarrow> checkAllLowS C args)"

definition checkMultiSigArgsLowS :: "crypto \<Rightarrow> bytes list \<Rightarrow> mempool_error + unit" where
  "checkMultiSigArgsLowS C args =
     (let rest = (if args \<noteq> [] \<and> hd args = [] then tl args else args)
      in if rest = [] then Inl MpBadMultiSig else checkAllLowS C rest)"

definition checkMultiSigInputPolicy :: "crypto \<Rightarrow> bytes \<Rightarrow> mempool_error + unit" where
  "checkMultiSigInputPolicy C sigScript =
     (case parsePushOnlyScript sigScript of Inl _ \<Rightarrow> Inl MpBadMultiSig
      | Inr pushes \<Rightarrow> if pushes = [] then Inl MpBadMultiSig else checkMultiSigArgsLowS C pushes)"

fun checkKeysCompressed :: "bytes list \<Rightarrow> mempool_error + unit" where
  "checkKeysCompressed [] = Inr ()"
| "checkKeysCompressed (pub # pubs) =
     (if length pub \<noteq> 33 then Inl MpUncompressed
      else if pub ! 0 \<noteq> 0x02 \<and> pub ! 0 \<noteq> 0x03 then Inl MpKeyEncoding
      else checkKeysCompressed pubs)"

definition checkMultiSigPubKeysCompressed :: "bytes \<Rightarrow> mempool_error + unit" where
  "checkMultiSigPubKeysCompressed multisigScript =
     (case MultiSigPubKeys multisigScript of None \<Rightarrow> Inl MpMultiSigTemplate
      | Some pubs \<Rightarrow> checkKeysCompressed pubs)"

definition checkStandardBareMultiSig :: "bytes \<Rightarrow> mempool_error + unit" where
  "checkStandardBareMultiSig multisigScript =
     (case MultiSigParams multisigScript of None \<Rightarrow> Inl MpMultiSigTemplate
      | Some (m, n) \<Rightarrow>
        if m < 1 \<or> n < 1 \<or> n > 3 \<or> m > n then Inl MpMofN
        else checkMultiSigPubKeysCompressed multisigScript)"

definition checkP2SHPolicy :: "crypto \<Rightarrow> bytes \<Rightarrow> mempool_error + unit" where
  "checkP2SHPolicy C sigScript =
     (case parsePushOnlyScript sigScript of Inl _ \<Rightarrow> Inl MpBadP2SH
      | Inr pushes \<Rightarrow>
        if pushes = [] then Inl MpBadP2SH
        else
          let redeem = last pushes; args = butlast pushes in
          (case ValidateScriptStructure redeem of Inl _ \<Rightarrow> Inl MpMalformedRedeem
           | Inr _ \<Rightarrow>
             if IsPayToPubKeyHash redeem then
               if length args \<noteq> 2 then Inl MpP2SHArgs
               else
                 (case encodePushData (args ! 0) of Inl e \<Rightarrow> Inl e
                  | Inr sigPush \<Rightarrow>
                    (case requireLowS (hasLowSSignature C sigPush) of Inl e \<Rightarrow> Inl e
                     | Inr _ \<Rightarrow>
                       (case encodePushData (args ! 1) of Inl e \<Rightarrow> Inl e
                        | Inr pubPush \<Rightarrow> requireCompressed (isCompressedP2PKHPubKey (sigPush @ pubPush)))))
             else if IsPayToPubKey redeem then
               if length args \<noteq> 1 then Inl MpP2SHArgs
               else
                 (case encodePushData (args ! 0) of Inl e \<Rightarrow> Inl e
                  | Inr sigPush \<Rightarrow> requireLowS (hasLowSSignature C sigPush))
             else if IsPayToMultiSig redeem then
               (case checkStandardBareMultiSig redeem of Inl e \<Rightarrow> Inl e
                | Inr _ \<Rightarrow> checkMultiSigArgsLowS C args)
             else Inl MpP2SHRedeem))"

definition checkHybridInputPolicy :: "crypto \<Rightarrow> bytes \<Rightarrow> mempool_error + unit" where
  "checkHybridInputPolicy C sigScript =
     (case parsePushOnlyScript sigScript of Inl _ \<Rightarrow> Inl MpBadHybrid
      | Inr pushes \<Rightarrow>
        if length pushes \<noteq> 4 then Inl MpBadHybrid
        else
          (case requireLowS (hasLowSSignatureBytes C (pushes ! 0)) of Inl e \<Rightarrow> Inl e
           | Inr _ \<Rightarrow>
             if length (pushes ! 2) \<noteq> 33 \<or> (pushes ! 2 ! 0 \<noteq> 0x02 \<and> pushes ! 2 ! 0 \<noteq> 0x03)
             then Inl MpKeyEncoding
             else if length (pushes ! 1) \<noteq> cr_MLDSASignatureSize C then Inl MpBadHybrid
             else if length (pushes ! 3) \<noteq> cr_MLDSAPublicKeySize C then Inl MpBadHybrid
             else Inr ()))"

text \<open>The policy for an input, by the template of the output it spends.\<close>

definition checkInputPolicy :: "crypto \<Rightarrow> bytes \<Rightarrow> bytes \<Rightarrow> mempool_error + unit" where
  "checkInputPolicy C sigScript prevScript =
     (if IsPayToPubKeyHash prevScript then
        (case requireLowS (hasLowSSignature C sigScript) of Inl e \<Rightarrow> Inl e
         | Inr _ \<Rightarrow> requireCompressed (isCompressedP2PKHPubKey sigScript))
      else if IsPayToPubKey prevScript then requireLowS (hasLowSSignature C sigScript)
      else if IsPayToMultiSig prevScript then
        (case checkMultiSigPubKeysCompressed prevScript of Inl e \<Rightarrow> Inl e
         | Inr _ \<Rightarrow> checkMultiSigInputPolicy C sigScript)
      else if IsPayToScriptHash prevScript then checkP2SHPolicy C sigScript
      else if IsPayToHybridPubKeyHash prevScript then checkHybridInputPolicy C sigScript
      else Inr ())"

section \<open>Standard transactions\<close>

fun checkStandardInputs :: "TxIn list \<Rightarrow> mempool_error + unit" where
  "checkStandardInputs [] = Inr ()"
| "checkStandardInputs (inp # ins) =
     (let n = length (SignatureScript inp) in
      if n = 0 \<or> n > MaxStandardSigScript then Inl (MpSigScriptSize n) else checkStandardInputs ins)"

definition isStandardScript :: "bytes \<Rightarrow> bool" where
  "isStandardScript pk \<longleftrightarrow>
     IsPayToPubKeyHash pk \<or> IsPayToPubKey pk \<or> IsPayToScriptHash pk \<or> IsPayToHybridPubKeyHash pk \<or>
     (IsPayToMultiSig pk \<and> checkStandardBareMultiSig pk = Inr ())"

fun checkStandardOutputs :: "TxOut list \<Rightarrow> mempool_error + unit" where
  "checkStandardOutputs [] = Inr ()"
| "checkStandardOutputs (out # outs) =
     (if out_Value out <s 0 \<or> \<not> MoneyRange (out_Value out) then Inl MpBadOutputValue
      else if ValidateScriptStructure (out_PkScript out) \<noteq> Inr () then Inl MpMalformedPkScript
      else if out_Value out <s DustThreshold then Inl (MpDust (out_Value out))
      else if \<not> isStandardScript (out_PkScript out) then Inl MpNonStandard
      else checkStandardOutputs outs)"

definition checkStandardness :: "MsgTx \<Rightarrow> int \<Rightarrow> mempool_error + unit" where
  "checkStandardness tx sz =
     (if sz \<le> 0 \<or> sz > MaxStandardTxSize then Inl (MpTxSize sz)
      else (case checkStandardInputs (tx_TxIn tx) of Inl e \<Rightarrow> Inl e
        | Inr _ \<Rightarrow> checkStandardOutputs (tx_TxOut tx)))"

section \<open>Fees\<close>

text \<open>Go's division truncates towards zero.\<close>

definition div64 :: "i64 \<Rightarrow> i64 \<Rightarrow> i64" where
  "div64 a b = of_int (sint a sdiv sint b)"

definition MeetsMinRelayFee :: "i64 \<Rightarrow> int \<Rightarrow> bool" where
  "MeetsMinRelayFee fee sz =
     (if sz \<le> 0 then False
      else div64 (of_int sz * MinRelayFeePerKB + 999) 1000 \<le>s fee)"

definition feeRatePerKB :: "i64 \<Rightarrow> int \<Rightarrow> i64" where
  "feeRatePerKB fee sz =
     (if sz \<le> 0 then 0 else div64 (fee * 1000 + of_int sz - 1) (of_int sz))"

definition signalsOptInRBF :: "MsgTx \<Rightarrow> bool" where
  "signalsOptInRBF tx \<longleftrightarrow> list_ex (\<lambda>inp. Sequence inp < 0xfffffffe) (tx_TxIn tx)"

text \<open>The minimum relay fee is the size, in bytes, at one unit per byte, exactly.\<close>

lemma sint_i64: "- (2 ^ 63) \<le> n \<Longrightarrow> n < 2 ^ 63 \<Longrightarrow> sint (of_int n :: i64) = n"
  by (simp add: signed_of_int signed_take_bit_int_eq_self)

lemma sdiv_nonneg: "0 \<le> a \<Longrightarrow> 0 < b \<Longrightarrow> a sdiv b = a div (b :: int)"
  by (cases "a = 0") (simp_all add: signed_divide_int_def)

lemma MeetsMinRelayFee_exact:
  assumes "0 < sz" "sz \<le> MaxStandardTxSize"
  shows "MeetsMinRelayFee fee sz \<longleftrightarrow> sz \<le> sint fee"
proof -
  have "sint (of_int sz * MinRelayFeePerKB + 999) = sz * 1000 + 999"
    using sint_i64 [of "sz * 1000 + 999"] assms by (simp add: MinRelayFeePerKB_def MaxStandardTxSize_def)
  moreover have "(sz * 1000 + 999) div 1000 = sz" by simp
  ultimately have "sint (div64 (of_int sz * MinRelayFeePerKB + 999) 1000) = sz"
    using assms sint_i64 [of sz] by (simp add: div64_def sdiv_nonneg MaxStandardTxSize_def)
  then show ?thesis using assms(1) by (simp add: MeetsMinRelayFee_def word_sle_eq)
qed

text \<open>The fee rate rounds up and does not overflow for any fee in the money range.\<close>

lemma feeRatePerKB_exact:
  assumes "0 < sz" "sz \<le> MaxStandardTxSize" "0 \<le> sint fee" "sint fee \<le> sint MaxMoney"
  shows "sint (feeRatePerKB fee sz) = (sint fee * 1000 + sz - 1) div sz"
proof -
  have m: "sint fee \<le> 2100000000000000" using assms(4) by (simp add: MaxMoney_def Coin_def)
  have "of_int (sint fee * 1000 + sz - 1) = fee * 1000 + of_int sz - 1" by simp
  then have s: "sint (fee * 1000 + of_int sz - 1) = sint fee * 1000 + sz - 1"
    using sint_i64 [of "sint fee * 1000 + sz - 1"] assms m by (simp add: MaxStandardTxSize_def)
  have n: "0 \<le> sint fee * 1000 + sz - 1" using assms by simp
  have "(sint fee * 1000 + sz - 1) div sz \<le> sint fee * 1000 + sz - 1"
    using zdiv_mono2 [OF n, of 1 sz] assms(1) by simp
  moreover have "0 \<le> (sint fee * 1000 + sz - 1) div sz"
    using assms(1) n by (simp add: pos_imp_zdiv_nonneg_iff)
  ultimately have "sint (of_int ((sint fee * 1000 + sz - 1) div sz) :: i64) = (sint fee * 1000 + sz - 1) div sz"
    using assms m by (intro sint_i64) (simp_all add: MaxStandardTxSize_def)
  then show ?thesis
    using assms sint_i64 [of sz] n by (simp add: feeRatePerKB_def div64_def s sdiv_nonneg MaxStandardTxSize_def)
qed

section \<open>The push readers agree\<close>

lemma read_byte_mp_Inr: "read_byte_mp bs = Inr (b, r) \<longleftrightarrow> bs = b # r"
  by (cases bs) (auto simp: read_byte_mp_def)

text \<open>
  A push that the policy reads is the one that script verification reads; what it refuses
  in addition is an empty push at the end.
\<close>

lemma readScriptPushData_iff:
  "readScriptPushData bs = Inr (d, r) \<longleftrightarrow> readPushData bs = Inr (d, r) \<and> (d = [] \<longrightarrow> r \<noteq> [])"
proof (cases bs)
  case Nil
  then show ?thesis by (simp add: readScriptPushData_def readPushData_def rbind_def read_byte_mp_def
        read_byte_or_bad_def read_or_bad_def)
next
  case (Cons op bs')
  define m1 :: "(mempool_error, nat) reader" where
    "m1 = (if op = OP_0 then ret 0
            else if 1 \<le> op \<and> op \<le> 75 then ret (unat op)
            else if op = OP_PUSHDATA1 then rbind read_byte_mp (\<lambda>n. ret (unat n))
            else if op = OP_PUSHDATA2
            then rbind read_byte_mp (\<lambda>lo. rbind read_byte_mp (\<lambda>hi. ret (unat lo + 256 * unat hi)))
            else failr MpBadPush)"
  define m2 :: "(script_error, nat) reader" where
    "m2 = (if 1 \<le> op \<and> op \<le> 75 then ret (unat op)
                else if op = OP_PUSHDATA1 then rbind read_byte_or_bad (\<lambda>n. ret (unat n))
                else if op = OP_PUSHDATA2
                then rbind read_byte_or_bad (\<lambda>lo. rbind read_byte_or_bad (\<lambda>hi. ret (unat lo + 256 * unat hi)))
                else failr ErrBadSignatureScript)"
  have l: "readScriptPushData bs = Inr (d, r) \<longleftrightarrow> (\<exists>n t. m1 bs' = Inr (n, t) \<and>
      n \<le> unat MaxScriptSize \<and> n \<le> length t \<and> t \<noteq> [] \<and> d = take n t \<and> r = drop n t)"
    unfolding readScriptPushData_def m1_def [symmetric]
    by (auto simp: Cons rbind_eq_Inr read_byte_mp_Inr m1_def [symmetric] not_less split: if_splits)
  have rd: "readPushData bs = Inr (d, r) \<longleftrightarrow> (if op = OP_0 then d = [] \<and> r = bs' else
      (\<exists>n t. m2 bs' = Inr (n, t) \<and> n \<le> unat MaxScriptSize \<and> n \<le> length t \<and> d = take n t \<and> r = drop n t))"
    unfolding readPushData_def m2_def [symmetric]
    by (auto simp: Cons rbind_eq_Inr read_byte_or_bad_Inr m2_def [symmetric] not_less read_or_bad_def split: if_splits)
  have m: "m1 bs' = Inr (n, t) \<longleftrightarrow> m2 bs' = Inr (n, t)" if "op \<noteq> OP_0" for n t
    using that by (auto simp: m1_def m2_def rbind_eq_Inr read_byte_mp_Inr read_byte_or_bad_Inr)
  show ?thesis
  proof (cases "op = OP_0")
    case True
    then show ?thesis unfolding l rd by (auto simp: m1_def)
  next
    case False
    then show ?thesis unfolding l rd by (auto simp: m [OF False])
  qed
qed

lemma readScriptPushData_shorter: "readScriptPushData bs = Inr (d, r) \<Longrightarrow> length r < length bs"
  using readPushData_shorter by (auto simp: readScriptPushData_iff)

lemma parsePushOnly_eq:
  "parsePushOnlyScript bs =
     (if bs = [] then Inr []
      else (case readScriptPushData bs of Inl e \<Rightarrow> Inl e
        | Inr (d, r) \<Rightarrow> (case parsePushOnlyScript r of Inl e \<Rightarrow> Inl e | Inr ds \<Rightarrow> Inr (d # ds))))"
  by (subst parsePushOnlyScript.simps) (auto dest: readScriptPushData_shorter split: sum.splits prod.splits)

lemma parsePushes_Inr_Nil: "parsePushes bs = Inr [] \<longleftrightarrow> bs = []"
  by (subst parsePushes_eq) (auto split: sum.splits prod.splits)

lemma parsePushOnly_iff:
  "parsePushOnlyScript bs = Inr ds \<longleftrightarrow> parsePushes bs = Inr ds \<and> (ds \<noteq> [] \<longrightarrow> last ds \<noteq> [])"
proof (induction "length bs" arbitrary: bs ds rule: less_induct)
  case less
  show ?case
  proof (cases "bs = []")
    case True
    then show ?thesis by (auto simp: parsePushOnly_eq)
  next
    case False
    show ?thesis
    proof (cases "readPushData bs")
      case (Inl e)
      then have "\<nexists>x. readScriptPushData bs = Inr x" using readScriptPushData_iff [of bs] by auto
      then have "\<exists>e. readScriptPushData bs = Inl e" by (cases "readScriptPushData bs") auto
      with Inl False show ?thesis by (auto simp: parsePushOnly_eq [of bs] parsePushes_eq [of bs])
    next
      case (Inr dr)
      obtain d r where r: "readPushData bs = Inr (d, r)" using Inr by (cases dr) auto
      note ih = less.hyps [OF readPushData_shorter [OF r]]
      show ?thesis
      proof (cases "d = [] \<and> r = []")
        case True
        then have "\<nexists>x. readScriptPushData bs = Inr x" using r readScriptPushData_iff [of bs] by auto
        then have "\<exists>e. readScriptPushData bs = Inl e" by (cases "readScriptPushData bs") auto
        with r True False show ?thesis by (auto simp: parsePushOnly_eq [of bs] parsePushes_eq [of bs])
      next
        case nonempty: False
        then have "readScriptPushData bs = Inr (d, r)" using r readScriptPushData_iff by auto
        with r False have e: "parsePushOnlyScript bs = (case parsePushOnlyScript r of Inl e \<Rightarrow> Inl e | Inr ds \<Rightarrow> Inr (d # ds))"
          "parsePushes bs = (case parsePushes r of Inl e \<Rightarrow> Inl e | Inr ds \<Rightarrow> Inr (d # ds))"
          by (auto simp: parsePushOnly_eq [of bs] parsePushes_eq [of bs])
        have lhs: "parsePushOnlyScript bs = Inr ds \<longleftrightarrow> (\<exists>es. parsePushOnlyScript r = Inr es \<and> ds = d # es)"
          unfolding e by (auto split: sum.splits)
        have rhs: "parsePushes bs = Inr ds \<longleftrightarrow> (\<exists>es. parsePushes r = Inr es \<and> ds = d # es)"
          unfolding e by (auto split: sum.splits)
        show ?thesis
          unfolding lhs rhs ih using nonempty parsePushes_Inr_Nil [of r] by auto
      qed
    qed
  qed
qed

end
