(* ===== verification/Mempool.thy ===== *)
theory Mempool
  imports MempoolPolicy ChainForks
begin

text \<open>
  The transaction pool (\<^verbatim>\<open>internal/mempool/mempool.go\<close>): its entries with their spent
  outpoints and their parent and child links, orphans, validation against the chain,
  admission, eviction, and removal for a block.

  Go leaves the order of a \<open>range\<close> over a map open: the operations take it as an argument, a
  function that lists a set. The pool's lock covers \<open>admit\<close>, \<open>addOrphanTx\<close> and
  \<open>RemoveForBlock\<close>; what \<open>Add\<close> does between them sees the pool of that moment.
\<close>

record Entry =
  me_Tx :: MsgTx
  me_TxID :: string
  me_Fee :: i64
  me_Size :: int

record Pool =
  po_entries :: "(string, Entry) fmap"
  po_spent :: "(string, string) fmap"
  po_parents :: "(string, string fset) fmap"
  po_childs :: "(string, string fset) fmap"
  po_maxTx :: int
  po_orphans :: "(string, MsgTx) fmap"
  po_orphRef :: "(string, string fset) fmap"
  po_maxOrph :: int

type_synonym map_order = "string fset \<Rightarrow> string list"

definition order_ok :: "map_order \<Rightarrow> bool" where
  "order_ok ord \<longleftrightarrow> (\<forall>A. distinct (ord A) \<and> set (ord A) = fset A)"

abbreviation mlen :: "('a, 'b) fmap \<Rightarrow> int" where
  "mlen m \<equiv> int (fcard (fmdom m))"

text \<open>Reading a set-valued map: a missing key is an empty set.\<close>

definition refs :: "(string, string fset) fmap \<Rightarrow> string \<Rightarrow> string fset" where
  "refs m k = (case fmlookup m k of None \<Rightarrow> {||} | Some A \<Rightarrow> A)"

text \<open>Deleting one element of such a set, and the key with the last one.\<close>

definition unref :: "string \<Rightarrow> string \<Rightarrow> (string, string fset) fmap \<Rightarrow> (string, string fset) fmap" where
  "unref k x m =
     (case fmlookup m k of None \<Rightarrow> m
      | Some A \<Rightarrow> if A |-| {|x|} = {||} then fmdrop k m else fmupd k (A |-| {|x|}) m)"

definition addref :: "string \<Rightarrow> string \<Rightarrow> (string, string fset) fmap \<Rightarrow> (string, string fset) fmap" where
  "addref k x m = fmupd k (finsert x (refs m k)) m"

definition txID :: "MsgTx \<Rightarrow> string" where
  "txID tx = hash_String (TxHash tx)"

definition inKeys :: "MsgTx \<Rightarrow> string list" where
  "inKeys tx = map (\<lambda>inp. op_key (PreviousOutPoint inp)) (tx_TxIn tx)"

definition inTxIDs :: "MsgTx \<Rightarrow> string list" where
  "inTxIDs tx = map (\<lambda>inp. hash_String (op_Hash (PreviousOutPoint inp))) (tx_TxIn tx)"

definition newPool :: Pool where
  "newPool = \<lparr>po_entries = fmempty, po_spent = fmempty, po_parents = fmempty, po_childs = fmempty,
     po_maxTx = DefaultMaxTransactions, po_orphans = fmempty, po_orphRef = fmempty,
     po_maxOrph = DefaultMaxOrphans\<rparr>"

section \<open>Orphans\<close>

definition deleteOrphan :: "string \<Rightarrow> Pool \<Rightarrow> Pool" where
  "deleteOrphan txid p =
     (case fmlookup (po_orphans p) txid of None \<Rightarrow> p
      | Some tx \<Rightarrow>
        p\<lparr>po_orphans := fmdrop txid (po_orphans p),
          po_orphRef := fold (\<lambda>key. unref key txid) (inKeys tx) (po_orphRef p)\<rparr>)"

definition addOrphanTx :: "map_order \<Rightarrow> MsgTx \<Rightarrow> string \<Rightarrow> string list \<Rightarrow> Pool \<Rightarrow> Pool" where
  "addOrphanTx ord tx txid0 missing p0 =
     (let txid = (if txid0 = [] then txID tx else txid0) in
      if txid |\<in>| fmdom (po_orphans p0) then p0
      else
        let p = (if mlen (po_orphans p0) \<ge> po_maxOrph p0
                 then (case ord (fmdom (po_orphans p0)) of [] \<Rightarrow> p0 | tid # _ \<Rightarrow> deleteOrphan tid p0)
                 else p0)
        in p\<lparr>po_orphans := fmupd txid tx (po_orphans p),
             po_orphRef := fold (\<lambda>dep. addref dep txid) missing (po_orphRef p)\<rparr>)"

section \<open>Removing entries\<close>

text \<open>The end of \<open>removeEntryLocked\<close>: unlink the entry from its parents and drop it.\<close>

definition detach :: "map_order \<Rightarrow> string \<Rightarrow> Entry \<Rightarrow> Pool \<Rightarrow> Pool" where
  "detach ord txid entry p =
     p\<lparr>po_childs := fmdrop txid (fold (\<lambda>parent. unref parent txid) (ord (refs (po_parents p) txid)) (po_childs p)),
       po_parents := fmdrop txid (po_parents p),
       po_spent := fold fmdrop (inKeys (me_Tx entry)) (po_spent p),
       po_entries := fmdrop txid (po_entries p)\<rparr>"

text \<open>
  The descendants go first. Links lead from older to newer entries, so the recursion is no
  deeper than there are entries (\<open>removeEntry_fuel\<close>).
\<close>

fun removeEntryF :: "nat \<Rightarrow> map_order \<Rightarrow> bool \<Rightarrow> string \<Rightarrow> Pool \<Rightarrow> Pool" where
  "removeEntryF 0 ord removeDesc txid p = p"
| "removeEntryF (Suc n) ord removeDesc txid p =
     (case fmlookup (po_entries p) txid of None \<Rightarrow> p
      | Some entry \<Rightarrow>
        detach ord txid entry
          (if removeDesc then fold (removeEntryF n ord True) (ord (refs (po_childs p) txid)) p else p))"

definition removeEntry :: "map_order \<Rightarrow> bool \<Rightarrow> string \<Rightarrow> Pool \<Rightarrow> Pool" where
  "removeEntry ord removeDesc txid p = removeEntryF (fcard (fmdom (po_entries p)) + 1) ord removeDesc txid p"

section \<open>Eviction\<close>

definition lowerRate :: "(string, Entry) fmap \<Rightarrow> string \<Rightarrow> (string \<times> i64) option \<Rightarrow> (string \<times> i64) option" where
  "lowerRate entries tid low =
     (case fmlookup entries tid of None \<Rightarrow> low
      | Some e \<Rightarrow>
        let r = feeRatePerKB (me_Fee e) (me_Size e) in
        (case low of None \<Rightarrow> Some (tid, r)
         | Some (_, lowRate) \<Rightarrow> if r <s lowRate then Some (tid, r) else low))"

definition lowestFeeRateEntry :: "map_order \<Rightarrow> (string, Entry) fmap \<Rightarrow> (string \<times> i64) option" where
  "lowestFeeRateEntry ord entries = fold (lowerRate entries) (ord (fmdom entries)) None"

definition lowestEvictionCandidate ::
    "map_order \<Rightarrow> (string, Entry) fmap \<Rightarrow> (string, string fset) fmap \<Rightarrow> (string \<times> i64) option" where
  "lowestEvictionCandidate ord entries childs =
     (case fold (\<lambda>tid low. if refs childs tid \<noteq> {||} then low else lowerRate entries tid low)
             (ord (fmdom entries)) None of
        Some c \<Rightarrow> Some c
      | None \<Rightarrow> lowestFeeRateEntry ord entries)"

section \<open>Ancestors\<close>

text \<open>The memo only saves work.\<close>

fun ancestorDepthF :: "nat \<Rightarrow> map_order \<Rightarrow> Pool \<Rightarrow> string \<Rightarrow> nat" where
  "ancestorDepthF 0 ord p txid = 0"
| "ancestorDepthF (Suc n) ord p txid =
     fold (\<lambda>parent d. max d (1 + ancestorDepthF n ord p parent)) (ord (refs (po_parents p) txid)) 0"

definition ancestorDepth :: "map_order \<Rightarrow> Pool \<Rightarrow> string \<Rightarrow> nat" where
  "ancestorDepth ord p txid = ancestorDepthF (fcard (fmdom (po_entries p)) + 1) ord p txid"

definition MaxAncestorDepthObserved :: "map_order \<Rightarrow> Pool \<Rightarrow> nat" where
  "MaxAncestorDepthObserved ord p = fold (\<lambda>tid d. max d (ancestorDepth ord p tid)) (ord (fmdom (po_entries p))) 0"

fun checkAncestorDepth :: "map_order \<Rightarrow> Pool \<Rightarrow> string list \<Rightarrow> nat \<Rightarrow> mempool_error + unit" where
  "checkAncestorDepth ord p [] maxDepth = Inr ()"
| "checkAncestorDepth ord p (parent # parents) maxDepth =
     (if parent |\<notin>| fmdom (po_entries p) then checkAncestorDepth ord p parents maxDepth
      else
        let maxDepth = max maxDepth (1 + ancestorDepth ord p parent) in
        if maxDepth > MaxAncestorDepth then Inl (MpAncestors maxDepth)
        else checkAncestorDepth ord p parents maxDepth)"

section \<open>Admission\<close>

text \<open>Replacement is switched off in this release: every conflict is refused.\<close>

definition checkReplacementPolicy ::
    "MsgTx \<Rightarrow> Entry \<Rightarrow> Entry list \<Rightarrow> (string, string fset) fmap \<Rightarrow> mempool_error + unit" where
  "checkReplacementPolicy tx candidate conflicts childs =
     (if \<not> rbfEnabled then Inl MpReplacement
      else if \<not> signalsOptInRBF tx then Inl MpReplacement
      else if list_ex (\<lambda>c. \<not> signalsOptInRBF (me_Tx c) \<or> refs childs (me_TxID c) \<noteq> {||}) conflicts
      then Inl MpReplacement
      else
        let totalFee = sum_list (map me_Fee conflicts); totalSize = sum_list (map me_Size conflicts) in
        if me_Fee candidate \<le>s totalFee then Inl MpReplacement
        else if feeRatePerKB (me_Fee candidate) (me_Size candidate) \<le>s feeRatePerKB totalFee totalSize
        then Inl MpReplacement
        else if me_Fee candidate - totalFee <s div64 (of_int (me_Size candidate) * IncrementalRelayFeeKB + 999) 1000
        then Inl MpReplacement
        else Inr ())"

text \<open>One input of an admitted transaction is entered.\<close>

definition linkInput :: "string \<Rightarrow> TxIn \<Rightarrow> Pool \<Rightarrow> Pool" where
  "linkInput txid inp p0 =
     (let parentTxID = hash_String (op_Hash (PreviousOutPoint inp));
          p = p0\<lparr>po_spent := fmupd (op_key (PreviousOutPoint inp)) txid (po_spent p0)\<rparr>
      in if parentTxID |\<in>| fmdom (po_entries p)
         then p\<lparr>po_parents := addref txid parentTxID (po_parents p),
                po_childs := addref parentTxID txid (po_childs p)\<rparr>
         else p)"

definition insertEntry :: "Entry \<Rightarrow> Pool \<Rightarrow> Pool" where
  "insertEntry entry p =
     fold (linkInput (me_TxID entry)) (tx_TxIn (me_Tx entry))
       (p\<lparr>po_entries := fmupd (me_TxID entry) entry (po_entries p),
          po_parents := (if me_TxID entry |\<in>| fmdom (po_parents p) then po_parents p
                         else fmupd (me_TxID entry) {||} (po_parents p))\<rparr>)"

definition makeRoom :: "map_order \<Rightarrow> Entry \<Rightarrow> Pool \<Rightarrow> mempool_error + Pool" where
  "makeRoom ord entry p =
     (if mlen (po_entries p) < po_maxTx p then Inr p
      else (case lowestEvictionCandidate ord (po_entries p) (po_childs p) of None \<Rightarrow> Inl MpFull
        | Some (lowID, lowRate) \<Rightarrow>
          if feeRatePerKB (me_Fee entry) (me_Size entry) \<le>s lowRate then Inl MpFull
          else Inr (removeEntry ord True lowID p)))"

definition conflictOwners :: "MsgTx \<Rightarrow> Pool \<Rightarrow> string fset" where
  "conflictOwners tx p = fset_of_list (List.map_filter (fmlookup (po_spent p)) (inKeys tx))"

definition resolveConflicts :: "map_order \<Rightarrow> Entry \<Rightarrow> Pool \<Rightarrow> mempool_error + Pool" where
  "resolveConflicts ord entry p =
     (let owners = ord (conflictOwners (me_Tx entry) p) in
      if owners = [] then Inr p
      else (case List.find (\<lambda>tid. tid |\<notin>| fmdom (po_entries p)) owners of
          Some tid \<Rightarrow> Inl (MpTaken tid)
        | None \<Rightarrow>
          let conflicts = List.map_filter (fmlookup (po_entries p)) owners in
          (case checkReplacementPolicy (me_Tx entry) entry conflicts (po_childs p) of Inl e \<Rightarrow> Inl e
           | Inr _ \<Rightarrow> Inr (fold (\<lambda>c. removeEntry ord False (me_TxID c)) conflicts p))))"

text \<open>
  The locked part of \<open>Add\<close>, for an entry made from a validated transaction. What an early
  return has already changed stays changed.
\<close>

definition admit :: "map_order \<Rightarrow> Entry \<Rightarrow> Pool \<Rightarrow> (mempool_error + Entry) \<times> Pool" where
  "admit ord entry p0 =
     (let p = deleteOrphan (me_TxID entry) p0 in
      case makeRoom ord entry p of Inl e \<Rightarrow> (Inl e, p)
      | Inr p \<Rightarrow>
        if me_TxID entry |\<in>| fmdom (po_entries p) then (Inl MpAlready, p)
        else
          (case resolveConflicts ord entry p of Inl e \<Rightarrow> (Inl e, p)
           | Inr p \<Rightarrow>
             (case checkAncestorDepth ord p (inTxIDs (me_Tx entry)) 0 of Inl e \<Rightarrow> (Inl e, p)
              | Inr _ \<Rightarrow> (Inr entry, insertEntry entry p))))"

section \<open>Validation\<close>

text \<open>The answer of \<open>validateTransaction\<close>; missing outputs make an orphan.\<close>

datatype validation = Invalid mempool_error | Missing string "string list" | Valid string i64

fun checkTxOutputs :: "i64 \<Rightarrow> int \<Rightarrow> TxOut list \<Rightarrow> mempool_error + i64 \<times> int" where
  "checkTxOutputs sumOut ops [] = Inr (sumOut, ops)"
| "checkTxOutputs sumOut ops (out # outs) =
     (if \<not> MoneyRange (out_Value out) then Inl MpBadOutputValue
      else
        let sumOut = sumOut + out_Value out in
        if \<not> MoneyRange sumOut then Inl MpBadOutputSum
        else checkTxOutputs sumOut (ops + CountSigOps (out_PkScript out)) outs)"

text \<open>The output an input spends: on the chain, or of a pool entry.\<close>

definition prevOutput :: "Chain \<Rightarrow> Pool \<Rightarrow> i32 \<Rightarrow> OutPoint \<Rightarrow> UTXOEntry option" where
  "prevOutput ch p nextHeight out =
     (case LoadUTXO (op_key out) (ch_store ch) of Inr e \<Rightarrow> Some e
      | Inl _ \<Rightarrow>
        (case fmlookup (po_entries p) (hash_String (op_Hash out)) of None \<Rightarrow> None
         | Some parent \<Rightarrow>
           if unat (op_Index out) \<ge> length (tx_TxOut (me_Tx parent)) then None
           else
             let parentOut = tx_TxOut (me_Tx parent) ! unat (op_Index out) in
             Some \<lparr>ut_Key = op_key out, ut_TxID = hash_String (op_Hash out), ut_Vout = op_Index out,
                   ut_Value = out_Value parentOut, ut_PkScript = hex_encode (out_PkScript parentOut),
                   ut_Height = nextHeight, ut_Coinbase = False\<rparr>))"

fun checkTxInputs ::
    "crypto \<Rightarrow> Chain \<Rightarrow> Pool \<Rightarrow> MsgTx \<Rightarrow> i32 \<Rightarrow> nat \<Rightarrow> TxIn list \<Rightarrow> string list \<Rightarrow> string list \<Rightarrow> i64 \<Rightarrow> int \<Rightarrow>
     mempool_error + i64 \<times> string list" where
  "checkTxInputs C ch p tx nextHeight i [] seen missing totalIn ops = Inr (totalIn, missing)"
| "checkTxInputs C ch p tx nextHeight i (inp # ins) seen missing totalIn ops =
     (let key = op_key (PreviousOutPoint inp) in
      if key \<in> set seen then Inl MpDuplicateInput
      else (case fmlookup (po_spent p) key of Some owner \<Rightarrow> Inl (MpTaken owner)
        | None \<Rightarrow>
          (case prevOutput ch p nextHeight (PreviousOutPoint inp) of
             None \<Rightarrow> checkTxInputs C ch p tx nextHeight (i + 1) ins (key # seen) (missing @ [key]) totalIn ops
           | Some prev \<Rightarrow>
             if ut_Coinbase prev \<and> nextHeight - ut_Height prev <s CoinbaseMaturity then Inl MpImmature
             else (case hex_decode (ut_PkScript prev) of None \<Rightarrow> Inl MpBadHex
               | Some prevScript \<Rightarrow>
                 (case SigOpsForSpend C (SignatureScript inp) prevScript of Inl e \<Rightarrow> Inl (MpScript e)
                  | Inr n \<Rightarrow>
                    if ops + n > MaxTxSigOps then Inl MpSigOps
                    else (case checkInputPolicy C (SignatureScript inp) prevScript of Inl e \<Rightarrow> Inl e
                      | Inr _ \<Rightarrow>
                        (case VerifyInput C tx (int i) prevScript of Inl e \<Rightarrow> Inl (MpScript e)
                         | Inr _ \<Rightarrow>
                           let totalIn = totalIn + ut_Value prev in
                           if \<not> MoneyRange totalIn then Inl MpBadInputSum
                           else checkTxInputs C ch p tx nextHeight (i + 1) ins (key # seen) missing
                                  totalIn (ops + n))))))))"

definition alreadyConfirmed :: "Chain \<Rightarrow> string \<Rightarrow> bool" where
  "alreadyConfirmed ch txid \<longleftrightarrow>
     fs_txIndexEnabled (ch_store ch) \<and>
     (case LookupTransactionByIndex txid ch of Inl _ \<Rightarrow> False | Inr _ \<Rightarrow> True)"

definition validateTransaction :: "crypto \<Rightarrow> Chain \<Rightarrow> MsgTx \<Rightarrow> Pool \<Rightarrow> validation" where
  "validateTransaction C ch tx p =
     (if tx_TxIn tx = [] \<or> tx_TxOut tx = [] then Invalid MpNoInputsOrOutputs
      else if length (tx_TxIn tx) = 1 \<and> hash_IsZero (op_Hash (PreviousOutPoint (tx_TxIn tx ! 0)))
      then Invalid MpCoinbase
      else if alreadyConfirmed ch (txID tx) then Invalid (MpConfirmed (txID tx))
      else (case checkTxOutputs 0 0 (tx_TxOut tx) of Inl e \<Rightarrow> Invalid e
        | Inr (totalOut, ops) \<Rightarrow>
          let nextHeight = (case ch_tip ch of None \<Rightarrow> 0 | Some tip \<Rightarrow> ix_Height tip + 1);
              nextBlockTime = (case ch_tip ch of None \<Rightarrow> 0 | Some tip \<Rightarrow> ix_Time tip)
          in if \<not> IsFinalizedTx tx nextHeight nextBlockTime then Invalid MpNonFinal
             else (case checkTxInputs C ch p tx nextHeight 0 (tx_TxIn tx) [] [] 0 ops of Inl e \<Rightarrow> Invalid e
               | Inr (totalIn, missing) \<Rightarrow>
                 if missing \<noteq> [] then Missing (txID tx) missing
                 else if totalIn <s totalOut then Invalid MpInputsLess
                 else Valid (txID tx) (totalIn - totalOut))))"

section \<open>Adding a transaction\<close>

text \<open>\<open>Add\<close> up to the promotion of orphans.\<close>

definition addOne :: "crypto \<Rightarrow> map_order \<Rightarrow> Chain \<Rightarrow> MsgTx \<Rightarrow> Pool \<Rightarrow> (mempool_error + Entry) \<times> Pool" where
  "addOne C ord ch tx p =
     (case validateTransaction C ch tx p of
        Invalid e \<Rightarrow> (Inl e, p)
      | Missing txid missing \<Rightarrow> (Inl MpOrphan, addOrphanTx ord tx txid missing p)
      | Valid txid fee \<Rightarrow>
        let entry = \<lparr>me_Tx = tx, me_TxID = txid, me_Fee = fee, me_Size = int (length (tx_Serialize tx))\<rparr> in
        (case checkStandardness tx (me_Size entry) of Inl e \<Rightarrow> (Inl e, p)
         | Inr _ \<Rightarrow>
           if \<not> MeetsMinRelayFee (me_Fee entry) (me_Size entry) then (Inl MpFee, p)
           else admit ord entry p))"

text \<open>The orphans that wait for an output of \<open>parent\<close> and were not tried before.\<close>

definition waitingFor :: "map_order \<Rightarrow> string \<Rightarrow> string fset \<Rightarrow> Pool \<Rightarrow> string list" where
  "waitingFor ord parent seen p =
     (let stem = parent @ '':'' in
      rev (remdups (rev (filter (\<lambda>tid. tid |\<notin>| seen)
        (concat (map (\<lambda>dep. if take (length stem) dep = stem then ord (refs (po_orphRef p) dep) else [])
          (ord (fmdom (po_orphRef p)))))))))"

text \<open>
  \<open>Add\<close> promotes orphans, and promoting adds them: the recursion takes the step \<open>add\<close> as an
  argument. Every promoted transaction leaves the orphans, so one more level, and one more
  round, than there are orphans is enough (\<open>addTx_fuel\<close>).
\<close>

fun promoteAll :: "(MsgTx \<Rightarrow> Pool \<Rightarrow> (mempool_error + Entry) \<times> Pool) \<Rightarrow> string list \<Rightarrow> Pool \<Rightarrow> string list \<times> Pool" where
  "promoteAll add [] p = ([], p)"
| "promoteAll add (tid # ids) p =
     (case fmlookup (po_orphans p) tid of None \<Rightarrow> promoteAll add ids p
      | Some tx \<Rightarrow>
        (case add tx p of (Inl _, p) \<Rightarrow> promoteAll add ids p
         | (Inr entry, p) \<Rightarrow> let (done', p) = promoteAll add ids p in (me_TxID entry # done', p)))"

fun promoteOrphans ::
    "nat \<Rightarrow> map_order \<Rightarrow> (MsgTx \<Rightarrow> Pool \<Rightarrow> (mempool_error + Entry) \<times> Pool) \<Rightarrow> string list \<Rightarrow> string fset \<Rightarrow> Pool \<Rightarrow> Pool" where
  "promoteOrphans n ord add [] seen p = p"
| "promoteOrphans 0 ord add (parent # queue) seen p = p"
| "promoteOrphans (Suc n) ord add (parent # queue) seen p =
     (let candidates = waitingFor ord parent seen p;
          (added, p) = promoteAll add candidates p
      in promoteOrphans n ord add (queue @ added) (seen |\<union>| fset_of_list candidates) p)"

fun addTxF :: "nat \<Rightarrow> crypto \<Rightarrow> map_order \<Rightarrow> Chain \<Rightarrow> MsgTx \<Rightarrow> Pool \<Rightarrow> (mempool_error + Entry) \<times> Pool" where
  "addTxF 0 C ord ch tx p = (Inl MpDiverges, p)"
| "addTxF (Suc n) C ord ch tx p =
     (case addOne C ord ch tx p of (Inl e, p) \<Rightarrow> (Inl e, p)
      | (Inr entry, p) \<Rightarrow>
        (Inr entry, promoteOrphans (fcard (fmdom (po_orphans p)) + 1) ord (addTxF n C ord ch)
           [me_TxID entry] {||} p))"

definition Add :: "crypto \<Rightarrow> map_order \<Rightarrow> Chain \<Rightarrow> MsgTx \<Rightarrow> Pool \<Rightarrow> (mempool_error + Entry) \<times> Pool" where
  "Add C ord ch tx p = addTxF (fcard (fmdom (po_orphans p)) + 2) C ord ch tx p"

section \<open>A block arrives\<close>

definition blockSpent :: "MsgBlock \<Rightarrow> string list" where
  "blockSpent block = concat (map inKeys (bk_Transactions block))"

definition removeSpender :: "map_order \<Rightarrow> string list \<Rightarrow> string \<Rightarrow> Pool \<Rightarrow> Pool" where
  "removeSpender ord spent txid p =
     (case fmlookup (po_entries p) txid of None \<Rightarrow> p
      | Some entry \<Rightarrow>
        if list_ex (\<lambda>key. key \<in> set spent) (inKeys (me_Tx entry)) then removeEntry ord True txid p else p)"

definition RemoveForBlock :: "map_order \<Rightarrow> MsgBlock \<Rightarrow> Pool \<Rightarrow> Pool" where
  "RemoveForBlock ord block p0 =
     (let p = fold (\<lambda>tx. removeEntry ord True (txID tx)) (bk_Transactions block) p0
      in fold (removeSpender ord (blockSpent block)) (ord (fmdom (po_entries p))) p)"

section \<open>Queries\<close>

text \<open>Parents before children; \<open>sort.Strings\<close> makes the order definite.\<close>

fun visitF :: "nat \<Rightarrow> int \<Rightarrow> Pool \<Rightarrow> string \<Rightarrow> string list \<times> Entry list \<Rightarrow> string list \<times> Entry list" where
  "visitF 0 limit p tid st = st"
| "visitF (Suc n) limit p tid st =
     (if tid \<in> set (fst st) then st
      else
        let parents = sorted_list_of_fset (ffilter (\<lambda>q. q |\<in>| fmdom (po_entries p)) (refs (po_parents p) tid));
            (seen, out) = fold (visitF n limit p) parents st
        in (tid # seen,
            (case fmlookup (po_entries p) tid of None \<Rightarrow> out
             | Some e \<Rightarrow> if limit \<le> 0 \<or> int (length out) < limit then out @ [e] else out)))"

definition entriesTopological :: "int \<Rightarrow> Pool \<Rightarrow> Entry list" where
  "entriesTopological limit p =
     snd (fold (visitF (fcard (fmdom (po_entries p)) + 1) limit p) (sorted_list_of_fset (fmdom (po_entries p))) ([], []))"

definition Transactions :: "int \<Rightarrow> Pool \<Rightarrow> MsgTx list" where
  "Transactions limit p = map me_Tx (entriesTopological limit p)"

definition EntryDependencies :: "string \<Rightarrow> Pool \<Rightarrow> string list \<times> string list" where
  "EntryDependencies txid p =
     (sorted_list_of_fset (refs (po_parents p) txid), sorted_list_of_fset (refs (po_childs p) txid))"

definition DependencyStats :: "Pool \<Rightarrow> int \<times> int \<times> int" where
  "DependencyStats p =
     (int (fcard (ffilter (\<lambda>tid. refs (po_parents p) tid \<noteq> {||}) (fmdom (po_parents p)))),
      int (fcard (ffilter (\<lambda>tid. refs (po_childs p) tid \<noteq> {||}) (fmdom (po_childs p)))),
      mlen (po_orphRef p))"

definition LookupTx :: "string \<Rightarrow> Pool \<Rightarrow> MsgTx option" where
  "LookupTx txid p = map_option me_Tx (fmlookup (po_entries p) txid)"

end
