(* ===== verification/MempoolInvariant.thy ===== *)
theory MempoolInvariant
  imports Mempool
begin

text \<open>
  The invariant of the pool: outpoints and entries agree, parent and child links mirror each
  other and are acyclic with chains of at most \<open>MaxAncestorDepth\<close>. Removing an entry removes
  it and descendants of it, and nothing else changes.
\<close>

section \<open>Maps of sets\<close>

lemma refs_drop [simp]: "refs (fmdrop k m) q = (if q = k then {||} else refs m q)"
  by (simp add: refs_def)

lemma refs_upd [simp]: "refs (fmupd k A m) q = (if q = k then A else refs m q)"
  by (simp add: refs_def)

lemma refs_empty [simp]: "refs fmempty q = {||}"
  by (simp add: refs_def)

lemma refs_addref [simp]: "refs (addref k x m) q = (if q = k then finsert x (refs m k) else refs m q)"
  by (simp add: addref_def)

lemma refs_unref [simp]: "refs (unref k x m) q = (if q = k then refs m k |-| {|x|} else refs m q)"
  by (auto simp: unref_def refs_def split: option.splits)

lemma refs_unrefs: "refs (fold (\<lambda>k. unref k x) ks m) q = (if q \<in> set ks then refs m q |-| {|x|} else refs m q)"
  by (induction ks arbitrary: m) auto

definition no_empty :: "(string, string fset) fmap \<Rightarrow> bool" where
  "no_empty m \<longleftrightarrow> (\<forall>k. fmlookup m k \<noteq> Some {||})"

lemma no_empty_simps [simp]:
  "no_empty fmempty" "no_empty m \<Longrightarrow> no_empty (fmdrop k m)" "no_empty m \<Longrightarrow> no_empty (addref k x m)"
  "no_empty m \<Longrightarrow> no_empty (unref k x m)"
  by (auto simp: no_empty_def addref_def unref_def split: option.splits)

lemma no_empty_unrefs [simp]: "no_empty m \<Longrightarrow> no_empty (fold (\<lambda>k. unref k x) ks m)"
  by (induction ks arbitrary: m) auto

lemma lookup_fold_drop: "fmlookup (fold fmdrop ks m) k = (if k \<in> set ks then None else fmlookup m k)"
  by (induction ks arbitrary: m) auto

lemma order_set: "order_ok ord \<Longrightarrow> set (ord A) = fset A"
  by (simp add: order_ok_def)

section \<open>The invariant\<close>

definition core :: "(string \<Rightarrow> nat) \<Rightarrow> Pool \<Rightarrow> bool" where
  "core r p \<longleftrightarrow>
     (\<forall>i e. fmlookup (po_entries p) i = Some e \<longrightarrow> me_TxID e = i \<and> txID (me_Tx e) = i) \<and>
     (\<forall>k i. fmlookup (po_spent p) k = Some i \<longleftrightarrow>
        (\<exists>e. fmlookup (po_entries p) i = Some e \<and> k \<in> set (inKeys (me_Tx e)))) \<and>
     fmdom (po_parents p) = fmdom (po_entries p) \<and>
     (\<forall>c q. q |\<in>| refs (po_parents p) c \<longrightarrow> q |\<in>| fmdom (po_entries p) \<and>
        (\<exists>e. fmlookup (po_entries p) c = Some e \<and> q \<in> set (inTxIDs (me_Tx e)))) \<and>
     (\<forall>c q. c |\<in>| refs (po_childs p) q \<longleftrightarrow> q |\<in>| refs (po_parents p) c) \<and>
     no_empty (po_childs p) \<and>
     (\<forall>c q. q |\<in>| refs (po_parents p) c \<longrightarrow> r q < r c)"

definition pool_inv :: "Pool \<Rightarrow> bool" where
  "pool_inv p \<longleftrightarrow> (\<exists>r. core r p \<and> (\<forall>c. r c \<le> MaxAncestorDepth))"

lemma core_new: "core r newPool"
  by (simp add: core_def newPool_def)

lemma core_orphans [simp]:
  "core r (p\<lparr>po_orphans := a, po_orphRef := b\<rparr>) = core r p"
  by (simp add: core_def)

definition descs :: "Pool \<Rightarrow> string set \<Rightarrow> string set" where
  "descs p X = {x. \<exists>a\<in>X. (a, x) \<in> {(q, c). c |\<in>| refs (po_childs p) q}\<^sup>*}"

text \<open>Everything but the entries and their links.\<close>

definition same_rest :: "Pool \<Rightarrow> Pool \<Rightarrow> bool" where
  "same_rest p p' \<longleftrightarrow> po_orphans p' = po_orphans p \<and> po_orphRef p' = po_orphRef p \<and>
     po_maxTx p' = po_maxTx p \<and> po_maxOrph p' = po_maxOrph p"

definition removed :: "(string \<Rightarrow> nat) \<Rightarrow> string set \<Rightarrow> Pool \<Rightarrow> Pool \<Rightarrow> bool" where
  "removed r X p p' \<longleftrightarrow> core r p' \<and> same_rest p p' \<and> po_entries p' \<subseteq>\<^sub>f po_entries p \<and>
     (\<forall>q. refs (po_childs p') q |\<subseteq>| refs (po_childs p) q) \<and>
     (\<forall>c. c |\<in>| fmdom (po_entries p') \<longrightarrow> refs (po_parents p') c = refs (po_parents p) c) \<and>
     fset (fmdom (po_entries p)) - fset (fmdom (po_entries p')) \<subseteq> descs p X"

lemma removed_refl: "core r p \<Longrightarrow> removed r X p p"
  by (simp add: removed_def same_rest_def)

lemma descs_mono:
  assumes "\<And>q. refs (po_childs p') q |\<subseteq>| refs (po_childs p) q" "X \<subseteq> Y"
  shows "descs p' X \<subseteq> descs p Y"
proof -
  have "{(q, c). c |\<in>| refs (po_childs p') q} \<subseteq> {(q, c). c |\<in>| refs (po_childs p) q}"
    using assms(1) by blast
  from rtrancl_mono [OF this] assms(2) show ?thesis unfolding descs_def by blast
qed

lemma removed_trans:
  assumes a: "removed r X p p1" and b: "removed r Y p1 p2"
  shows "removed r (X \<union> Y) p p2"
proof -
  have c: "\<And>q. refs (po_childs p1) q |\<subseteq>| refs (po_childs p) q" using a by (simp add: removed_def)
  have "fset (fmdom (po_entries p)) - fset (fmdom (po_entries p2)) \<subseteq> descs p X \<union> descs p1 Y"
    using a b by (auto simp: removed_def)
  also have "\<dots> \<subseteq> descs p (X \<union> Y)"
    using descs_mono [OF c, of Y "X \<union> Y"] descs_mono [of p p X "X \<union> Y"] by auto
  finally have "fset (fmdom (po_entries p)) - fset (fmdom (po_entries p2)) \<subseteq> descs p (X \<union> Y)" .
  moreover have d: "refs (po_childs p2) q |\<subseteq>| refs (po_childs p) q" for q
    using b c [of q] order_trans by (auto simp: removed_def)
  ultimately show ?thesis
    using a b fmsubset_dom [of "po_entries p2" "po_entries p1"] fmsubset_trans [of "po_entries p2" "po_entries p1"]
    by (simp add: removed_def same_rest_def)
qed

section \<open>Removing\<close>

text \<open>Dropping an entry that has no children.\<close>

lemma detach_removed:
  assumes inv: "core r p" and e: "fmlookup (po_entries p) i = Some e" and leaf: "refs (po_childs p) i = {||}"
    and ord: "order_ok ord"
  shows "removed r {i} p (detach ord i e p) \<and> fmlookup (po_entries (detach ord i e p)) i = None"
proof -
  let ?p = "detach ord i e p"
  have ch: "refs (po_childs ?p) q = (if q = i then {||} else if q |\<in>| refs (po_parents p) i
      then refs (po_childs p) q |-| {|i|} else refs (po_childs p) q)" for q
    by (simp add: detach_def refs_unrefs order_set [OF ord])
  have mirror: "c |\<in>| refs (po_childs p) q \<longleftrightarrow> q |\<in>| refs (po_parents p) c" for c q
    using inv by (simp add: core_def)
  have pa: "refs (po_parents ?p) c = (if c = i then {||} else refs (po_parents p) c)" for c
    by (simp add: detach_def)
  have en: "po_entries ?p = fmdrop i (po_entries p)" by (simp add: detach_def)
  have sp: "fmlookup (po_spent ?p) k = (if k \<in> set (inKeys (me_Tx e)) then None else fmlookup (po_spent p) k)" for k
    by (simp add: detach_def lookup_fold_drop)
  have noparent: "i |\<notin>| refs (po_parents p) c" for c using mirror [of c i] leaf by simp
  have spent: "fmlookup (po_spent ?p) k = Some j \<longleftrightarrow>
      (\<exists>e'. fmlookup (po_entries ?p) j = Some e' \<and> k \<in> set (inKeys (me_Tx e')))" for k j
  proof -
    have o: "fmlookup (po_spent p) k = Some j \<longleftrightarrow> (\<exists>e'. fmlookup (po_entries p) j = Some e' \<and> k \<in> set (inKeys (me_Tx e')))" for j
      using inv by (simp add: core_def)
    show ?thesis using o [of j] o [of i] e by (auto simp: sp en)
  qed
  have "core r ?p"
    unfolding core_def
  proof (intro conjI allI impI)
    show "fmlookup (po_spent ?p) k = Some j \<longleftrightarrow>
        (\<exists>e'. fmlookup (po_entries ?p) j = Some e' \<and> k \<in> set (inKeys (me_Tx e')))" for k j by (rule spent)
    show "c |\<in>| refs (po_childs ?p) q \<longleftrightarrow> q |\<in>| refs (po_parents ?p) c" for c q
      using mirror [of c q] mirror [of i q] noparent [of c] by (auto simp: ch pa)
    show "no_empty (po_childs ?p)" using inv by (simp add: detach_def core_def)
  qed (use inv noparent in \<open>auto simp: core_def en pa detach_def split: if_splits\<close>)
  moreover have "i \<in> descs p {i}" by (auto simp: descs_def)
  ultimately show ?thesis
    by (auto simp: removed_def same_rest_def en pa ch fmsubset_iff) (auto simp: detach_def)
qed

text \<open>A loop of removals.\<close>

lemma fold_removed:
  assumes "core r p"
    and "\<And>c q. c \<in> set cs \<Longrightarrow> core r q \<Longrightarrow> po_entries q \<subseteq>\<^sub>f po_entries p \<Longrightarrow>
      removed r {c} q (F c q) \<and> fmlookup (po_entries (F c q)) c = None"
  shows "removed r (set cs) p (fold F cs p) \<and> (\<forall>c\<in>set cs. fmlookup (po_entries (fold F cs p)) c = None)"
  using assms
proof (induction cs arbitrary: p)
  case Nil
  then show ?case by (simp add: removed_refl)
next
  case (Cons c cs)
  have step: "removed r {c} p (F c p)" "fmlookup (po_entries (F c p)) c = None"
    using Cons.prems(2) [of c p] Cons.prems(1) by simp_all
  then have k: "core r (F c p)" "po_entries (F c p) \<subseteq>\<^sub>f po_entries p" by (auto simp: removed_def)
  have "removed r (set cs) (F c p) (fold F cs (F c p)) \<and> (\<forall>c'\<in>set cs. fmlookup (po_entries (fold F cs (F c p))) c' = None)"
    by (rule Cons.IH [OF k(1)]) (use Cons.prems(2) k(2) in \<open>auto intro: fmsubset_trans\<close>)
  note rest = this
  have "po_entries (fold F cs (F c p)) \<subseteq>\<^sub>f po_entries (F c p)" using rest by (simp add: removed_def)
  then have "fmlookup (po_entries (fold F cs (F c p))) c = None"
    using step(2) fmsubset_dom by (metis fmdom_notD fmdom_notI)
  with rest removed_trans [OF step(1), of "set cs" "fold F cs (F c p)"] show ?case by auto
qed

text \<open>The entries that rank at least as high: what the recursion can still meet.\<close>

definition above :: "(string \<Rightarrow> nat) \<Rightarrow> Pool \<Rightarrow> string \<Rightarrow> string set" where
  "above r p i = {x \<in> fset (fmdom (po_entries p)). r i \<le> r x}"

lemma above_child:
  assumes "core r p" "c |\<in>| refs (po_childs p) i" "po_entries q \<subseteq>\<^sub>f po_entries p"
  shows "card (above r q c) < card (above r p i)"
proof (rule psubset_card_mono)
  have l: "r i < r c" "i |\<in>| fmdom (po_entries p)" using assms(1,2) by (auto simp: core_def)
  then have "above r q c \<subseteq> above r p i" using fmsubset_dom [OF assms(3)] by (auto simp: above_def)
  moreover have "i \<in> above r p i" "i \<notin> above r q c" using l by (auto simp: above_def)
  ultimately show "above r q c \<subset> above r p i" by blast
qed (simp add: above_def)

lemma rank_descs: "core r p \<Longrightarrow> x \<in> descs p {c} \<Longrightarrow> r c \<le> r x"
proof -
  assume "core r p" "x \<in> descs p {c}"
  then have "(c, x) \<in> {(q, c). c |\<in>| refs (po_childs p) q}\<^sup>*" by (simp add: descs_def)
  then show ?thesis
  proof (induction rule: rtrancl_induct)
    case (step y z)
    then have "r y < r z" using \<open>core r p\<close> by (auto simp: core_def)
    with step show ?case by simp
  qed simp
qed

lemma removeEntryF_removed:
  "core r p \<Longrightarrow> order_ok ord \<Longrightarrow> card (above r p i) < n \<Longrightarrow>
     removed r {i} p (removeEntryF n ord True i p) \<and> fmlookup (po_entries (removeEntryF n ord True i p)) i = None"
proof (induction n arbitrary: i p)
  case (Suc n)
  show ?case
  proof (cases "fmlookup (po_entries p) i")
    case None
    then show ?thesis using Suc.prems by (simp add: removed_refl)
  next
    case (Some e)
    let ?cs = "ord (refs (po_childs p) i)"
    let ?q = "fold (removeEntryF n ord True) ?cs p"
    have cs: "set ?cs = fset (refs (po_childs p) i)" using Suc.prems(2) by (rule order_set)
    have f: "removed r (set ?cs) p ?q \<and> (\<forall>c\<in>set ?cs. fmlookup (po_entries ?q) c = None)"
    proof (rule fold_removed [OF Suc.prems(1)])
      fix c q assume c: "c \<in> set ?cs" "core r q" "po_entries q \<subseteq>\<^sub>f po_entries p"
      then have "card (above r q c) < n" using above_child [OF Suc.prems(1) _ c(3)] cs Suc.prems(3) by fastforce
      then show "removed r {c} q (removeEntryF n ord True c q) \<and>
          fmlookup (po_entries (removeEntryF n ord True c q)) c = None"
        by (rule Suc.IH [OF c(2) Suc.prems(2)])
    qed
    then have q: "core r ?q" "po_entries ?q \<subseteq>\<^sub>f po_entries p" by (auto simp: removed_def)
    have "i \<notin> descs p (set ?cs)"
    proof
      assume "i \<in> descs p (set ?cs)"
      then obtain c where "c \<in> set ?cs" "i \<in> descs p {c}" by (auto simp: descs_def)
      with rank_descs [OF Suc.prems(1)] Suc.prems(1) cs show False by (fastforce simp: core_def)
    qed
    then have "i |\<in>| fmdom (po_entries ?q)" using f fmdomI [OF Some] by (auto simp: removed_def)
    then have e: "fmlookup (po_entries ?q) i = Some e"
      using q(2) Some by (auto simp: fmlookup_dom_iff fmsubset_iff)
    have leaf: "refs (po_childs ?q) i = {||}"
    proof -
      have "c |\<notin>| refs (po_childs ?q) i" for c
      proof
        assume a: "c |\<in>| refs (po_childs ?q) i"
        then have "c |\<in>| refs (po_childs p) i" using f by (auto simp: removed_def)
        then have "fmlookup (po_entries ?q) c = None" using f cs by auto
        moreover have "i |\<in>| refs (po_parents ?q) c" using a q(1) unfolding core_def by blast
        then have "\<exists>e. fmlookup (po_entries ?q) c = Some e" using q(1) unfolding core_def by blast
        ultimately show False by simp
      qed
      then show ?thesis by auto
    qed
    note d = detach_removed [OF q(1) e leaf Suc.prems(2)]
    have "removed r (set ?cs \<union> {i}) p (detach ord i e ?q)" using removed_trans f d by blast
    moreover have "descs p (set ?cs \<union> {i}) \<subseteq> descs p {i}"
      using cs by (auto simp: descs_def intro: converse_rtrancl_into_rtrancl)
    ultimately have "removed r {i} p (detach ord i e ?q)" by (auto simp: removed_def)
    with d Some show ?thesis by simp
  qed
qed simp

lemma card_above: "card (above r p i) \<le> fcard (fmdom (po_entries p))"
  unfolding above_def fcard.rep_eq by (rule card_mono) auto

text \<open>What \<open>removeEntryLocked\<close> does to a pool in order.\<close>

lemma removeEntry_removed:
  assumes "core r p" "order_ok ord"
  shows "removed r {i} p (removeEntry ord True i p)" "fmlookup (po_entries (removeEntry ord True i p)) i = None"
  unfolding removeEntry_def
  using removeEntryF_removed [OF assms, of i "fcard (fmdom (po_entries p)) + 1"] card_above [of r p i] by auto

text \<open>The depth of the recursion is enough.\<close>

lemma fold_cong_on:
  assumes "\<And>c q. c \<in> set cs \<Longrightarrow> P q \<Longrightarrow> F c q = G c q \<and> P (G c q)" "P p"
  shows "fold F cs p = fold G cs p"
  using assms by (induction cs arbitrary: p) auto

lemma removeEntryF_fuel:
  "core r p \<Longrightarrow> order_ok ord \<Longrightarrow> card (above r p i) < n \<Longrightarrow> n \<le> m \<Longrightarrow>
     removeEntryF m ord True i p = removeEntryF n ord True i p"
proof (induction n arbitrary: i p m)
  case (Suc n)
  obtain m' where m: "m = Suc m'" "n \<le> m'" using Suc.prems(4) by (cases m) auto
  have cs: "set (ord (refs (po_childs p) i)) = fset (refs (po_childs p) i)" using Suc.prems(2) by (rule order_set)
  have "fold (removeEntryF m' ord True) (ord (refs (po_childs p) i)) p =
      fold (removeEntryF n ord True) (ord (refs (po_childs p) i)) p"
  proof (rule fold_cong_on [where P = "\<lambda>q. core r q \<and> po_entries q \<subseteq>\<^sub>f po_entries p"])
    fix c q assume c: "c \<in> set (ord (refs (po_childs p) i))" and q: "core r q \<and> po_entries q \<subseteq>\<^sub>f po_entries p"
    then have n: "card (above r q c) < n"
      using above_child [OF Suc.prems(1), of c i q] cs Suc.prems(3) by auto
    have "removed r {c} q (removeEntryF n ord True c q)"
      using removeEntryF_removed [OF conjunct1 [OF q] Suc.prems(2) n] by simp
    then show "removeEntryF m' ord True c q = removeEntryF n ord True c q \<and>
        core r (removeEntryF n ord True c q) \<and> po_entries (removeEntryF n ord True c q) \<subseteq>\<^sub>f po_entries p"
      using Suc.IH [OF conjunct1 [OF q] Suc.prems(2) n m(2)] q by (auto simp: removed_def intro: fmsubset_trans)
  qed (use Suc.prems(1) in simp)
  then show ?case by (simp add: m split: option.split)
qed simp

end
