(* ===== verification/MempoolOps.thy ===== *)
theory MempoolOps
  imports MempoolInvariant
begin

text \<open>
  The operations of the pool keep its invariant: eviction makes room, an admitted entry is
  linked to its parents, chains of unconfirmed transactions stay short, orphans are bounded.
\<close>

section \<open>Ancestor depth\<close>

lemma fold_max_le:
  fixes f :: "string \<Rightarrow> nat"
  assumes "\<And>q. q \<in> set qs \<Longrightarrow> f q \<le> b" "d \<le> b"
  shows "fold (\<lambda>q d. max d (f q)) qs d \<le> b"
  using assms by (induction qs arbitrary: d) auto

lemma fold_max_ge:
  fixes f :: "string \<Rightarrow> nat"
  shows "d \<le> fold (\<lambda>q d. max d (f q)) qs d \<and> (\<forall>q\<in>set qs. f q \<le> fold (\<lambda>q d. max d (f q)) qs d)"
proof (induction qs arbitrary: d)
  case (Cons a qs)
  from Cons.IH [of "max d (f a)"] show ?case by auto
qed simp

lemma ancestorDepthF_le: "core r p \<Longrightarrow> order_ok ord \<Longrightarrow> ancestorDepthF n ord p c \<le> r c"
proof (induction n arbitrary: c)
  case (Suc n)
  show ?case
  proof (simp, rule fold_max_le)
    fix q assume "q \<in> set (ord (refs (po_parents p) c))"
    then have "r q < r c" using Suc.prems by (auto simp: order_set core_def)
    then show "Suc (ancestorDepthF n ord p q) \<le> r c" using Suc.IH [OF Suc.prems, of q] by simp
  qed simp
qed simp

text \<open>With a level more than there are entries below, the depth does not depend on the fuel.\<close>

definition below :: "(string \<Rightarrow> nat) \<Rightarrow> Pool \<Rightarrow> string \<Rightarrow> string set" where
  "below r p i = {x \<in> fset (fmdom (po_entries p)). r x < r i}"

lemma card_below: "card (below r p i) \<le> fcard (fmdom (po_entries p))"
  unfolding below_def fcard.rep_eq by (rule card_mono) auto

lemma ancestorDepthF_fuel:
  "core r p \<Longrightarrow> order_ok ord \<Longrightarrow> card (below r p c) < n \<Longrightarrow> n \<le> m \<Longrightarrow>
     ancestorDepthF m ord p c = ancestorDepthF n ord p c"
proof (induction n arbitrary: c m)
  case (Suc n)
  obtain m' where m: "m = Suc m'" "n \<le> m'" using Suc.prems(4) by (cases m) auto
  have "fold (\<lambda>q d. max d (1 + ancestorDepthF m' ord p q)) (ord (refs (po_parents p) c)) 0 =
      fold (\<lambda>q d. max d (1 + ancestorDepthF n ord p q)) (ord (refs (po_parents p) c)) 0"
  proof (rule fold_cong_on [where P = "\<lambda>_. True"])
    fix q d assume "q \<in> set (ord (refs (po_parents p) c))"
    then have l: "r q < r c" "q |\<in>| fmdom (po_entries p)" using Suc.prems by (auto simp: order_set core_def)
    then have "below r p q \<subset> below r p c" by (auto simp: below_def)
    then have "card (below r p q) < card (below r p c)" by (rule psubset_card_mono [rotated]) (simp add: below_def)
    then show "max d (1 + ancestorDepthF m' ord p q) = max d (1 + ancestorDepthF n ord p q) \<and> True"
      using Suc.IH [OF Suc.prems(1,2) _ m(2), of q] Suc.prems(3) by simp
  qed simp
  then show ?case by (simp add: m)
qed simp

text \<open>So the depth is itself a rank, the least one.\<close>

lemma ancestorDepth_rank:
  assumes "core r p" "order_ok ord"
  shows "core (ancestorDepth ord p) p"
proof -
  have "ancestorDepth ord p q < ancestorDepth ord p c" if q: "q |\<in>| refs (po_parents p) c" for c q
  proof -
    let ?n = "fcard (fmdom (po_entries p)) + 1"
    have "ancestorDepthF ?n ord p c = ancestorDepthF (Suc ?n) ord p c"
      using ancestorDepthF_fuel [OF assms, of c ?n "Suc ?n"] card_below [of r p c] by simp
    then have e: "ancestorDepthF ?n ord p c =
        fold (\<lambda>q d. max d (1 + ancestorDepthF ?n ord p q)) (ord (refs (po_parents p) c)) 0"
      by (simp only: ancestorDepthF.simps)
    have "q \<in> set (ord (refs (po_parents p) c))" using q order_set [OF assms(2)] by simp
    with fold_max_ge [of 0 "\<lambda>q. 1 + ancestorDepthF ?n ord p q" "ord (refs (po_parents p) c)"]
    have "1 + ancestorDepthF ?n ord p q \<le> ancestorDepthF ?n ord p c" unfolding e by blast
    then show ?thesis unfolding ancestorDepth_def by linarith
  qed
  with assms(1) show ?thesis by (simp add: core_def)
qed

lemma checkAncestorDepth_Inr:
  "checkAncestorDepth ord p qs d = Inr () \<Longrightarrow> q \<in> set qs \<Longrightarrow> q |\<in>| fmdom (po_entries p) \<Longrightarrow>
     1 + ancestorDepth ord p q \<le> MaxAncestorDepth"
proof (induction qs arbitrary: d)
  case (Cons a qs)
  then show ?case by (auto simp: Let_def max_def split: if_splits)
qed simp

section \<open>Linking an entry\<close>

lemma linkInput_fold:
  fixes ins :: "TxIn list"
  shows "po_entries (fold (linkInput i) ins p) = po_entries p" (is ?A)
    and "same_rest p (fold (linkInput i) ins p)" (is ?B)
    and "fmlookup (po_spent (fold (linkInput i) ins p)) k =
      (if k \<in> (\<lambda>inp. op_key (PreviousOutPoint inp)) ` set ins then Some i else fmlookup (po_spent p) k)" (is ?C)
    and "refs (po_parents (fold (linkInput i) ins p)) c =
      (if c = i then refs (po_parents p) i |\<union>|
         ffilter (\<lambda>q. q |\<in>| fmdom (po_entries p)) (fset_of_list (map (\<lambda>inp. hash_String (op_Hash (PreviousOutPoint inp))) ins))
       else refs (po_parents p) c)" (is ?D)
    and "refs (po_childs (fold (linkInput i) ins p)) q =
      (if q \<in> (\<lambda>inp. hash_String (op_Hash (PreviousOutPoint inp))) ` set ins \<and> q |\<in>| fmdom (po_entries p)
       then finsert i (refs (po_childs p) q) else refs (po_childs p) q)" (is ?E)
    and "i |\<in>| fmdom (po_parents p) \<Longrightarrow> fmdom (po_parents (fold (linkInput i) ins p)) = fmdom (po_parents p)"
    and "no_empty (po_childs p) \<Longrightarrow> no_empty (po_childs (fold (linkInput i) ins p))"
proof -
  show ?A by (induction ins arbitrary: p) (simp_all add: linkInput_def Let_def)
  have en: "po_entries (linkInput i inp p) = po_entries p" for inp p by (simp add: linkInput_def Let_def)
  show ?B by (induction ins arbitrary: p) (auto simp: linkInput_def Let_def same_rest_def)
  show ?C by (induction ins arbitrary: p) (auto simp: linkInput_def Let_def)
  show ?D
  proof (induction ins arbitrary: p)
    case (Cons inp ins)
    show ?case by (simp add: Cons.IH en) (auto simp: linkInput_def Let_def)
  qed auto
  show ?E
  proof (induction ins arbitrary: p)
    case (Cons inp ins)
    show ?case by (simp add: Cons.IH en) (auto simp: linkInput_def Let_def)
  qed auto
  show "i |\<in>| fmdom (po_parents p) \<Longrightarrow> fmdom (po_parents (fold (linkInput i) ins p)) = fmdom (po_parents p)"
    by (induction ins arbitrary: p) (auto simp: linkInput_def Let_def addref_def)
  show "no_empty (po_childs p) \<Longrightarrow> no_empty (po_childs (fold (linkInput i) ins p))"
    by (induction ins arbitrary: p) (auto simp: linkInput_def Let_def)
qed

text \<open>
  A new entry that spends nothing another one spends. Its depth is one more than that of its
  deepest parent; nothing in the pool depends on it yet.
\<close>

lemma insertEntry_core:
  assumes inv: "core r p" and i: "me_TxID e = i" "txID (me_Tx e) = i" "i |\<notin>| fmdom (po_entries p)"
    and self: "i \<notin> set (inTxIDs (me_Tx e))"
    and free: "\<And>k. k \<in> set (inKeys (me_Tx e)) \<Longrightarrow> fmlookup (po_spent p) k = None"
    and rank: "\<And>q. q \<in> set (inTxIDs (me_Tx e)) \<Longrightarrow> q |\<in>| fmdom (po_entries p) \<Longrightarrow> r q < n"
  shows "core (r(i := n)) (insertEntry e p)"
proof -
  let ?p = "insertEntry e p"
  let ?qs = "ffilter (\<lambda>q. q |\<in>| fmdom (po_entries p)) (fset_of_list (inTxIDs (me_Tx e)))"
  have nop: "refs (po_parents p) i = {||}" "i |\<notin>| fmdom (po_parents p)"
    using inv fmdom_notD [OF i(3)] i(3) unfolding core_def by (fastforce, simp)
  have noq: "i |\<notin>| refs (po_parents p) c" for c using inv i(3) by (auto simp: core_def)
  have noc: "refs (po_childs p) i = {||}" using inv noq by (auto simp: core_def)
  have en: "po_entries ?p = fmupd i e (po_entries p)" by (simp add: insertEntry_def linkInput_fold(1) i)
  have sp: "fmlookup (po_spent ?p) k = (if k \<in> set (inKeys (me_Tx e)) then Some i else fmlookup (po_spent p) k)" for k
    by (simp add: insertEntry_def linkInput_fold(3) i inKeys_def)
  have pa: "refs (po_parents ?p) c = (if c = i then ?qs else refs (po_parents p) c)" for c
    using self by (auto simp: insertEntry_def linkInput_fold(4) i nop inTxIDs_def fset_of_list_elem)
  have ch: "refs (po_childs ?p) q = (if q |\<in>| ?qs then finsert i (refs (po_childs p) q) else refs (po_childs p) q)" for q
    using self by (auto simp: insertEntry_def linkInput_fold(5) i inTxIDs_def fset_of_list_elem)
  have dom: "fmdom (po_parents ?p) = fmdom (po_entries ?p)"
    using inv nop by (simp add: insertEntry_def linkInput_fold(1,6) i core_def)
  have spent: "fmlookup (po_spent p) k = Some j \<longleftrightarrow> (\<exists>e'. fmlookup (po_entries p) j = Some e' \<and> k \<in> set (inKeys (me_Tx e')))" for k j
    using inv by (simp add: core_def)
  have none: "fmlookup (po_entries p) i = None" using i(3) by (rule fmdom_notD)
  show ?thesis
    unfolding core_def
  proof (intro conjI allI impI)
    show "fmlookup (po_spent ?p) k = Some j \<longleftrightarrow>
        (\<exists>e'. fmlookup (po_entries ?p) j = Some e' \<and> k \<in> set (inKeys (me_Tx e')))" for k j
    proof (cases "k \<in> set (inKeys (me_Tx e))")
      case True
      with free have "fmlookup (po_spent p) k = None" by simp
      with spent [of k j] True show ?thesis by (auto simp: sp en)
    next
      case False
      with spent [of k j] none show ?thesis by (auto simp: sp en)
    qed
    show "c |\<in>| refs (po_childs ?p) q \<longleftrightarrow> q |\<in>| refs (po_parents ?p) c" for c q
      using inv noc noq [of c] nop by (auto simp: ch pa core_def)
    show "no_empty (po_childs ?p)" using inv by (simp add: insertEntry_def linkInput_fold(7) core_def)
    show "fmdom (po_parents ?p) = fmdom (po_entries ?p)" by (rule dom)
    show "q |\<in>| refs (po_parents ?p) c \<Longrightarrow> (r(i := n)) q < (r(i := n)) c" for c q
      using rank [of q] inv noq [of c] self by (auto simp: pa core_def fset_of_list_elem)
    show "q |\<in>| refs (po_parents ?p) c \<Longrightarrow> q |\<in>| fmdom (po_entries ?p)" for c q
      using inv by (auto simp: pa en core_def split: if_splits)
    show "q |\<in>| refs (po_parents ?p) c \<Longrightarrow> \<exists>e'. fmlookup (po_entries ?p) c = Some e' \<and> q \<in> set (inTxIDs (me_Tx e'))" for c q
      using inv nop by (auto simp: pa en core_def fset_of_list_elem split: if_splits)
  qed (use inv i in \<open>auto simp: en core_def split: if_splits\<close>)
qed

section \<open>Eviction\<close>

lemma lowerRate_dom:
  "lowerRate es i low = Some (j, v) \<Longrightarrow> (\<forall>k w. low = Some (k, w) \<longrightarrow> k |\<in>| fmdom es) \<Longrightarrow> j |\<in>| fmdom es"
  by (auto simp: lowerRate_def Let_def split: option.splits if_splits prod.splits intro: fmdomI)

lemma fold_lowerRate_dom:
  assumes "fold F is low = Some (j, v)" "\<forall>k w. low = Some (k, w) \<longrightarrow> k |\<in>| fmdom es"
    "\<And>i low. F i low = low \<or> F i low = lowerRate es i low"
  shows "j |\<in>| fmdom es"
  using assms
proof (induction "is" arbitrary: low)
  case (Cons i "is")
  have "\<forall>k w. F i low = Some (k, w) \<longrightarrow> k |\<in>| fmdom es"
    using Cons.prems(2) Cons.prems(3) [of i low] lowerRate_dom by metis
  with Cons show ?case by simp
qed simp

lemma lowestEvictionCandidate_dom:
  assumes "lowestEvictionCandidate ord es childs = Some (j, v)"
  shows "j |\<in>| fmdom es"
proof (cases "fold (\<lambda>i low. if refs childs i \<noteq> {||} then low else lowerRate es i low) (ord (fmdom es)) None")
  case None
  then have "fold (lowerRate es) (ord (fmdom es)) None = Some (j, v)"
    using assms by (simp add: lowestEvictionCandidate_def lowestFeeRateEntry_def)
  then show ?thesis by (rule fold_lowerRate_dom) auto
next
  case (Some c)
  then have "fold (\<lambda>i low. if refs childs i \<noteq> {||} then low else lowerRate es i low) (ord (fmdom es)) None = Some (j, v)"
    using assms by (simp add: lowestEvictionCandidate_def)
  then show ?thesis by (rule fold_lowerRate_dom) auto
qed

lemma removed_card:
  assumes "removed r X p p'" "fmlookup (po_entries p') i = None" "i |\<in>| fmdom (po_entries p)"
  shows "mlen (po_entries p') < mlen (po_entries p)"
proof -
  have "fmdom (po_entries p') |\<subset>| fmdom (po_entries p)"
    using assms fmsubset_dom [of "po_entries p'" "po_entries p"] fmdom_notI [OF assms(2)]
    by (auto simp: removed_def)
  then have "fcard (fmdom (po_entries p')) < fcard (fmdom (po_entries p))"
    unfolding fcard.rep_eq by (intro psubset_card_mono) (auto simp: less_eq_fset.rep_eq)
  then show ?thesis by simp
qed

lemma makeRoom_removed:
  assumes "core r p" "order_ok ord" "mlen (po_entries p) \<le> po_maxTx p" "makeRoom ord e p = Inr p'"
  shows "\<exists>X. removed r X p p' \<and> mlen (po_entries p') < po_maxTx p"
proof (cases "mlen (po_entries p) < po_maxTx p")
  case True
  then show ?thesis using assms removed_refl by (auto simp: makeRoom_def)
next
  case False
  with assms(4) obtain j v where j: "lowestEvictionCandidate ord (po_entries p) (po_childs p) = Some (j, v)"
    and p': "p' = removeEntry ord True j p"
    by (auto simp: makeRoom_def split: option.splits if_splits)
  note rm = removeEntry_removed [OF assms(1,2), of j]
  have "mlen (po_entries p') < mlen (po_entries p)"
    unfolding p' by (rule removed_card [OF rm lowestEvictionCandidate_dom [OF j]])
  with rm(1) assms(3) show ?thesis unfolding p' by (intro exI [of _ "{j}"]) simp
qed

section \<open>The whole pool\<close>

definition mempool_ok :: "Pool \<Rightarrow> bool" where
  "mempool_ok p \<longleftrightarrow> pool_inv p \<and> mlen (po_entries p) \<le> po_maxTx p \<and>
     (\<forall>i tx. fmlookup (po_orphans p) i = Some tx \<longrightarrow> txID tx = i) \<and>
     0 < po_maxOrph p \<and> mlen (po_orphans p) \<le> po_maxOrph p"

lemma mempool_ok_new: "mempool_ok newPool"
  using core_new [of "\<lambda>_. 0"]
  by (auto simp: mempool_ok_def pool_inv_def)
    (auto simp: newPool_def DefaultMaxTransactions_def DefaultMaxOrphans_def fcard.rep_eq)

lemma pool_inv_core: "core r p \<Longrightarrow> (\<And>c. r c \<le> MaxAncestorDepth) \<Longrightarrow> pool_inv p"
  by (auto simp: pool_inv_def)

lemma deleteOrphan_simps:
  "po_entries (deleteOrphan i p) = po_entries p" "po_maxTx (deleteOrphan i p) = po_maxTx p"
  "po_maxOrph (deleteOrphan i p) = po_maxOrph p" "core r (deleteOrphan i p) = core r p"
  "po_orphans (deleteOrphan i p) = fmdrop i (po_orphans p)"
  by (simp_all add: deleteOrphan_def core_def split: option.splits) (auto intro!: fmap_ext)

lemma deleteOrphan_ok: "mempool_ok p \<Longrightarrow> mempool_ok (deleteOrphan i p)"
  using fcard_drop_le [of i "po_orphans p"]
  by (auto simp: mempool_ok_def deleteOrphan_simps pool_inv_def split: if_splits)

lemma removed_ok:
  assumes "mempool_ok p" "core r p" "\<And>c. r c \<le> MaxAncestorDepth" "removed r X p p'"
  shows "mempool_ok p'"
proof -
  have "fmdom (po_entries p') |\<subseteq>| fmdom (po_entries p)"
    using assms(4) fmsubset_dom [of "po_entries p'" "po_entries p"] by (auto simp: removed_def)
  then have "fcard (fmdom (po_entries p')) \<le> fcard (fmdom (po_entries p))"
    unfolding fcard.rep_eq by (intro card_mono) (auto simp: less_eq_fset.rep_eq)
  with assms pool_inv_core [of r p'] show ?thesis by (auto simp: mempool_ok_def removed_def same_rest_def)
qed

text \<open>Replacement is off: whoever has a conflict is refused.\<close>

lemma resolveConflicts_Inr:
  assumes "order_ok ord" "resolveConflicts ord e p = Inr p'"
  shows "p' = p \<and> (\<forall>k\<in>set (inKeys (me_Tx e)). fmlookup (po_spent p) k = None)"
proof -
  have "ord (conflictOwners (me_Tx e) p) = []"
    using assms(2) by (auto simp: resolveConflicts_def Let_def checkReplacementPolicy_def rbfEnabled_def
        split: if_splits option.splits)
  then have "conflictOwners (me_Tx e) p = {||}" using order_set [OF assms(1), of "conflictOwners (me_Tx e) p"] by auto
  then have "List.map_filter (fmlookup (po_spent p)) (inKeys (me_Tx e)) = []"
    unfolding conflictOwners_def by (metis bot_fset.rep_eq fset_of_list.rep_eq set_empty)
  then have "\<forall>k\<in>set (inKeys (me_Tx e)). fmlookup (po_spent p) k = None"
    by (auto simp: List.map_filter_def filter_empty_conv)
  with assms(2) \<open>ord _ = []\<close> show ?thesis by (simp add: resolveConflicts_def)
qed

lemma admit_cases:
  assumes "admit ord e p0 = (r, p')"
  obtains (full) "p' = deleteOrphan (me_TxID e) p0" "\<exists>x. r = Inl x"
  | (room) p where "makeRoom ord e (deleteOrphan (me_TxID e) p0) = Inr p" "p' = p" "\<exists>x. r = Inl x"
  | (in_pool) p q where "makeRoom ord e (deleteOrphan (me_TxID e) p0) = Inr p" "me_TxID e |\<notin>| fmdom (po_entries p)"
      "resolveConflicts ord e p = Inr q" "p' = q" "\<exists>x. r = Inl x"
  | (entered) p q where "makeRoom ord e (deleteOrphan (me_TxID e) p0) = Inr p" "me_TxID e |\<notin>| fmdom (po_entries p)"
      "resolveConflicts ord e p = Inr q" "checkAncestorDepth ord q (inTxIDs (me_Tx e)) 0 = Inr ()"
      "p' = insertEntry e q" "r = Inr e"
  using assms by (auto simp: admit_def Let_def split: sum.splits if_splits)

lemma admit_ok:
  assumes ok: "mempool_ok p0" and ord: "order_ok ord" and e: "me_TxID e = txID (me_Tx e)"
    "me_TxID e \<notin> set (inTxIDs (me_Tx e))" and ad: "admit ord e p0 = (r, p')"
  shows "mempool_ok p'"
proof -
  let ?p = "deleteOrphan (me_TxID e) p0"
  have p: "mempool_ok ?p" using ok by (rule deleteOrphan_ok)
  then obtain rk where rk: "core rk ?p" "\<And>c. rk c \<le> MaxAncestorDepth" by (auto simp: mempool_ok_def pool_inv_def)
  have room: "\<exists>X. removed rk X ?p q \<and> mlen (po_entries q) < po_maxTx ?p" if "makeRoom ord e ?p = Inr q" for q
    using makeRoom_removed [OF rk(1) ord _ that] p by (simp add: mempool_ok_def)
  have q: "mempool_ok q \<and> core rk q \<and> mlen (po_entries q) < po_maxTx q" if "makeRoom ord e ?p = Inr q" for q
    using room [OF that] removed_ok [OF p rk] by (auto simp: removed_def same_rest_def)
  from ad show ?thesis
  proof (cases rule: admit_cases)
    case full
    then show ?thesis using p by simp
  next
    case (room q)
    then show ?thesis using q by simp
  next
    case (in_pool q q')
    then show ?thesis using q resolveConflicts_Inr [OF ord] by blast
  next
    case (entered q q')
    have q': "q' = q" and free: "\<And>k. k \<in> set (inKeys (me_Tx e)) \<Longrightarrow> fmlookup (po_spent q) k = None"
      using resolveConflicts_Inr [OF ord entered(3)] by auto
    have qok: "mempool_ok q" "core rk q" "mlen (po_entries q) < po_maxTx q" using q [OF entered(1)] by auto
    let ?d = "ancestorDepth ord q"
    have d: "core ?d q" by (rule ancestorDepth_rank [OF qok(2) ord])
    have bound: "?d c \<le> MaxAncestorDepth" for c
      using ancestorDepthF_le [OF qok(2) ord] rk(2) [of c] le_trans unfolding ancestorDepth_def by blast
    have "core (?d(me_TxID e := MaxAncestorDepth)) (insertEntry e q)"
      by (rule insertEntry_core [OF d refl e(1) [symmetric] entered(2) e(2) free])
        (use checkAncestorDepth_Inr [OF entered(4) [unfolded q']] in \<open>simp_all add: Suc_le_eq\<close>)
    then have "pool_inv (insertEntry e q)" by (rule pool_inv_core) (use bound in auto)
    moreover have "po_entries (insertEntry e q) = fmupd (me_TxID e) e (po_entries q)"
      "same_rest q (insertEntry e q)"
      using linkInput_fold(2) [of "q\<lparr>po_entries := fmupd (me_TxID e) e (po_entries q),
          po_parents := (if me_TxID e |\<in>| fmdom (po_parents q) then po_parents q
                         else fmupd (me_TxID e) {||} (po_parents q))\<rparr>" "me_TxID e" "tx_TxIn (me_Tx e)"]
      by (simp_all add: insertEntry_def linkInput_fold(1) same_rest_def)
    ultimately show ?thesis
      using qok entered by (auto simp: mempool_ok_def same_rest_def q' fcard_finsert_if)
  qed
qed

lemma addOrphanTx_ok:
  assumes ok: "mempool_ok p" and ord: "order_ok ord"
  shows "mempool_ok (addOrphanTx ord tx (txID tx) missing p)"
proof (cases "txID tx |\<in>| fmdom (po_orphans p)")
  case True
  then show ?thesis using ok by (simp add: addOrphanTx_def)
next
  case False
  define q where "q = (if mlen (po_orphans p) \<ge> po_maxOrph p
    then (case ord (fmdom (po_orphans p)) of [] \<Rightarrow> p | i # _ \<Rightarrow> deleteOrphan i p) else p)"
  have q: "mempool_ok q" using ok deleteOrphan_ok by (auto simp: q_def split: list.split)
  have room: "mlen (po_orphans q) < po_maxOrph q"
  proof (cases "mlen (po_orphans p) \<ge> po_maxOrph p")
    case True
    then have "fmdom (po_orphans p) \<noteq> {||}" using ok by (auto simp: mempool_ok_def fcard.rep_eq)
    then obtain i rest where o: "ord (fmdom (po_orphans p)) = i # rest"
      using order_set [OF ord, of "fmdom (po_orphans p)"] by (cases "ord (fmdom (po_orphans p))") auto
    then have "i |\<in>| fmdom (po_orphans p)" using order_set [OF ord, of "fmdom (po_orphans p)"] by auto
    from fcard_drop [OF this] ok o True show ?thesis by (simp add: q_def mempool_ok_def deleteOrphan_simps)
  qed (simp add: q_def)
  have "addOrphanTx ord tx (txID tx) missing p = q\<lparr>po_orphans := fmupd (txID tx) tx (po_orphans q),
      po_orphRef := fold (\<lambda>dep. addref dep (txID tx)) missing (po_orphRef q)\<rparr>"
    using False by (simp add: addOrphanTx_def q_def Let_def)
  then show ?thesis
    using q room by (auto simp: mempool_ok_def pool_inv_def fcard_finsert_if)
qed

section \<open>A block\<close>

text \<open>
  Removal for a block only takes entries away; what stays in the pool neither is in the block
  nor spends what the block spends, and has kept its parents.
\<close>

text \<open>The entries whose removal the block asks for.\<close>

definition blockConflicts :: "MsgBlock \<Rightarrow> Pool \<Rightarrow> string set" where
  "blockConflicts block p =
     txID ` set (bk_Transactions block) \<union>
     {i. \<exists>e. fmlookup (po_entries p) i = Some e \<and> set (inKeys (me_Tx e)) \<inter> set (blockSpent block) \<noteq> {}}"

lemma removeSpender_removed:
  assumes "core r p" "order_ok ord"
  shows "(\<exists>X. removed r X p (removeSpender ord spent i p) \<and>
       X \<subseteq> {i. \<exists>e. fmlookup (po_entries p) i = Some e \<and> set (inKeys (me_Tx e)) \<inter> set spent \<noteq> {}}) \<and>
    (\<forall>e. fmlookup (po_entries (removeSpender ord spent i p)) i = Some e \<longrightarrow>
       set (inKeys (me_Tx e)) \<inter> set spent = {})"
proof (cases "\<exists>e. fmlookup (po_entries p) i = Some e \<and> list_ex (\<lambda>key. key \<in> set spent) (inKeys (me_Tx e))")
  case True
  then obtain e where e: "fmlookup (po_entries p) i = Some e" "list_ex (\<lambda>key. key \<in> set spent) (inKeys (me_Tx e))"
    by blast
  with removeEntry_removed [OF assms, of i] show ?thesis
    by (intro conjI exI [of _ "{i}"]) (auto simp: removeSpender_def list_ex_iff)
next
  case False
  then have "removeSpender ord spent i p = p" by (auto simp: removeSpender_def split: option.splits)
  with False removed_refl [OF assms(1), of "{}"] show ?thesis by (fastforce simp: list_ex_iff)
qed

lemma fold_spenders:
  assumes "core r p" "order_ok ord"
  shows "(\<exists>X. removed r X p (fold (removeSpender ord spent) is p) \<and>
       X \<subseteq> {i. \<exists>e. fmlookup (po_entries p) i = Some e \<and> set (inKeys (me_Tx e)) \<inter> set spent \<noteq> {}}) \<and>
    (\<forall>i\<in>set is. \<forall>e. fmlookup (po_entries (fold (removeSpender ord spent) is p)) i = Some e \<longrightarrow>
       set (inKeys (me_Tx e)) \<inter> set spent = {})"
  using assms(1)
proof (induction "is" arbitrary: p)
  case Nil
  then show ?case using removed_refl by (fastforce intro: exI [of _ "{}"])
next
  case (Cons i "is")
  let ?q = "removeSpender ord spent i p"
  obtain X where X: "removed r X p ?q"
    "X \<subseteq> {i. \<exists>e. fmlookup (po_entries p) i = Some e \<and> set (inKeys (me_Tx e)) \<inter> set spent \<noteq> {}}"
    and i: "\<And>e. fmlookup (po_entries ?q) i = Some e \<Longrightarrow> set (inKeys (me_Tx e)) \<inter> set spent = {}"
    using removeSpender_removed [OF Cons.prems assms(2)] by blast
  then have q: "core r ?q" "po_entries ?q \<subseteq>\<^sub>f po_entries p" by (auto simp: removed_def)
  obtain Z where Z: "removed r Z ?q (fold (removeSpender ord spent) is ?q)"
    "Z \<subseteq> {i. \<exists>e. fmlookup (po_entries ?q) i = Some e \<and> set (inKeys (me_Tx e)) \<inter> set spent \<noteq> {}}"
    and rest: "\<And>i e. i \<in> set is \<Longrightarrow> fmlookup (po_entries (fold (removeSpender ord spent) is ?q)) i = Some e \<Longrightarrow>
      set (inKeys (me_Tx e)) \<inter> set spent = {}"
    using Cons.IH [OF q(1)] by blast
  have "po_entries (fold (removeSpender ord spent) is ?q) \<subseteq>\<^sub>f po_entries ?q" using Z(1) by (simp add: removed_def)
  with i rest have "\<forall>j\<in>set (i # is). \<forall>e. fmlookup (po_entries (fold (removeSpender ord spent) is ?q)) j = Some e \<longrightarrow>
      set (inKeys (me_Tx e)) \<inter> set spent = {}" by (auto simp: fmsubset_iff)
  moreover have "X \<union> Z \<subseteq> {i. \<exists>e. fmlookup (po_entries p) i = Some e \<and> set (inKeys (me_Tx e)) \<inter> set spent \<noteq> {}}"
    using X(2) Z(2) q(2) by (fastforce simp: fmsubset_iff)
  ultimately show ?case using removed_trans [OF X(1) Z(1)] by (intro conjI exI [of _ "X \<union> Z"]) simp_all
qed

lemma RemoveForBlock_removed:
  assumes "core r p" "order_ok ord"
  shows "\<exists>X. removed r X p (RemoveForBlock ord block p) \<and> X \<subseteq> blockConflicts block p \<and>
    (\<forall>i e. fmlookup (po_entries (RemoveForBlock ord block p)) i = Some e \<longrightarrow>
       i \<notin> txID ` set (bk_Transactions block) \<and> set (inKeys (me_Tx e)) \<inter> set (blockSpent block) = {})"
proof -
  let ?F = "\<lambda>tx. removeEntry ord True (txID tx)"
  define q where "q = fold ?F (bk_Transactions block) p"
  let ?is = "ord (fmdom (po_entries q))"
  have e: "RemoveForBlock ord block p = fold (removeSpender ord (blockSpent block)) ?is q"
    by (simp add: RemoveForBlock_def q_def Let_def)
  have fm: "fold ?F txs p = fold (removeEntry ord True) (map txID txs) p" for txs
    by (simp add: fold_map comp_def)
  have f: "removed r (txID ` set (bk_Transactions block)) p q \<and>
      (\<forall>c\<in>txID ` set (bk_Transactions block). fmlookup (po_entries q) c = None)"
    using fold_removed [OF assms(1), of "map txID (bk_Transactions block)" "removeEntry ord True"]
      removeEntry_removed [OF _ assms(2)] unfolding q_def fm by simp
  then have q: "core r q" "po_entries q \<subseteq>\<^sub>f po_entries p" by (auto simp: removed_def)
  let ?s = "fold (removeSpender ord (blockSpent block)) ?is q"
  obtain Z where Z: "removed r Z q ?s"
    "Z \<subseteq> {i. \<exists>e. fmlookup (po_entries q) i = Some e \<and> set (inKeys (me_Tx e)) \<inter> set (blockSpent block) \<noteq> {}}"
    and sp: "\<And>i e. i \<in> set ?is \<Longrightarrow> fmlookup (po_entries ?s) i = Some e \<Longrightarrow>
      set (inKeys (me_Tx e)) \<inter> set (blockSpent block) = {}"
    using fold_spenders [OF q(1) assms(2)] by blast
  have sub: "po_entries ?s \<subseteq>\<^sub>f po_entries q" using Z(1) by (simp add: removed_def)
  have in_q: "i \<in> set ?is \<and> fmlookup (po_entries q) i = Some e" if "fmlookup (po_entries ?s) i = Some e" for i e
    using that sub order_set [OF assms(2)] by (auto simp: fmsubset_iff intro: fmdomI)
  have last: "i \<notin> txID ` set (bk_Transactions block) \<and> set (inKeys (me_Tx e)) \<inter> set (blockSpent block) = {}"
    if "fmlookup (po_entries ?s) i = Some e" for i e
    using in_q [OF that] sp that f by force
  have "txID ` set (bk_Transactions block) \<union> Z \<subseteq> blockConflicts block p"
    using Z(2) q(2) by (fastforce simp: blockConflicts_def fmsubset_iff)
  with removed_trans [OF conjunct1 [OF f] Z(1)] last show ?thesis
    unfolding e by (intro exI [of _ "txID ` set (bk_Transactions block) \<union> Z"]) blast
qed

lemma RemoveForBlock_ok:
  assumes "mempool_ok p" "order_ok ord"
  shows "mempool_ok (RemoveForBlock ord block p)"
proof -
  obtain r where r: "core r p" "\<And>c. r c \<le> MaxAncestorDepth"
    using assms(1) by (auto simp: mempool_ok_def pool_inv_def)
  obtain X where "removed r X p (RemoveForBlock ord block p)"
    using RemoveForBlock_removed [OF r(1) assms(2)] by blast
  then show ?thesis by (rule removed_ok [OF assms(1) r])
qed

end
