(* ===== verification/MempoolAdd.thy ===== *)
theory MempoolAdd
  imports MempoolOps
begin

text \<open>
  Adding a transaction with everything it sets off: \<open>Add\<close> is validation, one locked step and
  the promotion of waiting orphans by more such steps. Whatever the steps keep, \<open>Add\<close> keeps,
  and the recursion ends.
\<close>

lemma validateTransaction_id:
  "validateTransaction C ch tx p = Missing t m \<Longrightarrow> t = txID tx"
  "validateTransaction C ch tx p = Valid t f \<Longrightarrow> t = txID tx"
  by (auto simp: validateTransaction_def Let_def split: if_splits sum.splits prod.splits)

text \<open>The three ways \<open>addOne\<close> ends.\<close>

lemma addOne_cases:
  assumes "addOne C ord ch tx p = (r, p')"
  obtains (same) e where "r = Inl e" "p' = p" "e \<noteq> MpDiverges \<or> validateTransaction C ch tx p = Invalid MpDiverges"
  | (orphan) missing where "validateTransaction C ch tx p = Missing (txID tx) missing" "r = Inl MpOrphan"
      "p' = addOrphanTx ord tx (txID tx) missing p"
  | (admitted) e where "me_Tx e = tx" "me_TxID e = txID tx" "admit ord e p = (r, p')"
      "validateTransaction C ch tx p = Valid (txID tx) (me_Fee e)" "me_Size e = int (length (tx_Serialize tx))"
      "checkStandardness tx (me_Size e) = Inr ()" "MeetsMinRelayFee (me_Fee e) (me_Size e)"
proof (cases "validateTransaction C ch tx p")
  case (Invalid e)
  then show ?thesis using assms same by (auto simp: addOne_def)
next
  case (Missing t m)
  then show ?thesis using assms orphan validateTransaction_id(1) [OF Missing] by (auto simp: addOne_def)
next
  case (Valid t f)
  let ?e = "\<lparr>me_Tx = tx, me_TxID = t, me_Fee = f, me_Size = int (length (tx_Serialize tx))\<rparr>"
  have t: "t = txID tx" by (rule validateTransaction_id(2) [OF Valid])
  show ?thesis
  proof (cases "checkStandardness tx (me_Size ?e)")
    case (Inl e)
    have "e \<noteq> MpDiverges"
    proof -
      have "checkStandardInputs ins = Inl e \<Longrightarrow> e \<noteq> MpDiverges" for ins
        by (induction ins) (auto simp: Let_def split: if_splits)
      moreover have "checkStandardOutputs outs = Inl e \<Longrightarrow> e \<noteq> MpDiverges" for outs
        by (induction outs) (auto split: if_splits)
      ultimately show ?thesis using Inl by (auto simp: checkStandardness_def split: if_splits sum.splits)
    qed
    with Inl Valid assms same show ?thesis by (auto simp: addOne_def Let_def)
  next
    case (Inr u)
    show ?thesis
    proof (cases "MeetsMinRelayFee (me_Fee ?e) (me_Size ?e)")
      case True
      with Inr Valid assms t show ?thesis by (intro admitted [of ?e]) (simp_all add: addOne_def Let_def)
    next
      case False
      with Inr Valid assms same show ?thesis by (auto simp: addOne_def Let_def)
    qed
  qed
qed

section \<open>What every step keeps\<close>

locale pool_invariant =
  fixes S :: "MsgTx set" and I :: "Pool \<Rightarrow> bool"
  assumes admitted: "\<lbrakk>I p; order_ok ord; me_Tx e \<in> S; me_TxID e = txID (me_Tx e); admit ord e p = (r, p')\<rbrakk> \<Longrightarrow> I p'"
    and orphaned: "\<lbrakk>I p; order_ok ord; tx \<in> S\<rbrakk> \<Longrightarrow> I (addOrphanTx ord tx (txID tx) missing p)"
    and block: "\<lbrakk>I p; order_ok ord\<rbrakk> \<Longrightarrow> I (RemoveForBlock ord block p)"
    and waiting: "\<lbrakk>I p; fmlookup (po_orphans p) i = Some tx\<rbrakk> \<Longrightarrow> tx \<in> S"
begin

lemma inv_addOne: "addOne C ord ch tx p = (r, p') \<Longrightarrow> I p \<Longrightarrow> order_ok ord \<Longrightarrow> tx \<in> S \<Longrightarrow> I p'"
  by (erule addOne_cases) (auto intro: admitted orphaned)

lemma inv_promoteAll:
  assumes "\<And>tx p r p'. add tx p = (r, p') \<Longrightarrow> I p \<Longrightarrow> tx \<in> S \<Longrightarrow> I p'"
  shows "promoteAll add ids p = (hs, p') \<Longrightarrow> I p \<Longrightarrow> I p'"
proof (induction ids arbitrary: p hs)
  case (Cons i ids)
  show ?case
  proof (cases "fmlookup (po_orphans p) i")
    case None
    with Cons show ?thesis by simp
  next
    case (Some tx)
    obtain r q where q: "add tx p = (r, q)" by (cases "add tx p")
    have "I q" by (rule assms [OF q Cons.prems(2) waiting [OF Cons.prems(2) Some]])
    with Cons Some q show ?thesis by (auto simp: Let_def split: sum.splits prod.splits)
  qed
qed simp

lemma inv_promote:
  assumes "\<And>tx p r p'. add tx p = (r, p') \<Longrightarrow> I p \<Longrightarrow> tx \<in> S \<Longrightarrow> I p'"
  shows "I p \<Longrightarrow> I (promoteOrphans n ord add queue seen p)"
proof (induction n arbitrary: queue seen p)
  case 0
  then show ?case by (cases queue) simp_all
next
  case (Suc n)
  show ?case
  proof (cases queue)
    case (Cons parent rest)
    obtain hs q where q: "promoteAll add (waitingFor ord parent seen p) p = (hs, q)"
      by (cases "promoteAll add (waitingFor ord parent seen p) p")
    have "I q" by (rule inv_promoteAll [OF assms q Suc.prems])
    with Suc.IH q show ?thesis by (simp add: Cons Let_def)
  qed (use Suc.prems in simp)
qed

lemma inv_addTxF: "addTxF n C ord ch tx p = (r, p') \<Longrightarrow> I p \<Longrightarrow> order_ok ord \<Longrightarrow> tx \<in> S \<Longrightarrow> I p'"
proof (induction n arbitrary: tx p r p')
  case (Suc n)
  obtain x q where x: "addOne C ord ch tx p = (x, q)" by (cases "addOne C ord ch tx p")
  have q: "I q" by (rule inv_addOne [OF x Suc.prems(2-4)])
  have "I (promoteOrphans m ord (addTxF n C ord ch) queue seen q)" for m queue seen
    by (rule inv_promote [OF _ q]) (use Suc.IH Suc.prems(3) in blast)
  with Suc.prems(1) x q show ?case by (auto simp del: promoteOrphans.simps split: sum.splits)
qed simp

lemma inv_Add: "Add C ord ch tx p = (r, p') \<Longrightarrow> I p \<Longrightarrow> order_ok ord \<Longrightarrow> tx \<in> S \<Longrightarrow> I p'"
  unfolding Add_def by (rule inv_addTxF)

end

text \<open>No transaction spends an output of itself: its id is a hash of what it spends.\<close>

definition txs_ok :: "MsgTx set \<Rightarrow> bool" where
  "txs_ok S \<longleftrightarrow> (\<forall>tx\<in>S. txID tx \<notin> set (inTxIDs tx))"

definition pool_ok_in :: "MsgTx set \<Rightarrow> Pool \<Rightarrow> bool" where
  "pool_ok_in S p \<longleftrightarrow> txs_ok S \<and> mempool_ok p \<and> (\<forall>i tx. fmlookup (po_orphans p) i = Some tx \<longrightarrow> tx \<in> S)"

lemma same_rest_refl [simp]: "same_rest p p"
  by (simp add: same_rest_def)

lemma same_rest_trans: "same_rest p q \<Longrightarrow> same_rest q t \<Longrightarrow> same_rest p t"
  by (simp add: same_rest_def)

lemma removeEntryF_rest: "same_rest p (removeEntryF n ord b i p)"
proof (induction n arbitrary: b i p)
  case (Suc n)
  have f: "same_rest p (fold (removeEntryF n ord True) is p)" for "is" p
  proof (induction "is" arbitrary: p)
    case (Cons i "is")
    show ?case using same_rest_trans [OF Suc.IH Cons.IH] by simp
  qed simp
  have d: "same_rest q (detach ord i e q)" for e q by (simp add: same_rest_def detach_def)
  show ?case using same_rest_trans [OF f d] d by (auto split: option.splits)
qed simp

lemma removeEntry_rest: "same_rest p (removeEntry ord b i p)"
  unfolding removeEntry_def by (rule removeEntryF_rest)

lemma insertEntry_rest: "same_rest p (insertEntry e p)"
proof -
  have "same_rest p (p\<lparr>po_entries := a, po_parents := b\<rparr>)" for a b by (simp add: same_rest_def)
  from same_rest_trans [OF this linkInput_fold(2)] show ?thesis unfolding insertEntry_def .
qed

text \<open>Admission takes the transaction off the orphans, and touches no other.\<close>

lemma admit_orphans:
  assumes "order_ok ord" "admit ord e p = (r, p')"
  shows "po_orphans p' = fmdrop (me_TxID e) (po_orphans p)"
proof -
  have room: "makeRoom ord e q = Inr q' \<Longrightarrow> po_orphans q' = po_orphans q" for q q'
    using removeEntry_rest by (auto simp: makeRoom_def same_rest_def split: if_splits option.splits)
  have ins: "po_orphans (insertEntry e q) = po_orphans q" for q
    using insertEntry_rest by (simp add: same_rest_def)
  from assms(2) show ?thesis
  proof (cases rule: admit_cases)
    case (in_pool q q')
    then show ?thesis using room resolveConflicts_Inr [OF assms(1) in_pool(3)] by (simp add: deleteOrphan_simps)
  next
    case (entered q q')
    then show ?thesis using room ins resolveConflicts_Inr [OF assms(1) entered(3)] by (simp add: deleteOrphan_simps)
  qed (auto simp: deleteOrphan_simps dest: room)
qed

lemma addOrphanTx_known: "txID tx |\<in>| fmdom (po_orphans p) \<Longrightarrow> addOrphanTx ord tx (txID tx) missing p = p"
  by (simp add: addOrphanTx_def)

lemma addOrphanTx_sub:
  "fmlookup (po_orphans (addOrphanTx ord tx (txID tx) missing p)) i = Some t \<Longrightarrow>
     fmlookup (po_orphans p) i = Some t \<or> (i = txID tx \<and> t = tx)"
  by (auto simp: addOrphanTx_def Let_def deleteOrphan_simps split: if_splits list.splits)

lemma RemoveForBlock_rest: "same_rest p (RemoveForBlock ord block p)"
proof -
  have f: "(\<And>x p. same_rest p (F x p)) \<Longrightarrow> same_rest p (fold F xs p)" for F :: "'a \<Rightarrow> Pool \<Rightarrow> Pool" and xs p
    by (induction xs arbitrary: p) (auto intro: same_rest_trans)
  have s: "same_rest p (removeSpender ord sp i p)" for sp i p
    using removeEntry_rest by (auto simp: removeSpender_def split: option.splits)
  show ?thesis
    unfolding RemoveForBlock_def Let_def
    by (rule same_rest_trans [OF f f]) (auto intro: removeEntry_rest s)
qed

interpretation pool: pool_invariant S "pool_ok_in S" for S
proof (unfold_locales, goal_cases)
  case (1 p ord e r p')
  then show ?case
    using admit_ok [OF _ 1(2) 1(4) _ 1(5)] admit_orphans [OF 1(2,5)]
    by (auto simp: pool_ok_in_def txs_ok_def split: if_splits)
next
  case (2 p ord tx missing)
  then show ?case
    using addOrphanTx_ok [OF _ 2(2)] by (fastforce simp: pool_ok_in_def dest: addOrphanTx_sub)
next
  case (3 p ord block)
  then show ?case
    using RemoveForBlock_ok [OF _ 3(2)] RemoveForBlock_rest [of p ord block]
    by (auto simp: pool_ok_in_def same_rest_def)
next
  case (4 p i tx)
  then show ?case by (auto simp: pool_ok_in_def)
qed

section \<open>Reachable pools\<close>

text \<open>
  What can happen to a pool, interleaved in any way: the locked steps with transactions from
  \<open>S\<close>, whatever pool and chain they were validated against.
\<close>

inductive pool_reachable :: "MsgTx set \<Rightarrow> Pool \<Rightarrow> bool" for S where
  start: "pool_reachable S newPool"
| enter: "pool_reachable S p \<Longrightarrow> order_ok ord \<Longrightarrow> me_Tx e \<in> S \<Longrightarrow> me_TxID e = txID (me_Tx e) \<Longrightarrow>
    admit ord e p = (r, p') \<Longrightarrow> pool_reachable S p'"
| wait: "pool_reachable S p \<Longrightarrow> order_ok ord \<Longrightarrow> tx \<in> S \<Longrightarrow>
    pool_reachable S (addOrphanTx ord tx (txID tx) missing p)"
| mined: "pool_reachable S p \<Longrightarrow> order_ok ord \<Longrightarrow> pool_reachable S (RemoveForBlock ord block p)"

lemma pool_reachable_ok: "pool_reachable S p \<Longrightarrow> txs_ok S \<Longrightarrow> pool_ok_in S p"
proof (induction rule: pool_reachable.induct)
  case start
  then show ?case using mempool_ok_new by (simp add: pool_ok_in_def) (simp add: newPool_def)
next
  case (enter p ord e r p')
  then show ?case using pool.admitted by blast
next
  case (wait p ord tx missing)
  then show ?case using pool.orphaned by blast
next
  case (mined p ord block)
  then show ?case using pool.block by blast
qed

text \<open>The limits of \<open>New\<close> are never changed.\<close>

lemma admit_limits:
  assumes "order_ok ord" "admit ord e p = (r, p')"
  shows "po_maxTx p' = po_maxTx p \<and> po_maxOrph p' = po_maxOrph p"
proof -
  have room: "makeRoom ord e q = Inr q' \<Longrightarrow> po_maxTx q' = po_maxTx q \<and> po_maxOrph q' = po_maxOrph q" for q q'
    using removeEntry_rest by (auto simp: makeRoom_def same_rest_def split: if_splits option.splits)
  have ins: "po_maxTx (insertEntry e q) = po_maxTx q" "po_maxOrph (insertEntry e q) = po_maxOrph q" for q
    using insertEntry_rest by (simp_all add: same_rest_def)
  from assms(2) show ?thesis
  proof (cases rule: admit_cases)
    case (in_pool q q')
    then show ?thesis using room resolveConflicts_Inr [OF assms(1) in_pool(3)] by (simp add: deleteOrphan_simps)
  next
    case (entered q q')
    then show ?thesis using room ins resolveConflicts_Inr [OF assms(1) entered(3)] by (simp add: deleteOrphan_simps)
  qed (auto simp: deleteOrphan_simps dest: room)
qed

lemma addOrphanTx_limits:
  "po_maxTx (addOrphanTx ord tx t missing p) = po_maxTx p" "po_maxOrph (addOrphanTx ord tx t missing p) = po_maxOrph p"
  by (simp_all add: addOrphanTx_def Let_def deleteOrphan_simps split: list.splits)

lemma pool_reachable_limits:
  "pool_reachable S p \<Longrightarrow> po_maxTx p = DefaultMaxTransactions \<and> po_maxOrph p = DefaultMaxOrphans"
proof (induction rule: pool_reachable.induct)
  case start
  then show ?case by (simp add: newPool_def)
next
  case (mined p ord block)
  then show ?case using RemoveForBlock_rest [of p ord block] by (simp add: same_rest_def)
qed (use admit_limits addOrphanTx_limits in auto)

text \<open>Every \<open>Add\<close> is made of these steps.\<close>

interpretation reach: pool_invariant S "\<lambda>p. txs_ok S \<and> pool_reachable S p" for S
proof (unfold_locales, goal_cases)
  case (4 p i tx)
  then show ?case using pool_reachable_ok by (auto simp: pool_ok_in_def)
qed (auto intro: pool_reachable.intros)

section \<open>The recursion ends\<close>

abbreviation waitCount :: "Pool \<Rightarrow> nat" where
  "waitCount p \<equiv> fcard (fmdom (po_orphans p))"

definition keyed :: "Pool \<Rightarrow> bool" where
  "keyed p \<longleftrightarrow> (\<forall>i tx. fmlookup (po_orphans p) i = Some tx \<longrightarrow> txID tx = i)"

text \<open>
  What a step may do to the orphans when it is given one of them: not add any, and take one
  away when it succeeds.
\<close>

definition consumes :: "(MsgTx \<Rightarrow> Pool \<Rightarrow> (mempool_error + Entry) \<times> Pool) \<Rightarrow> bool" where
  "consumes add \<longleftrightarrow> (\<forall>tx p r p'. keyed p \<longrightarrow> fmlookup (po_orphans p) (txID tx) = Some tx \<longrightarrow> add tx p = (r, p') \<longrightarrow>
     keyed p' \<and> waitCount p' + (case r of Inl _ \<Rightarrow> 0 | Inr _ \<Rightarrow> 1) \<le> waitCount p)"

text \<open>Two steps that agree on pools with at most \<open>k\<close> orphans.\<close>

definition agree :: "nat \<Rightarrow> (MsgTx \<Rightarrow> Pool \<Rightarrow> (mempool_error + Entry) \<times> Pool) \<Rightarrow>
    (MsgTx \<Rightarrow> Pool \<Rightarrow> (mempool_error + Entry) \<times> Pool) \<Rightarrow> bool" where
  "agree k add add' \<longleftrightarrow> (\<forall>tx p. keyed p \<longrightarrow> fmlookup (po_orphans p) (txID tx) = Some tx \<longrightarrow> waitCount p \<le> k \<longrightarrow>
     add tx p = add' tx p)"

lemma keyed_lookup: "keyed p \<Longrightarrow> fmlookup (po_orphans p) i = Some tx \<Longrightarrow> fmlookup (po_orphans p) (txID tx) = Some tx"
  by (auto simp: keyed_def)

lemma promoteAll_count:
  assumes "consumes add"
  shows "promoteAll add ids p = (hs, p') \<Longrightarrow> keyed p \<Longrightarrow> keyed p' \<and> waitCount p' + length hs \<le> waitCount p"
proof (induction ids arbitrary: p hs p')
  case (Cons i ids)
  show ?case
  proof (cases "fmlookup (po_orphans p) i")
    case None
    with Cons show ?thesis by simp
  next
    case (Some tx)
    obtain r q where q: "add tx p = (r, q)" by (cases "add tx p")
    have c: "keyed q" "waitCount q + (case r of Inl _ \<Rightarrow> 0 | Inr _ \<Rightarrow> 1) \<le> waitCount p"
      using assms q keyed_lookup [OF Cons.prems(2) Some] Cons.prems(2) by (auto simp: consumes_def)
    obtain hs' q' where rest: "promoteAll add ids q = (hs', q')" by (cases "promoteAll add ids q")
    from Cons.IH [OF rest c(1)] Cons.prems(1) Some q rest c(2) show ?thesis
      by (auto simp: Let_def split: sum.splits)
  qed
qed simp

lemma promote_count:
  assumes "consumes add"
  shows "keyed p \<Longrightarrow> keyed (promoteOrphans n ord add queue seen p) \<and>
    waitCount (promoteOrphans n ord add queue seen p) \<le> waitCount p"
proof (induction n arbitrary: queue seen p)
  case 0
  then show ?case by (cases queue) simp_all
next
  case (Suc n)
  show ?case
  proof (cases queue)
    case (Cons parent rest)
    obtain hs q where q: "promoteAll add (waitingFor ord parent seen p) p = (hs, q)"
      by (cases "promoteAll add (waitingFor ord parent seen p) p")
    note c = promoteAll_count [OF assms q Suc.prems]
    with Suc.IH [of q "rest @ hs"] q show ?thesis by (fastforce simp: Cons Let_def intro: le_trans)
  qed (use Suc.prems in simp)
qed

lemma promoteAll_agree:
  assumes "consumes add" "agree k add add'"
  shows "keyed p \<Longrightarrow> waitCount p \<le> k \<Longrightarrow> promoteAll add' ids p = promoteAll add ids p"
proof (induction ids arbitrary: p)
  case (Cons i ids)
  show ?case
  proof (cases "fmlookup (po_orphans p) i")
    case None
    with Cons show ?thesis by simp
  next
    case (Some tx)
    note l = keyed_lookup [OF Cons.prems(1) Some]
    obtain r q where q: "add tx p = (r, q)" by (cases "add tx p")
    have q': "add' tx p = (r, q)" using assms(2) l Cons.prems q by (simp add: agree_def)
    have "keyed q" "waitCount q \<le> k"
      using assms(1) l Cons.prems q by (fastforce simp: consumes_def)+
    from Cons.IH [OF this] Some q q' show ?thesis by (simp split: sum.splits)
  qed
qed simp

text \<open>More rounds, and a step that agrees, change nothing.\<close>

lemma promote_agree:
  assumes "consumes add" "agree k add add'"
  shows "keyed p \<Longrightarrow> waitCount p \<le> k \<Longrightarrow> waitCount p + length queue \<le> n \<Longrightarrow> n \<le> m \<Longrightarrow>
    promoteOrphans m ord add' queue seen p = promoteOrphans n ord add queue seen p"
proof (induction n arbitrary: m queue seen p)
  case 0
  then show ?case by simp
next
  case (Suc n)
  obtain m' where m: "m = Suc m'" "n \<le> m'" using Suc.prems(4) by (cases m) auto
  show ?case
  proof (cases queue)
    case (Cons parent rest)
    obtain hs q where q: "promoteAll add (waitingFor ord parent seen p) p = (hs, q)"
      by (cases "promoteAll add (waitingFor ord parent seen p) p")
    note c = promoteAll_count [OF assms(1) q Suc.prems(1)]
    have "waitCount q \<le> k" "waitCount q + length (rest @ hs) \<le> n" using c Suc.prems(2,3) by (auto simp: Cons)
    from Suc.IH [OF conjunct1 [OF c] this m(2)] q promoteAll_agree [OF assms Suc.prems(1,2)]
    show ?thesis by (simp add: Cons m(1) Let_def)
  qed simp
qed

lemma addOne_orphans:
  assumes "order_ok ord" "addOne C ord ch tx p = (r, p')" "txID tx |\<in>| fmdom (po_orphans p) \<or> (\<exists>e. r = Inr e)"
  shows "(po_orphans p' = po_orphans p \<and> (\<forall>e. r \<noteq> Inr e)) \<or> po_orphans p' = fmdrop (txID tx) (po_orphans p)"
  using assms(2)
proof (cases rule: addOne_cases)
  case (orphan missing)
  then show ?thesis using assms(3) addOrphanTx_known by auto
next
  case (admitted e)
  then show ?thesis using admit_orphans [OF assms(1) admitted(3)] by simp
qed simp

lemma addOne_success:
  assumes "order_ok ord" "addOne C ord ch tx p = (Inr e, p')" "keyed p"
  shows "keyed p' \<and> waitCount p' \<le> waitCount p"
  using addOne_orphans [OF assms(1,2)] assms(3) fcard_drop_le [of "txID tx" "po_orphans p"] by (auto simp: keyed_def)

lemma addTxF_consumes: "order_ok ord \<Longrightarrow> consumes (addTxF n C ord ch)"
proof (induction n)
  case 0
  then show ?case by (simp add: consumes_def)
next
  case (Suc n)
  show ?case
    unfolding consumes_def
  proof (intro allI impI)
    fix tx p r p' assume p: "keyed p" "fmlookup (po_orphans p) (txID tx) = Some tx" "addTxF (Suc n) C ord ch tx p = (r, p')"
    obtain x q where x: "addOne C ord ch tx p = (x, q)" by (cases "addOne C ord ch tx p")
    have d: "txID tx |\<in>| fmdom (po_orphans p)" using p(2) by (rule fmdomI)
    from addOne_orphans [OF Suc.prems x] d fcard_drop [OF d] p(1)
    have q: "keyed q" "waitCount q + (case x of Inl _ \<Rightarrow> 0 | Inr _ \<Rightarrow> 1) \<le> waitCount p"
      by (auto simp: keyed_def split: sum.split if_splits)
    show "keyed p' \<and> waitCount p' + (case r of Inl _ \<Rightarrow> 0 | Inr _ \<Rightarrow> 1) \<le> waitCount p"
    proof (cases x)
      case (Inl e)
      with p(3) x q show ?thesis by simp
    next
      case (Inr e)
      have eq: "r = Inr e"
        "p' = promoteOrphans (waitCount q + 1) ord (addTxF n C ord ch) [me_TxID e] {||} q"
        using p(3) x by (simp_all add: Inr del: promoteOrphans.simps)
      from promote_count [OF Suc.IH [OF Suc.prems] q(1), of "waitCount q + 1" ord "[me_TxID e]" "{||}"] q(2)
      show ?thesis unfolding eq Inr sum.case by linarith
    qed
  qed
qed

lemma addTxF_agree: "order_ok ord \<Longrightarrow> k < n \<Longrightarrow> n \<le> m \<Longrightarrow> agree k (addTxF n C ord ch) (addTxF m C ord ch)"
proof (induction n arbitrary: k m)
  case (Suc n)
  obtain m' where m: "m = Suc m'" "n \<le> m'" using Suc.prems(3) by (cases m) auto
  show ?case
    unfolding agree_def
  proof (intro allI impI)
    fix tx p assume p: "keyed p" "fmlookup (po_orphans p) (txID tx) = Some tx" "waitCount p \<le> k"
    obtain x q where x: "addOne C ord ch tx p = (x, q)" by (cases "addOne C ord ch tx p")
    show "addTxF (Suc n) C ord ch tx p = addTxF m C ord ch tx p"
    proof (cases x)
      case (Inl e)
      with x show ?thesis by (simp add: m)
    next
      case (Inr e)
      have d: "txID tx |\<in>| fmdom (po_orphans p)" using p(2) by (rule fmdomI)
      from addOne_orphans [OF Suc.prems(1) x] d Inr
      have drop: "po_orphans q = fmdrop (txID tx) (po_orphans p)" by simp
      with fcard_drop [OF d] p(3) have q: "waitCount q + 1 \<le> k" by simp
      from drop p(1) have keyed: "keyed q" by (simp add: keyed_def)
      have "agree (waitCount q) (addTxF n C ord ch) (addTxF m' C ord ch)"
        by (rule Suc.IH) (use Suc.prems q m in auto)
      from promote_agree [OF addTxF_consumes [OF Suc.prems(1)] this keyed, of "[me_TxID e]" "waitCount q + 1" "waitCount q + 1" ord "{||}"]
      show ?thesis using x Inr by (simp add: m del: promoteOrphans.simps)
    qed
  qed
qed simp

lemma addTx_fuel:
  assumes "order_ok ord" "keyed p"
  shows "addTxF (waitCount p + 2 + k) C ord ch tx p = Add C ord ch tx p"
proof -
  obtain x q where x: "addOne C ord ch tx p = (x, q)" by (cases "addOne C ord ch tx p")
  have "addTxF (Suc (waitCount p + 1 + k)) C ord ch tx p = addTxF (Suc (waitCount p + 1)) C ord ch tx p"
  proof (cases x)
    case (Inl e)
    with x show ?thesis by simp
  next
    case (Inr e)
    note q = addOne_success [OF assms(1) x [unfolded Inr] assms(2)]
    have "agree (waitCount q) (addTxF (waitCount p + 1) C ord ch) (addTxF (waitCount p + 1 + k) C ord ch)"
      by (rule addTxF_agree) (use assms q in auto)
    from promote_agree [OF addTxF_consumes [OF assms(1)] this conjunct1 [OF q],
        of "[me_TxID e]" "waitCount q + 1" "waitCount q + 1" ord "{||}"]
    show ?thesis using x Inr by (simp del: promoteOrphans.simps)
  qed
  moreover have "waitCount p + 2 + k = Suc (waitCount p + 1 + k)" "waitCount p + 2 = Suc (waitCount p + 1)" by simp_all
  ultimately show ?thesis unfolding Add_def by (metis)
qed

end
