(* ===== verification/MempoolOrder.thy ===== *)
theory MempoolOrder
  imports MempoolAdd
begin

text \<open>
  The order \<open>entriesTopologicalLocked\<close> lists the pool in: every entry once, and none before an
  entry it depends on. A block template is filled in this order.
\<close>

text \<open>A list of ids, latest first, each of an entry whose parents come later in the list.\<close>

fun topo :: "Pool \<Rightarrow> string list \<Rightarrow> bool" where
  "topo p [] \<longleftrightarrow> True"
| "topo p (i # is) \<longleftrightarrow> i \<notin> set is \<and> i |\<in>| fmdom (po_entries p) \<and> fset (refs (po_parents p) i) \<subseteq> set is \<and> topo p is"

abbreviation entryOf :: "Pool \<Rightarrow> string \<Rightarrow> Entry" where
  "entryOf p i \<equiv> the (fmlookup (po_entries p) i)"

text \<open>What the search has collected, and what a visit to \<open>i\<close> may add to it.\<close>

definition collected :: "Pool \<Rightarrow> string list \<times> Entry list \<Rightarrow> bool" where
  "collected p st \<longleftrightarrow> topo p (fst st) \<and> snd st = map (entryOf p) (rev (fst st))"

definition extends :: "(string \<Rightarrow> nat) \<Rightarrow> Pool \<Rightarrow> nat \<Rightarrow> string set \<Rightarrow> string list \<times> Entry list \<Rightarrow> string list \<times> Entry list \<Rightarrow> bool" where
  "extends r p k X st st' \<longleftrightarrow> collected p st' \<and> set (fst st) \<union> X \<subseteq> set (fst st') \<and>
     (\<forall>x \<in> set (fst st') - set (fst st). r x \<le> k)"

lemma extends_refl: "collected p st \<Longrightarrow> extends r p k {} st st"
  by (simp add: extends_def)

lemma extends_trans: "extends r p k X st st' \<Longrightarrow> extends r p k Y st' st'' \<Longrightarrow> extends r p k (X \<union> Y) st st''"
  by (fastforce simp: extends_def)

lemma extends_mono: "extends r p k X st st' \<Longrightarrow> k \<le> l \<Longrightarrow> extends r p l X st st'"
  unfolding extends_def by (meson order_trans)

lemma fold_extends:
  assumes "\<And>i st. i \<in> set is \<Longrightarrow> collected p st \<Longrightarrow> extends r p k {i} st (F i st)" "collected p st"
  shows "extends r p k (set is) st (fold F is st)"
  using assms
proof (induction "is" arbitrary: st)
  case Nil
  then show ?case by (simp add: extends_refl)
next
  case (Cons i "is")
  have s: "extends r p k {i} st (F i st)" using Cons.prems by simp
  then have "collected p (F i st)" by (simp add: extends_def)
  from extends_trans [OF s Cons.IH [OF Cons.prems(1) this]] show ?case by simp
qed

lemma visitF_extends:
  "\<lbrakk>core r p; card (below r p i) < n; i |\<in>| fmdom (po_entries p); collected p st\<rbrakk> \<Longrightarrow>
     extends r p (r i) {i} st (visitF n 0 p i st)"
proof (induction n arbitrary: i st)
  case (Suc n)
  show ?case
  proof (cases "i \<in> set (fst st)")
    case True
    then show ?thesis using Suc.prems by (simp add: extends_def)
  next
    case False
    let ?ps = "ffilter (\<lambda>q. q |\<in>| fmdom (po_entries p)) (refs (po_parents p) i)"
    have ps: "fset ?ps = fset (refs (po_parents p) i)" using Suc.prems(1) by (auto simp: core_def)
    define st' where "st' = fold (visitF n 0 p) (sorted_list_of_fset ?ps) st"
    have e: "extends r p (r i - 1) (set (sorted_list_of_fset ?ps)) st st'"
      unfolding st'_def
    proof (rule fold_extends [OF _ Suc.prems(4)])
      fix q st assume q: "q \<in> set (sorted_list_of_fset ?ps)" and c: "collected p st"
      have l: "r q < r i" "q |\<in>| fmdom (po_entries p)" using q Suc.prems(1) by (auto simp: core_def)
      then have "below r p q \<subset> below r p i" by (auto simp: below_def)
      then have "card (below r p q) < card (below r p i)" by (rule psubset_card_mono [rotated]) (simp add: below_def)
      then show "extends r p (r i - 1) {q} st (visitF n 0 p q st)"
        using Suc.IH [OF Suc.prems(1) _ l(2) c] Suc.prems(2) l(1) by (auto intro: extends_mono)
    qed
    obtain seen out where s: "st' = (seen, out)" by (cases st')
    obtain en where en: "fmlookup (po_entries p) i = Some en" using Suc.prems(3) by (auto elim: fmdomE)
    have v: "visitF (Suc n) 0 p i st = (i # seen, out @ [en])"
      using False en by (simp add: st'_def [symmetric] s)
    have "i \<notin> set seen"
    proof
      assume "i \<in> set seen"
      with e False s have "r i \<le> r i - 1" by (auto simp: extends_def)
      then have r0: "r i = 0" by simp
      then have "fset (refs (po_parents p) i) = {}"
        using Suc.prems(1) by (auto simp: core_def) (metis not_less_zero)
      with ps have "set (sorted_list_of_fset ?ps) = {}" by (simp only: sorted_list_of_fset_simps)
      then have "sorted_list_of_fset ?ps = []" by (simp only: set_empty)
      then have "st' = st" by (simp add: st'_def)
      with \<open>i \<in> set seen\<close> False s show False by simp
    qed
    moreover have "fset (refs (po_parents p) i) \<subseteq> set seen" using e s ps by (auto simp: extends_def)
    ultimately have "collected p (i # seen, out @ [en])"
      using e s en Suc.prems(3) by (simp add: extends_def collected_def)
    moreover have "set (fst st) \<subseteq> set seen" using e s by (simp add: extends_def)
    moreover have "r x \<le> r i" if "x \<in> set seen - set (fst st)" for x
    proof -
      from e s that have "r x \<le> r i - 1" by (simp add: extends_def)
      then show ?thesis by simp
    qed
    ultimately show ?thesis unfolding v by (auto simp: extends_def)
  qed
qed simp

text \<open>A limit cuts the list short and changes nothing else.\<close>

lemma visitF_limit:
  assumes "0 < limit"
  shows "visitF n limit p i (seen, take (nat limit) out) =
    (fst (visitF n 0 p i (seen, out)), take (nat limit) (snd (visitF n 0 p i (seen, out))))"
proof (induction n arbitrary: i seen out)
  case (Suc n)
  have f: "fold (visitF n limit p) is (seen, take (nat limit) out) =
      (fst (fold (visitF n 0 p) is (seen, out)), take (nat limit) (snd (fold (visitF n 0 p) is (seen, out))))" for "is" seen out
  proof (induction "is" arbitrary: seen out)
    case (Cons i "is")
    show ?case using Cons.IH [of "fst (visitF n 0 p i (seen, out))" "snd (visitF n 0 p i (seen, out))"] Suc.IH [of i seen out]
      by simp
  qed simp
  have l: "int (min (length out) (nat limit)) < limit \<longleftrightarrow> length out < nat limit" for out :: "Entry list"
    using assms by (auto simp: min_def)
  let ?ps = "sorted_list_of_fset (ffilter (\<lambda>q. q |\<in>| fmdom (po_entries p)) (refs (po_parents p) i))"
  show ?case
    using assms f [of ?ps seen out] by (cases "fmlookup (po_entries p) i") (simp_all add: Let_def split_beta l)
qed simp

section \<open>The list\<close>

lemma entriesTopological_collected:
  assumes "core r p"
  defines "st \<equiv> fold (visitF (fcard (fmdom (po_entries p)) + 1) 0 p) (sorted_list_of_fset (fmdom (po_entries p))) ([], [])"
  shows "collected p st" and "set (fst st) = fset (fmdom (po_entries p))"
proof -
  have "extends r p (Max (r ` fset (fmdom (po_entries p)))) (set (sorted_list_of_fset (fmdom (po_entries p)))) ([], []) st"
    unfolding st_def
  proof (rule fold_extends)
    fix i st assume i: "i \<in> set (sorted_list_of_fset (fmdom (po_entries p)))" and c: "collected p st"
    have "extends r p (r i) {i} st (visitF (fcard (fmdom (po_entries p)) + 1) 0 p i st)"
      by (rule visitF_extends [OF assms(1) _ _ c]) (use card_below [of r p i] i in auto)
    then show "extends r p (Max (r ` fset (fmdom (po_entries p)))) {i} st (visitF (fcard (fmdom (po_entries p)) + 1) 0 p i st)"
      by (rule extends_mono) (use i in simp)
  qed (simp add: collected_def)
  then show c: "collected p st" and "set (fst st) = fset (fmdom (po_entries p))"
  proof -
    assume e: "extends r p (Max (r ` fset (fmdom (po_entries p)))) (set (sorted_list_of_fset (fmdom (po_entries p)))) ([], []) st"
    then show c: "collected p st" by (simp add: extends_def)
    have "topo p is \<Longrightarrow> set is \<subseteq> fset (fmdom (po_entries p))" for "is" by (induction "is") auto
    with c e show "set (fst st) = fset (fmdom (po_entries p))" by (auto simp: extends_def collected_def)
  qed
qed

lemma topo_before:
  "topo p is \<Longrightarrow> rev is = xs @ i # ys \<Longrightarrow> fset (refs (po_parents p) i) \<subseteq> set xs \<and> i \<notin> set xs"
proof (induction "is" arbitrary: ys)
  case (Cons j "is")
  show ?case
  proof (cases ys rule: rev_cases)
    case Nil
    with Cons.prems show ?thesis by auto
  next
    case (snoc ys' z)
    with Cons show ?thesis by auto
  qed
qed simp

text \<open>Every entry once, parents first.\<close>

lemma entriesTopological_order:
  assumes "core r p"
  defines "es \<equiv> entriesTopological 0 p"
  shows "distinct (map me_TxID es)" and "set es = {e. \<exists>i. fmlookup (po_entries p) i = Some e}"
    and "es = xs @ e # ys \<Longrightarrow> fset (refs (po_parents p) (me_TxID e)) \<subseteq> set (map me_TxID xs)"
proof -
  define st where "st = fold (visitF (fcard (fmdom (po_entries p)) + 1) 0 p) (sorted_list_of_fset (fmdom (po_entries p))) ([], [])"
  note c = entriesTopological_collected [OF assms(1), folded st_def]
  have es: "es = map (entryOf p) (rev (fst st))"
    using c(1) unfolding es_def entriesTopological_def st_def [symmetric] by (simp add: collected_def)
  have id: "me_TxID (entryOf p i) = i" if "i |\<in>| fmdom (po_entries p)" for i
    using that assms(1) by (auto simp: core_def elim!: fmdomE)
  have ids: "map me_TxID es = rev (fst st)" using c(2) id by (auto simp: es intro!: map_idI)
  have "topo p is \<Longrightarrow> distinct is" for "is" by (induction "is") auto
  then show "distinct (map me_TxID es)" using c(1) ids by (simp add: collected_def)
  show "set es = {e. \<exists>i. fmlookup (po_entries p) i = Some e}"
  proof (intro set_eqI iffI)
    fix e assume "e \<in> {e. \<exists>i. fmlookup (po_entries p) i = Some e}"
    then obtain i where i: "fmlookup (po_entries p) i = Some e" by blast
    then have "e = entryOf p i" "i \<in> set (fst st)" using c(2) by (simp_all add: fmdomI)
    then show "e \<in> set es" by (simp add: es)
  qed (use c(2) in \<open>auto simp: es elim!: fmdomE\<close>)
  show "fset (refs (po_parents p) (me_TxID e)) \<subseteq> set (map me_TxID xs)" if "es = xs @ e # ys"
    using topo_before [of p "fst st" "map me_TxID xs" "me_TxID e" "map me_TxID ys"] c(1) ids that
    by (simp add: collected_def)
qed

lemma entriesTopological_take:
  assumes "0 < limit"
  shows "entriesTopological limit p = take (nat limit) (entriesTopological 0 p)"
proof -
  have f: "fold (visitF n limit p) is (seen, take (nat limit) out) =
      (fst (fold (visitF n 0 p) is (seen, out)), take (nat limit) (snd (fold (visitF n 0 p) is (seen, out))))" for n "is" seen out
  proof (induction "is" arbitrary: seen out)
    case (Cons i "is")
    show ?case
      using Cons.IH [of "fst (visitF n 0 p i (seen, out))" "snd (visitF n 0 p i (seen, out))"] visitF_limit [OF assms]
      by simp
  qed simp
  show ?thesis using f [where out = "[]" and seen = "[]"] by (simp add: entriesTopological_def)
qed

end
