(* ===== verification/MempoolAccept.thy ===== *)
theory MempoolAccept
  imports MempoolOrder BlockAccounting
begin

text \<open>
  What a transaction has passed when the pool takes it: every input resolved, verified and
  free in the pool, the fee exact.
\<close>

text \<open>Input \<open>j\<close> spends \<open>prev\<close>: found, mature, of a script the policy and the verifier accept.\<close>

definition spend_ok :: "crypto \<Rightarrow> Chain \<Rightarrow> Pool \<Rightarrow> MsgTx \<Rightarrow> i32 \<Rightarrow> nat \<Rightarrow> TxIn \<Rightarrow> UTXOEntry \<Rightarrow> bool" where
  "spend_ok C ch p tx h j inp prev \<longleftrightarrow>
     fmlookup (po_spent p) (op_key (PreviousOutPoint inp)) = None \<and>
     prevOutput ch p h (PreviousOutPoint inp) = Some prev \<and>
     (ut_Coinbase prev \<longrightarrow> CoinbaseMaturity \<le>s h - ut_Height prev) \<and>
     (\<exists>pk. hex_decode (ut_PkScript prev) = Some pk \<and> checkInputPolicy C (SignatureScript inp) pk = Inr () \<and>
        VerifyInput C tx (int j) pk = Inr ())"

lemma checkTxInputs_missing:
  "checkTxInputs C ch p tx h i ins seen missing t ops = Inr (t', missing') \<Longrightarrow> \<exists>ks. missing' = missing @ ks"
proof (induction ins arbitrary: i seen missing t ops)
  case (Cons inp ins)
  then show ?case by (fastforce simp: Let_def split: if_splits option.splits sum.splits)
qed simp

text \<open>One input of a transaction that misses none.\<close>

lemma checkTxInputs_Cons:
  assumes "checkTxInputs C ch p tx h i (inp # ins) seen [] t ops = Inr (t', [])"
  obtains prev pk n where
    "op_key (PreviousOutPoint inp) \<notin> set seen" "fmlookup (po_spent p) (op_key (PreviousOutPoint inp)) = None"
    "prevOutput ch p h (PreviousOutPoint inp) = Some prev" "ut_Coinbase prev \<longrightarrow> CoinbaseMaturity \<le>s h - ut_Height prev"
    "hex_decode (ut_PkScript prev) = Some pk" "SigOpsForSpend C (SignatureScript inp) pk = Inr n" "ops + n \<le> MaxTxSigOps"
    "checkInputPolicy C (SignatureScript inp) pk = Inr ()" "VerifyInput C tx (int i) pk = Inr ()"
    "MoneyRange (t + ut_Value prev)"
    "checkTxInputs C ch p tx h (i + 1) ins (op_key (PreviousOutPoint inp) # seen) [] (t + ut_Value prev) (ops + n) = Inr (t', [])"
proof -
  let ?key = "op_key (PreviousOutPoint inp)"
  have free: "?key \<notin> set seen" "fmlookup (po_spent p) ?key = None"
    using assms by (auto simp: Let_def split: if_splits option.splits)
  show ?thesis
  proof (cases "prevOutput ch p h (PreviousOutPoint inp)")
    case None
    have "checkTxInputs C ch p tx h (i + 1) ins (?key # seen) [?key] t ops = Inr (t', [])"
      using assms free None by (simp add: Let_def)
    with checkTxInputs_missing show ?thesis by fastforce
  next
    case (Some prev)
    obtain pk n where
      s: "\<not> (ut_Coinbase prev \<and> h - ut_Height prev <s CoinbaseMaturity)" "hex_decode (ut_PkScript prev) = Some pk"
        "SigOpsForSpend C (SignatureScript inp) pk = Inr n" "ops + n \<le> MaxTxSigOps"
        "checkInputPolicy C (SignatureScript inp) pk = Inr ()" "VerifyInput C tx (int i) pk = Inr ()"
        "MoneyRange (t + ut_Value prev)"
        "checkTxInputs C ch p tx h (i + 1) ins (?key # seen) [] (t + ut_Value prev) (ops + n) = Inr (t', [])"
      using assms free
      by (simp add: Let_def Some not_less split: if_split_asm option.split_asm sum.split_asm del: not_None_eq)
    have "ut_Coinbase prev \<longrightarrow> CoinbaseMaturity \<le>s h - ut_Height prev"
      using s(1) by (simp add: word_sless_alt word_sle_eq not_less)
    with that free Some s show ?thesis by blast
  qed
qed

lemma checkTxInputs_sound:
  "checkTxInputs C ch p tx h i ins seen [] t ops = Inr (t', []) \<Longrightarrow> MoneyRange t \<Longrightarrow>
     \<exists>prevs. list_all2 (\<lambda>(j, inp) prev. spend_ok C ch p tx h j inp prev) (enumerate i ins) prevs \<and>
       distinct (map (\<lambda>inp. op_key (PreviousOutPoint inp)) ins) \<and>
       set (map (\<lambda>inp. op_key (PreviousOutPoint inp)) ins) \<inter> set seen = {} \<and>
       MoneyRange t' \<and> sint t' = sint t + sum_list (map entry_value prevs)"
proof (induction ins arbitrary: i seen t ops)
  case (Cons inp ins)
  let ?key = "op_key (PreviousOutPoint inp)"
  from Cons.prems(1) obtain prev pk n where
    free: "?key \<notin> set seen" "fmlookup (po_spent p) ?key = None"
    and s0: "prevOutput ch p h (PreviousOutPoint inp) = Some prev" "ut_Coinbase prev \<longrightarrow> CoinbaseMaturity \<le>s h - ut_Height prev"
      "hex_decode (ut_PkScript prev) = Some pk" "checkInputPolicy C (SignatureScript inp) pk = Inr ()"
      "VerifyInput C tx (int i) pk = Inr ()"
    and m: "MoneyRange (t + ut_Value prev)"
    and r: "checkTxInputs C ch p tx h (i + 1) ins (?key # seen) [] (t + ut_Value prev) (ops + n) = Inr (t', [])"
    by (rule checkTxInputs_Cons)
  then have s: "spend_ok C ch p tx h i inp prev" by (simp add: spend_ok_def)
  from Cons.IH [OF r m] obtain prevs where
    rest: "list_all2 (\<lambda>(j, inp) prev. spend_ok C ch p tx h j inp prev) (enumerate (Suc i) ins) prevs"
      "distinct (map (\<lambda>inp. op_key (PreviousOutPoint inp)) ins)"
      "set (map (\<lambda>inp. op_key (PreviousOutPoint inp)) ins) \<inter> set (?key # seen) = {}" "MoneyRange t'"
      "sint t' = sint (t + ut_Value prev) + sum_list (map entry_value prevs)" by auto
  show ?case
    using s rest free sint_add_checked [OF Cons.prems(2) m]
    by (intro exI [of _ "prev # prevs"]) (auto simp: entry_value_def [of prev])
qed simp

lemma checkTxOutputs_total:
  "checkTxOutputs t ops outs = Inr (t', ops') \<Longrightarrow> MoneyRange t \<Longrightarrow>
     MoneyRange t' \<and> sint t' = sint t + (\<Sum>out\<leftarrow>outs. sint (out_Value out))"
proof (induction outs arbitrary: t ops)
  case (Cons out outs)
  then have m: "MoneyRange (t + out_Value out)"
    "checkTxOutputs (t + out_Value out) (ops + CountSigOps (out_PkScript out)) outs = Inr (t', ops')"
    by (auto simp: Let_def split: if_splits)
  from Cons.IH [OF m(2,1)] sint_add_checked [OF Cons.prems(2) m(1)] show ?case by simp
qed simp

text \<open>What \<open>validateTransaction\<close> has checked when it answers with a fee.\<close>

definition nextHeight :: "Chain \<Rightarrow> i32" where
  "nextHeight ch = (case ch_tip ch of None \<Rightarrow> 0 | Some tip \<Rightarrow> ix_Height tip + 1)"

definition funded :: "crypto \<Rightarrow> Chain \<Rightarrow> Pool \<Rightarrow> MsgTx \<Rightarrow> i64 \<Rightarrow> bool" where
  "funded C ch p tx fee \<longleftrightarrow>
     (\<exists>prevs. length prevs = length (tx_TxIn tx) \<and>
        (\<forall>j<length prevs. spend_ok C ch p tx (nextHeight ch) j (tx_TxIn tx ! j) (prevs ! j)) \<and>
        sint fee = sum_list (map entry_value prevs) - (\<Sum>out\<leftarrow>tx_TxOut tx. sint (out_Value out))) \<and>
     distinct (inKeys tx) \<and> 0 \<le> sint fee \<and> sint fee \<le> sint MaxMoney"

lemma validateTransaction_steps:
  assumes "validateTransaction C ch tx p = Valid t fee"
  obtains totalOut ops totalIn where
    "checkTxOutputs 0 0 (tx_TxOut tx) = Inr (totalOut, ops)"
    "checkTxInputs C ch p tx (nextHeight ch) 0 (tx_TxIn tx) [] [] 0 ops = Inr (totalIn, [])"
    "totalOut \<le>s totalIn" "fee = totalIn - totalOut" "t = txID tx" "tx_TxIn tx \<noteq> []" "tx_TxOut tx \<noteq> []"
    "\<not> alreadyConfirmed ch (txID tx)" "\<not> isCoinbase tx"
    "IsFinalizedTx tx (nextHeight ch) (case ch_tip ch of None \<Rightarrow> 0 | Some tip \<Rightarrow> ix_Time tip)"
  using assms
  by (auto simp: validateTransaction_def nextHeight_def isCoinbase_def Let_def word_sless_alt word_sle_eq not_less
      split: if_splits sum.splits prod.splits)

lemma validateTransaction_Valid:
  assumes "validateTransaction C ch tx p = Valid t fee"
  shows "t = txID tx \<and> tx_TxIn tx \<noteq> [] \<and> tx_TxOut tx \<noteq> [] \<and> funded C ch p tx fee \<and>
    \<not> alreadyConfirmed ch (txID tx)"
proof -
  obtain totalOut ops totalIn where
    o: "checkTxOutputs 0 0 (tx_TxOut tx) = Inr (totalOut, ops)" and
    i: "checkTxInputs C ch p tx (nextHeight ch) 0 (tx_TxIn tx) [] [] 0 ops = Inr (totalIn, [])" and
    le: "totalOut \<le>s totalIn" and fee: "fee = totalIn - totalOut"
    and c: "t = txID tx" "tx_TxIn tx \<noteq> []" "tx_TxOut tx \<noteq> []" "\<not> alreadyConfirmed ch (txID tx)"
    using assms by (rule validateTransaction_steps)
  note out = checkTxOutputs_total [OF o MoneyRange_0]
  from checkTxInputs_sound [OF i MoneyRange_0] obtain prevs where
    prevs: "list_all2 (\<lambda>(j, inp) prev. spend_ok C ch p tx (nextHeight ch) j inp prev) (enumerate 0 (tx_TxIn tx)) prevs"
      "distinct (inKeys tx)" "MoneyRange totalIn" "sint totalIn = sum_list (map entry_value prevs)"
    by (auto simp: inKeys_def)
  have "length prevs = length (tx_TxIn tx)" using list_all2_lengthD [OF prevs(1)] by simp
  moreover have "\<forall>j<length prevs. spend_ok C ch p tx (nextHeight ch) j (tx_TxIn tx ! j) (prevs ! j)"
    using prevs(1) by (auto simp: list_all2_conv_all_nth nth_enumerate_eq)
  moreover have "sint fee = sint totalIn - sint totalOut"
    unfolding fee by (rule sint_sub_money) (use out prevs in auto)
  moreover have "sint totalOut \<le> sint totalIn" using le by (simp add: word_sle_eq)
  ultimately show ?thesis
    using c prevs out by (auto simp: funded_def MoneyRange_sint intro!: exI [of _ prevs])
qed

text \<open>The reader's errors are mapped by every caller, so \<open>MpDiverges\<close> comes from the fuel alone.\<close>

lemma policy_defined [simp]:
  "hasLowSSignatureBytes C s \<noteq> Inl MpDiverges" "hasLowSSignature C s \<noteq> Inl MpDiverges"
  "isCompressedP2PKHPubKey s \<noteq> Inl MpDiverges" "encodePushData d \<noteq> Inl MpDiverges"
  "r \<noteq> Inl MpDiverges \<Longrightarrow> requireLowS r \<noteq> Inl MpDiverges" "r \<noteq> Inl MpDiverges \<Longrightarrow> requireCompressed r \<noteq> Inl MpDiverges"
  by (auto simp: hasLowSSignatureBytes_def hasLowSSignature_def isCompressedP2PKHPubKey_def encodePushData_def
      requireLowS_def requireCompressed_def split: sum.splits option.splits if_splits)

lemma checkLists_defined [simp]: "checkAllLowS C args \<noteq> Inl MpDiverges" "checkKeysCompressed pubs \<noteq> Inl MpDiverges"
proof -
  show "checkAllLowS C args \<noteq> Inl MpDiverges"
  proof (induction args)
    case (Cons a args)
    have "requireLowS (hasLowSSignatureBytes C a) \<noteq> Inl MpDiverges" by simp
    with Cons show ?case by (auto split: sum.splits)
  qed simp
  show "checkKeysCompressed pubs \<noteq> Inl MpDiverges" by (induction pubs) auto
qed

lemma checkMultiSigPolicy_defined [simp]:
  "checkMultiSigArgsLowS C args \<noteq> Inl MpDiverges"
  "checkMultiSigPubKeysCompressed s \<noteq> Inl MpDiverges"
  "checkStandardBareMultiSig s \<noteq> Inl MpDiverges"
  by (auto simp: checkMultiSigArgsLowS_def checkMultiSigPubKeysCompressed_def checkStandardBareMultiSig_def Let_def
      split: option.splits)

lemma checkInputPolicy_defined: "checkInputPolicy C s pk \<noteq> Inl MpDiverges"
proof -
  have "checkP2SHPolicy C s \<noteq> Inl MpDiverges"
    by (auto simp: checkP2SHPolicy_def Let_def split: sum.splits)
  moreover have "checkHybridInputPolicy C s \<noteq> Inl MpDiverges"
    by (auto simp: checkHybridInputPolicy_def split: sum.splits)
  moreover have "checkMultiSigInputPolicy C s \<noteq> Inl MpDiverges"
    by (auto simp: checkMultiSigInputPolicy_def split: sum.splits)
  ultimately show ?thesis by (auto simp: checkInputPolicy_def split: sum.splits)
qed

lemma checkTxInputs_defined: "checkTxInputs C ch p tx h i ins seen missing t ops \<noteq> Inl MpDiverges"
proof (induction ins arbitrary: i seen missing t ops)
  case (Cons inp ins)
  then show ?case using checkInputPolicy_defined by (auto simp: Let_def split: option.splits sum.splits)
qed simp

lemma validateTransaction_defined: "validateTransaction C ch tx p \<noteq> Invalid MpDiverges"
proof -
  have "checkTxOutputs t ops outs \<noteq> Inl MpDiverges" for t ops outs
    by (induction outs arbitrary: t ops) (auto simp: Let_def)
  then show ?thesis
    using checkTxInputs_defined by (auto simp: validateTransaction_def Let_def split: sum.splits prod.splits)
qed

lemma admit_defined: "fst (admit ord e p) \<noteq> Inl MpDiverges"
proof -
  have "checkAncestorDepth ord p qs d \<noteq> Inl MpDiverges" for p qs d
    by (induction qs arbitrary: d) (auto simp: Let_def)
  moreover have "resolveConflicts ord e p \<noteq> Inl MpDiverges" for p
    by (auto simp: resolveConflicts_def checkReplacementPolicy_def Let_def split: option.splits sum.splits)
  moreover have "makeRoom ord e p \<noteq> Inl MpDiverges" for p
    by (auto simp: makeRoom_def split: option.splits prod.splits)
  ultimately show ?thesis by (auto simp: admit_def Let_def split: sum.splits)
qed

lemma Add_defined: "fst (Add C ord ch tx p) \<noteq> Inl MpDiverges"
proof -
  obtain x q where x: "addOne C ord ch tx p = (x, q)" by (cases "addOne C ord ch tx p")
  have "x \<noteq> Inl MpDiverges"
    using x
  proof (cases rule: addOne_cases)
    case (same e)
    then show ?thesis using validateTransaction_defined by auto
  next
    case (admitted e)
    then show ?thesis using admit_defined by (metis fst_conv)
  qed simp
  then show ?thesis using x by (auto simp: Add_def numeral_2_eq_2 simp del: promoteOrphans.simps split: sum.splits)
qed

text \<open>A successful \<open>Add\<close> is a successful first step.\<close>

lemma Add_Inr:
  assumes "Add C ord ch tx p = (Inr e, p')"
  obtains q where "addOne C ord ch tx p = (Inr e, q)"
  using assms by (auto simp: Add_def numeral_2_eq_2 simp del: promoteOrphans.simps split: sum.splits prod.splits)

end
