(* ===== verification/SampleMempool.thy ===== *)
theory SampleMempool
  imports MempoolAccept SampleChain
begin

text \<open>
  A concrete pool for the witnesses: one transaction that spends a confirmed P2PKH output, and
  the pool it enters.
\<close>

definition key0 :: bytes where "key0 = 2 # replicate 32 1"

definition script0 :: bytes where
  "script0 = [OP_DUP, OP_HASH160, OP_DATA_20] @ replicate 20 7 @ [OP_EQUALVERIFY, OP_CHECKSIG]"

definition spendOf :: "hash \<Rightarrow> i64 \<Rightarrow> MsgTx" where
  "spendOf h v = \<lparr>tx_Version = 1,
     tx_TxIn = [\<lparr>PreviousOutPoint = \<lparr>op_Hash = h, op_Index = 0\<rparr>,
       SignatureScript = 34 # (key0 @ [1]) @ 33 # key0, Sequence = 0xffffffff\<rparr>],
     tx_TxOut = [\<lparr>out_Value = v, out_PkScript = script0\<rparr>], tx_LockTime = 0\<rparr>"

definition tx1 :: MsgTx where "tx1 = spendOf [7] 9000"

definition utxo1 :: UTXOEntry where
  "utxo1 = \<lparr>ut_Key = OutPointKey (hash_String [7]) 0, ut_TxID = hash_String [7], ut_Vout = 0, ut_Value = 10000,
     ut_PkScript = hex_encode script0, ut_Height = 0, ut_Coinbase = False\<rparr>"

definition funded0 :: Chain where
  "funded0 = emptyChain (NewFileStore\<lparr>fs_utxo := fmupd (utxoFile (ut_Key utxo1)) utxo1 fmempty\<rparr>)"

definition entry1 :: Entry where
  "entry1 = \<lparr>me_Tx = tx1, me_TxID = txID tx1, me_Fee = 1000, me_Size = int (length (tx_Serialize tx1))\<rparr>"

definition pool1 :: Pool where "pool1 = insertEntry entry1 newPool"

lemma tx1_simps [simp]:
  "tx_TxIn tx1 = [\<lparr>PreviousOutPoint = \<lparr>op_Hash = [7], op_Index = 0\<rparr>,
     SignatureScript = 34 # (key0 @ [1]) @ 33 # key0, Sequence = 0xffffffff\<rparr>]"
  "tx_TxOut tx1 = [\<lparr>out_Value = 9000, out_PkScript = script0\<rparr>]" "tx_LockTime tx1 = 0"
  by (simp_all add: tx1_def spendOf_def)

lemma script0_P2PKH: "IsPayToPubKeyHash script0" "PayToPubKeyHashScript (replicate 20 7) = Inr script0"
proof -
  show "PayToPubKeyHashScript (replicate 20 7) = Inr script0" by (simp add: PayToPubKeyHashScript_def script0_def)
  then show "IsPayToPubKeyHash script0" using IsPayToPubKeyHash_iff by blast
qed

lemma push_sig: "readPushData (34 # (key0 @ [1]) @ 33 # key0) = Inr (key0 @ [1], 33 # key0)"
  "readPushData (33 # key0) = Inr (key0, [])"
  by (simp_all add: readPushData_def rbind_def read_byte_or_bad_def read_or_bad_def op_defs MaxScriptSize_def key0_def)

lemma mempool_push: "readScriptPushData (34 # (key0 @ [1]) @ 33 # key0) = Inr (key0 @ [1], 33 # key0)"
  "readScriptPushData (33 # key0) = Inr (key0, [])"
  using push_sig by (simp_all add: readScriptPushData_iff) (simp add: key0_def)

lemma script0_verifies: "VerifyInput sample_crypto0 tx1 0 script0 = Inr ()"
proof -
  have p: "parseP2PKHScriptSig (SignatureScript (tx_TxIn tx1 ! nat 0)) = Inr (key0 @ [1], key0)"
    using push_sig by (simp add: parseP2PKHScriptSig_def)
  have "verifyP2PKH sample_crypto0 tx1 0 script0 = Inr ()"
    using verifyP2PKH_iff_eval [OF script0_P2PKH(1) _ _ p, of sample_crypto0]
    by (simp add: EvalPushScriptWithCheckSig_def eval_p2pkh [OF script0_P2PKH(2)] Hash160_def sample_crypto0_def
        checksig_hook_def SigHashAll_def sig_for_key_def bool_item_def) (simp add: key0_def)
  then show ?thesis using templates_disjoint(1) [of script0] script0_P2PKH(1) by (simp add: VerifyInput_def)
qed

lemma script0_policy: "checkInputPolicy sample_crypto0 (34 # (key0 @ [1]) @ 33 # key0) script0 = Inr ()"
  using mempool_push script0_P2PKH(1)
  by (simp add: checkInputPolicy_def requireLowS_def hasLowSSignature_def hasLowSSignatureBytes_def
      requireCompressed_def isCompressedP2PKHPubKey_def sample_crypto0_def)
    (simp add: key0_def)

lemma script0_structure: "ValidateScriptStructure script0 = Inr ()"
  unfolding ValidateScriptStructure_def script0_def by code_simp

text \<open>It validates on every chain that has the output, for every pool that does not spend it.\<close>

lemma tx1_validates:
  assumes ch: "\<not> fs_txIndexEnabled (ch_store ch)" "LoadUTXO (OutPointKey (hash_String [7]) 0) (ch_store ch) = Inr utxo1"
    and free: "fmlookup (po_spent q) (OutPointKey (hash_String [7]) 0) = None"
  shows "validateTransaction sample_crypto0 ch tx1 q = Valid (txID tx1) 1000"
proof -
  have ops: "CountSigOps script0 = 1" unfolding script0_def by code_simp
  have "\<not> IsPayToScriptHash script0" by (simp add: IsPayToScriptHash_def script0_def)
  then have "SigOpsForSpend sample_crypto0 s script0 = Inr 1" for s
    using ops by (simp add: SigOpsForSpend_def)
  moreover have "utxo1 = \<lparr>ut_Key = ut_Key utxo1, ut_TxID = ut_TxID utxo1, ut_Vout = 0, ut_Value = 10000,
     ut_PkScript = hex_encode script0, ut_Height = 0, ut_Coinbase = False\<rparr>" by (simp add: utxo1_def)
  then have "ut_Value utxo1 = 10000" "ut_PkScript utxo1 = hex_encode script0" "\<not> ut_Coinbase utxo1"
    by (metis UTXOEntry.select_convs)+
  ultimately show ?thesis
    using ch free ops script0_policy script0_verifies
    by (simp add: validateTransaction_def alreadyConfirmed_def MoneyRange_sint IsFinalizedTx_def op_key_def
        prevOutput_def MaxTxSigOps_def hash_IsZero_def zero_hash_def HashSize_def Let_def
        word_sless_alt replicate_eq_replicate numeral_eq_Suc del: CountSigOps.simps)
qed

lemma tx1_valid: "validateTransaction sample_crypto0 funded0 tx1 newPool = Valid (txID tx1) 1000"
  by (rule tx1_validates)
    (simp_all add: funded0_def emptyChain_def NewFileStore_def LoadUTXO_def utxo1_def newPool_def)

text \<open>Adding it to the empty pool.\<close>

lemma order_empty [simp]: "order_ok ord \<Longrightarrow> ord {||} = []"
  using order_set [of ord "{||}"] by simp

lemma newPool_simps [simp]:
  "po_entries newPool = fmempty" "po_spent newPool = fmempty" "po_parents newPool = fmempty"
  "po_childs newPool = fmempty" "po_orphans newPool = fmempty" "po_orphRef newPool = fmempty"
  "po_maxTx newPool = 50000" "po_maxOrph newPool = 100"
  by (simp_all add: newPool_def DefaultMaxTransactions_def DefaultMaxOrphans_def)

lemma pool1_simps [simp]:
  "po_entries pool1 = fmupd (txID tx1) entry1 fmempty" "po_orphans pool1 = fmempty" "po_orphRef pool1 = fmempty"
  "po_maxTx pool1 = 50000" "po_maxOrph pool1 = 100"
proof -
  have "me_TxID entry1 = txID tx1" by (simp add: entry1_def)
  then show "po_entries pool1 = fmupd (txID tx1) entry1 fmempty"
    by (simp add: pool1_def insertEntry_def linkInput_fold(1))
  show "po_orphans pool1 = fmempty" "po_orphRef pool1 = fmempty" "po_maxTx pool1 = 50000" "po_maxOrph pool1 = 100"
    using insertEntry_rest [of newPool entry1] by (simp_all add: pool1_def same_rest_def)
qed

lemma tx1_size: "length (tx_Serialize tx1) = 123"
  by (simp add: tx1_def spendOf_def tx_Serialize_def write_counted_def write_TxIn_def write_TxOut_def
      WriteVarBytes_def WriteVarInt_def key0_def script0_def)

lemma entry1_simps [simp]: "me_Tx entry1 = tx1" "me_TxID entry1 = txID tx1" "me_Fee entry1 = 1000" "me_Size entry1 = 123"
  by (simp_all add: entry1_def tx1_size)

lemma self_free: "txID tx1 \<notin> set (inTxIDs tx1)"
proof
  assume "txID tx1 \<in> set (inTxIDs tx1)"
  then have "length (txID tx1) = 2" by (simp add: inTxIDs_def)
  moreover have "length (TxHash tx1) = 32" using TxHash_ok [of tx1] by (simp add: hash_ok_def HashSize_def)
  then have "length (txID tx1) = 64" by (simp add: txID_def)
  ultimately show False by simp
qed

lemma tx1_admitted: "order_ok ord \<Longrightarrow> admit ord entry1 newPool = (Inr entry1, pool1)"
  by (simp add: admit_def deleteOrphan_def makeRoom_def fcard.rep_eq resolveConflicts_def conflictOwners_def
      inKeys_def inTxIDs_def List.map_filter_def pool1_def)

lemma tx1_addOne: "order_ok ord \<Longrightarrow> addOne sample_crypto0 ord funded0 tx1 newPool = (Inr entry1, pool1)"
proof -
  assume ord: "order_ok ord"
  have "checkStandardness tx1 123 = Inr ()"
    using script0_structure script0_P2PKH(1)
    by (simp add: checkStandardness_def MaxStandardTxSize_def MaxStandardSigScript_def key0_def MoneyRange_sint
        word_sless_alt DustThreshold_def isStandardScript_def)
  moreover have "MeetsMinRelayFee 1000 123" by (simp add: MeetsMinRelayFee_exact MaxStandardTxSize_def)
  ultimately show ?thesis
    using tx1_admitted [OF ord] by (simp add: addOne_def tx1_valid tx1_size entry1_def)
qed

lemma tx1_added: "order_ok ord \<Longrightarrow> Add sample_crypto0 ord funded0 tx1 newPool = (Inr entry1, pool1)"
  by (simp add: Add_def numeral_2_eq_2 tx1_addOne waitingFor_def)

lemma pool1_reachable: "order_ok ord \<Longrightarrow> pool_reachable {tx1} pool1"
  using pool_reachable.enter [OF pool_reachable.start _ _ _ tx1_admitted] by simp

lemma txs1_ok: "txs_ok {tx1}"
  using self_free by (simp add: txs_ok_def)

definition listed :: map_order where "listed A = sorted_list_of_fset A"

lemma listed_ok: "order_ok listed"
  by (simp add: order_ok_def listed_def sorted_list_of_fset.rep_eq)

end
