(* ===== verification/MempoolProperties.thy ===== *)
theory MempoolProperties
  imports SampleMempool
begin

text \<open>Properties of the transaction pool.\<close>

section \<open>What always holds of the pool\<close>

text \<open>
  C7. The pool's invariant. In every pool that admissions, orphans and blocks can lead to, in
  whatever order and validated against whatever chain: an outpoint is marked spent by exactly
  the entry that spends it, so no two entries spend the same; entries are filed under their
  id; parent and child links mirror each other and lead to entries; chains of unconfirmed
  ancestors have at most 25 steps; there are at most 50000 entries and 100 orphans. A
  complete \<open>Add\<close>, with every orphan it promotes, leads to such a pool again.
\<close>

theorem mempool_invariant:
  assumes "pool_reachable S p" "txs_ok S" "order_ok ord"
  shows "(\<forall>k i. fmlookup (po_spent p) k = Some i \<longleftrightarrow>
      (\<exists>e. fmlookup (po_entries p) i = Some e \<and> k \<in> set (inKeys (me_Tx e)))) \<and>
    (\<forall>i e. fmlookup (po_entries p) i = Some e \<longrightarrow> me_TxID e = i \<and> txID (me_Tx e) = i) \<and>
    (\<forall>c q. c |\<in>| refs (po_childs p) q \<longleftrightarrow> q |\<in>| refs (po_parents p) c) \<and>
    (\<forall>c q. q |\<in>| refs (po_parents p) c \<longrightarrow> q |\<in>| fmdom (po_entries p) \<and> c |\<in>| fmdom (po_entries p)) \<and>
    MaxAncestorDepthObserved ord p \<le> 25 \<and>
    mlen (po_entries p) \<le> 50000 \<and> mlen (po_orphans p) \<le> 100 \<and>
    (\<forall>C ch tx. tx \<in> S \<longrightarrow> pool_reachable S (snd (Add C ord ch tx p)))"
proof -
  from pool_reachable_ok [OF assms(1,2)] have ok: "mempool_ok p" by (simp add: pool_ok_in_def)
  then obtain r where r: "core r p" "\<And>c. r c \<le> MaxAncestorDepth" by (auto simp: mempool_ok_def pool_inv_def)
  have "ancestorDepth ord p i \<le> MaxAncestorDepth" for i
    using ancestorDepthF_le [OF r(1) assms(3)] r(2) le_trans unfolding ancestorDepth_def by blast
  then have "MaxAncestorDepthObserved ord p \<le> MaxAncestorDepth"
    unfolding MaxAncestorDepthObserved_def by (intro fold_max_le) simp_all
  moreover have "pool_reachable S (snd (Add C ord ch tx p))" if "tx \<in> S" for C ch tx
    using reach.inv_Add [of C ord ch tx p "fst (Add C ord ch tx p)" "snd (Add C ord ch tx p)" S] assms that by simp
  moreover have "c |\<in>| fmdom (po_entries p)" if "q |\<in>| refs (po_parents p) c" for c q
    using r(1) that unfolding core_def by (metis fmdomI)
  ultimately show ?thesis
    using ok pool_reachable_limits [OF assms(1)] r(1)
    by (simp add: core_def mempool_ok_def MaxAncestorDepth_def DefaultMaxTransactions_def DefaultMaxOrphans_def)
qed

theorem mempool_invariant_witness:
  "MaxAncestorDepthObserved listed pool1 \<le> 25 \<and> pool_reachable {tx1} (snd (Add sample_crypto0 listed funded0 tx1 pool1))"
  using mempool_invariant [OF pool1_reachable [OF listed_ok] txs1_ok listed_ok] by simp

section \<open>Admission\<close>

text \<open>
  C8. What \<open>Add\<close> lets in. When it succeeds, the entry is the transaction with its id, size
  and exact fee (the values it spends less the values it creates); every input resolved to an
  unspent output of the chain or of a pool entry, is mature, is claimed by no other entry and
  passes the policy and the script verifier; no output is spent twice; and the fee is at
  least one unit per byte.
\<close>

theorem mempool_admission:
  assumes "Add C ord ch tx p = (Inr e, p')"
  shows "me_Tx e = tx \<and> me_TxID e = txID tx \<and> me_Size e = int (length (tx_Serialize tx)) \<and>
    (\<exists>prevs. length prevs = length (tx_TxIn tx) \<and>
      (\<forall>j<length prevs. spend_ok C ch p tx (nextHeight ch) j (tx_TxIn tx ! j) (prevs ! j)) \<and>
      sint (me_Fee e) = sum_list (map entry_value prevs) - (\<Sum>out\<leftarrow>tx_TxOut tx. sint (out_Value out))) \<and>
    distinct (inKeys tx) \<and> checkStandardness tx (me_Size e) = Inr () \<and>
    me_Size e \<le> sint (me_Fee e) \<and> sint (me_Fee e) \<le> sint MaxMoney"
proof -
  from Add_Inr [OF assms] obtain q where "addOne C ord ch tx p = (Inr e, q)" by blast
  then show ?thesis
  proof (cases rule: addOne_cases)
    case (admitted e')
    have "e' = e" using admitted(3) by (cases rule: admit_cases) auto
    moreover have "0 < me_Size e'" "me_Size e' \<le> MaxStandardTxSize"
      using admitted(6) by (auto simp: checkStandardness_def split: if_splits)
    ultimately show ?thesis
      using admitted validateTransaction_Valid [OF admitted(4)] MeetsMinRelayFee_exact [of "me_Size e'"]
      by (simp add: funded_def)
  qed simp_all
qed

theorem mempool_admission_witness:
  "me_Size entry1 \<le> sint (me_Fee entry1)"
  using mempool_admission [OF tx1_added [OF listed_ok]] by blast

text \<open>
  C11. \<open>Add\<close> ends. The recursion through promoted orphans never uses up its depth: with any more
  depth, or more rounds of the promotion loop, the result is the same, and it is never the
  value that stands for running out.
\<close>

theorem add_terminates:
  assumes "pool_reachable S p" "txs_ok S" "order_ok ord"
  shows "addTxF (fcard (fmdom (po_orphans p)) + 2 + k) C ord ch tx p = Add C ord ch tx p \<and>
    fst (Add C ord ch tx p) \<noteq> Inl MpDiverges \<and>
    promoteOrphans (fcard (fmdom (po_orphans p)) + 1 + k) ord (addTxF n C ord ch) [i] {||} p =
      promoteOrphans (fcard (fmdom (po_orphans p)) + 1) ord (addTxF n C ord ch) [i] {||} p"
proof -
  from pool_reachable_ok [OF assms(1,2)] have keyed: "keyed p" by (simp add: pool_ok_in_def mempool_ok_def keyed_def)
  have "agree (waitCount p) (addTxF n C ord ch) (addTxF n C ord ch)" by (simp add: agree_def)
  from promote_agree [OF addTxF_consumes [OF assms(3)] this keyed, of "[i]" "waitCount p + 1" "waitCount p + 1 + k"]
  have "promoteOrphans (waitCount p + 1 + k) ord (addTxF n C ord ch) [i] {||} p =
      promoteOrphans (waitCount p + 1) ord (addTxF n C ord ch) [i] {||} p" by (simp del: promoteOrphans.simps)
  then show ?thesis using addTx_fuel [OF assms(3) keyed] Add_defined by blast
qed

theorem add_terminates_witness:
  "addTxF 5 sample_crypto0 listed funded0 tx1 pool1 = Add sample_crypto0 listed funded0 tx1 pool1"
  using add_terminates [OF pool1_reachable [OF listed_ok] txs1_ok listed_ok, of 3 sample_crypto0 funded0 tx1]
  by (simp add: fcard.rep_eq)

text \<open>
  The pool reads pushes as the verifier does. Its own reader accepts exactly the push-only
  scripts that script verification parses, with the same items, except those that end in an
  empty push, which it refuses.
\<close>

theorem push_policy_agrees:
  "parsePushOnlyScript bs = Inr ds \<longleftrightarrow> parsePushes bs = Inr ds \<and> (ds = [] \<or> 0 < length (last ds))"
  using parsePushOnly_iff [of bs ds] by auto

section \<open>A block arrives\<close>

text \<open>
  C9. A block clears what it settles. After \<open>RemoveForBlock\<close> no entry is in the block or spends
  an outpoint the block spends; every entry that went is such an entry or depends on one;
  every other entry is still there, with the parents it had.
\<close>

theorem block_clears_pool:
  assumes "pool_reachable S p" "txs_ok S" "order_ok ord"
  shows "let p' = RemoveForBlock ord block p in
    (\<forall>i e. fmlookup (po_entries p') i = Some e \<longrightarrow>
      i \<notin> txID ` set (bk_Transactions block) \<and> set (inKeys (me_Tx e)) \<inter> set (blockSpent block) = {}) \<and>
    po_entries p' \<subseteq>\<^sub>f po_entries p \<and>
    fset (fmdom (po_entries p)) - fset (fmdom (po_entries p')) \<subseteq> descs p (blockConflicts block p) \<and>
    (\<forall>i. i |\<in>| fmdom (po_entries p') \<longrightarrow> refs (po_parents p') i = refs (po_parents p) i) \<and>
    po_orphans p' = po_orphans p"
proof -
  define p' where "p' = RemoveForBlock ord block p"
  from pool_reachable_ok [OF assms(1,2)] obtain r where "core r p"
    by (auto simp: pool_ok_in_def mempool_ok_def pool_inv_def)
  from RemoveForBlock_removed [OF this assms(3), of block] obtain X where
    X: "removed r X p p'" "X \<subseteq> blockConflicts block p"
    and clean: "\<forall>i e. fmlookup (po_entries p') i = Some e \<longrightarrow>
       i \<notin> txID ` set (bk_Transactions block) \<and> set (inKeys (me_Tx e)) \<inter> set (blockSpent block) = {}"
    unfolding p'_def by blast
  have "descs p X \<subseteq> descs p (blockConflicts block p)" using X(2) by (auto simp: descs_def)
  with X clean show ?thesis unfolding Let_def p'_def [symmetric] by (auto simp: removed_def same_rest_def)
qed

theorem block_clears_pool_witness:
  "fmlookup (po_entries (RemoveForBlock listed (block1\<lparr>bk_Transactions := [tx1]\<rparr>) pool1)) (txID tx1) = None"
proof -
  have "txID tx1 \<in> txID ` set (bk_Transactions (block1\<lparr>bk_Transactions := [tx1]\<rparr>))" by simp
  then show ?thesis
    using block_clears_pool [OF pool1_reachable [OF listed_ok] txs1_ok listed_ok, of "block1\<lparr>bk_Transactions := [tx1]\<rparr>"]
    by (metis (no_types, lifting) not_None_eq)
qed

section \<open>The order entries are handed out in\<close>

text \<open>
  C10. Parents first. \<open>entriesTopologicalLocked\<close> lists every entry exactly once and each after all
  its parents, and a limit gives a first part of that list, which is therefore closed under
  parents too.
\<close>

theorem entries_parents_first:
  assumes "pool_reachable S p" "txs_ok S" "0 < limit"
  shows "distinct (map me_TxID (entriesTopological 0 p)) \<and>
    set (entriesTopological 0 p) = {e. \<exists>i. fmlookup (po_entries p) i = Some e} \<and>
    (\<forall>xs e ys. entriesTopological 0 p = xs @ e # ys \<longrightarrow>
      fset (refs (po_parents p) (me_TxID e)) \<subseteq> set (map me_TxID xs)) \<and>
    entriesTopological limit p = take (nat limit) (entriesTopological 0 p)"
proof -
  from pool_reachable_ok [OF assms(1,2)] obtain r where "core r p"
    by (auto simp: pool_ok_in_def mempool_ok_def pool_inv_def)
  then show ?thesis using entriesTopological_order entriesTopological_take [OF assms(3)] by blast
qed

theorem entries_parents_first_witness:
  "set (entriesTopological 0 pool1) = {entry1} \<and> length (entriesTopological 1 pool1) \<le> 1"
proof -
  have "{e. \<exists>i. fmlookup (po_entries pool1) i = Some e} = {entry1}" by (auto split: if_splits)
  then show ?thesis
    using entries_parents_first [OF pool1_reachable [OF listed_ok] txs1_ok, of 1] by simp
qed

section \<open>Eviction\<close>

text \<open>
  Making room can take away what the new entry needs. In a full pool whose cheapest leaf
  entry is a parent of the new, better paying transaction, admission evicts that parent
  first and then enters the transaction without it: an input of the new entry spends an
  output that is neither in the pool nor linked.
\<close>

theorem eviction_takes_parent:
  assumes "core r p" "order_ok ord" "mlen (po_entries p) = po_maxTx p"
    and "lowestEvictionCandidate ord (po_entries p) (po_childs p) = Some (i, rate)"
    and "rate <s feeRatePerKB (me_Fee e) (me_Size e)"
    and "set (inTxIDs (me_Tx e)) = {i}" "me_TxID e |\<notin>| fmdom (po_entries p)" "me_TxID e \<noteq> i"
    and "\<And>k. k \<in> set (inKeys (me_Tx e)) \<Longrightarrow> fmlookup (po_spent p) k = None"
    and "fmlookup (po_orphans p) (me_TxID e) = None"
  shows "fst (admit ord e p) = Inr e \<and> i |\<in>| fmdom (po_entries p) \<and>
    i |\<notin>| fmdom (po_entries (snd (admit ord e p))) \<and>
    fmlookup (po_entries (snd (admit ord e p))) (me_TxID e) = Some e"
proof -
  let ?q = "removeEntry ord True i p"
  have i: "i |\<in>| fmdom (po_entries p)" by (rule lowestEvictionCandidate_dom [OF assms(4)])
  from removeEntry_removed [OF assms(1,2)] have rem: "removed r {i} p ?q" "i |\<notin>| fmdom (po_entries ?q)"
    by (auto simp: fmdom_notI)
  have room: "makeRoom ord e p = Inr ?q"
    using assms(3-5) by (simp add: makeRoom_def word_sless_alt word_sle_eq)
  have sub: "po_entries ?q \<subseteq>\<^sub>f po_entries p" using rem(1) by (simp add: removed_def)
  have fresh: "me_TxID e |\<notin>| fmdom (po_entries ?q)" using fmsubset_dom [OF sub] assms(7) by auto
  have free: "fmlookup (po_spent ?q) k = None" if "k \<in> set (inKeys (me_Tx e))" for k
  proof (rule ccontr)
    assume "fmlookup (po_spent ?q) k \<noteq> None"
    then obtain j en where "fmlookup (po_entries ?q) j = Some en" "k \<in> set (inKeys (me_Tx en))"
      using rem(1) by (auto simp: removed_def core_def)
    with sub have "fmlookup (po_entries p) j = Some en" by (auto simp: fmsubset_iff)
    with \<open>k \<in> set (inKeys (me_Tx en))\<close> assms(1) have "fmlookup (po_spent p) k = Some j" by (auto simp: core_def)
    with assms(9) [OF that] show False by simp
  qed
  then have "conflictOwners (me_Tx e) ?q = {||}"
    by (auto simp: conflictOwners_def List.map_filter_def fset_of_list_elem)
  then have res: "resolveConflicts ord e ?q = Inr ?q" using assms(2) by (simp add: resolveConflicts_def)
  have "\<forall>t\<in>set ts. t |\<notin>| fmdom (po_entries ?q) \<Longrightarrow> checkAncestorDepth ord ?q ts 0 = Inr ()" for ts
    by (induction ts) auto
  then have "checkAncestorDepth ord ?q (inTxIDs (me_Tx e)) 0 = Inr ()" using assms(6) rem(2) by simp
  then have a: "admit ord e p = (Inr e, insertEntry e ?q)"
    using room res fresh assms(10) by (simp add: admit_def deleteOrphan_def)
  show ?thesis using i rem(2) assms(8) by (simp add: a insertEntry_def linkInput_fold(1))
qed

text \<open>The sample pool with room for one entry, and a child of that entry.\<close>

definition smallPool :: Pool where "smallPool = pool1\<lparr>po_maxTx := 1\<rparr>"

definition childEntry :: Entry where
  "childEntry = \<lparr>me_Tx = spendOf (TxHash tx1) 5000, me_TxID = ''child'', me_Fee = 4000, me_Size = 154\<rparr>"

theorem eviction_takes_parent_witness:
  "fmlookup (po_entries (snd (admit listed childEntry smallPool))) ''child'' = Some childEntry \<and>
   txID tx1 |\<notin>| fmdom (po_entries (snd (admit listed childEntry smallPool)))"
proof -
  from pool_reachable_ok [OF pool1_reachable [OF listed_ok] txs1_ok] obtain r where "core r pool1"
    by (auto simp: pool_ok_in_def mempool_ok_def pool_inv_def)
  moreover have "core r (p\<lparr>po_maxTx := n\<rparr>) = core r p" for p n by (simp add: core_def)
  ultimately have core: "core r smallPool" by (simp only: smallPool_def)
  have len: "length (txID tx1) = 64" using TxHash_ok [of tx1] by (simp add: txID_def hash_ok_def HashSize_def)
  have id: "''child'' \<noteq> txID tx1"
  proof
    assume "''child'' = txID tx1"
    then have "length (txID tx1) = length ''child''" by simp
    with len show False by simp
  qed
  have p: "po_entries smallPool = fmupd (txID tx1) entry1 fmempty" "po_maxTx smallPool = 1" "po_orphans smallPool = fmempty"
    by (simp_all add: smallPool_def)
  have childs: "po_childs smallPool = fmempty" and spent: "po_spent smallPool = fmupd (op_key \<lparr>op_Hash = [7], op_Index = 0\<rparr>) (txID tx1) fmempty"
    using self_free by (simp_all add: smallPool_def pool1_def insertEntry_def linkInput_def inTxIDs_def)
  have "listed {|txID tx1|} = [txID tx1]" by (simp add: listed_def sorted_list_of_fset.rep_eq)
  then have low: "lowestEvictionCandidate listed (po_entries smallPool) (po_childs smallPool) =
      Some (txID tx1, feeRatePerKB 1000 123)"
    by (simp add: lowestEvictionCandidate_def lowerRate_def p childs)
  have rate: "feeRatePerKB 1000 123 <s feeRatePerKB 4000 154"
    by (simp add: word_sless_alt feeRatePerKB_exact MaxStandardTxSize_def MaxMoney_def Coin_def)
  have ins: "inTxIDs (me_Tx childEntry) = [txID tx1]" "inKeys (me_Tx childEntry) = [op_key \<lparr>op_Hash = TxHash tx1, op_Index = 0\<rparr>]"
    by (simp_all add: childEntry_def spendOf_def inTxIDs_def inKeys_def txID_def)
  have "TxHash tx1 \<noteq> [7]" using TxHash_ok [of tx1] by (auto simp: hash_ok_def HashSize_def)
  then have free: "fmlookup (po_spent smallPool) k = None" if "k \<in> set (inKeys (me_Tx childEntry))" for k
    using that by (auto simp: ins spent op_key_inj)
  have "mlen (po_entries smallPool) = po_maxTx smallPool" by (simp add: p fcard.rep_eq)
  moreover have "me_TxID childEntry = ''child''" "me_Fee childEntry = 4000" "me_Size childEntry = 154"
    by (simp_all add: childEntry_def)
  ultimately show ?thesis
    using eviction_takes_parent [where e = childEntry, OF core listed_ok _ low _ _ _ _ free] rate ins id p by simp
qed

end
