(* ===== verification/Mining.thy ===== *)
theory Mining
  imports ChainForks Mempool
begin

text \<open>
  Block templates and the nonce search (\<^verbatim>\<open>internal/mining/miner.go\<close>). A worker is a function of
  its start nonce and of when it sees the search cancelled; what \<open>MineBlock\<close> learns from its
  goroutines and its ticker, and in which order, is a list of events. Times are nanoseconds; an
  unset \<open>time.Time\<close> is \<open>None\<close>.
\<close>

section \<open>Freshness\<close>

datatype staleReason =
  TemplateUnavailable | ChainUnavailable | TipUnavailable | PrevHashMismatch | HeightMismatch | HardStale

text \<open>The refresh reason repeats the stale reason behind a tag; a soft refresh has its own.\<close>

datatype refreshReason = RefreshStale staleReason | SoftRefreshAge

record TemplateStatus =
  ts_CurrentTipHeight :: i32
  ts_CurrentTipHash :: string
  ts_Height :: i32
  ts_PrevHash :: string
  ts_Age :: int
  ts_IsFresh :: bool
  ts_RefreshDue :: bool
  ts_StaleReason :: "staleReason option"
  ts_RefreshReason :: "refreshReason option"

definition DefaultSoftTemplateRefreshAge :: int where
  "DefaultSoftTemplateRefreshAge = 2 * 60 * 10 ^ 9"

definition DefaultHardTemplateStaleAge :: int where
  "DefaultHardTemplateStaleAge = 2 * (TargetSpacingSeconds * 10 ^ 9)"

definition CheckTemplateFreshness ::
    "Chain option \<Rightarrow> MsgBlock option \<Rightarrow> i32 \<Rightarrow> int option \<Rightarrow> int \<Rightarrow> int \<Rightarrow> TemplateStatus" where
  "CheckTemplateFreshness chain template height createdAt hardMaxAge0 now =
     (let since = (case createdAt of None \<Rightarrow> 0 | Some t \<Rightarrow> now - t);
          status = \<lparr>ts_CurrentTipHeight = -1, ts_CurrentTipHash = [], ts_Height = height, ts_PrevHash = [],
            ts_Age = 0, ts_IsFresh = False, ts_RefreshDue = True,
            ts_StaleReason = Some TemplateUnavailable, ts_RefreshReason = Some (RefreshStale TemplateUnavailable)\<rparr>;
          stale = (\<lambda>r s. s\<lparr>ts_StaleReason := Some r, ts_RefreshDue := True, ts_RefreshReason := Some (RefreshStale r)\<rparr>)
      in (case template of None \<Rightarrow> status
        | Some block \<Rightarrow>
          let prevHash = hash_String (hd_PrevBlock (bk_Header block));
              status = status\<lparr>ts_PrevHash := prevHash, ts_Age := since\<rparr>
          in (case chain of None \<Rightarrow> stale ChainUnavailable status
            | Some ch \<Rightarrow>
              (case ch_tip ch of None \<Rightarrow> stale TipUnavailable status
               | Some tip \<Rightarrow>
                 if ix_Hash tip = [] then stale TipUnavailable status
                 else
                   let status = status\<lparr>ts_CurrentTipHeight := ix_Height tip, ts_CurrentTipHash := ix_Hash tip\<rparr> in
                   if prevHash \<noteq> ix_Hash tip then stale PrevHashMismatch status
                   else if height \<noteq> ix_Height tip + 1 then stale HeightMismatch status
                   else
                     let hardMaxAge = (if hardMaxAge0 \<le> 0 then DefaultHardTemplateStaleAge else hardMaxAge0) in
                     if createdAt \<noteq> None \<and> since > hardMaxAge then stale HardStale status
                     else if createdAt \<noteq> None \<and> since > DefaultSoftTemplateRefreshAge
                     then status\<lparr>ts_IsFresh := True, ts_StaleReason := None, ts_RefreshDue := True,
                            ts_RefreshReason := Some SoftRefreshAge\<rparr>
                     else status\<lparr>ts_IsFresh := True, ts_StaleReason := None, ts_RefreshDue := False,
                            ts_RefreshReason := None\<rparr>))))"

section \<open>The coinbase\<close>

datatype mining_error =
    MiNoOutputs | MiNegativeHeight | MiPubKeyHash | MiNegativeValue | MiScript script_error
  | MiAddressHash | MiNoTip | MiTipHash hash_error | MiChain chain_error | MiTime
  | MiStale "staleReason option" | MiRefresh "refreshReason option" | MiHasher | MiNonceNotFound | MiCancelled

record CoinbaseOutput =
  co_PubKeyHash :: bytes
  co_Value :: i64

fun coinbaseOutputs :: "CoinbaseOutput list \<Rightarrow> mining_error + TxOut list" where
  "coinbaseOutputs [] = Inr []"
| "coinbaseOutputs (out # outs) =
     (if length (co_PubKeyHash out) \<noteq> 20 then Inl MiPubKeyHash
      else if co_Value out <s 0 then Inl MiNegativeValue
      else (case PayToPubKeyHashScript (co_PubKeyHash out) of Inl e \<Rightarrow> Inl (MiScript e)
        | Inr pkScript \<Rightarrow>
          (case coinbaseOutputs outs of Inl e \<Rightarrow> Inl e
           | Inr txOut \<Rightarrow> Inr (\<lparr>out_Value = co_Value out, out_PkScript = pkScript\<rparr> # txOut))))"

definition heightScript :: "i32 \<Rightarrow> bytes" where
  "heightScript height = le_bytes 4 (ucast height :: u32)"

definition NewCoinbaseTxWithOutputs :: "i32 \<Rightarrow> CoinbaseOutput list \<Rightarrow> mining_error + MsgTx" where
  "NewCoinbaseTxWithOutputs height outputs =
     (if outputs = [] then Inl MiNoOutputs
      else if height <s 0 then Inl MiNegativeHeight
      else (case coinbaseOutputs outputs of Inl e \<Rightarrow> Inl e
        | Inr txOut \<Rightarrow>
          Inr \<lparr>tx_Version = 1,
               tx_TxIn = [\<lparr>PreviousOutPoint = \<lparr>op_Hash = zero_hash, op_Index = 0xffffffff\<rparr>,
                 SignatureScript = of_nat (length (heightScript height)) # heightScript height @ bytes_of_string ''/Legacy-GO/'',
                 Sequence = 0xffffffff\<rparr>],
               tx_TxOut = txOut, tx_LockTime = 0\<rparr>))"

definition NewCoinbaseTx :: "i32 \<Rightarrow> bytes \<Rightarrow> i64 \<Rightarrow> mining_error + MsgTx" where
  "NewCoinbaseTx height pubKeyHash value =
     NewCoinbaseTxWithOutputs height [\<lparr>co_PubKeyHash = pubKeyHash, co_Value = value\<rparr>]"

section \<open>The template\<close>

fun inputsBuildable :: "Chain \<Rightarrow> string list \<Rightarrow> i32 \<Rightarrow> TxIn list \<Rightarrow> bool" where
  "inputsBuildable ch included height [] = True"
| "inputsBuildable ch included height (inp # ins) =
     (if hash_String (op_Hash (PreviousOutPoint inp)) \<in> set included then inputsBuildable ch included height ins
      else (case LoadUTXO (op_key (PreviousOutPoint inp)) (ch_store ch) of Inl _ \<Rightarrow> False
        | Inr prev \<Rightarrow>
          if ut_Coinbase prev \<and> height - ut_Height prev <s CoinbaseMaturity then False
          else inputsBuildable ch included height ins))"

definition templateTxIsBuildable :: "Chain \<Rightarrow> MsgTx \<Rightarrow> string list \<Rightarrow> i32 \<Rightarrow> bool" where
  "templateTxIsBuildable ch tx included height =
     (if tx_TxIn tx = [] then False else inputsBuildable ch included height (tx_TxIn tx))"

text \<open>The loop over the pool's entries: the fees and transactions selected, and their ids.\<close>

fun selectEntries :: "Chain \<Rightarrow> i32 \<Rightarrow> Entry list \<Rightarrow> i64 \<Rightarrow> MsgTx list \<Rightarrow> string list \<Rightarrow> i64 \<times> MsgTx list" where
  "selectEntries ch height [] totalFees selected included = (totalFees, selected)"
| "selectEntries ch height (e # es) totalFees selected included =
     (if \<not> templateTxIsBuildable ch (me_Tx e) included height
      then selectEntries ch height es totalFees selected included
      else selectEntries ch height es (totalFees + me_Fee e) (selected @ [me_Tx e]) (txID (me_Tx e) # included))"

definition NewBlockTemplate ::
    "chainEnv \<Rightarrow> int \<Rightarrow> Pool option \<Rightarrow> bytes \<Rightarrow> Chain \<Rightarrow> (mining_error + MsgBlock \<times> i32) \<times> Chain" where
  "NewBlockTemplate E unixTime pool pubKeyHash ch0 =
     (if length pubKeyHash \<noteq> 20 then (Inl MiAddressHash, ch0)
      else (case ch_tip ch0 of None \<Rightarrow> (Inl MiNoTip, ch0)
        | Some tip \<Rightarrow>
          if ix_Hash tip = [] then (Inl MiNoTip, ch0)
          else (case hash_FromString (ix_Hash tip) of Inl e \<Rightarrow> (Inl (MiTipHash e), ch0)
            | Inr prev \<Rightarrow>
              (case nextRequiredBits E ch0 of (Inl e, ch) \<Rightarrow> (Inl (MiChain e), ch)
               | (Inr bits, ch) \<Rightarrow>
                 let height = ix_Height tip + 1;
                     (totalFees, selected) = (case pool of None \<Rightarrow> (0, [])
                       | Some p \<Rightarrow> selectEntries ch height (entriesTopological 0 p) 0 [] [])
                 in (case NewCoinbaseTx height pubKeyHash (BlockSubsidy height + totalFees) of
                       Inl e \<Rightarrow> (Inl e, ch)
                     | Inr coinbase \<Rightarrow>
                       if unixTime < 0 \<or> unixTime > 0xffffffff then (Inl MiTime, ch)
                       else
                         let timestamp = (of_int unixTime :: u32);
                             timestamp = (if timestamp \<le> ix_Time tip then ix_Time tip + 1 else timestamp);
                             block = \<lparr>bk_Header = \<lparr>hd_Version = 1, hd_PrevBlock = prev, hd_MerkleRoot = zero_hash,
                                 hd_Timestamp = timestamp, hd_Bits = bits, hd_Nonce = 0\<rparr>,
                               bk_Transactions = coinbase # selected\<rparr>
                         in (Inr (block\<lparr>bk_Header := (bk_Header block)\<lparr>hd_MerkleRoot := BuildMerkleRoot block\<rparr>\<rparr>, height), ch))))))"

section \<open>The nonce search\<close>

datatype workerResult = Found u32 hash | HashError | Exhausted | Cancelled

text \<open>
  One worker's loop: it starts at its number and steps by the number of workers, and asks before
  every nonce whether the search has been cancelled. \<open>stop\<close> says when that is: at the poll with
  this number, counted from the nonce at hand, or never. With a step of zero, for 2^32 workers,
  the worker tries the same nonce until it is cancelled.
\<close>

function mineFrom :: "chainEnv \<Rightarrow> BlockHeader \<Rightarrow> u32 \<Rightarrow> nat option \<Rightarrow> u32 \<Rightarrow> workerResult option" where
  "mineFrom E header step stop nonce =
     (if stop = Some 0 then Some Cancelled
      else case en_HashHeader E (header\<lparr>hd_Nonce := nonce\<rparr>) of None \<Rightarrow> Some HashError
      | Some h \<Rightarrow>
        if CheckProofOfWork h (hd_Bits header) = Inr () then Some (Found nonce h)
        else if nonce > 0xffffffff - step then Some Exhausted
        else if step = 0 then map_option (\<lambda>_. Cancelled) stop
        else mineFrom E header step (map_option (\<lambda>k. k - 1) stop) (nonce + step))"
  by pat_completeness auto
termination
proof (relation "measure (\<lambda>(E, header, step, stop, nonce). 2 ^ 32 - unat nonce)", goal_cases)
  case (2 E header step stop nonce h)
  have lt: "unat step < 2 ^ 32" using unsigned_less [where 'a = nat, of step] by simp
  then have "step \<le> 0xffffffff" by (simp add: word_le_nat_alt)
  then have "unat (0xffffffff - step) = 2 ^ 32 - 1 - unat step" by (simp add: unat_sub)
  moreover have "unat nonce \<le> unat (0xffffffff - step)" using 2(4) by (simp add: word_less_nat_alt)
  moreover have "0 < unat step" using 2(5) by (simp add: unat_gt_0)
  ultimately have s: "unat nonce + unat step < 2 ^ 32" "0 < unat step" using lt by simp_all
  then have "unat (nonce + step) = unat nonce + unat step" by (simp add: unat_word_ariths)
  with s show ?case by simp
qed simp

declare mineFrom.simps [simp del]

definition mineWorker :: "chainEnv \<Rightarrow> BlockHeader \<Rightarrow> nat \<Rightarrow> nat option \<Rightarrow> nat \<Rightarrow> workerResult option" where
  "mineWorker E header workers stop worker = mineFrom E header (of_nat workers) stop (of_nat worker)"

text \<open>A found block is submitted: \<open>handleResult\<close> on the chain and the pool of that moment.\<close>

definition handleResult ::
    "chainEnv \<Rightarrow> u32 \<Rightarrow> map_order \<Rightarrow> int \<Rightarrow> int \<Rightarrow> MsgBlock \<Rightarrow> i32 \<Rightarrow> Chain \<Rightarrow> Pool option \<Rightarrow>
     (mining_error + unit) \<times> Chain \<times> Pool option" where
  "handleResult E clock ord now createdAt block height ch pool =
     (let status = CheckTemplateFreshness (Some ch) (Some block) height (Some createdAt) DefaultHardTemplateStaleAge now
      in if \<not> ts_IsFresh status then (Inl (MiStale (ts_StaleReason status)), ch, pool)
         else (case connectBlock E clock block ch of (Inl e, ch) \<Rightarrow> (Inl (MiChain e), ch, pool)
           | (Inr _, ch) \<Rightarrow> (Inr (), ch, map_option (RemoveForBlock ord block) pool)))"

text \<open>
  What \<open>MineBlock\<close> waits for while its workers run: a worker ends (with its number, when it saw
  the search cancelled, and the time), the stale ticker ticks, or the caller's context ends. A
  worker that found a block or could not hash sends that; a tick that finds the template stale
  or due for a refresh cancels the search, also when some nonce would have solved it. When all
  workers have ended and nothing was sent, no nonce was found.
\<close>

datatype mineEvent = WorkerEnded nat "nat option" int | StaleTick int | ContextDone

fun mineLoop ::
    "chainEnv \<Rightarrow> u32 \<Rightarrow> map_order \<Rightarrow> int \<Rightarrow> MsgBlock \<Rightarrow> i32 \<Rightarrow> nat \<Rightarrow> mineEvent list \<Rightarrow> Chain \<Rightarrow> Pool option \<Rightarrow>
     (mining_error + MsgBlock \<times> hash \<times> i32) \<times> Chain \<times> Pool option" where
  "mineLoop E clock ord createdAt template height workers [] ch pool = (Inl MiNonceNotFound, ch, pool)"
| "mineLoop E clock ord createdAt template height workers (ContextDone # events) ch pool = (Inl MiCancelled, ch, pool)"
| "mineLoop E clock ord createdAt template height workers (StaleTick now # events) ch pool =
     (let status = CheckTemplateFreshness (Some ch) (Some template) height (Some createdAt) DefaultHardTemplateStaleAge now
      in if \<not> ts_IsFresh status then (Inl (MiStale (ts_StaleReason status)), ch, pool)
         else if ts_RefreshDue status then (Inl (MiRefresh (ts_RefreshReason status)), ch, pool)
         else mineLoop E clock ord createdAt template height workers events ch pool)"
| "mineLoop E clock ord createdAt template height workers (WorkerEnded worker stop now # events) ch pool =
     (case mineWorker E (bk_Header template) workers stop worker of
        Some (Found nonce h) \<Rightarrow>
          let block = template\<lparr>bk_Header := (bk_Header template)\<lparr>hd_Nonce := nonce\<rparr>\<rparr> in
          (case handleResult E clock ord now createdAt block height ch pool of
             (Inl e, ch, pool) \<Rightarrow> (Inl e, ch, pool)
           | (Inr _, ch, pool) \<Rightarrow> (Inr (block, h, height), ch, pool))
      | Some HashError \<Rightarrow> (Inl MiHasher, ch, pool)
      | _ \<Rightarrow> mineLoop E clock ord createdAt template height workers events ch pool)"

text \<open>\<open>MineBlock\<close> with these events, when nothing else touches chain and pool meanwhile.\<close>

definition MineBlock ::
    "chainEnv \<Rightarrow> u32 \<Rightarrow> map_order \<Rightarrow> int \<Rightarrow> int \<Rightarrow> bytes \<Rightarrow> int \<Rightarrow> mineEvent list \<Rightarrow> Chain \<Rightarrow> Pool option \<Rightarrow>
     (mining_error + MsgBlock \<times> hash \<times> i32) \<times> Chain \<times> Pool option" where
  "MineBlock E clock ord unixTime now pubKeyHash workers0 events ch0 pool =
     (let workers = (if workers0 \<le> 0 then 1 else nat workers0) in
      case NewBlockTemplate E unixTime pool pubKeyHash ch0 of (Inl e, ch) \<Rightarrow> (Inl e, ch, pool)
      | (Inr (template, height), ch) \<Rightarrow>
        let status = CheckTemplateFreshness (Some ch) (Some template) height (Some now) DefaultHardTemplateStaleAge now in
        if \<not> ts_IsFresh status then (Inl (MiStale (ts_StaleReason status)), ch, pool)
        else mineLoop E clock ord now template height workers events ch pool)"

end
