(* ===== verification/MiningSearch.thy ===== *)
theory MiningSearch
  imports Mining
begin

text \<open>
  The nonce search: a worker tries its start nonce and every step after it up to the last
  nonce, so the workers together try every nonce, each once. When a template counts as fresh.
\<close>

section \<open>One worker\<close>

definition solves :: "chainEnv \<Rightarrow> BlockHeader \<Rightarrow> u32 \<Rightarrow> hash \<Rightarrow> bool" where
  "solves E header n h \<longleftrightarrow>
     en_HashHeader E (header\<lparr>hd_Nonce := n\<rparr>) = Some h \<and> CheckProofOfWork h (hd_Bits header) = Inr ()"

definition hashes :: "chainEnv \<Rightarrow> BlockHeader \<Rightarrow> bool" where
  "hashes E header \<longleftrightarrow> (\<forall>n. en_HashHeader E (header\<lparr>hd_Nonce := n\<rparr>) \<noteq> None)"

lemma unat_i32_bound: "unat (n :: u32) < 2 ^ 32"
  using unsigned_less [where 'a = nat, of n] by simp

lemma nonce_advance:
  assumes "\<not> nonce > 0xffffffff - (step :: u32)"
  shows "unat nonce + unat step < 2 ^ 32" "unat (nonce + step) = unat nonce + unat step"
proof -
  have "step \<le> 0xffffffff" using unat_i32_bound [of step] by (simp add: word_le_nat_alt)
  then have "unat (0xffffffff - step) = 2 ^ 32 - 1 - unat step" by (simp add: unat_sub)
  moreover have "unat nonce \<le> unat (0xffffffff - step)" using assms by (simp add: word_less_nat_alt)
  ultimately show s: "unat nonce + unat step < 2 ^ 32" using unat_i32_bound [of step] by simp
  then show "unat (nonce + step) = unat nonce + unat step" by (simp add: unat_word_ariths)
qed

lemma nonce_last:
  assumes "nonce > 0xffffffff - (step :: u32)"
  shows "2 ^ 32 \<le> unat nonce + unat step"
proof -
  have "step \<le> 0xffffffff" using unat_i32_bound [of step] by (simp add: word_le_nat_alt)
  then have "unat (0xffffffff - step) = 2 ^ 32 - 1 - unat step" by (simp add: unat_sub)
  moreover have "unat (0xffffffff - step) < unat nonce" using assms by (simp add: word_less_nat_alt)
  ultimately show ?thesis using unat_i32_bound [of step] by simp
qed

lemma mineFrom_Found: "mineFrom E header step stop nonce = Some (Found n h) \<Longrightarrow> solves E header n h"
proof (induction E header step stop nonce rule: mineFrom.induct)
  case (1 E header step stop nonce)
  from "1.prems" [unfolded mineFrom.simps [of E header step stop nonce]] show ?case
    using "1.IH" by (auto simp: solves_def split: option.splits if_splits)
qed

text \<open>The nonces a worker tries: its start plus multiples of the step, below \<open>2 ^ 32\<close>.\<close>

definition tried :: "u32 \<Rightarrow> u32 \<Rightarrow> u32 \<Rightarrow> bool" where
  "tried step nonce n \<longleftrightarrow> (\<exists>k. unat n = unat nonce + k * unat step)"

lemma tried_next:
  assumes "\<not> nonce > 0xffffffff - step"
  shows "tried step nonce n \<longleftrightarrow> n = nonce \<or> tried step (nonce + step) n"
proof
  assume "tried step nonce n"
  then obtain k where k: "unat n = unat nonce + k * unat step" by (auto simp: tried_def)
  show "n = nonce \<or> tried step (nonce + step) n"
  proof (cases k)
    case 0
    with k show ?thesis by (simp add: word_unat_eq_iff)
  next
    case (Suc l)
    with k nonce_advance(2) [OF assms] have "unat n = unat (nonce + step) + l * unat step" by simp
    then show ?thesis by (auto simp: tried_def)
  qed
next
  assume "n = nonce \<or> tried step (nonce + step) n"
  then show "tried step nonce n"
  proof
    assume "tried step (nonce + step) n"
    then obtain k where "unat n = unat (nonce + step) + k * unat step" by (auto simp: tried_def)
    then have "unat n = unat nonce + Suc k * unat step" using nonce_advance(2) [OF assms] by simp
    then show ?thesis unfolding tried_def by blast
  qed (auto simp: tried_def intro: exI [of _ 0])
qed

lemma tried_last: "nonce > 0xffffffff - step \<Longrightarrow> tried step nonce n \<Longrightarrow> n = nonce"
proof -
  assume l: "nonce > 0xffffffff - step" and "tried step nonce n"
  then obtain k where k: "unat n = unat nonce + k * unat step" by (auto simp: tried_def)
  show "n = nonce"
  proof (cases k)
    case 0
    with k show ?thesis by (simp add: word_unat_eq_iff)
  next
    case (Suc l')
    with k nonce_last [OF l] unat_i32_bound [of n] show ?thesis by simp
  qed
qed

text \<open>How a worker's loop can end: it finds, or it was cancelled, or none of its nonces solves.\<close>

lemma mineFrom_ends:
  assumes "hashes E header" "step \<noteq> 0"
  shows "(\<exists>n h. mineFrom E header step stop nonce = Some (Found n h) \<and> tried step nonce n) \<or>
    (mineFrom E header step stop nonce = Some Cancelled \<and> stop \<noteq> None) \<or>
    (mineFrom E header step stop nonce = Some Exhausted \<and> (\<forall>n h. tried step nonce n \<longrightarrow> \<not> solves E header n h))"
  using assms
proof (induction E header step stop nonce rule: mineFrom.induct)
  case (1 E header step stop nonce)
  obtain x where x: "en_HashHeader E (header\<lparr>hd_Nonce := nonce\<rparr>) = Some x"
    using "1.prems"(1) by (auto simp: hashes_def)
  have self: "tried step nonce nonce" unfolding tried_def by (rule exI [of _ 0]) simp
  show ?case
  proof (cases "stop = Some 0")
    case True
    then have "mineFrom E header step stop nonce = Some Cancelled" by (subst mineFrom.simps) simp
    with True show ?thesis by blast
  next
    case go: False
    show ?thesis
    proof (cases "CheckProofOfWork x (hd_Bits header) = Inr ()")
      case True
      with x go have "mineFrom E header step stop nonce = Some (Found nonce x)" by (subst mineFrom.simps) simp
      with self show ?thesis by blast
    next
      case False
      with x have no: "\<not> solves E header nonce h" for h by (auto simp: solves_def)
      show ?thesis
      proof (cases "nonce > 0xffffffff - step")
        case last: True
        with x go False have "mineFrom E header step stop nonce = Some Exhausted" by (subst mineFrom.simps) simp
        with tried_last [OF last] no show ?thesis by auto
      next
        case next_nonce: False
        with x go False "1.prems"(2)
        have e: "mineFrom E header step stop nonce = mineFrom E header step (map_option (\<lambda>k. k - 1) stop) (nonce + step)"
          by (subst mineFrom.simps) simp
        from "1.IH" [OF go x False next_nonce "1.prems"(2,1,2)] show ?thesis
          unfolding e tried_next [OF next_nonce] using no by auto
      qed
    qed
  qed
qed

section \<open>All workers\<close>

lemma unat_worker: "w < workers \<Longrightarrow> workers < 2 ^ 32 \<Longrightarrow> unat (of_nat w :: u32) = w"
  by (simp add: unat_of_nat take_bit_nat_eq_self)

lemma every_nonce_tried:
  assumes "0 < workers" "workers < 2 ^ 32"
  shows "\<exists>!w. w < workers \<and> tried (of_nat workers) (of_nat w) n"
proof (rule ex1I [of _ "unat n mod workers"])
  have u: "unat (of_nat workers :: u32) = workers" using assms(2) by (simp add: unat_of_nat take_bit_nat_eq_self)
  show "unat n mod workers < workers \<and> tried (of_nat workers) (of_nat (unat n mod workers)) n"
    using assms u unat_worker [of "unat n mod workers" workers]
    by (auto simp: tried_def intro!: exI [of _ "unat n div workers"])
  show "w = unat n mod workers" if "w < workers \<and> tried (of_nat workers) (of_nat w) n" for w
    using that u unat_worker [of w workers] assms(2) by (auto simp: tried_def)
qed

lemma worker_ends:
  assumes "hashes E header" "0 < workers" "workers < 2 ^ 32"
  shows "(\<exists>n h. mineWorker E header workers stop w = Some (Found n h) \<and> solves E header n h \<and>
        tried (of_nat workers) (of_nat w) n) \<or>
    (mineWorker E header workers stop w = Some Cancelled \<and> stop \<noteq> None) \<or>
    (mineWorker E header workers stop w = Some Exhausted \<and>
       (\<forall>n h. tried (of_nat workers) (of_nat w) n \<longrightarrow> \<not> solves E header n h))"
proof -
  have "unat (of_nat workers :: u32) = workers" using assms(3) by (simp add: unat_of_nat take_bit_nat_eq_self)
  then have "(of_nat workers :: u32) \<noteq> 0" using assms(2) by auto
  from mineFrom_ends [OF assms(1) this, of stop "of_nat w"] show ?thesis
    using mineFrom_Found unfolding mineWorker_def by blast
qed

text \<open>If a nonce solves the header, the worker it belongs to finds one unless it is cancelled.\<close>

lemma search_complete:
  assumes "hashes E header" "0 < workers" "workers < 2 ^ 32" "solves E header n h"
  shows "\<exists>w<workers. (\<exists>n h. mineWorker E header workers (stop w) w = Some (Found n h)) \<or>
    (mineWorker E header workers (stop w) w = Some Cancelled \<and> stop w \<noteq> None)"
proof -
  obtain w where "w < workers" "tried (of_nat workers) (of_nat w) n"
    using every_nonce_tried [OF assms(2,3)] by blast
  with worker_ends [OF assms(1-3), of "stop w" w] assms(4) show ?thesis by blast
qed

section \<open>Freshness\<close>

lemma fresh_iff:
  "ts_IsFresh (CheckTemplateFreshness chain template height createdAt age now) \<longleftrightarrow>
     (\<exists>ch block tip. chain = Some ch \<and> template = Some block \<and> ch_tip ch = Some tip \<and> ix_Hash tip \<noteq> [] \<and>
        hash_String (hd_PrevBlock (bk_Header block)) = ix_Hash tip \<and> height = ix_Height tip + 1 \<and>
        (\<forall>t. createdAt = Some t \<longrightarrow> now - t \<le> (if age \<le> 0 then DefaultHardTemplateStaleAge else age)))"
  by (auto simp: CheckTemplateFreshness_def Let_def split: option.splits)

lemma refresh_iff:
  assumes "ts_IsFresh (CheckTemplateFreshness chain template height createdAt age now)"
  shows "ts_RefreshDue (CheckTemplateFreshness chain template height createdAt age now) \<longleftrightarrow>
    (\<exists>t. createdAt = Some t \<and> DefaultSoftTemplateRefreshAge < now - t)"
proof -
  obtain ch block tip where e: "chain = Some ch" "template = Some block" "ch_tip ch = Some tip" "ix_Hash tip \<noteq> []"
      "hash_String (hd_PrevBlock (bk_Header block)) = ix_Hash tip" "height = ix_Height tip + 1"
      "\<forall>t. createdAt = Some t \<longrightarrow> now - t \<le> (if age \<le> 0 then DefaultHardTemplateStaleAge else age)"
    using assms unfolding fresh_iff by blast
  show ?thesis
  proof (cases createdAt)
    case None
    with e show ?thesis by (simp add: CheckTemplateFreshness_def Let_def)
  next
    case (Some t)
    with e(7) have "\<not> (now - t > (if age \<le> 0 then DefaultHardTemplateStaleAge else age))" by simp
    with e(1-6) Some show ?thesis by (simp add: CheckTemplateFreshness_def Let_def)
  qed
qed

lemma stale_has_reason:
  "ts_IsFresh (CheckTemplateFreshness chain template height createdAt age now) \<longleftrightarrow>
     ts_StaleReason (CheckTemplateFreshness chain template height createdAt age now) = None"
  by (auto simp: CheckTemplateFreshness_def Let_def split: option.splits)

end
