(* ===== verification/MiningTemplate.thy ===== *)
theory MiningTemplate
  imports MiningSearch MempoolAccept ChainSteps
begin

text \<open>
  A template passes block validation. The pool checks transactions one by one and against each
  other; the block check goes through them in a row with a record of what the block has
  created and spent so far. This theory runs the second on what the first has accepted.
\<close>

section \<open>Inputs\<close>

text \<open>Two views of an output that a check cannot tell apart.\<close>

definition same_coin :: "UTXOEntry \<Rightarrow> UTXOEntry \<Rightarrow> bool" where
  "same_coin a b \<longleftrightarrow> ut_Value a = ut_Value b \<and> ut_PkScript a = ut_PkScript b \<and> ut_Coinbase a = ut_Coinbase b \<and>
     (ut_Coinbase a \<longrightarrow> ut_Height a = ut_Height b)"

definition coin :: "(string \<Rightarrow> UTXOEntry option) \<Rightarrow> blockState \<Rightarrow> string \<Rightarrow> UTXOEntry option" where
  "coin utxo st key = (if key |\<in>| fmdom (bs_pending st) then fmlookup (bs_pending st) key else utxo key)"

text \<open>The signature operations of a transaction, as both checks count them.\<close>

definition inputOps :: "crypto \<Rightarrow> (OutPoint \<Rightarrow> UTXOEntry option) \<Rightarrow> TxIn \<Rightarrow> int" where
  "inputOps C prev inp =
     (case prev (PreviousOutPoint inp) of None \<Rightarrow> 0
      | Some e \<Rightarrow> (case hex_decode (ut_PkScript e) of None \<Rightarrow> 0
        | Some pk \<Rightarrow> (case SigOpsForSpend C (SignatureScript inp) pk of Inl _ \<Rightarrow> 0 | Inr n \<Rightarrow> n)))"

definition txOps :: "crypto \<Rightarrow> Chain \<Rightarrow> Pool \<Rightarrow> MsgTx \<Rightarrow> int" where
  "txOps C ch p tx = outputSigOps tx + sum_list (map (inputOps C (prevOutput ch p (nextHeight ch))) (tx_TxIn tx))"

definition after_inputs :: "TxIn list \<Rightarrow> int \<Rightarrow> blockState \<Rightarrow> blockState \<Rightarrow> bool" where
  "after_inputs ins n st st' \<longleftrightarrow>
     set (bs_seenSpends st') = set (bs_seenSpends st) \<union> in_key ` set ins \<and>
     (\<forall>k. fmlookup (bs_pending st') k = (if k \<in> in_key ` set ins then None else fmlookup (bs_pending st) k)) \<and>
     bs_seenTx st' = bs_seenTx st \<and> bs_fees st' = bs_fees st \<and> bs_coinbaseOut st' = bs_coinbaseOut st \<and>
     bs_sigOps st' = bs_sigOps st + n"

lemma inputs_pass:
  assumes "checkTxInputs C ch p tx h i ins seen [] t ops = Inr (t', [])"
    and "distinct (map in_key ins)" "\<And>inp. inp \<in> set ins \<Longrightarrow> in_key inp \<notin> set (bs_seenSpends st)"
    and "\<And>inp. inp \<in> set ins \<Longrightarrow> \<exists>prev prev'. prevOutput ch p h (PreviousOutPoint inp) = Some prev \<and>
      coin utxo st (in_key inp) = Some prev' \<and> same_coin prev prev'"
  shows "\<exists>st'. check_inputs C utxo tx h (int i) ins t ops st =
      Inr (t', ops + sum_list (map (inputOps C (prevOutput ch p h)) ins), st') \<and>
    after_inputs ins (sum_list (map (inputOps C (prevOutput ch p h)) ins)) st st' \<and>
    (ins \<noteq> [] \<longrightarrow> ops + sum_list (map (inputOps C (prevOutput ch p h)) ins) \<le> MaxTxSigOps)"
  using assms
proof (induction ins arbitrary: i seen t ops st)
  case Nil
  then show ?case by (simp add: after_inputs_def)
next
  case (Cons inp ins)
  let ?key = "in_key inp" and ?ops = "inputOps C (prevOutput ch p h)"
  from Cons.prems(1) obtain prev pk n where
    prev: "prevOutput ch p h (PreviousOutPoint inp) = Some prev" "ut_Coinbase prev \<longrightarrow> CoinbaseMaturity \<le>s h - ut_Height prev"
      "hex_decode (ut_PkScript prev) = Some pk" "SigOpsForSpend C (SignatureScript inp) pk = Inr n" "ops + n \<le> MaxTxSigOps"
      "VerifyInput C tx (int i) pk = Inr ()" "MoneyRange (t + ut_Value prev)"
    and r: "checkTxInputs C ch p tx h (i + 1) ins (?key # seen) [] (t + ut_Value prev) (ops + n) = Inr (t', [])"
    unfolding in_key_def by (rule checkTxInputs_Cons)
  obtain prev' where prev': "coin utxo st ?key = Some prev'" "same_coin prev prev'"
    using Cons.prems(4) [of inp] prev(1) by auto
  define st1 where "st1 = (let st = st\<lparr>bs_seenSpends := ?key # bs_seenSpends st, bs_sigOps := bs_sigOps st + n\<rparr>
     in if ?key |\<in>| fmdom (bs_pending st) then st\<lparr>bs_pending := fmdrop ?key (bs_pending st)\<rparr>
        else st\<lparr>bs_spends := bs_spends st @ [?key], bs_spent := bs_spent st @ [prev']\<rparr>)"
  have n: "?ops inp = n" by (simp add: inputOps_def prev)
  have nkey: "?key \<notin> set (bs_seenSpends st)" using Cons.prems(3) by simp
  have mature: "(ut_Coinbase prev' \<and> h - ut_Height prev' <s CoinbaseMaturity) = False"
    using prev(2) prev'(2) by (auto simp: same_coin_def word_sless_alt word_sle_eq)
  have step: "check_inputs C utxo tx h (int i) (inp # ins) t ops st =
      check_inputs C utxo tx h (int (i + 1)) ins (t + ut_Value prev) (ops + n) st1"
    using nkey prev prev'
    by (simp add: mature coin_def same_coin_def st1_def in_key_def Let_def add.commute cong: if_cong)
  have st1: "after_inputs [inp] n st st1"
    by (auto simp: after_inputs_def st1_def Let_def intro: fmdom_notD)
  have other: "in_key x \<noteq> ?key" if "x \<in> set ins" for x using Cons.prems(2) that by (auto simp: image_iff)
  have "\<exists>st'. check_inputs C utxo tx h (int (i + 1)) ins (t + ut_Value prev) (ops + n) st1 =
      Inr (t', ops + n + sum_list (map ?ops ins), st') \<and> after_inputs ins (sum_list (map ?ops ins)) st1 st' \<and>
      (ins \<noteq> [] \<longrightarrow> ops + n + sum_list (map ?ops ins) \<le> MaxTxSigOps)"
  proof (rule Cons.IH [OF r])
    fix x assume x: "x \<in> set ins"
    show "in_key x \<notin> set (bs_seenSpends st1)" using st1 other [OF x] Cons.prems(3) x by (auto simp: after_inputs_def)
    have "coin utxo st1 (in_key x) = coin utxo st (in_key x)"
    proof -
      have l: "fmlookup (bs_pending st1) (in_key x) = fmlookup (bs_pending st) (in_key x)"
        using st1 other [OF x] by (simp add: after_inputs_def)
      then have "in_key x |\<in>| fmdom (bs_pending st1) \<longleftrightarrow> in_key x |\<in>| fmdom (bs_pending st)"
        by (simp add: fmlookup_dom_iff)
      with l show ?thesis by (simp add: coin_def)
    qed
    then show "\<exists>prev prev'. prevOutput ch p h (PreviousOutPoint x) = Some prev \<and>
        coin utxo st1 (in_key x) = Some prev' \<and> same_coin prev prev'" using Cons.prems(4) [of x] x by simp
  qed (use Cons.prems(2) in simp)
  then obtain st' where st': "check_inputs C utxo tx h (int (i + 1)) ins (t + ut_Value prev) (ops + n) st1 =
      Inr (t', ops + n + sum_list (map ?ops ins), st')" "after_inputs ins (sum_list (map ?ops ins)) st1 st'"
      "ins \<noteq> [] \<longrightarrow> ops + n + sum_list (map ?ops ins) \<le> MaxTxSigOps" by blast
  have "after_inputs (inp # ins) (sum_list (map ?ops (inp # ins))) st st'"
    using st1 st'(2) n by (auto simp: after_inputs_def)
  moreover have "ops + sum_list (map ?ops (inp # ins)) \<le> MaxTxSigOps"
    using st'(3) prev(5) n by (cases "ins = []") (simp_all add: add.assoc)
  ultimately show ?case
    unfolding step st'(1) using n by (intro exI [of _ st']) (simp add: add.assoc)
qed

section \<open>Outputs\<close>

definition after_created :: "UTXOEntry list \<Rightarrow> blockState \<Rightarrow> blockState \<Rightarrow> bool" where
  "after_created es st st' \<longleftrightarrow>
     (\<forall>e\<in>set es. fmlookup (bs_pending st') (ut_Key e) = Some e) \<and>
     (\<forall>k. k \<notin> ut_Key ` set es \<longrightarrow> fmlookup (bs_pending st') k = fmlookup (bs_pending st) k) \<and>
     bs_seenSpends st' = bs_seenSpends st \<and> bs_seenTx st' = bs_seenTx st \<and> bs_fees st' = bs_fees st \<and>
     bs_coinbaseOut st' = bs_coinbaseOut st \<and> bs_sigOps st' = bs_sigOps st"

lemma created_pass:
  "distinct (map ut_Key es) \<Longrightarrow> \<forall>e\<in>set es. ut_Key e |\<notin>| fmdom (bs_pending st) \<Longrightarrow>
     \<exists>st'. add_created es st = Inr st' \<and> after_created es st st'"
proof (induction es arbitrary: st)
  case Nil
  then show ?case by (simp add: after_created_def)
next
  case (Cons e es)
  let ?st = "st\<lparr>bs_pending := fmupd (ut_Key e) e (bs_pending st), bs_order := bs_order st @ [ut_Key e]\<rparr>"
  have "\<forall>x\<in>set es. ut_Key x |\<notin>| fmdom (bs_pending ?st)" using Cons.prems by (auto simp: image_iff)
  then obtain st' where st': "add_created es ?st = Inr st'" "after_created es ?st st'"
    using Cons.IH [of ?st] Cons.prems(1) by auto
  have "add_created (e # es) st = Inr st'" using Cons.prems(2) st'(1) by simp
  moreover have "after_created (e # es) st st'"
    using st'(2) Cons.prems(1) by (auto simp: after_created_def)
  ultimately show ?case by blast
qed

lemma created_distinct:
  assumes "length (tx_TxOut tx) < 2 ^ 32"
  shows "distinct (map ut_Key (createdOutputs h cb tx))"
proof -
  have "map ut_Key (createdOutputs h cb tx) =
      map (\<lambda>v. OutPointKey (hash_String (TxHash tx)) (of_nat v)) [0..<length (tx_TxOut tx)]"
    by (rule nth_equalityI) (auto simp: createdOutputs_def)
  moreover have "inj_on (\<lambda>v. OutPointKey (hash_String (TxHash tx)) (of_nat v)) (set [0..<length (tx_TxOut tx)])"
  proof (rule inj_onI)
    fix v w assume vw: "v \<in> set [0..<length (tx_TxOut tx)]" "w \<in> set [0..<length (tx_TxOut tx)]"
      and "OutPointKey (hash_String (TxHash tx)) (of_nat v) = OutPointKey (hash_String (TxHash tx)) (of_nat w)"
    then have "(of_nat v :: u32) = of_nat w" using OutPointKey_inj [of "hash_String (TxHash tx)" _ "hash_String (TxHash tx)"]
      by (simp add: hash_String_no_colon)
    then have "unat (of_nat v :: u32) = unat (of_nat w :: u32)" by simp
    with vw assms show "v = w" by (simp add: unat_of_nat take_bit_nat_eq_self)
  qed
  ultimately show ?thesis by (simp add: distinct_map)
qed

lemma created_nth:
  assumes "v < length (tx_TxOut tx)"
  shows "\<exists>e\<in>set (createdOutputs h cb tx). ut_Key e = OutPointKey (hash_String (TxHash tx)) (of_nat v) \<and>
    ut_Value e = out_Value (tx_TxOut tx ! v) \<and> ut_PkScript e = hex_encode (out_PkScript (tx_TxOut tx ! v)) \<and>
    ut_Coinbase e = cb \<and> ut_Height e = h"
proof (intro bexI [of _ "createdOutputs h cb tx ! v"])
  show "createdOutputs h cb tx ! v \<in> set (createdOutputs h cb tx)"
    using assms by (intro nth_mem) (simp add: createdOutputs_def)
qed (use assms in \<open>simp add: createdOutputs_def\<close>)

section \<open>One transaction\<close>

text \<open>The state after the coinbase \<open>cb\<close> and the transactions \<open>D\<close>.\<close>

definition carries :: "MsgTx \<Rightarrow> i32 \<Rightarrow> MsgTx list \<Rightarrow> blockState \<Rightarrow> bool" where
  "carries cb h D st \<longleftrightarrow>
     set (bs_seenTx st) = txID ` set (cb # D) \<and>
     (\<forall>k\<in>set (bs_seenSpends st). \<exists>tx\<in>set D. k \<in> set (inKeys tx)) \<and>
     (\<forall>k. k |\<in>| fmdom (bs_pending st) \<longrightarrow> (\<exists>tx\<in>set (cb # D). \<exists>v. k = OutPointKey (txID tx) v)) \<and>
     (\<forall>tx\<in>set D. \<forall>e\<in>set (createdOutputs h False tx).
        ut_Key e \<in> set (bs_seenSpends st) \<or> fmlookup (bs_pending st) (ut_Key e) = Some e)"

lemma carries_pending:
  "carries cb h D st \<Longrightarrow> k |\<in>| fmdom (bs_pending st) \<Longrightarrow> \<exists>x\<in>set (cb # D). \<exists>v. k = OutPointKey (txID x) v"
  unfolding carries_def by blast

text \<open>What the template knows of the transaction it takes next.\<close>

definition unconfirmed :: "FileStore \<Rightarrow> MsgTx \<Rightarrow> bool" where
  "unconfirmed s tx \<longleftrightarrow> (\<forall>v. storedUTXO s (OutPointKey (txID tx) v) = None)"

definition joins :: "chainEnv \<Rightarrow> Chain \<Rightarrow> Pool \<Rightarrow> MsgTx \<Rightarrow> MsgTx list \<Rightarrow> MsgTx \<Rightarrow> i64 \<Rightarrow> bool" where
  "joins E ch p cb D tx fee \<longleftrightarrow>
     validateTransaction (en_crypto E) ch tx p = Valid (txID tx) fee \<and> length (tx_TxOut tx) < 2 ^ 32 \<and>
     txID tx \<notin> txID ` set (cb # D) \<and> (\<forall>x\<in>set D. set (inKeys tx) \<inter> set (inKeys x) = {}) \<and>
     inputsBuildable ch (map txID D) (nextHeight ch) (tx_TxIn tx) \<and>
     (\<forall>x\<in>set D. \<exists>e. fmlookup (po_entries p) (txID x) = Some e \<and> me_Tx e = x)"

lemma buildable_input:
  assumes "inputsBuildable ch ids h ins" "inp \<in> set ins" "hash_String (op_Hash (PreviousOutPoint inp)) \<notin> set ids"
  shows "\<exists>prev. storedUTXO (ch_store ch) (in_key inp) = Some prev"
  using assms by (induction ins) (auto simp: storedUTXO_def in_key_def split: if_splits sum.splits)

lemma input_source:
  assumes j: "joins E ch p cb D tx fee" and c: "carries cb (nextHeight ch) D st" and inp: "inp \<in> set (tx_TxIn tx)"
    and un: "\<forall>x\<in>set (cb # D). unconfirmed (ch_store ch) x"
    and prev: "prevOutput ch p (nextHeight ch) (PreviousOutPoint inp) = Some prev"
  shows "\<exists>prev'. coin (storedUTXO (ch_store ch)) st (in_key inp) = Some prev' \<and> same_coin prev prev'"
proof (cases "hash_String (op_Hash (PreviousOutPoint inp)) \<in> txID ` set D")
  case True
  then obtain x where x: "x \<in> set D" "txID x = hash_String (op_Hash (PreviousOutPoint inp))" by auto
  let ?v = "op_Index (PreviousOutPoint inp)"
  have key: "in_key inp = OutPointKey (txID x) ?v" by (simp add: in_key_def op_key_def x(2))
  have "storedUTXO (ch_store ch) (op_key (PreviousOutPoint inp)) = None"
    using un x(1) key by (auto simp: unconfirmed_def in_key_def)
  moreover obtain e where e: "fmlookup (po_entries p) (txID x) = Some e" "me_Tx e = x"
    using j x(1) by (auto simp: joins_def)
  ultimately have p: "unat ?v < length (tx_TxOut x)"
    "prev = \<lparr>ut_Key = op_key (PreviousOutPoint inp), ut_TxID = txID x, ut_Vout = ?v,
       ut_Value = out_Value (tx_TxOut x ! unat ?v), ut_PkScript = hex_encode (out_PkScript (tx_TxOut x ! unat ?v)),
       ut_Height = nextHeight ch, ut_Coinbase = False\<rparr>"
    using prev x(2) by (auto simp: prevOutput_def storedUTXO_def Let_def not_le split: sum.splits if_splits)
  obtain o' where o': "o' \<in> set (createdOutputs (nextHeight ch) False x)" "ut_Key o' = in_key inp"
    "same_coin prev o'"
    using created_nth [OF p(1), of "nextHeight ch" False] key p(2) by (auto simp: txID_def same_coin_def)
  have "in_key inp \<notin> set (bs_seenSpends st)"
  proof
    assume "in_key inp \<in> set (bs_seenSpends st)"
    then obtain y where "y \<in> set D" "in_key inp \<in> set (inKeys y)" using c by (auto simp: carries_def)
    moreover have "in_key inp \<in> set (inKeys tx)" using inp by (auto simp: inKeys_def in_key_def)
    ultimately show False using j by (auto simp: joins_def)
  qed
  then have "fmlookup (bs_pending st) (in_key inp) = Some o'"
    using c x(1) o'(1,2) unfolding carries_def by metis
  then show ?thesis using o'(3) by (auto simp: coin_def intro: fmdomI)
next
  case False
  then obtain prev0 where p0: "storedUTXO (ch_store ch) (in_key inp) = Some prev0"
    using buildable_input [of ch "map txID D" "nextHeight ch" "tx_TxIn tx" inp] j inp by (auto simp: joins_def)
  then have "prev0 = prev" using prev by (simp add: prevOutput_def storedUTXO_def in_key_def split: sum.splits)
  moreover have "in_key inp |\<notin>| fmdom (bs_pending st)"
  proof
    assume "in_key inp |\<in>| fmdom (bs_pending st)"
    from carries_pending [OF c this] obtain x v where
      x: "x \<in> set (cb # D)" "in_key inp = OutPointKey (txID x) v" by blast
    with un p0 show False by (auto simp: unconfirmed_def)
  qed
  ultimately show ?thesis using p0 by (auto simp: coin_def same_coin_def)
qed

lemma final_later:
  assumes "IsFinalizedTx tx h t" "t \<le> t'"
  shows "IsFinalizedTx tx h t'"
  using assms by (auto simp: IsFinalizedTx_def Let_def split: if_splits)

lemma outputs_same: "checkTxOutputs t ops outs = Inr (t', ops') \<Longrightarrow>
    check_outputs t outs = Inr t' \<and> ops' = ops + (\<Sum>out\<leftarrow>outs. CountSigOps (out_PkScript out))"
proof (induction outs arbitrary: t ops)
  case (Cons out outs)
  then have "checkTxOutputs (t + out_Value out) (ops + CountSigOps (out_PkScript out)) outs = Inr (t', ops')"
    "MoneyRange (out_Value out)" "MoneyRange (t + out_Value out)" by (auto simp: Let_def split: if_splits)
  with Cons.IH [OF this(1)] show ?case by simp
qed simp

lemma tx_passes:
  assumes j: "joins E ch p cb D tx fee" and c: "carries cb (nextHeight ch) D st"
    and un: "\<forall>x\<in>set (cb # D). unconfirmed (ch_store ch) x"
    and time: "(case ch_tip ch of None \<Rightarrow> 0 | Some tip \<Rightarrow> ix_Time tip) \<le> time" and i: "0 < i"
    and fees: "MoneyRange (bs_fees st + fee)" and ops: "bs_sigOps st + txOps (en_crypto E) ch p tx \<le> MaxBlockSigOps"
  shows "\<exists>st'. check_tx (en_crypto E) (storedUTXO (ch_store ch)) (nextHeight ch) time i tx st = Inr st' \<and>
    carries cb (nextHeight ch) (D @ [tx]) st' \<and> bs_fees st' = bs_fees st + fee \<and>
    bs_coinbaseOut st' = bs_coinbaseOut st \<and> bs_sigOps st' = bs_sigOps st + txOps (en_crypto E) ch p tx"
proof -
  let ?C = "en_crypto E" and ?h = "nextHeight ch" and ?utxo = "storedUTXO (ch_store ch)"
  obtain totalOut ops0 totalIn where
    o: "checkTxOutputs 0 0 (tx_TxOut tx) = Inr (totalOut, ops0)" and
    i: "checkTxInputs ?C ch p tx ?h 0 (tx_TxIn tx) [] [] 0 ops0 = Inr (totalIn, [])" and
    le: "totalOut \<le>s totalIn" and fee: "fee = totalIn - totalOut" and
    ne: "tx_TxIn tx \<noteq> []" and ncb: "\<not> isCoinbase tx" and
    fin: "IsFinalizedTx tx ?h (case ch_tip ch of None \<Rightarrow> 0 | Some tip \<Rightarrow> ix_Time tip)"
    using j unfolding joins_def by (metis validateTransaction_steps)
  have ops0: "ops0 = outputSigOps tx" "check_outputs 0 (tx_TxOut tx) = Inr totalOut"
    using outputs_same [OF o] by (simp_all add: outputSigOps_def)
  define st1 where "st1 = st\<lparr>bs_seenTx := txID tx # bs_seenTx st, bs_sigOps := bs_sigOps st + ops0\<rparr>"
  have prevs: "\<exists>prev. prevOutput ch p ?h (PreviousOutPoint inp) = Some prev" if "inp \<in> set (tx_TxIn tx)" for inp
  proof -
    from checkTxInputs_sound [OF i MoneyRange_0] obtain ps where
      "list_all2 (\<lambda>(j, inp) prev. spend_ok ?C ch p tx ?h j inp prev) (enumerate 0 (tx_TxIn tx)) ps" by blast
    then have "\<forall>k<length (tx_TxIn tx). spend_ok ?C ch p tx ?h k (tx_TxIn tx ! k) (ps ! k)"
      by (auto simp: list_all2_conv_all_nth nth_enumerate_eq)
    with that show ?thesis by (auto simp: in_set_conv_nth spend_ok_def)
  qed
  have dist: "distinct (map in_key (tx_TxIn tx))"
    using checkTxInputs_sound [OF i MoneyRange_0] by (auto simp: in_key_def comp_def cong: map_cong)
  have keys: "in_key ` set (tx_TxIn tx) = set (inKeys tx)" by (auto simp: inKeys_def in_key_def)
  have unspent: "in_key inp \<notin> set (bs_seenSpends st1)" if "inp \<in> set (tx_TxIn tx)" for inp
    using that c j keys unfolding st1_def carries_def joins_def by fastforce
  have same: "coin ?utxo st1 k = coin ?utxo st k" for k by (simp add: coin_def st1_def)
  have src: "\<exists>prev prev'. prevOutput ch p ?h (PreviousOutPoint inp) = Some prev \<and>
      coin ?utxo st1 (in_key inp) = Some prev' \<and> same_coin prev prev'" if "inp \<in> set (tx_TxIn tx)" for inp
    using prevs [OF that] input_source [OF j c that un] unfolding same by blast
  from inputs_pass [where utxo = ?utxo, OF i dist unspent src] obtain st2 where
    st2: "check_inputs ?C ?utxo tx ?h 0 (tx_TxIn tx) 0 ops0 st1 = Inr (totalIn, txOps ?C ch p tx, st2)"
      "after_inputs (tx_TxIn tx) (txOps ?C ch p tx - ops0) st1 st2" "txOps ?C ch p tx \<le> MaxTxSigOps"
    using ne by (auto simp: txOps_def ops0)
  define st3 where "st3 = st2\<lparr>bs_fees := bs_fees st + fee\<rparr>"
  have new: "ut_Key e |\<notin>| fmdom (bs_pending st3)" if e: "e \<in> set (createdOutputs ?h False tx)" for e
  proof
    assume "ut_Key e |\<in>| fmdom (bs_pending st3)"
    then have "ut_Key e |\<in>| fmdom (bs_pending st)"
      using st2(2) by (auto simp: st3_def st1_def after_inputs_def fmlookup_dom_iff split: if_splits)
    from carries_pending [OF c this] obtain x v where
      x: "x \<in> set (cb # D)" "ut_Key e = OutPointKey (txID x) v" by blast
    obtain w where "ut_Key e = OutPointKey (txID tx) w" using created_keys [OF e] by (auto simp: txID_def)
    with x(2) have "txID x = txID tx"
      using OutPointKey_inj [of "txID x" v "txID tx" w] by (simp add: txID_def hash_String_no_colon)
    with x(1) j show False unfolding joins_def by (metis image_eqI)
  qed
  have outs: "length (tx_TxOut tx) < 2 ^ 32"
    using j by (simp add: joins_def)
  obtain st' where st': "add_created (createdOutputs ?h False tx) st3 = Inr st'"
    "after_created (createdOutputs ?h False tx) st3 st'"
    using created_pass [OF created_distinct [OF outs]] new by blast
  have fresh: "txID tx \<notin> set (bs_seenTx st)" using j c by (simp add: joins_def carries_def)
  have "check_tx ?C ?utxo ?h time i tx st = Inr st'"
  proof -
    have "\<not> tooManySigOps (txOps ?C ch p tx) st2"
      using st2 ops by (simp add: tooManySigOps_def after_inputs_def st1_def)
    moreover have "\<not> totalIn <s totalOut" using le by (simp add: word_sless_alt word_sle_eq)
    moreover have "bs_fees st2 = bs_fees st" using st2(2) by (simp add: after_inputs_def st1_def)
    moreover have "st\<lparr>bs_seenTx := txID tx # bs_seenTx st, bs_sigOps := bs_sigOps st + outputSigOps tx\<rparr> = st1"
      by (simp add: st1_def ops0)
    ultimately show ?thesis
      using \<open>0 < i\<close> ne ncb final_later [OF fin time] fresh ops0 st2(1) fees st'(1)
      by (simp add: check_tx_def Let_def txID_def [symmetric] fee [symmetric] st3_def)
  qed
  moreover have "carries cb ?h (D @ [tx]) st'"
  proof -
    have spends: "set (bs_seenSpends st') = set (bs_seenSpends st) \<union> set (inKeys tx)"
      using st'(2) st2(2) keys by (simp add: after_created_def after_inputs_def st3_def st1_def)
    have pend: "fmlookup (bs_pending st') k = (if k \<in> set (inKeys tx) then None else fmlookup (bs_pending st) k)"
      if "k \<notin> ut_Key ` set (createdOutputs ?h False tx)" for k
      using st'(2) st2(2) keys that by (simp add: after_created_def after_inputs_def st3_def st1_def)
    have "\<exists>x\<in>set (cb # D @ [tx]). \<exists>v. k = OutPointKey (txID x) v" if k: "k |\<in>| fmdom (bs_pending st')" for k
    proof (cases "k \<in> ut_Key ` set (createdOutputs ?h False tx)")
      case True
      then show ?thesis using created_keys by (force simp: txID_def)
    next
      case False
      with pend [OF this] k have "k |\<in>| fmdom (bs_pending st)" by (auto simp: fmlookup_dom_iff split: if_splits)
      from carries_pending [OF c this] show ?thesis by auto
    qed
    moreover have "ut_Key e \<in> set (bs_seenSpends st') \<or> fmlookup (bs_pending st') (ut_Key e) = Some e"
      if x0: "x \<in> set (D @ [tx])" and e: "e \<in> set (createdOutputs ?h False x)" for x e
    proof (cases "e \<in> set (createdOutputs ?h False tx)")
      case True
      then show ?thesis using st'(2) by (simp add: after_created_def)
    next
      case False
      then have x: "x \<in> set D" using x0 e by auto
      then have "ut_Key e \<in> set (bs_seenSpends st) \<or> fmlookup (bs_pending st) (ut_Key e) = Some e"
        using c e by (auto simp: carries_def)
      moreover have "ut_Key e \<notin> ut_Key ` set (createdOutputs ?h False tx)"
      proof
        assume "ut_Key e \<in> ut_Key ` set (createdOutputs ?h False tx)"
        then obtain v w where "OutPointKey (txID x) v = OutPointKey (txID tx) w"
          using created_keys [OF e] created_keys by (force simp: txID_def)
        then have "txID x = txID tx" using OutPointKey_inj [of "txID x" v "txID tx" w] by (simp add: txID_def hash_String_no_colon)
        with x j show False unfolding joins_def by (metis image_eqI list.set_intros(2))
      qed
      ultimately show ?thesis using pend spends by auto
    qed
    moreover have "set (bs_seenTx st') = txID ` set (cb # D @ [tx])"
      using st'(2) st2(2) c by (auto simp: after_created_def after_inputs_def st3_def st1_def carries_def)
    ultimately show ?thesis using c spends by (auto simp: carries_def)
  qed
  ultimately show ?thesis
    using st'(2) st2(2) by (intro exI [of _ st']) (simp add: after_created_def after_inputs_def st3_def st1_def)
qed

section \<open>The transactions in a row\<close>

text \<open>The entries \<open>selectEntries\<close> takes.\<close>

fun picks :: "Chain \<Rightarrow> i32 \<Rightarrow> Entry list \<Rightarrow> string list \<Rightarrow> Entry list" where
  "picks ch h [] included = []"
| "picks ch h (e # es) included =
     (if \<not> templateTxIsBuildable ch (me_Tx e) included h then picks ch h es included
      else e # picks ch h es (txID (me_Tx e) # included))"

lemma selectEntries_picks:
  "selectEntries ch h es fees sel included =
     (fees + sum_list (map me_Fee (picks ch h es included)), sel @ map me_Tx (picks ch h es included))"
  by (induction es arbitrary: fees sel included) (simp_all add: add.assoc)

lemma picks_subset: "set (picks ch h es included) \<subseteq> set es"
proof (induction es arbitrary: included)
  case (Cons e es)
  from Cons.IH [of included] Cons.IH [of "txID (me_Tx e) # included"] show ?case by auto
qed simp

lemma inputsBuildable_cong: "set a = set b \<Longrightarrow> inputsBuildable ch a h ins = inputsBuildable ch b h ins"
  by (induction ins) (auto split: sum.splits)

text \<open>The listing of a pool that the current chain would accept again, entry by entry.\<close>

definition lively :: "chainEnv \<Rightarrow> Chain \<Rightarrow> Pool \<Rightarrow> Entry list \<Rightarrow> bool" where
  "lively E ch p es \<longleftrightarrow> distinct (map (\<lambda>e. txID (me_Tx e)) es) \<and>
     (\<forall>e\<in>set es. \<forall>f\<in>set es. e \<noteq> f \<longrightarrow> set (inKeys (me_Tx e)) \<inter> set (inKeys (me_Tx f)) = {}) \<and>
     (\<forall>e\<in>set es. validateTransaction (en_crypto E) ch (me_Tx e) p = Valid (txID (me_Tx e)) (me_Fee e) \<and>
        length (tx_TxOut (me_Tx e)) < 2 ^ 32 \<and> unconfirmed (ch_store ch) (me_Tx e) \<and>
        fmlookup (po_entries p) (txID (me_Tx e)) = Some e)"

lemma SigOpsForSpend_nonneg: "SigOpsForSpend C s pk = Inr n \<Longrightarrow> 0 \<le> n"
proof -
  have c: "0 \<le> CountSigOps b" for b by (induction b) auto
  assume "SigOpsForSpend C s pk = Inr n"
  then show ?thesis using c by (auto simp: SigOpsForSpend_def Let_def split: if_splits sum.splits)
qed

lemma txOps_nonneg: "0 \<le> txOps C ch p tx"
proof -
  have c: "0 \<le> CountSigOps b" for b by (induction b) auto
  have "0 \<le> inputOps C f inp" for f inp
    by (auto simp: inputOps_def SigOpsForSpend_nonneg split: option.splits sum.splits)
  then have "0 \<le> sum_list (map (inputOps C f) ins)" for f ins by (induction ins) (simp_all add: add_nonneg_nonneg)
  moreover have "0 \<le> outputSigOps tx" unfolding outputSigOps_def using c by (intro sum_list_nonneg) auto
  ultimately show ?thesis by (simp add: txOps_def)
qed

lemma lively_tl: "lively E ch p (e # es) \<Longrightarrow> lively E ch p es"
  by (simp add: lively_def)

lemma lively_fee: "lively E ch p es \<Longrightarrow> e \<in> set es \<Longrightarrow> MoneyRange (me_Fee e)"
proof -
  assume "lively E ch p es" "e \<in> set es"
  then have "validateTransaction (en_crypto E) ch (me_Tx e) p = Valid (txID (me_Tx e)) (me_Fee e)" by (simp add: lively_def)
  from validateTransaction_Valid [OF this] show ?thesis by (simp add: funded_def MoneyRange_sint)
qed

abbreviation fee_total :: "Entry list \<Rightarrow> int" where
  "fee_total es \<equiv> sum_list (map (\<lambda>e. sint (me_Fee e)) es)"

abbreviation ops_total :: "chainEnv \<Rightarrow> Chain \<Rightarrow> Pool \<Rightarrow> Entry list \<Rightarrow> int" where
  "ops_total E ch p es \<equiv> sum_list (map (\<lambda>e. txOps (en_crypto E) ch p (me_Tx e)) es)"

lemma fee_total_nonneg: "(\<And>e. e \<in> set es \<Longrightarrow> MoneyRange (me_Fee e)) \<Longrightarrow> 0 \<le> fee_total es"
  by (rule sum_list_nonneg) (auto simp: MoneyRange_sint)

lemma ops_total_nonneg: "0 \<le> ops_total E ch p es"
  by (rule sum_list_nonneg) (auto simp: txOps_nonneg)

lemma txs_pass:
  assumes "lively E ch p es" "set included = txID ` set D" "carries cb (nextHeight ch) D st" "0 < i"
    and "\<forall>x\<in>set (cb # D). unconfirmed (ch_store ch) x"
    and "\<forall>x\<in>set D. \<exists>f. fmlookup (po_entries p) (txID x) = Some f \<and> me_Tx f = x"
    and "\<forall>e\<in>set es. txID (me_Tx e) \<notin> txID ` set (cb # D) \<and> (\<forall>x\<in>set D. set (inKeys (me_Tx e)) \<inter> set (inKeys x) = {})"
    and "(case ch_tip ch of None \<Rightarrow> 0 | Some tip \<Rightarrow> ix_Time tip) \<le> time"
    and "MoneyRange (bs_fees st)" "sint (bs_fees st) + fee_total (picks ch (nextHeight ch) es included) \<le> sint MaxMoney"
    and "bs_sigOps st + ops_total E ch p (picks ch (nextHeight ch) es included) \<le> MaxBlockSigOps"
  shows "\<exists>st'. check_txs (en_crypto E) (storedUTXO (ch_store ch)) (nextHeight ch) time i
      (map me_Tx (picks ch (nextHeight ch) es included)) st = Inr st' \<and>
    bs_fees st' = bs_fees st + sum_list (map me_Fee (picks ch (nextHeight ch) es included)) \<and>
    bs_coinbaseOut st' = bs_coinbaseOut st"
  using assms
proof (induction es arbitrary: included D st i)
  case Nil
  then show ?case by simp
next
  case (Cons e es)
  let ?h = "nextHeight ch"
  show ?case
  proof (cases "templateTxIsBuildable ch (me_Tx e) included ?h")
    case False
    then show ?thesis using Cons.IH [OF lively_tl [OF Cons.prems(1)] Cons.prems(2-6)] Cons.prems(7-11) by simp
  next
    case True
    let ?rest = "picks ch ?h es (txID (me_Tx e) # included)"
    have pk: "picks ch ?h (e # es) included = e # ?rest" using True by simp
    have "inputsBuildable ch (map txID D) ?h (tx_TxIn (me_Tx e))"
      using True Cons.prems(2) inputsBuildable_cong [of included "map txID D"]
      by (simp add: templateTxIsBuildable_def split: if_splits)
    then have j: "joins E ch p cb D (me_Tx e) (me_Fee e)"
      using Cons.prems(1,6,7) by (simp add: joins_def lively_def)
    have restm: "MoneyRange (me_Fee f)" if "f \<in> set ?rest" for f
      using lively_fee [OF Cons.prems(1)] picks_subset that by fastforce
    have fm: "MoneyRange (me_Fee e)" using lively_fee [OF Cons.prems(1)] by simp
    have sum: "sint (bs_fees st + me_Fee e) = sint (bs_fees st) + sint (me_Fee e)"
      by (rule sint_add_money [OF Cons.prems(9) fm])
    have fees: "MoneyRange (bs_fees st + me_Fee e)"
      using Cons.prems(9,10) fm sum fee_total_nonneg [of ?rest] restm unfolding pk by (simp add: MoneyRange_sint)
    have ops: "bs_sigOps st + txOps (en_crypto E) ch p (me_Tx e) \<le> MaxBlockSigOps"
      using Cons.prems(11) ops_total_nonneg [of E ch p ?rest] unfolding pk by simp
    from tx_passes [OF j Cons.prems(3,5,8,4) fees ops] obtain st1 where
      st1: "check_tx (en_crypto E) (storedUTXO (ch_store ch)) ?h time i (me_Tx e) st = Inr st1"
        "carries cb ?h (D @ [me_Tx e]) st1" "bs_fees st1 = bs_fees st + me_Fee e"
        "bs_coinbaseOut st1 = bs_coinbaseOut st" "bs_sigOps st1 = bs_sigOps st + txOps (en_crypto E) ch p (me_Tx e)" by blast
    have e: "unconfirmed (ch_store ch) (me_Tx e)" "fmlookup (po_entries p) (txID (me_Tx e)) = Some e"
      using Cons.prems(1) by (simp_all add: lively_def)
    have other: "txID (me_Tx f) \<noteq> txID (me_Tx e)" "set (inKeys (me_Tx f)) \<inter> set (inKeys (me_Tx e)) = {}" if "f \<in> set es" for f
      using Cons.prems(1) that by (auto simp: lively_def image_iff)
    have "\<exists>st'. check_txs (en_crypto E) (storedUTXO (ch_store ch)) ?h time (i + 1) (map me_Tx ?rest) st1 = Inr st' \<and>
        bs_fees st' = bs_fees st1 + sum_list (map me_Fee ?rest) \<and> bs_coinbaseOut st' = bs_coinbaseOut st1"
    proof (rule Cons.IH [OF lively_tl [OF Cons.prems(1)] _ st1(2)])
      show "\<forall>f\<in>set es. txID (me_Tx f) \<notin> txID ` set (cb # D @ [me_Tx e]) \<and>
          (\<forall>x\<in>set (D @ [me_Tx e]). set (inKeys (me_Tx f)) \<inter> set (inKeys x) = {})"
        using Cons.prems(7) other by auto
    qed (use Cons.prems(2,5,6,8,10,11) e fees sum st1 pk in auto)
    then show ?thesis using st1 unfolding pk by (auto simp: add.assoc)
  qed
qed

section \<open>The whole template\<close>

lemma coinbase_passes:
  assumes "NewCoinbaseTx h pkh v = Inr cb" "MoneyRange v"
  shows "\<exists>st. check_tx C utxo h time 0 cb initialBlockState = Inr st \<and> carries cb h [] st \<and>
    bs_fees st = 0 \<and> bs_coinbaseOut st = v \<and> bs_sigOps st = outputSigOps cb"
    and "isCoinbase cb" "length (SignatureScript (tx_TxIn cb ! 0)) = 16"
proof -
  obtain pk where pk: "PayToPubKeyHashScript pkh = Inr pk" "length pkh = 20"
    and cb: "tx_TxOut cb = [\<lparr>out_Value = v, out_PkScript = pk\<rparr>]" "tx_LockTime cb = 0"
      "tx_TxIn cb = [\<lparr>PreviousOutPoint = \<lparr>op_Hash = zero_hash, op_Index = 0xffffffff\<rparr>,
         SignatureScript = of_nat (length (heightScript h)) # heightScript h @ bytes_of_string ''/Legacy-GO/'',
         Sequence = 0xffffffff\<rparr>]"
    using assms(1) by (auto simp: NewCoinbaseTx_def NewCoinbaseTxWithOutputs_def split: if_splits sum.splits)
  show "isCoinbase cb" "length (SignatureScript (tx_TxIn cb ! 0)) = 16"
    by (simp_all add: isCoinbase_def cb hash_IsZero_def heightScript_def bytes_of_string_def)
  have c: "CountSigOps bs \<le> 20 * int (length bs)" for bs by (induction bs) auto
  have "length pk = 25" using pk by (auto simp: PayToPubKeyHashScript_def)
  then have ops: "outputSigOps cb \<le> 500" using c [of pk] by (simp add: outputSigOps_def cb)
  obtain e where e: "createdOutputs h True cb = [e]" "ut_Key e = OutPointKey (txID cb) 0"
    by (simp add: createdOutputs_def cb txID_def)
  define st where "st = initialBlockState\<lparr>bs_seenTx := [txID cb], bs_sigOps := outputSigOps cb, bs_coinbaseOut := v,
    bs_pending := fmupd (ut_Key e) e fmempty, bs_order := [ut_Key e]\<rparr>"
  have "check_tx C utxo h time 0 cb initialBlockState = Inr st"
    using assms(2) ops e
    by (simp add: check_tx_def IsFinalizedTx_def cb tooManySigOps_def MaxTxSigOps_def MaxBlockSigOps_def
        initialBlockState_def Let_def txID_def st_def)
  moreover have "carries cb h [] st"
    using e(2) by (auto simp: carries_def st_def initialBlockState_def)
  ultimately show "\<exists>st. check_tx C utxo h time 0 cb initialBlockState = Inr st \<and> carries cb h [] st \<and>
    bs_fees st = 0 \<and> bs_coinbaseOut st = v \<and> bs_sigOps st = outputSigOps cb"
    by (intro exI [of _ st]) (simp add: st_def initialBlockState_def)
qed

text \<open>What \<open>NewBlockTemplate\<close> returned.\<close>

lemma NewBlockTemplate_Inr:
  assumes "NewBlockTemplate E unixTime (Some p) pkh ch0 = (Inr (block, height), ch)"
  obtains tip cb prev bits where "ch_tip ch = Some tip" "ch_tip ch0 = Some tip" "height = ix_Height tip + 1"
    "hash_FromString (ix_Hash tip) = Inr prev" "nextRequiredBits E ch0 = (Inr bits, ch)"
    "NewCoinbaseTx height pkh (BlockSubsidy height +
       sum_list (map me_Fee (picks ch height (entriesTopological 0 p) []))) = Inr cb"
    "bk_Transactions block = cb # map me_Tx (picks ch height (entriesTopological 0 p) [])"
    "hd_PrevBlock (bk_Header block) = prev" "hd_Bits (bk_Header block) = bits" "hd_Version (bk_Header block) = 1"
    "hd_MerkleRoot (bk_Header block) = BuildMerkleRoot block" "0 \<le> unixTime" "unixTime \<le> 0xffffffff"
    "hd_Timestamp (bk_Header block) = (if of_int unixTime \<le> ix_Time tip then ix_Time tip + 1 else of_int unixTime)"
    "ix_Hash tip \<noteq> []"
proof -
  have keep: "nextRequiredBits E ch0 = (r, c) \<Longrightarrow> ch_tip c = ch_tip ch0" for r c
    using keepsD [OF keeps_nextRequiredBits, of E ch0 r c] by (auto simp: quiet_def sameChain_def)
  have root: "BuildMerkleRoot \<lparr>bk_Header = h, bk_Transactions = txs\<rparr> = BuildMerkleRoot \<lparr>bk_Header = h', bk_Transactions = txs\<rparr>"
    for h h' txs by (simp add: BuildMerkleRoot_def)
  show ?thesis
    using assms keep
    by (auto simp: NewBlockTemplate_def selectEntries_picks Let_def split: if_splits option.splits sum.splits prod.splits
        intro!: that root)
qed

text \<open>The header's nonce plays no part in the checks of the transactions.\<close>

definition with_nonce :: "u32 \<Rightarrow> MsgBlock \<Rightarrow> MsgBlock" where
  "with_nonce n block = block\<lparr>bk_Header := (bk_Header block)\<lparr>hd_Nonce := n\<rparr>\<rparr>"

lemma with_nonce_simps [simp]:
  "bk_Transactions (with_nonce n block) = bk_Transactions block" "hd_Nonce (bk_Header (with_nonce n block)) = n"
  "hd_PrevBlock (bk_Header (with_nonce n block)) = hd_PrevBlock (bk_Header block)"
  "hd_Timestamp (bk_Header (with_nonce n block)) = hd_Timestamp (bk_Header block)"
  "hd_Bits (bk_Header (with_nonce n block)) = hd_Bits (bk_Header block)"
  "hd_MerkleRoot (bk_Header (with_nonce n block)) = hd_MerkleRoot (bk_Header block)"
  "BuildMerkleRoot (with_nonce n block) = BuildMerkleRoot block"
  "length (block_Serialize (with_nonce n block)) = length (block_Serialize block)"
  by (simp_all add: with_nonce_def BuildMerkleRoot_def block_Serialize_def header_Serialize_def)

lemma picks_fee_total:
  assumes "\<And>e. e \<in> set es \<Longrightarrow> MoneyRange (me_Fee e)"
  shows "0 \<le> fee_total (picks ch h es included) \<and> fee_total (picks ch h es included) \<le> fee_total es"
  using assms
proof (induction es arbitrary: included)
  case (Cons e es)
  have "0 \<le> sint (me_Fee e)" using Cons.prems [of e] by (simp add: MoneyRange_sint)
  with Cons.IH [of included] Cons.IH [of "txID (me_Tx e) # included"] Cons.prems show ?case by fastforce
qed simp

lemma fee_sum:
  assumes "\<And>e. e \<in> set es \<Longrightarrow> MoneyRange (me_Fee e)" "MoneyRange a" "sint a + fee_total es \<le> sint MaxMoney"
  shows "MoneyRange (a + sum_list (map me_Fee es))"
  using assms
proof (induction es arbitrary: a)
  case (Cons e es)
  have e: "MoneyRange (me_Fee e)" using Cons.prems by simp
  have r: "0 \<le> fee_total es" by (rule fee_total_nonneg) (use Cons.prems in simp)
  have s: "sint (a + me_Fee e) = sint a + sint (me_Fee e)" by (rule sint_add_money [OF Cons.prems(2) e])
  have m: "MoneyRange (a + me_Fee e)" using Cons.prems(2,3) e r s by (simp add: MoneyRange_sint)
  have "MoneyRange ((a + me_Fee e) + sum_list (map me_Fee es))"
    by (rule Cons.IH [OF _ m]) (use Cons.prems s in auto)
  then show ?case by (simp add: add.assoc)
qed simp

lemma template_transactions_validate:
  assumes t: "NewBlockTemplate E unixTime (Some p) pkh ch0 = (Inr (block, height), ch)"
    and live: "lively E ch q (entriesTopological 0 p)"
    and cb: "unconfirmed (ch_store ch) (hd (bk_Transactions block))"
      "txID (hd (bk_Transactions block)) \<notin> (\<lambda>e. txID (me_Tx e)) ` set (entriesTopological 0 p)"
    and money: "sint (BlockSubsidy height) + fee_total (entriesTopological 0 p) \<le> sint MaxMoney"
    and ops: "outputSigOps (hd (bk_Transactions block)) +
      sum_list (map (txOps (en_crypto E) ch q) (tl (bk_Transactions block))) \<le> MaxBlockSigOps"
    and len: "length (block_Serialize block) \<le> maxBlockSerializedSize"
    and tip: "ch_tip ch = Some tip" "ix_Time tip < 0xffffffff"
  shows "\<exists>r. validateBlockTransactions (en_crypto E) (storedUTXO (ch_store ch)) (with_nonce n block) height = Inr r"
proof -
  from NewBlockTemplate_Inr [OF t] tip(1) obtain cbtx prev bits where
    h: "height = ix_Height tip + 1"
    and c: "NewCoinbaseTx height pkh (BlockSubsidy height +
       sum_list (map me_Fee (picks ch height (entriesTopological 0 p) []))) = Inr cbtx"
    and txs: "bk_Transactions block = cbtx # map me_Tx (picks ch height (entriesTopological 0 p) [])"
    and time: "hd_Timestamp (bk_Header block) = (if of_int unixTime \<le> ix_Time tip then ix_Time tip + 1 else of_int unixTime)"
    by (metis option.inject)
  let ?es = "entriesTopological 0 p" and ?h = "nextHeight ch" and ?time = "hd_Timestamp (bk_Header block)"
  have nh: "height = ?h" using h tip by (simp add: nextHeight_def)
  let ?ps = "picks ch ?h ?es []"
  have feem: "MoneyRange (me_Fee e)" if "e \<in> set ?es" for e using lively_fee [OF live that] .
  have pm: "MoneyRange (me_Fee e)" if "e \<in> set ?ps" for e using feem picks_subset that by blast
  note tot = picks_fee_total [where es = ?es and ch = ch and h = ?h and included = "[]", OF feem]
  let ?pays = "BlockSubsidy height + sum_list (map me_Fee ?ps)"
  have valm: "MoneyRange ?pays"
    by (rule fee_sum [OF pm BlockSubsidy_money]) (use money tot in auto)
  from coinbase_passes [OF c [unfolded nh] valm [unfolded nh]] obtain st where
    st: "check_tx (en_crypto E) (storedUTXO (ch_store ch)) ?h ?time 0 cbtx initialBlockState = Inr st"
      "carries cbtx ?h [] st" "bs_fees st = 0" "bs_coinbaseOut st = BlockSubsidy ?h + sum_list (map me_Fee ?ps)"
      "bs_sigOps st = outputSigOps cbtx"
    and coinbase: "isCoinbase cbtx" "length (SignatureScript (tx_TxIn cbtx ! 0)) = 16" by blast
  have later: "ix_Time tip \<le> ?time"
    using time tip(2) by (auto simp: word_le_nat_alt word_less_nat_alt unat_plus_if_size word_size split: if_splits)
  have "\<exists>st'. check_txs (en_crypto E) (storedUTXO (ch_store ch)) ?h ?time (0 + 1) (map me_Tx ?ps) st = Inr st' \<and>
    bs_fees st' = bs_fees st + sum_list (map me_Fee ?ps) \<and> bs_coinbaseOut st' = bs_coinbaseOut st"
  proof (rule txs_pass [OF live _ st(2)])
    show "\<forall>e\<in>set ?es. txID (me_Tx e) \<notin> txID ` set [cbtx] \<and> (\<forall>x\<in>set []. set (inKeys (me_Tx e)) \<inter> set (inKeys x) = {})"
      using cb(2) txs by (auto simp: image_iff)
    show "bs_sigOps st + ops_total E ch q ?ps \<le> MaxBlockSigOps"
      using ops st(5) txs nh by (simp add: comp_def)
    have "0 \<le> sint (BlockSubsidy height)" using BlockSubsidy_money [of height] by (simp add: MoneyRange_sint)
    then show "sint (bs_fees st) + fee_total ?ps \<le> sint MaxMoney" using st(3) tot money by simp
  qed (use cb(1) txs st(3) tip later in simp_all)
  then obtain st' where st': "check_txs (en_crypto E) (storedUTXO (ch_store ch)) ?h ?time (0 + 1) (map me_Tx ?ps) st = Inr st'"
    "bs_fees st' = sum_list (map me_Fee ?ps)" "bs_coinbaseOut st' = BlockSubsidy ?h + sum_list (map me_Fee ?ps)"
    using st by auto
  have "\<not> BlockSubsidy ?h + bs_fees st' <s bs_coinbaseOut st'" by (simp add: st' word_sless_alt)
  then show ?thesis
    using st(1) st' coinbase len valm nh
    by (simp add: validateBlockTransactions_def txs Let_def minCoinbaseScriptLen_def maxCoinbaseScriptLen_def)
qed

text \<open>In a pool that keeps its invariant only the entries themselves have to be valid still.\<close>

lemma lively_pool:
  assumes "core r p" "po_entries q = po_entries p"
    and "\<And>i e. fmlookup (po_entries p) i = Some e \<Longrightarrow>
      validateTransaction (en_crypto E) ch (me_Tx e) q = Valid i (me_Fee e) \<and> length (tx_TxOut (me_Tx e)) < 2 ^ 32 \<and>
      unconfirmed (ch_store ch) (me_Tx e)"
  shows "lively E ch q (entriesTopological 0 p)"
proof -
  note o = entriesTopological_order(1,2) [OF assms(1)]
  have id: "me_TxID e = txID (me_Tx e) \<and> fmlookup (po_entries p) (txID (me_Tx e)) = Some e" if "e \<in> set (entriesTopological 0 p)" for e
    using that o(2) assms(1) by (auto simp: core_def)
  then have ids: "map (\<lambda>e. txID (me_Tx e)) (entriesTopological 0 p) = map me_TxID (entriesTopological 0 p)" by simp
  have "distinct (map (\<lambda>e. txID (me_Tx e)) (entriesTopological 0 p))" unfolding ids by (rule o(1))
  moreover have "set (inKeys (me_Tx e)) \<inter> set (inKeys (me_Tx f)) = {}"
    if ef: "e \<in> set (entriesTopological 0 p)" "f \<in> set (entriesTopological 0 p)" "e \<noteq> f" for e f
  proof (rule ccontr)
    assume "set (inKeys (me_Tx e)) \<inter> set (inKeys (me_Tx f)) \<noteq> {}"
    then obtain k where "k \<in> set (inKeys (me_Tx e))" "k \<in> set (inKeys (me_Tx f))" by blast
    with id [OF ef(1)] id [OF ef(2)] assms(1)
    have "fmlookup (po_spent p) k = Some (txID (me_Tx e))" "fmlookup (po_spent p) k = Some (txID (me_Tx f))"
      by (auto simp: core_def)
    with id ef show False by (metis option.inject)
  qed
  ultimately show ?thesis
    using id assms(2,3) unfolding lively_def by (metis (no_types, lifting))
qed

end
