(* ===== verification/SampleMining.thy ===== *)
theory SampleMining
  imports MiningTemplate SampleMempool
begin

text \<open>
  From a validated template to a connected block, and a concrete miner for the witnesses: the
  sample chain with one confirmed output, and pools with and without a transaction that spends it.
\<close>

section \<open>Connecting a solved template\<close>

lemma quiet_storedUTXO: "quiet c d \<Longrightarrow> storedUTXO (ch_store d) = storedUTXO (ch_store c)"
  using same_but_indexes_fields(3) by (fastforce simp: quiet_def sameChain_def same_store_def storedUTXO_def LoadUTXO_def)

lemma nextRequiredBits_work: "nextRequiredBits E c = (r, d) \<Longrightarrow> ch_work d = ch_work c"
  by (auto simp: nextRequiredBits_def sbind_def onStore_def sret_def split: option.splits prod.splits sum.splits)

lemma chainwork_cached: "fmlookup (ch_work c) h = Some w \<Longrightarrow> h \<noteq> [] \<Longrightarrow> chainworkForHash h c = (Inr w, c)"
  by (simp add: chainworkForHash_def)

lemma connect_checked:
  assumes block: "bk_Transactions block \<noteq> []" "BuildMerkleRoot block = hd_MerkleRoot (bk_Header block)"
    and tip: "ch_tip c = Some tip" "ix_Hash tip \<noteq> []" "hash_FromString (ix_Hash tip) = Inr (hd_PrevBlock (bk_Header block))"
    and time: "medianTimePast (ix_Hash tip) (ch_store c) = Inr mtp" "mtp < hd_Timestamp (bk_Header block)"
      "hd_Timestamp (bk_Header block) \<le> maxFutureTime clock"
    and bits: "nextRequiredBits E c = (Inr (hd_Bits (bk_Header block)), d)"
    and hash: "en_HashHeader E (bk_Header block) = Some h" "CheckProofOfWork h (hd_Bits (bk_Header block)) = Inr ()"
    and work: "fmlookup (ch_work c) (ix_Hash tip) = Some w"
    and txs: "validateBlockTransactions (en_crypto E) (storedUTXO (ch_store c)) block (ix_Height tip + 1) = Inr (adds, spends, spent)"
  shows "connectBlock E clock block c =
    (Inr (), commitBlock block (indexOf block (ix_Height tip + 1) h (ix_Hash tip) (w + WorkForBits (hd_Bits (bk_Header block))))
       (w + WorkForBits (hd_Bits (bk_Header block))) adds spends spent d)"
proof -
  have q: "quiet c d" by (rule keepsD [OF keeps_nextRequiredBits bits])
  then have d: "ch_tip d = Some tip" "storedUTXO (ch_store d) = storedUTXO (ch_store c)" "fmlookup (ch_work d) (ix_Hash tip) = Some w"
    using tip quiet_storedUTXO [OF q] nextRequiredBits_work [OF bits] work by (simp_all add: quiet_def sameChain_def)
  have "checkTip block c = (Inr (), c)"
    using tip time by (simp add: checkTip_def sbind_def readStore_def onStore_def op_simps)
  moreover have "computeChildChainwork (ix_Hash tip) (hd_Bits (bk_Header block)) d = (Inr (w + WorkForBits (hd_Bits (bk_Header block))), d)"
    using chainwork_cached [OF d(3) tip(2)] by (simp add: computeChildChainwork_def sbind_def op_simps)
  ultimately show ?thesis
    using block time(3) bits hash txs d
    by (simp add: connectBlock_def validateActiveBlock_def sbind_def op_simps checkPow_def hashHeader_def childHeight_def
        tipHash_def checkTransactions_def)
qed

text \<open>What the template and the chain have to bring for the block to be accepted.\<close>

definition template_ready :: "chainEnv \<Rightarrow> u32 \<Rightarrow> Chain \<Rightarrow> MsgBlock \<Rightarrow> BlockIndex \<Rightarrow> int \<Rightarrow> bool" where
  "template_ready E clock ch block tip w \<longleftrightarrow> ch_tip ch = Some tip \<and> ix_Time tip < 0xffffffff \<and>
     (\<exists>mtp. medianTimePast (ix_Hash tip) (ch_store ch) = Inr mtp \<and> mtp \<le> ix_Time tip) \<and>
     fst (nextRequiredBits E ch) = Inr (hd_Bits (bk_Header block)) \<and> fmlookup (ch_work ch) (ix_Hash tip) = Some w \<and>
     hd_Timestamp (bk_Header block) \<le> maxFutureTime clock \<and> length (block_Serialize block) \<le> maxBlockSerializedSize"

lemma template_block_connects:
  assumes t: "NewBlockTemplate E unixTime (Some p) pkh ch0 = (Inr (block, height), ch)"
    and pool: "pool_reachable S p" "txs_ok S"
    and live: "\<And>i e. fmlookup (po_entries p) i = Some e \<Longrightarrow>
      validateTransaction (en_crypto E) ch (me_Tx e) (p\<lparr>po_spent := fmempty\<rparr>) = Valid i (me_Fee e) \<and>
      length (tx_TxOut (me_Tx e)) < 2 ^ 32 \<and> unconfirmed (ch_store ch) (me_Tx e)"
    and cb: "unconfirmed (ch_store ch) (hd (bk_Transactions block))"
      "txID (hd (bk_Transactions block)) |\<notin>| fmdom (po_entries p)"
    and money: "sint (BlockSubsidy height) + (\<Sum>e\<leftarrow>entriesTopological 0 p. sint (me_Fee e)) \<le> sint MaxMoney"
    and ops: "outputSigOps (hd (bk_Transactions block)) +
      (\<Sum>tx\<leftarrow>tl (bk_Transactions block). txOps (en_crypto E) ch (p\<lparr>po_spent := fmempty\<rparr>) tx) \<le> MaxBlockSigOps"
    and ready: "template_ready E clock ch block tip w"
    and solved: "solves E (bk_Header block) n h"
  shows "\<exists>ch'. connectBlock E clock (with_nonce n block) ch = (Inr (), ch') \<and>
    ch_tip ch' = Some (indexOf (with_nonce n block) height h (ix_Hash tip) (w + WorkForBits (hd_Bits (bk_Header block))))"
proof -
  from pool_reachable_ok [OF pool] obtain r where r: "core r p" by (auto simp: pool_ok_in_def mempool_ok_def pool_inv_def)
  from NewBlockTemplate_Inr [OF t] obtain tip' prev cbtx where
    b: "ch_tip ch = Some tip'" "height = ix_Height tip' + 1" "hash_FromString (ix_Hash tip') = Inr prev"
      "hd_PrevBlock (bk_Header block) = prev" "hd_MerkleRoot (bk_Header block) = BuildMerkleRoot block"
      "hd_Timestamp (bk_Header block) = (if of_int unixTime \<le> ix_Time tip' then ix_Time tip' + 1 else of_int unixTime)"
      "bk_Transactions block = cbtx # map me_Tx (picks ch height (entriesTopological 0 p) [])" "ix_Hash tip' \<noteq> []"
    by metis
  have tip: "tip' = tip" "ix_Time tip < 0xffffffff" "fmlookup (ch_work ch) (ix_Hash tip) = Some w"
    using ready b(1) by (simp_all add: template_ready_def)
  have nonempty: "ix_Hash tip \<noteq> []" using b(8) tip(1) by simp
  have later: "ix_Time tip < hd_Timestamp (bk_Header block)"
    using b(6) tip by (auto simp: word_le_nat_alt word_less_nat_alt unat_plus_if_size word_size split: if_splits)
  obtain mtp where mtp: "medianTimePast (ix_Hash tip) (ch_store ch) = Inr mtp" "mtp < hd_Timestamp (bk_Header block)"
    using ready later by (auto simp: template_ready_def intro: le_less_trans)
  obtain d where d: "nextRequiredBits E ch = (Inr (hd_Bits (bk_Header block)), d)"
    using ready by (cases "nextRequiredBits E ch") (auto simp: template_ready_def)
  have "\<exists>x. validateBlockTransactions (en_crypto E) (storedUTXO (ch_store ch)) (with_nonce n block) height = Inr x"
  proof (rule template_transactions_validate [OF t lively_pool [OF r, of "p\<lparr>po_spent := fmempty\<rparr>"] cb(1) _ money ops])
    show "txID (hd (bk_Transactions block)) \<notin> (\<lambda>e. txID (me_Tx e)) ` set (entriesTopological 0 p)"
    proof
      assume "txID (hd (bk_Transactions block)) \<in> (\<lambda>e. txID (me_Tx e)) ` set (entriesTopological 0 p)"
      then obtain e i where "txID (hd (bk_Transactions block)) = txID (me_Tx e)" "fmlookup (po_entries p) i = Some e"
        using entriesTopological_order(2) [OF r] by auto
      moreover from this(2) r have "txID (me_Tx e) = i" by (auto simp: core_def)
      ultimately show False using cb(2) by (metis fmdomI)
    qed
  qed (use live ready tip(2) in \<open>simp_all add: template_ready_def\<close>)
  then obtain adds spends spent where
    "validateBlockTransactions (en_crypto E) (storedUTXO (ch_store ch)) (with_nonce n block) height = Inr (adds, spends, spent)"
    by auto
  from connect_checked [of "with_nonce n block" ch tip mtp clock E d h w adds spends spent]
    this b(1-5,7) tip nonempty mtp d ready solved show ?thesis
    by (simp add: template_ready_def solves_def commitBlock_def) (simp add: with_nonce_def)
qed

section \<open>Mining a block\<close>

lemma NewBlockTemplate_quiet: "NewBlockTemplate E unixTime pool pkh ch0 = (r, ch) \<Longrightarrow> quiet ch0 ch"
  using keepsD [OF keeps_nextRequiredBits]
  by (fastforce simp: NewBlockTemplate_def Let_def quiet.refl split: if_splits option.splits sum.splits prod.splits)

text \<open>How \<open>MineBlock\<close> ends: with a solved template connected, or with nothing changed.\<close>

lemma mineLoop_cases:
  assumes "mineLoop E clock ord createdAt template height workers events ch pool = (r, ch', pool')"
  shows "(\<exists>n h. solves E (bk_Header template) n h \<and> connectBlock E clock (with_nonce n template) ch = (Inr (), ch') \<and>
      r = Inr (with_nonce n template, h, height) \<and> pool' = map_option (RemoveForBlock ord (with_nonce n template)) pool) \<or>
    (\<exists>e. r = Inl e \<and> quiet ch ch' \<and> pool' = pool)"
  using assms
proof (induction E clock ord createdAt template height workers events ch pool rule: mineLoop.induct)
  case (3 E clock ord createdAt template height workers now events ch pool)
  then show ?case by (auto simp: Let_def quiet.refl split: if_splits)
next
  case (4 E clock ord createdAt template height workers worker stop now events ch pool)
  let ?w = "mineWorker E (bk_Header template) workers stop worker"
  show ?case
  proof (cases "\<exists>n h. ?w = Some (Found n h)")
    case True
    then obtain n h where w: "?w = Some (Found n h)" by blast
    then have s: "solves E (bk_Header template) n h" by (auto simp: mineWorker_def dest: mineFrom_Found)
    have b: "with_nonce n template = template\<lparr>bk_Header := (bk_Header template)\<lparr>hd_Nonce := n\<rparr>\<rparr>" by (simp add: with_nonce_def)
    obtain c c1 where c: "connectBlock E clock (with_nonce n template) ch = (c, c1)" by fastforce
    let ?h = "handleResult E clock ord now createdAt (with_nonce n template) height ch pool"
    have l: "(case ?h of (Inl e, ch, pool) \<Rightarrow> (Inl e, ch, pool) | (Inr _, ch, pool) \<Rightarrow> (Inr (with_nonce n template, h, height), ch, pool)) =
        (r, ch', pool')"
      using "4.prems" w unfolding b by (simp add: Let_def)
    show ?thesis
    proof (cases "fst ?h = Inr ()")
      case True
      then have "connectBlock E clock (with_nonce n template) ch = (Inr (), c1)"
        "?h = (Inr (), c1, map_option (RemoveForBlock ord (with_nonce n template)) pool)"
        using c by (auto simp: handleResult_def Let_def split: if_splits sum.splits)
      with l s show ?thesis by auto
    next
      case False
      then obtain e d where h: "?h = (Inl e, d, pool)" "quiet ch d"
        using c connectBlock_Inl [of E clock "with_nonce n template" ch _ c1] quiet.refl
        by (cases c) (auto simp: handleResult_def Let_def split: if_splits)
      with l show ?thesis by auto
    qed
  next
    case False
    with 4 show ?thesis by (auto simp: quiet.refl split: option.splits workerResult.splits)
  qed
qed (auto simp: quiet.refl)

lemma MineBlock_cases:
  assumes "MineBlock E clock ord unixTime now pkh workers events ch0 pool = (r, ch', pool')"
  obtains (mined) template height ch n h where "NewBlockTemplate E unixTime pool pkh ch0 = (Inr (template, height), ch)"
      "solves E (bk_Header template) n h" "connectBlock E clock (with_nonce n template) ch = (Inr (), ch')"
      "r = Inr (with_nonce n template, h, height)" "pool' = map_option (RemoveForBlock ord (with_nonce n template)) pool"
    | (failed) e where "r = Inl e" "quiet ch0 ch'" "pool' = pool"
proof -
  obtain t ch where t: "NewBlockTemplate E unixTime pool pkh ch0 = (t, ch)" by fastforce
  have q: "quiet ch0 ch" by (rule NewBlockTemplate_quiet [OF t])
  show thesis
  proof (cases t)
    case (Inl e)
    with assms t q show thesis by (intro failed) (auto simp: MineBlock_def Let_def)
  next
    case (Inr x)
    then obtain template height where x: "t = Inr (template, height)" by (cases x) auto
    let ?n = "if workers \<le> 0 then 1 else nat workers"
    consider "\<exists>e. r = Inl e" "ch' = ch" "pool' = pool" | "mineLoop E clock ord now template height ?n events ch pool = (r, ch', pool')"
      using assms t x by (auto simp: MineBlock_def Let_def split: if_splits)
    then show thesis
    proof cases
      case 1
      with q failed show thesis by blast
    next
      case 2
      from mineLoop_cases [OF this] show thesis using t x q mined failed quiet.trans by blast
    qed
  qed
qed

text \<open>The template's place in the chain, whatever the pool.\<close>

lemma NewBlockTemplate_place:
  assumes "NewBlockTemplate E unixTime pool pkh ch0 = (Inr (block, height), ch)"
  shows "\<exists>tip. ch_tip ch0 = Some tip \<and> height = ix_Height tip + 1 \<and>
    hash_FromString (ix_Hash tip) = Inr (hd_PrevBlock (bk_Header block))"
  using assms by (auto simp: NewBlockTemplate_def Let_def split: if_splits option.splits sum.splits prod.splits)

section \<open>The coinbase\<close>

lemma heightScript_inj: "heightScript a = heightScript b \<longleftrightarrow> a = b"
proof
  assume "heightScript a = heightScript b"
  then have "(le_word (heightScript a) :: u32) = le_word (heightScript b)" by simp
  then show "a = b" by (simp add: heightScript_def)
qed simp

lemma NewCoinbaseTx_Inr:
  assumes "NewCoinbaseTx height pkh v = Inr cb"
  shows "length pkh = 20 \<and> 0 \<le> sint height \<and> 0 \<le> sint v \<and> cb = \<lparr>tx_Version = 1,
     tx_TxIn = [\<lparr>PreviousOutPoint = \<lparr>op_Hash = zero_hash, op_Index = 0xffffffff\<rparr>,
       SignatureScript = of_nat (length (heightScript height)) # heightScript height @ bytes_of_string ''/Legacy-GO/'',
       Sequence = 0xffffffff\<rparr>],
     tx_TxOut = [\<lparr>out_Value = v, out_PkScript = [OP_DUP, OP_HASH160, OP_DATA_20] @ pkh @ [OP_EQUALVERIFY, OP_CHECKSIG]\<rparr>],
     tx_LockTime = 0\<rparr>"
  using assms by (auto simp: NewCoinbaseTx_def NewCoinbaseTxWithOutputs_def PayToPubKeyHashScript_def word_sless_alt
      split: if_splits sum.splits)

lemma NewCoinbaseTx_ok: "NewCoinbaseTx height pkh v = Inr cb \<Longrightarrow> MsgTx_ok cb"
  using NewCoinbaseTx_Inr [of height pkh v cb]
  by (auto simp: MsgTx_ok_def TxIn_ok_def TxOut_ok_def hash_ok_def zero_hash_def HashSize_def MaxTxInPerMessage_def
      MaxTxOutPerMessage_def MaxScriptSize_def bytes_of_string_def heightScript_def)

section \<open>A concrete miner\<close>

definition withCoin :: "Chain \<Rightarrow> Chain" where
  "withCoin c = c\<lparr>ch_store := (ch_store c)\<lparr>fs_utxo := fmupd (utxoFile (ut_Key utxo1)) utxo1 fmempty\<rparr>\<rparr>"

definition chainM :: Chain where "chainM = withCoin chainE"

lemma chainM_simps [simp]:
  "ch_tip chainM = Some (index0 blockE)" "fmlookup (ch_work chainM) (hash_String (nonce_hash 1)) = Some work0"
  "\<not> fs_txIndexEnabled (ch_store chainM)"
  "LoadUTXO (OutPointKey (hash_String [7]) 0) (ch_store chainM) = Inr utxo1"
  "fs_utxo (ch_store chainM) = fmupd (utxoFile (ut_Key utxo1)) utxo1 fmempty"
  by (simp_all add: chainM_def withCoin_def LoadUTXO_def) (simp_all add: chainE_def utxo1_def)

lemma chainM_bits: "nextRequiredBits env0 chainM = (Inr 0x207fffff, chainM)"
proof -
  have "fmlookup (fs_heightIndex (ch_store chainM)) 0 = Some (index0 blockE)"
    by (simp add: chainM_def withCoin_def) (simp add: chainE_def)
  then show ?thesis
    by (simp add: nextRequiredBits_def sbind_def onStore_def recentEntries_def DGWv3PastBlocks_def
        eval_nat_numeral LoadIndexByHeight_def requiredBitsFromRecent_def op_simps)
qed

lemma chainM_time: "medianTimePast (hash_String (nonce_hash 1)) (ch_store chainM) = Inr 1000"
proof -
  have "LoadBlock (hash_String (nonce_hash 1)) (ch_store chainM) = Inr (blockE, index0 blockE)"
    using firstChain_simps(13) [OF first_blocks_ok(2), of "[]"]
    by (simp add: chainM_def withCoin_def chainE_def LoadBlock_def cong: option.case_cong)
  then show ?thesis by (simp add: medianTimePast_def eval_nat_numeral median_def)
qed

text \<open>The templates on top of it.\<close>

definition pkh0 :: bytes where "pkh0 = replicate 20 7"

definition coinbaseM :: "i64 \<Rightarrow> MsgTx" where
  "coinbaseM v = \<lparr>tx_Version = 1,
     tx_TxIn = [\<lparr>PreviousOutPoint = \<lparr>op_Hash = zero_hash, op_Index = 0xffffffff\<rparr>,
       SignatureScript = of_nat (length (heightScript 1)) # heightScript 1 @ bytes_of_string ''/Legacy-GO/'',
       Sequence = 0xffffffff\<rparr>],
     tx_TxOut = [\<lparr>out_Value = v, out_PkScript = script0\<rparr>], tx_LockTime = 0\<rparr>"

lemma coinbaseM_made: "0 \<le> sint v \<Longrightarrow> NewCoinbaseTx 1 pkh0 v = Inr (coinbaseM v)"
  by (simp add: NewCoinbaseTx_def NewCoinbaseTxWithOutputs_def coinbaseM_def pkh0_def PayToPubKeyHashScript_def
      script0_def word_sless_alt)

definition templateM :: "i64 \<Rightarrow> MsgTx list \<Rightarrow> MsgBlock" where
  "templateM v txs =
     (let block = \<lparr>bk_Header = \<lparr>hd_Version = 1, hd_PrevBlock = nonce_hash 1, hd_MerkleRoot = zero_hash,
            hd_Timestamp = 2000, hd_Bits = 0x207fffff, hd_Nonce = 0\<rparr>, bk_Transactions = coinbaseM v # txs\<rparr>
      in block\<lparr>bk_Header := (bk_Header block)\<lparr>hd_MerkleRoot := BuildMerkleRoot block\<rparr>\<rparr>)"

lemma templateM_simps [simp]:
  "bk_Transactions (templateM v txs) = coinbaseM v # txs" "hd_Timestamp (bk_Header (templateM v txs)) = 2000"
  "hd_Bits (bk_Header (templateM v txs)) = 0x207fffff" "hd_PrevBlock (bk_Header (templateM v txs)) = nonce_hash 1"
  by (simp_all add: templateM_def Let_def)

lemma templateM_made:
  assumes "selectEntries chainM 1 (entriesTopological 0 p) 0 [] [] = (fees, txs)" "0 \<le> sint (BlockSubsidy 1 + fees)"
  shows "NewBlockTemplate env0 2000 (Some p) pkh0 chainM = (Inr (templateM (BlockSubsidy 1 + fees) txs, 1), chainM)"
proof -
  have "hash_FromString (hash_String (nonce_hash 1)) = Inr (nonce_hash 1)"
    by (rule hash_FromString_String) (rule nonce_hash_ok)
  then show ?thesis
    using assms coinbaseM_made [OF assms(2)]
    by (simp add: NewBlockTemplate_def chainM_bits Let_def templateM_def) (simp add: pkh0_def)
qed

lemma entries_new [simp]: "entriesTopological 0 newPool = []"
proof -
  from pool_reachable_ok [OF pool_reachable.start txs1_ok] obtain r where "core r newPool"
    by (auto simp: pool_ok_in_def mempool_ok_def pool_inv_def)
  from entriesTopological_order(2) [OF this] show ?thesis by simp
qed

lemma entries_one [simp]: "entriesTopological 0 pool1 = [entry1]"
proof -
  from pool_reachable_ok [OF pool1_reachable [OF listed_ok] txs1_ok] obtain r where r: "core r pool1"
    by (auto simp: pool_ok_in_def mempool_ok_def pool_inv_def)
  have "{e. \<exists>i. fmlookup (po_entries pool1) i = Some e} = {entry1}" by (auto split: if_splits)
  with entriesTopological_order(2) [OF r] have s: "set (entriesTopological 0 pool1) = {entry1}" by simp
  moreover have "distinct (entriesTopological 0 pool1)"
    using entriesTopological_order(1) [OF r] by (simp add: distinct_map)
  ultimately have "length (entriesTopological 0 pool1) = 1" using distinct_card by fastforce
  with s show ?thesis by (cases "entriesTopological 0 pool1") auto
qed

lemma subsidy_1: "sint (BlockSubsidy 1) = 5000000000" "sint (BlockSubsidy 1 + 1000) = 5000001000"
proof -
  show b: "sint (BlockSubsidy 1) = 5000000000" by (simp add: BlockSubsidy_sint)
  have "BlockSubsidy 1 = word_of_int (sint (BlockSubsidy 1))" by simp
  then have "BlockSubsidy 1 = 5000000000" unfolding b by simp
  then show "sint (BlockSubsidy 1 + 1000) = 5000001000" by simp
qed

lemma templates_made:
  "NewBlockTemplate env0 2000 (Some newPool) pkh0 chainM = (Inr (templateM (BlockSubsidy 1) [], 1), chainM)"
  "NewBlockTemplate env0 2000 (Some pool1) pkh0 chainM = (Inr (templateM (BlockSubsidy 1 + 1000) [tx1], 1), chainM)"
proof -
  show "NewBlockTemplate env0 2000 (Some newPool) pkh0 chainM = (Inr (templateM (BlockSubsidy 1) [], 1), chainM)"
    using templateM_made [of newPool 0 "[]"] by (simp add: subsidy_1)
  have "selectEntries chainM 1 [entry1] 0 [] [] = (1000, [tx1])"
    by (simp add: templateTxIsBuildable_def op_key_def) (simp add: utxo1_def)
  then show "NewBlockTemplate env0 2000 (Some pool1) pkh0 chainM = (Inr (templateM (BlockSubsidy 1 + 1000) [tx1], 1), chainM)"
    using templateM_made [of pool1 1000 "[tx1]"] by (simp add: subsidy_1)
qed

text \<open>They are ready, for a nonce that solves them.\<close>

lemma root_ok: "hash_ok (BuildMerkleRoot \<lparr>bk_Header = h, bk_Transactions = [a]\<rparr>)"
  "hash_ok (BuildMerkleRoot \<lparr>bk_Header = h, bk_Transactions = [a, b]\<rparr>)"
  by (simp_all add: BuildMerkleRoot_def merkle_loop.simps merkle_level_def)

lemma coinbaseM_size: "length (tx_Serialize (coinbaseM v)) \<le> 300"
  by (simp add: coinbaseM_def tx_Serialize_def write_counted_def write_TxIn_def write_TxOut_def WriteVarBytes_def
      WriteVarInt_def zero_hash_def bytes_of_string_def HashSize_def heightScript_def script0_def)

lemma templateM_size:
  assumes "txs = [] \<or> txs = [tx1]"
  shows "length (block_Serialize (templateM v txs)) \<le> maxBlockSerializedSize"
proof -
  have root: "length (hd_MerkleRoot (bk_Header (templateM v txs))) = 32"
    using assms root_ok by (auto simp: templateM_def Let_def hash_ok_def HashSize_def)
  then show ?thesis
    using assms coinbaseM_size [of v] nonce_hash_ok [of 1]
    by (auto simp: block_Serialize_def header_Serialize_def write_counted_def WriteVarInt_def hash_ok_def HashSize_def
        maxBlockSerializedSize_def tx1_size)
qed

lemma templateM_ready:
  assumes "txs = [] \<or> txs = [tx1]"
  shows "template_ready env0 2000 chainM (templateM v txs) (index0 blockE) work0"
  using chainM_time chainM_bits templateM_size [OF assms]
  by (simp add: template_ready_def maxFutureTime_def MaxFutureDriftSeconds_def)

lemma templateM_solved: "solves env0 (bk_Header (templateM v txs)) 1 (nonce_hash 1)"
  using sample_pow [of 1] by (simp add: solves_def)

lemma unconfirmed_M: "unconfirmed (ch_store chainM) tx"
proof -
  have "TxHash tx \<noteq> [7]" using TxHash_ok [of tx] by (auto simp: hash_ok_def HashSize_def)
  then have ne: "utxoFile (op_key \<lparr>op_Hash = TxHash tx, op_Index = v\<rparr>) \<noteq> utxoFile (op_key \<lparr>op_Hash = [7], op_Index = 0\<rparr>)" for v
    unfolding utxoFile_inj by simp
  then show ?thesis using ne [symmetric] by (simp add: unconfirmed_def storedUTXO_at txID_def op_key_def utxo1_def)
qed

lemma script0_ops: "CountSigOps script0 = 1"
  unfolding script0_def by code_simp

lemma tx1_ops: "outputSigOps (coinbaseM v) + txOps sample_crypto0 chainM q tx1 \<le> MaxBlockSigOps"
proof -
  have "\<not> IsPayToScriptHash script0" by (simp add: IsPayToScriptHash_def script0_def)
  then have "SigOpsForSpend sample_crypto0 s script0 = Inr 1" for s by (simp add: SigOpsForSpend_def script0_ops)
  moreover have "ut_PkScript utxo1 = hex_encode script0" by (simp add: utxo1_def)
  ultimately show ?thesis
    by (simp add: txOps_def outputSigOps_def coinbaseM_def inputOps_def prevOutput_def op_key_def script0_ops MaxBlockSigOps_def)
qed

lemma tx1_lively:
  "validateTransaction sample_crypto0 chainM tx1 (pool1\<lparr>po_spent := fmempty\<rparr>) = Valid (txID tx1) 1000 \<and>
   length (tx_TxOut tx1) < 2 ^ 32 \<and> unconfirmed (ch_store chainM) tx1"
  using tx1_validates unconfirmed_M by simp

end
