(* ===== verification/MiningProperties.thy ===== *)
theory MiningProperties
  imports SampleMining
begin

text \<open>Properties of block templates and of the nonce search.\<close>

section \<open>Templates\<close>

text \<open>
  C21. When a solved template is a valid block. Take any pool that admissions and blocks can lead
  to, and the template made from it. The chain accepts the template with any nonce that solves
  it, and it becomes the tip, provided that: every entry of the pool is one the current chain
  would still accept, with fewer than \<open>2 ^ 32\<close> outputs and none of them in the UTXO set; the
  coinbase is a transaction that neither the UTXO set nor the pool has; subsidy and the fees of
  the whole pool are in the money range; the limits that the template does not look at are kept
  (signature operations, serialised size); and the chain is ready for it (\<open>template_ready\<close>): its
  tip is known with its work, can still be followed by a later time and is not before the
  median time, the difficulty is the one the chain asks for, and the time is not too far in the
  future. A template over the limits is made and searched for all the same, and then rejected.
\<close>

theorem template_connects:
  assumes "NewBlockTemplate E unixTime (Some p) pkh ch0 = (Inr (block, height), ch)"
    and "pool_reachable S p" "txs_ok S"
    and "\<And>i e. fmlookup (po_entries p) i = Some e \<Longrightarrow>
      validateTransaction (en_crypto E) ch (me_Tx e) (p\<lparr>po_spent := fmempty\<rparr>) = Valid i (me_Fee e) \<and>
      length (tx_TxOut (me_Tx e)) < 2 ^ 32 \<and> unconfirmed (ch_store ch) (me_Tx e)"
    and "unconfirmed (ch_store ch) (hd (bk_Transactions block))"
    and "txID (hd (bk_Transactions block)) |\<notin>| fmdom (po_entries p)"
    and "sint (BlockSubsidy height) + (\<Sum>e\<leftarrow>entriesTopological 0 p. sint (me_Fee e)) \<le> sint MaxMoney"
    and "outputSigOps (hd (bk_Transactions block)) +
      (\<Sum>tx\<leftarrow>tl (bk_Transactions block). txOps (en_crypto E) ch (p\<lparr>po_spent := fmempty\<rparr>) tx) \<le> MaxBlockSigOps"
    and "template_ready E clock ch block tip w" "solves E (bk_Header block) n h"
  shows "\<exists>ch'. connectBlock E clock (with_nonce n block) ch = (Inr (), ch') \<and>
    ch_tip ch' = Some (indexOf (with_nonce n block) height h (ix_Hash tip) (w + WorkForBits (hd_Bits (bk_Header block))))"
  by (rule template_block_connects [OF assms])

theorem template_connects_witness:
  "(\<exists>ch'. connectBlock env0 2000 (with_nonce 1 (templateM (BlockSubsidy 1) [])) chainM = (Inr (), ch')) \<and>
   (txID (coinbaseM (BlockSubsidy 1 + 1000)) = txID tx1 \<or>
    (\<exists>ch'. connectBlock env0 2000 (with_nonce 1 (templateM (BlockSubsidy 1 + 1000) [tx1])) chainM = (Inr (), ch')))"
proof -
  note t = template_connects [where clock = 2000 and n = 1 and h = "nonce_hash 1" and w = work0 and tip = "index0 blockE"]
  have ops: "outputSigOps (coinbaseM v) \<le> MaxBlockSigOps" for v
    by (simp add: outputSigOps_def coinbaseM_def script0_ops MaxBlockSigOps_def)
  have first: "\<exists>ch'. connectBlock env0 2000 (with_nonce 1 (templateM (BlockSubsidy 1) [])) chainM = (Inr (), ch')"
    using t [OF templates_made(1) pool_reachable.start txs1_ok _ unconfirmed_M _ _ _ templateM_ready templateM_solved] ops subsidy_1
    by (auto simp: MaxMoney_def Coin_def)
  have live: "validateTransaction (en_crypto env0) chainM (me_Tx e) (pool1\<lparr>po_spent := fmempty\<rparr>) = Valid i (me_Fee e) \<and>
      length (tx_TxOut (me_Tx e)) < 2 ^ 32 \<and> unconfirmed (ch_store chainM) (me_Tx e)"
    if "fmlookup (po_entries pool1) i = Some e" for i e
    using that tx1_lively by (auto split: if_splits)
  have "\<exists>ch'. connectBlock env0 2000 (with_nonce 1 (templateM (BlockSubsidy 1 + 1000) [tx1])) chainM = (Inr (), ch')"
    if "txID (coinbaseM (BlockSubsidy 1 + 1000)) \<noteq> txID tx1"
    using t [OF templates_made(2) pool1_reachable [OF listed_ok] txs1_ok live unconfirmed_M _ _ _ templateM_ready templateM_solved]
      that tx1_ops subsidy_1
    by (auto simp: MaxMoney_def Coin_def)
  with first show ?thesis by blast
qed

text \<open>
  C22. No nonce is missed unless the search is cancelled. Let every header hash, and let each
  worker see the search cancelled at any of its polls or never (\<open>MineBlock\<close> cancels it when a
  result is there, the template is stale or due for a refresh, or the caller gives up). Each
  worker ends: with a nonce of its own that solves the header, cancelled (only if it was), or
  exhausted, and then none of its nonces solves. Every nonce belongs to exactly one worker. If
  some nonce solves the header, then some worker finds one or was cancelled; so, when nobody is
  cancelled, the workers together find a block if and only if some nonce out of all \<open>2 ^ 32\<close>
  solves.
\<close>

theorem nonce_search_complete:
  assumes "hashes E header" "0 < workers" "workers < 2 ^ 32"
  shows "(\<forall>w<workers.
      (\<exists>n h. mineWorker E header workers (stop w) w = Some (Found n h) \<and> solves E header n h \<and> tried (of_nat workers) (of_nat w) n) \<or>
      (mineWorker E header workers (stop w) w = Some Cancelled \<and> stop w \<noteq> None) \<or>
      (mineWorker E header workers (stop w) w = Some Exhausted \<and>
        (\<forall>n h. tried (of_nat workers) (of_nat w) n \<longrightarrow> \<not> solves E header n h))) \<and>
    (\<forall>n. \<exists>!w. w < workers \<and> tried (of_nat workers) (of_nat w) n) \<and>
    ((\<exists>n h. solves E header n h) \<longrightarrow> (\<exists>w<workers. (\<exists>n h. mineWorker E header workers (stop w) w = Some (Found n h)) \<or>
      (mineWorker E header workers (stop w) w = Some Cancelled \<and> stop w \<noteq> None))) \<and>
    ((\<forall>w<workers. stop w = None) \<longrightarrow>
      ((\<exists>w<workers. \<exists>n h. mineWorker E header workers (stop w) w = Some (Found n h)) \<longleftrightarrow> (\<exists>n h. solves E header n h)))"
proof -
  note ends = worker_ends [OF assms]
  have found: "solves E header n h" if "mineWorker E header workers s w = Some (Found n h)" for n h s w
    using that ends [of s w] by auto
  have search: "(\<exists>n h. solves E header n h) \<longrightarrow> (\<exists>w<workers. (\<exists>n h. mineWorker E header workers (stop w) w = Some (Found n h)) \<or>
      (mineWorker E header workers (stop w) w = Some Cancelled \<and> stop w \<noteq> None))"
    using search_complete [OF assms] by blast
  then have "(\<forall>w<workers. stop w = None) \<longrightarrow>
      ((\<exists>w<workers. \<exists>n h. mineWorker E header workers (stop w) w = Some (Found n h)) \<longleftrightarrow> (\<exists>n h. solves E header n h))"
    using found by metis
  with ends every_nonce_tried [OF assms(2,3)] search show ?thesis by blast
qed

theorem nonce_search_complete_witness:
  "(\<exists>w<2. \<exists>n h. mineWorker env0 header1 2 None w = Some (Found n h)) \<and>
   mineWorker env0 header1 2 (Some 0) 0 = Some Cancelled"
proof -
  have "hashes env0 header1" by (simp add: hashes_def)
  moreover have "solves env0 header1 1 (nonce_hash 1)" using sample_pow [of 1] by (simp add: solves_def)
  ultimately have "\<exists>w<2. \<exists>n h. mineWorker env0 header1 2 None w = Some (Found n h)"
    using nonce_search_complete [of env0 header1 2 "\<lambda>_. None"] by auto
  then show ?thesis by (simp add: mineWorker_def mineFrom.simps [of _ _ _ "Some 0"])
qed

text \<open>
  C23. What mining does to the node. When \<open>MineBlock\<close> succeeds, its block solves the header with
  the hash it returns, sits on the tip at the next height, is the new tip and stored, and the
  pool is cleared by it; when it fails, for whatever reason, the chain is as it was (up to the
  height index) and so is the pool.
\<close>

theorem mined_block:
  assumes "MineBlock E clock ord unixTime now pkh workers events ch0 pool = (r, ch', pool')"
  shows "case r of
      Inr (block, h, height) \<Rightarrow>
        en_HashHeader E (bk_Header block) = Some h \<and> CheckProofOfWork h (hd_Bits (bk_Header block)) = Inr () \<and>
        (\<exists>tip idx. ch_tip ch0 = Some tip \<and> hash_FromString (ix_Hash tip) = Inr (hd_PrevBlock (bk_Header block)) \<and>
          height = ix_Height tip + 1 \<and> ch_tip ch' = Some idx \<and> ix_Height idx = height \<and>
          ix_Hash idx = hash_String h \<and> ix_Parent idx = ix_Hash tip) \<and>
        fmlookup (fs_blocks (ch_store ch')) (hash_String h) = Some (block_Serialize block) \<and>
        pool' = map_option (RemoveForBlock ord block) pool
    | Inl e \<Rightarrow> quiet ch0 ch' \<and> pool' = pool"
  using assms
proof (cases rule: MineBlock_cases)
  case (mined template height ch n h)
  let ?block = "with_nonce n template"
  have s: "en_HashHeader E (bk_Header ?block) = Some h \<and> CheckProofOfWork h (hd_Bits (bk_Header ?block)) = Inr ()"
    using mined(2) by (simp add: solves_def with_nonce_def)
  from NewBlockTemplate_place [OF mined(1)] obtain tip where
    tip: "ch_tip ch0 = Some tip" "height = ix_Height tip + 1" "hash_FromString (ix_Hash tip) = Inr (hd_PrevBlock (bk_Header ?block))"
    by auto
  have "ch_tip ch = Some tip" using NewBlockTemplate_quiet [OF mined(1)] tip(1) by (simp add: quiet_def sameChain_def)
  moreover obtain idx work adds spends spent d where
    v: "validateActiveBlock E clock ?block ch = (Inr (idx, work, adds, spends, spent), d)"
    and d: "ch' = commitBlock ?block idx work adds spends spent d" using connectBlock_Inr [OF mined(3)] .
  ultimately have "ch_tip ch' = Some idx \<and> ix_Height idx = height \<and> ix_Hash idx = hash_String h \<and> ix_Parent idx = ix_Hash tip \<and>
    fmlookup (fs_blocks (ch_store ch')) (hash_String h) = Some (block_Serialize ?block)"
    using validateActiveBlock_Inr [OF v] s tip(2)
    by (auto simp: commitBlock_def noteWork_def SaveBlock_fields indexOf_def childHeight_def tipHash_def)
  with mined(4,5) s tip show ?thesis by simp
qed simp

theorem mined_block_witness:
  "\<exists>block h ch' pool'. MineBlock env0 2000 listed 2000 0 pkh0 1 [StaleTick 1, WorkerEnded 0 None 2] chainM (Some newPool) = (Inr (block, h, 1), ch', pool') \<and>
    en_HashHeader env0 (bk_Header block) = Some h \<and> pool' = Some (RemoveForBlock listed block newPool)"
proof -
  let ?t = "templateM (BlockSubsidy 1) []" and ?h = "nonce_hash 0"
  have "HashToBig ?h = 0" by (simp add: HashToBig_def nonce_hash_def big_SetBytes_def foldl_zeros)
  moreover have "CompactToBig 0x207fffff = 0x7fffff * 2 ^ 232" by (simp add: CompactToBig_def)
  ultimately have pow: "CheckProofOfWork ?h 0x207fffff = Inr ()" by (simp add: CheckProofOfWork_def PowLimit_def)
  then have s: "solves env0 (bk_Header ?t) 0 ?h" by (simp add: solves_def)
  have "outputSigOps (coinbaseM v) \<le> MaxBlockSigOps" for v
    by (simp add: outputSigOps_def coinbaseM_def script0_ops MaxBlockSigOps_def)
  with template_block_connects [OF templates_made(1) pool_reachable.start txs1_ok _ unconfirmed_M _ _ _ templateM_ready s] subsidy_1
  obtain ch' where c: "connectBlock env0 2000 (with_nonce 0 ?t) chainM = (Inr (), ch')" by (auto simp: MaxMoney_def Coin_def)
  have "mineWorker env0 (bk_Header ?t) 1 None 0 = Some (Found 0 ?h)"
    using pow by (simp add: mineWorker_def mineFrom.simps [of env0 "bk_Header ?t" 1 None 0])
  moreover have fresh: "ts_IsFresh (CheckTemplateFreshness (Some chainM) (Some block) 1 (Some 0) DefaultHardTemplateStaleAge t)"
    if "hd_PrevBlock (bk_Header block) = hd_PrevBlock (bk_Header ?t)" "t \<le> 2" for t block
    unfolding fresh_iff using that by (simp add: DefaultHardTemplateStaleAge_def TargetSpacingSeconds_def)
  moreover have "\<not> ts_RefreshDue (CheckTemplateFreshness (Some chainM) (Some ?t) 1 (Some 0) DefaultHardTemplateStaleAge 1)"
    by (subst refresh_iff) (simp_all add: fresh DefaultSoftTemplateRefreshAge_def)
  ultimately have m: "MineBlock env0 2000 listed 2000 0 pkh0 1 [StaleTick 1, WorkerEnded 0 None 2] chainM (Some newPool) =
      (Inr (with_nonce 0 ?t, ?h, 1), ch', Some (RemoveForBlock listed (with_nonce 0 ?t) newPool))"
    using c templates_made(1) by (simp add: MineBlock_def handleResult_def with_nonce_def Let_def)
  from mined_block [OF m] m show ?thesis by auto
qed

text \<open>
  Coinbases of different blocks differ: one encoding belongs to one height, value and key
  hash, so blocks at different heights never create the same coinbase transaction.
\<close>

theorem coinbase_unique:
  assumes "NewCoinbaseTx height pkh v = Inr a" "NewCoinbaseTx height' pkh' v' = Inr b" "tx_Serialize a = tx_Serialize b"
  shows "height = height' \<and> v = v' \<and> pkh = pkh'"
proof -
  have "a = b" using tx.enc_inj [OF NewCoinbaseTx_ok [OF assms(1)] NewCoinbaseTx_ok [OF assms(2)], of "[]" "[]"] assms(3) by simp
  then show ?thesis
    using NewCoinbaseTx_Inr [OF assms(1)] NewCoinbaseTx_Inr [OF assms(2)] heightScript_inj by simp
qed

theorem coinbase_unique_witness:
  "\<exists>a b. NewCoinbaseTx 1 pkh0 5 = Inr a \<and> NewCoinbaseTx 2 pkh0 5 = Inr b \<and> tx_Serialize a \<noteq> tx_Serialize b"
proof -
  obtain a b where "NewCoinbaseTx 1 pkh0 5 = Inr a" "NewCoinbaseTx 2 pkh0 5 = Inr b"
    by (simp add: NewCoinbaseTx_def NewCoinbaseTxWithOutputs_def PayToPubKeyHashScript_def pkh0_def word_sless_alt)
  with coinbase_unique [of 1 pkh0 5 a 2 pkh0 5 b] show ?thesis by auto
qed

end
