(* ===== verification/MiningSafety.thy ===== *)
theory MiningSafety
  imports ChainCfg Amount "HOL-Library.Log_Nat"
begin

text \<open>
  Whether the node may mine (\<^verbatim>\<open>internal/rpc/mining_safety.go\<close>): \<open>CheckSafeToMine\<close> on the gathered
  view of peers, template and block counts. Texts are ASCII. A \<open>float64\<close> is the rational it
  stands for; a conversion or a division rounds to the nearest one (ties to even), the values
  here being far from the limits of the exponent. \<open>int\<close> counts do not overflow and are \<open>int\<close>;
  heights keep their 32 bits.
\<close>

section \<open>Floating point\<close>

definition pow2 :: "int \<Rightarrow> rat" where
  "pow2 e = (if 0 \<le> e then 2 ^ nat e else 1 / 2 ^ nat (- e))"

definition round_even :: "rat \<Rightarrow> int" where
  "round_even x = (let n = \<lfloor>x\<rfloor>; d = x - of_int n in
     if d < 1 / 2 then n else if d > 1 / 2 then n + 1 else if even n then n else n + 1)"

text \<open>The exponent for which a positive rational has a mantissa of 53 bits.\<close>

definition exponent64 :: "rat \<Rightarrow> int" where
  "exponent64 x = (let (p, q) = quotient_of x; e = bitlen p - bitlen q - 53 in
     if x / pow2 e < 2 ^ 53 then e else e + 1)"

definition float64 :: "rat \<Rightarrow> rat" where
  "float64 x = (if x = 0 then 0
     else let e = exponent64 \<bar>x\<bar> in (if x < 0 then -1 else 1) * of_int (round_even (\<bar>x\<bar> / pow2 e)) * pow2 e)"

section \<open>Texts\<close>

definition ToLowerASCII :: "string \<Rightarrow> string" where
  "ToLowerASCII s = List.map (\<lambda>c. if (65::nat) \<le> of_char c \<and> of_char c \<le> (90::nat) then char_of (of_char c + 32 :: nat) else c) s"

fun Contains :: "string \<Rightarrow> string \<Rightarrow> bool" where
  "Contains [] sub = (sub = [])"
| "Contains (c # s) sub = (take (length sub) (c # s) = sub \<or> Contains s sub)"

fun digit_loop :: "nat \<Rightarrow> string" where
  "digit_loop n = (if n = 0 then [] else digit_loop (n div 10) @ [char_of (48 + n mod 10)])"

declare digit_loop.simps [simp del]

text \<open>The loop runs while the number is positive, which the negation of the least \<open>int32\<close> is not.\<close>

definition int32String :: "i32 \<Rightarrow> string" where
  "int32String n0 =
     (if n0 = 0 then ''0''
      else let n = (if n0 <s 0 then - n0 else n0);
               digits = digit_loop (nat (sint n))
           in if n0 <s 0 then CHR ''-'' # digits else digits)"

section \<open>The view\<close>

record PeerView =
  mi_PeerCount :: int
  mi_GoodPeerCount :: int
  mi_AgreeingPeerCount :: int
  mi_CompatiblePeerCount :: int
  mi_Lagging1PeerCount :: int
  mi_ConflictingTipPeerCount :: int
  mi_StrongerChainworkPeerCount :: int
  mi_WrongChainPeerCount :: int
  mi_ProtocolErrorPeerCount :: int
  mi_StalePeerCount :: int
  mi_LocalHeight :: i32
  mi_BestPeerHeight :: i32
  mi_BlocksBehind :: i32
  mi_SyncState :: string
  mi_RequestInFlight :: bool
  mi_NoUsefulChainData :: bool
  mi_RecentReorg :: bool
  mi_PeerSplit :: bool

record TemplateView = PeerView +
  mi_HasActiveTemplate :: bool
  mi_ActiveTemplateFresh :: bool
  mi_ActiveTemplateRefreshDue :: bool
  mi_ActiveTemplateStaleReason :: string
  mi_ActiveTemplateRefreshReason :: string
  mi_ActiveTemplatePrevHash :: string
  mi_CurrentTipHash :: string
  mi_TemplateAgeSeconds :: rat
  mi_CurrentTemplateHeight :: i32
  mi_CurrentTipHeight :: i32
  mi_TemplateMaxAgeSeconds :: rat
  mi_AcceptedBlocks :: i64
  mi_StaleBlocks :: i64
  mi_RejectedBlocks :: i64
  mi_StaleRatePauseActive :: bool

record GraceView = TemplateView +
  mi_PeerAgreementGraceActive :: bool
  mi_PeerAgreementGraceRemaining :: int
  mi_PeerAgreementRecoveryActive :: bool
  mi_PeerAgreementRecoveryRemaining :: int
  mi_PeerSafetyPauseActive :: bool
  mi_LocalBlockPropagationGraceActive :: bool
  mi_LocalBlockPropagationGraceRemaining :: int
  mi_LocalBlockPropagationHeight :: i32
  mi_LocalBlockPropagationHash :: string
  mi_LastLocalBlockAnnouncementTime :: int
  mi_LocalBlockAnnouncementTargetCount :: int

record MiningSafetyInput = GraceView +
  mi_RPCHealth :: string
  mi_StorageOK :: bool
  mi_StorageError :: string
  mi_DestinationOK :: bool
  mi_DestinationError :: string
  mi_SafeRequired :: bool
  mi_AllowUnsafe :: bool
  mi_MinAgreeingPeers :: int
  mi_PeerGraceSeconds :: int
  mi_PeerRecoverySeconds :: int
  mi_BlocksBehindAllowed :: int

text \<open>Fields of the status that are copies of the input's are left out.\<close>

record MiningSafetyStatus =
  ms_Safe :: bool
  ms_State :: string
  ms_Reason :: string
  ms_RPCHealth :: string
  ms_SyncState :: string
  ms_BlocksBehind :: i32
  ms_AgreeingPeerCount :: int
  ms_CompatiblePeerCount :: int
  ms_ExactAgreeingPeerCount :: int
  ms_MinAgreeingPeers :: int
  ms_PeerGraceSeconds :: int
  ms_PeerRecoverySeconds :: int
  ms_StaleRate :: rat
  ms_StaleRateWarning :: string
  ms_UnsafeOverride :: bool
  ms_ActiveTemplateRefreshDue :: bool
  ms_ActiveTemplateStaleReason :: string
  ms_ActiveTemplateRefreshReason :: string
  ms_ActiveTemplatePrevHash :: string
  ms_CurrentTipHash :: string
  ms_LocalBlockPropagationGraceActive :: bool
  ms_LocalBlockPropagationGraceRemaining :: int
  ms_LocalBlockPropagationHeight :: i32
  ms_LocalBlockPropagationHash :: string
  ms_LastLocalBlockAnnouncementTime :: int
  ms_LocalBlockAnnouncementTargetCount :: int

section \<open>The counts and defaults\<close>

definition minAgreeingPeers :: "('a) MiningSafetyInput_scheme \<Rightarrow> int" where
  "minAgreeingPeers i = (if mi_MinAgreeingPeers i \<le> 0 then 2 else mi_MinAgreeingPeers i)"

definition peerGraceSeconds :: "('a) MiningSafetyInput_scheme \<Rightarrow> int" where
  "peerGraceSeconds i = (if mi_PeerGraceSeconds i \<le> 0 then 90 else mi_PeerGraceSeconds i)"

definition peerRecoverySeconds :: "('a) MiningSafetyInput_scheme \<Rightarrow> int" where
  "peerRecoverySeconds i = (if mi_PeerRecoverySeconds i \<le> 0 then 30 else mi_PeerRecoverySeconds i)"

definition blocksBehindAllowed :: "('a) MiningSafetyInput_scheme \<Rightarrow> int" where
  "blocksBehindAllowed i = (if mi_BlocksBehindAllowed i < 0 then 1 else mi_BlocksBehindAllowed i)"

definition blocksBehind :: "('a) PeerView_scheme \<Rightarrow> i32" where
  "blocksBehind i =
     (let b = (if mi_BlocksBehind i <s 0 then 0 else mi_BlocksBehind i) in
      if mi_LocalHeight i <s mi_BestPeerHeight i \<and> b <s mi_BestPeerHeight i - mi_LocalHeight i
      then mi_BestPeerHeight i - mi_LocalHeight i else b)"

definition rpcHealth :: "('a) MiningSafetyInput_scheme \<Rightarrow> string" where
  "rpcHealth i = (let h = ToLowerASCII (TrimSpace (mi_RPCHealth i)) in if h = [] then ''ok'' else h)"

definition syncState :: "('a) PeerView_scheme \<Rightarrow> string" where
  "syncState i = (let h = ToLowerASCII (TrimSpace (mi_SyncState i)) in if h = [] then ''unknown'' else h)"

definition totalBlocks :: "('a) TemplateView_scheme \<Rightarrow> i64" where
  "totalBlocks i = mi_AcceptedBlocks i + mi_StaleBlocks i + mi_RejectedBlocks i"

definition staleRate :: "('a) TemplateView_scheme \<Rightarrow> rat" where
  "staleRate i = (if 0 <s totalBlocks i
     then float64 (float64 (of_int (sint (mi_StaleBlocks i))) / float64 (of_int (sint (totalBlocks i)))) else 0)"

definition staleWarning :: "('a) TemplateView_scheme \<Rightarrow> string" where
  "staleWarning i =
     (if 0 <s totalBlocks i \<and> staleRate i \<ge> float64 (1 / 2)
      then ''Mining paused: high stale rate. Refreshing mining template and waiting for reliable peers.''
      else if 0 <s totalBlocks i \<and> staleRate i \<ge> float64 (3 / 10)
      then ''Mining strong warning: high stale rate. Refreshing mining template.''
      else if 0 <s totalBlocks i \<and> staleRate i \<ge> float64 (1 / 10)
      then ''Mining warning: high stale rate. Refreshing mining template.''
      else [])"

section \<open>The template's reasons\<close>

definition staleTemplateRefreshReason :: "string \<Rightarrow> string" where
  "staleTemplateRefreshReason reason =
     (let trimmed = TrimSpace reason; normalized = ToLowerASCII trimmed in
      if Contains normalized ''prev hash'' then ''prev_hash_mismatch: template prev hash does not match current tip''
      else if Contains normalized ''height'' then ''height_mismatch: template height is not current tip height + 1''
      else if Contains normalized ''age'' then ''hard_stale_template: template age exceeds hard stale limit''
      else if trimmed \<noteq> [] then ''template_stale: '' @ trimmed
      else ''template_stale: refreshing stale mining template'')"

definition staleTemplateHardReason :: "string \<Rightarrow> bool" where
  "staleTemplateHardReason reason =
     (let normalized = ToLowerASCII (TrimSpace reason) in
      Contains normalized ''template_stale'' \<or> Contains normalized ''template unavailable'' \<or>
      Contains normalized ''prev_hash_mismatch'' \<or> Contains normalized ''height_mismatch'' \<or>
      Contains normalized ''hard_stale_template'')"

definition wrongHeight :: "('a) TemplateView_scheme \<Rightarrow> bool" where
  "wrongHeight i \<longleftrightarrow> mi_HasActiveTemplate i \<and> 0 <s mi_CurrentTemplateHeight i \<and> 0 \<le>s mi_CurrentTipHeight i \<and>
     mi_CurrentTemplateHeight i \<noteq> mi_CurrentTipHeight i + 1"

definition wrongPrev :: "('a) TemplateView_scheme \<Rightarrow> bool" where
  "wrongPrev i \<longleftrightarrow> mi_HasActiveTemplate i \<and> mi_ActiveTemplatePrevHash i \<noteq> [] \<and> mi_CurrentTipHash i \<noteq> [] \<and>
     mi_ActiveTemplatePrevHash i \<noteq> mi_CurrentTipHash i"

definition tooOld :: "('a) TemplateView_scheme \<Rightarrow> bool" where
  "tooOld i \<longleftrightarrow> mi_HasActiveTemplate i \<and> 0 < mi_TemplateMaxAgeSeconds i \<and>
     mi_TemplateMaxAgeSeconds i < mi_TemplateAgeSeconds i"

definition staleTemplateReason :: "('a) TemplateView_scheme \<Rightarrow> string" where
  "staleTemplateReason i =
     (if wrongPrev i then ''template prev hash does not match current tip''
      else if wrongHeight i then ''template height is not current tip height + 1''
      else if tooOld i then ''template age exceeds hard stale limit''
      else if mi_HasActiveTemplate i \<and> \<not> mi_ActiveTemplateFresh i then TrimSpace (mi_ActiveTemplateStaleReason i)
      else [])"

section \<open>The verdict\<close>

definition initialStatus :: "MiningSafetyInput \<Rightarrow> MiningSafetyStatus" where
  "initialStatus i =
     \<lparr>ms_Safe = True, ms_State = ''safe'', ms_Reason = [], ms_RPCHealth = rpcHealth i, ms_SyncState = syncState i,
      ms_BlocksBehind = blocksBehind i, ms_AgreeingPeerCount = mi_AgreeingPeerCount i,
      ms_CompatiblePeerCount = mi_CompatiblePeerCount i, ms_ExactAgreeingPeerCount = 0,
      ms_MinAgreeingPeers = minAgreeingPeers i, ms_PeerGraceSeconds = peerGraceSeconds i,
      ms_PeerRecoverySeconds = peerRecoverySeconds i, ms_StaleRate = staleRate i,
      ms_StaleRateWarning = staleWarning i, ms_UnsafeOverride = False,
      ms_ActiveTemplateRefreshDue = mi_ActiveTemplateRefreshDue i,
      ms_ActiveTemplateStaleReason = TrimSpace (mi_ActiveTemplateStaleReason i),
      ms_ActiveTemplateRefreshReason = TrimSpace (mi_ActiveTemplateRefreshReason i),
      ms_ActiveTemplatePrevHash = TrimSpace (mi_ActiveTemplatePrevHash i),
      ms_CurrentTipHash = TrimSpace (mi_CurrentTipHash i),
      ms_LocalBlockPropagationGraceActive = False, ms_LocalBlockPropagationGraceRemaining = 0,
      ms_LocalBlockPropagationHeight = 0, ms_LocalBlockPropagationHash = [],
      ms_LastLocalBlockAnnouncementTime = 0, ms_LocalBlockAnnouncementTargetCount = 0\<rparr>"

definition templateStatus :: "MiningSafetyInput \<Rightarrow> MiningSafetyStatus \<Rightarrow> MiningSafetyStatus" where
  "templateStatus i status =
     (let reason = staleTemplateReason i in
      if reason \<noteq> [] then
        status\<lparr>ms_ActiveTemplateStaleReason := reason, ms_ActiveTemplateRefreshDue := True,
          ms_ActiveTemplateRefreshReason := (if ms_ActiveTemplateRefreshReason status = []
            then staleTemplateRefreshReason reason else ms_ActiveTemplateRefreshReason status)\<rparr>
      else if mi_HasActiveTemplate i \<and> mi_ActiveTemplateFresh i then
        status\<lparr>ms_ActiveTemplateStaleReason := [],
          ms_ActiveTemplateRefreshReason :=
            (if \<not> ms_ActiveTemplateRefreshDue status then []
             else if staleTemplateHardReason (ms_ActiveTemplateRefreshReason status)
             then ''refreshing template in background; current template still valid''
             else ms_ActiveTemplateRefreshReason status)\<rparr>
      else status)"

definition blockMining :: "string \<Rightarrow> MiningSafetyStatus \<Rightarrow> MiningSafetyStatus" where
  "blockMining reason status = status\<lparr>ms_Safe := False, ms_State := ''unsafe'', ms_Reason := reason\<rparr>"

text \<open>The checks in front of peer agreement; the first that fails gives the reason.\<close>

definition miningSyncStateCurrent :: "string \<Rightarrow> i32 \<Rightarrow> i32 \<Rightarrow> bool" where
  "miningSyncStateCurrent state behind allowed =
     (if state = ''current'' \<or> state = ''synced'' then behind \<le>s allowed else False)"

definition firstGates :: "MiningSafetyInput \<Rightarrow> string option" where
  "firstGates i =
     (let behind = blocksBehind i; allowed = word_of_int (blocksBehindAllowed i) :: i32 in
      if rpcHealth i = ''timeout'' then Some ''Mining blocked: RPC is not responding.''
      else if rpcHealth i = ''offline'' then Some ''Mining blocked: RPC is offline.''
      else if \<not> mi_StorageOK i then
        (if TrimSpace (mi_StorageError i) \<noteq> []
         then Some (''Mining blocked: storage health failed: '' @ TrimSpace (mi_StorageError i))
         else Some ''Mining blocked: storage health failed.'')
      else if \<not> mi_DestinationOK i then
        (if TrimSpace (mi_DestinationError i) \<noteq> [] then Some (TrimSpace (mi_DestinationError i))
         else Some ''Mining blocked: reward destination is not safe.'')
      else if mi_PeerCount i = 0 \<or> syncState i = ''no_peers'' \<or> syncState i = ''offline''
      then Some ''Mining blocked: node has no peers.''
      else if 0 < mi_StrongerChainworkPeerCount i then Some ''Mining paused: peer reports a stronger chain candidate.''
      else if 0 < mi_ConflictingTipPeerCount i then Some ''Mining paused: connected peers report a conflicting tip.''
      else if 0 < mi_WrongChainPeerCount i then Some ''Mining paused: wrong-chain peer detected.''
      else if 0 < mi_ProtocolErrorPeerCount i then Some ''Mining paused: peer protocol/header/block error detected.''
      else if allowed <s behind
      then Some (''Mining blocked: node is behind peers by '' @ int32String behind @ '' blocks.'')
      else if syncState i \<in> {''catching_up'', ''requesting_blocks'', ''possibly_stalled'', ''stalled''}
      then Some ''Mining blocked: node is not safely synced to the public chain.''
      else if syncState i = ''unknown'' then Some ''Mining blocked: peer sync state is unknown.''
      else if mi_RequestInFlight i \<and> \<not> miningSyncStateCurrent (syncState i) behind allowed
      then Some ''Mining blocked: sync request is still in progress.''
      else None)"

text \<open>The checks behind it.\<close>

definition finalGates :: "MiningSafetyInput \<Rightarrow> string option" where
  "finalGates i =
     (if mi_NoUsefulChainData i then Some ''Mining blocked: peer data is stale.''
      else if mi_RecentReorg i then Some ''Mining blocked: recent reorg detected; waiting for chain stability.''
      else if mi_PeerSplit i then Some ''Mining blocked: connected peers disagree about the public chain tip.''
      else if mi_HasActiveTemplate i \<and> \<not> mi_ActiveTemplateFresh i then
        (let reason = TrimSpace (mi_ActiveTemplateStaleReason i) in
         Some (''Mining paused: template is stale; waiting for fresh block template. '' @
           (if reason = [] then ''template is stale'' else reason)))
      else if wrongHeight i then Some ''Mining paused: template height is not current tip height + 1.''
      else if wrongPrev i then Some ''Mining paused: template prev hash does not match current tip.''
      else if tooOld i then Some ''Mining paused: template refresh failed; template age exceeds hard stale limit.''
      else if mi_StaleRatePauseActive i \<or> (0 <s totalBlocks i \<and> staleRate i \<ge> float64 (1 / 2))
      then Some ''Mining paused: high stale rate and unstable mining templates.''
      else None)"

text \<open>Old nodes report good peers only.\<close>

definition agreeingPeers :: "MiningSafetyInput \<Rightarrow> int" where
  "agreeingPeers i =
     (if mi_AgreeingPeerCount i = 0 \<and> mi_CompatiblePeerCount i = 0 \<and> 0 < mi_GoodPeerCount i
      then mi_GoodPeerCount i else mi_AgreeingPeerCount i)"

definition agreementStatus :: "MiningSafetyInput \<Rightarrow> MiningSafetyStatus \<Rightarrow> MiningSafetyStatus" where
  "agreementStatus i status =
     status\<lparr>ms_AgreeingPeerCount := agreeingPeers i,
       ms_CompatiblePeerCount := (if mi_AgreeingPeerCount i = 0 \<and> mi_CompatiblePeerCount i = 0 \<and> 0 < mi_GoodPeerCount i
         then mi_GoodPeerCount i else mi_CompatiblePeerCount i),
       ms_ExactAgreeingPeerCount := agreeingPeers i,
       ms_LocalBlockPropagationGraceActive := mi_LocalBlockPropagationGraceActive i,
       ms_LocalBlockPropagationGraceRemaining := mi_LocalBlockPropagationGraceRemaining i,
       ms_LocalBlockPropagationHeight := mi_LocalBlockPropagationHeight i,
       ms_LocalBlockPropagationHash := mi_LocalBlockPropagationHash i,
       ms_LastLocalBlockAnnouncementTime := mi_LastLocalBlockAnnouncementTime i,
       ms_LocalBlockAnnouncementTargetCount := mi_LocalBlockAnnouncementTargetCount i\<rparr>"

definition normalPropagation :: "MiningSafetyInput \<Rightarrow> bool" where
  "normalPropagation i \<longleftrightarrow> agreeingPeers i \<ge> 1 \<and> mi_CompatiblePeerCount i \<ge> minAgreeingPeers i \<and>
     mi_Lagging1PeerCount i \<ge> 1 \<and> mi_ConflictingTipPeerCount i = 0 \<and> mi_StrongerChainworkPeerCount i = 0 \<and>
     mi_WrongChainPeerCount i = 0 \<and> mi_ProtocolErrorPeerCount i = 0 \<and> mi_StalePeerCount i = 0 \<and>
     \<not> mi_NoUsefulChainData i \<and> mi_BlocksBehind i \<le>s word_of_int (mi_BlocksBehindAllowed i)"

definition CheckSafeToMine :: "MiningSafetyInput \<Rightarrow> MiningSafetyStatus" where
  "CheckSafeToMine i =
     (let status = templateStatus i (initialStatus i);
          degraded = (\<lambda>reason s. s\<lparr>ms_State := ''degraded'', ms_Reason := reason\<rparr>)
      in if \<not> mi_SafeRequired i \<and> mi_AllowUnsafe i
         then status\<lparr>ms_UnsafeOverride := True, ms_State := ''unsafe_override'',
                ms_Reason := ''Unsafe mining override enabled by expert config.''\<rparr>
         else (case firstGates i of Some reason \<Rightarrow> blockMining reason status
           | None \<Rightarrow>
             let status = agreementStatus i status in
             if 0 < minAgreeingPeers i \<and> agreeingPeers i < minAgreeingPeers i then
               (if normalPropagation i then
                  degraded ''Mining degraded: one or more healthy peers are 1 block behind (normal propagation). Mining continues.'' status
                else if mi_LocalBlockPropagationGraceActive i then
                  degraded ''Locally mined block is propagating to peers; mining continues during a bounded safety grace.'' status
                else if mi_PeerAgreementGraceActive i then
                  degraded ''Mining degraded: waiting for more current agreeing peers; grace period active.'' status
                else if mi_PeerAgreementRecoveryActive i then
                  blockMining ''Mining paused: waiting for peer agreement recovery hysteresis.'' status
                else blockMining (''Mining paused: fewer than '' @ int32String (word_of_int (minAgreeingPeers i)) @
                  '' current agreeing peer(s).'') status)
             else
               let status = status\<lparr>ms_LocalBlockPropagationGraceActive := False\<rparr> in
               (case finalGates i of Some reason \<Rightarrow> blockMining reason status | None \<Rightarrow> status)))"

end
