(* ===== verification/MiningRate.thy ===== *)
theory MiningRate
  imports MiningSafety
begin

text \<open>
  The stale rate is a quotient of two rounded counts that is rounded again. For counts below
  \<open>2 ^ 53\<close> the comparison with one half is exact all the same.
\<close>

lemma pow2_powi: "pow2 e = 2 powi e"
  by (simp add: pow2_def power_int_def inverse_eq_divide power_one_over)

lemma pow2_pos [simp]: "0 < pow2 e"
  by (simp add: pow2_powi)

lemma pow2_nonneg [simp]: "0 \<le> pow2 e"
  by (simp add: less_imp_le)

lemma pow2_add: "pow2 (a + b) = pow2 a * pow2 b"
  by (simp add: pow2_powi power_int_add)

lemma pow2_less: "pow2 a < pow2 b \<longleftrightarrow> a < b"
  using power_int_strict_increasing [of a b "2 :: rat"] power_int_strict_increasing [of b a "2 :: rat"]
  by (cases a b rule: linorder_cases) (auto simp: pow2_powi)

lemma pow2_values: "pow2 0 = 1" "pow2 1 = 2" "pow2 52 = 2 ^ 52" "pow2 53 = 2 ^ 53"
  "pow2 (-1) = 1 / 2" "pow2 (-53) = 1 / 2 ^ 53" "pow2 (-54) = 1 / 2 ^ 54" "pow2 (-55) = 1 / 2 ^ 55"
  by (simp_all add: pow2_def)

lemma bitlen_pow2: "0 < p \<Longrightarrow> pow2 (bitlen p - 1) \<le> of_int p \<and> of_int p < pow2 (bitlen p)"
proof -
  assume p: "0 < p"
  then have b: "0 < bitlen p" using bitlen_nonneg [of p] bitlen_eq_zero_iff [of p] by linarith
  from bitlen_bounds [OF p] have "2 ^ nat (bitlen p - 1) \<le> p" "p < 2 ^ nat (bitlen p)" by simp_all
  then have "(2 :: rat) ^ nat (bitlen p - 1) \<le> of_int p" "of_int p < (2 :: rat) ^ nat (bitlen p)"
    by (metis of_int_le_iff of_int_numeral of_int_power, metis of_int_less_iff of_int_numeral of_int_power)
  with b show ?thesis by (simp add: pow2_def)
qed

lemma exponent64:
  assumes "0 < x"
  shows "2 ^ 52 \<le> x / pow2 (exponent64 x) \<and> x / pow2 (exponent64 x) < 2 ^ 53"
proof -
  obtain p q where pq: "quotient_of x = (p, q)" by fastforce
  then have x: "x = of_int p / of_int q" and q: "0 < q" by (simp_all add: quotient_of_div quotient_of_denom_pos)
  with assms have p: "0 < p" by (simp add: zero_less_divide_iff)
  let ?e = "bitlen p - bitlen q - 53"
  note bp = bitlen_pow2 [OF p] and bq = bitlen_pow2 [OF q]
  have "pow2 (bitlen p) = pow2 ?e * pow2 54 * pow2 (bitlen q - 1)" "pow2 (bitlen p - 1) = pow2 ?e * pow2 52 * pow2 (bitlen q)"
    by (simp_all flip: pow2_add)
  moreover have "pow2 ?e * pow2 54 * pow2 (bitlen q - 1) \<le> pow2 ?e * pow2 54 * of_int q"
    "pow2 ?e * pow2 52 * of_int q \<le> pow2 ?e * pow2 52 * pow2 (bitlen q)"
    using bq by (simp_all add: mult_left_mono less_imp_le)
  ultimately have "of_int p < pow2 ?e * pow2 54 * of_int q" "pow2 ?e * pow2 52 * of_int q \<le> of_int p" using bp by linarith+
  then have b: "x / pow2 ?e < 2 ^ 54" "2 ^ 52 \<le> x / pow2 ?e" using q
    by (simp_all add: x divide_less_eq le_divide_eq pow2_def mult.commute mult.left_commute)
  have "x / pow2 (?e + 1) = (x / pow2 ?e) / 2" unfolding pow2_add pow2_values by simp
  with b pq show ?thesis by (auto simp: exponent64_def Let_def)
qed

lemma round_even_int: "round_even (of_int n) = n"
  by (simp add: round_even_def)

lemma round_even_ge: "of_int n \<le> x \<Longrightarrow> n \<le> round_even x"
proof -
  assume "of_int n \<le> x"
  then have "n \<le> \<lfloor>x\<rfloor>" by (simp add: le_floor_iff)
  then show ?thesis by (simp add: round_even_def Let_def)
qed

lemma round_even_le: "x \<le> of_int n \<Longrightarrow> round_even x \<le> n"
proof -
  assume x: "x \<le> of_int n"
  show ?thesis
  proof (cases "x = of_int n")
    case True
    then show ?thesis by (simp add: round_even_int)
  next
    case False
    with x have "\<lfloor>x\<rfloor> < n" by (simp add: floor_less_iff)
    then show ?thesis by (simp add: round_even_def Let_def)
  qed
qed

text \<open>A positive value and what it is rounded to, with its mantissa.\<close>

lemma float64_pos:
  assumes "0 < x"
  obtains e where "2 ^ 52 * pow2 e \<le> x" "x < 2 ^ 53 * pow2 e" "float64 x = of_int (round_even (x / pow2 e)) * pow2 e"
proof
  show "2 ^ 52 * pow2 (exponent64 x) \<le> x" "x < 2 ^ 53 * pow2 (exponent64 x)"
    using exponent64 [OF assms] by (simp_all add: le_divide_eq divide_less_eq)
  show "float64 x = of_int (round_even (x / pow2 (exponent64 x))) * pow2 (exponent64 x)"
    using assms by (simp add: float64_def Let_def)
qed

lemma float64_int:
  assumes "0 \<le> n" "n < 2 ^ 53"
  shows "float64 (of_int n) = of_int n"
proof (cases "n = 0")
  case False
  then have n: "(0 :: rat) < of_int n" using assms(1) by simp
  from float64_pos [OF n] obtain e where e: "2 ^ 52 * pow2 e \<le> of_int n" "of_int n < 2 ^ 53 * pow2 e"
    "float64 (of_int n) = of_int (round_even (of_int n / pow2 e)) * pow2 e" .
  have "(of_int n :: rat) < 2 ^ 53" using assms(2) by (metis of_int_less_iff of_int_numeral of_int_power)
  with e(1) have "pow2 e < pow2 1" by (simp add: pow2_values)
  then have "e \<le> 0" unfolding pow2_less by simp
  then have "pow2 e = 1 / 2 ^ nat (- e)" by (simp add: pow2_def)
  then have "of_int n / pow2 e = of_int (n * 2 ^ nat (- e))" by simp
  then have "of_int (round_even (of_int n / pow2 e)) = of_int n / pow2 e" by (simp only: round_even_int)
  with e(3) show ?thesis by (simp add: pow2_powi)
qed (simp add: float64_def)

lemma float64_half: "float64 (1 / 2) = 1 / 2"
  by code_simp

lemma float64_ge_half:
  assumes "1 / 2 \<le> x"
  shows "1 / 2 \<le> float64 x"
proof -
  from assms have "0 < x" by simp
  from float64_pos [OF this] obtain e where e: "2 ^ 52 * pow2 e \<le> x" "x < 2 ^ 53 * pow2 e"
    "float64 x = of_int (round_even (x / pow2 e)) * pow2 e" .
  have "pow2 (-54) < pow2 e" using e(2) assms by (simp add: pow2_values)
  then have "- 53 \<le> e" unfolding pow2_less by simp
  then have "pow2 (-53) \<le> pow2 e" using pow2_less [of e "-53"] by linarith
  moreover have "of_int (2 ^ 52) \<le> x / pow2 e" using e(1) by (simp add: le_divide_eq)
  then have "(2 :: rat) ^ 52 \<le> of_int (round_even (x / pow2 e))"
    using round_even_ge [of "2 ^ 52"] by (metis of_int_le_iff of_int_numeral of_int_power)
  ultimately have "2 ^ 52 * pow2 (-53) \<le> of_int (round_even (x / pow2 e)) * pow2 e"
    by (intro mult_mono) simp_all
  then show ?thesis by (simp add: e(3) pow2_values)
qed

lemma float64_below_half:
  assumes "0 \<le> s" "2 * s < t" "t < 2 ^ 53"
  shows "float64 (of_int s / of_int t) < 1 / 2"
proof (cases "s = 0")
  case False
  let ?x = "of_int s / of_int t :: rat"
  have t: "(0 :: rat) < of_int t" using assms by simp
  have x: "0 < ?x" using False assms t by (simp add: zero_less_divide_iff)
  have "(2 * of_int s + 1 :: rat) \<le> of_int t" 
  proof -
    have "2 * s + 1 \<le> t" using assms(2) by simp
    then have "(of_int (2 * s + 1) :: rat) \<le> of_int t" by (simp only: of_int_le_iff)
    then show ?thesis by simp
  qed
  then have gap: "?x + 1 / (2 * of_int t) \<le> 1 / 2" using t by (simp add: field_simps)
  have "(of_int t :: rat) < 2 ^ 53" using assms(3) by (metis of_int_less_iff of_int_numeral of_int_power)
  then have "1 / 2 ^ 54 < 1 / (2 * of_int t :: rat)" using t by (simp add: divide_simps)
  with gap have small: "?x < 1 / 2 - 1 / 2 ^ 54" by linarith
  from float64_pos [OF x] obtain e where e: "2 ^ 52 * pow2 e \<le> ?x" "?x < 2 ^ 53 * pow2 e"
    "float64 ?x = of_int (round_even (?x / pow2 e)) * pow2 e" .
  have "2 ^ 52 * pow2 e < 1 / 2" by (rule le_less_trans [OF e(1) less_trans [OF small]]) simp
  then have "pow2 e < pow2 (-53)" by (simp add: pow2_values)
  then have "e \<le> - 54" unfolding pow2_less by simp
  show ?thesis
  proof (cases "e = - 54")
    case True
    have "y < 1 / 2 - 1 / 2 ^ 54 \<Longrightarrow> y / pow2 (-54) \<le> of_int (2 ^ 53 - 1)" for y by (simp add: pow2_values)
    from this [OF small] have "?x / pow2 e \<le> of_int (2 ^ 53 - 1)" by (simp only: True)
    from round_even_le [OF this] have "(of_int (round_even (?x / pow2 e)) :: rat) \<le> of_int (2 ^ 53 - 1)" by (simp only: of_int_le_iff)
    then have "of_int (round_even (?x / pow2 e)) * pow2 e \<le> of_int (2 ^ 53 - 1) * pow2 e" by (rule mult_right_mono) (simp add: less_imp_le)
    then show ?thesis unfolding e(3) by (simp add: True pow2_values)
  next
    case False
    with \<open>e \<le> - 54\<close> have "pow2 e \<le> pow2 (-55)" using pow2_less [of "-55" e] by linarith
    moreover have "y < 2 ^ 53 * pow2 e \<Longrightarrow> y / pow2 e \<le> of_int (2 ^ 53)" for y by (simp add: pos_divide_le_eq less_imp_le)
    from this [OF e(2)] have "?x / pow2 e \<le> of_int (2 ^ 53)" .
    from round_even_le [OF this] have "(of_int (round_even (?x / pow2 e)) :: rat) \<le> of_int (2 ^ 53)" by (simp only: of_int_le_iff)
    then have "of_int (round_even (?x / pow2 e)) * pow2 e \<le> of_int (2 ^ 53) * pow2 (-55)"
      using calculation by (intro mult_mono) (simp_all add: less_imp_le)
    then show ?thesis unfolding e(3) by (simp add: pow2_values)
  qed
qed (simp add: float64_def)

lemma stale_pause_exact:
  assumes "0 < sint (totalBlocks i)" "sint (totalBlocks i) < 2 ^ 53"
    and "0 \<le> sint (mi_StaleBlocks i)" "sint (mi_StaleBlocks i) < 2 ^ 53"
  shows "staleRate i \<ge> float64 (1 / 2) \<longleftrightarrow> sint (totalBlocks i) \<le> 2 * sint (mi_StaleBlocks i)"
proof -
  let ?s = "sint (mi_StaleBlocks i)" and ?t = "sint (totalBlocks i)"
  have r: "staleRate i = float64 (of_int ?s / of_int ?t)"
    using assms float64_int [OF assms(3,4)] float64_int [OF less_imp_le [OF assms(1)] assms(2)]
    by (simp add: staleRate_def word_sless_alt)
  show ?thesis
  proof (cases "?t \<le> 2 * ?s")
    case True
    then have "(of_int ?t :: rat) \<le> 2 * of_int ?s" by (metis of_int_le_iff of_int_mult of_int_numeral)
    moreover have "b \<le> 2 * a \<Longrightarrow> 0 < b \<Longrightarrow> 1 / 2 \<le> a / b" for a b :: rat by (simp add: le_divide_eq)
    ultimately have "1 / 2 \<le> (of_int ?s / of_int ?t :: rat)" using assms(1) by (metis of_int_0_less_iff)
    from float64_ge_half [OF this] True show ?thesis by (simp add: r float64_half)
  next
    case False
    with float64_below_half [of ?s ?t] assms show ?thesis by (simp add: r float64_half)
  qed
qed

end
