(* ===== verification/MiningGuard.thy ===== *)
theory MiningGuard
  imports MiningSafety Chain
begin

text \<open>
  What the server keeps between two safety checks (\<^verbatim>\<open>internal/rpc/mining_safety_server.go\<close>): the
  grace periods of peer agreement and of a block the node has just found, and how peers are
  counted. Times are nanoseconds; an unset \<open>time.Time\<close> is \<open>None\<close>.
\<close>

section \<open>Counting peers\<close>

record PeerInfo =
  pi_PeerSafetyCategory :: string
  pi_GoodPeerReason :: string
  pi_LastBlockReject :: string
  pi_LastSyncError :: string
  pi_MissedPongs :: int
  pi_PeerQuality :: string
  pi_ReportedHeight :: i32
  pi_Stale :: bool
  pi_GoodPeer :: bool

definition EqualFold :: "string \<Rightarrow> string \<Rightarrow> bool" where
  "EqualFold s t \<longleftrightarrow> ToLowerASCII s = ToLowerASCII t"

definition heightCategory :: "i32 \<Rightarrow> bool \<Rightarrow> string" where
  "heightCategory lag stale =
     (if lag <s 0 then ''stronger_chainwork''
      else if lag = 0 then ''current_agreeing''
      else if lag = 1 then ''lagging_1_block''
      else if lag = 2 then ''lagging_2_blocks''
      else if stale then ''stale_chain_data''
      else ''lagging_more_than_2'')"

definition miningPeerCategory :: "PeerInfo \<Rightarrow> i32 \<Rightarrow> string" where
  "miningPeerCategory peer localHeight =
     (if Contains (ToLowerASCII (TrimSpace (pi_GoodPeerReason peer))) ''wrong chain'' then ''wrong_chain_id''
      else if TrimSpace (pi_LastBlockReject peer) \<noteq> [] \<or> TrimSpace (pi_LastSyncError peer) \<noteq> [] then ''protocol_error''
      else if 3 \<le> pi_MissedPongs peer \<or> EqualFold (pi_PeerQuality peer) ''poor'' then ''unresponsive''
      else if 0 <s localHeight \<and> pi_ReportedHeight peer \<le>s 0 then ''stale_chain_data''
      else if 0 <s localHeight \<and> 0 <s pi_ReportedHeight peer
      then heightCategory (localHeight - pi_ReportedHeight peer) (pi_Stale peer)
      else if pi_Stale peer then ''stale_chain_data''
      else if pi_GoodPeer peer then ''current_agreeing''
      else ''stale_chain_data'')"

record miningPeerAssessment =
  as_CurrentAgreeing :: nat
  as_Compatible :: nat
  as_Lagging1 :: nat
  as_Lagging2 :: nat
  as_LaggingMore :: nat
  as_StaleChainData :: nat
  as_Unresponsive :: nat
  as_ConflictingTip :: nat
  as_StrongerChainwork :: nat
  as_WrongChain :: nat
  as_ProtocolError :: nat

definition assessPeer :: "i32 \<Rightarrow> PeerInfo \<Rightarrow> miningPeerAssessment \<Rightarrow> miningPeerAssessment" where
  "assessPeer localHeight peer out =
     (let category = (if TrimSpace (pi_PeerSafetyCategory peer) = [] then miningPeerCategory peer localHeight
                      else TrimSpace (pi_PeerSafetyCategory peer))
      in if category = ''current_agreeing'' then
           out\<lparr>as_CurrentAgreeing := as_CurrentAgreeing out + 1, as_Compatible := as_Compatible out + 1\<rparr>
         else if category = ''lagging_1_block'' then
           out\<lparr>as_Lagging1 := as_Lagging1 out + 1, as_Compatible := as_Compatible out + 1\<rparr>
         else if category = ''lagging_2_blocks'' then
           out\<lparr>as_Lagging2 := as_Lagging2 out + 1, as_Compatible := as_Compatible out + 1\<rparr>
         else if category = ''lagging_more_than_2'' then out\<lparr>as_LaggingMore := as_LaggingMore out + 1\<rparr>
         else if category = ''stale_chain_data'' then out\<lparr>as_StaleChainData := as_StaleChainData out + 1\<rparr>
         else if category = ''unresponsive'' then out\<lparr>as_Unresponsive := as_Unresponsive out + 1\<rparr>
         else if category = ''conflicting_tip'' then out\<lparr>as_ConflictingTip := as_ConflictingTip out + 1\<rparr>
         else if category = ''stronger_chainwork'' then out\<lparr>as_StrongerChainwork := as_StrongerChainwork out + 1\<rparr>
         else if category = ''wrong_chain_id'' then out\<lparr>as_WrongChain := as_WrongChain out + 1\<rparr>
         else if category = ''protocol_error'' then out\<lparr>as_ProtocolError := as_ProtocolError out + 1\<rparr>
         else out)"

definition assessMiningPeers :: "PeerInfo list \<Rightarrow> i32 \<Rightarrow> miningPeerAssessment" where
  "assessMiningPeers peers localHeight =
     fold (assessPeer localHeight) peers
       \<lparr>as_CurrentAgreeing = 0, as_Compatible = 0, as_Lagging1 = 0, as_Lagging2 = 0, as_LaggingMore = 0,
        as_StaleChainData = 0, as_Unresponsive = 0, as_ConflictingTip = 0, as_StrongerChainwork = 0,
        as_WrongChain = 0, as_ProtocolError = 0\<rparr>"

definition miningPeerSetSplit :: "PeerInfo list \<Rightarrow> bool" where
  "miningPeerSetSplit peers =
     (if length peers < 3 then False
      else let heights = sort (map (\<lambda>p. sint (pi_ReportedHeight p))
                 (filter (\<lambda>p. \<not> (pi_Stale p \<or> pi_ReportedHeight p \<le>s 0 \<or> EqualFold (pi_PeerQuality p) ''poor'')) peers))
           in if length heights < 3 then False
              else let best = last heights; atBest = length (filter (\<lambda>h. best - h \<le> 1) heights)
                   in best - hd heights > 3 \<and> atBest * 2 < length heights)"

definition activeTemplateFreshness :: "BlockIndex option \<Rightarrow> i32 \<Rightarrow> string \<Rightarrow> int option \<Rightarrow> int \<Rightarrow> bool \<times> string" where
  "activeTemplateFreshness tip templateHeight templatePrevHash templateAt now =
     (if templateHeight \<le>s 0 \<or> TrimSpace templatePrevHash = [] \<or> templateAt = None then (False, ''template unavailable'')
      else (case tip of None \<Rightarrow> (False, ''chain tip unavailable'')
        | Some t \<Rightarrow>
          if ix_Hash t = [] then (False, ''chain tip unavailable'')
          else if templatePrevHash \<noteq> ix_Hash t then (False, ''template prev hash does not match current tip'')
          else if templateHeight \<noteq> ix_Height t + 1 then (False, ''template height is not current tip height + 1'')
          else if now - the templateAt > 2 * (TargetSpacingSeconds * 10 ^ 9)
          then (False, ''template age exceeds hard stale limit'')
          else (True, [])))"

section \<open>Grace periods\<close>

record minerState =
  mn_PeerAgreementLostSince :: "int option"
  mn_PeerAgreementRecoveredSince :: "int option"
  mn_PeerAgreementPaused :: bool
  mn_LocalBlockGraceActive :: bool
  mn_LocalBlockGraceStartedAt :: "int option"
  mn_LocalBlockGraceHash :: string
  mn_LocalBlockGraceHeight :: i32
  mn_LastLocalBlockAnnouncement :: "int option"
  mn_LocalBlockAnnouncementPeers :: int

definition second :: int where "second = 10 ^ 9"

text \<open>Go's division truncates.\<close>

definition toSeconds :: "int \<Rightarrow> int" where
  "toSeconds d = (if d < 0 then - (- d div second) else d div second)"

text \<open>\<open>now.Sub(t)\<close> for an unset \<open>t\<close> is the largest duration.\<close>

definition since :: "int \<Rightarrow> int option \<Rightarrow> int" where
  "since now t = (case t of None \<Rightarrow> 2 ^ 63 - 1 | Some t \<Rightarrow> now - t)"

definition unixSeconds :: "int option \<Rightarrow> int" where
  "unixSeconds t = (case t of None \<Rightarrow> -62135596800 | Some t \<Rightarrow> t div second)"

definition clearGrace :: "minerState \<Rightarrow> minerState" where
  "clearGrace s = s\<lparr>mn_LocalBlockGraceActive := False, mn_LocalBlockGraceHash := [],
     mn_LocalBlockGraceHeight := 0, mn_LocalBlockGraceStartedAt := None\<rparr>"

text \<open>The flag of the result says that the grace was denied. \<open>chain\<close> is \<open>None\<close> without a chain.\<close>

definition applyLocalBlockPropagationGrace ::
    "BlockIndex option option \<Rightarrow> int \<Rightarrow> int \<Rightarrow> MiningSafetyInput \<Rightarrow> minerState \<Rightarrow> bool \<times> MiningSafetyInput \<times> minerState" where
  "applyLocalBlockPropagationGrace chain now minAgreeing i s =
     (if \<not> mn_LocalBlockGraceActive s then (False, i, s)
      else
        let elapsed = since now (mn_LocalBlockGraceStartedAt s);
            remaining = (let r = toSeconds (120 * second - elapsed + second - 1) in if r < 0 then 0 else r)
        in (case chain of None \<Rightarrow> (True, i, clearGrace s)
          | Some tip \<Rightarrow>
            if elapsed \<ge> 120 * second then
              (True, i\<lparr>mi_LocalBlockPropagationGraceRemaining := 0\<rparr>, clearGrace s)
            else (case tip of None \<Rightarrow> (True, i, clearGrace s)
              | Some t \<Rightarrow>
                if ix_Hash t = [] then (True, i, clearGrace s)
                else if ix_Hash t \<noteq> mn_LocalBlockGraceHash s \<or> ix_Height t \<noteq> mn_LocalBlockGraceHeight s
                then (True, i, clearGrace s)
                else if mi_AgreeingPeerCount i \<ge> minAgreeing then (False, i, clearGrace s)
                else if mi_CompatiblePeerCount i < 2 then (True, i, clearGrace s)
                else if 0 < mi_ConflictingTipPeerCount i \<or> 0 < mi_StrongerChainworkPeerCount i \<or>
                  0 < mi_WrongChainPeerCount i \<or> 0 < mi_ProtocolErrorPeerCount i then (True, i, clearGrace s)
                else if (word_of_int (mi_BlocksBehindAllowed i) :: i32) <s mi_BlocksBehind i then (True, i, clearGrace s)
                else (False,
                  i\<lparr>mi_LocalBlockPropagationGraceActive := True,
                    mi_LocalBlockPropagationGraceRemaining := remaining,
                    mi_LocalBlockPropagationHeight := mn_LocalBlockGraceHeight s,
                    mi_LocalBlockPropagationHash := mn_LocalBlockGraceHash s,
                    mi_LastLocalBlockAnnouncementTime := unixSeconds (mn_LastLocalBlockAnnouncement s),
                    mi_LocalBlockAnnouncementTargetCount := mn_LocalBlockAnnouncementPeers s\<rparr>, s))))"

definition immediateRisk :: "MiningSafetyInput \<Rightarrow> bool" where
  "immediateRisk i \<longleftrightarrow> mi_PeerCount i = 0 \<or> 0 < mi_StrongerChainworkPeerCount i \<or> 0 < mi_ConflictingTipPeerCount i \<or>
     0 < mi_WrongChainPeerCount i \<or> 0 < mi_ProtocolErrorPeerCount i \<or>
     (word_of_int (mi_BlocksBehindAllowed i) :: i32) <s mi_BlocksBehind i"

definition agreementWindow :: "int \<Rightarrow> MiningSafetyInput \<Rightarrow> minerState \<Rightarrow> MiningSafetyInput \<times> minerState" where
  "agreementWindow now i s =
     (if mi_AgreeingPeerCount i < mi_MinAgreeingPeers i then
        let lost = (case mn_PeerAgreementLostSince s of None \<Rightarrow> now | Some t \<Rightarrow> t);
            s = s\<lparr>mn_PeerAgreementLostSince := Some lost, mn_PeerAgreementRecoveredSince := None\<rparr>;
            elapsed = now - lost
        in if elapsed < mi_PeerGraceSeconds i * second then
             (i\<lparr>mi_PeerAgreementGraceActive := True,
                mi_PeerAgreementGraceRemaining := toSeconds (mi_PeerGraceSeconds i * second - elapsed + second - 1)\<rparr>, s)
           else (i\<lparr>mi_PeerSafetyPauseActive := True\<rparr>, s\<lparr>mn_PeerAgreementPaused := True\<rparr>)
      else
        let s = s\<lparr>mn_PeerAgreementLostSince := None\<rparr>;
            recovered = (case mn_PeerAgreementRecoveredSince s of None \<Rightarrow> now | Some t \<Rightarrow> t);
            elapsed = now - recovered
        in if mn_PeerAgreementPaused s \<and> elapsed < mi_PeerRecoverySeconds i * second then
             (i\<lparr>mi_PeerAgreementRecoveryActive := True,
                mi_PeerAgreementRecoveryRemaining := toSeconds (mi_PeerRecoverySeconds i * second - elapsed + second - 1),
                mi_PeerSafetyPauseActive := True\<rparr>, s\<lparr>mn_PeerAgreementRecoveredSince := Some recovered\<rparr>)
           else (i, s\<lparr>mn_PeerAgreementRecoveredSince := None, mn_PeerAgreementPaused := False\<rparr>))"

definition applyMiningPeerAgreementWindow ::
    "BlockIndex option option \<Rightarrow> int \<Rightarrow> MiningSafetyInput \<Rightarrow> minerState \<Rightarrow> MiningSafetyInput \<times> minerState" where
  "applyMiningPeerAgreementWindow chain now i0 s =
     (let i = i0\<lparr>mi_MinAgreeingPeers := minAgreeingPeers i0, mi_PeerGraceSeconds := peerGraceSeconds i0,
                mi_PeerRecoverySeconds := peerRecoverySeconds i0\<rparr>
      in if immediateRisk i then (i, if mn_LocalBlockGraceActive s then clearGrace s else s)
         else (case applyLocalBlockPropagationGrace chain now (mi_MinAgreeingPeers i) i s of (denied, i, s) \<Rightarrow>
           if denied then (i, s) else agreementWindow now i s))"

text \<open>The end of \<open>checkSafeToMine\<close>, once the view is gathered.\<close>

definition guardedCheck :: "BlockIndex option option \<Rightarrow> int \<Rightarrow> MiningSafetyInput \<Rightarrow> minerState \<Rightarrow> MiningSafetyStatus \<times> minerState" where
  "guardedCheck chain now i s =
     (case applyMiningPeerAgreementWindow chain now i s of (i, s) \<Rightarrow> (CheckSafeToMine i, s))"

text \<open>A block the node found: announced to the peers of the moment, then the grace starts.\<close>

definition noteLocalBlock :: "int \<Rightarrow> int \<Rightarrow> int \<Rightarrow> string \<Rightarrow> i32 \<Rightarrow> minerState \<Rightarrow> minerState" where
  "noteLocalBlock announced now peers hash height s =
     s\<lparr>mn_LastLocalBlockAnnouncement := Some announced, mn_LocalBlockAnnouncementPeers := peers,
       mn_LocalBlockGraceActive := True, mn_LocalBlockGraceStartedAt := Some now,
       mn_LocalBlockGraceHeight := height, mn_LocalBlockGraceHash := hash\<rparr>"

text \<open>Safety checks in a row.\<close>

fun runChecks :: "BlockIndex option option \<Rightarrow> (int \<times> MiningSafetyInput) list \<Rightarrow> minerState \<Rightarrow> minerState" where
  "runChecks chain [] s = s"
| "runChecks chain ((now, i) # cs) s = runChecks chain cs (snd (guardedCheck chain now i s))"

section \<open>What the verdict depends on\<close>

text \<open>
  The view as \<open>checkSafeToMine\<close> gathers it: the flags of the grace periods are not set yet, and
  the good peers are the compatible ones.
\<close>

definition gathered :: "MiningSafetyInput \<Rightarrow> bool" where
  "gathered i \<longleftrightarrow> mi_GoodPeerCount i = mi_CompatiblePeerCount i \<and>
     \<not> mi_PeerAgreementGraceActive i \<and> \<not> mi_PeerAgreementRecoveryActive i \<and> \<not> mi_LocalBlockPropagationGraceActive i"

definition noOverride :: "MiningSafetyInput \<Rightarrow> bool" where
  "noOverride i \<longleftrightarrow> mi_SafeRequired i \<or> \<not> mi_AllowUnsafe i"

text \<open>The flags the windows set and the defaults they fill in.\<close>

lemmas window_defs = applyMiningPeerAgreementWindow_def applyLocalBlockPropagationGrace_def agreementWindow_def
  guardedCheck_def Let_def

lemmas view_simps = PeerView.select_convs TemplateView.select_convs GraceView.select_convs MiningSafetyInput.select_convs
  PeerView.update_convs TemplateView.update_convs GraceView.update_convs MiningSafetyInput.update_convs

lemmas view_defs = firstGates_def finalGates_def rpcHealth_def syncState_def blocksBehind_def blocksBehindAllowed_def
  agreeingPeers_def normalPropagation_def wrongHeight_def wrongPrev_def tooOld_def totalBlocks_def staleRate_def
  minAgreeingPeers_def

lemma templateStatus_keeps [simp]:
  "ms_Safe (templateStatus i s) = ms_Safe s" "ms_State (templateStatus i s) = ms_State s" "ms_Reason (templateStatus i s) = ms_Reason s"
  by (simp_all add: templateStatus_def Let_def)

lemma agreementStatus_keeps [simp]:
  "ms_Safe (agreementStatus i s) = ms_Safe s" "ms_State (agreementStatus i s) = ms_State s" "ms_Reason (agreementStatus i s) = ms_Reason s"
  by (simp_all add: agreementStatus_def)

lemma blockMining_simps [simp]:
  "\<not> ms_Safe (blockMining r s)" "ms_State (blockMining r s) = ''unsafe''" "ms_Reason (blockMining r s) = r"
  by (simp_all add: blockMining_def)

lemma initialStatus_simps [simp]:
  "ms_Safe (initialStatus i)" "ms_State (initialStatus i) = ''safe''" "ms_Reason (initialStatus i) = []"
  by (simp_all add: initialStatus_def)

lemma minAgreeingPeers_pos: "0 < minAgreeingPeers i"
  by (simp add: minAgreeingPeers_def)

text \<open>When the verdict is safe.\<close>

lemma Safe_iff:
  assumes "noOverride i"
  shows "ms_Safe (CheckSafeToMine i) \<longleftrightarrow> firstGates i = None \<and>
    (if agreeingPeers i < minAgreeingPeers i
     then normalPropagation i \<or> mi_LocalBlockPropagationGraceActive i \<or> mi_PeerAgreementGraceActive i
     else finalGates i = None)"
  using assms minAgreeingPeers_pos [of i] by (auto simp: CheckSafeToMine_def noOverride_def Let_def split: option.splits)

lemma State_degraded_iff:
  assumes "noOverride i"
  shows "ms_State (CheckSafeToMine i) = ''degraded'' \<longleftrightarrow> firstGates i = None \<and> agreeingPeers i < minAgreeingPeers i \<and>
    (normalPropagation i \<or> mi_LocalBlockPropagationGraceActive i \<or> mi_PeerAgreementGraceActive i)"
  using assms minAgreeingPeers_pos [of i] by (auto simp: CheckSafeToMine_def noOverride_def Let_def split: option.splits)

text \<open>A passed first row of checks.\<close>

lemma firstGates_None:
  "firstGates i = None \<Longrightarrow> rpcHealth i \<notin> {''timeout'', ''offline''} \<and> mi_StorageOK i \<and> mi_DestinationOK i \<and>
     mi_PeerCount i \<noteq> 0 \<and> mi_StrongerChainworkPeerCount i \<le> 0 \<and> mi_ConflictingTipPeerCount i \<le> 0 \<and>
     mi_WrongChainPeerCount i \<le> 0 \<and> mi_ProtocolErrorPeerCount i \<le> 0 \<and>
     blocksBehind i \<le>s word_of_int (blocksBehindAllowed i) \<and>
     syncState i \<notin> {''no_peers'', ''offline'', ''catching_up'', ''requesting_blocks'', ''possibly_stalled'', ''stalled'', ''unknown''}"
  by (auto simp: firstGates_def Let_def word_sless_alt word_sle_eq split: if_splits)

lemma finalGates_None:
  "finalGates i = None \<longleftrightarrow> \<not> mi_NoUsefulChainData i \<and> \<not> mi_RecentReorg i \<and> \<not> mi_PeerSplit i \<and>
     (mi_HasActiveTemplate i \<longrightarrow> mi_ActiveTemplateFresh i) \<and> \<not> wrongHeight i \<and> \<not> wrongPrev i \<and> \<not> tooOld i \<and>
     \<not> mi_StaleRatePauseActive i \<and> \<not> (0 <s totalBlocks i \<and> staleRate i \<ge> float64 (1 / 2))"
  by (auto simp: finalGates_def Let_def)

section \<open>What the windows change\<close>

text \<open>They set flags and fill in defaults; the rest of the verdict's inputs stay.\<close>

definition same_view :: "MiningSafetyInput \<Rightarrow> MiningSafetyInput \<Rightarrow> bool" where
  "same_view i j \<longleftrightarrow> firstGates j = firstGates i \<and> finalGates j = finalGates i \<and> agreeingPeers j = agreeingPeers i \<and>
     minAgreeingPeers j = minAgreeingPeers i \<and> normalPropagation j = normalPropagation i \<and> noOverride j = noOverride i \<and>
     mi_AgreeingPeerCount j = mi_AgreeingPeerCount i \<and> immediateRisk j = immediateRisk i"

lemma same_view_refl [simp]: "same_view i i"
  by (simp add: same_view_def)

lemma same_view_trans [trans]: "same_view i j \<Longrightarrow> same_view j k \<Longrightarrow> same_view i k"
  by (simp add: same_view_def)

lemma same_view_risk: "same_view i j \<Longrightarrow> immediateRisk j = immediateRisk i"
  by (simp add: same_view_def)

lemma same_view_flags:
  "same_view i (i\<lparr>mi_PeerAgreementGraceActive := b, mi_PeerAgreementGraceRemaining := n\<rparr>)"
  "same_view i (i\<lparr>mi_PeerSafetyPauseActive := b\<rparr>)"
  "same_view i (i\<lparr>mi_PeerAgreementRecoveryActive := b, mi_PeerAgreementRecoveryRemaining := n, mi_PeerSafetyPauseActive := c\<rparr>)"
  "same_view i (i\<lparr>mi_LocalBlockPropagationGraceRemaining := n\<rparr>)"
  "same_view i (i\<lparr>mi_LocalBlockPropagationGraceActive := b, mi_LocalBlockPropagationGraceRemaining := n,
     mi_LocalBlockPropagationHeight := h, mi_LocalBlockPropagationHash := x,
     mi_LastLocalBlockAnnouncementTime := t, mi_LocalBlockAnnouncementTargetCount := m\<rparr>)"
  by (cases i, simp only: same_view_def view_defs noOverride_def immediateRisk_def view_simps)+

lemma same_view_defaults:
  "same_view i (i\<lparr>mi_MinAgreeingPeers := minAgreeingPeers i, mi_PeerGraceSeconds := g, mi_PeerRecoverySeconds := r\<rparr>)"
proof -
  have "(if (if n \<le> 0 then 2 else n) \<le> 0 then 2 else if n \<le> 0 then 2 else n) = (if n \<le> 0 then 2 else n)" for n :: int
    by simp
  then show ?thesis
    by (cases i, simp only: same_view_def view_defs noOverride_def immediateRisk_def view_simps)
qed

lemma agreementWindow_view: "agreementWindow now i s = (j, s') \<Longrightarrow> same_view i j"
  by (auto simp: agreementWindow_def Let_def same_view_flags split: if_splits)

lemma grace_view: "applyLocalBlockPropagationGrace chain now m i s = (d, j, s') \<Longrightarrow> same_view i j"
  by (auto simp: applyLocalBlockPropagationGrace_def Let_def same_view_flags split: if_splits option.splits)

lemma window_view: "applyMiningPeerAgreementWindow chain now i s = (j, s') \<Longrightarrow> same_view i j"
  using same_view_defaults [where i = i and g = "peerGraceSeconds i" and r = "peerRecoverySeconds i"]
  by (auto simp: applyMiningPeerAgreementWindow_def Let_def split: if_splits prod.splits
      intro: same_view_trans dest!: grace_view agreementWindow_view)

text \<open>Enough peers agree: what the server remembers does not matter.\<close>

lemma window_agreeing:
  assumes "gathered i" "noOverride i" "minAgreeingPeers i \<le> mi_AgreeingPeerCount i"
  shows "ms_Safe (fst (guardedCheck chain now i s)) = ms_Safe (CheckSafeToMine i)"
proof -
  obtain j s' where w: "applyMiningPeerAgreementWindow chain now i s = (j, s')" by fastforce
  note v = window_view [OF w]
  have "\<not> agreeingPeers i < minAgreeingPeers i"
    using assms minAgreeingPeers_pos [of i] by (auto simp: agreeingPeers_def)
  moreover have "noOverride j" using v assms(2) by (simp add: same_view_def)
  ultimately show ?thesis
    using v Safe_iff [OF assms(2)] Safe_iff [of j] by (simp add: guardedCheck_def w same_view_def)
qed

text \<open>A view with too few agreeing peers and nothing else that lets mining go on.\<close>

definition low :: "MiningSafetyInput \<Rightarrow> bool" where
  "low i \<longleftrightarrow> gathered i \<and> noOverride i \<and> mi_AgreeingPeerCount i < minAgreeingPeers i \<and> \<not> normalPropagation i"

text \<open>Since when the agreement has been lost, at the end of a check.\<close>

abbreviation lostAt :: "int \<Rightarrow> minerState \<Rightarrow> int" where
  "lostAt now s \<equiv> (case mn_PeerAgreementLostSince s of None \<Rightarrow> now | Some t \<Rightarrow> t)"

lemma low_agreeingPeers: "low i \<Longrightarrow> agreeingPeers i = mi_AgreeingPeerCount i"
  by (auto simp: low_def gathered_def agreeingPeers_def)

lemma low_verdict:
  assumes "low i" "same_view i j"
  shows "ms_Safe (CheckSafeToMine j) \<longleftrightarrow> firstGates i = None \<and>
      (mi_LocalBlockPropagationGraceActive j \<or> mi_PeerAgreementGraceActive j)"
    and "ms_State (CheckSafeToMine j) = ''degraded'' \<longleftrightarrow> firstGates i = None \<and>
      (mi_LocalBlockPropagationGraceActive j \<or> mi_PeerAgreementGraceActive j)"
  using assms low_agreeingPeers [OF assms(1)] Safe_iff [of j] State_degraded_iff [of j]
  by (auto simp: low_def same_view_def)

lemma check_low:
  assumes "low i" "\<not> mn_LocalBlockGraceActive s" "guardedCheck chain now i s = (st, s')"
  shows "\<not> mn_LocalBlockGraceActive s' \<and>
    (if immediateRisk i then s' = s \<and> \<not> ms_Safe st
     else mn_PeerAgreementLostSince s' = Some (lostAt now s) \<and>
       (ms_Safe st \<longleftrightarrow> firstGates i = None \<and> now - lostAt now s < peerGraceSeconds i * second) \<and>
       (ms_State st = ''degraded'' \<longleftrightarrow> ms_Safe st))"
proof -
  let ?i = "i\<lparr>mi_MinAgreeingPeers := minAgreeingPeers i, mi_PeerGraceSeconds := peerGraceSeconds i,
                mi_PeerRecoverySeconds := peerRecoverySeconds i\<rparr>"
  have v: "same_view i ?i" by (rule same_view_defaults)
  have flags: "\<not> mi_PeerAgreementGraceActive ?i" "\<not> mi_LocalBlockPropagationGraceActive ?i" "mi_AgreeingPeerCount i < minAgreeingPeers i"
    using assms(1) by (auto simp: low_def gathered_def)
  obtain j where w: "applyMiningPeerAgreementWindow chain now i s = (j, s')" and st: "st = CheckSafeToMine j"
    using assms(3) by (auto simp: guardedCheck_def split: prod.splits)
  note verdict = low_verdict [OF assms(1) window_view [OF w]]
  show ?thesis
  proof (cases "immediateRisk i")
    case True
    then have "immediateRisk ?i" using same_view_risk [OF v] by blast
    then have "j = ?i" "s' = s" using w assms(2) by (simp_all add: applyMiningPeerAgreementWindow_def Let_def)
    with True verdict(1) flags assms(2) st show ?thesis by simp
  next
    case False
    then have "\<not> immediateRisk ?i" using same_view_risk [OF v] by blast
    then have "agreementWindow now ?i s = (j, s')"
      using w assms(2) by (simp add: applyMiningPeerAgreementWindow_def applyLocalBlockPropagationGrace_def Let_def)
    then have "mn_PeerAgreementLostSince s' = Some (lostAt now s) \<and> \<not> mn_LocalBlockGraceActive s' \<and>
        \<not> mi_LocalBlockPropagationGraceActive j \<and> (mi_PeerAgreementGraceActive j \<longleftrightarrow> now - lostAt now s < peerGraceSeconds i * second)"
      using flags assms(2) by (auto simp: agreementWindow_def Let_def split: if_splits)
    with False verdict st show ?thesis by simp
  qed
qed

lemma low_run:
  assumes "\<not> mn_LocalBlockGraceActive s" "\<forall>(t, i)\<in>set cs. low i" "mn_PeerAgreementLostSince s = Some l"
  shows "\<not> mn_LocalBlockGraceActive (runChecks chain cs s) \<and> mn_PeerAgreementLostSince (runChecks chain cs s) = Some l"
  using assms
proof (induction cs arbitrary: s)
  case (Cons c cs)
  obtain t i where c: "c = (t, i)" by (cases c)
  obtain st s' where g: "guardedCheck chain t i s = (st, s')" by fastforce
  from Cons.prems(2) c have "low i" by auto
  from check_low [OF this Cons.prems(1) g] Cons.prems(3)
  have "\<not> mn_LocalBlockGraceActive s'" "mn_PeerAgreementLostSince s' = Some l" by (auto split: if_splits)
  from Cons.IH [OF this(1) _ this(2)] Cons.prems(2) c g show ?case by simp
qed simp

lemma peer_grace_ends:
  assumes "\<not> mn_LocalBlockGraceActive s" "mn_PeerAgreementLostSince s \<in> {None} \<union> Some ` {..t0}"
    and "low i0" "\<not> immediateRisk i0" "\<forall>(t, i)\<in>set cs. low i" "low i" "t0 + peerGraceSeconds i * second \<le> now"
  shows "\<not> ms_Safe (fst (guardedCheck chain now i (runChecks chain ((t0, i0) # cs) s)))"
proof -
  obtain st s1 where g: "guardedCheck chain t0 i0 s = (st, s1)" by fastforce
  from check_low [OF assms(3,1) g] assms(4) have s1: "\<not> mn_LocalBlockGraceActive s1" "mn_PeerAgreementLostSince s1 = Some (lostAt t0 s)"
    by simp_all
  have l: "lostAt t0 s \<le> t0" using assms(2) by auto
  obtain st' s2 where g2: "guardedCheck chain now i (runChecks chain cs s1) = (st', s2)" by fastforce
  note r = low_run [OF s1(1) assms(5) s1(2), of chain]
  from check_low [OF assms(6) conjunct1 [OF r] g2] r l assms(7) have "\<not> ms_Safe st'"
    by (auto split: if_splits)
  then show ?thesis by (simp add: g g2)
qed

text \<open>A denied grace is forgotten with the check that denies it.\<close>

lemma denied_once:
  assumes "low i" "\<not> immediateRisk i" "firstGates i = None" "mn_LocalBlockGraceActive s"
    and "chain = Some (Some tip)" "ix_Hash tip \<noteq> mn_LocalBlockGraceHash s"
    and "now \<le> now'" "now' - lostAt now' s < peerGraceSeconds i * second"
  shows "\<not> ms_Safe (fst (guardedCheck chain now i s)) \<and>
    ms_Safe (fst (guardedCheck chain now' i (snd (guardedCheck chain now i s)))) \<and>
    ms_State (fst (guardedCheck chain now' i (snd (guardedCheck chain now i s)))) = ''degraded''"
proof -
  let ?i = "i\<lparr>mi_MinAgreeingPeers := minAgreeingPeers i, mi_PeerGraceSeconds := peerGraceSeconds i,
                mi_PeerRecoverySeconds := peerRecoverySeconds i\<rparr>"
  have v: "same_view i ?i" by (rule same_view_defaults)
  then have risk: "\<not> immediateRisk ?i" using assms(2) same_view_risk [OF v] by blast
  obtain j s1 where w: "applyMiningPeerAgreementWindow chain now i s = (j, s1)" by fastforce
  from w risk assms(4-6) have s1: "s1 = clearGrace s"
    and j: "\<not> mi_PeerAgreementGraceActive j" "\<not> mi_LocalBlockPropagationGraceActive j"
    using assms(1) by (auto simp: applyMiningPeerAgreementWindow_def applyLocalBlockPropagationGrace_def Let_def
        low_def gathered_def split: if_splits)
  have first: "\<not> ms_Safe (fst (guardedCheck chain now i s))"
    using low_verdict(1) [OF assms(1) window_view [OF w]] j by (simp add: guardedCheck_def w)
  have g: "\<not> mn_LocalBlockGraceActive s1" "mn_PeerAgreementLostSince s1 = mn_PeerAgreementLostSince s"
    by (simp_all add: s1 clearGrace_def)
  obtain st s2 where c: "guardedCheck chain now' i s1 = (st, s2)" by fastforce
  from check_low [OF assms(1) g(1) c] assms(2,3,8) g(2) have "ms_Safe st \<and> ms_State st = ''degraded''" by simp
  with first show ?thesis by (simp add: guardedCheck_def w) (use c in \<open>simp add: guardedCheck_def\<close>)
qed

end
