(* ===== verification/GuardProperties.thy ===== *)
theory GuardProperties
  imports MiningRate MiningGuard
begin

text \<open>Properties of the decision whether the node may mine, and of its grace periods.\<close>

section \<open>A sample view\<close>

definition view0 :: MiningSafetyInput where
  "view0 = \<lparr>mi_PeerCount = 3, mi_GoodPeerCount = 1, mi_AgreeingPeerCount = 1, mi_CompatiblePeerCount = 1,
     mi_Lagging1PeerCount = 0, mi_ConflictingTipPeerCount = 0, mi_StrongerChainworkPeerCount = 0,
     mi_WrongChainPeerCount = 0, mi_ProtocolErrorPeerCount = 0, mi_StalePeerCount = 0,
     mi_LocalHeight = 7, mi_BestPeerHeight = 7, mi_BlocksBehind = 0, mi_SyncState = ''current'',
     mi_RequestInFlight = False, mi_NoUsefulChainData = False, mi_RecentReorg = False, mi_PeerSplit = False,
     mi_HasActiveTemplate = False, mi_ActiveTemplateFresh = False, mi_ActiveTemplateRefreshDue = False,
     mi_ActiveTemplateStaleReason = [], mi_ActiveTemplateRefreshReason = [], mi_ActiveTemplatePrevHash = [],
     mi_CurrentTipHash = ''aa'', mi_TemplateAgeSeconds = -1, mi_CurrentTemplateHeight = 8, mi_CurrentTipHeight = 7,
     mi_TemplateMaxAgeSeconds = 0, mi_AcceptedBlocks = 1, mi_StaleBlocks = 0, mi_RejectedBlocks = 0,
     mi_StaleRatePauseActive = False,
     mi_PeerAgreementGraceActive = False, mi_PeerAgreementGraceRemaining = 0, mi_PeerAgreementRecoveryActive = False,
     mi_PeerAgreementRecoveryRemaining = 0, mi_PeerSafetyPauseActive = False, mi_LocalBlockPropagationGraceActive = False,
     mi_LocalBlockPropagationGraceRemaining = 0, mi_LocalBlockPropagationHeight = 0, mi_LocalBlockPropagationHash = [],
     mi_LastLocalBlockAnnouncementTime = 0, mi_LocalBlockAnnouncementTargetCount = 0,
     mi_RPCHealth = ''ok'', mi_StorageOK = True, mi_StorageError = [], mi_DestinationOK = True, mi_DestinationError = [],
     mi_SafeRequired = True, mi_AllowUnsafe = False, mi_MinAgreeingPeers = 2, mi_PeerGraceSeconds = 90,
     mi_PeerRecoverySeconds = 30, mi_BlocksBehindAllowed = 1\<rparr>"

definition miner0 :: minerState where
  "miner0 = \<lparr>mn_PeerAgreementLostSince = None, mn_PeerAgreementRecoveredSince = None, mn_PeerAgreementPaused = False,
     mn_LocalBlockGraceActive = False, mn_LocalBlockGraceStartedAt = None, mn_LocalBlockGraceHash = [],
     mn_LocalBlockGraceHeight = 0, mn_LastLocalBlockAnnouncement = None, mn_LocalBlockAnnouncementPeers = 0\<rparr>"

lemma view0_syncState: "syncState (view0\<lparr>mi_AgreeingPeerCount := n, mi_RecentReorg := r\<rparr>) = ''current''"
proof -
  have "ToLowerASCII (TrimSpace ''current'') = ''current''" by code_simp
  then show ?thesis by (simp add: syncState_def view0_def)
qed

lemma view0_rpcHealth: "rpcHealth (view0\<lparr>mi_AgreeingPeerCount := n, mi_RecentReorg := r\<rparr>) = ''ok''"
proof -
  have "ToLowerASCII (TrimSpace ''ok'') = ''ok''" by code_simp
  then show ?thesis by (simp add: rpcHealth_def view0_def)
qed

lemma view0_gates: "firstGates (view0\<lparr>mi_AgreeingPeerCount := n, mi_RecentReorg := r\<rparr>) = None"
  unfolding firstGates_def view0_syncState view0_rpcHealth
  by (simp add: view0_def blocksBehind_def blocksBehindAllowed_def word_sless_alt)

lemma view0_first: "firstGates view0 = None"
  using view0_gates [where n = 1 and r = False] by (simp add: view0_def)

lemma view0_low: "low view0" "\<not> immediateRisk view0"
  by (simp_all add: low_def gathered_def noOverride_def minAgreeingPeers_def normalPropagation_def view0_def immediateRisk_def word_sless_alt)

section \<open>The decision\<close>

text \<open>
  C24. Mining is allowed only on a healthy node: without the expert override, a safe verdict means
  that RPC and storage work, the reward has an owner, there are peers, none reports a stronger
  chain, a conflicting tip, another chain or a protocol error, and the node is not behind;
  and either enough peers agree, the chain is stable and the template is fresh, for the next
  height, on the tip and young enough, or the state is marked degraded.
\<close>

theorem safe_to_mine:
  assumes "noOverride i" "ms_Safe (CheckSafeToMine i)"
  shows "rpcHealth i \<notin> {''timeout'', ''offline''} \<and> mi_StorageOK i \<and> mi_DestinationOK i \<and> mi_PeerCount i \<noteq> 0 \<and>
    mi_StrongerChainworkPeerCount i \<le> 0 \<and> mi_ConflictingTipPeerCount i \<le> 0 \<and> mi_WrongChainPeerCount i \<le> 0 \<and>
    mi_ProtocolErrorPeerCount i \<le> 0 \<and> blocksBehind i \<le>s word_of_int (blocksBehindAllowed i) \<and>
    syncState i \<notin> {''no_peers'', ''offline'', ''catching_up'', ''requesting_blocks'', ''possibly_stalled'', ''stalled'', ''unknown''} \<and>
    (if ms_State (CheckSafeToMine i) = ''degraded''
     then agreeingPeers i < minAgreeingPeers i \<and>
       (normalPropagation i \<or> mi_LocalBlockPropagationGraceActive i \<or> mi_PeerAgreementGraceActive i)
     else minAgreeingPeers i \<le> agreeingPeers i \<and> \<not> mi_NoUsefulChainData i \<and> \<not> mi_RecentReorg i \<and> \<not> mi_PeerSplit i \<and>
       (mi_HasActiveTemplate i \<longrightarrow> mi_ActiveTemplateFresh i) \<and> \<not> wrongHeight i \<and> \<not> wrongPrev i \<and> \<not> tooOld i \<and>
       \<not> mi_StaleRatePauseActive i)"
proof -
  have f: "firstGates i = None" using assms Safe_iff [OF assms(1)] by simp
  note firstGates_None [OF f]
  moreover have "if ms_State (CheckSafeToMine i) = ''degraded''
     then agreeingPeers i < minAgreeingPeers i \<and>
       (normalPropagation i \<or> mi_LocalBlockPropagationGraceActive i \<or> mi_PeerAgreementGraceActive i)
     else minAgreeingPeers i \<le> agreeingPeers i \<and> finalGates i = None"
    using assms(2) f Safe_iff [OF assms(1)] State_degraded_iff [OF assms(1)] by (auto split: if_splits)
  ultimately show ?thesis unfolding finalGates_None by auto
qed

theorem safe_to_mine_witness:
  "ms_Safe (CheckSafeToMine (view0\<lparr>mi_AgreeingPeerCount := 2, mi_RecentReorg := False\<rparr>)) \<and>
   mi_PeerCount (view0\<lparr>mi_AgreeingPeerCount := 2, mi_RecentReorg := False\<rparr>) \<noteq> 0"
proof -
  let ?v = "view0\<lparr>mi_AgreeingPeerCount := 2, mi_RecentReorg := False\<rparr>"
  have "float64 0 = 0" "float64 1 = 1" using float64_int [of 0] float64_int [of 1] by simp_all
  then have "finalGates ?v = None" unfolding finalGates_None
    by (simp add: view0_def wrongHeight_def wrongPrev_def tooOld_def totalBlocks_def staleRate_def float64_half)
  moreover have "noOverride ?v" "agreeingPeers ?v = 2" "minAgreeingPeers ?v = 2"
    by (simp_all add: view0_def noOverride_def agreeingPeers_def minAgreeingPeers_def)
  ultimately have "ms_Safe (CheckSafeToMine ?v)" using Safe_iff [of ?v] view0_gates by simp
  with safe_to_mine [OF \<open>noOverride ?v\<close>] show ?thesis by blast
qed

text \<open>
  A degraded node skips the template checks: while too few peers agree and a grace period or
  normal propagation keeps mining going, the verdict is safe even though a check of the
  second row fails, such as a stale template, a recent reorganisation, split peers or too high a
  stale rate; when more peers agree, the same view is unsafe.
\<close>

theorem degraded_skips_checks:
  assumes "noOverride i" "firstGates i = None" "finalGates i = Some reason" "agreeingPeers i < minAgreeingPeers i"
    and "normalPropagation i \<or> mi_LocalBlockPropagationGraceActive i \<or> mi_PeerAgreementGraceActive i"
    and "minAgreeingPeers i \<le> n"
  shows "ms_Safe (CheckSafeToMine i) \<and> ms_Reason (CheckSafeToMine (i\<lparr>mi_AgreeingPeerCount := n\<rparr>)) = reason \<and>
    \<not> ms_Safe (CheckSafeToMine (i\<lparr>mi_AgreeingPeerCount := n\<rparr>))"
proof -
  let ?j = "i\<lparr>mi_AgreeingPeerCount := n\<rparr>"
  have gates: "firstGates ?j = firstGates i" "finalGates ?j = finalGates i"
    by (cases i, simp only: view_defs view_simps)+
  moreover have "0 < n" using minAgreeingPeers_pos [of i] assms(6) by simp
  then have "agreeingPeers ?j = n" "minAgreeingPeers ?j = minAgreeingPeers i" "noOverride ?j"
    using assms(1) by (simp_all add: agreeingPeers_def minAgreeingPeers_def noOverride_def)
  ultimately show ?thesis
    using assms Safe_iff [OF assms(1)] Safe_iff [of ?j]
    by (simp add: CheckSafeToMine_def noOverride_def Let_def) auto
qed

theorem degraded_skips_checks_witness:
  "ms_Safe (CheckSafeToMine (view0\<lparr>mi_RecentReorg := True, mi_PeerAgreementGraceActive := True\<rparr>)) \<and>
   \<not> ms_Safe (CheckSafeToMine (view0\<lparr>mi_RecentReorg := True, mi_PeerAgreementGraceActive := True, mi_AgreeingPeerCount := 2\<rparr>))"
proof -
  let ?v = "view0\<lparr>mi_RecentReorg := True, mi_PeerAgreementGraceActive := True\<rparr>"
  have "?v = view0\<lparr>mi_AgreeingPeerCount := 1, mi_RecentReorg := True\<rparr>\<lparr>mi_PeerAgreementGraceActive := True, mi_PeerAgreementGraceRemaining := 0\<rparr>"
    by (simp add: view0_def)
  then have "firstGates ?v = None"
    using same_view_flags(1) [where i = "view0\<lparr>mi_AgreeingPeerCount := 1, mi_RecentReorg := True\<rparr>" and b = True and n = 0] view0_gates
    by (simp only: same_view_def)
  moreover have "finalGates ?v = Some ''Mining blocked: recent reorg detected; waiting for chain stability.''"
    by (simp add: finalGates_def view0_def)
  ultimately show ?thesis
    using degraded_skips_checks [of ?v _ 2] by (simp add: noOverride_def agreeingPeers_def minAgreeingPeers_def view0_def)
qed

text \<open>
  The pause for a high stale rate is exact: for counts below \<open>2 ^ 53\<close> the comparison of the
  rounded quotient of floating-point numbers with one half is the comparison of the counts.
\<close>

theorem stale_rate_pause:
  assumes "0 < sint (totalBlocks i)" "sint (totalBlocks i) < 2 ^ 53" "0 \<le> sint (mi_StaleBlocks i)" "sint (mi_StaleBlocks i) < 2 ^ 53"
  shows "staleRate i \<ge> float64 (1 / 2) \<longleftrightarrow> sint (totalBlocks i) \<le> 2 * sint (mi_StaleBlocks i)"
  by (rule stale_pause_exact [OF assms])

theorem stale_rate_pause_witness:
  "staleRate (view0\<lparr>mi_AcceptedBlocks := 2, mi_StaleBlocks := 3\<rparr>) \<ge> float64 (1 / 2)"
  using stale_rate_pause [of "view0\<lparr>mi_AcceptedBlocks := 2, mi_StaleBlocks := 3\<rparr>"]
  by (simp add: totalBlocks_def view0_def)

section \<open>The grace periods\<close>

text \<open>
  C25. The grace of lost agreement is bounded, where it is what lets mining go on. Call a view
  \<open>low\<close> when there are fewer agreeing peers than required, no normal propagation (that is, not
  at least one agreeing and one peer just one block behind, with enough compatible peers, none
  in conflict, stronger, of another chain, in error or stale, chain data of use and the node no
  more behind than allowed), no override by configuration, good peers counted as the compatible
  ones, and no grace or recovery flag set from outside. Suppose no local block is in its propagation grace, a check at
  \<open>t0\<close> is the first with a low view (or agreement was lost earlier) and shows no immediate risk,
  and every view since is low. Then mining is not allowed at any check that is the grace period
  or more after \<open>t0\<close>, however many checks there were. In normal propagation, in the grace of a
  local block and under an override the code goes on mining with too few agreeing peers, and
  this theorem does not bound that.
\<close>

theorem peer_grace_bounded:
  assumes "\<not> mn_LocalBlockGraceActive s" "mn_PeerAgreementLostSince s \<in> {None} \<union> Some ` {..t0}"
    and "low i0" "\<not> immediateRisk i0" "\<forall>(t, i)\<in>set cs. low i" "low i" "t0 + peerGraceSeconds i * second \<le> now"
  shows "\<not> ms_Safe (fst (guardedCheck chain now i (runChecks chain ((t0, i0) # cs) s)))"
  by (rule peer_grace_ends [OF assms])

theorem peer_grace_bounded_witness:
  "\<not> ms_Safe (fst (guardedCheck None (91 * second) view0 (runChecks None [(0, view0), (50 * second, view0)] miner0)))"
  using peer_grace_bounded [of miner0 0 view0 "[(50 * second, view0)]" view0 "91 * second" None] view0_low
  by (simp add: miner0_def peerGraceSeconds_def) (simp add: view0_def second_def)

text \<open>
  The recovery period never pauses mining. As soon as enough peers agree, the verdict is that
  of the view alone, whatever the server remembers: also when it has paused and the recovery
  seconds have just begun.
\<close>

theorem recovery_never_pauses:
  assumes "gathered i" "noOverride i" "minAgreeingPeers i \<le> mi_AgreeingPeerCount i"
  shows "ms_Safe (fst (guardedCheck chain now i s)) = ms_Safe (CheckSafeToMine i)"
  by (rule window_agreeing [OF assms])

theorem recovery_never_pauses_witness:
  "ms_Safe (fst (guardedCheck None 0 (view0\<lparr>mi_AgreeingPeerCount := 2\<rparr>) (miner0\<lparr>mn_PeerAgreementPaused := True\<rparr>))) =
   ms_Safe (fst (guardedCheck None 0 (view0\<lparr>mi_AgreeingPeerCount := 2\<rparr>) miner0))"
proof -
  let ?v = "view0\<lparr>mi_AgreeingPeerCount := 2\<rparr>"
  have "gathered ?v" "noOverride ?v" "minAgreeingPeers ?v \<le> mi_AgreeingPeerCount ?v"
    by (simp_all add: gathered_def noOverride_def minAgreeingPeers_def view0_def)
  then show ?thesis using recovery_never_pauses [of ?v None 0] by simp
qed

text \<open>
  A denied grace comes back as another one. When the block whose propagation the node is
  waiting for is no longer the tip, the check that notices pauses mining, but the next check,
  at the same moment or later while the peer grace lasts, allows it again as degraded.
\<close>

theorem denied_grace_returns:
  assumes "low i" "\<not> immediateRisk i" "firstGates i = None" "mn_LocalBlockGraceActive s"
    and "chain = Some (Some tip)" "ix_Hash tip \<noteq> mn_LocalBlockGraceHash s"
    and "now \<le> now'" "now' - lostAt now' s < peerGraceSeconds i * second"
  shows "\<not> ms_Safe (fst (guardedCheck chain now i s)) \<and>
    ms_Safe (fst (guardedCheck chain now' i (snd (guardedCheck chain now i s)))) \<and>
    ms_State (fst (guardedCheck chain now' i (snd (guardedCheck chain now i s)))) = ''degraded''"
  by (rule denied_once [OF assms])

definition tipA :: BlockIndex where
  "tipA = \<lparr>ix_Height = 7, ix_Hash = ''aa'', ix_Time = 0, ix_Bits = 0, ix_Nonce = 0, ix_Parent = [], ix_ChainWork = []\<rparr>"

theorem denied_grace_returns_witness:
  "let s = noteLocalBlock 0 0 3 ''bb'' 7 miner0 in
   \<not> ms_Safe (fst (guardedCheck (Some (Some tipA)) 5 view0 s)) \<and>
   ms_Safe (fst (guardedCheck (Some (Some tipA)) 5 view0 (snd (guardedCheck (Some (Some tipA)) 5 view0 s))))"
  using denied_grace_returns [of view0 "noteLocalBlock 0 0 3 ''bb'' 7 miner0" "Some (Some tipA)" tipA 5 5] view0_low view0_first
  by (simp add: noteLocalBlock_def miner0_def tipA_def peerGraceSeconds_def second_def Let_def)

end
