(* ===== verification/Tokens.thy ===== *)
theory Tokens
  imports ScriptTemplates MiningSafety
begin

text \<open>
  Token operations and the bonding curve (\<^verbatim>\<open>internal/tokens/tokens.go\<close>, \<^verbatim>\<open>curve.go\<close>). Texts are ASCII.
  JSON encoding and the parser of \<open>big.Rat\<close>, which also reads fractions, exponents and other
  bases, are arguments; nothing is assumed of them. A division by zero panics.
\<close>

section \<open>Operations\<close>

record Operation =
  to_Protocol :: string
  to_Op :: string
  to_TokenID :: string
  to_Name :: string
  to_Ticker :: string
  to_Description :: string
  to_ImageURL :: string
  to_Website :: string
  to_XURL :: string
  to_TelegramURL :: string
  to_DiscordURL :: string
  to_Creator :: string
  to_From :: string
  to_To :: string
  to_Supply :: string
  to_Amount :: string
  to_LBTCAmount :: string
  to_Decimals :: int
  to_Mode :: string
  to_VirtualLBTC :: string
  to_VirtualToken :: string
  to_GraduationLBTC :: string
  to_DeployFeeLBTC :: string
  to_TradeFeeBPS :: int
  to_FeeAddress :: string

datatype token_error =
    TkProtocol | TkName | TkTicker | TkDescription | TkDecimals | TkCreatorSupply
  | TkURLLength string | TkURLScheme string | TkCurveFields | TkTradeFee | TkTransferFields | TkBurnFields
  | TkBuyFields | TkSellFields | TkUnsupported string | TkMarshal | TkTooLarge | TkTooManyChunks | TkScript script_error

definition Magic :: string where "Magic = ''LTK1''"
definition ChunkData :: nat where "ChunkData = 14"
definition MaxChunks :: nat where "MaxChunks = 64"
definition MaxJSONSize :: nat where "MaxJSONSize = ChunkData * MaxChunks"
definition MaxDesc :: nat where "MaxDesc = 160"
definition MaxURL :: nat where "MaxURL = 180"

definition ToUpperASCII :: "string \<Rightarrow> string" where
  "ToUpperASCII s = List.map (\<lambda>c. if (97::nat) \<le> of_char c \<and> of_char c \<le> (122::nat) then char_of (of_char c - 32 :: nat) else c) s"

definition is_upper :: "char \<Rightarrow> bool" where
  "is_upper c \<longleftrightarrow> (65::nat) \<le> of_char c \<and> of_char c \<le> (90::nat)"

definition is_lower :: "char \<Rightarrow> bool" where
  "is_lower c \<longleftrightarrow> (97::nat) \<le> of_char c \<and> of_char c \<le> (122::nat)"

definition nameRE :: "string \<Rightarrow> bool" where
  "nameRE s \<longleftrightarrow> 1 \<le> length s \<and> length s \<le> 40 \<and>
     list_all (\<lambda>c. is_upper c \<or> is_lower c \<or> is_digit c \<or> c \<in> set '' ._-'') s"

definition tickerRE :: "string \<Rightarrow> bool" where
  "tickerRE s \<longleftrightarrow> 2 \<le> length s \<and> length s \<le> 12 \<and> list_all (\<lambda>c. is_upper c \<or> is_digit c) s"

definition Normalize :: "Operation \<Rightarrow> string \<Rightarrow> Operation" where
  "Normalize op opName =
     (let name = ToUpperASCII (TrimSpace opName);
          name = (if name = [] then ToUpperASCII (TrimSpace (to_Op op)) else name);
          name = (if name = ''DEPLOY'' then ''DEPLOY_SIMPLE'' else name)
      in op\<lparr>to_Protocol := Magic, to_Op := name, to_Ticker := ToUpperASCII (TrimSpace (to_Ticker op)),
           to_Name := TrimSpace (to_Name op), to_Description := TrimSpace (to_Description op),
           to_Mode := ToLowerASCII (TrimSpace (to_Mode op))\<rparr>)"

definition validateURL :: "string \<Rightarrow> string \<Rightarrow> token_error + unit" where
  "validateURL label v0 =
     (let v = TrimSpace v0 in
      if v = [] then Inr ()
      else if length v > MaxURL then Inl (TkURLLength label)
      else if \<not> HasPrefix v ''https://'' \<and> \<not> HasPrefix v ''http://'' then Inl (TkURLScheme label)
      else Inr ())"

definition urls :: "Operation \<Rightarrow> (string \<times> string) list" where
  "urls op = [(''image URL'', to_ImageURL op), (''website'', to_Website op), (''X/Twitter'', to_XURL op),
     (''Telegram'', to_TelegramURL op), (''Discord'', to_DiscordURL op)]"

text \<open>The range over the map of URLs visits them in an order that is an argument.\<close>

fun validateURLs :: "(string \<times> string) list \<Rightarrow> token_error + unit" where
  "validateURLs [] = Inr ()"
| "validateURLs ((label, url) # us) = (case validateURL label url of Inl e \<Rightarrow> Inl e | Inr _ \<Rightarrow> validateURLs us)"

definition validateDeploy :: "((string \<times> string) list \<Rightarrow> (string \<times> string) list) \<Rightarrow> Operation \<Rightarrow> token_error + unit" where
  "validateDeploy ord op =
     (if \<not> nameRE (to_Name op) then Inl TkName
      else if \<not> tickerRE (to_Ticker op) then Inl TkTicker
      else if length (to_Description op) > MaxDesc then Inl TkDescription
      else if to_Decimals op < 0 \<or> to_Decimals op > 8 then Inl TkDecimals
      else if to_Creator op = [] \<or> to_Supply op = [] then Inl TkCreatorSupply
      else validateURLs (ord (urls op)))"

definition Validate :: "((string \<times> string) list \<Rightarrow> (string \<times> string) list) \<Rightarrow> Operation \<Rightarrow> token_error + unit" where
  "Validate ord op =
     (let name = ToUpperASCII (to_Op op) in
      if to_Protocol op \<noteq> Magic then Inl TkProtocol
      else if name = ''DEPLOY_SIMPLE'' then validateDeploy ord op
      else if name = ''DEPLOY_CURVE'' then
        (case validateDeploy ord op of Inl e \<Rightarrow> Inl e
         | Inr _ \<Rightarrow>
           if to_VirtualLBTC op = [] \<or> to_VirtualToken op = [] \<or> to_GraduationLBTC op = [] then Inl TkCurveFields
           else if to_TradeFeeBPS op < 0 \<or> to_TradeFeeBPS op > 1000 then Inl TkTradeFee
           else Inr ())
      else if name = ''TRANSFER'' then
        (if to_TokenID op = [] \<or> to_From op = [] \<or> to_To op = [] \<or> to_Amount op = [] then Inl TkTransferFields else Inr ())
      else if name = ''BURN'' then
        (if to_TokenID op = [] \<or> to_From op = [] \<or> to_Amount op = [] then Inl TkBurnFields else Inr ())
      else if name = ''BUY'' then
        (if to_TokenID op = [] \<or> to_From op = [] \<or> to_LBTCAmount op = [] then Inl TkBuyFields else Inr ())
      else if name = ''SELL'' then
        (if to_TokenID op = [] \<or> to_From op = [] \<or> to_Amount op = [] then Inl TkSellFields else Inr ())
      else Inl (TkUnsupported (to_Op op)))"

section \<open>Marker scripts\<close>

text \<open>Twenty bytes: the magic, the number of chunks, the index, and fourteen bytes of data.\<close>

definition chunk :: "nat \<Rightarrow> bytes \<Rightarrow> nat \<Rightarrow> bytes" where
  "chunk n raw i =
     (let part = take ChunkData (drop (i * ChunkData) raw)
      in bytes_of_string Magic @ [of_nat n, of_nat i] @ part @ replicate (ChunkData - length part) 0)"

definition MarkerPayloads :: "(Operation \<Rightarrow> bytes option) \<Rightarrow> Operation \<Rightarrow> token_error + bytes list \<times> bytes" where
  "MarkerPayloads marshal op =
     (case marshal op of None \<Rightarrow> Inl TkMarshal
      | Some raw \<Rightarrow>
        if length raw > MaxJSONSize then Inl TkTooLarge
        else
          let n = (length raw + ChunkData - 1) div ChunkData;
              n = (if n = 0 then 1 else n)
          in if n > MaxChunks then Inl TkTooManyChunks
             else Inr (map (chunk n raw) [0..<n], raw))"

fun markerScripts :: "bytes list \<Rightarrow> token_error + string list" where
  "markerScripts [] = Inr []"
| "markerScripts (c # cs) =
     (case PayToPubKeyHashScript c of Inl e \<Rightarrow> Inl (TkScript e)
      | Inr pk \<Rightarrow> (case markerScripts cs of Inl e \<Rightarrow> Inl e | Inr out \<Rightarrow> Inr (hex_encode pk # out)))"

definition MarkerScriptHexes :: "(Operation \<Rightarrow> bytes option) \<Rightarrow> Operation \<Rightarrow> token_error + string list \<times> bytes" where
  "MarkerScriptHexes marshal op =
     (case MarkerPayloads marshal op of Inl e \<Rightarrow> Inl e
      | Inr (chunks, raw) \<Rightarrow> (case markerScripts chunks of Inl e \<Rightarrow> Inl e | Inr out \<Rightarrow> Inr (out, raw)))"

end
