(* ===== verification/TokenCurve.thy ===== *)
theory TokenCurve
  imports Tokens
begin

text \<open>
  The bonding curve (\<^verbatim>\<open>internal/tokens/curve.go\<close>): quotes for buying and selling against the
  product of the reserves, in exact rationals, printed with eight decimals.
\<close>

datatype curve_error = CuVirtual | CuReal | CuReserve | CuInput | CuNotPositive | CuFee | CuExceeds | CuPanic

record CurveQuote =
  cq_TokensOut :: string
  cq_LBTCOut :: string
  cq_NetLBTCIn :: string
  cq_TradeFeeLBTC :: string
  cq_PriceBefore :: string
  cq_PriceAfter :: string
  cq_GraduationProgress :: string

definition emptyQuote :: CurveQuote where
  "emptyQuote = \<lparr>cq_TokensOut = [], cq_LBTCOut = [], cq_NetLBTCIn = [], cq_TradeFeeLBTC = [], cq_PriceBefore = [],
     cq_PriceAfter = [], cq_GraduationProgress = []\<rparr>"

text \<open>\<open>Rat.FloatString\<close>: rounded to the nearest, halves away from zero; whole numbers as they are.\<close>

definition signed_dec :: "bool \<Rightarrow> nat \<Rightarrow> string" where
  "signed_dec neg n = (if neg then ''-'' else []) @ dec_string n"

definition pad :: "nat \<Rightarrow> string \<Rightarrow> string" where
  "pad n s = replicate (n - length s) (CHR ''0'') @ s"

definition FloatString :: "nat \<Rightarrow> rat \<Rightarrow> string" where
  "FloatString prec v =
     (let (a, b) = quotient_of v; m = nat \<bar>a\<bar>; n = nat b in
      if b = 1 then signed_dec (a < 0) m @ (if 0 < prec then CHR ''.'' # replicate prec (CHR ''0'') else [])
      else
        let q = m div n; p = 10 ^ prec; r = (m mod n) * p; r2 = r mod n; r = r div n;
            (q, r) = (if n \<le> r2 + r2 then (if r + 1 \<ge> p then (q + 1, r + 1 - p) else (q, r + 1)) else (q, r))
        in signed_dec (a < 0) q @ (if 0 < prec then CHR ''.'' # pad prec (dec_string r) else []))"

definition ratString :: "rat \<Rightarrow> string" where
  "ratString v = FloatString 8 v"

text \<open>
  The exact parts of a quote: what leaves the curve, net input, fee and new reserves. When selling
  every divisor is positive; when buying the new reserves can be zero.
\<close>

definition buyParts :: "rat \<Rightarrow> rat \<Rightarrow> rat \<Rightarrow> int \<Rightarrow> rat \<times> rat \<times> rat \<times> rat \<times> rat" where
  "buyParts x y inp feeBPS =
     (let fee = inp * (of_int feeBPS / 10000);
          netIn = inp - fee;
          newX = x + netIn;
          newY = x * y / newX
      in (y - newY, netIn, fee, newX, newY))"

definition sellParts :: "rat \<Rightarrow> rat \<Rightarrow> rat \<Rightarrow> int \<Rightarrow> rat \<times> rat \<times> rat \<times> rat" where
  "sellParts x y inp feeBPS =
     (let newY = y + inp;
          newX = x * y / newY;
          grossOut = x - newX;
          fee = grossOut * (of_int feeBPS / 10000)
      in (grossOut - fee, fee, newX, newY))"

definition QuoteBuy ::
    "(string \<Rightarrow> rat option) \<Rightarrow> string \<Rightarrow> string \<Rightarrow> string \<Rightarrow> string \<Rightarrow> int \<Rightarrow> string \<Rightarrow> curve_error + CurveQuote" where
  "QuoteBuy parseRat virtualLBTC tokenReserve realLBTC lbtcIn feeBPS graduationLBTC =
     (case parseRat virtualLBTC of None \<Rightarrow> Inl CuVirtual | Some v \<Rightarrow>
     (case parseRat realLBTC of None \<Rightarrow> Inl CuReal | Some res \<Rightarrow>
     (case parseRat tokenReserve of None \<Rightarrow> Inl CuReserve | Some y \<Rightarrow>
     (case parseRat lbtcIn of None \<Rightarrow> Inl CuInput | Some inp \<Rightarrow>
        if inp \<le> 0 \<or> y \<le> 0 then Inl CuNotPositive
        else if feeBPS < 0 \<or> feeBPS > 1000 then Inl CuFee
        else
          let x = v + res;
              (out, netIn, fee, newX, newY) = buyParts x y inp feeBPS;
              progress = (case parseRat graduationLBTC of None \<Rightarrow> ''0''
                | Some grad \<Rightarrow> if 0 < grad then ratString ((res + netIn) / grad * 100) else ''0'')
          in if newX = 0 \<or> newY = 0 then Inl CuPanic
             else Inr (emptyQuote\<lparr>cq_TokensOut := ratString out, cq_NetLBTCIn := ratString netIn,
               cq_TradeFeeLBTC := ratString fee, cq_PriceBefore := ratString (x / y),
               cq_PriceAfter := ratString (newX / newY), cq_GraduationProgress := progress\<rparr>)))))"

definition QuoteSell ::
    "(string \<Rightarrow> rat option) \<Rightarrow> string \<Rightarrow> string \<Rightarrow> string \<Rightarrow> string \<Rightarrow> int \<Rightarrow> curve_error + CurveQuote" where
  "QuoteSell parseRat virtualLBTC tokenReserve realLBTC tokenIn feeBPS =
     (case parseRat virtualLBTC of None \<Rightarrow> Inl CuVirtual | Some v \<Rightarrow>
     (case parseRat realLBTC of None \<Rightarrow> Inl CuReal | Some res \<Rightarrow>
     (case parseRat tokenReserve of None \<Rightarrow> Inl CuReserve | Some y \<Rightarrow>
     (case parseRat tokenIn of None \<Rightarrow> Inl CuInput | Some inp \<Rightarrow>
        if inp \<le> 0 \<or> y \<le> 0 then Inl CuNotPositive
        else
          let x = v + res;
              (netOut, fee, newX, newY) = sellParts x y inp feeBPS
          in if netOut > res then Inl CuExceeds
             else Inr (emptyQuote\<lparr>cq_LBTCOut := ratString netOut, cq_TradeFeeLBTC := ratString fee,
               cq_PriceBefore := ratString (x / y), cq_PriceAfter := ratString (newX / newY)\<rparr>)))))"

section \<open>The curve\<close>

lemma buyParts_facts:
  assumes "0 < x" "0 < y" "0 < inp" "0 \<le> feeBPS" "feeBPS \<le> 1000" "buyParts x y inp feeBPS = (out, netIn, fee, newX, newY)"
  shows "netIn + fee = inp \<and> 0 \<le> fee \<and> 0 < netIn \<and> newX = x + netIn \<and> newY = y - out \<and> newX * newY = x * y \<and>
    0 < out \<and> out < y \<and> x / y < newX / newY"
proof -
  have fee: "fee = inp * (of_int feeBPS / 10000)" "netIn = inp - fee" "newX = x + netIn" "newY = x * y / newX" "out = y - newY"
    using assms(6) by (auto simp: buyParts_def Let_def)
  have "(of_int feeBPS :: rat) \<le> 1000" "(0 :: rat) \<le> of_int feeBPS" using assms(4,5) by simp_all
  then have "0 \<le> fee" "fee \<le> inp * (1000 / 10000)"
    unfolding fee(1) using assms(3) by (simp, intro mult_left_mono) simp_all
  then have net: "0 \<le> fee" "0 < netIn" using assms(3) fee(2) by simp_all
  then have X: "0 < newX" "x < newX" using assms(1) fee(3) by simp_all
  have prod: "newX * newY = x * y" using X fee(4) by simp
  have Y: "0 < newY" using assms(1,2) X fee(4) by simp
  have "x * y < newX * y" using X assms(2) by simp
  then have less: "newY < y" using X(1) by (simp add: fee(4) divide_less_eq mult.commute)
  have "x * newY < newX * y" using X(2) less assms(1) Y by (simp add: mult_strict_mono)
  then have "x / y < newX / newY" using Y assms(2) by (simp add: divide_simps mult.commute)
  moreover have "newY = y - out" "0 < out" "out < y" "netIn + fee = inp" using fee(2,5) Y less by simp_all
  ultimately show ?thesis using net prod fee(3) by blast
qed

text \<open>Selling what was just bought gives the net input back, less the fee of the sale.\<close>

lemma buy_then_sell:
  assumes "0 < x" "0 < y" "0 < inp" "0 \<le> feeBPS" "feeBPS \<le> 1000" "buyParts x y inp feeBPS = (out, netIn, fee, newX, newY)"
  shows "sellParts newX newY out feeBPS' =
    (netIn - netIn * (of_int feeBPS' / 10000), netIn * (of_int feeBPS' / 10000), x, y)"
proof -
  note f = buyParts_facts [OF assms]
  then have "newY + out = y" "newX - x = netIn" by simp_all
  moreover have "newX * newY / y = x" using f assms(2) by (metis less_irrefl nonzero_mult_div_cancel_right)
  ultimately show ?thesis by (simp add: sellParts_def Let_def)
qed

lemma sellParts_payout:
  assumes "0 \<le> v" "0 \<le> res" "0 < y" "0 < inp" "0 \<le> feeBPS" "feeBPS \<le> 10000" "v * (y + inp) \<le> (v + res) * y"
    and "sellParts (v + res) y inp feeBPS = (netOut, fee, newX, newY)"
  shows "0 \<le> netOut \<and> netOut + fee \<le> res \<and> 0 \<le> fee \<and> newX * newY = (v + res) * y"
proof -
  have s: "newY = y + inp" "newX = (v + res) * y / newY" "fee = (v + res - newX) * (of_int feeBPS / 10000)" "netOut = v + res - newX - fee"
    using assms(8) by (auto simp: sellParts_def Let_def)
  have Y: "0 < newY" using assms(3,4) s(1) by simp
  have "v \<le> newX" using assms(7) Y by (simp add: s(1,2) pos_le_divide_eq)
  moreover have "(v + res) * y \<le> (v + res) * newY" using assms(1,2,4) s(1) by (intro mult_left_mono) simp_all
  then have gross: "0 \<le> v + res - newX" using Y by (simp add: s(2) pos_divide_le_eq)
  moreover have "(0 :: rat) \<le> of_int feeBPS / 10000" "(of_int feeBPS :: rat) / 10000 \<le> 1" using assms(5,6) by simp_all
  then have "0 \<le> fee" "fee \<le> v + res - newX"
    unfolding s(3) using gross by (simp, metis mult_left_le)
  ultimately show ?thesis using Y by (simp add: s(2,4))
qed

section \<open>Chunks\<close>

lemma length_chunk [simp]: "length (chunk n raw i) = 20"
  by (simp add: chunk_def Let_def Magic_def ChunkData_def)

lemma chunk_parts:
  "take 4 (chunk n raw i) = bytes_of_string Magic" "chunk n raw i ! 4 = of_nat n" "chunk n raw i ! 5 = of_nat i"
  "drop 6 (chunk n raw i) = take 14 (drop (i * 14) raw) @ replicate (14 - length (take 14 (drop (i * 14) raw))) 0"
  by (simp_all add: chunk_def Let_def Magic_def ChunkData_def bytes_of_string_def numeral_eq_Suc)

lemma chunk_data:
  "n * 14 \<le> length raw + 13 \<Longrightarrow> concat (map (\<lambda>i. drop 6 (chunk m raw i)) [0..<n]) =
     take (n * 14) raw @ replicate (n * 14 - length raw) 0"
proof (induction n)
  case (Suc n)
  have n: "n * 14 < length raw \<or> length raw = 0 \<and> n = 0" using Suc.prems by auto
  then have z: "n * 14 - length raw = 0" by auto
  have "take (Suc n * 14) raw = take (n * 14) raw @ take 14 (drop (n * 14) raw)"
    using take_add [of "n * 14" 14 raw] by (simp add: add.commute)
  moreover have "14 - length (take 14 (drop (n * 14) raw)) = Suc n * 14 - length raw" using n by auto
  moreover have "concat (map (\<lambda>i. drop 6 (chunk m raw i)) [0..<Suc n]) =
      (take (n * 14) raw @ replicate (n * 14 - length raw) 0) @ drop 6 (chunk m raw n)"
    using Suc by simp
  ultimately show ?case unfolding chunk_parts(4) by (simp only: z replicate_0 append_Nil2 append_assoc)
qed simp

lemma MarkerPayloads_Inr:
  assumes "MarkerPayloads marshal op = Inr (chunks, raw)"
  shows "marshal op = Some raw \<and> 0 < length chunks \<and> length chunks \<le> 64 \<and>
    chunks = map (chunk (length chunks) raw) [0..<length chunks] \<and>
    length raw \<le> length chunks * 14 \<and> length chunks * 14 \<le> length raw + 13 + (if raw = [] then 1 else 0)"
proof -
  from assms have raw: "marshal op = Some raw" "length raw \<le> 896"
    and c: "chunks = map (chunk (length chunks) raw) [0..<length chunks]"
      "length chunks = (if (length raw + 13) div 14 = 0 then 1 else (length raw + 13) div 14)"
    by (auto simp: MarkerPayloads_def Let_def ChunkData_def MaxChunks_def MaxJSONSize_def split: option.splits if_splits)
  moreover have "raw \<noteq> [] \<Longrightarrow> 0 < length raw" by simp
  ultimately show ?thesis by (cases "raw = []") (auto simp: Suc_le_eq)
qed

end
