(* ===== verification/TokenProperties.thy ===== *)
theory TokenProperties
  imports TokenCurve
begin

text \<open>Properties of token markers and of the bonding curve.\<close>

section \<open>Samples\<close>

text \<open>A parser that knows four texts, and an operation with a short encoding.\<close>

definition parse0 :: "string \<Rightarrow> rat option" where
  "parse0 s = (if s = ''0'' then Some 0 else if s = ''30'' then Some 30 else if s = ''100'' then Some 100
     else if s = ''10'' then Some 10 else None)"

definition operation0 :: Operation where
  "operation0 = \<lparr>to_Protocol = ''LTK1'', to_Op = ''BURN'', to_TokenID = ''a'', to_Name = [], to_Ticker = [],
     to_Description = [], to_ImageURL = [], to_Website = [], to_XURL = [], to_TelegramURL = [], to_DiscordURL = [],
     to_Creator = [], to_From = ''b'', to_To = [], to_Supply = [], to_Amount = ''1'', to_LBTCAmount = [],
     to_Decimals = 0, to_Mode = [], to_VirtualLBTC = [], to_VirtualToken = [], to_GraduationLBTC = [],
     to_DeployFeeLBTC = [], to_TradeFeeBPS = 0, to_FeeAddress = []\<rparr>"

section \<open>Markers\<close>

text \<open>
  C30. Markers carry the whole operation. The payloads of an operation are at most 64 blocks of
  twenty bytes that start with the magic, their number and their index, so that all are
  different; their data in order, cut to its length, is the encoded operation, and the rest is
  padding.
\<close>

theorem markers_roundtrip:
  assumes "MarkerPayloads marshal op = Inr (chunks, raw)"
  shows "marshal op = Some raw \<and> 0 < length chunks \<and> length chunks \<le> 64 \<and> distinct chunks \<and>
    (\<forall>i<length chunks. length (chunks ! i) = 20 \<and> take 4 (chunks ! i) = bytes_of_string Magic \<and>
      chunks ! i ! 4 = of_nat (length chunks) \<and> chunks ! i ! 5 = of_nat i) \<and>
    take (length raw) (concat (map (drop 6) chunks)) = raw \<and>
    set (drop (length raw) (concat (map (drop 6) chunks))) \<subseteq> {0}"
proof -
  let ?n = "length chunks"
  note m = MarkerPayloads_Inr [OF assms]
  then have c: "chunks = map (chunk ?n raw) [0..<?n]" by blast
  have nth: "chunks ! i = chunk ?n raw i" if "i < ?n" for i using that by (subst c) simp
  have "concat (map (drop 6) chunks) = concat (map (\<lambda>i. drop 6 (chunk ?n raw i)) [0..<?n])"
    by (subst c) (simp add: comp_def)
  also have "\<dots> = take (?n * 14) raw @ replicate (?n * 14 - length raw) 0"
  proof (cases "raw = []")
    case True
    then have "0 < ?n" "?n * 14 \<le> 14" using m by auto
    then have "?n = 1" by linarith
    then show ?thesis by (simp add: True chunk_parts(4))
  next
    case False
    then show ?thesis using m by (intro chunk_data) simp
  qed
  finally have data: "concat (map (drop 6) chunks) = raw @ replicate (?n * 14 - length raw) 0" using m by simp
  have "distinct chunks"
  proof (subst distinct_conv_nth, intro allI impI)
    fix i j assume ij: "i < ?n" "j < ?n" "i \<noteq> j"
    then have "(of_nat i :: byte) \<noteq> of_nat j"
      using m by (simp add: word_unat_eq_iff unat_of_nat take_bit_nat_eq_self)
    with ij show "chunks ! i \<noteq> chunks ! j" by (metis nth chunk_parts(3))
  qed
  then show ?thesis using m data nth by (auto simp: chunk_parts)
qed

theorem markers_roundtrip_witness:
  "let raw = replicate 20 1; chunks = map (chunk 2 raw) [0, 1] in
   take 20 (concat (map (drop 6) chunks)) = raw \<and> MarkerPayloads (\<lambda>_. Some raw) operation0 = Inr (chunks, raw)"
proof -
  let ?raw = "replicate 20 1 :: bytes"
  have "[0..<2] = [0, 1 :: nat]" by code_simp
  then have m: "MarkerPayloads (\<lambda>_. Some ?raw) operation0 = Inr (map (chunk 2 ?raw) [0, 1], ?raw)"
    by (simp add: MarkerPayloads_def ChunkData_def MaxChunks_def MaxJSONSize_def Let_def)
  from markers_roundtrip [OF m] m show ?thesis by (simp only: length_replicate Let_def)
qed

section \<open>The curve\<close>

text \<open>
  C31. A buy keeps the product of the reserves: with a positive reserve on both sides a quote is
  given, for tokens that are fewer than the reserve holds; net input and fee add up to the
  input, the reserves after it have the product they had before, and the price has risen.
\<close>

theorem buy_keeps_product:
  assumes "parseRat v = Some vr" "parseRat y = Some yr" "parseRat r = Some rr" "parseRat a = Some ar"
    and "0 < vr + rr" "0 < yr" "0 < ar" "0 \<le> feeBPS" "feeBPS \<le> 1000"
  shows "\<exists>out net fee progress.
    QuoteBuy parseRat v y r a feeBPS g = Inr (emptyQuote\<lparr>cq_TokensOut := ratString out, cq_NetLBTCIn := ratString net,
      cq_TradeFeeLBTC := ratString fee, cq_PriceBefore := ratString ((vr + rr) / yr),
      cq_PriceAfter := ratString ((vr + rr + net) / (yr - out)), cq_GraduationProgress := progress\<rparr>) \<and>
    0 < out \<and> out < yr \<and> 0 \<le> fee \<and> 0 < net \<and> net + fee = ar \<and>
    (vr + rr + net) * (yr - out) = (vr + rr) * yr \<and> (vr + rr) / yr < (vr + rr + net) / (yr - out)"
proof -
  obtain out net fee newX newY where p: "buyParts (vr + rr) yr ar feeBPS = (out, net, fee, newX, newY)"
    by (metis prod_cases5)
  note f = buyParts_facts [OF assms(5-9) p]
  have "newX * newY = (vr + rr) * yr" using f by blast
  then have "0 < newX * newY" using mult_pos_pos [OF assms(5,6)] by metis
  then have nz: "newX \<noteq> 0" "newY \<noteq> 0" by auto
  define progress where "progress = (case parseRat g of None \<Rightarrow> ''0''
    | Some grad \<Rightarrow> if 0 < grad then ratString ((rr + net) / grad * 100) else ''0'')"
  have "QuoteBuy parseRat v y r a feeBPS g = Inr (emptyQuote\<lparr>cq_TokensOut := ratString out, cq_NetLBTCIn := ratString net,
      cq_TradeFeeLBTC := ratString fee, cq_PriceBefore := ratString ((vr + rr) / yr),
      cq_PriceAfter := ratString (newX / newY), cq_GraduationProgress := progress\<rparr>)"
    using assms(6-9) nz by (simp only: QuoteBuy_def assms(1-4) option.case Let_def p prod.case progress_def) simp
  moreover have "newX = vr + rr + net" "newY = yr - out" using f by blast+
  ultimately show ?thesis using f by blast
qed

theorem buy_keeps_product_witness:
  "\<exists>out net. (30 + net) * (100 - out) = (3000 :: rat) \<and> 0 < out \<and> out < 100 \<and>
     (\<exists>q. QuoteBuy parse0 ''30'' ''100'' ''0'' ''10'' 100 ''x'' = Inr q \<and> cq_TokensOut q = ratString out)"
proof -
  have "parse0 ''30'' = Some 30" "parse0 ''100'' = Some 100" "parse0 ''0'' = Some 0" "parse0 ''10'' = Some 10"
    by (simp_all add: parse0_def)
  from buy_keeps_product [OF this(1,2,3,4), of 100 "''x''"] show ?thesis by fastforce
qed

text \<open>
  Buying and selling back gives nothing away: selling exactly the tokens just bought pays the
  net input less the fee of the sale and brings the reserves back to what they were.
\<close>

theorem buy_sell_back:
  assumes "0 < x" "0 < y" "0 < inp" "0 \<le> feeBPS" "feeBPS \<le> 1000" "buyParts x y inp feeBPS = (out, netIn, fee, newX, newY)"
  shows "sellParts newX newY out feeBPS' = (netIn - netIn * (of_int feeBPS' / 10000), netIn * (of_int feeBPS' / 10000), x, y)"
  by (rule buy_then_sell [OF assms])

theorem buy_sell_back_witness:
  "case buyParts 30 100 10 0 of (out, netIn, fee, newX, newY) \<Rightarrow> sellParts newX newY out 0 = (10, 0, 30, 100)"
proof -
  obtain out netIn fee newX newY where p: "buyParts 30 100 10 0 = (out, netIn, fee, newX, newY)" by (metis prod_cases5)
  then have "netIn = 10" by (auto simp: buyParts_def Let_def)
  with buy_sell_back [OF _ _ _ _ _ p, of 0] p show ?thesis by simp
qed

text \<open>
  Quotes can panic. A buy against an empty LBTC side (virtual and real reserve sum to zero) or
  one that the net input makes zero divides by zero; with a positive token reserve and valid
  input and fee these are exactly the cases, and a sale never panics.
\<close>

theorem curve_panics:
  assumes "parseRat v = Some vr" "parseRat y = Some yr" "parseRat r = Some rr" "parseRat a = Some ar"
    and "0 < yr" "0 < ar" "0 \<le> feeBPS" "feeBPS \<le> 1000"
  shows "(QuoteBuy parseRat v y r a feeBPS g = Inl CuPanic \<longleftrightarrow>
      vr + rr = 0 \<or> vr + rr + (ar - ar * (of_int feeBPS / 10000)) = 0) \<and>
    QuoteSell parseRat v y r a feeBPS \<noteq> Inl CuPanic"
  using assms by (auto simp: QuoteBuy_def QuoteSell_def buyParts_def sellParts_def Let_def)

theorem curve_panics_witness:
  "QuoteBuy parse0 ''0'' ''100'' ''0'' ''10'' 100 ''x'' = Inl CuPanic"
proof -
  have "parse0 ''100'' = Some 100" "parse0 ''0'' = Some 0" "parse0 ''10'' = Some 10" by (simp_all add: parse0_def)
  from curve_panics [OF this(2,1,2,3), of 100 "''x''"] show ?thesis by simp
qed

end
