(* ===== verification/P2PNet.thy ===== *)
theory P2PNet
  imports Amount WireMsgs
begin

text \<open>
  Host names, ports and IP addresses as the peer-to-peer server
  (\<^verbatim>\<open>internal/p2p/server.go\<close>) handles them: splitting and normalising a peer's address, the
  addresses that may be passed on, and the subnet that the connection limits count by. What the
  code uses of Go's \<^verbatim>\<open>net\<close> package is written out on byte strings; an address is a byte list
  as \<open>net.IP\<close> is a slice.
\<close>

section \<open>Hosts and ports\<close>

definition TrimSet :: "char set \<Rightarrow> string \<Rightarrow> string" where
  "TrimSet A s = rev (dropWhile (\<lambda>c. c \<in> A) (rev (dropWhile (\<lambda>c. c \<in> A) s)))"

text \<open>The text before and after the last occurrence of a character.\<close>

fun splitLast :: "char \<Rightarrow> string \<Rightarrow> (string \<times> string) option" where
  "splitLast c [] = None"
| "splitLast c (x # xs) =
     (case splitLast c xs of Some (a, b) \<Rightarrow> Some (x # a, b)
      | None \<Rightarrow> if x = c then Some ([], xs) else None)"

text \<open>
  \<open>net.SplitHostPort\<close>: the port follows the last colon; a host in brackets ends right before
  it, a host without brackets has no colon, and there are no other brackets.
\<close>

definition SplitHostPort :: "string \<Rightarrow> (string \<times> string) option" where
  "SplitHostPort hp =
     (case splitLast CHR '':'' hp of None \<Rightarrow> None
      | Some (front, port) \<Rightarrow>
        if hd hp = CHR ''['' then
          (let inner = takeWhile (\<lambda>c. c \<noteq> CHR '']'') (tl hp) in
           if front = CHR ''['' # inner @ '']'' \<and> CHR ''['' \<notin> set (inner @ port) \<and> CHR '']'' \<notin> set port
           then Some (inner, port) else None)
        else if CHR '':'' \<in> set front \<or> CHR ''['' \<in> set hp \<or> CHR '']'' \<in> set hp then None
        else Some (front, port))"

definition JoinHostPort :: "string \<Rightarrow> string \<Rightarrow> string" where
  "JoinHostPort host port =
     (if CHR '':'' \<in> set host then ''['' @ host @ '']:'' @ port else host @ '':'' @ port)"

definition splitHost :: "string \<Rightarrow> string" where
  "splitHost addr =
     (case SplitHostPort addr of Some (host, _) \<Rightarrow> if host \<noteq> [] then host else addr | None \<Rightarrow> addr)"

definition normalizePeerAddress :: "string \<Rightarrow> u16 \<Rightarrow> string option" where
  "normalizePeerAddress addr0 defaultPort =
     (let addr = TrimSpace addr0 in
      if addr = [] then None
      else
        let (host0, port0) = (case SplitHostPort addr of Some hp \<Rightarrow> hp
                              | None \<Rightarrow> (addr, dec_string (unat defaultPort)));
            host = TrimSpace (TrimSet {CHR ''['', CHR '']''} host0);
            port = TrimSpace port0
        in if host = [] \<or> port = [] then None
           else (case ParseInt64 port of None \<Rightarrow> None
             | Some n \<Rightarrow> if n \<le>s 0 \<or> 65535 <s n then None
                         else Some (JoinHostPort host (dec_string (unat n)))))"

section \<open>IP addresses\<close>

abbreviation v4_prefix :: bytes where "v4_prefix \<equiv> replicate 10 0 @ [0xff, 0xff]"

definition To4 :: "bytes \<Rightarrow> bytes option" where
  "To4 ip = (if length ip = 4 then Some ip
             else if length ip = 16 \<and> take 12 ip = v4_prefix then Some (drop 12 ip) else None)"

definition IsUnspecified :: "bytes \<Rightarrow> bool" where
  "IsUnspecified ip \<longleftrightarrow> To4 ip = Some [0, 0, 0, 0] \<or> ip = replicate 16 0"

definition IsLoopback :: "bytes \<Rightarrow> bool" where
  "IsLoopback ip = (case To4 ip of Some a \<Rightarrow> a ! 0 = 127 | None \<Rightarrow> ip = replicate 15 0 @ [1])"

definition IsPrivate :: "bytes \<Rightarrow> bool" where
  "IsPrivate ip =
     (case To4 ip of
        Some a \<Rightarrow> a ! 0 = 10 \<or> (a ! 0 = 172 \<and> and (a ! 1) 0xf0 = 16) \<or> (a ! 0 = 192 \<and> a ! 1 = 168)
      | None \<Rightarrow> length ip = 16 \<and> and (ip ! 0) 0xfe = 0xfc)"

definition IsMulticast :: "bytes \<Rightarrow> bool" where
  "IsMulticast ip =
     (case To4 ip of Some a \<Rightarrow> and (a ! 0) 0xf0 = 0xe0 | None \<Rightarrow> length ip = 16 \<and> ip ! 0 = 0xff)"

definition IsLinkLocalMulticast :: "bytes \<Rightarrow> bool" where
  "IsLinkLocalMulticast ip =
     (case To4 ip of Some a \<Rightarrow> a ! 0 = 224 \<and> a ! 1 = 0 \<and> a ! 2 = 0
      | None \<Rightarrow> length ip = 16 \<and> ip ! 0 = 0xff \<and> and (ip ! 1) 0x0f = 0x02)"

definition IsLinkLocalUnicast :: "bytes \<Rightarrow> bool" where
  "IsLinkLocalUnicast ip =
     (case To4 ip of Some a \<Rightarrow> a ! 0 = 169 \<and> a ! 1 = 254
      | None \<Rightarrow> length ip = 16 \<and> ip ! 0 = 0xfe \<and> and (ip ! 1) 0xc0 = 0x80)"

definition relayableIP :: "bytes option \<Rightarrow> bool \<Rightarrow> bool" where
  "relayableIP ip0 allowLocal =
     (case Option.bind ip0 To16 of None \<Rightarrow> False
      | Some ip \<Rightarrow>
        if IsUnspecified ip \<or> IsMulticast ip \<or> IsLinkLocalMulticast ip \<or> IsLinkLocalUnicast ip then False
        else if IsLoopback ip \<or> IsPrivate ip then allowLocal else True)"

subsection \<open>Text of an address\<close>

definition v4_string :: "bytes \<Rightarrow> string" where
  "v4_string a = dec_string (unat (a ! 0)) @ ''.'' @ dec_string (unat (a ! 1)) @ ''.'' @
     dec_string (unat (a ! 2)) @ ''.'' @ dec_string (unat (a ! 3))"

fun groups :: "bytes \<Rightarrow> nat list" where
  "groups (a # b # bs) = (unat a * 256 + unat b) # groups bs"
| "groups bs = []"

fun hex_nat :: "nat \<Rightarrow> string" where
  "hex_nat n = (if n < 16 then [hex_digit n] else hex_nat (n div 16) @ [hex_digit (n mod 16)])"

declare hex_nat.simps [simp del]

text \<open>The longest run of zero groups, of two at least, the first one of that length.\<close>

definition zeroRun :: "nat list \<Rightarrow> nat \<Rightarrow> nat" where
  "zeroRun gs i = length (takeWhile (\<lambda>g. g = 0) (drop i gs))"

definition longestRun :: "nat list \<Rightarrow> (nat \<times> nat) option" where
  "longestRun gs =
     fold (\<lambda>i best. let l = zeroRun gs i in
             if l \<ge> 2 \<and> (case best of None \<Rightarrow> True | Some (s, e) \<Rightarrow> l > e - s) then Some (i, i + l) else best)
       [0..<length gs] None"

definition colon_groups :: "nat list \<Rightarrow> string" where
  "colon_groups gs = (case gs of [] \<Rightarrow> []
     | g # gs \<Rightarrow> hex_nat g @ concat (map (\<lambda>g. '':'' @ hex_nat g) gs))"

definition v6_string :: "bytes \<Rightarrow> string" where
  "v6_string ip =
     (let gs = groups ip in
      case longestRun gs of None \<Rightarrow> colon_groups gs
      | Some (s, e) \<Rightarrow> colon_groups (take s gs) @ ''::'' @ colon_groups (drop e gs))"

definition IP_String :: "bytes \<Rightarrow> string" where
  "IP_String ip =
     (if ip = [] then ''<nil>''
      else (case To4 ip of Some a \<Rightarrow> v4_string a
        | None \<Rightarrow> if length ip = 16 then v6_string ip else ''?'' @ hex_encode ip))"

subsection \<open>Parsing an address\<close>

text \<open>Four decimal octets without leading zeros.\<close>

definition octet :: "string \<Rightarrow> byte option" where
  "octet s = (if s \<noteq> [] \<and> list_all is_digit s \<and> (hd s = CHR ''0'' \<longrightarrow> length s = 1) \<and> dec_value s \<le> 255
              then Some (of_nat (dec_value s)) else None)"

definition parseIPv4 :: "string \<Rightarrow> bytes option" where
  "parseIPv4 s =
     (let fs = map octet (split_char CHR ''.'' s)
      in if length fs = 4 \<and> list_all (\<lambda>f. f \<noteq> None) fs then Some (map the fs) else None)"

definition is_hex :: "char \<Rightarrow> bool" where
  "is_hex c \<longleftrightarrow> hex_val c \<noteq> None"

definition group_value :: "string \<Rightarrow> nat" where
  "group_value s = foldl (\<lambda>n c. n * 16 + the (hex_val c)) 0 s"

text \<open>
  The loop over the fields: the bytes so far, the place of the \<open>::\<close> and the rest of the text.
  An IPv4 address may stand for the last two fields.
\<close>

fun parse_fields :: "nat \<Rightarrow> bytes \<Rightarrow> nat option \<Rightarrow> string \<Rightarrow> (bytes \<times> nat option) option" where
  "parse_fields 0 ip ell s = (if s = [] then Some (ip, ell) else None)"
| "parse_fields (Suc n) ip ell s =
     (let ds = takeWhile is_hex s; rest = dropWhile is_hex s in
      if ds = [] \<or> length ds > 4 then None
      else if rest \<noteq> [] \<and> hd rest = CHR ''.'' then
        (if (ell = None \<and> length ip \<noteq> 12) \<or> length ip + 4 > 16 then None
         else map_option (\<lambda>a. (ip @ a, ell)) (parseIPv4 s))
      else
        let ip = ip @ [of_nat (group_value ds div 256), of_nat (group_value ds mod 256)] in
        (case rest of [] \<Rightarrow> Some (ip, ell)
         | c # s \<Rightarrow>
           if c \<noteq> CHR '':'' \<or> s = [] then None
           else if hd s = CHR '':'' then
             (if ell \<noteq> None then None
              else if tl s = [] then Some (ip, Some (length ip))
              else parse_fields n ip (Some (length ip)) (tl s))
           else parse_fields n ip ell s))"

definition expand_fields :: "bytes \<times> nat option \<Rightarrow> bytes option" where
  "expand_fields r =
     (let (ip, ell) = r in
      case ell of None \<Rightarrow> if length ip = 16 then Some ip else None
      | Some e \<Rightarrow> if length ip < 16 then Some (take e ip @ replicate (16 - length ip) 0 @ drop e ip) else None)"

definition parseIPv6 :: "string \<Rightarrow> bytes option" where
  "parseIPv6 s =
     (if CHR ''%'' \<in> set s then None
      else if take 2 s = ''::'' then
        (if length s = 2 then Some (replicate 16 0)
         else Option.bind (parse_fields 8 [] (Some 0) (drop 2 s)) expand_fields)
      else Option.bind (parse_fields 8 [] None s) expand_fields)"

text \<open>The first dot or colon decides; the result has the 16-byte form.\<close>

definition ParseIP :: "string \<Rightarrow> bytes option" where
  "ParseIP s =
     (case List.find (\<lambda>c. c \<in> {CHR ''.'', CHR '':'', CHR ''%''}) s of None \<Rightarrow> None
      | Some c \<Rightarrow>
        if c = CHR ''.'' then map_option (\<lambda>a. v4_prefix @ a) (parseIPv4 s)
        else if c = CHR '':'' then parseIPv6 s else None)"

section \<open>What the server asks of an address\<close>

definition relayableHost :: "string \<Rightarrow> bool \<Rightarrow> bool" where
  "relayableHost host allowLocal =
     relayableIP (ParseIP (TrimSet {CHR ''['', CHR '']''} host)) allowLocal"

definition localOrPrivateHost :: "string \<Rightarrow> bool" where
  "localOrPrivateHost host =
     (case ParseIP (TrimSet {CHR ''['', CHR '']''} host) of None \<Rightarrow> False
      | Some ip \<Rightarrow> IsLoopback ip \<or> IsPrivate ip)"

definition hex2 :: "byte \<Rightarrow> string" where
  "hex2 b = hex_encode [b]"

definition subnetKey :: "string \<Rightarrow> string" where
  "subnetKey host =
     (case ParseIP host of None \<Rightarrow> []
      | Some ip \<Rightarrow>
        (case To4 ip of
           Some a \<Rightarrow> dec_string (unat (a ! 0)) @ ''.'' @ dec_string (unat (a ! 1)) @ ''.'' @
                     dec_string (unat (a ! 2)) @ ''.0/24''
         | None \<Rightarrow>
           if length ip = 16
           then hex2 (ip ! 0) @ hex2 (ip ! 1) @ '':'' @ hex2 (ip ! 2) @ hex2 (ip ! 3) @ '':'' @
                hex2 (ip ! 4) @ hex2 (ip ! 5) @ '':'' @ hex2 (ip ! 6) @ hex2 (ip ! 7) @ ''::/64''
           else []))"

end
