(* ===== verification/P2PPeer.thy ===== *)
theory P2PPeer
  imports P2PNet MiningSafety ChainForks "HOL-Library.Product_Lexorder"
begin

text \<open>
  What the peer-to-peer server (\<^verbatim>\<open>internal/p2p/server.go\<close>) keeps of one peer and of the
  peers together: the policy, the record of a connection, misbehaviour scores and bans, the rate
  limits, the known addresses, the outstanding block requests, the choice of a peer to
  synchronise from, and the category the mining guard sees a peer in.

  A point in time is its number of nanoseconds after Go's zero time, which is 0; every operation
  takes the clock's reading. Texts that the code only formats for reports (the reason of a
  penalty, of a failed synchronisation, of a rejected block) are kept as the values they are
  formatted from.
\<close>

type_synonym time = int

definition second :: int where "second = 1000000000"
definition minute :: int where "minute = 60 * second"

text \<open>\<open>time.Time.Sub\<close> saturates, \<open>time.Duration\<close> arithmetic wraps.\<close>

definition sub_time :: "time \<Rightarrow> time \<Rightarrow> int" where
  "sub_time u t = max (- (2 ^ 63)) (min (2 ^ 63 - 1) (u - t))"

definition wrap64 :: "int \<Rightarrow> int" where
  "wrap64 n = sint (word_of_int n :: i64)"

section \<open>Policy\<close>

definition maxPeers :: nat where "maxPeers = 125"
definition maxOutboundPeers :: nat where "maxOutboundPeers = 16"
definition maxGetDataItems :: nat where "maxGetDataItems = 1000"
definition maxServeInvItems :: nat where "maxServeInvItems = 256"
definition maxAddrRelayItems :: nat where "maxAddrRelayItems = 10"
definition maxAddrDialItems :: nat where "maxAddrDialItems = 8"
definition maxAddrDialsPerPeer :: int where "maxAddrDialsPerPeer = 16"
definition maxKnownPeerAddresses :: nat where "maxKnownPeerAddresses = 2048"
definition addrMaxAge :: int where "addrMaxAge = 7 * 24 * 60 * minute"
definition getdataTimeout :: int where "getdataTimeout = 2 * minute"
definition missingParentTTL :: int where "missingParentTTL = 2 * minute"
definition missingParentEvictTTL :: int where "missingParentEvictTTL = 10 * minute"
definition missingParentSeenCap :: nat where "missingParentSeenCap = 2048"
definition maxMissingParentPeers :: nat where "maxMissingParentPeers = 4"
definition protocolVersion :: i32 where "protocolVersion = 70015"
definition nodeNetwork :: u64 where "nodeNetwork = 1"

record p2pPolicy =
  pp_DefaultPort :: u16
  pp_MessageStart :: bytes
  pp_chainID :: string
  pp_enforceChainID :: bool
  pp_peerSafety :: bool
  pp_banThreshold :: int
  pp_banDuration :: int
  pp_maxInboundPeers :: int
  pp_maxPerIP :: int
  pp_maxPerSubnet :: int
  pp_peerRateLimit :: int
  pp_globalRateLimit :: int
  pp_reconnectBackoff :: bool
  pp_reconnectEvery :: int
  pp_misbehaviorDecay :: int
  pp_peerRateWindow :: int
  pp_globalRateWindow :: int
  pp_connectOnly :: "string fset"
  pp_staleThreshold :: int
  pp_seedPeers :: bool
  pp_listenAddr :: string

text \<open>The policy that \<open>New\<close> starts with.\<close>

definition NewPolicy :: "u16 \<Rightarrow> bytes \<Rightarrow> string \<Rightarrow> p2pPolicy" where
  "NewPolicy port magic chainID =
     \<lparr>pp_DefaultPort = port, pp_MessageStart = magic, pp_chainID = chainID,
      pp_enforceChainID = False, pp_peerSafety = True, pp_banThreshold = 100,
      pp_banDuration = 60 * minute, pp_maxInboundPeers = 64, pp_maxPerIP = 8, pp_maxPerSubnet = 32,
      pp_peerRateLimit = 250, pp_globalRateLimit = 3000, pp_reconnectBackoff = True,
      pp_reconnectEvery = 8 * second, pp_misbehaviorDecay = 5 * minute,
      pp_peerRateWindow = 10 * second, pp_globalRateWindow = 10 * second,
      pp_connectOnly = {||}, pp_staleThreshold = 15 * minute, pp_seedPeers = True, pp_listenAddr = []\<rparr>"

definition SetPeerPolicy ::
    "string \<Rightarrow> bool \<Rightarrow> bool \<Rightarrow> int \<Rightarrow> bool \<Rightarrow> string list \<Rightarrow> p2pPolicy \<Rightarrow> p2pPolicy" where
  "SetPeerPolicy chainID enforce peerSafety banThreshold seedPeers connectOnly pol =
     pol\<lparr>pp_chainID := (if TrimSpace chainID \<noteq> [] then TrimSpace chainID else pp_chainID pol),
         pp_enforceChainID := enforce,
         pp_peerSafety := peerSafety,
         pp_banThreshold := (if banThreshold > 0 then banThreshold else pp_banThreshold pol),
         pp_seedPeers := seedPeers,
         pp_connectOnly :=
           (if connectOnly \<noteq> []
            then fset_of_list (List.map_filter (\<lambda>a. normalizePeerAddress a (pp_DefaultPort pol)) connectOnly)
            else pp_connectOnly pol)\<rparr>"

definition SetRuntimePolicy ::
    "int \<Rightarrow> int \<Rightarrow> bool \<Rightarrow> int \<Rightarrow> int \<Rightarrow> int \<Rightarrow> int \<Rightarrow> int \<Rightarrow> int \<Rightarrow> int \<Rightarrow> p2pPolicy \<Rightarrow> p2pPolicy" where
  "SetRuntimePolicy maxInbound banSeconds backoff backoffSeconds rateLimit maxPerIP maxPerSubnet
       globalRate decaySeconds staleSeconds pol =
     (let pick = (\<lambda>n old. if n > 0 then n else old);
          pickSeconds = (\<lambda>n old. if n > 0 then wrap64 (n * second) else old)
      in pol\<lparr>pp_maxInboundPeers := pick maxInbound (pp_maxInboundPeers pol),
             pp_banDuration := pickSeconds banSeconds (pp_banDuration pol),
             pp_reconnectBackoff := backoff,
             pp_reconnectEvery := pickSeconds backoffSeconds (pp_reconnectEvery pol),
             pp_peerRateLimit := pick rateLimit (pp_peerRateLimit pol),
             pp_maxPerIP := pick maxPerIP (pp_maxPerIP pol),
             pp_maxPerSubnet := pick maxPerSubnet (pp_maxPerSubnet pol),
             pp_globalRateLimit := pick globalRate (pp_globalRateLimit pol),
             pp_misbehaviorDecay := pickSeconds decaySeconds (pp_misbehaviorDecay pol),
             pp_staleThreshold := (if staleSeconds \<ge> 10 then wrap64 (staleSeconds * second)
                                   else pp_staleThreshold pol)\<rparr>)"

section \<open>A peer\<close>

datatype penalty =
    NoPenalty
  | PeerRateExceeded int int int string
  | GlobalRateExceeded int int
  | Scored string

datatype syncError =
    NoSyncError
  | SideChainSent i32 string i32
  | UnknownParentSent i32 string string string
  | RequestFailed

record peer =
  pr_outbound :: bool
  pr_remote :: string
  pr_closed :: bool
  pr_lastSeen :: time
  pr_lastPong :: time
  pr_lastHeightUpdate :: time
  pr_lastPing :: time
  pr_lastRTT :: int
  pr_minRTT :: int
  pr_missedPongs :: int
  pr_version :: i32
  pr_subver :: string
  pr_height :: i32
  pr_chainID :: string
  pr_banScore :: int
  pr_bytesSent :: u64
  pr_bytesRecv :: u64
  pr_lastSyncRequest :: time
  pr_lastSyncError :: syncError
  pr_lastBlockReject :: "chain_error option"
  pr_lastLocatorTip :: string
  pr_lastBlockHash :: string
  pr_lastBlockPrev :: string
  pr_lastBlockHeight :: i32
  pr_lastBestUpdate :: "(i32 \<times> string \<times> i32 \<times> string) option"
  pr_lastHeaderRecv :: time
  pr_lastBlockRecv :: time
  pr_blocksRequested :: int
  pr_blocksServed :: int
  pr_syncFailures :: int
  pr_syncSuccesses :: int
  pr_lastPenaltyAt :: time
  pr_lastPenaltyReason :: penalty
  pr_rateLimited :: bool
  pr_addrDialCount :: int
  pr_wantHeaders :: bool
  pr_bannedUntil :: time
  pr_rateWindowStart :: time
  pr_rateWindowCount :: int

text \<open>The record that \<open>handleConn\<close> starts a connection with.\<close>

definition newPeer :: "string \<Rightarrow> bool \<Rightarrow> time \<Rightarrow> peer" where
  "newPeer remote outbound now =
     \<lparr>pr_outbound = outbound, pr_remote = remote, pr_closed = False, pr_lastSeen = now,
      pr_lastPong = now, pr_lastHeightUpdate = now, pr_lastPing = 0, pr_lastRTT = 0, pr_minRTT = 0,
      pr_missedPongs = 0, pr_version = 0, pr_subver = [], pr_height = 0, pr_chainID = [],
      pr_banScore = 0, pr_bytesSent = 0, pr_bytesRecv = 0, pr_lastSyncRequest = 0,
      pr_lastSyncError = NoSyncError, pr_lastBlockReject = None, pr_lastLocatorTip = [],
      pr_lastBlockHash = [], pr_lastBlockPrev = [], pr_lastBlockHeight = 0, pr_lastBestUpdate = None,
      pr_lastHeaderRecv = 0, pr_lastBlockRecv = 0, pr_blocksRequested = 0, pr_blocksServed = 0,
      pr_syncFailures = 0, pr_syncSuccesses = 0, pr_lastPenaltyAt = 0, pr_lastPenaltyReason = NoPenalty,
      pr_rateLimited = False, pr_addrDialCount = 0, pr_wantHeaders = False, pr_bannedUntil = 0,
      pr_rateWindowStart = 0, pr_rateWindowCount = 0\<rparr>"

definition markSeen :: "time \<Rightarrow> peer \<Rightarrow> peer" where
  "markSeen now p = p\<lparr>pr_lastSeen := now\<rparr>"

definition markPong :: "time \<Rightarrow> peer \<Rightarrow> peer" where
  "markPong now p0 =
     (let p = p0\<lparr>pr_lastSeen := now, pr_lastPong := now\<rparr>;
          rtt = sub_time now (pr_lastPing p);
          p = (if pr_lastPing p = 0 then p
               else p\<lparr>pr_lastRTT := rtt,
                      pr_minRTT := (if pr_minRTT p = 0 \<or> rtt < pr_minRTT p then rtt else pr_minRTT p)\<rparr>)
      in p\<lparr>pr_missedPongs := 0\<rparr>)"

definition markPing :: "time \<Rightarrow> peer \<Rightarrow> peer" where
  "markPing now p = p\<lparr>pr_lastPing := now, pr_missedPongs := pr_missedPongs p + 1\<rparr>"

definition setSyncResult :: "time \<Rightarrow> bool \<Rightarrow> peer \<Rightarrow> peer" where
  "setSyncResult now ok p =
     (if ok then p\<lparr>pr_lastSyncRequest := now, pr_lastSyncError := NoSyncError,
                   pr_syncSuccesses := pr_syncSuccesses p + 1\<rparr>
      else p\<lparr>pr_lastSyncRequest := now, pr_lastSyncError := RequestFailed,
             pr_syncFailures := pr_syncFailures p + 1\<rparr>)"

definition markBlocksRequested :: "time \<Rightarrow> nat \<Rightarrow> peer \<Rightarrow> peer" where
  "markBlocksRequested now n p =
     (if n = 0 then p
      else p\<lparr>pr_blocksRequested := pr_blocksRequested p + int n, pr_lastSyncRequest := now\<rparr>)"

definition markBlocksServed :: "nat \<Rightarrow> peer \<Rightarrow> peer" where
  "markBlocksServed n p = (if n = 0 then p else p\<lparr>pr_blocksServed := pr_blocksServed p + int n\<rparr>)"

definition setLastLocatorTip :: "time \<Rightarrow> string \<Rightarrow> peer \<Rightarrow> peer" where
  "setLastLocatorTip now hash p = p\<lparr>pr_lastLocatorTip := hash, pr_lastSyncRequest := now\<rparr>"

definition setAdvertisedHeight :: "time \<Rightarrow> i32 \<Rightarrow> peer \<Rightarrow> peer" where
  "setAdvertisedHeight now height p =
     p\<lparr>pr_height := (if pr_height p <s height then height else pr_height p), pr_lastHeightUpdate := now\<rparr>"

definition setLastBlockResult :: "time \<Rightarrow> blockResult \<Rightarrow> peer \<Rightarrow> peer" where
  "setLastBlockResult now r p0 =
     (let p = p0\<lparr>pr_lastBlockHash := br_Hash r, pr_lastBlockPrev := br_PrevHash r,
                 pr_lastBlockHeight := br_CalculatedHeight r\<rparr>;
          p = (if br_BestChanged r
               then p\<lparr>pr_lastBestUpdate := Some (br_OldBestHeight r, br_OldBestHash r,
                                               br_NewBestHeight r, br_NewBestHash r)\<rparr> else p);
          p = (if pr_height p <s br_NewBestHeight r
               then p\<lparr>pr_height := br_NewBestHeight r, pr_lastHeightUpdate := now\<rparr> else p);
          p = (if br_Status r = StatusSideChain \<and> br_OldBestHeight r <s pr_height p
               then p\<lparr>pr_lastSyncError := SideChainSent (pr_height p) (br_Hash r) (br_CalculatedHeight r)\<rparr> else p);
          p = (if br_Status r = StatusOrphan \<and> br_OldBestHeight r <s pr_height p
               then p\<lparr>pr_lastSyncError :=
                        UnknownParentSent (pr_height p) (br_Hash r) (br_PrevHash r) (br_OldBestHash r)\<rparr> else p)
      in if br_Connected r \<and> br_BestChanged r
         then p\<lparr>pr_lastSyncError := NoSyncError, pr_syncSuccesses := pr_syncSuccesses p + 1\<rparr> else p)"

section \<open>Misbehaviour and bans\<close>

type_synonym bans = "(string, time) fmap"

text \<open>A ban is kept by host; an address without a port counts as its own host.\<close>

definition banHost :: "string \<Rightarrow> string" where
  "banHost addr = (case SplitHostPort addr of Some (host, _) \<Rightarrow> host | None \<Rightarrow> addr)"

definition banPeer :: "string \<Rightarrow> int \<Rightarrow> time \<Rightarrow> bans \<Rightarrow> bans" where
  "banPeer addr d now b = fmupd (banHost addr) (now + d) b"

definition isBanned :: "string \<Rightarrow> time \<Rightarrow> bans \<Rightarrow> bool \<times> bans" where
  "isBanned addr now b =
     (case fmlookup b (banHost addr) of None \<Rightarrow> (False, b)
      | Some until \<Rightarrow> if now > until then (False, fmdrop (banHost addr) b) else (True, b))"

definition decayScore :: "p2pPolicy \<Rightarrow> time \<Rightarrow> peer \<Rightarrow> peer" where
  "decayScore pol now p =
     (if pp_misbehaviorDecay pol > 0 \<and> pr_lastPenaltyAt p \<noteq> 0 \<and> pr_banScore p > 0 then
        (let steps = quot (sub_time now (pr_lastPenaltyAt p)) (pp_misbehaviorDecay pol) in
         if steps > 0
         then p\<lparr>pr_banScore := max 0 (pr_banScore p - steps),
                pr_lastPenaltyAt := pr_lastPenaltyAt p + steps * pp_misbehaviorDecay pol\<rparr>
         else p)
      else p)"

definition scorePeer :: "p2pPolicy \<Rightarrow> time \<Rightarrow> int \<Rightarrow> string \<Rightarrow> peer \<times> bans \<Rightarrow> peer \<times> bans" where
  "scorePeer pol now score reason s =
     (let (p0, b) = s in
      if \<not> pp_peerSafety pol \<or> score \<le> 0 then (p0, b)
      else
        let p1 = decayScore pol now p0;
            p = p1\<lparr>pr_banScore := pr_banScore p1 + score, pr_lastPenaltyAt := now,
                   pr_lastPenaltyReason := Scored reason\<rparr>
        in if pp_banThreshold pol > 0 \<and> pr_banScore p \<ge> pp_banThreshold pol then
             (let d = (if pp_banDuration pol \<le> 0 then 60 * minute else pp_banDuration pol)
              in (p\<lparr>pr_bannedUntil := now + d, pr_closed := True\<rparr>, banPeer (pr_remote p) d now b))
           else (p, b))"

section \<open>Rate limits\<close>

record rateWindow =
  rw_start :: time
  rw_count :: int

definition tick :: "int \<Rightarrow> time \<Rightarrow> time \<times> int \<Rightarrow> time \<times> int" where
  "tick window now w =
     (let (start, count) = w;
          (start, count) = (if start = 0 \<or> sub_time now start \<ge> window then (now, 0) else (start, count))
      in (start, count + 1))"

definition windowOf :: "int \<Rightarrow> int" where
  "windowOf w = (if w \<le> 0 then 10 * second else w)"

definition allowPeerMessage ::
    "p2pPolicy \<Rightarrow> time \<Rightarrow> string \<Rightarrow> rateWindow \<times> peer \<Rightarrow> bool \<times> rateWindow \<times> peer" where
  "allowPeerMessage pol now command s =
     (let (g, p) = s;
          (gstart, gcount) = (if pp_globalRateLimit pol > 0
                              then tick (windowOf (pp_globalRateWindow pol)) now (rw_start g, rw_count g)
                              else (rw_start g, rw_count g));
          globalAllowed = (\<not> (pp_globalRateLimit pol > 0 \<and> gcount > pp_globalRateLimit pol));
          (start, count) = tick (windowOf (pp_peerRateWindow pol)) now (pr_rateWindowStart p, pr_rateWindowCount p);
          p = p\<lparr>pr_rateWindowStart := start, pr_rateWindowCount := count\<rparr>;
          limit = pp_peerRateLimit pol;
          over = (limit > 0 \<and> count > limit);
          p = (if over
               then p\<lparr>pr_rateLimited := True, pr_lastPenaltyAt := now,
                      pr_lastPenaltyReason :=
                        PeerRateExceeded count limit (windowOf (pp_peerRateWindow pol)) command\<rparr> else p);
          p = (if globalAllowed then p
               else p\<lparr>pr_rateLimited := True, pr_lastPenaltyAt := now,
                      pr_lastPenaltyReason :=
                        GlobalRateExceeded (pp_globalRateLimit pol) (windowOf (pp_globalRateWindow pol))\<rparr>)
      in (\<not> over \<and> globalAllowed, \<lparr>rw_start = gstart, rw_count = gcount\<rparr>, p))"

text \<open>A dial to the same address is held back for a while.\<close>

definition shouldThrottleOutboundDial ::
    "p2pPolicy \<Rightarrow> string \<Rightarrow> time \<Rightarrow> (string, time) fmap \<Rightarrow> bool \<times> (string, time) fmap" where
  "shouldThrottleOutboundDial pol addr now m =
     (if \<not> pp_reconnectBackoff pol \<or> pp_reconnectEvery pol \<le> 0 then (False, m)
      else if (case fmlookup m addr of Some t0 \<Rightarrow> sub_time now t0 < pp_reconnectEvery pol | None \<Rightarrow> False)
      then (True, m) else (False, fmupd addr now m))"

section \<open>Known addresses\<close>

record knownPeerAddress =
  ka_Addr :: string
  ka_Source :: string
  ka_LastSeen :: time
  ka_LastConnected :: time
  ka_LastFailure :: time
  ka_Successes :: int
  ka_Failures :: int
  ka_LastDirection :: string

type_synonym addressBook = "(string, knownPeerAddress) fmap"

definition noAddress :: knownPeerAddress where
  "noAddress = \<lparr>ka_Addr = [], ka_Source = [], ka_LastSeen = 0, ka_LastConnected = 0, ka_LastFailure = 0,
     ka_Successes = 0, ka_Failures = 0, ka_LastDirection = []\<rparr>"

definition oldestAddress :: "(string fset \<Rightarrow> string list) \<Rightarrow> string \<Rightarrow> addressBook \<Rightarrow> string" where
  "oldestAddress ord protected m =
     fst (fold (\<lambda>addr (oldest, seen).
             if addr = protected then (oldest, seen)
             else (case fmlookup m addr of None \<Rightarrow> (oldest, seen)
               | Some i \<Rightarrow> if oldest = [] \<or> ka_LastSeen i < seen then (addr, ka_LastSeen i) else (oldest, seen)))
           (ord (fmdom m)) ([], 0))"

text \<open>Every round of the loop deletes an address, so as many rounds as there are addresses do.\<close>

fun trimRounds :: "nat \<Rightarrow> (string fset \<Rightarrow> string list) \<Rightarrow> string \<Rightarrow> addressBook \<Rightarrow> addressBook" where
  "trimRounds 0 ord protected m = m"
| "trimRounds (Suc n) ord protected m =
     (if fcard (fmdom m) \<le> maxKnownPeerAddresses then m
      else let oldest = oldestAddress ord protected m
           in if oldest = [] then m else trimRounds n ord protected (fmdrop oldest m))"

definition trimKnownAddresses :: "(string fset \<Rightarrow> string list) \<Rightarrow> string \<Rightarrow> addressBook \<Rightarrow> addressBook" where
  "trimKnownAddresses ord protected m = trimRounds (fcard (fmdom m)) ord protected m"

definition rememberAddress ::
    "(string fset \<Rightarrow> string list) \<Rightarrow> string \<Rightarrow> string \<Rightarrow> time \<Rightarrow> addressBook \<Rightarrow> bool \<times> addressBook" where
  "rememberAddress ord addr source seen m =
     (case fmlookup m addr of
        Some e \<Rightarrow> (False, fmupd addr (e\<lparr>ka_Source := (if source \<noteq> [] then source else ka_Source e),
                                       ka_LastSeen := seen\<rparr>) m)
      | None \<Rightarrow> (True, trimKnownAddresses ord addr
                  (fmupd addr (noAddress\<lparr>ka_Addr := addr, ka_Source := source, ka_LastSeen := seen\<rparr>) m)))"

definition rememberPeerAddress ::
    "p2pPolicy \<Rightarrow> (string fset \<Rightarrow> string list) \<Rightarrow> string \<Rightarrow> string \<Rightarrow> time \<Rightarrow> addressBook \<Rightarrow> bool \<times> addressBook" where
  "rememberPeerAddress pol ord addr source now m =
     (case normalizePeerAddress addr (pp_DefaultPort pol) of None \<Rightarrow> (False, m)
      | Some a \<Rightarrow> rememberAddress ord a source now m)"

definition markKnownPeerConnected :: "p2pPolicy \<Rightarrow> string \<Rightarrow> bool \<Rightarrow> time \<Rightarrow> addressBook \<Rightarrow> addressBook" where
  "markKnownPeerConnected pol addr outbound now m =
     (case normalizePeerAddress addr (pp_DefaultPort pol) of None \<Rightarrow> m
      | Some a \<Rightarrow>
        let direction = (if outbound then ''outbound'' else ''inbound'');
            i = (case fmlookup m a of None \<Rightarrow> noAddress | Some i \<Rightarrow> i);
            i = (if ka_Addr i = [] then i\<lparr>ka_Addr := a, ka_Source := direction @ ''-handshake''\<rparr> else i)
        in fmupd a (i\<lparr>ka_LastSeen := now, ka_LastConnected := now, ka_Successes := ka_Successes i + 1,
                      ka_LastDirection := direction\<rparr>) m)"

definition markKnownPeerFailure :: "p2pPolicy \<Rightarrow> string \<Rightarrow> time \<Rightarrow> addressBook \<Rightarrow> addressBook" where
  "markKnownPeerFailure pol addr now m =
     (case normalizePeerAddress addr (pp_DefaultPort pol) of None \<Rightarrow> m
      | Some a \<Rightarrow>
        let i = (case fmlookup m a of None \<Rightarrow> noAddress | Some i \<Rightarrow> i);
            i = (if ka_Addr i = [] then i\<lparr>ka_Addr := a, ka_Source := ''dial-failure''\<rparr> else i)
        in fmupd a (i\<lparr>ka_LastFailure := now, ka_Failures := ka_Failures i + 1\<rparr>) m)"

text \<open>
  Sorted by the last sighting, newest first; \<open>sort.Slice\<close> leaves the order of equal ones open,
  as the order of the map already does.
\<close>

definition knownAddressInfos :: "(string fset \<Rightarrow> string list) \<Rightarrow> addressBook \<Rightarrow> knownPeerAddress list" where
  "knownAddressInfos ord m =
     sort_key (\<lambda>i. - ka_LastSeen i) (List.map_filter (fmlookup m) (ord (fmdom m)))"

section \<open>Outstanding requests\<close>

record getdataReq =
  gr_peer :: string
  gr_requested :: time

definition recordGetdataReq :: "string \<Rightarrow> string \<Rightarrow> time \<Rightarrow> (string, getdataReq) fmap \<Rightarrow> (string, getdataReq) fmap" where
  "recordGetdataReq hash peerAddr now m =
     (if hash |\<in>| fmdom m then m else fmupd hash \<lparr>gr_peer = peerAddr, gr_requested = now\<rparr> m)"

definition timedOut :: "time \<Rightarrow> getdataReq \<Rightarrow> bool" where
  "timedOut now r \<longleftrightarrow> sub_time now (gr_requested r) > getdataTimeout"

definition sweepGetdataTimeouts ::
    "(string fset \<Rightarrow> string list) \<Rightarrow> time \<Rightarrow> (string, getdataReq) fmap \<Rightarrow> string list \<times> (string, getdataReq) fmap" where
  "sweepGetdataTimeouts ord now m =
     (let late = (\<lambda>h. case fmlookup m h of Some r \<Rightarrow> timedOut now r | None \<Rightarrow> False)
      in (List.filter late (ord (fmdom m)), fmfilter (\<lambda>h. \<not> late h) m))"

text \<open>
  A missing parent may be asked for again after a while; old entries are forgotten when the
  map is full.
\<close>

definition tryClaimMissingParent ::
    "string \<Rightarrow> time \<Rightarrow> (string, time) fmap \<Rightarrow> bytes option \<times> (string, time) fmap" where
  "tryClaimMissingParent parentHash now m =
     (if parentHash = [] then (None, m)
      else if (case fmlookup m parentHash of Some t0 \<Rightarrow> sub_time now t0 < missingParentTTL | None \<Rightarrow> False)
      then (None, m)
      else
        let m = (if fcard (fmdom m) \<ge> missingParentSeenCap
                 then fmfilter (\<lambda>h. \<not> (case fmlookup m h of Some t \<Rightarrow> sub_time now t > missingParentEvictTTL
                                       | None \<Rightarrow> False)) m
                 else m);
            m = fmupd parentHash now m
        in (case hash_FromString parentHash of Inl _ \<Rightarrow> (None, m)
            | Inr h \<Rightarrow>
              (case InvPayload [\<lparr>inv_Type = 2, inv_Hash = h\<rparr>] of Inl _ \<Rightarrow> (None, m)
               | Inr payload \<Rightarrow> (Some payload, m))))"

section \<open>Choosing peers\<close>

definition peerStale :: "p2pPolicy \<Rightarrow> time \<Rightarrow> peer \<Rightarrow> bool" where
  "peerStale pol now p \<longleftrightarrow>
     (pr_lastHeightUpdate p \<noteq> 0 \<and> sub_time now (pr_lastHeightUpdate p) > pp_staleThreshold pol) \<or>
     (pr_lastSeen p \<noteq> 0 \<and> sub_time now (pr_lastSeen p) > pp_staleThreshold pol)"

text \<open>The comparison of the stable sort, as a key: every step of it orders by one component.\<close>

definition candidateKey :: "peer \<Rightarrow> int \<times> bool \<times> int \<times> int \<times> bool \<times> time" where
  "candidateKey p =
     (- sint (pr_height p), pr_lastSyncError p \<noteq> NoSyncError, - pr_syncSuccesses p, pr_syncFailures p,
      pr_lastSyncRequest p \<noteq> 0, pr_lastSyncRequest p)"

definition syncCandidates ::
    "p2pPolicy \<Rightarrow> i32 \<Rightarrow> time \<Rightarrow> (nat \<times> peer) list \<Rightarrow> (nat \<times> peer) list" where
  "syncCandidates pol localHeight now peers =
     take 8 (sort_key (candidateKey \<circ> snd)
       (List.filter (\<lambda>(_, p). \<not> pr_height p <s 0 \<and>
          \<not> (peerStale pol now p \<and> pr_height p \<le>s localHeight \<and> pr_lastSyncError p \<noteq> NoSyncError)) peers))"

definition BestPeerHeight :: "(nat \<times> peer) list \<Rightarrow> i32" where
  "BestPeerHeight peers = fold (\<lambda>(_, p) best. if best <s pr_height p then pr_height p else best) peers (-1)"

text \<open>The category of a peer for the mining guard.\<close>

definition peerQuality :: "bool \<Rightarrow> peer \<Rightarrow> string" where
  "peerQuality stale p =
     (if stale \<or> pr_missedPongs p \<ge> 3 then ''poor''
      else if pr_banScore p > 0 \<or> pr_rateLimited p then ''watch''
      else if pr_lastRTT p > second then ''degraded'' else ''healthy'')"

definition classifyPeerSafety ::
    "i32 \<Rightarrow> i32 \<Rightarrow> bool \<Rightarrow> int \<Rightarrow> string \<Rightarrow> string \<Rightarrow> string \<Rightarrow> syncError \<Rightarrow> chain_error option \<Rightarrow> int \<Rightarrow>
     string \<times> bool \<times> string" where
  "classifyPeerSafety localHeight peerHeight stale missedPongs quality chainID expectedChainID
       lastSyncError lastBlockReject rtt =
     (if TrimSpace chainID \<noteq> [] \<and> TrimSpace expectedChainID \<noteq> [] \<and> chainID \<noteq> expectedChainID
      then (''wrong_chain_id'', False, ''wrong chain/genesis'')
      else if lastBlockReject \<noteq> None then (''protocol_error'', False, ''block rejected'')
      else if lastSyncError \<noteq> NoSyncError then (''protocol_error'', False, ''sync error'')
      else if missedPongs \<ge> 3 then (''unresponsive'', False, ''timeout'')
      else if 0 <s localHeight \<and> peerHeight \<le>s 0 then (''stale_chain_data'', False, ''unknown height'')
      else if 0 <s localHeight \<and> 0 <s peerHeight then
        (let lag = localHeight - peerHeight in
         if lag <s 0 then (''stronger_chainwork'', False, ''peer reports higher chain height'')
         else if lag = 0 then (''current_agreeing'', True, ''current and agreeing'')
         else if lag = 1 then (''lagging_1_block'', True, ''lagging by 1 block'')
         else if lag = 2 then (''lagging_2_blocks'', True, ''lagging by 2 blocks'')
         else if stale then (''stale_chain_data'', False, ''stale chain data'')
         else (''lagging_more_than_2'', False, ''lagging by more than 2 blocks''))
      else if ToLowerASCII quality = ''poor'' then (''unresponsive'', False, ''poor peer quality'')
      else if stale then (''stale_chain_data'', False, ''stale chain data'')
      else if rtt > 5 * second then (''unresponsive'', False, ''poor ping'')
      else (''current_agreeing'', True, ''current and agreeing''))"

definition peerCategory :: "p2pPolicy \<Rightarrow> i32 \<Rightarrow> time \<Rightarrow> peer \<Rightarrow> string \<times> bool \<times> string" where
  "peerCategory pol localHeight now p =
     classifyPeerSafety localHeight (pr_height p) (peerStale pol now p) (pr_missedPongs p)
       (peerQuality (peerStale pol now p) p) (pr_chainID p) (pp_chainID pol) (pr_lastSyncError p)
       (pr_lastBlockReject p) (pr_lastRTT p)"

definition limitInv :: "'a list \<Rightarrow> int \<Rightarrow> 'a list" where
  "limitInv invs mx = (if mx \<le> 0 then [] else if int (length invs) \<le> mx then invs else take (nat mx) invs)"

end
