(* ===== verification/P2PNode.thy ===== *)
theory P2PNode
  imports P2PPeer Mempool
begin

text \<open>
  The state of the peer-to-peer server (\<^verbatim>\<open>internal/p2p/server.go\<close> and
  \<^verbatim>\<open>announce.go\<close>) together with the chain and the pool it works on, and what it does
  for its peers: writing messages, asking for headers and blocks, serving inventory, and
  announcing blocks and transactions.

  Peers are named by numbers, never used twice, where the code has pointers. A write to a connection may fail at
  any time: whether the next one succeeds is read off a list of outcomes in the environment, and
  what was written completely is recorded in the order of the writes. Logging is left out.
\<close>

definition userAgent :: bytes where "userAgent = bytes_of_string ''/Legacy-GO:1.0.20/''"

record conn =
  cn_peer :: peer
  cn_gotVersion :: bool
  cn_gotVerAck :: bool
  cn_didSync :: bool
  cn_dialed :: "string option"

record health =
  hl_blockInvsReceived :: int
  hl_getDataBlocksRecv :: int
  hl_blocksServed :: int
  hl_blocksRequested :: int
  hl_blocksAnnounced :: int
  hl_blockReqTimeouts :: int
  hl_blockMessagesRecv :: int
  hl_headersBatchesRecv :: int
  hl_headersRejected :: int
  hl_missingParentReqs :: int
  hl_wdReconnects :: int
  hl_syncRetryCount :: int
  hl_syncPeerRotations :: int
  hl_lastSyncPeer :: string
  hl_lastPeerMsg :: time
  hl_lastHeaderMsg :: time
  hl_lastBlockMsg :: time
  hl_lastSyncReq :: time
  hl_lastGetHeader :: time
  hl_lastGetBlock :: time
  hl_lastBlockConn :: time
  hl_lastHeightChg :: time

definition newHealth :: health where
  "newHealth = \<lparr>hl_blockInvsReceived = 0, hl_getDataBlocksRecv = 0, hl_blocksServed = 0,
     hl_blocksRequested = 0, hl_blocksAnnounced = 0, hl_blockReqTimeouts = 0, hl_blockMessagesRecv = 0,
     hl_headersBatchesRecv = 0, hl_headersRejected = 0, hl_missingParentReqs = 0, hl_wdReconnects = 0,
     hl_syncRetryCount = 0, hl_syncPeerRotations = 0, hl_lastSyncPeer = [], hl_lastPeerMsg = 0,
     hl_lastHeaderMsg = 0, hl_lastBlockMsg = 0, hl_lastSyncReq = 0, hl_lastGetHeader = 0,
     hl_lastGetBlock = 0, hl_lastBlockConn = 0, hl_lastHeightChg = 0\<rparr>"

text \<open>
  The address part of the server: known addresses, the bootstrap list, the times of the last
  dials, the addresses being dialled or connected to, and the dials in flight.
\<close>

record addrState =
  as_known :: addressBook
  as_bootstrap :: "string list"
  as_lastAttempt :: "(string, time) fmap"
  as_knownOutbound :: "string fset"
  as_dials :: "string list"

record Node =
  nd_chain :: Chain
  nd_pool :: "Pool option"
  nd_peers :: "(nat, conn) fmap"
  nd_nextPeer :: nat
  nd_bans :: bans
  nd_addr :: addrState
  nd_getdata :: "(string, getdataReq) fmap"
  nd_missing :: "(string, time) fmap"
  nd_rate :: rateWindow
  nd_health :: health
  nd_tasks :: "(string \<times> bytes \<times> nat) list"
  nd_sent :: "(nat \<times> string \<times> bytes) list"
  nd_writes :: nat

definition newNode :: "Chain \<Rightarrow> Pool option \<Rightarrow> Node" where
  "newNode ch p =
     \<lparr>nd_chain = ch, nd_pool = p, nd_peers = fmempty, nd_nextPeer = 0, nd_bans = fmempty,
      nd_addr = \<lparr>as_known = fmempty, as_bootstrap = [], as_lastAttempt = fmempty,
                 as_knownOutbound = {||}, as_dials = []\<rparr>,
      nd_getdata = fmempty, nd_missing = fmempty, nd_rate = \<lparr>rw_start = 0, rw_count = 0\<rparr>,
      nd_health = newHealth, nd_tasks = [], nd_sent = [], nd_writes = 0\<rparr>"

record nodeEnv =
  ne_chain :: chainEnv
  ne_policy :: p2pPolicy
  ne_ord :: map_order
  ne_peerOrd :: "nat fset \<Rightarrow> nat list"
  ne_write :: "nat \<Rightarrow> bool"
  ne_blockErrText :: "chain_error \<Rightarrow> string"
  ne_txErrText :: "mempool_error \<Rightarrow> string"
  ne_nonce :: "nat \<Rightarrow> u64"

text \<open>The clock as the chain reads it: seconds of the Unix epoch.\<close>

definition unixSeconds :: "time \<Rightarrow> int" where
  "unixSeconds now = now div second - 62135596800"

definition chainNow :: "time \<Rightarrow> u32" where
  "chainNow now = word_of_int (unixSeconds now)"

section \<open>Access\<close>

definition updPeer :: "nat \<Rightarrow> (peer \<Rightarrow> peer) \<Rightarrow> Node \<Rightarrow> Node" where
  "updPeer i f n =
     (case fmlookup (nd_peers n) i of None \<Rightarrow> n
      | Some c \<Rightarrow> n\<lparr>nd_peers := fmupd i (c\<lparr>cn_peer := f (cn_peer c)\<rparr>) (nd_peers n)\<rparr>)"

definition updConn :: "nat \<Rightarrow> (conn \<Rightarrow> conn) \<Rightarrow> Node \<Rightarrow> Node" where
  "updConn i f n =
     (case fmlookup (nd_peers n) i of None \<Rightarrow> n
      | Some c \<Rightarrow> n\<lparr>nd_peers := fmupd i (f c) (nd_peers n)\<rparr>)"

definition updHealth :: "(health \<Rightarrow> health) \<Rightarrow> Node \<Rightarrow> Node" where
  "updHealth f n = n\<lparr>nd_health := f (nd_health n)\<rparr>"

definition snapshotPeers :: "nodeEnv \<Rightarrow> Node \<Rightarrow> (nat \<times> peer) list" where
  "snapshotPeers E n =
     List.map_filter (\<lambda>i. map_option (\<lambda>c. (i, cn_peer c)) (fmlookup (nd_peers n) i))
       (ne_peerOrd E (fmdom (nd_peers n)))"

definition localHeight :: "Node \<Rightarrow> i32" where
  "localHeight n = (case ch_tip (nd_chain n) of None \<Rightarrow> -1 | Some tip \<Rightarrow> ix_Height tip)"

definition addBlocksRequested :: "nat \<Rightarrow> Node \<Rightarrow> Node" where
  "addBlocksRequested k = updHealth (\<lambda>h. h\<lparr>hl_blocksRequested := hl_blocksRequested h + int k\<rparr>)"

definition addBlocksAnnounced :: "nat \<Rightarrow> Node \<Rightarrow> Node" where
  "addBlocksAnnounced k = updHealth (\<lambda>h. h\<lparr>hl_blocksAnnounced := hl_blocksAnnounced h + int k\<rparr>)"

section \<open>Writing\<close>

text \<open>A write to a closed connection fails.\<close>

definition writePeerMessage :: "nodeEnv \<Rightarrow> nat \<Rightarrow> string \<Rightarrow> bytes \<Rightarrow> Node \<Rightarrow> bool \<times> Node" where
  "writePeerMessage E i command payload n0 =
     (let n = n0\<lparr>nd_writes := nd_writes n0 + 1\<rparr> in
      case fmlookup (nd_peers n) i of None \<Rightarrow> (False, n)
      | Some c \<Rightarrow>
        if pr_closed (cn_peer c) \<or> \<not> ne_write E (nd_writes n0) then (False, n)
        else (case WriteMessage (pp_MessageStart (ne_policy E)) command payload of
                Inl _ \<Rightarrow> (False, n)
              | Inr _ \<Rightarrow>
                (True, (updPeer i (\<lambda>p. p\<lparr>pr_bytesSent := pr_bytesSent p + of_nat (length payload + 24)\<rparr>) n)
                   \<lparr>nd_sent := nd_sent n @ [(i, command, payload)]\<rparr>)))"

definition sendReject :: "nodeEnv \<Rightarrow> nat \<Rightarrow> string \<Rightarrow> byte \<Rightarrow> string \<Rightarrow> Node \<Rightarrow> Node" where
  "sendReject E i cmd code reason n =
     snd (writePeerMessage E i ''reject'' (Reject_Bytes (NewReject cmd code reason)) n)"

definition sendRejectWithHash :: "nodeEnv \<Rightarrow> nat \<Rightarrow> string \<Rightarrow> byte \<Rightarrow> string \<Rightarrow> hash \<Rightarrow> Node \<Rightarrow> Node" where
  "sendRejectWithHash E i cmd code reason h n =
     snd (writePeerMessage E i ''reject'' (Reject_Bytes ((NewReject cmd code reason)\<lparr>rj_Hash := h\<rparr>)) n)"

section \<open>The version message\<close>

definition net_address_bytes :: "bytes option \<Rightarrow> u16 \<Rightarrow> u16 \<Rightarrow> bytes" where
  "net_address_bytes ip port defaultPort =
     le_bytes 8 nodeNetwork @ (case Option.bind ip To16 of Some a \<Rightarrow> a | None \<Rightarrow> replicate 16 0) @
     be_bytes 2 (if ip \<noteq> None \<and> port > 0 then port else defaultPort)"

definition versionPayload :: "nodeEnv \<Rightarrow> time \<Rightarrow> bytes \<Rightarrow> u16 \<Rightarrow> u64 \<Rightarrow> Node \<Rightarrow> bytes" where
  "versionPayload E now ip port nonce n =
     (let pol = ne_policy E in
      le_bytes 4 protocolVersion @ le_bytes 8 nodeNetwork @ le_bytes 8 (word_of_int (unixSeconds now) :: u64) @
      net_address_bytes (Some ip) port (pp_DefaultPort pol) @
      net_address_bytes None 0 (pp_DefaultPort pol) @
      le_bytes 8 nonce @ WriteVarBytes userAgent @ le_bytes 4 (localHeight n) @ [0] @
      (if pp_enforceChainID pol
       then WriteVarBytes (bytes_of_string (pp_chainID pol)) @ pp_MessageStart pol else []))"

record versionMeta =
  vm_Version :: i32
  vm_SubVer :: string
  vm_Height :: i32
  vm_ChainID :: string

text \<open>
  Services, time, both addresses and the nonce are skipped; the relay byte and the chain id are
  optional, and a chain id that cannot be read counts as absent.
\<close>

definition parseVersionPayload :: "bytes \<Rightarrow> versionMeta option" where
  "parseVersionPayload payload =
     (case (read_u32 :: i32 wreader) payload of Inl _ \<Rightarrow> None
      | Inr (version, r) \<Rightarrow>
        if length r < 8 + 8 + 26 + 26 + 8 then None
        else (case ReadVarBytes 256 ''user agent'' (drop (8 + 8 + 26 + 26 + 8) r) of Inl _ \<Rightarrow> None
          | Inr (ua, r) \<Rightarrow>
            (case (read_u32 :: i32 wreader) r of Inl _ \<Rightarrow> None
             | Inr (height, r) \<Rightarrow>
               let r = drop 1 r in
               Some \<lparr>vm_Version = version, vm_SubVer = string_of_bytes ua, vm_Height = height,
                     vm_ChainID = (if r = [] then []
                       else (case ReadVarBytes 256 ''chain id'' r of Inl _ \<Rightarrow> []
                             | Inr (c, _) \<Rightarrow> string_of_bytes c))\<rparr>)))"

definition setVersionMeta :: "time \<Rightarrow> versionMeta \<Rightarrow> peer \<Rightarrow> peer" where
  "setVersionMeta now m p =
     p\<lparr>pr_version := vm_Version m, pr_subver := vm_SubVer m, pr_height := vm_Height m,
       pr_chainID := vm_ChainID m, pr_lastHeightUpdate := now\<rparr>"

section \<open>Asking for headers and blocks\<close>

text \<open>\<open>requestHeaders\<close> and \<open>requestBlocks\<close> differ in the command and in the time they note.\<close>

definition requestLocator ::
    "nodeEnv \<Rightarrow> time \<Rightarrow> string \<Rightarrow> (health \<Rightarrow> health) \<Rightarrow> nat \<Rightarrow> Node \<Rightarrow> bool \<times> Node" where
  "requestLocator E now command note i n =
     (case Locator (nd_chain n) of [] \<Rightarrow> (True, n)
      | h # hs \<Rightarrow>
        (case GetBlocks_Bytes \<lparr>gb_Version = protocolVersion, gb_Locator = h # hs, gb_Stop = zero_hash\<rparr> of
           Inl _ \<Rightarrow> (False, n)
         | Inr payload \<Rightarrow>
           writePeerMessage E i command payload
             (updPeer i (setLastLocatorTip now (hash_String h))
               (updHealth (\<lambda>s. note (s\<lparr>hl_lastSyncReq := now\<rparr>)) n))))"

definition requestHeaders :: "nodeEnv \<Rightarrow> time \<Rightarrow> nat \<Rightarrow> Node \<Rightarrow> bool \<times> Node" where
  "requestHeaders E now = requestLocator E now ''getheaders'' (\<lambda>h. h\<lparr>hl_lastGetHeader := now\<rparr>)"

definition requestBlocks :: "nodeEnv \<Rightarrow> time \<Rightarrow> nat \<Rightarrow> Node \<Rightarrow> bool \<times> Node" where
  "requestBlocks E now = requestLocator E now ''getblocks'' (\<lambda>h. h\<lparr>hl_lastGetBlock := now\<rparr>)"

text \<open>
  The loop of \<open>requestUnknownBlocks\<close>: headers are asked for once, at the first unknown block,
  and the batch ends when it is full.
\<close>

definition knownTx :: "string \<Rightarrow> Node \<Rightarrow> bool" where
  "knownTx h n = (case nd_pool n of None \<Rightarrow> True | Some p \<Rightarrow> LookupTx h p \<noteq> None)"

fun collectUnknown ::
    "nodeEnv \<Rightarrow> time \<Rightarrow> nat \<Rightarrow> InvVect list \<Rightarrow> bool \<Rightarrow> InvVect list \<Rightarrow> Node \<Rightarrow> InvVect list \<times> Node" where
  "collectUnknown E now i [] asked want n = (want, n)"
| "collectUnknown E now i (v # vs) asked want n =
     (let h = hash_String (inv_Hash v) in
      if inv_Type v = 2 \<and> HasBlock h (nd_chain n) then collectUnknown E now i vs asked want n
      else if inv_Type v = 1 \<and> knownTx h n then collectUnknown E now i vs asked want n
      else
        let n = (if inv_Type v = 2 \<and> \<not> asked then snd (requestHeaders E now i n) else n);
            asked = (asked \<or> inv_Type v = 2);
            want = (if inv_Type v = 2 \<or> inv_Type v = 1 then want @ [v] else want)
        in if length want \<ge> maxGetDataItems then (want, n) else collectUnknown E now i vs asked want n)"

definition countBlocks :: "InvVect list \<Rightarrow> nat" where
  "countBlocks invs = length (List.filter (\<lambda>v. inv_Type v = 2) invs)"

definition requestUnknownBlocks :: "nodeEnv \<Rightarrow> time \<Rightarrow> nat \<Rightarrow> InvVect list \<Rightarrow> Node \<Rightarrow> bool \<times> Node" where
  "requestUnknownBlocks E now i invs n0 =
     (let (want, n) = collectUnknown E now i invs False [] n0 in
      if want = [] then (True, n)
      else (case InvPayload want of Inl _ \<Rightarrow> (False, n)
        | Inr payload \<Rightarrow>
          writePeerMessage E i ''getdata'' payload
            (addBlocksRequested (countBlocks want)
              (updPeer i (markBlocksRequested now (countBlocks want)) n))))"

text \<open>
  A missing parent is asked for at the peer that sent the child at once, and by a goroutine,
  here a task, at some other peers that are ahead.
\<close>

definition noteMissingParent :: "time \<Rightarrow> nat \<Rightarrow> Node \<Rightarrow> Node" where
  "noteMissingParent now i n =
     addBlocksRequested 1 (updPeer i (markBlocksRequested now 1)
       (updHealth (\<lambda>h. h\<lparr>hl_missingParentReqs := hl_missingParentReqs h + 1\<rparr>) n))"

definition sendMissingParentRequest :: "nodeEnv \<Rightarrow> time \<Rightarrow> nat \<Rightarrow> string \<Rightarrow> bytes \<Rightarrow> Node \<Rightarrow> Node" where
  "sendMissingParentRequest E now i parentHash payload n0 =
     (let (ok, n) = writePeerMessage E i ''getdata'' payload n0;
          n = (if ok then noteMissingParent now i n else n)
      in n\<lparr>nd_tasks := nd_tasks n @ [(parentHash, payload, i)]\<rparr>)"

definition requestMissingParent :: "nodeEnv \<Rightarrow> time \<Rightarrow> nat \<Rightarrow> string \<Rightarrow> Node \<Rightarrow> Node" where
  "requestMissingParent E now i parentHash n =
     (let (claim, m) = tryClaimMissingParent parentHash now (nd_missing n);
          n = n\<lparr>nd_missing := m\<rparr>
      in case claim of None \<Rightarrow> n | Some payload \<Rightarrow> sendMissingParentRequest E now i parentHash payload n)"

fun askOthers ::
    "nodeEnv \<Rightarrow> time \<Rightarrow> bytes \<Rightarrow> nat \<Rightarrow> i32 \<Rightarrow> (nat \<times> peer) list \<Rightarrow> nat \<Rightarrow> Node \<Rightarrow> Node" where
  "askOthers E now payload skip height [] asked n = n"
| "askOthers E now payload skip height ((i, p) # ps) asked n =
     (if asked \<ge> maxMissingParentPeers then n
      else if i = skip \<or> pr_height p \<le>s height \<or> pr_lastSyncError p \<noteq> NoSyncError
      then askOthers E now payload skip height ps asked n
      else (case writePeerMessage E i ''getdata'' payload n of
              (False, n) \<Rightarrow> askOthers E now payload skip height ps asked n
            | (True, n) \<Rightarrow>
              askOthers E now payload skip height ps (asked + 1) (noteMissingParent now i n)))"

definition requestMissingParentFromOthers :: "nodeEnv \<Rightarrow> time \<Rightarrow> bytes \<Rightarrow> nat \<Rightarrow> Node \<Rightarrow> Node" where
  "requestMissingParentFromOthers E now payload skip n =
     askOthers E now payload skip (localHeight n)
       (syncCandidates (ne_policy E) (localHeight n) now (snapshotPeers E n)) 0 n"

section \<open>Serving inventory, headers and blocks\<close>

fun serveItems ::
    "nodeEnv \<Rightarrow> nat \<Rightarrow> InvVect list \<Rightarrow> nat \<Rightarrow> Node \<Rightarrow> (bool \<times> nat) \<times> Node" where
  "serveItems E i [] served n = ((True, served), n)"
| "serveItems E i (v # vs) served n =
     (let h = hash_String (inv_Hash v) in
      if inv_Type v = 2 then
        (case LoadBlock h (ch_store (nd_chain n)) of Inl _ \<Rightarrow> serveItems E i vs served n
         | Inr (block, _) \<Rightarrow>
           (case writePeerMessage E i ''block'' (block_Serialize block) n of
              (False, n) \<Rightarrow> ((False, served), n)
            | (True, n) \<Rightarrow> serveItems E i vs (served + 1) n))
      else if inv_Type v = 1 then
        (case Option.bind (nd_pool n) (LookupTx h) of None \<Rightarrow> serveItems E i vs served n
         | Some tx \<Rightarrow>
           (case writePeerMessage E i ''tx'' (tx_Serialize tx) n of
              (False, n) \<Rightarrow> ((False, served), n)
            | (True, n) \<Rightarrow> serveItems E i vs served n))
      else serveItems E i vs served n)"

definition serveInventory :: "nodeEnv \<Rightarrow> nat \<Rightarrow> InvVect list \<Rightarrow> Node \<Rightarrow> bool \<times> Node" where
  "serveInventory E i invs n =
     (case serveItems E i (limitInv invs (int maxServeInvItems)) 0 n of
        ((False, _), n) \<Rightarrow> (False, n)
      | ((True, served), n) \<Rightarrow>
        (True, updHealth (\<lambda>h. h\<lparr>hl_blocksServed := hl_blocksServed h + int served\<rparr>)
                 (updPeer i (markBlocksServed served) n)))"

fun hashHeaders :: "chainEnv \<Rightarrow> BlockHeader list \<Rightarrow> hash list option" where
  "hashHeaders E [] = Some []"
| "hashHeaders E (h # hs) =
     (case hashHeader E h of Inl _ \<Rightarrow> None
      | Inr x \<Rightarrow> map_option ((#) x) (hashHeaders E hs))"

definition blockInv :: "hash \<Rightarrow> InvVect" where
  "blockInv h = \<lparr>inv_Type = 2, inv_Hash = h\<rparr>"

definition serveBlockInventory :: "nodeEnv \<Rightarrow> nat \<Rightarrow> GetBlocks \<Rightarrow> Node \<Rightarrow> bool \<times> Node" where
  "serveBlockInventory E i req n0 =
     (let (r, ch) = HeadersAfter (ne_chain E) (gb_Locator req) (gb_Stop req) (int maxServeInvItems) (nd_chain n0);
          n = n0\<lparr>nd_chain := ch\<rparr>
      in case r of Inl _ \<Rightarrow> (False, n)
         | Inr [] \<Rightarrow> (True, n)
         | Inr hs \<Rightarrow>
           (case hashHeaders (ne_chain E) hs of None \<Rightarrow> (False, n)
            | Some hashes \<Rightarrow>
              (case InvPayload (map blockInv hashes) of Inl _ \<Rightarrow> (False, n)
               | Inr payload \<Rightarrow> writePeerMessage E i ''inv'' payload (addBlocksAnnounced (length hashes) n))))"

definition serveHeaders :: "nodeEnv \<Rightarrow> nat \<Rightarrow> GetBlocks \<Rightarrow> Node \<Rightarrow> bool \<times> Node" where
  "serveHeaders E i req n0 =
     (let (r, ch) = HeadersAfter (ne_chain E) (gb_Locator req) (gb_Stop req) (int (unat MaxHeadersPerMessage)) (nd_chain n0);
          n = n0\<lparr>nd_chain := ch\<rparr>
      in case r of Inl _ \<Rightarrow> (False, n)
         | Inr hs \<Rightarrow>
           (case HeadersPayload hs of Inl _ \<Rightarrow> (False, n)
            | Inr payload \<Rightarrow> writePeerMessage E i ''headers'' payload n))"

section \<open>Asking for the blocks of a header batch\<close>

definition recordRequests :: "nat \<Rightarrow> time \<Rightarrow> InvVect list \<Rightarrow> Node \<Rightarrow> Node" where
  "recordRequests i now batch n =
     (case fmlookup (nd_peers n) i of None \<Rightarrow> n
      | Some c \<Rightarrow>
        n\<lparr>nd_getdata := fold (\<lambda>v. recordGetdataReq (hash_String (inv_Hash v)) (pr_remote (cn_peer c)) now)
            (List.filter (\<lambda>v. inv_Type v = 2) batch) (nd_getdata n)\<rparr>)"

function sendBatches :: "nodeEnv \<Rightarrow> time \<Rightarrow> nat \<Rightarrow> InvVect list \<Rightarrow> Node \<Rightarrow> bool \<times> Node" where
  "sendBatches E now i want n0 =
     (if want = [] then (True, n0)
      else
        let batch = take maxGetDataItems want in
        (case InvPayload batch of Inl _ \<Rightarrow> (False, n0)
         | Inr payload \<Rightarrow>
           let n = recordRequests i now batch
                 (addBlocksRequested (length batch) (updPeer i (markBlocksRequested now (length batch)) n0))
           in (case writePeerMessage E i ''getdata'' payload n of
                 (False, n) \<Rightarrow> (False, n)
               | (True, n) \<Rightarrow> sendBatches E now i (drop maxGetDataItems want) n)))"
  by pat_completeness auto
termination by (relation "measure (\<lambda>(E, now, i, want, n). length want)") (auto simp: maxGetDataItems_def)

declare sendBatches.simps [simp del]

text \<open>The unknown blocks of the batch, each also under its header's double hash.\<close>

definition wantedBlocks :: "Chain \<Rightarrow> (hash \<times> BlockHeader) list \<Rightarrow> InvVect list" where
  "wantedBlocks ch hs =
     concat (map (\<lambda>(hash, header).
       if HasBlock (hash_String hash) ch then []
       else blockInv hash # (if LegacyHeaderHash header \<noteq> hash then [blockInv (LegacyHeaderHash header)] else [])) hs)"

definition requestHeaderBlocks :: "nodeEnv \<Rightarrow> time \<Rightarrow> nat \<Rightarrow> BlockHeader list \<Rightarrow> Node \<Rightarrow> bool \<times> Node" where
  "requestHeaderBlocks E now i headers n0 =
     (case headers of [] \<Rightarrow> (True, updPeer i (\<lambda>p. p\<lparr>pr_lastHeightUpdate := now\<rparr>) n0)
      | header # _ \<Rightarrow>
        let tipHeight = localHeight n0;
            tip = tipHash (nd_chain n0);
            firstPrev = hash_String (hd_PrevBlock header);
            (r, ch) = ValidateHeaderSequence (ne_chain E) (chainNow now) headers (nd_chain n0);
            n = n0\<lparr>nd_chain := ch\<rparr>
        in case r of
             Inl _ \<Rightarrow> (False, if firstPrev \<noteq> [] \<and> firstPrev \<noteq> tip then requestMissingParent E now i firstPrev n else n)
           | Inr hashes \<Rightarrow>
             let n = (if 0 \<le>s tipHeight
                      then updPeer i (setAdvertisedHeight now
                             (let a = tipHeight + of_nat (length hashes) in if a <s 0 then 0 else a)) n
                      else n)
             in sendBatches E now i (wantedBlocks (nd_chain n) (zip hashes headers)) n)"

section \<open>Announcing\<close>

definition headerPayloadOf :: "hash \<Rightarrow> Node \<Rightarrow> bytes option" where
  "headerPayloadOf h n =
     (case LoadBlock (hash_String h) (ch_store (nd_chain n)) of Inl _ \<Rightarrow> None
      | Inr (block, _) \<Rightarrow>
        (case HeadersPayload [bk_Header block] of Inl _ \<Rightarrow> None | Inr payload \<Rightarrow> Some payload))"

fun announceTo :: "nodeEnv \<Rightarrow> bytes \<Rightarrow> bytes option \<Rightarrow> nat option \<Rightarrow> (nat \<times> peer) list \<Rightarrow> nat \<Rightarrow> Node \<Rightarrow> nat \<times> Node" where
  "announceTo E ip hdr skip [] sent n = (sent, n)"
| "announceTo E ip hdr skip ((i, p) # ps) sent n =
     (if skip = Some i then announceTo E ip hdr skip ps sent n
      else
        (case (if pr_wantHeaders p
               then (case hdr of None \<Rightarrow> (False, n) | Some payload \<Rightarrow> writePeerMessage E i ''headers'' payload n)
               else writePeerMessage E i ''inv'' ip n) of
           (False, n) \<Rightarrow> announceTo E ip hdr skip ps sent n
         | (True, n) \<Rightarrow> announceTo E ip hdr skip ps (sent + 1) n))"

definition announceBlockToPeersExcept :: "nodeEnv \<Rightarrow> hash \<Rightarrow> nat option \<Rightarrow> Node \<Rightarrow> Node" where
  "announceBlockToPeersExcept E h skip n0 =
     (case InvPayload [blockInv h] of Inl _ \<Rightarrow> n0
      | Inr ip \<Rightarrow>
        let (sent, n) = announceTo E ip (headerPayloadOf h n0) skip (snapshotPeers E n0) 0 n0
        in addBlocksAnnounced sent n)"

definition announceTxToPeersExcept :: "nodeEnv \<Rightarrow> hash \<Rightarrow> nat option \<Rightarrow> Node \<Rightarrow> Node" where
  "announceTxToPeersExcept E h skip n =
     (case InvPayload [\<lparr>inv_Type = 1, inv_Hash = h\<rparr>] of Inl _ \<Rightarrow> n
      | Inr ip \<Rightarrow>
        fold (\<lambda>(i, p) n. if skip = Some i then n else snd (writePeerMessage E i ''inv'' ip n))
          (snapshotPeers E n) n)"

definition announceTip :: "nodeEnv \<Rightarrow> nat \<Rightarrow> Node \<Rightarrow> bool \<times> Node" where
  "announceTip E i n =
     (if tipHash (nd_chain n) = [] then (True, n)
      else (case hash_FromString (tipHash (nd_chain n)) of Inl _ \<Rightarrow> (False, n)
        | Inr h \<Rightarrow>
          (case InvPayload [blockInv h] of Inl _ \<Rightarrow> (False, n)
           | Inr payload \<Rightarrow> writePeerMessage E i ''inv'' payload (addBlocksAnnounced 1 n))))"

end
