(* ===== verification/P2PGossip.thy ===== *)
theory P2PGossip
  imports P2PNode
begin

text \<open>
  The addresses of other nodes (\<^verbatim>\<open>internal/p2p/server.go\<close>): what an \<open>addr\<close> message is
  turned into, what is passed on and served, and which addresses are dialled. A dial that was
  started is in flight until its outcome arrives as an event of its own.
\<close>

definition unixTime :: "u32 \<Rightarrow> time" where
  "unixTime t = (int (unat t) + 62135596800) * second"

definition updAddr :: "(addrState \<Rightarrow> addrState) \<Rightarrow> Node \<Rightarrow> Node" where
  "updAddr f n = n\<lparr>nd_addr := f (nd_addr n)\<rparr>"

definition rememberOn :: "nodeEnv \<Rightarrow> time \<Rightarrow> string \<Rightarrow> string \<Rightarrow> Node \<Rightarrow> bool \<times> Node" where
  "rememberOn E now addr source n =
     (let (fresh, m) = rememberPeerAddress (ne_policy E) (ne_ord E) addr source now (as_known (nd_addr n))
      in (fresh, updAddr (\<lambda>a. a\<lparr>as_known := m\<rparr>) n))"

section \<open>Dialling\<close>

definition outboundCount :: "Node \<Rightarrow> nat" where
  "outboundCount n = fcard (ffilter (\<lambda>i. case fmlookup (nd_peers n) i of None \<Rightarrow> False
      | Some c \<Rightarrow> pr_outbound (cn_peer c)) (fmdom (nd_peers n)))"

definition peerCount :: "Node \<Rightarrow> nat" where
  "peerCount n = fcard (fmdom (nd_peers n))"

definition dialCapacityFull :: "Node \<Rightarrow> bool" where
  "dialCapacityFull n \<longleftrightarrow> outboundCount n \<ge> maxOutboundPeers \<or> peerCount n \<ge> maxPeers"

definition outboundDialSlots :: nat where "outboundDialSlots = 32"

definition addBootstrapPeer :: "nodeEnv \<Rightarrow> time \<Rightarrow> string \<Rightarrow> addrState \<Rightarrow> addrState" where
  "addBootstrapPeer E now addr0 a =
     (case normalizePeerAddress addr0 (pp_DefaultPort (ne_policy E)) of None \<Rightarrow> a
      | Some addr \<Rightarrow>
        a\<lparr>as_bootstrap := (if addr \<in> set (as_bootstrap a) then as_bootstrap a else as_bootstrap a @ [addr]),
          as_known := snd (rememberAddress (ne_ord E) addr ''bootstrap'' now (as_known a))\<rparr>)"

text \<open>
  An address that is dialled or connected to holds one of the slots for dials until the
  connection ends.
\<close>

definition AddNode :: "nodeEnv \<Rightarrow> time \<Rightarrow> string \<Rightarrow> Node \<Rightarrow> bool \<times> Node" where
  "AddNode E now addr0 n0 =
     (case normalizePeerAddress addr0 (pp_DefaultPort (ne_policy E)) of None \<Rightarrow> (False, n0)
      | Some addr \<Rightarrow>
        if pp_connectOnly (ne_policy E) \<noteq> {||} \<and> addr |\<notin>| pp_connectOnly (ne_policy E) then (False, n0)
        else
          let n1 = updAddr (addBootstrapPeer E now addr) n0;
              (throttled, m) = shouldThrottleOutboundDial (ne_policy E) addr now (as_lastAttempt (nd_addr n1));
              n = updAddr (\<lambda>a. a\<lparr>as_lastAttempt := m\<rparr>) n1
          in if throttled \<or> dialCapacityFull n \<or> addr |\<in>| as_knownOutbound (nd_addr n) \<or>
                fcard (as_knownOutbound (nd_addr n)) \<ge> outboundDialSlots
             then (True, n)
             else (True, updAddr (\<lambda>a. a\<lparr>as_knownOutbound := finsert addr (as_knownOutbound a),
                                       as_dials := as_dials a @ [addr]\<rparr>) n))"

section \<open>Address messages\<close>

definition addressString :: "nodeEnv \<Rightarrow> time \<Rightarrow> NetAddress \<Rightarrow> bool \<Rightarrow> string option" where
  "addressString E now a allowLocal =
     (if na_Port a = 0 \<or> \<not> relayableIP (Some (na_IP a)) allowLocal then None
      else
        let seen = unixTime (na_Timestamp a) in
        if na_Timestamp a \<noteq> 0 \<and> sub_time now seen > addrMaxAge then None
        else if na_Timestamp a \<noteq> 0 \<and> seen > now + 10 * minute then None
        else normalizePeerAddress (JoinHostPort (IP_String (na_IP a)) (dec_string (unat (na_Port a))))
               (pp_DefaultPort (ne_policy E)))"

definition isSelfAddress :: "nodeEnv \<Rightarrow> string \<Rightarrow> bool" where
  "isSelfAddress E addr =
     (case normalizePeerAddress addr (pp_DefaultPort (ne_policy E)) of None \<Rightarrow> False
      | Some normalized \<Rightarrow>
        pp_listenAddr (ne_policy E) \<noteq> [] \<and>
        normalizePeerAddress (pp_listenAddr (ne_policy E)) (pp_DefaultPort (ne_policy E)) = Some normalized)"

definition peerAddressActive :: "nodeEnv \<Rightarrow> string \<Rightarrow> Node \<Rightarrow> bool" where
  "peerAddressActive E addr n =
     (case normalizePeerAddress addr (pp_DefaultPort (ne_policy E)) of None \<Rightarrow> False
      | Some normalized \<Rightarrow>
        fBex (fmdom (nd_peers n)) (\<lambda>i. case fmlookup (nd_peers n) i of None \<Rightarrow> False
           | Some c \<Rightarrow> pr_remote (cn_peer c) = normalized))"

definition addrDialCount :: "nat \<Rightarrow> Node \<Rightarrow> int" where
  "addrDialCount i n =
     (case fmlookup (nd_peers n) i of None \<Rightarrow> 0 | Some c \<Rightarrow> pr_addrDialCount (cn_peer c))"

text \<open>The loop over the addresses: how many were dialled, and what is to be passed on.\<close>

fun learnAddresses ::
    "nodeEnv \<Rightarrow> time \<Rightarrow> nat \<Rightarrow> string \<Rightarrow> NetAddress list \<Rightarrow> nat \<Rightarrow> NetAddress list \<Rightarrow> Node \<Rightarrow>
     NetAddress list \<times> Node" where
  "learnAddresses E now i remote [] dialed relay n = (relay, n)"
| "learnAddresses E now i remote (a # as) dialed relay n =
     (case addressString E now a (localOrPrivateHost (splitHost remote)) of
        None \<Rightarrow> learnAddresses E now i remote as dialed relay n
      | Some addr \<Rightarrow>
        if isSelfAddress E addr then learnAddresses E now i remote as dialed relay n
        else
          let (fresh, n) = rememberOn E now addr (''addr:'' @ remote) n;
              relay = (if fresh \<and> relayableHost (splitHost addr) False \<and> length relay < maxAddrRelayItems
                       then relay @ [a] else relay)
          in if fresh \<and> dialed < maxAddrDialItems \<and> \<not> peerAddressActive E addr n then
               (if addrDialCount i n \<ge> maxAddrDialsPerPeer then learnAddresses E now i remote as dialed relay n
                else (case AddNode E now addr n of
                        (False, n) \<Rightarrow> learnAddresses E now i remote as dialed relay n
                      | (True, n) \<Rightarrow>
                        learnAddresses E now i remote as (dialed + 1) relay
                          (updPeer i (\<lambda>p. p\<lparr>pr_addrDialCount := pr_addrDialCount p + 1\<rparr>) n)))
             else learnAddresses E now i remote as dialed relay n)"

definition relayKnownAddresses :: "nodeEnv \<Rightarrow> NetAddress list \<Rightarrow> nat \<Rightarrow> Node \<Rightarrow> Node" where
  "relayKnownAddresses E addrs skip n =
     (if addrs = [] then n
      else (case AddrPayload addrs of Inl _ \<Rightarrow> n
        | Inr payload \<Rightarrow>
          fold (\<lambda>(i, p) n. if i = skip \<or> localOrPrivateHost (splitHost (pr_remote p)) then n
                           else snd (writePeerMessage E i ''addr'' payload n))
            (snapshotPeers E n) n))"

definition handleAddrPayload :: "nodeEnv \<Rightarrow> time \<Rightarrow> nat \<Rightarrow> string \<Rightarrow> bytes \<Rightarrow> Node \<Rightarrow> bool \<times> Node" where
  "handleAddrPayload E now i remote payload n0 =
     (case ReadAddrPayload payload of Inl _ \<Rightarrow> (False, n0)
      | Inr (addrs, _) \<Rightarrow>
        let (relay, n) = learnAddresses E now i remote addrs 0 [] n0
        in (True, relayKnownAddresses E relay i n))"

section \<open>Serving addresses\<close>

definition servedAddress :: "time \<Rightarrow> bool \<Rightarrow> knownPeerAddress \<Rightarrow> NetAddress option" where
  "servedAddress now includeLocal info =
     (case SplitHostPort (ka_Addr info) of None \<Rightarrow> None
      | Some (host, port) \<Rightarrow>
        let ip = ParseIP (TrimSet {CHR ''['', CHR '']''} host) in
        if \<not> relayableIP ip includeLocal then None
        else (case ParseInt64 port of None \<Rightarrow> None
          | Some k \<Rightarrow>
            if k \<le>s 0 \<or> 65535 <s k then None
            else Some \<lparr>na_Timestamp = word_of_int (unixSeconds (if ka_LastSeen info = 0 then now else ka_LastSeen info)),
                       na_Services = nodeNetwork, na_IP = the ip, na_Port = ucast k\<rparr>))"

definition knownNetAddresses :: "nodeEnv \<Rightarrow> time \<Rightarrow> int \<Rightarrow> bool \<Rightarrow> Node \<Rightarrow> NetAddress list" where
  "knownNetAddresses E now limit includeLocal n =
     (let mx = int (unat MaxAddrPerMessage);
          limit = (if limit \<le> 0 \<or> limit > mx then mx else limit)
      in take (nat limit) (List.map_filter (servedAddress now includeLocal)
           (knownAddressInfos (ne_ord E) (as_known (nd_addr n)))))"

definition sendKnownAddresses :: "nodeEnv \<Rightarrow> time \<Rightarrow> nat \<Rightarrow> string \<Rightarrow> int \<Rightarrow> Node \<Rightarrow> bool \<times> Node" where
  "sendKnownAddresses E now i remote limit n =
     (case AddrPayload (knownNetAddresses E now limit (localOrPrivateHost (splitHost remote)) n) of
        Inl _ \<Rightarrow> (False, n)
      | Inr payload \<Rightarrow> writePeerMessage E i ''addr'' payload n)"

section \<open>Seeds\<close>

text \<open>A list of addresses to dial, some of them to be remembered first; a full node stops.\<close>

fun dialAll :: "nodeEnv \<Rightarrow> time \<Rightarrow> (string \<times> string option) list \<Rightarrow> Node \<Rightarrow> bool \<times> Node" where
  "dialAll E now [] n = (True, n)"
| "dialAll E now ((addr, source) # as) n =
     (if dialCapacityFull n then (False, n)
      else
        let n = (case source of None \<Rightarrow> n | Some src \<Rightarrow> snd (rememberOn E now addr src n))
        in dialAll E now as (snd (AddNode E now addr n)))"

text \<open>
  The fixed seeds and the answers of the name servers are arguments; the addresses of a seed
  are those its lookup returned.
\<close>

definition connectSeeds ::
    "nodeEnv \<Rightarrow> time \<Rightarrow> string list \<Rightarrow> (string \<times> string list) list \<Rightarrow> Node \<Rightarrow> Node" where
  "connectSeeds E now fixedSeeds dns n0 =
     (let port = pp_DefaultPort (ne_policy E) in
      if dialCapacityFull n0 then n0
      else (case dialAll E now (map (\<lambda>a. (a, None)) (as_bootstrap (nd_addr n0))) n0 of
        (False, n) \<Rightarrow> n
      | (True, n) \<Rightarrow>
        (case dialAll E now (map (\<lambda>i. (ka_Addr i, None)) (knownAddressInfos (ne_ord E) (as_known (nd_addr n)))) n of
           (False, n) \<Rightarrow> n
         | (True, n) \<Rightarrow>
           if \<not> pp_seedPeers (ne_policy E) \<or> pp_connectOnly (ne_policy E) \<noteq> {||} then n
           else (case dialAll E now (List.map_filter (\<lambda>s. map_option (\<lambda>a. (a, Some ''fixed-seed''))
                        (normalizePeerAddress s port)) fixedSeeds) n of
             (False, n) \<Rightarrow> n
           | (True, n) \<Rightarrow>
             snd (dialAll E now (concat (map (\<lambda>(seed, hosts).
               map (\<lambda>h. (JoinHostPort h (dec_string (unat port)), Some (''dns:'' @ seed))) hosts) dns)) n)))))"

definition SetBootstrapPeers :: "nodeEnv \<Rightarrow> time \<Rightarrow> string list \<Rightarrow> Node \<Rightarrow> Node" where
  "SetBootstrapPeers E now peers =
     updAddr (\<lambda>a.
       let addrs = List.map_filter (\<lambda>p. normalizePeerAddress p (pp_DefaultPort (ne_policy E))) peers
       in a\<lparr>as_bootstrap := addrs,
            as_known := fold (\<lambda>addr m. snd (rememberAddress (ne_ord E) addr ''bootstrap'' now m)) addrs (as_known a)\<rparr>)"

end
