(* ===== verification/P2PHandler.thy ===== *)
theory P2PHandler
  imports P2PGossip
begin

text \<open>
  What happens at the node (\<^verbatim>\<open>handleConn\<close>, \<^verbatim>\<open>pingLoop\<close>, \<^verbatim>\<open>syncLoop\<close> and
  \<^verbatim>\<open>watchdogLoop\<close> of \<^verbatim>\<open>internal/p2p/server.go\<close>): a message arrives, a timer fires, a dial or
  a task ends, each one step on the whole node; the code runs a goroutine for each connection
  and serialises what it shares call by call. How a connection begins is several steps, one for
  each check and one for its registration, between which other goroutines run.
\<close>

text \<open>How the handling of a message ends: \<open>return\<close>, \<open>continue\<close>, or falling out of the switch.\<close>

datatype outcome = Close | Continue | Proceed

definition orClose :: "bool \<times> Node \<Rightarrow> outcome \<times> Node" where
  "orClose r = (if fst r then Proceed else Close, snd r)"

definition scoreOn :: "nodeEnv \<Rightarrow> time \<Rightarrow> nat \<Rightarrow> int \<Rightarrow> string \<Rightarrow> Node \<Rightarrow> Node" where
  "scoreOn E now i score reason n =
     (case fmlookup (nd_peers n) i of None \<Rightarrow> n
      | Some c \<Rightarrow>
        let (p, b) = scorePeer (ne_policy E) now score reason (cn_peer c, nd_bans n)
        in n\<lparr>nd_peers := fmupd i (c\<lparr>cn_peer := p\<rparr>) (nd_peers n), nd_bans := b\<rparr>)"

section \<open>One message\<close>

definition handleVersion :: "nodeEnv \<Rightarrow> time \<Rightarrow> nat \<Rightarrow> bytes \<Rightarrow> Node \<Rightarrow> outcome \<times> Node" where
  "handleVersion E now i payload n0 =
     (let n = updConn i (\<lambda>c. c\<lparr>cn_gotVersion := True\<rparr>) n0; pol = ne_policy E in
      case parseVersionPayload payload of
        None \<Rightarrow> (Close, scoreOn E now i 20 ''bad version payload'' n)
      | Some m \<Rightarrow>
        let n = updPeer i (setVersionMeta now m) n in
        if pp_enforceChainID pol \<and> pp_chainID pol \<noteq> [] \<and> vm_ChainID m \<noteq> pp_chainID pol
        then (Close, scoreOn E now i 100 ''wrong or empty chain id'' n)
        else orClose (writePeerMessage E i ''verack'' [] n))"

definition handleVerAck :: "nodeEnv \<Rightarrow> nat \<Rightarrow> Node \<Rightarrow> outcome \<times> Node" where
  "handleVerAck E i n0 =
     (let n = updConn i (\<lambda>c. c\<lparr>cn_gotVerAck := True, cn_peer := (cn_peer c)\<lparr>pr_wantHeaders := True\<rparr>\<rparr>) n0
      in (Proceed, snd (writePeerMessage E i ''sendheaders'' [] n)))"

definition noteBlockMessage :: "time \<Rightarrow> health \<Rightarrow> health" where
  "noteBlockMessage now h = h\<lparr>hl_lastBlockMsg := now, hl_blockMessagesRecv := hl_blockMessagesRecv h + 1\<rparr>"

definition rejectBlock :: "nodeEnv \<Rightarrow> nat \<Rightarrow> MsgBlock \<Rightarrow> chain_error \<Rightarrow> Node \<Rightarrow> Node" where
  "rejectBlock E i block e n0 =
     (let n = updPeer i (\<lambda>p. p\<lparr>pr_lastBlockReject := Some e\<rparr>) n0 in
      case hashHeader (ne_chain E) (bk_Header block) of
        Inr h \<Rightarrow> sendRejectWithHash E i ''block'' 0x10 (ne_blockErrText E e) h n
      | Inl _ \<Rightarrow> sendReject E i ''block'' 0x10 (ne_blockErrText E e) n)"

definition removeForBlock :: "nodeEnv \<Rightarrow> MsgBlock \<Rightarrow> Node \<Rightarrow> Node" where
  "removeForBlock E block n = n\<lparr>nd_pool := map_option (RemoveForBlock (ne_ord E) block) (nd_pool n)\<rparr>"

definition blockAccepted :: "nodeEnv \<Rightarrow> time \<Rightarrow> nat \<Rightarrow> MsgBlock \<Rightarrow> blockResult \<Rightarrow> Node \<Rightarrow> outcome \<times> Node" where
  "blockAccepted E now i block r n0 =
     (let n = updPeer i (\<lambda>p. (setLastBlockResult now r p)\<lparr>pr_lastBlockReject := None\<rparr>) n0;
          n = (if br_Connected r then removeForBlock E block n else n)
      in if \<not> br_Connected r \<or> \<not> br_BestChanged r then
           (Continue,
            if br_Status r = StatusOrphan \<and> \<not> br_ParentKnown r \<and> br_PrevHash r \<noteq> []
            then requestMissingParent E now i (br_PrevHash r) n else n)
         else
           let n = updHealth (\<lambda>h. h\<lparr>hl_lastBlockConn := now, hl_lastHeightChg := now\<rparr>) n in
           (Proceed,
            case hash_FromString (br_Hash r) of Inl _ \<Rightarrow> n
            | Inr h \<Rightarrow> snd (requestHeaders E now i (announceBlockToPeersExcept E h (Some i) n))))"

definition handleBlock :: "nodeEnv \<Rightarrow> time \<Rightarrow> nat \<Rightarrow> bytes \<Rightarrow> Node \<Rightarrow> outcome \<times> Node" where
  "handleBlock E now i payload n0 =
     (let n = updPeer i (\<lambda>p. p\<lparr>pr_lastBlockRecv := now\<rparr>) (updHealth (noteBlockMessage now) n0) in
      case ReadBlock payload of Inl _ \<Rightarrow> (Close, n)
      | Inr (block, _) \<Rightarrow>
        let n = (case hashHeader (ne_chain E) (bk_Header block) of Inl _ \<Rightarrow> n
                 | Inr h \<Rightarrow> n\<lparr>nd_getdata := fmdrop (hash_String h) (nd_getdata n)\<rparr>);
            ((err, r), ch) = ProcessBlockWithResult (ne_chain E) (chainNow now) block (nd_chain n);
            n = n\<lparr>nd_chain := ch\<rparr>
        in (case err of Some e \<Rightarrow> (Close, rejectBlock E i block e n)
            | None \<Rightarrow> blockAccepted E now i block r n))"

definition handleTx :: "nodeEnv \<Rightarrow> nat \<Rightarrow> bytes \<Rightarrow> Node \<Rightarrow> outcome \<times> Node" where
  "handleTx E i payload n =
     (case nd_pool n of None \<Rightarrow> (Continue, n)
      | Some p \<Rightarrow>
        (case ReadTx payload of Inl _ \<Rightarrow> (Close, n)
         | Inr (tx, _) \<Rightarrow>
           (case Add (en_crypto (ne_chain E)) (ne_ord E) (nd_chain n) tx p of
              (Inl e, p) \<Rightarrow>
                let n = n\<lparr>nd_pool := Some p\<rparr> in
                (Continue, if e = MpOrphan then n else sendReject E i ''tx'' 0x10 (ne_txErrText E e) n)
            | (Inr entry, p) \<Rightarrow>
                let n = n\<lparr>nd_pool := Some p\<rparr> in
                (Proceed, case hash_FromString (me_TxID entry) of Inl _ \<Rightarrow> n
                          | Inr h \<Rightarrow> announceTxToPeersExcept E h (Some i) n))))"

definition handleInv :: "nodeEnv \<Rightarrow> time \<Rightarrow> nat \<Rightarrow> bytes \<Rightarrow> Node \<Rightarrow> outcome \<times> Node" where
  "handleInv E now i payload n =
     (case ReadInvPayload payload of Inl _ \<Rightarrow> (Close, n)
      | Inr (invs, _) \<Rightarrow>
        orClose (requestUnknownBlocks E now i invs
          (updHealth (\<lambda>h. h\<lparr>hl_blockInvsReceived := hl_blockInvsReceived h + int (countBlocks invs)\<rparr>) n)))"

definition handleGetData :: "nodeEnv \<Rightarrow> nat \<Rightarrow> bytes \<Rightarrow> Node \<Rightarrow> outcome \<times> Node" where
  "handleGetData E i payload n =
     (case ReadInvPayload payload of Inl _ \<Rightarrow> (Close, n)
      | Inr (invs, _) \<Rightarrow>
        orClose (serveInventory E i invs
          (updHealth (\<lambda>h. h\<lparr>hl_getDataBlocksRecv := hl_getDataBlocksRecv h + int (countBlocks invs)\<rparr>) n)))"

definition handleHeaders :: "nodeEnv \<Rightarrow> time \<Rightarrow> nat \<Rightarrow> bytes \<Rightarrow> Node \<Rightarrow> outcome \<times> Node" where
  "handleHeaders E now i payload n0 =
     (let n = updHealth (\<lambda>h. h\<lparr>hl_lastHeaderMsg := now, hl_headersBatchesRecv := hl_headersBatchesRecv h + 1\<rparr>)
            (updPeer i (\<lambda>p. p\<lparr>pr_lastHeaderRecv := now\<rparr>) n0) in
      case ReadHeadersPayload payload of Inl _ \<Rightarrow> (Close, n)
      | Inr (headers, _) \<Rightarrow>
        (case requestHeaderBlocks E now i headers n of
           (True, n) \<Rightarrow> (Proceed, n)
         | (False, n) \<Rightarrow>
           (Proceed, updHealth (\<lambda>h. h\<lparr>hl_headersRejected := hl_headersRejected h + 1\<rparr>) n)))"

definition handleLocator ::
    "(nodeEnv \<Rightarrow> nat \<Rightarrow> GetBlocks \<Rightarrow> Node \<Rightarrow> bool \<times> Node) \<Rightarrow> nodeEnv \<Rightarrow> nat \<Rightarrow> bytes \<Rightarrow> Node \<Rightarrow> outcome \<times> Node" where
  "handleLocator serve E i payload n =
     (case ReadGetBlocks payload of Inl _ \<Rightarrow> (Close, n) | Inr (req, _) \<Rightarrow> orClose (serve E i req n))"

text \<open>The switch; a command that is not listed is ignored.\<close>

definition dispatch :: "nodeEnv \<Rightarrow> time \<Rightarrow> nat \<Rightarrow> string \<Rightarrow> Message \<Rightarrow> Node \<Rightarrow> outcome \<times> Node" where
  "dispatch E now i remote msg n =
     (let command = msg_Command msg; payload = msg_Payload msg in
      if command = ''version'' then handleVersion E now i payload n
      else if command = ''verack'' then handleVerAck E i n
      else if command = ''sendheaders'' then (Proceed, updPeer i (\<lambda>p. p\<lparr>pr_wantHeaders := True\<rparr>) n)
      else if command = ''ping'' then orClose (writePeerMessage E i ''pong'' payload n)
      else if command = ''pong'' then (Proceed, updPeer i (markPong now) n)
      else if command = ''block'' then handleBlock E now i payload n
      else if command = ''tx'' then handleTx E i payload n
      else if command = ''inv'' then handleInv E now i payload n
      else if command = ''getdata'' then handleGetData E i payload n
      else if command = ''getaddr'' then
        orClose (sendKnownAddresses E now i remote (int (unat MaxAddrPerMessage)) n)
      else if command = ''addr'' then orClose (handleAddrPayload E now i remote payload n)
      else if command = ''getblocks'' then handleLocator serveBlockInventory E i payload n
      else if command = ''getheaders'' then handleLocator serveHeaders E i payload n
      else if command = ''headers'' then handleHeaders E now i payload n
      else (Proceed, n))"

definition handshakeCommand :: "string \<Rightarrow> bool" where
  "handshakeCommand command \<longleftrightarrow> command \<in> {''version'', ''verack'', ''ping'', ''pong''}"

text \<open>After the switch: the first time the handshake is complete, the peer is asked for everything.\<close>

definition afterHandshake :: "nodeEnv \<Rightarrow> time \<Rightarrow> nat \<Rightarrow> Node \<Rightarrow> Node" where
  "afterHandshake E now i n0 =
     (case fmlookup (nd_peers n0) i of None \<Rightarrow> n0
      | Some c \<Rightarrow>
        if cn_gotVersion c \<and> cn_gotVerAck c \<and> \<not> cn_didSync c then
          (let outbound = pr_outbound (cn_peer c); remote = pr_remote (cn_peer c);
               n = updConn i (\<lambda>c. c\<lparr>cn_didSync := True\<rparr>) n0;
               n = snd (requestHeaders E now i n);
               n = snd (requestBlocks E now i n);
               n = (if outbound then snd (rememberOn E now remote ''outbound-handshake'' n) else n);
               n = updAddr (\<lambda>a. a\<lparr>as_known := markKnownPeerConnected (ne_policy E) remote outbound now (as_known a)\<rparr>) n;
               n = snd (sendKnownAddresses E now i remote 32 n)
           in snd (writePeerMessage E i ''getaddr'' [] n))
        else n0)"

text \<open>The end of a connection.\<close>

definition unregisterPeer :: "nat \<Rightarrow> Node \<Rightarrow> Node" where
  "unregisterPeer i n0 =
     (case fmlookup (nd_peers n0) i of None \<Rightarrow> n0
      | Some c \<Rightarrow>
        let n = n0\<lparr>nd_peers := fmdrop i (nd_peers n0)\<rparr> in
        (case cn_dialed c of None \<Rightarrow> n
         | Some addr \<Rightarrow> updAddr (\<lambda>a. a\<lparr>as_knownOutbound := as_knownOutbound a |-| {|addr|}\<rparr>) n))"

definition receive :: "nodeEnv \<Rightarrow> time \<Rightarrow> nat \<Rightarrow> bytes \<Rightarrow> Node \<Rightarrow> Node" where
  "receive E now i bs n0 =
     (case fmlookup (nd_peers n0) i of None \<Rightarrow> n0
      | Some c \<Rightarrow>
        if pr_closed (cn_peer c) then unregisterPeer i n0
        else (case ReadMessage (pp_MessageStart (ne_policy E)) bs of
          Inl _ \<Rightarrow> unregisterPeer i n0
        | Inr (msg, _) \<Rightarrow>
          let p0 = markSeen now ((cn_peer c)\<lparr>pr_bytesRecv := pr_bytesRecv (cn_peer c) + of_nat (length (msg_Payload msg) + 24)\<rparr>);
              (allowed, rate, p) = allowPeerMessage (ne_policy E) now (msg_Command msg) (nd_rate n0, p0);
              n = updHealth (\<lambda>h. h\<lparr>hl_lastPeerMsg := now\<rparr>)
                    (n0\<lparr>nd_peers := fmupd i (c\<lparr>cn_peer := p\<rparr>) (nd_peers n0), nd_rate := rate\<rparr>)
          in if \<not> allowed then
               unregisterPeer i (scoreOn E now i 20 ''peer message rate limit exceeded'' n)
             else if (\<not> cn_gotVersion c \<or> \<not> cn_gotVerAck c) \<and> \<not> handshakeCommand (msg_Command msg)
             then unregisterPeer i n
             else (case dispatch E now i (pr_remote p) msg n of
                 (Close, n) \<Rightarrow> unregisterPeer i n
               | (Continue, n) \<Rightarrow> n
               | (Proceed, n) \<Rightarrow> afterHandshake E now i n)))"

section \<open>Connections\<close>

definition inboundCount :: "(peer \<Rightarrow> bool) \<Rightarrow> nodeEnv \<Rightarrow> Node \<Rightarrow> int" where
  "inboundCount P E n =
     int (length (List.filter (\<lambda>(_, p). \<not> pr_outbound p \<and> P p) (snapshotPeers E n)))"

definition inboundSubnetCount :: "string \<Rightarrow> nodeEnv \<Rightarrow> Node \<Rightarrow> int" where
  "inboundSubnetCount subnet E n =
     (if subnet = [] then 0 else inboundCount (\<lambda>p. subnetKey (splitHost (pr_remote p)) = subnet) E n)"

text \<open>
  The checks of \<open>handleConn\<close> before it registers a connection. Every connection has a goroutine of
  its own, and each check takes and gives back the lock on the connections (or on the bans), so a
  goroutine stands at one of these gates while others move. A check returns whether the
  connection may go on; the first forgets a lapsed ban on the way.
\<close>

datatype gate = AtBan | AtInbound | AtHost | AtSubnet | AtOnly | AtRegister

fun nextGate :: "gate \<Rightarrow> gate" where
  "nextGate AtBan = AtInbound"
| "nextGate AtInbound = AtHost"
| "nextGate AtHost = AtSubnet"
| "nextGate AtSubnet = AtOnly"
| "nextGate AtOnly = AtRegister"
| "nextGate AtRegister = AtRegister"

fun checkGate :: "gate \<Rightarrow> nodeEnv \<Rightarrow> time \<Rightarrow> string \<Rightarrow> bool \<Rightarrow> Node \<Rightarrow> bool \<times> Node" where
  "checkGate AtBan E now remote outbound n =
     (let (banned, b) = isBanned remote now (nd_bans n) in (\<not> banned, n\<lparr>nd_bans := b\<rparr>))"
| "checkGate AtInbound E now remote outbound n =
     (let limit = pp_maxInboundPeers (ne_policy E)
      in (\<not> (\<not> outbound \<and> limit > 0 \<and> inboundCount (\<lambda>p. True) E n \<ge> limit), n))"
| "checkGate AtHost E now remote outbound n =
     (let limit = pp_maxPerIP (ne_policy E)
      in (\<not> (\<not> outbound \<and> limit > 0 \<and> inboundCount (\<lambda>p. splitHost (pr_remote p) = splitHost remote) E n \<ge> limit), n))"
| "checkGate AtSubnet E now remote outbound n =
     (let limit = pp_maxPerSubnet (ne_policy E); subnet = subnetKey (splitHost remote)
      in (\<not> (\<not> outbound \<and> limit > 0 \<and> subnet \<noteq> [] \<and> inboundSubnetCount subnet E n \<ge> limit), n))"
| "checkGate AtOnly E now remote outbound n =
     (let connectOnly = pp_connectOnly (ne_policy E)
      in (\<not> (connectOnly \<noteq> {||} \<and> \<not> outbound \<and> remote |\<notin>| connectOnly), n))"
| "checkGate AtRegister E now remote outbound n = (True, n)"

text \<open>
  A goroutine of \<open>handleConn\<close> that has not registered its connection yet. A connection that is
  refused is closed, and the goroutine of \<open>AddNode\<close> that dialled it ends; one that is registered
  is sent the version message, and unregistered again when that cannot be written.
\<close>

record joining =
  jn_remote :: string
  jn_ip :: bytes
  jn_port :: u16
  jn_dialed :: "string option"
  jn_since :: time
  jn_gate :: gate

definition newJoining :: "time \<Rightarrow> string \<Rightarrow> bytes \<Rightarrow> u16 \<Rightarrow> string option \<Rightarrow> joining" where
  "newJoining now remote ip port dialed =
     \<lparr>jn_remote = remote, jn_ip = ip, jn_port = port, jn_dialed = dialed, jn_since = now, jn_gate = AtBan\<rparr>"

definition dialDone :: "string option \<Rightarrow> Node \<Rightarrow> Node" where
  "dialDone dialed n = (case dialed of None \<Rightarrow> n
     | Some addr \<Rightarrow> updAddr (\<lambda>a. a\<lparr>as_dials := remove1 addr (as_dials a)\<rparr>) n)"

definition refuseConn :: "string option \<Rightarrow> Node \<Rightarrow> Node" where
  "refuseConn dialed n0 = (let n = dialDone dialed n0 in case dialed of None \<Rightarrow> n
     | Some addr \<Rightarrow> updAddr (\<lambda>a. a\<lparr>as_knownOutbound := as_knownOutbound a |-| {|addr|}\<rparr>) n)"

definition registerConn ::
    "nodeEnv \<Rightarrow> time \<Rightarrow> time \<Rightarrow> string \<Rightarrow> bytes \<Rightarrow> u16 \<Rightarrow> string option \<Rightarrow> Node \<Rightarrow> Node" where
  "registerConn E now since remote ip port dialed n0 =
     (let n = dialDone dialed n0;
          i = nd_nextPeer n;
          n = n\<lparr>nd_nextPeer := i + 1, nd_peers := fmupd i \<lparr>cn_peer = newPeer remote (dialed \<noteq> None) since,
                 cn_gotVersion = False, cn_gotVerAck = False, cn_didSync = False, cn_dialed = dialed\<rparr> (nd_peers n)\<rparr>
      in (case writePeerMessage E i ''version'' (versionPayload E now ip port (ne_nonce E (nd_writes n)) n) n of
            (True, n) \<Rightarrow> n
          | (False, n) \<Rightarrow> unregisterPeer i n))"

text \<open>One step of such a goroutine: the gate it moves to, or none when it has left the gates.\<close>

definition joinStep :: "nodeEnv \<Rightarrow> time \<Rightarrow> joining \<Rightarrow> Node \<Rightarrow> joining option \<times> Node" where
  "joinStep E now j n =
     (if jn_gate j = AtRegister
      then (None, registerConn E now (jn_since j) (jn_remote j) (jn_ip j) (jn_port j) (jn_dialed j) n)
      else case checkGate (jn_gate j) E now (jn_remote j) (jn_dialed j \<noteq> None) n of
             (True, n) \<Rightarrow> (Some (j\<lparr>jn_gate := nextGate (jn_gate j)\<rparr>), n)
           | (False, n) \<Rightarrow> (None, refuseConn (jn_dialed j) n))"

text \<open>\<open>handleConn\<close> up to its loop when nothing else happens meanwhile.\<close>

fun checkGates :: "gate list \<Rightarrow> nodeEnv \<Rightarrow> time \<Rightarrow> string \<Rightarrow> bool \<Rightarrow> Node \<Rightarrow> bool \<times> Node" where
  "checkGates [] E now remote outbound n = (True, n)"
| "checkGates (g # gs) E now remote outbound n =
     (case checkGate g E now remote outbound n of
        (True, n) \<Rightarrow> checkGates gs E now remote outbound n
      | (False, n) \<Rightarrow> (False, n))"

definition admitConn :: "nodeEnv \<Rightarrow> time \<Rightarrow> string \<Rightarrow> bool \<Rightarrow> Node \<Rightarrow> bool \<times> Node" where
  "admitConn = checkGates [AtBan, AtInbound, AtHost, AtSubnet, AtOnly]"

definition openConn ::
    "nodeEnv \<Rightarrow> time \<Rightarrow> string \<Rightarrow> bytes \<Rightarrow> u16 \<Rightarrow> string option \<Rightarrow> Node \<Rightarrow> Node" where
  "openConn E now remote ip port dialed n =
     (case admitConn E now remote (dialed \<noteq> None) n of
        (True, n) \<Rightarrow> registerConn E now now remote ip port dialed n
      | (False, n) \<Rightarrow> refuseConn dialed n)"

text \<open>
  \<open>acceptLoop\<close> starts the goroutine of an incoming connection. \<open>AddNode\<close>'s goroutine dials; its
  address stays among the dials until the connection is refused or registered.
\<close>

definition acceptConn :: "time \<Rightarrow> string \<Rightarrow> bytes \<Rightarrow> u16 \<Rightarrow> Node \<Rightarrow> joining list" where
  "acceptConn now remote ip port n =
     (if peerCount n \<ge> maxPeers then [] else [newJoining now remote ip port None])"

definition accept :: "nodeEnv \<Rightarrow> time \<Rightarrow> string \<Rightarrow> bytes \<Rightarrow> u16 \<Rightarrow> Node \<Rightarrow> Node" where
  "accept E now remote ip port n =
     (if acceptConn now remote ip port n = [] then n else openConn E now remote ip port None n)"

definition dialFailed :: "nodeEnv \<Rightarrow> time \<Rightarrow> string \<Rightarrow> Node \<Rightarrow> Node" where
  "dialFailed E now addr n =
     refuseConn (Some addr) (updAddr (\<lambda>a. a\<lparr>as_known := markKnownPeerFailure (ne_policy E) addr now (as_known a)\<rparr>) n)"

definition dialConnected :: "nodeEnv \<Rightarrow> time \<Rightarrow> string \<Rightarrow> string \<Rightarrow> bytes \<Rightarrow> u16 \<Rightarrow> Node \<Rightarrow> joining \<times> Node" where
  "dialConnected E now addr remote ip port n =
     (newJoining now remote ip port (Some addr),
      updAddr (\<lambda>a. a\<lparr>as_known := markKnownPeerConnected (ne_policy E) addr True now (as_known a)\<rparr>) n)"

definition closeConn :: "nat \<Rightarrow> Node \<Rightarrow> Node" where
  "closeConn i = updPeer i (\<lambda>p. p\<lparr>pr_closed := True\<rparr>)"

definition DisconnectNode :: "nodeEnv \<Rightarrow> string \<Rightarrow> Node \<Rightarrow> bool \<times> Node" where
  "DisconnectNode E addr n =
     (case List.find (\<lambda>(_, p). pr_remote p = addr \<or> HasPrefix (pr_remote p) addr) (snapshotPeers E n) of
        None \<Rightarrow> (False, n) | Some (i, _) \<Rightarrow> (True, closeConn i n))"

section \<open>Timers\<close>

definition peerPongTimeout :: int where "peerPongTimeout = 90 * second"

text \<open>One tick of a connection's \<open>pingLoop\<close>; the eight bytes of the ping are random.\<close>

definition pingTick :: "nodeEnv \<Rightarrow> time \<Rightarrow> nat \<Rightarrow> Node \<Rightarrow> Node" where
  "pingTick E now i n =
     (case fmlookup (nd_peers n) i of None \<Rightarrow> n
      | Some c \<Rightarrow>
        if sub_time now (pr_lastSeen (cn_peer c)) > peerPongTimeout \<and>
           sub_time now (pr_lastPong (cn_peer c)) > peerPongTimeout
        then closeConn i n
        else (case writePeerMessage E i ''ping'' (le_bytes 8 (ne_nonce E (nd_writes n)))
                     (updPeer i (markPing now) n) of
                (True, n) \<Rightarrow> n | (False, n) \<Rightarrow> closeConn i n))"

definition noteSyncPeer :: "string \<Rightarrow> health \<Rightarrow> health" where
  "noteSyncPeer addr h =
     h\<lparr>hl_syncPeerRotations := (if hl_lastSyncPeer h \<noteq> [] \<and> hl_lastSyncPeer h \<noteq> addr
                               then hl_syncPeerRotations h + 1 else hl_syncPeerRotations h),
       hl_lastSyncPeer := addr, hl_syncRetryCount := hl_syncRetryCount h + 1\<rparr>"

definition requestSyncFromPeerIfBehind :: "nodeEnv \<Rightarrow> time \<Rightarrow> bool \<Rightarrow> nat \<times> peer \<Rightarrow> Node \<Rightarrow> bool \<times> Node" where
  "requestSyncFromPeerIfBehind E now force ip n0 =
     (let (i, p) = ip; h = localHeight n0;
          metadataStale = (pr_lastHeightUpdate p \<noteq> 0 \<and> sub_time now (pr_lastHeightUpdate p) > 2 * minute)
      in if pr_height p \<le>s h \<and> \<not> force \<and> \<not> metadataStale then (True, n0)
         else if \<not> force \<and> pr_lastSyncRequest p \<noteq> 0 \<and> sub_time now (pr_lastSyncRequest p) < 8 * second then (True, n0)
         else if \<not> h <s pr_height p \<and> \<not> force then (True, n0)
         else
           let n = updHealth (noteSyncPeer (pr_remote p)) (updHealth (\<lambda>s. s\<lparr>hl_lastSyncReq := now\<rparr>) n0) in
           (case requestHeaders E now i n of
              (False, n) \<Rightarrow> (False, updPeer i (setSyncResult now False) n)
            | (True, n) \<Rightarrow>
              (case requestBlocks E now i n of
                 (False, n) \<Rightarrow> (False, updPeer i (setSyncResult now False) n)
               | (True, n) \<Rightarrow> (True, updPeer i (setSyncResult now True) n))))"

definition requestSyncFromAheadPeers :: "nodeEnv \<Rightarrow> time \<Rightarrow> bool \<Rightarrow> Node \<Rightarrow> Node" where
  "requestSyncFromAheadPeers E now force n =
     fold (\<lambda>ip n. snd (requestSyncFromPeerIfBehind E now force ip n))
       (syncCandidates (ne_policy E) (localHeight n) now (snapshotPeers E n)) n"

text \<open>
  The ages that the watchdog compares are -1 for a time that was never set; the comparison of
  seconds as floating-point numbers is that of nanoseconds.
\<close>

definition age :: "time \<Rightarrow> time \<Rightarrow> int" where
  "age now t = (if t = 0 then - second else sub_time now t)"

definition watchdogStalled :: "i32 \<Rightarrow> i32 \<Rightarrow> int \<Rightarrow> bool" where
  "watchdogStalled best local heightAge \<longleftrightarrow>
     local <s best \<and> heightAge > 3 * (10 * minute) \<and> 5 <s best - local"

definition noUsefulData :: "time \<Rightarrow> health \<Rightarrow> bool" where
  "noUsefulData now h \<longleftrightarrow> age now (hl_lastHeaderMsg h) > 2 * (10 * minute) \<and> age now (hl_lastBlockMsg h) > 2 * (10 * minute)"

definition dropStale :: "nodeEnv \<Rightarrow> time \<Rightarrow> bool \<Rightarrow> bool \<Rightarrow> (nat \<times> peer) list \<Rightarrow> Node \<Rightarrow> nat \<times> Node" where
  "dropStale E now doubtful behind ps n =
     (let stale = List.filter (\<lambda>(_, p). doubtful \<and>
            (peerStale (ne_policy E) now p \<or> (behind \<and> pr_lastSyncError p \<noteq> NoSyncError))) ps
      in (length stale, fold (\<lambda>(i, _). closeConn i) stale n))"

definition watchdogStep ::
    "nodeEnv \<Rightarrow> time \<Rightarrow> string list \<Rightarrow> (string \<times> string list) list \<Rightarrow> Node \<Rightarrow> Node" where
  "watchdogStep E now fixedSeeds dns n0 =
     (let ps = snapshotPeers E n0 in
      if ps = [] then connectSeeds E now fixedSeeds dns n0
      else
        let local = localHeight n0; best = BestPeerHeight ps; behind = (local <s best);
            stalled = watchdogStalled best local (age now (hl_lastHeightChg (nd_health n0)));
            silent = noUsefulData now (nd_health n0);
            syncing = list_ex (\<lambda>(_, p). local <s pr_height p) ps;
            anyStale = list_ex (\<lambda>(_, p). peerStale (ne_policy E) now p) ps;
            (reconnected, n) = dropStale E now (stalled \<or> silent) behind ps n0;
            (late, m) = sweepGetdataTimeouts (ne_ord E) now (nd_getdata n);
            n = updHealth (\<lambda>h. h\<lparr>hl_blockReqTimeouts := hl_blockReqTimeouts h + int (length late)\<rparr>)
                  (n\<lparr>nd_getdata := m\<rparr>);
            useless = (silent \<and> (behind \<or> syncing \<or> anyStale));
            n = (if behind \<or> stalled \<or> useless \<or> late \<noteq> [] then requestSyncFromAheadPeers E now True n else n);
            n = (if stalled \<or> useless \<or> reconnected > 0 then connectSeeds E now fixedSeeds dns n else n)
        in updHealth (\<lambda>h. h\<lparr>hl_wdReconnects := hl_wdReconnects h + int reconnected\<rparr>) n)"

definition runTask :: "nodeEnv \<Rightarrow> time \<Rightarrow> Node \<Rightarrow> Node" where
  "runTask E now n =
     (case nd_tasks n of [] \<Rightarrow> n
      | (parentHash, payload, skip) # ts \<Rightarrow>
        requestMissingParentFromOthers E now payload skip (n\<lparr>nd_tasks := ts\<rparr>))"

end
