(* ===== verification/P2PInvariant.thy ===== *)
theory P2PInvariant
  imports P2PHandler MempoolAdd LedgerOps
begin

text \<open>
  What the traffic of a node leaves alone, and the invariants of a run. Most of what the server
  does is reading the chain, writing messages and keeping counters: the relation \<open>traffic\<close>
  says so, and the operations are shown to keep to it. What remains are the few steps that
  change the chain, the pool, the set of peers or their handshakes.
\<close>

section \<open>Traffic\<close>

definition peer_same :: "peer \<Rightarrow> peer \<Rightarrow> bool" where
  "peer_same p q \<longleftrightarrow> pr_outbound q = pr_outbound p \<and> pr_remote q = pr_remote p \<and>
     pr_chainID q = pr_chainID p \<and> pr_banScore q = pr_banScore p"

definition conn_same :: "conn \<Rightarrow> conn \<Rightarrow> bool" where
  "conn_same c d \<longleftrightarrow> peer_same (cn_peer c) (cn_peer d) \<and> cn_gotVersion d = cn_gotVersion c \<and>
     cn_gotVerAck d = cn_gotVerAck c \<and> cn_didSync d = cn_didSync c \<and> cn_dialed d = cn_dialed c"

definition traffic :: "Node \<Rightarrow> Node \<Rightarrow> bool" where
  "traffic n m \<longleftrightarrow> nd_chain m = nd_chain n \<and> nd_pool m = nd_pool n \<and> nd_bans m = nd_bans n \<and>
     nd_nextPeer m = nd_nextPeer n \<and> nd_rate m = nd_rate n \<and>
     (\<forall>i. rel_option conn_same (fmlookup (nd_peers n) i) (fmlookup (nd_peers m) i)) \<and>
     (\<exists>xs. nd_sent m = nd_sent n @ xs)"

lemma conn_same_refl [simp]: "conn_same c c"
  by (simp add: conn_same_def peer_same_def)

lemma conn_same_trans: "conn_same a b \<Longrightarrow> conn_same b c \<Longrightarrow> conn_same a c"
  by (simp add: conn_same_def peer_same_def)

lemma traffic_refl [simp]: "traffic n n"
  by (auto simp: traffic_def intro: option.rel_refl)

lemma traffic_trans:
  assumes "traffic a b" "traffic b c"
  shows "traffic a c"
proof -
  have "rel_option conn_same (fmlookup (nd_peers a) i) (fmlookup (nd_peers c) i)" for i
  proof -
    have "rel_option conn_same (fmlookup (nd_peers a) i) (fmlookup (nd_peers b) i)"
      "rel_option conn_same (fmlookup (nd_peers b) i) (fmlookup (nd_peers c) i)"
      using assms by (simp_all add: traffic_def)
    then show ?thesis
      by (cases "fmlookup (nd_peers b) i") (auto simp: option_rel_Some1 option_rel_Some2 intro: conn_same_trans)
  qed
  moreover have "\<exists>xs. nd_sent c = nd_sent a @ xs" using assms by (force simp: traffic_def)
  ultimately show ?thesis using assms by (simp add: traffic_def)
qed

text \<open>Operations with a result, and folds, that keep to a reflexive and transitive relation.\<close>

definition moves :: "(Node \<Rightarrow> Node \<Rightarrow> bool) \<Rightarrow> (Node \<Rightarrow> 'a \<times> Node) \<Rightarrow> bool" where
  "moves R f \<longleftrightarrow> (\<forall>n. R n (snd (f n)))"

lemma movesD: "moves R f \<Longrightarrow> f n = (x, m) \<Longrightarrow> R n m"
  by (metis moves_def snd_conv)

locale steps =
  fixes R :: "Node \<Rightarrow> Node \<Rightarrow> bool"
  assumes refl: "R n n" and trans: "R a b \<Longrightarrow> R b c \<Longrightarrow> R a c"
    and health: "R n (updHealth f n)"
    and marked: "(\<And>p. peer_same p (g p)) \<Longrightarrow> R n (updPeer i g n)"
    and written: "R n (snd (writePeerMessage E i command payload n))"
    and noted: "R n (n\<lparr>nd_getdata := m\<rparr>)" "R n (n\<lparr>nd_missing := mp\<rparr>)" "R n (n\<lparr>nd_tasks := ts\<rparr>)"
begin

lemma after: "R n m \<Longrightarrow> R n (updHealth f m)"
  using trans health by blast

lemma mark: "R n m \<Longrightarrow> (\<And>p. peer_same p (g p)) \<Longrightarrow> R n (updPeer i g m)"
  using trans marked by blast

lemma wrote: "writePeerMessage E i command payload m = (b, m') \<Longrightarrow> R n m \<Longrightarrow> R n m'"
  using trans written by (metis snd_conv)

lemma fold_steps: "(\<And>x n. x \<in> set xs \<Longrightarrow> R n (f x n)) \<Longrightarrow> R n (fold f xs n)"
  by (induction xs arbitrary: n) (auto intro: refl trans)

end

lemma peer_same_marks [simp]:
  "peer_same p (markSeen now p)" "peer_same p (markPong now p)" "peer_same p (markPing now p)"
  "peer_same p (setSyncResult now ok p)" "peer_same p (markBlocksRequested now k p)"
  "peer_same p (markBlocksServed k p)" "peer_same p (setLastLocatorTip now h p)"
  "peer_same p (setAdvertisedHeight now ht p)" "peer_same p (setLastBlockResult now r p)"
  "peer_same p (p\<lparr>pr_bytesSent := b\<rparr>)" "peer_same p (p\<lparr>pr_closed := cl\<rparr>)"
  "peer_same p (p\<lparr>pr_lastHeightUpdate := now\<rparr>)" "peer_same p (p\<lparr>pr_addrDialCount := k'\<rparr>)"
  "peer_same p (p\<lparr>pr_lastBlockReject := e\<rparr>)" "peer_same p (p\<lparr>pr_lastBlockRecv := now\<rparr>)"
  "peer_same p (p\<lparr>pr_lastHeaderRecv := now\<rparr>)" "peer_same p (p\<lparr>pr_wantHeaders := w\<rparr>)"
  by (simp_all add: peer_same_def markSeen_def markPong_def markPing_def setSyncResult_def
      markBlocksRequested_def markBlocksServed_def setLastLocatorTip_def setAdvertisedHeight_def
      setLastBlockResult_def Let_def)

lemma peer_same_refl [simp]: "peer_same p p"
  by (simp add: peer_same_def)

lemma traffic_marked:
  assumes "\<And>p. peer_same p (g p)"
  shows "traffic n (updPeer i g n)"
  using assms by (auto simp: traffic_def updPeer_def conn_same_def intro: option.rel_refl split: option.splits)

lemma updPeer_simps [simp]:
  "nd_chain (updPeer i f n) = nd_chain n" "nd_pool (updPeer i f n) = nd_pool n"
  "nd_bans (updPeer i f n) = nd_bans n" "nd_addr (updPeer i f n) = nd_addr n"
  "nd_sent (updPeer i f n) = nd_sent n" "nd_writes (updPeer i f n) = nd_writes n"
  "nd_missing (updPeer i f n) = nd_missing n" "nd_nextPeer (updPeer i f n) = nd_nextPeer n"
  "nd_rate (updPeer i f n) = nd_rate n" "nd_getdata (updPeer i f n) = nd_getdata n"
  by (simp_all add: updPeer_def split: option.splits)

lemma updHealth_simps [simp]:
  "nd_chain (updHealth g n) = nd_chain n" "nd_pool (updHealth g n) = nd_pool n"
  "nd_bans (updHealth g n) = nd_bans n" "nd_addr (updHealth g n) = nd_addr n"
  "nd_sent (updHealth g n) = nd_sent n" "nd_writes (updHealth g n) = nd_writes n"
  "nd_missing (updHealth g n) = nd_missing n" "nd_nextPeer (updHealth g n) = nd_nextPeer n"
  "nd_rate (updHealth g n) = nd_rate n" "nd_getdata (updHealth g n) = nd_getdata n"
  "nd_peers (updHealth g n) = nd_peers n"
  by (simp_all add: updHealth_def)

lemma traffic_written: "traffic n (snd (writePeerMessage E i command payload n))"
proof -
  let ?n = "n\<lparr>nd_writes := nd_writes n + 1\<rparr>"
  have a: "traffic n ?n" by (auto simp: traffic_def intro: option.rel_refl)
  have b: "traffic ?n (updPeer i (\<lambda>p. p\<lparr>pr_bytesSent := pr_bytesSent p + k\<rparr>) ?n)" for k
    by (rule traffic_marked) simp
  have c: "traffic m (m\<lparr>nd_sent := nd_sent m @ xs\<rparr>)" for m xs
    by (auto simp: traffic_def intro: option.rel_refl)
  from a traffic_trans [OF a traffic_trans [OF b c]] show ?thesis
    by (auto simp: writePeerMessage_def Let_def split: option.splits sum.splits)
qed

interpretation traffic: steps traffic
proof (unfold_locales, goal_cases)
  case (2 a b c)
  then show ?case by (rule traffic_trans)
next
  case (4 g n i)
  then show ?case by (rule traffic_marked)
next
  case (5 n E i command payload)
  show ?case by (rule traffic_written)
qed (auto simp: traffic_def updHealth_def intro: option.rel_refl)

section \<open>The server's own operations\<close>

context steps begin

lemma request: "requestLocator E now command note i n = (b, m) \<Longrightarrow> R n m"
  by (auto simp: requestLocator_def intro: refl after mark split: list.splits sum.splits dest!: wrote)
    (metis after mark peer_same_marks(7) refl trans wrote)+

lemma headers: "requestHeaders E now i n = (b, m) \<Longrightarrow> R n m"
  and blocks: "requestBlocks E now i n = (b, m) \<Longrightarrow> R n m"
  by (simp_all add: requestHeaders_def requestBlocks_def request)

lemma headers_snd: "R n (snd (requestHeaders E now i n))"
  and blocks_snd: "R n (snd (requestBlocks E now i n))"
  by (metis headers prod.collapse) (metis blocks prod.collapse)

lemma headers_after: "R n0 n \<Longrightarrow> R n0 (snd (requestHeaders E now i n))"
  and blocks_after: "R n0 n \<Longrightarrow> R n0 (snd (requestBlocks E now i n))"
  using trans headers_snd blocks_snd by blast+

lemma collect: "R n0 n \<Longrightarrow> collectUnknown E now i vs asked want n = (ws, m) \<Longrightarrow> R n0 m"
proof (induction vs arbitrary: asked want n)
  case (Cons v vs)
  let ?n = "if inv_Type v = 2 \<and> \<not> asked then snd (requestHeaders E now i n) else n"
  have "R n0 ?n" using Cons.prems(1) headers_after by simp
  with Cons.prems Cons.IH show ?case by (auto simp: Let_def split: if_splits)
qed simp

lemma unknown:
  assumes "requestUnknownBlocks E now i invs n = (b, m)"
  shows "R n m"
proof -
  obtain ws n' where c: "collectUnknown E now i invs False [] n = (ws, n')" by (metis prod.exhaust)
  have "R n n'" by (rule collect [OF refl c])
  then have "R n (addBlocksRequested k (updPeer i (markBlocksRequested now k) n'))" for k
    unfolding addBlocksRequested_def by (intro after mark) simp_all
  with c \<open>R n n'\<close> assms wrote show ?thesis
    by (auto simp: requestUnknownBlocks_def refl split: if_splits sum.splits)
qed

lemma missing_noted: "R n m \<Longrightarrow> R n (noteMissingParent now i m)"
  unfolding noteMissingParent_def addBlocksRequested_def by (intro after mark) simp_all

lemma missing_sent: "R n m \<Longrightarrow> R n (sendMissingParentRequest E now i h payload m)"
  by (auto simp: sendMissingParentRequest_def Let_def split: prod.splits if_splits
      intro: trans noted dest: wrote missing_noted)

lemma missing: "R n (requestMissingParent E now i h n)"
  by (auto simp: requestMissingParent_def Let_def intro: missing_sent noted split: prod.splits option.splits)

lemma others: "R n0 n \<Longrightarrow> R n0 (askOthers E now payload skip height ps asked n)"
proof (induction ps arbitrary: asked n)
  case (Cons ip ps)
  obtain i p where [simp]: "ip = (i, p)" by (metis prod.exhaust)
  obtain b m where w: "writePeerMessage E i ''getdata'' payload n = (b, m)" by (metis prod.exhaust)
  have "R n0 m" by (rule wrote [OF w Cons.prems])
  with Cons w show ?case by (auto split: bool.splits intro: missing_noted)
qed simp

lemma asked_others: "R n (requestMissingParentFromOthers E now payload skip n)"
  by (simp add: requestMissingParentFromOthers_def others refl)

lemma task: "R n (runTask E now n)"
  by (auto simp: runTask_def refl intro: trans noted asked_others split: list.splits)

lemma serve_items: "R n0 n \<Longrightarrow> serveItems E i vs served n = (r, m) \<Longrightarrow> R n0 m"
  by (induction vs arbitrary: served n)
    (auto simp: Let_def split: if_splits sum.splits option.splits prod.splits bool.splits dest: wrote)

lemma serve_inventory: "serveInventory E i invs n = (b, m) \<Longrightarrow> R n m"
  by (auto simp: serveInventory_def intro!: after mark split: prod.splits bool.splits dest: serve_items [OF refl])

lemma batches: "R n0 n \<Longrightarrow> sendBatches E now i want n = (b, m) \<Longrightarrow> R n0 m"
proof (induction E now i want n arbitrary: b m rule: sendBatches.induct)
  case (1 E now i want n)
  let ?batch = "take maxGetDataItems want"
  let ?n = "recordRequests i now ?batch
     (addBlocksRequested (length ?batch) (updPeer i (markBlocksRequested now (length ?batch)) n))"
  have "R n0 (addBlocksRequested (length ?batch) (updPeer i (markBlocksRequested now (length ?batch)) n))"
    unfolding addBlocksRequested_def by (intro after mark "1.prems"(1)) simp
  then have r: "R n0 ?n"
    by (auto simp: recordRequests_def intro: trans noted split: option.splits)
  show ?case
  proof (cases "want = [] \<or> (\<exists>e. InvPayload ?batch = Inl e)")
    case True
    then show ?thesis using "1.prems" by (subst (asm) sendBatches.simps) (auto simp: Let_def split: if_splits)
  next
    case False
    then obtain payload where p: "want \<noteq> []" "InvPayload ?batch = Inr payload" by (metis sum.exhaust)
    obtain ok n' where w: "writePeerMessage E i ''getdata'' payload ?n = (ok, n')" by (metis prod.exhaust)
    have n': "R n0 n'" by (rule wrote [OF w r])
    have e: "(case ok of False \<Rightarrow> (False, n') | True \<Rightarrow> sendBatches E now i (drop maxGetDataItems want) n') = (b, m)"
      using "1.prems"(2) p w by (subst (asm) sendBatches.simps) (simp add: Let_def)
    show ?thesis
    proof (cases ok)
      case True
      show ?thesis by (rule "1.IH" [OF p(1) HOL.refl p(2) HOL.refl w [symmetric] _ n']) (use e True in auto)
    next
      case False
      then show ?thesis using e n' by simp
    qed
  qed
qed

lemma announce: "R n0 n \<Longrightarrow> announceTo E ip hdr skip ps sent n = (k, m) \<Longrightarrow> R n0 m"
proof (induction ps arbitrary: sent n)
  case (Cons q ps)
  obtain i p where [simp]: "q = (i, p)" by (metis prod.exhaust)
  show ?case
    using Cons.prems
    by (auto split: if_splits option.splits prod.splits bool.splits intro: Cons.IH dest: wrote)
qed simp

lemma announce_block: "R n (announceBlockToPeersExcept E h skip n)"
  by (auto simp: announceBlockToPeersExcept_def addBlocksAnnounced_def Let_def refl
      intro: after split: sum.splits prod.splits dest: announce [OF refl])

lemma written_again: "R n0 n \<Longrightarrow> R n0 (snd (writePeerMessage E i c p n))"
  using trans written by blast

lemma announce_tx: "R n (announceTxToPeersExcept E h skip n)"
  by (auto simp: announceTxToPeersExcept_def refl written intro!: fold_steps split: sum.splits prod.splits)

lemma relayed: "R n (relayKnownAddresses E addrs skip n)"
  by (auto simp: relayKnownAddresses_def refl written intro!: fold_steps split: sum.splits prod.splits)

lemma addresses_sent: "sendKnownAddresses E now i remote limit n = (b, m) \<Longrightarrow> R n m"
  by (auto simp: sendKnownAddresses_def refl split: sum.splits dest: wrote [OF _ refl])

lemma sync_one: "R n (snd (requestSyncFromPeerIfBehind E now force ip n))"
proof -
  obtain i p where [simp]: "ip = (i, p)" by (metis prod.exhaust)
  let ?n = "updHealth (noteSyncPeer (pr_remote p)) (updHealth (\<lambda>s. s\<lparr>hl_lastSyncReq := now\<rparr>) n)"
  have a: "R n ?n" by (intro after refl)
  obtain b m where h: "requestHeaders E now i ?n = (b, m)" by (metis prod.exhaust)
  have m: "R n m" by (rule trans [OF a headers [OF h]])
  obtain b' k where k: "requestBlocks E now i m = (b', k)" by (metis prod.exhaust)
  have "R n k" by (rule trans [OF m blocks [OF k]])
  with m show ?thesis
    by (auto simp: requestSyncFromPeerIfBehind_def Let_def h k refl intro: mark split: bool.splits)
qed

lemma sync_all: "R n (requestSyncFromAheadPeers E now force n)"
  unfolding requestSyncFromAheadPeers_def by (rule fold_steps) (rule sync_one)

lemma closed: "R n (closeConn i n)"
  unfolding closeConn_def by (rule marked) simp

lemma ping: "R n (pingTick E now i n)"
proof -
  have "R n (updPeer i (markPing now) n)" by (rule marked) simp
  then show ?thesis
    by (auto simp: pingTick_def refl closed split: option.splits prod.splits bool.splits
        intro: trans [OF _ closed] dest: wrote)
qed

lemma dropped: "dropStale E now doubtful behind ps n = (k, m) \<Longrightarrow> R n m"
  by (auto simp: dropStale_def Let_def intro!: fold_steps closed split: prod.splits)

lemma rejected: "R n (rejectBlock E i block e n)"
  by (auto simp: rejectBlock_def sendReject_def sendRejectWithHash_def Let_def
      intro!: written_again marked split: sum.splits)

end

section \<open>Addresses and dials\<close>

text \<open>Relations that also learning and dialling addresses keep to.\<close>

locale gossip_steps = steps +
  assumes address: "R n (updAddr (\<lambda>a. a\<lparr>as_known := f a\<rparr>) n)"
    and dialled: "R n (snd (AddNode E now addr n))"
begin

lemma remembered: "R n (snd (rememberOn E now addr source n))"
  by (simp add: rememberOn_def address split: prod.splits)

lemma learn:
  "R n0 n \<Longrightarrow> learnAddresses E now i remote as dialed relay n = (r, m) \<Longrightarrow> R n0 m"
proof (induction as arbitrary: dialed relay n)
  case (Cons a as)
  have rem: "rememberOn E now addr src n = (f, k) \<Longrightarrow> R n0 k" for addr src f k
    using trans [OF Cons.prems(1) remembered] by (metis snd_conv)
  have add: "AddNode E now addr k = (ok, k') \<Longrightarrow> R n0 k \<Longrightarrow> R n0 k'" for addr k ok k'
    using trans [OF _ dialled] by (metis snd_conv)
  have count: "R n0 (updPeer i (\<lambda>p. p\<lparr>pr_addrDialCount := pr_addrDialCount p + 1\<rparr>) k')"
    if "rememberOn E now addr src n = (f, k)" "AddNode E now addr' k = (ok, k')" for addr src f k addr' ok k'
    by (intro mark add [OF that(2)] rem [OF that(1)]) simp
  show ?case
    using Cons.prems(2)
    by (auto simp: Let_def split: option.splits prod.splits if_splits bool.splits
        intro: Cons.prems(1) rem add count elim!: Cons.IH [rotated])
qed simp

lemma gossip: "handleAddrPayload E now i remote payload n = (b, m) \<Longrightarrow> R n m"
  by (auto simp: handleAddrPayload_def refl intro: trans [OF learn [OF refl] relayed]
      split: sum.splits prod.splits)

lemma dialAll: "R n (snd (dialAll E now as n))"
proof (induction as arbitrary: n)
  case (Cons a as)
  obtain addr source where [simp]: "a = (addr, source)" by (metis prod.exhaust)
  show ?case
    by (auto split: option.splits intro: refl trans [OF dialled Cons.IH]
        trans [OF remembered trans [OF dialled Cons.IH]])
qed (simp add: refl)

lemma seeds: "R n (connectSeeds E now fixedSeeds dns n)"
proof -
  have d: "R n m'" if "R n m" "dialAll E now as m = (b, m')" for as m b m'
    using trans [OF that(1)] dialAll that(2) by (metis snd_conv)
  have e: "R n (snd (dialAll E now as m))" if "R n m" for as m
    by (rule d [OF that, of as "fst (dialAll E now as m)"]) simp
  let ?as = "map (\<lambda>a. (a, None)) (as_bootstrap (nd_addr n))"
  obtain b1 n1 where 1: "dialAll E now ?as n = (b1, n1)" by (metis prod.exhaust)
  let ?bs = "map (\<lambda>i. (ka_Addr i, None)) (knownAddressInfos (ne_ord E) (as_known (nd_addr n1)))"
  obtain b2 n2 where 2: "dialAll E now ?bs n1 = (b2, n2)" by (metis prod.exhaust)
  let ?cs = "List.map_filter (\<lambda>s. map_option (\<lambda>a. (a, Some ''fixed-seed''))
     (normalizePeerAddress s (pp_DefaultPort (ne_policy E)))) fixedSeeds"
  obtain b3 n3 where 3: "dialAll E now ?cs n2 = (b3, n3)" by (metis prod.exhaust)
  have t1: "R n n1" by (rule d [OF refl 1])
  have t2: "R n n2" by (rule d [OF t1 2])
  have t3: "R n n3" by (rule d [OF t2 3])
  show ?thesis
    by (simp only: connectSeeds_def Let_def 1 2 3 prod.case split: bool.splits if_splits)
      (simp add: t1 t2 t3 e refl)
qed

lemma sync_if: "R n m \<Longrightarrow> R n (if b then requestSyncFromAheadPeers E now force m else m)"
  using trans sync_all by auto

lemma seeds_if: "R n m \<Longrightarrow> R n (if b then connectSeeds E now fixedSeeds dns m else m)"
  using trans seeds by auto

lemma swept: "dropStale E now d b ps n = (k, m) \<Longrightarrow> R n (m\<lparr>nd_getdata := q\<rparr>)"
  using trans dropped noted(1) by blast

lemma watchdog: "R n (watchdogStep E now fixedSeeds dns n)"
proof (cases "snapshotPeers E n = []")
  case True
  then show ?thesis by (simp add: watchdogStep_def seeds)
next
  case False
  show ?thesis
    unfolding watchdogStep_def Let_def if_not_P [OF False]
    by (auto simp only: split: prod.splits
        intro!: after seeds_if sync_if swept)
qed

lemma greeted:
  assumes "fmlookup (nd_peers n) i = Some c" "cn_gotVersion c \<and> cn_gotVerAck c \<and> \<not> cn_didSync c"
  shows "R (updConn i (\<lambda>c. c\<lparr>cn_didSync := True\<rparr>) n) (afterHandshake E now i n)"
proof -
  let ?n0 = "updConn i (\<lambda>c. c\<lparr>cn_didSync := True\<rparr>) n"
  let ?remote = "pr_remote (cn_peer c)"
  define n1 where "n1 = snd (requestHeaders E now i ?n0)"
  define n2 where "n2 = snd (requestBlocks E now i n1)"
  define n3 where "n3 = (if pr_outbound (cn_peer c) then snd (rememberOn E now ?remote ''outbound-handshake'' n2) else n2)"
  define n4 where "n4 = updAddr (\<lambda>a. a\<lparr>as_known := markKnownPeerConnected (ne_policy E) ?remote (pr_outbound (cn_peer c)) now (as_known a)\<rparr>) n3"
  define n5 where "n5 = snd (sendKnownAddresses E now i ?remote 32 n4)"
  have t1: "R ?n0 n1" unfolding n1_def by (rule headers_snd)
  have t2: "R ?n0 n2" unfolding n2_def by (rule trans [OF t1 blocks_snd])
  have t3: "R ?n0 n3" unfolding n3_def using t2 trans [OF t2 remembered] by simp
  have t4: "R ?n0 n4" unfolding n4_def by (rule trans [OF t3 address])
  have t5: "R ?n0 n5" unfolding n5_def
    by (rule trans [OF t4]) (metis prod.collapse addresses_sent)
  have "R ?n0 (snd (writePeerMessage E i ''getaddr'' [] n5))"
    by (rule trans [OF t5 written])
  then show ?thesis
    using assms by (cases "pr_outbound (cn_peer c)") (simp_all add: afterHandshake_def Let_def n1_def n2_def n3_def n4_def n5_def)
qed

end

lemma traffic_addr: "traffic n (updAddr f n)"
  by (auto simp: traffic_def updAddr_def intro: option.rel_refl)

interpretation traffic: gossip_steps traffic
proof (unfold_locales, goal_cases)
  case (2 n E now addr)
  show ?case
    by (auto simp: AddNode_def Let_def split: option.splits prod.splits if_splits
        intro!: traffic_addr traffic_trans [OF traffic_addr traffic_addr]
          traffic_trans [OF traffic_addr traffic_trans [OF traffic_addr traffic_addr]])
qed (rule traffic_addr)

section \<open>Chain and pool\<close>

text \<open>
  The blocks and transactions that peers may send are taken from two sets; the chain and the
  pool of the node then stay in the states their own models allow.
\<close>

definition node_ok :: "nodeEnv \<Rightarrow> MsgBlock set \<Rightarrow> MsgTx set \<Rightarrow> Node \<Rightarrow> bool" where
  "node_ok E S T n \<longleftrightarrow> reachable (ne_chain E) S (nd_chain n) \<and>
     (\<forall>p. nd_pool n = Some p \<longrightarrow> pool_reachable T p)"

definition payload_in :: "MsgBlock set \<Rightarrow> MsgTx set \<Rightarrow> Message \<Rightarrow> bool" where
  "payload_in S T msg \<longleftrightarrow>
     (msg_Command msg = ''block'' \<longrightarrow> (\<forall>b r. ReadBlock (msg_Payload msg) = Inr (b, r) \<longrightarrow> b \<in> S)) \<and>
     (msg_Command msg = ''tx'' \<longrightarrow> (\<forall>t r. ReadTx (msg_Payload msg) = Inr (t, r) \<longrightarrow> t \<in> T))"

definition frame_in :: "nodeEnv \<Rightarrow> MsgBlock set \<Rightarrow> MsgTx set \<Rightarrow> bytes \<Rightarrow> bool" where
  "frame_in E S T bs \<longleftrightarrow>
     (\<forall>msg r. ReadMessage (pp_MessageStart (ne_policy E)) bs = Inr (msg, r) \<longrightarrow> payload_in S T msg)"

lemma node_ok_traffic: "traffic n m \<Longrightarrow> node_ok E S T n \<Longrightarrow> node_ok E S T m"
  by (simp add: traffic_def node_ok_def)

lemma node_ok_chain:
  "node_ok E S T n \<Longrightarrow> reachable (ne_chain E) S ch \<Longrightarrow> node_ok E S T (n\<lparr>nd_chain := ch\<rparr>)"
  by (simp add: node_ok_def)

lemma node_ok_fields [simp]:
  "node_ok E S T (n\<lparr>nd_getdata := q\<rparr>) = node_ok E S T n"
  "node_ok E S T (n\<lparr>nd_peers := ps\<rparr>) = node_ok E S T n"
  "node_ok E S T (n\<lparr>nd_bans := b\<rparr>) = node_ok E S T n"
  "node_ok E S T (n\<lparr>nd_rate := rt\<rparr>) = node_ok E S T n"
  "node_ok E S T (n\<lparr>nd_nextPeer := k\<rparr>) = node_ok E S T n"
  "node_ok E S T (updHealth f n) = node_ok E S T n"
  "node_ok E S T (updPeer i g n) = node_ok E S T n"
  "node_ok E S T (updConn i h n) = node_ok E S T n"
  "node_ok E S T (updAddr u n) = node_ok E S T n"
  "node_ok E S T (scoreOn E' now i score reason n) = node_ok E S T n"
  "node_ok E S T (unregisterPeer i n) = node_ok E S T n"
  by (auto simp: node_ok_def updPeer_def updConn_def updHealth_def updAddr_def scoreOn_def Let_def
      unregisterPeer_def split: option.splits prod.splits)

lemma node_ok_writes:
  "writePeerMessage E i c p n = (b, m) \<Longrightarrow> node_ok E' S T n \<Longrightarrow> node_ok E' S T m"
  using node_ok_traffic traffic_written by (metis snd_conv)

lemma ok_serveBlocks:
  assumes "serveBlockInventory E i req n = (b, m)" "node_ok E S T n"
  shows "node_ok E S T m"
proof -
  obtain r ch where h: "HeadersAfter (ne_chain E) (gb_Locator req) (gb_Stop req) (int maxServeInvItems) (nd_chain n) = (r, ch)"
    by (metis prod.exhaust)
  have "node_ok E S T (n\<lparr>nd_chain := ch\<rparr>)"
    using assms(2) h by (auto intro!: node_ok_chain intro: reachable.serve simp: node_ok_def)
  then show ?thesis
    using assms(1) h
    by (auto simp: serveBlockInventory_def addBlocksAnnounced_def Let_def
        split: sum.splits list.splits option.splits dest: node_ok_writes)
qed

lemma ok_serveHeaders:
  assumes "serveHeaders E i req n = (b, m)" "node_ok E S T n"
  shows "node_ok E S T m"
proof -
  obtain r ch where h: "HeadersAfter (ne_chain E) (gb_Locator req) (gb_Stop req) (int (unat MaxHeadersPerMessage)) (nd_chain n) = (r, ch)"
    by (metis prod.exhaust)
  have "node_ok E S T (n\<lparr>nd_chain := ch\<rparr>)"
    using assms(2) h by (auto intro!: node_ok_chain intro: reachable.serve simp: node_ok_def)
  then show ?thesis
    using assms(1) h by (auto simp: serveHeaders_def Let_def split: sum.splits dest: node_ok_writes)
qed

lemma ok_headerBlocks:
  assumes "requestHeaderBlocks E now i headers n = (b, m)" "node_ok E S T n"
  shows "node_ok E S T m"
proof (cases headers)
  case Nil
  then show ?thesis using assms by (auto simp: requestHeaderBlocks_def)
next
  case (Cons h hs)
  obtain r ch where v: "ValidateHeaderSequence (ne_chain E) (chainNow now) headers (nd_chain n) = (r, ch)"
    by (metis prod.exhaust)
  have k: "node_ok E S T (n\<lparr>nd_chain := ch\<rparr>)"
    using assms(2) v by (auto intro!: node_ok_chain intro: reachable.headers simp: node_ok_def)
  have miss: "node_ok E S T k \<Longrightarrow> node_ok E S T (requestMissingParent E now i x k)" for x k
    using node_ok_traffic traffic.missing by blast
  have bat: "sendBatches E now i w k = (b, m) \<Longrightarrow> node_ok E S T k \<Longrightarrow> node_ok E S T m" for w k
    using node_ok_traffic traffic.batches [OF traffic_refl] by blast
  show ?thesis
    using assms(1) v k unfolding requestHeaderBlocks_def Let_def Cons
    by (auto split: sum.splits if_splits intro: miss bat)
qed

lemma ok_handleBlock:
  assumes "handleBlock E now i payload n = (out, m)" "node_ok E S T n" "order_ok (ne_ord E)"
    "\<forall>b r. ReadBlock payload = Inr (b, r) \<longrightarrow> b \<in> S"
  shows "node_ok E S T m"
proof (cases "ReadBlock payload")
  case (Inl e)
  then show ?thesis using assms by (auto simp: handleBlock_def Let_def)
next
  case (Inr br)
  then obtain block rest where rb: "ReadBlock payload = Inr (block, rest)" by (metis prod.exhaust)
  then have S: "block \<in> S" using assms(4) by blast
  let ?n = "updPeer i (\<lambda>p. p\<lparr>pr_lastBlockRecv := now\<rparr>) (updHealth (noteBlockMessage now) n)"
  let ?n1 = "case hashHeader (ne_chain E) (bk_Header block) of Inl _ \<Rightarrow> ?n
    | Inr h \<Rightarrow> ?n\<lparr>nd_getdata := fmdrop (hash_String h) (nd_getdata ?n)\<rparr>"
  have n1: "node_ok E S T ?n1" using assms(2) by (simp split: sum.splits)
  obtain err r ch where p: "ProcessBlockWithResult (ne_chain E) (chainNow now) block (nd_chain ?n1) = ((err, r), ch)"
    by (metis prod.exhaust)
  have k: "node_ok E S T (?n1\<lparr>nd_chain := ch\<rparr>)"
    by (rule node_ok_chain [OF n1]) (use n1 p S in \<open>auto simp: node_ok_def intro: reachable.process\<close>)
  have rem: "node_ok E S T (removeForBlock E block k)" if "node_ok E S T k" for k
    using that assms(3) by (auto simp: removeForBlock_def node_ok_def intro: pool_reachable.mined)
  have rej: "node_ok E S T (rejectBlock E i block e k)" if "node_ok E S T k" for e k
    using that node_ok_traffic traffic.rejected by blast
  have acc: "node_ok E S T (snd (blockAccepted E now i block r k))" if "node_ok E S T k" for k
  proof -
    let ?k = "updPeer i (\<lambda>p. (setLastBlockResult now r p)\<lparr>pr_lastBlockReject := None\<rparr>) k"
    let ?k1 = "if br_Connected r then removeForBlock E block ?k else ?k"
    have k1: "node_ok E S T ?k1" using that rem by simp
    have miss: "node_ok E S T (requestMissingParent E now i x ?k1)" for x
      using k1 node_ok_traffic traffic.missing by blast
    have ann: "node_ok E S T (snd (requestHeaders E now i (announceBlockToPeersExcept E h (Some i) (updHealth g ?k1))))" for h g
      using k1 node_ok_traffic [OF traffic_trans [OF traffic.announce_block traffic.headers_snd]] by simp
    show ?thesis
      unfolding blockAccepted_def Let_def using k1 miss ann by (auto split: sum.splits)
  qed
  have "(out, m) = (case err of Some e \<Rightarrow> (Close, rejectBlock E i block e (?n1\<lparr>nd_chain := ch\<rparr>))
      | None \<Rightarrow> blockAccepted E now i block r (?n1\<lparr>nd_chain := ch\<rparr>))"
    using assms(1) rb p by (simp add: handleBlock_def Let_def)
  then show ?thesis using rej [OF k] acc [OF k] by (auto split: option.splits) (metis snd_conv)
qed

lemma ok_handleTx:
  assumes "handleTx E i payload n = (out, m)" "node_ok E S T n" "order_ok (ne_ord E)" "txs_ok T"
    "\<forall>t r. ReadTx payload = Inr (t, r) \<longrightarrow> t \<in> T"
  shows "node_ok E S T m"
proof (cases "nd_pool n")
  case None
  then show ?thesis using assms by (simp add: handleTx_def)
next
  case (Some p)
  then have p: "pool_reachable T p" using assms(2) by (simp add: node_ok_def)
  show ?thesis
  proof (cases "ReadTx payload")
    case (Inl e)
    then show ?thesis using assms Some by (simp add: handleTx_def)
  next
    case (Inr tr)
    then obtain tx rest where rt: "ReadTx payload = Inr (tx, rest)" by (metis prod.exhaust)
    obtain r p' where a: "Add (en_crypto (ne_chain E)) (ne_ord E) (nd_chain n) tx p = (r, p')" by (metis prod.exhaust)
    have "pool_reachable T p'"
      using reach.inv_Add [OF a, of T] p assms(3,4,5) rt by auto
    then have k: "node_ok E S T (n\<lparr>nd_pool := Some p'\<rparr>)" using assms(2) by (simp add: node_ok_def)
    have rej: "node_ok E S T (sendReject E i c code reason (n\<lparr>nd_pool := Some p'\<rparr>))" for c code reason
      unfolding sendReject_def by (rule node_ok_traffic [OF traffic_written k])
    have ann: "node_ok E S T (announceTxToPeersExcept E h skip (n\<lparr>nd_pool := Some p'\<rparr>))" for h skip
      by (rule node_ok_traffic [OF traffic.announce_tx k])
    show ?thesis
      using assms(1) Some rt a k rej ann by (auto simp: handleTx_def Let_def split: sum.splits if_splits)
  qed
qed

lemma ok_orClose: "orClose (b, k) = (out, m) \<Longrightarrow> m = k"
  by (simp add: orClose_def)

lemma ok_handshake:
  "handleVersion E now i payload n = (out, m) \<Longrightarrow> node_ok E S T n \<Longrightarrow> node_ok E S T m"
  "handleVerAck E i n = (out, m) \<Longrightarrow> node_ok E S T n \<Longrightarrow> node_ok E S T m"
  by (auto simp: handleVersion_def handleVerAck_def orClose_def Let_def split: option.splits if_splits
      intro!: node_ok_traffic [OF traffic_written])

lemma ok_dispatch:
  assumes d: "dispatch E now i remote msg n = (out, m)" and n: "node_ok E S T n"
    and ord: "order_ok (ne_ord E)" and ts: "txs_ok T" and msg: "payload_in S T msg"
  shows "node_ok E S T m"
proof -
  have wr: "orClose (writePeerMessage E i c p n) = (out, m) \<Longrightarrow> node_ok E S T m" for c p
    using n node_ok_traffic [OF traffic_written] by (auto simp: orClose_def)
  have known: "orClose (sendKnownAddresses E now i remote l n) = (out, m) \<Longrightarrow> node_ok E S T m" for l
    using n node_ok_traffic [OF traffic.addresses_sent] by (metis orClose_def prod.collapse snd_conv)
  have addr: "orClose (handleAddrPayload E now i remote p n) = (out, m) \<Longrightarrow> node_ok E S T m" for p
    using n node_ok_traffic [OF traffic.gossip] by (metis orClose_def prod.collapse snd_conv)
  have inv: "handleInv E now i p n = (out, m) \<Longrightarrow> node_ok E S T m" for p
    using n node_ok_traffic [OF traffic.unknown [OF prod.collapse [symmetric]]]
    by (auto simp: handleInv_def orClose_def split: sum.splits)
  have get: "handleGetData E i p n = (out, m) \<Longrightarrow> node_ok E S T m" for p
    using n node_ok_traffic [OF traffic.serve_inventory [OF prod.collapse [symmetric]]]
    by (auto simp: handleGetData_def orClose_def split: sum.splits)
  have blocks: "handleLocator serveBlockInventory E i p n = (out, m) \<Longrightarrow> node_ok E S T m" for p
    using n ok_serveBlocks [OF prod.collapse [symmetric]]
    by (auto simp: handleLocator_def orClose_def split: sum.splits)
  have hdrs: "handleLocator serveHeaders E i p n = (out, m) \<Longrightarrow> node_ok E S T m" for p
    using n ok_serveHeaders [OF prod.collapse [symmetric]]
    by (auto simp: handleLocator_def orClose_def split: sum.splits)
  have headers: "handleHeaders E now i p n = (out, m) \<Longrightarrow> node_ok E S T m" for p
    using n ok_headerBlocks
    by (auto simp: handleHeaders_def Let_def split: sum.splits prod.splits bool.splits)
  show ?thesis
    using d msg n unfolding dispatch_def Let_def payload_in_def
    by (auto split: if_splits intro: n wr known addr inv get blocks hdrs headers ok_handshake [OF _ n]
        ok_handleBlock [OF _ n ord] ok_handleTx [OF _ n ord ts])
qed

lemma ok_afterHandshake:
  assumes "node_ok E S T n"
  shows "node_ok E S T (afterHandshake E now i n)"
proof (cases "\<exists>c. fmlookup (nd_peers n) i = Some c \<and> cn_gotVersion c \<and> cn_gotVerAck c \<and> \<not> cn_didSync c")
  case True
  then show ?thesis using node_ok_traffic [OF traffic.greeted] assms by auto
next
  case False
  then show ?thesis using assms by (auto simp: afterHandshake_def split: option.splits)
qed

lemma ok_receive:
  assumes n: "node_ok E S T n" and ord: "order_ok (ne_ord E)" and ts: "txs_ok T" and bs: "frame_in E S T bs"
  shows "node_ok E S T (receive E now i bs n)"
proof -
  have d: "node_ok E S T m" if "dispatch E now i remote msg k = (out, m)" "node_ok E S T k"
    "ReadMessage (pp_MessageStart (ne_policy E)) bs = Inr (msg, r)" for remote msg k out m r
    using ok_dispatch [OF that(1,2) ord ts] bs that(3) by (auto simp: frame_in_def)
  show ?thesis
    using n unfolding receive_def Let_def
    by (auto split: option.splits sum.splits prod.splits outcome.splits if_splits
        intro!: ok_afterHandshake elim!: d [rotated 2])
qed

end
