(* ===== verification/P2PRun.thy ===== *)
theory P2PRun
  imports P2PInvariant
begin

text \<open>
  Runs of a node: everything that can happen at it, in any order and at any clock reading. The
  connections keep to the limits of the policy, a peer that is past its handshake has the
  node's chain id where that is required, and scores never grow from one message to the next.
\<close>

section \<open>The registered connections\<close>

definition registry :: "Node \<Rightarrow> Node \<Rightarrow> bool" where
  "registry n m \<longleftrightarrow> nd_bans m = nd_bans n \<and> nd_nextPeer m = nd_nextPeer n \<and>
     (\<forall>i. rel_option conn_same (fmlookup (nd_peers n) i) (fmlookup (nd_peers m) i))"

lemma registry_traffic: "traffic n m \<Longrightarrow> registry n m"
  by (simp add: registry_def traffic_def)

lemma registry_trans:
  assumes "registry a b" "registry b c"
  shows "registry a c"
proof -
  have "rel_option conn_same (fmlookup (nd_peers a) i) (fmlookup (nd_peers c) i)" for i
  proof -
    have "rel_option conn_same (fmlookup (nd_peers a) i) (fmlookup (nd_peers b) i)"
      "rel_option conn_same (fmlookup (nd_peers b) i) (fmlookup (nd_peers c) i)"
      using assms by (simp_all add: registry_def)
    then show ?thesis
      by (cases "fmlookup (nd_peers b) i") (auto simp: option_rel_Some1 option_rel_Some2 intro: conn_same_trans)
  qed
  then show ?thesis using assms by (simp add: registry_def)
qed

text \<open>Relations that any message but those of the handshake keeps to.\<close>

locale node_steps = gossip_steps +
  assumes chain: "R n (n\<lparr>nd_chain := ch\<rparr>)" and pool: "R n (n\<lparr>nd_pool := p\<rparr>)"
begin

lemma serve:
  "serveBlockInventory E i req n = (b, m) \<Longrightarrow> R n m"
  "serveHeaders E i req n = (b, m) \<Longrightarrow> R n m"
  by (auto simp: serveBlockInventory_def serveHeaders_def addBlocksAnnounced_def Let_def
      split: prod.splits sum.splits list.splits option.splits intro: chain after [OF chain]
      elim!: wrote)

lemma headerBlocks:
  assumes "requestHeaderBlocks E now i headers n = (b, m)"
  shows "R n m"
proof (cases headers)
  case Nil
  then show ?thesis using assms by (auto simp: requestHeaderBlocks_def intro: marked)
next
  case (Cons h hs)
  obtain r ch where v: "ValidateHeaderSequence (ne_chain E) (chainNow now) headers (nd_chain n) = (r, ch)"
    by (metis prod.exhaust)
  have k: "R n (n\<lparr>nd_chain := ch\<rparr>)" by (rule chain)
  then have adv: "R n (updPeer i (setAdvertisedHeight now a) (n\<lparr>nd_chain := ch\<rparr>))" for a
    by (intro mark) simp_all
  have bat: "R n k \<Longrightarrow> sendBatches E now i w k = (b, m) \<Longrightarrow> R n m" for w k
    by (rule batches)
  have direct: "sendBatches E now i w (n\<lparr>nd_chain := ch\<rparr>) = (b, m) \<Longrightarrow> R n m" for w
    by (rule batches [OF k])
  show ?thesis
    using assms v k trans [OF k missing] unfolding requestHeaderBlocks_def Let_def Cons
    by (auto split: sum.splits if_splits intro: bat [OF adv] direct)
qed

lemma handleBlock:
  assumes "handleBlock E now i payload n = (out, m)"
  shows "R n m"
proof (cases "ReadBlock payload")
  case (Inl e)
  then show ?thesis using assms by (auto simp: handleBlock_def Let_def intro!: mark health)
next
  case (Inr br)
  then obtain block rest where rb: "ReadBlock payload = Inr (block, rest)" by (metis prod.exhaust)
  let ?n = "updPeer i (\<lambda>p. p\<lparr>pr_lastBlockRecv := now\<rparr>) (updHealth (noteBlockMessage now) n)"
  let ?n1 = "case hashHeader (ne_chain E) (bk_Header block) of Inl _ \<Rightarrow> ?n
    | Inr h \<Rightarrow> ?n\<lparr>nd_getdata := fmdrop (hash_String h) (nd_getdata ?n)\<rparr>"
  have "R n ?n" by (intro mark health) simp
  then have "R n ?n1" using trans noted(1) by (auto split: sum.splits)
  then have n1: "R n (?n1\<lparr>nd_chain := ch\<rparr>)" for ch by (rule trans [OF _ chain])
  obtain err r ch where p: "ProcessBlockWithResult (ne_chain E) (chainNow now) block (nd_chain ?n1) = ((err, r), ch)"
    by (metis prod.exhaust)
  have acc: "R k (snd (blockAccepted E now i block r k))" for k
  proof -
    let ?k = "updPeer i (\<lambda>p. (setLastBlockResult now r p)\<lparr>pr_lastBlockReject := None\<rparr>) k"
    let ?k1 = "if br_Connected r then removeForBlock E block ?k else ?k"
    have "peer_same p ((setLastBlockResult now r p)\<lparr>pr_lastBlockReject := None\<rparr>)" for p
      using peer_same_marks(9) [of p now r] by (simp add: peer_same_def)
    then have "R k ?k" by (rule marked)
    then have k1: "R k ?k1" using trans [OF _ pool] by (simp add: removeForBlock_def)
    have miss: "R k (requestMissingParent E now i x ?k1)" for x
      by (rule trans [OF k1 missing])
    have ann: "R k (snd (requestHeaders E now i (announceBlockToPeersExcept E h (Some i) (updHealth g ?k1))))" for h g
      by (rule trans [OF trans [OF after [OF k1] announce_block] headers_snd])
    show ?thesis
      unfolding blockAccepted_def Let_def using k1 miss ann after [OF k1] by (auto split: sum.splits)
  qed
  have "(out, m) = (case err of Some e \<Rightarrow> (Close, rejectBlock E i block e (?n1\<lparr>nd_chain := ch\<rparr>))
      | None \<Rightarrow> blockAccepted E now i block r (?n1\<lparr>nd_chain := ch\<rparr>))"
    using assms rb p by (simp add: handleBlock_def Let_def)
  then show ?thesis
    using trans [OF n1 rejected] trans [OF n1 acc]
    by (auto split: option.splits) (metis snd_conv)
qed

lemma handleTx: "handleTx E i payload n = (out, m) \<Longrightarrow> R n m"
  by (auto simp: handleTx_def sendReject_def Let_def refl pool split: option.splits sum.splits prod.splits if_splits
      intro!: trans [OF pool announce_tx] written_again)

lemma dispatch:
  assumes d: "dispatch E now i remote msg n = (out, m)"
    and c: "msg_Command msg \<noteq> ''version''" "msg_Command msg \<noteq> ''verack''"
  shows "R n m"
proof -
  have wr: "orClose (writePeerMessage E i c p n) = (out, m) \<Longrightarrow> R n m" for c p
    using written by (auto simp: orClose_def)
  have known: "orClose (sendKnownAddresses E now i remote l n) = (out, m) \<Longrightarrow> R n m" for l
    using addresses_sent by (metis orClose_def prod.collapse snd_conv)
  have addr: "orClose (handleAddrPayload E now i remote p n) = (out, m) \<Longrightarrow> R n m" for p
    using gossip by (metis orClose_def prod.collapse snd_conv)
  have inv: "handleInv E now i p n = (out, m) \<Longrightarrow> R n m" for p
    using trans [OF health unknown [OF prod.collapse [symmetric]]]
    by (auto simp: handleInv_def orClose_def refl split: sum.splits)
  have get: "handleGetData E i p n = (out, m) \<Longrightarrow> R n m" for p
    using trans [OF health serve_inventory [OF prod.collapse [symmetric]]]
    by (auto simp: handleGetData_def orClose_def refl split: sum.splits)
  have loc: "handleLocator serveBlockInventory E i p n = (out, m) \<Longrightarrow> R n m"
    "handleLocator serveHeaders E i p n = (out, m) \<Longrightarrow> R n m" for p
    using serve [OF prod.collapse [symmetric]]
    by (auto simp: handleLocator_def orClose_def refl split: sum.splits)
  have headers: "handleHeaders E now i p n = (out, m) \<Longrightarrow> R n m" for p
  proof -
    assume h: "handleHeaders E now i p n = (out, m)"
    let ?n = "updHealth (\<lambda>h. h\<lparr>hl_lastHeaderMsg := now, hl_headersBatchesRecv := hl_headersBatchesRecv h + 1\<rparr>)
            (updPeer i (\<lambda>p. p\<lparr>pr_lastHeaderRecv := now\<rparr>) n)"
    have "R n ?n" by (intro after marked) simp
    with h trans [OF this headerBlocks] show "R n m"
      by (auto simp: handleHeaders_def Let_def split: sum.splits prod.splits bool.splits intro!: after)
  qed
  show ?thesis
    using d c unfolding dispatch_def Let_def
    by (auto split: if_splits intro: wr known addr inv get loc headers handleBlock handleTx
        refl intro!: marked)
qed

end

interpretation registry: node_steps registry
proof (unfold_locales, goal_cases)
  case (2 a b c)
  then show ?case by (rule registry_trans)
next
  case (10 n E now addr)
  show ?case by (rule registry_traffic [OF traffic.dialled])
qed (auto simp: registry_traffic traffic.health traffic.marked traffic.written traffic.noted traffic.address,
     auto simp: registry_def intro: option.rel_refl)

section \<open>What holds of every connection\<close>

definition conn_ok :: "p2pPolicy \<Rightarrow> conn \<Rightarrow> bool" where
  "conn_ok pol c \<longleftrightarrow> pr_banScore (cn_peer c) = 0 \<and> (cn_dialed c \<noteq> None \<longleftrightarrow> pr_outbound (cn_peer c)) \<and>
     (cn_didSync c \<longrightarrow> cn_gotVersion c \<and> cn_gotVerAck c) \<and>
     (cn_gotVersion c \<and> pp_enforceChainID pol \<and> pp_chainID pol \<noteq> [] \<longrightarrow>
        pr_chainID (cn_peer c) = pp_chainID pol)"

definition conns_but :: "p2pPolicy \<Rightarrow> nat set \<Rightarrow> Node \<Rightarrow> bool" where
  "conns_but pol A n \<longleftrightarrow> (\<forall>j c. j \<notin> A \<longrightarrow> fmlookup (nd_peers n) j = Some c \<longrightarrow> conn_ok pol c)"

abbreviation conns_ok :: "p2pPolicy \<Rightarrow> Node \<Rightarrow> bool" where
  "conns_ok pol \<equiv> conns_but pol {}"

text \<open>The connections of \<open>m\<close> are connections of \<open>n\<close>.\<close>

definition shrinks :: "Node \<Rightarrow> Node \<Rightarrow> bool" where
  "shrinks n m \<longleftrightarrow> nd_nextPeer m = nd_nextPeer n \<and>
     (\<forall>i d. fmlookup (nd_peers m) i = Some d \<longrightarrow> (\<exists>c. fmlookup (nd_peers n) i = Some c \<and>
        pr_outbound (cn_peer d) = pr_outbound (cn_peer c) \<and> pr_remote (cn_peer d) = pr_remote (cn_peer c) \<and>
        cn_dialed d = cn_dialed c))"

lemma shrinks_refl [simp]: "shrinks n n"
  by (simp add: shrinks_def)

lemma shrinks_trans: "shrinks a b \<Longrightarrow> shrinks b c \<Longrightarrow> shrinks a c"
  unfolding shrinks_def by metis

lemma conn_ok_same: "conn_same c d \<Longrightarrow> conn_ok pol c \<Longrightarrow> conn_ok pol d"
  by (simp add: conn_same_def peer_same_def conn_ok_def)

lemma registry_lookup:
  assumes "registry n m" "fmlookup (nd_peers m) j = Some d"
  obtains c where "fmlookup (nd_peers n) j = Some c" "conn_same c d"
proof -
  have "rel_option conn_same (fmlookup (nd_peers n) j) (Some d)"
    using assms by (metis registry_def)
  then show ?thesis using that by (auto simp: option_rel_Some2)
qed

lemma registry_conns: "registry n m \<Longrightarrow> conns_but pol A n \<Longrightarrow> conns_but pol A m"
  unfolding conns_but_def by (blast elim: registry_lookup intro: conn_ok_same)

lemma registry_shrinks: "registry n m \<Longrightarrow> shrinks n m"
  unfolding shrinks_def
  by (fastforce elim: registry_lookup simp: conn_same_def peer_same_def registry_def)

lemma conns_absent: "conns_but pol {i} n \<Longrightarrow> fmlookup (nd_peers n) i = None \<Longrightarrow> conns_ok pol n"
  unfolding conns_but_def by (metis empty_iff option.distinct(1) singletonD)

lemma unregister_conns: "conns_but pol {i} n \<Longrightarrow> conns_ok pol (unregisterPeer i n)"
  by (cases "fmlookup (nd_peers n) i")
    (simp add: unregisterPeer_def conns_absent,
     auto simp: unregisterPeer_def updAddr_def Let_def conns_but_def split: option.splits if_splits)

lemma unregister_shrinks [simp]: "shrinks n (unregisterPeer i n)"
  by (auto simp: shrinks_def unregisterPeer_def updAddr_def Let_def split: option.splits if_splits)

lemma unregister_bans [simp]: "nd_bans (unregisterPeer i n) = nd_bans n"
  by (auto simp: unregisterPeer_def updAddr_def Let_def split: option.splits)

lemma scorePeer_fields:
  "scorePeer pol now score reason (p, b) = (q, b') \<Longrightarrow> pr_outbound q = pr_outbound p \<and> pr_remote q = pr_remote p"
  by (auto simp: scorePeer_def decayScore_def Let_def split: if_splits)

lemma scorePeer_fresh:
  assumes "pr_banScore p = 0"
  shows "snd (scorePeer pol now score reason (p, b)) =
    (if pp_peerSafety pol \<and> 0 < score \<and> 0 < pp_banThreshold pol \<and> pp_banThreshold pol \<le> score
     then banPeer (pr_remote p) (if pp_banDuration pol \<le> 0 then 60 * minute else pp_banDuration pol) now b else b)"
  using assms by (simp add: scorePeer_def decayScore_def Let_def)

lemma scoreOn_conns: "conns_but pol {i} n \<Longrightarrow> conns_but pol {i} (scoreOn E now i score reason n)"
  by (auto simp: conns_but_def scoreOn_def Let_def split: option.splits prod.splits)

lemma scoreOn_shrinks [simp]: "shrinks n (scoreOn E now i score reason n)"
  by (auto simp: shrinks_def scoreOn_def Let_def split: option.splits prod.splits dest: scorePeer_fields)

lemma updConn_conns: "conns_but pol {i} n \<Longrightarrow> conns_but pol {i} (updConn i f n)"
  by (auto simp: conns_but_def updConn_def split: option.splits)

lemma updConn_shrinks:
  assumes "\<And>c. pr_outbound (cn_peer (f c)) = pr_outbound (cn_peer c) \<and>
     pr_remote (cn_peer (f c)) = pr_remote (cn_peer c) \<and> cn_dialed (f c) = cn_dialed c"
  shows "shrinks n (updConn i f n)"
  using assms by (auto simp: shrinks_def updConn_def split: option.splits)

lemma updConn_simps [simp]:
  "nd_bans (updConn i f n) = nd_bans n" "nd_chain (updConn i f n) = nd_chain n"
  "nd_pool (updConn i f n) = nd_pool n" "nd_addr (updConn i f n) = nd_addr n"
  by (simp_all add: updConn_def split: option.splits)

lemma updPeer_eq_updConn: "updPeer i g n = updConn i (\<lambda>c. c\<lparr>cn_peer := g (cn_peer c)\<rparr>) n"
  by (simp add: updPeer_def updConn_def)

lemma updConn_compose: "updConn i f (updConn i g n) = updConn i (\<lambda>c. f (g c)) n"
  by (auto simp: updConn_def split: option.splits)

lemma updConn_ok:
  assumes "conns_but pol {i} n" "\<And>c. fmlookup (nd_peers n) i = Some c \<Longrightarrow> conn_ok pol (f c)"
  shows "conns_ok pol (updConn i f n)"
proof (cases "fmlookup (nd_peers n) i")
  case None
  then show ?thesis using conns_absent [OF assms(1)] by (simp add: updConn_def)
next
  case (Some c)
  then show ?thesis using assms by (auto simp: conns_but_def updConn_def)
qed

lemma conns_weaken: "conns_ok pol n \<Longrightarrow> conns_but pol A n"
  by (simp add: conns_but_def)

lemma scoreOn_bans:
  assumes "\<And>c. fmlookup (nd_peers n) i = Some c \<Longrightarrow> pr_banScore (cn_peer c) = 0"
    "nd_bans (scoreOn E now i score reason n) \<noteq> nd_bans n"
  shows "pp_peerSafety (ne_policy E) \<and> pp_banThreshold (ne_policy E) \<le> score"
proof (cases "fmlookup (nd_peers n) i")
  case None
  then show ?thesis using assms(2) by (simp add: scoreOn_def)
next
  case (Some c)
  obtain q b where "scorePeer (ne_policy E) now score reason (cn_peer c, nd_bans n) = (q, b)" by (metis prod.exhaust)
  with scorePeer_fresh [OF assms(1) [OF Some], of "ne_policy E" now score reason "nd_bans n"] assms(2) Some
  show ?thesis by (auto simp: scoreOn_def split: if_splits)
qed

section \<open>Handshake messages\<close>

lemma version_conns:
  assumes "handleVersion E now i payload n = (out, m)" "conns_ok (ne_policy E) n"
  shows "conns_but (ne_policy E) {i} m \<and> (out \<noteq> Close \<longrightarrow> conns_ok (ne_policy E) m) \<and> shrinks n m \<and>
    (nd_bans m \<noteq> nd_bans n \<longrightarrow> pp_peerSafety (ne_policy E) \<and> out = Close \<and>
      pp_banThreshold (ne_policy E) \<le> (if parseVersionPayload payload = None then 20 else 100) \<and>
      (\<forall>v. parseVersionPayload payload = Some v \<longrightarrow> pp_enforceChainID (ne_policy E) \<and> vm_ChainID v \<noteq> pp_chainID (ne_policy E)))"
proof (cases "parseVersionPayload payload")
  case None
  let ?k = "updConn i (\<lambda>c. c\<lparr>cn_gotVersion := True\<rparr>) n"
  have k: "conns_but (ne_policy E) {i} ?k" by (rule updConn_conns [OF conns_weaken [OF assms(2)]])
  have s: "shrinks n ?k" by (rule updConn_shrinks) simp
  have m: "out = Close" "m = scoreOn E now i 20 ''bad version payload'' ?k"
    using assms(1) None by (simp_all add: handleVersion_def Let_def)
  have "pr_banScore (cn_peer c) = 0" if "fmlookup (nd_peers ?k) i = Some c" for c
    using assms(2) that by (auto simp: conns_but_def conn_ok_def updConn_def split: option.splits)
  then have "nd_bans m \<noteq> nd_bans n \<longrightarrow> pp_peerSafety (ne_policy E) \<and> pp_banThreshold (ne_policy E) \<le> 20"
    using scoreOn_bans [of ?k i E now 20] unfolding m(2) updConn_simps by blast
  then show ?thesis
    using None m scoreOn_conns [OF k] shrinks_trans [OF s scoreOn_shrinks] by simp
next
  case (Some v)
  let ?f = "\<lambda>c. c\<lparr>cn_gotVersion := True, cn_peer := setVersionMeta now v (cn_peer c)\<rparr>"
  let ?k = "updConn i ?f n"
  have k: "conns_but (ne_policy E) {i} ?k" by (rule updConn_conns [OF conns_weaken [OF assms(2)]])
  have s: "shrinks n ?k" by (rule updConn_shrinks) (simp add: setVersionMeta_def)
  have e: "updPeer i (setVersionMeta now v) (updConn i (\<lambda>c. c\<lparr>cn_gotVersion := True\<rparr>) n) = ?k"
    by (simp add: updPeer_eq_updConn updConn_compose)
  show ?thesis
  proof (cases "pp_enforceChainID (ne_policy E) \<and> pp_chainID (ne_policy E) \<noteq> [] \<and> vm_ChainID v \<noteq> pp_chainID (ne_policy E)")
    case True
    then have m: "out = Close" "m = scoreOn E now i 100 ''wrong or empty chain id'' ?k"
      using assms(1) Some e by (simp_all add: handleVersion_def Let_def)
    have "pr_banScore (cn_peer c) = 0" if "fmlookup (nd_peers ?k) i = Some c" for c
      using assms(2) that by (auto simp: conns_but_def conn_ok_def updConn_def setVersionMeta_def split: option.splits)
    then have "nd_bans m \<noteq> nd_bans n \<longrightarrow> pp_peerSafety (ne_policy E) \<and> pp_banThreshold (ne_policy E) \<le> 100"
      using scoreOn_bans [of ?k i E now 100] unfolding m(2) updConn_simps by blast
    then show ?thesis
      using True Some m scoreOn_conns [OF k] shrinks_trans [OF s scoreOn_shrinks] by simp
  next
    case False
    then have m: "m = snd (writePeerMessage E i ''verack'' [] ?k)"
      using assms(1) Some e by (auto simp: handleVersion_def Let_def orClose_def)
    have "conn_ok (ne_policy E) (?f c)" if "fmlookup (nd_peers n) i = Some c" for c
      using assms(2) that False by (auto simp: conns_but_def conn_ok_def setVersionMeta_def)
    then have "conns_ok (ne_policy E) ?k" by (intro updConn_ok conns_weaken [OF assms(2)])
    then have "conns_ok (ne_policy E) m" unfolding m by (rule registry_conns [OF registry.written])
    moreover have "nd_bans m = nd_bans n" using registry.written [of ?k E i] by (simp add: m registry_def)
    moreover have "shrinks n m" unfolding m by (rule shrinks_trans [OF s registry_shrinks [OF registry.written]])
    ultimately show ?thesis using conns_weaken by simp
  qed
qed

lemma verack_conns:
  assumes "handleVerAck E i n = (out, m)" "conns_ok pol n"
  shows "conns_ok pol m \<and> shrinks n m \<and> nd_bans m = nd_bans n"
proof -
  let ?f = "\<lambda>c. c\<lparr>cn_gotVerAck := True, cn_peer := (cn_peer c)\<lparr>pr_wantHeaders := True\<rparr>\<rparr>"
  let ?k = "updConn i ?f n"
  have m: "m = snd (writePeerMessage E i ''sendheaders'' [] ?k)"
    using assms(1) by (simp add: handleVerAck_def Let_def)
  have "conns_ok pol ?k"
    by (rule updConn_ok [OF conns_weaken [OF assms(2)]])
      (use assms(2) in \<open>auto simp: conns_but_def conn_ok_def\<close>)
  then have "conns_ok pol m" unfolding m by (rule registry_conns [OF registry.written])
  moreover have "shrinks n ?k" by (rule updConn_shrinks) simp
  then have "shrinks n m" unfolding m by (rule shrinks_trans [OF _ registry_shrinks [OF registry.written]])
  moreover have "nd_bans m = nd_bans ?k" unfolding m using registry.written by (simp add: registry_def)
  ultimately show ?thesis by simp
qed

section \<open>Receiving\<close>

text \<open>Why receiving these bytes may ban a host.\<close>

definition ban_reason :: "nodeEnv \<Rightarrow> bytes \<Rightarrow> bool" where
  "ban_reason E bs \<longleftrightarrow> pp_peerSafety (ne_policy E) \<and>
     (pp_banThreshold (ne_policy E) \<le> 20 \<or>
      (\<exists>msg r v. ReadMessage (pp_MessageStart (ne_policy E)) bs = Inr (msg, r) \<and>
         msg_Command msg = ''version'' \<and> parseVersionPayload (msg_Payload msg) = Some v \<and>
         pp_enforceChainID (ne_policy E) \<and> vm_ChainID v \<noteq> pp_chainID (ne_policy E) \<and>
         pp_banThreshold (ne_policy E) \<le> 100))"

lemma afterHandshake_net:
  assumes "conns_ok pol n"
  shows "conns_ok pol (afterHandshake E now i n) \<and> shrinks n (afterHandshake E now i n) \<and>
    nd_bans (afterHandshake E now i n) = nd_bans n"
proof (cases "\<exists>c. fmlookup (nd_peers n) i = Some c \<and> cn_gotVersion c \<and> cn_gotVerAck c \<and> \<not> cn_didSync c")
  case True
  then obtain c where c: "fmlookup (nd_peers n) i = Some c" "cn_gotVersion c \<and> cn_gotVerAck c \<and> \<not> cn_didSync c" by blast
  let ?k = "updConn i (\<lambda>c. c\<lparr>cn_didSync := True\<rparr>) n"
  have "conns_ok pol ?k"
    by (rule updConn_ok [OF conns_weaken [OF assms]])
      (use assms c in \<open>auto simp: conns_but_def conn_ok_def\<close>)
  moreover have "shrinks n ?k" by (rule updConn_shrinks) simp
  moreover note r = registry_traffic [OF traffic.greeted [OF c, of E now]]
  ultimately show ?thesis
    using registry_conns [OF r] shrinks_trans [OF _ registry_shrinks [OF r]] r by (simp add: registry_def)
next
  case False
  then have "afterHandshake E now i n = n" by (auto simp: afterHandshake_def split: option.splits)
  with assms show ?thesis by simp
qed

lemma dispatch_net:
  assumes "dispatch E now i remote msg n = (out, m)" "conns_ok (ne_policy E) n"
    "ReadMessage (pp_MessageStart (ne_policy E)) bs = Inr (msg, r)"
  shows "conns_but (ne_policy E) {i} m \<and> (out \<noteq> Close \<longrightarrow> conns_ok (ne_policy E) m) \<and> shrinks n m \<and>
    (nd_bans m \<noteq> nd_bans n \<longrightarrow> ban_reason E bs)"
proof -
  consider "msg_Command msg = ''version''" | "msg_Command msg = ''verack''"
    | "msg_Command msg \<noteq> ''version''" "msg_Command msg \<noteq> ''verack''" by blast
  then show ?thesis
  proof cases
    case 1
    then have "handleVersion E now i (msg_Payload msg) n = (out, m)"
      using assms(1) by (simp add: dispatch_def)
    from version_conns [OF this assms(2)] show ?thesis
      using 1 assms(3) by (cases "parseVersionPayload (msg_Payload msg)") (auto simp: ban_reason_def)
  next
    case 2
    then have "handleVerAck E i n = (out, m)" using assms(1) by (simp add: dispatch_def)
    from verack_conns [OF this assms(2)] show ?thesis using conns_weaken by blast
  next
    case 3
    have r: "registry n m" by (rule registry.dispatch [OF assms(1) 3])
    then show ?thesis
      using registry_conns [OF r assms(2)] conns_weaken registry_shrinks [OF r] by (simp add: registry_def)
  qed
qed

lemma allowPeerMessage_same: "allowPeerMessage pol now command (g, p) = (b, g', q) \<Longrightarrow> peer_same p q"
  by (auto simp: allowPeerMessage_def peer_same_def Let_def split: prod.splits if_splits)

lemma registry_peer:
  assumes "fmlookup (nd_peers n) i = Some c" "peer_same (cn_peer c) p"
  shows "registry n (updHealth f (n\<lparr>nd_peers := fmupd i (c\<lparr>cn_peer := p\<rparr>) (nd_peers n), nd_rate := rate\<rparr>))"
  using assms by (auto simp: registry_def conn_same_def updHealth_def intro: option.rel_refl)

text \<open>A message, taken apart: what is left of the connection before the switch, and how it ends.\<close>

definition arrived :: "nodeEnv \<Rightarrow> time \<Rightarrow> nat \<Rightarrow> Message \<Rightarrow> conn \<Rightarrow> Node \<Rightarrow> bool \<times> Node" where
  "arrived E now i msg c n =
     (let p0 = markSeen now ((cn_peer c)\<lparr>pr_bytesRecv := pr_bytesRecv (cn_peer c) + of_nat (length (msg_Payload msg) + 24)\<rparr>);
          (allowed, rate, p) = allowPeerMessage (ne_policy E) now (msg_Command msg) (nd_rate n, p0)
      in (allowed, updHealth (\<lambda>h. h\<lparr>hl_lastPeerMsg := now\<rparr>)
            (n\<lparr>nd_peers := fmupd i (c\<lparr>cn_peer := p\<rparr>) (nd_peers n), nd_rate := rate\<rparr>)))"

lemma arrived_registry:
  assumes "fmlookup (nd_peers n) i = Some c"
  shows "registry n (snd (arrived E now i msg c n))"
proof -
  let ?p0 = "markSeen now ((cn_peer c)\<lparr>pr_bytesRecv := pr_bytesRecv (cn_peer c) + of_nat (length (msg_Payload msg) + 24)\<rparr>)"
  obtain allowed rate p where a: "allowPeerMessage (ne_policy E) now (msg_Command msg) (nd_rate n, ?p0) = (allowed, rate, p)"
    by (metis prod.exhaust)
  have "peer_same (cn_peer c) p" using allowPeerMessage_same [OF a] by (simp add: peer_same_def markSeen_def)
  from registry_peer [OF assms this] a show ?thesis by (simp add: arrived_def Let_def)
qed

lemma allowPeerMessage_remote: "allowPeerMessage pol now command (g, p) = (b, g', q) \<Longrightarrow> pr_remote q = pr_remote p"
  using allowPeerMessage_same by (auto simp: peer_same_def)

lemma receive_cases:
  obtains (unread) "receive E now i bs n \<in> {n, unregisterPeer i n}"
  | (over) c msg r where "fmlookup (nd_peers n) i = Some c" "\<not> fst (arrived E now i msg c n)"
      "ReadMessage (pp_MessageStart (ne_policy E)) bs = Inr (msg, r)"
      "receive E now i bs n = unregisterPeer i (scoreOn E now i 20 ''peer message rate limit exceeded'' (snd (arrived E now i msg c n)))"
  | (early) c msg r where "fmlookup (nd_peers n) i = Some c" "ReadMessage (pp_MessageStart (ne_policy E)) bs = Inr (msg, r)"
      "\<not> (cn_gotVersion c \<and> cn_gotVerAck c)" "\<not> handshakeCommand (msg_Command msg)"
      "receive E now i bs n = unregisterPeer i (snd (arrived E now i msg c n))"
  | (go) c msg r out m where "fmlookup (nd_peers n) i = Some c" "ReadMessage (pp_MessageStart (ne_policy E)) bs = Inr (msg, r)"
      "(cn_gotVersion c \<and> cn_gotVerAck c) \<or> handshakeCommand (msg_Command msg)" "\<not> pr_closed (cn_peer c)"
      "dispatch E now i (pr_remote (cn_peer c)) msg (snd (arrived E now i msg c n)) = (out, m)"
      "receive E now i bs n = (case out of Close \<Rightarrow> unregisterPeer i m | Continue \<Rightarrow> m | Proceed \<Rightarrow> afterHandshake E now i m)"
proof (cases "fmlookup (nd_peers n) i")
  case None
  then show ?thesis using unread by (simp add: receive_def)
next
  case (Some c)
  show ?thesis
  proof (cases "pr_closed (cn_peer c) \<or> (\<exists>e. ReadMessage (pp_MessageStart (ne_policy E)) bs = Inl e)")
    case True
    then show ?thesis using Some unread by (auto simp: receive_def)
  next
    case False
    then obtain msg r where rm: "ReadMessage (pp_MessageStart (ne_policy E)) bs = Inr (msg, r)"
      by (metis sum.exhaust prod.exhaust)
    let ?p0 = "markSeen now ((cn_peer c)\<lparr>pr_bytesRecv := pr_bytesRecv (cn_peer c) + of_nat (length (msg_Payload msg) + 24)\<rparr>)"
    obtain allowed rate p where a: "allowPeerMessage (ne_policy E) now (msg_Command msg) (nd_rate n, ?p0) = (allowed, rate, p)"
      by (metis prod.exhaust)
    have remote: "pr_remote p = pr_remote (cn_peer c)" using allowPeerMessage_remote [OF a] by (simp add: markSeen_def)
    let ?n = "snd (arrived E now i msg c n)"
    have arr: "fst (arrived E now i msg c n) = allowed" "?n = updHealth (\<lambda>h. h\<lparr>hl_lastPeerMsg := now\<rparr>)
        (n\<lparr>nd_peers := fmupd i (c\<lparr>cn_peer := p\<rparr>) (nd_peers n), nd_rate := rate\<rparr>)"
      using a by (simp_all add: arrived_def Let_def)
    obtain out m where d: "dispatch E now i (pr_remote (cn_peer c)) msg ?n = (out, m)" by (metis prod.exhaust)
    have eq: "receive E now i bs n =
       (if \<not> allowed then unregisterPeer i (scoreOn E now i 20 ''peer message rate limit exceeded'' ?n)
        else if (\<not> cn_gotVersion c \<or> \<not> cn_gotVerAck c) \<and> \<not> handshakeCommand (msg_Command msg)
        then unregisterPeer i ?n
        else (case (out, m) of (Close, n) \<Rightarrow> unregisterPeer i n | (Continue, n) \<Rightarrow> n
               | (Proceed, n) \<Rightarrow> afterHandshake E now i n))"
      unfolding d [symmetric] arr(2) using Some False rm a remote by (simp add: receive_def Let_def)
    consider "\<not> allowed"
      | "allowed" "(\<not> cn_gotVersion c \<or> \<not> cn_gotVerAck c) \<and> \<not> handshakeCommand (msg_Command msg)"
      | "allowed" "\<not> ((\<not> cn_gotVersion c \<or> \<not> cn_gotVerAck c) \<and> \<not> handshakeCommand (msg_Command msg))"
      by blast
    then show ?thesis
    proof cases
      case 1
      then show ?thesis using over [OF Some _ rm] arr(1) eq by simp
    next
      case 2
      then show ?thesis using early [OF Some rm] eq by simp
    next
      case 3
      have "receive E now i bs n = (case out of Close \<Rightarrow> unregisterPeer i m | Continue \<Rightarrow> m | Proceed \<Rightarrow> afterHandshake E now i m)"
        unfolding eq if_not_P [OF 3(2)] using 3(1) by simp
      from go [OF Some rm _ _ d this] 3(2) False show ?thesis by blast
    qed
  qed
qed

lemma receive_net:
  assumes n: "conns_ok (ne_policy E) n"
  shows "conns_ok (ne_policy E) (receive E now i bs n) \<and> shrinks n (receive E now i bs n) \<and>
    (nd_bans (receive E now i bs n) \<noteq> nd_bans n \<longrightarrow> ban_reason E bs)"
proof -
  have drop: "conns_ok (ne_policy E) (unregisterPeer i k) \<and> shrinks n (unregisterPeer i k)"
    if "conns_but (ne_policy E) {i} k" "shrinks n k" for k
    using unregister_conns [OF that(1)] shrinks_trans [OF that(2) unregister_shrinks] by blast
  have arr: "conns_ok (ne_policy E) (snd (arrived E now i msg c n))" "shrinks n (snd (arrived E now i msg c n))"
      "nd_bans (snd (arrived E now i msg c n)) = nd_bans n" if "fmlookup (nd_peers n) i = Some c" for msg c
    using arrived_registry [OF that, of E now msg] registry_conns [OF _ n] registry_shrinks by (auto simp: registry_def)
  show ?thesis
  proof (cases rule: receive_cases [of E now i bs n])
    case unread
    with n drop [OF conns_weaken [OF n] shrinks_refl] show ?thesis by auto
  next
    case (over c msg r)
    let ?n = "snd (arrived E now i msg c n)"
    note k = arr [OF over(1), of msg]
    have "pr_banScore (cn_peer d) = 0" if "fmlookup (nd_peers ?n) i = Some d" for d
      using k(1) that unfolding conns_but_def conn_ok_def by blast
    from scoreOn_bans [of ?n i E now 20, OF this] have
      "nd_bans (scoreOn E now i 20 ''peer message rate limit exceeded'' ?n) \<noteq> nd_bans n \<longrightarrow> ban_reason E bs"
      using k(3) unfolding ban_reason_def by metis
    with drop [OF scoreOn_conns [OF conns_weaken [OF k(1)]] shrinks_trans [OF k(2) scoreOn_shrinks]]
    show ?thesis unfolding over(4) by simp
  next
    case (early c msg r)
    note k = arr [OF early(1), of msg]
    from drop [OF conns_weaken [OF k(1)] k(2)] k(3) show ?thesis unfolding early(5) by simp
  next
    case (go c msg r out m)
    note k = arr [OF go(1), of msg]
    note dn = dispatch_net [OF go(5) k(1) go(2)]
    have s: "shrinks n m" using shrinks_trans [OF k(2)] dn by blast
    show ?thesis
    proof (cases out)
      case Close
      then show ?thesis unfolding go(6) using dn drop [OF _ s] k(3) by simp
    next
      case Continue
      then show ?thesis unfolding go(6) using dn s k(3) by simp
    next
      case Proceed
      then have "conns_ok (ne_policy E) m" using dn by simp
      from afterHandshake_net [OF this, of E now i] Proceed show ?thesis
        unfolding go(6) using dn shrinks_trans [OF s] k(3) by simp
    qed
  qed
qed

section \<open>Connections\<close>

definition peer_order_ok :: "(nat fset \<Rightarrow> nat list) \<Rightarrow> bool" where
  "peer_order_ok ord \<longleftrightarrow> (\<forall>A. distinct (ord A) \<and> set (ord A) = fset A)"

definition inbound :: "(string \<Rightarrow> bool) \<Rightarrow> Node \<Rightarrow> nat set" where
  "inbound P n = {i. \<exists>c. fmlookup (nd_peers n) i = Some c \<and> \<not> pr_outbound (cn_peer c) \<and> P (pr_remote (cn_peer c))}"

lemma finite_inbound [simp]: "finite (inbound P n)"
  by (rule finite_subset [of _ "fset (fmdom (nd_peers n))"]) (auto simp: inbound_def fmlookup_dom_iff)

lemma length_filter_map_filter:
  "length (List.filter Q (List.map_filter g xs)) =
   length (List.filter (\<lambda>x. case g x of None \<Rightarrow> False | Some y \<Rightarrow> Q y) xs)"
  by (induction xs) (auto simp: List.map_filter_simps split: option.splits)

lemma inboundCount_card:
  assumes "peer_order_ok (ne_peerOrd E)"
  shows "inboundCount (\<lambda>p. P (pr_remote p)) E n = int (card (inbound P n))"
proof -
  let ?xs = "ne_peerOrd E (fmdom (nd_peers n))"
  let ?ys = "List.filter (\<lambda>i. case map_option (\<lambda>c. (i, cn_peer c)) (fmlookup (nd_peers n) i) of
    None \<Rightarrow> False | Some y \<Rightarrow> (\<lambda>(_, p). \<not> pr_outbound p \<and> P (pr_remote p)) y) ?xs"
  have "distinct ?ys" using assms by (simp add: peer_order_ok_def)
  moreover have xs: "set ?xs = fset (fmdom (nd_peers n))" using assms by (simp add: peer_order_ok_def)
  have "i \<in> set ?ys \<longleftrightarrow> i \<in> inbound P n" for i
  proof (cases "fmlookup (nd_peers n) i")
    case None
    then show ?thesis by (simp add: inbound_def)
  next
    case (Some c)
    then have "i \<in> set ?xs" unfolding xs by (rule fmdomI)
    then show ?thesis unfolding set_filter by (simp add: inbound_def Some)
  qed
  then have "set ?ys = inbound P n" by blast
  ultimately have "length ?ys = card (inbound P n)" using distinct_card [of ?ys] by simp
  then show ?thesis by (simp add: inboundCount_def snapshotPeers_def length_filter_map_filter)
qed

lemma shrinks_inbound: "shrinks n m \<Longrightarrow> card (inbound P m) \<le> card (inbound P n)"
  by (rule card_mono) (simp, fastforce simp: shrinks_def inbound_def)

text \<open>
  The connections that count against a limit: the registered ones and those that have passed the
  check of the limit and are about to be. With at most \<open>k\<close> incoming connections at the gates at
  a time, they exceed the limit by less than \<open>k\<close>.
\<close>

definition incoming :: "joining list \<Rightarrow> nat" where
  "incoming js = length (List.filter (\<lambda>j. jn_dialed j = None) js)"

definition passed :: "(string \<Rightarrow> bool) \<Rightarrow> gate list \<Rightarrow> joining list \<Rightarrow> nat" where
  "passed P gs js = length (List.filter (\<lambda>j. jn_dialed j = None \<and> P (jn_remote j) \<and> jn_gate j \<in> set gs) js)"

definition below :: "int \<Rightarrow> nat \<Rightarrow> (string \<Rightarrow> bool) \<Rightarrow> gate list \<Rightarrow> joining list \<Rightarrow> Node \<Rightarrow> bool" where
  "below limit k P gs js n \<longleftrightarrow> (limit > 0 \<longrightarrow> int (card (inbound P n)) + int (passed P gs js) < limit + int k)"

definition limits :: "p2pPolicy \<Rightarrow> nat \<Rightarrow> joining list \<Rightarrow> Node \<Rightarrow> bool" where
  "limits pol k js n \<longleftrightarrow> incoming js \<le> k \<and>
     below (pp_maxInboundPeers pol) k (\<lambda>r. True) [AtHost, AtSubnet, AtOnly, AtRegister] js n \<and>
     (\<forall>host. below (pp_maxPerIP pol) k (\<lambda>r. splitHost r = host) [AtSubnet, AtOnly, AtRegister] js n) \<and>
     (\<forall>net. net \<noteq> [] \<longrightarrow>
        below (pp_maxPerSubnet pol) k (\<lambda>r. subnetKey (splitHost r) = net) [AtOnly, AtRegister] js n)"

lemma passed_incoming: "passed P gs js \<le> incoming js"
  by (induction js) (auto simp: passed_def incoming_def)

lemma passed_append: "passed P gs (xs @ ys) = passed P gs xs + passed P gs ys"
  by (simp add: passed_def)

lemma passed_Cons: "passed P gs (j # js) =
    (if jn_dialed j = None \<and> P (jn_remote j) \<and> jn_gate j \<in> set gs then 1 else 0) + passed P gs js"
  by (simp add: passed_def)

lemma incoming_parts [simp]:
  "incoming [] = 0" "incoming (xs @ ys) = incoming xs + incoming ys"
  "incoming (j # js) = (if jn_dialed j = None then 1 else 0) + incoming js"
  by (simp_all add: incoming_def)

lemma below_fewer:
  assumes "below limit k P gs js n" "card (inbound P m) \<le> card (inbound P n)" "passed P gs js' \<le> passed P gs js"
  shows "below limit k P gs js' m"
  using assms by (auto simp: below_def)

lemma limits_fewer:
  assumes "limits pol k js n" "\<And>P. card (inbound P m) \<le> card (inbound P n)" "incoming js' \<le> incoming js"
    "\<And>P gs. AtBan \<notin> set gs \<Longrightarrow> passed P gs js' \<le> passed P gs js"
  shows "limits pol k js' m"
proof -
  have b: "AtBan \<notin> set gs \<Longrightarrow> below limit k P gs js n \<Longrightarrow> below limit k P gs js' m" for limit P gs
    using below_fewer [OF _ assms(2) assms(4)] by blast
  show ?thesis using assms(1,3) unfolding limits_def by (simp add: b)
qed

lemma limits_shrinks: "shrinks n m \<Longrightarrow> limits pol k js n \<Longrightarrow> limits pol k js m"
  using limits_fewer [of pol k js n m js] shrinks_inbound by blast

lemma limits_more:
  assumes "limits pol k js n" "k \<le> l"
  shows "limits pol l js n"
proof -
  have "below limit k P gs js n \<Longrightarrow> below limit l P gs js n" for limit P gs
    using assms(2) by (auto simp: below_def)
  then show ?thesis using assms unfolding limits_def by auto
qed

lemma below_moved:
  assumes "below limit k P gs (xs @ j # ys) n" "nd_peers m = nd_peers n" "incoming (xs @ j # ys) \<le> k"
    "jn_dialed j = None \<Longrightarrow> P (jn_remote j) \<Longrightarrow> h \<in> set gs \<Longrightarrow> jn_gate j \<notin> set gs \<Longrightarrow> limit > 0 \<Longrightarrow>
       int (card (inbound P n)) < limit"
  shows "below limit k P gs (xs @ j\<lparr>jn_gate := h\<rparr> # ys) m"
proof -
  let ?js = "xs @ j\<lparr>jn_gate := h\<rparr> # ys"
  have m: "inbound P m = inbound P n" by (simp add: inbound_def assms(2))
  show ?thesis
  proof (cases "jn_dialed j = None \<and> P (jn_remote j) \<and> h \<in> set gs \<and> jn_gate j \<notin> set gs")
    case True
    have "passed P gs ?js \<le> k" using passed_incoming [of P gs ?js] assms(3) by simp
    with True assms(4) show ?thesis unfolding below_def m by auto
  next
    case False
    then have "passed P gs ?js \<le> passed P gs (xs @ j # ys)" by (auto simp: passed_append passed_Cons)
    with below_fewer [OF assms(1)] show ?thesis by (simp add: m)
  qed
qed

lemma below_joined:
  assumes "below limit k P gs (xs @ j # ys) n" "jn_gate j \<in> set gs"
    "card (inbound P m) \<le> card (inbound P n) + (if jn_dialed j = None \<and> P (jn_remote j) then 1 else 0)"
  shows "below limit k P gs (xs @ ys) m"
  using assms by (auto simp: below_def passed_append passed_Cons split: if_splits)

lemma inbound_added:
  assumes "nd_peers m = fmupd i c (nd_peers n)"
  shows "card (inbound P m) \<le> card (inbound P n) +
    (if \<not> pr_outbound (cn_peer c) \<and> P (pr_remote (cn_peer c)) then 1 else 0)"
proof -
  have "inbound P m \<subseteq> (if \<not> pr_outbound (cn_peer c) \<and> P (pr_remote (cn_peer c)) then insert i (inbound P n) else inbound P n)"
    using assms by (auto simp: inbound_def split: if_splits)
  then have "card (inbound P m) \<le> card (if \<not> pr_outbound (cn_peer c) \<and> P (pr_remote (cn_peer c)) then insert i (inbound P n) else inbound P n)"
    by (intro card_mono) auto
  also have "\<dots> \<le> card (inbound P n) + (if \<not> pr_outbound (cn_peer c) \<and> P (pr_remote (cn_peer c)) then 1 else 0)"
    by (simp add: card_insert_le_m1 card_insert_if)
  finally show ?thesis .
qed

text \<open>A connection at the gates: a check leaves all but the bans, what registers is one connection.\<close>

lemma checkGate_node: "checkGate g E now remote outbound n = (b, m) \<Longrightarrow> m = n\<lparr>nd_bans := nd_bans m\<rparr>"
  by (cases g) (auto simp: Let_def split: prod.splits)

lemma checkGates_node: "checkGates gs E now remote outbound n = (b, m) \<Longrightarrow> m = n\<lparr>nd_bans := nd_bans m\<rparr>"
proof (induction gs arbitrary: n)
  case (Cons g gs)
  obtain c k where k: "checkGate g E now remote outbound n = (c, k)" by (metis prod.exhaust)
  have "m = k\<lparr>nd_bans := nd_bans m\<rparr>" using Cons k by (cases c) (auto intro: checkGate_node [OF k])
  then show ?case using checkGate_node [OF k] by (metis Node.surjective Node.update_convs(5))
qed simp

lemma dialDone_parts [simp]:
  "nd_peers (dialDone d n) = nd_peers n" "nd_chain (dialDone d n) = nd_chain n" "nd_pool (dialDone d n) = nd_pool n"
  "nd_nextPeer (dialDone d n) = nd_nextPeer n" "nd_sent (dialDone d n) = nd_sent n"
  by (simp_all add: dialDone_def updAddr_def split: option.splits)

lemma refuseConn_parts [simp]:
  "nd_peers (refuseConn d n) = nd_peers n" "nd_chain (refuseConn d n) = nd_chain n" "nd_pool (refuseConn d n) = nd_pool n"
  "nd_sent (refuseConn d n) = nd_sent n"
  by (simp_all add: refuseConn_def Let_def updAddr_def split: option.splits)

definition newConn :: "string \<Rightarrow> string option \<Rightarrow> time \<Rightarrow> conn" where
  "newConn remote dialed now = \<lparr>cn_peer = newPeer remote (dialed \<noteq> None) now, cn_gotVersion = False,
     cn_gotVerAck = False, cn_didSync = False, cn_dialed = dialed\<rparr>"

definition registered :: "string \<Rightarrow> string option \<Rightarrow> time \<Rightarrow> Node \<Rightarrow> Node" where
  "registered remote dialed since n = (dialDone dialed n)\<lparr>nd_nextPeer := nd_nextPeer n + 1,
     nd_peers := fmupd (nd_nextPeer n) (newConn remote dialed since) (nd_peers n)\<rparr>"

lemma registerConn_eq:
  "registerConn E now since remote ip port dialed n =
     (let m = registered remote dialed since n;
          w = writePeerMessage E (nd_nextPeer n) ''version'' (versionPayload E now ip port (ne_nonce E (nd_writes m)) m) m
      in if fst w then snd w else unregisterPeer (nd_nextPeer n) (snd w))"
  by (simp add: registerConn_def registered_def newConn_def Let_def split: prod.splits bool.splits)

lemma registered_peers [simp]:
  "nd_peers (registered remote dialed since n) = fmupd (nd_nextPeer n) (newConn remote dialed since) (nd_peers n)"
  by (simp add: registered_def)

lemma inbound_registered:
  "card (inbound P (registered remote dialed since n)) \<le> card (inbound P n) + (if dialed = None \<and> P remote then 1 else 0)"
  using inbound_added [OF registered_peers, of P remote dialed since n] by (simp add: newConn_def newPeer_def)

lemma registerConn_net:
  assumes "conns_ok pol n"
  shows "conns_ok pol (registerConn E now since remote ip port dialed n) \<and>
    shrinks (registered remote dialed since n) (registerConn E now since remote ip port dialed n)"
proof -
  let ?m = "registered remote dialed since n"
  let ?w = "writePeerMessage E (nd_nextPeer n) ''version'' (versionPayload E now ip port (ne_nonce E (nd_writes ?m)) ?m) ?m"
  have "conn_ok pol (newConn remote dialed since)"
    by (simp add: conn_ok_def newConn_def newPeer_def)
  then have ok: "conns_ok pol ?m" using assms by (auto simp: conns_but_def)
  have r: "registry ?m (snd ?w)" by (rule registry.written)
  show ?thesis
    unfolding registerConn_eq Let_def
    using registry_conns [OF r ok] registry_shrinks [OF r] unregister_conns [OF conns_weaken]
      shrinks_trans [OF registry_shrinks [OF r] unregister_shrinks]
    by auto
qed

text \<open>What a check says, in terms of the registered connections.\<close>

lemma checkGate_limit:
  assumes "checkGate g E now remote False n = (True, m)" "peer_order_ok (ne_peerOrd E)"
  shows "g = AtInbound \<Longrightarrow> pp_maxInboundPeers (ne_policy E) > 0 \<Longrightarrow>
      int (card (inbound (\<lambda>r. True) n)) < pp_maxInboundPeers (ne_policy E)"
    and "g = AtHost \<Longrightarrow> pp_maxPerIP (ne_policy E) > 0 \<Longrightarrow>
      int (card (inbound (\<lambda>r. splitHost r = splitHost remote) n)) < pp_maxPerIP (ne_policy E)"
    and "g = AtSubnet \<Longrightarrow> pp_maxPerSubnet (ne_policy E) > 0 \<Longrightarrow> subnetKey (splitHost remote) \<noteq> [] \<Longrightarrow>
      int (card (inbound (\<lambda>r. subnetKey (splitHost r) = subnetKey (splitHost remote)) n)) < pp_maxPerSubnet (ne_policy E)"
  using assms(1) inboundCount_card [OF assms(2), of "\<lambda>r. True" n]
    inboundCount_card [OF assms(2), of "\<lambda>r. splitHost r = splitHost remote" n]
    inboundCount_card [OF assms(2), of "\<lambda>r. subnetKey (splitHost r) = subnetKey (splitHost remote)" n]
  by (auto simp: Let_def inboundSubnetCount_def)

lemma limits_moved:
  assumes "limits (ne_policy E) k (xs @ j # ys) n" "peer_order_ok (ne_peerOrd E)" "jn_gate j \<noteq> AtRegister"
    "checkGate (jn_gate j) E now (jn_remote j) (jn_dialed j \<noteq> None) n = (True, m)"
  shows "limits (ne_policy E) k (xs @ j\<lparr>jn_gate := nextGate (jn_gate j)\<rparr> # ys) m"
proof -
  have m: "nd_peers m = nd_peers n" using checkGate_node [OF assms(4)] by (metis Node.update_convs(5) Node.ext_inject Node.surjective)
  have inc: "incoming (xs @ j # ys) \<le> k" using assms(1) by (simp add: limits_def)
  have chk: "jn_dialed j = None \<Longrightarrow> checkGate (jn_gate j) E now (jn_remote j) False n = (True, m)" using assms(4) by simp
  note lim = checkGate_limit [OF chk assms(2)]
  have a: "nextGate g \<in> set [AtHost, AtSubnet, AtOnly, AtRegister] \<Longrightarrow> g \<notin> set [AtHost, AtSubnet, AtOnly, AtRegister] \<Longrightarrow> g = AtInbound"
    "nextGate g \<in> set [AtSubnet, AtOnly, AtRegister] \<Longrightarrow> g \<notin> set [AtSubnet, AtOnly, AtRegister] \<Longrightarrow> g = AtHost"
    "nextGate g \<in> set [AtOnly, AtRegister] \<Longrightarrow> g \<notin> set [AtOnly, AtRegister] \<Longrightarrow> g = AtSubnet" for g
    by (cases g; simp)+
  show ?thesis
    using assms(1) inc unfolding limits_def
    by (intro conjI allI impI; (elim conjE)?; (simp; fail)?)
      (rule below_moved [OF _ m inc]; use a lim in \<open>auto; fail\<close>)+
qed

end
