(* ===== verification/P2PDial.thy ===== *)
theory P2PDial
  imports P2PRun
begin

text \<open>
  The slots for outgoing connections, and the runs of a node. An address holds a slot from the
  moment it is dialled until its connection ends; there are 32 of them, and no two dials or
  connections hold the same.
\<close>

section \<open>Slots\<close>

definition dialledAs :: "Node \<Rightarrow> nat \<Rightarrow> string option" where
  "dialledAs n i = Option.bind (fmlookup (nd_peers n) i) cn_dialed"

definition slots :: "string set \<Rightarrow> Node \<Rightarrow> bool" where
  "slots D n \<longleftrightarrow> fcard (as_knownOutbound (nd_addr n)) \<le> outboundDialSlots \<and>
     distinct (as_dials (nd_addr n)) \<and> set (as_dials (nd_addr n)) \<subseteq> fset (as_knownOutbound (nd_addr n)) \<and>
     (\<forall>i a. dialledAs n i = Some a \<longrightarrow>
        a |\<in>| as_knownOutbound (nd_addr n) \<and> a \<notin> set (as_dials (nd_addr n))) \<and>
     D \<subseteq> set (as_dials (nd_addr n)) \<and>
     (\<forall>i j a. dialledAs n i = Some a \<longrightarrow> dialledAs n j = Some a \<longrightarrow> i = j)"

definition dialing :: "Node \<Rightarrow> Node \<Rightarrow> bool" where
  "dialing n m \<longleftrightarrow> (\<forall>D. slots D n \<longrightarrow> slots D m)"

lemma slots_cong:
  assumes "as_knownOutbound (nd_addr m) = as_knownOutbound (nd_addr n)"
    "as_dials (nd_addr m) = as_dials (nd_addr n)" "\<And>i. dialledAs m i = dialledAs n i"
  shows "slots D m = slots D n"
  using assms by (simp add: slots_def)

lemma dialledAs_traffic: "traffic n m \<Longrightarrow> dialledAs m i = dialledAs n i"
proof -
  assume "traffic n m"
  then have "rel_option conn_same (fmlookup (nd_peers n) i) (fmlookup (nd_peers m) i)" by (simp add: traffic_def)
  then show ?thesis
    by (cases "fmlookup (nd_peers n) i") (auto simp: dialledAs_def option_rel_Some1 conn_same_def)
qed

lemma writePeerMessage_addr [simp]: "nd_addr (snd (writePeerMessage E i c p n)) = nd_addr n"
  by (simp add: writePeerMessage_def Let_def split: option.splits sum.splits)

lemma slots_traffic: "traffic n m \<Longrightarrow> nd_addr m = nd_addr n \<Longrightarrow> dialing n m"
  unfolding dialing_def using slots_cong dialledAs_traffic by metis

lemma slots_fields [simp]:
  "slots D (updHealth g n) = slots D n" "slots D (n\<lparr>nd_getdata := q\<rparr>) = slots D n"
  "slots D (n\<lparr>nd_missing := ms\<rparr>) = slots D n" "slots D (n\<lparr>nd_tasks := ts\<rparr>) = slots D n"
  "slots D (n\<lparr>nd_chain := ch\<rparr>) = slots D n" "slots D (n\<lparr>nd_pool := p\<rparr>) = slots D n"
  "slots D (n\<lparr>nd_bans := b\<rparr>) = slots D n" "slots D (n\<lparr>nd_rate := r\<rparr>) = slots D n"
  by (rule slots_cong; simp add: updHealth_def dialledAs_def)+

lemma slots_addr_fields [simp]:
  "slots D (updAddr (\<lambda>a. a\<lparr>as_known := f a\<rparr>) n) = slots D n"
  "slots D (updAddr (\<lambda>a. a\<lparr>as_lastAttempt := h a\<rparr>) n) = slots D n"
  "slots D (updAddr (addBootstrapPeer E now addr) n) = slots D n"
  by (rule slots_cong; simp add: updAddr_def dialledAs_def addBootstrapPeer_def split: option.splits)+

lemma slots_AddNode:
  assumes "slots D n"
  shows "slots D (snd (AddNode E now addr0 n))"
proof (cases "normalizePeerAddress addr0 (pp_DefaultPort (ne_policy E))")
  case None
  then show ?thesis using assms by (simp add: AddNode_def)
next
  case (Some addr)
  define n1 where "n1 = updAddr (addBootstrapPeer E now addr) n"
  obtain throttled m where t: "shouldThrottleOutboundDial (ne_policy E) addr now (as_lastAttempt (nd_addr n1)) = (throttled, m)"
    by (metis prod.exhaust)
  define k where "k = updAddr (\<lambda>a. a\<lparr>as_lastAttempt := m\<rparr>) n1"
  have k: "slots D k" using assms by (simp add: k_def n1_def)
  let ?d = "updAddr (\<lambda>a. a\<lparr>as_knownOutbound := finsert addr (as_knownOutbound a), as_dials := as_dials a @ [addr]\<rparr>) k"
  have d: "slots D ?d" if "addr |\<notin>| as_knownOutbound (nd_addr k)" "\<not> fcard (as_knownOutbound (nd_addr k)) \<ge> outboundDialSlots"
  proof -
    have "dialledAs ?d i = dialledAs k i" for i by (simp add: dialledAs_def updAddr_def)
    then show ?thesis
      using k that by (auto simp: slots_def updAddr_def fcard_finsert_disjoint)
  qed
  have "snd (AddNode E now addr0 n) \<in> {n, k} \<or> (addr |\<notin>| as_knownOutbound (nd_addr k) \<and>
      \<not> fcard (as_knownOutbound (nd_addr k)) \<ge> outboundDialSlots \<and> snd (AddNode E now addr0 n) = ?d)"
    using Some t by (simp add: AddNode_def Let_def n1_def [symmetric] k_def [symmetric])
  with assms k d show ?thesis by auto
qed

interpretation dialing: node_steps dialing
proof (unfold_locales, goal_cases)
  case (4 g n i)
  then show ?case using slots_traffic traffic.marked by simp
next
  case (5 n E i command payload)
  show ?case by (rule slots_traffic [OF traffic.written]) simp
next
  case (10 n E now addr)
  show ?case by (simp add: dialing_def slots_AddNode)
qed (auto simp: dialing_def)

lemma slots_updConn:
  assumes "\<And>c. cn_dialed (f c) = cn_dialed c"
  shows "slots D (updConn i f n) = slots D n"
proof (rule slots_cong)
  show "dialledAs (updConn i f n) j = dialledAs n j" for j
    using assms by (auto simp: dialledAs_def updConn_def split: option.splits)
qed simp_all

lemma slots_scoreOn [simp]: "slots D (scoreOn E now i score reason n) = slots D n"
  by (rule slots_cong) (auto simp: dialledAs_def scoreOn_def split: option.splits prod.splits)

lemma fcard_minus_le: "fcard (A |-| {|x|}) \<le> fcard A"
  by (rule fcard_mono) auto

lemma slots_freed:
  assumes "slots D n" "as_knownOutbound (nd_addr m) = as_knownOutbound (nd_addr n) |-| {|a|}"
    "as_dials (nd_addr m) = as_dials (nd_addr n)" "a \<notin> set (as_dials (nd_addr n))"
    "\<And>j. dialledAs m j = dialledAs n j \<or> dialledAs m j = None" "\<And>j. dialledAs m j \<noteq> Some a"
  shows "slots D m"
proof -
  have le: "fcard (as_knownOutbound (nd_addr n) |-| {|a|}) \<le> outboundDialSlots"
    using assms(1) fcard_minus_le [of "as_knownOutbound (nd_addr n)" a] unfolding slots_def by linarith
  have keep: "dialledAs n j = Some b \<and> b \<noteq> a" if "dialledAs m j = Some b" for j b
    using assms(5) [of j] assms(6) [of j] that by auto
  show ?thesis
    unfolding slots_def assms(2,3)
  proof (intro conjI allI impI)
    show "set (as_dials (nd_addr n)) \<subseteq> fset (as_knownOutbound (nd_addr n) |-| {|a|})"
      using assms(1,4) by (auto simp: slots_def)
    show "i = j" if "dialledAs m i = Some b" "dialledAs m j = Some b" for i j b
      using keep [OF that(1)] keep [OF that(2)] assms(1) by (simp add: slots_def)
  next
    fix i b
    assume "dialledAs m i = Some b"
    from keep [OF this] show "b |\<in>| as_knownOutbound (nd_addr n) |-| {|a|}" "b \<notin> set (as_dials (nd_addr n))"
      using assms(1) by (auto simp: slots_def)
  qed (use assms(1) le in \<open>auto simp: slots_def\<close>)
qed

lemma slots_unregister:
  assumes "slots D n"
  shows "slots D (unregisterPeer i n)"
proof (cases "fmlookup (nd_peers n) i")
  case None
  then show ?thesis using assms by (simp add: unregisterPeer_def)
next
  case (Some c)
  show ?thesis
  proof (cases "cn_dialed c")
    case None
    have "dialledAs (unregisterPeer i n) j = dialledAs n j" for j
      using Some None by (simp add: unregisterPeer_def dialledAs_def)
    moreover have "nd_addr (unregisterPeer i n) = nd_addr n" using Some None by (simp add: unregisterPeer_def)
    ultimately show ?thesis using slots_cong assms by metis
  next
    case a: (Some a)
    have d: "dialledAs n i = Some a" using Some a by (simp add: dialledAs_def)
    have m: "dialledAs (unregisterPeer i n) j = (if j = i then None else dialledAs n j)" for j
      using Some a by (simp add: unregisterPeer_def dialledAs_def updAddr_def)
    show ?thesis
    proof (rule slots_freed [OF assms])
      show "as_knownOutbound (nd_addr (unregisterPeer i n)) = as_knownOutbound (nd_addr n) |-| {|a|}"
        "as_dials (nd_addr (unregisterPeer i n)) = as_dials (nd_addr n)"
        using Some a by (simp_all add: unregisterPeer_def updAddr_def)
      show "a \<notin> set (as_dials (nd_addr n))" using assms d by (simp add: slots_def)
      show "dialledAs (unregisterPeer i n) j = dialledAs n j \<or> dialledAs (unregisterPeer i n) j = None" for j
        using m by simp
      show "dialledAs (unregisterPeer i n) j \<noteq> Some a" for j
        using m d assms unfolding slots_def by (metis option.distinct(1))
    qed
  qed
qed

lemma slots_handshake:
  "handleVersion E now i payload n = (out, m) \<Longrightarrow> slots D n \<Longrightarrow> slots D m"
  "handleVerAck E i n = (out, m) \<Longrightarrow> slots D n \<Longrightarrow> slots D m"
proof -
  have w: "slots D k \<Longrightarrow> slots D (snd (writePeerMessage E i c p k))" for k c p
    using dialing.written by (simp add: dialing_def)
  show "handleVersion E now i payload n = (out, m) \<Longrightarrow> slots D n \<Longrightarrow> slots D m"
    by (auto simp: handleVersion_def Let_def orClose_def slots_updConn updPeer_eq_updConn
        intro!: w split: option.splits if_splits)
  show "handleVerAck E i n = (out, m) \<Longrightarrow> slots D n \<Longrightarrow> slots D m"
    by (auto simp: handleVerAck_def Let_def slots_updConn intro!: w)
qed

lemma slots_dispatch:
  assumes "dispatch E now i remote msg n = (out, m)" "slots D n"
  shows "slots D m"
proof -
  consider "msg_Command msg = ''version''" | "msg_Command msg = ''verack''"
    | "msg_Command msg \<noteq> ''version''" "msg_Command msg \<noteq> ''verack''" by blast
  then show ?thesis
  proof cases
    case 3
    then show ?thesis using dialing.dispatch [OF assms(1)] assms(2) by (simp add: dialing_def)
  qed (use assms slots_handshake in \<open>auto simp: dispatch_def\<close>)
qed

lemma slots_greeted:
  assumes "slots D n"
  shows "slots D (afterHandshake E now i n)"
proof (cases "\<exists>c. fmlookup (nd_peers n) i = Some c \<and> cn_gotVersion c \<and> cn_gotVerAck c \<and> \<not> cn_didSync c")
  case True
  then obtain c where "fmlookup (nd_peers n) i = Some c" "cn_gotVersion c \<and> cn_gotVerAck c \<and> \<not> cn_didSync c" by blast
  from dialing.greeted [OF this] assms show ?thesis by (simp add: dialing_def slots_updConn)
next
  case False
  then have "afterHandshake E now i n = n" by (auto simp: afterHandshake_def split: option.splits)
  with assms show ?thesis by simp
qed

lemma slots_peer:
  assumes "fmlookup (nd_peers n) i = Some c"
  shows "slots D (updHealth f (n\<lparr>nd_peers := fmupd i (c\<lparr>cn_peer := p\<rparr>) (nd_peers n), nd_rate := rate\<rparr>)) = slots D n"
  by (rule slots_cong) (auto simp: updHealth_def dialledAs_def assms)

lemma slots_receive:
  assumes "slots D n"
  shows "slots D (receive E now i bs n)"
  using assms unfolding receive_def Let_def
  by (auto split: option.splits sum.splits prod.splits outcome.splits if_splits
      intro!: slots_unregister slots_greeted elim!: slots_dispatch simp: slots_peer simp del: slots_fields)

section \<open>New connections\<close>

lemma slots_added:
  assumes "slots D n" "nd_addr m = nd_addr n" "nd_peers m = fmupd i c (nd_peers n)"
    "\<And>a. cn_dialed c = Some a \<Longrightarrow> a |\<in>| as_knownOutbound (nd_addr n) \<and> a \<notin> set (as_dials (nd_addr n)) \<and>
      (\<forall>j. dialledAs n j \<noteq> Some a)"
  shows "slots D m"
proof -
  have d: "dialledAs m j = (if j = i then cn_dialed c else dialledAs n j)" for j
    by (simp add: dialledAs_def assms(3))
  show ?thesis
    unfolding slots_def assms(2) d
  proof (intro conjI allI impI)
    fix j a
    assume "(if j = i then cn_dialed c else dialledAs n j) = Some a"
    then show "a |\<in>| as_knownOutbound (nd_addr n)" "a \<notin> set (as_dials (nd_addr n))"
      using assms(1,4) by (auto simp: slots_def split: if_splits)
    fix k
    assume "(if k = i then cn_dialed c else dialledAs n k) = Some a"
    with \<open>(if j = i then cn_dialed c else dialledAs n j) = Some a\<close> show "j = k"
      using assms(1,4) by (auto simp: slots_def split: if_splits)
  qed (use assms(1) in \<open>auto simp: slots_def\<close>)
qed

lemma slots_bans: "m = n\<lparr>nd_bans := b\<rparr> \<Longrightarrow> slots D m = slots D n"
  by (simp only: slots_fields)

text \<open>A goroutine of \<open>AddNode\<close> ends or goes on as a connection: its address leaves the dials.\<close>

lemma slots_dialDone:
  assumes "slots D n" "\<And>a. dialed = Some a \<Longrightarrow> a \<in> set (as_dials (nd_addr n)) \<and> a \<notin> C" "C \<subseteq> D"
  shows "slots C (dialDone dialed n)" "dialed = Some a \<Longrightarrow> a |\<in>| as_knownOutbound (nd_addr (dialDone dialed n)) \<and>
    a \<notin> set (as_dials (nd_addr (dialDone dialed n))) \<and> (\<forall>j. dialledAs (dialDone dialed n) j \<noteq> Some a)"
proof -
  have d: "dialledAs (dialDone dialed n) j = dialledAs n j" for j by (simp add: dialledAs_def)
  have dist: "distinct (as_dials (nd_addr n))" using assms(1) by (simp add: slots_def)
  show "slots C (dialDone dialed n)"
    using assms dist unfolding slots_def d
    by (cases dialed) (auto simp: dialDone_def updAddr_def set_remove1_eq)
  show "dialed = Some a \<Longrightarrow> a |\<in>| as_knownOutbound (nd_addr (dialDone dialed n)) \<and>
    a \<notin> set (as_dials (nd_addr (dialDone dialed n))) \<and> (\<forall>j. dialledAs (dialDone dialed n) j \<noteq> Some a)"
    using assms(1,2) dist unfolding slots_def d by (auto simp: dialDone_def updAddr_def set_remove1_eq)
qed

lemma slots_refuseConn:
  assumes "slots D n" "\<And>a. dialed = Some a \<Longrightarrow> a \<in> set (as_dials (nd_addr n)) \<and> a \<notin> C" "C \<subseteq> D"
  shows "slots C (refuseConn dialed n)"
proof (cases dialed)
  case None
  have "slots C (dialDone dialed n)" by (rule slots_dialDone(1) [OF assms])
  with None show ?thesis by (simp add: refuseConn_def)
next
  case (Some addr)
  have e: "refuseConn dialed n = updAddr (\<lambda>a. a\<lparr>as_knownOutbound := as_knownOutbound a |-| {|addr|}\<rparr>) (dialDone dialed n)"
    using Some by (simp add: refuseConn_def)
  show ?thesis
    unfolding e
    by (rule slots_freed [OF slots_dialDone(1) [OF assms], where a = addr])
      (use slots_dialDone(2) [OF assms Some] in \<open>auto simp: updAddr_def dialledAs_def\<close>)
qed

lemma slots_registerConn:
  assumes "slots D n" "\<And>a. dialed = Some a \<Longrightarrow> a \<in> set (as_dials (nd_addr n)) \<and> a \<notin> C" "C \<subseteq> D"
  shows "slots C (registerConn E now since remote ip port dialed n)"
proof -
  let ?m = "registered remote dialed since n"
  have m: "slots C ?m"
    by (rule slots_added [OF slots_dialDone(1) [OF assms], where i = "nd_nextPeer n" and c = "newConn remote dialed since"])
      (use slots_dialDone(2) [OF assms] in \<open>auto simp: registered_def newConn_def\<close>)
  let ?w = "writePeerMessage E (nd_nextPeer n) ''version'' (versionPayload E now ip port (ne_nonce E (nd_writes ?m)) ?m) ?m"
  have w: "slots C (snd ?w)" using dialing.written m by (simp add: dialing_def)
  show ?thesis unfolding registerConn_eq Let_def using w slots_unregister [OF w] by simp
qed

text \<open>Outgoing connections are as many as the slots they hold.\<close>

definition outboundPeers :: "Node \<Rightarrow> nat set" where
  "outboundPeers n = {i. \<exists>c. fmlookup (nd_peers n) i = Some c \<and> pr_outbound (cn_peer c)}"

lemma outbound_slots:
  assumes "slots D n" "conns_ok pol n"
  shows "card (outboundPeers n) \<le> outboundDialSlots"
proof -
  have d: "\<exists>a. dialledAs n i = Some a" if "i \<in> outboundPeers n" for i
    using that assms(2) by (auto simp: outboundPeers_def conns_but_def conn_ok_def dialledAs_def)
  have "inj_on (dialledAs n) (outboundPeers n)"
    using assms(1) d unfolding inj_on_def slots_def by metis
  moreover have "dialledAs n ` outboundPeers n \<subseteq> Some ` fset (as_knownOutbound (nd_addr n))"
    using d assms(1) by (force simp: slots_def)
  ultimately have "card (outboundPeers n) \<le> card (Some ` fset (as_knownOutbound (nd_addr n)))"
    by (rule card_inj_on_le) simp
  also have "\<dots> = fcard (as_knownOutbound (nd_addr n))" by (simp add: card_image fcard.rep_eq)
  finally show ?thesis using assms(1) by (simp add: slots_def)
qed

section \<open>Runs\<close>

text \<open>
  A run starts with the chain and the pool the node finds; then connections arrive and dials
  end, messages with blocks from \<open>S\<close> and transactions from \<open>T\<close> arrive on connections, timers
  fire, tasks run, the operator acts, and the rest of the program changes chain and pool.
  Beside the node a run has the goroutines of \<open>handleConn\<close> that have not registered their
  connection yet: any of them may take its next step at any time, with whatever else between two
  steps. At most \<open>k\<close> of them at a time are of incoming connections; every run has such a \<open>k\<close>.
\<close>

definition states_in :: "nodeEnv \<Rightarrow> MsgBlock set \<Rightarrow> MsgTx set \<Rightarrow> Chain \<Rightarrow> Pool option \<Rightarrow> bool" where
  "states_in E S T ch p \<longleftrightarrow> reachable (ne_chain E) S ch \<and> (\<forall>q. p = Some q \<longrightarrow> pool_reachable T q)"

definition dialledBy :: "joining list \<Rightarrow> string list" where
  "dialledBy js = List.map_filter jn_dialed js"

inductive net_run :: "nodeEnv \<Rightarrow> MsgBlock set \<Rightarrow> MsgTx set \<Rightarrow> nat \<Rightarrow> joining list \<Rightarrow> Node \<Rightarrow> bool" for E S T k where
  start: "states_in E S T ch p \<Longrightarrow> net_run E S T k [] (newNode ch p)"
| message: "net_run E S T k js n \<Longrightarrow> frame_in E S T bs \<Longrightarrow> net_run E S T k js (receive E now i bs n)"
| accepted: "net_run E S T k js n \<Longrightarrow> incoming js < k \<Longrightarrow> net_run E S T k (acceptConn now remote ip port n @ js) n"
| dialled: "net_run E S T k js n \<Longrightarrow> addr \<in> set (as_dials (nd_addr n)) \<Longrightarrow> addr \<notin> set (dialledBy js) \<Longrightarrow>
    dialConnected E now addr remote ip port n = (j, m) \<Longrightarrow> net_run E S T k (j # js) m"
| unreachable: "net_run E S T k js n \<Longrightarrow> addr \<in> set (as_dials (nd_addr n)) \<Longrightarrow> addr \<notin> set (dialledBy js) \<Longrightarrow>
    net_run E S T k js (dialFailed E now addr n)"
| moved: "net_run E S T k (xs @ j # ys) n \<Longrightarrow> joinStep E now j n = (Some j', m) \<Longrightarrow> net_run E S T k (xs @ j' # ys) m"
| joined: "net_run E S T k (xs @ j # ys) n \<Longrightarrow> joinStep E now j n = (None, m) \<Longrightarrow> net_run E S T k (xs @ ys) m"
| pinged: "net_run E S T k js n \<Longrightarrow> net_run E S T k js (pingTick E now i n)"
| synced: "net_run E S T k js n \<Longrightarrow> net_run E S T k js (requestSyncFromAheadPeers E now force n)"
| watched: "net_run E S T k js n \<Longrightarrow> net_run E S T k js (watchdogStep E now fixedSeeds dns n)"
| seeded: "net_run E S T k js n \<Longrightarrow> net_run E S T k js (connectSeeds E now fixedSeeds dns n)"
| asked: "net_run E S T k js n \<Longrightarrow> net_run E S T k js (runTask E now n)"
| added: "net_run E S T k js n \<Longrightarrow> net_run E S T k js (snd (AddNode E now addr n))"
| bootstrap: "net_run E S T k js n \<Longrightarrow> net_run E S T k js (SetBootstrapPeers E now peers n)"
| disconnected: "net_run E S T k js n \<Longrightarrow> net_run E S T k js (snd (DisconnectNode E addr n))"
| announced: "net_run E S T k js n \<Longrightarrow> net_run E S T k js (announceBlockToPeersExcept E h None n)"
| announcedTx: "net_run E S T k js n \<Longrightarrow> net_run E S T k js (announceTxToPeersExcept E h None n)"
| elsewhere: "net_run E S T k js n \<Longrightarrow> states_in E S T ch p \<Longrightarrow> net_run E S T k js (n\<lparr>nd_chain := ch, nd_pool := p\<rparr>)"

definition node_run :: "nodeEnv \<Rightarrow> MsgBlock set \<Rightarrow> MsgTx set \<Rightarrow> Node \<Rightarrow> bool" where
  "node_run E S T n \<longleftrightarrow> (\<exists>k js. net_run E S T k js n)"

lemma net_run_more: "net_run E S T k js n \<Longrightarrow> k \<le> l \<Longrightarrow> net_run E S T l js n"
proof (induction rule: net_run.induct)
  case (accepted js n now remote ip port)
  then show ?case using net_run.accepted [of E S T l js n] by simp
qed (blast intro: net_run.intros)+

text \<open>\<open>openConn\<close> is the run of \<open>handleConn\<close> with nothing else between its steps.\<close>

fun gatesFrom :: "gate \<Rightarrow> gate list \<Rightarrow> bool" where
  "gatesFrom g [] \<longleftrightarrow> g = AtRegister"
| "gatesFrom g (h # hs) \<longleftrightarrow> h = g \<and> g \<noteq> AtRegister \<and> gatesFrom (nextGate g) hs"

lemma net_run_gates:
  assumes "net_run E S T k (xs @ j # ys) n" "gatesFrom (jn_gate j) gs"
    "checkGates gs E now (jn_remote j) (jn_dialed j \<noteq> None) n = (b, m)"
  shows "if b then net_run E S T k (xs @ j\<lparr>jn_gate := AtRegister\<rparr> # ys) m
    else net_run E S T k (xs @ ys) (refuseConn (jn_dialed j) m)"
  using assms
proof (induction gs arbitrary: j n)
  case Nil
  then have "j\<lparr>jn_gate := AtRegister\<rparr> = j" by simp
  with Nil show ?case by (metis checkGates.simps(1) prod.inject)
next
  case (Cons g gs)
  let ?j = "j\<lparr>jn_gate := nextGate (jn_gate j)\<rparr>"
  obtain c n' where c: "checkGate g E now (jn_remote j) (jn_dialed j \<noteq> None) n = (c, n')" by (metis prod.exhaust)
  have g: "g = jn_gate j" "jn_gate j \<noteq> AtRegister" "gatesFrom (jn_gate ?j) gs" using Cons.prems(2) by auto
  show ?case
  proof (cases c)
    case True
    have "joinStep E now j n = (Some ?j, n')" using c g True by (simp add: joinStep_def)
    from net_run.moved [OF Cons.prems(1) this] have r: "net_run E S T k (xs @ ?j # ys) n'" .
    have "checkGates gs E now (jn_remote ?j) (jn_dialed ?j \<noteq> None) n' = (b, m)"
      using Cons.prems(3) c True by simp
    from Cons.IH [OF r g(3) this] show ?thesis by (simp split: if_splits)
  next
    case False
    have "joinStep E now j n = (None, refuseConn (jn_dialed j) n')" using c g False by (simp add: joinStep_def)
    from net_run.joined [OF Cons.prems(1) this] Cons.prems(3) c False show ?thesis by simp
  qed
qed

lemma net_run_accept:
  assumes "net_run E S T k js n" "incoming js < k"
  shows "net_run E S T k js (accept E now remote ip port n)"
proof (cases "peerCount n \<ge> maxPeers")
  case True
  then show ?thesis using assms(1) by (simp add: accept_def acceptConn_def)
next
  case False
  let ?j = "newJoining now remote ip port None"
  obtain b m where a: "admitConn E now remote False n = (b, m)" by (metis prod.exhaust)
  have "net_run E S T k ([] @ ?j # js) n"
    using net_run.accepted [OF assms, of now remote ip port] False by (simp add: acceptConn_def)
  from net_run_gates [OF this, of "[AtBan, AtInbound, AtHost, AtSubnet, AtOnly]" now b m]
  have g: "if b then net_run E S T k ([] @ ?j\<lparr>jn_gate := AtRegister\<rparr> # js) m else net_run E S T k js (refuseConn None m)"
    using a by (simp add: newJoining_def admitConn_def del: checkGates.simps split: if_splits)
  show ?thesis
  proof (cases b)
    case True
    with g have "net_run E S T k ([] @ ?j\<lparr>jn_gate := AtRegister\<rparr> # js) m" by simp
    from net_run.joined [OF this] True a \<open>\<not> maxPeers \<le> peerCount n\<close> show ?thesis
      by (simp add: accept_def acceptConn_def openConn_def joinStep_def newJoining_def)
  next
    case False
    with g a \<open>\<not> maxPeers \<le> peerCount n\<close> show ?thesis by (simp add: accept_def acceptConn_def openConn_def)
  qed
qed

lemma node_run_start: "states_in E S T ch p \<Longrightarrow> node_run E S T (newNode ch p)"
  unfolding node_run_def using net_run.start by blast

lemma node_run_message: "node_run E S T n \<Longrightarrow> frame_in E S T bs \<Longrightarrow> node_run E S T (receive E now i bs n)"
  unfolding node_run_def using net_run.message by blast

lemma node_run_accept: "node_run E S T n \<Longrightarrow> node_run E S T (accept E now remote ip port n)"
  unfolding node_run_def using net_run_accept [OF net_run_more [of E S T _ _ n "Suc _"]]
  by (metis le_add2 lessI net_run_accept net_run_more less_Suc_eq_le nat_le_linear le_SucI)

lemma closed_one: "traffic n (snd (DisconnectNode E addr n))" "dialing n (snd (DisconnectNode E addr n))"
  by (auto simp: DisconnectNode_def traffic.closed dialing.closed dialing.refl split: option.splits)

lemma bootstrap_steps: "traffic n (SetBootstrapPeers E now peers n)" "dialing n (SetBootstrapPeers E now peers n)"
proof -
  show "traffic n (SetBootstrapPeers E now peers n)" by (simp add: SetBootstrapPeers_def traffic_addr)
  show "dialing n (SetBootstrapPeers E now peers n)"
    unfolding dialing_def SetBootstrapPeers_def
    by (subst slots_cong [of _ n]) (simp_all add: updAddr_def Let_def dialledAs_def)
qed

lemma registerConn_data:
  "nd_chain (registerConn E now since remote ip port dialed n) = nd_chain n \<and>
   nd_pool (registerConn E now since remote ip port dialed n) = nd_pool n"
proof -
  have u: "nd_chain (unregisterPeer i x) = nd_chain x \<and> nd_pool (unregisterPeer i x) = nd_pool x" for i x
    by (auto simp: unregisterPeer_def updAddr_def Let_def split: option.splits)
  have w: "nd_chain (snd (writePeerMessage E i c p x)) = nd_chain x \<and> nd_pool (snd (writePeerMessage E i c p x)) = nd_pool x" for i c p x
    using traffic_written [of x E i c p] by (simp add: traffic_def)
  show ?thesis unfolding registerConn_eq Let_def using u w by (simp add: registered_def)
qed

definition run_ok :: "nodeEnv \<Rightarrow> MsgBlock set \<Rightarrow> MsgTx set \<Rightarrow> nat \<Rightarrow> joining list \<Rightarrow> Node \<Rightarrow> bool" where
  "run_ok E S T k js n \<longleftrightarrow> node_ok E S T n \<and> conns_ok (ne_policy E) n \<and> limits (ne_policy E) k js n \<and>
     slots (set (dialledBy js)) n \<and> distinct (dialledBy js)"

lemma run_ok_steps: "traffic n m \<Longrightarrow> dialing n m \<Longrightarrow> run_ok E S T k js n \<Longrightarrow> run_ok E S T k js m"
  using node_ok_traffic registry_conns [OF registry_traffic] limits_shrinks [OF registry_shrinks [OF registry_traffic]]
  by (auto simp: run_ok_def dialing_def)

definition orders_ok :: "nodeEnv \<Rightarrow> bool" where
  "orders_ok E \<longleftrightarrow> order_ok (ne_ord E) \<and> peer_order_ok (ne_peerOrd E)"

lemma dialledBy_parts [simp]:
  "dialledBy [] = []" "dialledBy (xs @ ys) = dialledBy xs @ dialledBy ys"
  "dialledBy (j # js) = (case jn_dialed j of None \<Rightarrow> dialledBy js | Some a \<Rightarrow> a # dialledBy js)"
  by (auto simp: dialledBy_def List.map_filter_def split: option.splits)

lemma run_ok_accepted:
  assumes "run_ok E S T k js n" "incoming js < k"
  shows "run_ok E S T k (acceptConn now remote ip port n @ js) n"
proof (cases "acceptConn now remote ip port n = []")
  case False
  then have j: "acceptConn now remote ip port n = [newJoining now remote ip port None]" by (simp add: acceptConn_def split: if_splits)
  let ?j = "newJoining now remote ip port None"
  have "AtBan \<notin> set gs \<Longrightarrow> passed P gs (?j # js) = passed P gs js" for P gs
    by (simp add: passed_Cons newJoining_def)
  then have "AtBan \<notin> set gs \<Longrightarrow> below limit k P gs (?j # js) n = below limit k P gs js n" for limit P gs
    by (simp add: below_def)
  then show ?thesis
    using assms unfolding j run_ok_def limits_def by (simp add: newJoining_def)
qed (use assms in simp)

lemma run_ok_joining:
  assumes "run_ok E S T k js n" "addr \<in> set (as_dials (nd_addr n))" "addr \<notin> set (dialledBy js)"
  shows "dialConnected E now addr remote ip port n = (j, m) \<Longrightarrow> run_ok E S T k (j # js) m"
    and "run_ok E S T k js (dialFailed E now addr n)"
proof -
  let ?f = "\<lambda>g. updAddr (\<lambda>a. a\<lparr>as_known := g a\<rparr>) n"
  have up: "node_ok E S T (?f g)" "conns_ok (ne_policy E) (?f g)" "limits (ne_policy E) k js (?f g)"
      "slots D (?f g) = slots D n" for g D
    using assms(1) node_ok_traffic [OF traffic_addr] registry_conns [OF registry_traffic [OF traffic_addr]]
      limits_shrinks [OF registry_shrinks [OF registry_traffic [OF traffic_addr]]]
    by (simp_all add: run_ok_def)
  have s: "slots (set (dialledBy js)) n" "distinct (dialledBy js)" using assms(1) by (simp_all add: run_ok_def)
  have "incoming (newJoining now remote ip port (Some addr) # js) \<le> incoming js"
    "passed P gs (newJoining now remote ip port (Some addr) # js) \<le> passed P gs js" for P gs
    by (simp_all add: newJoining_def passed_Cons)
  then have l: "limits (ne_policy E) k (newJoining now remote ip port (Some addr) # js) (?f g)" for g
    using limits_fewer [OF up(3) order_refl] by blast
  have "slots (insert addr (set (dialledBy js))) n" using s(1) assms(2) by (simp add: slots_def)
  then show "dialConnected E now addr remote ip port n = (j, m) \<Longrightarrow> run_ok E S T k (j # js) m"
    using up l s(2) assms(3) by (auto simp: run_ok_def dialConnected_def newJoining_def)
  have "slots (set (dialledBy js)) (?f (\<lambda>a. markKnownPeerFailure (ne_policy E) addr now (as_known a)))"
    using s(1) by (simp only: slots_addr_fields)
  then have "slots (set (dialledBy js)) (dialFailed E now addr n)"
    unfolding dialFailed_def
    by (rule slots_refuseConn) (use assms(2,3) in \<open>auto simp: updAddr_def\<close>)
  then show "run_ok E S T k js (dialFailed E now addr n)"
    using assms(1) limits_fewer [of "ne_policy E" k js n "dialFailed E now addr n" js]
    by (simp add: run_ok_def dialFailed_def node_ok_def conns_but_def inbound_def updAddr_def)
qed

lemma run_ok_moved:
  assumes "run_ok E S T k (xs @ j # ys) n" "orders_ok E" "joinStep E now j n = (Some j', m)"
  shows "run_ok E S T k (xs @ j' # ys) m"
proof -
  have c: "checkGate (jn_gate j) E now (jn_remote j) (jn_dialed j \<noteq> None) n = (True, m)"
    and g: "jn_gate j \<noteq> AtRegister" "j' = j\<lparr>jn_gate := nextGate (jn_gate j)\<rparr>"
    using assms(3) by (auto simp: joinStep_def split: if_splits prod.splits bool.splits)
  have m: "m = n\<lparr>nd_bans := nd_bans m\<rparr>" by (rule checkGate_node [OF c])
  have "node_ok E S T m \<and> conns_ok (ne_policy E) m \<and> slots D m = slots D n" for D
    using assms(1) by (subst (1 2 3) m) (simp add: run_ok_def node_ok_def conns_but_def)
  moreover have "limits (ne_policy E) k (xs @ j' # ys) m"
    unfolding g(2) by (rule limits_moved [OF _ _ g(1) c]) (use assms(1,2) in \<open>simp_all add: run_ok_def orders_ok_def\<close>)
  ultimately show ?thesis using assms(1) by (simp add: run_ok_def g(2))
qed

lemma run_ok_joined:
  assumes "run_ok E S T k (xs @ j # ys) n" "joinStep E now j n = (None, m)"
  shows "run_ok E S T k (xs @ ys) m"
proof -
  let ?C = "set (dialledBy (xs @ ys))" and ?D = "set (dialledBy (xs @ j # ys))"
  have s: "slots ?D n" "node_ok E S T n" "conns_ok (ne_policy E) n" "limits (ne_policy E) k (xs @ j # ys) n"
    "distinct (dialledBy (xs @ j # ys))" using assms(1) unfolding run_ok_def by blast+
  have sub: "?C \<subseteq> ?D" by (auto split: option.splits)
  have dial: "jn_dialed j = Some a \<Longrightarrow> a \<in> set (as_dials (nd_addr n)) \<and> a \<notin> ?C" for a
    using s(1,5) by (auto simp: slots_def)
  have dist: "distinct (dialledBy (xs @ ys))" using s(5) by (auto split: option.splits)
  show ?thesis
  proof (cases "jn_gate j = AtRegister")
    case True
    let ?r = "registered (jn_remote j) (jn_dialed j) (jn_since j) n"
    have m: "m = registerConn E now (jn_since j) (jn_remote j) (jn_ip j) (jn_port j) (jn_dialed j) n"
      using assms(2) True by (simp add: joinStep_def)
    have b: "below limit k P gs (xs @ j # ys) n \<Longrightarrow> AtRegister \<in> set gs \<Longrightarrow> below limit k P gs (xs @ ys) ?r" for limit P gs
      using below_joined [of limit k P gs xs j ys n ?r] inbound_registered True by simp
    have "limits (ne_policy E) k (xs @ ys) ?r"
      using s(4) unfolding limits_def by (auto intro: b)
    then have "limits (ne_policy E) k (xs @ ys) m"
      using limits_shrinks registerConn_net [OF s(3)] unfolding m by blast
    moreover have "nd_chain m = nd_chain n \<and> nd_pool m = nd_pool n" unfolding m by (rule registerConn_data)
    ultimately show ?thesis
      using slots_registerConn [OF s(1) dial sub] registerConn_net [OF s(3)] s(2) dist
      unfolding run_ok_def m by (simp add: node_ok_def)
  next
    case False
    obtain n' where c: "checkGate (jn_gate j) E now (jn_remote j) (jn_dialed j \<noteq> None) n = (False, n')"
      and m: "m = refuseConn (jn_dialed j) n'"
      using assms(2) False by (auto simp: joinStep_def split: prod.splits bool.splits)
    have n': "n' = n\<lparr>nd_bans := nd_bans n'\<rparr>" by (rule checkGate_node [OF c])
    have same: "nd_addr n' = nd_addr n" "nd_peers n' = nd_peers n" "nd_chain n' = nd_chain n" "nd_pool n' = nd_pool n"
      by (subst n', simp)+
    have "slots ?D n'" using s(1) by (subst n') simp
    from slots_refuseConn [OF this, of "jn_dialed j" ?C] have "slots ?C m" unfolding m using dial sub by (simp add: same)
    moreover have "limits (ne_policy E) k (xs @ ys) m"
      by (rule limits_fewer [OF s(4)]) (simp_all add: m same inbound_def passed_append passed_Cons)
    ultimately show ?thesis using s(2,3) dist by (simp add: run_ok_def m same node_ok_def conns_but_def)
  qed
qed

lemma net_run_ok: "net_run E S T k js n \<Longrightarrow> orders_ok E \<Longrightarrow> txs_ok T \<Longrightarrow> run_ok E S T k js n"
proof (induction rule: net_run.induct)
  case (start ch p)
  have "inbound P (newNode ch p) = {}" for P by (simp add: inbound_def newNode_def)
  with start show ?case
    by (auto simp: run_ok_def node_ok_def states_in_def newNode_def conns_but_def limits_def below_def passed_def
        slots_def dialledAs_def fcard_fempty)
next
  case (message js n bs now i)
  then show ?case
    using receive_net [of E n now i bs] limits_shrinks slots_receive ok_receive
    by (simp add: run_ok_def orders_ok_def) blast
next
  case (accepted js n now remote ip port)
  then show ?case by (simp add: run_ok_accepted)
next
  case (dialled js n addr now remote ip port j m)
  then show ?case by (simp add: run_ok_joining(1))
next
  case (unreachable js n addr now)
  then show ?case by (simp add: run_ok_joining(2))
next
  case (moved xs j ys n now j' m)
  then show ?case using run_ok_moved by blast
next
  case (joined xs j ys n now m)
  then show ?case using run_ok_joined by blast
next
  case (pinged js n now i)
  then show ?case using run_ok_steps [OF traffic.ping dialing.ping] by simp
next
  case (synced js n now force)
  then show ?case using run_ok_steps [OF traffic.sync_all dialing.sync_all] by simp
next
  case (watched js n now fixedSeeds dns)
  then show ?case using run_ok_steps [OF traffic.watchdog dialing.watchdog] by simp
next
  case (seeded js n now fixedSeeds dns)
  then show ?case using run_ok_steps [OF traffic.seeds dialing.seeds] by simp
next
  case (asked js n now)
  then show ?case using run_ok_steps [OF traffic.task dialing.task] by simp
next
  case (added js n now addr)
  then show ?case using run_ok_steps [OF traffic.dialled dialing.dialled] by simp
next
  case (bootstrap js n now peers)
  then show ?case using run_ok_steps [OF bootstrap_steps] by simp
next
  case (disconnected js n addr)
  then show ?case using run_ok_steps [OF closed_one] by simp
next
  case (announced js n h)
  then show ?case using run_ok_steps [OF traffic.announce_block dialing.announce_block] by simp
next
  case (announcedTx js n h)
  then show ?case using run_ok_steps [OF traffic.announce_tx dialing.announce_tx] by simp
next
  case (elsewhere js n ch p)
  moreover have "inbound P (n\<lparr>nd_chain := ch, nd_pool := p\<rparr>) = inbound P n" for P by (simp add: inbound_def)
  ultimately show ?case by (simp add: run_ok_def node_ok_def states_in_def conns_but_def limits_def below_def)
qed

text \<open>What a run says of the node alone.\<close>

lemma node_run_ok:
  assumes "node_run E S T n" "orders_ok E" "txs_ok T"
  shows "node_ok E S T n" "conns_ok (ne_policy E) n" "slots {} n"
proof -
  obtain k js where "net_run E S T k js n" using assms(1) by (auto simp: node_run_def)
  from net_run_ok [OF this assms(2,3)] have "run_ok E S T k js n" .
  then show "node_ok E S T n" "conns_ok (ne_policy E) n" "slots {} n" by (simp_all add: run_ok_def slots_def)
qed

end
