(* ===== verification/P2PTalk.thy ===== *)
theory P2PTalk
  imports P2PDial
begin

text \<open>
  What a peer reads in the messages of a node: the version message, the inventory it is served
  and asked for, and the announcements.
\<close>

section \<open>The version message\<close>

lemma varbytes256: "length b \<le> 256 \<Longrightarrow> ReadVarBytes 256 f (WriteVarBytes b @ r) = Inr (b, r)"
  using codec.dec_enc [OF codec_varbytes, of b 256 f r] by simp

lemma net_address_length [simp]: "length (net_address_bytes ip port def) = 26"
  by (cases "Option.bind ip To16") (auto simp: net_address_bytes_def bind_eq_Some_conv dest: To16_length)

lemma length_userAgent [simp]: "length userAgent = 18"
  by (simp add: userAgent_def)

lemma parse_layout:
  assumes "length mid = 76" "length agent \<le> 256"
  shows "parseVersionPayload (le_bytes 4 v @ mid @ WriteVarBytes agent @ le_bytes 4 h @ r) =
    Some \<lparr>vm_Version = v, vm_SubVer = string_of_bytes agent, vm_Height = h,
      vm_ChainID = (if drop 1 r = [] then [] else case ReadVarBytes 256 ''chain id'' (drop 1 r) of
        Inl _ \<Rightarrow> [] | Inr (c, _) \<Rightarrow> string_of_bytes c)\<rparr>"
proof -
  have "drop 76 (mid @ xs) = xs" for xs :: bytes using assms(1) by simp
  then show ?thesis
    using assms by (simp add: parseVersionPayload_def le32.dec_enc varbytes256 Let_def)
qed

lemma parse_version:
  assumes "length (pp_chainID (ne_policy E)) \<le> 256"
  shows "parseVersionPayload (versionPayload E now ip port nonce n) =
    Some \<lparr>vm_Version = protocolVersion, vm_SubVer = ''/Legacy-GO:1.0.20/'', vm_Height = localHeight n,
      vm_ChainID = (if pp_enforceChainID (ne_policy E) then pp_chainID (ne_policy E) else [])\<rparr>"
proof -
  let ?pol = "ne_policy E"
  define mid where "mid = le_bytes 8 nodeNetwork @ le_bytes 8 (word_of_int (unixSeconds now) :: u64) @
      net_address_bytes (Some ip) port (pp_DefaultPort ?pol) @ net_address_bytes None 0 (pp_DefaultPort ?pol) @ le_bytes 8 nonce"
  define tail where "tail = (if pp_enforceChainID ?pol then WriteVarBytes (bytes_of_string (pp_chainID ?pol)) @ pp_MessageStart ?pol else [])"
  have eq: "versionPayload E now ip port nonce n = le_bytes 4 protocolVersion @ mid @
     WriteVarBytes userAgent @ le_bytes 4 (localHeight n) @ [0] @ tail"
    by (simp add: versionPayload_def mid_def tail_def Let_def)
  have "length mid = 76" by (simp add: mid_def)
  moreover have "ReadVarBytes 256 w tail = Inr (bytes_of_string (pp_chainID ?pol), pp_MessageStart ?pol)"
    if "pp_enforceChainID ?pol" for w
    using that assms by (simp add: tail_def varbytes256)
  moreover have "tail \<noteq> []" if "pp_enforceChainID ?pol"
    using that by (auto simp: tail_def WriteVarBytes_def WriteVarInt_def Let_def)
  moreover have "tail = []" if "\<not> pp_enforceChainID ?pol" using that by (simp add: tail_def)
  ultimately show ?thesis unfolding eq by (simp add: parse_layout) (simp add: userAgent_def)
qed

section \<open>Inventory that is served\<close>

lemma write_sent:
  assumes "writePeerMessage E i command payload n = (ok, m)"
  shows "nd_sent m = nd_sent n @ (if ok then [(i, command, payload)] else []) \<and> nd_chain m = nd_chain n \<and> nd_pool m = nd_pool n"
  using assms by (auto simp: writePeerMessage_def Let_def split: option.splits sum.splits if_splits)

text \<open>What an inventory entry is answered with, and what a node answers to a list.\<close>

definition answer :: "Node \<Rightarrow> InvVect \<Rightarrow> (string \<times> bytes) option" where
  "answer n v =
     (if inv_Type v = 2 then
        (case LoadBlock (hash_String (inv_Hash v)) (ch_store (nd_chain n)) of Inl _ \<Rightarrow> None
         | Inr (block, _) \<Rightarrow> Some (''block'', block_Serialize block))
      else if inv_Type v = 1 then
        map_option (\<lambda>tx. (''tx'', tx_Serialize tx)) (Option.bind (nd_pool n) (LookupTx (hash_String (inv_Hash v))))
      else None)"

definition answers :: "nat \<Rightarrow> Node \<Rightarrow> InvVect list \<Rightarrow> (nat \<times> string \<times> bytes) list" where
  "answers i n vs = map (Pair i) (List.map_filter (answer n) vs)"

lemma answers_simps [simp]:
  "answers i n [] = []"
  "answers i n (v # vs) = (case answer n v of None \<Rightarrow> [] | Some a \<Rightarrow> [(i, a)]) @ answers i n vs"
  by (simp_all add: answers_def List.map_filter_simps split: option.splits)

lemma answers_cong: "nd_chain m = nd_chain n \<Longrightarrow> nd_pool m = nd_pool n \<Longrightarrow> answers i m vs = answers i n vs"
  by (induction vs) (simp_all add: answer_def)

lemma serve_sent:
  "serveItems E i vs served n = ((ok, k), m) \<Longrightarrow>
    \<exists>rest. nd_sent n @ answers i n vs = nd_sent m @ rest \<and> (ok \<longrightarrow> rest = []) \<and>
      nd_chain m = nd_chain n \<and> nd_pool m = nd_pool n"
proof (induction vs arbitrary: served n)
  case Nil
  then show ?case by simp
next
  case (Cons v vs)
  show ?case
  proof (cases "answer n v")
    case None
    then have "\<exists>s. serveItems E i vs s n = ((ok, k), m)"
      using Cons.prems by (auto simp: answer_def Let_def split: if_splits sum.splits option.splits)
    with Cons.IH None show ?thesis by fastforce
  next
    case (Some a)
    obtain command payload where a: "a = (command, payload)" by (metis prod.exhaust)
    obtain w n1 where w: "writePeerMessage E i command payload n = (w, n1)" by (metis prod.exhaust)
    note sent = write_sent [OF w]
    have "(\<not> w \<and> \<not> ok \<and> m = n1) \<or> (w \<and> (\<exists>s. serveItems E i vs s n1 = ((ok, k), m)))"
      using Cons.prems Some a w
      by (cases w) (auto simp: answer_def Let_def split: if_splits sum.splits option.splits)
    then show ?thesis
      using Cons.IH [of _ n1] sent Some a answers_cong [of n1 n i vs] by fastforce
  qed
qed

lemma serveInventory_sent:
  assumes "serveInventory E i invs n = (ok, m)"
  shows "\<exists>rest. nd_sent n @ answers i n (take 256 invs) = nd_sent m @ rest \<and> (ok \<longrightarrow> rest = [])"
proof -
  have l: "limitInv invs (int maxServeInvItems) = take 256 invs"
    by (simp add: limitInv_def maxServeInvItems_def)
  obtain o1 k n1 where s: "serveItems E i (take 256 invs) 0 n = ((o1, k), n1)" by (metis prod.exhaust)
  have "o1 = ok" "nd_sent m = nd_sent n1"
    using assms s by (auto simp: serveInventory_def l split: bool.splits)
  then show ?thesis using serve_sent [OF s] by auto
qed

section \<open>Inventory that is asked for\<close>

definition unknown :: "Node \<Rightarrow> InvVect \<Rightarrow> bool" where
  "unknown n v \<longleftrightarrow> (inv_Type v = 2 \<and> \<not> HasBlock (hash_String (inv_Hash v)) (nd_chain n)) \<or>
     (inv_Type v = 1 \<and> \<not> knownTx (hash_String (inv_Hash v)) n)"

lemma unknown_cong: "nd_chain m = nd_chain n \<Longrightarrow> nd_pool m = nd_pool n \<Longrightarrow> unknown m = unknown n"
  by (auto simp: fun_eq_iff unknown_def knownTx_def)

lemma requestLocator_sent:
  assumes "requestLocator E now command note i n = (ok, m)"
  shows "(\<exists>req. nd_sent m = nd_sent n @ req \<and> length req \<le> 1 \<and> (\<forall>r\<in>set req. fst r = i \<and> fst (snd r) = command)) \<and>
    nd_chain m = nd_chain n \<and> nd_pool m = nd_pool n"
proof -
  consider "m = n" | p where "writePeerMessage E i command p (updPeer i (setLastLocatorTip now (hash_String (hd (Locator (nd_chain n)))))
      (updHealth (\<lambda>s. note (s\<lparr>hl_lastSyncReq := now\<rparr>)) n)) = (ok, m)"
    using assms by (auto simp: requestLocator_def split: list.splits sum.splits)
  then show ?thesis
  proof cases
    case 2
    from write_sent [OF this] show ?thesis by auto
  qed simp
qed

lemma requestHeaders_sent:
  "(\<exists>req. nd_sent (snd (requestHeaders E now i n)) = nd_sent n @ req \<and> length req \<le> 1 \<and>
      (\<forall>r\<in>set req. fst r = i \<and> fst (snd r) = ''getheaders'')) \<and>
    nd_chain (snd (requestHeaders E now i n)) = nd_chain n \<and> nd_pool (snd (requestHeaders E now i n)) = nd_pool n"
  using requestLocator_sent [of E now "''getheaders''" _ i n] by (metis prod.collapse requestHeaders_def)

lemma take_exact: "length xs = k \<Longrightarrow> take k (xs @ ys) = xs"
  by simp

lemma collect_wanted:
  assumes "collectUnknown E now i vs asked want n = (ws, m)" "length want < maxGetDataItems"
  shows "ws = take maxGetDataItems (want @ List.filter (unknown n) vs) \<and> nd_chain m = nd_chain n \<and> nd_pool m = nd_pool n \<and>
    (\<exists>req. nd_sent m = nd_sent n @ req \<and> length req \<le> (if asked then 0 else 1) \<and>
      (\<forall>r\<in>set req. fst r = i \<and> fst (snd r) = ''getheaders''))"
  using assms
proof (induction vs arbitrary: asked want n)
  case Nil
  then show ?case by simp
next
  case (Cons v vs)
  let ?h = "hash_String (inv_Hash v)"
  let ?n = "if inv_Type v = 2 \<and> \<not> asked then snd (requestHeaders E now i n) else n"
  let ?want = "if inv_Type v = 2 \<or> inv_Type v = 1 then want @ [v] else want"
  have n: "nd_chain ?n = nd_chain n" "nd_pool ?n = nd_pool n" using requestHeaders_sent [of E now i n] by simp_all
  have req: "\<exists>req. nd_sent ?n = nd_sent n @ req \<and> length req \<le> (if asked then 0 else if inv_Type v = 2 then 1 else 0) \<and>
      (\<forall>r\<in>set req. fst r = i \<and> fst (snd r) = ''getheaders'')"
    using requestHeaders_sent [of E now i n] by (cases asked; cases "inv_Type v = 2") auto
  show ?case
  proof (cases "(inv_Type v = 2 \<and> HasBlock ?h (nd_chain n)) \<or> (inv_Type v = 1 \<and> knownTx ?h n)")
    case True
    then have "collectUnknown E now i vs asked want n = (ws, m)" "\<not> unknown n v"
      using Cons.prems(1) by (auto simp: Let_def unknown_def)
    with Cons.IH [OF this(1) Cons.prems(2)] show ?thesis by simp
  next
    case False
    then have w: "(if length ?want \<ge> maxGetDataItems then (?want, ?n)
        else collectUnknown E now i vs (asked \<or> inv_Type v = 2) ?want ?n) = (ws, m)"
      using Cons.prems(1) by (auto simp: Let_def)
    have u: "?want @ List.filter (unknown n) vs = want @ List.filter (unknown n) (v # vs)"
      using False by (auto simp: unknown_def)
    show ?thesis
    proof (cases "length ?want \<ge> maxGetDataItems")
      case full: True
      then have m: "ws = ?want" "m = ?n" using w by (simp_all only: if_True prod.inject)
      have "length ?want = maxGetDataItems" using full Cons.prems(2) by (auto split: if_splits)
      then have t: "ws = take maxGetDataItems (?want @ List.filter (unknown n) vs)" unfolding m(1) by (rule take_exact [symmetric])
      from req obtain r where "nd_sent ?n = nd_sent n @ r" "length r \<le> (if asked then 0 else if inv_Type v = 2 then 1 else 0)"
        "\<forall>r\<in>set r. fst r = i \<and> fst (snd r) = ''getheaders''" by blast
      moreover from this have "length r \<le> (if asked then 0 else 1)" by (simp split: if_splits)
      ultimately show ?thesis using n t unfolding u m(2) by blast
    next
      case room: False
      have "collectUnknown E now i vs (asked \<or> inv_Type v = 2) ?want ?n = (ws, m)" "length ?want < maxGetDataItems"
        using w room by simp_all
      from Cons.IH [OF this] have ih: "ws = take maxGetDataItems (?want @ List.filter (unknown n) vs)"
        "nd_chain m = nd_chain n" "nd_pool m = nd_pool n"
        "\<exists>req. nd_sent m = nd_sent ?n @ req \<and> length req \<le> (if asked \<or> inv_Type v = 2 then 0 else 1) \<and>
          (\<forall>r\<in>set req. fst r = i \<and> fst (snd r) = ''getheaders'')"
        unfolding unknown_cong [OF n] using n by simp_all
      from ih(4) req obtain r1 r2 where r: "nd_sent ?n = nd_sent n @ r1" "nd_sent m = nd_sent ?n @ r2"
        "length r1 \<le> (if asked then 0 else if inv_Type v = 2 then 1 else 0)" "length r2 \<le> (if asked \<or> inv_Type v = 2 then 0 else 1)"
        "\<forall>r\<in>set r1. fst r = i \<and> fst (snd r) = ''getheaders''" "\<forall>r\<in>set r2. fst r = i \<and> fst (snd r) = ''getheaders''" by blast
      from r(5,6) have r5: "\<forall>r\<in>set (r1 @ r2). fst r = i \<and> fst (snd r) = ''getheaders''" by auto
      from r(1-4) have "nd_sent m = nd_sent n @ (r1 @ r2)" "length (r1 @ r2) \<le> (if asked then 0 else 1)"
        by (auto split: if_splits)
      with r5 ih(1-3) show ?thesis unfolding u by blast
    qed
  qed
qed

lemma requestUnknown_sent:
  assumes "requestUnknownBlocks E now i invs n = (ok, m)"
  shows "\<exists>req get. nd_sent m = nd_sent n @ req @ get \<and> length req \<le> 1 \<and>
    (\<forall>r\<in>set req. fst r = i \<and> fst (snd r) = ''getheaders'') \<and>
    (ok \<longrightarrow> (let wanted = take 1000 (List.filter (unknown n) invs) in
       if wanted = [] then get = [] else \<exists>p. InvPayload wanted = Inr p \<and> get = [(i, ''getdata'', p)])) \<and> (\<not> ok \<longrightarrow> get = [])"
proof -
  obtain want n1 where c: "collectUnknown E now i invs False [] n = (want, n1)" by (metis prod.exhaust)
  have w: "want = take 1000 (List.filter (unknown n) invs)"
    and "\<exists>req. nd_sent n1 = nd_sent n @ req \<and> length req \<le> 1 \<and> (\<forall>r\<in>set req. fst r = i \<and> fst (snd r) = ''getheaders'')"
    using collect_wanted [OF c] by (auto simp: maxGetDataItems_def)
  then obtain req where req: "nd_sent n1 = nd_sent n @ req" "length req \<le> 1" "\<forall>r\<in>set req. fst r = i \<and> fst (snd r) = ''getheaders''"
    by blast
  have "\<exists>get. nd_sent m = nd_sent n1 @ get \<and> (ok \<longrightarrow> (if want = [] then get = []
      else \<exists>p. InvPayload want = Inr p \<and> get = [(i, ''getdata'', p)])) \<and> (\<not> ok \<longrightarrow> get = [])"
  proof (cases "want = [] \<or> (\<exists>e. InvPayload want = Inl e)")
    case True
    then show ?thesis using assms c by (auto simp: requestUnknownBlocks_def)
  next
    case False
    then obtain p where p: "want \<noteq> []" "InvPayload want = Inr p" by (metis sum.exhaust)
    then have "writePeerMessage E i ''getdata'' p (addBlocksRequested (countBlocks want)
        (updPeer i (markBlocksRequested now (countBlocks want)) n1)) = (ok, m)"
      using assms c by (simp add: requestUnknownBlocks_def)
    from write_sent [OF this] show ?thesis using p by (auto simp: addBlocksRequested_def)
  qed
  with req show ?thesis unfolding w Let_def by (metis append_assoc)
qed

end
