(* ===== verification/P2PSample.thy ===== *)
theory P2PSample
  imports P2PTalk SampleMining
begin

text \<open>
  A concrete node for the witnesses: the sample chain and an empty pool, a policy that enforces
  the chain id, writes that succeed; one inbound connection before and one after its handshake.
\<close>

section \<open>The environment\<close>

definition policy0 :: p2pPolicy where
  "policy0 = (NewPolicy 19333 [1, 2, 3, 4] ''legacy'')\<lparr>pp_enforceChainID := True\<rparr>"

definition nodeEnv0 :: nodeEnv where
  "nodeEnv0 = \<lparr>ne_chain = env0, ne_policy = policy0, ne_ord = listed, ne_peerOrd = sorted_list_of_fset,
     ne_write = (\<lambda>k. True), ne_blockErrText = (\<lambda>e. ''''), ne_txErrText = (\<lambda>e. ''''), ne_nonce = of_nat\<rparr>"

lemma nodeEnv0_simps [simp]:
  "ne_chain nodeEnv0 = env0" "ne_policy nodeEnv0 = policy0" "ne_ord nodeEnv0 = listed"
  "ne_peerOrd nodeEnv0 = sorted_list_of_fset" "ne_write nodeEnv0 k" "ne_nonce nodeEnv0 = of_nat"
  by (simp_all add: nodeEnv0_def)

lemma policy0_simps [simp]:
  "pp_MessageStart policy0 = [1, 2, 3, 4]" "pp_chainID policy0 = ''legacy''" "pp_enforceChainID policy0"
  "pp_peerSafety policy0" "pp_banThreshold policy0 = 100" "pp_banDuration policy0 = 60 * minute"
  "pp_maxInboundPeers policy0 = 64" "pp_maxPerIP policy0 = 8" "pp_maxPerSubnet policy0 = 32"
  "pp_peerRateLimit policy0 = 250" "pp_globalRateLimit policy0 = 3000" "pp_connectOnly policy0 = {||}"
  "pp_peerRateWindow policy0 = 10 * second" "pp_globalRateWindow policy0 = 10 * second"
  "pp_DefaultPort policy0 = 19333" "pp_listenAddr policy0 = []"
  by (simp_all add: policy0_def NewPolicy_def)

lemma orders0_ok: "orders_ok nodeEnv0"
  by (simp add: orders_ok_def listed_ok peer_order_ok_def sorted_list_of_fset.rep_eq)

definition now0 :: time where "now0 = 63000000000 * second"

lemma now0_simps [simp]: "now0 \<noteq> 0" "0 < now0" "sub_time now0 now0 = 0"
  by (simp_all add: now0_def second_def sub_time_def)

section \<open>Frames\<close>

definition frame0 :: "string \<Rightarrow> bytes \<Rightarrow> bytes" where
  "frame0 command payload = projr (WriteMessage [1, 2, 3, 4] command payload)"

lemma frame0_read:
  assumes "length command \<le> 12" "command = [] \<or> last command \<noteq> CHR 0x00" "length payload \<le> 33554432"
  shows "ReadMessage [1, 2, 3, 4] (frame0 command payload) = Inr (\<lparr>msg_Command = command, msg_Payload = payload\<rparr>, [])"
proof -
  obtain out where o: "WriteMessage [1, 2, 3, 4] command payload = Inr out"
    using assms by (simp add: WriteMessage_def unat_MaxMessagePayload)
  show ?thesis using ReadMessage_WriteMessage [OF _ assms(2) o, of "[]"] by (simp add: frame0_def o)
qed

section \<open>Connections\<close>

definition peer0 :: peer where "peer0 = newPeer ''1.2.3.4:5'' False now0"

definition fresh0 :: conn where
  "fresh0 = \<lparr>cn_peer = peer0, cn_gotVersion = False, cn_gotVerAck = False, cn_didSync = False, cn_dialed = None\<rparr>"

definition greeted0 :: conn where
  "greeted0 = \<lparr>cn_peer = peer0\<lparr>pr_chainID := ''legacy''\<rparr>, cn_gotVersion = True, cn_gotVerAck = True,
     cn_didSync = True, cn_dialed = None\<rparr>"

definition node0 :: "conn \<Rightarrow> Node" where
  "node0 c = (newNode chain0 (Some newPool))\<lparr>nd_peers := fmupd 0 c fmempty, nd_nextPeer := 1\<rparr>"

lemma node0_simps [simp]:
  "nd_peers (node0 c) = fmupd 0 c fmempty" "nd_chain (node0 c) = chain0" "nd_pool (node0 c) = Some newPool"
  "nd_bans (node0 c) = fmempty" "nd_sent (node0 c) = []" "nd_missing (node0 c) = fmempty" "nd_getdata (node0 c) = fmempty"
  "nd_tasks (node0 c) = []" "nd_rate (node0 c) = \<lparr>rw_start = 0, rw_count = 0\<rparr>" "nd_writes (node0 c) = 0"
  by (simp_all add: node0_def newNode_def)

lemma peer0_simps [simp]:
  "pr_outbound peer0 = False" "pr_remote peer0 = ''1.2.3.4:5''" "pr_closed peer0 = False" "pr_banScore peer0 = 0"
  "pr_rateWindowStart peer0 = 0" "pr_rateWindowCount peer0 = 0" "pr_wantHeaders peer0 = False"
  "pr_lastPenaltyAt peer0 = 0"
  by (simp_all add: peer0_def newPeer_def)

section \<open>A block whose parent is unknown\<close>

definition orphan0 :: MsgBlock where
  "orphan0 = block1\<lparr>bk_Header := header1\<lparr>hd_PrevBlock := nonce_hash 9, hd_Nonce := 3\<rparr>\<rparr>"

lemma orphan0_ok: "MsgBlock_ok orphan0"
  using sample_blocks_ok(2) by (simp add: orphan0_def MsgBlock_ok_def BlockHeader_ok_def block1_def header1_def)

lemma chain0_only:
  assumes "h \<noteq> hash_String (nonce_hash 1)"
  shows "\<exists>e. LoadBlock h (ch_store chain0) = Inl e"
  using assms by (simp add: LoadBlock_def chain0_def firstChain_def commitBlock_def noteWork_def
      SaveBlock_fields emptyChain_def NewFileStore_def index0_def indexOf_def)

lemma chain0_maps [simp]: "ch_sideBlocks chain0 = fmempty" "ch_orphanByHash chain0 = fmempty"
  by (simp_all add: chain0_def firstChain_def commitBlock_def noteWork_def emptyChain_def)

lemma hash_text_inj: "hash_ok a \<Longrightarrow> hash_ok b \<Longrightarrow> hash_String a = hash_String b \<longleftrightarrow> a = b"
  using hash_FromString_String by (metis sum.inject(2))

lemma orphan0_processed:
  "\<exists>r d. ProcessBlockWithResult env0 t orphan0 chain0 = ((None, r), d) \<and> br_Status r = StatusOrphan"
proof -
  have h: "hash_String (nonce_hash 3) \<noteq> hash_String (nonce_hash 1)" "hash_String (nonce_hash 9) \<noteq> hash_String (nonce_hash 1)"
    by (simp_all add: hash_text_inj)
  obtain e1 e2 where l: "LoadBlock (hash_String (nonce_hash 3)) (ch_store chain0) = Inl e1"
    "LoadBlock (hash_String (nonce_hash 9)) (ch_store chain0) = Inl e2" using chain0_only h by blast
  have hd: "bk_Header orphan0 = header1\<lparr>hd_PrevBlock := nonce_hash 9, hd_Nonce := 3\<rparr>" by (simp add: orphan0_def)
  have f: "br_Status (finishResult c' x) = br_Status x" for c' x
    by (simp add: finishResult_def Let_def split: option.splits)
  show ?thesis
    using l h
    by (simp add: ProcessBlockWithResult_def blockProcessPreview_def Let_def hd HasBlock_def activeHeight_def indexedHeight_def f)
qed

section \<open>A run\<close>

text \<open>The node starts, a peer connects, and greets.\<close>

definition run0 :: Node where
  "run0 = receive nodeEnv0 now0 0 (frame0 ''version'' [])
     (accept nodeEnv0 now0 ''1.2.3.4:5'' [1, 2, 3, 4] 5 (newNode chain0 (Some newPool)))"

lemma frame0_in: "length command \<le> 12 \<Longrightarrow> command = [] \<or> last command \<noteq> CHR 0x00 \<Longrightarrow> length payload \<le> 33554432 \<Longrightarrow>
    command \<noteq> ''block'' \<Longrightarrow> command \<noteq> ''tx'' \<Longrightarrow> frame_in nodeEnv0 S T (frame0 command payload)"
  using frame0_read by (simp add: frame_in_def payload_in_def)

lemma states0: "states_in nodeEnv0 {block0, block1} {tx1} chain0 (Some newPool)"
  using sample_reachable pool_reachable.start by (simp add: states_in_def)

lemma run0_reached: "node_run nodeEnv0 {block0, block1} {tx1} run0"
  unfolding run0_def
  by (intro node_run_message node_run_accept node_run_start [OF states0] frame0_in) simp_all

section \<open>A peer of another chain\<close>

definition opened0 :: Node where
  "opened0 = accept nodeEnv0 now0 ''1.2.3.4:5'' [1, 2, 3, 4] 5 (newNode chain0 (Some newPool))"

lemma host0 [simp]: "banHost ''1.2.3.4:5'' = ''1.2.3.4''" "splitHost ''1.2.3.4:5'' = ''1.2.3.4''"
  by code_simp+

lemma newNode_simps [simp]:
  "nd_peers (newNode ch p) = fmempty" "nd_bans (newNode ch p) = fmempty" "nd_nextPeer (newNode ch p) = 0"
  "nd_chain (newNode ch p) = ch" "nd_writes (newNode ch p) = 0" "nd_rate (newNode ch p) = \<lparr>rw_start = 0, rw_count = 0\<rparr>"
  by (simp_all add: newNode_def)

lemma opened0_admitted:
  "admitConn nodeEnv0 now0 ''1.2.3.4:5'' False (newNode chain0 (Some newPool)) = (True, newNode chain0 (Some newPool))"
proof -
  have b: "isBanned ''1.2.3.4:5'' now0 fmempty = (False, fmempty)" by (simp add: isBanned_def)
  have i: "inboundCount P nodeEnv0 (newNode chain0 (Some newPool)) = 0" for P
    by (simp add: inboundCount_def snapshotPeers_def List.map_filter_simps sorted_list_of_fset.rep_eq)
  have u: "(newNode chain0 (Some newPool))\<lparr>nd_bans := fmempty\<rparr> = newNode chain0 (Some newPool)" by (simp add: newNode_def)
  show ?thesis by (simp add: admitConn_def Let_def b u i inboundSubnetCount_def)
qed

lemma version_frame: "\<exists>out. WriteMessage [1, 2, 3, 4] ''version'' (versionPayload E now ip port nonce n) = Inr out"
  if "length (pp_MessageStart (ne_policy E)) = 4" "length (pp_chainID (ne_policy E)) \<le> 200"
  using that by (simp add: WriteMessage_def unat_MaxMessagePayload versionPayload_def WriteVarBytes_def WriteVarInt_def Let_def)

lemma opened0_conn:
  "\<exists>b. fmlookup (nd_peers opened0) 0 = Some (fresh0\<lparr>cn_peer := peer0\<lparr>pr_bytesSent := b\<rparr>\<rparr>) \<and>
    nd_bans opened0 = fmempty \<and> nd_rate opened0 = \<lparr>rw_start = 0, rw_count = 0\<rparr>"
proof -
  let ?n = "newNode chain0 (Some newPool)"
  let ?m = "?n\<lparr>nd_nextPeer := 1, nd_peers := fmupd 0 fresh0 fmempty\<rparr>"
  let ?v = "versionPayload nodeEnv0 now0 [1, 2, 3, 4] 5 (ne_nonce nodeEnv0 (nd_writes ?n)) ?m"
  let ?k = "(updPeer 0 (\<lambda>p. p\<lparr>pr_bytesSent := pr_bytesSent p + of_nat (length ?v + 24)\<rparr>)
       (?m\<lparr>nd_writes := nd_writes ?m + 1\<rparr>))\<lparr>nd_sent := nd_sent ?m @ [(0, ''version'', ?v)]\<rparr>"
  obtain out where o: "WriteMessage [1, 2, 3, 4] ''version'' ?v = Inr out" using version_frame [of nodeEnv0 now0 "[1, 2, 3, 4]" 5 "ne_nonce nodeEnv0 (nd_writes ?n)" ?m] by auto
  have "opened0 = (case writePeerMessage nodeEnv0 0 ''version'' ?v ?m of (True, n) \<Rightarrow> n | (False, n) \<Rightarrow> unregisterPeer 0 n)"
    by (simp add: opened0_def accept_def acceptConn_def openConn_def registerConn_def dialDone_def opened0_admitted peerCount_def maxPeers_def fcard_fempty fresh0_def peer0_def Let_def
        split: prod.split bool.split)
  also have "\<dots> = ?k"
    using o by (simp add: writePeerMessage_def fresh0_def)
  finally have e: "opened0 = ?k" .
  have "fmlookup (nd_peers ?k) 0 = Some (fresh0\<lparr>cn_peer := peer0\<lparr>pr_bytesSent := pr_bytesSent peer0 + of_nat (length ?v + 24)\<rparr>\<rparr>)"
    "nd_bans ?k = fmempty" "nd_rate ?k = \<lparr>rw_start = 0, rw_count = 0\<rparr>"
    by (simp_all add: updPeer_def fresh0_def)
  then show ?thesis unfolding e by blast
qed

definition other_version :: bytes where
  "other_version = versionPayload (nodeEnv0\<lparr>ne_policy := policy0\<lparr>pp_chainID := ''other''\<rparr>\<rparr>) now0 [4, 3, 2, 1] 6 0 (newNode chain0 None)"

lemma other_version_read:
  "ReadMessage [1, 2, 3, 4] (frame0 ''version'' other_version) = Inr (\<lparr>msg_Command = ''version'', msg_Payload = other_version\<rparr>, [])"
  by (rule frame0_read) (simp_all add: other_version_def versionPayload_def WriteVarBytes_def WriteVarInt_def Let_def)

lemma other_version_parsed:
  "\<exists>v. parseVersionPayload other_version = Some v \<and> vm_ChainID v = ''other''"
  unfolding other_version_def by (subst parse_version) simp_all

lemma other_banned:
  "fmlookup (nd_bans (receive nodeEnv0 now0 0 (frame0 ''version'' other_version) opened0)) ''1.2.3.4'' = Some (now0 + 60 * minute)"
proof -
  obtain b where c: "fmlookup (nd_peers opened0) 0 = Some (fresh0\<lparr>cn_peer := peer0\<lparr>pr_bytesSent := b\<rparr>\<rparr>)"
    "nd_bans opened0 = fmempty" "nd_rate opened0 = \<lparr>rw_start = 0, rw_count = 0\<rparr>" using opened0_conn by blast
  obtain v where v: "parseVersionPayload other_version = Some v" "vm_ChainID v = ''other''" using other_version_parsed by blast
  show ?thesis
    using c v other_version_read
    by (simp add: receive_def fresh0_def allowPeerMessage_def windowOf_def tick_def Let_def markSeen_def
        dispatch_def handshakeCommand_def handleVersion_def updConn_def updPeer_def updHealth_def setVersionMeta_def
        scoreOn_def scorePeer_def decayScore_def banPeer_def minute_def second_def)
qed

lemma opened0_reached: "node_run nodeEnv0 {block0, block1} {tx1} opened0"
  unfolding opened0_def by (intro node_run_accept node_run_start [OF states0])

section \<open>Two connections at once\<close>

text \<open>
  A node that takes one incoming connection: two arrive together, both pass the checks before
  either is registered, and it has two.
\<close>

definition nodeEnv1 :: nodeEnv where
  "nodeEnv1 = nodeEnv0\<lparr>ne_policy := policy0\<lparr>pp_maxInboundPeers := 1\<rparr>\<rparr>"

lemma nodeEnv1_simps [simp]:
  "ne_policy nodeEnv1 = policy0\<lparr>pp_maxInboundPeers := 1\<rparr>" "ne_peerOrd nodeEnv1 = sorted_list_of_fset"
  "ne_write nodeEnv1 k" "ne_chain nodeEnv1 = env0" "ne_ord nodeEnv1 = listed"
  by (simp_all add: nodeEnv1_def)

definition empty0 :: Node where "empty0 = newNode chain0 (Some newPool)"

definition joining0 :: "string \<Rightarrow> joining" where
  "joining0 remote = newJoining now0 remote [1, 2, 3, 4] 5 None"

definition register0 :: "string \<Rightarrow> Node \<Rightarrow> Node" where
  "register0 remote n = registerConn nodeEnv1 now0 now0 remote [1, 2, 3, 4] 5 None n"

definition crowded0 :: Node where
  "crowded0 = register0 ''1.2.3.4:6'' (register0 ''1.2.3.4:5'' empty0)"

lemma gates_open0:
  "checkGates [AtBan, AtInbound, AtHost, AtSubnet, AtOnly] nodeEnv1 now0 remote False empty0 = (True, empty0)"
proof -
  have b: "isBanned remote now0 fmempty = (False, fmempty)" by (simp add: isBanned_def)
  have i: "inboundCount P nodeEnv1 empty0 = 0" for P
    by (simp add: empty0_def inboundCount_def snapshotPeers_def List.map_filter_simps sorted_list_of_fset.rep_eq)
  have u: "nd_bans empty0 = fmempty" "empty0\<lparr>nd_bans := fmempty\<rparr> = empty0" by (simp_all add: empty0_def newNode_def)
  show ?thesis by (simp add: Let_def b u i inboundSubnetCount_def)
qed

lemma traffic_inbound:
  assumes "traffic n m"
  shows "inbound (\<lambda>r. True) m = inbound (\<lambda>r. True) n"
proof -
  have r: "rel_option conn_same (fmlookup (nd_peers n) i) (fmlookup (nd_peers m) i)" for i
    using assms by (simp add: traffic_def)
  have "i \<in> inbound (\<lambda>r. True) m \<longleftrightarrow> i \<in> inbound (\<lambda>r. True) n" for i
    using r [of i] unfolding inbound_def mem_Collect_eq
    by (cases "fmlookup (nd_peers n) i"; cases "fmlookup (nd_peers m) i") (auto simp: conn_same_def peer_same_def)
  then show ?thesis by blast
qed

lemma register0_inbound:
  "inbound (\<lambda>r. True) (register0 remote n) = insert (nd_nextPeer n) (inbound (\<lambda>r. True) n)"
  "nd_nextPeer (register0 remote n) = nd_nextPeer n + 1"
proof -
  let ?m = "registered remote None now0 n"
  let ?v = "versionPayload nodeEnv1 now0 [1, 2, 3, 4] 5 (ne_nonce nodeEnv1 (nd_writes ?m)) ?m"
  let ?w = "writePeerMessage nodeEnv1 (nd_nextPeer n) ''version'' ?v ?m"
  obtain out where o: "WriteMessage [1, 2, 3, 4] ''version'' ?v = Inr out"
    using version_frame [of nodeEnv1 now0 "[1, 2, 3, 4]" 5 "ne_nonce nodeEnv1 (nd_writes ?m)" ?m] by auto
  have "fst ?w" using o by (simp add: writePeerMessage_def Let_def newConn_def newPeer_def)
  then have r: "register0 remote n = snd ?w" by (simp add: register0_def registerConn_eq Let_def)
  have t: "traffic ?m (snd ?w)" by (rule traffic.written)
  have "inbound (\<lambda>r. True) (snd ?w) = inbound (\<lambda>r. True) ?m" by (rule traffic_inbound [OF t])
  then show "inbound (\<lambda>r. True) (register0 remote n) = insert (nd_nextPeer n) (inbound (\<lambda>r. True) n)"
    unfolding r by (auto simp: inbound_def newConn_def newPeer_def)
  show "nd_nextPeer (register0 remote n) = nd_nextPeer n + 1"
    unfolding r using t by (simp add: traffic_def registered_def)
qed

lemma crowded0_inbound: "inbound (\<lambda>r. True) crowded0 = {0, 1}"
  by (auto simp: crowded0_def register0_inbound empty0_def) (simp add: inbound_def)

lemma joined0:
  assumes "net_run E S T k (xs @ (joining0 remote)\<lparr>jn_gate := AtRegister\<rparr> # ys) n" "E = nodeEnv1"
  shows "net_run E S T k (xs @ ys) (register0 remote n)"
  by (rule net_run.joined [OF assms(1), of now0]) (simp add: joinStep_def register0_def joining0_def newJoining_def assms(2))

lemma crowded0_reached: "net_run nodeEnv1 {block0, block1} {tx1} 2 [] crowded0"
proof -
  let ?run = "net_run nodeEnv1 {block0, block1} {tx1} 2"
  let ?a = "joining0 ''1.2.3.4:5''" and ?b = "joining0 ''1.2.3.4:6''"
  let ?a' = "?a\<lparr>jn_gate := AtRegister\<rparr>" and ?b' = "?b\<lparr>jn_gate := AtRegister\<rparr>"
  have acc: "acceptConn now0 r [1, 2, 3, 4] 5 empty0 = [joining0 r]" for r
    by (simp add: acceptConn_def joining0_def empty0_def peerCount_def maxPeers_def fcard_fempty)
  have pass: "?run (xs @ joining0 r # ys) empty0 \<Longrightarrow> ?run (xs @ (joining0 r)\<lparr>jn_gate := AtRegister\<rparr> # ys) empty0" for xs r ys
    using net_run_gates [of nodeEnv1 _ _ 2 xs "joining0 r" ys empty0 "[AtBan, AtInbound, AtHost, AtSubnet, AtOnly]" now0 True empty0]
      gates_open0 by (simp add: joining0_def newJoining_def del: checkGates.simps)
  have "states_in nodeEnv1 {block0, block1} {tx1} chain0 (Some newPool)" using states0 by (simp add: states_in_def)
  from net_run.start [OF this] have "?run [] empty0" by (simp add: empty0_def)
  from net_run.accepted [OF this, of now0 "''1.2.3.4:5''" "[1, 2, 3, 4]" 5] have "?run [?a] empty0" by (simp add: acc)
  from net_run.accepted [OF this, of now0 "''1.2.3.4:6''" "[1, 2, 3, 4]" 5] have "?run [?b, ?a] empty0"
    by (simp add: acc joining0_def newJoining_def)
  with pass [of "[]" "''1.2.3.4:6''" "[?a]"] have "?run ([?b'] @ [?a]) empty0" by simp
  with pass [of "[?b']" "''1.2.3.4:5''" "[]"] have "?run ([?b'] @ ?a' # []) empty0" by simp
  from joined0 [OF this HOL.refl] have "?run ([] @ ?b' # []) (register0 ''1.2.3.4:5'' empty0)" by simp
  from joined0 [OF this HOL.refl] show ?thesis by (simp add: crowded0_def)
qed

lemma orders1_ok: "orders_ok nodeEnv1"
  using orders0_ok by (simp add: orders_ok_def)

end
