(* ===== verification/P2PRelay.thy ===== *)
theory P2PRelay
  imports P2PTalk MempoolAccept
begin

text \<open>
  Announcements, for a node whose writes succeed: every open connection but the one a block or a
  transaction came from hears of it, once, in the order the node visits its peers.
\<close>

definition open_conn :: "Node \<Rightarrow> nat \<Rightarrow> bool" where
  "open_conn n i \<longleftrightarrow> (\<exists>c. fmlookup (nd_peers n) i = Some c \<and> \<not> pr_closed (cn_peer c))"

text \<open>The connections in the order of the environment, less the one that is skipped.\<close>

definition listeners :: "nodeEnv \<Rightarrow> nat option \<Rightarrow> Node \<Rightarrow> nat list" where
  "listeners E skip n = List.filter (\<lambda>i. open_conn n i \<and> skip \<noteq> Some i) (ne_peerOrd E (fmdom (nd_peers n)))"

lemma listeners_set:
  "peer_order_ok (ne_peerOrd E) \<Longrightarrow> set (listeners E skip n) = {i. open_conn n i \<and> skip \<noteq> Some i} \<and> distinct (listeners E skip n)"
  by (auto simp: listeners_def peer_order_ok_def open_conn_def intro: fmdomI)

lemma write_reaches:
  assumes "open_conn n i" "ne_write E (nd_writes n)" "WriteMessage (pp_MessageStart (ne_policy E)) command payload = Inr out"
  shows "fst (writePeerMessage E i command payload n)"
  using assms by (auto simp: writePeerMessage_def open_conn_def Let_def)

lemma write_closed: "\<not> open_conn n i \<Longrightarrow> \<not> fst (writePeerMessage E i command payload n)"
  by (auto simp: writePeerMessage_def open_conn_def Let_def split: option.splits)

lemma write_open [simp]: "open_conn (snd (writePeerMessage E i command payload n)) j = open_conn n j"
  by (auto simp: writePeerMessage_def updPeer_def open_conn_def Let_def split: option.splits sum.splits)

lemma write_adds:
  assumes "\<forall>k. ne_write E k" "WriteMessage (pp_MessageStart (ne_policy E)) command payload = Inr out"
  shows "fst (writePeerMessage E i command payload n) = open_conn n i \<and>
    nd_sent (snd (writePeerMessage E i command payload n)) = nd_sent n @ (if open_conn n i then [(i, command, payload)] else [])"
  using write_sent [of E i command payload n, OF prod.collapse [symmetric]] write_closed [of n i E command payload]
    write_reaches [of n i E command payload out] assms by (cases "open_conn n i") simp_all

lemma map_fst_snapshot:
  assumes "peer_order_ok (ne_peerOrd E)"
  shows "map fst (snapshotPeers E n) = ne_peerOrd E (fmdom (nd_peers n))"
proof -
  have "map fst (List.map_filter (\<lambda>i. map_option (\<lambda>c. (i, cn_peer c)) (fmlookup m i)) xs) = xs" if "set xs \<subseteq> fset (fmdom m)" for xs m
    using that by (induction xs) (auto simp: List.map_filter_simps fmlookup_dom_iff split: option.splits)
  from this [of "ne_peerOrd E (fmdom (nd_peers n))" "nd_peers n"] show ?thesis
    using assms by (simp add: snapshotPeers_def peer_order_ok_def)
qed

section \<open>Transactions\<close>

lemma told_all:
  assumes "\<forall>k. ne_write E k" "WriteMessage (pp_MessageStart (ne_policy E)) command payload = Inr out"
  shows "nd_sent (fold (\<lambda>(i, p) n. if skip = Some i then n else snd (writePeerMessage E i command payload n)) xs n) =
    nd_sent n @ map (\<lambda>i. (i, command, payload)) (List.filter (\<lambda>i. open_conn n i \<and> skip \<noteq> Some i) (map fst xs))"
  by (induction xs arbitrary: n) (auto simp: write_adds [OF assms])

lemma inv_frames:
  assumes "length (inv_Hash v) = 32"
  shows "\<exists>p out. InvPayload [v] = Inr p \<and> WriteMessage magic ''inv'' p = Inr out"
  using assms by (simp add: InvPayload_def MaxInvPerMessage_def WriteMessage_def unat_MaxMessagePayload write_counted_def
      write_InvVect_def WriteVarInt_def)

definition txInv :: "hash \<Rightarrow> InvVect" where
  "txInv h = \<lparr>inv_Type = 1, inv_Hash = h\<rparr>"

lemma announceTx_sent:
  assumes "\<forall>k. ne_write E k" "peer_order_ok (ne_peerOrd E)" "length h = 32"
  shows "\<exists>p. InvPayload [txInv h] = Inr p \<and> nd_sent (announceTxToPeersExcept E h skip n) =
    nd_sent n @ map (\<lambda>i. (i, ''inv'', p)) (listeners E skip n)"
proof -
  obtain p out where p: "InvPayload [txInv h] = Inr p" "WriteMessage (pp_MessageStart (ne_policy E)) ''inv'' p = Inr out"
    using inv_frames [of "txInv h" "pp_MessageStart (ne_policy E)"] assms(3) by (auto simp: txInv_def)
  have "nd_sent (announceTxToPeersExcept E h skip n) = nd_sent n @ map (\<lambda>i. (i, ''inv'', p)) (listeners E skip n)"
    using p(1) by (simp add: told_all [OF assms(1) p(2)] map_fst_snapshot [OF assms(2)]
        announceTxToPeersExcept_def txInv_def listeners_def)
  with p(1) show ?thesis by blast
qed

lemma Add_id:
  assumes "Add C ord ch tx p = (Inr e, p')"
  shows "me_TxID e = txID tx"
proof -
  from Add_Inr [OF assms] obtain q where "addOne C ord ch tx p = (Inr e, q)" by blast
  then show ?thesis
  proof (cases rule: addOne_cases)
    case (admitted e')
    have "e' = e" using admitted(3) by (cases rule: admit_cases) auto
    then show ?thesis using admitted by simp
  qed simp_all
qed

lemma handleTx_sent:
  assumes "\<forall>k. ne_write E k" "peer_order_ok (ne_peerOrd E)" "nd_pool n = Some p" "ReadTx payload = Inr (tx, r)"
    "Add (en_crypto (ne_chain E)) (ne_ord E) (nd_chain n) tx p = (Inr entry, q)"
  shows "\<exists>inv. InvPayload [txInv (TxHash tx)] = Inr inv \<and> nd_pool (snd (handleTx E i payload n)) = Some q \<and>
    nd_sent (snd (handleTx E i payload n)) = nd_sent n @ map (\<lambda>j. (j, ''inv'', inv)) (listeners E (Some i) n)"
proof -
  have id: "me_TxID entry = hash_String (TxHash tx)" using Add_id [OF assms(5)] by (simp add: txID_def)
  have h: "hash_FromString (hash_String (TxHash tx)) = Inr (TxHash tx)" "length (TxHash tx) = 32"
    using hash_FromString_String [of "TxHash tx"] hash_ok_DoubleHashB by (auto simp: TxHash_def hash_ok_def HashSize_def)
  have l: "listeners E (Some i) (n\<lparr>nd_pool := Some q\<rparr>) = listeners E (Some i) n" by (simp add: listeners_def open_conn_def)
  have "snd (handleTx E i payload n) = announceTxToPeersExcept E (TxHash tx) (Some i) (n\<lparr>nd_pool := Some q\<rparr>)"
    using assms(3-5) id h by (simp add: handleTx_def)
  moreover have "traffic (n\<lparr>nd_pool := Some q\<rparr>) (announceTxToPeersExcept E (TxHash tx) (Some i) (n\<lparr>nd_pool := Some q\<rparr>))"
    by (rule traffic.announce_tx)
  ultimately show ?thesis
    using announceTx_sent [OF assms(1,2) h(2), of "Some i" "n\<lparr>nd_pool := Some q\<rparr>"] l by (auto simp: traffic_def)
qed

section \<open>Blocks\<close>

lemma announced_block:
  assumes "\<forall>k. ne_write E k" "WriteMessage (pp_MessageStart (ne_policy E)) ''inv'' ip = Inr o1"
    "WriteMessage (pp_MessageStart (ne_policy E)) ''headers'' hp = Inr o2"
  shows "announceTo E ip (Some hp) skip xs sent n = (k, m) \<Longrightarrow>
    nd_sent m = nd_sent n @ map (\<lambda>(i, p). (i, if pr_wantHeaders p then (''headers'', hp) else (''inv'', ip)))
      (List.filter (\<lambda>(i, p). open_conn n i \<and> skip \<noteq> Some i) xs) \<and>
    k = sent + length (List.filter (\<lambda>(i, p). open_conn n i \<and> skip \<noteq> Some i) xs)"
proof (induction xs arbitrary: sent n)
  case Nil
  then show ?case by simp
next
  case (Cons x xs)
  obtain i p where x: "x = (i, p)" by (metis prod.exhaust)
  let ?c = "if pr_wantHeaders p then ''headers'' else ''inv''" and ?d = "if pr_wantHeaders p then hp else ip"
  obtain ok n1 where w: "writePeerMessage E i ?c ?d n = (ok, n1)" by (metis prod.exhaust)
  have sent: "ok = open_conn n i" "nd_sent n1 = nd_sent n @ (if open_conn n i then [(i, ?c, ?d)] else [])"
    "open_conn n1 j = open_conn n j" for j
    using write_adds [OF assms(1,2), of i n] write_adds [OF assms(1,3), of i n] w
      write_open [of E i ?c ?d n j] by (simp_all split: if_splits)
  show ?case
  proof (cases "skip = Some i")
    case True
    then show ?thesis using Cons x by simp
  next
    case False
    then have "announceTo E ip (Some hp) skip xs (if ok then sent + 1 else sent) n1 = (k, m)"
      using Cons.prems w x by (cases "pr_wantHeaders p"; cases ok) simp_all
    from Cons.IH [OF this] show ?thesis using sent False x by simp
  qed
qed

text \<open>The filter of the snapshot, as connections.\<close>

lemma snapshot_filter:
  "map (\<lambda>(i, p). (i, F p)) (List.filter (\<lambda>(i, p). Q i) (List.map_filter (\<lambda>i. map_option (\<lambda>c. (i, cn_peer c)) (fmlookup m i)) xs)) =
    List.map_filter (\<lambda>i. map_option (\<lambda>c. (i, F (cn_peer c))) (fmlookup m i)) (List.filter Q xs)"
  by (induction xs) (auto simp: List.map_filter_simps split: option.splits)

lemma header_frames:
  assumes "BlockHeader_ok h"
  shows "\<exists>p out. HeadersPayload [h] = Inr p \<and> WriteMessage magic ''headers'' p = Inr out"
  using length_header_Serialize [OF assms]
  by (simp add: HeadersPayload_def MaxHeadersPerMessage_def WriteMessage_def unat_MaxMessagePayload write_counted_def
      write_header_item_def WriteVarInt_def)

lemma loaded_header: "LoadBlock h s = Inr (b, i) \<Longrightarrow> BlockHeader_ok (bk_Header b)"
  using block.dec_ok by (fastforce simp: LoadBlock_def MsgBlock_ok_def split: option.splits sum.splits)

text \<open>The announcement of a stored block to one connection: its header to those who asked for headers.\<close>

definition announcement :: "hash \<Rightarrow> MsgBlock \<Rightarrow> conn \<Rightarrow> string \<times> bytes" where
  "announcement h block c =
     (if pr_wantHeaders (cn_peer c) then (''headers'', projr (HeadersPayload [bk_Header block]))
      else (''inv'', projr (InvPayload [blockInv h])))"

lemma announceBlock_sent:
  assumes "\<forall>k. ne_write E k" "peer_order_ok (ne_peerOrd E)" "length h = 32"
    "LoadBlock (hash_String h) (ch_store (nd_chain n)) = Inr (block, idx)"
  shows "nd_sent (announceBlockToPeersExcept E h skip n) = nd_sent n @
    List.map_filter (\<lambda>i. map_option (\<lambda>c. (i, announcement h block c)) (fmlookup (nd_peers n) i)) (listeners E skip n)"
proof -
  obtain ip o1 where ip: "InvPayload [blockInv h] = Inr ip" "WriteMessage (pp_MessageStart (ne_policy E)) ''inv'' ip = Inr o1"
    using inv_frames [of "blockInv h" "pp_MessageStart (ne_policy E)"] assms(3) by (auto simp: blockInv_def)
  obtain hp o2 where hp: "HeadersPayload [bk_Header block] = Inr hp"
      "WriteMessage (pp_MessageStart (ne_policy E)) ''headers'' hp = Inr o2"
    using header_frames [OF loaded_header [OF assms(4)]] by blast
  have hdr: "headerPayloadOf h n = Some hp" using assms(4) hp(1) by (simp add: headerPayloadOf_def)
  obtain k m where a: "announceTo E ip (Some hp) skip (snapshotPeers E n) 0 n = (k, m)" by (metis prod.exhaust)
  have "nd_sent (announceBlockToPeersExcept E h skip n) = nd_sent m"
    using ip(1) hdr a by (simp add: announceBlockToPeersExcept_def addBlocksAnnounced_def)
  also have "\<dots> = nd_sent n @ map (\<lambda>(i, p). (i, if pr_wantHeaders p then (''headers'', hp) else (''inv'', ip)))
      (List.filter (\<lambda>(i, p). open_conn n i \<and> skip \<noteq> Some i) (snapshotPeers E n))"
    using announced_block [OF assms(1) ip(2) hp(2) a] by blast
  also have "\<dots> = nd_sent n @
    List.map_filter (\<lambda>i. map_option (\<lambda>c. (i, announcement h block c)) (fmlookup (nd_peers n) i)) (listeners E skip n)"
    unfolding snapshotPeers_def listeners_def announcement_def ip(1) hp(1) sum.sel(2) by (rule arg_cong [OF snapshot_filter])
  finally show ?thesis .
qed

end
