(* ===== verification/P2PBounds.thy ===== *)
theory P2PBounds
  imports P2PRelay
begin

text \<open>
  What the server's limits amount to: who is banned and for how long, what an unfinished
  handshake can touch, how often a missing parent is asked for, how many messages of a peer pass
  in a window of time, and how many addresses are remembered.
\<close>

section \<open>Bans\<close>

definition banTime :: "p2pPolicy \<Rightarrow> int" where
  "banTime pol = (if pp_banDuration pol \<le> 0 then 60 * minute else pp_banDuration pol)"

text \<open>The bans of \<open>m\<close> are those of \<open>n\<close>, or peer \<open>i\<close> has been banned.\<close>

definition banned_only :: "p2pPolicy \<Rightarrow> time \<Rightarrow> nat \<Rightarrow> Node \<Rightarrow> Node \<Rightarrow> bool" where
  "banned_only pol now i n m \<longleftrightarrow> nd_bans m = nd_bans n \<or>
     (\<exists>c. fmlookup (nd_peers n) i = Some c \<and> nd_bans m = banPeer (pr_remote (cn_peer c)) (banTime pol) now (nd_bans n))"

lemma banned_only_same [simp]: "nd_bans m = nd_bans n \<Longrightarrow> banned_only pol now i n m"
  by (simp add: banned_only_def)

lemma banned_only_end: "banned_only pol now i n m \<Longrightarrow> nd_bans k = nd_bans m \<Longrightarrow> banned_only pol now i n k"
  by (simp add: banned_only_def)

lemma banned_only_start:
  assumes "banned_only pol now i k m" "nd_bans k = nd_bans n" "shrinks n k"
  shows "banned_only pol now i n m"
  using assms unfolding banned_only_def shrinks_def by metis

lemma scoreOn_only: "banned_only (ne_policy E) now i n (scoreOn E now i score reason n)"
proof (cases "fmlookup (nd_peers n) i")
  case (Some c)
  obtain q b where "scorePeer (ne_policy E) now score reason (cn_peer c, nd_bans n) = (q, b)" by (metis prod.exhaust)
  moreover from this have "b = nd_bans n \<or> b = banPeer (pr_remote (cn_peer c)) (banTime (ne_policy E)) now (nd_bans n)"
    by (auto simp: scorePeer_def decayScore_def banTime_def Let_def split: if_splits)
  ultimately show ?thesis using Some by (auto simp: scoreOn_def banned_only_def)
qed (simp add: scoreOn_def)

lemma version_only:
  assumes "handleVersion E now i payload n = (out, m)"
  shows "banned_only (ne_policy E) now i n m"
proof (cases "parseVersionPayload payload")
  case None
  let ?k = "updConn i (\<lambda>c. c\<lparr>cn_gotVersion := True\<rparr>) n"
  have m: "m = scoreOn E now i 20 ''bad version payload'' ?k"
    using assms None by (simp add: handleVersion_def Let_def)
  have "shrinks n ?k" by (rule updConn_shrinks) simp
  from banned_only_start [OF scoreOn_only _ this] show ?thesis unfolding m by simp
next
  case (Some v)
  let ?k = "updConn i (\<lambda>c. c\<lparr>cn_gotVersion := True, cn_peer := setVersionMeta now v (cn_peer c)\<rparr>) n"
  have s: "shrinks n ?k" by (rule updConn_shrinks) (simp add: setVersionMeta_def)
  have e: "updPeer i (setVersionMeta now v) (updConn i (\<lambda>c. c\<lparr>cn_gotVersion := True\<rparr>) n) = ?k"
    by (simp add: updPeer_eq_updConn updConn_compose)
  have "m = scoreOn E now i 100 ''wrong or empty chain id'' ?k \<or> m = snd (writePeerMessage E i ''verack'' [] ?k)"
    using assms Some e by (auto simp: handleVersion_def Let_def orClose_def split: if_splits)
  then show ?thesis
  proof
    assume m: "m = scoreOn E now i 100 ''wrong or empty chain id'' ?k"
    from banned_only_start [OF scoreOn_only _ s] show ?thesis unfolding m by simp
  next
    assume "m = snd (writePeerMessage E i ''verack'' [] ?k)"
    then show ?thesis using registry.written [of ?k E i "''verack''" "[]"] by (simp add: registry_def)
  qed
qed

lemma dispatch_only:
  assumes "dispatch E now i remote msg n = (out, m)"
  shows "banned_only (ne_policy E) now i n m"
proof -
  consider "msg_Command msg = ''version''" | "msg_Command msg = ''verack''"
    | "msg_Command msg \<noteq> ''version''" "msg_Command msg \<noteq> ''verack''" by blast
  then show ?thesis
  proof cases
    case 1
    then show ?thesis using assms version_only by (simp add: dispatch_def)
  next
    case 2
    then show ?thesis
      using assms registry.written [of "updConn i (\<lambda>c. c\<lparr>cn_gotVerAck := True, cn_peer := (cn_peer c)\<lparr>pr_wantHeaders := True\<rparr>\<rparr>) n" E i]
      by (auto simp: dispatch_def handleVerAck_def Let_def registry_def)
  next
    case 3
    from registry.dispatch [OF assms 3] show ?thesis by (simp add: registry_def)
  qed
qed

lemma afterHandshake_bans [simp]: "nd_bans (afterHandshake E now i n) = nd_bans n"
proof (cases "\<exists>c. fmlookup (nd_peers n) i = Some c \<and> cn_gotVersion c \<and> cn_gotVerAck c \<and> \<not> cn_didSync c")
  case True
  then obtain c where c: "fmlookup (nd_peers n) i = Some c" "cn_gotVersion c \<and> cn_gotVerAck c \<and> \<not> cn_didSync c" by blast
  show ?thesis using traffic.greeted [OF c, of E now] by (simp add: traffic_def)
next
  case False
  then show ?thesis by (auto simp: afterHandshake_def split: option.splits)
qed

lemma receive_only: "banned_only (ne_policy E) now i n (receive E now i bs n)"
proof (cases rule: receive_cases [of E now i bs n])
  case unread
  then show ?thesis by auto
next
  case (over c msg r)
  let ?n = "snd (arrived E now i msg c n)"
  have r: "registry n ?n" by (rule arrived_registry [OF over(1)])
  then have "banned_only (ne_policy E) now i n (scoreOn E now i 20 ''peer message rate limit exceeded'' ?n)"
    using banned_only_start [OF scoreOn_only _ registry_shrinks [OF r]] by (simp add: registry_def)
  then show ?thesis unfolding over(4) by (rule banned_only_end) simp
next
  case (early c msg r)
  then show ?thesis using arrived_registry [OF early(1), of E now msg] by (simp add: registry_def)
next
  case (go c msg r out m)
  let ?n = "snd (arrived E now i msg c n)"
  have r: "registry n ?n" by (rule arrived_registry [OF go(1)])
  then have "banned_only (ne_policy E) now i n m"
    using banned_only_start [OF dispatch_only [OF go(5)] _ registry_shrinks [OF r]] by (simp add: registry_def)
  then show ?thesis unfolding go(6) by (rule banned_only_end) (cases out; simp)
qed

text \<open>While a ban lasts, no connection with the host begins, in or out.\<close>

lemma ban_lasts:
  assumes "banHost remote = banHost addr" "t \<le> now + d"
  shows "isBanned remote t (banPeer addr d now b) = (True, banPeer addr d now b)"
  using assms by (simp add: isBanned_def banPeer_def)

lemma banned_refused:
  assumes "nd_bans n = banPeer addr d now b" "banHost remote = banHost addr" "t \<le> now + d"
  shows "nd_peers (openConn E t remote ip port dialed n) = nd_peers n \<and> nd_sent (openConn E t remote ip port dialed n) = nd_sent n"
proof -
  obtain b' k where a: "admitConn E t remote (dialed \<noteq> None) n = (b', k)" by (metis prod.exhaust)
  have "\<not> b'" using a ban_lasts [OF assms(2,3), of b] by (auto simp: admitConn_def assms(1) Let_def)
  moreover have "k = n\<lparr>nd_bans := nd_bans k\<rparr>" using a unfolding admitConn_def by (rule checkGates_node)
  then have "nd_peers k = nd_peers n \<and> nd_sent k = nd_sent n" by (metis Node.ext_inject Node.surjective Node.update_convs(5))
  ultimately show ?thesis using a by (simp add: openConn_def)
qed

section \<open>Before the handshake\<close>

text \<open>Chain, pool and what is outstanding.\<close>

definition data_same :: "Node \<Rightarrow> Node \<Rightarrow> bool" where
  "data_same n m \<longleftrightarrow> nd_chain m = nd_chain n \<and> nd_pool m = nd_pool n \<and> nd_getdata m = nd_getdata n \<and>
     nd_missing m = nd_missing n \<and> nd_tasks m = nd_tasks n"

lemma data_same_refl [simp]: "data_same n n"
  by (simp add: data_same_def)

lemma data_same_trans: "data_same a b \<Longrightarrow> data_same b c \<Longrightarrow> data_same a c"
  by (simp add: data_same_def)

lemma data_same_steps [simp]:
  "data_same n (unregisterPeer i n)" "data_same n (scoreOn E now i score reason n)"
  "data_same n (snd (writePeerMessage E i command payload n))" "data_same n (updConn i f n)"
  "data_same n (updPeer i g n)" "data_same n (updHealth h n)" "data_same n (updAddr a n)"
  "data_same n (snd (rememberOn E now addr source n))"
  by (auto simp: data_same_def unregisterPeer_def scoreOn_def writePeerMessage_def updConn_def updPeer_def updHealth_def
      updAddr_def rememberOn_def Let_def split: option.splits sum.splits prod.splits)

lemma data_same_locator [simp]: "data_same n (snd (requestLocator E now command note i n))"
proof -
  have "data_same n (snd (writePeerMessage E i command p (updPeer i f (updHealth g n))))" for p f g
    by (rule data_same_trans [OF data_same_trans [OF data_same_steps(6) data_same_steps(5)] data_same_steps(3)])
  then show ?thesis by (simp add: requestLocator_def split: list.split sum.split)
qed

lemma data_same_asked [simp]:
  "data_same n (snd (requestHeaders E now i n))" "data_same n (snd (requestBlocks E now i n))"
  "data_same n (snd (sendKnownAddresses E now i remote limit n))"
  by (simp_all add: requestHeaders_def requestBlocks_def sendKnownAddresses_def split: sum.split)

lemma data_same_greeted: "data_same n (afterHandshake E now i n)"
proof -
  have c: "data_same n k \<Longrightarrow> data_same k m \<Longrightarrow> data_same n m" for n k m by (rule data_same_trans)
  show ?thesis
    unfolding afterHandshake_def Let_def
    by (auto split: option.split intro!: c [OF _ data_same_steps(3)] c [OF _ data_same_asked(3)] c [OF _ data_same_steps(7)]
        c [OF _ data_same_steps(8)] c [OF _ data_same_asked(2)] c [OF _ data_same_asked(1)] data_same_steps(4))
qed

lemma data_same_arrived: "data_same n (snd (arrived E now i msg c n))"
  by (simp add: arrived_def data_same_def updHealth_def Let_def split: prod.split)

lemma data_same_dispatch:
  assumes "dispatch E now i remote msg n = (out, m)" "handshakeCommand (msg_Command msg)"
  shows "data_same n m"
proof -
  have v: "data_same n m" if h: "handleVersion E now i payload n = (out, m)" for payload
  proof -
    have c: "data_same n (g (updPeer i f (updConn i k n)))" if "\<And>x. data_same x (g x)" for g f k
      by (rule data_same_trans [OF data_same_trans [OF data_same_steps(4) data_same_steps(5)] that])
    have c2: "data_same n (scoreOn E now i score reason (updConn i k n))" for score reason k
      by (rule data_same_trans [OF data_same_steps(4) data_same_steps(2)])
    show ?thesis using h c [OF data_same_steps(2)] c [OF data_same_steps(3)] c2
      by (auto simp: handleVersion_def orClose_def Let_def split: option.splits if_splits)
  qed
  have a: "data_same n m" if "handleVerAck E i n = (out, m)"
    using that data_same_trans [OF data_same_steps(4) data_same_steps(3)] by (auto simp: handleVerAck_def Let_def)
  from assms v a show ?thesis
    by (auto simp: handshakeCommand_def dispatch_def orClose_def Let_def)
qed

lemma gate:
  assumes "fmlookup (nd_peers n) i = Some c" "\<not> (cn_gotVersion c \<and> cn_gotVerAck c)"
  shows "data_same n (receive E now i bs n)"
proof (cases rule: receive_cases [of E now i bs n])
  case unread
  then show ?thesis by auto
next
  case (over c' msg r)
  show ?thesis unfolding over(4)
    by (rule data_same_trans [OF data_same_trans [OF data_same_arrived data_same_steps(2)] data_same_steps(1)])
next
  case (early c' msg r)
  show ?thesis unfolding early(5) by (rule data_same_trans [OF data_same_arrived data_same_steps(1)])
next
  case (go c' msg r out m)
  then have "handshakeCommand (msg_Command msg)" using assms by auto
  from data_same_trans [OF data_same_arrived data_same_dispatch [OF go(5) this]] have m: "data_same n m" .
  show ?thesis unfolding go(6) using data_same_trans [OF m] data_same_greeted by (cases out) simp_all
qed

section \<open>Missing parents\<close>

text \<open>Claims one after another.\<close>

definition claims :: "(string \<times> time) list \<Rightarrow> (string, time) fmap \<Rightarrow> (string, time) fmap" where
  "claims cs m = fold (\<lambda>(h, t) m. snd (tryClaimMissingParent h t m)) cs m"

lemma sub_time_exact: "- (2 ^ 63) \<le> a - b \<Longrightarrow> a - b < 2 ^ 63 \<Longrightarrow> sub_time a b = a - b"
  by (simp add: sub_time_def)

lemma claim_kept:
  assumes "fmlookup m h = Some t" "t \<le> u" "u - t < missingParentTTL"
  shows "fmlookup (snd (tryClaimMissingParent h' u m)) h = Some t"
proof -
  have d: "sub_time u t = u - t" "\<not> sub_time u t > missingParentEvictTTL"
    using assms by (simp_all add: sub_time_def missingParentTTL_def missingParentEvictTTL_def minute_def second_def)
  show ?thesis
    using assms d
    by (cases "h' = h") (auto simp: tryClaimMissingParent_def Let_def split: sum.splits if_splits)
qed

lemma claims_kept:
  assumes "fmlookup m h = Some t" "\<forall>(h', u) \<in> set cs. t \<le> u \<and> u - t < missingParentTTL"
  shows "fmlookup (claims cs m) h = Some t"
  using assms
proof (induction cs arbitrary: m)
  case Nil
  then show ?case by (simp add: claims_def)
next
  case (Cons x cs)
  obtain h' u where x: "x = (h', u)" by (metis prod.exhaust)
  from Cons claim_kept [of m h t u h'] show ?case by (simp add: claims_def x)
qed

lemma claimed:
  assumes "tryClaimMissingParent h t m = (Some payload, m')"
  shows "fmlookup m' h = Some t"
  using assms by (auto simp: tryClaimMissingParent_def Let_def split: sum.splits if_splits)

lemma claimed_once:
  assumes "tryClaimMissingParent h t m = (Some payload, m')"
    "\<forall>(h', u) \<in> set cs. t \<le> u \<and> u - t < missingParentTTL" "t \<le> u" "u - t < missingParentTTL"
  shows "tryClaimMissingParent h u (claims cs m') = (None, claims cs m')"
  using claims_kept [OF claimed [OF assms(1)] assms(2)] assms(3,4)
  by (simp add: tryClaimMissingParent_def sub_time_def missingParentTTL_def minute_def second_def)

text \<open>A block that is kept as an orphan has a parent that is not known; the sender is asked for it.\<close>

lemma process_orphan:
  assumes "ProcessBlockWithResult E now block c = ((None, r), d)" "br_Status r = StatusOrphan"
  shows "\<not> br_Connected r \<and> \<not> br_ParentKnown r \<and> br_PrevHash r = hash_String (hd_PrevBlock (bk_Header block)) \<and>
    (\<exists>h. en_HashHeader E (bk_Header block) = Some h \<and> hash_String h |\<in>| fmdom (ch_orphanByHash d))"
proof -
  have f: "br_Connected (finishResult c' x) = br_Connected x \<and> br_ParentKnown (finishResult c' x) = br_ParentKnown x \<and>
      br_PrevHash (finishResult c' x) = br_PrevHash x \<and> br_Status (finishResult c' x) = br_Status x" for c' x
    by (auto simp: finishResult_def Let_def split: option.splits)
  have i: "\<not> br_Connected (initialResult c')" "\<not> br_ParentKnown (initialResult c')" "br_Status (initialResult c') = StatusNone" for c'
    by (simp_all add: initialResult_def split: option.splits)
  have o: "hash |\<in>| fmdom (ch_orphanByHash (addOrphan hash parent block c'))" for hash parent block c'
    by (simp add: addOrphan_def Let_def)
  have d: "duplicateResult h x c' = (y, e) \<Longrightarrow> br_Status y = StatusDuplicate" for h x y e c'
    by (auto simp: duplicateResult_def Let_def split: prod.splits option.splits)
  have s: "storeSideBlock E t b blk h p ph x c' = ((None, y), e) \<Longrightarrow> br_Status y \<noteq> StatusOrphan" for t b blk h p ph x y e c'
    by (auto simp: storeSideBlock_def Let_def split: prod.splits sum.splits if_splits)
  from assms show ?thesis
    unfolding ProcessBlockWithResult_def blockProcessPreview_def Let_def hashHeader_def
    by (auto simp: f i o dest: d s split: prod.splits sum.splits option.splits if_splits)
qed

lemma open_upd:
  "(\<And>p. pr_closed (g p) = pr_closed p) \<Longrightarrow> open_conn (updPeer i g n) j = open_conn n j"
  "open_conn (updHealth f n) j = open_conn n j" "open_conn (n\<lparr>nd_getdata := q\<rparr>) j = open_conn n j"
  "open_conn (n\<lparr>nd_chain := c\<rparr>) j = open_conn n j" "open_conn (n\<lparr>nd_missing := ms\<rparr>) j = open_conn n j"
  by (auto simp: open_conn_def updPeer_def updHealth_def split: option.splits)

lemma tasks_upd: "nd_tasks (updPeer i g n) = nd_tasks n" "nd_tasks (updHealth f n) = nd_tasks n"
  by (simp_all add: updPeer_def updHealth_def split: option.split)

lemma closed_result: "pr_closed (setLastBlockResult now r p) = pr_closed p"
  by (simp add: setLastBlockResult_def Let_def)

lemma orphan_handled:
  assumes r: "ReadBlock payload = Inr (block, rest)"
    and p: "ProcessBlockWithResult (ne_chain E) (chainNow now) block (nd_chain n) = ((None, r), ch)" "br_Status r = StatusOrphan"
    and old: "case fmlookup (nd_missing n) (hash_String (hd_PrevBlock (bk_Header block))) of None \<Rightarrow> True
      | Some t \<Rightarrow> missingParentTTL \<le> sub_time now t"
    and w: "open_conn n i" "\<forall>k. ne_write E k"
  shows "\<exists>inv m. handleBlock E now i payload n = (Continue, m) \<and> InvPayload [blockInv (hd_PrevBlock (bk_Header block))] = Inr inv \<and>
    nd_sent m = nd_sent n @ [(i, ''getdata'', inv)] \<and>
    nd_tasks m = nd_tasks n @ [(hash_String (hd_PrevBlock (bk_Header block)), inv, i)] \<and>
    fmlookup (nd_missing m) (hash_String (hd_PrevBlock (bk_Header block))) = Some now"
proof -
  let ?parent = "hd_PrevBlock (bk_Header block)"
  note po = process_orphan [OF p]
  have ok: "hash_ok ?parent"
    using block.dec_ok [OF r] by (simp add: MsgBlock_ok_def BlockHeader_ok_def)
  then have fs: "hash_FromString (hash_String ?parent) = Inr ?parent" by (rule hash_FromString_String)
  have ne: "hash_String ?parent \<noteq> []"
    using length_hash_String [of ?parent] ok by (auto simp: hash_ok_def HashSize_def simp del: length_hash_String)
  obtain inv out where inv: "InvPayload [blockInv ?parent] = Inr inv"
      "WriteMessage (pp_MessageStart (ne_policy E)) ''getdata'' inv = Inr out"
    using inv_frames [of "blockInv ?parent" "pp_MessageStart (ne_policy E)"] ok
    by (auto simp: blockInv_def hash_ok_def HashSize_def WriteMessage_def split: if_splits)
  define n1 where "n1 = updPeer i (\<lambda>p. p\<lparr>pr_lastBlockRecv := now\<rparr>) (updHealth (noteBlockMessage now) n)"
  define n2 where "n2 = (case hashHeader (ne_chain E) (bk_Header block) of Inl _ \<Rightarrow> n1
                 | Inr h \<Rightarrow> n1\<lparr>nd_getdata := fmdrop (hash_String h) (nd_getdata n1)\<rparr>)\<lparr>nd_chain := ch\<rparr>"
  define n3 where "n3 = updPeer i (\<lambda>p. (setLastBlockResult now r p)\<lparr>pr_lastBlockReject := None\<rparr>) n2"
  have n3: "nd_sent n3 = nd_sent n" "nd_tasks n3 = nd_tasks n" "nd_missing n3 = nd_missing n" "open_conn n3 i"
    using w(1) by (simp_all add: n3_def n2_def n1_def open_upd tasks_upd closed_result split: sum.split)
  have ch1: "nd_chain n1 = nd_chain n" by (simp add: n1_def)
  have h: "handleBlock E now i payload n = (Continue, requestMissingParent E now i (hash_String ?parent) n3)"
    using r p po ne by (simp add: handleBlock_def n1_def [symmetric] ch1 blockAccepted_def Let_def n2_def n3_def split: sum.split)
  have claim: "tryClaimMissingParent (hash_String ?parent) now (nd_missing n3) = (Some inv, snd (tryClaimMissingParent (hash_String ?parent) now (nd_missing n3)))"
    using ne fs inv(1) old n3(3) by (auto simp: tryClaimMissingParent_def blockInv_def Let_def split: option.splits)
  define n4 where "n4 = n3\<lparr>nd_missing := snd (tryClaimMissingParent (hash_String ?parent) now (nd_missing n3))\<rparr>"
  have rq: "requestMissingParent E now i (hash_String ?parent) n3 = sendMissingParentRequest E now i (hash_String ?parent) inv n4"
    unfolding requestMissingParent_def n4_def Let_def by (subst claim) simp
  have o4: "open_conn n4 i" using n3(4) by (simp add: n4_def open_conn_def)
  have t4: "nd_tasks n4 = nd_tasks n" "nd_sent n4 = nd_sent n" using n3 by (simp_all add: n4_def)
  obtain w5 n5 where wr0: "writePeerMessage E i ''getdata'' inv n4 = (w5, n5)" by (metis prod.exhaust)
  have wr: "writePeerMessage E i ''getdata'' inv n4 = (True, n5)" "nd_sent n5 = nd_sent n @ [(i, ''getdata'', inv)]"
    using write_adds [OF w(2) inv(2), of i n4] o4 wr0 t4(2) by simp_all
  have same: "data_same n4 n5" using data_same_steps(3) [of n4 E i "''getdata''" inv] wr(1) by simp
  have c: "fmlookup (nd_missing n4) (hash_String ?parent) = Some now" using claimed [OF claim] by (simp add: n4_def)
  show ?thesis
    unfolding h rq
    using inv(1) wr same c t4
    by (simp add: sendMissingParentRequest_def Let_def noteMissingParent_def addBlocksRequested_def data_same_def tasks_upd)
qed

section \<open>Messages in a window\<close>

text \<open>How many messages of a peer pass, given the state of its window and of the common one.\<close>

fun allowedCount :: "p2pPolicy \<Rightarrow> (time \<times> string) list \<Rightarrow> rateWindow \<times> peer \<Rightarrow> nat" where
  "allowedCount pol [] s = 0"
| "allowedCount pol ((t, command) # ms) s =
     (let (b, g, p) = allowPeerMessage pol t command s
      in (if b then 1 else 0) + allowedCount pol ms (g, p))"

lemma allow_window:
  assumes "allowPeerMessage pol t command (g, p) = (b, g', q)"
  shows "(pr_rateWindowStart q, pr_rateWindowCount q) =
      tick (windowOf (pp_peerRateWindow pol)) t (pr_rateWindowStart p, pr_rateWindowCount p)"
    and "b \<Longrightarrow> 0 < pp_peerRateLimit pol \<Longrightarrow> pr_rateWindowCount q \<le> pp_peerRateLimit pol"
  using assms by (auto simp: allowPeerMessage_def Let_def split: prod.splits if_splits)

lemma sub_time_less: "a - b < w \<Longrightarrow> 0 < w \<Longrightarrow> sub_time a b < w"
  by (auto simp: sub_time_def)

text \<open>Inside one window at most as many pass as the count leaves room for.\<close>

lemma allowed_inside:
  assumes "0 < pp_peerRateLimit pol"
  shows "\<lbrakk>pr_rateWindowStart p \<noteq> 0; \<forall>(t, c) \<in> set ms. sub_time t (pr_rateWindowStart p) < windowOf (pp_peerRateWindow pol)\<rbrakk> \<Longrightarrow>
    allowedCount pol ms (g, p) \<le> nat (pp_peerRateLimit pol - pr_rateWindowCount p)"
proof (induction ms arbitrary: g p)
  case Nil
  then show ?case by simp
next
  case (Cons x ms)
  obtain t command where x: "x = (t, command)" by (metis prod.exhaust)
  obtain b g' q where a: "allowPeerMessage pol t command (g, p) = (b, g', q)" by (metis prod.exhaust)
  have w: "pr_rateWindowStart q = pr_rateWindowStart p" "pr_rateWindowCount q = pr_rateWindowCount p + 1"
    using allow_window(1) [OF a] Cons.prems by (auto simp: tick_def x)
  have "allowedCount pol ms (g', q) \<le> nat (pp_peerRateLimit pol - pr_rateWindowCount q)"
    using Cons.IH [of q g'] Cons.prems w by simp
  then show ?case using a x w allow_window(2) [OF a _ assms] by (auto simp: Let_def)
qed

lemma allowed_window:
  assumes L: "0 < pp_peerRateLimit pol" and t0: "0 < t0"
  shows "\<forall>(t, c) \<in> set ms. t0 \<le> t \<and> t < t0 + windowOf (pp_peerRateWindow pol) \<Longrightarrow>
    allowedCount pol ms (g, p) \<le> nat (pp_peerRateLimit pol - pr_rateWindowCount p) + nat (pp_peerRateLimit pol)"
proof (induction ms arbitrary: g p)
  case Nil
  then show ?case by simp
next
  case (Cons x ms)
  let ?w = "windowOf (pp_peerRateWindow pol)"
  obtain t command where x: "x = (t, command)" by (metis prod.exhaust)
  obtain b g' q where a: "allowPeerMessage pol t command (g, p) = (b, g', q)" by (metis prod.exhaust)
  have pos: "0 < ?w" by (simp add: windowOf_def second_def)
  note win = allow_window [OF a]
  show ?case
  proof (cases "pr_rateWindowStart p = 0 \<or> sub_time t (pr_rateWindowStart p) \<ge> ?w")
    case True
    then have w: "pr_rateWindowStart q = t" "pr_rateWindowCount q = 1" using win(1) by (auto simp: tick_def)
    have "sub_time u t < ?w" if "(u, c) \<in> set ms" for u c
      using Cons.prems that x by (intro sub_time_less [OF _ pos]) fastforce
    then have "allowedCount pol ms (g', q) \<le> nat (pp_peerRateLimit pol - 1)"
      using allowed_inside [OF L, of q ms g'] w Cons.prems t0 x by (auto simp: w)
    then show ?thesis using a x L by (auto simp: Let_def)
  next
    case False
    then have w: "pr_rateWindowCount q = pr_rateWindowCount p + 1" using win(1) by (auto simp: tick_def)
    have "allowedCount pol ms (g', q) \<le> nat (pp_peerRateLimit pol - pr_rateWindowCount q) + nat (pp_peerRateLimit pol)"
      using Cons.IH [of g' q] Cons.prems by simp
    then show ?thesis using a x w win(2) [OF _ L] by (auto simp: Let_def)
  qed
qed

section \<open>Known addresses\<close>

text \<open>The oldest of the addresses that are not protected.\<close>

definition older :: "string \<Rightarrow> addressBook \<Rightarrow> string \<Rightarrow> string \<times> time \<Rightarrow> string \<times> time" where
  "older protected m addr w =
     (if addr = protected then w
      else (case fmlookup m addr of None \<Rightarrow> w
        | Some i \<Rightarrow> if fst w = [] \<or> ka_LastSeen i < snd w then (addr, ka_LastSeen i) else w))"

lemma oldestAddress_older: "oldestAddress ord protected m = fst (fold (older protected m) (ord (fmdom m)) ([], 0))"
proof -
  have "older protected m = (\<lambda>addr (oldest, seen). if addr = protected then (oldest, seen)
      else (case fmlookup m addr of None \<Rightarrow> (oldest, seen)
         | Some i \<Rightarrow> if oldest = [] \<or> ka_LastSeen i < seen then (addr, ka_LastSeen i) else (oldest, seen)))"
    by (auto simp: fun_eq_iff older_def split: option.split)
  then show ?thesis by (simp add: oldestAddress_def)
qed

definition is_oldest :: "string \<Rightarrow> addressBook \<Rightarrow> string set \<Rightarrow> string \<times> time \<Rightarrow> bool" where
  "is_oldest protected m A w \<longleftrightarrow>
     (if fst w = [] then A \<subseteq> {protected}
      else fst w \<in> A \<and> fst w \<noteq> protected \<and> snd w = ka_LastSeen (the (fmlookup m (fst w))) \<and>
        (\<forall>b\<in>A. b \<noteq> protected \<longrightarrow> snd w \<le> ka_LastSeen (the (fmlookup m b))))"

lemma older_step:
  assumes "is_oldest protected m A w" "fmlookup m x = Some i" "x \<noteq> []"
  shows "is_oldest protected m (insert x A) (older protected m x w)"
  using assms by (cases "x = protected"; cases "fst w = []") (auto simp: is_oldest_def older_def intro: order.trans [OF less_imp_le])

lemma oldest_fold:
  assumes "set xs \<subseteq> fset (fmdom m)" "[] \<notin> set xs"
  shows "is_oldest protected m (set xs) (fold (older protected m) xs ([], 0))"
  using assms
proof (induction xs rule: rev_induct)
  case Nil
  then show ?case by (simp add: is_oldest_def)
next
  case (snoc x xs)
  then obtain i where "fmlookup m x = Some i" by (auto simp: fmlookup_dom_iff)
  moreover have "x \<noteq> []" using snoc.prems(2) by auto
  ultimately show ?case using older_step [OF snoc.IH] snoc.prems by simp
qed

lemma oldest_address:
  assumes "order_ok ord" "[] |\<notin>| fmdom m" "o1 = oldestAddress ord protected m"
  shows "(o1 = [] \<longrightarrow> fmdom m |\<subseteq>| {|protected|}) \<and>
    (o1 \<noteq> [] \<longrightarrow> o1 |\<in>| fmdom m \<and> o1 \<noteq> protected \<and>
      (\<forall>b. b |\<in>| fmdom m \<longrightarrow> b \<noteq> protected \<longrightarrow> ka_LastSeen (the (fmlookup m o1)) \<le> ka_LastSeen (the (fmlookup m b))))"
proof -
  have xs: "set (ord (fmdom m)) = fset (fmdom m)" using assms(1) by (simp add: order_ok_def)
  show ?thesis
    using oldest_fold [of "ord (fmdom m)" m protected] assms(2)
    unfolding xs oldestAddress_older [of ord protected m, folded assms(3), symmetric] is_oldest_def
    by (auto simp: less_eq_fset.rep_eq split: if_splits)
qed

text \<open>A new address costs at most one other, the one not seen for longest.\<close>

lemma remembered_bound:
  assumes ord: "order_ok ord" and m: "fcard (fmdom m) \<le> maxKnownPeerAddresses" "[] |\<notin>| fmdom m" "a \<noteq> []"
    and r: "rememberAddress ord a source now m = (fresh, m')"
  shows "fcard (fmdom m') \<le> maxKnownPeerAddresses \<and> a |\<in>| fmdom m' \<and> (fresh \<longleftrightarrow> a |\<notin>| fmdom m) \<and>
    fmdom m' |\<subseteq>| finsert a (fmdom m) \<and>
    (\<forall>b. b |\<in>| fmdom m \<longrightarrow> b |\<notin>| fmdom m' \<longrightarrow> fcard (fmdom m) = maxKnownPeerAddresses \<and>
      (\<forall>k. k |\<in>| fmdom m' \<longrightarrow> k \<noteq> a \<longrightarrow> ka_LastSeen (the (fmlookup m b)) \<le> ka_LastSeen (the (fmlookup m k))) \<and>
      fmdom m' = finsert a (fmdom m |-| {|b|}))"
proof (cases "fmlookup m a")
  case (Some e)
  then have "a |\<in>| fmdom m" by (rule fmdomI)
  then have i: "finsert a (fmdom m) = fmdom m" by auto
  have "m' = snd (rememberAddress ord a source now m)" "fresh = fst (rememberAddress ord a source now m)" by (simp_all add: r)
  then have "\<not> fresh" "fmdom m' = fmdom m" by (simp_all add: rememberAddress_def Some i)
  then show ?thesis using m(1) \<open>a |\<in>| fmdom m\<close> i by simp
next
  case None
  then have a: "a |\<notin>| fmdom m" by (simp add: fmlookup_dom_iff)
  let ?e = "noAddress\<lparr>ka_Addr := a, ka_Source := source, ka_LastSeen := now\<rparr>"
  let ?m1 = "fmupd a ?e m"
  have r': "fresh" "m' = trimKnownAddresses ord a ?m1" using r None by (simp_all add: rememberAddress_def)
  have c1: "fcard (fmdom ?m1) = Suc (fcard (fmdom m))" using a by (simp add: fcard_finsert_disjoint)
  show ?thesis
  proof (cases "fcard (fmdom ?m1) \<le> maxKnownPeerAddresses")
    case True
    then have "m' = ?m1" unfolding r'(2) trimKnownAddresses_def c1 trimRounds.simps by (rule if_P)
    then show ?thesis using True a r'(1) by auto
  next
    case False
    let ?o = "oldestAddress ord a ?m1"
    have full: "fcard (fmdom m) = maxKnownPeerAddresses" using False m(1) c1 by simp
    then have ne: "\<not> fmdom ?m1 |\<subseteq>| {|a|}"
      using fcard_mono [of "fmdom ?m1" "{|a|}"] c1 by (auto simp: maxKnownPeerAddresses_def fcard.rep_eq)
    have o: "?o \<noteq> []" "?o |\<in>| fmdom ?m1" "?o \<noteq> a"
      "\<And>b. b |\<in>| fmdom ?m1 \<Longrightarrow> b \<noteq> a \<Longrightarrow> ka_LastSeen (the (fmlookup ?m1 ?o)) \<le> ka_LastSeen (the (fmlookup ?m1 b))"
      using oldest_address [OF ord, of ?m1 ?o a] ne m(2,3) by auto
    have om: "?o |\<in>| fmdom m" using o(2,3) by simp
    have dom: "fmdom (fmdrop ?o ?m1) = finsert a (fmdom m |-| {|?o|})" using o(3) a by auto
    have card: "fcard (fmdom (fmdrop ?o ?m1)) = maxKnownPeerAddresses"
      unfolding dom using a om full by (simp add: fcard_finsert_disjoint fcard_fminus_fsingleton maxKnownPeerAddresses_def)
    have "m' = trimRounds (fcard (fmdom m)) ord a (fmdrop ?o ?m1)"
      unfolding r'(2) trimKnownAddresses_def c1 using False o(1) by (simp add: Let_def)
    also have "\<dots> = fmdrop ?o ?m1"
      unfolding full using card by (simp add: maxKnownPeerAddresses_def numeral_eq_Suc)
    finally have m': "m' = fmdrop ?o ?m1" .
    have "b = ?o" if "b |\<in>| fmdom m" "b |\<notin>| fmdom m'" for b using that unfolding m' dom by auto
    moreover have "ka_LastSeen (the (fmlookup m ?o)) \<le> ka_LastSeen (the (fmlookup m k))" if "k |\<in>| fmdom m'" "k \<noteq> a" for k
      using o(3) o(4) [of k] that unfolding m' by (auto simp: fmlookup_dom_iff)
    ultimately show ?thesis using card full r'(1) a dom unfolding m' by auto
  qed
qed

end
