(* ===== verification/P2PProperties.thy ===== *)
theory P2PProperties
  imports P2PSample P2PBounds
begin

text \<open>Properties of the peer-to-peer server.\<close>

section \<open>Every run\<close>

text \<open>
  C6. The network cannot break the ledger. Whatever happens at a node (connections, dials,
  messages with any blocks of \<open>S\<close> and transactions of \<open>T\<close> in any order, timers, tasks of other
  goroutines, operator calls, changes by the rest of the program), the total of its UTXO set
  stays within \<open>MaxMoney\<close>, its orphan pool within 128 blocks, and no two transactions of its
  pool spend the same output.
\<close>

theorem network_keeps_ledger:
  assumes "node_run E S T n" "orders_ok E" "env_ok (ne_chain E) S" "finite S" "card S \<le> 2 ^ 31" "txs_ok T"
  shows "sint (st_Total (UTXOStats_of (ch_store (nd_chain n)))) \<le> sint MaxMoney \<and> OrphanCount (nd_chain n) \<le> 128 \<and>
    (\<forall>p i j e f k. nd_pool n = Some p \<longrightarrow> fmlookup (po_entries p) i = Some e \<longrightarrow> fmlookup (po_entries p) j = Some f \<longrightarrow>
      k \<in> set (inKeys (me_Tx e)) \<longrightarrow> k \<in> set (inKeys (me_Tx f)) \<longrightarrow> i = j)"
proof -
  have ok: "node_ok E S T n" using node_run_ok(1) [OF assms(1,2,6)] .
  have "i = j" if "nd_pool n = Some p" "fmlookup (po_entries p) i = Some e" "fmlookup (po_entries p) j = Some f"
    "k \<in> set (inKeys (me_Tx e))" "k \<in> set (inKeys (me_Tx f))" for p i j e f k
  proof -
    have "pool_reachable T p" using ok that(1) by (simp add: node_ok_def)
    from pool_reachable_ok [OF this assms(6)] obtain r where r: "core r p"
      by (auto simp: pool_ok_in_def mempool_ok_def pool_inv_def)
    then have "fmlookup (po_spent p) k = Some i" "fmlookup (po_spent p) k = Some j"
      using that(2-5) unfolding core_def by metis+
    then show ?thesis by simp
  qed
  moreover have "reachable (ne_chain E) S (nd_chain n)" using ok by (simp add: node_ok_def)
  ultimately show ?thesis
    using reachable_supply [OF _ assms(3,4,5)] reachable_orphan_count by blast
qed

theorem network_keeps_ledger_witness: "sint (st_Total (UTXOStats_of (ch_store (nd_chain run0)))) \<le> sint MaxMoney"
proof -
  have "card {block0, block1} \<le> 2 ^ 31" using card_insert_le_m1 [of 2 "{block1}" block0] by simp
  with network_keeps_ledger [OF run0_reached orders0_ok _ _ _ txs1_ok] sample_env_ok show ?thesis by simp
qed

text \<open>
  C12. How far connections stay within the limits. \<open>handleConn\<close> checks a limit and registers the
  connection under separate locks, so connections that arrive together can all pass the check
  and exceed the limit. In every run in which at most \<open>k\<close> incoming connections are between their
  arrival and their registration at a time, in whatever order the goroutines move, the incoming
  connections exceed \<open>pp_maxInboundPeers\<close> altogether, \<open>pp_maxPerIP\<close> from one host and
  \<open>pp_maxPerSubnet\<close> from one network by less than \<open>k\<close> (a limit that is not positive is off): with
  one at a time the limits hold exactly. The outgoing connections are at most 32 in any case.
  The witness has a limit of one, two connections that arrive together, and both registered.
\<close>

theorem connection_limits:
  assumes "net_run E S T k js n" "orders_ok E" "txs_ok T"
  shows "(pp_maxInboundPeers (ne_policy E) > 0 \<longrightarrow>
      int (card (inbound (\<lambda>r. True) n)) < pp_maxInboundPeers (ne_policy E) + int k) \<and>
    (pp_maxPerIP (ne_policy E) > 0 \<longrightarrow>
      int (card (inbound (\<lambda>r. splitHost r = host) n)) < pp_maxPerIP (ne_policy E) + int k) \<and>
    (pp_maxPerSubnet (ne_policy E) > 0 \<longrightarrow> net \<noteq> [] \<longrightarrow>
      int (card (inbound (\<lambda>r. subnetKey (splitHost r) = net) n)) < pp_maxPerSubnet (ne_policy E) + int k) \<and>
    card (outboundPeers n) \<le> 32"
proof -
  have "run_ok E S T k js n" using net_run_ok [OF assms] .
  then have l: "limits (ne_policy E) k js n" and o: "card (outboundPeers n) \<le> 32"
    using outbound_slots by (auto simp: run_ok_def outboundDialSlots_def)
  have "below limit k P gs js n \<Longrightarrow> limit > 0 \<Longrightarrow> int (card (inbound P n)) < limit + int k" for limit P gs
    by (simp add: below_def)
  with l o show ?thesis unfolding limits_def by blast
qed

theorem connection_limits_witness:
  "card (inbound (\<lambda>r. True) crowded0) = 2 \<and> pp_maxInboundPeers (ne_policy nodeEnv1) = 1 \<and>
   int (card (inbound (\<lambda>r. True) crowded0)) < 1 + 2 \<and> card (outboundPeers crowded0) \<le> 32"
  using connection_limits [OF crowded0_reached orders1_ok txs1_ok] by (simp add: crowded0_inbound)

text \<open>
  C13. Every connection is well-formed: its score is 0 (whatever raises it ends the connection),
  it is outgoing iff it was dialled and then holds a slot of its own, its initial
  synchronisation (the one request for headers that follows the handshake, \<open>didSyncRequest\<close>)
  is only ever marked as made after both halves of the handshake, and where the policy enforces
  the chain id a peer whose version message was taken has the node's chain id. Nothing is said
  of the other requests: the watchdog and the search for a missing parent ask registered peers
  whether or not the handshake is complete.
\<close>

theorem connections_well_formed:
  assumes "node_run E S T n" "orders_ok E" "txs_ok T" "fmlookup (nd_peers n) i = Some c"
  shows "pr_banScore (cn_peer c) = 0 \<and> (cn_dialed c \<noteq> None \<longleftrightarrow> pr_outbound (cn_peer c)) \<and>
    (\<forall>a. cn_dialed c = Some a \<longrightarrow> a |\<in>| as_knownOutbound (nd_addr n) \<and>
      (\<forall>j d. fmlookup (nd_peers n) j = Some d \<longrightarrow> cn_dialed d = Some a \<longrightarrow> j = i)) \<and>
    (cn_didSync c \<longrightarrow> cn_gotVersion c \<and> cn_gotVerAck c) \<and>
    (cn_gotVersion c \<longrightarrow> pp_enforceChainID (ne_policy E) \<longrightarrow> pp_chainID (ne_policy E) \<noteq> [] \<longrightarrow>
      pr_chainID (cn_peer c) = pp_chainID (ne_policy E))"
proof -
  have ok: "slots {} n" "conns_ok (ne_policy E) n" using node_run_ok [OF assms(1-3)] by simp_all
  have c: "conn_ok (ne_policy E) c" using ok(2) assms(4) by (simp add: conns_but_def)
  have d: "dialledAs n j = Some a \<longleftrightarrow> (\<exists>d. fmlookup (nd_peers n) j = Some d \<and> cn_dialed d = Some a)" for j a
    by (auto simp: dialledAs_def bind_eq_Some_conv)
  have "a |\<in>| as_knownOutbound (nd_addr n) \<and> (\<forall>j d. fmlookup (nd_peers n) j = Some d \<longrightarrow> cn_dialed d = Some a \<longrightarrow> j = i)"
    if "cn_dialed c = Some a" for a
    using ok(1) assms(4) that unfolding slots_def d by blast
  with c show ?thesis by (simp add: conn_ok_def)
qed

theorem connections_well_formed_witness:
  "\<exists>c. fmlookup (nd_peers opened0) 0 = Some c \<and> pr_banScore (cn_peer c) = 0 \<and> (cn_dialed c \<noteq> None \<longleftrightarrow> pr_outbound (cn_peer c))"
proof -
  obtain b where "fmlookup (nd_peers opened0) 0 = Some (fresh0\<lparr>cn_peer := peer0\<lparr>pr_bytesSent := b\<rparr>\<rparr>)"
    using opened0_conn by blast
  with connections_well_formed [OF opened0_reached orders0_ok txs1_ok this] show ?thesis by blast
qed

section \<open>Bans and the handshake\<close>

text \<open>
  C15. Who is banned, why, and what it means. If receiving bytes on a connection of a run
  changes the bans, the host of that connection and no other is banned, for the policy's
  ban time; the policy keeps peers safe, and either bans at a score of 20, or the bytes are a
  version message with a chain id that is not the node's; and until the ban ends no connection
  with the host that comes after it begins, in or out, nor is anything sent for one.
\<close>

theorem ban_needs_reason:
  assumes "node_run E S T n" "orders_ok E" "txs_ok T" "fmlookup (nd_peers n) i = Some c"
    "nd_bans (receive E now i bs n) \<noteq> nd_bans n"
  shows "nd_bans (receive E now i bs n) = banPeer (pr_remote (cn_peer c)) (banTime (ne_policy E)) now (nd_bans n) \<and>
    pp_peerSafety (ne_policy E) \<and>
    (pp_banThreshold (ne_policy E) \<le> 20 \<or> (\<exists>msg r v. ReadMessage (pp_MessageStart (ne_policy E)) bs = Inr (msg, r) \<and>
      msg_Command msg = ''version'' \<and> parseVersionPayload (msg_Payload msg) = Some v \<and>
      pp_enforceChainID (ne_policy E) \<and> vm_ChainID v \<noteq> pp_chainID (ne_policy E))) \<and>
    (\<forall>t remote ip port dialed. banHost remote = banHost (pr_remote (cn_peer c)) \<longrightarrow> t \<le> now + banTime (ne_policy E) \<longrightarrow>
      nd_peers (openConn E t remote ip port dialed (receive E now i bs n)) = nd_peers (receive E now i bs n) \<and>
      nd_sent (openConn E t remote ip port dialed (receive E now i bs n)) = nd_sent (receive E now i bs n))"
proof -
  have "conns_ok (ne_policy E) n" using node_run_ok(2) [OF assms(1-3)] .
  from receive_net [OF this, of now i bs] assms(5) have reason: "ban_reason E bs" by blast
  have b: "nd_bans (receive E now i bs n) = banPeer (pr_remote (cn_peer c)) (banTime (ne_policy E)) now (nd_bans n)"
    using receive_only [of E now i n bs] assms(4,5) by (auto simp: banned_only_def)
  show ?thesis using reason b banned_refused [OF b] unfolding ban_reason_def by blast
qed

theorem ban_needs_reason_witness:
  "nd_peers (accept nodeEnv0 (now0 + minute) ''1.2.3.4:77'' [1, 2, 3, 4] 77
      (receive nodeEnv0 now0 0 (frame0 ''version'' other_version) opened0)) =
    nd_peers (receive nodeEnv0 now0 0 (frame0 ''version'' other_version) opened0)"
proof -
  let ?m = "receive nodeEnv0 now0 0 (frame0 ''version'' other_version) opened0"
  obtain b where c: "fmlookup (nd_peers opened0) 0 = Some (fresh0\<lparr>cn_peer := peer0\<lparr>pr_bytesSent := b\<rparr>\<rparr>)"
    "nd_bans opened0 = fmempty" using opened0_conn by blast
  have "nd_bans ?m \<noteq> nd_bans opened0" using other_banned c(2) by force
  note ban_needs_reason [OF opened0_reached orders0_ok txs1_ok c(1) this]
  moreover have "banHost ''1.2.3.4:77'' = ''1.2.3.4''" by code_simp
  moreover have "now0 + minute \<le> now0 + banTime policy0" by (simp add: banTime_def minute_def second_def)
  ultimately have "nd_peers (openConn nodeEnv0 (now0 + minute) ''1.2.3.4:77'' [1, 2, 3, 4] 77 None ?m) = nd_peers ?m"
    by simp
  then show ?thesis by (simp add: accept_def)
qed

text \<open>
  C14. Nothing passes the handshake. Until a connection has taken both a version and a verack
  message, whatever arrives on it leaves the chain, the pool, the outstanding block requests,
  the missing parents and the tasks as they were; a readable message other than \<open>version\<close>,
  \<open>verack\<close>, \<open>ping\<close> and \<open>pong\<close> ends the connection.
\<close>

theorem handshake_gate:
  assumes "fmlookup (nd_peers n) i = Some c" "\<not> (cn_gotVersion c \<and> cn_gotVerAck c)"
  shows "nd_chain (receive E now i bs n) = nd_chain n \<and> nd_pool (receive E now i bs n) = nd_pool n \<and>
    nd_getdata (receive E now i bs n) = nd_getdata n \<and> nd_missing (receive E now i bs n) = nd_missing n \<and>
    nd_tasks (receive E now i bs n) = nd_tasks n \<and>
    (\<forall>msg r. ReadMessage (pp_MessageStart (ne_policy E)) bs = Inr (msg, r) \<longrightarrow>
      msg_Command msg \<notin> {''version'', ''verack'', ''ping'', ''pong''} \<longrightarrow> fmlookup (nd_peers (receive E now i bs n)) i = None)"
proof -
  have gone: "fmlookup (nd_peers (unregisterPeer i k)) i = None" for k
    by (auto simp: unregisterPeer_def updAddr_def Let_def split: option.split)
  have "fmlookup (nd_peers (receive E now i bs n)) i = None"
    if "ReadMessage (pp_MessageStart (ne_policy E)) bs = Inr (msg, r)"
      "msg_Command msg \<notin> {''version'', ''verack'', ''ping'', ''pong''}" for msg r
    using assms that gone by (auto simp: receive_def handshakeCommand_def Let_def split: prod.split)
  then show ?thesis using gate [OF assms] by (simp add: data_same_def)
qed

theorem handshake_gate_witness:
  "fmlookup (nd_peers (receive nodeEnv0 now0 0 (frame0 ''getdata'' []) (node0 fresh0))) 0 = None"
  using handshake_gate [of "node0 fresh0" 0 fresh0 nodeEnv0 now0 "frame0 ''getdata'' []"]
    frame0_read [of "''getdata''" "[]"] by (simp add: fresh0_def)

section \<open>Missing parents\<close>

text \<open>
  C16. An orphan's parent is asked for. When a block from an open connection is kept as an
  orphan and its parent was not asked for within two minutes, the sender gets one \<open>getdata\<close> for
  exactly that parent and nothing else is sent, a task to ask others is queued, and the time
  is noted.
\<close>

theorem orphan_parent_requested:
  assumes "ReadBlock payload = Inr (block, rest)"
    "ProcessBlockWithResult (ne_chain E) (chainNow now) block (nd_chain n) = ((None, r), ch)" "br_Status r = StatusOrphan"
    "case fmlookup (nd_missing n) (hash_String (hd_PrevBlock (bk_Header block))) of None \<Rightarrow> True
      | Some t \<Rightarrow> 2 * minute \<le> sub_time now t"
    "open_conn n i" "\<forall>k. ne_write E k"
  shows "\<exists>inv m. handleBlock E now i payload n = (Continue, m) \<and> InvPayload [blockInv (hd_PrevBlock (bk_Header block))] = Inr inv \<and>
    nd_sent m = nd_sent n @ [(i, ''getdata'', inv)] \<and>
    nd_tasks m = nd_tasks n @ [(hash_String (hd_PrevBlock (bk_Header block)), inv, i)] \<and>
    fmlookup (nd_missing m) (hash_String (hd_PrevBlock (bk_Header block))) = Some now"
  by (rule orphan_handled [OF assms(1-3) assms(4) [folded missingParentTTL_def] assms(5,6)])

theorem orphan_parent_requested_witness:
  "\<exists>inv m. handleBlock nodeEnv0 now0 0 (block_Serialize orphan0) (node0 greeted0) = (Continue, m) \<and>
    InvPayload [blockInv (nonce_hash 9)] = Inr inv \<and> nd_sent m = [(0, ''getdata'', inv)]"
proof -
  obtain r d where p: "ProcessBlockWithResult (ne_chain nodeEnv0) (chainNow now0) orphan0 (nd_chain (node0 greeted0)) = ((None, r), d)"
    "br_Status r = StatusOrphan" using orphan0_processed [of "chainNow now0"] by auto
  have rb: "ReadBlock (block_Serialize orphan0) = Inr (orphan0, [])" using block.dec_enc [OF orphan0_ok, of "[]"] by simp
  have o: "open_conn (node0 greeted0) 0" by (simp add: open_conn_def greeted0_def)
  have h: "hd_PrevBlock (bk_Header orphan0) = nonce_hash 9" by (simp add: orphan0_def)
  from orphan_parent_requested [OF rb p _ o] show ?thesis unfolding h by simp blast
qed

text \<open>
  A missing parent is asked for once in two minutes: whatever else was claimed in between,
  and although old claims are forgotten when there are many, a second claim less than two
  minutes after a successful one fails and changes nothing.
\<close>

theorem parent_claimed_once:
  assumes "tryClaimMissingParent h t m = (Some payload, m')"
    "\<forall>(h', u) \<in> set cs. t \<le> u \<and> u - t < 2 * minute" "t \<le> u" "u - t < 2 * minute"
  shows "tryClaimMissingParent h u (claims cs m') = (None, claims cs m')"
  using claimed_once [OF assms(1)] assms(2-4) by (simp add: missingParentTTL_def)

theorem parent_claimed_once_witness:
  "\<exists>m. fst (tryClaimMissingParent (hash_String (nonce_hash 1)) 5 fmempty) \<noteq> None \<and>
    m = snd (tryClaimMissingParent (hash_String (nonce_hash 1)) 5 fmempty) \<and>
    fst (tryClaimMissingParent (hash_String (nonce_hash 1)) 7 (claims [(hash_String (nonce_hash 2), 6)] m)) = None"
proof -
  obtain inv where "InvPayload [blockInv (nonce_hash 1)] = Inr inv"
    using inv_frames [of "blockInv (nonce_hash 1)"] nonce_hash_ok [of 1] by (auto simp: blockInv_def hash_ok_def HashSize_def)
  then obtain m where c: "tryClaimMissingParent (hash_String (nonce_hash 1)) 5 fmempty = (Some inv, m)"
    by (simp add: tryClaimMissingParent_def hash_FromString_String blockInv_def Let_def)
  from parent_claimed_once [OF this, of "[(hash_String (nonce_hash 2), 6)]" 7] c show ?thesis
    by (simp add: minute_def second_def)
qed

section \<open>Inventory and announcements\<close>

text \<open>
  C17. Only what the node has is served. A \<open>getdata\<close> is answered by the stored blocks and pool
  transactions among the first 256 entries of its list, in that order and to its sender; what
  is not there is skipped, and only a failing write cuts the answer short.
\<close>

theorem inventory_served:
  assumes "serveInventory E i invs n = (ok, m)"
  shows "\<exists>rest. nd_sent n @ map (Pair i) (List.map_filter (answer n) (take 256 invs)) = nd_sent m @ rest \<and>
    (ok \<longrightarrow> rest = [])"
  using serveInventory_sent [OF assms] by (simp add: answers_def)

theorem inventory_served_witness:
  "nd_sent (snd (serveInventory nodeEnv0 0 [blockInv (nonce_hash 9), blockInv (nonce_hash 1)] (node0 greeted0))) =
    [(0, ''block'', block_Serialize block0)]"
proof -
  let ?v = "[blockInv (nonce_hash 9), blockInv (nonce_hash 1)]"
  obtain e where l: "LoadBlock (hash_String (nonce_hash 9)) (ch_store chain0) = Inl e"
    using chain0_only [of "hash_String (nonce_hash 9)"] by (auto simp: hash_text_inj)
  have b: "LoadBlock (hash_String (nonce_hash 1)) (ch_store chain0) = Inr (block0, index0 block0)"
    using firstChain_simps(13) [OF first_blocks_ok(1)] by (simp add: chain0_def)
  have a: "List.map_filter (answer (node0 greeted0)) (take 256 ?v) = [(''block'', block_Serialize block0)]"
    by (simp add: answer_def blockInv_def l b List.map_filter_simps)
  have "length (block_Serialize block0) \<le> 1000000"
    unfolding block0_eq(2) by (rule sample_block_size) (simp_all add: sample_tx_size zero_hash_ok)
  then have "length (block_Serialize block0) \<le> 33554432" by simp
  then have "fst (serveInventory nodeEnv0 0 ?v (node0 greeted0))"
    by (simp add: serveInventory_def limitInv_def maxServeInvItems_def blockInv_def l b writePeerMessage_def greeted0_def
        WriteMessage_def unat_MaxMessagePayload)
  moreover have "serveInventory nodeEnv0 0 ?v (node0 greeted0) =
      (fst (serveInventory nodeEnv0 0 ?v (node0 greeted0)), snd (serveInventory nodeEnv0 0 ?v (node0 greeted0)))" by simp
  note inventory_served [OF this]
  ultimately show ?thesis unfolding a by simp
qed

text \<open>
  Only what the node lacks is asked for. An inventory is answered by at most one
  \<open>getheaders\<close> and one \<open>getdata\<close>, to its sender; the \<open>getdata\<close> lists the first 1000 blocks and
  transactions of the inventory, in its order, that are neither stored nor in the pool, and there
  is none when everything is known.
\<close>

theorem unknown_requested:
  assumes "requestUnknownBlocks E now i invs n = (ok, m)"
  shows "\<exists>req get. nd_sent m = nd_sent n @ req @ get \<and> length req \<le> 1 \<and>
    (\<forall>r\<in>set req. fst r = i \<and> fst (snd r) = ''getheaders'') \<and>
    (ok \<longrightarrow> (let wanted = take 1000 (List.filter (unknown n) invs) in
       if wanted = [] then get = [] else \<exists>p. InvPayload wanted = Inr p \<and> get = [(i, ''getdata'', p)])) \<and> (\<not> ok \<longrightarrow> get = [])"
  by (rule requestUnknown_sent [OF assms])

theorem unknown_requested_witness:
  "\<exists>req. nd_sent (snd (requestUnknownBlocks nodeEnv0 now0 0 [blockInv (nonce_hash 1)] (node0 greeted0))) = req \<and> length req \<le> 1"
proof -
  have b: "LoadBlock (hash_String (nonce_hash 1)) (ch_store chain0) = Inr (block0, index0 block0)"
    using firstChain_simps(13) [OF first_blocks_ok(1)] by (simp add: chain0_def)
  have u: "List.filter (unknown (node0 greeted0)) [blockInv (nonce_hash 1)] = []"
    by (simp add: unknown_def blockInv_def HasBlock_def b)
  have "requestUnknownBlocks nodeEnv0 now0 0 [blockInv (nonce_hash 1)] (node0 greeted0) =
    (fst (requestUnknownBlocks nodeEnv0 now0 0 [blockInv (nonce_hash 1)] (node0 greeted0)),
     snd (requestUnknownBlocks nodeEnv0 now0 0 [blockInv (nonce_hash 1)] (node0 greeted0)))" by simp
  from unknown_requested [OF this] show ?thesis unfolding u by (auto simp: Let_def)
qed

text \<open>
  C18. News reaches everyone else. While writes succeed, an announced transaction goes as one
  \<open>inv\<close> to every open connection but the excepted one, and so does a stored block, as its header
  to those who asked for headers; a transaction message that the pool admits is announced this
  way to all but its sender.
\<close>

theorem news_reaches_others:
  assumes "\<forall>k. ne_write E k" "peer_order_ok (ne_peerOrd E)" "length h = 32"
  shows "(\<exists>p. InvPayload [txInv h] = Inr p \<and>
      nd_sent (announceTxToPeersExcept E h skip n) = nd_sent n @ map (\<lambda>j. (j, ''inv'', p)) (listeners E skip n)) \<and>
    (\<forall>block idx. LoadBlock (hash_String h) (ch_store (nd_chain n)) = Inr (block, idx) \<longrightarrow>
      nd_sent (announceBlockToPeersExcept E h skip n) = nd_sent n @
        List.map_filter (\<lambda>j. map_option (\<lambda>c. (j, announcement h block c)) (fmlookup (nd_peers n) j)) (listeners E skip n)) \<and>
    (\<forall>i payload p tx r entry q. nd_pool n = Some p \<longrightarrow> ReadTx payload = Inr (tx, r) \<longrightarrow>
      Add (en_crypto (ne_chain E)) (ne_ord E) (nd_chain n) tx p = (Inr entry, q) \<longrightarrow>
      (\<exists>inv. InvPayload [txInv (TxHash tx)] = Inr inv \<and>
        nd_sent (snd (handleTx E i payload n)) = nd_sent n @ map (\<lambda>j. (j, ''inv'', inv)) (listeners E (Some i) n))) \<and>
    set (listeners E skip n) = {j. open_conn n j \<and> skip \<noteq> Some j} \<and> distinct (listeners E skip n)"
  using announceTx_sent [OF assms] announceBlock_sent [OF assms] handleTx_sent [OF assms(1,2)] listeners_set [OF assms(2), of skip n]
  by blast

theorem news_reaches_others_witness:
  "nd_sent (announceBlockToPeersExcept nodeEnv0 (nonce_hash 1) None (node0 greeted0)) =
    [(0, ''inv'', projr (InvPayload [blockInv (nonce_hash 1)]))] \<and>
   nd_sent (announceBlockToPeersExcept nodeEnv0 (nonce_hash 1) (Some 0) (node0 greeted0)) = []"
proof -
  have b: "LoadBlock (hash_String (nonce_hash 1)) (ch_store (nd_chain (node0 greeted0))) = Inr (block0, index0 block0)"
    using firstChain_simps(13) [OF first_blocks_ok(1)] by (simp add: chain0_def)
  have o: "peer_order_ok (ne_peerOrd nodeEnv0)" using orders0_ok by (simp add: orders_ok_def)
  have l: "listeners nodeEnv0 None (node0 greeted0) = [0]" "listeners nodeEnv0 (Some 0) (node0 greeted0) = []"
    by (simp_all add: listeners_def open_conn_def greeted0_def sorted_list_of_fset.rep_eq)
  have w: "pr_wantHeaders (cn_peer greeted0) = False" by (simp add: greeted0_def)
  have h: "length (nonce_hash 1) = 32" using nonce_hash_ok [of 1] by (simp add: hash_ok_def HashSize_def)
  show ?thesis
    using news_reaches_others [OF _ o h, of None "node0 greeted0"] news_reaches_others [OF _ o h, of "Some 0" "node0 greeted0"] b
    by (simp add: l List.map_filter_simps announcement_def w)
qed

section \<open>Limits\<close>

text \<open>
  C19. At most twice the limit passes. Of the messages of one peer that arrive within one window
  of time, whenever it begins and whatever came before, no more than twice the limit are let
  through; twice the limit can be reached.
\<close>

theorem rate_bounded:
  assumes "0 < pp_peerRateLimit pol" "0 \<le> pr_rateWindowCount p" "0 < t0"
    "\<forall>(t, c) \<in> set ms. t0 \<le> t \<and> t < t0 + windowOf (pp_peerRateWindow pol)"
  shows "int (allowedCount pol ms (g, p)) \<le> 2 * pp_peerRateLimit pol"
proof -
  have "allowedCount pol ms (g, p) \<le> nat (pp_peerRateLimit pol - pr_rateWindowCount p) + nat (pp_peerRateLimit pol)"
    by (rule allowed_window [OF assms(1,3,4)])
  then show ?thesis using assms(1,2) by linarith
qed

theorem rate_bounded_witness:
  "allowedCount (policy0\<lparr>pp_peerRateLimit := 2\<rparr>) [(100 * second, ''ping''), (101 * second, ''ping''), (109 * second, ''ping''), (109 * second, ''ping'')]
      (\<lparr>rw_start = 0, rw_count = 0\<rparr>, peer0\<lparr>pr_rateWindowStart := 95 * second\<rparr>) = 4 \<and>
   int (allowedCount (policy0\<lparr>pp_peerRateLimit := 2\<rparr>) [(100 * second, ''ping'')] (\<lparr>rw_start = 0, rw_count = 0\<rparr>, peer0)) \<le> 4"
proof
  show "allowedCount (policy0\<lparr>pp_peerRateLimit := 2\<rparr>) [(100 * second, ''ping''), (101 * second, ''ping''), (109 * second, ''ping''), (109 * second, ''ping'')]
      (\<lparr>rw_start = 0, rw_count = 0\<rparr>, peer0\<lparr>pr_rateWindowStart := 95 * second\<rparr>) = 4"
    by (simp add: allowPeerMessage_def windowOf_def tick_def sub_time_def second_def Let_def)
  show "int (allowedCount (policy0\<lparr>pp_peerRateLimit := 2\<rparr>) [(100 * second, ''ping'')] (\<lparr>rw_start = 0, rw_count = 0\<rparr>, peer0)) \<le> 4"
    using rate_bounded [of "policy0\<lparr>pp_peerRateLimit := 2\<rparr>" peer0 "100 * second" "[(100 * second, ''ping'')]"]
    by (simp add: second_def windowOf_def)
qed

text \<open>
  The address book keeps 2048 addresses. Remembering an address keeps to the limit,
  always keeps the address itself, reports whether it is new, and forgets at most one other:
  one that no remaining address but the new one was seen before, and only when the book is full.
\<close>

theorem address_book_bounded:
  assumes "order_ok ord" "fcard (fmdom m) \<le> 2048" "[] |\<notin>| fmdom m" "a \<noteq> []"
    "rememberAddress ord a source now m = (fresh, m')"
  shows "fcard (fmdom m') \<le> 2048 \<and> a |\<in>| fmdom m' \<and> (fresh \<longleftrightarrow> a |\<notin>| fmdom m) \<and> fmdom m' |\<subseteq>| finsert a (fmdom m) \<and>
    (\<forall>b. b |\<in>| fmdom m \<longrightarrow> b |\<notin>| fmdom m' \<longrightarrow> fcard (fmdom m) = 2048 \<and> fmdom m' = finsert a (fmdom m |-| {|b|}) \<and>
      (\<forall>k. k |\<in>| fmdom m' \<longrightarrow> k \<noteq> a \<longrightarrow> ka_LastSeen (the (fmlookup m b)) \<le> ka_LastSeen (the (fmlookup m k))))"
  using remembered_bound [OF assms(1) _ assms(3,4,5)] assms(2) unfolding maxKnownPeerAddresses_def by blast

theorem address_book_bounded_witness:
  "fcard (fmdom (snd (rememberAddress listed ''1.2.3.4:5'' ''bootstrap'' 7 fmempty))) \<le> 2048"
  using address_book_bounded [OF listed_ok _ _ _ prod.collapse [symmetric], of fmempty "''1.2.3.4:5''"] by (simp add: fcard_fempty)

section \<open>The version message\<close>

text \<open>
  C20. A node's version message is understood. Parsing it gives back the protocol version, the
  user agent and the node's height, and the node's chain id iff its policy enforces chain ids;
  otherwise none, which an enforcing peer refuses.
\<close>

theorem version_understood:
  assumes "length (pp_chainID (ne_policy E)) \<le> 256"
  shows "parseVersionPayload (versionPayload E now ip port nonce n) =
    Some \<lparr>vm_Version = 70015, vm_SubVer = ''/Legacy-GO:1.0.20/'', vm_Height = localHeight n,
      vm_ChainID = (if pp_enforceChainID (ne_policy E) then pp_chainID (ne_policy E) else [])\<rparr>"
  using parse_version [OF assms] by (simp add: protocolVersion_def)

theorem version_understood_witness:
  "map_option vm_ChainID (parseVersionPayload (versionPayload nodeEnv0 now0 [1, 2, 3, 4] 5 0 (newNode chain0 None))) = Some ''legacy''"
  by (subst version_understood) simp_all

end
