(* ===== verification/Yespower.thy ===== *)
theory Yespower
  imports WireTx "HOL-Library.Monad_Syntax"
begin

text \<open>
  The pure Go proof-of-work hash (\<^verbatim>\<open>internal/pow/yespower_pure.go\<close> and
  \<^verbatim>\<open>yespower_stub.go\<close>). Memory is explicit: a block is its 64 bytes, the two large
  slices \<open>v\<close> and \<open>xy\<close> and the three parts of the S-box memory are lists of blocks,
  and every access is checked, so that \<open>None\<close> is the panic Go raises for an index out of
  range (and, for the one loop whose end is not evident, a loop that does not end).
\<close>

section \<open>Checked access\<close>

type_synonym ypBlock = bytes

definition zeroBlock :: ypBlock where
  "zeroBlock = replicate 64 0"

text \<open>
  \<open>binary.LittleEndian.Uint32(b[off:])\<close>, \<open>Uint64\<close> and the two \<open>Put\<close> functions.
\<close>

definition getLE :: "nat \<Rightarrow> bytes \<Rightarrow> nat \<Rightarrow> 'a::len word option" where
  "getLE n b off = (if off + n \<le> length b then Some (le_word (take n (drop off b))) else None)"

definition putLE :: "nat \<Rightarrow> bytes \<Rightarrow> nat \<Rightarrow> 'a::len word \<Rightarrow> bytes option" where
  "putLE n b off v = (if off + n \<le> length b then Some (take off b @ le_bytes n v @ drop (off + n) b) else None)"

definition getW :: "ypBlock \<Rightarrow> nat \<Rightarrow> u32 option" where
  "getW b i = getLE 4 b (i * 4)"

definition setW :: "ypBlock \<Rightarrow> nat \<Rightarrow> u32 \<Rightarrow> ypBlock option" where
  "setW b i v = putLE 4 b (i * 4) v"

definition getD :: "ypBlock \<Rightarrow> nat \<Rightarrow> u64 option" where
  "getD b i = getLE 8 b (i * 8)"

definition setD :: "ypBlock \<Rightarrow> nat \<Rightarrow> u64 \<Rightarrow> ypBlock option" where
  "setD b i v = putLE 8 b (i * 8) v"

definition getDAt :: "ypBlock list \<Rightarrow> nat \<Rightarrow> u64 option" where
  "getDAt blocks off =
     (if off div 64 < length blocks then getLE 8 (blocks ! (off div 64)) (off mod 64) else None)"

definition setDAt :: "ypBlock list \<Rightarrow> nat \<Rightarrow> u64 \<Rightarrow> ypBlock list option" where
  "setDAt blocks off v =
     (if off div 64 < length blocks
      then do { b \<leftarrow> putLE 8 (blocks ! (off div 64)) (off mod 64) v; Some (blocks[off div 64 := b]) }
      else None)"

text \<open>A \<open>for\<close> loop over a known range, threading the variables its body assigns.\<close>

fun foldO :: "('a \<Rightarrow> 's \<Rightarrow> 's option) \<Rightarrow> 'a list \<Rightarrow> 's \<Rightarrow> 's option" where
  "foldO f [] s = Some s"
| "foldO f (x # xs) s = do { s' \<leftarrow> f x s; foldO f xs s' }"

definition rotl32 :: "u32 \<Rightarrow> nat \<Rightarrow> u32" where
  "rotl32 x n = push_bit n x OR drop_bit (32 - n) x"

definition xorBlock :: "ypBlock \<Rightarrow> ypBlock \<Rightarrow> ypBlock option" where
  "xorBlock a b = foldO (\<lambda>i a. do { x \<leftarrow> getD a i; y \<leftarrow> getD b i; setD a i (x XOR y) }) [0..<8] a"

definition xorBlocks :: "ypBlock \<Rightarrow> ypBlock \<Rightarrow> ypBlock option" where
  "xorBlocks a b =
     foldO (\<lambda>i out. do { x \<leftarrow> getD a i; y \<leftarrow> getD b i; setD out i (x XOR y) }) [0..<8] zeroBlock"

section \<open>Salsa20\<close>

definition combine :: "ypBlock \<Rightarrow> nat \<times> nat \<times> nat \<Rightarrow> ypBlock \<Rightarrow> ypBlock option" where
  "combine inp c out =
     (case c of (o', i1, i2) \<Rightarrow>
       do { lo \<leftarrow> getW inp (i1 * 2); hi \<leftarrow> getW inp (i2 * 2 + 1);
            setD out o' (ucast lo OR push_bit 32 (ucast hi)) })"

definition salsaShuffle :: "ypBlock \<Rightarrow> ypBlock \<Rightarrow> ypBlock option" where
  "salsaShuffle inp out =
     foldO (combine inp)
       [(0, 0, 2), (1, 5, 7), (2, 2, 4), (3, 7, 1), (4, 4, 6), (5, 1, 3), (6, 6, 0), (7, 3, 5)] out"

definition uncombine :: "ypBlock \<Rightarrow> nat \<times> nat \<times> nat \<Rightarrow> ypBlock \<Rightarrow> ypBlock option" where
  "uncombine inp c out =
     (case c of (o', i1, i2) \<Rightarrow>
       do { d1 \<leftarrow> getD inp i1; out \<leftarrow> setW out (o' * 2) (ucast (d1 AND 0xffffffff));
            d2 \<leftarrow> getD inp i2; setW out (o' * 2 + 1) (ucast (drop_bit 32 d2 AND 0xffffffff)) })"

definition salsaUnshuffle :: "ypBlock \<Rightarrow> ypBlock \<Rightarrow> ypBlock option" where
  "salsaUnshuffle inp out =
     foldO (uncombine inp)
       [(0, 0, 6), (1, 5, 3), (2, 2, 0), (3, 7, 5), (4, 4, 2), (5, 1, 7), (6, 6, 4), (7, 3, 1)] out"

text \<open>One line of the quarter round: \<open>x[o] ^= rotl(x[p] + x[q], k)\<close>.\<close>

definition qrStep :: "nat \<times> nat \<times> nat \<times> nat \<Rightarrow> ypBlock \<Rightarrow> ypBlock option" where
  "qrStep s x =
     (case s of (o', p, q, k) \<Rightarrow>
       do { w \<leftarrow> getW x o'; u \<leftarrow> getW x p; v \<leftarrow> getW x q; setW x o' (w XOR rotl32 (u + v) k) })"

definition qr :: "nat \<times> nat \<times> nat \<times> nat \<Rightarrow> ypBlock \<Rightarrow> ypBlock option" where
  "qr idx x =
     (case idx of (a, b, c, d) \<Rightarrow>
       foldO qrStep [(b, a, d, 7), (c, b, a, 9), (d, c, b, 13), (a, d, c, 18)] x)"

definition doubleRound :: "ypBlock \<Rightarrow> ypBlock option" where
  "doubleRound x =
     foldO qr [(0, 4, 8, 12), (5, 9, 13, 1), (10, 14, 2, 6), (15, 3, 7, 11),
               (0, 1, 2, 3), (5, 6, 7, 4), (10, 11, 8, 9), (15, 12, 13, 14)] x"

text \<open>
  \<open>salsa20(b, bout, doubleRounds)\<close> assigns both of its blocks; the result is the pair
  \<open>(b, bout)\<close>.
\<close>

definition salsa20 :: "ypBlock \<Rightarrow> ypBlock \<Rightarrow> u32 \<Rightarrow> (ypBlock \<times> ypBlock) option" where
  "salsa20 b bout doubleRounds =
     do { x \<leftarrow> salsaUnshuffle b zeroBlock;
          x \<leftarrow> foldO (\<lambda>_. doubleRound) [0..<unat doubleRounds] x;
          bout \<leftarrow> salsaShuffle x bout;
          foldO (\<lambda>i (b, bout).
              do { u \<leftarrow> getW bout i; w \<leftarrow> getW b i;
                   bout \<leftarrow> setW bout i (u + w); b \<leftarrow> setW b i (u + w);
                   Some (b, bout) })
            [0..<16] (b, bout) }"

section \<open>pwxform\<close>

definition sWidth10 :: nat where "sWidth10 = 11"
definition pwxSimple :: nat where "pwxSimple = 2"
definition sBytes1 :: nat where "sBytes1 = 2 ^ sWidth10 * pwxSimple * 8"
definition sMask :: nat where "sMask = (2 ^ sWidth10 - 1) * pwxSimple * 8"
definition sMask2 :: u64 where "sMask2 = push_bit 32 (of_nat sMask) OR of_nat sMask"

text \<open>
  \<open>ypCtx\<close>: the three parts of the S-box memory. They are disjoint slices of
  \<open>mem\<close>, which nothing reads through the context, so each is a list of its own;
  rotating the slice headers rotates the lists.
\<close>

record ypCtx =
  s0 :: "ypBlock list"
  s1 :: "ypBlock list"
  s2 :: "ypBlock list"
  cw :: nat

text \<open>The slice \<open>pwxPair\<close> writes to: \<open>nil\<close>, \<open>ctx.s0\<close> or \<open>ctx.s1\<close>.\<close>

datatype writeTo = NoWrite | ToS0 | ToS1

definition writePair :: "writeTo \<Rightarrow> u64 \<Rightarrow> u64 \<Rightarrow> ypCtx \<Rightarrow> ypCtx option" where
  "writePair wr x0 x1 ctx =
     (case wr of
       NoWrite \<Rightarrow> Some ctx
     | ToS0 \<Rightarrow> do { s \<leftarrow> setDAt (s0 ctx) (cw ctx) x0; s \<leftarrow> setDAt s (cw ctx + 8) x1; Some (ctx\<lparr>s0 := s\<rparr>) }
     | ToS1 \<Rightarrow> do { s \<leftarrow> setDAt (s1 ctx) (cw ctx) x0; s \<leftarrow> setDAt s (cw ctx + 8) x1; Some (ctx\<lparr>s1 := s\<rparr>) })"

definition pwxPair :: "nat \<Rightarrow> writeTo \<Rightarrow> ypBlock \<times> ypCtx \<Rightarrow> (ypBlock \<times> ypCtx) option" where
  "pwxPair off wr st =
     (case st of (x, ctx) \<Rightarrow>
       do { x0 \<leftarrow> getD x off;
            x1 \<leftarrow> getD x (off + 1);
            let idx = x0 AND sMask2;
            let lo = unat (ucast (idx AND 0xffffffff) :: u32);
            let hi = unat (ucast (drop_bit 32 idx AND 0xffffffff) :: u32);
            p00 \<leftarrow> getDAt (s0 ctx) lo;
            p01 \<leftarrow> getDAt (s0 ctx) (lo + 8);
            p10 \<leftarrow> getDAt (s1 ctx) hi;
            p11 \<leftarrow> getDAt (s1 ctx) (hi + 8);
            let x0 = (drop_bit 32 x0 * ucast (ucast (x0 AND 0xffffffff) :: u32) + p00) XOR p10;
            let x1 = (drop_bit 32 x1 * ucast (ucast (x1 AND 0xffffffff) :: u32) + p01) XOR p11;
            x \<leftarrow> setD x off x0;
            x \<leftarrow> setD x (off + 1) x1;
            ctx \<leftarrow> writePair wr x0 x1 ctx;
            Some (x, ctx) })"

definition plainRound :: "ypBlock \<times> ypCtx \<Rightarrow> (ypBlock \<times> ypCtx) option" where
  "plainRound st = foldO (\<lambda>i. pwxPair (i * 2) NoWrite) [0..<4] st"

definition advance :: "ypBlock \<times> ypCtx \<Rightarrow> ypBlock \<times> ypCtx" where
  "advance st = (case st of (x, ctx) \<Rightarrow> (x, ctx\<lparr>cw := cw ctx + 16\<rparr>))"

definition pwxRoundWrite4 :: "ypBlock \<times> ypCtx \<Rightarrow> (ypBlock \<times> ypCtx) option" where
  "pwxRoundWrite4 st =
     do { st \<leftarrow> pwxPair 0 ToS0 st; st \<leftarrow> pwxPair 2 ToS1 st; let st = advance st;
          st \<leftarrow> pwxPair 4 ToS0 st; st \<leftarrow> pwxPair 6 ToS1 st; Some (advance st) }"

definition pwxRoundWrite2 :: "ypBlock \<times> ypCtx \<Rightarrow> (ypBlock \<times> ypCtx) option" where
  "pwxRoundWrite2 st =
     do { st \<leftarrow> pwxPair 0 ToS0 st; st \<leftarrow> pwxPair 2 ToS1 st; let st = advance st;
          st \<leftarrow> pwxPair 4 NoWrite st; pwxPair 6 NoWrite st }"

text \<open>The three writing rounds, the mask and the rotation of the slices.\<close>

definition pwxWrites :: "ypBlock \<times> ypCtx \<Rightarrow> (ypBlock \<times> ypCtx) option" where
  "pwxWrites st =
     do { st \<leftarrow> pwxRoundWrite4 st; st \<leftarrow> pwxRoundWrite2 st; (x, ctx) \<leftarrow> pwxRoundWrite2 st;
          let ctx = ctx\<lparr>cw := cw ctx AND sMask\<rparr>;
          Some (x, ctx\<lparr>s0 := s2 ctx, s1 := s0 ctx, s2 := s1 ctx\<rparr>) }"

definition pwxform :: "ypBlock \<times> ypCtx \<Rightarrow> (ypBlock \<times> ypCtx) option" where
  "pwxform st =
     do { st \<leftarrow> plainRound st; st \<leftarrow> plainRound st; st \<leftarrow> plainRound st; pwxWrites st }"

end
