(* ===== verification/YespowerMix.thy ===== *)
theory YespowerMix
  imports Yespower
begin

text \<open>
  The mixing of \<^verbatim>\<open>internal/pow/yespower_pure.go\<close>: the \<open>blockmix\<close> family, which
  works in place on the slices, the two phases \<open>smix1\<close> and \<open>smix2\<close>, and the hash.
\<close>

section \<open>The slices\<close>

record ypMem =
  memV :: "ypBlock list"
  memXY :: "ypBlock list"

datatype ypArr = AV | AXY

type_synonym ypState = "ypMem \<times> ypCtx option"

definition sliceOf :: "ypMem \<Rightarrow> ypArr \<Rightarrow> ypBlock list" where
  "sliceOf m a = (case a of AV \<Rightarrow> memV m | AXY \<Rightarrow> memXY m)"

definition setSlice :: "ypMem \<Rightarrow> ypArr \<Rightarrow> ypBlock list \<Rightarrow> ypMem" where
  "setSlice m a bs = (case a of AV \<Rightarrow> m\<lparr>memV := bs\<rparr> | AXY \<Rightarrow> m\<lparr>memXY := bs\<rparr>)"

definition mget :: "ypMem \<Rightarrow> ypArr \<Rightarrow> nat \<Rightarrow> ypBlock option" where
  "mget m a i = (if i < length (sliceOf m a) then Some (sliceOf m a ! i) else None)"

definition mput :: "ypMem \<Rightarrow> ypArr \<Rightarrow> nat \<Rightarrow> ypBlock \<Rightarrow> ypMem option" where
  "mput m a i b = (if i < length (sliceOf m a) then Some (setSlice m a ((sliceOf m a)[i := b])) else None)"

section \<open>blockmix\<close>

text \<open>\<open>salsa20(&x, &bout[idx], 1)\<close>: the block and the memory afterwards.\<close>

definition salsaInto :: "ypBlock \<Rightarrow> ypArr \<Rightarrow> nat \<Rightarrow> ypMem \<Rightarrow> (ypBlock \<times> ypMem) option" where
  "salsaInto x a i m =
     do { old \<leftarrow> mget m a i; (x, out) \<leftarrow> salsa20 x old 1; m \<leftarrow> mput m a i out; Some (x, m) }"

definition blockmixSalsa :: "ypArr \<Rightarrow> nat \<Rightarrow> ypArr \<Rightarrow> nat \<Rightarrow> ypMem \<Rightarrow> ypMem option" where
  "blockmixSalsa bin binIdx bout outIdx m =
     do { x \<leftarrow> mget m bin (binIdx + 1);
          b0 \<leftarrow> mget m bin binIdx; x \<leftarrow> xorBlock x b0;
          (x, m) \<leftarrow> salsaInto x bout outIdx m;
          b1 \<leftarrow> mget m bin (binIdx + 1); x \<leftarrow> xorBlock x b1;
          (x, m) \<leftarrow> salsaInto x bout (outIdx + 1) m;
          Some m }"

definition blockmixSalsaXor ::
  "ypArr \<Rightarrow> nat \<Rightarrow> ypArr \<Rightarrow> nat \<Rightarrow> ypArr \<Rightarrow> nat \<Rightarrow> ypMem \<Rightarrow> (u32 \<times> ypMem) option" where
  "blockmixSalsaXor bin1 idx1 bin2 idx2 bout outIdx m =
     do { c1 \<leftarrow> mget m bin1 (idx1 + 1); d1 \<leftarrow> mget m bin2 (idx2 + 1); x \<leftarrow> xorBlocks c1 d1;
          c0 \<leftarrow> mget m bin1 idx1; x \<leftarrow> xorBlock x c0;
          d0 \<leftarrow> mget m bin2 idx2; x \<leftarrow> xorBlock x d0;
          (x, m) \<leftarrow> salsaInto x bout outIdx m;
          c1 \<leftarrow> mget m bin1 (idx1 + 1); x \<leftarrow> xorBlock x c1;
          d1 \<leftarrow> mget m bin2 (idx2 + 1); x \<leftarrow> xorBlock x d1;
          (x, m) \<leftarrow> salsaInto x bout (outIdx + 1) m;
          j \<leftarrow> getW x 0;
          Some (j, m) }"

function blockmixLoop ::
  "ypArr \<Rightarrow> nat \<Rightarrow> ypArr \<Rightarrow> nat \<Rightarrow> nat \<Rightarrow> nat \<Rightarrow> ypBlock \<Rightarrow> ypMem \<Rightarrow> ypCtx \<Rightarrow> (ypMem \<times> ypCtx) option" where
  "blockmixLoop bin binIdx bout boutIdx rr i x m ctx =
     do { b \<leftarrow> mget m bin (binIdx + i);
          x \<leftarrow> xorBlock x b;
          (x, ctx) \<leftarrow> pwxform (x, ctx);
          if rr \<le> i then do { (x, m) \<leftarrow> salsaInto x bout (boutIdx + i) m; Some (m, ctx) }
          else do { m \<leftarrow> mput m bout (boutIdx + i) x;
                    blockmixLoop bin binIdx bout boutIdx rr (i + 1) x m ctx } }"
  by pat_completeness auto
termination by (relation "measure (\<lambda>(bin, binIdx, bout, boutIdx, rr, i, x, m, ctx). rr - i)") auto

declare blockmixLoop.simps [simp del]

definition blockmix :: "ypArr \<Rightarrow> nat \<Rightarrow> ypArr \<Rightarrow> nat \<Rightarrow> nat \<Rightarrow> ypState \<Rightarrow> ypState option" where
  "blockmix bin binIdx bout boutIdx r st =
     (case st of
       (m, None) \<Rightarrow> do { m \<leftarrow> blockmixSalsa bin binIdx bout boutIdx m; Some (m, None) }
     | (m, Some ctx) \<Rightarrow>
         do { let rr = r * 2 - 1;
              x \<leftarrow> mget m bin (binIdx + rr);
              (m, ctx) \<leftarrow> blockmixLoop bin binIdx bout boutIdx rr 0 x m ctx;
              Some (m, Some ctx) })"

function blockmixXorLoop ::
  "ypArr \<Rightarrow> nat \<Rightarrow> ypArr \<Rightarrow> nat \<Rightarrow> ypArr \<Rightarrow> nat \<Rightarrow> nat \<Rightarrow> nat \<Rightarrow> ypBlock \<Rightarrow> ypMem \<Rightarrow> ypCtx
     \<Rightarrow> (u32 \<times> ypMem \<times> ypCtx) option" where
  "blockmixXorLoop bin1 idx1 bin2 idx2 bout outIdx rr i x m ctx =
     do { c \<leftarrow> mget m bin1 (idx1 + i); x \<leftarrow> xorBlock x c;
          d \<leftarrow> mget m bin2 (idx2 + i); x \<leftarrow> xorBlock x d;
          (x, ctx) \<leftarrow> pwxform (x, ctx);
          m \<leftarrow> mput m bout (outIdx + i) x;
          c \<leftarrow> mget m bin1 (idx1 + i + 1); x \<leftarrow> xorBlock x c;
          d \<leftarrow> mget m bin2 (idx2 + i + 1); x \<leftarrow> xorBlock x d;
          (x, ctx) \<leftarrow> pwxform (x, ctx);
          if rr \<le> i
          then do { (x, m) \<leftarrow> salsaInto x bout (outIdx + (i + 1)) m;
                    j \<leftarrow> getW x 0; Some (j, m, ctx) }
          else do { m \<leftarrow> mput m bout (outIdx + i + 1) x;
                    blockmixXorLoop bin1 idx1 bin2 idx2 bout outIdx rr (i + 2) x m ctx } }"
  by pat_completeness auto
termination
  by (relation "measure (\<lambda>(bin1, idx1, bin2, idx2, bout, outIdx, rr, i, x, m, ctx). rr - i)") auto

declare blockmixXorLoop.simps [simp del]

definition blockmixXor ::
  "ypArr \<Rightarrow> nat \<Rightarrow> ypArr \<Rightarrow> nat \<Rightarrow> ypArr \<Rightarrow> nat \<Rightarrow> nat \<Rightarrow> ypState \<Rightarrow> (u32 \<times> ypState) option" where
  "blockmixXor bin1 idx1 bin2 idx2 bout outIdx r st =
     (case st of
       (m, None) \<Rightarrow> do { (j, m) \<leftarrow> blockmixSalsaXor bin1 idx1 bin2 idx2 bout outIdx m; Some (j, m, None) }
     | (m, Some ctx) \<Rightarrow>
         do { let rr = r * 2 - 1;
              c \<leftarrow> mget m bin1 (idx1 + rr); d \<leftarrow> mget m bin2 (idx2 + rr);
              x \<leftarrow> xorBlocks c d;
              (j, m, ctx) \<leftarrow> blockmixXorLoop bin1 idx1 bin2 idx2 bout outIdx (rr - 1) 0 x m ctx;
              Some (j, m, Some ctx) })"

text \<open>
  \<open>blockmixXorSave\<close>: \<open>y\<close> is stored in \<open>binout\<close> and then overwritten by
  \<open>x\<close>. The context is never \<open>nil\<close> (\<open>pwxform\<close> would dereference it).
\<close>

function xorSaveLoop ::
  "ypArr \<Rightarrow> nat \<Rightarrow> ypArr \<Rightarrow> nat \<Rightarrow> nat \<Rightarrow> nat \<Rightarrow> ypBlock \<Rightarrow> ypMem \<Rightarrow> ypCtx
     \<Rightarrow> (u32 \<times> ypMem \<times> ypCtx) option" where
  "xorSaveLoop binout idx1 bin2 idx2 rr i x m ctx =
     do { c \<leftarrow> mget m binout (idx1 + i); d \<leftarrow> mget m bin2 (idx2 + i); y \<leftarrow> xorBlocks c d;
          m \<leftarrow> mput m binout (idx1 + i) y;
          x \<leftarrow> xorBlock x y;
          (x, ctx) \<leftarrow> pwxform (x, ctx);
          m \<leftarrow> mput m binout (idx1 + i) x;
          c \<leftarrow> mget m binout (idx1 + i + 1); d \<leftarrow> mget m bin2 (idx2 + i + 1); y \<leftarrow> xorBlocks c d;
          m \<leftarrow> mput m binout (idx1 + i + 1) y;
          x \<leftarrow> xorBlock x y;
          (x, ctx) \<leftarrow> pwxform (x, ctx);
          if rr \<le> i
          then do { (x, m) \<leftarrow> salsaInto x binout (idx1 + (i + 1)) m;
                    j \<leftarrow> getW x 0; Some (j, m, ctx) }
          else do { m \<leftarrow> mput m binout (idx1 + i + 1) x;
                    xorSaveLoop binout idx1 bin2 idx2 rr (i + 2) x m ctx } }"
  by pat_completeness auto
termination
  by (relation "measure (\<lambda>(binout, idx1, bin2, idx2, rr, i, x, m, ctx). rr - i)") auto

declare xorSaveLoop.simps [simp del]

definition blockmixXorSave ::
  "ypArr \<Rightarrow> nat \<Rightarrow> ypArr \<Rightarrow> nat \<Rightarrow> nat \<Rightarrow> ypState \<Rightarrow> (u32 \<times> ypState) option" where
  "blockmixXorSave binout idx1 bin2 idx2 r st =
     (case st of
       (m, None) \<Rightarrow> None
     | (m, Some ctx) \<Rightarrow>
         do { let rr = r * 2 - 1;
              c \<leftarrow> mget m binout (idx1 + rr); d \<leftarrow> mget m bin2 (idx2 + rr);
              x \<leftarrow> xorBlocks c d;
              (j, m, ctx) \<leftarrow> xorSaveLoop binout idx1 bin2 idx2 (rr - 1) 0 x m ctx;
              Some (j, m, Some ctx) })"

section \<open>smix\<close>

definition integerify :: "ypMem \<Rightarrow> ypArr \<Rightarrow> nat \<Rightarrow> nat \<Rightarrow> u32 option" where
  "integerify m a idx r =
     do { b \<leftarrow> mget m a (idx + 2 * r - 1); d \<leftarrow> getD b 0; Some (ucast (d AND 0xffffffff)) }"

definition loadBlock :: "bytes \<Rightarrow> nat \<Rightarrow> ypBlock option" where
  "loadBlock b i = foldO (\<lambda>k tmp. do { w \<leftarrow> getLE 4 b (i * 64 + k * 4); setW tmp k w }) [0..<16] zeroBlock"

text \<open>The first loop of both phases: block \<open>i\<close> of \<open>b\<close>, shuffled, becomes block \<open>i\<close> of the slice.\<close>

definition loadBlocks :: "bytes \<Rightarrow> ypArr \<Rightarrow> nat \<Rightarrow> ypMem \<Rightarrow> ypMem option" where
  "loadBlocks b a limit m =
     foldO (\<lambda>i m. do { tmp \<leftarrow> loadBlock b i; old \<leftarrow> mget m a i; blk \<leftarrow> salsaShuffle tmp old; mput m a i blk })
       [0..<limit] m"

definition storeBlock :: "bytes \<Rightarrow> nat \<Rightarrow> ypBlock \<Rightarrow> bytes option" where
  "storeBlock b i dst =
     (if (i + 1) * 64 \<le> length b then Some (take (i * 64) b @ dst @ drop ((i + 1) * 64) b) else None)"

text \<open>The last loop of both phases: the first \<open>2 * r\<close> blocks of \<open>xy\<close>, unshuffled, go back to \<open>b\<close>.\<close>

definition storeBlocks :: "ypMem \<Rightarrow> nat \<Rightarrow> bytes \<Rightarrow> bytes option" where
  "storeBlocks m r b =
     foldO (\<lambda>i b. do { src \<leftarrow> mget m AXY i;
                       tmp \<leftarrow> foldO (\<lambda>k tmp. do { w \<leftarrow> getW src k; setW tmp k w }) [0..<16] zeroBlock;
                       dst \<leftarrow> salsaUnshuffle tmp zeroBlock;
                       storeBlock b i dst })
       [0..<2 * r] b"

text \<open>The position \<open>x\<close>, the value \<open>j\<close> and the memory while \<open>v\<close> is filled.\<close>

type_synonym fillState = "nat \<times> u32 \<times> ypState"

definition fillPair :: "nat \<Rightarrow> nat \<Rightarrow> nat \<Rightarrow> fillState \<Rightarrow> fillState option" where
  "fillPair r nn i fs =
     (case fs of (x, j, st) \<Rightarrow>
       do { let s = 2 * r;
            let y = x + s;
            let j = (j AND of_nat (nn - 1)) + of_nat (i - 1);
            (j, st) \<leftarrow> blockmixXor AV x AV (unat j * s) AV y r st;
            let j = (j AND of_nat (nn - 1)) + of_nat i;
            let x = y + s;
            (j, st) \<leftarrow> blockmixXor AV y AV (unat j * s) AV x r st;
            Some (x, j, st) })"

function fillInner :: "nat \<Rightarrow> nat \<Rightarrow> nat \<Rightarrow> nat \<Rightarrow> fillState \<Rightarrow> fillState option" where
  "fillInner r nn m i fs =
     (if i < m then do { fs \<leftarrow> fillPair r nn i fs; fillInner r nn m (i + 2) fs } else Some fs)"
  by pat_completeness auto
termination by (relation "measure (\<lambda>(r, nn, m, i, fs). m - i)") auto

declare fillInner.simps [simp del]

partial_function (option) fillOuter :: "nat \<Rightarrow> nat \<Rightarrow> nat \<Rightarrow> fillState \<Rightarrow> fillState option" where
  "fillOuter r n nn fs =
     (if nn < n
      then do { fs \<leftarrow> fillInner r nn (if n div 2 \<le> nn then n - 1 - nn else nn) 1 fs;
                fillOuter r n (nn * 2) fs }
      else Some fs)"

text \<open>The index of the last two steps: \<open>j &= nn - 1\<close>, \<open>j += n - k - nn\<close> with \<open>nn = n >> 1\<close>.\<close>

definition lastIndex :: "nat \<Rightarrow> nat \<Rightarrow> u32 \<Rightarrow> u32" where
  "lastIndex n k j = (let nn = n div 2 in (j AND of_nat (nn - 1)) + of_nat (n - k - nn))"

definition smix1 :: "bytes \<Rightarrow> nat \<Rightarrow> nat \<Rightarrow> ypState \<Rightarrow> (bytes \<times> ypState) option" where
  "smix1 b r n st =
     (case st of (m, ctx) \<Rightarrow>
       do { let s = 2 * r;
            m \<leftarrow> loadBlocks b AV (if ctx = None then 2 * r else 2) m;
            st \<leftarrow> (if ctx = None then Some (m, ctx)
                  else foldO (\<lambda>i. blockmix AV ((i - 1) * 2) AV (i * 2) 1) [1..<r] (m, ctx));
            st \<leftarrow> blockmix AV 0 AV s r st;
            let x = s + s;
            st \<leftarrow> blockmix AV s AV x r st;
            j \<leftarrow> integerify (fst st) AV x r;
            (x, j, st) \<leftarrow> fillOuter r n 2 (x, j, st);
            (j, st) \<leftarrow> blockmixXor AV x AV (unat (lastIndex n 2 j) * s) AXY 0 r st;
            (j, st) \<leftarrow> blockmixXor AXY 0 AV (unat (lastIndex n 1 j) * s) AXY 0 r st;
            b \<leftarrow> storeBlocks (fst st) r b;
            Some (b, st) })"

function smix2Loop :: "nat \<Rightarrow> nat \<Rightarrow> nat \<Rightarrow> u32 \<Rightarrow> ypState \<Rightarrow> ypState option" where
  "smix2Loop r n nLoop j st =
     (if 0 < nLoop
      then do { (j, st) \<leftarrow> blockmixXorSave AXY 0 AV (unat j * (2 * r)) r st;
                let j = j AND of_nat (n - 1);
                (j, st) \<leftarrow> blockmixXorSave AXY 0 AV (unat j * (2 * r)) r st;
                let j = j AND of_nat (n - 1);
                smix2Loop r n (nLoop - 2) j st }
      else Some st)"
  by pat_completeness auto
termination by (relation "measure (\<lambda>(r, n, nLoop, j, st). nLoop)") auto

declare smix2Loop.simps [simp del]

definition smix2 :: "bytes \<Rightarrow> nat \<Rightarrow> nat \<Rightarrow> nat \<Rightarrow> ypState \<Rightarrow> (bytes \<times> ypState) option" where
  "smix2 b r n nLoop st =
     (case st of (m, ctx) \<Rightarrow>
       do { m \<leftarrow> loadBlocks b AXY (2 * r) m;
            j \<leftarrow> integerify m AXY 0 r;
            st \<leftarrow> smix2Loop r n nLoop (j AND of_nat (n - 1)) (m, ctx);
            b \<leftarrow> storeBlocks (fst st) r b;
            Some (b, st) })"

section \<open>The hash\<close>

text \<open>\<open>crypto/hmac\<close> over SHA-256 (block size 64).\<close>

definition hmac_sha256 :: "bytes \<Rightarrow> bytes \<Rightarrow> bytes" where
  "hmac_sha256 key msg =
     (let key = (if 64 < length key then sha256 key else key);
          key = key @ replicate (64 - length key) 0;
          ipad = map (\<lambda>b. b XOR 0x36) key;
          opad = map (\<lambda>b. b XOR 0x5c) key
      in sha256 (opad @ sha256 (ipad @ msg)))"

lemma length_hmac [simp]: "length (hmac_sha256 key msg) = 32"
  by (simp add: hmac_sha256_def Let_def)

function pbkdf2Loop :: "bytes \<Rightarrow> bytes \<Rightarrow> nat \<Rightarrow> u32 \<Rightarrow> bytes \<Rightarrow> bytes" where
  "pbkdf2Loop password salt keyLen block out =
     (if length out < keyLen
      then pbkdf2Loop password salt keyLen (block + 1)
             (out @ hmac_sha256 password (salt @ be_bytes 4 block))
      else out)"
  by pat_completeness auto
termination
  by (relation "measure (\<lambda>(password, salt, keyLen, block, out). keyLen - length out)") auto

declare pbkdf2Loop.simps [simp del]

definition pbkdf2SHA256One :: "bytes \<Rightarrow> bytes \<Rightarrow> nat \<Rightarrow> bytes" where
  "pbkdf2SHA256One password salt keyLen = take keyLen (pbkdf2Loop password salt keyLen 1 [])"

definition yespowerN :: nat where "yespowerN = 2048"
definition yespowerR :: nat where "yespowerR = 32"

definition yespowerHash :: "bytes \<Rightarrow> bytes \<Rightarrow> hash option" where
  "yespowerHash input pers =
     do { let srcHash = sha256 input;
          let bSize = 128 * yespowerR;
          let b = pbkdf2SHA256One srcHash pers bSize;
          let seedHash = take 32 b;
          let v = replicate (yespowerN * 2 * yespowerR) zeroBlock;
          let xy = replicate (2 * yespowerR + 1) zeroBlock;
          let smem = replicate (3 * sBytes1 div 64) zeroBlock;
          (b, mS, _) \<leftarrow> smix1 b 1 (length smem div 2) (\<lparr>memV = smem, memXY = xy\<rparr>, None);
          let part = sBytes1 div 64;
          let ctx = \<lparr>s0 = take part (memV mS), s1 = take part (drop part (memV mS)),
                     s2 = drop (2 * part) (memV mS), cw = 0\<rparr>;
          (b, st) \<leftarrow> smix1 b yespowerR yespowerN (\<lparr>memV = v, memXY = memXY mS\<rparr>, Some ctx);
          let nLoopRW = (yespowerN + 2) div 3 + 1;
          let nLoopRW = nLoopRW - nLoopRW mod 2;
          (b, st) \<leftarrow> smix2 b yespowerR yespowerN nLoopRW st;
          Some (hmac_sha256 (drop (bSize - 64) b) seedHash) }"

text \<open>
  \<open>YespowerHasher.HashHeader\<close> of the builds without cgo
  (\<^verbatim>\<open>internal/pow/yespower_stub.go\<close>): the header is its 80 bytes, and an empty
  personalization is replaced.
\<close>

definition HashHeader :: "string \<Rightarrow> BlockHeader \<Rightarrow> hash option" where
  "HashHeader personalization header =
     (let b = header_Serialize header;
          pers = (if personalization = '''' then ''LegacyCoinPoW'' else personalization)
      in yespowerHash b (bytes_of_string pers))"

end
