(* ===== verification/YespowerBlocks.thy ===== *)
theory YespowerBlocks
  imports YespowerMix
begin

text \<open>
  Blocks as sixteen 32-bit words: the accessors of \<^verbatim>\<open>yespower_pure.go\<close> read and
  update this list, \<open>xorBlock\<close> is the bytewise exclusive or, and \<open>salsa20\<close> computes
  one block from one block whatever its output held before. Also the predicate
  \<open>returns\<close>, a postcondition for checked code that includes that it does not panic.
\<close>

section \<open>Code that returns\<close>

definition returns :: "('a \<Rightarrow> bool) \<Rightarrow> 'a option \<Rightarrow> bool" where
  "returns P r \<longleftrightarrow> (\<exists>y. r = Some y \<and> P y)"

named_theorems total_intros \<open>postconditions of the operations\<close>

lemma returns_Some [simp]: "returns P (Some y) \<longleftrightarrow> P y"
  by (simp add: returns_def)

lemma returns_bind: "returns Q r \<Longrightarrow> (\<And>y. Q y \<Longrightarrow> returns P (f y)) \<Longrightarrow> returns P (r \<bind> f)"
  by (auto simp: returns_def)

lemma returns_mono: "returns P r \<Longrightarrow> (\<And>y. P y \<Longrightarrow> Q y) \<Longrightarrow> returns Q r"
  by (auto simp: returns_def)

lemma returns_foldO:
  "I s \<Longrightarrow> (\<And>x s. x \<in> set xs \<Longrightarrow> I s \<Longrightarrow> returns I (f x s)) \<Longrightarrow> returns I (foldO f xs s)"
  by (induction xs arbitrary: s) (auto intro!: returns_bind)

lemma foldO_append: "foldO f (xs @ ys) s = foldO f xs s \<bind> foldO f ys"
proof (induction xs arbitrary: s)
  case (Cons x xs)
  then show ?case by (cases "f x s") simp_all
qed simp

section \<open>Words of a block\<close>

definition is_block :: "ypBlock \<Rightarrow> bool" where
  "is_block b \<longleftrightarrow> length b = 64"

definition blk :: "u32 list \<Rightarrow> ypBlock" where
  "blk ws = concat (map (le_bytes 4) ws)"

definition joinW :: "u32 \<Rightarrow> u32 \<Rightarrow> u64" where
  "joinW lo hi = ucast lo OR push_bit 32 (ucast hi)"

lemma length_blk [simp]: "length (blk ws) = 4 * length ws"
  by (simp add: blk_def length_concat_fixed)

lemma is_block_blk [simp]: "length ws = 16 \<Longrightarrow> is_block (blk ws)"
  by (simp add: is_block_def)

lemma bit_le_word:
  "bit (le_word bs :: 'a::len word) n \<longleftrightarrow>
     n < LENGTH('a) \<and> n < 8 * length bs \<and> bit (bs ! (n div 8)) (n mod 8)"
proof (induction bs arbitrary: n)
  case (Cons b bs)
  show ?case
  proof (cases "n < 8")
    case True
    then show ?thesis by (auto simp: bit_simps)
  next
    case False
    then have "n div 8 = Suc ((n - 8) div 8)" "n mod 8 = (n - 8) mod 8"
      by (simp_all add: le_div_geq le_mod_geq)
    moreover have "\<not> bit (ucast b :: 'a word) n"
      using False by (auto simp: bit_simps dest: bit_imp_le_length)
    ultimately show ?thesis
      using False Cons.IH [of "n - 8"] by (auto simp: bit_simps)
  qed
qed simp

lemma le_bytes_le_word:
  assumes "length bs * 8 \<le> LENGTH('a)"
  shows "le_bytes (length bs) (le_word bs :: 'a::len word) = bs"
proof (rule nth_equalityI)
  fix i assume "i < length (le_bytes (length bs) (le_word bs :: 'a word))"
  then have i: "i < length bs" by simp
  show "le_bytes (length bs) (le_word bs :: 'a word) ! i = bs ! i"
  proof (rule bit_word_eqI)
    fix n assume n: "n < LENGTH(8)"
    then have "8 * i + n < 8 * length bs" using i by simp
    with n i assms show "bit (le_bytes (length bs) (le_word bs :: 'a word) ! i) n = bit (bs ! i) n"
      by (simp add: le_bytes_def bit_simps bit_le_word)
  qed
qed simp

lemma bit_joinW: "bit (joinW a b) n \<longleftrightarrow> (if n < 32 then bit a n else bit b (n - 32))"
  using bit_imp_le_length [of a n] bit_imp_le_length [of b "n - 32"]
  by (auto simp: joinW_def bit_simps)

lemma drop_blk: "drop (4 * i) (blk ws) = blk (drop i ws)"
proof (induction i arbitrary: ws)
  case (Suc i)
  show ?case
  proof (cases ws)
    case (Cons w ws')
    then have "drop (4 * Suc i) (blk ws) = drop (4 * i) (drop 4 (blk (w # ws')))" by (simp add: add.commute)
    also have "drop 4 (blk (w # ws')) = blk ws'" by (simp add: blk_def)
    finally show ?thesis using Suc Cons by simp
  qed (simp add: blk_def)
qed simp

lemma take_blk: "take (4 * i) (blk ws) = blk (take i ws)"
proof (induction i arbitrary: ws)
  case (Suc i)
  show ?case
  proof (cases ws)
    case (Cons w ws')
    then have "take (4 * Suc i) (blk ws) = le_bytes 4 w @ take (4 * i) (blk ws')" by (simp add: blk_def)
    then show ?thesis using Suc Cons by (simp add: blk_def)
  qed (simp add: blk_def)
qed (simp add: blk_def)

lemma blk_append: "blk (xs @ ys) = blk xs @ blk ys"
  by (simp add: blk_def)

lemma blk_one: "blk [w] = le_bytes 4 w"
  by (simp add: blk_def)

lemma blk_exists:
  assumes "length b = 4 * n"
  obtains ws where "length ws = n" "b = blk ws"
proof -
  have "\<exists>ws. length ws = n \<and> b = blk ws"
    using assms
  proof (induction n arbitrary: b)
    case 0
    then show ?case by (intro exI [of _ "[]"]) (simp add: blk_def)
  next
    case (Suc n)
    have "length (drop 4 b) = 4 * n" using Suc.prems by simp
    from Suc.IH [OF this] obtain ws where ws: "length ws = n" "drop 4 b = blk ws" by blast
    have "le_bytes 4 (le_word (take 4 b) :: u32) = take 4 b"
      using le_bytes_le_word [of "take 4 b", where ?'a = 32] Suc.prems by simp
    then have "b = blk (le_word (take 4 b) # ws)"
      using ws by (simp add: blk_def) (metis append_take_drop_id)
    with ws show ?case by (intro exI [of _ "le_word (take 4 b) # ws"]) simp
  qed
  with that show ?thesis by blast
qed

lemma is_blockE:
  assumes "is_block b"
  obtains ws where "length ws = 16" "b = blk ws"
  using blk_exists [of b 16] assms by (auto simp: is_block_def)

lemma zeroBlock_blk: "zeroBlock = blk [0, 0, 0, 0, 0, 0, 0, 0, 0, 0, 0, 0, 0, 0, 0, 0]"
  by (simp add: zeroBlock_def blk_def numeral_eq_Suc le_bytes_Suc)

lemma is_block_zero [simp]: "is_block zeroBlock"
  by (simp add: is_block_def zeroBlock_def)

text \<open>Reading and writing a word.\<close>

lemma getW_blk [simp]:
  assumes "i < length ws"
  shows "getW (blk ws) i = Some (ws ! i)"
proof -
  have "drop (i * 4) (blk ws) = le_bytes 4 (ws ! i) @ blk (drop (Suc i) ws)"
    using drop_blk [of i ws] Cons_nth_drop_Suc [OF assms]
    by (simp add: mult.commute) (metis blk_append blk_one append_Cons append_Nil)
  then show ?thesis using assms by (simp add: getW_def getLE_def)
qed

lemma setW_blk [simp]:
  assumes "i < length ws"
  shows "setW (blk ws) i v = Some (blk (ws[i := v]))"
proof -
  have "take (i * 4) (blk ws) @ le_bytes 4 v @ drop (i * 4 + 4) (blk ws) =
      blk (take i ws) @ blk [v] @ blk (drop (Suc i) ws)"
    using take_blk [of i ws] drop_blk [of "Suc i" ws] by (simp add: mult.commute blk_one add.commute)
  also have "\<dots> = blk (ws[i := v])"
    using assms by (simp add: upd_conv_take_nth_drop flip: blk_append)
  finally show ?thesis using assms by (simp add: setW_def putLE_def)
qed

lemma le_word_append:
  "length a = 4 \<Longrightarrow> length b = 4 \<Longrightarrow> le_word (a @ b) = joinW (le_word a) (le_word b)"
proof (rule bit_word_eqI)
  fix n assume len: "length a = 4" "length b = 4" and n: "n < LENGTH(64)"
  show "bit (le_word (a @ b) :: u64) n = bit (joinW (le_word a) (le_word b)) n"
  proof (cases "n < 32")
    case True
    then have "n div 8 < 4" by simp
    with True len show ?thesis by (simp add: bit_joinW bit_le_word nth_append)
  next
    case False
    then obtain m where m: "n = 4 * 8 + m" by (auto simp: not_less dest: le_Suc_ex)
    have "(4 * 8 + m) div 8 = 4 + m div 8" "(4 * 8 + m) mod 8 = m mod 8"
      by (simp_all only: div_mult_self3 mod_mult_self3 zero_neq_numeral not_False_eq_True)
    with m n len show ?thesis by (simp add: bit_joinW bit_le_word nth_append)
  qed
qed

lemma getD_blk [simp]:
  assumes "2 * i + 1 < length ws"
  shows "getD (blk ws) i = Some (joinW (ws ! (2 * i)) (ws ! (2 * i + 1)))"
proof -
  have "drop (i * 8) (blk ws) = blk (drop (2 * i) ws)"
    using drop_blk [of "2 * i" ws] by (simp add: mult.commute mult.left_commute)
  also have "drop (2 * i) ws = ws ! (2 * i) # ws ! (2 * i + 1) # drop (2 * i + 2) ws"
    using assms by (metis Cons_nth_drop_Suc Suc_lessD add.commute add_2_eq_Suc' plus_1_eq_Suc)
  also have "blk \<dots> = (le_bytes 4 (ws ! (2 * i)) @ le_bytes 4 (ws ! (2 * i + 1))) @ blk (drop (2 * i + 2) ws)"
    by (simp add: blk_def)
  finally have "take 8 (drop (i * 8) (blk ws)) = le_bytes 4 (ws ! (2 * i)) @ le_bytes 4 (ws ! (2 * i + 1))"
    by simp
  then show ?thesis using assms by (simp add: getD_def getLE_def le_word_append)
qed

lemma le_bytes_joinW: "le_bytes 8 v = le_bytes 4 (ucast v :: u32) @ le_bytes 4 (ucast (drop_bit 32 v) :: u32)"
  for v :: u64
proof -
  have "le_bytes 8 v = map (\<lambda>i. ucast (drop_bit (8 * i) v)) ([0..<4] @ map (\<lambda>i. i + 4) [0..<4])"
    by (simp add: le_bytes_def numeral_eq_Suc)
  also have "\<dots> = le_bytes 4 (ucast v :: u32) @ le_bytes 4 (ucast (drop_bit 32 v) :: u32)"
    unfolding le_bytes_def map_append map_map
    by (intro arg_cong2 [where f = append] map_cong)
      (auto intro!: bit_word_eqI simp: bit_simps algebra_simps)
  finally show ?thesis .
qed

lemma setD_blk [simp]:
  assumes "2 * i + 1 < length ws"
  shows "setD (blk ws) i v = Some (blk (ws[2 * i := ucast v, 2 * i + 1 := ucast (drop_bit 32 v)]))"
proof -
  have "take (i * 8) (blk ws) @ le_bytes 8 v @ drop (i * 8 + 8) (blk ws) =
      blk (take (2 * i) ws @ [ucast v, ucast (drop_bit 32 v)] @ drop (2 * i + 2) ws)"
    using take_blk [of "2 * i" ws] drop_blk [of "2 * i + 2" ws]
    by (simp add: mult.commute mult.left_commute blk_append le_bytes_joinW) (simp add: blk_def add.commute)
  also have "take (2 * i) ws @ [ucast v, ucast (drop_bit 32 v)] @ drop (2 * i + 2) ws =
      ws[2 * i := ucast v, 2 * i + 1 := ucast (drop_bit 32 v)]"
  proof (rule nth_equalityI)
    fix k assume "k < length (take (2 * i) ws @ [ucast v, ucast (drop_bit 32 v)] @ drop (2 * i + 2) ws)"
    consider "k < 2 * i" | "k = 2 * i" | "k = 2 * i + 1" | m where "k = 2 * i + 2 + m"
      by (metis add_2_eq_Suc' less_Suc_eq le_add_diff_inverse not_less plus_1_eq_Suc add.commute)
    then show "(take (2 * i) ws @ [ucast v, ucast (drop_bit 32 v)] @ drop (2 * i + 2) ws) ! k =
        ws[2 * i := ucast v, 2 * i + 1 := ucast (drop_bit 32 v)] ! k"
      using assms by cases (simp_all add: nth_append nth_list_update)
  qed (use assms in simp)
  finally show ?thesis using assms by (simp add: setD_def putLE_def)
qed

lemma joinW_parts [simp]:
  "(ucast (joinW a b) :: u32) = a"
  "(ucast (drop_bit 32 (joinW a b)) :: u32) = b"
  by (auto intro!: bit_word_eqI simp: bit_joinW bit_simps)

lemma joinW_xor: "joinW a b XOR joinW c d = joinW (a XOR c) (b XOR d)"
  by (intro bit_word_eqI) (auto simp: bit_joinW bit_simps)

lemma joinW_xor_parts [simp]:
  "(ucast (joinW a b XOR joinW c d) :: u32) = a XOR c"
  "(ucast (drop_bit 32 (joinW a b) XOR drop_bit 32 (joinW c d)) :: u32) = b XOR d"
  by (auto intro!: bit_word_eqI simp: bit_joinW bit_simps)

section \<open>Exclusive or\<close>

definition bxor :: "ypBlock \<Rightarrow> ypBlock \<Rightarrow> ypBlock" where
  "bxor a b = map2 (XOR) a b"

lemma length_bxor [simp]: "length (bxor a b) = min (length a) (length b)"
  by (simp add: bxor_def)

lemma is_block_bxor [simp]: "is_block a \<Longrightarrow> is_block b \<Longrightarrow> is_block (bxor a b)"
  by (simp add: is_block_def)

lemma bxor_assoc: "bxor (bxor a b) c = bxor a (bxor b c)"
  by (rule nth_equalityI) (auto simp: bxor_def xor.assoc)

lemma bxor_blk: "length a = length b \<Longrightarrow> bxor (blk a) (blk b) = blk (map2 (XOR) a b)"
proof (induction a b rule: list_induct2)
  case (Cons x xs y ys)
  have "map2 (XOR) (le_bytes 4 x) (le_bytes 4 y) = le_bytes 4 (x XOR y)"
    by (rule nth_equalityI) (auto simp: le_bytes_def intro!: bit_word_eqI simp: bit_simps)
  then show ?case using Cons by (simp add: bxor_def blk_def)
qed (simp add: bxor_def blk_def)

text \<open>A block as an explicit list of its words.\<close>

lemma length_16E:
  assumes "length ws = 16"
  obtains a b c d e f g h i j k l m n o' p where "ws = [a, b, c, d, e, f, g, h, i, j, k, l, m, n, o', p]"
  using assms by (auto simp: numeral_eq_Suc length_Suc_conv)

lemma upd_two:
  assumes "length xs = length zs" "Suc n < length zs"
  shows "(take n xs @ drop n zs)[n := xs ! n, Suc n := xs ! Suc n] =
    take (Suc (Suc n)) xs @ drop (Suc (Suc n)) zs"
proof -
  have "drop n zs = zs ! n # zs ! Suc n # drop (Suc (Suc n)) zs"
    using assms by (simp add: Cons_nth_drop_Suc)
  then show ?thesis using assms by (simp add: take_Suc_conv_app_nth list_update_append)
qed

lemma xor_loop:
  assumes len: "length us = 16" "length vs = 16" "length zs = 16" and "k \<le> 8"
    and f: "\<And>i ws. i < 8 \<Longrightarrow> length ws = 16 \<Longrightarrow> drop (2 * i) ws = drop (2 * i) zs \<Longrightarrow>
      f i (blk ws) = setD (blk ws) i (joinW (us ! (2 * i) XOR vs ! (2 * i)) (us ! (2 * i + 1) XOR vs ! (2 * i + 1)))"
  shows "foldO f [0..<k] (blk zs) = Some (blk (take (2 * k) (map2 (XOR) us vs) @ drop (2 * k) zs))"
  using \<open>k \<le> 8\<close>
proof (induction k)
  case (Suc k)
  have "(take (2 * k) (map2 (XOR) us vs) @ drop (2 * k) zs)
        [2 * k := us ! (2 * k) XOR vs ! (2 * k), Suc (2 * k) := us ! (2 * k + 1) XOR vs ! (2 * k + 1)] =
      take (2 * Suc k) (map2 (XOR) us vs) @ drop (2 * Suc k) zs"
    using upd_two [of "map2 (XOR) us vs" zs "2 * k"] Suc.prems len by simp
  with Suc len show ?case by (simp add: foldO_append f)
qed simp

lemma xorBlock_blk:
  assumes "length us = 16" "length vs = 16"
  shows "xorBlock (blk us) (blk vs) = Some (blk (map2 (XOR) us vs))"
    "xorBlocks (blk us) (blk vs) = Some (blk (map2 (XOR) us vs))"
proof -
  have rd: "ws ! (2 * i) = us ! (2 * i)" "ws ! Suc (2 * i) = us ! Suc (2 * i)"
    if "drop (2 * i) ws = drop (2 * i) us" "i < 8" "length ws = 16" for i ws
  proof -
    have "ws ! (2 * i) = drop (2 * i) ws ! 0" "ws ! Suc (2 * i) = drop (2 * i) ws ! 1"
      "us ! (2 * i) = drop (2 * i) us ! 0" "us ! Suc (2 * i) = drop (2 * i) us ! 1"
      using that(2, 3) assms by simp_all
    with that(1) show "ws ! (2 * i) = us ! (2 * i)" "ws ! Suc (2 * i) = us ! Suc (2 * i)" by simp_all
  qed
  have "xorBlock (blk us) (blk vs) =
      Some (blk (take (2 * 8) (map2 (XOR) us vs) @ drop (2 * 8) us))"
    unfolding xorBlock_def
  proof (rule xor_loop)
    fix i ws assume i: "i < 8" "length ws = 16" "drop (2 * i) ws = drop (2 * i) us"
    from rd [OF i(3, 1, 2)] i(1, 2) assms
    show "do { x \<leftarrow> getD (blk ws) i; y \<leftarrow> getD (blk vs) i; setD (blk ws) i (x XOR y) } =
        setD (blk ws) i (joinW (us ! (2 * i) XOR vs ! (2 * i)) (us ! (2 * i + 1) XOR vs ! (2 * i + 1)))"
      by simp
  qed (use assms in simp_all)
  then show "xorBlock (blk us) (blk vs) = Some (blk (map2 (XOR) us vs))" using assms by simp
  have "xorBlocks (blk us) (blk vs) =
      Some (blk (take (2 * 8) (map2 (XOR) us vs) @ drop (2 * 8) [0, 0, 0, 0, 0, 0, 0, 0, 0, 0, 0, 0, 0, 0, 0, 0]))"
    unfolding xorBlocks_def zeroBlock_blk by (rule xor_loop) (use assms in simp_all)
  then show "xorBlocks (blk us) (blk vs) = Some (blk (map2 (XOR) us vs))" using assms by simp
qed

lemma xorBlock_bxor:
  assumes "is_block a" "is_block b"
  shows "xorBlock a b = Some (bxor a b)" "xorBlocks a b = Some (bxor a b)"
proof -
  obtain us where us: "length us = 16" "a = blk us" using assms(1) by (rule is_blockE)
  obtain vs where vs: "length vs = 16" "b = blk vs" using assms(2) by (rule is_blockE)
  from us vs show "xorBlock a b = Some (bxor a b)" "xorBlocks a b = Some (bxor a b)"
    by (simp_all add: xorBlock_blk bxor_blk)
qed

section \<open>Shuffling\<close>

definition shuffleW :: "u32 list \<Rightarrow> u32 list" where
  "shuffleW ws = map ((!) ws) [0, 5, 10, 15, 4, 9, 14, 3, 8, 13, 2, 7, 12, 1, 6, 11]"

definition unshuffleW :: "u32 list \<Rightarrow> u32 list" where
  "unshuffleW ws = map ((!) ws) [0, 13, 10, 7, 4, 1, 14, 11, 8, 5, 2, 15, 12, 9, 6, 3]"

lemma length_shuffleW [simp]: "length (shuffleW ws) = 16" "length (unshuffleW ws) = 16"
  by (simp_all add: shuffleW_def unshuffleW_def)

lemma unshuffle_shuffleW: "length ws = 16 \<Longrightarrow> unshuffleW (shuffleW ws) = ws"
  by (elim length_16E) (simp add: shuffleW_def unshuffleW_def)

lemma shuffle_unshuffleW: "length ws = 16 \<Longrightarrow> shuffleW (unshuffleW ws) = ws"
  by (elim length_16E) (simp add: shuffleW_def unshuffleW_def)

lemma low_half [simp]: "(ucast (joinW a b AND 0xFFFFFFFF) :: u32) = a"
  and high_half [simp]: "(ucast (drop_bit 32 (joinW a b) AND 0xFFFFFFFF) :: u32) = b"
proof -
  have m: "(0xFFFFFFFF :: u64) = mask 32" by (simp add: mask_eq_exp_minus_1)
  show "(ucast (joinW a b AND 0xFFFFFFFF) :: u32) = a"
    and "(ucast (drop_bit 32 (joinW a b) AND 0xFFFFFFFF) :: u32) = b"
    unfolding m by (auto intro!: bit_word_eqI simp: bit_joinW bit_simps)
qed

lemma salsaShuffle_blk:
  assumes "length ws = 16" "length vs = 16"
  shows "salsaShuffle (blk ws) (blk vs) = Some (blk (shuffleW ws))"
  using assms
  by (elim length_16E) (simp add: salsaShuffle_def combine_def shuffleW_def flip: joinW_def)

lemma salsaUnshuffle_blk:
  assumes "length ws = 16" "length vs = 16"
  shows "salsaUnshuffle (blk ws) (blk vs) = Some (blk (unshuffleW ws))"
  using assms
  by (elim length_16E) (simp add: salsaUnshuffle_def uncombine_def unshuffleW_def)

section \<open>Salsa20\<close>

lemma qr_total:
  assumes "is_block x" "a < 16" "b < 16" "c < 16" "d < 16"
  shows "returns is_block (qr (a, b, c, d) x)"
  unfolding qr_def prod.case
proof (rule returns_foldO [where I = is_block])
  fix s x assume s: "s \<in> set [(b, a, d, 7), (c, b, a, 9), (d, c, b, 13 :: nat), (a, d, c, 18)]" and "is_block x"
  then obtain ws where "length ws = 16" "x = blk ws" by (auto elim: is_blockE)
  with s assms show "returns is_block (qrStep s x)" by (auto simp: qrStep_def)
qed (rule assms(1))

lemma doubleRound_total: "is_block x \<Longrightarrow> returns is_block (doubleRound x)"
  unfolding doubleRound_def by (rule returns_foldO) (auto intro: qr_total)

text \<open>The block \<open>salsa20\<close> leaves in both of its arguments.\<close>

definition salsaBlock :: "ypBlock \<Rightarrow> ypBlock option" where
  "salsaBlock x = map_option fst (salsa20 x zeroBlock 1)"

lemma final_add:
  assumes "length ws = 16" "length vs = 16"
  shows "foldO (\<lambda>i (b, bout). do { u \<leftarrow> getW bout i; w \<leftarrow> getW b i;
           bout \<leftarrow> setW bout i (u + w); b \<leftarrow> setW b i (u + w); Some (b, bout) }) [0..<16] (blk ws, blk vs) =
    Some (blk (map2 (+) vs ws), blk (map2 (+) vs ws))"
  using assms by (elim length_16E) (simp add: upt_rec)

lemma salsa20_block:
  assumes "is_block x"
  shows "\<exists>y. is_block y \<and> salsaBlock x = Some y \<and> (\<forall>old. is_block old \<longrightarrow> salsa20 x old 1 = Some (y, y))"
proof -
  obtain ws where ws: "length ws = 16" "x = blk ws" using assms by (rule is_blockE)
  obtain u where "doubleRound (blk (unshuffleW ws)) = Some u" "is_block u"
    using doubleRound_total [of "blk (unshuffleW ws)"] by (auto simp: returns_def)
  then obtain us where us: "doubleRound (blk (unshuffleW ws)) = Some (blk us)" "length us = 16"
    by (auto elim!: is_blockE)
  have "salsa20 x old 1 = Some (blk (map2 (+) (shuffleW us) ws), blk (map2 (+) (shuffleW us) ws))"
    if "is_block old" for old
  proof -
    from that obtain vs where "length vs = 16" "old = blk vs" by (blast elim: is_blockE)
    then show ?thesis using ws us
      by (simp add: salsa20_def zeroBlock_blk salsaUnshuffle_blk salsaShuffle_blk final_add)
  qed
  then show ?thesis
    using ws by (intro exI [of _ "blk (map2 (+) (shuffleW us) ws)"]) (simp add: salsaBlock_def)
qed

lemma salsaBlock_total: "is_block x \<Longrightarrow> returns is_block (salsaBlock x)"
  using salsa20_block [of x] by (auto simp: returns_def)

lemma salsa20_salsaBlock:
  assumes "is_block x" "is_block old"
  shows "salsa20 x old 1 = do { y \<leftarrow> salsaBlock x; Some (y, y) }"
  using salsa20_block [OF assms(1)] assms(2) by auto

end
