(* ===== verification/YespowerSpec.thy ===== *)
theory YespowerSpec
  imports YespowerBlocks
begin

text \<open>
  \<open>BlockMix\<close> as a function from blocks to blocks, and the proof that the in-place loops of
  \<^verbatim>\<open>yespower_pure.go\<close> compute it: they read their two inputs, write the mixed
  blocks to the output and leave everything else alone.
\<close>

section \<open>The S-boxes\<close>

definition blocks :: "ypBlock list \<Rightarrow> bool" where
  "blocks bs \<longleftrightarrow> (\<forall>b\<in>set bs. is_block b)"

definition parts_ok :: "ypCtx \<Rightarrow> bool" where
  "parts_ok ctx \<longleftrightarrow> length (s0 ctx) = 512 \<and> length (s1 ctx) = 512 \<and> length (s2 ctx) = 512 \<and>
     blocks (s0 ctx) \<and> blocks (s1 ctx) \<and> blocks (s2 ctx)"

text \<open>Between two calls of \<open>pwxform\<close> the write position is a block boundary.\<close>

definition ctx_ok :: "ypCtx \<Rightarrow> bool" where
  "ctx_ok ctx \<longleftrightarrow> parts_ok ctx \<and> cw ctx mod 64 = 0 \<and> cw ctx < 32768"

lemma blocks_nth: "blocks bs \<Longrightarrow> i < length bs \<Longrightarrow> is_block (bs ! i)"
  by (simp add: blocks_def)

lemma blocks_update: "blocks bs \<Longrightarrow> is_block b \<Longrightarrow> blocks (bs[i := b])"
  using set_update_subset_insert [of bs i b] by (auto simp: blocks_def)

lemma blocks_append [simp]: "blocks (xs @ ys) \<longleftrightarrow> blocks xs \<and> blocks ys"
  by (auto simp: blocks_def)

lemma blocks_Cons [simp]: "blocks (x # xs) \<longleftrightarrow> is_block x \<and> blocks xs"
  by (auto simp: blocks_def)

lemma blocks_Nil [simp]: "blocks []"
  by (simp add: blocks_def)

lemma blocks_take: "blocks bs \<Longrightarrow> blocks (take n bs)"
  by (auto simp: blocks_def dest: in_set_takeD)

lemma blocks_drop: "blocks bs \<Longrightarrow> blocks (drop n bs)"
  by (auto simp: blocks_def dest: in_set_dropD)

lemma blocks_replicate [simp]: "blocks (replicate n zeroBlock)"
  by (simp add: blocks_def)

lemma inside_block: "off mod 8 = 0 \<Longrightarrow> off mod 64 + 8 \<le> (64 :: nat)"
  by presburger

lemma getDAt_total:
  assumes "blocks bs" "off < 64 * length bs" "off mod 8 = 0"
  shows "returns (\<lambda>_. True) (getDAt bs off)"
proof -
  have i: "off div 64 < length bs" using assms by (simp add: div_less_iff_less_mult mult.commute)
  with blocks_nth [OF assms(1) i] inside_block [OF assms(3)] show ?thesis
    by (simp add: getDAt_def getLE_def is_block_def)
qed

lemma setDAt_total:
  assumes "blocks bs" "off < 64 * length bs" "off mod 8 = 0"
  shows "returns (\<lambda>bs'. blocks bs' \<and> length bs' = length bs) (setDAt bs off v)"
proof -
  have i: "off div 64 < length bs" using assms by (simp add: div_less_iff_less_mult mult.commute)
  with blocks_nth [OF assms(1) i] inside_block [OF assms(3)] assms(1) show ?thesis
    by (auto simp: setDAt_def putLE_def is_block_def intro!: blocks_update)
qed

section \<open>pwxform returns\<close>

lemma sMask_value: "sMask = 32752"
  by (simp add: sMask_def sWidth10_def pwxSimple_def)

lemma index_low: "unat (ucast ((x AND sMask2) AND 0xFFFFFFFF) :: u32) = unat ((ucast x :: u32) AND 0x7FF0)"
  and index_high: "unat (ucast (drop_bit 32 (x AND sMask2) AND 0xFFFFFFFF) :: u32) =
    unat ((ucast (drop_bit 32 x) :: u32) AND 0x7FF0)"
  for x :: u64
proof -
  have m: "(0xFFFFFFFF :: u64) = mask 32" by (simp add: mask_eq_exp_minus_1)
  have s: "sMask2 = joinW 0x7FF0 0x7FF0" by (simp add: sMask2_def sMask_value joinW_def)
  have "(ucast ((x AND sMask2) AND 0xFFFFFFFF) :: u32) = ucast x AND 0x7FF0"
    unfolding m s by (rule bit_word_eqI) (auto simp: bit_joinW bit_simps)
  then show "unat (ucast ((x AND sMask2) AND 0xFFFFFFFF) :: u32) = unat ((ucast x :: u32) AND 0x7FF0)" by simp
  have "(ucast (drop_bit 32 (x AND sMask2) AND 0xFFFFFFFF) :: u32) = ucast (drop_bit 32 x) AND 0x7FF0"
    unfolding m s by (rule bit_word_eqI) (auto simp: bit_joinW bit_simps)
  then show "unat (ucast (drop_bit 32 (x AND sMask2) AND 0xFFFFFFFF) :: u32) =
    unat ((ucast (drop_bit 32 x) :: u32) AND 0x7FF0)" by simp
qed

lemma nat_and_upper: "(m AND n :: nat) \<le> n"
proof -
  have "int (m AND n) \<le> int n" by (simp add: of_nat_and_eq AND_upper2)
  then show ?thesis by simp
qed

lemma masked_index: "unat (y AND 0x7FF0 :: u32) mod 16 = 0" "unat (y AND 0x7FF0 :: u32) \<le> 32752"
proof -
  have "take_bit 4 (unat (y AND 0x7FF0)) = 0"
    by (simp add: unsigned_and_eq take_bit_and)
  then show "unat (y AND 0x7FF0) mod 16 = 0" by (simp add: take_bit_eq_mod)
  show "unat (y AND 0x7FF0 :: u32) \<le> 32752"
    using nat_and_upper [of "unat y" 32752] by (simp add: unsigned_and_eq)
qed

lemma mod_16_8: "n mod 16 = 0 \<Longrightarrow> n mod 8 = 0 \<and> (n + 8) mod 8 = (0 :: nat)"
  by presburger

lemma writePair_total:
  assumes "parts_ok ctx" "wr = NoWrite \<or> cw ctx mod 16 = 0 \<and> cw ctx < 32768"
  shows "returns (\<lambda>c. parts_ok c \<and> cw c = cw ctx) (writePair wr x0 x1 ctx)"
proof (cases "wr = NoWrite")
  case False
  then have w: "cw ctx mod 16 = 0" "cw ctx < 32768" using assms(2) by auto
  have w8: "cw ctx + 8 < 32768" using w by presburger
  have "returns (\<lambda>bs'. blocks bs' \<and> length bs' = 512) (do { s \<leftarrow> setDAt bs (cw ctx) x0; setDAt s (cw ctx + 8) x1 })"
    if "blocks bs" "length bs = 512" for bs
    by (rule returns_bind [where Q = "\<lambda>bs'. blocks bs' \<and> length bs' = 512"];
        (rule returns_mono, rule setDAt_total)?) (use that w w8 mod_16_8 [OF w(1)] in auto)
  from this [of "s0 ctx"] this [of "s1 ctx"] assms(1) False show ?thesis
    by (cases wr) (auto simp: writePair_def returns_def parts_ok_def bind_eq_Some_conv)
qed (use assms in \<open>simp add: writePair_def\<close>)

lemma getD_total: "is_block b \<Longrightarrow> i < 8 \<Longrightarrow> returns (\<lambda>_. True) (getD b i)"
  by (elim is_blockE) simp

lemma setD_total: "is_block b \<Longrightarrow> i < 8 \<Longrightarrow> returns is_block (setD b i v)"
  by (elim is_blockE) simp

lemma index_total:
  assumes "blocks bs" "length bs = 512"
  shows "returns (\<lambda>_. True) (getDAt bs (unat (y AND 0x7FF0 :: u32)))"
    "returns (\<lambda>_. True) (getDAt bs (unat (y AND 0x7FF0 :: u32) + 8))"
  using masked_index [of y] mod_16_8 [of "unat (y AND 0x7FF0)"] assms
  by (auto intro!: getDAt_total)

lemma pwxPair_total:
  assumes x: "is_block x" and p: "parts_ok ctx" and off: "off + 1 < 8"
    and w: "wr = NoWrite \<or> cw ctx mod 16 = 0 \<and> cw ctx < 32768"
  shows "returns (\<lambda>(x, c). is_block x \<and> parts_ok c \<and> cw c = cw ctx) (pwxPair off wr (x, ctx))"
proof -
  note bs = p [unfolded parts_ok_def]
  show ?thesis
    unfolding pwxPair_def prod.case Let_def index_low index_high
    by (rule returns_bind [OF getD_total] returns_bind [OF index_total(1)] returns_bind [OF index_total(2)]
        returns_bind [OF setD_total] returns_bind [OF writePair_total] | use x p off w bs in force)+
qed

definition st_ok :: "nat \<Rightarrow> ypBlock \<times> ypCtx \<Rightarrow> bool" where
  "st_ok w st \<longleftrightarrow> is_block (fst st) \<and> parts_ok (snd st) \<and> cw (snd st) = w"

lemma pwxPair_ok:
  assumes "st_ok w st" "off + 1 < 8" "wr = NoWrite \<or> w mod 16 = 0 \<and> w < 32768"
  shows "returns (st_ok w) (pwxPair off wr st)"
  using pwxPair_total [of "fst st" "snd st" off wr] assms
  by (auto simp: st_ok_def intro: returns_mono)

lemma advance_ok: "st_ok w st \<Longrightarrow> st_ok (w + 16) (advance st)"
  by (cases st) (simp add: st_ok_def advance_def parts_ok_def)

lemma plainRound_ok: "st_ok w st \<Longrightarrow> returns (st_ok w) (plainRound st)"
  unfolding plainRound_def by (rule returns_foldO) (auto intro: pwxPair_ok)

lemma pwxRoundWrite4_ok:
  assumes "st_ok w st" "w mod 16 = 0" "w + 16 < 32768"
  shows "returns (st_ok (w + 32)) (pwxRoundWrite4 st)"
proof -
  have w: "(w + 16) mod 16 = 0" using assms(2) by simp
  show ?thesis
    unfolding pwxRoundWrite4_def Let_def
    apply (rule returns_bind [where Q = "st_ok w"], (rule pwxPair_ok; use assms in simp))
    apply (rule returns_bind [where Q = "st_ok w"], (rule pwxPair_ok; use assms in simp))
    apply (rule returns_bind [where Q = "st_ok (w + 16)"], (rule pwxPair_ok; use assms w advance_ok in simp))
    apply (rule returns_bind [where Q = "st_ok (w + 16)"], (rule pwxPair_ok; use assms w in simp))
    using advance_ok [of "w + 16"] by (simp add: add.assoc)
qed

lemma pwxRoundWrite2_ok:
  assumes "st_ok w st" "w mod 16 = 0" "w < 32768"
  shows "returns (st_ok (w + 16)) (pwxRoundWrite2 st)"
  unfolding pwxRoundWrite2_def Let_def
  apply (rule returns_bind [where Q = "st_ok w"], (rule pwxPair_ok; use assms in simp))
  apply (rule returns_bind [where Q = "st_ok w"], (rule pwxPair_ok; use assms in simp))
  apply (rule returns_bind [where Q = "st_ok (w + 16)"], (rule pwxPair_ok; use assms advance_ok in simp))
  by (rule pwxPair_ok; use assms in simp)

lemma position_room: "w mod 64 = 0 \<Longrightarrow> w < 32768 \<Longrightarrow> w + 48 < (32768 :: nat) \<and> w mod 16 = 0"
  by presburger

lemma masked_position: "w mod 64 = 0 \<Longrightarrow> (w AND sMask) mod 64 = 0 \<and> w AND sMask < 32768" for w :: nat
proof -
  assume "w mod 64 = 0"
  then have "take_bit 6 (w AND sMask) = 0" by (simp add: take_bit_and take_bit_eq_mod [of 6 w])
  moreover have "w AND sMask \<le> sMask" by (rule nat_and_upper)
  ultimately show ?thesis by (simp add: take_bit_eq_mod sMask_value)
qed

definition box_ok :: "ypBlock \<times> ypCtx \<Rightarrow> bool" where
  "box_ok st \<longleftrightarrow> is_block (fst st) \<and> ctx_ok (snd st)"

lemma pwxWrites_ok:
  assumes "box_ok st"
  shows "returns box_ok (pwxWrites st)"
proof -
  define w where "w = cw (snd st)"
  have st: "st_ok w st" using assms by (simp add: box_ok_def ctx_ok_def st_ok_def w_def)
  have w: "w mod 64 = 0" "w + 48 < 32768" "w mod 16 = 0"
    using assms position_room [of w] by (auto simp: box_ok_def ctx_ok_def w_def)
  have w2: "(w + 32) mod 16 = 0" "(w + 48) mod 16 = 0" "(w + 64) mod 64 = 0" using w by presburger+
  show ?thesis
    unfolding pwxWrites_def Let_def
  proof (rule returns_bind [OF pwxRoundWrite4_ok [OF st]])
    fix st1 assume "st_ok (w + 32) st1"
    from pwxRoundWrite2_ok [OF this]
    have r1: "returns (st_ok (w + 48)) (pwxRoundWrite2 st1)" using w w2 by (simp add: add.assoc)
    show "returns box_ok (do { st \<leftarrow> pwxRoundWrite2 st1; (x, ctx) \<leftarrow> pwxRoundWrite2 st;
        Some (x, ctx\<lparr>cw := cw ctx AND sMask, s0 := s2 (ctx\<lparr>cw := cw ctx AND sMask\<rparr>),
          s1 := s0 (ctx\<lparr>cw := cw ctx AND sMask\<rparr>), s2 := s1 (ctx\<lparr>cw := cw ctx AND sMask\<rparr>)\<rparr>) })"
    proof (rule returns_bind [OF r1])
      fix st2 assume "st_ok (w + 48) st2"
      from pwxRoundWrite2_ok [OF this]
      have "returns (st_ok (w + 64)) (pwxRoundWrite2 st2)" using w w2 by (simp add: add.assoc)
      then obtain x c where c: "pwxRoundWrite2 st2 = Some (x, c)" "st_ok (w + 64) (x, c)"
        by (auto simp: returns_def)
      with w2 masked_position [of "w + 64"] show "returns box_ok (do { (x, ctx) \<leftarrow> pwxRoundWrite2 st2;
        Some (x, ctx\<lparr>cw := cw ctx AND sMask, s0 := s2 (ctx\<lparr>cw := cw ctx AND sMask\<rparr>),
          s1 := s0 (ctx\<lparr>cw := cw ctx AND sMask\<rparr>), s2 := s1 (ctx\<lparr>cw := cw ctx AND sMask\<rparr>)\<rparr>) })"
        by (auto simp: st_ok_def box_ok_def ctx_ok_def parts_ok_def)
    qed
  qed (use w in simp_all)
qed

lemma pwxform_ok:
  assumes "box_ok st"
  shows "returns box_ok (pwxform st)"
proof -
  have p: "returns box_ok (plainRound st)" if "box_ok st" for st
    by (rule returns_mono [OF plainRound_ok [where w = "cw (snd st)"]])
      (use that in \<open>auto simp: st_ok_def box_ok_def ctx_ok_def\<close>)
  show ?thesis
    unfolding pwxform_def
    by (intro returns_bind [where Q = box_ok] p pwxWrites_ok assms)
qed

end
