(* ===== verification/YespowerMixing.thy ===== *)
theory YespowerMixing
  imports YespowerSpec
begin

text \<open>
  \<open>BlockMix\<close> as a function from blocks to blocks, and the proof that the in-place loops of
  \<^verbatim>\<open>yespower_pure.go\<close> compute it: they read their inputs, write the mixed blocks to
  the output and leave the rest of the memory alone.
\<close>

section \<open>Regions of the slices\<close>

definition region :: "ypMem \<Rightarrow> ypArr \<Rightarrow> nat \<Rightarrow> nat \<Rightarrow> ypBlock list" where
  "region m a i n = take n (drop i (sliceOf m a))"

definition patch :: "ypMem \<Rightarrow> ypArr \<Rightarrow> nat \<Rightarrow> ypBlock list \<Rightarrow> ypMem" where
  "patch m a i bs = setSlice m a (take i (sliceOf m a) @ bs @ drop (i + length bs) (sliceOf m a))"

definition inside :: "ypMem \<Rightarrow> ypArr \<Rightarrow> nat \<Rightarrow> nat \<Rightarrow> bool" where
  "inside m a i n \<longleftrightarrow> i + n \<le> length (sliceOf m a)"

definition mem_ok :: "ypMem \<Rightarrow> bool" where
  "mem_ok m \<longleftrightarrow> blocks (memV m) \<and> blocks (memXY m)"

text \<open>An input may be overwritten only where it has been read.\<close>

definition apart :: "ypArr \<Rightarrow> nat \<Rightarrow> ypArr \<Rightarrow> nat \<Rightarrow> nat \<Rightarrow> bool" where
  "apart bin i bout k n \<longleftrightarrow> bin \<noteq> bout \<or> k \<le> i \<or> i + n \<le> k"

lemma slice_setSlice [simp]: "sliceOf (setSlice m a bs) b = (if a = b then bs else sliceOf m b)"
  by (cases a; cases b) (simp_all add: sliceOf_def setSlice_def)

lemma setSlice_again [simp]: "setSlice (setSlice m a bs) a cs = setSlice m a cs"
  by (cases a) (simp_all add: setSlice_def)

lemma setSlice_slice [simp]: "setSlice m a (sliceOf m a) = m"
  by (cases a) (simp_all add: setSlice_def sliceOf_def)

lemma mem_ok_slice: "mem_ok m \<Longrightarrow> blocks (sliceOf m a)"
  by (cases a) (simp_all add: mem_ok_def sliceOf_def)

lemma mem_ok_setSlice: "mem_ok m \<Longrightarrow> blocks bs \<Longrightarrow> mem_ok (setSlice m a bs)"
  by (cases a) (simp_all add: mem_ok_def setSlice_def)

lemma slice_patch: "sliceOf (patch m a i bs) b =
    (if a = b then take i (sliceOf m a) @ bs @ drop (i + length bs) (sliceOf m a) else sliceOf m b)"
  by (simp add: patch_def)

lemma mem_ok_patch: "mem_ok m \<Longrightarrow> blocks bs \<Longrightarrow> mem_ok (patch m a i bs)"
  unfolding patch_def by (intro mem_ok_setSlice) (simp_all add: mem_ok_slice blocks_take blocks_drop)

lemma length_patch: "inside m a i (length bs) \<Longrightarrow> length (sliceOf (patch m a i bs) b) = length (sliceOf m b)"
  by (auto simp: slice_patch inside_def)

lemma inside_patch: "inside m a i (length bs) \<Longrightarrow> inside (patch m a i bs) b k n = inside m b k n"
  by (simp add: inside_def length_patch)

lemma inside_less: "inside m a i n \<Longrightarrow> k < n \<Longrightarrow> i + k < length (sliceOf m a)"
  by (simp add: inside_def)

lemma length_region: "inside m a i n \<Longrightarrow> length (region m a i n) = n"
  by (simp add: region_def inside_def)

lemma blocks_region: "mem_ok m \<Longrightarrow> blocks (region m a i n)"
  by (simp add: region_def blocks_take blocks_drop mem_ok_slice)

lemma region_Suc: "inside m a i (Suc n) \<Longrightarrow> region m a i (Suc n) = sliceOf m a ! i # region m a (Suc i) n"
  by (simp add: region_def inside_def take_Suc_conv_app_nth Cons_nth_drop_Suc [symmetric])

lemma last_region: "inside m a i (Suc n) \<Longrightarrow> last (region m a i (Suc n)) = sliceOf m a ! (i + n)"
  by (simp add: region_def inside_def last_conv_nth)

lemma region_patch:
  assumes "inside m a j (length bs)" "b \<noteq> a \<or> k + n \<le> j \<or> j + length bs \<le> k"
  shows "region (patch m a j bs) b k n = region m b k n"
proof (cases "b = a")
  case True
  then consider "k + n \<le> j" | "j + length bs \<le> k" using assms(2) by blast
  then show ?thesis
  proof cases
    case 1
    with True assms(1) show ?thesis
      by (simp add: region_def slice_patch inside_def min_absorb1 drop_take)
  next
    case 2
    have "drop k (take j (sliceOf m a) @ bs @ drop (j + length bs) (sliceOf m a)) = drop k (sliceOf m a)"
      using 2 assms(1) by (simp add: inside_def)
    with True show ?thesis by (simp add: region_def slice_patch)
  qed
qed (simp add: region_def slice_patch)

lemma region_patched: "inside m a i (length bs) \<Longrightarrow> region (patch m a i bs) a i (length bs) = bs"
  by (simp add: region_def slice_patch inside_def)

lemma patch_patch:
  assumes "inside m a i (Suc (length bs))"
  shows "patch (patch m a i [b]) a (Suc i) bs = patch m a i (b # bs)"
  using assms by (simp add: patch_def inside_def add.commute)

lemma patch_again:
  assumes "inside m a i (Suc 0)"
  shows "patch (patch m a i [c]) a i [b] = patch m a i [b]"
  using assms by (simp add: patch_def inside_def)

lemma patch_region: "inside m a i n \<Longrightarrow> patch m a i (region m a i n) = m"
proof -
  assume "inside m a i n"
  moreover have "take i (sliceOf m a) @ take n (drop i (sliceOf m a)) @ drop (i + n) (sliceOf m a) = sliceOf m a"
    by (metis append_assoc append_take_drop_id take_add)
  ultimately show ?thesis by (simp add: patch_def length_region) (simp add: region_def)
qed

lemma mget_inside: "i < length (sliceOf m a) \<Longrightarrow> mget m a i = Some (sliceOf m a ! i)"
  by (simp add: mget_def)

lemma mput_patch: "i < length (sliceOf m a) \<Longrightarrow> mput m a i b = Some (patch m a i [b])"
  by (simp add: mput_def patch_def upd_conv_take_nth_drop)

lemma block_at: "mem_ok m \<Longrightarrow> i < length (sliceOf m a) \<Longrightarrow> is_block (sliceOf m a ! i)"
  by (simp add: mem_ok_slice blocks_nth)

lemma salsaInto_patch:
  assumes "is_block x" "mem_ok m" "i < length (sliceOf m a)"
  shows "salsaInto x a i m = do { y \<leftarrow> salsaBlock x; Some (y, patch m a i [y]) }"
  using assms salsaBlock_total [of x]
  by (auto simp: salsaInto_def mget_inside mput_patch block_at salsa20_salsaBlock returns_def)

section \<open>The specification\<close>

text \<open>
  \<open>BlockMix\<close> of the yespower paper: each block is mixed into a running block \<open>X\<close>, which
  starts as the last one, and \<open>X\<close> is the output; with S-boxes the function applied is
  \<open>pwxform\<close>, followed by Salsa20 for the last block, without them it is Salsa20.
\<close>

fun mixSalsa :: "ypBlock \<Rightarrow> ypBlock list \<Rightarrow> ypBlock list option" where
  "mixSalsa x [] = Some []"
| "mixSalsa x (c # cs) = do { x \<leftarrow> salsaBlock (bxor x c); os \<leftarrow> mixSalsa x cs; Some (x # os) }"

fun mixPwx :: "ypBlock \<Rightarrow> ypBlock list \<Rightarrow> ypCtx \<Rightarrow> (ypBlock list \<times> ypCtx) option" where
  "mixPwx x [] ctx = Some ([], ctx)"
| "mixPwx x (c # cs) ctx =
     do { (x, ctx) \<leftarrow> pwxform (bxor x c, ctx);
          x \<leftarrow> (if cs = [] then salsaBlock x else Some x);
          (os, ctx) \<leftarrow> mixPwx x cs ctx;
          Some (x # os, ctx) }"

definition BlockMix :: "ypCtx option \<Rightarrow> ypBlock list \<Rightarrow> (ypBlock list \<times> ypCtx option) option" where
  "BlockMix ctx cs =
     (case ctx of
       None \<Rightarrow> do { os \<leftarrow> mixSalsa (last cs) cs; Some (os, None) }
     | Some c \<Rightarrow> do { (os, c) \<leftarrow> mixPwx (last cs) cs c; Some (os, Some c) })"

definition mixed :: "nat \<Rightarrow> ypBlock list \<Rightarrow> bool" where
  "mixed n os \<longleftrightarrow> length os = n \<and> blocks os"

lemma mixSalsa_total: "is_block x \<Longrightarrow> blocks cs \<Longrightarrow> returns (mixed (length cs)) (mixSalsa x cs)"
proof (induction x cs rule: mixSalsa.induct)
  case (2 x c cs)
  then obtain y where y: "salsaBlock (bxor x c) = Some y" "is_block y"
    using salsaBlock_total [of "bxor x c"] by (auto simp: returns_def)
  with 2 show ?case by (auto simp: returns_def mixed_def)
qed (simp add: mixed_def)

lemma pwxform_Some:
  assumes "is_block x" "ctx_ok ctx"
  obtains y c where "pwxform (x, ctx) = Some (y, c)" "is_block y" "ctx_ok c"
  using pwxform_ok [of "(x, ctx)"] assms by (auto simp: returns_def box_ok_def)

lemma salsaBlock_Some:
  assumes "is_block x"
  obtains y where "salsaBlock x = Some y" "is_block y"
  using salsaBlock_total [OF assms] by (auto simp: returns_def)

lemma mixPwx_total:
  "is_block x \<Longrightarrow> blocks cs \<Longrightarrow> ctx_ok ctx \<Longrightarrow>
    returns (\<lambda>(os, c). mixed (length cs) os \<and> ctx_ok c) (mixPwx x cs ctx)"
proof (induction cs arbitrary: x ctx)
  case (Cons c cs)
  obtain y c1 where y: "pwxform (bxor x c, ctx) = Some (y, c1)" "is_block y" "ctx_ok c1"
    using pwxform_Some [of "bxor x c" ctx] Cons.prems by auto
  obtain z where z: "(if cs = [] then salsaBlock y else Some y) = Some z" "is_block z"
    using y(2) salsaBlock_Some [OF y(2)] by (cases "cs = []") force+
  obtain os c2 where "mixPwx z cs c1 = Some (os, c2)" "mixed (length cs) os" "ctx_ok c2"
    using Cons.IH [OF z(2) _ y(3)] Cons.prems by (auto simp: returns_def)
  with y z Cons.prems show ?case by (simp add: mixed_def)
qed (simp add: mixed_def)

definition box_fits :: "nat \<Rightarrow> ypCtx option \<Rightarrow> bool" where
  "box_fits r ctx \<longleftrightarrow> 0 < r \<and> (case ctx of None \<Rightarrow> r = 1 | Some c \<Rightarrow> ctx_ok c)"

lemma BlockMix_total:
  assumes "blocks cs" "cs \<noteq> []" "box_fits r ctx"
  shows "returns (\<lambda>(os, c). mixed (length cs) os \<and> box_fits r c) (BlockMix ctx cs)"
proof -
  have l: "is_block (last cs)" using assms by (simp add: blocks_def)
  show ?thesis
    using mixSalsa_total [OF l assms(1)] mixPwx_total [OF l assms(1)] assms(3)
    by (cases ctx) (force simp: BlockMix_def box_fits_def returns_def)+
qed

end
