(* ===== verification/YespowerLoops.thy ===== *)
theory YespowerLoops
  imports YespowerMixing
begin

text \<open>
  The loops of \<open>blockmix\<close>, \<open>blockmixXor\<close> and \<open>blockmixXorSave\<close> compute
  \<open>BlockMix\<close> in place.
\<close>

section \<open>blockmix\<close>

lemma region_unread:
  assumes "apart bin bi bout bo (Suc n)" "i < n" "inside m bout (bo + i) (Suc 0)"
  shows "region (patch m bout (bo + i) [b]) bin (bi + Suc i) (n - i) = region m bin (bi + Suc i) (n - i)"
  using assms by (intro region_patch) (auto simp: apart_def)

lemma inside_one: "inside m a i n \<Longrightarrow> k < n \<Longrightarrow> inside m a (i + k) (Suc 0)"
  by (simp add: inside_def)

lemma blockmixLoop_spec:
  assumes "mem_ok m" "is_block x" "ctx_ok ctx" "i \<le> rr"
    and "inside m bin bi (Suc rr)" "inside m bout bo (Suc rr)" "apart bin bi bout bo (Suc rr)"
  shows "blockmixLoop bin bi bout bo rr i x m ctx =
    do { (os, ctx) \<leftarrow> mixPwx x (region m bin (bi + i) (Suc rr - i)) ctx; Some (patch m bout (bo + i) os, ctx) }"
  using assms
proof (induction "rr - i" arbitrary: i x m ctx)
  case (0 i x m ctx)
  then have i: "i = rr" by simp
  have r: "region m bin (bi + rr) (Suc 0) = [sliceOf m bin ! (bi + rr)]"
    using 0(6) region_Suc [of m bin "bi + rr" 0] by (simp add: inside_def region_def)
  have b: "bi + rr < length (sliceOf m bin)" "bo + rr < length (sliceOf m bout)"
    using 0(6, 7) by (simp_all add: inside_def)
  obtain y c where y: "pwxform (bxor x (sliceOf m bin ! (bi + rr)), ctx) = Some (y, c)" "is_block y" "ctx_ok c"
    using pwxform_Some [of "bxor x (sliceOf m bin ! (bi + rr))" ctx] 0 b by (auto simp: block_at)
  obtain z where z: "salsaBlock y = Some z" using salsaBlock_Some [OF y(2)] .
  show ?case
    using 0 b y z by (simp add: i r blockmixLoop.simps [of _ _ _ _ rr rr] mget_inside block_at xorBlock_bxor
        salsaInto_patch)
next
  case (Suc k i x m ctx)
  then have i: "i < rr" by simp
  have b: "bi + i < length (sliceOf m bin)" "bo + i < length (sliceOf m bout)"
    using Suc.prems i by (simp_all add: inside_def)
  have r: "region m bin (bi + i) (Suc rr - i) = sliceOf m bin ! (bi + i) # region m bin (bi + Suc i) (rr - i)"
    using region_Suc [of m bin "bi + i" "rr - i"] Suc.prems i by (simp add: inside_def Suc_diff_le)
  have o1: "inside m bout (bo + i) (Suc 0)" using b by (simp add: inside_def)
  obtain y c where y: "pwxform (bxor x (sliceOf m bin ! (bi + i)), ctx) = Some (y, c)" "is_block y" "ctx_ok c"
    using pwxform_Some [of "bxor x (sliceOf m bin ! (bi + i))" ctx] Suc.prems b by (auto simp: block_at)
  let ?m = "patch m bout (bo + i) [y]"
  have m: "mem_ok ?m" "inside ?m bin bi (Suc rr)" "inside ?m bout bo (Suc rr)"
    using Suc.prems y o1 by (simp_all add: mem_ok_patch inside_patch)
  have same: "region ?m bin (bi + Suc i) (rr - i) = region m bin (bi + Suc i) (rr - i)"
    by (rule region_unread [OF Suc.prems(7) i o1])
  have ne: "region m bin (bi + Suc i) (rr - i) \<noteq> []"
    using i Suc.prems(5) by (simp add: region_def inside_def)
  obtain os c2 where os: "mixPwx y (region m bin (bi + Suc i) (rr - i)) c = Some (os, c2)" "length os = rr - i"
    using mixPwx_total [OF y(2) blocks_region [OF Suc.prems(1)] y(3), of bin "bi + Suc i" "rr - i"] Suc.prems(5) i
    by (auto simp: returns_def mixed_def length_region inside_def)
  have "blockmixLoop bin bi bout bo rr (Suc i) y ?m c = Some (patch ?m bout (bo + Suc i) os, c2)"
    using Suc.hyps(1) [of "Suc i" ?m y c] Suc.hyps(2) Suc.prems(7) m y i os same by simp
  also have "patch ?m bout (bo + Suc i) os = patch m bout (bo + i) (y # os)"
    using patch_patch [of m bout "bo + i" os y] Suc.prems(6) i os(2) by (simp add: inside_def)
  finally show ?case
    using Suc.prems b y os r ne i
    by (simp add: blockmixLoop.simps [of _ _ _ _ rr i] mget_inside mput_patch block_at xorBlock_bxor)
qed

lemma blockmixSalsa_spec:
  assumes "mem_ok m" "inside m bin bi 2" "inside m bout bo 2" "apart bin bi bout bo 2"
  shows "blockmixSalsa bin bi bout bo m =
    do { os \<leftarrow> mixSalsa (last (region m bin bi 2)) (region m bin bi 2); Some (patch m bout bo os) }"
proof -
  have b: "bi < length (sliceOf m bin)" "Suc bi < length (sliceOf m bin)"
    "bo < length (sliceOf m bout)" "Suc bo < length (sliceOf m bout)"
    using assms by (simp_all add: inside_def)
  let ?c0 = "sliceOf m bin ! bi" and ?c1 = "sliceOf m bin ! Suc bi"
  have r: "region m bin bi 2 = [?c0, ?c1]"
    using assms(2) region_Suc [of m bin bi 1] region_Suc [of m bin "Suc bi" 0]
    by (simp add: numeral_2_eq_2 inside_def region_def)
  note c = block_at [OF assms(1) b(1)] block_at [OF assms(1) b(2)]
  obtain y where y: "salsaBlock (bxor ?c1 ?c0) = Some y" "is_block y"
    using c salsaBlock_Some [of "bxor ?c1 ?c0"] by auto
  obtain z where z: "salsaBlock (bxor y ?c1) = Some z" "is_block z"
    using c y salsaBlock_Some [of "bxor y ?c1"] by auto
  let ?m = "patch m bout bo [y]"
  have o1: "inside m bout bo (Suc 0)" using b by (simp add: inside_def)
  have "region ?m bin (bi + Suc 0) (1 - 0) = region m bin (bi + Suc 0) (1 - 0)"
    using region_unread [of bin bi bout bo 1 0 m y] assms(4) o1 by (simp add: numeral_2_eq_2)
  then have same: "sliceOf ?m bin ! Suc bi = ?c1"
    using region_Suc [of ?m bin "Suc bi" 0] region_Suc [of m bin "Suc bi" 0] b o1 length_patch [of m bout bo "[y]" bin]
    by (simp add: inside_def)
  have l: "length (sliceOf ?m a) = length (sliceOf m a)" for a using o1 by (simp add: length_patch)
  show ?thesis
    using assms b c y z same l patch_patch [of m bout bo "[z]" y] mem_ok_patch [of m "[y]" bout bo]
    by (simp add: blockmixSalsa_def r mget_inside xorBlock_bxor salsaInto_patch inside_def)
qed

section \<open>blockmixXor\<close>

definition xorRegion :: "ypMem \<Rightarrow> ypArr \<Rightarrow> nat \<Rightarrow> ypArr \<Rightarrow> nat \<Rightarrow> nat \<Rightarrow> ypBlock list" where
  "xorRegion m b1 i1 b2 i2 n = map2 bxor (region m b1 i1 n) (region m b2 i2 n)"

lemma nth_region: "inside m a i n \<Longrightarrow> k < n \<Longrightarrow> region m a i n ! k = sliceOf m a ! (i + k)"
  by (simp add: region_def inside_def)

lemma xorRegion_Suc:
  "inside m b1 i1 (Suc n) \<Longrightarrow> inside m b2 i2 (Suc n) \<Longrightarrow>
    xorRegion m b1 i1 b2 i2 (Suc n) =
      bxor (sliceOf m b1 ! i1) (sliceOf m b2 ! i2) # xorRegion m b1 (Suc i1) b2 (Suc i2) n"
  by (simp add: xorRegion_def region_Suc)

lemma length_xorRegion:
  "inside m b1 i1 n \<Longrightarrow> inside m b2 i2 n \<Longrightarrow> length (xorRegion m b1 i1 b2 i2 n) = n"
  by (simp add: xorRegion_def length_region)

lemma blocks_map2_bxor: "blocks xs \<Longrightarrow> blocks ys \<Longrightarrow> blocks (map2 bxor xs ys)"
  by (auto simp: blocks_def dest!: set_zip_leftD set_zip_rightD intro!: is_block_bxor
      elim!: in_set_zipE)

lemma blocks_xorRegion: "mem_ok m \<Longrightarrow> blocks (xorRegion m b1 i1 b2 i2 n)"
  by (simp add: xorRegion_def blocks_map2_bxor blocks_region)

lemma last_xorRegion:
  "inside m b1 i1 (Suc n) \<Longrightarrow> inside m b2 i2 (Suc n) \<Longrightarrow>
    last (xorRegion m b1 i1 b2 i2 (Suc n)) = bxor (sliceOf m b1 ! (i1 + n)) (sliceOf m b2 ! (i2 + n))"
proof -
  assume i: "inside m b1 i1 (Suc n)" "inside m b2 i2 (Suc n)"
  then have "last (xorRegion m b1 i1 b2 i2 (Suc n)) = xorRegion m b1 i1 b2 i2 (Suc n) ! n"
    using length_xorRegion [OF i] by (subst last_conv_nth) auto
  also have "\<dots> = bxor (region m b1 i1 (Suc n) ! n) (region m b2 i2 (Suc n) ! n)"
    using i by (simp add: xorRegion_def length_region)
  finally show ?thesis using i by (simp add: nth_region)
qed

text \<open>What is still to be read is not touched by a write behind it.\<close>

lemma unread:
  assumes "apart b i bout bo n" "k < j" "j + q \<le> n" "inside m bout bo n"
  shows "region (patch m bout (bo + k) [y]) b (i + j) q = region m b (i + j) q"
  using assms by (intro region_patch) (auto simp: apart_def inside_def)

lemma next_unread:
  assumes "apart b i bout bo n" "Suc k < n" "inside m bout bo n" "inside m b i n"
  shows "sliceOf (patch m bout (bo + k) [y]) b ! (i + Suc k) = sliceOf m b ! (i + Suc k)"
proof -
  have o1: "inside m bout (bo + k) (length [y])" using assms by (simp add: inside_def)
  have "inside (patch m bout (bo + k) [y]) b (i + Suc k) (n - Suc k)" "inside m b (i + Suc k) (n - Suc k)"
    using assms inside_patch [OF o1] by (simp_all add: inside_def)
  then show ?thesis
    using unread [OF assms(1) _ _ assms(3), of k "Suc k" "n - Suc k" y] assms(2)
      nth_region [of "patch m bout (bo + k) [y]" b "i + Suc k" "n - Suc k" 0]
      nth_region [of m b "i + Suc k" "n - Suc k" 0] by simp
qed

lemma blockmixXorLoop_spec:
  assumes "mem_ok m" "is_block x" "ctx_ok ctx" "rr = i + 2 * k"
    and "inside m b1 i1 (rr + 2)" "inside m b2 i2 (rr + 2)" "inside m bout bo (rr + 2)"
    and "apart b1 i1 bout bo (rr + 2)" "apart b2 i2 bout bo (rr + 2)"
  shows "blockmixXorLoop b1 i1 b2 i2 bout bo rr i x m ctx =
    do { (os, ctx) \<leftarrow> mixPwx x (xorRegion m b1 (i1 + i) b2 (i2 + i) (2 * k + 2)) ctx;
         j \<leftarrow> getW (last os) 0;
         Some (j, patch m bout (bo + i) os, ctx) }"
  using assms
proof (induction k arbitrary: i x m ctx)
  case (0 i x m ctx)
  have b: "i1 + i < length (sliceOf m b1)" "i2 + i < length (sliceOf m b2)" "bo + i < length (sliceOf m bout)"
    "Suc (i1 + i) < length (sliceOf m b1)" "Suc (i2 + i) < length (sliceOf m b2)" "Suc (bo + i) < length (sliceOf m bout)"
    using 0 by (simp_all add: inside_def)
  let ?c = "\<lambda>k. sliceOf m b1 ! (i1 + k)" and ?d = "\<lambda>k. sliceOf m b2 ! (i2 + k)"
  have cd: "is_block (?c i)" "is_block (?d i)" "is_block (?c (Suc i))" "is_block (?d (Suc i))"
    using 0(1) b by (simp_all add: block_at)
  have xr: "xorRegion m b1 (i1 + i) b2 (i2 + i) (2 * 0 + 2) =
      [bxor (?c i) (?d i), bxor (?c (Suc i)) (?d (Suc i))]"
    using 0(5, 6) 0(4) by (simp add: numeral_2_eq_2 xorRegion_Suc inside_def) (simp add: xorRegion_def region_def)
  obtain y c1 where y: "pwxform (bxor x (bxor (?c i) (?d i)), ctx) = Some (y, c1)" "is_block y" "ctx_ok c1"
    using pwxform_Some [of "bxor x (bxor (?c i) (?d i))" ctx] 0 cd by auto
  obtain z c2 where z: "pwxform (bxor y (bxor (?c (Suc i)) (?d (Suc i))), c1) = Some (z, c2)" "is_block z" "ctx_ok c2"
    using pwxform_Some [of "bxor y (bxor (?c (Suc i)) (?d (Suc i)))" c1] y cd by auto
  obtain w where w: "salsaBlock z = Some w" "is_block w" using salsaBlock_Some [OF z(2)] .
  let ?m = "patch m bout (bo + i) [y]"
  have o1: "inside m bout (bo + i) (length [y])" using b by (simp add: inside_def)
  have l: "length (sliceOf ?m a) = length (sliceOf m a)" for a using length_patch [OF o1] .
  have n: "sliceOf ?m b1 ! Suc (i1 + i) = ?c (Suc i)" "sliceOf ?m b2 ! Suc (i2 + i) = ?d (Suc i)"
    using next_unread [of b1 i1 bout bo "rr + 2" i m y] next_unread [of b2 i2 bout bo "rr + 2" i m y] 0 by simp_all
  have p: "patch ?m bout (Suc (bo + i)) [w] = patch m bout (bo + i) [y, w]"
    using patch_patch [of m bout "bo + i" "[w]" y] b by (simp add: inside_def)
  have mk: "mem_ok ?m" using 0(1) y by (simp add: mem_ok_patch)
  show ?case
    unfolding xr blockmixXorLoop.simps [of _ _ _ _ _ _ rr i]
    using 0 b cd y z w l n p mk
    by (simp add: mget_inside mput_patch xorBlock_bxor bxor_assoc salsaInto_patch)
next
  case (Suc k i x m ctx)
  have b: "i1 + i < length (sliceOf m b1)" "i2 + i < length (sliceOf m b2)" "bo + i < length (sliceOf m bout)"
    "Suc (i1 + i) < length (sliceOf m b1)" "Suc (i2 + i) < length (sliceOf m b2)" "Suc (bo + i) < length (sliceOf m bout)"
    using Suc.prems by (simp_all add: inside_def)
  let ?c = "\<lambda>k. sliceOf m b1 ! (i1 + k)" and ?d = "\<lambda>k. sliceOf m b2 ! (i2 + k)"
  have cd: "is_block (?c i)" "is_block (?d i)" "is_block (?c (Suc i))" "is_block (?d (Suc i))"
    using Suc.prems(1) b by (simp_all add: block_at)
  obtain y c1 where y: "pwxform (bxor x (bxor (?c i) (?d i)), ctx) = Some (y, c1)" "is_block y" "ctx_ok c1"
    using pwxform_Some [of "bxor x (bxor (?c i) (?d i))" ctx] Suc.prems cd by auto
  obtain z c2 where z: "pwxform (bxor y (bxor (?c (Suc i)) (?d (Suc i))), c1) = Some (z, c2)" "is_block z" "ctx_ok c2"
    using pwxform_Some [of "bxor y (bxor (?c (Suc i)) (?d (Suc i)))" c1] y cd by auto
  let ?m = "patch m bout (bo + i) [y]"
  let ?m2 = "patch ?m bout (bo + Suc i) [z]"
  have o1: "inside m bout (bo + i) (length [y])" using b by (simp add: inside_def)
  have l: "length (sliceOf ?m a) = length (sliceOf m a)" for a using length_patch [OF o1] .
  have o2: "inside ?m bout (bo + Suc i) (length [z])" using b l by (simp add: inside_def)
  have mk: "mem_ok ?m" "mem_ok ?m2" using Suc.prems(1) y z by (simp_all add: mem_ok_patch)
  have ins: "inside ?m a j n = inside m a j n" "inside ?m2 a j n = inside m a j n" for a j n
    using inside_patch [OF o1] inside_patch [OF o2] by simp_all
  have n: "sliceOf ?m b1 ! Suc (i1 + i) = ?c (Suc i)" "sliceOf ?m b2 ! Suc (i2 + i) = ?d (Suc i)"
    using next_unread [of b1 i1 bout bo "rr + 2" i m y] next_unread [of b2 i2 bout bo "rr + 2" i m y] Suc.prems
    by simp_all
  have rest: "xorRegion ?m2 b1 (i1 + (i + 2)) b2 (i2 + (i + 2)) (2 * k + 2) =
      xorRegion m b1 (i1 + (i + 2)) b2 (i2 + (i + 2)) (2 * k + 2)"
    unfolding xorRegion_def
    using unread [OF Suc.prems(8), of "Suc i" "i + 2" "2 * k + 2" ?m z] unread [OF Suc.prems(8), of i "i + 2" "2 * k + 2" m y]
      unread [OF Suc.prems(9), of "Suc i" "i + 2" "2 * k + 2" ?m z] unread [OF Suc.prems(9), of i "i + 2" "2 * k + 2" m y]
      Suc.prems ins by simp
  have xr: "xorRegion m b1 (i1 + i) b2 (i2 + i) (2 * Suc k + 2) =
      bxor (?c i) (?d i) # bxor (?c (Suc i)) (?d (Suc i)) # xorRegion m b1 (i1 + (i + 2)) b2 (i2 + (i + 2)) (2 * k + 2)"
    using Suc.prems by (simp add: numeral_eq_Suc xorRegion_Suc inside_def)
  obtain os c3 where os: "mixPwx z (xorRegion m b1 (i1 + (i + 2)) b2 (i2 + (i + 2)) (2 * k + 2)) c2 = Some (os, c3)"
      "length os = 2 * k + 2" "blocks os"
    using mixPwx_total [OF z(2) blocks_xorRegion [OF Suc.prems(1)] z(3), of b1 "i1 + (i + 2)" b2 "i2 + (i + 2)" "2 * k + 2"]
      Suc.prems by (auto simp: returns_def mixed_def length_xorRegion inside_def)
  have ne: "xorRegion m b1 (i1 + (i + 2)) b2 (i2 + (i + 2)) (2 * k + 2) \<noteq> []"
    using length_xorRegion [of m b1 "i1 + (i + 2)" "2 * k + 2" b2 "i2 + (i + 2)"] Suc.prems by (auto simp: inside_def)
  have ih: "blockmixXorLoop b1 i1 b2 i2 bout bo rr (i + 2) z ?m2 c2 =
      do { j \<leftarrow> getW (last os) 0; Some (j, patch ?m2 bout (bo + (i + 2)) os, c3) }"
    using Suc.IH [of ?m2 z c2 "i + 2"] mk z Suc.prems ins rest os by simp
  have p: "patch ?m2 bout (bo + (i + 2)) os = patch m bout (bo + i) (y # z # os)"
  proof -
    have "patch ?m2 bout (Suc (bo + Suc i)) os = patch ?m bout (bo + Suc i) (z # os)"
      by (rule patch_patch, unfold ins(1)) (use os(2) Suc.prems in \<open>simp add: inside_def\<close>)
    moreover have "patch ?m bout (Suc (bo + i)) (z # os) = patch m bout (bo + i) (y # z # os)"
      by (rule patch_patch) (use os(2) Suc.prems in \<open>simp add: inside_def\<close>)
    ultimately show ?thesis by simp
  qed
  have "blockmixXorLoop b1 i1 b2 i2 bout bo rr i x m ctx = blockmixXorLoop b1 i1 b2 i2 bout bo rr (i + 2) z ?m2 c2"
    unfolding blockmixXorLoop.simps [of _ _ _ _ _ _ rr i]
    using Suc.prems b cd y z l n mk
    by (simp add: mget_inside mput_patch xorBlock_bxor bxor_assoc)
  then show ?case
    unfolding xr ih p using y z os ne by auto
qed

lemma blockmixSalsaXor_spec:
  assumes "mem_ok m" "inside m b1 i1 2" "inside m b2 i2 2" "inside m bout bo 2"
    "apart b1 i1 bout bo 2" "apart b2 i2 bout bo 2"
  shows "blockmixSalsaXor b1 i1 b2 i2 bout bo m =
    do { os \<leftarrow> mixSalsa (last (xorRegion m b1 i1 b2 i2 2)) (xorRegion m b1 i1 b2 i2 2);
         j \<leftarrow> getW (last os) 0;
         Some (j, patch m bout bo os) }"
proof -
  have b: "i1 < length (sliceOf m b1)" "Suc i1 < length (sliceOf m b1)" "i2 < length (sliceOf m b2)"
    "Suc i2 < length (sliceOf m b2)" "bo < length (sliceOf m bout)" "Suc bo < length (sliceOf m bout)"
    using assms by (simp_all add: inside_def)
  let ?c = "\<lambda>k. sliceOf m b1 ! (i1 + k)" and ?d = "\<lambda>k. sliceOf m b2 ! (i2 + k)"
  have cd: "is_block (?c 0)" "is_block (?d 0)" "is_block (?c 1)" "is_block (?d 1)"
    using assms(1) b by (simp_all add: block_at)
  have xr: "xorRegion m b1 i1 b2 i2 2 = [bxor (?c 0) (?d 0), bxor (?c 1) (?d 1)]"
    using assms by (simp add: numeral_2_eq_2 xorRegion_Suc inside_def) (simp add: xorRegion_def region_def)
  obtain y where y: "salsaBlock (bxor (bxor (?c 1) (?d 1)) (bxor (?c 0) (?d 0))) = Some y" "is_block y"
    using cd salsaBlock_Some [of "bxor (bxor (?c 1) (?d 1)) (bxor (?c 0) (?d 0))"] by auto
  obtain z where z: "salsaBlock (bxor y (bxor (?c 1) (?d 1))) = Some z" "is_block z"
    using cd y salsaBlock_Some [of "bxor y (bxor (?c 1) (?d 1))"] by auto
  let ?m = "patch m bout bo [y]"
  have o1: "inside m bout bo (length [y])" using b by (simp add: inside_def)
  have l: "length (sliceOf ?m a) = length (sliceOf m a)" for a using length_patch [OF o1] .
  have n: "sliceOf ?m b1 ! Suc i1 = ?c 1" "sliceOf ?m b2 ! Suc i2 = ?d 1"
    using next_unread [of b1 i1 bout bo 2 0 m y] next_unread [of b2 i2 bout bo 2 0 m y] assms by simp_all
  have p: "patch ?m bout (Suc bo) [z] = patch m bout bo [y, z]"
    using patch_patch [of m bout bo "[z]" y] b by (simp add: inside_def)
  have mk: "mem_ok ?m" using assms(1) y by (simp add: mem_ok_patch)
  show ?thesis
    using assms(1) b cd y z l n p mk
    by (simp add: xr blockmixSalsaXor_def mget_inside xorBlock_bxor bxor_assoc salsaInto_patch)
qed

section \<open>blockmixXorSave\<close>

text \<open>
  The value saved in \<open>binout\<close> is overwritten before it is read: the loop does what
  \<open>blockmixXor\<close> does with \<open>binout\<close> as its first input and its output.
\<close>

lemma xorSaveLoop_eq:
  assumes "mem_ok m" "is_block x" "ctx_ok ctx" "rr = i + 2 * k" "b1 \<noteq> b2"
    and "inside m b1 i1 (rr + 2)" "inside m b2 i2 (rr + 2)"
  shows "xorSaveLoop b1 i1 b2 i2 rr i x m ctx = blockmixXorLoop b1 i1 b2 i2 b1 i1 rr i x m ctx"
  using assms
proof (induction k arbitrary: i x m ctx rule: less_induct)
  case (less k i x m ctx)
  have b: "i1 + i < length (sliceOf m b1)" "i2 + i < length (sliceOf m b2)"
    "Suc (i1 + i) < length (sliceOf m b1)" "Suc (i2 + i) < length (sliceOf m b2)"
    using less.prems by (simp_all add: inside_def)
  let ?c = "\<lambda>k. sliceOf m b1 ! (i1 + k)" and ?d = "\<lambda>k. sliceOf m b2 ! (i2 + k)"
  let ?y = "bxor (?c i) (?d i)" and ?y' = "bxor (?c (Suc i)) (?d (Suc i))"
  have cd: "is_block (?c i)" "is_block (?d i)" "is_block (?c (Suc i))" "is_block (?d (Suc i))"
    using less.prems(1) b by (simp_all add: block_at)
  obtain y c1 where y: "pwxform (bxor x ?y, ctx) = Some (y, c1)" "is_block y" "ctx_ok c1"
    using pwxform_Some [of "bxor x ?y" ctx] less.prems cd by auto
  obtain z c2 where z: "pwxform (bxor y ?y', c1) = Some (z, c2)" "is_block z" "ctx_ok c2"
    using pwxform_Some [of "bxor y ?y'" c1] y cd by auto
  let ?m = "patch m b1 (i1 + i) [y]"
  have o: "inside m b1 (i1 + i) (Suc 0)" "inside ?m b1 (Suc (i1 + i)) (Suc 0)" "inside m b1 (i1 + i) (length [q])" for q
    using b length_patch [of m b1 "i1 + i" "[y]" b1] by (simp_all add: inside_def)
  have l: "length (sliceOf (patch m b1 (i1 + i) [q]) a) = length (sliceOf m a)"
    "length (sliceOf (patch ?m b1 (Suc (i1 + i)) [q]) a) = length (sliceOf m a)" for q a
    using length_patch [of m b1 "i1 + i" "[q]" a] length_patch [of ?m b1 "Suc (i1 + i)" "[q]" a]
      length_patch [of m b1 "i1 + i" "[y]" a] o by simp_all
  have n: "sliceOf ?m b1 ! Suc (i1 + i) = ?c (Suc i)" "sliceOf ?m b2 ! Suc (i2 + i) = ?d (Suc i)"
    using next_unread [of b1 i1 b1 i1 "rr + 2" i m y] next_unread [of b2 i2 b1 i1 "rr + 2" i m y] less.prems
    by (simp_all add: apart_def)
  have again: "patch (patch m b1 (i1 + i) [q]) b1 (i1 + i) [y] = ?m"
    "patch (patch ?m b1 (Suc (i1 + i)) [q]) b1 (Suc (i1 + i)) [w] = patch ?m b1 (Suc (i1 + i)) [w]" for q w
    using patch_again o by blast+
  have mk: "mem_ok ?m" "mem_ok (patch ?m b1 (Suc (i1 + i)) [?y'])" "mem_ok (patch ?m b1 (Suc (i1 + i)) [z])"
    using less.prems(1) y z cd by (simp_all add: mem_ok_patch)
  show ?case
  proof (cases "rr \<le> i")
    case True
    obtain w where w: "salsaBlock z = Some w" "is_block w" using salsaBlock_Some [OF z(2)] .
    from True show ?thesis
      unfolding blockmixXorLoop.simps [of _ _ _ _ _ _ rr i] xorSaveLoop.simps [of _ _ _ _ rr i]
      using less.prems(1, 2) b cd y z w l n mk again
      by (simp add: mget_inside mput_patch xorBlock_bxor bxor_assoc salsaInto_patch)
  next
    case False
    then obtain k' where k': "k = Suc k'" using less.prems(4) by (cases k) simp_all
    have "xorSaveLoop b1 i1 b2 i2 rr (i + 2) z (patch ?m b1 (Suc (i1 + i)) [z]) c2 =
        blockmixXorLoop b1 i1 b2 i2 b1 i1 rr (i + 2) z (patch ?m b1 (Suc (i1 + i)) [z]) c2"
      using less.IH [of k' _ z c2 "i + 2"] k' less.prems z mk l by (simp add: inside_def)
    with False show ?thesis
      unfolding blockmixXorLoop.simps [of _ _ _ _ _ _ rr i] xorSaveLoop.simps [of _ _ _ _ rr i]
      using less.prems(1, 2) b cd y z l n mk again
      by (simp add: mget_inside mput_patch xorBlock_bxor bxor_assoc)
  qed
qed

section \<open>The operations\<close>

lemma blockmix_spec:
  assumes "mem_ok m" "box_fits r ctx" "inside m bin bi (2 * r)" "inside m bout bo (2 * r)"
    "apart bin bi bout bo (2 * r)"
  shows "blockmix bin bi bout bo r (m, ctx) =
    do { (os, c) \<leftarrow> BlockMix ctx (region m bin bi (2 * r)); Some (patch m bout bo os, c) }"
proof (cases ctx)
  case None
  then show ?thesis
    using assms blockmixSalsa_spec [of m bin bi bout bo]
    by (cases "mixSalsa (last (region m bin bi 2)) (region m bin bi 2)")
      (simp_all add: blockmix_def BlockMix_def box_fits_def)
next
  case (Some c)
  define rr where "rr = r * 2 - 1"
  have r: "2 * r = Suc rr" using assms(2) by (simp add: box_fits_def rr_def)
  have c: "ctx_ok c" using assms(2) Some by (simp add: box_fits_def)
  note ins = assms(3, 4, 5) [unfolded r]
  have x: "bi + rr < length (sliceOf m bin)" using ins by (simp add: inside_def)
  have spec: "blockmixLoop bin bi bout bo rr 0 (sliceOf m bin ! (bi + rr)) m c =
    do { (os, c) \<leftarrow> mixPwx (sliceOf m bin ! (bi + rr)) (region m bin bi (Suc rr)) c; Some (patch m bout bo os, c) }"
    using blockmixLoop_spec [OF assms(1) block_at [OF assms(1) x] c _ ins, of 0] by simp
  show ?thesis
    unfolding blockmix_def BlockMix_def Some prod.case option.case Let_def rr_def [symmetric] r
    by (cases "mixPwx (sliceOf m bin ! (bi + rr)) (region m bin bi (Suc rr)) c")
      (auto simp: mget_inside [OF x] spec last_region [OF ins(1)])
qed

lemma blockmixXor_spec:
  assumes "mem_ok m" "box_fits r ctx" "inside m b1 i1 (2 * r)" "inside m b2 i2 (2 * r)" "inside m bout bo (2 * r)"
    "apart b1 i1 bout bo (2 * r)" "apart b2 i2 bout bo (2 * r)"
  shows "blockmixXor b1 i1 b2 i2 bout bo r (m, ctx) =
    do { (os, c) \<leftarrow> BlockMix ctx (xorRegion m b1 i1 b2 i2 (2 * r));
         j \<leftarrow> getW (last os) 0;
         Some (j, patch m bout bo os, c) }"
proof (cases ctx)
  case None
  then show ?thesis
    using assms blockmixSalsaXor_spec [of m b1 i1 b2 i2 bout bo]
    by (cases "mixSalsa (last (xorRegion m b1 i1 b2 i2 2)) (xorRegion m b1 i1 b2 i2 2)")
      (auto simp: blockmixXor_def BlockMix_def box_fits_def bind_map_option bind_eq_Some_conv
        split: option.splits intro!: option.expand)
next
  case (Some c)
  define rr where "rr = r * 2 - 1"
  define q where "q = r - 1"
  have r: "2 * r = Suc rr" "rr - 1 = 2 * q" "Suc rr = 2 * q + 2"
    using assms(2) by (auto simp: box_fits_def rr_def q_def)
  have c: "ctx_ok c" using assms(2) Some by (simp add: box_fits_def)
  note ins = assms(3, 4, 5, 6, 7) [unfolded r(1)]
  note ins2 = ins [unfolded r(3)]
  have x: "i1 + rr < length (sliceOf m b1)" "i2 + rr < length (sliceOf m b2)"
    using ins by (simp_all add: inside_def)
  let ?c = "sliceOf m b1 ! (i1 + rr)" and ?d = "sliceOf m b2 ! (i2 + rr)"
  note ok = block_at [OF assms(1) x(1)] block_at [OF assms(1) x(2)]
  have spec: "blockmixXorLoop b1 i1 b2 i2 bout bo (2 * q) 0 (bxor ?c ?d) m c =
    do { (os, c) \<leftarrow> mixPwx (bxor ?c ?d) (xorRegion m b1 i1 b2 i2 (Suc rr)) c;
         j \<leftarrow> getW (last os) 0; Some (j, patch m bout bo os, c) }"
    using blockmixXorLoop_spec [OF assms(1) is_block_bxor [OF ok] c _ ins2, of 0 q] by (simp add: r(3))
  show ?thesis
    unfolding blockmixXor_def BlockMix_def Some prod.case option.case Let_def rr_def [symmetric] r(1, 2)
    unfolding mget_inside [OF x(1)] mget_inside [OF x(2)] bind.bind_lunit xorBlock_bxor [OF ok] spec
      last_xorRegion [OF ins(1, 2)] Option.bind_assoc
    by (simp add: case_prod_unfold)
qed

lemma blockmixXorSave_eq:
  assumes "mem_ok m" "box_fits r (Some c)" "b1 \<noteq> b2" "inside m b1 i1 (2 * r)" "inside m b2 i2 (2 * r)"
  shows "blockmixXorSave b1 i1 b2 i2 r (m, Some c) = blockmixXor b1 i1 b2 i2 b1 i1 r (m, Some c)"
proof -
  let ?rr = "r * 2 - 1"
  have r: "?rr - 1 = 2 * (r - 1)" "2 * (r - 1) + 2 = 2 * r" using assms(2) by (auto simp: box_fits_def)
  have x: "i1 + ?rr < length (sliceOf m b1)" "i2 + ?rr < length (sliceOf m b2)"
    using assms by (auto simp: inside_def box_fits_def)
  have ok: "is_block (sliceOf m b1 ! (i1 + ?rr))" "is_block (sliceOf m b2 ! (i2 + ?rr))"
    using assms(1) x by (simp_all add: block_at)
  show ?thesis
    using x ok xorSaveLoop_eq [of m "bxor (sliceOf m b1 ! (i1 + ?rr)) (sliceOf m b2 ! (i2 + ?rr))" c "?rr - 1" 0
        "r - 1" b1 b2 i1 i2] assms r
    by (simp add: blockmixXorSave_def blockmixXor_def Let_def mget_inside xorBlock_bxor box_fits_def)
qed

end
