(* ===== verification/YespowerFill.thy ===== *)
theory YespowerFill
  imports YespowerLoops
begin

text \<open>
  The first phase of yespower as its definition has it: each block is the mix of the one before
  it with an earlier one, chosen by \<open>Wrap\<close>. The doubling loops of \<open>smix1\<close>, with
  their incremental masks and positions, compute this sequence.
\<close>

section \<open>Wrap\<close>

text \<open>The largest power of two that is at most \<open>i\<close>.\<close>

fun p2floor :: "nat \<Rightarrow> nat" where
  "p2floor i = (if i < 2 then i else 2 * p2floor (i div 2))"

declare p2floor.simps [simp del]

definition wrap :: "u32 \<Rightarrow> nat \<Rightarrow> u32" where
  "wrap j i = (j AND of_nat (p2floor i - 1)) + of_nat (i - p2floor i)"

lemma p2floor_between: "e < 2 ^ p \<Longrightarrow> p2floor (2 ^ p + e) = 2 ^ p"
proof (induction p arbitrary: e)
  case 0
  then show ?case by (simp add: p2floor.simps)
next
  case (Suc p)
  have "(2 ^ Suc p + e) div 2 = 2 ^ p + e div 2" by simp
  with Suc.IH [of "e div 2"] Suc.prems show ?case
    by (subst p2floor.simps) simp
qed

lemma unat_small: "k < 2 ^ 32 \<Longrightarrow> unat (of_nat k :: u32) = k"
  by (simp add: unat_of_nat)

lemma masked_below:
  fixes j :: u32
  assumes "0 < p" "p \<le> i" "i < 2 ^ 32"
  shows "unat ((j AND of_nat (p - 1)) + of_nat (i - p)) < i"
proof -
  have "unat (j AND of_nat (p - 1)) \<le> unat (of_nat (p - 1) :: u32)"
    using nat_and_upper by (simp add: unsigned_and_eq)
  also have "\<dots> = p - 1" using assms by (intro unat_small) simp
  finally have a: "unat (j AND of_nat (p - 1)) \<le> p - 1" .
  have b: "unat (of_nat (i - p) :: u32) = i - p" using assms by (intro unat_small) simp
  have "unat ((j AND of_nat (p - 1)) + of_nat (i - p)) = unat (j AND of_nat (p - 1)) + (i - p)"
    using a b assms by (subst unat_add_lem [THEN iffD1]) auto
  with a assms show ?thesis by simp
qed

section \<open>The sequence of blocks\<close>

definition Integerify :: "ypBlock list \<Rightarrow> u32" where
  "Integerify X = le_word (take 4 (last X))"

text \<open>The blocks so far, the running block and the S-boxes.\<close>

type_synonym fillSpec = "ypBlock list list \<times> ypBlock list \<times> ypCtx option"

definition specStep :: "fillSpec \<Rightarrow> fillSpec option" where
  "specStep fs =
     (case fs of (vs, X, ctx) \<Rightarrow>
       do { (X', ctx) \<leftarrow> BlockMix ctx (map2 bxor X (vs ! unat (wrap (Integerify X) (length vs))));
            Some (vs @ [X], X', ctx) })"

fun specFill :: "nat \<Rightarrow> fillSpec \<Rightarrow> fillSpec option" where
  "specFill 0 fs = Some fs"
| "specFill (Suc k) fs = do { fs \<leftarrow> specStep fs; specFill k fs }"

lemma specFill_add: "specFill (a + b) fs = specFill a fs \<bind> specFill b"
proof (induction a arbitrary: fs)
  case (Suc a)
  then show ?case by (cases "specStep fs") simp_all
qed simp

definition shaped :: "nat \<Rightarrow> ypBlock list \<Rightarrow> bool" where
  "shaped r X \<longleftrightarrow> length X = 2 * r \<and> blocks X"

definition filled :: "nat \<Rightarrow> nat \<Rightarrow> fillSpec \<Rightarrow> bool" where
  "filled r k fs \<longleftrightarrow> (case fs of (vs, X, ctx) \<Rightarrow>
     length vs = k \<and> (\<forall>v\<in>set vs. shaped r v) \<and> shaped r X \<and> box_fits r ctx)"

lemma shaped_bxor: "shaped r X \<Longrightarrow> shaped r Y \<Longrightarrow> shaped r (map2 bxor X Y)"
  by (simp add: shaped_def blocks_map2_bxor)

lemma BlockMix_shaped:
  assumes "shaped r X" "box_fits r ctx"
  shows "returns (\<lambda>(Y, c). shaped r Y \<and> box_fits r c) (BlockMix ctx X)"
proof -
  have "X \<noteq> []" using assms by (auto simp: shaped_def box_fits_def)
  with BlockMix_total [of X r ctx] assms show ?thesis
    by (auto simp: shaped_def mixed_def intro: returns_mono)
qed

lemma last_shaped: "shaped r X \<Longrightarrow> 0 < r \<Longrightarrow> is_block (last X)"
  by (cases X rule: rev_cases) (auto simp: shaped_def)

lemma Integerify_getW: "shaped r X \<Longrightarrow> 0 < r \<Longrightarrow> getW (last X) 0 = Some (Integerify X)"
proof -
  assume "shaped r X" "0 < r"
  then have "is_block (last X)" by (rule last_shaped)
  then show ?thesis by (simp add: is_block_def getW_def getLE_def Integerify_def)
qed

lemma Integerify_getD:
  assumes "shaped r X" "0 < r"
  shows "do { d \<leftarrow> getD (last X) 0; Some (ucast (d AND 0xFFFFFFFF) :: u32) } = Some (Integerify X)"
proof -
  have "is_block (last X)" using assms by (rule last_shaped)
  then obtain ws where ws: "length ws = 16" "last X = blk ws" by (rule is_blockE)
  have "getW (last X) 0 = Some (ws ! 0)" using ws by simp
  with Integerify_getW [OF assms] have "Integerify X = ws ! 0" by simp
  with ws show ?thesis by simp
qed

lemma wrap_below: "2 \<le> k \<Longrightarrow> k < 2 ^ 32 \<Longrightarrow> unat (wrap j k) < k"
proof -
  assume k: "2 \<le> k" "k < 2 ^ 32"
  have "0 < i \<Longrightarrow> 0 < p2floor i \<and> p2floor i \<le> i" for i
    by (induction i rule: p2floor.induct) (subst (1 2) p2floor.simps, auto)
  with k masked_below [of "p2floor k" k j] show ?thesis by (simp add: wrap_def)
qed

lemma specStep_filled:
  assumes "filled r k fs" "2 \<le> k" "k < 2 ^ 32"
  shows "returns (filled r (Suc k)) (specStep fs)"
proof -
  obtain vs X ctx where fs: "fs = (vs, X, ctx)" by (cases fs) auto
  have "unat (wrap (Integerify X) k) < k" using assms(2, 3) by (rule wrap_below)
  then have s: "shaped r (map2 bxor X (vs ! unat (wrap (Integerify X) (length vs))))"
    using assms(1) by (auto simp: fs filled_def intro!: shaped_bxor)
  have "box_fits r ctx" using assms(1) by (simp add: fs filled_def)
  from BlockMix_shaped [OF s this] assms(1) show ?thesis
    by (auto simp: fs specStep_def filled_def returns_def)
qed

lemma specFill_filled:
  "filled r k fs \<Longrightarrow> 2 \<le> k \<Longrightarrow> k + q < 2 ^ 32 \<Longrightarrow> returns (filled r (k + q)) (specFill q fs)"
proof (induction q arbitrary: k fs)
  case (Suc q)
  then have "returns (filled r (Suc k)) (specStep fs)" by (intro specStep_filled) auto
  then show ?case
    using Suc.IH [of "Suc k"] Suc.prems by (auto intro!: returns_bind)
qed simp

section \<open>The sequence in memory\<close>

text \<open>
  The variables of \<open>smix1\<close> when the blocks \<open>vs\<close> and the running block are in
  \<open>v\<close>; behind them \<open>v\<close> is as it was.
\<close>

definition enc :: "nat \<Rightarrow> ypMem \<Rightarrow> fillSpec \<Rightarrow> fillState" where
  "enc r m fs = (case fs of (vs, X, ctx) \<Rightarrow>
     (length vs * (2 * r), Integerify X,
      m\<lparr>memV := concat (vs @ [X]) @ drop (Suc (length vs) * (2 * r)) (memV m)\<rparr>, ctx))"

lemma concat_shaped_length: "\<forall>v\<in>set vs. shaped r v \<Longrightarrow> length (concat vs) = length vs * (2 * r)"
  by (induction vs) (auto simp: shaped_def)

lemma concat_shaped_blocks: "\<forall>v\<in>set vs. shaped r v \<Longrightarrow> blocks (concat vs)"
  by (induction vs) (auto simp: shaped_def)

lemma concat_shaped_nth:
  "\<forall>v\<in>set vs. shaped r v \<Longrightarrow> j < length vs \<Longrightarrow> take (2 * r) (drop (j * (2 * r)) (concat vs @ rest)) = vs ! j"
proof (induction vs arbitrary: j)
  case (Cons v vs)
  then show ?case by (cases j) (auto simp: shaped_def)
qed simp

text \<open>Slices of the sizes the two calls have; \<open>xy\<close> serves both.\<close>

definition room :: "nat \<Rightarrow> nat \<Rightarrow> ypMem \<Rightarrow> bool" where
  "room r n m \<longleftrightarrow> mem_ok m \<and> length (memV m) = n * (2 * r) \<and> 2 * r \<le> length (memXY m) \<and>
     2 * yespowerR \<le> length (memXY m)"

lemma fill_memory:
  assumes "room r n m" "filled r k (vs, X, ctx)" "k < n"
  defines "e \<equiv> m\<lparr>memV := concat (vs @ [X]) @ drop (Suc k * (2 * r)) (memV m)\<rparr>"
  shows "mem_ok e" "length (memV e) = n * (2 * r)" "memXY e = memXY m"
    and "j < k \<Longrightarrow> region e AV (j * (2 * r)) (2 * r) = vs ! j"
    and "region e AV (k * (2 * r)) (2 * r) = X"
proof -
  have sh: "\<forall>v\<in>set (vs @ [X]). shaped r v" and l: "length vs = k" using assms(2) by (auto simp: filled_def)
  have len: "length (concat (vs @ [X])) = Suc k * (2 * r)"
    using concat_shaped_length [OF sh] l by simp
  have "Suc k * (2 * r) \<le> n * (2 * r)" using assms(3) by (intro mult_right_mono) auto
  then show "length (memV e) = n * (2 * r)" using len assms(1) by (simp add: e_def room_def)
  show "mem_ok e"
    using concat_shaped_blocks [OF sh] assms(1) by (simp add: e_def mem_ok_def room_def blocks_drop del: concat_append)
  show "memXY e = memXY m" by (simp add: e_def)
  have reg: "region e AV (i * (2 * r)) (2 * r) = (vs @ [X]) ! i" if "i < Suc k" for i
    using concat_shaped_nth [OF sh, of i "drop (Suc k * (2 * r)) (memV m)"] that l
    unfolding region_def sliceOf_def e_def ypArr.case ypMem.select_convs ypMem.update_convs by simp
  show "region e AV (j * (2 * r)) (2 * r) = vs ! j" if "j < k"
    using reg [of j] that l by (simp add: nth_append)
  show "region e AV (k * (2 * r)) (2 * r) = X"
    using reg [of k] l by (simp add: nth_append)
qed

lemma scaled_apart: "j < k \<Longrightarrow> j * s + s \<le> k * (s :: nat)"
  by (metis Suc_leI add.commute mult_Suc mult_le_mono1)

lemma fill_step:
  assumes "room r n m" "filled r k (vs, X, ctx)" "Suc k < n" "j < k"
  shows "blockmixXor AV (k * (2 * r)) AV (j * (2 * r)) AV (Suc k * (2 * r)) r
      (m\<lparr>memV := concat (vs @ [X]) @ drop (Suc k * (2 * r)) (memV m)\<rparr>, ctx) =
    do { (X', c) \<leftarrow> BlockMix ctx (map2 bxor X (vs ! j));
         Some (Integerify X', m\<lparr>memV := concat (vs @ [X, X']) @ drop (Suc (Suc k) * (2 * r)) (memV m)\<rparr>, c) }"
proof -
  let ?e = "m\<lparr>memV := concat (vs @ [X]) @ drop (Suc k * (2 * r)) (memV m)\<rparr>"
  have kn: "k < n" using assms(3) by simp
  note e = fill_memory [OF assms(1, 2) kn]
  have f: "box_fits r ctx" "0 < r" "shaped r X" "shaped r (vs ! j)" "length vs = k" "\<forall>v\<in>set (vs @ [X]). shaped r v"
    using assms(2, 4) by (auto simp: filled_def box_fits_def)
  have ins: "inside ?e AV (q * (2 * r)) (2 * r)" if "q < n" for q
    using scaled_apart [OF that, of "2 * r"] e(2) by (simp add: inside_def sliceOf_def)
  have xr: "xorRegion ?e AV (k * (2 * r)) AV (j * (2 * r)) (2 * r) = map2 bxor X (vs ! j)"
    using e(4) [OF assms(4)] e(5) by (simp add: xorRegion_def)
  have ap: "apart AV (k * (2 * r)) AV (Suc k * (2 * r)) (2 * r)" "apart AV (j * (2 * r)) AV (Suc k * (2 * r)) (2 * r)"
    using scaled_apart [of k "Suc k" "2 * r"] scaled_apart [of j "Suc k" "2 * r"] assms(4) by (auto simp: apart_def)
  obtain X' c where X': "BlockMix ctx (map2 bxor X (vs ! j)) = Some (X', c)" "shaped r X'"
    using BlockMix_shaped [OF shaped_bxor [OF f(3, 4)] f(1)] by (auto simp: returns_def)
  have len: "length (concat (vs @ [X])) = Suc k * (2 * r)"
    using concat_shaped_length [OF f(6)] f(5) by simp
  have p: "patch ?e AV (Suc k * (2 * r)) X' = m\<lparr>memV := concat (vs @ [X, X']) @ drop (Suc (Suc k) * (2 * r)) (memV m)\<rparr>"
    using len X'(2) by (simp add: patch_def sliceOf_def setSlice_def shaped_def add.commute)
  have jn: "j < n" using assms(3, 4) by simp
  have "blockmixXor AV (k * (2 * r)) AV (j * (2 * r)) AV (Suc k * (2 * r)) r (?e, ctx) =
    do { (os, c) \<leftarrow> Some (X', c); i \<leftarrow> getW (last os) 0; Some (i, patch ?e AV (Suc k * (2 * r)) os, c) }"
    using blockmixXor_spec [OF e(1) f(1) ins [OF kn] ins [OF jn] ins [OF assms(3)] ap] unfolding xr X'(1) .
  also have "\<dots> = Some (Integerify X', m\<lparr>memV := concat (vs @ [X, X']) @ drop (Suc (Suc k) * (2 * r)) (memV m)\<rparr>, c)"
    unfolding p [symmetric] by (simp add: Integerify_getW [OF X'(2) f(2)])
  finally show ?thesis by (simp only: X'(1) bind.bind_lunit prod.case)
qed

section \<open>The loops\<close>

lemma wrap_code: "i < 2 ^ p \<Longrightarrow> (j AND of_nat (2 ^ p - 1)) + of_nat i = wrap j (2 ^ p + i)"
  by (simp add: wrap_def p2floor_between)

lemma enc_step:
  assumes "room r n m" "filled r k fs" "Suc k < n" "2 \<le> k" "n < 2 ^ 32"
  obtains fs' where "specStep fs = Some fs'" "filled r (Suc k) fs'"
    and "blockmixXor AV (k * (2 * r)) AV (unat (wrap (fst (snd (enc r m fs))) k) * (2 * r)) AV (Suc k * (2 * r)) r
      (snd (snd (enc r m fs))) = Some (snd (enc r m fs'))"
    and "fst (enc r m fs) = k * (2 * r)"
proof -
  obtain vs X ctx where fs: "fs = (vs, X, ctx)" by (cases fs) auto
  have l: "length vs = k" using assms(2) by (simp add: fs filled_def)
  obtain fs' where fs': "specStep fs = Some fs'" "filled r (Suc k) fs'"
    using specStep_filled [OF assms(2, 4)] assms(3, 5) by (auto simp: returns_def)
  have "unat (wrap (Integerify X) k) < k" using assms by (intro wrap_below) auto
  from fill_step [OF assms(1) assms(2) [unfolded fs] assms(3) this]
  have "blockmixXor AV (k * (2 * r)) AV (unat (wrap (fst (snd (enc r m fs))) k) * (2 * r)) AV (Suc k * (2 * r)) r
      (snd (snd (enc r m fs))) = Some (snd (enc r m fs'))"
    using fs'(1) l
    by (cases "BlockMix ctx (map2 bxor X (vs ! unat (wrap (Integerify X) k)))") (auto simp: fs enc_def specStep_def)
  with fs' that show ?thesis by (simp add: fs enc_def l)
qed

lemma fillPair_spec:
  assumes "room r n m" "filled r (2 ^ p + i) fs" "Suc i < 2 ^ p" "2 ^ p + i + 2 < n" "n < 2 ^ 32"
  shows "fillPair r (2 ^ p) (Suc i) (enc r m fs) = do { fs \<leftarrow> specFill 2 fs; Some (enc r m fs) }"
proof -
  define k where "k = 2 ^ p + i"
  have k: "2 \<le> k" "Suc k < n" "Suc (Suc k) < n" "2 \<le> Suc k" using assms(3, 4) by (auto simp: k_def)
  obtain fs1 where fs1: "specStep fs = Some fs1" "filled r (Suc k) fs1"
    "blockmixXor AV (k * (2 * r)) AV (unat (wrap (fst (snd (enc r m fs))) k) * (2 * r)) AV (Suc k * (2 * r)) r
      (snd (snd (enc r m fs))) = Some (snd (enc r m fs1))" "fst (enc r m fs) = k * (2 * r)"
    using enc_step [OF assms(1) assms(2) [folded k_def] k(2, 1) assms(5)] .
  obtain fs2 where fs2: "specStep fs1 = Some fs2" "filled r (Suc (Suc k)) fs2"
    "blockmixXor AV (Suc k * (2 * r)) AV (unat (wrap (fst (snd (enc r m fs1))) (Suc k)) * (2 * r)) AV
      (Suc (Suc k) * (2 * r)) r (snd (snd (enc r m fs1))) = Some (snd (enc r m fs2))" "fst (enc r m fs1) = Suc k * (2 * r)"
    using enc_step [OF assms(1) fs1(2) k(3) k(4) assms(5)] .
  have w: "(j AND of_nat (2 ^ p - 1)) + of_nat i = wrap j k" "(j AND of_nat (2 ^ p - 1)) + of_nat (Suc i) = wrap j (Suc k)"
    for j :: u32
    using wrap_code [of i p j] wrap_code [of "Suc i" p j] assms(3) by (simp_all add: k_def)
  have x: "k * (2 * r) + 2 * r = Suc k * (2 * r)" "Suc k * (2 * r) + 2 * r = Suc (Suc k) * (2 * r)" by simp_all
  obtain vs X c where e: "fs = (vs, X, c)" by (cases fs) auto
  obtain vs2 X2 c2 where e2: "fs2 = (vs2, X2, c2)" by (cases fs2) auto
  have l2: "fst (enc r m fs2) = Suc (Suc k) * (2 * r)" using fs2(2) by (simp add: e2 enc_def filled_def)
  obtain j1 st1 where e1: "enc r m fs1 = (Suc k * (2 * r), j1, st1)" using fs2(4) by (cases "enc r m fs1") auto
  obtain j0 st0 where e0: "enc r m fs = (k * (2 * r), j0, st0)" using fs1(4) by (cases "enc r m fs") auto
  obtain j2 st2 where e3: "enc r m fs2 = (Suc (Suc k) * (2 * r), j2, st2)" using l2 by (cases "enc r m fs2") auto
  have "fillPair r (2 ^ p) (Suc i) (enc r m fs) = Some (enc r m fs2)"
    using fs1(3) fs2(3) unfolding fillPair_def e0 e1 e3 prod.case Let_def x diff_Suc_1 w fst_conv snd_conv by simp
  then show ?thesis using fs1(1) fs2(1) by (simp add: numeral_2_eq_2)
qed

lemma fillInner_spec:
  assumes "room r n m" "n < 2 ^ 32" "q \<le> 2 ^ p" "2 ^ p + q < n"
    and "filled r (2 ^ p + i) fs" "q = i + 2 * d \<or> q = Suc (i + 2 * d)"
  shows "fillInner r (2 ^ p) q (Suc i) (enc r m fs) = do { fs \<leftarrow> specFill (2 * d) fs; Some (enc r m fs) }"
  using assms(5, 6)
proof (induction d arbitrary: i fs)
  case 0
  then show ?case by (subst fillInner.simps) auto
next
  case (Suc d)
  then have i: "Suc i < q" by auto
  with assms(3, 4) have b: "Suc i < 2 ^ p" "2 ^ p + i + 2 < n" by auto
  have "2 \<le> 2 ^ p + i" using b(1) by auto
  then obtain fs' where fs': "specFill 2 fs = Some fs'" "filled r (2 ^ p + (i + 2)) fs'"
    using specFill_filled [OF Suc.prems(1), of 2] b(2) assms(2) by (auto simp: returns_def add.assoc)
  have "fillInner r (2 ^ p) q (Suc i) (enc r m fs) = fillInner r (2 ^ p) q (Suc (i + 2)) (enc r m fs')"
    using i fillPair_spec [OF assms(1) Suc.prems(1) b assms(2)] fs'(1) by (subst fillInner.simps) simp
  also have "\<dots> = do { fs \<leftarrow> specFill (2 * d) fs'; Some (enc r m fs) }"
    using Suc.IH [OF fs'(2)] Suc.prems(2) by auto
  finally show ?case using specFill_add [of 2 "2 * d" fs] fs'(1) by simp
qed

text \<open>The doubling loops run the sequence up to the last block but two.\<close>

lemma fillOuter_spec:
  assumes "room r n m" "n < 2 ^ 32" "even n" "0 < p" "2 ^ p + 2 \<le> n" "filled r (2 ^ p) fs"
  shows "fillOuter r n (2 ^ p) (enc r m fs) = do { fs \<leftarrow> specFill (n - 2 - 2 ^ p) fs; Some (enc r m fs) }"
  using assms(4-)
proof (induction "n - 2 ^ p" arbitrary: p fs rule: less_induct)
  case less
  have ev: "even (2 ^ p :: nat)" using less.prems(1) by simp
  let ?q = "if n div 2 \<le> 2 ^ p then n - 1 - 2 ^ p else 2 ^ p"
  let ?d = "if n div 2 \<le> 2 ^ p then (n - 2 - 2 ^ p) div 2 else 2 ^ p div 2"
  have q: "?q \<le> 2 ^ p" "2 ^ p + ?q < n" "?q = 0 + 2 * ?d \<or> ?q = Suc (0 + 2 * ?d)"
    using less.prems(2) ev assms(3) by (auto elim!: evenE)
  have one: "fillInner r (2 ^ p) ?q 1 (enc r m fs) = do { fs \<leftarrow> specFill (2 * ?d) fs; Some (enc r m fs) }"
    using fillInner_spec [OF assms(1, 2) q(1, 2) _ q(3), of fs] less.prems(3) by simp
  have two: "2 \<le> (2 :: nat) ^ p" using less.prems(1) by (cases p) auto
  have lt: "2 ^ p < n" using less.prems(2) by simp
  show ?case
  proof (cases "n div 2 \<le> 2 ^ p")
    case True
    have d: "2 * ?d = n - 2 - 2 ^ p" using True less.prems(2) ev assms(3) by (auto elim!: evenE)
    have sum: "2 ^ p + (n - 2 - 2 ^ p) < 2 ^ 32" using less.prems(2) assms(2) by linarith
    obtain fs' where fs': "specFill (n - 2 - 2 ^ p) fs = Some fs'"
      using specFill_filled [OF less.prems(3) two sum] by (auto simp: returns_def)
    have "\<not> 2 ^ p * 2 < n" using True assms(3) by (auto elim!: evenE)
    then have "fillOuter r n (2 ^ p * 2) (enc r m fs') = Some (enc r m fs')"
      by (subst fillOuter.simps) simp
    then show ?thesis using lt one fs' unfolding d by (subst fillOuter.simps) simp
  next
    case False
    have d: "2 * ?d = 2 ^ p" using False ev by simp
    have next_p: "2 ^ Suc p + 2 \<le> n" using False assms(3) by (auto elim!: evenE)
    obtain fs' where fs': "specFill (2 ^ p) fs = Some fs'" "filled r (2 ^ Suc p) fs'"
      using specFill_filled [OF less.prems(3) two, of "2 ^ p"] next_p assms(2) by (auto simp: returns_def mult_2)
    have "fillOuter r n (2 ^ Suc p) (enc r m fs') = do { fs \<leftarrow> specFill (n - 2 - 2 ^ Suc p) fs'; Some (enc r m fs) }"
      by (rule less.hyps) (use next_p fs'(2) two in auto)
    moreover have "fillOuter r n (2 ^ p) (enc r m fs) = fillOuter r n (2 ^ Suc p) (enc r m fs')"
      using lt one fs'(1) unfolding d by (subst fillOuter.simps) (simp add: mult.commute)
    moreover have "n - 2 - 2 ^ p = 2 ^ p + (n - 2 - 2 ^ Suc p)" using next_p by simp
    ultimately show ?thesis using fs'(1) by (simp add: specFill_add)
  qed
qed

end
