(* ===== verification/YespowerTotal.thy ===== *)
theory YespowerTotal
  imports YespowerFill
begin

text \<open>
  Every access of the pure Go hash is inside its slice and every loop ends: the phases, and the
  hash itself, return.
\<close>

section \<open>Loading and storing\<close>

lemma getLE_total: "off + k \<le> length b \<Longrightarrow> returns (\<lambda>_. True) (getLE k b off)"
  by (simp add: getLE_def)

lemma setW_total: "is_block b \<Longrightarrow> i < 16 \<Longrightarrow> returns is_block (setW b i v)"
  by (elim is_blockE) simp

lemma getW_total: "is_block b \<Longrightarrow> i < 16 \<Longrightarrow> returns (\<lambda>_. True) (getW b i)"
  by (elim is_blockE) simp

lemma shuffle_total: "is_block b \<Longrightarrow> is_block c \<Longrightarrow> returns is_block (salsaShuffle b c)"
  "is_block b \<Longrightarrow> is_block c \<Longrightarrow> returns is_block (salsaUnshuffle b c)"
  by (elim is_blockE, simp add: salsaShuffle_blk salsaUnshuffle_blk)+

lemma loadBlock_total:
  assumes "i * 64 + 64 \<le> length b"
  shows "returns is_block (loadBlock b i)"
  unfolding loadBlock_def
proof (rule returns_foldO [where I = is_block])
  fix k s assume "k \<in> set [0..<16]" "is_block s"
  with assms show "returns is_block (do { w \<leftarrow> getLE 4 b (i * 64 + k * 4); setW s k w })"
    by (intro returns_bind [OF getLE_total] setW_total) auto
qed simp

lemma room_patch:
  assumes "room r n m" "inside m a i (length bs)" "blocks bs"
  shows "room r n (patch m a i bs)"
proof -
  have "length (memV (patch m a i bs)) = length (memV m)" "length (memXY (patch m a i bs)) = length (memXY m)"
    using length_patch [OF assms(2), of AV] length_patch [OF assms(2), of AXY] by (simp_all add: sliceOf_def)
  with assms show ?thesis by (simp add: room_def mem_ok_patch)
qed

lemma mget_total: "room r n m \<Longrightarrow> i < length (sliceOf m a) \<Longrightarrow> returns is_block (mget m a i)"
  by (simp add: room_def mget_inside block_at)

lemma room_inside: "room r n m \<Longrightarrow> q < n \<Longrightarrow> inside m AV (q * (2 * r)) (2 * r)"
  using scaled_apart [of q n "2 * r"] by (simp add: room_def inside_def sliceOf_def)

lemma room_inside_XY: "room r n m \<Longrightarrow> inside m AXY 0 (2 * r)"
  by (simp add: room_def inside_def sliceOf_def)

lemma loadBlocks_total:
  assumes "room r n m" "limit \<le> 2 * r" "0 < n" "limit * 64 \<le> length b"
  shows "returns (room r n) (loadBlocks b a limit m)"
  unfolding loadBlocks_def
proof (rule returns_foldO [where I = "room r n", OF assms(1)])
  fix i m assume i: "i \<in> set [0..<limit]" and m: "room r n m"
  have "inside m a 0 (2 * r)"
    using room_inside [OF m assms(3)] room_inside_XY [OF m] by (cases a) simp_all
  then have len: "i < length (sliceOf m a)" using i assms(2) by (simp add: inside_def)
  have "i * 64 + 64 \<le> length b" using i assms(4) by simp
  then show "returns (room r n) (do { tmp \<leftarrow> loadBlock b i; old \<leftarrow> mget m a i; blk \<leftarrow> salsaShuffle tmp old; mput m a i blk })"
    using len m by (intro returns_bind [OF loadBlock_total] returns_bind [OF mget_total] returns_bind [OF shuffle_total(1)])
      (auto simp: mput_patch inside_def intro!: room_patch)
qed

lemma storeBlocks_total:
  assumes "room r n m" "2 * r * 64 \<le> length b"
  shows "returns (\<lambda>b'. length b' = length b) (storeBlocks m r b)"
  unfolding storeBlocks_def
proof (rule returns_foldO [where I = "\<lambda>b'. length b' = length b"])
  fix i and b' :: bytes assume i: "i \<in> set [0..<2 * r]" and b': "length b' = length b"
  have len: "i < length (sliceOf m AXY)" using i assms(1) by (simp add: room_def sliceOf_def)
  have c: "returns is_block (foldO (\<lambda>k tmp. do { w \<leftarrow> getW src k; setW tmp k w }) [0..<16] zeroBlock)"
    if "is_block src" for src
    using that by (intro returns_foldO returns_bind [OF getW_total] setW_total) auto
  have st: "returns (\<lambda>b'. length b' = length b) (storeBlock b' i dst)" if "is_block dst" for dst
    using that i b' assms(2) by (auto simp: storeBlock_def is_block_def)
  show "returns (\<lambda>b'. length b' = length b) (do { src \<leftarrow> mget m AXY i;
      tmp \<leftarrow> foldO (\<lambda>k tmp. do { w \<leftarrow> getW src k; setW tmp k w }) [0..<16] zeroBlock;
      dst \<leftarrow> salsaUnshuffle tmp zeroBlock; storeBlock b' i dst })"
    by (intro returns_bind [OF mget_total [OF assms(1) len]] returns_bind [OF c]
        returns_bind [OF shuffle_total(2)] st) auto
qed simp

section \<open>Mixing inside the slices\<close>

definition fits :: "nat \<Rightarrow> nat \<Rightarrow> ypState \<Rightarrow> bool" where
  "fits r n st \<longleftrightarrow> room r n (fst st) \<and> box_fits r (snd st)"

lemma blockmix_total:
  assumes "room r n m" "box_fits q ctx" "inside m bin bi (2 * q)" "inside m bout bo (2 * q)"
    "apart bin bi bout bo (2 * q)"
  shows "returns (\<lambda>(m', c). room r n m' \<and> box_fits q c) (blockmix bin bi bout bo q (m, ctx))"
proof -
  have mk: "mem_ok m" using assms(1) by (simp add: room_def)
  have "shaped q (region m bin bi (2 * q))"
    using assms(3) mk by (simp add: shaped_def length_region blocks_region)
  from BlockMix_shaped [OF this assms(2)] show ?thesis
    using assms(1, 4) by (auto simp: blockmix_spec [OF mk assms(2-)] returns_def shaped_def intro!: room_patch)
qed

lemma blockmixXor_total:
  assumes "room r n m" "box_fits r ctx" "inside m b1 i1 (2 * r)" "inside m b2 i2 (2 * r)" "inside m bout bo (2 * r)"
    "apart b1 i1 bout bo (2 * r)" "apart b2 i2 bout bo (2 * r)"
  shows "returns (\<lambda>(j, st). fits r n st \<and> (bout = AXY \<longrightarrow> memV (fst st) = memV m))
    (blockmixXor b1 i1 b2 i2 bout bo r (m, ctx))"
proof -
  have mk: "mem_ok m" using assms(1) by (simp add: room_def)
  have r: "0 < r" using assms(2) by (simp add: box_fits_def)
  have "shaped r (xorRegion m b1 i1 b2 i2 (2 * r))"
    using assms(3, 4) mk by (simp add: shaped_def length_xorRegion blocks_xorRegion)
  from BlockMix_shaped [OF this assms(2)]
  obtain os c where os: "BlockMix ctx (xorRegion m b1 i1 b2 i2 (2 * r)) = Some (os, c)" "shaped r os" "box_fits r c"
    by (auto simp: returns_def)
  have "room r n (patch m bout bo os)"
    using assms(1, 5) os(2) by (auto simp: shaped_def intro!: room_patch)
  moreover have "bout = AXY \<longrightarrow> memV (patch m bout bo os) = memV m"
    by (simp add: patch_def setSlice_def)
  ultimately show ?thesis
    by (simp add: blockmixXor_spec [OF mk assms(2-)] os(1, 3) Integerify_getW [OF os(2) r] fits_def)
qed

section \<open>smix1\<close>

lemma enc_start:
  assumes "room r n m" "3 \<le> n" "box_fits r ctx"
  obtains fs where "filled r 2 fs" "integerify m AV (4 * r) r = Some (fst (snd (enc r m fs)))"
    "enc r m fs = (4 * r, fst (snd (enc r m fs)), m, ctx)"
proof -
  have r: "0 < r" using assms(3) by (simp add: box_fits_def)
  have mk: "mem_ok m" using assms(1) by (simp add: room_def)
  let ?X = "\<lambda>q. region m AV (q * (2 * r)) (2 * r)"
  have ins: "inside m AV (q * (2 * r)) (2 * r)" if "q < 3" for q
    using room_inside [OF assms(1), of q] that assms(2) by simp
  have sh: "shaped r (?X q)" if "q < 3" for q
    using ins [OF that] mk by (simp add: shaped_def length_region blocks_region)
  let ?fs = "([?X 0, ?X 1], ?X 2, ctx)"
  have f: "filled r 2 ?fs" using sh [of 0] sh [of 1] sh [of 2] assms(3) by (simp add: filled_def)
  have "take s V @ take s (drop s V) @ take s (drop (2 * s) V) @ drop (3 * s) V = V" for s and V :: "ypBlock list"
  proof -
    have e: "s + s = 2 * s" "s + 2 * s = 3 * s" by simp_all
    have "take s (drop (2 * s) V) @ drop (3 * s) V = drop (2 * s) V"
      using append_take_drop_id [of s "drop (2 * s) V"] by (simp only: drop_drop e)
    moreover have "take s (drop s V) @ drop (2 * s) V = drop s V"
      using append_take_drop_id [of s "drop s V"] by (simp only: drop_drop e)
    ultimately show ?thesis by (simp only: append_take_drop_id)
  qed
  from this [of "2 * r" "memV m"] have "concat [?X 0, ?X 1, ?X 2] @ drop (3 * (2 * r)) (memV m) = memV m"
    by (simp add: region_def sliceOf_def)
  then have e: "enc r m ?fs = (4 * r, Integerify (?X 2), m, ctx)" by (simp add: enc_def)
  have last: "last (?X 2) = sliceOf m AV ! (4 * r + 2 * r - 1)"
    using last_region [of m AV "2 * (2 * r)" "2 * r - 1"] ins [of 2] r by (simp add: Suc_diff_1)
  have lt: "4 * r + 2 * r - 1 < length (sliceOf m AV)" using ins [of 2] r by (simp add: inside_def)
  then have "integerify m AV (4 * r) r = Some (Integerify (?X 2))"
    unfolding integerify_def mget_inside [OF lt] bind.bind_lunit last [symmetric]
    using Integerify_getD [OF sh r, of 2] by simp
  with f e that show ?thesis by simp
qed

lemma lastIndex_below:
  assumes "even n" "4 \<le> n" "n < 2 ^ 32" "k = 1 \<or> k = 2"
  shows "unat (lastIndex n k j) < n - k"
proof -
  have "0 < n div 2" "n div 2 \<le> n - k" "n - k < 2 ^ 32" using assms by (auto elim!: evenE)
  from masked_below [OF this, of j] show ?thesis by (simp add: lastIndex_def Let_def)
qed

lemma init_chain_total:
  assumes "room r n m" "0 < n" "box_fits r (Some c)"
  shows "returns (fits r n) (foldO (\<lambda>i. blockmix AV ((i - 1) * 2) AV (i * 2) 1) [1..<r] (m, Some c))"
proof (rule returns_mono)
  have one: "box_fits 1 ctx \<longleftrightarrow> (case ctx of None \<Rightarrow> True | Some c \<Rightarrow> ctx_ok c)" for ctx
    by (simp add: box_fits_def split: option.split)
  show "returns (\<lambda>(m, ctx). room r n m \<and> ctx \<noteq> None \<and> box_fits 1 ctx)
      (foldO (\<lambda>i. blockmix AV ((i - 1) * 2) AV (i * 2) 1) [1..<r] (m, Some c))"
  proof (rule returns_foldO)
    fix i st assume i: "i \<in> set [1..<r]" and "case st of (m, ctx) \<Rightarrow> room r n m \<and> ctx \<noteq> None \<and> box_fits 1 ctx"
    then obtain m' c' where st: "st = (m', Some c')" "room r n m'" "box_fits 1 (Some c')" by (cases st) auto
    have "2 * r \<le> length (memV m')" using room_inside [OF st(2) assms(2)] by (simp add: inside_def sliceOf_def)
    then have ins: "inside m' AV ((i - 1) * 2) (2 * 1)" "inside m' AV (i * 2) (2 * 1)"
      "apart AV ((i - 1) * 2) AV (i * 2) (2 * 1)"
      using i by (auto simp: inside_def sliceOf_def apart_def)
    obtain m2 ctx2 where b: "blockmix AV ((i - 1) * 2) AV (i * 2) 1 st = Some (m2, ctx2)" "room r n m2" "box_fits 1 ctx2"
      using blockmix_total [OF st(2, 3) ins] by (auto simp: st(1) returns_def)
    have "ctx2 \<noteq> None"
      using b(1) by (auto simp: st(1) blockmix_def Let_def bind_eq_Some_conv)
    with b show "returns (\<lambda>(m, ctx). room r n m \<and> ctx \<noteq> None \<and> box_fits 1 ctx) (blockmix AV ((i - 1) * 2) AV (i * 2) 1 st)"
      by simp
  qed (use assms one in \<open>auto simp: box_fits_def\<close>)
qed (use assms(3) in \<open>auto simp: fits_def box_fits_def split: option.splits\<close>)

lemma smix1_total:
  assumes "room r n m" "box_fits r ctx" "even n" "4 \<le> n" "n < 2 ^ 32" "2 * r * 64 \<le> length b"
  shows "returns (\<lambda>(b', st). length b' = length b \<and> fits r n st) (smix1 b r n (m, ctx))"
proof -
  have r: "0 < r" "0 < n" using assms(2, 4) by (auto simp: box_fits_def)
  have lim: "(if ctx = None then 2 * r else 2) \<le> 2 * r" "(if ctx = None then 2 * r else 2) * 64 \<le> length b"
    using r(1) assms(6) by auto
  obtain m1 where m1: "loadBlocks b AV (if ctx = None then 2 * r else 2) m = Some m1" "room r n m1"
    using loadBlocks_total [OF assms(1) lim(1) r(2) lim(2)] by (auto simp: returns_def)
  have "returns (fits r n) (if ctx = None then Some (m1, ctx)
      else foldO (\<lambda>i. blockmix AV ((i - 1) * 2) AV (i * 2) 1) [1..<r] (m1, ctx))"
    using init_chain_total [OF m1(2) r(2)] m1(2) assms(2) by (cases ctx) (auto simp: fits_def)
  then obtain m2 c2 where st2: "(if ctx = None then Some (m1, ctx)
      else foldO (\<lambda>i. blockmix AV ((i - 1) * 2) AV (i * 2) 1) [1..<r] (m1, ctx)) = Some (m2, c2)"
      "room r n m2" "box_fits r c2"
    by (auto simp: returns_def fits_def)
  have ap: "apart AV (q * (2 * r)) AV (Suc q * (2 * r)) (2 * r)" for q
    using scaled_apart [of q "Suc q" "2 * r"] by (simp add: apart_def)
  have ins: "inside m' AV (q * (2 * r)) (2 * r)" if "room r n m'" "q < 4" for m' q
    using room_inside [OF that(1), of q] that(2) assms(4) by simp
  obtain m3 c3 where st3: "blockmix AV 0 AV (2 * r) r (m2, c2) = Some (m3, c3)" "room r n m3" "box_fits r c3"
    using blockmix_total [OF st2(2, 3) ins [of m2 0] ins [of m2 1], OF st2(2) _ st2(2)] ap [of 0]
    by (auto simp: returns_def)
  obtain m4 c4 where st4: "blockmix AV (2 * r) AV (4 * r) r (m3, c3) = Some (m4, c4)" "room r n m4" "box_fits r c4"
    using blockmix_total [OF st3(2, 3) ins [of m3 1] ins [of m3 2], OF st3(2) _ st3(2)] ap [of 1]
    by (auto simp: returns_def)
  have n3: "3 \<le> n" using assms(4) by simp
  obtain fs where fs: "filled r 2 fs" "integerify m4 AV (4 * r) r = Some (fst (snd (enc r m4 fs)))"
      "enc r m4 fs = (4 * r, fst (snd (enc r m4 fs)), m4, c4)"
    using enc_start [OF st4(2) n3 st4(3)] .
  obtain fs' where fs': "specFill (n - 4) fs = Some fs'" "filled r (n - 2) fs'"
  proof -
    have "2 + (n - 4) < 2 ^ 32" "2 + (n - 4) = n - 2" using assms(4, 5) by linarith+
    with specFill_filled [OF fs(1), of "n - 4"] that show ?thesis by (auto simp: returns_def)
  qed
  have fill: "fillOuter r n 2 (4 * r, fst (snd (enc r m4 fs)), m4, c4) = Some (enc r m4 fs')"
  proof -
    have "n - 2 - 2 ^ 1 = n - 4" "2 ^ 1 + 2 \<le> n" using assms(4) by simp_all
    with fillOuter_spec [OF st4(2) assms(5, 3), of 1 fs] fs(1) fs'(1)
    have "fillOuter r n 2 (enc r m4 fs) = Some (enc r m4 fs')" by simp
    then show ?thesis unfolding fs(3) [symmetric] .
  qed
  obtain vs X c5 where v: "fs' = (vs, X, c5)" by (cases fs') auto
  define m5 where "m5 = m4\<lparr>memV := concat (vs @ [X]) @ drop (Suc (n - 2) * (2 * r)) (memV m4)\<rparr>"
  have e5: "enc r m4 fs' = ((n - 2) * (2 * r), Integerify X, m5, c5)"
    using fs'(2) by (simp add: v enc_def m5_def filled_def)
  have room5: "room r n m5" and c5: "box_fits r c5"
    using fill_memory [OF st4(2) fs'(2) [unfolded v]] assms(4) st4(2) fs'(2)
    by (simp_all add: m5_def room_def v filled_def)
  have j1: "unat (lastIndex n 2 (Integerify X)) < n" "unat (lastIndex n 1 j) < n" for j
    using lastIndex_below [OF assms(3, 4, 5), of 2 "Integerify X"] lastIndex_below [OF assms(3, 4, 5), of 1 j]
    by simp_all
  have away: "apart AV k AXY 0 (2 * r)" "apart AXY 0 AXY 0 (2 * r)" for k by (simp_all add: apart_def)
  have n2: "n - 2 < n" using assms(4) by simp
  obtain j2 m6 c6 where st6: "blockmixXor AV ((n - 2) * (2 * r)) AV (unat (lastIndex n 2 (Integerify X)) * (2 * r)) AXY 0 r (m5, c5) =
      Some (j2, m6, c6)" "room r n m6" "box_fits r c6"
    using blockmixXor_total [OF room5 c5 room_inside [OF room5 n2] room_inside [OF room5 j1(1)] room_inside_XY [OF room5]
        away(1) away(1)] by (auto simp: returns_def fits_def)
  obtain j3 m7 c7 where st7: "blockmixXor AXY 0 AV (unat (lastIndex n 1 j2) * (2 * r)) AXY 0 r (m6, c6) =
      Some (j3, m7, c7)" "room r n m7" "box_fits r c7"
    using blockmixXor_total [OF st6(2, 3) room_inside_XY [OF st6(2)] room_inside [OF st6(2) j1(2) [of j2]] room_inside_XY [OF st6(2)]
        away(2) away(1)] by (auto simp: returns_def fits_def)
  obtain b' where b': "storeBlocks m7 r b = Some b'" "length b' = length b"
    using storeBlocks_total [OF st7(2) assms(6)] by (auto simp: returns_def)
  have s: "2 * r + 2 * r = 4 * r" by simp
  show ?thesis
    unfolding smix1_def prod.case Let_def m1(1) bind.bind_lunit st2(1) st3(1) s st4(1) fst_conv fs(2) fill e5 st6(1) st7(1) b'(1)
    using b'(2) st7 by (simp add: fits_def)
qed

section \<open>smix2\<close>

text \<open>A step of the second phase leaves \<open>v\<close> as it was.\<close>

definition reading :: "nat \<Rightarrow> nat \<Rightarrow> ypBlock list \<Rightarrow> ypState \<Rightarrow> bool" where
  "reading r n v st \<longleftrightarrow> fits r n st \<and> memV (fst st) = v \<and> snd st \<noteq> None"

lemma blockmixXorSave_reading:
  assumes "reading r n v st" "k < n"
  shows "returns (\<lambda>(j, st). reading r n v st) (blockmixXorSave AXY 0 AV (k * (2 * r)) r st)"
proof -
  obtain m c where st: "st = (m, Some c)" "room r n m" "box_fits r (Some c)" "memV m = v"
    using assms(1) by (cases st) (auto simp: reading_def fits_def)
  have mk: "mem_ok m" using st(2) by (simp add: room_def)
  note ins = room_inside_XY [OF st(2)] room_inside [OF st(2) assms(2)]
  have eq: "blockmixXorSave AXY 0 AV (k * (2 * r)) r st = blockmixXor AXY 0 AV (k * (2 * r)) AXY 0 r st"
    unfolding st(1) by (rule blockmixXorSave_eq [OF mk st(3) _ ins]) simp
  have ap: "apart AXY 0 AXY 0 (2 * r)" "apart AV (k * (2 * r)) AXY 0 (2 * r)" by (simp_all add: apart_def)
  obtain j m' c' where x: "blockmixXor AXY 0 AV (k * (2 * r)) AXY 0 r (m, Some c) = Some (j, m', c')"
      "fits r n (m', c')" "memV m' = memV m"
    using blockmixXor_total [OF st(2, 3) ins ins(1) ap] by (auto simp: returns_def)
  have "c' \<noteq> None" using x(1) by (auto simp: blockmixXor_def Let_def bind_eq_Some_conv)
  with x st(4) show ?thesis unfolding eq unfolding st(1) x(1) by (simp add: reading_def)
qed

lemma and_below: "0 < n \<Longrightarrow> n < 2 ^ 32 \<Longrightarrow> unat (j AND of_nat (n - 1) :: u32) < n"
  using masked_below [of n n j] by simp

lemma smix2Loop_reading:
  "reading r n v st \<Longrightarrow> 0 < n \<Longrightarrow> n < 2 ^ 32 \<Longrightarrow> unat j < n \<Longrightarrow> returns (reading r n v) (smix2Loop r n nLoop j st)"
proof (induction nLoop arbitrary: j st rule: less_induct)
  case (less nLoop)
  obtain j1 st1 where s1: "blockmixXorSave AXY 0 AV (unat j * (2 * r)) r st = Some (j1, st1)" "reading r n v st1"
    using blockmixXorSave_reading [OF less.prems(1, 4)] by (auto simp: returns_def)
  note b1 = and_below [OF less.prems(2, 3), of j1]
  obtain j2 st2 where s2: "blockmixXorSave AXY 0 AV (unat (j1 AND of_nat (n - 1)) * (2 * r)) r st1 = Some (j2, st2)"
      "reading r n v st2"
    using blockmixXorSave_reading [OF s1(2) b1] by (auto simp: returns_def)
  have "returns (reading r n v) (smix2Loop r n (nLoop - 2) (j2 AND of_nat (n - 1)) st2)" if "0 < nLoop"
    by (rule less.IH [OF _ s2(2) less.prems(2, 3) and_below [OF less.prems(2, 3)]]) (use that in simp)
  then show ?case
    using less.prems(1) s1(1) s2(1) by (subst smix2Loop.simps) (simp add: Let_def)
qed

lemma smix2_total:
  assumes "room r n m" "box_fits r (Some c)" "0 < n" "n < 2 ^ 32" "2 * r * 64 \<le> length b"
  shows "returns (\<lambda>(b', st). length b' = length b \<and> reading r n (memV m) st) (smix2 b r n nLoop (m, Some c))"
proof -
  have r: "0 < r" using assms(2) by (simp add: box_fits_def)
  have keep: "returns (\<lambda>m'. room r n m' \<and> memV m' = memV m) (loadBlocks b AXY (2 * r) m)"
  proof -
    obtain m1 where m1: "loadBlocks b AXY (2 * r) m = Some m1" "room r n m1"
      using loadBlocks_total [OF assms(1) order_refl assms(3) assms(5)] by (auto simp: returns_def)
    have "foldO (\<lambda>i m. do { tmp \<leftarrow> loadBlock b i; old \<leftarrow> mget m AXY i; blk \<leftarrow> salsaShuffle tmp old; mput m AXY i blk }) is m' = Some m'' \<Longrightarrow>
        memV m'' = memV m'" for "is" m' m''
      by (induction "is" arbitrary: m') (auto simp: bind_eq_Some_conv mput_def setSlice_def split: if_splits)
    with m1 show ?thesis unfolding loadBlocks_def returns_def by blast
  qed
  then obtain m1 where m1: "loadBlocks b AXY (2 * r) m = Some m1" "room r n m1" "memV m1 = memV m"
    by (auto simp: returns_def)
  have ins: "inside m1 AXY 0 (Suc (2 * r - 1))" using room_inside_XY [OF m1(2)] r by simp
  have mk: "mem_ok m1" using m1(2) by (simp add: room_def)
  have lt: "0 + 2 * r - 1 < length (sliceOf m1 AXY)" using ins by (simp add: inside_def)
  obtain ws where ws: "length ws = 16" "sliceOf m1 AXY ! (0 + 2 * r - 1) = blk ws"
    using block_at [OF mk lt] by (rule is_blockE)
  have j: "integerify m1 AXY 0 r = Some (ws ! 0)"
    unfolding integerify_def mget_inside [OF lt] bind.bind_lunit ws(2) using ws(1) by simp
  have "reading r n (memV m) (m1, Some c)" using m1 assms(2) by (simp add: reading_def fits_def)
  from smix2Loop_reading [OF this assms(3, 4) and_below [OF assms(3, 4)]]
  obtain st where st: "smix2Loop r n nLoop (ws ! 0 AND of_nat (n - 1)) (m1, Some c) = Some st" "reading r n (memV m) st"
    unfolding returns_def by blast
  then have "room r n (fst st)" by (simp add: reading_def fits_def)
  from storeBlocks_total [OF this assms(5)] obtain b' where b': "storeBlocks (fst st) r b = Some b'" "length b' = length b"
    by (auto simp: returns_def)
  show ?thesis
    unfolding smix2_def prod.case m1(1) bind.bind_lunit j st(1) b'(1) using b'(2) st(2) by simp
qed

section \<open>The hash\<close>

lemma length_pbkdf2Loop: "min keyLen (length (pbkdf2Loop password salt keyLen block out)) = min keyLen (max keyLen (length out))"
proof (induction password salt keyLen block out rule: pbkdf2Loop.induct)
  case (1 password salt keyLen block out)
  then show ?case by (subst pbkdf2Loop.simps) auto
qed

lemma length_pbkdf2: "length (pbkdf2SHA256One password salt keyLen) = keyLen"
  using length_pbkdf2Loop [of keyLen password salt 1 "[]"] by (simp add: pbkdf2SHA256One_def)

lemma parts_of_room:
  assumes "room 1 768 m"
  shows "box_fits yespowerR (Some \<lparr>s0 = take 512 (memV m), s1 = take 512 (drop 512 (memV m)),
    s2 = drop (2 * 512) (memV m), cw = 0\<rparr>)"
  using assms
  by (simp add: box_fits_def ctx_ok_def parts_ok_def room_def mem_ok_def yespowerR_def blocks_take blocks_drop)

lemma yespowerHash_total: "returns hash_ok (yespowerHash input pers)"
proof -
  let ?b = "pbkdf2SHA256One (sha256 input) pers (128 * yespowerR)"
  let ?v = "replicate (yespowerN * 2 * yespowerR) zeroBlock" and ?xy = "replicate (2 * yespowerR + 1) zeroBlock"
    and ?s = "replicate (3 * sBytes1 div 64) zeroBlock"
  have sizes: "3 * sBytes1 div 64 = 1536" "sBytes1 div 64 = 512"
    by (simp_all add: sBytes1_def sWidth10_def pwxSimple_def)
  have r0: "room 1 768 \<lparr>memV = ?s, memXY = ?xy\<rparr>"
    by (simp add: room_def mem_ok_def sizes yespowerR_def)
  have lb: "length ?b = 4096" by (simp add: length_pbkdf2 yespowerR_def)
  have box0: "box_fits 1 None" by (simp add: box_fits_def)
  obtain b1 m1 c1 where s1: "smix1 ?b 1 768 (\<lparr>memV = ?s, memXY = ?xy\<rparr>, None) = Some (b1, m1, c1)"
      "length b1 = 4096" "room 1 768 m1"
    using smix1_total [OF r0 box0, of ?b] lb by (auto simp: returns_def fits_def)
  have xy1: "2 * yespowerR \<le> length (memXY m1)" "blocks (memXY m1)"
    using s1(3) by (simp_all add: room_def mem_ok_def)
  define ctx where "ctx = \<lparr>s0 = take 512 (memV m1), s1 = take 512 (drop 512 (memV m1)),
    s2 = drop (2 * 512) (memV m1), cw = 0\<rparr>"
  have box: "box_fits yespowerR (Some ctx)" unfolding ctx_def by (rule parts_of_room [OF s1(3)])
  have r1: "room yespowerR yespowerN \<lparr>memV = ?v, memXY = memXY m1\<rparr>"
    using xy1 by (simp add: room_def mem_ok_def)
  have n: "even yespowerN" "4 \<le> yespowerN" "yespowerN < 2 ^ 32" "0 < yespowerN" by (simp_all add: yespowerN_def)
  have lr: "2 * yespowerR * 64 \<le> length b1" using s1(2) by (simp add: yespowerR_def)
  obtain b2 m2 c2 where s2: "smix1 b1 yespowerR yespowerN (\<lparr>memV = ?v, memXY = memXY m1\<rparr>, Some ctx) = Some (b2, m2, Some c2)"
      "length b2 = 4096" "room yespowerR yespowerN m2" "box_fits yespowerR (Some c2)"
  proof -
    obtain b2 m2 c2 where o2: "smix1 b1 yespowerR yespowerN (\<lparr>memV = ?v, memXY = memXY m1\<rparr>, Some ctx) = Some (b2, m2, c2)"
        "length b2 = length b1" "room yespowerR yespowerN m2" "box_fits yespowerR c2"
      using smix1_total [OF r1 box n(1, 2, 3) lr] by (auto simp: returns_def fits_def)
    from o2(4) have "c2 \<noteq> None" by (cases c2) (simp_all add: box_fits_def yespowerR_def)
    with o2 s1(2) that show ?thesis by auto
  qed
  have lr2: "2 * yespowerR * 64 \<le> length b2" using s2(2) by (simp add: yespowerR_def)
  let ?nl = "(yespowerN + 2) div 3 + 1 - ((yespowerN + 2) div 3 + 1) mod 2"
  obtain b3 st3 where s3: "smix2 b2 yespowerR yespowerN ?nl (m2, Some c2) = Some (b3, st3)"
    using smix2_total [OF s2(3, 4) n(4, 3) lr2, of ?nl] by (auto simp: returns_def)
  have len: "length ?s div 2 = 768" by (simp add: sizes)
  show ?thesis
    unfolding yespowerHash_def Let_def len s1(1) bind.bind_lunit prod.case sizes(2) ctx_def [symmetric] s2(1) s3
    by (simp add: hash_ok_def HashSize_def)
qed

end
