(* ===== verification/YespowerProperties.thy ===== *)
theory YespowerProperties
  imports YespowerTotal
begin

text \<open>
  What the pure Go proof-of-work hash guarantees: it returns for every header, its in-place
  loops compute the specified mixing, its first phase the specified sequence of blocks; and
  where it leaves the specification.
\<close>

section \<open>The hash returns\<close>

text \<open>
  C26. The pure Go proof-of-work hash never panics and always ends: for every header and every
  personalization all accesses to the 8 MB of mixing memory, the S-boxes and the blocks are
  in range, all loops terminate, and the result has 32 bytes.
\<close>

theorem pow_hash_returns: "\<exists>h. HashHeader personalization header = Some h \<and> hash_ok h"
  using yespowerHash_total unfolding HashHeader_def Let_def returns_def by blast

section \<open>Mixing\<close>

text \<open>
  C28. The in-place loops compute \<open>BlockMix\<close>: when the inputs and the output lie in their
  slices and the output does not overlap what is still to be read, \<open>blockmixXor\<close>, and
  \<open>blockmixXorSave\<close> when its output is its first input and the second one is another slice,
  return the first word of the last block of the mix of the exclusive or of the two inputs,
  write the mixed blocks to the output and change no other block.
\<close>

theorem mixing_in_place:
  assumes "mem_ok m" "box_fits r ctx" "inside m b1 i1 (2 * r)" "inside m b2 i2 (2 * r)" "inside m bout bo (2 * r)"
    and "apart b1 i1 bout bo (2 * r)" "apart b2 i2 bout bo (2 * r)"
  shows "\<exists>os c. BlockMix ctx (xorRegion m b1 i1 b2 i2 (2 * r)) = Some (os, c) \<and> length os = 2 * r \<and> box_fits r c \<and>
    blockmixXor b1 i1 b2 i2 bout bo r (m, ctx) = Some (Integerify os, patch m bout bo os, c) \<and>
    (ctx \<noteq> None \<and> b1 \<noteq> b2 \<and> bout = b1 \<and> bo = i1 \<longrightarrow>
      blockmixXorSave b1 i1 b2 i2 r (m, ctx) = Some (Integerify os, patch m bout bo os, c))"
proof -
  have sh: "shaped r (xorRegion m b1 i1 b2 i2 (2 * r))"
    using assms(1, 3, 4) by (simp add: shaped_def length_xorRegion blocks_xorRegion)
  obtain os c where os: "BlockMix ctx (xorRegion m b1 i1 b2 i2 (2 * r)) = Some (os, c)" "shaped r os" "box_fits r c"
    using BlockMix_shaped [OF sh assms(2)] by (auto simp: returns_def)
  have "0 < r" using assms(2) by (simp add: box_fits_def)
  then have x: "blockmixXor b1 i1 b2 i2 bout bo r (m, ctx) = Some (Integerify os, patch m bout bo os, c)"
    by (simp add: blockmixXor_spec [OF assms] os(1) Integerify_getW [OF os(2)])
  then show ?thesis
    using os assms blockmixXorSave_eq [of m r "the ctx" b1 b2 i1 i2] by (auto simp: shaped_def)
qed

definition zeroMem :: ypMem where
  "zeroMem = \<lparr>memV = replicate 1536 zeroBlock, memXY = replicate 65 zeroBlock\<rparr>"

definition zeroBox :: ypCtx where
  "zeroBox = \<lparr>s0 = replicate 512 zeroBlock, s1 = replicate 512 zeroBlock, s2 = replicate 512 zeroBlock, cw = 0\<rparr>"

lemma zeroMem_room: "room 1 768 zeroMem" "mem_ok zeroMem"
  by (simp_all add: zeroMem_def room_def mem_ok_def yespowerR_def)

lemma zeroBox_fits: "box_fits 1 (Some zeroBox)"
  by (simp add: zeroBox_def box_fits_def ctx_ok_def parts_ok_def)

theorem mixing_in_place_witness:
  "\<exists>os c. BlockMix (Some zeroBox) (xorRegion zeroMem AXY 0 AV 4 (2 * 1)) = Some (os, c) \<and> length os = 2 * 1 \<and> box_fits 1 c \<and>
    blockmixXor AXY 0 AV 4 AXY 0 1 (zeroMem, Some zeroBox) = Some (Integerify os, patch zeroMem AXY 0 os, c) \<and>
    (Some zeroBox \<noteq> None \<and> AXY \<noteq> AV \<and> AXY = AXY \<and> (0 :: nat) = 0 \<longrightarrow>
      blockmixXorSave AXY 0 AV 4 1 (zeroMem, Some zeroBox) = Some (Integerify os, patch zeroMem AXY 0 os, c))"
  by (rule mixing_in_place [OF zeroMem_room(2) zeroBox_fits])
    (simp_all add: inside_def sliceOf_def zeroMem_def apart_def)

section \<open>The first phase\<close>

text \<open>
  C27. The doubling loops of \<open>smix1\<close>, with their incremental masks, offsets and positions,
  return and compute the specified sequence: from the third block on, each block is the mix of
  the one before it with the earlier block that \<open>Wrap\<close> of its first word selects; after
  them the first \<open>n - 1\<close> blocks are in \<open>v\<close>, \<open>x\<close> is the position of the last and
  \<open>j\<close> its first word.
\<close>

theorem fill_computes_sequence:
  assumes "room r n m" "even n" "4 \<le> n" "n < 2 ^ 32" "filled r 2 fs"
  shows "\<exists>fs'. specFill (n - 4) fs = Some fs' \<and> filled r (n - 2) fs' \<and>
    fillOuter r n 2 (enc r m fs) = Some (enc r m fs')"
proof -
  have n: "2 + (n - 4) = n - 2" "n - 2 - 2 ^ 1 = n - 4" "2 + (n - 4) < 2 ^ 32" "2 ^ 1 + 2 \<le> n"
    using assms(3, 4) by simp_all
  obtain fs' where "specFill (n - 4) fs = Some fs'" "filled r (n - 2) fs'"
    using specFill_filled [OF assms(5) order_refl n(3)] n(1) by (auto simp: returns_def)
  then show ?thesis
    using fillOuter_spec [OF assms(1, 4, 2), of 1 fs] n assms(5) by simp
qed

definition zeroFill :: fillSpec where
  "zeroFill = ([[zeroBlock, zeroBlock], [zeroBlock, zeroBlock]], [zeroBlock, zeroBlock], None)"

theorem fill_computes_sequence_witness:
  "\<exists>fs'. specFill (768 - 4) zeroFill = Some fs' \<and> filled 1 (768 - 2) fs' \<and>
    fillOuter 1 768 2 (enc 1 zeroMem zeroFill) = Some (enc 1 zeroMem fs')"
  by (rule fill_computes_sequence [OF zeroMem_room(1)])
    (simp_all add: zeroFill_def filled_def shaped_def box_fits_def)

text \<open>
  The indices of the last two steps of \<open>smix1\<close> are those of \<open>Wrap\<close> when \<open>n\<close> is a
  power of two, as in the main call; in the call that fills the S-boxes, where \<open>n\<close> is 768,
  the first of them differs, because the code masks with half of \<open>n\<close> and not with the
  largest power of two below it.
\<close>

theorem last_index:
  "lastIndex (2 ^ (q + 2)) 2 j = wrap j (2 ^ (q + 2) - 2) \<and> lastIndex (2 ^ (q + 2)) 1 j = wrap j (2 ^ (q + 2) - 1) \<and>
    lastIndex 768 2 0 \<noteq> wrap 0 (768 - 2)"
proof -
  define p :: nat where "p = 2 ^ (q + 1)"
  have p: "2 \<le> p" "2 ^ (q + 2) = 2 * p" by (simp_all add: p_def)
  have "wrap j (p + (p - k)) = (j AND of_nat (p - 1)) + of_nat (p - k)" if "k = 1 \<or> k = 2" for k
    using wrap_code [of "p - k" "q + 1" j] that p(1) by (auto simp: p_def)
  from this [of 1] this [of 2] p
  have "lastIndex (2 * p) 2 j = wrap j (2 * p - 2)" "lastIndex (2 * p) 1 j = wrap j (2 * p - 1)"
    by (simp_all add: lastIndex_def Let_def mult_2)
  moreover have "lastIndex 768 2 0 = 382" "wrap 0 (768 - 2) = 254"
    using wrap_code [of 254 9 0] by (simp_all add: lastIndex_def Let_def)
  ultimately show ?thesis unfolding p(2) by simp
qed

section \<open>The second phase\<close>

text \<open>
  C29. The second phase returns, keeps the length of its buffer, and only reads the memory the
  first phase has filled: \<open>v\<close> is afterwards what it was before, although the phase is
  specified to write every mixed-in block back (\<open>blockmixXorSave\<close>).
\<close>

theorem second_phase_reads_only:
  assumes "room r n m" "box_fits r (Some c)" "0 < n" "n < 2 ^ 32" "2 * r * 64 \<le> length b"
  shows "\<exists>b' m' c'. smix2 b r n nLoop (m, Some c) = Some (b', m', Some c') \<and> length b' = length b \<and> memV m' = memV m"
  using smix2_total [OF assms, of nLoop] by (auto simp: returns_def reading_def)

theorem second_phase_reads_only_witness:
  "\<exists>b' m' c'. smix2 (replicate 128 7) 1 768 684 (zeroMem, Some zeroBox) = Some (b', m', Some c') \<and>
    length b' = length (replicate 128 (7 :: byte)) \<and> memV m' = memV zeroMem"
  by (rule second_phase_reads_only [OF zeroMem_room(1) zeroBox_fits]) simp_all

end
