(* ===== verification/Spec2Isabelle.thy ===== *)
theory Spec2Isabelle
  imports WireProperties ConsensusProperties ScriptProperties ChainProperties MempoolProperties MiningProperties GuardProperties TokenProperties
    P2PProperties YespowerProperties
begin

text \<open>
  A verification of the core of the LegacyCoin node (Go sources under \<^verbatim>\<open>src/internal\<close>): what
  travels on the wire, what a block and a transaction must satisfy, how the chain of blocks is
  stored, extended, reorganised and recovered, how the transaction pool is kept, how a node mines
  and when it may, and how it talks to its peers.

  \<^bold>\<open>The program and the theories.\<close> A message from a peer is decoded (\<^verbatim>\<open>wire\<close>), its scripts are
  interpreted (\<^verbatim>\<open>script\<close>), a block is checked against the difficulty rule (\<^verbatim>\<open>consensus\<close>), the
  money supply (\<^verbatim>\<open>chaincfg\<close>) and the outputs it spends (\<^verbatim>\<open>blockchain\<close>), and written to disk with
  its undo data (\<^verbatim>\<open>storage\<close>); transactions wait in the pool (\<^verbatim>\<open>mempool\<close>) until a block takes
  them, which the miner builds (\<^verbatim>\<open>mining\<close>) while the guard of the RPC server says that mining is safe
  (\<^verbatim>\<open>rpc\<close>); the peer-to-peer server (\<^verbatim>\<open>p2p\<close>) drives all of this with what its connections
  bring and passes it on. Definitions keep the names of the source; record fields carry a two-letter prefix.

  \<^item> \<open>Prelude\<close>: readers and writers of byte strings, the \<open>codec\<close> locale with its laws (a decoder
    inverts an encoder and consumes exactly what was written) and what follows from them once,
    hexadecimal and decimal text. \<open>Sha256\<close>: SHA-256 written out, \<^verbatim>\<open>chainhash/hash.go\<close>.
  \<^item> \<open>WireBase\<close>, \<open>WireTx\<close>, \<open>WireMsgs\<close>, \<open>WireCompact\<close>: \<^verbatim>\<open>wire/*.go\<close>; every encoder and decoder with an
    interpretation of \<open>codec\<close>; the Merkle root; the short-id hash.
  \<^item> \<open>ChainCfg\<close>, \<open>Amount\<close>, \<open>Consensus\<close>, \<open>Address\<close>: \<^verbatim>\<open>chaincfg/params.go\<close>, \<^verbatim>\<open>amount/amount.go\<close>,
    \<^verbatim>\<open>consensus/target.go\<close>, \<^verbatim>\<open>address/*.go\<close> and the key formats of \<^verbatim>\<open>pqc/hybrid.go\<close>.
  \<^item> \<open>ScriptTemplates\<close>, \<open>ScriptEval\<close>, \<open>ScriptVerify\<close>: \<^verbatim>\<open>script/script.go\<close>: templates and pushes, the
    interpreter, the signature hash and the verifiers.
  \<^item> \<open>ChainTypes\<close>, \<open>Storage\<close>, \<open>StorageCrash\<close>: the records of \<^verbatim>\<open>blockchain/blockchain.go\<close> and the file
    store of \<^verbatim>\<open>storage/filestore.go\<close>. A file is an entry of a map from names to decoded contents.
    An operation that writes several files is a list of steps, so a crash is a prefix of the
    list, and recovery is run on what the prefix leaves.
  \<^item> \<open>StateError\<close>, \<open>Genesis\<close>, \<open>BlockValidation\<close>, \<open>BlockAccounting\<close>, \<open>Chain\<close>, \<open>ChainForks\<close>: the block
    checks as loops over a record of the loop's variables, and the chain: connect, disconnect,
    orphans, side branches, reorganisation, start-up, queries. An operation is a function from a
    state to a result and a state; what was changed before an error stays changed.
  \<^item> \<open>ChainSteps\<close>, \<open>ChainInvariant\<close>, \<open>Ledger\<close>, \<open>LedgerOps\<close>, \<open>OrphanPool\<close>, \<open>RoundTrip\<close>, \<open>Reorg\<close>: reachable
    states and their invariants, by the locale \<open>chain_invariant\<close> whose interpretations are the
    ledger, the orphan pool and quietness of failed operations.
  \<^item> \<open>MempoolPolicy\<close>, \<open>Mempool\<close>: \<^verbatim>\<open>mempool/mempool.go\<close>. \<open>MempoolInvariant\<close>, \<open>MempoolOps\<close>,
    \<open>MempoolAdd\<close>, \<open>MempoolOrder\<close>, \<open>MempoolAccept\<close>: its invariant (locale \<open>pool_invariant\<close>,
    interpreted by the invariant and by reachability itself), the recursion of \<open>Add\<close>, the listing
    order and what an admitted transaction has passed.
  \<^item> \<open>Mining\<close>, \<open>MiningSearch\<close>, \<open>MiningTemplate\<close>: \<^verbatim>\<open>mining/miner.go\<close>: the template, the search for a
    nonce by several workers that can be cancelled, the events \<open>MineBlock\<close> waits for, what is done
    with a solved block, and why a template connects.
  \<^item> \<open>MiningSafety\<close>, \<open>MiningRate\<close>, \<open>MiningGuard\<close>: \<^verbatim>\<open>rpc/mining_safety.go\<close> and
    \<^verbatim>\<open>rpc/mining_safety_server.go\<close>: the decision whether mining is safe, its floating-point
    stale-rate test, and the grace periods that the server keeps between two checks.
  \<^item> \<open>Tokens\<close>, \<open>TokenCurve\<close>: \<^verbatim>\<open>tokens/*.go\<close>: operations, their markers, the bonding curve.
  \<^item> \<open>P2PNet\<close>, \<open>P2PPeer\<close>, \<open>P2PNode\<close>, \<open>P2PGossip\<close>, \<open>P2PHandler\<close>: \<^verbatim>\<open>p2p/server.go\<close> and
    \<^verbatim>\<open>p2p/announce.go\<close>: address texts; what is kept of a peer and of peers; the node with chain and
    pool, its requests and answers; addresses and dials; and one function for each event: a
    message, a dial's end, a timer, a task, an operator call, and a step of a goroutine that has
    not registered its connection yet (\<open>joinStep\<close>: a check, or the registration). \<open>P2PInvariant\<close>,
    \<open>P2PRun\<close>, \<open>P2PDial\<close>: relations that every step keeps to, as interpretations of the locales
    \<open>steps\<close>, \<open>gossip_steps\<close> and \<open>node_steps\<close>, and the runs of a node (\<open>net_run\<close>), in which those
    goroutines move in any order among the other events. \<open>P2PTalk\<close>, \<open>P2PRelay\<close>, \<open>P2PBounds\<close>: what
    peers read, who hears of news, and what the limits amount to.
  \<^item> \<open>Yespower\<close>, \<open>YespowerMix\<close>: the pure Go proof-of-work hash, \<^verbatim>\<open>pow/yespower_pure.go\<close>, with its
    memory as lists of 64-byte blocks and every access checked (\<open>None\<close> is a panic).
    \<open>YespowerBlocks\<close> (blocks as words, Salsa20), \<open>YespowerSpec\<close> (the S-box rounds return),
    \<open>YespowerMixing\<close> and \<open>YespowerLoops\<close> (the in-place loops compute \<open>BlockMix\<close>),
    \<open>YespowerFill\<close> (the doubling loops compute the specified sequence), \<open>YespowerTotal\<close>
    (the phases and the hash return).
  \<^item> \<open>SampleChain\<close>, \<open>SampleMempool\<close>, \<open>SampleMining\<close>, \<open>P2PSample\<close>: concrete states for the
    witnesses. The \<open>...Properties\<close> theories hold the numbered properties.

  \<^bold>\<open>What is a parameter.\<close> Third-party cryptography (the record \<open>crypto\<close>: ECDSA, ML-DSA, RIPEMD-160,
  DER parsing) and, for the chain, the proof-of-work hash of a header (\<open>en_HashHeader\<close>: the C back end in
  production) are arguments without any assumption on them. The clock is read once per operation and passed in. Go leaves the order
  of a \<open>range\<close> over a map open: the pool's and the node's operations take it as an argument that
  lists a set, and their properties hold for every such argument. \<open>json.Marshal\<close> of token
  operations, the parser of \<open>big.Rat\<close>, the outcome of each write to a connection, error texts in
  reject messages, nonces and the answers of name servers are arguments too.

  \<^bold>\<open>Abstractions.\<close> Operations that hold a lock are atomic. JSON files are their typed contents,
  replacing a file is atomic (\<^verbatim>\<open>fsutil\<close> writes a temporary file and renames it). Texts of errors
  are constructors of an error datatype. Machine integers keep their width where the code can
  overflow (\<open>int64\<close> money, \<open>uint32\<close> times, \<open>int32\<close> heights); lengths are natural numbers.

  \<^bold>\<open>Fuel.\<close> Loops that the code bounds only through the shape of its data take a number of rounds:
  \<open>repair_walk\<close> (one per stored height, \<open>height_lookup_ends\<close>), \<open>chainwork_rec\<close> (one per stored or
  side block), \<open>side_path\<close> and \<open>disconnect_to\<close> (one per side block, per height), \<open>accept_queue\<close>
  (one per orphan and one more, \<open>orphan_loop_ends\<close>), \<open>removeEntryF\<close>, \<open>ancestorDepthF\<close> and \<open>visitF\<close>
  (one per entry: links are acyclic), \<open>addTxF\<close> and \<open>promoteOrphans\<close> (one per orphan,
  \<open>add_terminates\<close>). Where the fuel can run out on a cyclic store the result is \<open>ErrDiverges\<close>.

  \<^bold>\<open>Not modelled.\<close> Sockets, deadlines and the interleaving of goroutines within one of the steps above; the
  reports of the servers (peer and health listings, log lines); the RPC and Stratum servers apart
  from the mining guard; the wallet's key files; clients of other chains and the language-model
  agent; the cgo back end of the proof-of-work hash; the REST and command-line front ends. They are input and output
  around the operations above.
\<close>

end
